(* ===== verification/Prelude.thy ===== *)
theory Prelude
  imports Complex_Main "HOL-Library.Char_ord" "HOL-Library.List_Lexorder"
    "HOL-Library.Product_Lexorder" "HOL-Library.Multiset"
begin

text \<open>
  Shared vocabulary of the development: database tables as lists of rows with a key, the
  two queries the program runs on them (primary-key lookup and update by key), row counts,
  the lease columns that several tables share, enumerations with an order of steps, and
  time as UTC microseconds.

  The named collections carry the component proofs: \<open>table_simps\<close> rewrites lookups after
  updates, \<open>count_simps\<close> moves row counts over updates.
\<close>

named_theorems table_simps \<open>lookups in a table after an update\<close>
named_theorems count_simps \<open>row counts after an update or an insert\<close>


section \<open>Time\<close>

type_synonym time = int

definition seconds :: "int \<Rightarrow> int" where
  "seconds s = s * 1000000"

definition hours :: "int \<Rightarrow> int" where
  "hours h = h * 3600000000"

lemma seconds_mono [simp]: "seconds a \<le> seconds b \<longleftrightarrow> a \<le> b"
  by (simp add: seconds_def)

lemma seconds_less [simp]: "seconds a < seconds b \<longleftrightarrow> a < b"
  by (simp add: seconds_def)

lemma seconds_pos [simp]: "0 < seconds a \<longleftrightarrow> 0 < a"
  by (simp add: seconds_def)

lemma hours_pos [simp]: "0 < hours a \<longleftrightarrow> 0 < a"
  by (simp add: hours_def)


section \<open>Results\<close>

text \<open>
  A computation that may raise is a sum, \<open>Inl\<close> the error. \<open>bindE\<close> sequences two of them:
  an error of the first is the error of both.
\<close>

definition bindE :: "'e + 'a \<Rightarrow> ('a \<Rightarrow> 'e + 'b) \<Rightarrow> 'e + 'b" where
  "bindE x f = (case x of Inl e \<Rightarrow> Inl e | Inr a \<Rightarrow> f a)"

lemma bindE_simps [simp]: "bindE (Inl e) f = Inl e" "bindE (Inr a) f = f a"
  by (simp_all add: bindE_def)

lemma bindE_Inr: "bindE x f = Inr b \<longleftrightarrow> (\<exists>a. x = Inr a \<and> f a = Inr b)"
  by (cases x) auto

lemma bindE_Inl: "bindE x f = Inl e \<longleftrightarrow> x = Inl e \<or> (\<exists>a. x = Inr a \<and> f a = Inl e)"
  by (cases x) auto


section \<open>Tables\<close>

text \<open>
  A table is the list of its rows. \<open>tget\<close> is a primary-key read (\<open>session.get\<close>,
  \<open>scalar_one_or_none\<close>), \<open>tupd\<close> a write to the row with that key, \<open>uniq\<close> the
  primary-key constraint.
\<close>

definition tget :: "('r \<Rightarrow> 'k) \<Rightarrow> 'k \<Rightarrow> 'r list \<Rightarrow> 'r option" where
  "tget key k rows = find (\<lambda>r. key r = k) rows"

definition tupd :: "('r \<Rightarrow> 'k) \<Rightarrow> 'k \<Rightarrow> ('r \<Rightarrow> 'r) \<Rightarrow> 'r list \<Rightarrow> 'r list" where
  "tupd key k f rows = map (\<lambda>r. if key r = k then f r else r) rows"

definition uniq :: "('r \<Rightarrow> 'k) \<Rightarrow> 'r list \<Rightarrow> bool" where
  "uniq key rows = distinct (map key rows)"

text \<open>Insert a row unless one with its key is there (\<open>INSERT ... ON CONFLICT DO NOTHING\<close>).\<close>

definition tensure :: "('r \<Rightarrow> 'k) \<Rightarrow> 'r \<Rightarrow> 'r list \<Rightarrow> 'r list" where
  "tensure key new rows = (case tget key (key new) rows of None \<Rightarrow> rows @ [new] | Some _ \<Rightarrow> rows)"

text \<open>\<open>ORDER BY key LIMIT 1\<close>.\<close>

definition first_by :: "('r \<Rightarrow> 'k::linorder) \<Rightarrow> 'r list \<Rightarrow> 'r option" where
  "first_by key rows = (case sort_key key rows of [] \<Rightarrow> None | r # _ \<Rightarrow> Some r)"

text \<open>Number of rows that satisfy a predicate.\<close>

definition rcount :: "('r \<Rightarrow> bool) \<Rightarrow> 'r list \<Rightarrow> nat" where
  "rcount P rows = length (filter P rows)"

lemma tget_Nil [simp]: "tget key k [] = None"
  by (simp add: tget_def)

lemma tget_Cons [simp]:
  "tget key k (r # rows) = (if key r = k then Some r else tget key k rows)"
  by (simp add: tget_def)

lemma tupd_Nil [simp]: "tupd key k f [] = []"
  by (simp add: tupd_def)

lemma tupd_Cons [simp]:
  "tupd key k f (r # rows) = (if key r = k then f r else r) # tupd key k f rows"
  by (simp add: tupd_def)

lemma tget_SomeD: "tget key k rows = Some r \<Longrightarrow> r \<in> set rows \<and> key r = k"
  by (induction rows) (auto split: if_splits)

lemma tget_key [dest]: "tget key k rows = Some r \<Longrightarrow> key r = k"
  by (rule tget_SomeD [THEN conjunct2])

lemma tget_NoneD: "tget key k rows = None \<Longrightarrow> r \<in> set rows \<Longrightarrow> key r \<noteq> k"
  by (induction rows) (auto split: if_splits)

lemma tget_None_iff: "tget key k rows = None \<longleftrightarrow> k \<notin> key ` set rows"
  by (induction rows) auto

lemma tget_uniq: "uniq key rows \<Longrightarrow> r \<in> set rows \<Longrightarrow> tget key (key r) rows = Some r"
  by (induction rows) (auto simp: uniq_def)

lemma tget_append [table_simps]:
  "tget key k (xs @ ys) = (case tget key k xs of None \<Rightarrow> tget key k ys | Some r \<Rightarrow> Some r)"
  by (induction xs) auto

lemma tget_tupd [table_simps]:
  assumes "\<And>r. key (f r) = key r"
  shows "tget key k' (tupd key k f rows) =
    (if k' = k then map_option f (tget key k rows) else tget key k' rows)"
  using assms by (induction rows) auto

lemma map_key_tupd [table_simps]:
  assumes "\<And>r. g (f r) = g r"
  shows "map g (tupd key k f rows) = map g rows"
  using assms by (induction rows) auto

lemma uniq_tupd [table_simps]:
  assumes "\<And>r. g (f r) = g r"
  shows "uniq g (tupd key k f rows) = uniq g rows"
  using assms by (simp add: uniq_def map_key_tupd)

lemma uniq_snoc [table_simps]:
  "uniq g (rows @ [r]) \<longleftrightarrow> uniq g rows \<and> g r \<notin> g ` set rows"
  by (auto simp: uniq_def)

text \<open>The same when the write keeps the key of the row it hits, as overwriting a whole row does.\<close>

lemma tget_tupd_at:
  assumes "\<And>r. key r = k \<Longrightarrow> key (f r) = k"
  shows "tget key k' (tupd key k f rows) =
    (if k' = k then map_option f (tget key k rows) else tget key k' rows)"
  using assms by (induction rows) auto

lemma uniq_tupd_at:
  assumes "\<And>r. key r = k \<Longrightarrow> key (f r) = k"
  shows "uniq key (tupd key k f rows) = uniq key rows"
proof -
  have "map key (tupd key k f rows) = map key rows"
    using assms by (induction rows) auto
  then show ?thesis by (simp add: uniq_def)
qed

lemma tget_tensure [table_simps]:
  "tget key k (tensure key new rows) =
     (if k = key new then Some (case tget key k rows of None \<Rightarrow> new | Some r \<Rightarrow> r)
      else tget key k rows)"
  by (auto simp: tensure_def tget_append split: option.splits)

lemma uniq_tensure [table_simps]: "uniq key (tensure key new rows) = uniq key rows"
  by (auto simp: tensure_def uniq_snoc tget_None_iff split: option.splits)

lemma set_tupd_subset: "set (tupd key k f rows) \<subseteq> set rows \<union> f ` {r \<in> set rows. key r = k}"
  by (induction rows) auto

lemma tupd_absent: "tget key k rows = None \<Longrightarrow> tupd key k f rows = rows"
  by (induction rows) (auto split: if_splits)

lemma tupd_snoc_fresh:
  "key r \<notin> key ` set rows \<Longrightarrow> tupd key (key r) f (rows @ [r]) = rows @ [f r]"
  by (induction rows) auto

lemma tget_snoc_fresh:
  "key r \<notin> key ` set rows \<Longrightarrow> tget key (key r) (rows @ [r]) = Some r"
  by (induction rows) auto

lemma tupd_id [simp]: "(\<And>r. f r = r) \<Longrightarrow> tupd key k f rows = rows"
  by (induction rows) auto

lemma length_tupd [simp]: "length (tupd key k f rows) = length rows"
  by (simp add: tupd_def)

lemma rcount_Nil [simp]: "rcount P [] = 0"
  by (simp add: rcount_def)

lemma rcount_Cons [simp]: "rcount P (r # rows) = (if P r then Suc (rcount P rows) else rcount P rows)"
  by (simp add: rcount_def)

lemma rcount_append [count_simps]: "rcount P (xs @ ys) = rcount P xs + rcount P ys"
  by (simp add: rcount_def)

lemma rcount_zero: "(\<And>r. r \<in> set rows \<Longrightarrow> \<not> P r) \<Longrightarrow> rcount P rows = 0"
  by (induction rows) auto

lemma rcount_pos: "r \<in> set rows \<Longrightarrow> P r \<Longrightarrow> 0 < rcount P rows"
  by (induction rows) auto

lemma rcount_mono: "(\<And>r. r \<in> set rows \<Longrightarrow> P r \<Longrightarrow> Q r) \<Longrightarrow> rcount P rows \<le> rcount Q rows"
  by (induction rows) (auto simp: le_SucI)

lemma rcount_cong: "(\<And>r. r \<in> set rows \<Longrightarrow> P r = Q r) \<Longrightarrow> rcount P rows = rcount Q rows"
  by (induction rows) auto

text \<open>Writing a row that keeps a predicate keeps the count of that predicate.\<close>

lemma rcount_tupd_same [count_simps]:
  assumes "\<And>r. P (f r) = P r"
  shows "rcount P (tupd key k f rows) = rcount P rows"
  using assms by (induction rows) auto

lemma rcount_tupd_absent:
  "k \<notin> key ` set rows \<Longrightarrow> rcount P (tupd key k f rows) = rcount P rows"
  by (induction rows) auto

text \<open>Under the key constraint a write to one row changes the count by that row alone.\<close>

lemma rcount_tupd:
  assumes "uniq key rows" and "tget key k rows = Some r"
  shows "rcount P (tupd key k f rows) + of_bool (P r) = rcount P rows + of_bool (P (f r))"
  using assms
proof (induction rows)
  case Nil
  then show ?case by simp
next
  case (Cons a rows)
  show ?case
  proof (cases "key a = k")
    case True
    with Cons.prems have "a = r" "k \<notin> key ` set rows"
      by (auto simp: uniq_def)
    with True show ?thesis by (simp add: rcount_tupd_absent)
  next
    case False
    with Cons show ?thesis by (auto simp: uniq_def)
  qed
qed

text \<open>A write that makes one row satisfy a predicate no row satisfied before.\<close>

lemma filter_tupd_hit:
  assumes "uniq key rows" and "tget key k rows = Some r"
    and "\<And>x. x \<in> set rows \<Longrightarrow> \<not> P x" and "P (f r)"
  shows "filter P (tupd key k f rows) = [f r]"
  using assms
proof (induction rows)
  case (Cons a rows)
  show ?case
  proof (cases "key a = k")
    case True
    with Cons.prems have "a = r" and absent: "k \<notin> key ` set rows"
      by (auto simp: uniq_def)
    have "tupd key k f rows = rows"
      using absent by (intro tupd_absent) (simp add: tget_None_iff)
    with True \<open>a = r\<close> Cons.prems show ?thesis by (simp add: filter_empty_conv)
  next
    case False
    with Cons show ?thesis by (simp add: uniq_def)
  qed
qed simp

lemma first_by_SomeD: "first_by key rows = Some r \<Longrightarrow> r \<in> set rows"
  by (metis first_by_def list.case_eq_if list.set_sel(1) option.distinct(1) option.inject set_sort)

lemma first_by_least:
  assumes "first_by key rows = Some r" and "x \<in> set rows"
  shows "key r \<le> key x"
proof -
  from assms(1) obtain rest where s: "sort_key key rows = r # rest"
    by (auto simp: first_by_def split: list.splits)
  have "sorted (map key (r # rest))"
    using sorted_sort_key [of key rows] s by simp
  moreover have "x \<in> set (r # rest)"
    using assms(2) s by (metis set_sort)
  ultimately show ?thesis by auto
qed

lemma first_by_None [simp]: "first_by key rows = None \<longleftrightarrow> rows = []"
proof -
  have "sort_key key rows = [] \<longleftrightarrow> rows = []"
    by (metis length_0_conv length_sort)
  then show ?thesis
    by (auto simp: first_by_def split: list.splits)
qed

lemma first_by_single [simp]: "first_by key [r] = Some r"
  by (simp add: first_by_def)


section \<open>Lease columns\<close>

text \<open>
  Every queue-like table (resources, pool members, permission sync targets) has the
  columns \<open>worker_id\<close>, \<open>worker_lease_until\<close> and \<open>next_retry_at\<close>. A row can be
  claimed when no worker holds it or the lease has run out, and when its retry time has come.
\<close>

definition lease_available :: "string option \<Rightarrow> time option \<Rightarrow> time \<Rightarrow> bool" where
  "lease_available worker lease now =
     (worker = None \<or> (case lease of None \<Rightarrow> True | Some t \<Rightarrow> t \<le> now))"

definition retry_due :: "time option \<Rightarrow> time \<Rightarrow> bool" where
  "retry_due next_retry now = (case next_retry of None \<Rightarrow> True | Some t \<Rightarrow> t \<le> now)"

lemma lease_available_None [simp]: "lease_available None l now"
  by (simp add: lease_available_def)

lemma lease_held [simp]: "lease_available (Some w) (Some t) now \<longleftrightarrow> t \<le> now"
  by (simp add: lease_available_def)

lemma retry_due_simps [simp]:
  "retry_due None now" "retry_due (Some t) now \<longleftrightarrow> t \<le> now"
  by (simp_all add: retry_due_def)

text \<open>
  The contract of a claimable row. \<open>set_claim\<close> is the write of the two lease columns by a
  claim; the laws say that it writes those columns and nothing that identifies the row.
\<close>

locale claimable =
  fixes key :: "'r \<Rightarrow> string"
    and worker :: "'r \<Rightarrow> string option"
    and lease :: "'r \<Rightarrow> time option"
    and set_claim :: "string option \<Rightarrow> time option \<Rightarrow> 'r \<Rightarrow> 'r"
  assumes key_claim [simp]: "key (set_claim w l r) = key r"
    and worker_claim [simp]: "worker (set_claim w l r) = w"
    and lease_claim [simp]: "lease (set_claim w l r) = l"
begin

lemma claimed_row:
  "tget key k rows = Some r \<Longrightarrow>
   tget key k (tupd key k (set_claim w l) rows) = Some (set_claim w l r)"
  by (simp add: tget_tupd)

text \<open>
  After a claim no worker can claim the row before the lease runs out: the row that every
  later read of the table returns is not available.
\<close>

lemma claim_excludes:
  assumes "tget key k (tupd key k (set_claim (Some w) (Some t)) rows) = Some r" and "now < t"
  shows "\<not> lease_available (worker r) (lease r) now"
  using assms by (auto simp: tget_tupd)

lemma claim_other_rows:
  "k' \<noteq> k \<Longrightarrow> tget key k' (tupd key k (set_claim w l) rows) = tget key k' rows"
  by (simp add: tget_tupd)

text \<open>Releasing makes the row available at once.\<close>

lemma release_available:
  assumes "tget key k (tupd key k (set_claim None None) rows) = Some r"
  shows "lease_available (worker r) (lease r) now"
  using assms by (auto simp: tget_tupd)

end


section \<open>Chains of steps\<close>

text \<open>
  The lifecycles of the program advance through enumerations one step at a time, by a
  dictionary \<open>next\<close>. A rank that grows along \<open>next\<close> makes the walk finite.
\<close>

locale step_chain =
  fixes nxt :: "'s \<Rightarrow> 's option" and rank :: "'s \<Rightarrow> nat" and top :: nat
  assumes rank_next: "nxt s = Some s' \<Longrightarrow> rank s' = Suc (rank s)"
    and rank_top: "rank s \<le> top"
begin

lemma next_irrefl: "nxt s \<noteq> Some s"
  using rank_next by fastforce

lemma next_distance: "nxt s = Some s' \<Longrightarrow> top - rank s' < top - rank s"
  using rank_next [of s s'] rank_top [of s'] by simp

inductive chain :: "'s \<Rightarrow> 's \<Rightarrow> bool" where
  chain_refl: "chain s s"
| chain_step: "nxt s = Some s' \<Longrightarrow> chain s' t \<Longrightarrow> chain s t"

lemma chain_rank: "chain s t \<Longrightarrow> rank s \<le> rank t"
  by (induction rule: chain.induct) (auto dest: rank_next)

lemma chain_antisym: "chain s t \<Longrightarrow> chain t s \<Longrightarrow> s = t"
proof (induction rule: chain.induct)
  case (chain_step s s' t)
  from chain_step.prems have "rank t \<le> rank s" by (rule chain_rank)
  moreover from chain_step.hyps(1) have "rank s' = Suc (rank s)" by (rule rank_next)
  moreover from chain_step.hyps(2) have "rank s' \<le> rank t" by (rule chain_rank)
  ultimately show ?case by simp
qed simp

end


section \<open>Association lists\<close>

lemma map_of_filter:
  "distinct (map fst xs) \<Longrightarrow>
    map_of (filter P xs) k = (case map_of xs k of Some b \<Rightarrow> if P (k, b) then Some b else None | None \<Rightarrow> None)"
proof (induction xs)
  case (Cons x xs)
  have "map_of (filter P xs) k = None" if "fst x = k"
    using Cons.prems that by (auto simp: map_of_eq_None_iff)
  then show ?case using Cons by (cases x) auto
qed simp

lemma distinct_filter_keys: "distinct (map fst xs) \<Longrightarrow> distinct (map fst (filter P xs))"
  by (simp add: distinct_map_filter)

end
