(* ===== verification/Models.thy ===== *)
theory Models
  imports Prelude
begin

text \<open>
  The metadata database of the server: the enumerations and tables of \<open>server/models\<close>
  that provisioning reads and writes, the errors the provisioning code raises, and the
  provisioning section of the configuration. A table row is a record whose fields carry a
  one-letter prefix of the table (\<open>r_\<close> resources, \<open>m_\<close> pool members, \<open>p_\<close> pools,
  \<open>b_\<close> backends, ...) and otherwise the column's name. A nullable column is an option.
  Timestamps are UTC microseconds.

  \<open>metadb\<close> is the whole store. A transaction that commits is a function on it; one that
  raises leaves it as it was, so a fallible operation returns \<open>py_error + ('a \<times> metadb)\<close>.
\<close>


section \<open>Errors\<close>

datatype py_error =
    CapacityUnavailable
  | RateLimited
  | PoolCapacityLimitReached
  | PurchaseProfileUpgradeRequired
  | LegacyPoolStatePresent string
  | DedicatedMemberNotReady
  | InvalidClientToken
  | UnsupportedDBType
  | IdempotencyConflict
  | NoProvisioningBackend
  | CapacityExhausted
  | DBInstanceNotFound
  | DBInstanceServiceError string
  | NoEligibleProvisioningBackend
  | CapacityAccountingError string
  | AdapterNotFound
  | IntegrityError
  | ResourceSessionNotIdle
  | ValueError string
  | KeyError
  | ZeroDivisionError
  | LookupError string
  | RuntimeError string
  | DedicatedGrantVerificationError
  | DedicatedPoolProvisioningError string
  | OpenAPIError string
  | PermissionSyncError
  | PermissionSyncConfirmationRequired
  | PermissionSyncTargetNotFound
  | OtherError string

text \<open>\<open>type(error).__name__\<close>, which the workers store in \<open>failure_reason\<close>.\<close>

fun type_name :: "py_error \<Rightarrow> string" where
  "type_name CapacityUnavailable = ''CapacityUnavailable''"
| "type_name RateLimited = ''RateLimited''"
| "type_name PoolCapacityLimitReached = ''PoolCapacityLimitReached''"
| "type_name PurchaseProfileUpgradeRequired = ''PurchaseProfileUpgradeRequired''"
| "type_name (LegacyPoolStatePresent _) = ''LegacyPoolStatePresent''"
| "type_name DedicatedMemberNotReady = ''DedicatedMemberNotReady''"
| "type_name InvalidClientToken = ''InvalidClientToken''"
| "type_name UnsupportedDBType = ''UnsupportedDBType''"
| "type_name IdempotencyConflict = ''IdempotencyConflict''"
| "type_name NoProvisioningBackend = ''NoProvisioningBackend''"
| "type_name CapacityExhausted = ''CapacityExhausted''"
| "type_name DBInstanceNotFound = ''DBInstanceNotFound''"
| "type_name (DBInstanceServiceError _) = ''DBInstanceServiceError''"
| "type_name NoEligibleProvisioningBackend = ''NoEligibleProvisioningBackend''"
| "type_name (CapacityAccountingError _) = ''CapacityAccountingError''"
| "type_name AdapterNotFound = ''AdapterNotFound''"
| "type_name IntegrityError = ''IntegrityError''"
| "type_name ResourceSessionNotIdle = ''ResourceSessionNotIdle''"
| "type_name (ValueError _) = ''ValueError''"
| "type_name KeyError = ''KeyError''"
| "type_name ZeroDivisionError = ''ZeroDivisionError''"
| "type_name (LookupError _) = ''LookupError''"
| "type_name (RuntimeError _) = ''RuntimeError''"
| "type_name DedicatedGrantVerificationError = ''DedicatedGrantVerificationError''"
| "type_name (DedicatedPoolProvisioningError _) = ''DedicatedPoolProvisioningError''"
| "type_name (OpenAPIError _) = ''OpenAPIError''"
| "type_name PermissionSyncError = ''PermissionSyncError''"
| "type_name PermissionSyncConfirmationRequired = ''PermissionSyncConfirmationRequired''"
| "type_name PermissionSyncTargetNotFound = ''PermissionSyncTargetNotFound''"
| "type_name (OtherError n) = n"


section \<open>Enumerations\<close>

datatype db_instance_status =
    ST_CREATING | ST_READY | ST_FAILED | ST_DELETING | ST_COOLING_DOWN
  | ST_RESTORING | ST_DELETED | ST_DELETE_FAILED

datatype lease_provisioning_step =
    PS_PENDING | PS_RESOURCE_CONFIG_CREATED | PS_TENANT_CREATED | PS_USER_CREATED
  | PS_DATABASE_CREATED | PS_GRANTED | PS_VERIFIED

datatype lease_cleanup_step =
    CS_PENDING | CS_DATABASE_DROPPED | CS_TENANT_DROPPED | CS_RESOURCE_CONFIG_DROPPED
  | CS_RESIDUE_VERIFIED

datatype delete_lifecycle_step =
    DS_PENDING | DS_ACCOUNT_LOCKED | DS_SESSIONS_TERMINATED | DS_DISCONNECTED
  | DS_COOLING_DOWN | DS_LOGICAL_CLEANUP | DS_PHYSICAL_DESTROY | DS_SANITIZE_DISPATCH
  | DS_COMPLETE

datatype provisioning_mode = MODE_DEDICATED | MODE_MULTITENANT

fun mode_value :: "provisioning_mode \<Rightarrow> string" where
  "mode_value MODE_DEDICATED = ''dedicated''"
| "mode_value MODE_MULTITENANT = ''multitenant''"

datatype instance_engine = POLARDB_MYSQL

datatype instance_topology = SINGLE_TENANT | MULTITENANT

datatype allocation_mode = AM_AUTO_PROVISIONED | AM_POOLED | AM_REGISTERED | AM_DEDICATED_POOL

datatype instance_status = IS_CREATING | IS_ACTIVE | IS_STOPPED | IS_FAILED

datatype agent_status = AG_ACTIVE | AG_DISABLED

datatype backend_status = BS_ACTIVE | BS_DRAINING | BS_DISABLED

datatype backend_type = BT_MULTITENANT | BT_DEDICATED_POOL

datatype credential_purpose = PROVISIONING_ADMIN | DIRECT_ACCESS | RESOURCE_ACCESS

datatype credential_capability = CC_READONLY | CC_READWRITE | CC_ADMIN

datatype credential_status = CRED_ACTIVE | CRED_REVOKED

datatype pool_status = POOL_ACTIVE | POOL_DRAINING | POOL_DISABLED

datatype member_status =
    MS_REPLENISHING | MS_AVAILABLE | MS_ALLOCATED_PREPARING | MS_ALLOCATED | MS_COOLING_DOWN
  | MS_SANITIZING | MS_QUARANTINED | MS_DELETING | MS_DELETED

datatype readiness_status = RS_FRESH | RS_STALE | RS_CHECKING

datatype preparation_step =
    PREP_PENDING | PREP_PURCHASE_INTENT_STORED | PREP_PURCHASE_REQUESTED | PREP_CLUSTER_READY
  | PREP_ENDPOINT_RESOLVED | PREP_LIFECYCLE_ACCOUNT_STORED | PREP_LIFECYCLE_ACCOUNT_CREATED
  | PREP_SANDBOX_ACCOUNT_STORED | PREP_SANDBOX_ACCOUNT_CREATED | PREP_DATABASE_CREATED
  | PREP_OPENAPI_READY | PREP_PRIVILEGES_GRANTED | PREP_VERIFIED

datatype reclaim_policy = DESTROY | SANITIZE_AND_REUSE

datatype sync_mode = SYNC_DRY_RUN | SYNC_APPLY

datatype sync_status = SYNC_PENDING | SYNC_RUNNING | SYNC_SUCCEEDED | SYNC_FAILED

datatype sync_target_status = TGT_PENDING | TGT_RUNNING | TGT_SUCCEEDED | TGT_FAILED

text \<open>
  The step enumerations are ordered as they are declared; the order is used to state that
  a lifecycle only moves forward.
\<close>

fun ps_rank :: "lease_provisioning_step \<Rightarrow> nat" where
  "ps_rank PS_PENDING = 0"
| "ps_rank PS_RESOURCE_CONFIG_CREATED = 1"
| "ps_rank PS_TENANT_CREATED = 2"
| "ps_rank PS_USER_CREATED = 3"
| "ps_rank PS_DATABASE_CREATED = 4"
| "ps_rank PS_GRANTED = 5"
| "ps_rank PS_VERIFIED = 6"

fun cs_rank :: "lease_cleanup_step \<Rightarrow> nat" where
  "cs_rank CS_PENDING = 0"
| "cs_rank CS_DATABASE_DROPPED = 1"
| "cs_rank CS_TENANT_DROPPED = 2"
| "cs_rank CS_RESOURCE_CONFIG_DROPPED = 3"
| "cs_rank CS_RESIDUE_VERIFIED = 4"

fun prep_rank :: "preparation_step \<Rightarrow> nat" where
  "prep_rank PREP_PENDING = 0"
| "prep_rank PREP_PURCHASE_INTENT_STORED = 1"
| "prep_rank PREP_PURCHASE_REQUESTED = 2"
| "prep_rank PREP_CLUSTER_READY = 3"
| "prep_rank PREP_ENDPOINT_RESOLVED = 4"
| "prep_rank PREP_LIFECYCLE_ACCOUNT_STORED = 5"
| "prep_rank PREP_LIFECYCLE_ACCOUNT_CREATED = 6"
| "prep_rank PREP_SANDBOX_ACCOUNT_STORED = 7"
| "prep_rank PREP_SANDBOX_ACCOUNT_CREATED = 8"
| "prep_rank PREP_DATABASE_CREATED = 9"
| "prep_rank PREP_OPENAPI_READY = 10"
| "prep_rank PREP_PRIVILEGES_GRANTED = 11"
| "prep_rank PREP_VERIFIED = 12"

lemma ps_rank_inj: "ps_rank a = ps_rank b \<Longrightarrow> a = b"
  by (cases a; cases b) auto

lemma cs_rank_inj: "cs_rank a = cs_rank b \<Longrightarrow> a = b"
  by (cases a; cases b) auto

lemma prep_rank_inj: "prep_rank a = prep_rank b \<Longrightarrow> a = b"
  by (cases a; cases b) auto

instantiation lease_provisioning_step :: linorder
begin

definition less_eq_lease_provisioning_step ::
    "lease_provisioning_step \<Rightarrow> lease_provisioning_step \<Rightarrow> bool" where
  "less_eq_lease_provisioning_step a b = (ps_rank a \<le> ps_rank b)"

definition less_lease_provisioning_step ::
    "lease_provisioning_step \<Rightarrow> lease_provisioning_step \<Rightarrow> bool" where
  "less_lease_provisioning_step a b = (ps_rank a < ps_rank b)"

instance
  by standard
    (auto simp: less_eq_lease_provisioning_step_def less_lease_provisioning_step_def
      intro: ps_rank_inj)

end

instantiation lease_cleanup_step :: linorder
begin

definition less_eq_lease_cleanup_step :: "lease_cleanup_step \<Rightarrow> lease_cleanup_step \<Rightarrow> bool" where
  "less_eq_lease_cleanup_step a b = (cs_rank a \<le> cs_rank b)"

definition less_lease_cleanup_step :: "lease_cleanup_step \<Rightarrow> lease_cleanup_step \<Rightarrow> bool" where
  "less_lease_cleanup_step a b = (cs_rank a < cs_rank b)"

instance
  by standard
    (auto simp: less_eq_lease_cleanup_step_def less_lease_cleanup_step_def intro: cs_rank_inj)

end

instantiation preparation_step :: linorder
begin

definition less_eq_preparation_step :: "preparation_step \<Rightarrow> preparation_step \<Rightarrow> bool" where
  "less_eq_preparation_step a b = (prep_rank a \<le> prep_rank b)"

definition less_preparation_step :: "preparation_step \<Rightarrow> preparation_step \<Rightarrow> bool" where
  "less_preparation_step a b = (prep_rank a < prep_rank b)"

instance
  by standard
    (auto simp: less_eq_preparation_step_def less_preparation_step_def intro: prep_rank_inj)

end


section \<open>JSON columns\<close>

text \<open>
  A text column that the program only ever reads with \<open>json.loads\<close> and writes with
  \<open>json.dumps\<close> is modelled by the value it denotes: \<open>InvalidText\<close> is a text on which
  \<open>json.loads\<close> raises, \<open>Text v\<close> one that parses to \<open>v\<close>. An object is the association
  list of its (distinct) keys.
\<close>

datatype json =
    JNull | JBool bool | JNum int | JStr string | JArr "json list" | JObj "(string \<times> json) list"

datatype jtext = InvalidText | Text json

section \<open>Rows\<close>

text \<open>Display names are Unicode code points, as \<open>str\<close> is in Python.\<close>

type_synonym ustring = "nat list"

record credential =
  c_id :: string
  c_instance_id :: "string option"
  c_resource_id :: "string option"
  c_name :: string
  c_purpose :: credential_purpose
  c_capability :: credential_capability
  c_username_ciphertext :: "string option"
  c_password_ciphertext :: "string option"
  c_database_name :: "string option"
  c_status :: credential_status
  c_version :: int

record instance_row =
  i_id :: string
  i_cluster_id :: string
  i_engine :: instance_engine
  i_topology :: instance_topology
  i_allocation_mode :: allocation_mode
  i_region :: "string option"
  i_host :: "string option"
  i_port :: "int option"
  i_status :: instance_status

record agent =
  a_id :: string
  a_status :: agent_status
  a_max_active_resources :: "int option"

record provisioning_binding =
  pb_agent_id :: string
  pb_backend_id :: string
  pb_enabled :: bool
  pb_routing_order :: "int option"

record backend_health =
  h_healthy :: bool
  h_checked_at :: time
  h_consecutive_failures :: int
  h_error_code :: "string option"

record backend =
  b_id :: string
  b_type :: backend_type
  b_instance_id :: "string option"
  b_dedicated_pool_id :: "string option"
  b_admin_credential_id :: "string option"
  b_status :: backend_status
  b_priority :: int
  b_max_active_resources :: int
  b_delete_cooldown_duration_hours :: "int option"
  b_permission_template_revision_id :: "string option"
  b_health :: "backend_health option"

record resource =
  r_id :: string
  r_owner_agent_id :: string
  r_backend_id :: string
  r_client_token :: string
  r_request_fingerprint :: string
  r_fingerprint_version :: int
  r_name :: "ustring option"
  r_engine :: instance_engine
  r_status :: db_instance_status
  r_mode :: provisioning_mode
  r_allocated_instance_id :: "string option"
  r_permission_template_id :: "string option"
  r_permission_revision_id :: "string option"
  r_permission_snapshot_json :: "jtext option"
  r_tenant_name :: "string option"
  r_resource_config_name :: "string option"
  r_database_name :: "string option"
  r_provisioning_step :: lease_provisioning_step
  r_cleanup_step :: lease_cleanup_step
  r_cleanup_required :: bool
  r_failure_reason :: "string option"
  r_retry_count :: int
  r_next_retry_at :: "time option"
  r_worker_id :: "string option"
  r_worker_lease_until :: "time option"
  r_capacity_released_at :: "time option"
  r_delete_requested_at :: "time option"
  r_disconnected_at :: "time option"
  r_cooldown_hours :: "int option"
  r_cooldown_until :: "time option"
  r_reclaim_policy :: "reclaim_policy option"
  r_delete_step :: delete_lifecycle_step
  r_restore_source_status :: "db_instance_status option"
  r_restore_failure_reason :: "string option"
  r_credentials :: "credential list"
  r_created_at :: time

record pool =
  p_id :: string
  p_name :: string
  p_status :: pool_status
  p_target_size :: int
  p_max_total_members :: int
  p_max_member_purchases_per_hour :: int
  p_max_create_requests_per_agent_per_hour :: int
  p_max_delete_requests_per_agent_per_hour :: int
  p_purchase_config_json :: jtext
  p_purchase_profile_id :: "string option"
  p_purchase_profile_revision :: "int option"
  p_storage_type :: "string option"
  p_region_id :: string
  p_vpc_id :: string
  p_vswitch_id :: string
  p_zone_id :: "string option"
  p_security_ip_list :: "string option"
  p_endpoint_net_type :: string
  p_reclaim_policy :: reclaim_policy
  p_permission_template_revision_id :: string
  p_account_name_template :: string
  p_database_name_template :: string
  p_delete_cooldown_duration_hours :: "int option"
  p_health_check_interval_seconds :: int
  p_health_stale_after_seconds :: int

record pool_member =
  m_id :: string
  m_pool_id :: string
  m_instance_id :: string
  m_status :: member_status
  m_readiness_status :: readiness_status
  m_preparation_step :: preparation_step
  m_purchase_token :: "string option"
  m_cloud_request_id :: "string option"
  m_agentic_db_cluster_id :: "string option"
  m_last_ready_verified_at :: "time option"
  m_lifecycle_username_ciphertext :: "string option"
  m_lifecycle_password_ciphertext :: "string option"
  m_sandbox_username_ciphertext :: "string option"
  m_sandbox_password_ciphertext :: "string option"
  m_host :: "string option"
  m_port :: "int option"
  m_database_name :: "string option"
  m_permission_revision_id :: "string option"
  m_permission_snapshot_json :: "jtext option"
  m_allocated_resource_id :: "string option"
  m_failure_reason :: "string option"
  m_retry_count :: int
  m_next_retry_at :: "time option"
  m_worker_id :: "string option"
  m_worker_lease_until :: "time option"
  m_created_at :: time

record permission_revision =
  pr_id :: string
  pr_template_id :: string
  pr_revision :: int
  pr_privileges_json :: jtext
  pr_grant_option :: bool

record capacity_row =
  cap_scope_type :: string
  cap_scope_id :: string
  cap_active_count :: int

record budget_row =
  bud_scope_type :: string
  bud_scope_id :: string
  bud_operation :: string
  bud_window_started_at :: time
  bud_request_count :: int

record sync_job =
  sj_id :: string
  sj_revision_id :: string
  sj_target_scope :: string
  sj_target_id :: string
  sj_mode :: sync_mode
  sj_status :: sync_status
  sj_confirmed_by :: "string option"
  sj_total_count :: int
  sj_completed_count :: int
  sj_failed_count :: int
  sj_failure_reason :: "string option"

record sync_target =
  st_id :: string
  st_job_id :: string
  st_member_id :: string
  st_resource_id :: "string option"
  st_previous_revision_id :: "string option"
  st_status :: sync_target_status
  st_change_required :: bool
  st_retry_count :: int
  st_next_retry_at :: "time option"
  st_failure_reason :: "string option"
  st_worker_id :: "string option"
  st_worker_lease_until :: "time option"
  st_created_at :: time

text \<open>
  The stored document of the retired \<open>resource_pool\<close> configuration module, as
  \<open>legacy_pool_retirement\<close> reads it: no row, a row whose document does not validate, a
  document with no effective configuration, or the JSON value stored under
  \<open>target_size\<close> (a missing key counts as the integer 0).
\<close>

datatype legacy_config =
    NoConfigRow | InvalidDocument | NoEffective | TargetSize json

record metadb =
  agents :: "agent list"
  bindings :: "provisioning_binding list"
  backends :: "backend list"
  instances :: "instance_row list"
  credentials :: "credential list"
  revisions :: "permission_revision list"
  resources :: "resource list"
  pools :: "pool list"
  members :: "pool_member list"
  capacities :: "capacity_row list"
  budgets :: "budget_row list"
  sync_jobs :: "sync_job list"
  sync_targets :: "sync_target list"
  legacy_pool_config :: legacy_config

definition empty_db :: metadb where
  "empty_db = \<lparr>agents = [], bindings = [], backends = [], instances = [], credentials = [],
     revisions = [], resources = [], pools = [], members = [], capacities = [], budgets = [],
     sync_jobs = [], sync_targets = [], legacy_pool_config = NoConfigRow\<rparr>"


section \<open>Column defaults\<close>

text \<open>A new row before its explicit values: what the mapped columns default to.\<close>

definition new_resource ::
    "string \<Rightarrow> string \<Rightarrow> string \<Rightarrow> string \<Rightarrow> string \<Rightarrow> int \<Rightarrow> ustring option \<Rightarrow> instance_engine
     \<Rightarrow> provisioning_mode \<Rightarrow> time \<Rightarrow> resource" where
  "new_resource rid owner backend_id token fingerprint version name engine mode created_at =
     \<lparr>r_id = rid, r_owner_agent_id = owner, r_backend_id = backend_id, r_client_token = token,
      r_request_fingerprint = fingerprint, r_fingerprint_version = version, r_name = name,
      r_engine = engine, r_status = ST_CREATING, r_mode = mode, r_allocated_instance_id = None,
      r_permission_template_id = None, r_permission_revision_id = None,
      r_permission_snapshot_json = None, r_tenant_name = None, r_resource_config_name = None,
      r_database_name = None, r_provisioning_step = PS_PENDING, r_cleanup_step = CS_PENDING,
      r_cleanup_required = False, r_failure_reason = None, r_retry_count = 0,
      r_next_retry_at = None, r_worker_id = None, r_worker_lease_until = None,
      r_capacity_released_at = None, r_delete_requested_at = None, r_disconnected_at = None,
      r_cooldown_hours = None, r_cooldown_until = None, r_reclaim_policy = None,
      r_delete_step = DS_PENDING, r_restore_source_status = None,
      r_restore_failure_reason = None, r_credentials = [], r_created_at = created_at\<rparr>"

definition new_member ::
    "string \<Rightarrow> string \<Rightarrow> string \<Rightarrow> member_status \<Rightarrow> readiness_status \<Rightarrow> preparation_step
     \<Rightarrow> string option \<Rightarrow> time \<Rightarrow> pool_member" where
  "new_member mid pool_id instance_id status readiness step resource_id created_at =
     \<lparr>m_id = mid, m_pool_id = pool_id, m_instance_id = instance_id, m_status = status,
      m_readiness_status = readiness, m_preparation_step = step, m_purchase_token = None,
      m_cloud_request_id = None, m_agentic_db_cluster_id = None, m_last_ready_verified_at = None,
      m_lifecycle_username_ciphertext = None, m_lifecycle_password_ciphertext = None,
      m_sandbox_username_ciphertext = None, m_sandbox_password_ciphertext = None,
      m_host = None, m_port = None, m_database_name = None, m_permission_revision_id = None,
      m_permission_snapshot_json = None, m_allocated_resource_id = resource_id,
      m_failure_reason = None, m_retry_count = 0, m_next_retry_at = None, m_worker_id = None,
      m_worker_lease_until = None, m_created_at = created_at\<rparr>"


section \<open>Reads and writes by primary key\<close>

abbreviation get_resource :: "metadb \<Rightarrow> string \<Rightarrow> resource option" where
  "get_resource db i \<equiv> tget r_id i (resources db)"

abbreviation get_backend :: "metadb \<Rightarrow> string \<Rightarrow> backend option" where
  "get_backend db i \<equiv> tget b_id i (backends db)"

abbreviation get_agent :: "metadb \<Rightarrow> string \<Rightarrow> agent option" where
  "get_agent db i \<equiv> tget a_id i (agents db)"

abbreviation get_pool :: "metadb \<Rightarrow> string \<Rightarrow> pool option" where
  "get_pool db i \<equiv> tget p_id i (pools db)"

abbreviation get_member :: "metadb \<Rightarrow> string \<Rightarrow> pool_member option" where
  "get_member db i \<equiv> tget m_id i (members db)"

abbreviation get_instance :: "metadb \<Rightarrow> string \<Rightarrow> instance_row option" where
  "get_instance db i \<equiv> tget i_id i (instances db)"

abbreviation get_revision :: "metadb \<Rightarrow> string \<Rightarrow> permission_revision option" where
  "get_revision db i \<equiv> tget pr_id i (revisions db)"

definition put_resource :: "string \<Rightarrow> (resource \<Rightarrow> resource) \<Rightarrow> metadb \<Rightarrow> metadb" where
  "put_resource i f db = db\<lparr>resources := tupd r_id i f (resources db)\<rparr>"

definition put_member :: "string \<Rightarrow> (pool_member \<Rightarrow> pool_member) \<Rightarrow> metadb \<Rightarrow> metadb" where
  "put_member i f db = db\<lparr>members := tupd m_id i f (members db)\<rparr>"

definition put_instance :: "string \<Rightarrow> (instance_row \<Rightarrow> instance_row) \<Rightarrow> metadb \<Rightarrow> metadb" where
  "put_instance i f db = db\<lparr>instances := tupd i_id i f (instances db)\<rparr>"

text \<open>The member that a resource occupies: \<open>allocated_resource_id == resource.id\<close>.\<close>

definition member_of_resource :: "metadb \<Rightarrow> string \<Rightarrow> pool_member option" where
  "member_of_resource db rid = find (\<lambda>m. m_allocated_resource_id m = Some rid) (members db)"

definition backend_pool :: "metadb \<Rightarrow> backend \<Rightarrow> pool option" where
  "backend_pool db b = (case b_dedicated_pool_id b of None \<Rightarrow> None | Some p \<Rightarrow> get_pool db p)"

lemma resources_put_resource [simp]:
  "resources (put_resource i f db) = tupd r_id i f (resources db)"
  by (simp add: put_resource_def)

lemma put_resource_frame [simp]:
  "agents (put_resource i f db) = agents db"
  "bindings (put_resource i f db) = bindings db"
  "backends (put_resource i f db) = backends db"
  "instances (put_resource i f db) = instances db"
  "credentials (put_resource i f db) = credentials db"
  "revisions (put_resource i f db) = revisions db"
  "pools (put_resource i f db) = pools db"
  "members (put_resource i f db) = members db"
  "capacities (put_resource i f db) = capacities db"
  "budgets (put_resource i f db) = budgets db"
  "sync_jobs (put_resource i f db) = sync_jobs db"
  "sync_targets (put_resource i f db) = sync_targets db"
  "legacy_pool_config (put_resource i f db) = legacy_pool_config db"
  by (simp_all add: put_resource_def)

lemma get_put_resource:
  assumes "\<And>r. r_id (f r) = r_id r"
  shows "get_resource (put_resource i f db) j =
    (if j = i then map_option f (get_resource db i) else get_resource db j)"
  using assms by (simp add: tget_tupd)

lemma members_put_member [simp]:
  "members (put_member i f db) = tupd m_id i f (members db)"
  by (simp add: put_member_def)

lemma put_member_frame [simp]:
  "agents (put_member i f db) = agents db"
  "bindings (put_member i f db) = bindings db"
  "backends (put_member i f db) = backends db"
  "instances (put_member i f db) = instances db"
  "credentials (put_member i f db) = credentials db"
  "revisions (put_member i f db) = revisions db"
  "resources (put_member i f db) = resources db"
  "pools (put_member i f db) = pools db"
  "capacities (put_member i f db) = capacities db"
  "budgets (put_member i f db) = budgets db"
  "sync_jobs (put_member i f db) = sync_jobs db"
  "sync_targets (put_member i f db) = sync_targets db"
  "legacy_pool_config (put_member i f db) = legacy_pool_config db"
  by (simp_all add: put_member_def)

lemma put_instance_frame [simp]:
  "instances (put_instance i f db) = tupd i_id i f (instances db)"
  "agents (put_instance i f db) = agents db"
  "bindings (put_instance i f db) = bindings db"
  "backends (put_instance i f db) = backends db"
  "credentials (put_instance i f db) = credentials db"
  "revisions (put_instance i f db) = revisions db"
  "resources (put_instance i f db) = resources db"
  "pools (put_instance i f db) = pools db"
  "members (put_instance i f db) = members db"
  "capacities (put_instance i f db) = capacities db"
  "budgets (put_instance i f db) = budgets db"
  "sync_jobs (put_instance i f db) = sync_jobs db"
  "sync_targets (put_instance i f db) = sync_targets db"
  "legacy_pool_config (put_instance i f db) = legacy_pool_config db"
  by (simp_all add: put_instance_def)

lemma member_of_resource_SomeD:
  "member_of_resource db rid = Some m \<Longrightarrow>
   m \<in> set (members db) \<and> m_allocated_resource_id m = Some rid"
  by (auto simp: member_of_resource_def find_Some_iff)


section \<open>Provisioning configuration\<close>

record tenant_provisioning_config =
  cfg_openapi_only :: bool
  cfg_max_active_leases_per_agent :: int
  cfg_max_active_resources_per_agent :: "int option"
  cfg_resource_min_cpu :: int
  cfg_resource_max_cpu :: int
  cfg_worker_poll_interval_seconds :: int
  cfg_heartbeat_interval_seconds :: int
  cfg_heartbeat_stale_after_seconds :: int
  cfg_worker_claim_ttl_seconds :: int
  cfg_worker_claim_renew_seconds :: int
  cfg_worker_max_retries :: int
  cfg_worker_initial_backoff_seconds :: int
  cfg_worker_max_backoff_seconds :: int
  cfg_health_check_interval_seconds :: int
  cfg_health_stale_after_seconds :: int
  cfg_backend_health_stale_after_seconds :: "int option"
  cfg_delete_cooldown_duration_hours :: int

text \<open>The field bounds (\<open>ge\<close>, \<open>le\<close>) of the pydantic model.\<close>

definition config_field_bounds :: "tenant_provisioning_config \<Rightarrow> bool" where
  "config_field_bounds c \<longleftrightarrow>
     1 \<le> cfg_max_active_leases_per_agent c
   \<and> (case cfg_max_active_resources_per_agent c of None \<Rightarrow> True | Some n \<Rightarrow> 1 \<le> n)
   \<and> 0 \<le> cfg_resource_min_cpu c \<and> 1 \<le> cfg_resource_max_cpu c
   \<and> 1 \<le> cfg_worker_poll_interval_seconds c \<and> cfg_worker_poll_interval_seconds c \<le> 5
   \<and> 1 \<le> cfg_heartbeat_interval_seconds c \<and> 1 \<le> cfg_heartbeat_stale_after_seconds c
   \<and> 10 \<le> cfg_worker_claim_ttl_seconds c \<and> 1 \<le> cfg_worker_claim_renew_seconds c
   \<and> 0 \<le> cfg_worker_max_retries c
   \<and> 1 \<le> cfg_worker_initial_backoff_seconds c \<and> 1 \<le> cfg_worker_max_backoff_seconds c
   \<and> 1 \<le> cfg_health_check_interval_seconds c \<and> 2 \<le> cfg_health_stale_after_seconds c
   \<and> (case cfg_backend_health_stale_after_seconds c of None \<Rightarrow> True | Some n \<Rightarrow> 2 \<le> n)
   \<and> 1 \<le> cfg_delete_cooldown_duration_hours c"

definition validate_tenant_provisioning ::
    "tenant_provisioning_config \<Rightarrow> py_error + tenant_provisioning_config" where
  "validate_tenant_provisioning c =
     (if cfg_heartbeat_stale_after_seconds c < 30
      then Inl (ValueError ''worker heartbeat stale threshold must be at least 30 seconds'')
      else if cfg_heartbeat_stale_after_seconds c < max (3 * cfg_heartbeat_interval_seconds c) 30
      then Inl (ValueError ''worker heartbeat stale threshold must be at least three heartbeat intervals'')
      else if cfg_worker_claim_renew_seconds c \<ge> cfg_worker_claim_ttl_seconds c
      then Inl (ValueError ''claim renew interval must be less than claim TTL'')
      else if cfg_health_check_interval_seconds c \<ge> cfg_health_stale_after_seconds c
      then Inl (ValueError ''health check interval must be less than stale threshold'')
      else if (case cfg_backend_health_stale_after_seconds c of
                 None \<Rightarrow> False | Some n \<Rightarrow> cfg_health_check_interval_seconds c \<ge> n)
      then Inl (ValueError ''health check interval must be less than backend health stale threshold'')
      else if cfg_resource_min_cpu c > cfg_resource_max_cpu c
      then Inl (ValueError ''resource_min_cpu must not exceed resource_max_cpu'')
      else if cfg_worker_initial_backoff_seconds c > cfg_worker_max_backoff_seconds c
      then Inl (ValueError ''initial worker backoff must not exceed maximum backoff'')
      else Inr c)"

definition effective_max_active_resources_per_agent :: "tenant_provisioning_config \<Rightarrow> int" where
  "effective_max_active_resources_per_agent c =
     (case cfg_max_active_resources_per_agent c of
        Some n \<Rightarrow> n | None \<Rightarrow> cfg_max_active_leases_per_agent c)"

definition effective_backend_health_stale_after_seconds ::
    "tenant_provisioning_config \<Rightarrow> int" where
  "effective_backend_health_stale_after_seconds c =
     (case cfg_backend_health_stale_after_seconds c of
        Some n \<Rightarrow> n | None \<Rightarrow> cfg_health_stale_after_seconds c)"

text \<open>The defaults of the model, used by concrete examples.\<close>

definition default_config :: tenant_provisioning_config where
  "default_config = \<lparr>cfg_openapi_only = False, cfg_max_active_leases_per_agent = 20,
     cfg_max_active_resources_per_agent = None, cfg_resource_min_cpu = 0,
     cfg_resource_max_cpu = 2, cfg_worker_poll_interval_seconds = 1,
     cfg_heartbeat_interval_seconds = 10, cfg_heartbeat_stale_after_seconds = 30,
     cfg_worker_claim_ttl_seconds = 120, cfg_worker_claim_renew_seconds = 30,
     cfg_worker_max_retries = 5, cfg_worker_initial_backoff_seconds = 1,
     cfg_worker_max_backoff_seconds = 30, cfg_health_check_interval_seconds = 10,
     cfg_health_stale_after_seconds = 30, cfg_backend_health_stale_after_seconds = None,
     cfg_delete_cooldown_duration_hours = 24\<rparr>"

definition valid_config :: "tenant_provisioning_config \<Rightarrow> bool" where
  "valid_config c \<longleftrightarrow> config_field_bounds c \<and> validate_tenant_provisioning c = Inr c"

lemma valid_config_default: "valid_config default_config"
  by (simp add: valid_config_def config_field_bounds_def validate_tenant_provisioning_def
      default_config_def)

lemma valid_configD:
  assumes "valid_config c"
  shows "cfg_worker_claim_renew_seconds c < cfg_worker_claim_ttl_seconds c"
    and "1 \<le> cfg_worker_initial_backoff_seconds c"
    and "cfg_worker_initial_backoff_seconds c \<le> cfg_worker_max_backoff_seconds c"
    and "1 \<le> effective_max_active_resources_per_agent c"
    and "2 \<le> effective_backend_health_stale_after_seconds c"
    and "cfg_health_check_interval_seconds c < effective_backend_health_stale_after_seconds c"
    and "0 < cfg_worker_claim_ttl_seconds c"
    and "0 \<le> cfg_worker_max_retries c"
    and "1 \<le> cfg_delete_cooldown_duration_hours c"
  using assms
  by (auto simp: valid_config_def config_field_bounds_def validate_tenant_provisioning_def
      effective_max_active_resources_per_agent_def
      effective_backend_health_stale_after_seconds_def
      split: if_splits option.splits)

end
