(* ===== verification/Text_Ops.thy ===== *)
theory Text_Ops
  imports Prelude
begin

text \<open>
  The Python string operations the modelled code uses, on character lists: \<open>str.strip\<close>,
  \<open>str.upper\<close>, \<open>str.lower\<close>, \<open>str.split\<close>, \<open>str.join\<close>, and matching of a separator from
  the right, which is how a greedy group of a regular expression matches. Case conversion is that of
  ASCII; the strings it is applied to (status words, identifiers, \<open>SHOW GRANTS\<close> rows) are ASCII.
\<close>

section \<open>Operations\<close>

text \<open>The code points that \<open>str.strip\<close> and \<open>str.split\<close> treat as white space.\<close>

definition is_space :: "nat \<Rightarrow> bool" where
  "is_space n = ((9 \<le> n \<and> n \<le> 13) \<or> (28 \<le> n \<and> n \<le> 32) \<or> n = 133 \<or> n = 160 \<or> n = 5760
     \<or> (8192 \<le> n \<and> n \<le> 8202) \<or> n = 8232 \<or> n = 8233 \<or> n = 8239 \<or> n = 8287 \<or> n = 12288)"

definition space_char :: "char \<Rightarrow> bool" where
  "space_char c = is_space (of_char c)"

definition strip_text :: "string \<Rightarrow> string" where
  "strip_text s = rev (dropWhile space_char (rev (dropWhile space_char s)))"

definition lower_char :: "char \<Rightarrow> char" where
  "lower_char c = (let n = (of_char c :: nat) in if 65 \<le> n \<and> n \<le> 90 then char_of (n + 32) else c)"

definition upper_char :: "char \<Rightarrow> char" where
  "upper_char c = (let n = (of_char c :: nat) in if 97 \<le> n \<and> n \<le> 122 then char_of (n - 32) else c)"

abbreviation upper_text :: "string \<Rightarrow> string" where
  "upper_text s \<equiv> map upper_char s"

fun join_text :: "string \<Rightarrow> string list \<Rightarrow> string" where
  "join_text sep [] = []"
| "join_text sep [x] = x"
| "join_text sep (x # y # xs) = x @ sep @ join_text sep (y # xs)"

text \<open>\<open>s.split(",")\<close>: at least one part.\<close>

fun split_char :: "char \<Rightarrow> string \<Rightarrow> string list" where
  "split_char d [] = [[]]"
| "split_char d (c # cs) =
     (if c = d then [] # split_char d cs
      else case split_char d cs of [] \<Rightarrow> [[c]] | w # ws \<Rightarrow> (c # w) # ws)"

text \<open>\<open>" ".join(s.split())\<close>: the words of the text, separated by single spaces. The flag tells
  whether a space is pending.\<close>

fun squeeze_spaces :: "bool \<Rightarrow> bool \<Rightarrow> string \<Rightarrow> string" where
  "squeeze_spaces started pending [] = []"
| "squeeze_spaces started pending (c # cs) =
     (if space_char c then squeeze_spaces started True cs
      else (if started \<and> pending then [CHR '' '', c] else [c]) @ squeeze_spaces True False cs)"

definition normal_spaces :: "string \<Rightarrow> string" where
  "normal_spaces s = squeeze_spaces False False s"

text \<open>\<open>s.startswith(p)\<close> without regard to case.\<close>

definition starts_ci :: "string \<Rightarrow> string \<Rightarrow> bool" where
  "starts_ci p s = (upper_text (take (length p) s) = upper_text p)"

text \<open>\<open>p in s\<close>.\<close>

fun contains_text :: "string \<Rightarrow> string \<Rightarrow> bool" where
  "contains_text p [] = (p = [])"
| "contains_text p (c # cs) = (take (length p) (c # cs) = p \<or> contains_text p cs)"

text \<open>\<open>str(n)\<close> of an integer.\<close>

fun digits :: "nat \<Rightarrow> string" where
  "digits n = (if n < 10 then [char_of (48 + n)] else digits (n div 10) @ [char_of (48 + n mod 10)])"

declare digits.simps [simp del]

definition int_text :: "int \<Rightarrow> string" where
  "int_text i = (if i < 0 then CHR ''-'' # digits (nat (- i)) else digits (nat i))"

text \<open>The last split \<open>(.+)sep(rest)\<close> with a non-empty first part and \<open>ok rest\<close>.\<close>

fun last_split :: "string \<Rightarrow> (string \<Rightarrow> bool) \<Rightarrow> string \<Rightarrow> string \<Rightarrow> (string \<times> string) option" where
  "last_split sep ok pre [] = None"
| "last_split sep ok pre (c # cs) =
     (case last_split sep ok (pre @ [c]) cs of
        Some x \<Rightarrow> Some x
      | None \<Rightarrow> if starts_ci sep (c # cs) \<and> pre \<noteq> [] \<and> ok (drop (length sep) (c # cs))
                then Some (pre, drop (length sep) (c # cs)) else None)"


section \<open>Facts\<close>

lemma strip_text_empty: "strip_text s = [] \<longleftrightarrow> (\<forall>c \<in> set s. space_char c)"
proof -
  have "(\<forall>c \<in> set (dropWhile space_char s). space_char c) \<longleftrightarrow> (\<forall>c \<in> set s. space_char c)"
    by (induction s) auto
  then show ?thesis by (simp add: strip_text_def dropWhile_eq_Nil_conv)
qed

lemma strip_text_again: "strip_text s \<noteq> [] \<Longrightarrow> strip_text (strip_text s) \<noteq> []"
proof -
  let ?y = "dropWhile space_char (rev (dropWhile space_char s))"
  assume "strip_text s \<noteq> []"
  then have "?y \<noteq> []" by (simp add: strip_text_def)
  then have "\<not> space_char (hd ?y)" "hd ?y \<in> set (strip_text s)"
    using hd_dropWhile [of space_char "rev (dropWhile space_char s)"]
    by (auto simp: strip_text_def simp del: dropWhile_eq_Nil_conv)
  then show ?thesis by (auto simp: strip_text_empty)
qed

text \<open>Nothing to strip when the first and the last character are no spaces.\<close>

lemma strip_text_id: "s \<noteq> [] \<Longrightarrow> \<not> space_char (hd s) \<Longrightarrow> \<not> space_char (last s) \<Longrightarrow> strip_text s = s"
  by (simp add: strip_text_def dropWhile_eq_self_iff [THEN iffD2] hd_rev)

lemma strip_text_space [simp]: "strip_text (CHR '' '' # s) = strip_text s"
  by (simp add: strip_text_def space_char_def is_space_def)

lemma split_char_nonempty [simp]: "split_char d s \<noteq> []"
  by (induction s) (auto split: list.splits)

lemma split_char_part: "d \<notin> set x \<Longrightarrow> split_char d x = [x]"
  by (induction x) auto

lemma split_char_append:
  "d \<notin> set x \<Longrightarrow> split_char d (x @ d # s) = x # split_char d s"
  by (induction x) auto

text \<open>Joining with a comma and a space and splitting at the commas gives the parts back, each but the
  first after a space.\<close>

lemma split_join:
  assumes "\<forall>x \<in> set xs. CHR '','' \<notin> set x" and "xs \<noteq> []"
  shows "map strip_text (split_char CHR '','' (join_text '', '' xs)) = map strip_text xs"
  using assms
proof (induction "'', ''" xs rule: join_text.induct)
  case (3 x y xs)
  have "split_char CHR '','' (CHR '' '' # s) =
      (CHR '' '' # hd (split_char CHR '','' s)) # tl (split_char CHR '','' s)" for s
    by (cases "split_char CHR '','' s") auto
  moreover have "map strip_text (split_char CHR '','' s) =
      strip_text (hd (split_char CHR '','' s)) # map strip_text (tl (split_char CHR '','' s))" for s
    by (cases "split_char CHR '','' s") auto
  ultimately show ?case
    using 3 split_char_append [of "CHR '',''" x] by simp
qed (auto simp: split_char_part)

text \<open>Text whose words are separated by single spaces is left alone.\<close>

fun single_spaced :: "bool \<Rightarrow> string \<Rightarrow> bool" where
  "single_spaced after_word [] = after_word"
| "single_spaced after_word (c # cs) =
     (if space_char c then after_word \<and> c = CHR '' '' \<and> single_spaced False cs
      else single_spaced True cs)"

lemma squeeze_single:
  "(single_spaced True s \<longrightarrow> squeeze_spaces True False s = s)
   \<and> (single_spaced False s \<longrightarrow> squeeze_spaces True True s = CHR '' '' # s)"
  by (induction s) auto

lemma normal_spaces_id: "single_spaced False s \<Longrightarrow> normal_spaces s = s"
  by (cases s) (auto simp: normal_spaces_def squeeze_single)

lemma single_spaced_letters [simp]:
  "\<forall>c \<in> set x. \<not> space_char c \<Longrightarrow> single_spaced True (x @ s) = single_spaced True s"
  by (induction x) auto

lemma single_spaced_word:
  "\<forall>c \<in> set x. \<not> space_char c \<Longrightarrow> x \<noteq> [] \<Longrightarrow> single_spaced w (x @ s) = single_spaced True s"
  by (cases x) auto

text \<open>A separator is not found inside a text without its first character, and a match further
  right wins.\<close>

lemma last_split_skip:
  assumes "\<forall>c \<in> set x. upper_char c \<noteq> upper_char d"
  shows "last_split (d # sep) ok pre (x @ y) = last_split (d # sep) ok (pre @ x) y"
  using assms
proof (induction x arbitrary: pre)
  case (Cons c cs)
  then show ?case
    by (auto simp: starts_ci_def split: option.splits)
qed simp

lemma last_split_right:
  "last_split sep ok (pre @ x) y = Some r \<Longrightarrow> last_split sep ok pre (x @ y) = Some r"
  by (induction x arbitrary: pre) (auto simp del: last_split.simps(1))

text \<open>At the separator itself, when there is none further right.\<close>

lemma last_split_here:
  assumes "last_split (d # sep) ok (pre @ [d]) (sep @ rest) = None"
  shows "last_split (d # sep) ok pre (d # sep @ rest)
    = (if pre \<noteq> [] \<and> ok rest then Some (pre, rest) else None)"
  using assms by (simp add: starts_ci_def)

text \<open>A position where the separator does not match is passed.\<close>

lemma last_split_pass:
  assumes "\<not> starts_ci sep (c # cs)"
  shows "last_split sep ok pre (c # cs) = last_split sep ok (pre @ [c]) cs"
  using assms by (simp split: option.splits)

declare last_split.simps(2) [simp del]



section \<open>Decimal text\<close>

definition digit_value :: "char \<Rightarrow> nat" where
  "digit_value c = of_char c - 48"

definition digits_value :: "string \<Rightarrow> nat" where
  "digits_value s = foldl (\<lambda>n c. 10 * n + digit_value c) 0 s"

lemma digits_value_digits: "digits_value (digits n) = n"
proof (induction n rule: digits.induct)
  case (1 n)
  have d: "digit_value (char_of (48 + m)) = m" if "m < 10" for m
    using that by (simp add: digit_value_def)
  show ?case
    using 1 d [of "n mod 10"] d [of n] by (subst digits.simps) (auto simp: digits_value_def)
qed

lemma digits_inj: "digits m = digits n \<longleftrightarrow> m = n"
  by (metis digits_value_digits)

lemma digits_no_minus: "CHR ''-'' \<notin> set (digits n)"
proof (induction n rule: digits.induct)
  case (1 n)
  have "char_of (48 + m) \<noteq> CHR ''-''" if "m < 10" for m :: nat
  proof
    assume "char_of (48 + m) = CHR ''-''"
    then have "(of_char (char_of (48 + m) :: char) :: nat) = 45" by simp
    with that show False by simp
  qed
  with 1 show ?case by (subst digits.simps) (auto simp: eq_commute [of "CHR ''-''"])
qed

lemma int_text_inj: "int_text i = int_text j \<longleftrightarrow> i = j"
  using digits_no_minus by (auto simp: int_text_def digits_inj) (metis list.set_intros(1))+

end
