(* ===== verification/Fingerprint.thy ===== *)
theory Fingerprint
  imports Models Text_Ops
begin

text \<open>
  The checks on a creation request and its fingerprint (\<open>server/core/db_instance_service.py\<close>:
  \<open>validate_client_token\<close>, \<open>normalize_resource_name\<close>, \<open>request_fingerprint\<close>).

  Unicode normalisation (\<open>nfc\<close>) and the hash of the UTF-8 payload (\<open>digest\<close>) are parameters.
  The payload itself is the text \<open>json.dumps\<close> writes, character by character, so that two
  different requests can be shown to have different payloads.
\<close>

section \<open>Client tokens and names\<close>

definition token_char :: "char \<Rightarrow> bool" where
  "token_char c = (let n = (of_char c :: nat) in
     (65 \<le> n \<and> n \<le> 90) \<or> (97 \<le> n \<and> n \<le> 122) \<or> (48 \<le> n \<and> n \<le> 57)
     \<or> n = 46 \<or> n = 95 \<or> n = 58 \<or> n = 45)"

definition validate_client_token :: "string \<Rightarrow> py_error + unit" where
  "validate_client_token t =
     (if 1 \<le> length t \<and> length t \<le> 128 \<and> list_all token_char t then Inr ()
      else Inl InvalidClientToken)"

text \<open>Category \<open>Cc\<close> and surrogates.\<close>

definition is_control :: "nat \<Rightarrow> bool" where
  "is_control n = (n \<le> 31 \<or> (127 \<le> n \<and> n \<le> 159))"

definition is_surrogate :: "nat \<Rightarrow> bool" where
  "is_surrogate n = (55296 \<le> n \<and> n \<le> 57343)"

definition strip :: "ustring \<Rightarrow> ustring" where
  "strip s = rev (dropWhile is_space (rev (dropWhile is_space s)))"

definition normalize_resource_name ::
    "(ustring \<Rightarrow> ustring) \<Rightarrow> ustring option \<Rightarrow> py_error + ustring option" where
  "normalize_resource_name nfc name =
     (case name of
        None \<Rightarrow> Inr None
      | Some s \<Rightarrow>
          let normalized = strip (nfc s) in
          if \<not> (1 \<le> length normalized \<and> length normalized \<le> 128)
          then Inl (ValueError ''name must be 1-128 Unicode code points after normalization'')
          else if list_ex is_control normalized
          then Inl (ValueError ''name must not contain control characters'')
          else if list_ex is_surrogate normalized
          then Inl (ValueError ''name must be valid Unicode'')
          else Inr (Some normalized))"

section \<open>Fingerprints\<close>

definition fingerprint_version :: int where "fingerprint_version = 2"

definition codes :: "string \<Rightarrow> ustring" where "codes s = map of_char s"

definition hex_digit :: "nat \<Rightarrow> nat" where
  "hex_digit n = (if n < 10 then 48 + n else 87 + n)"

text \<open>\<open>json.dumps(..., ensure_ascii=False)\<close> of one character.\<close>

definition json_escape :: "nat \<Rightarrow> ustring" where
  "json_escape c =
     (if c = 34 then [92, 34] else if c = 92 then [92, 92]
      else if c = 10 then [92, 110] else if c = 13 then [92, 114] else if c = 9 then [92, 116]
      else if c = 8 then [92, 98] else if c = 12 then [92, 102]
      else if c < 32 then [92, 117, 48, 48, hex_digit (c div 16), hex_digit (c mod 16)]
      else [c])"

definition json_string :: "ustring \<Rightarrow> ustring" where
  "json_string s = 34 # concat (map json_escape s) @ [34]"

definition json_name :: "ustring option \<Rightarrow> ustring" where
  "json_name name = (case name of None \<Rightarrow> codes ''null'' | Some s \<Rightarrow> json_string s)"

definition fingerprint_payload ::
    "int \<Rightarrow> string \<Rightarrow> ustring option \<Rightarrow> provisioning_mode \<Rightarrow> ustring" where
  "fingerprint_payload version db_type name mode =
     (if version = 1
      then codes ''{'' @ json_string (codes ''db_type'') @ codes '':'' @ json_string (codes db_type)
        @ codes '','' @ json_string (codes ''name'') @ codes '':'' @ json_name name @ codes ''}''
      else codes ''{'' @ json_string (codes ''db_type'') @ codes '':'' @ json_string (codes db_type)
        @ codes '','' @ json_string (codes ''name'') @ codes '':'' @ json_name name
        @ codes '','' @ json_string (codes ''provisioning_mode'') @ codes '':''
        @ json_string (codes (mode_value mode)) @ codes ''}'')"

definition request_fingerprint ::
    "(ustring \<Rightarrow> ustring) \<Rightarrow> (ustring \<Rightarrow> string) \<Rightarrow> string \<Rightarrow> ustring option \<Rightarrow> provisioning_mode
     \<Rightarrow> int \<Rightarrow> py_error + string" where
  "request_fingerprint nfc digest db_type name mode version =
     (if version \<noteq> 1 \<and> version \<noteq> fingerprint_version
      then Inl (ValueError ''Unsupported request fingerprint version'')
      else (case normalize_resource_name nfc name of
              Inl e \<Rightarrow> Inl e
            | Inr normalized \<Rightarrow>
                if version = 1 \<and> mode \<noteq> MODE_MULTITENANT then Inl IdempotencyConflict
                else Inr (digest (fingerprint_payload version db_type normalized mode))))"

definition parse_engine :: "string \<Rightarrow> py_error + instance_engine" where
  "parse_engine db_type =
     (if db_type \<noteq> ''polardb_mysql'' then Inl UnsupportedDBType else Inr POLARDB_MYSQL)"

section \<open>Payloads determine requests\<close>

text \<open>Reading one escaped character back.\<close>

definition unhex :: "nat \<Rightarrow> nat" where
  "unhex d = (if d < 87 then d - 48 else d - 87)"

definition unescape :: "ustring \<Rightarrow> nat \<times> ustring" where
  "unescape xs =
     (if hd xs \<noteq> 92 then (hd xs, tl xs)
      else if xs ! 1 = 117 then (16 * unhex (xs ! 4) + unhex (xs ! 5), drop 6 xs)
      else ((if xs ! 1 = 110 then 10 else if xs ! 1 = 114 then 13 else if xs ! 1 = 116 then 9
             else if xs ! 1 = 98 then 8 else if xs ! 1 = 102 then 12 else xs ! 1), drop 2 xs))"

lemma unhex_hex_digit [simp]: "n < 16 \<Longrightarrow> unhex (hex_digit n) = n"
  by (auto simp: unhex_def hex_digit_def)

lemma unescape_escape: "unescape (json_escape c @ xs) = (c, xs)"
proof (cases "c < 32")
  case True
  then have "c div 16 < 16" by simp
  with True show ?thesis
    by (simp add: json_escape_def unescape_def)
next
  case False
  then show ?thesis by (simp add: json_escape_def unescape_def)
qed

lemma json_escape_not_quote [simp]: "json_escape c @ xs \<noteq> 34 # ys"
  by (simp add: json_escape_def)

lemma json_escape_inj:
  assumes "json_escape c @ xs = json_escape d @ ys"
  shows "c = d \<and> xs = ys"
  using arg_cong [OF assms, of unescape] by (simp add: unescape_escape)

lemma json_body_inj:
  "concat (map json_escape s) @ 34 # xs = concat (map json_escape t) @ 34 # ys \<Longrightarrow>
   s = t \<and> xs = ys"
proof (induction s arbitrary: t)
  case Nil
  then show ?case by (cases t) (auto dest: sym)
next
  case (Cons c s)
  then show ?case
  proof (cases t)
    case (Cons d u)
    with Cons.prems have "json_escape c @ concat (map json_escape s) @ 34 # xs =
        json_escape d @ concat (map json_escape u) @ 34 # ys" by simp
    from json_escape_inj [OF this] Cons.IH [of u] Cons show ?thesis by simp
  qed simp
qed

lemma json_string_inj: "json_string s @ xs = json_string t @ ys \<Longrightarrow> s = t \<and> xs = ys"
  using json_body_inj [of s xs t ys] by (simp add: json_string_def)

lemma codes_inj [simp]: "codes s = codes t \<longleftrightarrow> s = t"
proof -
  have "inj (of_char :: char \<Rightarrow> nat)" by (auto intro: injI)
  then show ?thesis by (simp add: codes_def inj_map_eq_map)
qed

lemma json_name_inj: "json_name a @ xs = json_name b @ ys \<Longrightarrow> a = b \<and> xs = ys"
  by (cases a; cases b) (auto simp: json_name_def json_string_def codes_def dest: json_body_inj)

lemma mode_value_inj [simp]: "mode_value a = mode_value b \<longleftrightarrow> a = b"
  by (cases a; cases b) auto

lemma payload_injective:
  assumes "fingerprint_payload fingerprint_version t n m = fingerprint_payload fingerprint_version t' n' m'"
  shows "t = t' \<and> n = n' \<and> m = m'"
proof -
  from assms have "json_string (codes t) @ codes '','' @ json_string (codes ''name'') @ codes '':''
        @ json_name n @ codes '','' @ json_string (codes ''provisioning_mode'') @ codes '':''
        @ json_string (codes (mode_value m)) @ codes ''}'' =
      json_string (codes t') @ codes '','' @ json_string (codes ''name'') @ codes '':''
        @ json_name n' @ codes '','' @ json_string (codes ''provisioning_mode'') @ codes '':''
        @ json_string (codes (mode_value m')) @ codes ''}''"
    by (simp add: fingerprint_payload_def fingerprint_version_def)
  from json_string_inj [OF this] have t: "t = t'"
    and "json_name n @ codes '','' @ json_string (codes ''provisioning_mode'') @ codes '':''
        @ json_string (codes (mode_value m)) @ codes ''}'' =
      json_name n' @ codes '','' @ json_string (codes ''provisioning_mode'') @ codes '':''
        @ json_string (codes (mode_value m')) @ codes ''}''"
    by simp_all
  from json_name_inj [OF this(2)] have n: "n = n'"
    and "json_string (codes (mode_value m)) @ codes ''}'' =
      json_string (codes (mode_value m')) @ codes ''}''"
    by simp_all
  from json_string_inj [OF this(2)] t n show ?thesis by simp
qed

text \<open>C36: the request payload identifies the request. Two version-2 payloads are the same text
  exactly when the database types, the (normalised) names and the provisioning modes are the same,
  whatever quotes, backslashes or control characters the names contain; so with a
  collision-free digest the stored fingerprint tells different requests apart.\<close>

theorem fingerprint_payload_injective:
  "fingerprint_payload fingerprint_version t n m = fingerprint_payload fingerprint_version t' n' m'
   \<longleftrightarrow> t = t' \<and> n = n' \<and> m = m'"
  using payload_injective by blast

text \<open>A name cannot pretend to be the end of the text: a quote in it is escaped, and a request with
  it is not taken for the request that the unescaped text would be.\<close>

theorem fingerprint_payload_injective_witness:
  "fingerprint_payload fingerprint_version ''polardb_mysql''
     (Some (codes ''a'' @ 34 # codes '','' @ 34 # codes ''provisioning_mode'')) MODE_DEDICATED
   \<noteq> fingerprint_payload fingerprint_version ''polardb_mysql'' (Some (codes ''a'')) MODE_DEDICATED"
  by (simp add: fingerprint_payload_injective)

lemma set_strip: "set (strip s) \<subseteq> set s"
proof -
  have "set (strip s) \<subseteq> set (dropWhile is_space s)"
    unfolding strip_def using set_dropWhileD by fastforce
  then show ?thesis using set_dropWhileD by fastforce
qed

lemma dropWhile_idem: "dropWhile P (dropWhile P xs) = dropWhile P xs"
  by (induction xs) auto

lemma hd_strip: "strip s \<noteq> [] \<Longrightarrow> \<not> is_space (hd (strip s)) \<and> \<not> is_space (last (strip s))"
proof -
  assume ne: "strip s \<noteq> []"
  define t where "t = rev (dropWhile is_space s)"
  have st: "strip s = rev (dropWhile is_space t)" by (simp add: strip_def t_def)
  with ne have d: "dropWhile is_space t \<noteq> []" by simp
  have l: "\<not> is_space (last (strip s))"
    using hd_dropWhile [OF d] by (simp add: st last_rev)
  have "last (dropWhile is_space t) = last t"
    using d by (metis append_take_drop_id dropWhile_eq_drop last_appendR)
  moreover have "t \<noteq> []" using d by auto
  then have "last t = hd (dropWhile is_space s)" by (simp add: t_def last_rev)
  moreover have "dropWhile is_space s \<noteq> []" using \<open>t \<noteq> []\<close> by (simp add: t_def)
  ultimately have "\<not> is_space (hd (strip s))"
    using hd_dropWhile [of is_space s] by (simp add: st hd_rev)
  with l show ?thesis by simp
qed

text \<open>an accepted display name is clean. \<open>normalize_resource_name\<close> returns a name of 1 to 128
  code points that neither starts nor ends with white space, holds no control character and no
  surrogate, and consists of code points of the NFC form; everything else is a \<open>ValueError\<close>.\<close>

theorem normalize_resource_name_clean:
  "case normalize_resource_name nfc (Some s) of
     Inl e \<Rightarrow> \<exists>msg. e = ValueError msg
   | Inr r \<Rightarrow> \<exists>n. r = Some n \<and> n = strip (nfc s) \<and> 1 \<le> length n \<and> length n \<le> 128
       \<and> \<not> is_space (hd n) \<and> \<not> is_space (last n) \<and> set n \<subseteq> set (nfc s)
       \<and> list_all (\<lambda>c. \<not> is_control c \<and> \<not> is_surrogate c) n"
proof (cases "normalize_resource_name nfc (Some s)")
  case (Inl e)
  then show ?thesis by (auto simp: normalize_resource_name_def Let_def split: if_splits)
next
  case (Inr r)
  let ?n = "strip (nfc s)"
  from Inr have r: "r = Some ?n" and len: "1 \<le> length ?n" "length ?n \<le> 128"
    and ok: "\<not> list_ex is_control ?n" "\<not> list_ex is_surrogate ?n"
    by (auto simp: normalize_resource_name_def Let_def split: if_splits)
  from len have "?n \<noteq> []" by auto
  with r len ok hd_strip [of "nfc s"] set_strip [of "nfc s"] show ?thesis
    by (auto simp: Inr list_ex_iff list_all_iff)
qed

end
