(* ===== verification/Capacity.thy ===== *)
theory Capacity
  imports Models
begin

text \<open>
  Capacity counters (\<open>server/core/provisioning_capacity.py\<close>) and hourly operation budgets
  (\<open>server/core/provisioning_operation_budget.py\<close>).

  A capacity counter exists per scope, \<open>(''agent'', id)\<close> or \<open>(''backend'', id)\<close>; reserving
  takes one unit of both counters of a resource, releasing gives both back. The contract of
  the counters is the locale \<open>capacity_ledger\<close>; the accounting lemmas that the resource
  service and the workers rely on are proved in it once.
\<close>


section \<open>Capacity counters\<close>

definition cap_key :: "capacity_row \<Rightarrow> string \<times> string" where
  "cap_key c = (cap_scope_type c, cap_scope_id c)"

definition active_count :: "metadb \<Rightarrow> string \<Rightarrow> string \<Rightarrow> int" where
  "active_count db scope_type scope_id =
     (case tget cap_key (scope_type, scope_id) (capacities db) of
        None \<Rightarrow> 0 | Some c \<Rightarrow> cap_active_count c)"

text \<open>
  \<open>INSERT ... ON CONFLICT DO NOTHING\<close> (SQLite, PostgreSQL), \<open>INSERT IGNORE\<close> (MySQL,
  MariaDB) and the read-then-add of the remaining dialects all leave an existing row alone
  and otherwise add a row with count 0.
\<close>

definition ensure_capacity_row :: "string \<Rightarrow> string \<Rightarrow> metadb \<Rightarrow> metadb" where
  "ensure_capacity_row scope_type scope_id db =
     db\<lparr>capacities := tensure cap_key
          \<lparr>cap_scope_type = scope_type, cap_scope_id = scope_id, cap_active_count = 0\<rparr>
          (capacities db)\<rparr>"

definition locked_capacity_rows :: "string \<Rightarrow> string \<Rightarrow> metadb \<Rightarrow> int \<times> int \<times> metadb" where
  "locked_capacity_rows agent_id backend_id db =
     (let db1 = ensure_capacity_row ''agent'' agent_id db;
          db2 = ensure_capacity_row ''backend'' backend_id db1
      in (active_count db2 ''agent'' agent_id, active_count db2 ''backend'' backend_id, db2))"

definition add_active_count :: "string \<Rightarrow> string \<Rightarrow> int \<Rightarrow> metadb \<Rightarrow> metadb" where
  "add_active_count scope_type scope_id n db =
     db\<lparr>capacities := tupd cap_key (scope_type, scope_id)
          (\<lambda>c. c\<lparr>cap_active_count := cap_active_count c + n\<rparr>) (capacities db)\<rparr>"

definition reserve_active_capacity_counters ::
    "string \<Rightarrow> string \<Rightarrow> int \<Rightarrow> int \<Rightarrow> metadb \<Rightarrow> py_error + metadb" where
  "reserve_active_capacity_counters agent_id backend_id agent_limit backend_limit db =
     (case locked_capacity_rows agent_id backend_id db of (agent_count, backend_count, db1) \<Rightarrow>
        if agent_count \<ge> agent_limit \<or> backend_count \<ge> backend_limit
        then Inl CapacityUnavailable
        else Inr (add_active_count ''backend'' backend_id 1
                   (add_active_count ''agent'' agent_id 1 db1)))"

definition release_active_capacity_counters ::
    "string \<Rightarrow> string \<Rightarrow> metadb \<Rightarrow> py_error + metadb" where
  "release_active_capacity_counters agent_id backend_id db =
     (case locked_capacity_rows agent_id backend_id db of (agent_count, backend_count, db1) \<Rightarrow>
        if agent_count \<le> 0 \<or> backend_count \<le> 0
        then Inl CapacityUnavailable
        else Inr (add_active_count ''backend'' backend_id (-1)
                   (add_active_count ''agent'' agent_id (-1) db1)))"

text \<open>
  The rows that hold a unit of capacity: resources whose capacity has not been released.
\<close>

definition holds_agent :: "string \<Rightarrow> resource \<Rightarrow> bool" where
  "holds_agent a r \<longleftrightarrow> r_owner_agent_id r = a \<and> r_capacity_released_at r = None"

definition holds_backend :: "string \<Rightarrow> resource \<Rightarrow> bool" where
  "holds_backend b r \<longleftrightarrow> r_backend_id r = b \<and> r_capacity_released_at r = None"

definition accounted :: "(metadb \<Rightarrow> string \<Rightarrow> string \<Rightarrow> int) \<Rightarrow> metadb \<Rightarrow> bool" where
  "accounted cnt db \<longleftrightarrow>
     (\<forall>a. cnt db ''agent'' a = int (rcount (holds_agent a) (resources db)))
   \<and> (\<forall>b. cnt db ''backend'' b = int (rcount (holds_backend b) (resources db)))"

lemma active_count_ensure [simp]:
  "active_count (ensure_capacity_row st sid db) st' sid' = active_count db st' sid'"
  by (auto simp: active_count_def ensure_capacity_row_def table_simps cap_key_def
      split: option.splits)

lemma active_count_add:
  assumes "tget cap_key (st, sid) (capacities db) \<noteq> None"
  shows "active_count (add_active_count st sid n db) st' sid' =
    active_count db st' sid' + (if st' = st \<and> sid' = sid then n else 0)"
  using assms by (auto simp: active_count_def add_active_count_def table_simps cap_key_def
      split: option.splits)

lemma ensure_capacity_row_present:
  "tget cap_key (st, sid) (capacities (ensure_capacity_row st sid db)) \<noteq> None"
  by (auto simp: ensure_capacity_row_def table_simps cap_key_def split: option.splits)

lemma ensure_capacity_row_keeps:
  "tget cap_key k (capacities db) \<noteq> None \<Longrightarrow>
   tget cap_key k (capacities (ensure_capacity_row st sid db)) \<noteq> None"
  by (auto simp: ensure_capacity_row_def table_simps split: option.splits)

lemma add_active_count_keeps:
  "tget cap_key k (capacities db) \<noteq> None \<Longrightarrow>
   tget cap_key k (capacities (add_active_count st sid n db)) \<noteq> None"
  by (auto simp: add_active_count_def table_simps cap_key_def split: if_splits)

lemma locked_capacity_rows_eq:
  "locked_capacity_rows a b db =
     (active_count db ''agent'' a, active_count db ''backend'' b,
      ensure_capacity_row ''backend'' b (ensure_capacity_row ''agent'' a db))"
  by (simp add: locked_capacity_rows_def Let_def)

lemma both_counters_moved:
  "active_count (add_active_count ''backend'' b n (add_active_count ''agent'' a n
      (ensure_capacity_row ''backend'' b (ensure_capacity_row ''agent'' a db)))) st sid =
   active_count db st sid + (if (st = ''agent'' \<and> sid = a) \<or> (st = ''backend'' \<and> sid = b) then n else 0)"
proof -
  let ?db2 = "ensure_capacity_row ''backend'' b (ensure_capacity_row ''agent'' a db)"
  have a: "tget cap_key (''agent'', a) (capacities ?db2) \<noteq> None"
    by (rule ensure_capacity_row_keeps [OF ensure_capacity_row_present])
  have b: "tget cap_key (''backend'', b) (capacities (add_active_count ''agent'' a n ?db2)) \<noteq> None"
    by (rule add_active_count_keeps [OF ensure_capacity_row_present])
  show ?thesis
    by (auto simp: active_count_add [OF b] active_count_add [OF a])
qed

lemma counters_frame [simp]:
  "resources (add_active_count st sid n db) = resources db"
  "resources (ensure_capacity_row st sid db) = resources db"
  "members (add_active_count st sid n db) = members db"
  "members (ensure_capacity_row st sid db) = members db"
  "pools (add_active_count st sid n db) = pools db"
  "pools (ensure_capacity_row st sid db) = pools db"
  "budgets (add_active_count st sid n db) = budgets db"
  "budgets (ensure_capacity_row st sid db) = budgets db"
  "backends (add_active_count st sid n db) = backends db"
  "backends (ensure_capacity_row st sid db) = backends db"
  "instances (add_active_count st sid n db) = instances db"
  "instances (ensure_capacity_row st sid db) = instances db"
  "agents (add_active_count st sid n db) = agents db"
  "agents (ensure_capacity_row st sid db) = agents db"
  by (simp_all add: add_active_count_def ensure_capacity_row_def)


section \<open>The ledger contract\<close>

locale capacity_ledger =
  fixes cnt :: "metadb \<Rightarrow> string \<Rightarrow> string \<Rightarrow> int"
    and reserve :: "string \<Rightarrow> string \<Rightarrow> int \<Rightarrow> int \<Rightarrow> metadb \<Rightarrow> py_error + metadb"
    and release :: "string \<Rightarrow> string \<Rightarrow> metadb \<Rightarrow> py_error + metadb"
  assumes reserve_count: "reserve a b la lb db = Inr db' \<Longrightarrow>
      cnt db' st sid = cnt db st sid +
        (if (st = ''agent'' \<and> sid = a) \<or> (st = ''backend'' \<and> sid = b) then 1 else 0)"
    and reserve_limits: "reserve a b la lb db = Inr db' \<Longrightarrow>
      cnt db ''agent'' a < la \<and> cnt db ''backend'' b < lb"
    and reserve_full: "reserve a b la lb db = Inl e \<Longrightarrow>
      e = CapacityUnavailable \<and> (la \<le> cnt db ''agent'' a \<or> lb \<le> cnt db ''backend'' b)"
    and release_count: "release a b db = Inr db' \<Longrightarrow>
      cnt db' st sid = cnt db st sid -
        (if (st = ''agent'' \<and> sid = a) \<or> (st = ''backend'' \<and> sid = b) then 1 else 0)"
    and release_fails: "release a b db = Inl e \<Longrightarrow>
      cnt db ''agent'' a \<le> 0 \<or> cnt db ''backend'' b \<le> 0"
    and reserve_rows: "reserve a b la lb db = Inr db' \<Longrightarrow> resources db' = resources db"
    and release_rows: "release a b db = Inr db' \<Longrightarrow> resources db' = resources db"
begin

text \<open>Reserving for a row and inserting it, in one transaction, keeps the books balanced.\<close>

lemma reserve_insert_accounted:
  assumes acc: "accounted cnt db" and res: "reserve a b la lb db = Inr db1"
    and frame: "\<And>st sid. cnt db2 st sid = cnt db1 st sid"
    and rows: "resources db2 = resources db1 @ [r]"
    and new: "r_owner_agent_id r = a" "r_backend_id r = b" "r_capacity_released_at r = None"
  shows "accounted cnt db2"
proof -
  note rows' = rows reserve_rows [OF res]
  have "cnt db2 ''agent'' x = int (rcount (holds_agent x) (resources db2))" for x
    using acc new unfolding accounted_def frame reserve_count [OF res]
    by (auto simp: rows' rcount_append holds_agent_def)
  moreover have "cnt db2 ''backend'' x = int (rcount (holds_backend x) (resources db2))" for x
    using acc new unfolding accounted_def frame reserve_count [OF res]
    by (auto simp: rows' rcount_append holds_backend_def)
  ultimately show ?thesis by (simp add: accounted_def)
qed

text \<open>Releasing a row's capacity and marking the row released keeps the books balanced.\<close>

lemma release_mark_accounted:
  assumes acc: "accounted cnt db" and rel: "release a b db = Inr db1"
    and u: "uniq r_id (resources db)" and r: "tget r_id i (resources db) = Some r"
    and held: "r_owner_agent_id r = a" "r_backend_id r = b" "r_capacity_released_at r = None"
    and frame: "\<And>st sid. cnt db2 st sid = cnt db1 st sid"
    and rows: "resources db2 = tupd r_id i f (resources db1)"
    and marked: "r_owner_agent_id (f r) = a" "r_backend_id (f r) = b"
      "r_capacity_released_at (f r) \<noteq> None"
  shows "accounted cnt db2"
proof -
  have c2: "cnt db2 st sid = cnt db st sid -
        (if (st = ''agent'' \<and> sid = a) \<or> (st = ''backend'' \<and> sid = b) then 1 else 0)" for st sid
    using release_count [OF rel] frame by simp
  have rows': "resources db2 = tupd r_id i f (resources db)"
    using rows release_rows [OF rel] by simp
  have "cnt db2 ''agent'' x = int (rcount (holds_agent x) (resources db2))" for x
    using acc rcount_tupd [OF u r, of "holds_agent x" f] held marked
    by (auto simp: accounted_def c2 rows' holds_agent_def split: if_splits)
  moreover have "cnt db2 ''backend'' x = int (rcount (holds_backend x) (resources db2))" for x
    using acc rcount_tupd [OF u r, of "holds_backend x" f] held marked
    by (auto simp: accounted_def c2 rows' holds_backend_def split: if_splits)
  ultimately show ?thesis by (simp add: accounted_def)
qed

text \<open>When the books balance, releasing a held row cannot fail.\<close>

lemma release_succeeds:
  assumes "accounted cnt db" and "r \<in> set (resources db)"
    and "r_capacity_released_at r = None"
  shows "\<exists>db'. release (r_owner_agent_id r) (r_backend_id r) db = Inr db'"
proof (cases "release (r_owner_agent_id r) (r_backend_id r) db")
  case (Inl e)
  have "0 < rcount (holds_agent (r_owner_agent_id r)) (resources db)"
    using assms(2,3) by (auto intro: rcount_pos simp: holds_agent_def)
  moreover have "0 < rcount (holds_backend (r_backend_id r)) (resources db)"
    using assms(2,3) by (auto intro: rcount_pos simp: holds_backend_def)
  ultimately have False
    using release_fails [OF Inl] assms(1) unfolding accounted_def by auto
  then show ?thesis ..
qed simp

text \<open>Reserving and releasing again restores every counter.\<close>

lemma reserve_release:
  assumes "reserve a b la lb db = Inr db1" and "release a b db1 = Inr db2"
  shows "cnt db2 st sid = cnt db st sid"
  using reserve_count [OF assms(1)] release_count [OF assms(2)] by simp

end

interpretation ledger: capacity_ledger active_count reserve_active_capacity_counters
    release_active_capacity_counters
  by unfold_locales
    (auto simp: reserve_active_capacity_counters_def release_active_capacity_counters_def
      locked_capacity_rows_eq both_counters_moved split: if_splits)

text \<open>A transaction that touches neither the counters nor the columns that hold capacity.\<close>

lemma accounted_frame:
  assumes "accounted active_count db" and "capacities db' = capacities db"
    and "\<And>a. rcount (holds_agent a) (resources db') = rcount (holds_agent a) (resources db)"
    and "\<And>b. rcount (holds_backend b) (resources db') = rcount (holds_backend b) (resources db)"
  shows "accounted active_count db'"
  using assms by (simp add: accounted_def active_count_def)

lemma holds_same:
  assumes "r_owner_agent_id r' = r_owner_agent_id r" "r_backend_id r' = r_backend_id r"
    "r_capacity_released_at r' = r_capacity_released_at r"
  shows "holds_agent a r' = holds_agent a r" "holds_backend b r' = holds_backend b r"
  using assms by (simp_all add: holds_agent_def holds_backend_def)


section \<open>Hourly budgets\<close>

text \<open>
  A \<open>datetime\<close> is a wall clock reading without or with a UTC offset; \<open>as_utc\<close> reads a naive
  value as UTC, as the code does.
\<close>

datatype py_datetime = Naive int | Aware int int

fun as_utc :: "py_datetime \<Rightarrow> time" where
  "as_utc (Naive wall) = wall"
| "as_utc (Aware wall offset) = wall - offset"

definition hourly_window_start :: "py_datetime \<Rightarrow> time" where
  "hourly_window_start now = as_utc now - as_utc now mod hours 1"

definition bud_key :: "budget_row \<Rightarrow> string \<times> string \<times> string \<times> time" where
  "bud_key b = (bud_scope_type b, bud_scope_id b, bud_operation b, bud_window_started_at b)"

definition ensure_budget_row :: "string \<Rightarrow> string \<Rightarrow> string \<Rightarrow> time \<Rightarrow> metadb \<Rightarrow> metadb" where
  "ensure_budget_row scope_type scope_id operation window db =
     db\<lparr>budgets := tensure bud_key
          \<lparr>bud_scope_type = scope_type, bud_scope_id = scope_id, bud_operation = operation,
            bud_window_started_at = window, bud_request_count = 0\<rparr> (budgets db)\<rparr>"

text \<open>
  The conditional \<open>UPDATE ... WHERE request_count < limit\<close>: it changes one row or none, and
  none is the rate limit.
\<close>

definition consume_hourly_budget ::
    "string \<Rightarrow> string \<Rightarrow> string \<Rightarrow> int \<Rightarrow> time \<Rightarrow> metadb \<Rightarrow> py_error + metadb" where
  "consume_hourly_budget scope_type scope_id operation limit now db =
     (if limit \<le> 0 then Inl (ValueError ''Hourly budget limit must be positive'')
      else
        let window = hourly_window_start (Aware now 0);
            k = (scope_type, scope_id, operation, window);
            db1 = ensure_budget_row scope_type scope_id operation window db;
            hit = (\<lambda>b. bud_key b = k \<and> bud_request_count b < limit)
        in if length (filter hit (budgets db1)) \<noteq> 1 then Inl RateLimited
           else Inr (db1\<lparr>budgets :=
                  map (\<lambda>b. if hit b then b\<lparr>bud_request_count := bud_request_count b + 1\<rparr> else b)
                    (budgets db1)\<rparr>))"

definition spent :: "metadb \<Rightarrow> string \<Rightarrow> string \<Rightarrow> string \<Rightarrow> time \<Rightarrow> int" where
  "spent db scope_type scope_id operation window =
     (case tget bud_key (scope_type, scope_id, operation, window) (budgets db) of
        None \<Rightarrow> 0 | Some b \<Rightarrow> bud_request_count b)"

lemma hourly_window_bounds:
  "hourly_window_start d \<le> as_utc d" "as_utc d < hourly_window_start d + hours 1"
  using pos_mod_bound [of "hours 1" "as_utc d"] pos_mod_sign [of "hours 1" "as_utc d"]
  by (simp_all add: hourly_window_start_def hours_def)

lemma filter_hit_unique:
  assumes "uniq key rows" and "tget key k rows = Some r"
  shows "filter (\<lambda>b. key b = k \<and> P b) rows = (if P r then [r] else [])"
  using assms
proof (induction rows)
  case (Cons a rows)
  then show ?case
    by (cases "key a = k") (auto simp: uniq_def filter_empty_conv image_iff)
qed simp

lemma map_hit_unique:
  assumes "uniq key rows" and "tget key k rows = Some r" and "P r"
  shows "map (\<lambda>b. if key b = k \<and> P b then f b else b) rows = tupd key k f rows"
  using assms
proof (induction rows)
  case (Cons a rows)
  show ?case
  proof (cases "key a = k")
    case True
    with Cons.prems have "a = r" and "k \<notin> key ` set rows" by (auto simp: uniq_def)
    moreover from \<open>k \<notin> key ` set rows\<close> have "tupd key k f rows = rows"
      by (induction rows) auto
    moreover from \<open>k \<notin> key ` set rows\<close>
    have "map (\<lambda>b. if key b = k \<and> P b then f b else b) rows = rows"
      by (induction rows) auto
    ultimately show ?thesis using True Cons.prems by simp
  next
    case False
    with Cons show ?thesis by (simp add: uniq_def)
  qed
qed simp

lemma ensure_budget_row_props:
  assumes "uniq bud_key (budgets db)"
  shows "uniq bud_key (budgets (ensure_budget_row st sid op w db))"
    and "spent (ensure_budget_row st sid op w db) st' sid' op' w' = spent db st' sid' op' w'"
    and "\<exists>b. tget bud_key (st, sid, op, w) (budgets (ensure_budget_row st sid op w db)) = Some b
         \<and> bud_request_count b = spent db st sid op w"
proof -
  show "uniq bud_key (budgets (ensure_budget_row st sid op w db))"
    using assms by (simp add: ensure_budget_row_def table_simps)
  show "spent (ensure_budget_row st sid op w db) st' sid' op' w' = spent db st' sid' op' w'"
    by (auto simp: ensure_budget_row_def spent_def tget_tensure bud_key_def split: option.splits)
  show "\<exists>b. tget bud_key (st, sid, op, w) (budgets (ensure_budget_row st sid op w db)) = Some b
         \<and> bud_request_count b = spent db st sid op w"
    by (simp add: ensure_budget_row_def spent_def tget_tensure bud_key_def split: option.splits)
qed

lemma consume_hourly_budget_cases:
  fixes now :: time
  assumes u: "uniq bud_key (budgets db)" and l: "0 < limit"
  defines "w \<equiv> hourly_window_start (Aware now 0)"
  shows "if spent db st sid op w < limit
    then \<exists>db'. consume_hourly_budget st sid op limit now db = Inr db'
       \<and> uniq bud_key (budgets db')
       \<and> (\<forall>st' sid' op' w'. spent db' st' sid' op' w' = spent db st' sid' op' w' +
            (if (st', sid', op', w') = (st, sid, op, w) then 1 else 0))
       \<and> db' = db\<lparr>budgets := budgets db'\<rparr>
    else consume_hourly_budget st sid op limit now db = Inl RateLimited"
proof -
  let ?db1 = "ensure_budget_row st sid op w db"
  let ?k = "(st, sid, op, w)"
  note e = ensure_budget_row_props [OF u, of st sid op w]
  obtain b where b: "tget bud_key ?k (budgets ?db1) = Some b"
    and bc: "bud_request_count b = spent db st sid op w"
    using e(3) by blast
  let ?f = "\<lambda>b. b\<lparr>bud_request_count := bud_request_count b + 1\<rparr>"
  have fr: "?db1 = db\<lparr>budgets := budgets ?db1\<rparr>"
    by (simp add: ensure_budget_row_def)
  show ?thesis
  proof (cases "spent db st sid op w < limit")
    case True
    let ?db' = "?db1\<lparr>budgets := tupd bud_key ?k ?f (budgets ?db1)\<rparr>"
    have "consume_hourly_budget st sid op limit now db = Inr ?db'"
      using l True bc
        filter_hit_unique [OF e(1) b, of "\<lambda>b. bud_request_count b < limit"]
        map_hit_unique [OF e(1) b, of "\<lambda>b. bud_request_count b < limit" ?f]
      by (simp add: consume_hourly_budget_def Let_def w_def)
    moreover have "uniq bud_key (budgets ?db')"
      using e(1) by (simp add: table_simps bud_key_def)
    moreover have "spent ?db' st' sid' op' w' = spent db st' sid' op' w' +
            (if (st', sid', op', w') = ?k then 1 else 0)" for st' sid' op' w'
    proof -
      have "spent ?db' st' sid' op' w' = spent ?db1 st' sid' op' w' +
            (if (st', sid', op', w') = ?k then 1 else 0)"
        using b by (auto simp: spent_def table_simps bud_key_def)
      then show ?thesis by (simp add: e(2))
    qed
    moreover have "?db' = db\<lparr>budgets := budgets ?db'\<rparr>"
      by (subst fr) simp
    ultimately show ?thesis using True by auto
  next
    case False
    have "consume_hourly_budget st sid op limit now db = Inl RateLimited"
      using l False bc filter_hit_unique [OF e(1) b, of "\<lambda>b. bud_request_count b < limit"]
      by (simp add: consume_hourly_budget_def Let_def w_def)
    then show ?thesis using False by simp
  qed
qed


text \<open>A client that attempts an operation at the times \<open>ts\<close>; a rate-limited attempt rolls back.\<close>

fun attempts :: "string \<Rightarrow> string \<Rightarrow> string \<Rightarrow> int \<Rightarrow> time list \<Rightarrow> metadb \<Rightarrow> bool list" where
  "attempts st sid op limit [] db = []"
| "attempts st sid op limit (t # ts) db =
     (case consume_hourly_budget st sid op limit t db of
        Inl _ \<Rightarrow> False # attempts st sid op limit ts db
      | Inr db' \<Rightarrow> True # attempts st sid op limit ts db')"

definition granted_in_window :: "time \<Rightarrow> time list \<Rightarrow> bool list \<Rightarrow> int" where
  "granted_in_window w ts oks =
     int (length (filter (\<lambda>(t, ok). ok \<and> hourly_window_start (Aware t 0) = w) (zip ts oks)))"

definition attempts_in_window :: "time \<Rightarrow> time list \<Rightarrow> int" where
  "attempts_in_window w ts = int (length (filter (\<lambda>t. hourly_window_start (Aware t 0) = w) ts))"

lemma granted_in_window_Cons [simp]:
  "granted_in_window w (t # ts) (ok # oks) =
     of_bool (ok \<and> hourly_window_start (Aware t 0) = w) + granted_in_window w ts oks"
  by (simp add: granted_in_window_def)

lemma attempts_in_window_Cons [simp]:
  "attempts_in_window w (t # ts) =
     of_bool (hourly_window_start (Aware t 0) = w) + attempts_in_window w ts"
  by (simp add: attempts_in_window_def)

lemma attempts_in_window_nonneg [simp]: "0 \<le> attempts_in_window w ts"
  by (simp add: attempts_in_window_def)

text \<open>the hourly budget grants exactly as many operations of a window as the limit leaves.
  For any sequence of attempts at any times, the attempts of one hourly window that
  \<open>consume_hourly_budget\<close> accepts number the smaller of the attempts made in that window and
  the part of the limit not yet spent in it; attempts of other windows do not interfere.\<close>

theorem hourly_budget_exact:
  assumes "uniq bud_key (budgets db)" and "0 < limit"
  shows "granted_in_window w ts (attempts st sid op limit ts db) =
    min (max 0 (limit - spent db st sid op w)) (attempts_in_window w ts)"
  using assms
proof (induction ts arbitrary: db)
  case Nil
  then show ?case by (simp add: granted_in_window_def attempts_in_window_def)
next
  case (Cons t ts)
  let ?v = "hourly_window_start (Aware t 0)"
  note step = consume_hourly_budget_cases [OF Cons.prems, of st sid op t]
  show ?case
  proof (cases "spent db st sid op ?v < limit")
    case True
    with step obtain db' where c: "consume_hourly_budget st sid op limit t db = Inr db'"
      and u: "uniq bud_key (budgets db')"
      and sp: "spent db' st sid op w = spent db st sid op w + (if w = ?v then 1 else 0)"
      by auto
    have "granted_in_window w (t # ts) (attempts st sid op limit (t # ts) db) =
      of_bool (?v = w) + min (max 0 (limit - spent db' st sid op w)) (attempts_in_window w ts)"
      by (simp add: c Cons.IH [OF u Cons.prems(2)])
    with True sp show ?thesis by (cases "?v = w") auto
  next
    case False
    with step have c: "consume_hourly_budget st sid op limit t db = Inl RateLimited" by simp
    have "granted_in_window w (t # ts) (attempts st sid op limit (t # ts) db) =
      min (max 0 (limit - spent db st sid op w)) (attempts_in_window w ts)"
      by (simp add: c Cons.IH [OF Cons.prems])
    with False show ?thesis
      using attempts_in_window_nonneg [of w ts] by (cases "?v = w") auto
  qed
qed

theorem hourly_budget_exact_witness:
  "granted_in_window 0 [5, 6, 7] (attempts ''pool'' ''p'' ''purchase'' 2 [5, 6, 7] empty_db) = 2"
  using hourly_budget_exact [of empty_db 2 0 "[5, 6, 7]" "''pool''" "''p''" "''purchase''"]
  by (simp add: empty_db_def uniq_def spent_def attempts_in_window_def hourly_window_start_def
      hours_def)

text \<open>a reservation is refused at either limit and otherwise keeps both counters within
  their limits. When \<open>reserve_active_capacity_counters\<close> returns, exactly the counters of the
  agent and of the backend have grown by one and neither exceeds its limit; when it raises, it
  raises \<open>CapacityUnavailable\<close> and one of the limits was reached.\<close>

theorem reserve_within_limits:
  "case reserve_active_capacity_counters a b la lb db of
     Inl e \<Rightarrow> e = CapacityUnavailable \<and>
       (la \<le> active_count db ''agent'' a \<or> lb \<le> active_count db ''backend'' b)
   | Inr db' \<Rightarrow>
       active_count db' ''agent'' a = active_count db ''agent'' a + 1 \<and>
       active_count db' ''agent'' a \<le> la \<and>
       active_count db' ''backend'' b = active_count db ''backend'' b + 1 \<and>
       active_count db' ''backend'' b \<le> lb \<and>
       (\<forall>a'. a' = a \<or> active_count db' ''agent'' a' = active_count db ''agent'' a') \<and>
       (\<forall>b'. b' = b \<or> active_count db' ''backend'' b' = active_count db ''backend'' b') \<and>
       resources db' = resources db"
proof (cases "reserve_active_capacity_counters a b la lb db")
  case (Inl e)
  then show ?thesis using ledger.reserve_full by fastforce
next
  case (Inr db')
  note c = ledger.reserve_count [OF Inr] and l = ledger.reserve_limits [OF Inr]
  have "active_count db' ''agent'' a' = active_count db ''agent'' a' + of_bool (a' = a)" for a'
    by (simp add: c)
  moreover have "active_count db' ''backend'' b' = active_count db ''backend'' b' + of_bool (b' = b)" for b'
    by (simp add: c)
  ultimately show ?thesis using l ledger.reserve_rows [OF Inr] by (simp add: Inr)
qed

text \<open>every instant falls into exactly the hourly window that starts at or before it and
  ends within the hour, whatever offset the datetime carries, and window starts are whole
  hours of UTC.\<close>

theorem hourly_window_characterised:
  "hourly_window_start d \<le> as_utc d \<and> as_utc d < hourly_window_start d + hours 1
   \<and> hours 1 dvd hourly_window_start d
   \<and> hourly_window_start (Aware (w + off) off) = hourly_window_start (Naive w)"
proof -
  have "hours 1 dvd as_utc d - as_utc d mod hours 1"
    by (rule dvd_minus_mod)
  then show ?thesis
    using hourly_window_bounds [of d] by (simp add: hourly_window_start_def)
qed

end
