(* ===== verification/Permission_Templates.thy ===== *)
theory Permission_Templates
  imports Capacity
begin

text \<open>
  Permission templates (\<open>server/core/permission_template_service.py\<close>): the database
  privileges, the compilation of a template revision into a snapshot, its JSON form, the
  effective deletion cooldown, new revisions, and permission synchronisation jobs.
\<close>

section \<open>Privileges\<close>

datatype database_privilege =
    P_CREATE | P_DROP | P_ALTER | P_INDEX | P_REFERENCES | P_CREATE_VIEW | P_SHOW_VIEW
  | P_CREATE_ROUTINE | P_ALTER_ROUTINE | P_EXECUTE | P_SELECT | P_INSERT | P_UPDATE | P_DELETE
  | P_CREATE_TEMPORARY_TABLES | P_LOCK_TABLES | P_CREATE_USER

definition all_privileges :: "database_privilege list" where
  "all_privileges = [P_CREATE, P_DROP, P_ALTER, P_INDEX, P_REFERENCES, P_CREATE_VIEW,
     P_SHOW_VIEW, P_CREATE_ROUTINE, P_ALTER_ROUTINE, P_EXECUTE, P_SELECT, P_INSERT, P_UPDATE,
     P_DELETE, P_CREATE_TEMPORARY_TABLES, P_LOCK_TABLES, P_CREATE_USER]"

fun privilege_value :: "database_privilege \<Rightarrow> string" where
  "privilege_value P_CREATE = ''CREATE''"
| "privilege_value P_DROP = ''DROP''"
| "privilege_value P_ALTER = ''ALTER''"
| "privilege_value P_INDEX = ''INDEX''"
| "privilege_value P_REFERENCES = ''REFERENCES''"
| "privilege_value P_CREATE_VIEW = ''CREATE VIEW''"
| "privilege_value P_SHOW_VIEW = ''SHOW VIEW''"
| "privilege_value P_CREATE_ROUTINE = ''CREATE ROUTINE''"
| "privilege_value P_ALTER_ROUTINE = ''ALTER ROUTINE''"
| "privilege_value P_EXECUTE = ''EXECUTE''"
| "privilege_value P_SELECT = ''SELECT''"
| "privilege_value P_INSERT = ''INSERT''"
| "privilege_value P_UPDATE = ''UPDATE''"
| "privilege_value P_DELETE = ''DELETE''"
| "privilege_value P_CREATE_TEMPORARY_TABLES = ''CREATE TEMPORARY TABLES''"
| "privilege_value P_LOCK_TABLES = ''LOCK TABLES''"
| "privilege_value P_CREATE_USER = ''CREATE USER''"

text \<open>\<open>DatabasePrivilege(value)\<close>: \<open>None\<close> where Python raises \<open>ValueError\<close>.\<close>

definition privilege_of_value :: "string \<Rightarrow> database_privilege option" where
  "privilege_of_value s = find (\<lambda>p. privilege_value p = s) all_privileges"

definition default_database_privileges :: "database_privilege list" where
  "default_database_privileges = filter (\<lambda>p. p \<noteq> P_CREATE_USER) all_privileges"

datatype permission_scope = SCOPE_MULTITENANT | SCOPE_DEDICATED

fun scope_value :: "permission_scope \<Rightarrow> string" where
  "scope_value SCOPE_MULTITENANT = ''tenant''"
| "scope_value SCOPE_DEDICATED = ''global''"

definition scope_of_value :: "json \<Rightarrow> permission_scope option" where
  "scope_of_value j =
     (if j = JStr ''tenant'' then Some SCOPE_MULTITENANT
      else if j = JStr ''global'' then Some SCOPE_DEDICATED else None)"

record permission_snapshot =
  ps_template_id :: "string option"
  ps_revision_id :: "string option"
  ps_privileges :: "database_privilege list"
  ps_grant_option :: bool
  ps_scope :: permission_scope
  ps_legacy_all_privileges :: bool

definition effective_delete_cooldown_hours ::
    "int option \<Rightarrow> int option \<Rightarrow> int \<Rightarrow> py_error + int" where
  "effective_delete_cooldown_hours resource_override pool_or_backend_override global_default =
     (let selected = (case resource_override of Some v \<Rightarrow> v
          | None \<Rightarrow> (case pool_or_backend_override of Some v \<Rightarrow> v | None \<Rightarrow> global_default))
      in if selected < 1 then Inl (ValueError ''delete cooldown must be at least 1 hour'')
         else Inr selected)"

section \<open>Compilation\<close>

fun collect_privileges ::
    "json list \<Rightarrow> database_privilege list \<Rightarrow> py_error + database_privilege list" where
  "collect_privileges [] selected = Inr selected"
| "collect_privileges (JStr v # rest) selected =
     (case privilege_of_value v of
        None \<Rightarrow> Inl (ValueError ''unsupported privilege'')
      | Some p \<Rightarrow> collect_privileges rest (p # selected))"
| "collect_privileges (_ # rest) selected = Inl (ValueError ''privilege values must be strings'')"

definition parse_privileges :: "jtext \<Rightarrow> py_error + database_privilege list" where
  "parse_privileges t =
     (case t of
        InvalidText \<Rightarrow> Inl (ValueError ''privilege list must be valid JSON'')
      | Text (JArr raw) \<Rightarrow>
          if raw = [] then Inl (ValueError ''privilege list must be a non-empty array'')
          else (case collect_privileges raw [] of
                  Inl e \<Rightarrow> Inl e
                | Inr selected \<Rightarrow> Inr (filter (\<lambda>p. p \<in> set selected) all_privileges))
      | Text _ \<Rightarrow> Inl (ValueError ''privilege list must be a non-empty array''))"

definition compile_permission_snapshot ::
    "string \<Rightarrow> string \<Rightarrow> jtext \<Rightarrow> bool \<Rightarrow> permission_scope \<Rightarrow> py_error + permission_snapshot" where
  "compile_permission_snapshot revision_id template_id privileges_json grant_option scope =
     (case parse_privileges privileges_json of
        Inl e \<Rightarrow> Inl e
      | Inr privileges \<Rightarrow>
          if scope = SCOPE_MULTITENANT \<and> P_CREATE_USER \<in> set privileges
          then Inl (ValueError ''CREATE USER requires Dedicated scope'')
          else Inr \<lparr>ps_template_id = Some template_id, ps_revision_id = Some revision_id,
             ps_privileges = privileges, ps_grant_option = grant_option, ps_scope = scope,
             ps_legacy_all_privileges = False\<rparr>)"

definition default_permission_snapshot :: "permission_scope \<Rightarrow> permission_snapshot" where
  "default_permission_snapshot scope =
     \<lparr>ps_template_id = Some ''builtin-mysql-default'',
      ps_revision_id = Some ''builtin-mysql-default-v1'',
      ps_privileges = default_database_privileges, ps_grant_option = False, ps_scope = scope,
      ps_legacy_all_privileges = False\<rparr>"

definition legacy_permission_snapshot :: "permission_scope \<Rightarrow> permission_snapshot" where
  "legacy_permission_snapshot scope =
     \<lparr>ps_template_id = None, ps_revision_id = None, ps_privileges = [], ps_grant_option = True,
      ps_scope = scope, ps_legacy_all_privileges = True\<rparr>"

text \<open>The object is written with sorted keys; the two ids only when they are set.\<close>

definition permission_snapshot_to_json :: "permission_snapshot \<Rightarrow> jtext" where
  "permission_snapshot_to_json s =
     Text (JObj (
       [(''grant_option'', JBool (ps_grant_option s)),
        (''legacy'', JBool (ps_legacy_all_privileges s)),
        (''privileges'', JArr (if ps_legacy_all_privileges s then [JStr ''ALL PRIVILEGES'']
            else map (\<lambda>p. JStr (privilege_value p)) (ps_privileges s)))]
       @ (case ps_revision_id s of None \<Rightarrow> [] | Some v \<Rightarrow> [(''revision_id'', JStr v)])
       @ [(''scope'', JStr (scope_value (ps_scope s)))]
       @ (case ps_template_id s of None \<Rightarrow> [] | Some v \<Rightarrow> [(''template_id'', JStr v)])))"

text \<open>
  \<open>str(payload.get(key) or '''')\<close> for the ids: absent, null, false, zero and empty values
  become the empty string; a string is itself. Other values cannot be written by this module;
  \<open>py_str\<close> stands for Python's \<open>str\<close> on them.
\<close>

definition str_or_empty :: "(json \<Rightarrow> string) \<Rightarrow> json option \<Rightarrow> string" where
  "str_or_empty py_str v =
     (case v of None \<Rightarrow> [] | Some (JStr s) \<Rightarrow> s | Some JNull \<Rightarrow> [] | Some (JBool False) \<Rightarrow> []
      | Some (JNum n) \<Rightarrow> if n = 0 then [] else py_str (JNum n)
      | Some (JArr xs) \<Rightarrow> if xs = [] then [] else py_str (JArr xs)
      | Some (JObj xs) \<Rightarrow> if xs = [] then [] else py_str (JObj xs)
      | Some j \<Rightarrow> py_str j)"

definition none_if_empty :: "string option \<Rightarrow> string option" where
  "none_if_empty v = (if v = Some [] then None else v)"

definition permission_snapshot_from_json ::
    "(json \<Rightarrow> string) \<Rightarrow> jtext \<Rightarrow> py_error + permission_snapshot" where
  "permission_snapshot_from_json py_str t =
     (case t of
        InvalidText \<Rightarrow> Inl (ValueError ''permission snapshot must be valid JSON'')
      | Text (JObj payload) \<Rightarrow>
          (case Option.bind (map_of payload ''scope'') scope_of_value of
             None \<Rightarrow> Inl (ValueError ''permission snapshot scope is invalid'')
           | Some scope \<Rightarrow>
               (case (map_of payload ''grant_option'',
                      case map_of payload ''legacy'' of None \<Rightarrow> JBool False | Some j \<Rightarrow> j) of
                  (Some (JBool grant_option), JBool legacy) \<Rightarrow>
                    if legacy then
                      (if map_of payload ''privileges'' = Some (JArr [JStr ''ALL PRIVILEGES''])
                       then Inr (legacy_permission_snapshot scope)
                       else Inl (ValueError ''legacy permission snapshot is invalid''))
                    else
                      (case compile_permission_snapshot
                              (str_or_empty py_str (map_of payload ''revision_id''))
                              (str_or_empty py_str (map_of payload ''template_id''))
                              (Text (case map_of payload ''privileges'' of
                                       None \<Rightarrow> JNull | Some j \<Rightarrow> j))
                              grant_option scope of
                         Inl e \<Rightarrow> Inl e
                       | Inr compiled \<Rightarrow> Inr (compiled\<lparr>
                           ps_template_id := none_if_empty (ps_template_id compiled),
                           ps_revision_id := none_if_empty (ps_revision_id compiled)\<rparr>))
                | _ \<Rightarrow> Inl (ValueError ''permission snapshot flags are invalid'')))
      | Text _ \<Rightarrow> Inl (ValueError ''permission snapshot must be an object''))"

section \<open>Revisions and synchronisation jobs\<close>

definition create_permission_template_revision ::
    "string \<Rightarrow> string \<Rightarrow> string list \<Rightarrow> bool \<Rightarrow> metadb \<Rightarrow> py_error + (permission_revision \<times> metadb)" where
  "create_permission_template_revision new_id template_id privileges grant_option db =
     (case compile_permission_snapshot ''pending'' template_id (Text (JArr (map JStr privileges)))
             grant_option SCOPE_DEDICATED of
        Inl e \<Rightarrow> Inl e
      | Inr compiled \<Rightarrow>
          let current = fold max (map pr_revision
                 (filter (\<lambda>v. pr_template_id v = template_id) (revisions db))) 0;
              revision = \<lparr>pr_id = new_id, pr_template_id = template_id, pr_revision = current + 1,
                 pr_privileges_json =
                   Text (JArr (map (\<lambda>p. JStr (privilege_value p)) (ps_privileges compiled))),
                 pr_grant_option = grant_option\<rparr>
          in Inr (revision, db\<lparr>revisions := revisions db @ [revision]\<rparr>))"

definition permission_snapshot_for_revision :: "permission_revision \<Rightarrow> py_error + permission_snapshot" where
  "permission_snapshot_for_revision v =
     compile_permission_snapshot (pr_id v) (pr_template_id v) (pr_privileges_json v)
       (pr_grant_option v) SCOPE_DEDICATED"

definition permission_sync_members ::
    "string \<Rightarrow> string \<Rightarrow> metadb \<Rightarrow> py_error + pool_member list" where
  "permission_sync_members target_scope target_id db =
     (if target_scope = ''pool'' then
        (if get_pool db target_id = None then Inl PermissionSyncTargetNotFound
         else Inr (filter (\<lambda>m. m_pool_id m = target_id \<and> m_database_name m \<noteq> None
                \<and> m_sandbox_username_ciphertext m \<noteq> None) (members db)))
      else if target_scope = ''resource'' then
        (if get_resource db target_id = None then Inl PermissionSyncTargetNotFound
         else Inr (filter (\<lambda>m. m_allocated_resource_id m = Some target_id
                \<and> m_database_name m \<noteq> None
                \<and> m_sandbox_username_ciphertext m \<noteq> None) (members db)))
      else Inl PermissionSyncError)"

definition new_sync_target ::
    "string \<Rightarrow> string \<Rightarrow> time \<Rightarrow> string \<Rightarrow> sync_mode \<Rightarrow> pool_member \<Rightarrow> sync_target" where
  "new_sync_target target_id job_id now revision_id mode m =
     \<lparr>st_id = target_id, st_job_id = job_id, st_member_id = m_id m,
      st_resource_id = m_allocated_resource_id m,
      st_previous_revision_id = m_permission_revision_id m,
      st_status = (if mode = SYNC_DRY_RUN then TGT_SUCCEEDED else TGT_PENDING),
      st_change_required = (m_permission_revision_id m \<noteq> Some revision_id),
      st_retry_count = 0, st_next_retry_at = None, st_failure_reason = None,
      st_worker_id = None, st_worker_lease_until = None, st_created_at = now\<rparr>"

definition request_permission_sync ::
    "(nat \<Rightarrow> string) \<Rightarrow> time \<Rightarrow> string \<Rightarrow> string \<Rightarrow> string \<Rightarrow> sync_mode \<Rightarrow> string option
     \<Rightarrow> metadb \<Rightarrow> py_error + (sync_job \<times> metadb)" where
  "request_permission_sync fresh now revision_id target_scope target_id mode confirmed_by db =
     (if mode = SYNC_APPLY \<and> confirmed_by = None then Inl PermissionSyncConfirmationRequired
      else case get_revision db revision_id of
        None \<Rightarrow> Inl PermissionSyncTargetNotFound
      | Some revision \<Rightarrow>
          (case permission_snapshot_for_revision revision of
             Inl e \<Rightarrow> Inl e
           | Inr _ \<Rightarrow>
               (case permission_sync_members target_scope target_id db of
                  Inl e \<Rightarrow> Inl e
                | Inr ms \<Rightarrow>
                    let job = \<lparr>sj_id = fresh 0, sj_revision_id = pr_id revision,
                          sj_target_scope = target_scope, sj_target_id = target_id,
                          sj_mode = mode,
                          sj_status = (if mode = SYNC_DRY_RUN \<or> ms = [] then SYNC_SUCCEEDED
                                       else SYNC_PENDING),
                          sj_confirmed_by = (if mode = SYNC_APPLY then confirmed_by else None),
                          sj_total_count = int (length ms),
                          sj_completed_count =
                            (if mode = SYNC_DRY_RUN then int (length ms) else 0),
                          sj_failed_count = 0, sj_failure_reason = None\<rparr>;
                        targets = map (\<lambda>(k, m). new_sync_target (fresh (Suc k)) (fresh 0) now
                                         (pr_id revision) mode m) (enumerate 0 ms)
                    in Inr (job, db\<lparr>sync_jobs := sync_jobs db @ [job],
                                     sync_targets := sync_targets db @ targets\<rparr>))))"

section \<open>Properties\<close>

lemma privilege_of_value_value [simp]: "privilege_of_value (privilege_value p) = Some p"
  by (cases p) (simp_all add: privilege_of_value_def all_privileges_def)

lemma privilege_of_value_SomeD: "privilege_of_value s = Some p \<Longrightarrow> privilege_value p = s"
  by (auto simp: privilege_of_value_def find_Some_iff)

lemma privilege_value_eq: "privilege_of_value v = Some p \<Longrightarrow> privilege_value q = v \<longleftrightarrow> q = p"
  using privilege_of_value_value [of q] privilege_of_value_SomeD [of v p] by (metis option.inject)

lemma set_all_privileges [simp]: "set all_privileges = UNIV"
proof -
  have "p \<in> set all_privileges" for p
    by (cases p) (simp_all add: all_privileges_def)
  then show ?thesis by blast
qed

lemma distinct_all_privileges [simp]: "distinct all_privileges"
  by (simp add: all_privileges_def)

lemma collect_privileges_ok:
  "collect_privileges (map (\<lambda>p. JStr (privilege_value p)) ps) acc = Inr (rev ps @ acc)"
  by (induction ps arbitrary: acc) auto

lemma collect_privileges_set:
  "collect_privileges raw acc = Inr sel \<Longrightarrow>
   set sel = set acc \<union> {p. JStr (privilege_value p) \<in> set raw}"
proof (induction raw acc rule: collect_privileges.induct)
  case (2 v rest selected)
  from "2.prems" obtain p where p: "privilege_of_value v = Some p"
    and rest: "collect_privileges rest (p # selected) = Inr sel"
    by (cases "privilege_of_value v") auto
  have "{q. JStr (privilege_value q) \<in> set (JStr v # rest)} =
      insert p {q. JStr (privilege_value q) \<in> set rest}"
    using privilege_value_eq [OF p] by auto
  with "2.IH" [OF p rest] show ?case by simp
qed auto

text \<open>compiling a privilege list gives exactly the listed privileges, each once and in the
  enumeration's order, and never grants CREATE USER on a shared (multitenant) cluster.\<close>

theorem compile_permission_snapshot_canonical:
  assumes "compile_permission_snapshot rid tid (Text (JArr raw)) g scope = Inr s"
  shows "ps_privileges s = filter (\<lambda>p. JStr (privilege_value p) \<in> set raw) all_privileges
    \<and> distinct (ps_privileges s) \<and> ps_privileges s \<noteq> []
    \<and> \<not> (scope = SCOPE_MULTITENANT \<and> P_CREATE_USER \<in> set (ps_privileges s))"
proof -
  from assms obtain sel where raw: "raw \<noteq> []" and sel: "collect_privileges raw [] = Inr sel"
    and s: "ps_privileges s = filter (\<lambda>p. p \<in> set sel) all_privileges"
    and u: "\<not> (scope = SCOPE_MULTITENANT \<and> P_CREATE_USER \<in> set (ps_privileges s))"
    by (auto simp: compile_permission_snapshot_def parse_privileges_def
        split: if_splits sum.splits)
  have 1: "ps_privileges s = filter (\<lambda>p. JStr (privilege_value p) \<in> set raw) all_privileges"
    using s collect_privileges_set [OF sel] by simp
  from raw obtain j rest where "raw = j # rest" by (cases raw) auto
  with sel obtain v p where "j = JStr v" "privilege_of_value v = Some p"
    by (cases j) (auto split: option.splits)
  with \<open>raw = j # rest\<close> have "JStr (privilege_value p) \<in> set raw"
    by (auto dest: privilege_of_value_SomeD)
  then have "p \<in> set (ps_privileges s)" by (simp add: 1)
  then have "ps_privileges s \<noteq> []" by auto
  moreover have "distinct (ps_privileges s)" by (simp add: 1)
  ultimately show ?thesis using 1 u by (intro conjI)
qed

text \<open>A snapshot as the module builds it: legacy, or compiled with non-empty ids.\<close>

definition snapshot_wf :: "permission_snapshot \<Rightarrow> bool" where
  "snapshot_wf s \<longleftrightarrow>
     (if ps_legacy_all_privileges s then s = legacy_permission_snapshot (ps_scope s)
      else ps_privileges s \<noteq> []
         \<and> ps_privileges s = filter (\<lambda>p. p \<in> set (ps_privileges s)) all_privileges
         \<and> \<not> (ps_scope s = SCOPE_MULTITENANT \<and> P_CREATE_USER \<in> set (ps_privileges s))
         \<and> ps_template_id s \<noteq> Some [] \<and> ps_revision_id s \<noteq> Some [])"

lemma scope_of_scope_value [simp]: "scope_of_value (JStr (scope_value sc)) = Some sc"
  by (cases sc) (simp_all add: scope_of_value_def)

lemma parse_rendered_privileges:
  "ps \<noteq> [] \<Longrightarrow> parse_privileges (Text (JArr (map (\<lambda>p. JStr (privilege_value p)) ps))) =
     Inr (filter (\<lambda>p. p \<in> set ps) all_privileges)"
  by (simp add: parse_privileges_def collect_privileges_ok)

lemma snapshot_json_inverse:
  assumes "snapshot_wf s"
  shows "permission_snapshot_from_json py_str (permission_snapshot_to_json s) = Inr s"
proof (cases "ps_legacy_all_privileges s")
  case True
  with assms have s: "s = legacy_permission_snapshot (ps_scope s)" by (simp add: snapshot_wf_def)
  show ?thesis
    by (subst s, subst s)
      (simp add: permission_snapshot_to_json_def permission_snapshot_from_json_def
        legacy_permission_snapshot_def)
next
  case False
  with assms have p: "ps_privileges s \<noteq> []"
    and c: "filter (\<lambda>p. p \<in> set (ps_privileges s)) all_privileges = ps_privileges s"
    and u: "\<not> (ps_scope s = SCOPE_MULTITENANT \<and> P_CREATE_USER \<in> set (ps_privileges s))"
    and ids: "ps_template_id s \<noteq> Some []" "ps_revision_id s \<noteq> Some []"
    by (auto simp: snapshot_wf_def)
  have parse: "parse_privileges (Text (JArr (map (\<lambda>p. JStr (privilege_value p)) (ps_privileges s))))
      = Inr (ps_privileges s)"
    using parse_rendered_privileges [OF p] c by simp
  show ?thesis
    using False u ids parse
    by (cases s)
      (auto simp: permission_snapshot_to_json_def permission_snapshot_from_json_def
        compile_permission_snapshot_def str_or_empty_def none_if_empty_def
        split: option.splits)
qed

text \<open>the JSON form of a snapshot reads back as the same snapshot, whether it is compiled
  from a template, the built-in default, or the legacy all-privileges snapshot.\<close>

theorem permission_snapshot_roundtrip:
  assumes "snapshot_wf s"
  shows "permission_snapshot_from_json py_str (permission_snapshot_to_json s) = Inr s"
  by (rule snapshot_json_inverse [OF assms])

theorem permission_snapshot_roundtrip_witness:
  "permission_snapshot_from_json (\<lambda>_. [])
     (permission_snapshot_to_json (default_permission_snapshot SCOPE_MULTITENANT)) =
   Inr (default_permission_snapshot SCOPE_MULTITENANT)"
  by (rule permission_snapshot_roundtrip)
    (simp add: snapshot_wf_def default_permission_snapshot_def default_database_privileges_def
      all_privileges_def)

theorem compile_permission_snapshot_canonical_witness:
  "distinct [P_SELECT, P_UPDATE] \<and> [P_SELECT, P_UPDATE] =
    filter (\<lambda>p. JStr (privilege_value p) \<in>
      set [JStr ''UPDATE'', JStr ''SELECT'', JStr ''UPDATE'']) all_privileges"
proof -
  have "compile_permission_snapshot ''r'' ''t'' (Text (JArr
      [JStr ''UPDATE'', JStr ''SELECT'', JStr ''UPDATE''])) False SCOPE_MULTITENANT =
    Inr \<lparr>ps_template_id = Some ''t'', ps_revision_id = Some ''r'',
      ps_privileges = [P_SELECT, P_UPDATE], ps_grant_option = False,
      ps_scope = SCOPE_MULTITENANT, ps_legacy_all_privileges = False\<rparr>"
    by (simp add: compile_permission_snapshot_def parse_privileges_def privilege_of_value_def
        all_privileges_def)
  from compile_permission_snapshot_canonical [OF this] show ?thesis by simp
qed

end
