(* ===== verification/Placement.thy ===== *)
theory Placement
  imports Permission_Templates
begin

text \<open>
  Choosing a provisioning backend and taking capacity on it:
  \<open>server/core/provisioning_backend_repository.py\<close> (which backends an agent may use),
  \<open>server/core/backend_selector.py\<close> (in which order) and the reservation of
  \<open>server/core/provisioning_capacity.py\<close> (the first candidate with room takes the resource).

  SHA-256 is a parameter (\<open>sha256_hex\<close>): the order among equally loaded backends depends on
  it, no property does.
\<close>

section \<open>Candidates\<close>

record backend_candidate =
  bc_backend_id :: string
  bc_priority :: int
  bc_active_count :: int
  bc_max_active_resources :: int
  bc_routing_order :: "int option"

definition backend_health_cutoff :: "tenant_provisioning_config \<Rightarrow> time \<Rightarrow> time" where
  "backend_health_cutoff cfg now =
     now - seconds (effective_backend_health_stale_after_seconds cfg)"

definition backend_is_fresh_and_healthy ::
    "tenant_provisioning_config \<Rightarrow> time \<Rightarrow> backend \<Rightarrow> bool" where
  "backend_is_fresh_and_healthy cfg now b =
     (b_status b = BS_ACTIVE \<and>
      (case b_health b of None \<Rightarrow> False
       | Some h \<Rightarrow> h_healthy h \<and> h_checked_at h \<ge> backend_health_cutoff cfg now))"

text \<open>The joins of \<open>list_candidates\<close> on the instance and its administrator credential.\<close>

definition multitenant_target_ok :: "metadb \<Rightarrow> instance_engine \<Rightarrow> backend \<Rightarrow> bool" where
  "multitenant_target_ok db engine b =
     (b_type b = BT_MULTITENANT \<and>
      (case b_instance_id b of None \<Rightarrow> False | Some iid \<Rightarrow>
        (case get_instance db iid of None \<Rightarrow> False | Some i \<Rightarrow>
           i_engine i = engine \<and> i_topology i = MULTITENANT \<and> i_status i = IS_ACTIVE \<and>
           (case b_admin_credential_id b of None \<Rightarrow> False | Some cid \<Rightarrow>
             (case tget c_id cid (credentials db) of None \<Rightarrow> False | Some c \<Rightarrow>
                c_instance_id c = Some (i_id i) \<and> c_resource_id c = None \<and>
                c_purpose c = PROVISIONING_ADMIN \<and> c_capability c = CC_ADMIN \<and>
                c_status c = CRED_ACTIVE \<and> c_username_ciphertext c \<noteq> None \<and>
                c_password_ciphertext c \<noteq> None)))))"

definition dedicated_target_ok :: "metadb \<Rightarrow> provisioning_binding \<Rightarrow> backend \<Rightarrow> bool" where
  "dedicated_target_ok db pb b =
     (b_type b = BT_DEDICATED_POOL \<and> pb_routing_order pb \<noteq> None \<and>
      (case backend_pool db b of None \<Rightarrow> False | Some p \<Rightarrow> p_status p = POOL_ACTIVE))"

definition candidate_of :: "metadb \<Rightarrow> provisioning_binding \<Rightarrow> backend \<Rightarrow> backend_candidate" where
  "candidate_of db pb b =
     \<lparr>bc_backend_id = b_id b, bc_priority = b_priority b,
      bc_active_count = active_count db ''backend'' (b_id b),
      bc_max_active_resources = b_max_active_resources b,
      bc_routing_order = pb_routing_order pb\<rparr>"

definition eligible ::
    "tenant_provisioning_config \<Rightarrow> time \<Rightarrow> string \<Rightarrow> instance_engine \<Rightarrow> provisioning_mode
     \<Rightarrow> metadb \<Rightarrow> provisioning_binding \<Rightarrow> backend \<Rightarrow> bool" where
  "eligible cfg now agent_id engine mode db pb b =
     (pb_agent_id pb = agent_id \<and> pb_enabled pb \<and> pb_backend_id pb = b_id b \<and>
      backend_is_fresh_and_healthy cfg now b \<and>
      (if mode = MODE_MULTITENANT then multitenant_target_ok db engine b
       else engine = POLARDB_MYSQL \<and> dedicated_target_ok db pb b))"

section \<open>Ordering\<close>

definition tie_break_score :: "(string \<Rightarrow> string) \<Rightarrow> string \<Rightarrow> string \<Rightarrow> string \<Rightarrow> string" where
  "tie_break_score sha256_hex agent_id client_token backend_id =
     sha256_hex (agent_id @ '':'' @ client_token @ '':'' @ backend_id)"

definition load :: "backend_candidate \<Rightarrow> rat" where
  "load c = of_int (bc_active_count c) / of_int (bc_max_active_resources c)"

definition candidate_sort_key ::
    "(string \<Rightarrow> string) \<Rightarrow> string \<Rightarrow> string \<Rightarrow> backend_candidate \<Rightarrow> int \<times> rat \<times> string" where
  "candidate_sort_key sha256_hex agent_id client_token c =
     (- bc_priority c, load c, tie_break_score sha256_hex agent_id client_token (bc_backend_id c))"

text \<open>
  \<open>sorted\<close> computes the key of every element first; a zero limit makes the division raise.
  (A zero limit is excluded by the table's check constraint.) \<open>Decimal\<close> divides to 28
  significant digits, which separates and identifies quotients of 32-bit integers exactly as
  rationals do.
\<close>

definition order_candidates ::
    "(string \<Rightarrow> string) \<Rightarrow> string \<Rightarrow> string \<Rightarrow> backend_candidate list
     \<Rightarrow> py_error + backend_candidate list" where
  "order_candidates sha256_hex agent_id client_token cs =
     (if \<exists>c \<in> set cs. bc_max_active_resources c = 0 then Inl ZeroDivisionError
      else Inr (sort_key (candidate_sort_key sha256_hex agent_id client_token) cs))"

definition candidate_rows ::
    "tenant_provisioning_config \<Rightarrow> time \<Rightarrow> string \<Rightarrow> instance_engine \<Rightarrow> provisioning_mode
     \<Rightarrow> metadb \<Rightarrow> backend_candidate list" where
  "candidate_rows cfg now agent_id engine mode db =
     [candidate_of db pb b. pb \<leftarrow> bindings db, b \<leftarrow> backends db,
        eligible cfg now agent_id engine mode db pb b]"

definition list_candidates ::
    "tenant_provisioning_config \<Rightarrow> (string \<Rightarrow> string) \<Rightarrow> time \<Rightarrow> string \<Rightarrow> instance_engine \<Rightarrow> string
     \<Rightarrow> provisioning_mode \<Rightarrow> metadb \<Rightarrow> py_error + backend_candidate list" where
  "list_candidates cfg sha256_hex now agent_id engine client_token mode db =
     (let rows = candidate_rows cfg now agent_id engine mode db
      in if mode = MODE_DEDICATED
         then Inr (sort_key (\<lambda>c. case bc_routing_order c of None \<Rightarrow> 0 | Some n \<Rightarrow> n) rows)
         else order_candidates sha256_hex agent_id client_token rows)"

definition select_backend ::
    "tenant_provisioning_config \<Rightarrow> (string \<Rightarrow> string) \<Rightarrow> time \<Rightarrow> string \<Rightarrow> provisioning_mode \<Rightarrow> string
     \<Rightarrow> instance_engine \<Rightarrow> metadb \<Rightarrow> py_error + backend" where
  "select_backend cfg sha256_hex now agent_id mode client_token engine db =
     (case list_candidates cfg sha256_hex now agent_id engine client_token mode db of
        Inl e \<Rightarrow> Inl e
      | Inr [] \<Rightarrow> Inl NoEligibleProvisioningBackend
      | Inr (c # _) \<Rightarrow>
          (case get_backend db (bc_backend_id c) of
             None \<Rightarrow> Inl NoEligibleProvisioningBackend
           | Some b \<Rightarrow> Inr b))"

section \<open>Reservation\<close>

text \<open>
  Inserting a resource under the table's constraints: primary key, one resource per agent
  and client token, unique tenant names.
\<close>

definition insert_resource :: "resource \<Rightarrow> metadb \<Rightarrow> py_error + metadb" where
  "insert_resource r db =
     (if \<exists>x \<in> set (resources db). r_id x = r_id r
           \<or> (r_owner_agent_id x = r_owner_agent_id r \<and> r_client_token x = r_client_token r)
           \<or> (r_tenant_name r \<noteq> None \<and> r_tenant_name x = r_tenant_name r)
      then Inl IntegrityError
      else Inr (db\<lparr>resources := resources db @ [r]\<rparr>))"

text \<open>
  The \<open>before_commit\<close> callback writes the audit record of the request, outside the tables
  modelled here; it can fail and then aborts the transaction.
\<close>

type_synonym audit_hook = "(resource \<Rightarrow> py_error option) option"

definition run_hook :: "audit_hook \<Rightarrow> resource \<Rightarrow> metadb \<Rightarrow> py_error + (resource \<times> metadb)" where
  "run_hook hook r db =
     (case hook of None \<Rightarrow> Inr (r, db)
      | Some f \<Rightarrow> (case f r of None \<Rightarrow> Inr (r, db) | Some e \<Rightarrow> Inl e))"

text \<open>\<open>agent.max_active_resources or default\<close>: a missing or zero limit is the default.\<close>

definition agent_limit :: "tenant_provisioning_config \<Rightarrow> agent \<Rightarrow> int" where
  "agent_limit cfg a =
     (case a_max_active_resources a of
        None \<Rightarrow> effective_max_active_resources_per_agent cfg
      | Some n \<Rightarrow> if n = 0 then effective_max_active_resources_per_agent cfg else n)"

definition placement_backend :: "metadb \<Rightarrow> instance_engine \<Rightarrow> string \<Rightarrow> backend option" where
  "placement_backend db engine backend_id =
     (case get_backend db backend_id of None \<Rightarrow> None | Some b \<Rightarrow>
        (case b_instance_id b of None \<Rightarrow> None | Some iid \<Rightarrow>
           (case get_instance db iid of None \<Rightarrow> None | Some i \<Rightarrow>
              if i_engine i = engine \<and> i_topology i = MULTITENANT \<and> i_status i = IS_ACTIVE
              then Some b else None)))"

definition binding_enabled :: "metadb \<Rightarrow> string \<Rightarrow> string \<Rightarrow> bool" where
  "binding_enabled db agent_id backend_id =
     (\<exists>pb \<in> set (bindings db). pb_agent_id pb = agent_id \<and> pb_backend_id pb = backend_id
        \<and> pb_enabled pb)"

definition health_fresh :: "tenant_provisioning_config \<Rightarrow> time \<Rightarrow> backend \<Rightarrow> bool" where
  "health_fresh cfg now b =
     (case b_health b of None \<Rightarrow> False
      | Some h \<Rightarrow> h_healthy h \<and> h_checked_at h \<ge> backend_health_cutoff cfg now)"

text \<open>The permission snapshot of the backend's template revision, when it has one.\<close>

definition apply_backend_permissions :: "metadb \<Rightarrow> backend \<Rightarrow> resource \<Rightarrow> py_error + resource" where
  "apply_backend_permissions db b r =
     (case Option.bind (b_permission_template_revision_id b) (get_revision db) of
        None \<Rightarrow> Inr r
      | Some v \<Rightarrow>
          (case compile_permission_snapshot (pr_id v) (pr_template_id v) (pr_privileges_json v)
                  (pr_grant_option v) SCOPE_MULTITENANT of
             Inl e \<Rightarrow> Inl e
           | Inr s \<Rightarrow> Inr (r\<lparr>r_permission_template_id := ps_template_id s,
                 r_permission_revision_id := ps_revision_id s,
                 r_permission_snapshot_json := Some (permission_snapshot_to_json s)\<rparr>)))"

definition reserve_candidate ::
    "tenant_provisioning_config \<Rightarrow> time \<Rightarrow> string \<Rightarrow> instance_engine \<Rightarrow> (string \<Rightarrow> resource)
     \<Rightarrow> audit_hook \<Rightarrow> metadb \<Rightarrow> string \<Rightarrow> py_error + (resource \<times> metadb)" where
  "reserve_candidate cfg now agent_id engine build_resource before_commit db backend_id =
     (case (get_agent db agent_id, placement_backend db engine backend_id) of
        (Some a, Some b) \<Rightarrow>
          if a_status a \<noteq> AG_ACTIVE \<or> b_status b \<noteq> BS_ACTIVE
             \<or> \<not> binding_enabled db agent_id backend_id \<or> \<not> health_fresh cfg now b
          then Inl CapacityUnavailable
          else (case reserve_active_capacity_counters agent_id backend_id (agent_limit cfg a)
                       (b_max_active_resources b) db of
                  Inl e \<Rightarrow> Inl e
                | Inr db1 \<Rightarrow>
                    (case apply_backend_permissions db1 b (build_resource backend_id) of
                       Inl e \<Rightarrow> Inl e
                     | Inr r \<Rightarrow>
                         (case insert_resource r db1 of
                            Inl e \<Rightarrow> Inl e
                          | Inr db2 \<Rightarrow> run_hook before_commit r db2)))
      | _ \<Rightarrow> Inl CapacityUnavailable)"

fun reserve_capacity_and_insert ::
    "tenant_provisioning_config \<Rightarrow> time \<Rightarrow> string \<Rightarrow> instance_engine \<Rightarrow> (string \<Rightarrow> resource)
     \<Rightarrow> audit_hook \<Rightarrow> metadb \<Rightarrow> string list \<Rightarrow> py_error + (resource \<times> metadb)" where
  "reserve_capacity_and_insert cfg now agent_id engine build hook db [] = Inl CapacityUnavailable"
| "reserve_capacity_and_insert cfg now agent_id engine build hook db (backend_id # rest) =
     (case reserve_candidate cfg now agent_id engine build hook db backend_id of
        Inr x \<Rightarrow> Inr x
      | Inl e \<Rightarrow>
          if e = CapacityUnavailable
          then reserve_capacity_and_insert cfg now agent_id engine build hook db rest
          else Inl e)"

section \<open>A small deployment\<close>

text \<open>One agent with an enabled binding to one healthy multitenant backend.\<close>

definition example_backend :: backend where
  "example_backend = \<lparr>b_id = ''be'', b_type = BT_MULTITENANT, b_instance_id = Some ''in'',
     b_dedicated_pool_id = None, b_admin_credential_id = Some ''cr'', b_status = BS_ACTIVE,
     b_priority = 0, b_max_active_resources = 2, b_delete_cooldown_duration_hours = None,
     b_permission_template_revision_id = None,
     b_health = Some \<lparr>h_healthy = True, h_checked_at = 0, h_consecutive_failures = 0,
       h_error_code = None\<rparr>\<rparr>"

definition example_binding :: provisioning_binding where
  "example_binding = \<lparr>pb_agent_id = ''ag'', pb_backend_id = ''be'', pb_enabled = True,
     pb_routing_order = None\<rparr>"

definition example_db :: metadb where
  "example_db = empty_db\<lparr>
     agents := [\<lparr>a_id = ''ag'', a_status = AG_ACTIVE, a_max_active_resources = None\<rparr>],
     bindings := [example_binding], backends := [example_backend],
     instances := [\<lparr>i_id = ''in'', i_cluster_id = ''pc'', i_engine = POLARDB_MYSQL,
       i_topology = MULTITENANT, i_allocation_mode = AM_REGISTERED, i_region = None,
       i_host = Some ''h'', i_port = Some 3306, i_status = IS_ACTIVE\<rparr>],
     credentials := [\<lparr>c_id = ''cr'', c_instance_id = Some ''in'', c_resource_id = None,
       c_name = ''admin'', c_purpose = PROVISIONING_ADMIN, c_capability = CC_ADMIN,
       c_username_ciphertext = Some ''u'', c_password_ciphertext = Some ''p'',
       c_database_name = None, c_status = CRED_ACTIVE, c_version = 1\<rparr>]\<rparr>"

lemmas example_defs = example_db_def example_backend_def example_binding_def empty_db_def

lemma example_eligible:
  "bindings example_db = [example_binding]" "backends example_db = [example_backend]"
  "eligible default_config 0 ''ag'' POLARDB_MYSQL MODE_MULTITENANT example_db
     example_binding example_backend"
  by (simp_all add: eligible_def backend_is_fresh_and_healthy_def backend_health_cutoff_def
      multitenant_target_ok_def effective_backend_health_stale_after_seconds_def
      default_config_def seconds_def example_defs)

section \<open>Properties\<close>

lemma candidate_of_backend [simp]: "bc_backend_id (candidate_of db pb b) = b_id b"
  by (simp add: candidate_of_def)

lemma insert_resource_cases:
  "insert_resource r db = Inr db' \<Longrightarrow> db' = db\<lparr>resources := resources db @ [r]\<rparr>"
  by (auto simp: insert_resource_def split: if_splits)

lemma insert_resource_uniq:
  "insert_resource r db = Inr db' \<Longrightarrow> uniq r_id (resources db) \<Longrightarrow> uniq r_id (resources db')"
  by (fastforce simp: insert_resource_def uniq_snoc split: if_splits)

lemma run_hook_Inr: "run_hook hook r db = Inr (r', db') \<Longrightarrow> r' = r \<and> db' = db"
  by (auto simp: run_hook_def split: option.splits)

lemma apply_backend_permissions_keeps:
  assumes "apply_backend_permissions db b r = Inr r'"
  shows "r_owner_agent_id r' = r_owner_agent_id r" "r_backend_id r' = r_backend_id r"
    "r_capacity_released_at r' = r_capacity_released_at r" "r_id r' = r_id r"
    "r_client_token r' = r_client_token r" "r_status r' = r_status r"
    "r_request_fingerprint r' = r_request_fingerprint r"
    "r_fingerprint_version r' = r_fingerprint_version r"
    "r_credentials r' = r_credentials r" "r_mode r' = r_mode r"
  using assms by (auto simp: apply_backend_permissions_def split: option.splits sum.splits)

lemma reserve_candidate_InrD:
  assumes "reserve_candidate cfg now a engine build hook db b = Inr (r, db')"
  obtains ag bk db1 where "get_agent db a = Some ag" "placement_backend db engine b = Some bk"
    "a_status ag = AG_ACTIVE" "b_status bk = BS_ACTIVE" "binding_enabled db a b"
    "health_fresh cfg now bk"
    "reserve_active_capacity_counters a b (agent_limit cfg ag) (b_max_active_resources bk) db
       = Inr db1"
    "apply_backend_permissions db1 bk (build b) = Inr r" "insert_resource r db1 = Inr db'"
  using assms
  by (auto simp: reserve_candidate_def split: option.splits sum.splits if_splits
      dest: run_hook_Inr)

lemma reserve_candidate_accounted:
  assumes "reserve_candidate cfg now a engine build hook db b = Inr (r, db')"
    and "accounted active_count db"
    and "r_owner_agent_id (build b) = a" "r_backend_id (build b) = b"
      "r_capacity_released_at (build b) = None"
  shows "accounted active_count db'"
  using assms(1)
proof (rule reserve_candidate_InrD)
  fix ag bk db1
  assume res: "reserve_active_capacity_counters a b (agent_limit cfg ag)
      (b_max_active_resources bk) db = Inr db1"
    and r: "apply_backend_permissions db1 bk (build b) = Inr r"
    and ins: "insert_resource r db1 = Inr db'"
  show "accounted active_count db'"
  proof (rule ledger.reserve_insert_accounted [OF assms(2) res])
    show "resources db' = resources db1 @ [r]"
      by (simp add: insert_resource_cases [OF ins])
    show "active_count db' st sid = active_count db1 st sid" for st sid
      by (simp add: insert_resource_cases [OF ins] active_count_def)
  qed (use apply_backend_permissions_keeps [OF r] assms(3-5) in simp_all)
qed

text \<open>the multitenant candidates are tried by priority first and by relative load second.
  \<open>order_candidates\<close> permutes its input (nothing is lost or duplicated), and of two
  candidates the earlier one has the higher priority, or the same priority and no higher load.\<close>

theorem order_candidates_sorted:
  assumes "order_candidates sha a t cs = Inr ys"
  shows "mset ys = mset cs \<and>
    (\<forall>i j. i < j \<longrightarrow> j < length ys \<longrightarrow>
       bc_priority (ys ! j) < bc_priority (ys ! i) \<or>
       bc_priority (ys ! j) = bc_priority (ys ! i) \<and> load (ys ! i) \<le> load (ys ! j))"
proof -
  let ?k = "candidate_sort_key sha a t"
  have ys: "ys = sort_key ?k cs"
    using assms by (auto simp: order_candidates_def split: if_splits)
  have "bc_priority (ys ! j) < bc_priority (ys ! i) \<or>
       bc_priority (ys ! j) = bc_priority (ys ! i) \<and> load (ys ! i) \<le> load (ys ! j)"
    if "i < j" "j < length ys" for i j
  proof -
    have "sorted (map ?k ys)" by (simp add: ys)
    then have "?k (ys ! i) \<le> ?k (ys ! j)"
      using that sorted_nth_mono [of "map ?k ys" i j] by simp
    then show ?thesis
      by (auto simp: candidate_sort_key_def less_eq_prod_def)
  qed
  then show ?thesis by (simp add: ys)
qed

definition example_candidate :: "string \<Rightarrow> int \<Rightarrow> int \<Rightarrow> backend_candidate" where
  "example_candidate i prio active = \<lparr>bc_backend_id = i, bc_priority = prio,
     bc_active_count = active, bc_max_active_resources = 4, bc_routing_order = None\<rparr>"

theorem order_candidates_sorted_witness:
  "mset [example_candidate ''b'' 2 3, example_candidate ''a'' 1 0] =
   mset [example_candidate ''a'' 1 0, example_candidate ''b'' 2 3]"
proof -
  have "order_candidates (\<lambda>s. s) ''g'' ''t'' [example_candidate ''a'' 1 0, example_candidate ''b'' 2 3]
    = Inr [example_candidate ''b'' 2 3, example_candidate ''a'' 1 0]"
    by (simp add: order_candidates_def example_candidate_def candidate_sort_key_def
        less_eq_prod_def less_prod_def)
  from order_candidates_sorted [OF this] show ?thesis by simp
qed

text \<open>\<open>list_candidates\<close> lists exactly the backends the agent may use now: those with an
  enabled binding of the agent that are active, whose last health check is positive and fresh,
  and whose target (instance and administrator credential, or pool) is usable.\<close>

theorem list_candidates_exact:
  assumes "list_candidates cfg sha now a engine token mode db = Inr cs"
  shows "set (map bc_backend_id cs) =
    {b_id b | b. b \<in> set (backends db) \<and>
       (\<exists>pb \<in> set (bindings db). eligible cfg now a engine mode db pb b)}"
proof -
  let ?rows = "candidate_rows cfg now a engine mode db"
  have "set cs = set ?rows"
    using assms by (auto simp: list_candidates_def order_candidates_def Let_def split: if_splits)
  then have "set (map bc_backend_id cs) = bc_backend_id ` set ?rows" by simp
  also have "\<dots> = {b_id b | b. b \<in> set (backends db) \<and>
       (\<exists>pb \<in> set (bindings db). eligible cfg now a engine mode db pb b)}"
    by (auto simp: candidate_rows_def image_UN)
  finally show ?thesis .
qed

lemma example_candidates:
  "list_candidates default_config (\<lambda>s. s) 0 ''ag'' POLARDB_MYSQL ''t'' MODE_MULTITENANT
     example_db = Inr [candidate_of example_db example_binding example_backend]"
  by (simp add: list_candidates_def order_candidates_def candidate_rows_def example_eligible)
    (simp add: candidate_of_def example_defs)

theorem list_candidates_exact_witness:
  "set (map bc_backend_id [candidate_of example_db example_binding example_backend]) =
    {b_id b | b. b \<in> set (backends example_db) \<and> (\<exists>pb \<in> set (bindings example_db).
       eligible default_config 0 ''ag'' POLARDB_MYSQL MODE_MULTITENANT example_db pb b)}"
  by (rule list_candidates_exact [OF example_candidates])

text \<open>first fit. A reservation over an ordered candidate list is the reservation on the
  first candidate that has room: every earlier candidate refused with \<open>CapacityUnavailable\<close>,
  and the transaction that commits is the successful candidate's alone, run on the state the
  whole call started from.\<close>

theorem reserve_capacity_first_fit:
  assumes "reserve_capacity_and_insert cfg now a engine build hook db cands = Inr (r, db')"
  shows "\<exists>pre b post. cands = pre @ b # post
    \<and> reserve_candidate cfg now a engine build hook db b = Inr (r, db')
    \<and> (\<forall>p \<in> set pre. reserve_candidate cfg now a engine build hook db p = Inl CapacityUnavailable)"
  using assms
proof (induction cands)
  case (Cons c cands)
  show ?case
  proof (cases "reserve_candidate cfg now a engine build hook db c")
    case (Inr x)
    with Cons.prems have "reserve_candidate cfg now a engine build hook db c = Inr (r, db')"
      by simp
    then show ?thesis by (intro exI [of _ "[]"] exI [of _ c] exI [of _ cands]) simp
  next
    case (Inl e)
    with Cons.prems have e: "e = CapacityUnavailable"
      and rest: "reserve_capacity_and_insert cfg now a engine build hook db cands = Inr (r, db')"
      by (auto split: if_splits)
    from Cons.IH [OF rest] obtain pre b post where "cands = pre @ b # post"
      "reserve_candidate cfg now a engine build hook db b = Inr (r, db')"
      "\<forall>p \<in> set pre. reserve_candidate cfg now a engine build hook db p = Inl CapacityUnavailable"
      by blast
    with Inl e show ?thesis
      by (intro exI [of _ "c # pre"] exI [of _ b] exI [of _ post]) simp
  qed
qed simp

definition example_build :: "string \<Rightarrow> resource" where
  "example_build b = new_resource ''r1'' ''ag'' b ''tok'' ''fp'' 2 None POLARDB_MYSQL
     MODE_MULTITENANT 0"

lemma example_reservation:
  "reserve_candidate default_config 0 ''ag'' POLARDB_MYSQL example_build None example_db ''be'' =
     Inr (example_build ''be'',
       example_db\<lparr>resources := [example_build ''be''],
         capacities := [\<lparr>cap_scope_type = ''agent'', cap_scope_id = ''ag'', cap_active_count = 1\<rparr>,
           \<lparr>cap_scope_type = ''backend'', cap_scope_id = ''be'', cap_active_count = 1\<rparr>]\<rparr>)"
  by (simp add: reserve_candidate_def placement_backend_def binding_enabled_def health_fresh_def
      backend_health_cutoff_def effective_backend_health_stale_after_seconds_def default_config_def
      seconds_def agent_limit_def effective_max_active_resources_per_agent_def
      reserve_active_capacity_counters_def locked_capacity_rows_eq active_count_def
      ensure_capacity_row_def add_active_count_def tensure_def cap_key_def
      apply_backend_permissions_def insert_resource_def run_hook_def example_defs)

theorem reserve_capacity_first_fit_witness:
  "\<exists>pre b post. [''gone'', ''be''] = pre @ b # post
    \<and> reserve_candidate default_config 0 ''ag'' POLARDB_MYSQL example_build None example_db b
        = Inr (example_build ''be'',
       example_db\<lparr>resources := [example_build ''be''],
         capacities := [\<lparr>cap_scope_type = ''agent'', cap_scope_id = ''ag'', cap_active_count = 1\<rparr>,
           \<lparr>cap_scope_type = ''backend'', cap_scope_id = ''be'', cap_active_count = 1\<rparr>]\<rparr>)
    \<and> (\<forall>p \<in> set pre. reserve_candidate default_config 0 ''ag'' POLARDB_MYSQL example_build None
          example_db p = Inl CapacityUnavailable)"
proof (rule reserve_capacity_first_fit)
  have "reserve_candidate default_config 0 ''ag'' POLARDB_MYSQL example_build None example_db ''gone''
     = Inl CapacityUnavailable"
    by (simp add: reserve_candidate_def placement_backend_def example_defs)
  then show "reserve_capacity_and_insert default_config 0 ''ag'' POLARDB_MYSQL example_build None
      example_db [''gone'', ''be''] = Inr (example_build ''be'',
       example_db\<lparr>resources := [example_build ''be''],
         capacities := [\<lparr>cap_scope_type = ''agent'', cap_scope_id = ''ag'', cap_active_count = 1\<rparr>,
           \<lparr>cap_scope_type = ''backend'', cap_scope_id = ''be'', cap_active_count = 1\<rparr>]\<rparr>)"
    by (simp add: example_reservation)
qed

end
