(* ===== verification/Pool_Repository.thy ===== *)
theory Pool_Repository
  imports Placement
begin

text \<open>
  Dedicated pools, the shared operations (\<open>server/core/dedicated_pool_repository.py\<close>):
  counting members, claiming a ready member for a resource, activating it, and the guards a
  purchase passes (legacy state, purchase profile, size limit, hourly budget), with
  \<open>server/core/dedicated_purchase_profile.py\<close> and \<open>server/core/legacy_pool_retirement.py\<close>.
\<close>

section \<open>Purchase profile\<close>

definition profile_id :: string where "profile_id = ''agentic-dedicated-mysql''"

definition profile_revision :: int where "profile_revision = 1"

definition supported_storage_types :: "string list" where
  "supported_storage_types = [''essdpl1'']"

definition fixed_parameters :: "(string \<times> string) list" where
  "fixed_parameters =
     [(''db_type'', ''MySQL''), (''db_version'', ''8.0''), (''db_minor_version'', ''8.0.2''),
      (''db_node_class'', ''polar.mysql.sl.small.c''), (''pay_type'', ''Postpaid''),
      (''serverless_type'', ''AgileServerless''), (''proxy_type'', ''GENERAL''),
      (''proxy_class'', ''polar.maxscale.g2.medium.c''), (''scale_min'', ''0''),
      (''scale_max'', ''4''), (''allow_shut_down'', ''true''),
      (''agentic_db_type'', ''dedicated''), (''scale_ro_num_min'', ''0''),
      (''scale_ro_num_max'', ''1''), (''storage_space'', ''20'')]"

datatype profile_status = PROFILE_VALID | PROFILE_UPGRADE_REQUIRED

definition build_purchase_config :: "string \<Rightarrow> py_error + (string \<times> string) list" where
  "build_purchase_config storage_type =
     (if storage_type \<notin> set supported_storage_types
      then Inl (ValueError ''Unsupported Dedicated storage type'')
      else Inr (fixed_parameters @ [(''storage_type'', storage_type)]))"

text \<open>Equality of dictionaries, whatever order their keys were written in.\<close>

definition dict_eq :: "(string \<times> 'v) list \<Rightarrow> (string \<times> 'v) list \<Rightarrow> bool" where
  "dict_eq xs ys \<longleftrightarrow> set (map fst xs) = set (map fst ys) \<and>
     (\<forall>k \<in> set (map fst xs). map_of xs k = map_of ys k)"

definition classify_legacy_purchase_config :: "jtext \<Rightarrow> profile_status" where
  "classify_legacy_purchase_config t =
     (case t of
        Text (JObj parsed) \<Rightarrow>
          (case map_of parsed ''storage_type'' of
             Some (JStr storage_type) \<Rightarrow>
               (case build_purchase_config storage_type of
                  Inl _ \<Rightarrow> PROFILE_UPGRADE_REQUIRED
                | Inr expected \<Rightarrow>
                    if dict_eq parsed (map (\<lambda>(k, v). (k, JStr v)) expected)
                    then PROFILE_VALID else PROFILE_UPGRADE_REQUIRED)
           | _ \<Rightarrow> PROFILE_UPGRADE_REQUIRED)
      | _ \<Rightarrow> PROFILE_UPGRADE_REQUIRED)"

section \<open>Legacy state\<close>

record legacy_pool_audit =
  la_target_size :: int
  la_config_invalid :: bool
  la_unlinked_physical_instances :: nat
  la_member_mode_mismatches :: nat

definition legacy_target :: "legacy_config \<Rightarrow> int \<times> bool" where
  "legacy_target c =
     (case c of
        NoConfigRow \<Rightarrow> (0, False)
      | InvalidDocument \<Rightarrow> (0, True)
      | NoEffective \<Rightarrow> (0, False)
      | TargetSize (JNum n) \<Rightarrow> if n < 0 then (0, True) else (n, False)
      | TargetSize _ \<Rightarrow> (0, True))"

text \<open>The counts of the audit that decide whether purchases are blocked.\<close>

definition audit_legacy_pool_state :: "metadb \<Rightarrow> legacy_pool_audit" where
  "audit_legacy_pool_state db =
     (case legacy_target (legacy_pool_config db) of (target, invalid) \<Rightarrow>
        \<lparr>la_target_size = target, la_config_invalid = invalid,
         la_unlinked_physical_instances =
           rcount (\<lambda>i. i_allocation_mode i \<in> {AM_POOLED, AM_AUTO_PROVISIONED}
              \<and> i_id i \<notin> m_instance_id ` set (members db)) (instances db),
         la_member_mode_mismatches =
           rcount (\<lambda>m. case get_instance db (m_instance_id m) of None \<Rightarrow> False
              | Some i \<Rightarrow> i_allocation_mode i \<noteq> AM_DEDICATED_POOL) (members db)\<rparr>)"

definition blocking_codes :: "legacy_pool_audit \<Rightarrow> string list" where
  "blocking_codes a =
     (if la_target_size a > 0 \<or> la_config_invalid a then [''LEGACY_POOL_CONFIG_PRESENT''] else [])
     @ (if la_unlinked_physical_instances a \<noteq> 0 \<or> la_member_mode_mismatches a \<noteq> 0
        then [''LEGACY_POOL_INSTANCE_PRESENT''] else [])"

definition assert_legacy_purchase_safe :: "metadb \<Rightarrow> py_error + unit" where
  "assert_legacy_purchase_safe db =
     (case blocking_codes (audit_legacy_pool_state db) of
        [] \<Rightarrow> Inr () | code # _ \<Rightarrow> Inl (LegacyPoolStatePresent code))"

section \<open>Members\<close>

text \<open>
  \<open>cred_id\<close> is the primary key drawn for the credential, if one is added. The template of the
  member's revision is read through the relationship.
\<close>

definition activate_dedicated_member ::
    "metadb \<Rightarrow> string \<Rightarrow> pool_member \<Rightarrow> resource \<Rightarrow> py_error + (pool_member \<times> resource)" where
  "activate_dedicated_member db cred_id m r =
     (if m_host m = None \<or> m_port m = None \<or> m_database_name m = None
         \<or> m_sandbox_username_ciphertext m = None \<or> m_sandbox_password_ciphertext m = None
         \<or> m_permission_snapshot_json m = None
      then Inl DedicatedMemberNotReady
      else if m_allocated_resource_id m \<noteq> Some (r_id r) then Inl DedicatedMemberNotReady
      else Inr (m\<lparr>m_status := MS_ALLOCATED\<rparr>,
        r\<lparr>r_allocated_instance_id := Some (m_instance_id m),
          r_database_name := m_database_name m,
          r_permission_revision_id := m_permission_revision_id m,
          r_permission_template_id :=
            map_option pr_template_id (Option.bind (m_permission_revision_id m) (get_revision db)),
          r_permission_snapshot_json := m_permission_snapshot_json m,
          r_status := ST_READY,
          r_provisioning_step := PS_VERIFIED,
          r_failure_reason := None,
          r_credentials := (if r_credentials r \<noteq> [] then r_credentials r else
            [\<lparr>c_id = cred_id, c_instance_id = None, c_resource_id = Some (r_id r),
              c_name = ''resource-access'', c_purpose = RESOURCE_ACCESS,
              c_capability = CC_READWRITE,
              c_username_ciphertext = m_sandbox_username_ciphertext m,
              c_password_ciphertext = m_sandbox_password_ciphertext m,
              c_database_name = m_database_name m, c_status = CRED_ACTIVE, c_version = 1\<rparr>])\<rparr>))"

record capacity_snapshot =
  cs_allocatable :: nat
  cs_planning :: nat
  cs_billable_total :: nat

definition ready_cutoff :: "pool \<Rightarrow> time \<Rightarrow> time" where
  "ready_cutoff p now = now - seconds (p_health_stale_after_seconds p)"

definition verified_since :: "time \<Rightarrow> pool_member \<Rightarrow> bool" where
  "verified_since cutoff m =
     (case m_last_ready_verified_at m of None \<Rightarrow> False | Some t \<Rightarrow> t \<ge> cutoff)"

definition member_allocatable :: "time \<Rightarrow> pool_member \<Rightarrow> bool" where
  "member_allocatable cutoff m =
     (m_status m = MS_AVAILABLE \<and> m_readiness_status m = RS_FRESH \<and> verified_since cutoff m)"

definition member_planned :: "pool_member \<Rightarrow> bool" where
  "member_planned m =
     (m_status m = MS_AVAILABLE
      \<or> m_status m = MS_REPLENISHING \<and> m_allocated_resource_id m = None)"

definition take_snapshot :: "string \<Rightarrow> time \<Rightarrow> metadb \<Rightarrow> py_error + capacity_snapshot" where
  "take_snapshot pool_id now db =
     (case get_pool db pool_id of
        None \<Rightarrow> Inl (LookupError ''Dedicated pool not found'')
      | Some p \<Rightarrow>
          let ms = filter (\<lambda>m. m_pool_id m = pool_id) (members db)
          in Inr \<lparr>cs_allocatable = rcount (member_allocatable (ready_cutoff p now)) ms,
                  cs_planning = rcount member_planned ms,
                  cs_billable_total = rcount (\<lambda>m. m_status m \<noteq> MS_DELETED) ms\<rparr>)"

definition claimable_member :: "string \<Rightarrow> time \<Rightarrow> pool_member \<Rightarrow> bool" where
  "claimable_member pool_id cutoff m =
     (m_pool_id m = pool_id \<and> member_allocatable cutoff m \<and> m_allocated_resource_id m = None)"

text \<open>
  The second \<open>UPDATE\<close> repeats the selection's guards; in one serial transaction it hits the
  selected row. The table's unique constraint on \<open>allocated_resource_id\<close> rejects a second
  member for the same resource.
\<close>

definition claim_fresh_member ::
    "string \<Rightarrow> string \<Rightarrow> time \<Rightarrow> metadb \<Rightarrow> py_error + (pool_member option \<times> metadb)" where
  "claim_fresh_member pool_id resource_id now db =
     (case get_resource db resource_id of
        None \<Rightarrow> Inl (LookupError ''Database resource not found'')
      | Some r \<Rightarrow>
          if r_allocated_instance_id r \<noteq> None then Inr (None, db)
          else (case get_pool db pool_id of
             None \<Rightarrow> Inl (LookupError ''Dedicated pool not found'')
           | Some p \<Rightarrow>
               (case first_by m_id
                       (filter (claimable_member pool_id (ready_cutoff p now)) (members db)) of
                  None \<Rightarrow> Inr (None, db)
                | Some m \<Rightarrow>
                    if \<exists>x \<in> set (members db). m_allocated_resource_id x = Some resource_id
                    then Inl IntegrityError
                    else
                      let reserve = (\<lambda>x. x\<lparr>m_status := MS_ALLOCATED_PREPARING,
                                 m_allocated_resource_id := Some resource_id\<rparr>)
                      in Inr (Some (reserve m),
                          put_resource resource_id
                            (\<lambda>r. r\<lparr>r_allocated_instance_id := Some (m_instance_id m)\<rparr>)
                            (put_member (m_id m) reserve db)))))"

datatype purchase_intent = PREWARM | REQUEST

definition profile_current :: "pool \<Rightarrow> bool" where
  "profile_current p =
     (p_purchase_profile_id p = Some profile_id
      \<and> p_purchase_profile_revision p = Some profile_revision
      \<and> p_storage_type p \<noteq> None
      \<and> classify_legacy_purchase_config (p_purchase_config_json p) = PROFILE_VALID)"

definition reserve_member_purchase ::
    "string \<Rightarrow> time \<Rightarrow> purchase_intent \<Rightarrow> metadb \<Rightarrow> py_error + (bool \<times> metadb)" where
  "reserve_member_purchase pool_id now intent db =
     (case assert_legacy_purchase_safe db of
        Inl e \<Rightarrow> Inl e
      | Inr _ \<Rightarrow>
          (case get_pool db pool_id of
             None \<Rightarrow> Inl (LookupError ''Dedicated pool not found'')
           | Some p \<Rightarrow>
               if \<not> profile_current p then Inl PurchaseProfileUpgradeRequired
               else (case take_snapshot pool_id now db of
                  Inl e \<Rightarrow> Inl e
                | Inr s \<Rightarrow>
                    if intent = PREWARM \<and> int (cs_planning s) \<ge> p_target_size p
                    then Inr (False, db)
                    else if int (cs_billable_total s) \<ge> p_max_total_members p
                    then Inl PoolCapacityLimitReached
                    else (case consume_hourly_budget ''pool'' (p_id p) ''purchase''
                                 (p_max_member_purchases_per_hour p) now db of
                            Inl e \<Rightarrow> Inl e
                          | Inr db' \<Rightarrow> Inr (True, db')))))"

definition consume_agent_operation_budget ::
    "pool \<Rightarrow> string \<Rightarrow> string \<Rightarrow> time \<Rightarrow> metadb \<Rightarrow> py_error + metadb" where
  "consume_agent_operation_budget p agent_id operation now db =
     (if operation = ''create'' then
        consume_hourly_budget ''pool_agent'' (p_id p @ '':'' @ agent_id) operation
          (p_max_create_requests_per_agent_per_hour p) now db
      else if operation = ''delete'' then
        consume_hourly_budget ''pool_agent'' (p_id p @ '':'' @ agent_id) operation
          (p_max_delete_requests_per_agent_per_hour p) now db
      else Inl (ValueError ''Unsupported Dedicated Agent operation''))"

section \<open>Properties\<close>

lemma consume_hourly_budget_frame:
  assumes "consume_hourly_budget st sid op limit now db = Inr db'"
  shows "db' = db\<lparr>budgets := budgets db'\<rparr>"
  using assms
  by (auto simp: consume_hourly_budget_def Let_def ensure_budget_row_def split: if_splits)

lemma consume_agent_operation_budget_frame:
  assumes "consume_agent_operation_budget p a op now db = Inr db'"
  shows "db' = db\<lparr>budgets := budgets db'\<rparr>"
  using assms
  by (auto simp: consume_agent_operation_budget_def dest: consume_hourly_budget_frame
      split: if_splits)

lemma reserve_member_purchase_frame:
  assumes "reserve_member_purchase pid now intent db = Inr (b, db')"
  shows "db' = db\<lparr>budgets := budgets db'\<rparr>"
  using assms
  by (auto simp: reserve_member_purchase_def dest: consume_hourly_budget_frame
      split: if_splits sum.splits option.splits)

lemma rcount_filter: "rcount P (filter Q xs) = rcount (\<lambda>x. Q x \<and> P x) xs"
  by (induction xs) auto

text \<open>the three member counts of a pool nest: every allocatable member is planned capacity,
  and every planned member is billed.\<close>

theorem snapshot_counts_nest:
  assumes "take_snapshot pid now db = Inr s"
  shows "cs_allocatable s \<le> cs_planning s \<and> cs_planning s \<le> cs_billable_total s"
  using assms
  by (auto simp: take_snapshot_def Let_def member_allocatable_def member_planned_def
      split: option.splits intro!: rcount_mono)

definition example_pool :: pool where
  "example_pool = \<lparr>p_id = ''po'', p_name = ''pool'', p_status = POOL_ACTIVE, p_target_size = 1,
     p_max_total_members = 2, p_max_member_purchases_per_hour = 3,
     p_max_create_requests_per_agent_per_hour = 5, p_max_delete_requests_per_agent_per_hour = 5,
     p_purchase_config_json =
       Text (JObj (map (\<lambda>(k, v). (k, JStr v)) (fixed_parameters @ [(''storage_type'', ''essdpl1'')]))),
     p_purchase_profile_id = Some profile_id, p_purchase_profile_revision = Some profile_revision,
     p_storage_type = Some ''essdpl1'', p_region_id = ''cn'', p_vpc_id = ''vpc'',
     p_vswitch_id = ''vsw'', p_zone_id = None, p_security_ip_list = None,
     p_endpoint_net_type = ''Private'', p_reclaim_policy = DESTROY,
     p_permission_template_revision_id = ''rev'', p_account_name_template = ''agentic'',
     p_database_name_template = ''agentic'', p_delete_cooldown_duration_hours = None,
     p_health_check_interval_seconds = 300, p_health_stale_after_seconds = 600\<rparr>"

theorem snapshot_counts_nest_witness:
  "(1::nat) \<le> 1 \<and> (1::nat) \<le> 2"
proof -
  let ?m = "new_member ''m1'' ''po'' ''i1'' MS_AVAILABLE RS_FRESH PREP_VERIFIED None 0
     \<lparr>m_last_ready_verified_at := Some 0\<rparr>"
  let ?n = "new_member ''m2'' ''po'' ''i2'' MS_QUARANTINED RS_STALE PREP_VERIFIED None 0"
  have "take_snapshot ''po'' 0 (empty_db\<lparr>pools := [example_pool], members := [?m, ?n]\<rparr>) =
     Inr \<lparr>cs_allocatable = 1, cs_planning = 1, cs_billable_total = 2\<rparr>"
    by (simp add: take_snapshot_def empty_db_def example_pool_def new_member_def
        member_allocatable_def verified_since_def ready_cutoff_def seconds_def member_planned_def)
  from snapshot_counts_nest [OF this] show ?thesis by simp
qed

text \<open>a purchase is reserved only inside every guard. When \<open>reserve_member_purchase\<close>
  answers that a member may be bought, no legacy pool state is present, the pool's profile is
  current, the pool still has room for one more billed member, one unit of the hour's budget
  was taken, and for a prewarm the planned members are below the target.\<close>

theorem reserve_member_purchase_guards:
  assumes "reserve_member_purchase pid now intent db = Inr (True, db')"
    and "uniq bud_key (budgets db)"
  shows "\<exists>p s. get_pool db pid = Some p \<and> take_snapshot pid now db = Inr s
    \<and> blocking_codes (audit_legacy_pool_state db) = [] \<and> profile_current p
    \<and> int (cs_billable_total s) + 1 \<le> p_max_total_members p
    \<and> \<not> (intent = PREWARM \<and> p_target_size p \<le> int (cs_planning s))
    \<and> spent db ''pool'' pid ''purchase'' (hourly_window_start (Aware now 0))
        < p_max_member_purchases_per_hour p
    \<and> spent db' ''pool'' pid ''purchase'' (hourly_window_start (Aware now 0))
        = spent db ''pool'' pid ''purchase'' (hourly_window_start (Aware now 0)) + 1"
proof -
  from assms(1) obtain p s where p: "get_pool db pid = Some p"
    and s: "take_snapshot pid now db = Inr s"
    and l: "blocking_codes (audit_legacy_pool_state db) = []"
    and pr: "profile_current p"
    and t: "\<not> (intent = PREWARM \<and> p_target_size p \<le> int (cs_planning s))"
    and c: "int (cs_billable_total s) < p_max_total_members p"
    and b: "consume_hourly_budget ''pool'' (p_id p) ''purchase''
              (p_max_member_purchases_per_hour p) now db = Inr db'"
    by (auto simp: reserve_member_purchase_def assert_legacy_purchase_safe_def
        split: sum.splits option.splits if_splits list.splits)
  have id: "p_id p = pid" using p by auto
  have pos: "0 < p_max_member_purchases_per_hour p"
    using b by (auto simp: consume_hourly_budget_def split: if_splits)
  note bud = consume_hourly_budget_cases [OF assms(2) pos, of "''pool''" pid "''purchase''" now]
  have sp: "spent db ''pool'' pid ''purchase'' (hourly_window_start (Aware now 0))
        < p_max_member_purchases_per_hour p"
    using bud b id by (auto split: if_splits)
  with bud b id have "spent db' ''pool'' pid ''purchase'' (hourly_window_start (Aware now 0))
        = spent db ''pool'' pid ''purchase'' (hourly_window_start (Aware now 0)) + 1"
    by auto
  with p s l pr t c sp show ?thesis by (intro exI [of _ p] exI [of _ s]) simp
qed

lemma example_pool_profile: "profile_current example_pool"
  by (simp add: profile_current_def example_pool_def classify_legacy_purchase_config_def
      fixed_parameters_def build_purchase_config_def supported_storage_types_def dict_eq_def)

lemma example_purchase:
  "\<exists>db'. reserve_member_purchase ''po'' 0 PREWARM (empty_db\<lparr>pools := [example_pool]\<rparr>)
     = Inr (True, db')"
proof -
  let ?db = "empty_db\<lparr>pools := [example_pool]\<rparr>"
  have "assert_legacy_purchase_safe ?db = Inr ()"
    by (simp add: assert_legacy_purchase_safe_def blocking_codes_def audit_legacy_pool_state_def
        legacy_target_def empty_db_def)
  moreover have "get_pool ?db ''po'' = Some example_pool"
    by (simp add: example_pool_def)
  moreover have "take_snapshot ''po'' 0 ?db = Inr \<lparr>cs_allocatable = 0, cs_planning = 0, cs_billable_total = 0\<rparr>"
    by (simp add: take_snapshot_def example_pool_def empty_db_def)
  moreover have "\<exists>db'. consume_hourly_budget ''pool'' (p_id example_pool) ''purchase''
      (p_max_member_purchases_per_hour example_pool) 0 ?db = Inr db'"
    by (simp add: consume_hourly_budget_def example_pool_def empty_db_def ensure_budget_row_def
        tensure_def bud_key_def Let_def)
  ultimately show ?thesis
    using example_pool_profile
    by (auto simp: reserve_member_purchase_def) (auto simp: example_pool_def)
qed

theorem reserve_member_purchase_guards_witness:
  "\<exists>p. get_pool (empty_db\<lparr>pools := [example_pool]\<rparr>) ''po'' = Some p \<and> profile_current p"
proof -
  obtain db' where "reserve_member_purchase ''po'' 0 PREWARM (empty_db\<lparr>pools := [example_pool]\<rparr>)
     = Inr (True, db')" using example_purchase by blast
  moreover have "uniq bud_key (budgets (empty_db\<lparr>pools := [example_pool]\<rparr>))"
    by (simp add: empty_db_def uniq_def)
  ultimately show ?thesis by (blast dest: reserve_member_purchase_guards)
qed

lemma claim_fresh_member_SomeD:
  assumes "claim_fresh_member pid rid now db = Inr (Some m, db')"
  obtains r p m0 where "get_resource db rid = Some r" "r_allocated_instance_id r = None"
    "get_pool db pid = Some p" "m0 \<in> set (members db)"
    "claimable_member pid (ready_cutoff p now) m0"
    "\<And>x. x \<in> set (members db) \<Longrightarrow> claimable_member pid (ready_cutoff p now) x \<Longrightarrow> m_id m0 \<le> m_id x"
    "\<And>x. x \<in> set (members db) \<Longrightarrow> m_allocated_resource_id x \<noteq> Some rid"
    "m = m0\<lparr>m_status := MS_ALLOCATED_PREPARING, m_allocated_resource_id := Some rid\<rparr>"
    "db' = put_resource rid (\<lambda>r. r\<lparr>r_allocated_instance_id := Some (m_instance_id m0)\<rparr>)
             (put_member (m_id m0)
               (\<lambda>x. x\<lparr>m_status := MS_ALLOCATED_PREPARING, m_allocated_resource_id := Some rid\<rparr>) db)"
proof -
  from assms obtain r p m0 where 1: "get_resource db rid = Some r" "r_allocated_instance_id r = None"
    "get_pool db pid = Some p"
    and f: "first_by m_id (filter (claimable_member pid (ready_cutoff p now)) (members db)) = Some m0"
    and 2: "\<forall>x \<in> set (members db). m_allocated_resource_id x \<noteq> Some rid"
    "m = m0\<lparr>m_status := MS_ALLOCATED_PREPARING, m_allocated_resource_id := Some rid\<rparr>"
    "db' = put_resource rid (\<lambda>r. r\<lparr>r_allocated_instance_id := Some (m_instance_id m0)\<rparr>)
             (put_member (m_id m0)
               (\<lambda>x. x\<lparr>m_status := MS_ALLOCATED_PREPARING, m_allocated_resource_id := Some rid\<rparr>) db)"
    by (auto simp: claim_fresh_member_def Let_def split: option.splits if_splits)
  show ?thesis
  proof (rule that [OF 1(1,2,3) _ _ _ _ 2(2,3)])
    show "m0 \<in> set (members db)" "claimable_member pid (ready_cutoff p now) m0"
      using first_by_SomeD [OF f] by auto
    show "m_id m0 \<le> m_id x" if "x \<in> set (members db)" "claimable_member pid (ready_cutoff p now) x" for x
      using first_by_least [OF f] that by simp
    show "m_allocated_resource_id x \<noteq> Some rid" if "x \<in> set (members db)" for x
      using 2(1) that by blast
  qed
qed

text \<open>a resource only ever receives a member that is safe to hand out. A claim that
  succeeds took a member of the pool that was available, freshly verified within the pool's
  evidence age and not allocated to anyone, the one with the least id among those; the member
  is then reserved for this resource and no other member is.\<close>

theorem claim_fresh_member_safe:
  assumes "claim_fresh_member pid rid now db = Inr (Some m, db')" and "uniq m_id (members db)"
  shows "\<exists>p m0. get_pool db pid = Some p \<and> get_member db (m_id m) = Some m0
    \<and> m_pool_id m0 = pid \<and> m_status m0 = MS_AVAILABLE \<and> m_readiness_status m0 = RS_FRESH
    \<and> m_allocated_resource_id m0 = None
    \<and> (\<exists>t. m_last_ready_verified_at m0 = Some t
          \<and> now - seconds (p_health_stale_after_seconds p) \<le> t)
    \<and> (\<forall>x \<in> set (members db). claimable_member pid (ready_cutoff p now) x \<longrightarrow> m_id m0 \<le> m_id x)
    \<and> [x \<leftarrow> members db'. m_allocated_resource_id x = Some rid] = [m]
    \<and> get_member db' (m_id m) = Some m"
  using assms(1)
proof (rule claim_fresh_member_SomeD)
  fix r p m0
  assume p: "get_pool db pid = Some p" and m0: "m0 \<in> set (members db)"
    and cl: "claimable_member pid (ready_cutoff p now) m0"
    and least: "\<And>x. x \<in> set (members db) \<Longrightarrow> claimable_member pid (ready_cutoff p now) x \<Longrightarrow> m_id m0 \<le> m_id x"
    and free: "\<And>x. x \<in> set (members db) \<Longrightarrow> m_allocated_resource_id x \<noteq> Some rid"
    and m: "m = m0\<lparr>m_status := MS_ALLOCATED_PREPARING, m_allocated_resource_id := Some rid\<rparr>"
    and db': "db' = put_resource rid (\<lambda>r. r\<lparr>r_allocated_instance_id := Some (m_instance_id m0)\<rparr>)
             (put_member (m_id m0)
               (\<lambda>x. x\<lparr>m_status := MS_ALLOCATED_PREPARING, m_allocated_resource_id := Some rid\<rparr>) db)"
  have g: "get_member db (m_id m0) = Some m0" by (rule tget_uniq [OF assms(2) m0])
  have hit: "filter (\<lambda>x. m_allocated_resource_id x = Some rid)
      (members db') = [m]"
    using filter_tupd_hit [OF assms(2) g, of "\<lambda>x. m_allocated_resource_id x = Some rid"
        "(\<lambda>x. x\<lparr>m_status := MS_ALLOCATED_PREPARING, m_allocated_resource_id := Some rid\<rparr>)"]
      free m by (simp add: db')
  have "get_member db' (m_id m) = Some m"
    using g m by (simp add: db' tget_tupd)
  with p g cl least hit m show ?thesis
    by (intro exI [of _ p] exI [of _ m0])
      (auto simp: claimable_member_def member_allocatable_def verified_since_def
        ready_cutoff_def split: option.splits)
qed

definition example_member :: pool_member where
  "example_member = new_member ''m1'' ''po'' ''i1'' MS_AVAILABLE RS_FRESH PREP_VERIFIED None 0
     \<lparr>m_last_ready_verified_at := Some 0, m_host := Some ''h'', m_port := Some 3306,
      m_database_name := Some ''agentic'', m_sandbox_username_ciphertext := Some ''u'',
      m_sandbox_password_ciphertext := Some ''p'', m_permission_snapshot_json := Some InvalidText\<rparr>"

theorem claim_fresh_member_safe_witness:
  "\<exists>db' m. claim_fresh_member ''po'' ''r1'' 0 (empty_db\<lparr>pools := [example_pool],
       members := [example_member], resources := [example_build ''be'']\<rparr>) = Inr (Some m, db')
     \<and> [x \<leftarrow> members db'. m_allocated_resource_id x = Some ''r1''] = [m]"
proof -
  let ?db = "empty_db\<lparr>pools := [example_pool],
       members := [example_member], resources := [example_build ''be'']\<rparr>"
  obtain m db' where c: "claim_fresh_member ''po'' ''r1'' 0 ?db = Inr (Some m, db')"
    by (simp add: claim_fresh_member_def example_build_def new_resource_def example_pool_def
        empty_db_def example_member_def new_member_def claimable_member_def
        member_allocatable_def verified_since_def ready_cutoff_def seconds_def)
  have "uniq m_id (members ?db)" by (simp add: uniq_def)
  from claim_fresh_member_safe [OF c this] c show ?thesis by blast
qed

end
