(* ===== verification/Resource_Service.thy ===== *)
theory Resource_Service
  imports Pool_Repository Fingerprint
begin

text \<open>
  The resource service (\<open>server/core/db_instance_service.py\<close>): the idempotent creation of a
  database resource, its deletion and its restoration.

  A creation runs several transactions. Between two of them other sessions commit, so the
  model takes an interference \<open>env\<close>: \<open>env k\<close> is what the rest of the system did to the
  database before the request's \<open>k\<close>-th transaction. Each transaction by itself is serial (the
  write guard and the row locks). Random values and generated keys are the record \<open>draws\<close>, one
  per attempt and candidate; the request's clock reading is \<open>now\<close>; Unicode normalisation,
  SHA-256 and the encryption under a drawn nonce are parameters.
\<close>

record draws =
  d_resource_id :: string
  d_tenant :: string
  d_password :: string
  d_encrypt :: "string \<Rightarrow> string"
  d_credential_id :: string
  d_token :: string
  d_instance_id :: string
  d_member_id :: string

record runtime =
  rt_config :: tenant_provisioning_config
  rt_sha256_hex :: "string \<Rightarrow> string"
  rt_nfc :: "ustring \<Rightarrow> ustring"
  rt_digest :: "ustring \<Rightarrow> string"

record create_request =
  q_agent_id :: string
  q_client_token :: string
  q_name :: "ustring option"
  q_db_type :: string
  q_mode :: provisioning_mode
  q_before_commit :: audit_hook

section \<open>Idempotency\<close>

definition find_by_client_token :: "metadb \<Rightarrow> string \<Rightarrow> string \<Rightarrow> resource option" where
  "find_by_client_token db agent_id client_token =
     find (\<lambda>r. r_owner_agent_id r = agent_id \<and> r_client_token r = client_token) (resources db)"

definition return_if_same_request :: "resource \<Rightarrow> string \<Rightarrow> int \<Rightarrow> py_error + resource" where
  "return_if_same_request r fingerprint version =
     (if r_fingerprint_version r \<noteq> version \<or> r_request_fingerprint r \<noteq> fingerprint
      then Inl IdempotencyConflict else Inr r)"

definition commit_idempotent_replay ::
    "string \<Rightarrow> string \<Rightarrow> string \<Rightarrow> int \<Rightarrow> audit_hook \<Rightarrow> metadb \<Rightarrow> (py_error + resource) \<times> metadb" where
  "commit_idempotent_replay agent_id client_token fingerprint version before_commit db =
     (case find_by_client_token db agent_id client_token of
        None \<Rightarrow> (Inl DBInstanceNotFound, db)
      | Some r \<Rightarrow>
          (case bindE (return_if_same_request r fingerprint version)
                  (\<lambda>r. run_hook before_commit r db) of
             Inl e \<Rightarrow> (Inl e, db)
           | Inr (r, db') \<Rightarrow> (Inr r, db')))"

section \<open>New rows\<close>

record database_identity =
  tenant_name :: string
  resource_config_name :: string
  account_name :: string
  database_name :: string

definition new_database_identity :: "draws \<Rightarrow> database_identity" where
  "new_database_identity d =
     (let tenant = ''t'' @ d_tenant d; account = ''agentic@'' @ tenant
      in \<lparr>tenant_name = tenant, resource_config_name = ''rc_'' @ tenant,
          account_name = account, database_name = account\<rparr>)"

definition build_resource ::
    "draws \<Rightarrow> time \<Rightarrow> string \<Rightarrow> string \<Rightarrow> string \<Rightarrow> string \<Rightarrow> ustring option \<Rightarrow> instance_engine
     \<Rightarrow> provisioning_mode \<Rightarrow> resource" where
  "build_resource d now agent_id backend_id client_token fingerprint normalized_name engine mode =
     (let ident = new_database_identity d
      in (new_resource (d_resource_id d) agent_id backend_id client_token fingerprint
            fingerprint_version normalized_name engine mode now)
          \<lparr>r_tenant_name := Some (tenant_name ident),
           r_resource_config_name := Some (resource_config_name ident),
           r_database_name := Some (database_name ident),
           r_permission_snapshot_json :=
             Some (permission_snapshot_to_json (default_permission_snapshot SCOPE_MULTITENANT)),
           r_credentials :=
             [\<lparr>c_id = d_credential_id d, c_instance_id = None,
               c_resource_id = Some (d_resource_id d), c_name = ''resource-access'',
               c_purpose = RESOURCE_ACCESS, c_capability = CC_READWRITE,
               c_username_ciphertext = Some (d_encrypt d (account_name ident)),
               c_password_ciphertext = Some (d_encrypt d (d_password d)),
               c_database_name = Some (database_name ident), c_status = CRED_ACTIVE,
               c_version = 1\<rparr>]\<rparr>)"

definition build_dedicated_resource ::
    "draws \<Rightarrow> time \<Rightarrow> string \<Rightarrow> string \<Rightarrow> string \<Rightarrow> string \<Rightarrow> ustring option \<Rightarrow> instance_engine
     \<Rightarrow> resource" where
  "build_dedicated_resource d now agent_id backend_id client_token fingerprint normalized_name
     engine =
     new_resource (d_resource_id d) agent_id backend_id client_token fingerprint
       fingerprint_version normalized_name engine MODE_DEDICATED now"

section \<open>Dedicated reservation\<close>

text \<open>Inserts under the unique keys of \<open>instances\<close> and \<open>dedicated_pool_members\<close>.\<close>

definition insert_instance :: "instance_row \<Rightarrow> metadb \<Rightarrow> py_error + metadb" where
  "insert_instance i db =
     (if \<exists>x \<in> set (instances db). i_id x = i_id i \<or> i_cluster_id x = i_cluster_id i
      then Inl IntegrityError else Inr (db\<lparr>instances := instances db @ [i]\<rparr>))"

definition insert_member :: "pool_member \<Rightarrow> metadb \<Rightarrow> py_error + metadb" where
  "insert_member m db =
     (if \<exists>x \<in> set (members db). m_id x = m_id m \<or> m_instance_id x = m_instance_id m
           \<or> (m_allocated_resource_id m \<noteq> None
              \<and> m_allocated_resource_id x = m_allocated_resource_id m)
      then Inl IntegrityError else Inr (db\<lparr>members := members db @ [m]\<rparr>))"

text \<open>The request's own member when no ready one is left: bought cold, in \<open>PENDING\<close>.\<close>

definition add_cold_member ::
    "draws \<Rightarrow> time \<Rightarrow> pool \<Rightarrow> string \<Rightarrow> metadb \<Rightarrow> py_error + metadb" where
  "add_cold_member d now p resource_id db =
     bindE (insert_instance
        \<lparr>i_id = d_instance_id d, i_cluster_id = ''pending-dedicated-'' @ d_token d,
         i_engine = POLARDB_MYSQL, i_topology = SINGLE_TENANT,
         i_allocation_mode = AM_DEDICATED_POOL, i_region = Some (p_region_id p),
         i_host = None, i_port = None, i_status = IS_CREATING\<rparr> db)
     (\<lambda>db1. bindE (insert_member (new_member (d_member_id d) (p_id p) (d_instance_id d)
          MS_ALLOCATED_PREPARING RS_STALE PREP_PENDING (Some resource_id) now) db1)
     (\<lambda>db2. Inr (put_resource resource_id
          (\<lambda>r. r\<lparr>r_allocated_instance_id := Some (d_instance_id d)\<rparr>) db2)))"

definition dedicated_candidate_pool ::
    "tenant_provisioning_config \<Rightarrow> time \<Rightarrow> string \<Rightarrow> instance_engine \<Rightarrow> string \<Rightarrow> metadb
     \<Rightarrow> (agent \<times> backend \<times> pool) option" where
  "dedicated_candidate_pool cfg now agent_id engine backend_id db =
     (case (get_agent db agent_id, get_backend db backend_id) of
        (Some a, Some b) \<Rightarrow>
          (case backend_pool db b of None \<Rightarrow> None | Some p \<Rightarrow>
             if a_status a \<noteq> AG_ACTIVE \<or> b_type b \<noteq> BT_DEDICATED_POOL \<or> b_status b \<noteq> BS_ACTIVE
                \<or> \<not> backend_is_fresh_and_healthy cfg now b
                \<or> \<not> binding_enabled db agent_id backend_id
                \<or> p_status p \<noteq> POOL_ACTIVE \<or> engine \<noteq> POLARDB_MYSQL
             then None else Some (a, b, p))
      | _ \<Rightarrow> None)"

text \<open>The member for the new row: a ready one, or, if the caller allows it, a cold purchase.\<close>

definition assign_member ::
    "draws \<Rightarrow> time \<Rightarrow> pool \<Rightarrow> string \<Rightarrow> bool \<Rightarrow> metadb \<Rightarrow> py_error + metadb" where
  "assign_member d now p resource_id allow_cold_purchase db =
     bindE (claim_fresh_member (p_id p) resource_id now db) (\<lambda>(claimed, db1).
       case (claimed, get_resource db1 resource_id) of
         (Some m, Some r) \<Rightarrow>
           bindE (activate_dedicated_member db1 (d_credential_id d) m r) (\<lambda>(m', r').
             Inr (put_resource resource_id (\<lambda>_. r') (put_member (m_id m) (\<lambda>_. m') db1)))
       | _ \<Rightarrow>
           if \<not> allow_cold_purchase then Inl CapacityUnavailable
           else bindE (reserve_member_purchase (p_id p) now REQUEST db1) (\<lambda>(reserved, db2).
             if reserved then add_cold_member d now p resource_id db2 else Inr db2))"

definition reserve_dedicated_candidate ::
    "tenant_provisioning_config \<Rightarrow> draws \<Rightarrow> time \<Rightarrow> string \<Rightarrow> instance_engine \<Rightarrow> string \<Rightarrow> string
     \<Rightarrow> ustring option \<Rightarrow> audit_hook \<Rightarrow> metadb \<Rightarrow> bool \<Rightarrow> string \<Rightarrow> py_error + (resource \<times> metadb)" where
  "reserve_dedicated_candidate cfg d now agent_id engine client_token fingerprint name
     before_commit db allow_cold_purchase backend_id =
     (case dedicated_candidate_pool cfg now agent_id engine backend_id db of
        None \<Rightarrow> Inl CapacityUnavailable
      | Some (a, b, p) \<Rightarrow>
          bindE (consume_agent_operation_budget p agent_id ''create'' now db) (\<lambda>db1.
          bindE (reserve_active_capacity_counters agent_id backend_id (agent_limit cfg a)
                   (b_max_active_resources b) db1) (\<lambda>db2.
          bindE (insert_resource (build_dedicated_resource d now agent_id backend_id client_token
                   fingerprint name engine) db2) (\<lambda>db3.
          bindE (assign_member d now p (d_resource_id d) allow_cold_purchase db3) (\<lambda>db4.
            case get_resource db4 (d_resource_id d) of
              None \<Rightarrow> Inl (LookupError ''Database resource not found'')
            | Some r \<Rightarrow> run_hook before_commit r db4)))))"

text \<open>
  \<open>for allow_cold_purchase in (False, True): for backend_id in candidate_ids\<close>: the pairs in
  that order; four errors roll back and go on, any other one leaves the loop.
\<close>

definition skips_candidate :: "py_error \<Rightarrow> bool" where
  "skips_candidate e \<longleftrightarrow> e \<in> {CapacityUnavailable, PoolCapacityLimitReached,
     PurchaseProfileUpgradeRequired, RateLimited}"

fun try_candidates ::
    "(bool \<Rightarrow> string \<Rightarrow> py_error + (resource \<times> metadb)) \<Rightarrow> (bool \<times> string) list
     \<Rightarrow> py_error + (resource \<times> metadb)" where
  "try_candidates reserve [] = Inl CapacityUnavailable"
| "try_candidates reserve ((cold, b) # rest) =
     (case reserve cold b of
        Inr x \<Rightarrow> Inr x
      | Inl e \<Rightarrow> if skips_candidate e then try_candidates reserve rest else Inl e)"

definition reserve_dedicated_capacity_and_insert ::
    "tenant_provisioning_config \<Rightarrow> (bool \<Rightarrow> string \<Rightarrow> draws) \<Rightarrow> time \<Rightarrow> string \<Rightarrow> instance_engine
     \<Rightarrow> string list \<Rightarrow> string \<Rightarrow> string \<Rightarrow> ustring option \<Rightarrow> audit_hook \<Rightarrow> metadb
     \<Rightarrow> py_error + (resource \<times> metadb)" where
  "reserve_dedicated_capacity_and_insert cfg fresh now agent_id engine candidate_ids client_token
     fingerprint name before_commit db =
     try_candidates
       (\<lambda>cold b. reserve_dedicated_candidate cfg (fresh cold b) now agent_id engine client_token
          fingerprint name before_commit db cold b)
       (map (Pair False) candidate_ids @ map (Pair True) candidate_ids)"

section \<open>Creation\<close>

definition reserve_for_mode ::
    "runtime \<Rightarrow> (bool \<Rightarrow> string \<Rightarrow> draws) \<Rightarrow> time \<Rightarrow> create_request \<Rightarrow> instance_engine \<Rightarrow> ustring option
     \<Rightarrow> string \<Rightarrow> string list \<Rightarrow> metadb \<Rightarrow> py_error + (resource \<times> metadb)" where
  "reserve_for_mode rt fresh now q engine name fingerprint candidate_ids db =
     (if q_mode q = MODE_DEDICATED then
        reserve_dedicated_capacity_and_insert (rt_config rt) fresh now (q_agent_id q) engine
          candidate_ids (q_client_token q) fingerprint name (q_before_commit q) db
      else
        reserve_capacity_and_insert (rt_config rt) now (q_agent_id q) engine
          (\<lambda>backend_id. build_resource (fresh False backend_id) now (q_agent_id q) backend_id
             (q_client_token q) fingerprint name engine (q_mode q))
          (q_before_commit q) db candidate_ids)"

text \<open>
  The answer when a resource \<open>r\<close> is found under the request's token: the same request gets
  \<open>r\<close> back, read again under the write guard when there is an audit record to write.
\<close>

definition replay_response ::
    "(nat \<Rightarrow> metadb \<Rightarrow> metadb) \<Rightarrow> nat \<Rightarrow> create_request \<Rightarrow> string \<Rightarrow> int \<Rightarrow> resource \<Rightarrow> metadb
     \<Rightarrow> (py_error + resource) \<times> metadb" where
  "replay_response env k q fingerprint version r db =
     (case return_if_same_request r fingerprint version of
        Inl e \<Rightarrow> (Inl e, db)
      | Inr r \<Rightarrow>
          if q_before_commit q = None then (Inr r, db)
          else commit_idempotent_replay (q_agent_id q) (q_client_token q) fingerprint version
                 (q_before_commit q) (env k db))"

fun create_attempts ::
    "runtime \<Rightarrow> (nat \<Rightarrow> metadb \<Rightarrow> metadb) \<Rightarrow> (nat \<Rightarrow> bool \<Rightarrow> string \<Rightarrow> draws) \<Rightarrow> time \<Rightarrow> create_request
     \<Rightarrow> instance_engine \<Rightarrow> ustring option \<Rightarrow> string \<Rightarrow> string list \<Rightarrow> nat list \<Rightarrow> metadb
     \<Rightarrow> (py_error + resource) \<times> metadb" where
  "create_attempts rt env fresh now q engine name fingerprint candidate_ids [] db =
     (Inl (RuntimeError ''unreachable''), db)"
| "create_attempts rt env fresh now q engine name fingerprint candidate_ids (attempt # rest) db =
     (let db1 = env (3 * attempt + 2) db
      in case reserve_for_mode rt (fresh attempt) now q engine name fingerprint candidate_ids db1 of
           Inr (r, db2) \<Rightarrow> (Inr r, db2)
         | Inl e \<Rightarrow>
             if e = CapacityUnavailable \<or> e = IntegrityError then
               let db2 = env (3 * attempt + 3) db1
               in case find_by_client_token db2 (q_agent_id q) (q_client_token q) of
                    Some winner \<Rightarrow>
                      replay_response env (3 * attempt + 4) q fingerprint fingerprint_version
                        winner db2
                  | None \<Rightarrow>
                      if e = CapacityUnavailable then (Inl CapacityExhausted, db2)
                      else if attempt = 2 then (Inl IntegrityError, db2)
                      else create_attempts rt env fresh now q engine name fingerprint
                             candidate_ids rest db2
             else (Inl e, db1))"

text \<open>
  The request after its arguments are checked: an existing resource under the token is
  compared under its own fingerprint version; otherwise the candidates are read and up to
  three reservations are tried.
\<close>

definition create_checked ::
    "runtime \<Rightarrow> (nat \<Rightarrow> metadb \<Rightarrow> metadb) \<Rightarrow> (nat \<Rightarrow> bool \<Rightarrow> string \<Rightarrow> draws) \<Rightarrow> time \<Rightarrow> create_request
     \<Rightarrow> instance_engine \<Rightarrow> ustring option \<Rightarrow> string \<Rightarrow> metadb \<Rightarrow> (py_error + resource) \<times> metadb" where
  "create_checked rt env fresh now q engine name fingerprint db =
     (case find_by_client_token db (q_agent_id q) (q_client_token q) of
        Some existing \<Rightarrow>
          (case request_fingerprint (rt_nfc rt) (rt_digest rt) (q_db_type q) name (q_mode q)
                  (r_fingerprint_version existing) of
             Inl e \<Rightarrow> (Inl e, db)
           | Inr existing_fingerprint \<Rightarrow>
               replay_response env 1 q existing_fingerprint (r_fingerprint_version existing)
                 existing db)
      | None \<Rightarrow>
          (case list_candidates (rt_config rt) (rt_sha256_hex rt) now (q_agent_id q) engine
                  (q_client_token q) (q_mode q) db of
             Inl e \<Rightarrow> (Inl e, db)
           | Inr cs \<Rightarrow>
               if cs = [] then (Inl NoProvisioningBackend, db)
               else create_attempts rt env fresh now q engine name fingerprint
                      (map bc_backend_id cs) [0, 1, 2] db))"

definition check_create_request ::
    "runtime \<Rightarrow> bool \<Rightarrow> create_request \<Rightarrow> py_error + (instance_engine \<times> ustring option \<times> string)" where
  "check_create_request rt in_transaction q =
     (if in_transaction then Inl ResourceSessionNotIdle
      else bindE (validate_client_token (q_client_token q)) (\<lambda>_.
           bindE (parse_engine (q_db_type q)) (\<lambda>engine.
           bindE (normalize_resource_name (rt_nfc rt) (q_name q)) (\<lambda>name.
           bindE (request_fingerprint (rt_nfc rt) (rt_digest rt) (q_db_type q) name
                    (q_mode q) fingerprint_version) (\<lambda>fingerprint.
             Inr (engine, name, fingerprint))))))"

definition create_db_instance_resource ::
    "runtime \<Rightarrow> (nat \<Rightarrow> metadb \<Rightarrow> metadb) \<Rightarrow> (nat \<Rightarrow> bool \<Rightarrow> string \<Rightarrow> draws) \<Rightarrow> time \<Rightarrow> bool
     \<Rightarrow> create_request \<Rightarrow> metadb \<Rightarrow> (py_error + resource) \<times> metadb" where
  "create_db_instance_resource rt env fresh now in_transaction q db =
     (case check_create_request rt in_transaction q of
        Inl e \<Rightarrow> (Inl e, db)
      | Inr (engine, name, fingerprint) \<Rightarrow>
          create_checked rt env fresh now q engine name fingerprint (env 0 db))"

section \<open>Deletion and restoration\<close>

definition deletable_status :: "db_instance_status \<Rightarrow> bool" where
  "deletable_status s \<longleftrightarrow> s \<in> {ST_CREATING, ST_READY, ST_FAILED, ST_DELETE_FAILED}"

definition revoke_access :: "credential \<Rightarrow> credential" where
  "revoke_access c = (if c_purpose c = RESOURCE_ACCESS then c\<lparr>c_status := CRED_REVOKED\<rparr> else c)"

text \<open>The first delete request fixes its time, the cooldown and the reclaim policy.\<close>

definition record_delete_request ::
    "tenant_provisioning_config \<Rightarrow> time \<Rightarrow> pool option \<Rightarrow> backend \<Rightarrow> resource \<Rightarrow> py_error + resource" where
  "record_delete_request cfg now pool_opt b r =
     (if r_delete_requested_at r \<noteq> None then Inr r
      else bindE (effective_delete_cooldown_hours (r_cooldown_hours r)
              (case pool_opt of Some p \<Rightarrow> p_delete_cooldown_duration_hours p
               | None \<Rightarrow> b_delete_cooldown_duration_hours b)
              (cfg_delete_cooldown_duration_hours cfg)) (\<lambda>h.
             Inr (r\<lparr>r_delete_requested_at := Some now, r_cooldown_hours := Some h,
                    r_reclaim_policy := Some (case pool_opt of Some p \<Rightarrow> p_reclaim_policy p
                                              | None \<Rightarrow> DESTROY)\<rparr>)))"

text \<open>
  The member of a dedicated resource goes to \<open>DELETING\<close>, and the request is charged to the
  agent's hourly budget; running out of budget does not stop the deletion. A member whose pool
  row is missing would fail on \<open>pool.id\<close>; the foreign key excludes it.
\<close>

definition retire_member ::
    "time \<Rightarrow> string \<Rightarrow> resource \<Rightarrow> metadb \<Rightarrow> py_error + metadb" where
  "retire_member now agent_id r db =
     (if r_mode r \<noteq> MODE_DEDICATED then Inr db
      else case member_of_resource db (r_id r) of
        None \<Rightarrow> Inr db
      | Some m \<Rightarrow>
          let db1 = put_member (m_id m) (\<lambda>x. x\<lparr>m_status := MS_DELETING\<rparr>) db
          in case get_pool db1 (m_pool_id m) of
               None \<Rightarrow> Inl (OtherError ''AttributeError'')
             | Some p \<Rightarrow>
                 (case consume_agent_operation_budget p agent_id ''delete'' now db1 of
                    Inl e \<Rightarrow> if e = RateLimited then Inr db1 else Inl e
                  | Inr db2 \<Rightarrow> Inr db2))"

text \<open>A worker id that is the empty string counts as no worker (\<open>if resource.worker_id\<close>).\<close>

definition live_claim :: "time \<Rightarrow> resource \<Rightarrow> bool" where
  "live_claim now r =
     (r_worker_id r \<noteq> None \<and> r_worker_id r \<noteq> Some []
      \<and> (case r_worker_lease_until r of None \<Rightarrow> False | Some t \<Rightarrow> now < t))"

definition mark_deleting :: "time \<Rightarrow> resource \<Rightarrow> resource" where
  "mark_deleting now r =
     (let r1 = r\<lparr>r_status := ST_DELETING, r_cleanup_required := True, r_retry_count := 0,
              r_next_retry_at := None, r_failure_reason := None,
              r_credentials := map revoke_access (r_credentials r)\<rparr>
      in if \<not> live_claim now r \<or> r_status r = ST_DELETE_FAILED
         then r1\<lparr>r_worker_id := None, r_worker_lease_until := None\<rparr> else r1)"

definition delete_db_instance_resource ::
    "tenant_provisioning_config \<Rightarrow> time \<Rightarrow> string \<Rightarrow> string \<Rightarrow> audit_hook \<Rightarrow> metadb
     \<Rightarrow> py_error + (resource \<times> metadb)" where
  "delete_db_instance_resource cfg now agent_id db_instance_id before_commit db =
     (case get_resource db db_instance_id of
        None \<Rightarrow> Inl DBInstanceNotFound
      | Some r \<Rightarrow>
          if r_owner_agent_id r \<noteq> agent_id then Inl DBInstanceNotFound
          else if \<not> deletable_status (r_status r) then run_hook before_commit r db
          else case get_backend db (r_backend_id r) of
            None \<Rightarrow> Inl NoProvisioningBackend
          | Some b \<Rightarrow>
              bindE (record_delete_request cfg now (backend_pool db b) b r) (\<lambda>r1.
              bindE (retire_member now agent_id r1 db) (\<lambda>db1.
                let r2 = mark_deleting now r1
                in run_hook before_commit r2 (put_resource db_instance_id (\<lambda>_. r2) db1))))"

definition irreversible_step :: "delete_lifecycle_step \<Rightarrow> bool" where
  "irreversible_step s \<longleftrightarrow>
     s \<in> {DS_LOGICAL_CLEANUP, DS_PHYSICAL_DESTROY, DS_SANITIZE_DISPATCH, DS_COMPLETE}"

definition restore_db_instance_resource :: "string \<Rightarrow> metadb \<Rightarrow> py_error + (resource \<times> metadb)" where
  "restore_db_instance_resource db_instance_id db =
     (case get_resource db db_instance_id of
        None \<Rightarrow> Inl DBInstanceNotFound
      | Some r \<Rightarrow>
          if r_status r \<notin> {ST_DELETING, ST_DELETE_FAILED, ST_COOLING_DOWN}
          then Inl (DBInstanceServiceError
                 ''Database instance cannot be restored from its current state'')
          else if irreversible_step (r_delete_step r)
          then Inl (DBInstanceServiceError
                 ''Database cleanup has crossed the irreversible boundary'')
          else
            let r' = r\<lparr>r_restore_source_status := Some (r_status r), r_status := ST_RESTORING,
                  r_restore_failure_reason := None, r_worker_id := None,
                  r_worker_lease_until := None, r_next_retry_at := None, r_retry_count := 0\<rparr>
            in Inr (r', put_resource db_instance_id (\<lambda>_. r') db))"

section \<open>What a reservation inserts\<close>

text \<open>The columns of a row that no later step of its creation changes.\<close>

definition same_identity :: "resource \<Rightarrow> resource \<Rightarrow> bool" where
  "same_identity r s \<longleftrightarrow> r_id r = r_id s \<and> r_owner_agent_id r = r_owner_agent_id s
     \<and> r_backend_id r = r_backend_id s \<and> r_client_token r = r_client_token s
     \<and> r_request_fingerprint r = r_request_fingerprint s
     \<and> r_fingerprint_version r = r_fingerprint_version s \<and> r_mode r = r_mode s
     \<and> r_capacity_released_at r = r_capacity_released_at s"

lemma budgets_only:
  assumes "db' = db\<lparr>budgets := b\<rparr>"
  shows "resources db' = resources db" "capacities db' = capacities db"
    "members db' = members db" "instances db' = instances db" "backends db' = backends db"
    "pools db' = pools db" "agents db' = agents db"
  by (simp_all add: assms)

lemma same_identity_refl [simp]: "same_identity r r"
  by (simp add: same_identity_def)

lemma activate_keeps:
  assumes "activate_dedicated_member db c m r = Inr (m', r')"
  shows "same_identity r' r" "m_id m' = m_id m"
    "m_allocated_resource_id m' = Some (r_id r)" "m_instance_id m' = m_instance_id m"
    "m_pool_id m' = m_pool_id m"
  using assms by (auto simp: activate_dedicated_member_def same_identity_def split: if_splits)

lemma claim_fresh_member_None:
  "claim_fresh_member pid rid now db = Inr (None, db') \<Longrightarrow> db' = db"
  by (auto simp: claim_fresh_member_def Let_def split: option.splits if_splits)

lemma claim_fresh_member_resources:
  assumes "claim_fresh_member pid rid now db = Inr (x, db')"
  shows "\<exists>f. (\<forall>r. same_identity (f r) r) \<and> resources db' = tupd r_id rid f (resources db)
    \<and> capacities db' = capacities db"
proof (cases x)
  case None
  with assms have "db' = db" by (simp add: claim_fresh_member_None)
  then show ?thesis by (intro exI [of _ "\<lambda>r. r"]) simp
next
  case (Some m)
  from assms [unfolded Some] show ?thesis
  proof (rule claim_fresh_member_SomeD)
    fix m0
    assume "db' = put_resource rid (\<lambda>r. r\<lparr>r_allocated_instance_id := Some (m_instance_id m0)\<rparr>)
       (put_member (m_id m0)
         (\<lambda>x. x\<lparr>m_status := MS_ALLOCATED_PREPARING, m_allocated_resource_id := Some rid\<rparr>) db)"
    then show ?thesis
      by (intro exI [of _ "\<lambda>r. r\<lparr>r_allocated_instance_id := Some (m_instance_id m0)\<rparr>"])
        (simp add: same_identity_def)
  qed
qed

lemma add_cold_member_resources:
  assumes "add_cold_member d now p rid db = Inr db'"
  shows "\<exists>f. (\<forall>r. same_identity (f r) r) \<and> resources db' = tupd r_id rid f (resources db)
    \<and> capacities db' = capacities db"
  using assms
  by (intro exI [of _ "\<lambda>r. r\<lparr>r_allocated_instance_id := Some (d_instance_id d)\<rparr>"])
    (auto simp: add_cold_member_def bindE_Inr insert_instance_def insert_member_def
      same_identity_def split: if_splits)

lemma assign_member_effect:
  assumes "assign_member d now p (r_id r0) cold db = Inr db'"
    and rows: "resources db = rows @ [r0]" and fresh: "r_id r0 \<notin> r_id ` set rows"
  shows "\<exists>r. resources db' = rows @ [r] \<and> same_identity r r0 \<and> capacities db' = capacities db"
proof -
  have snoc: "\<exists>r. tupd r_id (r_id r0) f (rows @ [r0]) = rows @ [r] \<and> same_identity r r0"
    if "\<forall>r. same_identity (f r) r" for f
    using that tupd_snoc_fresh [of r_id r0 rows f] fresh by auto
  from assms(1) obtain x db1
    where claim: "claim_fresh_member (p_id p) (r_id r0) now db = Inr (x, db1)"
    by (auto simp: assign_member_def bindE_Inr)
  from claim_fresh_member_resources [OF claim] snoc rows
  obtain r1 where r1: "resources db1 = rows @ [r1]" "same_identity r1 r0"
    "capacities db1 = capacities db"
    by (metis (no_types, lifting))
  have id1: "r_id r1 = r_id r0" using r1(2) by (simp add: same_identity_def)
  have get1: "get_resource db1 (r_id r0) = Some r1"
    using tget_snoc_fresh [of r_id r1 rows] fresh by (simp add: r1(1) id1)
  have upd1: "tupd r_id (r_id r0) f (resources db1) = rows @ [f r1]" for f
    using tupd_snoc_fresh [of r_id r1 rows f] fresh by (simp add: r1(1) id1)
  have trans: "same_identity r r0" if "same_identity r r1" for r
    using that r1(2) by (simp add: same_identity_def)
  show ?thesis
  proof (cases x)
    case (Some m)
    with assms(1) claim get1 obtain m' r' where
      act: "activate_dedicated_member db1 (d_credential_id d) m r1 = Inr (m', r')"
      and db': "db' = put_resource (r_id r0) (\<lambda>_. r') (put_member (m_id m) (\<lambda>_. m') db1)"
      by (auto simp: assign_member_def bindE_Inr)
    have "resources db' = rows @ [r']" by (simp add: db' upd1)
    with activate_keeps(1) [OF act] trans r1(3) show ?thesis by (auto simp: db')
  next
    case None
    with assms(1) claim obtain b db2 where
      pur: "reserve_member_purchase (p_id p) now REQUEST db1 = Inr (b, db2)"
      and last: "if b then add_cold_member d now p (r_id r0) db2 = Inr db' else db' = db2"
      by (auto simp: assign_member_def bindE_Inr split: if_splits)
    have rows2: "resources db2 = resources db1" "capacities db2 = capacities db1"
      using budgets_only [OF reserve_member_purchase_frame [OF pur]] by simp_all
    show ?thesis
    proof (cases b)
      case True
      with last have cold: "add_cold_member d now p (r_id r0) db2 = Inr db'" by simp
      from add_cold_member_resources [OF cold] obtain f where
        f: "\<forall>r. same_identity (f r) r" "resources db' = tupd r_id (r_id r0) f (resources db2)"
        "capacities db' = capacities db2" by blast
      then have "resources db' = rows @ [f r1]" by (simp add: rows2 upd1)
      moreover have "same_identity (f r1) r0" using f(1) trans by blast
      ultimately show ?thesis using f(3) r1(3) rows2(2) by simp
    qed (use last r1 rows2 in auto)
  qed
qed

text \<open>The tables that hold the limits.\<close>

definition same_limits :: "metadb \<Rightarrow> metadb \<Rightarrow> bool" where
  "same_limits db db' \<longleftrightarrow> agents db' = agents db \<and> backends db' = backends db"

lemma claim_fresh_member_limits: "claim_fresh_member pid rid now db = Inr (x, db') \<Longrightarrow> same_limits db db'"
  by (auto simp: claim_fresh_member_def same_limits_def Let_def split: option.splits if_splits)

lemma add_cold_member_limits: "add_cold_member d now p rid db = Inr db' \<Longrightarrow> same_limits db db'"
  by (auto simp: add_cold_member_def bindE_Inr insert_instance_def insert_member_def same_limits_def
      split: if_splits)

lemma assign_member_limits:
  assumes "assign_member d now p rid cold db = Inr db'"
  shows "same_limits db db'"
proof -
  from assms obtain x db1 where claim: "claim_fresh_member (p_id p) rid now db = Inr (x, db1)"
    by (auto simp: assign_member_def bindE_Inr)
  consider (hit) m f g where "db' = put_resource rid f (put_member m g db1)"
    | (cold) b db2 where "reserve_member_purchase (p_id p) now REQUEST db1 = Inr (b, db2)"
        "add_cold_member d now p rid db2 = Inr db' \<or> db' = db2"
    using assms claim
    by (auto simp: assign_member_def bindE_Inr split: option.splits if_splits)
  then have "same_limits db1 db'"
  proof cases
    case hit
    then show ?thesis by (simp add: same_limits_def)
  next
    case cold
    with budgets_only [OF reserve_member_purchase_frame [OF cold(1)]] show ?thesis
      by (auto simp: same_limits_def dest!: add_cold_member_limits [unfolded same_limits_def])
  qed
  with claim_fresh_member_limits [OF claim] show ?thesis by (simp add: same_limits_def)
qed

lemma reserve_limits_frame:
  "reserve_active_capacity_counters a b la lb db = Inr db' \<Longrightarrow> same_limits db db'"
  by (auto simp: reserve_active_capacity_counters_def locked_capacity_rows_eq same_limits_def
      split: if_splits)

lemma placement_backend_get: "placement_backend db engine b = Some bk \<Longrightarrow> get_backend db b = Some bk"
  by (auto simp: placement_backend_def split: option.splits if_splits)

text \<open>
  Both kinds of reservation have the same effect on the books: the counters take one unit, one
  row with the request's identity is appended, nothing else of the table changes.
\<close>

definition reservation_effect ::
    "tenant_provisioning_config \<Rightarrow> string \<Rightarrow> string \<Rightarrow> string \<Rightarrow> metadb \<Rightarrow> resource \<Rightarrow> metadb \<Rightarrow> bool" where
  "reservation_effect cfg agent_id client_token fingerprint db r db' \<longleftrightarrow>
     same_limits db db' \<and>
     (\<exists>b ag bk db0 db1. capacities db0 = capacities db \<and> resources db0 = resources db
        \<and> get_agent db agent_id = Some ag \<and> get_backend db b = Some bk
        \<and> reserve_active_capacity_counters agent_id b (agent_limit cfg ag) (b_max_active_resources bk) db0
            = Inr db1
        \<and> capacities db' = capacities db1 \<and> resources db' = resources db @ [r]
        \<and> r_owner_agent_id r = agent_id \<and> r_backend_id r = b \<and> r_client_token r = client_token
        \<and> r_request_fingerprint r = fingerprint \<and> r_fingerprint_version r = fingerprint_version
        \<and> r_capacity_released_at r = None
        \<and> (\<forall>x \<in> set (resources db). r_id x \<noteq> r_id r
             \<and> (r_owner_agent_id x = agent_id \<longrightarrow> r_client_token x \<noteq> client_token)))"

lemma reservation_effect_accounted:
  assumes "reservation_effect cfg a t fp db r db'" and "accounted active_count db"
  shows "accounted active_count db'"
proof -
  from assms(1) obtain b and ag :: agent and bk :: backend and db0 db1 where e: "capacities db0 = capacities db"
    "resources db0 = resources db"
    "reserve_active_capacity_counters a b (agent_limit cfg ag) (b_max_active_resources bk) db0 = Inr db1"
    "capacities db' = capacities db1" "resources db' = resources db @ [r]"
    "r_owner_agent_id r = a" "r_backend_id r = b" "r_capacity_released_at r = None"
    unfolding reservation_effect_def by blast
  have "accounted active_count db0"
    using assms(2) by (rule accounted_frame) (simp_all add: e)
  then show ?thesis
    by (rule ledger.reserve_insert_accounted [OF _ e(3)])
      (use e ledger.reserve_rows [OF e(3)] in \<open>simp_all add: active_count_def\<close>)
qed

lemma insert_resource_fresh:
  assumes "insert_resource r db = Inr db'"
  shows "\<forall>x \<in> set (resources db). r_id x \<noteq> r_id r
     \<and> (r_owner_agent_id x = r_owner_agent_id r \<longrightarrow> r_client_token x \<noteq> r_client_token r)"
  using assms by (auto simp: insert_resource_def split: if_splits)

lemma reserve_candidate_effect:
  assumes "reserve_candidate cfg now a engine
    (\<lambda>b. build_resource (fresh b) t0 a b t fp name engine mode) hook db b = Inr (r, db')"
  shows "reservation_effect cfg a t fp db r db'"
  using assms
proof (rule reserve_candidate_InrD)
  fix ag bk db1
  assume ag: "get_agent db a = Some ag" and bk: "placement_backend db engine b = Some bk"
    and res: "reserve_active_capacity_counters a b (agent_limit cfg ag)
      (b_max_active_resources bk) db = Inr db1"
    and r: "apply_backend_permissions db1 bk (build_resource (fresh b) t0 a b t fp name engine mode)
      = Inr r"
    and ins: "insert_resource r db1 = Inr db'"
  have same: "resources db1 = resources db" by (rule ledger.reserve_rows [OF res])
  have "same_limits db db'"
    using reserve_limits_frame [OF res] by (simp add: same_limits_def insert_resource_cases [OF ins])
  moreover note placement_backend_get [OF bk]
  ultimately show ?thesis
    unfolding reservation_effect_def
    by (intro conjI exI [of _ b] exI [of _ ag] exI [of _ bk] exI [of _ db] exI [of _ db1])
      (use apply_backend_permissions_keeps [OF r] insert_resource_fresh [OF ins] same res ag in
        \<open>simp_all add: insert_resource_cases [OF ins] build_resource_def new_resource_def Let_def\<close>)
qed

lemma build_dedicated_id [simp]:
  "r_id (build_dedicated_resource d now a b t fp name engine) = d_resource_id d"
  by (simp add: build_dedicated_resource_def new_resource_def)

lemma reserve_dedicated_candidate_effect:
  assumes "reserve_dedicated_candidate cfg d now a engine t fp name hook db cold b = Inr (r, db')"
  shows "reservation_effect cfg a t fp db r db'"
proof -
  let ?r0 = "build_dedicated_resource d now a b t fp name engine"
  from assms obtain ag and bk :: backend and p db1 db2 db3 where
    cand: "get_agent db a = Some ag" "get_backend db b = Some bk"
    and bud: "consume_agent_operation_budget p a ''create'' now db = Inr db1"
    and res: "reserve_active_capacity_counters a b (agent_limit cfg ag)
      (b_max_active_resources bk) db1 = Inr db2"
    and ins: "insert_resource ?r0 db2 = Inr db3"
    and asg: "assign_member d now p (r_id ?r0) cold db3 = Inr db'"
    and get: "get_resource db' (r_id ?r0) = Some r"
    by (auto simp: reserve_dedicated_candidate_def dedicated_candidate_pool_def bindE_Inr
        split: option.splits prod.splits if_splits dest!: run_hook_Inr)
  note same = budgets_only [OF consume_agent_operation_budget_frame [OF bud]]
    ledger.reserve_rows [OF res]
  have rows: "resources db3 = resources db @ [?r0]"
    using insert_resource_cases [OF ins] same by simp
  have fresh: "\<forall>x \<in> set (resources db). r_id x \<noteq> r_id ?r0
     \<and> (r_owner_agent_id x = r_owner_agent_id ?r0 \<longrightarrow> r_client_token x \<noteq> r_client_token ?r0)"
    using insert_resource_fresh [OF ins] same by simp
  then have new: "r_id ?r0 \<notin> r_id ` set (resources db)" by auto
  from assign_member_effect [OF asg rows new] obtain r1 where r1: "resources db' = resources db @ [r1]"
    "same_identity r1 ?r0" "capacities db' = capacities db3" by blast
  have "r = r1"
    using get tget_snoc_fresh [of r_id r1 "resources db"] new r1 by (simp add: same_identity_def)
  with r1 have r: "resources db' = resources db @ [r]" "same_identity r ?r0"
    "capacities db' = capacities db2" using insert_resource_cases [OF ins] by simp_all
  have "same_limits db db'"
    using reserve_limits_frame [OF res] assign_member_limits [OF asg]
    by (simp add: same_limits_def insert_resource_cases [OF ins] same)
  then show ?thesis
    unfolding reservation_effect_def
    by (intro conjI exI [of _ b] exI [of _ ag] exI [of _ bk] exI [of _ db1] exI [of _ db2])
      (use r fresh same res cand in
        \<open>simp_all add: same_identity_def build_dedicated_resource_def new_resource_def\<close>)
qed

lemma try_candidates_InrD:
  assumes "try_candidates reserve cs = Inr x"
  shows "\<exists>pre cold b post. cs = pre @ (cold, b) # post \<and> reserve cold b = Inr x
    \<and> (\<forall>(c, b') \<in> set pre. \<exists>e. reserve c b' = Inl e \<and> skips_candidate e)"
  using assms
proof (induction cs)
  case (Cons p cs)
  obtain cold b where p: "p = (cold, b)" by (cases p)
  show ?case
  proof (cases "reserve cold b")
    case (Inr y)
    with Cons.prems p show ?thesis by (intro exI [of _ "[]"]) auto
  next
    case (Inl e)
    with Cons.prems p have s: "skips_candidate e" and rest: "try_candidates reserve cs = Inr x"
      by (auto split: if_splits)
    from Cons.IH [OF rest] obtain pre cold' b' post where
      "cs = pre @ (cold', b') # post" "reserve cold' b' = Inr x"
      "\<forall>(c, b') \<in> set pre. \<exists>e. reserve c b' = Inl e \<and> skips_candidate e" by blast
    with Inl s p show ?thesis by (intro exI [of _ "p # pre"]) auto
  qed
qed simp

lemma reserve_capacity_and_insert_InrD:
  "reserve_capacity_and_insert cfg now a engine build hook db cands = Inr x \<Longrightarrow>
   \<exists>b \<in> set cands. reserve_candidate cfg now a engine build hook db b = Inr x"
  by (induction cands) (auto split: sum.splits if_splits)

lemma reserve_for_mode_effect:
  assumes "reserve_for_mode rt fresh now q engine name fp cands db = Inr (r, db')"
  shows "reservation_effect (rt_config rt) (q_agent_id q) (q_client_token q) fp db r db'"
proof (cases "q_mode q = MODE_DEDICATED")
  case True
  with assms show ?thesis
    by (auto simp: reserve_for_mode_def reserve_dedicated_capacity_and_insert_def
        dest!: try_candidates_InrD reserve_dedicated_candidate_effect)
next
  case False
  with assms show ?thesis
    by (auto simp: reserve_for_mode_def
        dest!: reserve_capacity_and_insert_InrD reserve_candidate_effect)
qed

section \<open>Creation is idempotent\<close>

text \<open>The fingerprint of a request under a fingerprint version.\<close>

definition fingerprint_of :: "runtime \<Rightarrow> create_request \<Rightarrow> int \<Rightarrow> py_error + string" where
  "fingerprint_of rt q version =
     bindE (normalize_resource_name (rt_nfc rt) (q_name q)) (\<lambda>name.
       request_fingerprint (rt_nfc rt) (rt_digest rt) (q_db_type q) name (q_mode q) version)"

text \<open>\<open>r\<close> answers the request \<open>q\<close> in \<open>db\<close>.\<close>

definition answers :: "runtime \<Rightarrow> create_request \<Rightarrow> metadb \<Rightarrow> resource \<Rightarrow> bool" where
  "answers rt q db r \<longleftrightarrow> find_by_client_token db (q_agent_id q) (q_client_token q) = Some r
     \<and> fingerprint_of rt q (r_fingerprint_version r) = Inr (r_request_fingerprint r)"

lemma find_by_client_token_SomeD:
  "find_by_client_token db a t = Some r \<Longrightarrow>
   r \<in> set (resources db) \<and> r_owner_agent_id r = a \<and> r_client_token r = t"
  by (auto simp: find_by_client_token_def find_Some_iff)

lemma find_snoc: "find P (xs @ ys) = (case find P xs of None \<Rightarrow> find P ys | Some x \<Rightarrow> Some x)"
  by (induction xs) auto

lemma reservation_effect_found:
  assumes "reservation_effect cfg a t fp db r db'"
  shows "find_by_client_token db' a t = Some r \<and> r_request_fingerprint r = fp
    \<and> r_fingerprint_version r = fingerprint_version"
proof -
  have rows: "resources db' = resources db @ [r]" "r_owner_agent_id r = a" "r_client_token r = t"
    "r_request_fingerprint r = fp" "r_fingerprint_version r = fingerprint_version"
    and "\<forall>x \<in> set (resources db). r_owner_agent_id x = a \<longrightarrow> r_client_token x \<noteq> t"
    using assms by (auto simp: reservation_effect_def)
  then have "find (\<lambda>r. r_owner_agent_id r = a \<and> r_client_token r = t) (resources db) = None"
    by (auto simp: find_None_iff)
  with rows show ?thesis by (simp add: find_by_client_token_def find_snoc)
qed

lemma commit_idempotent_replay_Inr:
  assumes "commit_idempotent_replay a t fp v hook db = (Inr r, db')"
  shows "db' = db \<and> find_by_client_token db a t = Some r
    \<and> r_request_fingerprint r = fp \<and> r_fingerprint_version r = v"
  using assms
  by (auto simp: commit_idempotent_replay_def return_if_same_request_def bindE_Inr
      split: option.splits sum.splits if_splits dest: run_hook_Inr)

lemma replay_response_Inr:
  assumes "replay_response env k q fp v w db = (Inr r, db')"
    and "find_by_client_token db (q_agent_id q) (q_client_token q) = Some w"
  shows "find_by_client_token db' (q_agent_id q) (q_client_token q) = Some r
    \<and> r_request_fingerprint r = fp \<and> r_fingerprint_version r = v"
  using assms
  by (auto simp: replay_response_def return_if_same_request_def
      split: sum.splits if_splits dest: commit_idempotent_replay_Inr)

lemma create_attempts_Inr:
  assumes "create_attempts rt env fresh now q engine name fp cands ks db = (Inr r, db')"
  shows "find_by_client_token db' (q_agent_id q) (q_client_token q) = Some r
    \<and> r_request_fingerprint r = fp \<and> r_fingerprint_version r = fingerprint_version"
  using assms
proof (induction ks arbitrary: db)
  case (Cons k ks)
  let ?db1 = "env (3 * k + 2) db" and ?db2 = "env (3 * k + 3) (env (3 * k + 2) db)"
  show ?case
  proof (cases "reserve_for_mode rt (fresh k) now q engine name fp cands ?db1")
    case (Inr x)
    with Cons.prems have "reserve_for_mode rt (fresh k) now q engine name fp cands ?db1 = Inr (r, db')"
      by (cases x) (simp add: Let_def)
    then show ?thesis by (rule reservation_effect_found [OF reserve_for_mode_effect])
  next
    case (Inl e)
    show ?thesis
    proof (cases "find_by_client_token ?db2 (q_agent_id q) (q_client_token q)")
      case None
      with Inl Cons show ?thesis by (auto simp: Let_def split: if_splits)
    next
      case (Some w)
      with Inl Cons.prems
      have "replay_response env (3 * k + 4) q fp fingerprint_version w ?db2 = (Inr r, db')"
        by (auto simp: Let_def split: if_splits)
      from replay_response_Inr [OF this Some] show ?thesis .
    qed
  qed
qed simp

lemma create_answers:
  assumes "create_db_instance_resource rt env fresh now in_tx q db = (Inr r, db')"
  shows "answers rt q db' r \<and> \<not> in_tx \<and> validate_client_token (q_client_token q) = Inr ()
    \<and> parse_engine (q_db_type q) = Inr POLARDB_MYSQL
    \<and> (\<exists>fp. fingerprint_of rt q fingerprint_version = Inr fp)"
proof -
  from assms obtain engine name fp where pre: "\<not> in_tx"
    "validate_client_token (q_client_token q) = Inr ()" "parse_engine (q_db_type q) = Inr engine"
    "normalize_resource_name (rt_nfc rt) (q_name q) = Inr name"
    "request_fingerprint (rt_nfc rt) (rt_digest rt) (q_db_type q) name (q_mode q)
       fingerprint_version = Inr fp"
    and go: "create_checked rt env fresh now q engine name fp (env 0 db) = (Inr r, db')"
    by (auto simp: create_db_instance_resource_def check_create_request_def bindE_Inr
        split: sum.splits if_splits)
  have fpq: "fingerprint_of rt q v = request_fingerprint (rt_nfc rt) (rt_digest rt) (q_db_type q)
      name (q_mode q) v" for v
    by (simp add: fingerprint_of_def pre)
  have "answers rt q db' r"
  proof (cases "find_by_client_token (env 0 db) (q_agent_id q) (q_client_token q)")
    case None
    with go obtain cs :: "backend_candidate list" where "create_attempts rt env fresh now q engine name fp
        (map bc_backend_id cs) [0, 1, 2] (env 0 db) = (Inr r, db')"
      by (auto simp del: create_attempts.simps simp: create_checked_def split: sum.splits if_splits)
    from create_attempts_Inr [OF this] show ?thesis by (simp add: answers_def fpq pre)
  next
    case (Some w)
    with go obtain fp' where "request_fingerprint (rt_nfc rt) (rt_digest rt) (q_db_type q)
        name (q_mode q) (r_fingerprint_version w) = Inr fp'"
      "replay_response env 1 q fp' (r_fingerprint_version w) w (env 0 db) = (Inr r, db')"
      by (auto simp: create_checked_def split: sum.splits)
    with replay_response_Inr [OF this(2) Some] show ?thesis by (simp add: answers_def fpq)
  qed
  moreover have "engine = POLARDB_MYSQL" by (cases engine) simp
  ultimately show ?thesis using pre by (simp add: fpq)
qed

text \<open>C1: whatever other sessions commit between the transactions of a creation, a creation
  that succeeds returns the one stored resource of this agent under this client token, and that
  resource was created by a request with the same fingerprint: the caller never receives
  another agent's resource or one made for other arguments.\<close>

theorem create_returns_own_resource:
  assumes "create_db_instance_resource rt env fresh now in_tx q db = (Inr r, db')"
  shows "find_by_client_token db' (q_agent_id q) (q_client_token q) = Some r
    \<and> r_owner_agent_id r = q_agent_id q \<and> r_client_token r = q_client_token q
    \<and> fingerprint_of rt q (r_fingerprint_version r) = Inr (r_request_fingerprint r)"
  using create_answers [OF assms] find_by_client_token_SomeD [of db']
  by (auto simp: answers_def)

text \<open>A replay against a database in which nobody else writes.\<close>

lemma create_replay_response:
  assumes ok: "validate_client_token (q_client_token q) = Inr ()"
      "parse_engine (q_db_type q) = Inr POLARDB_MYSQL"
      "fingerprint_of rt q fingerprint_version = Inr fp0"
    and found: "find_by_client_token (env 0 db) (q_agent_id q) (q_client_token q) = Some r"
    and fp: "fingerprint_of rt q (r_fingerprint_version r) = Inr fp"
  shows "create_db_instance_resource rt env fresh now False q db =
    replay_response env 1 q fp (r_fingerprint_version r) r (env 0 db)"
proof -
  from ok(3) obtain name where name: "normalize_resource_name (rt_nfc rt) (q_name q) = Inr name"
    "request_fingerprint (rt_nfc rt) (rt_digest rt) (q_db_type q) name (q_mode q)
       fingerprint_version = Inr fp0"
    by (auto simp: fingerprint_of_def bindE_Inr)
  with fp have "request_fingerprint (rt_nfc rt) (rt_digest rt) (q_db_type q) name (q_mode q)
       (r_fingerprint_version r) = Inr fp"
    by (simp add: fingerprint_of_def)
  with ok(1,2) name found show ?thesis
    by (simp add: create_db_instance_resource_def check_create_request_def create_checked_def)
qed

text \<open>C2: creation is idempotent. Repeating a successful request, at any later time and with
  any new random values, returns the resource of the first one and writes nothing, as long as
  the audit callback accepts it.\<close>

theorem create_idempotent:
  assumes "create_db_instance_resource rt env fresh now False q db = (Inr r, db')"
    and "case q_before_commit q of None \<Rightarrow> True | Some hook \<Rightarrow> hook r = None"
  shows "create_db_instance_resource rt (\<lambda>_ d. d) fresh' later False q db' = (Inr r, db')"
proof -
  note a = create_answers [OF assms(1)]
  then obtain fp0 where fp0: "fingerprint_of rt q fingerprint_version = Inr fp0" by blast
  have "create_db_instance_resource rt (\<lambda>_ d. d) fresh' later False q db' =
    replay_response (\<lambda>_ d. d) 1 q (r_request_fingerprint r) (r_fingerprint_version r) r db'"
    using a fp0 by (intro create_replay_response) (auto simp: answers_def)
  also have "\<dots> = (Inr r, db')"
    using a assms(2)
    by (auto simp: answers_def replay_response_def return_if_same_request_def
        commit_idempotent_replay_def run_hook_def split: option.splits)
  finally show ?thesis .
qed

text \<open>a client token is never reused for another request. A well-formed request under a
  token that already names a resource with another fingerprint is refused with
  \<open>IdempotencyConflict\<close> and writes nothing.\<close>

theorem create_conflict:
  assumes "validate_client_token (q_client_token q) = Inr ()"
    and "q_db_type q = ''polardb_mysql''"
    and "fingerprint_of rt q fingerprint_version = Inr fp0"
    and "find_by_client_token db (q_agent_id q) (q_client_token q) = Some r"
    and "fingerprint_of rt q (r_fingerprint_version r) = Inr fp"
    and "fp \<noteq> r_request_fingerprint r"
  shows "create_db_instance_resource rt (\<lambda>_ d. d) fresh now False q db =
    (Inl IdempotencyConflict, db)"
proof -
  have "parse_engine (q_db_type q) = Inr POLARDB_MYSQL"
    by (simp add: parse_engine_def assms(2))
  from create_replay_response [where env = "\<lambda>_ d. d", OF assms(1) this assms(3,4,5)] assms(6)
  show ?thesis by (simp add: replay_response_def return_if_same_request_def)
qed

section \<open>Creation keeps the books\<close>

lemma commit_idempotent_replay_db: "snd (commit_idempotent_replay a t fp v hook db) = db"
  by (auto simp: commit_idempotent_replay_def bindE_Inr split: option.splits sum.splits
      dest: run_hook_Inr)

lemma replay_response_db:
  assumes "\<And>k d. P d \<Longrightarrow> P (env k d)" and "P db"
  shows "P (snd (replay_response env k q fp v w db))"
  using assms
  by (auto simp: replay_response_def commit_idempotent_replay_db split: sum.splits)

lemma create_attempts_invariant:
  assumes env: "\<And>k d. P d \<Longrightarrow> P (env k d)"
    and eff: "\<And>fresh d r d'. P d \<Longrightarrow>
      reserve_for_mode rt fresh now q engine name fp cands d = Inr (r, d') \<Longrightarrow> P d'"
    and "P db"
  shows "P (snd (create_attempts rt env fresh now q engine name fp cands ks db))"
  using assms(3)
proof (induction ks arbitrary: db)
  case (Cons k ks)
  let ?db1 = "env (3 * k + 2) db" and ?db2 = "env (3 * k + 3) (env (3 * k + 2) db)"
  have P: "P ?db1" "P ?db2" using Cons.prems by (auto intro: env)
  show ?case
  proof (cases "reserve_for_mode rt (fresh k) now q engine name fp cands ?db1")
    case (Inr x)
    then obtain r db' where
      x: "reserve_for_mode rt (fresh k) now q engine name fp cands ?db1 = Inr (r, db')"
      by (cases x) auto
    from eff [OF P(1) x] x show ?thesis by (simp add: Let_def)
  next
    case (Inl e)
    show ?thesis
    proof (cases "find_by_client_token ?db2 (q_agent_id q) (q_client_token q)")
      case None
      with Inl P Cons.IH [OF P(2)] show ?thesis by (auto simp: Let_def)
    next
      case (Some w)
      with Inl P replay_response_db [where P = P, OF env P(2)] show ?thesis
        by (auto simp: Let_def)
    qed
  qed
qed simp

text \<open>A creation consists of reservation transactions and of what other sessions commit.\<close>

lemma create_invariant:
  assumes env: "\<And>k d. P d \<Longrightarrow> P (env k d)"
    and eff: "\<And>fresh engine name fp cands d r d'. P d \<Longrightarrow>
      reserve_for_mode rt fresh now q engine name fp cands d = Inr (r, d') \<Longrightarrow> P d'"
    and "P db"
  shows "P (snd (create_db_instance_resource rt env fresh now in_tx q db))"
proof -
  have replay: "P (snd (replay_response env k q fp v w d))" if "P d" for k fp v w d
    by (rule replay_response_db [where P = P, OF env that])
  have attempts: "P (snd (create_attempts rt env fresh now q engine name fp cands ks d))"
    if "P d" for engine name fp cands ks d
    by (rule create_attempts_invariant [where P = P, OF env eff that])
  have checked: "P (snd (create_checked rt env fresh now q engine name fp d))"
    if "P d" for engine name fp d
    using that
    by (simp add: create_checked_def replay attempts del: create_attempts.simps
        split: option.split sum.split)
  have P0: "P (env 0 db)" by (rule env [OF assms(3)])
  show ?thesis
    by (cases "check_create_request rt in_tx q")
      (simp_all add: create_db_instance_resource_def assms(3) checked [OF P0] split_beta)
qed

text \<open>creation keeps the capacity books balanced. If every other session does, then after
  a creation, successful or not, each agent's and each backend's counter is still the number of
  its resources that hold capacity.\<close>

theorem create_accounted:
  assumes "accounted active_count db"
    and "\<forall>k d. accounted active_count d \<longrightarrow> accounted active_count (env k d)"
  shows "accounted active_count (snd (create_db_instance_resource rt env fresh now in_tx q db))"
  by (rule create_invariant [where P = "accounted active_count"])
    (use assms in \<open>auto intro: reservation_effect_accounted [OF reserve_for_mode_effect]\<close>)

text \<open>a dedicated request buys a new member only as a last resort. When the reservation
  went through a cold purchase on some backend, the reservation without purchase was refused on
  every candidate.\<close>

theorem dedicated_hot_first:
  assumes "reserve_dedicated_capacity_and_insert cfg fresh now a engine cands t fp name hook db
    = Inr (r, db')"
  shows "\<exists>cold. \<exists>b \<in> set cands.
    reserve_dedicated_candidate cfg (fresh cold b) now a engine t fp name hook db cold b
      = Inr (r, db')
    \<and> (cold \<longrightarrow> (\<forall>b' \<in> set cands. \<exists>e. skips_candidate e \<and>
         reserve_dedicated_candidate cfg (fresh False b') now a engine t fp name hook db False b'
           = Inl e))"
proof -
  let ?res = "\<lambda>cold b. reserve_dedicated_candidate cfg (fresh cold b) now a engine t fp name hook db cold b"
  from assms try_candidates_InrD [of ?res "map (Pair False) cands @ map (Pair True) cands" "(r, db')"]
  obtain pre cold b post where split:
    "map (Pair False) cands @ map (Pair True) cands = pre @ (cold, b) # post"
    and hit: "?res cold b = Inr (r, db')"
    and miss: "\<forall>(c, b') \<in> set pre. \<exists>e. ?res c b' = Inl e \<and> skips_candidate e"
    unfolding reserve_dedicated_capacity_and_insert_def by blast
  have "(cold, b) \<in> set (map (Pair False) cands @ map (Pair True) cands)" by (simp add: split)
  then have b: "b \<in> set cands" by auto
  have "\<forall>b' \<in> set cands. (False, b') \<in> set pre" if cold
  proof -
    have "length cands \<le> length pre"
    proof (rule ccontr)
      assume "\<not> length cands \<le> length pre"
      then have "(map (Pair False) cands @ map (Pair True) cands) ! length pre
          = (False, cands ! length pre)"
        by (simp add: nth_append)
      then show False using split that by (simp add: nth_append)
    qed
    then have pre: "map (Pair False) cands = take (length cands) pre"
      using arg_cong [OF split, of "take (length cands)"] by simp
    show ?thesis
    proof
      fix b' assume "b' \<in> set cands"
      then have "(False, b') \<in> set (map (Pair False) cands)" by simp
      then show "(False, b') \<in> set pre" unfolding pre by (rule in_set_takeD)
    qed
  qed
  then have "\<exists>e. skips_candidate e \<and> ?res False b' = Inl e" if cold "b' \<in> set cands" for b'
    using that miss by blast
  with b hit show ?thesis by blast
qed

section \<open>A request on the small deployment\<close>

definition example_runtime :: runtime where
  "example_runtime = \<lparr>rt_config = default_config, rt_sha256_hex = (\<lambda>s. s), rt_nfc = (\<lambda>s. s),
     rt_digest = map char_of\<rparr>"

definition example_request :: create_request where
  "example_request = \<lparr>q_agent_id = ''ag'', q_client_token = ''t'', q_name = None,
     q_db_type = ''polardb_mysql'', q_mode = MODE_MULTITENANT, q_before_commit = None\<rparr>"

definition example_draws :: draws where
  "example_draws = \<lparr>d_resource_id = ''r1'', d_tenant = ''abcdefghi'', d_password = ''Aa1x'',
     d_encrypt = (\<lambda>s. s), d_credential_id = ''c1'', d_token = ''00ff'', d_instance_id = ''i1'',
     d_member_id = ''m1''\<rparr>"

lemma example_fingerprint:
  "check_create_request example_runtime False example_request =
     Inr (POLARDB_MYSQL, None, map char_of (fingerprint_payload 2 ''polardb_mysql'' None
        MODE_MULTITENANT))"
  by (simp add: check_create_request_def example_request_def example_runtime_def
      validate_client_token_def token_char_def parse_engine_def normalize_resource_name_def
      request_fingerprint_def fingerprint_version_def)

lemma example_no_token: "find_by_client_token example_db a t = None"
  by (simp add: find_by_client_token_def example_defs)

lemma example_reserve_for_mode:
  "\<exists>r db'. reserve_for_mode example_runtime (\<lambda>_ _. example_draws) 0 example_request POLARDB_MYSQL None
     fp [''be''] example_db = Inr (r, db') \<and> r_id r = ''r1'' \<and> r_fingerprint_version r = 2
     \<and> r_request_fingerprint r = fp"
  by (simp add: reserve_for_mode_def example_request_def example_runtime_def example_draws_def
      reserve_candidate_def placement_backend_def binding_enabled_def health_fresh_def
      backend_health_cutoff_def effective_backend_health_stale_after_seconds_def default_config_def
      seconds_def agent_limit_def effective_max_active_resources_per_agent_def
      reserve_active_capacity_counters_def locked_capacity_rows_eq active_count_def
      ensure_capacity_row_def add_active_count_def tensure_def cap_key_def
      apply_backend_permissions_def insert_resource_def run_hook_def example_defs
      build_resource_def new_resource_def Let_def fingerprint_version_def)

lemma example_create:
  "\<exists>r db'. create_db_instance_resource example_runtime (\<lambda>_ d. d) (\<lambda>_ _ _. example_draws) 0 False
     example_request example_db = (Inr r, db') \<and> r_id r = ''r1''
     \<and> r_fingerprint_version r = 2 \<and> r_request_fingerprint r =
         map char_of (fingerprint_payload 2 ''polardb_mysql'' None MODE_MULTITENANT)"
proof -
  let ?fp = "map char_of (fingerprint_payload 2 ''polardb_mysql'' None MODE_MULTITENANT)"
  obtain r db' where r: "reserve_for_mode example_runtime (\<lambda>_ _. example_draws) 0 example_request
      POLARDB_MYSQL None ?fp [''be''] example_db = Inr (r, db')"
    "r_id r = ''r1''" "r_fingerprint_version r = 2" "r_request_fingerprint r = ?fp"
    using example_reserve_for_mode by blast
  have "create_checked example_runtime (\<lambda>_ d. d) (\<lambda>_ _ _. example_draws) 0 example_request
      POLARDB_MYSQL None ?fp example_db = (Inr r, db')"
    using example_candidates r(1) unfolding create_checked_def example_no_token
    by (simp add: example_request_def example_runtime_def example_backend_def)
  then show ?thesis using r by (simp add: create_db_instance_resource_def example_fingerprint)
qed

theorem create_returns_own_resource_witness:
  "\<exists>r db'. create_db_instance_resource example_runtime (\<lambda>_ d. d) (\<lambda>_ _ _. example_draws) 0 False
     example_request example_db = (Inr r, db') \<and> r_owner_agent_id r = ''ag''"
proof -
  obtain r db' where c: "create_db_instance_resource example_runtime (\<lambda>_ d. d) (\<lambda>_ _ _. example_draws)
     0 False example_request example_db = (Inr r, db')" using example_create by blast
  from create_returns_own_resource [OF c] c show ?thesis by (auto simp: example_request_def)
qed

theorem create_idempotent_witness:
  "\<exists>r db'. create_db_instance_resource example_runtime (\<lambda>_ d. d) (\<lambda>_ _ _. example_draws) 9 False
     example_request db' = (Inr r, db') \<and> r_id r = ''r1''"
proof -
  obtain r db' where c: "create_db_instance_resource example_runtime (\<lambda>_ d. d) (\<lambda>_ _ _. example_draws)
     0 False example_request example_db = (Inr r, db')" and r: "r_id r = ''r1''"
    using example_create by blast
  have "case q_before_commit example_request of None \<Rightarrow> True | Some hook \<Rightarrow> hook r = None"
    by (simp add: example_request_def)
  from create_idempotent [OF c this] r show ?thesis by blast
qed

theorem create_conflict_witness:
  "\<exists>db. create_db_instance_resource example_runtime (\<lambda>_ d. d) (\<lambda>_ _ _. example_draws) 0 False
     (example_request\<lparr>q_name := Some [65]\<rparr>) db = (Inl IdempotencyConflict, db)"
proof -
  let ?q = "example_request\<lparr>q_name := Some [65]\<rparr>"
  obtain r db' where c: "create_db_instance_resource example_runtime (\<lambda>_ d. d) (\<lambda>_ _ _. example_draws)
     0 False example_request example_db = (Inr r, db')" and v: "r_fingerprint_version r = 2"
    and fp: "r_request_fingerprint r =
         map char_of (fingerprint_payload 2 ''polardb_mysql'' None MODE_MULTITENANT)"
    using example_create by blast
  have found: "find_by_client_token db' (q_agent_id ?q) (q_client_token ?q) = Some r"
    using create_answers [OF c] by (simp add: answers_def)
  have f: "fingerprint_of example_runtime ?q 2 =
      Inr (map char_of (fingerprint_payload 2 ''polardb_mysql'' (Some [65]) MODE_MULTITENANT))"
    by (simp add: fingerprint_of_def example_request_def example_runtime_def
      normalize_resource_name_def request_fingerprint_def fingerprint_version_def strip_def
      is_space_def is_control_def is_surrogate_def)
  have "length (fingerprint_payload 2 ''polardb_mysql'' (Some [65]) MODE_MULTITENANT) \<noteq>
        length (fingerprint_payload 2 ''polardb_mysql'' None MODE_MULTITENANT)"
    by (simp add: fingerprint_payload_def json_name_def json_string_def json_escape_def codes_def)
  then have ne: "map char_of (fingerprint_payload 2 ''polardb_mysql'' (Some [65]) MODE_MULTITENANT) \<noteq>
      r_request_fingerprint r"
    unfolding fp by (metis length_map)
  have "create_db_instance_resource example_runtime (\<lambda>_ d. d) (\<lambda>_ _ _. example_draws) 0 False ?q db'
      = (Inl IdempotencyConflict, db')"
  proof (rule create_conflict [OF _ _ _ found _ ne])
    show "validate_client_token (q_client_token ?q) = Inr ()" "q_db_type ?q = ''polardb_mysql''"
      by (simp_all add: example_request_def validate_client_token_def token_char_def)
  qed (use f v in \<open>simp_all add: fingerprint_version_def\<close>)
  then show ?thesis by blast
qed

theorem create_accounted_witness:
  "accounted active_count (snd (create_db_instance_resource example_runtime (\<lambda>_ d. d)
     (\<lambda>_ _ _. example_draws) 0 False example_request example_db))"
  by (rule create_accounted) (simp_all add: accounted_def active_count_def example_defs)

definition example_dedicated_db :: metadb where
  "example_dedicated_db = example_db\<lparr>
     backends := [example_backend\<lparr>b_type := BT_DEDICATED_POOL, b_dedicated_pool_id := Some ''po'',
       b_instance_id := None\<rparr>],
     pools := [example_pool], members := [example_member]\<rparr>"

lemma example_dedicated_reservation:
  "\<exists>r db'. reserve_dedicated_candidate default_config example_draws 0 ''ag'' POLARDB_MYSQL ''t''
     ''fp'' None None example_dedicated_db False ''be'' = Inr (r, db') \<and> r_status r = ST_READY"
proof -
  let ?db = example_dedicated_db
  have 1: "dedicated_candidate_pool default_config 0 ''ag'' POLARDB_MYSQL ''be'' ?db =
     Some (hd (agents ?db), hd (backends ?db), example_pool)"
    by (simp add: dedicated_candidate_pool_def example_dedicated_db_def example_defs backend_pool_def
        backend_is_fresh_and_healthy_def backend_health_cutoff_def binding_enabled_def
        effective_backend_health_stale_after_seconds_def default_config_def seconds_def
        example_pool_def)
  obtain db1 where 2: "consume_agent_operation_budget example_pool ''ag'' ''create'' 0 ?db = Inr db1"
    by (simp add: consume_agent_operation_budget_def consume_hourly_budget_def example_pool_def
        ensure_budget_row_def tensure_def bud_key_def Let_def example_dedicated_db_def example_defs)
  then have db1: "db1 = ?db\<lparr>budgets := budgets db1\<rparr>"
    by (rule consume_agent_operation_budget_frame)
  show ?thesis
    unfolding reserve_dedicated_candidate_def 1 option.case prod.case 2 bindE_simps
    by (subst db1, subst db1)
      (simp add: agent_limit_def effective_max_active_resources_per_agent_def default_config_def
        reserve_active_capacity_counters_def locked_capacity_rows_eq active_count_def
        ensure_capacity_row_def add_active_count_def tensure_def cap_key_def insert_resource_def
        run_hook_def example_defs example_dedicated_db_def build_dedicated_resource_def
        new_resource_def example_draws_def assign_member_def claim_fresh_member_def
        example_pool_def example_member_def new_member_def claimable_member_def
        member_allocatable_def verified_since_def ready_cutoff_def seconds_def
        activate_dedicated_member_def put_member_def put_resource_def)
qed

theorem dedicated_hot_first_witness:
  "\<exists>r db' cold. \<exists>b \<in> set [''be''].
    reserve_dedicated_candidate default_config example_draws 0 ''ag'' POLARDB_MYSQL ''t''
     ''fp'' None None example_dedicated_db cold b = Inr (r, db')"
proof -
  obtain r db' where h: "reserve_dedicated_candidate default_config example_draws 0 ''ag''
      POLARDB_MYSQL ''t'' ''fp'' None None example_dedicated_db False ''be'' = Inr (r, db')"
    using example_dedicated_reservation by blast
  then have "reserve_dedicated_capacity_and_insert default_config (\<lambda>_ _. example_draws) 0 ''ag''
      POLARDB_MYSQL [''be''] ''t'' ''fp'' None None example_dedicated_db = Inr (r, db')"
    by (simp add: reserve_dedicated_capacity_and_insert_def)
  from dedicated_hot_first [OF this] show ?thesis by blast
qed


section \<open>Deletion is safe\<close>

lemma consume_agent_operation_budget_rows:
  assumes "consume_agent_operation_budget p a op now db = Inr db'"
  shows "resources db' = resources db \<and> capacities db' = capacities db \<and> members db' = members db"
  using budgets_only [OF consume_agent_operation_budget_frame [OF assms]] by simp

lemma retire_member_frame:
  assumes "retire_member now a r db = Inr db'"
  shows "resources db' = resources db \<and> capacities db' = capacities db
    \<and> members db' = (case (if r_mode r = MODE_DEDICATED then member_of_resource db (r_id r) else None) of
        None \<Rightarrow> members db
      | Some m \<Rightarrow> tupd m_id (m_id m) (\<lambda>x. x\<lparr>m_status := MS_DELETING\<rparr>) (members db))"
  using assms
  by (auto simp: retire_member_def Let_def split: if_splits option.splits sum.splits
      dest!: consume_agent_operation_budget_rows)

lemma consume_agent_operation_budget_limits:
  assumes "consume_agent_operation_budget p a op now db = Inr db'"
  shows "same_limits db db'"
  using budgets_only [OF consume_agent_operation_budget_frame [OF assms]] by (simp add: same_limits_def)

lemma retire_member_limits: "retire_member now a r db = Inr db' \<Longrightarrow> same_limits db db'"
  by (auto simp: retire_member_def same_limits_def Let_def split: if_splits option.splits sum.splits
      dest!: consume_agent_operation_budget_limits [unfolded same_limits_def])

lemma mark_deleting_simps [simp]:
  "r_id (mark_deleting now r) = r_id r" "r_owner_agent_id (mark_deleting now r) = r_owner_agent_id r"
  "r_backend_id (mark_deleting now r) = r_backend_id r"
  "r_capacity_released_at (mark_deleting now r) = r_capacity_released_at r"
  "r_status (mark_deleting now r) = ST_DELETING" "r_cleanup_required (mark_deleting now r)"
  "r_credentials (mark_deleting now r) = map revoke_access (r_credentials r)"
  "r_delete_requested_at (mark_deleting now r) = r_delete_requested_at r"
  "r_cooldown_hours (mark_deleting now r) = r_cooldown_hours r"
  "r_client_token (mark_deleting now r) = r_client_token r"
  by (simp_all add: mark_deleting_def Let_def)

lemma record_delete_request_keeps:
  assumes "record_delete_request cfg now p b r = Inr r1"
  shows "r_id r1 = r_id r \<and> r_owner_agent_id r1 = r_owner_agent_id r
    \<and> r_backend_id r1 = r_backend_id r \<and> r_mode r1 = r_mode r \<and> r_client_token r1 = r_client_token r
    \<and> r_capacity_released_at r1 = r_capacity_released_at r
    \<and> r_delete_requested_at r1 \<noteq> None
    \<and> (r_delete_requested_at r = None \<longrightarrow>
         r_delete_requested_at r1 = Some now \<and> (\<exists>h \<ge> 1. r_cooldown_hours r1 = Some h))
    \<and> (r_delete_requested_at r \<noteq> None \<longrightarrow> r1 = r)"
  using assms
  by (auto simp: record_delete_request_def bindE_Inr effective_delete_cooldown_hours_def Let_def
      split: if_splits)

lemma record_delete_request_identity: "record_delete_request cfg now p b r = Inr r1 \<Longrightarrow> same_identity r1 r"
  by (auto simp: record_delete_request_def bindE_Inr same_identity_def Let_def split: if_splits)

lemma delete_InrD:
  assumes "delete_db_instance_resource cfg now a i hook db = Inr (r', db')"
    and "get_resource db i = Some r" and "deletable_status (r_status r)"
  obtains b r1 db1 where "r_owner_agent_id r = a" "get_backend db (r_backend_id r) = Some b"
    "record_delete_request cfg now (backend_pool db b) b r = Inr r1"
    "retire_member now a r1 db = Inr db1" "r' = mark_deleting now r1"
    "db' = put_resource i (\<lambda>_. r') db1"
  using assms
  by (auto simp: delete_db_instance_resource_def bindE_Inr Let_def split: if_splits option.splits
      dest!: run_hook_Inr)

text \<open>C35: after an accepted delete request no credential of the resource gives access any more.
  The request belongs to the owner; the resource is in \<open>DELETING\<close> with its cleanup scheduled,
  every \<open>RESOURCE_ACCESS\<close> credential is revoked, the first request fixed its time and a cooldown
  of at least one hour, the member of a dedicated resource is in \<open>DELETING\<close> too, and every other
  resource and all capacity counters are as before.\<close>

theorem delete_revokes_access:
  assumes "delete_db_instance_resource cfg now a i hook db = Inr (r', db')"
    and "get_resource db i = Some r" and "deletable_status (r_status r)"
  shows "get_resource db' i = Some r' \<and> r_owner_agent_id r = a
    \<and> r_status r' = ST_DELETING \<and> r_cleanup_required r'
    \<and> (\<forall>c \<in> set (r_credentials r'). c_purpose c = RESOURCE_ACCESS \<longrightarrow> c_status c = CRED_REVOKED)
    \<and> r_delete_requested_at r' \<noteq> None
    \<and> (r_delete_requested_at r = None \<longrightarrow>
         r_delete_requested_at r' = Some now \<and> (\<exists>h \<ge> 1. r_cooldown_hours r' = Some h))
    \<and> (\<forall>m. r_mode r = MODE_DEDICATED \<longrightarrow> member_of_resource db i = Some m \<longrightarrow>
         (\<exists>m'. get_member db' (m_id m) = Some m' \<and> m_status m' = MS_DELETING))
    \<and> (\<forall>j. j \<noteq> i \<longrightarrow> get_resource db' j = get_resource db j) \<and> capacities db' = capacities db"
  using assms
proof (rule delete_InrD)
  fix b r1 db1
  assume own: "r_owner_agent_id r = a"
    and rec: "record_delete_request cfg now (backend_pool db b) b r = Inr r1"
    and ret: "retire_member now a r1 db = Inr db1"
    and r': "r' = mark_deleting now r1" and db': "db' = put_resource i (\<lambda>_. r') db1"
  note keeps = record_delete_request_keeps [OF rec] and frame = retire_member_frame [OF ret]
  have i: "r_id r = i" using assms(2) by auto
  then have id: "r_id r' = i" using keeps r' by simp
  have get: "get_resource db' j = (if j = i then Some r' else get_resource db j)" for j
    using assms(2) frame id by (simp add: db' tget_tupd_at)
  have mem: "\<exists>m'. get_member db' (m_id m) = Some m' \<and> m_status m' = MS_DELETING"
    if "r_mode r = MODE_DEDICATED" "member_of_resource db i = Some m" for m
  proof -
    have "m \<in> set (members db)" using member_of_resource_SomeD [OF that(2)] by simp
    then have "get_member db (m_id m) \<noteq> None" by (auto simp: tget_None_iff)
    with that keeps i frame show ?thesis by (auto simp: db' tget_tupd)
  qed
  have cred: "c_status c = CRED_REVOKED"
    if "c \<in> set (r_credentials r')" "c_purpose c = RESOURCE_ACCESS" for c
    using that by (auto simp: r' revoke_access_def split: if_splits)
  have cap: "capacities db' = capacities db" by (simp add: db' frame)
  have "r_status r' = ST_DELETING" "r_cleanup_required r'"
    "r_delete_requested_at r' = r_delete_requested_at r1" "r_cooldown_hours r' = r_cooldown_hours r1"
    by (simp_all add: r')
  with own keeps mem cred show ?thesis by (simp add: get cap)
qed

theorem delete_revokes_access_witness:
  "\<exists>r' db'. delete_db_instance_resource default_config 5 ''ag'' ''r1'' None
     (example_db\<lparr>resources := [example_build ''be'']\<rparr>) = Inr (r', db') \<and> r_status r' = ST_DELETING"
proof -
  let ?db = "example_db\<lparr>resources := [example_build ''be'']\<rparr>"
  obtain r' db' where d:
    "delete_db_instance_resource default_config 5 ''ag'' ''r1'' None ?db = Inr (r', db')"
    by (simp add: delete_db_instance_resource_def example_build_def new_resource_def
        deletable_status_def example_defs record_delete_request_def default_config_def
        effective_delete_cooldown_hours_def retire_member_def run_hook_def backend_pool_def Let_def)
  have g: "get_resource ?db ''r1'' = Some (example_build ''be'')"
    by (simp add: example_build_def new_resource_def)
  have "deletable_status (r_status (example_build ''be''))"
    by (simp add: example_build_def new_resource_def deletable_status_def)
  from delete_revokes_access [OF d g this] d show ?thesis by blast
qed

text \<open>throttling never leaves access active: without an audit callback a delete request is
  never refused with \<open>RateLimited\<close>, however many the agent has sent this hour.\<close>

theorem delete_never_throttled:
  "delete_db_instance_resource cfg now a i None db \<noteq> Inl RateLimited"
  by (auto simp: delete_db_instance_resource_def bindE_Inl run_hook_def Let_def
      record_delete_request_def effective_delete_cooldown_hours_def retire_member_def
      split: option.splits if_splits sum.splits)

end
