(* ===== verification/Adapter.thy ===== *)
theory Adapter
  imports Resource_Service
begin

text \<open>
  Provisioning adapters: the protocol the dispatcher drives, the registry that finds an adapter
  by engine and topology (\<open>server/core/adapter_registry.py\<close>), and the multitenant adapter
  (\<open>server/core/provisioning_adapter.py\<close>), which executes one step of a resource's lifecycle
  per call and moves the step marker when it succeeded.

  The remote database server is the parameter \<open>ddl\<close>: what it answers to each administrative
  operation of \<open>multitenant_ddl.py\<close> (an error, or the truth value of a verification); the theory
  \<open>Multitenant_DDL\<close> models these operations and supplies such a function.
  Decryption is the parameter \<open>decrypt\<close>.
\<close>

section \<open>The remote server\<close>

datatype ddl_op =
    DDL_CREATE_RESOURCE_CONFIG | DDL_CREATE_TENANT | DDL_CREATE_USER | DDL_CREATE_DATABASE
  | DDL_GRANT_PRIVILEGES | DDL_PREPARE_CLEANUP | DDL_DROP_DATABASE | DDL_DROP_TENANT
  | DDL_DROP_RESOURCE_CONFIG | DDL_VERIFY_RESIDUE_ABSENT | DDL_LOCK_ACCOUNT
  | DDL_TERMINATE_SESSIONS | DDL_VERIFY_DISCONNECTED | DDL_UNLOCK_ACCOUNT
  | DDL_CONNECT_SELECT_1 | DDL_ADMIN_SELECT_1

type_synonym ddl = "ddl_op \<Rightarrow> resource \<Rightarrow> py_error + bool"

definition ddl_do :: "ddl \<Rightarrow> ddl_op \<Rightarrow> resource \<Rightarrow> py_error + unit" where
  "ddl_do ddl op r = bindE (ddl op r) (\<lambda>_. Inr ())"

definition ddl_check :: "ddl \<Rightarrow> ddl_op \<Rightarrow> string \<Rightarrow> resource \<Rightarrow> py_error + unit" where
  "ddl_check ddl op message r =
     bindE (ddl op r) (\<lambda>ok. if ok then Inr () else Inl (RuntimeError message))"

section \<open>The protocol\<close>

record adapter =
  ad_create :: "metadb \<Rightarrow> resource \<Rightarrow> py_error + resource"
  ad_delete :: "metadb \<Rightarrow> resource \<Rightarrow> py_error + resource"
  ad_verify :: "metadb \<Rightarrow> resource \<Rightarrow> py_error + resource"
  ad_disconnect :: "metadb \<Rightarrow> resource \<Rightarrow> py_error + resource"
  ad_restore :: "metadb \<Rightarrow> resource \<Rightarrow> py_error + unit"

text \<open>The order of the steps, \<open>_NEXT_*_STEP\<close> of \<open>server/core/db_instance_dispatcher.py\<close>.\<close>

fun next_provisioning_step :: "lease_provisioning_step \<Rightarrow> lease_provisioning_step option" where
  "next_provisioning_step PS_PENDING = Some PS_RESOURCE_CONFIG_CREATED"
| "next_provisioning_step PS_RESOURCE_CONFIG_CREATED = Some PS_TENANT_CREATED"
| "next_provisioning_step PS_TENANT_CREATED = Some PS_USER_CREATED"
| "next_provisioning_step PS_USER_CREATED = Some PS_DATABASE_CREATED"
| "next_provisioning_step PS_DATABASE_CREATED = Some PS_GRANTED"
| "next_provisioning_step PS_GRANTED = Some PS_VERIFIED"
| "next_provisioning_step PS_VERIFIED = None"

fun next_cleanup_step :: "lease_cleanup_step \<Rightarrow> lease_cleanup_step option" where
  "next_cleanup_step CS_PENDING = Some CS_DATABASE_DROPPED"
| "next_cleanup_step CS_DATABASE_DROPPED = Some CS_TENANT_DROPPED"
| "next_cleanup_step CS_TENANT_DROPPED = Some CS_RESOURCE_CONFIG_DROPPED"
| "next_cleanup_step CS_RESOURCE_CONFIG_DROPPED = Some CS_RESIDUE_VERIFIED"
| "next_cleanup_step CS_RESIDUE_VERIFIED = None"

fun next_delete_step :: "delete_lifecycle_step \<Rightarrow> delete_lifecycle_step option" where
  "next_delete_step DS_PENDING = Some DS_ACCOUNT_LOCKED"
| "next_delete_step DS_ACCOUNT_LOCKED = Some DS_SESSIONS_TERMINATED"
| "next_delete_step DS_SESSIONS_TERMINATED = Some DS_DISCONNECTED"
| "next_delete_step _ = None"

fun ds_rank :: "delete_lifecycle_step \<Rightarrow> nat" where
  "ds_rank DS_PENDING = 0"
| "ds_rank DS_ACCOUNT_LOCKED = 1"
| "ds_rank DS_SESSIONS_TERMINATED = 2"
| "ds_rank _ = 3"

interpretation provisioning_chain: step_chain next_provisioning_step ps_rank 6
proof
  show "next_provisioning_step s = Some s' \<Longrightarrow> ps_rank s' = Suc (ps_rank s)" for s s'
    by (cases s) auto
  show "ps_rank s \<le> 6" for s by (cases s) auto
qed

interpretation cleanup_chain: step_chain next_cleanup_step cs_rank 4
proof
  show "next_cleanup_step s = Some s' \<Longrightarrow> cs_rank s' = Suc (cs_rank s)" for s s'
    by (cases s) auto
  show "cs_rank s \<le> 4" for s by (cases s) auto
qed

interpretation delete_chain: step_chain next_delete_step ds_rank 3
proof
  show "next_delete_step s = Some s' \<Longrightarrow> ds_rank s' = Suc (ds_rank s)" for s s'
    by (cases s) auto
  show "ds_rank s \<le> 3" for s by (cases s) auto
qed

text \<open>
  What the dispatcher may rely on: a call that returns has moved its own step marker by one
  (or, at the end of a chain, left it), and nothing else of the row.
\<close>

locale provisioning_adapter =
  fixes ad :: adapter
  assumes create_step: "ad_create ad db r = Inr r' \<Longrightarrow>
      (\<exists>s. r' = r\<lparr>r_provisioning_step := s\<rparr> \<and> next_provisioning_step (r_provisioning_step r) = Some s)
      \<or> r' = r \<and> PS_GRANTED \<le> r_provisioning_step r"
    and verify_step: "ad_verify ad db r = Inr r' \<Longrightarrow>
      r' = r\<lparr>r_provisioning_step := PS_VERIFIED\<rparr> \<and> PS_GRANTED \<le> r_provisioning_step r"
    and delete_step: "ad_delete ad db r = Inr r' \<Longrightarrow>
      (\<exists>s. r' = r\<lparr>r_cleanup_step := s\<rparr> \<and> next_cleanup_step (r_cleanup_step r) = Some s)
      \<or> r' = r \<and> r_cleanup_step r = CS_RESIDUE_VERIFIED"
    and disconnect_step: "ad_disconnect ad db r = Inr r' \<Longrightarrow>
      (\<exists>s. r' = r\<lparr>r_delete_step := s\<rparr> \<and> next_delete_step (r_delete_step r) = Some s)
      \<or> r' = r \<and> r_delete_step r \<in> {DS_DISCONNECTED, DS_COOLING_DOWN}"
begin

text \<open>The step the dispatcher is given is always one it accepts.\<close>

lemma create_accepted:
  "ad_create ad db r = Inr r' \<Longrightarrow> r_provisioning_step r < PS_GRANTED \<Longrightarrow>
   next_provisioning_step (r_provisioning_step r) = Some (r_provisioning_step r')"
  by (drule create_step) auto

lemma verify_accepted:
  "ad_verify ad db r = Inr r' \<Longrightarrow> r_provisioning_step r = PS_GRANTED \<Longrightarrow>
   next_provisioning_step (r_provisioning_step r) = Some (r_provisioning_step r')"
  by (drule verify_step) simp

lemma delete_accepted:
  "ad_delete ad db r = Inr r' \<Longrightarrow>
   next_cleanup_step (r_cleanup_step r) = Some (r_cleanup_step r')
   \<or> r_cleanup_step r = CS_RESIDUE_VERIFIED \<and> r_cleanup_step r' = CS_RESIDUE_VERIFIED"
  by (drule delete_step) auto

lemma disconnect_accepted:
  "ad_disconnect ad db r = Inr r' \<Longrightarrow> r_delete_step r \<notin> {DS_DISCONNECTED, DS_COOLING_DOWN} \<Longrightarrow>
   next_delete_step (r_delete_step r) = Some (r_delete_step r')"
  by (drule disconnect_step) auto

end

section \<open>The registry\<close>

type_synonym registry = "((instance_engine \<times> instance_topology) \<times> adapter) list"

definition register :: "registry \<Rightarrow> instance_engine \<Rightarrow> instance_topology \<Rightarrow> adapter \<Rightarrow> py_error + registry" where
  "register reg engine topology ad =
     (if map_of reg (engine, topology) \<noteq> None then Inl (ValueError ''Adapter already registered'')
      else Inr (((engine, topology), ad) # reg))"

definition registry_get :: "registry \<Rightarrow> instance_engine \<Rightarrow> instance_topology \<Rightarrow> py_error + adapter" where
  "registry_get reg engine topology =
     (case map_of reg (engine, topology) of None \<Rightarrow> Inl AdapterNotFound | Some ad \<Rightarrow> Inr ad)"

lemma registry_get_register:
  assumes "register reg e t ad = Inr reg'"
  shows "registry_get reg' e' t' = (if (e', t') = (e, t) then Inr ad else registry_get reg e' t')"
  using assms by (auto simp: register_def registry_get_def split: if_splits)

section \<open>The multitenant adapter\<close>

text \<open>\<open>not s\<close> for a nullable text column.\<close>

definition empty_text :: "string option \<Rightarrow> bool" where
  "empty_text s \<longleftrightarrow> s = None \<or> s = Some []"

text \<open>
  \<open>_context\<close>: backend, instance and administrator credential of the resource, validated. (The
  check \<open>config_revision < 1\<close> of the code never fires: the column has a check constraint.)
\<close>

definition backend_context ::
    "metadb \<Rightarrow> string \<Rightarrow> py_error + (backend \<times> instance_row \<times> credential)" where
  "backend_context db backend_id =
     (case get_backend db backend_id of
        None \<Rightarrow> Inl (RuntimeError ''Provisioning backend is unavailable'')
      | Some b \<Rightarrow>
          (case (Option.bind (b_instance_id b) (get_instance db),
                 Option.bind (b_admin_credential_id b) (\<lambda>i. tget c_id i (credentials db))) of
             (Some i, Some c) \<Rightarrow>
               if c_instance_id c \<noteq> Some (i_id i) \<or> c_resource_id c \<noteq> None
                  \<or> c_purpose c \<noteq> PROVISIONING_ADMIN \<or> c_capability c \<noteq> CC_ADMIN
                  \<or> c_status c \<noteq> CRED_ACTIVE \<or> c_version c < 1
                  \<or> empty_text (c_username_ciphertext c) \<or> empty_text (c_password_ciphertext c)
               then Inl (OtherError ''InvalidProvisioningCredential'')
               else if empty_text (i_host i) \<or> i_port i = None \<or> i_port i = Some 0
               then Inl (OtherError ''InvalidProvisioningCredential'')
               else Inr (b, i, c)
           | _ \<Rightarrow> Inl (RuntimeError ''Provisioning backend is unavailable'')))"

definition access_credentials :: "resource \<Rightarrow> credential list" where
  "access_credentials r = filter (\<lambda>c. c_purpose c = RESOURCE_ACCESS) (r_credentials r)"

definition resource_credential ::
    "(string \<Rightarrow> py_error + string) \<Rightarrow> resource \<Rightarrow> py_error + (string \<times> string)" where
  "resource_credential decrypt r =
     (case access_credentials r of
        [c] \<Rightarrow>
          if c_resource_id c \<noteq> Some (r_id r) \<or> c_instance_id c \<noteq> None
             \<or> c_status c \<noteq> CRED_ACTIVE \<or> c_capability c \<noteq> CC_READWRITE \<or> c_version c < 1
             \<or> empty_text (c_username_ciphertext c) \<or> empty_text (c_password_ciphertext c)
             \<or> c_database_name c \<noteq> r_database_name r
          then Inl (OtherError ''InvalidResourceCredential'')
          else bindE (decrypt (the (c_username_ciphertext c))) (\<lambda>u.
               bindE (decrypt (the (c_password_ciphertext c))) (\<lambda>p. Inr (u, p)))
      | _ \<Rightarrow> Inl (OtherError ''InvalidResourceCredential''))"

definition cleanup_account_name :: "resource \<Rightarrow> py_error + string" where
  "cleanup_account_name r =
     (case (r_tenant_name r, r_database_name r, r_resource_config_name r) of
        (Some tenant, Some database, Some config) \<Rightarrow>
          if tenant = [] \<or> database \<noteq> ''agentic@'' @ tenant \<or> config \<noteq> ''rc_'' @ tenant
          then Inl (OtherError ''InvalidResourceIdentity'') else Inr database
      | _ \<Rightarrow> Inl (OtherError ''InvalidResourceIdentity''))"

definition forward_ddl ::
    "(string \<Rightarrow> py_error + string) \<Rightarrow> metadb \<Rightarrow> resource \<Rightarrow> py_error + (backend \<times> instance_row \<times> credential)" where
  "forward_ddl decrypt db r =
     bindE (backend_context db (r_backend_id r)) (\<lambda>ctx.
     bindE (resource_credential decrypt r) (\<lambda>_. Inr ctx))"

definition cleanup_ddl :: "metadb \<Rightarrow> resource \<Rightarrow> py_error + unit" where
  "cleanup_ddl db r =
     bindE (backend_context db (r_backend_id r)) (\<lambda>_.
     bindE (cleanup_account_name r) (\<lambda>_. Inr ()))"

definition mt_create ::
    "ddl \<Rightarrow> (string \<Rightarrow> py_error + string) \<Rightarrow> metadb \<Rightarrow> resource \<Rightarrow> py_error + resource" where
  "mt_create ddl decrypt db r =
     bindE (forward_ddl decrypt db r) (\<lambda>_.
       case r_provisioning_step r of
         PS_PENDING \<Rightarrow> bindE (ddl_do ddl DDL_CREATE_RESOURCE_CONFIG r)
           (\<lambda>_. Inr (r\<lparr>r_provisioning_step := PS_RESOURCE_CONFIG_CREATED\<rparr>))
       | PS_RESOURCE_CONFIG_CREATED \<Rightarrow> bindE (ddl_do ddl DDL_CREATE_TENANT r)
           (\<lambda>_. Inr (r\<lparr>r_provisioning_step := PS_TENANT_CREATED\<rparr>))
       | PS_TENANT_CREATED \<Rightarrow> bindE (ddl_do ddl DDL_CREATE_USER r)
           (\<lambda>_. Inr (r\<lparr>r_provisioning_step := PS_USER_CREATED\<rparr>))
       | PS_USER_CREATED \<Rightarrow> bindE (ddl_do ddl DDL_CREATE_DATABASE r)
           (\<lambda>_. Inr (r\<lparr>r_provisioning_step := PS_DATABASE_CREATED\<rparr>))
       | PS_DATABASE_CREATED \<Rightarrow> bindE (ddl_do ddl DDL_GRANT_PRIVILEGES r)
           (\<lambda>_. Inr (r\<lparr>r_provisioning_step := PS_GRANTED\<rparr>))
       | PS_GRANTED \<Rightarrow> Inr r
       | PS_VERIFIED \<Rightarrow> Inr r)"

definition mt_verify ::
    "ddl \<Rightarrow> (string \<Rightarrow> py_error + string) \<Rightarrow> metadb \<Rightarrow> resource \<Rightarrow> py_error + resource" where
  "mt_verify ddl decrypt db r =
     (if r_provisioning_step r = PS_VERIFIED then Inr r
      else if r_provisioning_step r \<noteq> PS_GRANTED
      then Inl (RuntimeError ''Database resource has not completed DDL'')
      else bindE (forward_ddl decrypt db r) (\<lambda>(b, i, c).
           bindE (resource_credential decrypt r) (\<lambda>_.
             if empty_text (i_host i) \<or> i_port i = None \<or> i_port i = Some 0
             then Inl (RuntimeError ''Provisioning backend endpoint is incomplete'')
             else if empty_text (r_database_name r)
             then Inl (RuntimeError ''Database resource name is unavailable'')
             else bindE (ddl_check ddl DDL_CONNECT_SELECT_1
                    ''Unexpected ordinary-account verification result'' r)
               (\<lambda>_. Inr (r\<lparr>r_provisioning_step := PS_VERIFIED\<rparr>)))))"

definition mt_delete :: "ddl \<Rightarrow> metadb \<Rightarrow> resource \<Rightarrow> py_error + resource" where
  "mt_delete ddl db r =
     bindE (cleanup_ddl db r) (\<lambda>_.
       case r_cleanup_step r of
         CS_PENDING \<Rightarrow> bindE (ddl_do ddl DDL_PREPARE_CLEANUP r) (\<lambda>_.
           bindE (ddl_do ddl DDL_DROP_DATABASE r)
             (\<lambda>_. Inr (r\<lparr>r_cleanup_step := CS_DATABASE_DROPPED\<rparr>)))
       | CS_DATABASE_DROPPED \<Rightarrow> bindE (ddl_do ddl DDL_DROP_TENANT r)
           (\<lambda>_. Inr (r\<lparr>r_cleanup_step := CS_TENANT_DROPPED\<rparr>))
       | CS_TENANT_DROPPED \<Rightarrow> bindE (ddl_do ddl DDL_DROP_RESOURCE_CONFIG r)
           (\<lambda>_. Inr (r\<lparr>r_cleanup_step := CS_RESOURCE_CONFIG_DROPPED\<rparr>))
       | CS_RESOURCE_CONFIG_DROPPED \<Rightarrow>
           bindE (ddl_check ddl DDL_VERIFY_RESIDUE_ABSENT ''Database objects remain after cleanup'' r)
             (\<lambda>_. Inr (r\<lparr>r_cleanup_step := CS_RESIDUE_VERIFIED\<rparr>))
       | CS_RESIDUE_VERIFIED \<Rightarrow> Inr r)"

definition mt_disconnect :: "ddl \<Rightarrow> metadb \<Rightarrow> resource \<Rightarrow> py_error + resource" where
  "mt_disconnect ddl db r =
     bindE (cleanup_ddl db r) (\<lambda>_.
       case r_delete_step r of
         DS_PENDING \<Rightarrow> bindE (ddl_do ddl DDL_LOCK_ACCOUNT r)
           (\<lambda>_. Inr (r\<lparr>r_delete_step := DS_ACCOUNT_LOCKED\<rparr>))
       | DS_ACCOUNT_LOCKED \<Rightarrow> bindE (ddl_do ddl DDL_TERMINATE_SESSIONS r)
           (\<lambda>_. Inr (r\<lparr>r_delete_step := DS_SESSIONS_TERMINATED\<rparr>))
       | DS_SESSIONS_TERMINATED \<Rightarrow>
           bindE (ddl_check ddl DDL_VERIFY_DISCONNECTED ''Database sessions remain connected'' r)
             (\<lambda>_. Inr (r\<lparr>r_delete_step := DS_DISCONNECTED\<rparr>))
       | DS_DISCONNECTED \<Rightarrow> Inr r
       | DS_COOLING_DOWN \<Rightarrow> Inr r
       | _ \<Rightarrow> Inl (RuntimeError ''Unsupported disconnect step''))"

definition mt_restore ::
    "ddl \<Rightarrow> (string \<Rightarrow> py_error + string) \<Rightarrow> metadb \<Rightarrow> resource \<Rightarrow> py_error + unit" where
  "mt_restore ddl decrypt db r =
     bindE (backend_context db (r_backend_id r)) (\<lambda>(b, i, admin).
       case access_credentials r of
         [c] \<Rightarrow>
           if empty_text (c_username_ciphertext c) \<or> empty_text (c_password_ciphertext c)
              \<or> c_database_name c \<noteq> r_database_name r
           then Inl (OtherError ''InvalidResourceCredential'')
           else bindE (decrypt (the (c_username_ciphertext c))) (\<lambda>_.
                bindE (decrypt (the (c_password_ciphertext c))) (\<lambda>_.
                bindE (ddl_do ddl DDL_UNLOCK_ACCOUNT r) (\<lambda>_.
                bindE (ddl_do ddl DDL_GRANT_PRIVILEGES r) (\<lambda>_.
                  if empty_text (i_host i) \<or> i_port i = None \<or> i_port i = Some 0
                  then Inl (RuntimeError ''Provisioning backend endpoint is incomplete'')
                  else ddl_check ddl DDL_CONNECT_SELECT_1
                         ''Unexpected restore verification result'' r))))
       | _ \<Rightarrow> Inl (OtherError ''InvalidResourceCredential''))"

text \<open>\<open>HealthResult\<close>: healthy, or the name of the error that says it is not.\<close>

definition mt_health_check :: "(backend \<Rightarrow> py_error + bool) \<Rightarrow> metadb \<Rightarrow> backend \<Rightarrow> bool \<times> string option" where
  "mt_health_check admin_select db b =
     (case bindE (backend_context db (b_id b)) (\<lambda>(b, i, c).
             bindE (admin_select b) (\<lambda>ok.
               if ok then Inr () else Inl (RuntimeError ''Unexpected health query result''))) of
        Inl e \<Rightarrow> (False, Some (type_name e))
      | Inr _ \<Rightarrow> (True, None))"

definition multitenant_adapter :: "ddl \<Rightarrow> (string \<Rightarrow> py_error + string) \<Rightarrow> adapter" where
  "multitenant_adapter ddl decrypt =
     \<lparr>ad_create = mt_create ddl decrypt, ad_delete = mt_delete ddl,
      ad_verify = mt_verify ddl decrypt, ad_disconnect = mt_disconnect ddl,
      ad_restore = mt_restore ddl decrypt\<rparr>"

lemma ps_order [simp]:
  "PS_GRANTED \<le> PS_VERIFIED" "PS_GRANTED \<le> PS_GRANTED" "s < PS_GRANTED \<longleftrightarrow> ps_rank s < 5"
  by (simp_all add: less_eq_lease_provisioning_step_def less_lease_provisioning_step_def)

interpretation mt: provisioning_adapter "multitenant_adapter ddl decrypt"
  by unfold_locales
    (auto simp: multitenant_adapter_def mt_create_def mt_verify_def mt_delete_def mt_disconnect_def
      bindE_Inr split: lease_provisioning_step.splits lease_cleanup_step.splits
      delete_lifecycle_step.splits if_splits)

text \<open>A resource whose names and credential are as the resource service writes them.\<close>

definition resource_ready_for_ddl :: "(string \<Rightarrow> py_error + string) \<Rightarrow> metadb \<Rightarrow> resource \<Rightarrow> bool" where
  "resource_ready_for_ddl decrypt db r \<longleftrightarrow>
     (\<exists>ctx. forward_ddl decrypt db r = Inr ctx) \<and> \<not> empty_text (r_database_name r)"

text \<open>The operation that the marker of a step is evidence of.\<close>

fun forward_op :: "lease_provisioning_step \<Rightarrow> ddl_op" where
  "forward_op PS_PENDING = DDL_CREATE_RESOURCE_CONFIG"
| "forward_op PS_RESOURCE_CONFIG_CREATED = DDL_CREATE_TENANT"
| "forward_op PS_TENANT_CREATED = DDL_CREATE_USER"
| "forward_op PS_USER_CREATED = DDL_CREATE_DATABASE"
| "forward_op _ = DDL_GRANT_PRIVILEGES"

fun cleanup_op :: "lease_cleanup_step \<Rightarrow> ddl_op" where
  "cleanup_op CS_PENDING = DDL_DROP_DATABASE"
| "cleanup_op CS_DATABASE_DROPPED = DDL_DROP_TENANT"
| "cleanup_op CS_TENANT_DROPPED = DDL_DROP_RESOURCE_CONFIG"
| "cleanup_op _ = DDL_VERIFY_RESIDUE_ABSENT"

lemma ddl_do_Inr: "ddl_do ddl op r = Inr u \<longleftrightarrow> (\<exists>ok. ddl op r = Inr ok)"
  by (auto simp: ddl_do_def bindE_Inr)

lemma ddl_check_Inr: "ddl_check ddl op msg r = Inr u \<longleftrightarrow> ddl op r = Inr True"
  by (auto simp: ddl_check_def bindE_Inr split: if_splits)

lemma mt_create_evidence:
  assumes "mt_create ddl decrypt db r = Inr r'" and "r_provisioning_step r < PS_GRANTED"
  shows "r' = r\<lparr>r_provisioning_step := r_provisioning_step r'\<rparr>
    \<and> next_provisioning_step (r_provisioning_step r) = Some (r_provisioning_step r')
    \<and> (\<exists>ok. ddl (forward_op (r_provisioning_step r)) r = Inr ok)"
  using assms
  by (cases "r_provisioning_step r") (auto simp: mt_create_def bindE_Inr ddl_do_Inr)

lemma mt_verify_evidence:
  assumes "mt_verify ddl decrypt db r = Inr r'" and "r_provisioning_step r \<noteq> PS_VERIFIED"
  shows "r' = r\<lparr>r_provisioning_step := PS_VERIFIED\<rparr> \<and> r_provisioning_step r = PS_GRANTED
    \<and> ddl DDL_CONNECT_SELECT_1 r = Inr True"
  using assms by (auto simp: mt_verify_def bindE_Inr ddl_check_Inr split: if_splits)

lemma mt_delete_evidence:
  assumes "mt_delete ddl db r = Inr r'" and "r_cleanup_step r \<noteq> CS_RESIDUE_VERIFIED"
  shows "r' = r\<lparr>r_cleanup_step := r_cleanup_step r'\<rparr>
    \<and> next_cleanup_step (r_cleanup_step r) = Some (r_cleanup_step r')
    \<and> (\<exists>ok. ddl (cleanup_op (r_cleanup_step r)) r = Inr ok
         \<and> (r_cleanup_step r' = CS_RESIDUE_VERIFIED \<longrightarrow> ok))"
  using assms
  by (cases "r_cleanup_step r") (auto simp: mt_delete_def bindE_Inr ddl_do_Inr ddl_check_Inr)

text \<open>the step marker of a resource is evidence. When the multitenant adapter moves a
  provisioning or cleanup marker, it moves it forward by exactly one step, changes nothing else
  of the row, and the remote server has accepted the operation of that step; the last marker of
  each chain is set only on a positive verification (an ordinary login that answers, no residue
  left).\<close>

theorem mt_adapter_markers_are_evidence:
  "(\<forall>r'. mt_create ddl decrypt db r = Inr r' \<and> r_provisioning_step r < PS_GRANTED \<longrightarrow>
      r' = r\<lparr>r_provisioning_step := r_provisioning_step r'\<rparr>
      \<and> next_provisioning_step (r_provisioning_step r) = Some (r_provisioning_step r')
      \<and> (\<exists>ok. ddl (forward_op (r_provisioning_step r)) r = Inr ok))
   \<and> (\<forall>r'. mt_verify ddl decrypt db r = Inr r' \<and> r_provisioning_step r \<noteq> PS_VERIFIED \<longrightarrow>
      r' = r\<lparr>r_provisioning_step := PS_VERIFIED\<rparr> \<and> r_provisioning_step r = PS_GRANTED
      \<and> ddl DDL_CONNECT_SELECT_1 r = Inr True)
   \<and> (\<forall>r'. mt_delete ddl db r = Inr r' \<and> r_cleanup_step r \<noteq> CS_RESIDUE_VERIFIED \<longrightarrow>
      r' = r\<lparr>r_cleanup_step := r_cleanup_step r'\<rparr>
      \<and> next_cleanup_step (r_cleanup_step r) = Some (r_cleanup_step r')
      \<and> (\<exists>ok. ddl (cleanup_op (r_cleanup_step r)) r = Inr ok
           \<and> (r_cleanup_step r' = CS_RESIDUE_VERIFIED \<longrightarrow> ok)))"
  by (intro conjI allI impI; elim conjE;
      drule (1) mt_create_evidence mt_verify_evidence mt_delete_evidence; simp)

definition example_resource :: resource where
  "example_resource = build_resource example_draws 0 ''ag'' ''be'' ''t'' ''fp'' None POLARDB_MYSQL
     MODE_MULTITENANT"

lemma example_context:
  "backend_context example_db ''be'' =
     Inr (hd (backends example_db), hd (instances example_db), hd (credentials example_db))"
  by (simp add: backend_context_def example_defs empty_text_def)

lemma example_forward_ddl:
  "forward_ddl Inr (example_db\<lparr>resources := rs, capacities := cs\<rparr>)
     (example_resource\<lparr>r_provisioning_step := s, r_worker_id := w, r_worker_lease_until := l\<rparr>) =
     Inr (hd (backends example_db), hd (instances example_db), hd (credentials example_db))"
  by (simp add: forward_ddl_def backend_context_def example_defs empty_text_def example_resource_def
      build_resource_def new_resource_def resource_credential_def access_credentials_def
      new_database_identity_def example_draws_def Let_def)

theorem mt_adapter_markers_are_evidence_witness:
  "mt_create (\<lambda>_ _. Inr True) Inr example_db example_resource =
     Inr (example_resource\<lparr>r_provisioning_step := PS_RESOURCE_CONFIG_CREATED\<rparr>)
   \<and> next_provisioning_step (r_provisioning_step example_resource) = Some PS_RESOURCE_CONFIG_CREATED"
proof -
  have s: "r_provisioning_step example_resource = PS_PENDING"
    by (simp add: example_resource_def build_resource_def new_resource_def Let_def)
  have c: "mt_create (\<lambda>_ _. Inr True) Inr example_db example_resource =
     Inr (example_resource\<lparr>r_provisioning_step := PS_RESOURCE_CONFIG_CREATED\<rparr>)"
    by (simp add: mt_create_def s ddl_do_def forward_ddl_def backend_context_def example_defs
        empty_text_def resource_credential_def access_credentials_def)
      (simp add: example_resource_def build_resource_def new_resource_def
        new_database_identity_def example_draws_def Let_def empty_text_def)
  moreover have "r_provisioning_step example_resource < PS_GRANTED" by (simp add: s)
  ultimately show ?thesis
    using mt_adapter_markers_are_evidence [of "\<lambda>_ _. Inr True" Inr example_db example_resource]
    by fastforce
qed

end
