(* ===== verification/Dispatcher.thy ===== *)
theory Dispatcher
  imports Adapter
begin

text \<open>
  The dispatcher of multitenant resources: claiming (\<open>server/core/db_instance_worker.py\<close>) and
  the lifecycle loop (\<open>server/core/db_instance_dispatcher.py\<close>).

  A worker claims one due resource and then runs its lifecycle a step at a time. Each iteration
  of the loop reads the row, calls the adapter outside any transaction, and records the result
  in a transaction of its own, which first checks that the claim and the expected step are
  still there. Between the read and the write other sessions commit: the interference
  \<open>dx_env\<close>, which also contains the worker's own heartbeat. \<open>dx_clock\<close> and \<open>dx_registry\<close>
  give the clock and the adapters' behaviour at each point of the loop.
\<close>

section \<open>Claims\<close>

record dispatcher =
  dx_config :: tenant_provisioning_config
  dx_worker :: string
  dx_registry :: "nat \<Rightarrow> registry"
  dx_clock :: "nat \<Rightarrow> time"
  dx_env :: "nat \<Rightarrow> metadb \<Rightarrow> metadb"

definition due_status :: "time \<Rightarrow> resource \<Rightarrow> bool" where
  "due_status now r \<longleftrightarrow>
     r_status r \<in> {ST_CREATING, ST_DELETING, ST_RESTORING}
   \<or> r_status r = ST_COOLING_DOWN \<and> (case r_cooldown_until r of None \<Rightarrow> False | Some t \<Rightarrow> t \<le> now)
   \<or> r_status r = ST_FAILED \<and> r_cleanup_required r"

definition claimable_resource :: "time \<Rightarrow> resource \<Rightarrow> bool" where
  "claimable_resource now r \<longleftrightarrow>
     due_status now r \<and> r_mode r \<noteq> MODE_DEDICATED \<and> retry_due (r_next_retry_at r) now
   \<and> lease_available (r_worker_id r) (r_worker_lease_until r) now"

definition set_resource_claim :: "string option \<Rightarrow> time option \<Rightarrow> resource \<Rightarrow> resource" where
  "set_resource_claim w l r = r\<lparr>r_worker_id := w, r_worker_lease_until := l\<rparr>"

definition claim_one ::
    "tenant_provisioning_config \<Rightarrow> string \<Rightarrow> time \<Rightarrow> metadb \<Rightarrow> string option \<times> metadb" where
  "claim_one cfg worker now db =
     (case first_by (\<lambda>r. (r_created_at r, r_id r))
             (filter (claimable_resource now) (resources db)) of
        None \<Rightarrow> (None, db)
      | Some r \<Rightarrow>
          (Some (r_id r),
           put_resource (r_id r)
             (set_resource_claim (Some worker)
               (Some (now + seconds (cfg_worker_claim_ttl_seconds cfg)))) db))"

definition renew_claim ::
    "tenant_provisioning_config \<Rightarrow> string \<Rightarrow> time \<Rightarrow> string \<Rightarrow> metadb \<Rightarrow> bool \<times> metadb" where
  "renew_claim cfg worker now rid db =
     (case get_resource db rid of
        None \<Rightarrow> (False, db)
      | Some r \<Rightarrow>
          if r_worker_id r \<noteq> Some worker then (False, db)
          else (True, put_resource rid
                  (\<lambda>r. r\<lparr>r_worker_lease_until :=
                         Some (now + seconds (cfg_worker_claim_ttl_seconds cfg))\<rparr>) db))"

text \<open>\<open>2 ** (retry_count - 1)\<close>; the callers have just incremented \<open>retry_count\<close>.\<close>

definition backoff :: "tenant_provisioning_config \<Rightarrow> int \<Rightarrow> int" where
  "backoff cfg retry_count =
     seconds (min (cfg_worker_initial_backoff_seconds cfg * 2 ^ nat (retry_count - 1))
                  (cfg_worker_max_backoff_seconds cfg))"

section \<open>Transactions of the loop\<close>

definition clear_claim :: "resource \<Rightarrow> resource" where
  "clear_claim r = r\<lparr>r_worker_id := None, r_worker_lease_until := None\<rparr>"

definition owns_claim :: "string \<Rightarrow> resource \<Rightarrow> bool" where
  "owns_claim worker r \<longleftrightarrow> r_worker_id r = Some worker"

definition needs_cleanup :: "resource \<Rightarrow> bool" where
  "needs_cleanup r \<longleftrightarrow>
     r_status r = ST_DELETING \<and> r_delete_step r = DS_LOGICAL_CLEANUP
   \<or> r_status r = ST_FAILED \<and> r_cleanup_required r"

definition reset_retries :: "resource \<Rightarrow> resource" where
  "reset_retries r = r\<lparr>r_retry_count := 0, r_next_retry_at := None, r_failure_reason := None\<rparr>"

definition load_claimed ::
    "string \<Rightarrow> string \<Rightarrow> metadb \<Rightarrow> (resource \<times> backend option \<times> instance_row option) option" where
  "load_claimed worker rid db =
     (case get_resource db rid of
        None \<Rightarrow> None
      | Some r \<Rightarrow>
          if \<not> owns_claim worker r then None
          else let b = get_backend db (r_backend_id r)
               in Some (r, b, Option.bind b (\<lambda>b. Option.bind (b_instance_id b) (get_instance db))))"

definition persist_disconnect_result ::
    "string \<Rightarrow> time \<Rightarrow> string \<Rightarrow> delete_lifecycle_step \<Rightarrow> delete_lifecycle_step \<Rightarrow> metadb
     \<Rightarrow> py_error + (bool \<times> metadb)" where
  "persist_disconnect_result worker now rid expected_step new_step db =
     (if Some new_step \<noteq> next_delete_step expected_step
      then Inl (RuntimeError ''Adapter returned an invalid disconnect step'')
      else case get_resource db rid of
        None \<Rightarrow> Inr (False, db)
      | Some r \<Rightarrow>
          if \<not> owns_claim worker r \<or> r_status r \<noteq> ST_DELETING \<or> r_delete_step r \<noteq> expected_step
          then Inr (False, db)
          else if new_step = DS_DISCONNECTED then
            (case r_cooldown_hours r of
               None \<Rightarrow> Inl (RuntimeError ''Delete cooldown is unavailable'')
             | Some duration \<Rightarrow>
                 Inr (False, put_resource rid (\<lambda>r. clear_claim ((reset_retries r)
                   \<lparr>r_disconnected_at := Some now, r_cooldown_until := Some (now + hours duration),
                    r_delete_step := DS_COOLING_DOWN, r_status := ST_COOLING_DOWN\<rparr>)) db))
          else Inr (True, put_resource rid (\<lambda>r. (reset_retries r)\<lparr>r_delete_step := new_step\<rparr>) db))"

definition begin_cleanup :: "string \<Rightarrow> time \<Rightarrow> string \<Rightarrow> metadb \<Rightarrow> bool \<times> metadb" where
  "begin_cleanup worker now rid db =
     (case get_resource db rid of
        None \<Rightarrow> (False, db)
      | Some r \<Rightarrow>
          (case r_cooldown_until r of
             None \<Rightarrow> (False, db)
           | Some cooldown_until \<Rightarrow>
               if \<not> owns_claim worker r \<or> r_status r \<noteq> ST_COOLING_DOWN
                  \<or> r_delete_step r \<noteq> DS_COOLING_DOWN \<or> r_disconnected_at r = None
               then (False, db)
               else if cooldown_until > now then (False, put_resource rid clear_claim db)
               else (True, put_resource rid
                      (\<lambda>r. r\<lparr>r_status := ST_DELETING, r_delete_step := DS_LOGICAL_CLEANUP,
                             r_cleanup_required := True\<rparr>) db)))"

definition activate_access :: "credential \<Rightarrow> credential" where
  "activate_access c = (if c_purpose c = RESOURCE_ACCESS then c\<lparr>c_status := CRED_ACTIVE\<rparr> else c)"

definition restored_row :: "resource \<Rightarrow> resource" where
  "restored_row r =
     clear_claim ((reset_retries r)\<lparr>r_credentials := map activate_access (r_credentials r),
       r_status := ST_READY, r_cleanup_required := False, r_delete_step := DS_PENDING,
       r_delete_requested_at := None, r_disconnected_at := None, r_cooldown_until := None,
       r_restore_source_status := None, r_restore_failure_reason := None\<rparr>)"

definition finish_restore :: "string \<Rightarrow> string \<Rightarrow> metadb \<Rightarrow> metadb" where
  "finish_restore worker rid db =
     (case get_resource db rid of
        None \<Rightarrow> db
      | Some r \<Rightarrow>
          if \<not> owns_claim worker r \<or> r_status r \<noteq> ST_RESTORING then db
          else put_resource rid restored_row db)"

text \<open>The bookkeeping of a failed step: one more retry, and its time, or the end of the line.\<close>

definition retry_later ::
    "tenant_provisioning_config \<Rightarrow> time \<Rightarrow> string \<Rightarrow> (resource \<Rightarrow> resource) \<Rightarrow> resource \<Rightarrow> resource" where
  "retry_later cfg now reason give_up r =
     (let r1 = r\<lparr>r_retry_count := r_retry_count r + 1, r_failure_reason := Some reason\<rparr>
      in clear_claim
           (if r_retry_count r1 > cfg_worker_max_retries cfg
            then give_up (r1\<lparr>r_next_retry_at := None\<rparr>)
            else r1\<lparr>r_next_retry_at := Some (now + backoff cfg (r_retry_count r1))\<rparr>))"

definition record_disconnect_failure ::
    "tenant_provisioning_config \<Rightarrow> string \<Rightarrow> time \<Rightarrow> string \<Rightarrow> py_error \<Rightarrow> delete_lifecycle_step
     \<Rightarrow> metadb \<Rightarrow> metadb" where
  "record_disconnect_failure cfg worker now rid error expected_step db =
     (case get_resource db rid of
        None \<Rightarrow> db
      | Some r \<Rightarrow>
          if \<not> owns_claim worker r \<or> r_status r \<noteq> ST_DELETING \<or> r_delete_step r \<noteq> expected_step
          then db
          else put_resource rid
                 (retry_later cfg now (''Disconnect step failed with '' @ type_name error)
                   (\<lambda>r. r\<lparr>r_status := ST_DELETE_FAILED\<rparr>)) db)"

definition record_restore_failure :: "string \<Rightarrow> string \<Rightarrow> py_error \<Rightarrow> metadb \<Rightarrow> metadb" where
  "record_restore_failure worker rid error db =
     (case get_resource db rid of
        None \<Rightarrow> db
      | Some r \<Rightarrow>
          if \<not> owns_claim worker r \<or> r_status r \<noteq> ST_RESTORING then db
          else put_resource rid (\<lambda>r. clear_claim (r
                 \<lparr>r_restore_failure_reason :=
                    Some (''Restore verification failed with '' @ type_name error),
                  r_status := (if r_restore_source_status r = Some ST_COOLING_DOWN
                               then ST_COOLING_DOWN else ST_DELETE_FAILED)\<rparr>)) db)"

definition backend_disabled_row :: "resource \<Rightarrow> resource" where
  "backend_disabled_row r =
     clear_claim (r\<lparr>r_status := ST_FAILED, r_cleanup_required := True,
       r_failure_reason := Some ''Provisioning backend is disabled'', r_retry_count := 0,
       r_next_retry_at := None\<rparr>)"

definition queue_disabled :: "string \<Rightarrow> string \<Rightarrow> metadb \<Rightarrow> metadb" where
  "queue_disabled worker rid db =
     (case get_resource db rid of
        None \<Rightarrow> db
      | Some r \<Rightarrow>
          if \<not> owns_claim worker r \<or> r_status r \<noteq> ST_CREATING then db
          else (case get_backend db (r_backend_id r) of
                  None \<Rightarrow> db
                | Some b \<Rightarrow>
                    if b_status b \<noteq> BS_DISABLED then db
                    else put_resource rid backend_disabled_row db))"

definition persist_forward_result ::
    "string \<Rightarrow> string \<Rightarrow> lease_provisioning_step \<Rightarrow> lease_provisioning_step \<Rightarrow> metadb
     \<Rightarrow> py_error + (bool \<times> metadb)" where
  "persist_forward_result worker rid expected_step new_step db =
     (if Some new_step \<noteq> next_provisioning_step expected_step
      then Inl (RuntimeError ''Adapter returned an invalid provisioning step'')
      else case get_resource db rid of
        None \<Rightarrow> Inr (False, db)
      | Some r \<Rightarrow>
          if \<not> owns_claim worker r then Inr (False, db)
          else if r_status r = ST_DELETING then Inr (False, put_resource rid clear_claim db)
          else if r_status r \<noteq> ST_CREATING \<or> r_provisioning_step r \<noteq> expected_step
          then Inr (False, put_resource rid clear_claim db)
          else (case get_backend db (r_backend_id r) of
                  None \<Rightarrow> Inl (RuntimeError ''Provisioning backend is unavailable'')
                | Some b \<Rightarrow>
                    if b_status b = BS_DISABLED
                    then Inr (False, put_resource rid backend_disabled_row db)
                    else Inr (True, put_resource rid
                           (\<lambda>r. (reset_retries r)\<lparr>r_provisioning_step := new_step\<rparr>) db)))"

definition ready_row :: "resource \<Rightarrow> resource" where
  "ready_row r =
     clear_claim ((reset_retries r)\<lparr>r_status := ST_READY, r_cleanup_required := False\<rparr>)"

definition finish_ready :: "string \<Rightarrow> string \<Rightarrow> metadb \<Rightarrow> metadb" where
  "finish_ready worker rid db =
     (case get_resource db rid of
        None \<Rightarrow> db
      | Some r \<Rightarrow>
          if \<not> owns_claim worker r \<or> r_status r \<noteq> ST_CREATING \<or> r_provisioning_step r \<noteq> PS_VERIFIED
          then db
          else put_resource rid
                 (case get_backend db (r_backend_id r) of
                    None \<Rightarrow> backend_disabled_row
                  | Some b \<Rightarrow> if b_status b = BS_DISABLED then backend_disabled_row else ready_row) db)"

text \<open>
  Giving back the capacity of a cleaned-up resource: both counter rows must be there and
  positive. (The dispatcher reads the rows itself instead of calling
  \<open>release_active_capacity_counters\<close>.)
\<close>

definition release_on_cleanup :: "string \<Rightarrow> string \<Rightarrow> metadb \<Rightarrow> py_error + metadb" where
  "release_on_cleanup agent_id backend_id db =
     (case (tget cap_key (''agent'', agent_id) (capacities db),
            tget cap_key (''backend'', backend_id) (capacities db)) of
        (Some ca, Some cb) \<Rightarrow>
          if cap_active_count ca \<le> 0 \<or> cap_active_count cb \<le> 0
          then Inl (CapacityAccountingError ''Provisioning capacity counters are inconsistent'')
          else Inr (add_active_count ''backend'' backend_id (-1)
                     (add_active_count ''agent'' agent_id (-1) db))
      | _ \<Rightarrow> Inl (CapacityAccountingError ''Provisioning capacity rows are unavailable''))"

definition wipe_access :: "string \<Rightarrow> credential \<Rightarrow> credential" where
  "wipe_access rid c =
     (if c_resource_id c = Some rid \<and> c_purpose c = RESOURCE_ACCESS
      then c\<lparr>c_status := CRED_REVOKED, c_username_ciphertext := None, c_password_ciphertext := None\<rparr>
      else c)"

definition cleaned_row :: "time \<Rightarrow> resource \<Rightarrow> resource" where
  "cleaned_row now r =
     clear_claim ((reset_retries r)
       \<lparr>r_capacity_released_at :=
          (case r_capacity_released_at r of None \<Rightarrow> Some now | Some t \<Rightarrow> Some t),
        r_credentials := map (wipe_access (r_id r)) (r_credentials r),
        r_cleanup_required := False, r_cleanup_step := CS_RESIDUE_VERIFIED,
        r_status := (if r_status r = ST_DELETING then ST_DELETED else r_status r),
        r_delete_step := (if r_status r = ST_DELETING then DS_COMPLETE else r_delete_step r)\<rparr>)"

definition finish_cleanup_locked :: "time \<Rightarrow> resource \<Rightarrow> metadb \<Rightarrow> py_error + metadb" where
  "finish_cleanup_locked now r db =
     bindE (if r_capacity_released_at r = None
            then release_on_cleanup (r_owner_agent_id r) (r_backend_id r) db else Inr db)
       (\<lambda>db1. Inr (put_resource (r_id r) (cleaned_row now) db1))"

definition persist_cleanup_result ::
    "string \<Rightarrow> time \<Rightarrow> string \<Rightarrow> db_instance_status \<Rightarrow> lease_cleanup_step \<Rightarrow> lease_cleanup_step
     \<Rightarrow> metadb \<Rightarrow> py_error + (bool \<times> metadb)" where
  "persist_cleanup_result worker now rid expected_status expected_step new_step db =
     (if Some new_step \<noteq> next_cleanup_step expected_step
         \<and> \<not> (expected_step = CS_RESIDUE_VERIFIED \<and> new_step = CS_RESIDUE_VERIFIED)
      then Inl (RuntimeError ''Adapter returned an invalid cleanup step'')
      else case get_resource db rid of
        None \<Rightarrow> Inr (False, db)
      | Some r \<Rightarrow>
          if \<not> owns_claim worker r \<or> r_status r \<noteq> expected_status
             \<or> r_cleanup_step r \<noteq> expected_step \<or> \<not> needs_cleanup r
          then Inr (False, db)
          else if new_step = CS_RESIDUE_VERIFIED
          then bindE (finish_cleanup_locked now r db) (\<lambda>db1. Inr (False, db1))
          else Inr (True, put_resource rid (\<lambda>r. (reset_retries r)\<lparr>r_cleanup_step := new_step\<rparr>) db))"

definition release_claim :: "string \<Rightarrow> string \<Rightarrow> metadb \<Rightarrow> metadb" where
  "release_claim worker rid db =
     (case get_resource db rid of
        None \<Rightarrow> db
      | Some r \<Rightarrow> if owns_claim worker r then put_resource rid clear_claim db else db)"

datatype phase = FORWARD | CLEANUP

definition give_up :: "phase \<Rightarrow> resource \<Rightarrow> resource" where
  "give_up ph r =
     (case ph of
        CLEANUP \<Rightarrow> r\<lparr>r_status := ST_DELETE_FAILED\<rparr>
      | FORWARD \<Rightarrow> r\<lparr>r_status := ST_FAILED, r_cleanup_required := True, r_retry_count := 0\<rparr>)"

definition record_failure ::
    "tenant_provisioning_config \<Rightarrow> string \<Rightarrow> time \<Rightarrow> string \<Rightarrow> py_error \<Rightarrow> phase \<Rightarrow> db_instance_status
     \<Rightarrow> lease_provisioning_step \<Rightarrow> lease_cleanup_step \<Rightarrow> metadb \<Rightarrow> metadb" where
  "record_failure cfg worker now rid error ph expected_status expected_forward expected_cleanup db =
     (case get_resource db rid of
        None \<Rightarrow> db
      | Some r \<Rightarrow>
          if \<not> owns_claim worker r then db
          else if ph = FORWARD \<and> r_status r = ST_DELETING
          then put_resource rid (\<lambda>r. clear_claim (r\<lparr>r_cleanup_required := True, r_retry_count := 0,
                 r_next_retry_at := None,
                 r_failure_reason := Some (''Provisioning step failed with '' @ type_name error)\<rparr>)) db
          else if ph = FORWARD \<and> (r_status r \<noteq> expected_status \<or> r_status r \<noteq> ST_CREATING
                    \<or> r_provisioning_step r \<noteq> expected_forward)
               \<or> ph = CLEANUP \<and> (r_status r \<noteq> expected_status
                    \<or> r_cleanup_step r \<noteq> expected_cleanup \<or> \<not> needs_cleanup r)
          then put_resource rid clear_claim db
          else put_resource rid
                 (retry_later cfg now
                   ((case ph of CLEANUP \<Rightarrow> ''Cleanup'' | FORWARD \<Rightarrow> ''Provisioning'')
                     @ '' step failed with '' @ type_name error)
                   (give_up ph)) db)"

section \<open>The loop\<close>

definition find_adapter ::
    "registry \<Rightarrow> backend option \<Rightarrow> instance_row option \<Rightarrow> py_error + adapter" where
  "find_adapter reg b i =
     (case (b, i) of
        (Some _, Some i) \<Rightarrow> registry_get reg (i_engine i) (i_topology i)
      | _ \<Rightarrow> Inl (RuntimeError ''Provisioning backend is unavailable''))"

text \<open>
  One iteration on the row that was loaded; the flag says whether the loop goes on. \<open>db\<close> is the
  database at the time of the iteration's transaction, \<open>db'\<close> at the time of the transaction
  that records a failure.
\<close>

definition dispatch_forward ::
    "dispatcher \<Rightarrow> nat \<Rightarrow> resource \<Rightarrow> backend option \<Rightarrow> instance_row option \<Rightarrow> metadb \<Rightarrow> metadb
     \<Rightarrow> bool \<times> metadb" where
  "dispatch_forward dx k r b i loaded db =
     (let fail = (\<lambda>e. (False, record_failure (dx_config dx) (dx_worker dx) (dx_clock dx k) (r_id r)
            e FORWARD (r_status r) (r_provisioning_step r) (r_cleanup_step r) (dx_env dx (3 * k + 2) db)))
      in if b \<noteq> None \<and> i \<noteq> None \<and> b_status (the b) = BS_DISABLED
         then (False, queue_disabled (dx_worker dx) (r_id r) db)
         else case find_adapter (dx_registry dx k) b i of
           Inl e \<Rightarrow> fail e
         | Inr ad \<Rightarrow>
             if r_provisioning_step r = PS_VERIFIED
             then (False, finish_ready (dx_worker dx) (r_id r) db)
             else case bindE (if r_provisioning_step r = PS_GRANTED then ad_verify ad loaded r
                              else ad_create ad loaded r)
                    (\<lambda>r'. persist_forward_result (dx_worker dx) (r_id r) (r_provisioning_step r)
                            (r_provisioning_step r') db) of
               Inl e \<Rightarrow> fail e
             | Inr result \<Rightarrow> result)"

definition dispatch_cleanup ::
    "dispatcher \<Rightarrow> nat \<Rightarrow> resource \<Rightarrow> backend option \<Rightarrow> instance_row option \<Rightarrow> metadb \<Rightarrow> metadb
     \<Rightarrow> bool \<times> metadb" where
  "dispatch_cleanup dx k r b i loaded db =
     (case bindE (find_adapter (dx_registry dx k) b i) (\<lambda>ad.
           bindE (ad_delete ad loaded r) (\<lambda>r'.
             persist_cleanup_result (dx_worker dx) (dx_clock dx k) (r_id r) (r_status r)
               (r_cleanup_step r) (r_cleanup_step r') db)) of
        Inl e \<Rightarrow> (False, record_failure (dx_config dx) (dx_worker dx) (dx_clock dx k) (r_id r) e CLEANUP
                   (r_status r) (r_provisioning_step r) (r_cleanup_step r) (dx_env dx (3 * k + 2) db))
      | Inr result \<Rightarrow> result)"

definition dispatch_disconnect ::
    "dispatcher \<Rightarrow> nat \<Rightarrow> resource \<Rightarrow> backend option \<Rightarrow> instance_row option \<Rightarrow> metadb \<Rightarrow> metadb
     \<Rightarrow> bool \<times> metadb" where
  "dispatch_disconnect dx k r b i loaded db =
     (case bindE (find_adapter (dx_registry dx k) b i) (\<lambda>ad.
           bindE (ad_disconnect ad loaded r) (\<lambda>r'.
             persist_disconnect_result (dx_worker dx) (dx_clock dx k) (r_id r)
               (r_delete_step r) (r_delete_step r') db)) of
        Inl e \<Rightarrow> (False, record_disconnect_failure (dx_config dx) (dx_worker dx) (dx_clock dx k)
                   (r_id r) e (r_delete_step r) (dx_env dx (3 * k + 2) db))
      | Inr result \<Rightarrow> result)"

definition dispatch_restore ::
    "dispatcher \<Rightarrow> nat \<Rightarrow> resource \<Rightarrow> backend option \<Rightarrow> instance_row option \<Rightarrow> metadb \<Rightarrow> metadb
     \<Rightarrow> bool \<times> metadb" where
  "dispatch_restore dx k r b i loaded db =
     (case bindE (find_adapter (dx_registry dx k) b i) (\<lambda>ad. ad_restore ad loaded r) of
        Inl e \<Rightarrow> (False, record_restore_failure (dx_worker dx) (r_id r) e db)
      | Inr _ \<Rightarrow> (False, finish_restore (dx_worker dx) (r_id r) db))"

definition dispatch_iteration :: "dispatcher \<Rightarrow> nat \<Rightarrow> string \<Rightarrow> metadb \<Rightarrow> bool \<times> metadb" where
  "dispatch_iteration dx k rid db =
     (let db0 = dx_env dx (3 * k) db
      in case load_claimed (dx_worker dx) rid db0 of
        None \<Rightarrow> (False, db0)
      | Some (r, b, i) \<Rightarrow>
          let db1 = dx_env dx (3 * k + 1) db0
          in if r_status r = ST_RESTORING then dispatch_restore dx k r b i db0 db1
             else if r_status r = ST_COOLING_DOWN
             then begin_cleanup (dx_worker dx) (dx_clock dx k) rid db1
             else if r_status r = ST_DELETING \<and> \<not> irreversible_step (r_delete_step r)
             then dispatch_disconnect dx k r b i db0 db1
             else if needs_cleanup r then dispatch_cleanup dx k r b i db0 db1
             else if r_status r \<noteq> ST_CREATING
             then (False, release_claim (dx_worker dx) rid db1)
             else dispatch_forward dx k r b i db0 db1)"

text \<open>\<open>while True\<close>, with the number of iterations allowed; \<open>None\<close> says that it was not enough.\<close>

fun dispatch_claimed :: "dispatcher \<Rightarrow> nat \<Rightarrow> nat \<Rightarrow> string \<Rightarrow> metadb \<Rightarrow> metadb option" where
  "dispatch_claimed dx 0 k rid db = None"
| "dispatch_claimed dx (Suc fuel) k rid db =
     (case dispatch_iteration dx k rid db of
        (False, db') \<Rightarrow> Some db'
      | (True, db') \<Rightarrow> dispatch_claimed dx fuel (Suc k) rid db')"

definition run_once :: "dispatcher \<Rightarrow> nat \<Rightarrow> metadb \<Rightarrow> (bool \<times> metadb) option" where
  "run_once dx fuel db =
     (case claim_one (dx_config dx) (dx_worker dx) (dx_clock dx 0) db of
        (None, db1) \<Rightarrow> Some (False, db1)
      | (Some rid, db1) \<Rightarrow> map_option (Pair True) (dispatch_claimed dx fuel 0 rid db1))"

section \<open>Claims are exclusive\<close>

interpretation resource_claims: claimable r_id r_worker_id r_worker_lease_until set_resource_claim
  by unfold_locales (simp_all add: set_resource_claim_def)

lemma claim_one_SomeD:
  assumes "claim_one cfg w now db = (Some rid, db1)"
  obtains r where "r \<in> set (resources db)" "r_id r = rid" "claimable_resource now r"
    "\<And>x. x \<in> set (resources db) \<Longrightarrow> claimable_resource now x \<Longrightarrow>
       (r_created_at r, rid) \<le> (r_created_at x, r_id x)"
    "db1 = put_resource rid
       (set_resource_claim (Some w) (Some (now + seconds (cfg_worker_claim_ttl_seconds cfg)))) db"
proof -
  from assms obtain r where
    f: "first_by (\<lambda>r. (r_created_at r, r_id r)) (filter (claimable_resource now) (resources db)) = Some r"
    and rid: "rid = r_id r"
    and db1: "db1 = put_resource rid
       (set_resource_claim (Some w) (Some (now + seconds (cfg_worker_claim_ttl_seconds cfg)))) db"
    by (auto simp: claim_one_def split: option.splits)
  show ?thesis
  proof (rule that [OF _ _ _ _ db1])
    show "r \<in> set (resources db)" "claimable_resource now r"
      using first_by_SomeD [OF f] by auto
    show "r_id r = rid" by (simp add: rid)
    show "(r_created_at r, rid) \<le> (r_created_at x, r_id x)"
      if "x \<in> set (resources db)" "claimable_resource now x" for x
      using first_by_least [OF f, of x] that by (simp add: rid)
  qed
qed

lemma claim_one_id:
  "claim_one cfg w now db = (Some rid, db1) \<Longrightarrow> uniq r_id (resources db) \<Longrightarrow>
   \<exists>r. get_resource db rid = Some r \<and> claimable_resource now r"
  by (erule claim_one_SomeD) (metis tget_uniq)

text \<open>a claim is exclusive for the time of its lease. The worker that claims a resource
  took the oldest one that was due, unclaimed or with an expired lease, and not dedicated; and
  until the lease runs out no worker, itself included, claims the same resource again.\<close>

theorem claim_one_exclusive:
  assumes "claim_one cfg w now db = (Some rid, db1)" and "uniq r_id (resources db)"
    and "later < now + seconds (cfg_worker_claim_ttl_seconds cfg)"
  shows "fst (claim_one cfg w' later db1) \<noteq> Some rid
    \<and> (\<exists>r. get_resource db rid = Some r \<and> claimable_resource now r
        \<and> (\<forall>x \<in> set (resources db). claimable_resource now x \<longrightarrow>
             (r_created_at r, rid) \<le> (r_created_at x, r_id x)))"
  using assms(1)
proof (rule claim_one_SomeD)
  fix r
  let ?claim = "set_resource_claim (Some w) (Some (now + seconds (cfg_worker_claim_ttl_seconds cfg)))"
  assume r: "r \<in> set (resources db)" "r_id r = rid" "claimable_resource now r"
    and least: "\<And>x. x \<in> set (resources db) \<Longrightarrow> claimable_resource now x \<Longrightarrow>
       (r_created_at r, rid) \<le> (r_created_at x, r_id x)"
    and db1: "db1 = put_resource rid ?claim db"
  have get: "get_resource db rid = Some r" using tget_uniq [OF assms(2) r(1)] r(2) by simp
  have "fst (claim_one cfg w' later db1) \<noteq> Some rid"
  proof
    assume "fst (claim_one cfg w' later db1) = Some rid"
    then obtain db2 where c2: "claim_one cfg w' later db1 = (Some rid, db2)" by (metis prod.collapse)
    have "uniq r_id (resources db1)"
      using assms(2) by (simp add: db1 uniq_tupd set_resource_claim_def)
    from claim_one_id [OF c2 this] obtain r' where r': "get_resource db1 rid = Some r'"
      "claimable_resource later r'" by blast
    have "\<not> lease_available (r_worker_id r') (r_worker_lease_until r') later"
      using resource_claims.claim_excludes [of rid w _ "resources db" r' later] r'(1) assms(3)
      by (simp add: db1)
    with r'(2) show False by (simp add: claimable_resource_def)
  qed
  with get r(3) least show ?thesis by blast
qed

section \<open>What the transactions write\<close>

text \<open>A transaction that writes at most the claimed row and keeps what identifies it.\<close>

definition row_update :: "string \<Rightarrow> metadb \<Rightarrow> metadb \<Rightarrow> bool" where
  "row_update rid db db' \<longleftrightarrow>
     (\<exists>f. (\<forall>r. same_identity (f r) r) \<and> db' = put_resource rid f db)"

lemma put_resource_id [simp]: "put_resource rid (\<lambda>r. r) db = db"
  by (simp add: put_resource_def)

lemma row_update_refl [intro, simp]: "row_update rid db db"
  unfolding row_update_def by (rule exI [of _ "\<lambda>r. r"]) simp

lemma row_update_put [intro]:
  "(\<And>r. same_identity (f r) r) \<Longrightarrow> row_update rid db (put_resource rid f db)"
  unfolding row_update_def by blast

lemma same_identity_rows [simp]:
  "same_identity (clear_claim r) r" "same_identity (backend_disabled_row r) r"
  "same_identity (ready_row r) r" "same_identity (restored_row r) r"
  by (simp_all add: same_identity_def clear_claim_def backend_disabled_row_def ready_row_def
      restored_row_def reset_retries_def)

lemma same_identity_retry [simp]:
  assumes "\<And>r. same_identity (g r) r"
  shows "same_identity (retry_later cfg now reason g r) r"
  using assms by (auto simp: same_identity_def retry_later_def clear_claim_def Let_def)

lemma same_identity_give_up [simp]: "same_identity (give_up ph r) r"
  by (cases ph) (simp_all add: give_up_def same_identity_def)

lemma persist_disconnect_row:
  "persist_disconnect_result w now rid e n db = Inr (c, db') \<Longrightarrow> row_update rid db db'"
  by (auto simp: persist_disconnect_result_def same_identity_def clear_claim_def reset_retries_def
      split: if_splits option.splits intro!: row_update_put)

lemma begin_cleanup_row: "begin_cleanup w now rid db = (c, db') \<Longrightarrow> row_update rid db db'"
  by (auto simp: begin_cleanup_def same_identity_def clear_claim_def
      split: if_splits option.splits intro!: row_update_put)

lemma finish_restore_row: "row_update rid db (finish_restore w rid db)"
  by (auto simp: finish_restore_def split: option.splits)

lemma record_disconnect_failure_row:
  "row_update rid db (record_disconnect_failure cfg w now rid e s db)"
  by (auto simp: record_disconnect_failure_def same_identity_def split: option.splits
      intro!: row_update_put same_identity_retry)

lemma record_restore_failure_row: "row_update rid db (record_restore_failure w rid e db)"
  by (auto simp: record_restore_failure_def same_identity_def clear_claim_def
      split: option.splits intro!: row_update_put)

lemma queue_disabled_row: "row_update rid db (queue_disabled w rid db)"
  by (auto simp: queue_disabled_def split: option.splits)

lemma persist_forward_row:
  "persist_forward_result w rid e n db = Inr (c, db') \<Longrightarrow> row_update rid db db'"
  by (auto simp: persist_forward_result_def same_identity_def reset_retries_def
      split: if_splits option.splits intro!: row_update_put same_identity_rows)

lemma finish_ready_row: "row_update rid db (finish_ready w rid db)"
  by (auto simp: finish_ready_def split: option.splits)

lemma release_claim_row: "row_update rid db (release_claim w rid db)"
  by (auto simp: release_claim_def split: option.splits)

lemma record_failure_row: "row_update rid db (record_failure cfg w now rid e ph s f c db)"
  by (auto simp: record_failure_def same_identity_def clear_claim_def give_up_def
      split: option.splits phase.splits intro!: row_update_put same_identity_retry)

text \<open>The release of the cleanup satisfies the contract of the counters, like the service's.\<close>

lemma release_on_cleanup_count:
  assumes "release_on_cleanup a b db = Inr db'"
  shows "active_count db' st sid = active_count db st sid -
     (if (st = ''agent'' \<and> sid = a) \<or> (st = ''backend'' \<and> sid = b) then 1 else 0)"
proof -
  from assms have a: "tget cap_key (''agent'', a) (capacities db) \<noteq> None"
    and b: "tget cap_key (''backend'', b) (capacities db) \<noteq> None"
    and db': "db' = add_active_count ''backend'' b (-1) (add_active_count ''agent'' a (-1) db)"
    by (auto simp: release_on_cleanup_def split: option.splits if_splits)
  show ?thesis
    using active_count_add [OF a] active_count_add [OF add_active_count_keeps [OF b]]
    by (auto simp: db')
qed

interpretation cleanup_ledger: capacity_ledger active_count reserve_active_capacity_counters
    release_on_cleanup
proof
  show "active_count db' st sid = active_count db st sid -
     (if (st = ''agent'' \<and> sid = a) \<or> (st = ''backend'' \<and> sid = b) then 1 else 0)"
    if "release_on_cleanup a b db = Inr db'" for a b db db' st sid
    using that by (rule release_on_cleanup_count)
  show "active_count db ''agent'' a \<le> 0 \<or> active_count db ''backend'' b \<le> 0"
    if "release_on_cleanup a b db = Inl e" for a b db e
    using that by (auto simp: release_on_cleanup_def active_count_def split: option.splits if_splits)
  show "resources db' = resources db" if "release_on_cleanup a b db = Inr db'" for a b db db'
    using that by (auto simp: release_on_cleanup_def split: option.splits if_splits)
qed (fact ledger.reserve_count ledger.reserve_limits ledger.reserve_full ledger.reserve_rows)+

lemma row_update_accounted:
  assumes "row_update rid db db'" and "accounted active_count db"
  shows "accounted active_count db'"
proof -
  from assms(1) obtain f where f: "\<And>r. same_identity (f r) r" and db': "db' = put_resource rid f db"
    by (auto simp: row_update_def)
  have "holds_agent a (f r) = holds_agent a r" "holds_backend b (f r) = holds_backend b r" for a b r
    using f [of r] by (simp_all add: same_identity_def holds_agent_def holds_backend_def)
  with assms(2) show ?thesis
    by (intro accounted_frame [OF assms(2)]) (simp_all add: db' rcount_tupd_same)
qed

lemma row_update_uniq: "row_update rid db db' \<Longrightarrow> uniq r_id (resources db') = uniq r_id (resources db)"
  by (auto simp: row_update_def same_identity_def uniq_tupd)

lemma cleaned_row_simps [simp]:
  "r_id (cleaned_row now r) = r_id r" "r_owner_agent_id (cleaned_row now r) = r_owner_agent_id r"
  "r_backend_id (cleaned_row now r) = r_backend_id r"
  "r_capacity_released_at (cleaned_row now r) \<noteq> None"
  "r_client_token (cleaned_row now r) = r_client_token r"
  by (simp_all add: cleaned_row_def clear_claim_def reset_retries_def split: option.splits)

lemma finish_cleanup_accounted:
  assumes "finish_cleanup_locked now r db = Inr db'" and "get_resource db (r_id r) = Some r"
    and "accounted active_count db" and "uniq r_id (resources db)"
  shows "accounted active_count db' \<and> uniq r_id (resources db')"
proof (cases "r_capacity_released_at r")
  case None
  with assms(1) obtain db1 where
    rel: "release_on_cleanup (r_owner_agent_id r) (r_backend_id r) db = Inr db1"
    and db': "db' = put_resource (r_id r) (cleaned_row now) db1"
    by (auto simp: finish_cleanup_locked_def bindE_Inr)
  have "accounted active_count db'"
  proof (rule cleanup_ledger.release_mark_accounted [OF assms(3) rel assms(4,2)])
    show "resources db' = tupd r_id (r_id r) (cleaned_row now) (resources db1)" by (simp add: db')
  qed (simp_all add: None db' active_count_def)
  moreover have "uniq r_id (resources db')"
    using assms(4) cleanup_ledger.release_rows [OF rel] by (simp add: db' uniq_tupd)
  ultimately show ?thesis ..
next
  case (Some t)
  with assms(1) have db': "db' = put_resource (r_id r) (cleaned_row now) db"
    by (simp add: finish_cleanup_locked_def)
  have h: "holds_agent a r = holds_agent a (cleaned_row now r)"
    "holds_backend a r = holds_backend a (cleaned_row now r)" for a
    using Some by (simp_all add: holds_agent_def holds_backend_def cleaned_row_def clear_claim_def
        reset_retries_def)
  have "accounted active_count db'"
    using rcount_tupd [OF assms(4,2), of "holds_agent a" "cleaned_row now" for a]
      rcount_tupd [OF assms(4,2), of "holds_backend a" "cleaned_row now" for a]
    by (intro accounted_frame [OF assms(3)]) (simp_all add: db' h)
  then show ?thesis using assms(4) by (simp add: db' uniq_tupd)
qed

definition books :: "metadb \<Rightarrow> bool" where
  "books db \<longleftrightarrow> accounted active_count db \<and> uniq r_id (resources db)"

lemma books_row_update: "row_update rid db db' \<Longrightarrow> books db \<Longrightarrow> books db'"
  by (auto simp: books_def row_update_uniq intro: row_update_accounted)

lemma persist_cleanup_books:
  assumes "persist_cleanup_result w now rid s e n db = Inr (c, db')" and "books db"
  shows "books db'"
proof -
  consider (fin) r where "get_resource db rid = Some r" "finish_cleanup_locked now r db = Inr db'"
    | (row) "db' = db \<or> db' = put_resource rid (\<lambda>r. (reset_retries r)\<lparr>r_cleanup_step := n\<rparr>) db"
    using assms(1)
    by (auto simp: persist_cleanup_result_def bindE_Inr split: if_splits option.splits)
  then show ?thesis
  proof cases
    case fin
    then have "get_resource db (r_id r) = Some r" by auto
    with fin(2) assms(2) show ?thesis
      using finish_cleanup_accounted [OF fin(2)] by (simp add: books_def)
  next
    case row
    then have "row_update rid db db'"
      by (auto simp: same_identity_def reset_retries_def intro!: row_update_put)
    then show ?thesis using assms(2) by (rule books_row_update)
  qed
qed

section \<open>Every iteration is one transaction\<close>

text \<open>The transactions of a worker on the row it works on.\<close>

inductive dispatcher_tx ::
    "tenant_provisioning_config \<Rightarrow> string \<Rightarrow> time \<Rightarrow> string \<Rightarrow> metadb \<Rightarrow> metadb \<Rightarrow> bool"
  for cfg w now rid where
  tx_none: "dispatcher_tx cfg w now rid db db"
| tx_disconnect: "persist_disconnect_result w now rid e n db = Inr (c, db') \<Longrightarrow>
    dispatcher_tx cfg w now rid db db'"
| tx_begin_cleanup: "begin_cleanup w now rid db = (c, db') \<Longrightarrow> dispatcher_tx cfg w now rid db db'"
| tx_restore: "dispatcher_tx cfg w now rid db (finish_restore w rid db)"
| tx_disconnect_failure:
    "dispatcher_tx cfg w now rid db (record_disconnect_failure cfg w now rid e s db)"
| tx_restore_failure: "dispatcher_tx cfg w now rid db (record_restore_failure w rid e db)"
| tx_disabled: "dispatcher_tx cfg w now rid db (queue_disabled w rid db)"
| tx_forward: "persist_forward_result w rid e n db = Inr (c, db') \<Longrightarrow>
    dispatcher_tx cfg w now rid db db'"
| tx_ready: "dispatcher_tx cfg w now rid db (finish_ready w rid db)"
| tx_cleanup: "persist_cleanup_result w now rid s e n db = Inr (c, db') \<Longrightarrow>
    dispatcher_tx cfg w now rid db db'"
| tx_release: "dispatcher_tx cfg w now rid db (release_claim w rid db)"
| tx_failure: "dispatcher_tx cfg w now rid db (record_failure cfg w now rid e ph s f c db)"

lemma dispatch_restore_tx:
  "dispatch_restore dx k r b i l db = (c, db') \<Longrightarrow>
   dispatcher_tx (dx_config dx) (dx_worker dx) (dx_clock dx k) (r_id r) db db'"
  by (auto simp: dispatch_restore_def split: sum.splits intro: dispatcher_tx.intros)

lemma dispatch_disconnect_tx:
  "dispatch_disconnect dx k r b i l db = (c, db') \<Longrightarrow>
   (\<exists>d \<in> {db, dx_env dx (3 * k + 2) db}.
     dispatcher_tx (dx_config dx) (dx_worker dx) (dx_clock dx k) (r_id r) d db')"
  by (auto simp: dispatch_disconnect_def bindE_Inr split: sum.splits
      intro: tx_disconnect tx_disconnect_failure)

lemma dispatch_cleanup_tx:
  "dispatch_cleanup dx k r b i l db = (c, db') \<Longrightarrow>
   (\<exists>d \<in> {db, dx_env dx (3 * k + 2) db}.
     dispatcher_tx (dx_config dx) (dx_worker dx) (dx_clock dx k) (r_id r) d db')"
  by (auto simp: dispatch_cleanup_def bindE_Inr split: sum.splits intro: tx_cleanup tx_failure)

lemma dispatch_forward_tx:
  assumes "dispatch_forward dx k r b i l db = (c, db')"
  shows "\<exists>d \<in> {db, dx_env dx (3 * k + 2) db}.
     dispatcher_tx (dx_config dx) (dx_worker dx) (dx_clock dx k) (r_id r) d db'"
  using assms
  by (auto simp: dispatch_forward_def Let_def bindE_Inr split: sum.splits if_splits
      intro: tx_disabled tx_failure tx_ready tx_forward)

text \<open>The branches of an iteration, over the database \<open>db0\<close> at its read.\<close>

lemma dispatch_iteration_cases:
  assumes it: "dispatch_iteration dx k rid db = (c, db')"
  defines "db0 \<equiv> dx_env dx (3 * k) db"
  defines "db1 \<equiv> dx_env dx (3 * k + 1) db0"
  obtains (lost) "load_claimed (dx_worker dx) rid db0 = None" "c = False" "db' = db0"
  | (restore) r b i where "load_claimed (dx_worker dx) rid db0 = Some (r, b, i)"
      "r_status r = ST_RESTORING" "dispatch_restore dx k r b i db0 db1 = (c, db')"
  | (cooling) r b i where "load_claimed (dx_worker dx) rid db0 = Some (r, b, i)"
      "r_status r = ST_COOLING_DOWN"
      "begin_cleanup (dx_worker dx) (dx_clock dx k) rid db1 = (c, db')"
  | (disconnect) r b i where "load_claimed (dx_worker dx) rid db0 = Some (r, b, i)"
      "r_status r = ST_DELETING" "\<not> irreversible_step (r_delete_step r)"
      "dispatch_disconnect dx k r b i db0 db1 = (c, db')"
  | (cleanup) r b i where "load_claimed (dx_worker dx) rid db0 = Some (r, b, i)"
      "needs_cleanup r" "dispatch_cleanup dx k r b i db0 db1 = (c, db')"
  | (other) r b i where "load_claimed (dx_worker dx) rid db0 = Some (r, b, i)"
      "c = False" "db' = release_claim (dx_worker dx) rid db1"
  | (forward) r b i where "load_claimed (dx_worker dx) rid db0 = Some (r, b, i)"
      "r_status r = ST_CREATING" "dispatch_forward dx k r b i db0 db1 = (c, db')"
proof (cases "load_claimed (dx_worker dx) rid db0")
  case None
  with it have "c = False" "db' = db0" by (simp_all add: dispatch_iteration_def db0_def)
  with None show ?thesis by (rule lost)
next
  case (Some x)
  obtain r b i where x: "x = (r, b, i)" by (cases x)
  note load = Some [unfolded x]
  from it have "(if r_status r = ST_RESTORING then dispatch_restore dx k r b i db0 db1
     else if r_status r = ST_COOLING_DOWN then begin_cleanup (dx_worker dx) (dx_clock dx k) rid db1
     else if r_status r = ST_DELETING \<and> \<not> irreversible_step (r_delete_step r)
     then dispatch_disconnect dx k r b i db0 db1
     else if needs_cleanup r then dispatch_cleanup dx k r b i db0 db1
     else if r_status r \<noteq> ST_CREATING then (False, release_claim (dx_worker dx) rid db1)
     else dispatch_forward dx k r b i db0 db1) = (c, db')"
    by (simp only: dispatch_iteration_def Let_def load db1_def option.case prod.case flip: db0_def)
  then show ?thesis
    using that(2-7) [OF load] by (auto split: if_splits)
qed

lemma load_claimed_SomeD:
  assumes "load_claimed w rid db = Some (r, b, i)"
  shows "get_resource db rid = Some r \<and> owns_claim w r \<and> r_id r = rid
    \<and> b = get_backend db (r_backend_id r)
    \<and> i = Option.bind b (\<lambda>b. Option.bind (b_instance_id b) (get_instance db))"
  using assms by (auto simp: load_claimed_def Let_def split: option.splits if_splits)

lemma dispatch_iteration_tx:
  assumes it: "dispatch_iteration dx k rid db = (c, db')"
  defines "db0 \<equiv> dx_env dx (3 * k) db"
  shows "db' = db0 \<or>
    (\<exists>d \<in> {dx_env dx (3 * k + 1) db0, dx_env dx (3 * k + 2) (dx_env dx (3 * k + 1) db0)}.
      dispatcher_tx (dx_config dx) (dx_worker dx) (dx_clock dx k) rid d db')"
  using it
proof (cases rule: dispatch_iteration_cases)
  case lost
  then show ?thesis by (auto simp: db0_def intro: tx_none)
next
  case restore
  then show ?thesis using load_claimed_SomeD [OF restore(1)]
    by (auto simp: db0_def dest: dispatch_restore_tx)
next
  case cooling
  then show ?thesis by (auto simp: db0_def intro: tx_begin_cleanup)
next
  case disconnect
  then show ?thesis using load_claimed_SomeD [OF disconnect(1)]
    by (auto simp: db0_def dest: dispatch_disconnect_tx)
next
  case cleanup
  then show ?thesis using load_claimed_SomeD [OF cleanup(1)]
    by (auto simp: db0_def dest: dispatch_cleanup_tx)
next
  case other
  then show ?thesis by (auto simp: db0_def intro: tx_release)
next
  case forward
  then show ?thesis using load_claimed_SomeD [OF forward(1)]
    by (auto simp: db0_def dest: dispatch_forward_tx)
qed

lemma dispatch_claimed_invariant:
  assumes env: "\<And>k d. P d \<Longrightarrow> P (dx_env dx k d)"
    and tx: "\<And>now d d'. P d \<Longrightarrow> dispatcher_tx (dx_config dx) (dx_worker dx) now rid d d' \<Longrightarrow> P d'"
    and "P db" and "dispatch_claimed dx fuel k rid db = Some db'"
  shows "P db'"
  using assms(3,4)
proof (induction fuel arbitrary: k db)
  case (Suc fuel)
  obtain c d where it: "dispatch_iteration dx k rid db = (c, d)" by force
  have "P (dx_env dx (3 * k) db)" by (rule env [OF Suc.prems(1)])
  with dispatch_iteration_tx [OF it] have "P d" by (auto intro: tx env)
  with Suc it show ?case by (cases c) auto
qed simp

lemma dispatcher_tx_books: "dispatcher_tx cfg w now rid db db' \<Longrightarrow> books db \<Longrightarrow> books db'"
  by (erule dispatcher_tx.cases)
    (auto intro: books_row_update persist_disconnect_row begin_cleanup_row finish_restore_row
      record_disconnect_failure_row record_restore_failure_row queue_disabled_row
      persist_forward_row finish_ready_row persist_cleanup_books release_claim_row
      record_failure_row)

text \<open>the dispatcher keeps the books. Whatever the remote server answers and whatever the
  other sessions do (as long as they keep the books themselves), after a run of the lifecycle
  loop every counter is still the number of resources that hold capacity: capacity is given back
  exactly once per resource.\<close>

theorem dispatch_claimed_accounted:
  assumes "dispatch_claimed dx fuel k rid db = Some db'"
    and "accounted active_count db" and "uniq r_id (resources db)"
    and "\<forall>k d. accounted active_count d \<and> uniq r_id (resources d) \<longrightarrow>
      accounted active_count (dx_env dx k d) \<and> uniq r_id (resources (dx_env dx k d))"
  shows "accounted active_count db' \<and> uniq r_id (resources db')"
proof -
  have "books db'"
  proof (rule dispatch_claimed_invariant [where P = books, OF _ _ _ assms(1)])
    show "books (dx_env dx k d)" if "books d" for k d
      using assms(4) that by (simp add: books_def)
    show "books d'" if "books d" "dispatcher_tx (dx_config dx) (dx_worker dx) now rid d d'"
      for now d d' using that(2,1) by (rule dispatcher_tx_books)
    show "books db" using assms(2,3) by (simp add: books_def)
  qed
  then show ?thesis by (simp add: books_def)
qed

section \<open>Fencing\<close>

lemma dispatcher_tx_fenced:
  assumes "dispatcher_tx cfg w now rid db db'"
    and "\<forall>r. get_resource db rid = Some r \<longrightarrow> \<not> owns_claim w r"
  shows "db' = db"
  using assms
  by (cases rule: dispatcher_tx.cases)
    (auto simp: persist_disconnect_result_def begin_cleanup_def finish_restore_def
      record_disconnect_failure_def record_restore_failure_def queue_disabled_def
      persist_forward_result_def finish_ready_def persist_cleanup_result_def release_claim_def
      record_failure_def split: if_splits option.splits)

text \<open>C7: a worker that lost its claim writes nothing. If, whenever the worker opens a
  transaction, the row belongs to somebody else (or to nobody, or is gone), then the iteration
  leaves the database exactly as the other sessions made it: a slow worker whose lease has run
  out cannot overwrite its successor's progress.\<close>

theorem lost_claim_writes_nothing:
  assumes "dispatch_iteration dx k rid db = (c, db')"
    and "\<forall>d \<in> {dx_env dx (3 * k + 1) (dx_env dx (3 * k) db),
              dx_env dx (3 * k + 2) (dx_env dx (3 * k + 1) (dx_env dx (3 * k) db))}.
         \<forall>r. get_resource d rid = Some r \<longrightarrow> r_worker_id r \<noteq> Some (dx_worker dx)"
  shows "db' \<in> {dx_env dx (3 * k) db, dx_env dx (3 * k + 1) (dx_env dx (3 * k) db),
              dx_env dx (3 * k + 2) (dx_env dx (3 * k + 1) (dx_env dx (3 * k) db))}"
  using dispatch_iteration_tx [OF assms(1)] assms(2)
  by (auto simp: owns_claim_def dest!: dispatcher_tx_fenced)

section \<open>The loop terminates\<close>

text \<open>An upper bound on the iterations left for a row.\<close>

definition remaining :: "resource \<Rightarrow> nat" where
  "remaining r =
     (if r_status r = ST_COOLING_DOWN then 6
      else if r_status r = ST_DELETING \<and> \<not> irreversible_step (r_delete_step r)
      then 4 - ds_rank (r_delete_step r)
      else if needs_cleanup r then 5 - cs_rank (r_cleanup_step r)
      else if r_status r = ST_CREATING then 7 - ps_rank (r_provisioning_step r)
      else 0)"

lemma remaining_bound: "remaining r \<le> 7"
  by (auto simp: remaining_def)

lemma persist_disconnect_True:
  assumes "persist_disconnect_result w now rid e n db = Inr (True, db')"
  shows "\<exists>r'. get_resource db' rid = Some r' \<and> remaining r' < 4 - ds_rank e"
proof -
  from assms obtain r where r: "get_resource db rid = Some r" "r_status r = ST_DELETING"
    "next_delete_step e = Some n" "n \<noteq> DS_DISCONNECTED"
    "db' = put_resource rid (\<lambda>r. (reset_retries r)\<lparr>r_delete_step := n\<rparr>) db"
    by (auto simp: persist_disconnect_result_def split: if_splits option.splits)
  moreover from r(3,4) have "\<not> irreversible_step n" "ds_rank n = Suc (ds_rank e)" "ds_rank e < 3"
    by (cases e; auto simp: irreversible_step_def)+
  ultimately show ?thesis
    by (auto simp: tget_tupd reset_retries_def remaining_def)
qed

lemma begin_cleanup_True:
  assumes "begin_cleanup w now rid db = (True, db')"
  shows "\<exists>r'. get_resource db' rid = Some r' \<and> remaining r' < 6"
proof -
  from assms obtain r where r: "get_resource db rid = Some r"
    "db' = put_resource rid (\<lambda>r. r\<lparr>r_status := ST_DELETING, r_delete_step := DS_LOGICAL_CLEANUP,
        r_cleanup_required := True\<rparr>) db"
    by (auto simp: begin_cleanup_def split: if_splits option.splits)
  then show ?thesis
    by (simp add: tget_tupd remaining_def irreversible_step_def needs_cleanup_def)
qed

lemma persist_cleanup_True:
  assumes "persist_cleanup_result w now rid s e n db = Inr (True, db')"
  shows "\<exists>r'. get_resource db' rid = Some r' \<and> remaining r' < 5 - cs_rank e"
proof -
  from assms obtain r where r: "get_resource db rid = Some r" "needs_cleanup r"
    "next_cleanup_step e = Some n"
    "db' = put_resource rid (\<lambda>r. (reset_retries r)\<lparr>r_cleanup_step := n\<rparr>) db"
    by (auto simp: persist_cleanup_result_def bindE_Inr split: if_splits option.splits)
  from cleanup_chain.rank_next [OF r(3)] cleanup_chain.rank_top [of n]
  have "cs_rank n = Suc (cs_rank e)" "cs_rank e < 4" by auto
  with r show ?thesis
    by (auto simp: tget_tupd reset_retries_def remaining_def needs_cleanup_def
        irreversible_step_def)
qed

lemma persist_forward_True:
  assumes "persist_forward_result w rid e n db = Inr (True, db')"
  shows "\<exists>r'. get_resource db' rid = Some r' \<and> remaining r' < 7 - ps_rank e"
proof -
  from assms obtain r where r: "get_resource db rid = Some r" "r_status r = ST_CREATING"
    "next_provisioning_step e = Some n"
    "db' = put_resource rid (\<lambda>r. (reset_retries r)\<lparr>r_provisioning_step := n\<rparr>) db"
    by (auto simp: persist_forward_result_def split: if_splits option.splits)
  from provisioning_chain.rank_next [OF r(3)] provisioning_chain.rank_top [of n]
  have "ps_rank n = Suc (ps_rank e)" "ps_rank e < 6" by auto
  with r show ?thesis
    by (auto simp: tget_tupd reset_retries_def remaining_def needs_cleanup_def)
qed

lemma dispatch_iteration_decreases:
  assumes it: "dispatch_iteration dx k rid db = (True, db')"
  shows "\<exists>r r'. get_resource (dx_env dx (3 * k) db) rid = Some r \<and> owns_claim (dx_worker dx) r
    \<and> get_resource db' rid = Some r' \<and> remaining r' < remaining r"
  using it
proof (cases rule: dispatch_iteration_cases)
  case (restore r b i)
  then show ?thesis by (simp add: dispatch_restore_def split: sum.splits)
next
  case (cooling r b i)
  then have "remaining r = 6" by (simp add: remaining_def)
  with load_claimed_SomeD [OF cooling(1)] begin_cleanup_True [OF cooling(3)] show ?thesis by auto
next
  case (disconnect r b i)
  then have "remaining r = 4 - ds_rank (r_delete_step r)" by (simp add: remaining_def)
  moreover from disconnect(4) obtain n where "persist_disconnect_result (dx_worker dx) (dx_clock dx k)
      (r_id r) (r_delete_step r) n (dx_env dx (3 * k + 1) (dx_env dx (3 * k) db)) = Inr (True, db')"
    by (auto simp: dispatch_disconnect_def bindE_Inr split: sum.splits)
  ultimately show ?thesis
    using load_claimed_SomeD [OF disconnect(1)] by (metis persist_disconnect_True)
next
  case (cleanup r b i)
  then have "remaining r = 5 - cs_rank (r_cleanup_step r)"
    by (auto simp: remaining_def needs_cleanup_def irreversible_step_def)
  moreover from cleanup(3) obtain n where "persist_cleanup_result (dx_worker dx) (dx_clock dx k)
      (r_id r) (r_status r) (r_cleanup_step r) n (dx_env dx (3 * k + 1) (dx_env dx (3 * k) db))
      = Inr (True, db')"
    by (auto simp: dispatch_cleanup_def bindE_Inr split: sum.splits)
  ultimately show ?thesis
    using load_claimed_SomeD [OF cleanup(1)] by (metis persist_cleanup_True)
next
  case (forward r b i)
  then have "remaining r = 7 - ps_rank (r_provisioning_step r)"
    by (simp add: remaining_def needs_cleanup_def)
  moreover from forward(3) obtain n where "persist_forward_result (dx_worker dx)
      (r_id r) (r_provisioning_step r) n (dx_env dx (3 * k + 1) (dx_env dx (3 * k) db))
      = Inr (True, db')"
    by (auto simp: dispatch_forward_def Let_def bindE_Inr split: sum.splits if_splits)
  ultimately show ?thesis
    using load_claimed_SomeD [OF forward(1)] by (metis persist_forward_True)
qed auto

text \<open>C28: the lifecycle loop ends. Whatever the adapters answer, eight iterations are enough
  for a claimed row, provided the other sessions do not add work to a row that this worker
  holds: the \<open>while True\<close> of the dispatcher always leaves.\<close>

theorem dispatch_claimed_terminates:
  assumes "\<forall>k d r'. get_resource (dx_env dx k d) rid = Some r' \<and> r_worker_id r' = Some (dx_worker dx)
    \<longrightarrow> (\<exists>r. get_resource d rid = Some r \<and> remaining r' \<le> remaining r)"
  shows "\<exists>db'. dispatch_claimed dx 8 k rid db = Some db'"
proof -
  have "\<exists>db'. dispatch_claimed dx (Suc fuel) k rid db = Some db'"
    if "\<forall>r. get_resource db rid = Some r \<longrightarrow> remaining r \<le> fuel" for fuel k db
    using that
  proof (induction fuel arbitrary: k db)
    case (Suc fuel)
    show ?case
    proof (cases "dispatch_iteration dx k rid db")
      case (Pair c d)
      show ?thesis
      proof (cases c)
        case True
        with Pair have "dispatch_iteration dx k rid db = (True, d)" by simp
        from dispatch_iteration_decreases [OF this] obtain r0 r' where
          "get_resource (dx_env dx (3 * k) db) rid = Some r0" "owns_claim (dx_worker dx) r0"
          "get_resource d rid = Some r'" "remaining r' < remaining r0" by blast
        moreover from this assms Suc.prems have "remaining r0 \<le> Suc fuel"
          by (metis le_trans owns_claim_def)
        ultimately have "\<forall>r. get_resource d rid = Some r \<longrightarrow> remaining r \<le> fuel" by auto
        from Suc.IH [OF this, of "Suc k"] show ?thesis using Pair True by simp
      qed (simp add: Pair)
    qed
  next
    case 0
    show ?case
    proof (cases "dispatch_iteration dx k rid db")
      case (Pair c d)
      have "\<not> c"
      proof
        assume c
        with Pair have "dispatch_iteration dx k rid db = (True, d)" by simp
        from dispatch_iteration_decreases [OF this] obtain r0 r' where
          "get_resource (dx_env dx (3 * k) db) rid = Some r0" "owns_claim (dx_worker dx) r0"
          "remaining r' < remaining r0" by blast
        moreover from this assms 0 have "remaining r0 \<le> 0" by (metis le_trans owns_claim_def)
        ultimately show False by simp
      qed
      then show ?thesis by (simp add: Pair)
    qed
  qed
  from this [of db 7] show ?thesis using remaining_bound by (simp add: numeral_eq_Suc)
qed

section \<open>Provisioning completes\<close>

text \<open>A claimed row in creation whose backend accepts work, with the multitenant adapter on a
  server that executes everything, and no other session around.\<close>

definition provisionable ::
    "dispatcher \<Rightarrow> (string \<Rightarrow> py_error + string) \<Rightarrow> string \<Rightarrow> metadb \<Rightarrow> resource \<Rightarrow> bool" where
  "provisionable dx decrypt rid db r \<longleftrightarrow>
     dx_env dx = (\<lambda>_ d. d) \<and> get_resource db rid = Some r \<and> owns_claim (dx_worker dx) r
   \<and> r_status r = ST_CREATING \<and> \<not> empty_text (r_database_name r)
   \<and> (\<exists>ctx. forward_ddl decrypt db r = Inr ctx)
   \<and> (\<exists>b i ii. get_backend db (r_backend_id r) = Some b \<and> b_status b \<noteq> BS_DISABLED
        \<and> b_instance_id b = Some ii \<and> get_instance db ii = Some i
        \<and> (\<forall>k. registry_get (dx_registry dx k) (i_engine i) (i_topology i)
              = Inr (multitenant_adapter (\<lambda>_ _. Inr True) decrypt)))"

lemma context_endpoint:
  "forward_ddl decrypt db r = Inr (b, i, c) \<Longrightarrow>
   \<not> empty_text (i_host i) \<and> i_port i \<noteq> None \<and> i_port i \<noteq> Some 0"
  by (auto simp: forward_ddl_def bindE_Inr backend_context_def split: option.splits if_splits)

lemma mt_create_accepting:
  assumes "forward_ddl decrypt db r = Inr ctx" "next_provisioning_step (r_provisioning_step r) = Some n"
    "r_provisioning_step r \<noteq> PS_GRANTED"
  shows "mt_create (\<lambda>_ _. Inr True) decrypt db r = Inr (r\<lparr>r_provisioning_step := n\<rparr>)"
proof -
  obtain r' where r': "mt_create (\<lambda>_ _. Inr True) decrypt db r = Inr r'"
    using assms(1) by (cases "r_provisioning_step r") (simp_all add: mt_create_def ddl_do_def)
  have "r_provisioning_step r < PS_GRANTED"
    using assms(2,3) by (cases "r_provisioning_step r") simp_all
  from mt_create_evidence [OF r' this]
  have "r' = r\<lparr>r_provisioning_step := r_provisioning_step r'\<rparr>" "r_provisioning_step r' = n"
    using assms(2) by simp_all
  with r' show ?thesis by metis
qed

lemma mt_verify_accepting:
  assumes "forward_ddl decrypt db r = Inr ctx" "r_provisioning_step r = PS_GRANTED"
    "\<not> empty_text (r_database_name r)"
  shows "mt_verify (\<lambda>_ _. Inr True) decrypt db r = Inr (r\<lparr>r_provisioning_step := PS_VERIFIED\<rparr>)"
proof -
  obtain b i c where ctx: "ctx = (b, i, c)" by (cases ctx)
  obtain x where x: "resource_credential decrypt r = Inr x"
    using assms(1) by (auto simp: forward_ddl_def bindE_Inr)
  note f = assms(1) [unfolded ctx]
  from context_endpoint [OF f] assms(2,3) show ?thesis
    by (simp add: mt_verify_def ddl_check_def f x)
qed

lemma provisionable_iteration:
  assumes p: "provisionable dx decrypt rid db r"
    and n: "next_provisioning_step (r_provisioning_step r) = Some n"
  shows "dispatch_iteration dx k rid db =
    (True, put_resource rid (\<lambda>r. (reset_retries r)\<lparr>r_provisioning_step := n\<rparr>) db)"
proof -
  let ?ad = "multitenant_adapter (\<lambda>_ _. Inr True) decrypt"
  from p obtain b i ii ctx where quiet: "dx_env dx = (\<lambda>_ d. d)" and r: "get_resource db rid = Some r"
    and own: "owns_claim (dx_worker dx) r" and st: "r_status r = ST_CREATING"
    and name: "\<not> empty_text (r_database_name r)" and ctx: "forward_ddl decrypt db r = Inr ctx"
    and b: "get_backend db (r_backend_id r) = Some b" "b_status b \<noteq> BS_DISABLED"
      "b_instance_id b = Some ii" "get_instance db ii = Some i"
    and reg: "registry_get (dx_registry dx k) (i_engine i) (i_topology i) = Inr ?ad"
    unfolding provisionable_def by blast
  have rid: "r_id r = rid" using r by auto
  have nv: "r_provisioning_step r \<noteq> PS_VERIFIED" using n by auto
  have work: "(if r_provisioning_step r = PS_GRANTED then ad_verify ?ad db r else ad_create ?ad db r)
      = Inr (r\<lparr>r_provisioning_step := n\<rparr>)"
    using mt_create_accepting [OF ctx n] mt_verify_accepting [OF ctx _ name] n
    by (auto simp: multitenant_adapter_def)
  have persist: "persist_forward_result (dx_worker dx) rid (r_provisioning_step r) n db =
      Inr (True, put_resource rid (\<lambda>r. (reset_retries r)\<lparr>r_provisioning_step := n\<rparr>) db)"
    using r own st b n by (simp add: persist_forward_result_def)
  have "dispatch_forward dx k r (Some b) (Some i) db db =
      (True, put_resource rid (\<lambda>r. (reset_retries r)\<lparr>r_provisioning_step := n\<rparr>) db)"
    using b(2) nv reg work persist
    by (simp add: dispatch_forward_def Let_def find_adapter_def rid)
  moreover have "load_claimed (dx_worker dx) rid db = Some (r, Some b, Some i)"
    using r own b by (simp add: load_claimed_def)
  moreover have "\<not> needs_cleanup r" using st by (simp add: needs_cleanup_def)
  ultimately show ?thesis
    using quiet st by (simp add: dispatch_iteration_def)
qed

lemma backend_context_put [simp]:
  "backend_context (put_resource rid f db) b = backend_context db b"
  by (cases "get_backend db b") (simp_all add: backend_context_def)

lemma resource_credential_cong:
  "r_credentials r' = r_credentials r \<Longrightarrow> r_id r' = r_id r \<Longrightarrow> r_database_name r' = r_database_name r
   \<Longrightarrow> resource_credential decrypt r' = resource_credential decrypt r"
  by (simp add: resource_credential_def access_credentials_def cong: list.case_cong)

lemma forward_ddl_step:
  "forward_ddl decrypt (put_resource rid f db) ((reset_retries r)\<lparr>r_provisioning_step := n\<rparr>) =
   forward_ddl decrypt db r"
proof -
  have "resource_credential decrypt ((reset_retries r)\<lparr>r_provisioning_step := n\<rparr>) =
      resource_credential decrypt r"
    by (rule resource_credential_cong) (simp_all add: reset_retries_def)
  then show ?thesis by (simp add: forward_ddl_def reset_retries_def)
qed

lemma provisionable_step:
  assumes "provisionable dx decrypt rid db r"
  shows "provisionable dx decrypt rid
    (put_resource rid (\<lambda>r. (reset_retries r)\<lparr>r_provisioning_step := n\<rparr>) db)
    ((reset_retries r)\<lparr>r_provisioning_step := n\<rparr>)"
  using assms unfolding provisionable_def forward_ddl_step
  by (simp add: tget_tupd reset_retries_def owns_claim_def)

lemma provisionable_finish:
  assumes p: "provisionable dx decrypt rid db r" and v: "r_provisioning_step r = PS_VERIFIED"
  shows "dispatch_iteration dx k rid db = (False, put_resource rid ready_row db)"
proof -
  from p obtain b i ii where quiet: "dx_env dx = (\<lambda>_ d. d)" and r: "get_resource db rid = Some r"
    and own: "owns_claim (dx_worker dx) r" and st: "r_status r = ST_CREATING"
    and b: "get_backend db (r_backend_id r) = Some b" "b_status b \<noteq> BS_DISABLED"
      "b_instance_id b = Some ii" "get_instance db ii = Some i"
    and reg: "registry_get (dx_registry dx k) (i_engine i) (i_topology i)
      = Inr (multitenant_adapter (\<lambda>_ _. Inr True) decrypt)"
    unfolding provisionable_def by blast
  have rid: "r_id r = rid" using r by auto
  have "load_claimed (dx_worker dx) rid db = Some (r, Some b, Some i)"
    using r own b by (simp add: load_claimed_def)
  moreover have "\<not> needs_cleanup r" using st by (simp add: needs_cleanup_def)
  ultimately show ?thesis
    using quiet st r own v b reg
    by (simp add: dispatch_iteration_def dispatch_forward_def find_adapter_def finish_ready_def rid)
qed

lemma provisionable_completes:
  assumes "provisionable dx decrypt rid db r"
  shows "\<exists>db' r'. dispatch_claimed dx (Suc fuel + (6 - ps_rank (r_provisioning_step r))) k rid db = Some db'
    \<and> get_resource db' rid = Some r' \<and> r_status r' = ST_READY
    \<and> r_provisioning_step r' = PS_VERIFIED \<and> r_worker_id r' = None
    \<and> r_credentials r' = r_credentials r"
  using assms
proof (induction "6 - ps_rank (r_provisioning_step r)" arbitrary: k db r)
  case 0
  then have v: "r_provisioning_step r = PS_VERIFIED" by (cases "r_provisioning_step r") auto
  have "get_resource db rid = Some r" using 0 by (simp add: provisionable_def)
  with v provisionable_finish [OF 0(2) v, of k] show ?case
    by (simp add: tget_tupd ready_row_def clear_claim_def reset_retries_def)
next
  case (Suc m)
  then obtain n where n: "next_provisioning_step (r_provisioning_step r) = Some n"
    by (cases "r_provisioning_step r") auto
  let ?r = "(reset_retries r)\<lparr>r_provisioning_step := n\<rparr>"
  let ?db = "put_resource rid (\<lambda>r. (reset_retries r)\<lparr>r_provisioning_step := n\<rparr>) db"
  have rank: "ps_rank n = Suc (ps_rank (r_provisioning_step r))"
    by (rule provisioning_chain.rank_next [OF n])
  then have m: "m = 6 - ps_rank (r_provisioning_step ?r)" using Suc.hyps(2) by simp
  have fuel: "Suc fuel + (6 - ps_rank (r_provisioning_step r))
      = Suc (Suc fuel + (6 - ps_rank (r_provisioning_step ?r)))"
    using Suc.hyps(2) m by simp
  from Suc.hyps(1) [OF m provisionable_step [OF Suc.prems], of "Suc k"]
  show ?case
    by (simp only: fuel dispatch_claimed.simps provisionable_iteration [OF Suc.prems n] prod.case
        bool.case) (simp add: reset_retries_def)
qed

text \<open>C29: creation succeeds when nothing prevents it. A resource in creation that a worker has
  claimed, whose backend is not disabled and whose names and credential are in order, reaches
  \<open>READY\<close> with all steps done and the claim released in one run of the loop, if the remote
  server executes what it is asked to.\<close>

theorem provisioning_completes:
  assumes "provisionable dx decrypt rid db r"
  shows "\<exists>db' r'. dispatch_claimed dx 8 0 rid db = Some db' \<and> get_resource db' rid = Some r'
    \<and> r_status r' = ST_READY \<and> r_provisioning_step r' = PS_VERIFIED \<and> r_worker_id r' = None
    \<and> r_credentials r' = r_credentials r"
proof -
  have fuel: "Suc (1 + ps_rank (r_provisioning_step r)) + (6 - ps_rank (r_provisioning_step r)) = 8"
    using provisioning_chain.rank_top [of "r_provisioning_step r"] by simp
  show ?thesis
    using provisionable_completes [OF assms, of "1 + ps_rank (r_provisioning_step r)" 0]
    unfolding fuel .
qed

section \<open>Deletion completes\<close>

text \<open>A claimed row that the multitenant adapter can work on with administrator rights, on a
  server that executes everything, and no other session around.\<close>

definition deletable_by ::
    "dispatcher \<Rightarrow> string \<Rightarrow> metadb \<Rightarrow> resource \<Rightarrow> bool" where
  "deletable_by dx rid db r \<longleftrightarrow>
     dx_env dx = (\<lambda>_ d. d) \<and> get_resource db rid = Some r \<and> owns_claim (dx_worker dx) r
   \<and> cleanup_ddl db r = Inr ()
   \<and> (\<exists>b i ii decrypt. get_backend db (r_backend_id r) = Some b
        \<and> b_instance_id b = Some ii \<and> get_instance db ii = Some i
        \<and> (\<forall>k. registry_get (dx_registry dx k) (i_engine i) (i_topology i)
              = Inr (multitenant_adapter (\<lambda>_ _. Inr True) decrypt)))"

lemma deletable_byE:
  assumes "deletable_by dx rid db r"
  obtains b i decrypt where "dx_env dx = (\<lambda>_ d. d)" "get_resource db rid = Some r" "r_id r = rid"
    "owns_claim (dx_worker dx) r" "cleanup_ddl db r = Inr ()"
    "load_claimed (dx_worker dx) rid db = Some (r, Some b, Some i)"
    "\<And>k. find_adapter (dx_registry dx k) (Some b) (Some i)
        = Inr (multitenant_adapter (\<lambda>_ _. Inr True) decrypt)"
  using assms unfolding deletable_by_def
  by (auto simp: load_claimed_def find_adapter_def)

lemma mt_delete_accepting:
  assumes "cleanup_ddl db r = Inr ()" and "next_cleanup_step (r_cleanup_step r) = Some n"
  shows "mt_delete (\<lambda>_ _. Inr True) db r = Inr (r\<lparr>r_cleanup_step := n\<rparr>)"
proof -
  obtain r' where r': "mt_delete (\<lambda>_ _. Inr True) db r = Inr r'"
    using assms(1) by (cases "r_cleanup_step r") (simp_all add: mt_delete_def ddl_do_def ddl_check_def)
  have "r_cleanup_step r \<noteq> CS_RESIDUE_VERIFIED" using assms(2) by auto
  from mt_delete_evidence [OF r' this]
  have "r' = r\<lparr>r_cleanup_step := r_cleanup_step r'\<rparr>" "r_cleanup_step r' = n"
    using assms(2) by auto
  with r' show ?thesis by metis
qed

lemma deletable_by_cong:
  assumes "deletable_by dx rid db r" and "r_id (f r) = r_id r" "r_worker_id (f r) = r_worker_id r"
    "r_backend_id (f r) = r_backend_id r" "r_tenant_name (f r) = r_tenant_name r"
    "r_database_name (f r) = r_database_name r"
    "r_resource_config_name (f r) = r_resource_config_name r"
    and "\<And>r. r_id (f r) = r_id r"
  shows "deletable_by dx rid (put_resource rid f db) (f r)"
proof -
  have "cleanup_account_name (f r) = cleanup_account_name r"
    using assms by (simp add: cleanup_account_name_def)
  then have "cleanup_ddl (put_resource rid f db) (f r) = cleanup_ddl db r"
    using assms by (simp add: cleanup_ddl_def)
  with assms show ?thesis
    unfolding deletable_by_def by (simp add: tget_tupd owns_claim_def)
qed

definition wiped :: "string \<Rightarrow> resource \<Rightarrow> bool" where
  "wiped rid r \<longleftrightarrow> (\<forall>c \<in> set (r_credentials r).
     c_resource_id c = Some rid \<and> c_purpose c = RESOURCE_ACCESS \<longrightarrow>
     c_status c = CRED_REVOKED \<and> c_username_ciphertext c = None \<and> c_password_ciphertext c = None)"

lemma cleanup_step_iteration:
  assumes d: "deletable_by dx rid db r" and nc: "needs_cleanup r"
    and n: "next_cleanup_step (r_cleanup_step r) = Some n" and nv: "n \<noteq> CS_RESIDUE_VERIFIED"
  shows "dispatch_iteration dx k rid db =
    (True, put_resource rid (\<lambda>r. (reset_retries r)\<lparr>r_cleanup_step := n\<rparr>) db)"
  using d
proof (rule deletable_byE)
  fix b i decrypt
  assume a: "dx_env dx = (\<lambda>_ d. d)" "get_resource db rid = Some r" "r_id r = rid"
    "owns_claim (dx_worker dx) r" "cleanup_ddl db r = Inr ()"
    "load_claimed (dx_worker dx) rid db = Some (r, Some b, Some i)"
    "\<And>k. find_adapter (dx_registry dx k) (Some b) (Some i)
        = Inr (multitenant_adapter (\<lambda>_ _. Inr True) decrypt)"
  have work: "ad_delete (multitenant_adapter (\<lambda>_ _. Inr True) decrypt) db r
      = Inr (r\<lparr>r_cleanup_step := n\<rparr>)"
    by (simp add: multitenant_adapter_def mt_delete_accepting [OF a(5) n])
  have persist: "persist_cleanup_result (dx_worker dx) (dx_clock dx k) rid (r_status r)
      (r_cleanup_step r) n db
      = Inr (True, put_resource rid (\<lambda>r. (reset_retries r)\<lparr>r_cleanup_step := n\<rparr>) db)"
    using a(2,4) nc n nv by (simp add: persist_cleanup_result_def)
  have "dispatch_cleanup dx k r (Some b) (Some i) db db
      = (True, put_resource rid (\<lambda>r. (reset_retries r)\<lparr>r_cleanup_step := n\<rparr>) db)"
    by (simp add: dispatch_cleanup_def a(7) work a(3) persist)
  then show ?thesis
    using nc by (auto simp: dispatch_iteration_def a(1,6) needs_cleanup_def irreversible_step_def)
qed

lemma cleanup_last_iteration:
  assumes d: "deletable_by dx rid db r" and nc: "needs_cleanup r" and b: "books db"
    and n: "r_cleanup_step r \<in> {CS_RESOURCE_CONFIG_DROPPED, CS_RESIDUE_VERIFIED}"
  shows "\<exists>db'. dispatch_iteration dx k rid db = (False, db') \<and>
    get_resource db' rid = Some (cleaned_row (dx_clock dx k) r) \<and> books db'"
  using d
proof (rule deletable_byE)
  fix bk i decrypt
  assume a: "dx_env dx = (\<lambda>_ d. d)" "get_resource db rid = Some r" "r_id r = rid"
    "owns_claim (dx_worker dx) r" "cleanup_ddl db r = Inr ()"
    "load_claimed (dx_worker dx) rid db = Some (r, Some bk, Some i)"
    "\<And>k. find_adapter (dx_registry dx k) (Some bk) (Some i)
        = Inr (multitenant_adapter (\<lambda>_ _. Inr True) decrypt)"
  have mem: "r \<in> set (resources db)" using a(2) tget_SomeD by fast
  obtain db1 where rel: "(if r_capacity_released_at r = None
      then release_on_cleanup (r_owner_agent_id r) (r_backend_id r) db else Inr db) = Inr db1"
    using cleanup_ledger.release_succeeds [OF _ mem] b
    by (cases "r_capacity_released_at r") (auto simp: books_def)
  have rows: "resources db1 = resources db"
    using rel cleanup_ledger.release_rows by (auto split: if_splits)
  let ?db' = "put_resource rid (cleaned_row (dx_clock dx k)) db1"
  have fin: "finish_cleanup_locked (dx_clock dx k) r db = Inr ?db'"
    by (simp add: finish_cleanup_locked_def rel a(3))
  have work: "\<exists>r'. ad_delete (multitenant_adapter (\<lambda>_ _. Inr True) decrypt) db r = Inr r'
      \<and> r_cleanup_step r' = CS_RESIDUE_VERIFIED"
    using n a(5) by (auto simp: multitenant_adapter_def mt_delete_def ddl_check_def)
  have persist: "persist_cleanup_result (dx_worker dx) (dx_clock dx k) rid (r_status r)
      (r_cleanup_step r) CS_RESIDUE_VERIFIED db = Inr (False, ?db')"
    using a(2,4) nc n fin by (auto simp: persist_cleanup_result_def)
  have "dispatch_cleanup dx k r (Some bk) (Some i) db db = (False, ?db')"
    using work persist by (auto simp: dispatch_cleanup_def a(7) a(3))
  then have it: "dispatch_iteration dx k rid db = (False, ?db')"
    using nc by (auto simp: dispatch_iteration_def a(1,6) needs_cleanup_def irreversible_step_def)
  have "get_resource ?db' rid = Some (cleaned_row (dx_clock dx k) r)"
    using a(2) by (simp add: tget_tupd rows)
  moreover have "books ?db'" using persist b by (rule persist_cleanup_books)
  ultimately show ?thesis using it by blast
qed

lemma cleanup_last_run:
  assumes "deletable_by dx rid db r" and "needs_cleanup r" and "books db"
    and "r_cleanup_step r \<in> {CS_RESOURCE_CONFIG_DROPPED, CS_RESIDUE_VERIFIED}"
  shows "\<exists>db' r0 now. dispatch_claimed dx (Suc fuel + m) k rid db = Some db'
    \<and> get_resource db' rid = Some (cleaned_row now r0) \<and> books db'
    \<and> r_status r0 = r_status r \<and> r_id r0 = rid"
proof -
  from cleanup_last_iteration [OF assms, of k] obtain db' where
    it: "dispatch_iteration dx k rid db = (False, db')"
    and rest: "get_resource db' rid = Some (cleaned_row (dx_clock dx k) r)" "books db'" by blast
  have "r_id r = rid" using assms(1) by (auto simp: deletable_by_def)
  moreover have "dispatch_claimed dx (Suc fuel + m) k rid db = Some db'" using it by simp
  ultimately show ?thesis using rest by blast
qed

lemma cleanup_run:
  assumes "deletable_by dx rid db r" and "needs_cleanup r" and "books db"
  shows "\<exists>db' r0 now. dispatch_claimed dx (Suc fuel + (4 - cs_rank (r_cleanup_step r))) k rid db = Some db'
    \<and> get_resource db' rid = Some (cleaned_row now r0) \<and> books db'
    \<and> r_status r0 = r_status r \<and> r_id r0 = rid"
  using assms
proof (induction "4 - cs_rank (r_cleanup_step r)" arbitrary: k db r)
  case 0
  then have "r_cleanup_step r \<in> {CS_RESOURCE_CONFIG_DROPPED, CS_RESIDUE_VERIFIED}"
    by (cases "r_cleanup_step r") auto
  with 0(2,3,4) show ?case by (rule cleanup_last_run)
next
  case (Suc m)
  then obtain n where n: "next_cleanup_step (r_cleanup_step r) = Some n"
    by (cases "r_cleanup_step r") auto
  show ?case
  proof (cases "n = CS_RESIDUE_VERIFIED")
    case True
    with n have "r_cleanup_step r \<in> {CS_RESOURCE_CONFIG_DROPPED, CS_RESIDUE_VERIFIED}"
      by (cases "r_cleanup_step r") auto
    with Suc.prems show ?thesis by (rule cleanup_last_run)
  next
    case False
    let ?f = "\<lambda>r. (reset_retries r)\<lparr>r_cleanup_step := n\<rparr>"
    have rank: "cs_rank n = Suc (cs_rank (r_cleanup_step r))"
      by (rule cleanup_chain.rank_next [OF n])
    then have m: "m = 4 - cs_rank (r_cleanup_step (?f r))" using Suc.hyps(2) by simp
    have d: "deletable_by dx rid (put_resource rid ?f db) (?f r)"
      by (rule deletable_by_cong [OF Suc.prems(1)]) (simp_all add: reset_retries_def)
    have nc: "needs_cleanup (?f r)"
      using Suc.prems(2) by (simp add: needs_cleanup_def reset_retries_def)
    have bk: "books (put_resource rid ?f db)"
      using Suc.prems(3) by (rule books_row_update [rotated])
        (rule row_update_put, simp add: same_identity_def reset_retries_def)
    have fuel: "Suc fuel + (4 - cs_rank (r_cleanup_step r))
        = Suc (Suc fuel + (4 - cs_rank (r_cleanup_step (?f r))))"
      using Suc.hyps(2) m by simp
    from Suc.hyps(1) [OF m d nc bk, of "Suc k"]
    show ?thesis
      by (simp only: fuel dispatch_claimed.simps prod.case bool.case
          cleanup_step_iteration [OF Suc.prems(1,2) n False]) (simp add: reset_retries_def)
  qed
qed

text \<open>C30: deletion completes once the cooldown is over. A claimed resource that is cooling down
  and whose cooldown has run out is cleaned up in one run of the loop, if the remote server
  accepts every statement, no other session interferes and the capacity books balance: it ends in \<open>DELETED\<close> with its capacity given back, no usable
  credential and no stored secret left, and the capacity books balanced.\<close>

theorem deletion_completes:
  assumes "deletable_by dx rid db r" and "books db"
    and "r_status r = ST_COOLING_DOWN" "r_delete_step r = DS_COOLING_DOWN"
    and "r_disconnected_at r \<noteq> None" "r_cooldown_until r = Some until" "until \<le> dx_clock dx 0"
  shows "\<exists>db' r'. dispatch_claimed dx 8 0 rid db = Some db' \<and> get_resource db' rid = Some r'
    \<and> r_status r' = ST_DELETED \<and> r_delete_step r' = DS_COMPLETE \<and> r_worker_id r' = None
    \<and> r_capacity_released_at r' \<noteq> None \<and> wiped rid r' \<and> accounted active_count db'"
proof -
  let ?f = "\<lambda>r. r\<lparr>r_status := ST_DELETING, r_delete_step := DS_LOGICAL_CLEANUP,
        r_cleanup_required := True\<rparr>"
  let ?db = "put_resource rid ?f db"
  have d: "deletable_by dx rid ?db (?f r)"
    by (rule deletable_by_cong [OF assms(1)]) simp_all
  have nc: "needs_cleanup (?f r)" by (simp add: needs_cleanup_def)
  have bk: "books ?db"
    using assms(2) by (rule books_row_update [rotated])
      (rule row_update_put, simp add: same_identity_def)
  have first: "dispatch_iteration dx 0 rid db = (True, ?db)"
    using assms(1)
  proof (rule deletable_byE)
    fix b i decrypt
    assume "dx_env dx = (\<lambda>_ d. d)" "get_resource db rid = Some r" "owns_claim (dx_worker dx) r"
      "load_claimed (dx_worker dx) rid db = Some (r, Some b, Some i)"
    with assms(3-7) show ?thesis by (simp add: dispatch_iteration_def begin_cleanup_def)
  qed
  have fuel: "Suc (2 + cs_rank (r_cleanup_step (?f r))) + (4 - cs_rank (r_cleanup_step (?f r))) = 7"
    using cleanup_chain.rank_top [of "r_cleanup_step (?f r)"] by simp
  from cleanup_run [OF d nc bk, of "2 + cs_rank (r_cleanup_step (?f r))" "Suc 0", unfolded fuel]
  obtain db' r0 now where run: "dispatch_claimed dx 7 (Suc 0) rid ?db = Some db'"
    "get_resource db' rid = Some (cleaned_row now r0)" "books db'" "r_status r0 = ST_DELETING"
    "r_id r0 = rid" by auto
  have "dispatch_claimed dx 8 0 rid db = Some db'"
    using run(1) first dispatch_claimed.simps(2) [of dx 7 0 rid db] by simp
  moreover have "wiped rid (cleaned_row now r0)"
    using run(5) by (auto simp: wiped_def cleaned_row_def clear_claim_def reset_retries_def
        wipe_access_def split: if_splits)
  ultimately show ?thesis
    using run by (auto simp: cleaned_row_def clear_claim_def reset_retries_def books_def
        split: option.splits)
qed

section \<open>The irreversible boundary\<close>

lemma finish_cleanup_resources:
  "finish_cleanup_locked now r db = Inr db' \<Longrightarrow>
   resources db' = tupd r_id (r_id r) (cleaned_row now) (resources db)"
  by (auto simp: finish_cleanup_locked_def bindE_Inr dest: cleanup_ledger.release_rows
      split: if_splits)

lemma persist_cleanup_delete_step:
  assumes "persist_cleanup_result w now rid s e n db = Inr (c, db')"
    and "get_resource db rid = Some r" and "get_resource db' rid = Some r'"
    and "\<not> irreversible_step (r_delete_step r)"
  shows "\<not> irreversible_step (r_delete_step r')"
proof -
  have id: "r_id r = rid" using assms(2) by auto
  consider "db' = db" | "resources db' = tupd r_id rid (cleaned_row now) (resources db)" "needs_cleanup r"
    | "resources db' = tupd r_id rid (\<lambda>r. (reset_retries r)\<lparr>r_cleanup_step := n\<rparr>) (resources db)"
    using assms(1,2) id
    by (auto simp: persist_cleanup_result_def bindE_Inr split: if_splits
        dest: finish_cleanup_resources)
  then show ?thesis
  proof cases
    case 2
    with assms(4) have "r_status r \<noteq> ST_DELETING"
      by (auto simp: needs_cleanup_def irreversible_step_def)
    then have "r_delete_step (cleaned_row now r) = r_delete_step r"
      by (simp add: cleaned_row_def clear_claim_def reset_retries_def)
    with 2 assms(2-4) show ?thesis by (auto simp: tget_tupd)
  qed (use assms(2-4) in \<open>auto simp: tget_tupd reset_retries_def\<close>)
qed

lemma retry_later_delete_step [simp]:
  assumes "\<And>r. r_delete_step (g r) = r_delete_step r"
  shows "r_delete_step (retry_later cfg now reason g r) = r_delete_step r"
  using assms by (simp add: retry_later_def clear_claim_def Let_def)

lemma give_up_delete_step [simp]: "r_delete_step (give_up ph r) = r_delete_step r"
  by (cases ph) (simp_all add: give_up_def)

text \<open>The transactions that never change the delete step to an irreversible one.\<close>

lemma record_failure_delete_step:
  assumes "get_resource db rid = Some r" and "get_resource (record_failure cfg w now rid e ph s f c db) rid = Some r'"
  shows "r_delete_step r' = r_delete_step r"
proof -
  have keep: "r_delete_step r' = r_delete_step r"
    if "record_failure cfg w now rid e ph s f c db = put_resource rid g db"
      "\<And>r. r_id (g r) = r_id r" "\<And>r. r_delete_step (g r) = r_delete_step r" for g
    using assms that by (auto simp: tget_tupd)
  let ?u = "\<lambda>r. clear_claim (r\<lparr>r_cleanup_required := True, r_retry_count := 0,
                 r_next_retry_at := None,
                 r_failure_reason := Some (''Provisioning step failed with '' @ type_name e)\<rparr>)"
  let ?v = "retry_later cfg now ((case ph of CLEANUP \<Rightarrow> ''Cleanup'' | FORWARD \<Rightarrow> ''Provisioning'')
                     @ '' step failed with '' @ type_name e) (give_up ph)"
  consider "record_failure cfg w now rid e ph s f c db = db"
    | "record_failure cfg w now rid e ph s f c db = put_resource rid ?u db"
    | "record_failure cfg w now rid e ph s f c db = put_resource rid clear_claim db"
    | "record_failure cfg w now rid e ph s f c db = put_resource rid ?v db"
    unfolding record_failure_def assms(1) option.case by argo
  then show ?thesis
  proof cases
    case 1
    then show ?thesis using assms by simp
  next
    case 4
    have "r_id (?v x) = r_id x" for x
      using same_identity_retry [of "give_up ph" cfg now _ x, OF same_identity_give_up]
      by (simp add: same_identity_def)
    from keep [OF 4 this] show ?thesis by simp
  qed (erule keep; simp add: clear_claim_def)+
qed

text \<open>C8: data is destroyed only after the cooldown. The only transaction of a worker that takes
  a resource over the irreversible boundary is the one that finds it cooling down, disconnected,
  and with its cooldown over.\<close>

theorem irreversible_only_after_cooldown:
  assumes "dispatcher_tx cfg w now rid db db'"
    and "get_resource db rid = Some r" and "get_resource db' rid = Some r'"
    and "\<not> irreversible_step (r_delete_step r)" and "irreversible_step (r_delete_step r')"
  shows "r_status r = ST_COOLING_DOWN \<and> r_delete_step r = DS_COOLING_DOWN
    \<and> r_disconnected_at r \<noteq> None \<and> (\<exists>until. r_cooldown_until r = Some until \<and> until \<le> now)"
  using assms(1)
proof cases
  case (tx_cleanup s e n c)
  from persist_cleanup_delete_step [OF tx_cleanup assms(2,3,4)] assms(5) show ?thesis by simp
next
  case (tx_failure e ph s f c)
  with record_failure_delete_step [OF assms(2)] assms(3-5) show ?thesis by metis
next
  case (tx_disconnect e n c)
  then have "next_delete_step e = Some n \<or> db' = db"
    by (auto simp: persist_disconnect_result_def split: if_splits option.splits)
  moreover have "\<not> irreversible_step n" if "next_delete_step e = Some n"
    using that by (cases e) (auto simp: irreversible_step_def)
  ultimately show ?thesis
    using tx_disconnect assms(2-5)
    by (auto simp: persist_disconnect_result_def tget_tupd clear_claim_def reset_retries_def
        irreversible_step_def split: if_splits option.splits)
next
  case (tx_begin_cleanup c)
  with assms(2-5) show ?thesis
    by (auto simp: begin_cleanup_def tget_tupd clear_claim_def split: if_splits option.splits)
qed (use assms(2-5) in \<open>auto simp: finish_restore_def record_disconnect_failure_def
      record_restore_failure_def queue_disabled_def persist_forward_result_def finish_ready_def
      release_claim_def tget_tupd restored_row_def clear_claim_def reset_retries_def
      backend_disabled_row_def ready_row_def retry_later_def irreversible_step_def Let_def
      split: if_splits option.splits\<close>)

section \<open>Retries\<close>

text \<open>the wait between retries doubles and is capped. Under a valid configuration it is at
  least one second, never more than the configured maximum, never shrinks from one retry to the
  next and at most doubles.\<close>

theorem backoff_bounded:
  assumes "valid_config cfg" and "1 \<le> n"
  shows "seconds 1 \<le> backoff cfg n \<and> backoff cfg n \<le> seconds (cfg_worker_max_backoff_seconds cfg)
    \<and> backoff cfg n \<le> backoff cfg (n + 1) \<and> backoff cfg (n + 1) \<le> 2 * backoff cfg n"
proof -
  define a where "a = cfg_worker_initial_backoff_seconds cfg"
  define m where "m = cfg_worker_max_backoff_seconds cfg"
  define p where "p = (2::int) ^ nat (n - 1)"
  have am: "1 \<le> a" "a \<le> m" using valid_configD [OF assms(1)] by (simp_all add: a_def m_def)
  have p: "1 \<le> p" by (simp add: p_def)
  have "nat (n + 1 - 1) = Suc (nat (n - 1))" using assms(2) by simp
  then have succ: "backoff cfg (n + 1) = seconds (min (a * (2 * p)) m)"
    by (simp add: backoff_def a_def m_def p_def)
  have this_one: "backoff cfg n = seconds (min (a * p) m)"
    by (simp add: backoff_def a_def m_def p_def)
  have "1 \<le> a * p" using am p by (metis mult_mono' mult_1 zero_le_one)
  moreover have "min (a * (2 * p)) m \<le> 2 * min (a * p) m"
    using am calculation by (simp add: min_def)
  moreover have "min (a * p) m \<le> min (a * (2 * p)) m" using calculation(1) by (simp add: min_def)
  moreover have "1 \<le> min (a * p) m" using calculation(1) am by simp
  ultimately show ?thesis
    unfolding succ this_one m_def [symmetric] by (simp add: seconds_def)
qed

theorem backoff_bounded_witness: "seconds 1 \<le> backoff default_config 3"
  using backoff_bounded [OF valid_config_default, of 3] by simp

text \<open>a failing step is retried a bounded number of times and never forgotten. When a
  provisioning step of a claimed resource fails, the claim is released and either the retry
  counter grows and the next attempt is scheduled after the backoff, or the retries are used up
  and the resource becomes \<open>FAILED\<close> with its cleanup scheduled; a cleanup step that keeps failing
  ends in \<open>DELETE_FAILED\<close>. Nothing else of the database changes.\<close>

theorem failure_escalates:
  assumes "get_resource db rid = Some r" and "r_worker_id r = Some w"
    and "if ph = FORWARD then r_status r = ST_CREATING else needs_cleanup r"
    and "db' = record_failure cfg w now rid e ph (r_status r) (r_provisioning_step r)
      (r_cleanup_step r) db"
  shows "(\<exists>r'. get_resource db' rid = Some r' \<and> r_worker_id r' = None \<and> r_worker_lease_until r' = None
      \<and> (if r_retry_count r < cfg_worker_max_retries cfg
         then r_status r' = r_status r \<and> r_retry_count r' = r_retry_count r + 1
           \<and> r_next_retry_at r' = Some (now + backoff cfg (r_retry_count r + 1))
         else r_next_retry_at r' = None \<and>
           (if ph = FORWARD
            then r_status r' = ST_FAILED \<and> r_cleanup_required r' \<and> r_retry_count r' = 0
            else r_status r' = ST_DELETE_FAILED)))
    \<and> (\<forall>j. j \<noteq> rid \<longrightarrow> get_resource db' j = get_resource db j)
    \<and> capacities db' = capacities db \<and> members db' = members db \<and> backends db' = backends db"
proof -
  let ?v = "retry_later cfg now ((case ph of CLEANUP \<Rightarrow> ''Cleanup'' | FORWARD \<Rightarrow> ''Provisioning'')
                     @ '' step failed with '' @ type_name e) (give_up ph)"
  have db': "db' = put_resource rid ?v db"
    using assms by (cases ph) (simp_all add: record_failure_def owns_claim_def)
  have id: "r_id (?v x) = r_id x" for x
    using same_identity_retry [of "give_up ph" cfg now _ x, OF same_identity_give_up]
    by (simp add: same_identity_def)
  have row: "get_resource db' j = (if j = rid then Some (?v r) else get_resource db j)" for j
    unfolding db' resources_put_resource tget_tupd [where key = r_id and f = ?v, OF id]
    using assms(1) by simp
  have claim: "r_worker_id (?v r) = None" "r_worker_lease_until (?v r) = None"
    unfolding retry_later_def Let_def clear_claim_def by simp_all
  have next_try: "if r_retry_count r < cfg_worker_max_retries cfg
         then r_status (?v r) = r_status r \<and> r_retry_count (?v r) = r_retry_count r + 1
           \<and> r_next_retry_at (?v r) = Some (now + backoff cfg (r_retry_count r + 1))
         else r_next_retry_at (?v r) = None \<and>
           (if ph = FORWARD
            then r_status (?v r) = ST_FAILED \<and> r_cleanup_required (?v r) \<and> r_retry_count (?v r) = 0
            else r_status (?v r) = ST_DELETE_FAILED)"
    by (cases ph; cases "r_retry_count r < cfg_worker_max_retries cfg")
      (simp_all add: retry_later_def clear_claim_def give_up_def Let_def)
  have "capacities db' = capacities db" "members db' = members db" "backends db' = backends db"
    by (simp_all add: db')
  with claim next_try row show ?thesis by auto
qed

section \<open>A run on the small deployment\<close>

definition example_dispatcher :: "time \<Rightarrow> dispatcher" where
  "example_dispatcher t = \<lparr>dx_config = default_config, dx_worker = ''w1'',
     dx_registry = (\<lambda>_. [((POLARDB_MYSQL, MULTITENANT), multitenant_adapter (\<lambda>_ _. Inr True) Inr)]),
     dx_clock = (\<lambda>_. t), dx_env = (\<lambda>_ d. d)\<rparr>"

definition claimed_example :: resource where
  "claimed_example = example_resource
     \<lparr>r_worker_id := Some ''w1'', r_worker_lease_until := Some (seconds 120)\<rparr>"

definition example_books_db :: "resource \<Rightarrow> metadb" where
  "example_books_db r = example_db\<lparr>resources := [r],
     capacities := [\<lparr>cap_scope_type = ''agent'', cap_scope_id = ''ag'', cap_active_count = 1\<rparr>,
       \<lparr>cap_scope_type = ''backend'', cap_scope_id = ''be'', cap_active_count = 1\<rparr>]\<rparr>"

lemma example_row [simp]:
  "r_id example_resource = ''r1''" "r_status example_resource = ST_CREATING"
  "r_backend_id example_resource = ''be''" "r_owner_agent_id example_resource = ''ag''"
  "r_capacity_released_at example_resource = None" "r_worker_id example_resource = None"
  "r_mode example_resource = MODE_MULTITENANT" "r_next_retry_at example_resource = None"
  "r_tenant_name example_resource = Some ''tabcdefghi''"
  "r_database_name example_resource = Some ''agentic@tabcdefghi''"
  "r_resource_config_name example_resource = Some ''rc_tabcdefghi''"
  "r_delete_step example_resource = DS_PENDING" "r_retry_count example_resource = 0"
  by (simp_all add: example_resource_def build_resource_def new_resource_def Let_def
      new_database_identity_def example_draws_def)

lemma example_books:
  assumes "r_owner_agent_id r = ''ag''" "r_backend_id r = ''be''" "r_capacity_released_at r = None"
  shows "books (example_books_db r)"
  using assms by (auto simp: books_def accounted_def active_count_def example_books_db_def cap_key_def
      holds_agent_def holds_backend_def uniq_def)

lemma example_provisionable:
  "provisionable (example_dispatcher 0) Inr ''r1'' (example_books_db claimed_example) claimed_example"
proof -
  have "forward_ddl Inr (example_books_db claimed_example) claimed_example =
     Inr (hd (backends example_db), hd (instances example_db), hd (credentials example_db))"
    using example_forward_ddl [where s = "r_provisioning_step example_resource"
        and w = "Some ''w1''" and l = "Some (seconds 120)"]
    by (simp add: example_books_db_def claimed_example_def)
  then show ?thesis
    by (simp add: provisionable_def claimed_example_def example_books_db_def example_dispatcher_def
        owns_claim_def empty_text_def registry_get_def example_defs)
qed

theorem provisioning_completes_witness:
  "\<exists>db' r'. dispatch_claimed (example_dispatcher 0) 8 0 ''r1'' (example_books_db claimed_example) = Some db'
     \<and> get_resource db' ''r1'' = Some r' \<and> r_status r' = ST_READY"
  using provisioning_completes [OF example_provisionable] by blast

lemma example_deletable:
  assumes "r_id r = ''r1''" "r_worker_id r = Some ''w1''" "r_backend_id r = ''be''"
    "r_tenant_name r = Some ''tabcdefghi''" "r_database_name r = Some ''agentic@tabcdefghi''"
    "r_resource_config_name r = Some ''rc_tabcdefghi''"
  shows "deletable_by (example_dispatcher t) ''r1'' (example_books_db r) r"
  using assms
  by (simp add: deletable_by_def example_books_db_def example_dispatcher_def owns_claim_def
      cleanup_ddl_def backend_context_def cleanup_account_name_def empty_text_def registry_get_def
      example_defs) (rule exI [of _ Inr], rule refl)

definition cooled_example :: resource where
  "cooled_example = claimed_example\<lparr>r_status := ST_COOLING_DOWN, r_delete_step := DS_COOLING_DOWN,
     r_disconnected_at := Some 0, r_cooldown_until := Some (hours 24)\<rparr>"

theorem deletion_completes_witness:
  "\<exists>db' r'. dispatch_claimed (example_dispatcher (hours 24)) 8 0 ''r1'' (example_books_db cooled_example)
        = Some db' \<and> get_resource db' ''r1'' = Some r' \<and> r_status r' = ST_DELETED"
proof -
  have d: "deletable_by (example_dispatcher (hours 24)) ''r1'' (example_books_db cooled_example)
      cooled_example"
    by (rule example_deletable) (simp_all add: cooled_example_def claimed_example_def)
  have b: "books (example_books_db cooled_example)"
    by (rule example_books) (simp_all add: cooled_example_def claimed_example_def)
  have "r_status cooled_example = ST_COOLING_DOWN" "r_delete_step cooled_example = DS_COOLING_DOWN"
    "r_disconnected_at cooled_example \<noteq> None" "r_cooldown_until cooled_example = Some (hours 24)"
    "hours 24 \<le> dx_clock (example_dispatcher (hours 24)) 0"
    by (simp_all add: cooled_example_def example_dispatcher_def)
  from deletion_completes [OF d b this] show ?thesis by blast
qed

theorem dispatch_claimed_terminates_witness:
  "\<exists>db'. dispatch_claimed (example_dispatcher 0) 8 0 ''r1'' (example_books_db example_resource) = Some db'"
  by (rule dispatch_claimed_terminates) (auto simp: example_dispatcher_def)

theorem dispatch_claimed_accounted_witness:
  "\<exists>db'. dispatch_claimed (example_dispatcher 0) 8 0 ''r1'' (example_books_db claimed_example) = Some db'
     \<and> accounted active_count db'"
proof -
  obtain db' where run: "dispatch_claimed (example_dispatcher 0) 8 0 ''r1''
      (example_books_db claimed_example) = Some db'"
    using provisionable_completes [OF example_provisionable, of 1 0]
    by (auto simp: claimed_example_def example_resource_def build_resource_def new_resource_def Let_def
        simp del: dispatch_claimed.simps)
  have "books (example_books_db claimed_example)"
    by (rule example_books) (simp_all add: claimed_example_def)
  with dispatch_claimed_accounted [OF run] run show ?thesis
    by (auto simp: books_def example_dispatcher_def)
qed

theorem lost_claim_writes_nothing_witness:
  "snd (dispatch_iteration (example_dispatcher 0) 0 ''r1'' (example_books_db example_resource))
     \<in> {example_books_db example_resource}"
proof -
  obtain c db' where it: "dispatch_iteration (example_dispatcher 0) 0 ''r1''
      (example_books_db example_resource) = (c, db')" by force
  from lost_claim_writes_nothing [OF it] it show ?thesis
    by (simp add: example_dispatcher_def example_books_db_def)
qed

theorem claim_one_exclusive_witness:
  "\<exists>db1. claim_one default_config ''w1'' 0 (example_books_db example_resource) = (Some ''r1'', db1)
     \<and> fst (claim_one default_config ''w2'' 5 db1) \<noteq> Some ''r1''"
proof -
  obtain db1 where c: "claim_one default_config ''w1'' 0 (example_books_db example_resource)
      = (Some ''r1'', db1)"
    by (simp add: claim_one_def example_books_db_def claimable_resource_def due_status_def)
  have "uniq r_id (resources (example_books_db example_resource))"
    by (simp add: example_books_db_def uniq_def)
  moreover have "5 < 0 + seconds (cfg_worker_claim_ttl_seconds default_config)"
    by (simp add: default_config_def seconds_def)
  ultimately show ?thesis using claim_one_exclusive [OF c] c by blast
qed

theorem irreversible_only_after_cooldown_witness:
  "fst (begin_cleanup ''w1'' (hours 24) ''r1'' (example_books_db cooled_example))
     \<and> r_status cooled_example = ST_COOLING_DOWN"
proof -
  let ?r' = "cooled_example\<lparr>r_status := ST_DELETING, r_delete_step := DS_LOGICAL_CLEANUP,
    r_cleanup_required := True\<rparr>"
  have g: "get_resource (example_books_db cooled_example) ''r1'' = Some cooled_example"
    by (simp add: example_books_db_def cooled_example_def claimed_example_def)
  have b: "begin_cleanup ''w1'' (hours 24) ''r1'' (example_books_db cooled_example)
      = (True, example_books_db ?r')"
    by (simp add: begin_cleanup_def example_books_db_def claimed_example_def owns_claim_def
        cooled_example_def put_resource_def)
  have g': "get_resource (example_books_db ?r') ''r1'' = Some ?r'"
    by (simp add: example_books_db_def cooled_example_def claimed_example_def)
  have s: "\<not> irreversible_step (r_delete_step cooled_example)" "irreversible_step (r_delete_step ?r')"
    by (simp_all add: irreversible_step_def cooled_example_def)
  from irreversible_only_after_cooldown [OF tx_begin_cleanup [OF b] g g' s] b show ?thesis by simp
qed

theorem failure_escalates_witness:
  "\<exists>db' r'. get_resource db' ''r1'' = Some r' \<and> r_retry_count r' = 1 \<and>
     db' = record_failure default_config ''w1'' 0 ''r1'' KeyError FORWARD ST_CREATING
       (r_provisioning_step claimed_example) (r_cleanup_step claimed_example)
       (example_books_db claimed_example)"
proof -
  have "get_resource (example_books_db claimed_example) ''r1'' = Some claimed_example"
    "r_worker_id claimed_example = Some ''w1''"
    "if FORWARD = FORWARD then r_status claimed_example = ST_CREATING else needs_cleanup claimed_example"
    "r_retry_count claimed_example < cfg_worker_max_retries default_config"
    "r_status claimed_example = ST_CREATING" "r_retry_count claimed_example = 0"
    by (simp_all add: example_books_db_def claimed_example_def default_config_def)
  note row = this
  from failure_escalates [OF row(1-3) refl, of default_config 0 KeyError] row(4-6) show ?thesis
    by (simp only: if_True) (metis add_0)
qed

end
