(* ===== verification/Ledger_Spec.thy ===== *)
theory Ledger_Spec
  imports Dispatcher
begin

text \<open>
  The abstract capacity ledger: a multiset of (agent, backend) pairs, one for every resource that
  holds capacity. An entry is taken only below the limits of its agent and its backend, and given
  back one at a time. \<open>held\<close> is the abstraction of the database; the locale \<open>books_keeper\<close> is the
  contract under which the operations of the service and of the workers are proved to move along
  the ledger, for the balanced books themselves and for the path of the ledger.
\<close>

section \<open>The ledger\<close>

type_synonym ledger = "(string \<times> string) multiset"

inductive ledger_step :: "(string \<Rightarrow> int) \<Rightarrow> (string \<Rightarrow> int) \<Rightarrow> ledger \<Rightarrow> ledger \<Rightarrow> bool"
  for agent_cap backend_cap where
  take_entry: "int (size {#x \<in># h. fst x = a#}) < agent_cap a \<Longrightarrow>
    int (size {#x \<in># h. snd x = b#}) < backend_cap b \<Longrightarrow>
    ledger_step agent_cap backend_cap h (add_mset (a, b) h)"
| give_entry: "ledger_step agent_cap backend_cap (add_mset x h) h"

inductive_cases ledger_stepE: "ledger_step agent_cap backend_cap h h'"

text \<open>Along the ledger nobody gets beyond a limit.\<close>

lemma ledger_step_caps:
  assumes "ledger_step la lb h h'"
  shows "int (size {#x \<in># h'. fst x = a#}) \<le> max (int (size {#x \<in># h. fst x = a#})) (la a)"
    and "int (size {#x \<in># h'. snd x = b#}) \<le> max (int (size {#x \<in># h. snd x = b#})) (lb b)"
  using assms by (auto elim!: ledger_stepE)

lemma ledger_path_caps:
  assumes "(ledger_step la lb)\<^sup>*\<^sup>* h h'"
  shows "int (size {#x \<in># h'. fst x = a#}) \<le> max (int (size {#x \<in># h. fst x = a#})) (la a)"
    and "int (size {#x \<in># h'. snd x = b#}) \<le> max (int (size {#x \<in># h. snd x = b#})) (lb b)"
  using assms
proof (induction rule: rtranclp_induct)
  case (step y z)
  case 1
  show ?case using step ledger_step_caps(1) [OF step(2), of a] by linarith
  case 2
  show ?case using step ledger_step_caps(2) [OF step(2), of b] by linarith
qed simp_all

section \<open>The abstraction\<close>

abbreviation unreleased :: "resource \<Rightarrow> bool" where
  "unreleased r \<equiv> r_capacity_released_at r = None"

definition held :: "metadb \<Rightarrow> ledger" where
  "held db = mset (map (\<lambda>r. (r_owner_agent_id r, r_backend_id r)) (filter unreleased (resources db)))"

lemma held_counts:
  "size {#x \<in># held db. fst x = a#} = rcount (holds_agent a) (resources db)"
  "size {#x \<in># held db. snd x = b#} = rcount (holds_backend b) (resources db)"
proof -
  have "size {#x \<in># mset (map (\<lambda>r. (r_owner_agent_id r, r_backend_id r)) (filter unreleased rows)). fst x = a#}
      = rcount (holds_agent a) rows"
    "size {#x \<in># mset (map (\<lambda>r. (r_owner_agent_id r, r_backend_id r)) (filter unreleased rows)). snd x = b#}
      = rcount (holds_backend b) rows" for rows
    by (induction rows) (auto simp: holds_agent_def holds_backend_def)
  then show "size {#x \<in># held db. fst x = a#} = rcount (holds_agent a) (resources db)"
    "size {#x \<in># held db. snd x = b#} = rcount (holds_backend b) (resources db)"
    by (simp_all add: held_def)
qed

text \<open>With balanced books the counters answer for the ledger.\<close>

lemma counters_count:
  assumes "books db"
  shows "active_count db ''agent'' a = int (size {#x \<in># held db. fst x = a#})"
    and "active_count db ''backend'' b = int (size {#x \<in># held db. snd x = b#})"
  using assms by (simp_all add: books_def accounted_def held_counts)

section \<open>Transactions that do not touch the books\<close>

definition same_books :: "metadb \<Rightarrow> metadb \<Rightarrow> bool" where
  "same_books db db' \<longleftrightarrow> capacities db' = capacities db \<and> same_limits db db'
     \<and> list_all2 same_identity (resources db') (resources db)"

lemma same_identity_trans: "same_identity a b \<Longrightarrow> same_identity b c \<Longrightarrow> same_identity a c"
  by (simp add: same_identity_def)

lemma same_limits_refl [simp]: "same_limits db db"
  by (simp add: same_limits_def)

lemma same_limits_put [simp]:
  "same_limits db (put_resource rid f db)" "same_limits db (put_member mid g db)"
  "same_limits db (put_instance iid k db)"
  by (simp_all add: same_limits_def)

lemma same_books_refl [simp]: "same_books db db"
  by (simp add: same_books_def list.rel_refl)

lemma same_books_trans:
  assumes "same_books a b" and "same_books b c"
  shows "same_books a c"
  using assms list_all2_trans [of same_identity same_identity same_identity]
  by (auto simp: same_books_def same_limits_def intro: same_identity_trans)

lemma list_all2_rcount:
  assumes "list_all2 R xs ys" and "\<And>x y. R x y \<Longrightarrow> P x = P y"
  shows "rcount P xs = rcount P ys"
  using assms by (induction rule: list_all2_induct) auto

lemma list_all2_map_eq:
  assumes "list_all2 R xs ys" and "\<And>x y. R x y \<Longrightarrow> f x = f y"
  shows "map f xs = map f ys"
  using assms by (induction rule: list_all2_induct) auto

lemma same_books_keeps: "same_books db db' \<Longrightarrow> books db \<Longrightarrow> books db'"
proof -
  assume s: "same_books db db'" and b: "books db"
  then have rows: "list_all2 same_identity (resources db') (resources db)"
    and cap: "capacities db' = capacities db" by (simp_all add: same_books_def)
  have "rcount (holds_agent a) (resources db') = rcount (holds_agent a) (resources db)" for a
    by (rule list_all2_rcount [OF rows]) (simp add: same_identity_def holds_agent_def)
  moreover have "rcount (holds_backend a) (resources db') = rcount (holds_backend a) (resources db)" for a
    by (rule list_all2_rcount [OF rows]) (simp add: same_identity_def holds_backend_def)
  moreover have "map r_id (resources db') = map r_id (resources db)"
    by (rule list_all2_map_eq [OF rows]) (simp add: same_identity_def)
  ultimately show ?thesis
    using b cap accounted_frame [of db db'] by (simp add: books_def uniq_def)
qed

lemma same_books_held:
  assumes "same_books db db'"
  shows "held db' = held db"
proof -
  have "map (\<lambda>r. (r_owner_agent_id r, r_backend_id r)) (filter unreleased xs) =
    map (\<lambda>r. (r_owner_agent_id r, r_backend_id r)) (filter unreleased ys)"
    if "list_all2 same_identity xs ys" for xs ys
    using that by (induction rule: list_all2_induct) (auto simp: same_identity_def)
  from this [of "resources db'" "resources db"] assms show ?thesis
    by (simp add: same_books_def held_def del: map_eq_conv)
qed

lemma same_books_uniq: "same_books db db' \<Longrightarrow> uniq r_id (resources db') = uniq r_id (resources db)"
  unfolding same_books_def uniq_def
  by (metis (no_types, lifting) list_all2_map_eq same_identity_def)

lemma same_books_frame:
  "capacities db' = capacities db \<Longrightarrow> resources db' = resources db \<Longrightarrow> same_limits db db' \<Longrightarrow>
   same_books db db'"
  by (simp add: same_books_def list.rel_refl)

lemma list_all2_tupd:
  assumes "\<And>r. R r r" and "\<And>r. r \<in> set rows \<Longrightarrow> key r = k \<Longrightarrow> R (f r) r"
  shows "list_all2 R (tupd key k f rows) rows"
  using assms by (auto simp: tupd_def list_all2_map1 intro!: list.rel_refl_strong)

lemma same_books_put_at:
  assumes "\<And>r. r \<in> set (resources db) \<Longrightarrow> r_id r = rid \<Longrightarrow> same_identity (f r) r"
  shows "same_books db (put_resource rid f db)"
  using assms by (auto simp: same_books_def put_resource_def same_limits_def intro!: list_all2_tupd)

lemma same_books_put:
  "(\<And>r. same_identity (f r) r) \<Longrightarrow> same_books db (put_resource rid f db)"
  by (simp add: same_books_put_at)

text \<open>Overwriting the row that was read.\<close>

lemma same_books_put_read:
  assumes "get_resource db rid = Some r" and "uniq r_id (resources db)" and "same_identity (f r) r"
  shows "same_books db (put_resource rid f db)"
proof (rule same_books_put_at)
  fix x assume "x \<in> set (resources db)" "r_id x = rid"
  with assms(1,2) have "x = r" using tget_uniq [of r_id "resources db" x] by simp
  with assms(3) show "same_identity (f x) x" by simp
qed

lemma same_books_put_member: "same_books db (put_member mid f db)"
  by (rule same_books_frame) simp_all

lemma same_books_put_instance: "same_books db (put_instance iid f db)"
  by (rule same_books_frame) simp_all

lemma row_update_same_books: "row_update rid db db' \<Longrightarrow> same_books db db'"
  by (auto simp: row_update_def intro: same_books_put)

section \<open>Giving capacity back\<close>

text \<open>The counters of a row's agent and backend go down by one and the row is marked.\<close>

definition gives_back :: "string \<Rightarrow> resource \<Rightarrow> (resource \<Rightarrow> resource) \<Rightarrow> metadb \<Rightarrow> metadb \<Rightarrow> bool" where
  "gives_back rid r f db db' \<longleftrightarrow> get_resource db rid = Some r \<and> unreleased r \<and> \<not> unreleased (f r)
     \<and> r_backend_id (f r) = r_backend_id r
     \<and> (\<forall>x. r_id (f x) = r_id x \<and> r_owner_agent_id (f x) = r_owner_agent_id x
          \<and> r_client_token (f x) = r_client_token x)
     \<and> resources db' = tupd r_id rid f (resources db) \<and> same_limits db db'
     \<and> (\<forall>st sid. active_count db' st sid = active_count db st sid -
          (if (st = ''agent'' \<and> sid = r_owner_agent_id r) \<or> (st = ''backend'' \<and> sid = r_backend_id r)
           then 1 else 0))"

lemma rcount_released:
  assumes "uniq r_id rows" and "tget r_id rid rows = Some r" and "unreleased r" and "\<not> unreleased (f r)"
  shows "rcount (holds_agent a) (tupd r_id rid f rows) + of_bool (r_owner_agent_id r = a)
      = rcount (holds_agent a) rows"
    and "rcount (holds_backend a) (tupd r_id rid f rows) + of_bool (r_backend_id r = a)
      = rcount (holds_backend a) rows"
  using rcount_tupd [OF assms(1,2), of "holds_agent a" f] rcount_tupd [OF assms(1,2), of "holds_backend a" f] assms(3,4)
  by (auto simp: holds_agent_def holds_backend_def)

lemma gives_back_books:
  assumes "gives_back rid r f db db'" and "books db"
  shows "books db'"
proof -
  note g = assms(1) [unfolded gives_back_def]
  from assms(2) have u: "uniq r_id (resources db)" by (simp add: books_def)
  have "active_count db' ''agent'' a = int (rcount (holds_agent a) (resources db'))"
    "active_count db' ''backend'' a = int (rcount (holds_backend a) (resources db'))" for a
    using rcount_released [OF u, of rid r f a] g assms(2)
    by (auto simp: books_def accounted_def split: if_splits)
  with u g show ?thesis by (auto simp: books_def accounted_def uniq_tupd)
qed

lemma gives_back_held:
  assumes "gives_back rid r f db db'" and "uniq r_id (resources db)"
  shows "held db = add_mset (r_owner_agent_id r, r_backend_id r) (held db')"
proof -
  let ?g = "\<lambda>r. (r_owner_agent_id r, r_backend_id r)"
  have "mset (map ?g (filter unreleased rows)) =
      add_mset (?g r) (mset (map ?g (filter unreleased (tupd r_id rid f rows))))"
    if "uniq r_id rows" "tget r_id rid rows = Some r" for rows
    using that
  proof (induction rows)
    case (Cons x rows)
    show ?case
    proof (cases "r_id x = rid")
      case True
      with Cons.prems have "x = r" and "tget r_id rid rows = None"
        by (auto simp: uniq_def tget_None_iff)
      with True assms(1) show ?thesis by (simp add: gives_back_def tupd_absent)
    next
      case False
      with Cons show ?thesis by (auto simp: uniq_def)
    qed
  qed simp
  with assms show ?thesis by (simp add: held_def gives_back_def)
qed

section \<open>The contract of the operations\<close>

locale books_keeper =
  fixes cfg :: tenant_provisioning_config and B :: "metadb \<Rightarrow> bool"
  assumes balanced: "B db \<Longrightarrow> books db"
    and keep: "same_books db db' \<Longrightarrow> B db \<Longrightarrow> B db'"
    and give: "gives_back rid r f db db' \<Longrightarrow> B db \<Longrightarrow> B db'"
    and take: "reservation_effect cfg a t fp db r db' \<Longrightarrow> B db \<Longrightarrow> B db'"
begin

lemma keep_put_read:
  "get_resource db rid = Some r \<Longrightarrow> same_identity (f r) r \<Longrightarrow> B db \<Longrightarrow> B (put_resource rid f db)"
  by (rule keep [OF same_books_put_read]) (auto dest: balanced simp: books_def)

lemma release_keeps:
  assumes "B db" and "get_resource db rid = Some r"
    and "\<And>x. r_id (f x) = r_id x" and "\<And>x. r_owner_agent_id (f x) = r_owner_agent_id x"
    and "\<And>x. r_client_token (f x) = r_client_token x" and "r_backend_id (f r) = r_backend_id r" and "\<not> unreleased (f r)" and "unreleased r"
    and "\<And>st sid. active_count db1 st sid = active_count db st sid -
          (if (st = ''agent'' \<and> sid = r_owner_agent_id r) \<or> (st = ''backend'' \<and> sid = r_backend_id r)
           then 1 else 0)"
    and "resources db1 = resources db" and "same_limits db db1"
  shows "B (put_resource rid f db1)"
  by (rule give [OF _ assms(1), of rid r f])
    (use assms in \<open>auto simp: gives_back_def active_count_def same_limits_def\<close>)

lemma finish_cleanup_keeps:
  assumes "finish_cleanup_locked now r db = Inr db'" and "get_resource db (r_id r) = Some r" and "B db"
  shows "B db'"
proof (cases "r_capacity_released_at r")
  case None
  with assms(1) obtain db1 where rel: "release_on_cleanup (r_owner_agent_id r) (r_backend_id r) db = Inr db1"
    and db': "db' = put_resource (r_id r) (cleaned_row now) db1"
    by (auto simp: finish_cleanup_locked_def bindE_Inr)
  have "same_limits db db1"
    using rel by (auto simp: release_on_cleanup_def same_limits_def split: option.splits if_splits)
  then show ?thesis
    unfolding db'
    using cleanup_ledger.release_count [OF rel] cleanup_ledger.release_rows [OF rel] assms(2,3) None
    by (intro release_keeps [of db "r_id r" r]) simp_all
next
  case (Some t)
  with assms show ?thesis
    by (auto simp: finish_cleanup_locked_def same_identity_def cleaned_row_def clear_claim_def
        reset_retries_def intro!: keep_put_read)
qed

lemma persist_cleanup_keeps:
  assumes "persist_cleanup_result w now rid s e n db = Inr (c, db')" and "B db"
  shows "B db'"
proof -
  consider (fin) r where "get_resource db rid = Some r" "finish_cleanup_locked now r db = Inr db'"
    | (row) "db' = db \<or> db' = put_resource rid (\<lambda>r. (reset_retries r)\<lparr>r_cleanup_step := n\<rparr>) db"
    using assms(1)
    by (auto simp: persist_cleanup_result_def bindE_Inr split: if_splits option.splits)
  then show ?thesis
  proof cases
    case fin
    then have "get_resource db (r_id r) = Some r" by auto
    with finish_cleanup_keeps [OF fin(2) _ assms(2)] show ?thesis by blast
  next
    case row
    then have "same_books db db'"
      by (auto simp: same_identity_def reset_retries_def intro!: same_books_put)
    then show ?thesis using assms(2) by (rule keep)
  qed
qed

lemma row_update_keeps: "row_update rid db db' \<Longrightarrow> B db \<Longrightarrow> B db'"
  by (rule keep [OF row_update_same_books])

lemma dispatcher_tx_keeps: "dispatcher_tx c w now rid db db' \<Longrightarrow> B db \<Longrightarrow> B db'"
  by (erule dispatcher_tx.cases)
    (auto intro: row_update_keeps persist_disconnect_row begin_cleanup_row finish_restore_row
      record_disconnect_failure_row record_restore_failure_row queue_disabled_row
      persist_forward_row finish_ready_row persist_cleanup_keeps release_claim_row record_failure_row)

lemma claim_keeps:
  "claim_one c w now db = (x, db') \<Longrightarrow> B db \<Longrightarrow> B db'"
  "renew_claim c w now rid db = (y, db') \<Longrightarrow> B db \<Longrightarrow> B db'"
  by (auto simp: claim_one_def renew_claim_def set_resource_claim_def same_identity_def
      split: option.splits if_splits intro!: keep [OF same_books_put])

lemma reserve_keeps:
  assumes "reserve_for_mode rt fresh now q engine name fp cands db = Inr (r, db')"
    and "rt_config rt = cfg" and "B db"
  shows "B db'"
  using reserve_for_mode_effect [OF assms(1)] assms(2,3) by (auto intro: take)

lemma delete_keeps:
  assumes "delete_db_instance_resource c now a i hook db = Inr (r', db')" and "B db"
  shows "B db'"
proof (cases "\<exists>r. get_resource db i = Some r \<and> deletable_status (r_status r)")
  case False
  with assms have "db' = db"
    by (auto simp: delete_db_instance_resource_def split: option.splits if_splits dest!: run_hook_Inr)
  with assms(2) show ?thesis by simp
next
  case True
  then obtain r where r: "get_resource db i = Some r" "deletable_status (r_status r)" by blast
  from assms(1) r show ?thesis
  proof (rule delete_InrD)
    fix b r1 db1
    assume rec: "record_delete_request c now (backend_pool db b) b r = Inr r1"
      and ret: "retire_member now a r1 db = Inr db1"
      and r': "r' = mark_deleting now r1" and db': "db' = put_resource i (\<lambda>_. r') db1"
    have "same_books db db1"
      using retire_member_frame [OF ret] retire_member_limits [OF ret] by (intro same_books_frame) simp_all
    with assms(2) have "B db1" by (blast intro: keep)
    moreover have "get_resource db1 i = Some r" using retire_member_frame [OF ret] r(1) by simp
    moreover have "same_identity r' r"
      using record_delete_request_identity [OF rec] by (simp add: r' same_identity_def mark_deleting_def Let_def)
    ultimately show ?thesis unfolding db' by (intro keep_put_read)
  qed
qed

lemma restore_keeps:
  assumes "restore_db_instance_resource i db = Inr (r', db')" and "B db"
  shows "B db'"
  using assms
  by (auto simp: restore_db_instance_resource_def same_identity_def Let_def split: option.splits if_splits
      intro!: keep_put_read)

end

section \<open>The two instances\<close>

lemma reservation_effect_take:
  assumes "reservation_effect cfg a t fp db r db'" and "books db"
  shows "books db'" and "held db' = add_mset (a, r_backend_id r) (held db)"
    and "\<exists>ag bk. get_agent db a = Some ag \<and> get_backend db (r_backend_id r) = Some bk
      \<and> active_count db ''agent'' a < agent_limit cfg ag
      \<and> active_count db ''backend'' (r_backend_id r) < b_max_active_resources bk"
proof -
  from assms(1) obtain b and ag :: agent and bk :: backend and db0 db1 where e: "capacities db0 = capacities db"
    "get_agent db a = Some ag" "get_backend db b = Some bk"
    "reserve_active_capacity_counters a b (agent_limit cfg ag) (b_max_active_resources bk) db0 = Inr db1"
    "resources db' = resources db @ [r]" "r_owner_agent_id r = a" "r_backend_id r = b"
    "r_capacity_released_at r = None" "\<forall>x \<in> set (resources db). r_id x \<noteq> r_id r"
    unfolding reservation_effect_def by blast
  show "books db'"
    using reservation_effect_accounted [OF assms(1)] assms(2) e(5,9)
    by (auto simp: books_def uniq_snoc)
  show "held db' = add_mset (a, r_backend_id r) (held db)"
    using e by (simp add: held_def)
  show "\<exists>ag bk. get_agent db a = Some ag \<and> get_backend db (r_backend_id r) = Some bk
      \<and> active_count db ''agent'' a < agent_limit cfg ag
      \<and> active_count db ''backend'' (r_backend_id r) < b_max_active_resources bk"
    using e ledger.reserve_limits [OF e(4)] by (simp add: active_count_def)
qed

interpretation balance: books_keeper cfg books
proof
  show "books db \<Longrightarrow> books db" for db .
qed (blast intro: same_books_keeps gives_back_books reservation_effect_take(1))+

text \<open>The limits in force, by agent and by backend.\<close>

definition agent_cap :: "tenant_provisioning_config \<Rightarrow> agent list \<Rightarrow> string \<Rightarrow> int" where
  "agent_cap cfg ags a = (case tget a_id a ags of None \<Rightarrow> 0 | Some ag \<Rightarrow> agent_limit cfg ag)"

definition backend_cap :: "backend list \<Rightarrow> string \<Rightarrow> int" where
  "backend_cap bks b = (case tget b_id b bks of None \<Rightarrow> 0 | Some bk \<Rightarrow> b_max_active_resources bk)"

text \<open>A state that the ledger reaches from \<open>h\<close> under the limits of \<open>ags\<close> and \<open>bks\<close>.\<close>

definition ledger_reaches ::
    "tenant_provisioning_config \<Rightarrow> agent list \<Rightarrow> backend list \<Rightarrow> ledger \<Rightarrow> metadb \<Rightarrow> bool" where
  "ledger_reaches cfg ags bks h db \<longleftrightarrow> books db \<and> agents db = ags \<and> backends db = bks
     \<and> (ledger_step (agent_cap cfg ags) (backend_cap bks))\<^sup>*\<^sup>* h (held db)"

interpretation path: books_keeper cfg "ledger_reaches cfg ags bks h"
proof
  show "ledger_reaches cfg ags bks h db \<Longrightarrow> books db" for db
    by (simp add: ledger_reaches_def)
  show "ledger_reaches cfg ags bks h db'" if "same_books db db'" "ledger_reaches cfg ags bks h db" for db db'
    using that same_books_keeps [OF that(1)] same_books_held [OF that(1)]
    by (simp add: ledger_reaches_def same_books_def same_limits_def)
  show "ledger_reaches cfg ags bks h db'"
    if "gives_back rid r f db db'" "ledger_reaches cfg ags bks h db" for rid r f db db'
  proof -
    from that have "books db" and path: "(ledger_step (agent_cap cfg ags) (backend_cap bks))\<^sup>*\<^sup>* h (held db)"
      by (simp_all add: ledger_reaches_def)
    then have "held db = add_mset (r_owner_agent_id r, r_backend_id r) (held db')"
      using gives_back_held [OF that(1)] by (simp add: books_def)
    then have "ledger_step (agent_cap cfg ags) (backend_cap bks) (held db) (held db')"
      by (simp add: give_entry)
    with path that gives_back_books [OF that(1) \<open>books db\<close>] show ?thesis
      by (auto simp: ledger_reaches_def gives_back_def same_limits_def)
  qed
  show "ledger_reaches cfg ags bks h db'"
    if "reservation_effect cfg a t fp db r db'" "ledger_reaches cfg ags bks h db" for a t fp db r db'
  proof -
    from that have b: "books db" and path: "(ledger_step (agent_cap cfg ags) (backend_cap bks))\<^sup>*\<^sup>* h (held db)"
      and tables: "agents db = ags" "backends db = bks"
      by (simp_all add: ledger_reaches_def)
    note e = reservation_effect_take [OF that(1) b]
    have "ledger_step (agent_cap cfg ags) (backend_cap bks) (held db) (held db')"
      unfolding e(2)
      by (rule take_entry) (use e(3) counters_count [OF b] tables in \<open>auto simp: agent_cap_def backend_cap_def\<close>)
    with path e(1) that(1) tables show ?thesis
      by (auto simp: ledger_reaches_def reservation_effect_def same_limits_def)
  qed
qed

end
