(* ===== verification/Dedicated_MySQL.thy ===== *)
theory Dedicated_MySQL
  imports Permission_Templates Text_Ops
begin

text \<open>
  The client of a pool member's own MySQL server (\<open>server/core/dedicated_mysql.py\<close>): the grant
  statements of a permission snapshot, their verification against \<open>SHOW GRANTS\<close>, and the
  operations on the sandbox account (apply, synchronise, verify, disconnect, restore, drop).

  The server is a parameter, the record \<open>mysql_server\<close>: it answers a connection attempt or a
  statement, given everything that was sent to it before (the trace), so that its state is part of
  its answers. An operation maps a trace to a result and the longer trace. The first column of a
  row is all the code reads of it; integer columns arrive as integers. Closing a connection is not
  an event.
\<close>

section \<open>Identifiers and grants\<close>

definition identifier_char :: "char \<Rightarrow> bool" where
  "identifier_char c = (let n = (of_char c :: nat) in
     (65 \<le> n \<and> n \<le> 90) \<or> (97 \<le> n \<and> n \<le> 122) \<or> (48 \<le> n \<and> n \<le> 57) \<or> n = 95)"

definition identifier_ok :: "string \<Rightarrow> bool" where
  "identifier_ok v \<longleftrightarrow> 1 \<le> length v \<and> length v \<le> 64 \<and> list_all identifier_char v"

definition checked_identifier :: "string \<Rightarrow> py_error + string" where
  "checked_identifier v =
     (if identifier_ok v then Inr v else Inl (OtherError ''InvalidDedicatedIdentifier''))"

definition database_privileges :: "permission_snapshot \<Rightarrow> string list" where
  "database_privileges s =
     map privilege_value (filter (\<lambda>p. p \<noteq> P_CREATE_USER) (ps_privileges s))"

definition grant_statement :: "string \<Rightarrow> string \<Rightarrow> string \<Rightarrow> bool \<Rightarrow> string" where
  "grant_statement privileges scope account grant_option =
     ''GRANT '' @ privileges @ '' ON '' @ scope @ '' TO '' @ [CHR 0x27] @ account @ [CHR 0x27]
       @ ''@'' @ [CHR 0x27] @ ''%'' @ [CHR 0x27] @ (if grant_option then '' WITH GRANT OPTION'' else [])"

definition database_scope :: "string \<Rightarrow> string" where
  "database_scope database = ''`'' @ database @ ''`.*''"

definition build_dedicated_grant_sql ::
    "string \<Rightarrow> string \<Rightarrow> permission_snapshot \<Rightarrow> py_error + string list" where
  "build_dedicated_grant_sql database account snapshot =
     bindE (checked_identifier database) (\<lambda>database.
     bindE (checked_identifier account) (\<lambda>account.
       if ps_scope snapshot \<noteq> SCOPE_DEDICATED
       then Inl (ValueError ''Dedicated grant requires global permission scope'')
       else
         let on_database = (if ps_legacy_all_privileges snapshot
               then [grant_statement ''ALL PRIVILEGES'' (database_scope database) account
                       (ps_grant_option snapshot)]
               else if database_privileges snapshot \<noteq> []
               then [grant_statement (join_text '', '' (database_privileges snapshot))
                       (database_scope database) account (ps_grant_option snapshot)]
               else []);
             on_all = (if P_CREATE_USER \<in> set (ps_privileges snapshot)
               then [grant_statement ''CREATE USER'' ''*.*'' account (ps_grant_option snapshot)]
               else [])
         in if on_database @ on_all = []
            then Inl (ValueError ''Dedicated grant requires at least one privilege'')
            else Inr (on_database @ on_all)))"

text \<open>The match of \<open>^GRANT (.+) ON (.+) TO \<close>: both groups are greedy, the first one first.\<close>

definition grant_match :: "string \<Rightarrow> (string \<times> string) option" where
  "grant_match t =
     (if \<not> starts_ci ''GRANT '' t then None
      else case last_split '' ON '' (\<lambda>rest. last_split '' TO '' (\<lambda>_. True) [] rest \<noteq> None) [] (drop 6 t) of
        None \<Rightarrow> None
      | Some (privileges, rest) \<Rightarrow>
          map_option (\<lambda>(scope, _). (privileges, scope)) (last_split '' TO '' (\<lambda>_. True) [] rest))"

record grant_scan =
  gs_database :: "string list"
  gs_global :: "string list"
  gs_grant_option :: bool
  gs_unexpected :: bool

definition scan_row :: "string \<Rightarrow> string \<Rightarrow> grant_scan \<Rightarrow> grant_scan" where
  "scan_row scope_text row gs =
     (let t = normal_spaces row; upper = upper_text t
      in if take 18 upper = ''GRANT USAGE ON *.*'' then gs
         else case grant_match t of
           None \<Rightarrow> gs\<lparr>gs_unexpected := True\<rparr>
         | Some (privileges, scope) \<Rightarrow>
             let values = map (\<lambda>v. upper_text (strip_text v)) (split_char CHR '','' privileges);
                 gs1 = (if upper_text scope = scope_text
                   then gs\<lparr>gs_database := gs_database gs @ values\<rparr>
                   else if upper_text scope = ''*.*''
                   then gs\<lparr>gs_global := gs_global gs @ values\<rparr>
                   else gs\<lparr>gs_unexpected := True\<rparr>)
             in gs1\<lparr>gs_grant_option :=
                  gs_grant_option gs1 \<or> contains_text '' WITH GRANT OPTION'' upper\<rparr>)"

definition expected_database :: "permission_snapshot \<Rightarrow> string list" where
  "expected_database s =
     (if ps_legacy_all_privileges s then [''ALL PRIVILEGES''] else database_privileges s)"

definition expected_global :: "permission_snapshot \<Rightarrow> string list" where
  "expected_global s = (if P_CREATE_USER \<in> set (ps_privileges s) then [''CREATE USER''] else [])"

definition verify_dedicated_grants ::
    "string \<Rightarrow> string \<Rightarrow> permission_snapshot \<Rightarrow> string list \<Rightarrow> py_error + unit" where
  "verify_dedicated_grants database account snapshot rows =
     bindE (checked_identifier database) (\<lambda>database.
     bindE (checked_identifier account) (\<lambda>_.
       let gs = fold (scan_row (upper_text (database_scope database))) rows
             \<lparr>gs_database = [], gs_global = [], gs_grant_option = False, gs_unexpected = False\<rparr>
       in if gs_unexpected gs \<or> set (gs_database gs) \<noteq> set (expected_database snapshot)
             \<or> set (gs_global gs) \<noteq> set (expected_global snapshot)
             \<or> gs_grant_option gs \<noteq> ps_grant_option snapshot
          then Inl DedicatedGrantVerificationError else Inr ()))"

section \<open>The server\<close>

record db_login =
  lg_host :: string
  lg_port :: int
  lg_user :: string
  lg_password :: string
  lg_db :: "string option"

datatype event = Opened db_login | Executed db_login string "string list"

type_synonym trace = "event list"

datatype cell = CText string | CInt int

record mysql_server =
  my_connect :: "trace \<Rightarrow> db_login \<Rightarrow> py_error + unit"
  my_execute :: "trace \<Rightarrow> db_login \<Rightarrow> string \<Rightarrow> string list \<Rightarrow> py_error + cell list"

type_synonym 'a session = "trace \<Rightarrow> (py_error + 'a) \<times> trace"

definition andThen :: "'a session \<Rightarrow> ('a \<Rightarrow> 'b session) \<Rightarrow> 'b session" where
  "andThen x f tr = (case x tr of (Inl e, tr1) \<Rightarrow> (Inl e, tr1) | (Inr a, tr1) \<Rightarrow> f a tr1)"

definition result :: "py_error + 'a \<Rightarrow> 'a session" where
  "result x tr = (x, tr)"

definition connect :: "mysql_server \<Rightarrow> db_login \<Rightarrow> unit session" where
  "connect srv lg tr = (my_connect srv tr lg, tr @ [Opened lg])"

definition execute :: "mysql_server \<Rightarrow> db_login \<Rightarrow> string \<Rightarrow> string list \<Rightarrow> cell list session" where
  "execute srv lg sql params tr = (my_execute srv tr lg sql params, tr @ [Executed lg sql params])"

fun execute_all :: "mysql_server \<Rightarrow> db_login \<Rightarrow> string list \<Rightarrow> unit session" where
  "execute_all srv lg [] = result (Inr ())"
| "execute_all srv lg (sql # rest) =
     andThen (execute srv lg sql []) (\<lambda>_. execute_all srv lg rest)"

fun cell_text :: "cell \<Rightarrow> string" where
  "cell_text (CText s) = s"
| "cell_text (CInt n) = int_text n"

fun cell_int :: "cell \<Rightarrow> py_error + int" where
  "cell_int (CInt n) = Inr n"
| "cell_int (CText s) = Inl (ValueError ''invalid literal for int()'')"

section \<open>Operations\<close>

text \<open>\<open>_required\<close>: the member's address and its two decrypted accounts; \<open>dec\<close> is the cipher.\<close>

record member_access =
  ma_lifecycle :: db_login
  ma_sandbox_user :: string
  ma_sandbox_password :: string

definition credentials_complete :: "pool_member \<Rightarrow> bool" where
  "credentials_complete m \<longleftrightarrow>
     m_host m \<noteq> None \<and> m_port m \<noteq> None
   \<and> m_lifecycle_username_ciphertext m \<noteq> None \<and> m_lifecycle_password_ciphertext m \<noteq> None
   \<and> m_sandbox_username_ciphertext m \<noteq> None \<and> m_sandbox_password_ciphertext m \<noteq> None
   \<and> m_database_name m \<noteq> None \<and> m_permission_snapshot_json m \<noteq> None"

definition incomplete_error :: py_error where
  "incomplete_error = OtherError ''DedicatedMySQLError''"

definition required :: "(string \<Rightarrow> py_error + string) \<Rightarrow> pool_member \<Rightarrow> py_error + member_access" where
  "required dec m =
     (if \<not> credentials_complete m then Inl incomplete_error
      else bindE (dec (the (m_lifecycle_username_ciphertext m))) (\<lambda>lu.
           bindE (dec (the (m_lifecycle_password_ciphertext m))) (\<lambda>lp.
           bindE (dec (the (m_sandbox_username_ciphertext m))) (\<lambda>su.
           bindE (dec (the (m_sandbox_password_ciphertext m))) (\<lambda>sp.
             Inr \<lparr>ma_lifecycle = \<lparr>lg_host = the (m_host m), lg_port = the (m_port m), lg_user = lu,
                    lg_password = lp, lg_db = None\<rparr>,
                  ma_sandbox_user = su, ma_sandbox_password = sp\<rparr>)))))"

definition stored_snapshot ::
    "(json \<Rightarrow> string) \<Rightarrow> pool_member \<Rightarrow> py_error + permission_snapshot" where
  "stored_snapshot py_str m = permission_snapshot_from_json py_str (the (m_permission_snapshot_json m))"

definition apply_permissions ::
    "mysql_server \<Rightarrow> (string \<Rightarrow> py_error + string) \<Rightarrow> (json \<Rightarrow> string) \<Rightarrow> pool_member \<Rightarrow> unit session" where
  "apply_permissions srv dec py_str m =
     andThen (result (required dec m)) (\<lambda>q.
     andThen (result (stored_snapshot py_str m)) (\<lambda>snapshot.
     andThen (result (build_dedicated_grant_sql (the (m_database_name m)) (ma_sandbox_user q) snapshot))
       (\<lambda>statements.
     andThen (connect srv (ma_lifecycle q)) (\<lambda>_.
       execute_all srv (ma_lifecycle q) statements))))"

definition account_sql :: "string \<Rightarrow> string \<Rightarrow> string \<Rightarrow> string" where
  "account_sql before account after =
     before @ [CHR 0x27] @ account @ [CHR 0x27] @ ''@'' @ [CHR 0x27] @ ''%'' @ [CHR 0x27] @ after"

definition verify ::
    "mysql_server \<Rightarrow> (string \<Rightarrow> py_error + string) \<Rightarrow> (json \<Rightarrow> string) \<Rightarrow> pool_member \<Rightarrow> unit session" where
  "verify srv dec py_str m =
     andThen (result (required dec m)) (\<lambda>q.
     andThen (result (stored_snapshot py_str m)) (\<lambda>snapshot.
     andThen (connect srv (ma_lifecycle q)) (\<lambda>_.
     andThen (result (checked_identifier (ma_sandbox_user q))) (\<lambda>account.
     andThen (execute srv (ma_lifecycle q) (account_sql ''SHOW GRANTS FOR '' account []) []) (\<lambda>rows.
     andThen (result (verify_dedicated_grants (the (m_database_name m)) (ma_sandbox_user q) snapshot
                        (map cell_text rows))) (\<lambda>_.
       let sandbox = (ma_lifecycle q)\<lparr>lg_user := ma_sandbox_user q,
             lg_password := ma_sandbox_password q, lg_db := m_database_name m\<rparr>
       in andThen (connect srv sandbox) (\<lambda>_.
          andThen (execute srv sandbox ''SELECT 1'' []) (\<lambda>answer.
            case answer of
              [] \<Rightarrow> result (Inl DedicatedGrantVerificationError)
            | c # _ \<Rightarrow> andThen (result (cell_int c)) (\<lambda>n.
                result (if n \<noteq> 1 then Inl DedicatedGrantVerificationError else Inr ()))))))))))"

definition synchronize_permissions ::
    "mysql_server \<Rightarrow> (string \<Rightarrow> py_error + string) \<Rightarrow> (json \<Rightarrow> string) \<Rightarrow> pool_member
     \<Rightarrow> permission_snapshot \<Rightarrow> unit session" where
  "synchronize_permissions srv dec py_str m snapshot =
     andThen (result (required dec m)) (\<lambda>q.
     andThen (result (build_dedicated_grant_sql (the (m_database_name m)) (ma_sandbox_user q) snapshot))
       (\<lambda>statements.
     andThen (connect srv (ma_lifecycle q)) (\<lambda>_.
     andThen (result (checked_identifier (ma_sandbox_user q))) (\<lambda>account.
     andThen (execute_all srv (ma_lifecycle q)
       (account_sql ''REVOKE ALL PRIVILEGES, GRANT OPTION FROM '' account [] # statements)) (\<lambda>_.
       verify srv dec py_str m)))))"

definition processlist_query :: string where
  "processlist_query = ''SELECT ID FROM information_schema.PROCESSLIST ''
     @ ''WHERE USER = %s AND ID <> CONNECTION_ID()''"

text \<open>\<open>KILL CONNECTION n\<close> for every session, \<open>n\<close> in decimal.\<close>

fun kill_sessions :: "mysql_server \<Rightarrow> db_login \<Rightarrow> cell list \<Rightarrow> unit session" where
  "kill_sessions srv lg [] = result (Inr ())"
| "kill_sessions srv lg (c # cs) =
     andThen (result (cell_int c)) (\<lambda>n.
       if n \<le> 0 then result (Inl (OtherError ''DedicatedMySQLError''))
       else andThen (execute srv lg (''KILL CONNECTION '' @ digits (nat n)) []) (\<lambda>_.
            kill_sessions srv lg cs))"

definition disconnect ::
    "mysql_server \<Rightarrow> (string \<Rightarrow> py_error + string) \<Rightarrow> pool_member \<Rightarrow> unit session" where
  "disconnect srv dec m =
     andThen (result (required dec m)) (\<lambda>q. let lg = ma_lifecycle q; user = ma_sandbox_user q in
     andThen (connect srv lg) (\<lambda>_.
     andThen (result (checked_identifier user)) (\<lambda>account.
     andThen (execute srv lg (account_sql ''ALTER USER '' account '' ACCOUNT LOCK'') []) (\<lambda>_.
     andThen (execute srv lg processlist_query [user]) (\<lambda>rows.
     andThen (kill_sessions srv lg rows) (\<lambda>_.
     andThen (execute srv lg processlist_query [user]) (\<lambda>left.
       result (if left \<noteq> [] then Inl (OtherError ''DedicatedMySQLError'') else Inr ()))))))))"

definition restore ::
    "mysql_server \<Rightarrow> (string \<Rightarrow> py_error + string) \<Rightarrow> (json \<Rightarrow> string) \<Rightarrow> pool_member \<Rightarrow> unit session" where
  "restore srv dec py_str m =
     andThen (result (required dec m)) (\<lambda>q.
     andThen (connect srv (ma_lifecycle q)) (\<lambda>_.
     andThen (result (checked_identifier (ma_sandbox_user q))) (\<lambda>account.
     andThen (execute srv (ma_lifecycle q) (account_sql ''ALTER USER '' account '' ACCOUNT UNLOCK'') [])
       (\<lambda>_.
     andThen (apply_permissions srv dec py_str m) (\<lambda>_.
       verify srv dec py_str m)))))"

definition drop_sandbox ::
    "mysql_server \<Rightarrow> (string \<Rightarrow> py_error + string) \<Rightarrow> pool_member \<Rightarrow> unit session" where
  "drop_sandbox srv dec m =
     andThen (result (required dec m)) (\<lambda>q.
     andThen (result (checked_identifier (the (m_database_name m)))) (\<lambda>database.
     andThen (connect srv (ma_lifecycle q)) (\<lambda>_.
     andThen (execute srv (ma_lifecycle q) (''DROP DATABASE IF EXISTS `'' @ database @ ''`'') []) (\<lambda>_.
     andThen (result (checked_identifier (ma_sandbox_user q))) (\<lambda>account.
     andThen (execute srv (ma_lifecycle q) (account_sql ''DROP USER IF EXISTS '' account []) []) (\<lambda>_.
       result (Inr ())))))))"


section \<open>Reading back what was granted\<close>

lemma upper_char_space [simp]: "upper_char c = CHR '' '' \<longleftrightarrow> c = CHR '' ''"
proof (cases "97 \<le> (of_char c :: nat) \<and> of_char c \<le> (122 :: nat)")
  case True
  then have "(of_char c - 32 :: nat) mod 256 = of_char c - 32" "(of_char c - 32 :: nat) \<noteq> 32" by auto
  with True have "of_char (upper_char c) \<noteq> (of_char CHR '' '' :: nat)" by (simp add: upper_char_def)
  then have "upper_char c \<noteq> CHR '' ''" by metis
  moreover from True have "c \<noteq> CHR '' ''" by auto
  ultimately show ?thesis by simp
qed (auto simp: upper_char_def Let_def)

lemma upper_space [simp]: "upper_char CHR '' '' = CHR '' ''"
  by simp

lemma skip_word:
  "CHR '' '' \<notin> set x \<Longrightarrow>
   last_split (CHR '' '' # sep) ok pre (x @ y) = last_split (CHR '' '' # sep) ok (pre @ x) y"
  by (rule last_split_skip) auto

text \<open>The end of a grant row: the account, quoted by \<open>q\<close>, and the option.\<close>

definition row_end :: "char \<Rightarrow> string \<Rightarrow> bool \<Rightarrow> string" where
  "row_end q target grant_option =
     q # target @ (if grant_option then '' WITH GRANT OPTION'' else [])"

lemma row_end_no_split:
  assumes "CHR '' '' \<notin> set target" and "q \<in> {CHR 0x27, CHR ''`''}"
  shows "last_split '' TO '' ok pre (CHR '' '' # row_end q target g) = None"
    and "last_split '' ON '' ok pre (CHR '' '' # row_end q target g) = None"
  using assms skip_word [of target]
  by (auto simp: row_end_def starts_ci_def upper_char_def last_split.simps(2))


text \<open>A row \<open>GRANT p ON scope TO account\<close> is read as the pair of \<open>p\<close> and the scope.\<close>

lemma grant_match_row:
  assumes "CHR '' '' \<notin> set target" and "q \<in> {CHR 0x27, CHR ''`''}"
    and "CHR '' '' \<notin> set scope" and "s0 \<in> {CHR ''`'', CHR ''*''}" and "p \<noteq> []"
  shows "grant_match (''GRANT '' @ p @ '' ON '' @ (s0 # scope) @ '' TO '' @ row_end q target g)
    = Some (p, s0 # scope)"
proof -
  let ?tail = "row_end q target g"
  let ?rest = "(s0 # scope) @ '' TO '' @ ?tail"
  have s0: "CHR '' '' \<notin> set (s0 # scope)" using assms(3,4) by auto
  have to: "last_split '' TO '' ok pre ('' TO '' @ ?tail) = (if pre \<noteq> [] \<and> ok ?tail then Some (pre, ?tail) else None)"
    for ok pre
  proof -
    have "last_split '' TO '' ok (pre @ '' '') (''TO '' @ ?tail) = None"
      using skip_word [of "''TO''" "''TO ''" ok _ "CHR '' '' # ?tail"] row_end_no_split(1) [OF assms(1,2)]
      by simp
    then show ?thesis using last_split_here [of "CHR '' ''" "''TO ''" ok pre ?tail] by simp
  qed
  have scope: "last_split '' TO '' (\<lambda>_. True) [] ?rest = Some (s0 # scope, ?tail)"
    using skip_word [OF s0, of "''TO ''" "\<lambda>_. True" "[]" "'' TO '' @ ?tail"] to by simp
  let ?ok = "\<lambda>rest. last_split '' TO '' (\<lambda>_. True) [] rest \<noteq> None"
  have later: "last_split '' ON '' ?ok pre ('' TO '' @ ?tail) = None" for pre
    using row_end_no_split(2) [OF assms(1,2)] skip_word [of "''TO''" "''ON ''" ?ok _ "CHR '' '' # ?tail"]
    by (simp add: last_split_pass starts_ci_def upper_char_def)
  have no_on: "\<not> starts_ci '' ON '' (CHR '' '' # ?rest)"
    using assms(4) by (auto simp: starts_ci_def upper_char_def)
  have "last_split '' ON '' ?ok (p @ '' '') (''ON '' @ ?rest)
      = last_split '' ON '' ?ok ((p @ '' '') @ ''ON'') (CHR '' '' # ?rest)"
    using skip_word [of "''ON''" "''ON ''" ?ok "p @ '' ''" "CHR '' '' # ?rest"] by simp
  also have "\<dots> = last_split '' ON '' ?ok (((p @ '' '') @ ''ON'') @ '' '') ?rest"
    by (rule last_split_pass [OF no_on])
  also have "\<dots> = last_split '' ON '' ?ok ((((p @ '' '') @ ''ON'') @ '' '') @ (s0 # scope)) ('' TO '' @ ?tail)"
    by (rule skip_word [OF s0])
  also have "\<dots> = None" by (rule later)
  finally have "last_split '' ON '' ?ok (p @ '' '') (''ON '' @ ?rest) = None" .
  then have "last_split '' ON '' ?ok p ('' ON '' @ ?rest) = Some (p, ?rest)"
    using last_split_here [of "CHR '' ''" "''ON ''" ?ok p ?rest] assms(5) scope by simp
  then have "last_split '' ON '' ?ok [] (p @ '' ON '' @ ?rest) = Some (p, ?rest)"
    using last_split_right [of "'' ON ''" ?ok "[]" p] by simp
  with scope show ?thesis
    by (simp add: grant_match_def starts_ci_def)
qed


text \<open>A name of a privilege: what the scan of a row needs to know of it.\<close>

abbreviation with_option :: string where
  "with_option \<equiv> '' WITH GRANT OPTION''"

definition grant_word :: "string \<Rightarrow> bool" where
  "grant_word v \<longleftrightarrow> CHR '','' \<notin> set v \<and> upper_text v = v \<and> strip_text v = v
   \<and> (\<forall>w s. single_spaced w (v @ s) = single_spaced True s)
   \<and> (\<forall>s. contains_text with_option (v @ s) = contains_text with_option s)
   \<and> (\<forall>s. contains_text with_option (CHR '' '' # v @ s) = contains_text with_option s)
   \<and> 2 \<le> length v \<and> take 2 v \<noteq> ''US''"

lemma space_char_simps [simp]: "space_char CHR '' ''"
  by (simp add: space_char_def is_space_def)

lemma grant_word_privilege: "grant_word (privilege_value p)"
  by (cases p)
    (simp_all add: grant_word_def upper_char_def strip_text_id space_char_def is_space_def)

lemma grant_word_all: "grant_word ''ALL PRIVILEGES''"
  by (simp add: grant_word_def upper_char_def strip_text_id space_char_def is_space_def)

lemma grant_word_create_user: "grant_word ''CREATE USER''"
  using grant_word_privilege [of P_CREATE_USER] by simp

lemma grant_wordD:
  assumes "grant_word v"
  shows "CHR '','' \<notin> set v" "upper_text v = v" "strip_text v = v"
    "single_spaced w (v @ s) = single_spaced True s"
    "contains_text with_option (v @ s) = contains_text with_option s"
    "contains_text with_option (CHR '' '' # v @ s) = contains_text with_option s"
    "2 \<le> length v" "take 2 v \<noteq> ''US''"
  using assms unfolding grant_word_def by blast+

text \<open>The same for a list of them, as it is written in a statement.\<close>

lemma comma_space:
  "contains_text with_option (CHR '','' # CHR '' '' # s) = contains_text with_option (CHR '' '' # s)"
  "single_spaced True (CHR '','' # CHR '' '' # s) = single_spaced False s"
  by (simp_all add: space_char_def is_space_def)

lemma joined_words:
  assumes "xs \<noteq> []" and "\<forall>x \<in> set xs. grant_word x"
  shows "upper_text (join_text '', '' xs) = join_text '', '' xs"
    and "single_spaced w (join_text '', '' xs @ s) = single_spaced True s"
    and "contains_text with_option (join_text '', '' xs @ s) = contains_text with_option s"
    and "contains_text with_option (CHR '' '' # join_text '', '' xs @ s) = contains_text with_option s"
    and "join_text '', '' xs \<noteq> []" and "take 2 (join_text '', '' xs) \<noteq> ''US''"
proof -
  have "upper_text (join_text '', '' xs) = join_text '', '' xs
    \<and> (\<forall>w s. single_spaced w (join_text '', '' xs @ s) = single_spaced True s)
    \<and> (\<forall>s. contains_text with_option (join_text '', '' xs @ s) = contains_text with_option s)
    \<and> (\<forall>s. contains_text with_option (CHR '' '' # join_text '', '' xs @ s) = contains_text with_option s)
    \<and> join_text '', '' xs \<noteq> [] \<and> take 2 (join_text '', '' xs) \<noteq> ''US''"
    using assms
  proof (induction "'', ''" xs rule: join_text.induct)
    case (2 x)
    then have g: "grant_word x" by simp
    from grant_wordD(7) [OF g] have "x \<noteq> []" by auto
    with grant_wordD [OF g] show ?case by simp
  next
    case (3 x y xs)
    then have g: "grant_word x" by simp
    from grant_wordD(7) [OF g] have "x \<noteq> []" by auto
    have "upper_text '', '' = '', ''" by (simp add: upper_char_def)
    with 3 grant_wordD [OF g] \<open>x \<noteq> []\<close> show ?case
      by (simp add: comma_space del: contains_text.simps single_spaced.simps)
  qed simp
  then show "upper_text (join_text '', '' xs) = join_text '', '' xs"
    "single_spaced w (join_text '', '' xs @ s) = single_spaced True s"
    "contains_text with_option (join_text '', '' xs @ s) = contains_text with_option s"
    "contains_text with_option (CHR '' '' # join_text '', '' xs @ s) = contains_text with_option s"
    "join_text '', '' xs \<noteq> []" "take 2 (join_text '', '' xs) \<noteq> ''US''"
    by blast+
qed


definition spaceless :: "string \<Rightarrow> bool" where
  "spaceless x \<longleftrightarrow> (\<forall>c \<in> set x. \<not> space_char c)"

lemma spaceless_no_space: "spaceless x \<Longrightarrow> CHR '' '' \<notin> set x"
  by (auto simp: spaceless_def)

lemma contains_spaceless:
  assumes "spaceless x"
  shows "contains_text with_option (upper_text x @ s) = contains_text with_option s"
  using assms by (induction x) (auto simp: spaceless_def)

lemma contains_suffix: "contains_text p (x @ p)"
  by (induction x) (cases p; auto)+

text \<open>A row as the server shows it: the privileges, the scope, the quoted account, the option.\<close>

definition grant_row :: "char \<Rightarrow> string list \<Rightarrow> string \<Rightarrow> string \<Rightarrow> bool \<Rightarrow> string" where
  "grant_row q privileges scope target grant_option =
     ''GRANT '' @ join_text '', '' privileges @ '' ON '' @ scope @ '' TO '' @ row_end q target grant_option"

lemma grant_statement_row:
  "grant_statement (join_text '', '' ps) scope account g = grant_row CHR 0x27 ps scope
     (account @ [CHR 0x27, CHR ''@'', CHR 0x27, CHR ''%'', CHR 0x27]) g"
  by (simp add: grant_statement_def grant_row_def row_end_def)

lemma row_spacing:
  assumes "ps \<noteq> []" "\<forall>x \<in> set ps. grant_word x" "spaceless (s0 # scope)" "spaceless (q # target)"
  shows "normal_spaces (grant_row q ps (s0 # scope) target g) = grant_row q ps (s0 # scope) target g"
proof (rule normal_spaces_id)
  have tail: "single_spaced False (row_end q target g)"
    using assms(4) single_spaced_word [of "q # target" False "if g then with_option else []"]
    by (auto simp: row_end_def spaceless_def space_char_def is_space_def)
  have "single_spaced False ((s0 # scope) @ '' TO '' @ row_end q target g)"
    using assms(3) tail single_spaced_word [of "s0 # scope" False "'' TO '' @ row_end q target g"]
    by (simp add: spaceless_def) (simp add: space_char_def is_space_def)
  then show "single_spaced False (grant_row q ps (s0 # scope) target g)"
    using joined_words(2) [OF assms(1,2), of False "'' ON '' @ (s0 # scope) @ '' TO '' @ row_end q target g"]
    by (simp add: grant_row_def space_char_def is_space_def)
qed

lemma row_option:
  assumes "ps \<noteq> []" "\<forall>x \<in> set ps. grant_word x" "spaceless (s0 # scope)" "spaceless (q # target)"
    and "s0 \<in> {CHR ''`'', CHR ''*''}" "q \<in> {CHR 0x27, CHR ''`''}"
  shows "contains_text with_option (upper_text (grant_row q ps (s0 # scope) target g)) = g"
proof -
  have tail: "contains_text with_option (upper_text (row_end q target g)) = g"
  proof (cases g)
    case True
    have "upper_text with_option = with_option" by (simp add: upper_char_def)
    with True show ?thesis
      using contains_suffix [of with_option "upper_text (q # target)"] by (simp add: row_end_def)
  next
    case False
    then show ?thesis
      using contains_spaceless [OF assms(4), of "[]"] by (simp add: row_end_def)
  qed
  have sp: "contains_text with_option (CHR '' '' # upper_char c # s) = contains_text with_option (upper_char c # s)"
    if "c \<in> {CHR ''`'', CHR ''*'', CHR 0x27}" for c s
    using that by (auto simp: upper_char_def)
  have to: "contains_text with_option (upper_text ('' TO '' @ row_end q target g)) = g"
  proof -
    have "contains_text with_option (upper_text (CHR '' '' # row_end q target g)) = g"
      using sp [of q "upper_text (tl (row_end q target g))"] assms(6) tail
      by (auto simp: row_end_def simp del: contains_text.simps)
    then show ?thesis by (simp add: upper_char_def)
  qed
  have "contains_text with_option (upper_text (CHR '' '' # (s0 # scope) @ '' TO '' @ row_end q target g)) = g"
    using contains_spaceless [OF assms(3), of "upper_text ('' TO '' @ row_end q target g)"] to
      sp [of s0 "upper_text (scope @ '' TO '' @ row_end q target g)"] assms(5)
    by (auto simp del: contains_text.simps)
  then have on: "contains_text with_option
      (upper_text ('' ON '' @ (s0 # scope) @ '' TO '' @ row_end q target g)) = g"
    by (simp add: upper_char_def)
  show ?thesis
    using joined_words(1,4) [OF assms(1,2)] on by (simp add: grant_row_def upper_char_def)
qed


lemma row_not_usage:
  assumes "ps \<noteq> []" "\<forall>x \<in> set ps. grant_word x"
  shows "take 18 (upper_text (grant_row q ps scope target g)) \<noteq> ''GRANT USAGE ON *.*''"
proof
  let ?p = "join_text '', '' ps"
  assume usage: "take 18 (upper_text (grant_row q ps scope target g)) = ''GRANT USAGE ON *.*''"
  have "2 \<le> length ?p"
    using assms grant_wordD(7) by (cases ps; cases "tl ps") (fastforce simp: le_diff_conv)+
  then have two: "take 2 (?p @ x) = take 2 ?p" for x by simp
  have "upper_text (grant_row q ps scope target g) = ''GRANT '' @ ?p
      @ upper_text ('' ON '' @ scope @ '' TO '' @ row_end q target g)"
    using joined_words(1) [OF assms] by (simp add: grant_row_def upper_char_def)
  with usage have twelve: "take 12 (?p @ upper_text ('' ON '' @ scope @ '' TO '' @ row_end q target g)) = ''USAGE ON *.*''"
    by simp
  have "take 2 (take 12 z) = take 2 z" for z :: string by (simp add: min_def)
  from this [symmetric, of "?p @ upper_text ('' ON '' @ scope @ '' TO '' @ row_end q target g)"]
  have "take 2 ?p = ''US''" unfolding twelve two by simp
  with joined_words(6) [OF assms] show False by simp
qed

lemma scan_grant_row:
  assumes "ps \<noteq> []" "\<forall>x \<in> set ps. grant_word x" "spaceless (s0 # scope)" "spaceless (q # target)"
    and "s0 \<in> {CHR ''`'', CHR ''*''}" "q \<in> {CHR 0x27, CHR ''`''}"
  shows "scan_row scope_text (grant_row q ps (s0 # scope) target g) gs =
    (if upper_text (s0 # scope) = scope_text then gs\<lparr>gs_database := gs_database gs @ ps\<rparr>
     else if upper_text (s0 # scope) = ''*.*'' then gs\<lparr>gs_global := gs_global gs @ ps\<rparr>
     else gs\<lparr>gs_unexpected := True\<rparr>)\<lparr>gs_grant_option := gs_grant_option gs \<or> g\<rparr>"
proof -
  let ?row = "grant_row q ps (s0 # scope) target g"
  have "map (\<lambda>v. upper_text (strip_text v)) (split_char CHR '','' (join_text '', '' ps))
      = map upper_text (map strip_text (split_char CHR '','' (join_text '', '' ps)))"
    by (simp add: o_def)
  also have "\<dots> = map upper_text (map strip_text ps)"
    using assms(1,2) grant_wordD(1) by (subst split_join) auto
  also have "\<dots> = ps"
    using assms(2) by (simp add: map_idI grant_wordD(2,3))
  finally have words: "map (\<lambda>v. upper_text (strip_text v)) (split_char CHR '','' (join_text '', '' ps)) = ps" .
  have "CHR '' '' \<notin> set target" "CHR '' '' \<notin> set scope"
    using assms(3,4) by (auto dest: spaceless_no_space)
  then have "grant_match ?row = Some (join_text '', '' ps, s0 # scope)"
    using grant_match_row [of target q scope s0 "join_text '', '' ps" g] assms(5,6)
      joined_words(5) [OF assms(1,2)]
    by (simp add: grant_row_def)
  with words row_not_usage [OF assms(1,2), of q "s0 # scope" target g]
    row_spacing [OF assms(1-4), of g] row_option [OF assms, of g]
  show ?thesis by (simp add: scan_row_def Let_def del: contains_text.simps)
qed

lemma identifier_spaceless: "identifier_ok d \<Longrightarrow> spaceless d"
  by (auto simp: identifier_ok_def spaceless_def list_all_iff identifier_char_def space_char_def
      is_space_def Let_def)

lemma checked_identifier_Inr: "checked_identifier v = Inr w \<longleftrightarrow> identifier_ok v \<and> w = v"
  by (auto simp: checked_identifier_def)

text \<open>What a server shows of the account after the statements have been executed.\<close>

definition shown_grants :: "char \<Rightarrow> string \<Rightarrow> string \<Rightarrow> permission_snapshot \<Rightarrow> string list" where
  "shown_grants q database account snapshot =
     (let target = account @ [q, CHR ''@'', q, CHR ''%'', q]; g = ps_grant_option snapshot
      in (if expected_database snapshot = [] then []
          else [grant_row q (expected_database snapshot) (database_scope database) target g])
       @ (if expected_global snapshot = [] then []
          else [grant_row q (expected_global snapshot) ''*.*'' target g]))"

lemma build_is_shown:
  assumes "build_dedicated_grant_sql database account snapshot = Inr statements"
  shows "statements = shown_grants CHR 0x27 database account snapshot"
    and "identifier_ok database" "identifier_ok account"
    and "expected_database snapshot \<noteq> [] \<or> expected_global snapshot \<noteq> []"
proof -
  have single: "grant_statement x sc account g = grant_row CHR 0x27 [x] sc
      (account @ [CHR 0x27, CHR ''@'', CHR 0x27, CHR ''%'', CHR 0x27]) g" for x sc g
    using grant_statement_row [of "[x]"] by simp
  from assms single [of "''ALL PRIVILEGES''"] single [of "''CREATE USER''"] show "statements = shown_grants CHR 0x27 database account snapshot"
    "identifier_ok database" "identifier_ok account"
    "expected_database snapshot \<noteq> [] \<or> expected_global snapshot \<noteq> []"
    by (auto simp: build_dedicated_grant_sql_def bindE_Inr checked_identifier_Inr Let_def shown_grants_def
        expected_database_def expected_global_def grant_statement_row split: if_splits)
qed

lemma expected_words:
  "\<forall>x \<in> set (expected_database s). grant_word x" "\<forall>x \<in> set (expected_global s). grant_word x"
  using grant_word_privilege grant_word_all grant_word_create_user
  by (auto simp: expected_database_def expected_global_def database_privileges_def)

lemma shown_grants_verify:
  assumes "build_dedicated_grant_sql database account snapshot = Inr statements"
    and "q \<in> {CHR 0x27, CHR ''`''}"
    and "take 18 (upper_text (normal_spaces usage)) = ''GRANT USAGE ON *.*''"
  shows "verify_dedicated_grants database account snapshot
    (usage # shown_grants q database account snapshot) = Inr ()"
proof -
  note built = build_is_shown [OF assms(1)]
  let ?t = "account @ [q, CHR ''@'', q, CHR ''%'', q]"
  have target: "spaceless (q # ?t)"
    using identifier_spaceless [OF built(3)] assms(2)
    by (auto simp: spaceless_def space_char_def is_space_def)
  have scope: "spaceless (database_scope database)" "spaceless ''*.*''"
    using identifier_spaceless [OF built(2)]
    by (auto simp: spaceless_def database_scope_def space_char_def is_space_def)
  have first: "\<exists>rest. database_scope database = CHR ''`'' # rest"
    by (simp add: database_scope_def)
  then obtain rest where rest: "database_scope database = CHR ''`'' # rest" by blast
  have differ: "upper_text ''*.*'' \<noteq> upper_text (database_scope database)"
    "upper_text ''*.*'' = ''*.*''" "upper_text (database_scope database) \<noteq> ''*.*''"
    using rest by (simp_all add: upper_char_def)
  have db: "scan_row (upper_text (database_scope database))
      (grant_row q (expected_database snapshot) (database_scope database) ?t g) gs
      = gs\<lparr>gs_database := gs_database gs @ expected_database snapshot, gs_grant_option := gs_grant_option gs \<or> g\<rparr>"
    if "expected_database snapshot \<noteq> []" for g gs
    using scan_grant_row [of "expected_database snapshot" "CHR ''`''" rest q ?t] that expected_words
      target scope assms(2) rest by simp
  have all: "scan_row (upper_text (database_scope database))
      (grant_row q (expected_global snapshot) ''*.*'' ?t g) gs
      = gs\<lparr>gs_global := gs_global gs @ expected_global snapshot, gs_grant_option := gs_grant_option gs \<or> g\<rparr>"
    if "expected_global snapshot \<noteq> []" for g gs
    using scan_grant_row [of "expected_global snapshot" "CHR ''*''" "''.*''" q ?t] that expected_words
      target scope assms(2) differ by simp
  have usage: "scan_row st usage gs = gs" for st gs
    using assms(3) by (simp add: scan_row_def)
  show ?thesis
    using built(2-4) db all usage
    by (auto simp: verify_dedicated_grants_def checked_identifier_def shown_grants_def Let_def)
qed


text \<open>C37: what is granted verifies. The statements the server is given for a snapshot are
  exactly the rows it is expected to show; shown back in either quoting style, after the row that
  grants no privilege, they pass the verification.\<close>

theorem granted_statements_verify:
  assumes "build_dedicated_grant_sql database account snapshot = Inr statements"
    and "q \<in> {CHR 0x27, CHR ''`''}"
    and "take 18 (upper_text (normal_spaces usage)) = ''GRANT USAGE ON *.*''"
  shows "statements = shown_grants CHR 0x27 database account snapshot
    \<and> verify_dedicated_grants database account snapshot
        (usage # shown_grants q database account snapshot) = Inr ()"
  using build_is_shown(1) [OF assms(1)] shown_grants_verify [OF assms] by simp

lemma example_identifiers: "identifier_ok ''agentic''" "identifier_ok ''sandbox''"
  by (simp_all add: identifier_ok_def identifier_char_def)

lemma example_usage:
  "take 18 (upper_text (normal_spaces ''GRANT USAGE ON *.* TO `sandbox`@`%`'')) = ''GRANT USAGE ON *.*''"
  by (simp add: normal_spaces_def space_char_def is_space_def upper_char_def)

lemma example_snapshot_build:
  "build_dedicated_grant_sql ''agentic'' ''sandbox'' (default_permission_snapshot SCOPE_DEDICATED)
     = Inr (shown_grants CHR 0x27 ''agentic'' ''sandbox'' (default_permission_snapshot SCOPE_DEDICATED))"
proof -
  from example_identifiers obtain sts where "build_dedicated_grant_sql ''agentic'' ''sandbox''
      (default_permission_snapshot SCOPE_DEDICATED) = Inr sts"
    by (simp add: build_dedicated_grant_sql_def checked_identifier_def default_permission_snapshot_def
        database_privileges_def default_database_privileges_def all_privileges_def)
  with build_is_shown(1) show ?thesis by metis
qed

theorem granted_statements_verify_witness:
  "verify_dedicated_grants ''agentic'' ''sandbox'' (default_permission_snapshot SCOPE_DEDICATED)
     (''GRANT USAGE ON *.* TO `sandbox`@`%`''
       # shown_grants CHR ''`'' ''agentic'' ''sandbox'' (default_permission_snapshot SCOPE_DEDICATED)) = Inr ()"
  using granted_statements_verify [OF example_snapshot_build _ example_usage, of "CHR ''`''"] by simp

text \<open>The scan only accumulates.\<close>

definition scan_le :: "grant_scan \<Rightarrow> grant_scan \<Rightarrow> bool" where
  "scan_le a b \<longleftrightarrow> set (gs_database a) \<subseteq> set (gs_database b) \<and> set (gs_global a) \<subseteq> set (gs_global b)
     \<and> (gs_grant_option a \<longrightarrow> gs_grant_option b) \<and> (gs_unexpected a \<longrightarrow> gs_unexpected b)"

lemma scan_row_le: "scan_le gs (scan_row st row gs)"
  by (auto simp: scan_le_def scan_row_def Let_def split: option.splits)

lemma scan_rows_le: "scan_le gs (fold (scan_row st) rows gs)"
proof (induction rows arbitrary: gs)
  case (Cons row rows)
  then have "scan_le (scan_row st row gs) (fold (scan_row st) rows (scan_row st row gs))" .
  with scan_row_le [of gs st row] show ?case by (auto simp: scan_le_def)
qed (simp add: scan_le_def)

text \<open>a grant beyond the snapshot is detected. If the verification passes, every row that
  grants privileges grants them on the member's database (up to the case of its name) or globally,
  each of them is one the snapshot asks for there, and it carries the grant option only if the
  snapshot does.\<close>

theorem verify_detects_excess:
  assumes "verify_dedicated_grants database account snapshot rows = Inr ()"
    and "grant_row q (map privilege_value ps) (s0 # scope) target g \<in> set rows"
    and "ps \<noteq> []" "spaceless (s0 # scope)" "spaceless (q # target)"
    and "s0 \<in> {CHR ''`'', CHR ''*''}" "q \<in> {CHR 0x27, CHR ''`''}"
  shows "(upper_text (s0 # scope) = upper_text (database_scope database)
        \<and> privilege_value ` set ps \<subseteq> set (expected_database snapshot)
      \<or> upper_text (s0 # scope) = ''*.*'' \<and> privilege_value ` set ps \<subseteq> set (expected_global snapshot))
    \<and> (g \<longrightarrow> ps_grant_option snapshot)"
proof -
  let ?st = "upper_text (database_scope database)"
  let ?row = "grant_row q (map privilege_value ps) (s0 # scope) target g"
  let ?init = "\<lparr>gs_database = [], gs_global = [], gs_grant_option = False, gs_unexpected = False\<rparr>"
  from assms(2) obtain xs ys where rows: "rows = xs @ ?row # ys" by (auto dest: split_list)
  let ?before = "fold (scan_row ?st) xs ?init"
  let ?after = "fold (scan_row ?st) rows ?init"
  have "\<not> gs_unexpected ?after" "set (gs_database ?after) = set (expected_database snapshot)"
    "set (gs_global ?after) = set (expected_global snapshot)"
    "gs_grant_option ?after = ps_grant_option snapshot"
    using assms(1) by (auto simp: verify_dedicated_grants_def bindE_Inr checked_identifier_Inr Let_def
        split: if_splits)
  moreover have "scan_le (scan_row ?st ?row ?before) ?after"
    using scan_rows_le [of "scan_row ?st ?row ?before" ?st ys] by (simp add: rows)
  moreover have "scan_row ?st ?row ?before =
    (if upper_text (s0 # scope) = ?st then ?before\<lparr>gs_database := gs_database ?before @ map privilege_value ps\<rparr>
     else if upper_text (s0 # scope) = ''*.*'' then ?before\<lparr>gs_global := gs_global ?before @ map privilege_value ps\<rparr>
     else ?before\<lparr>gs_unexpected := True\<rparr>)\<lparr>gs_grant_option := gs_grant_option ?before \<or> g\<rparr>"
    using assms(3) grant_word_privilege by (intro scan_grant_row assms(4-7)) auto
  ultimately show ?thesis
    by (auto simp: scan_le_def split: if_splits)
qed

definition select_snapshot :: permission_snapshot where
  "select_snapshot = (default_permission_snapshot SCOPE_DEDICATED)\<lparr>ps_privileges := [P_SELECT]\<rparr>"

theorem verify_detects_excess_witness:
  "grant_row CHR ''`'' (map privilege_value [P_SELECT]) (database_scope ''agentic'') ''sandbox`@`%`'' False
     \<in> set (shown_grants CHR ''`'' ''agentic'' ''sandbox'' select_snapshot)
   \<and> (privilege_value ` set [P_SELECT] \<subseteq> set (expected_database select_snapshot)
      \<or> privilege_value ` set [P_SELECT] \<subseteq> set (expected_global select_snapshot))"
proof -
  have row: "grant_row CHR ''`'' (map privilege_value [P_SELECT]) (database_scope ''agentic'') ''sandbox`@`%`'' False
      \<in> set (shown_grants CHR ''`'' ''agentic'' ''sandbox'' select_snapshot)"
    by (simp add: shown_grants_def expected_database_def expected_global_def database_privileges_def
        select_snapshot_def default_permission_snapshot_def)
  obtain sts where "build_dedicated_grant_sql ''agentic'' ''sandbox'' select_snapshot = Inr sts"
    using example_identifiers
    by (simp add: build_dedicated_grant_sql_def checked_identifier_def default_permission_snapshot_def
        database_privileges_def select_snapshot_def)
  from shown_grants_verify [OF this _ example_usage, of "CHR ''`''"]
  have ok: "verify_dedicated_grants ''agentic'' ''sandbox'' select_snapshot
      (''GRANT USAGE ON *.* TO `sandbox`@`%`'' # shown_grants CHR ''`'' ''agentic'' ''sandbox'' select_snapshot) = Inr ()"
    by simp
  have "privilege_value ` set [P_SELECT] \<subseteq> set (expected_database select_snapshot)
      \<or> privilege_value ` set [P_SELECT] \<subseteq> set (expected_global select_snapshot)"
    using verify_detects_excess [OF ok, of "CHR ''`''" "[P_SELECT]" "CHR ''`''" "''agentic`.*''" "''sandbox`@`%`''" False]
      row by (auto simp: database_scope_def spaceless_def space_char_def is_space_def)
  with row show ?thesis by blast
qed


section \<open>Sessions\<close>

lemma andThen_Inr:
  "andThen x f tr = (Inr b, tr') \<longleftrightarrow> (\<exists>a tr1. x tr = (Inr a, tr1) \<and> f a tr1 = (Inr b, tr'))"
  by (auto simp: andThen_def split: prod.splits sum.splits)

lemma result_Inr: "result x tr = (Inr a, tr1) \<longleftrightarrow> x = Inr a \<and> tr1 = tr"
  by (auto simp: result_def)

lemma connect_Inr: "connect srv lg tr = (Inr u, tr1) \<longleftrightarrow> my_connect srv tr lg = Inr u \<and> tr1 = tr @ [Opened lg]"
  by (auto simp: connect_def)

lemma execute_Inr:
  "execute srv lg sql ps tr = (Inr rows, tr1) \<longleftrightarrow>
   my_execute srv tr lg sql ps = Inr rows \<and> tr1 = tr @ [Executed lg sql ps]"
  by (auto simp: execute_def)

lemmas session_simps = andThen_Inr result_Inr connect_Inr execute_Inr checked_identifier_Inr

definition kill_event :: "db_login \<Rightarrow> int \<Rightarrow> event" where
  "kill_event lg n = Executed lg (''KILL CONNECTION '' @ digits (nat n)) []"

lemma kill_sessions_Inr:
  "kill_sessions srv lg cells tr = (Inr u, tr') \<Longrightarrow>
   \<exists>ids. cells = map CInt ids \<and> (\<forall>n \<in> set ids. 0 < n) \<and> tr' = tr @ map (kill_event lg) ids"
proof (induction cells arbitrary: tr)
  case Nil
  then show ?case by (auto simp: result_Inr)
next
  case (Cons c cs)
  from Cons.prems obtain n tr1 where "c = CInt n" "0 < n"
    and tr1: "tr1 = tr @ [kill_event lg n]" "kill_sessions srv lg cs tr1 = (Inr u, tr')"
    by (cases c) (auto simp: session_simps kill_event_def split: if_splits)
  from Cons.IH [OF tr1(2)] obtain ids where "cs = map CInt ids" "\<forall>n \<in> set ids. 0 < n"
    "tr' = tr1 @ map (kill_event lg) ids" by blast
  with \<open>c = CInt n\<close> \<open>0 < n\<close> tr1(1) show ?case by (intro exI [of _ "n # ids"]) simp
qed

text \<open>a disconnected account stays disconnected. When \<open>disconnect\<close> succeeds, the account
  was locked before its sessions were listed, every listed session was killed by its own
  identifier, and a second listing, after the kills, was empty.\<close>

theorem disconnect_locks_then_kills:
  assumes "disconnect srv dec m tr = (Inr (), tr')"
  shows "\<exists>q ids. let lg = ma_lifecycle q; user = ma_sandbox_user q;
      locked = tr @ [Opened lg, Executed lg (account_sql ''ALTER USER '' user '' ACCOUNT LOCK'') []];
      killed = locked @ [Executed lg processlist_query [user]] @ map (kill_event lg) ids
    in required dec m = Inr q \<and> identifier_ok user
     \<and> my_execute srv locked lg processlist_query [user] = Inr (map CInt ids)
     \<and> my_execute srv killed lg processlist_query [user] = Inr []
     \<and> tr' = killed @ [Executed lg processlist_query [user]]"
proof -
  from assms obtain q rows tr1 where "required dec m = Inr q" "identifier_ok (ma_sandbox_user q)"
    and list: "my_execute srv (tr @ [Opened (ma_lifecycle q), Executed (ma_lifecycle q)
        (account_sql ''ALTER USER '' (ma_sandbox_user q) '' ACCOUNT LOCK'') []]) (ma_lifecycle q)
        processlist_query [ma_sandbox_user q] = Inr rows"
    and kill: "kill_sessions srv (ma_lifecycle q) rows (tr @ [Opened (ma_lifecycle q), Executed (ma_lifecycle q)
        (account_sql ''ALTER USER '' (ma_sandbox_user q) '' ACCOUNT LOCK'') [],
        Executed (ma_lifecycle q) processlist_query [ma_sandbox_user q]]) = (Inr (), tr1)"
    and "my_execute srv tr1 (ma_lifecycle q) processlist_query [ma_sandbox_user q] = Inr []"
    and "tr' = tr1 @ [Executed (ma_lifecycle q) processlist_query [ma_sandbox_user q]]"
    by (auto simp: disconnect_def Let_def session_simps split: if_splits)
  with kill_sessions_Inr [OF kill] show ?thesis
    by (intro exI [of _ q]) (auto simp: Let_def)
qed

lemma incomplete_errors:
  assumes "\<not> credentials_complete m"
  shows "disconnect srv dec m tr = (Inl incomplete_error, tr)"
    and "restore srv dec py_str m tr = (Inl incomplete_error, tr)"
    and "drop_sandbox srv dec m tr = (Inl incomplete_error, tr)"
    and "verify srv dec py_str m tr = (Inl incomplete_error, tr)"
  using assms
  by (simp_all add: disconnect_def restore_def drop_sandbox_def verify_def required_def andThen_def
      result_def)


definition example_server :: mysql_server where
  "example_server = \<lparr>my_connect = (\<lambda>_ _. Inr ()),
     my_execute = (\<lambda>tr lg sql params.
       Inr (if sql = processlist_query \<and> length tr = 2 then [CInt 7] else []))\<rparr>"

definition complete_member :: pool_member where
  "complete_member = new_member ''m1'' ''po'' ''i1'' MS_ALLOCATED RS_FRESH PREP_VERIFIED (Some ''r1'') 0
     \<lparr>m_host := Some ''h'', m_port := Some 3306, m_lifecycle_username_ciphertext := Some ''life'',
      m_lifecycle_password_ciphertext := Some ''lp'', m_sandbox_username_ciphertext := Some ''sandbox'',
      m_sandbox_password_ciphertext := Some ''sp'', m_database_name := Some ''agentic'',
      m_permission_snapshot_json := Some (permission_snapshot_to_json select_snapshot)\<rparr>"

lemma complete_member_required:
  "required Inr complete_member = Inr \<lparr>ma_lifecycle = \<lparr>lg_host = ''h'', lg_port = 3306,
     lg_user = ''life'', lg_password = ''lp'', lg_db = None\<rparr>, ma_sandbox_user = ''sandbox'',
     ma_sandbox_password = ''sp''\<rparr>"
  by (simp add: required_def credentials_complete_def complete_member_def new_member_def)

lemma example_disconnect: "\<exists>tr'. disconnect example_server Inr complete_member [] = (Inr (), tr')"
proof -
  have "account_sql ''ALTER USER '' ''sandbox'' '' ACCOUNT LOCK'' \<noteq> processlist_query"
    by (simp add: account_sql_def processlist_query_def)
  then show ?thesis
    using example_identifiers
    by (simp add: disconnect_def complete_member_required andThen_def result_def connect_def execute_def
        checked_identifier_def example_server_def Let_def)
qed

theorem disconnect_locks_then_kills_witness:
  "\<exists>tr' q. disconnect example_server Inr complete_member [] = (Inr (), tr')
     \<and> required Inr complete_member = Inr q \<and> identifier_ok (ma_sandbox_user q)"
proof -
  obtain tr' where run: "disconnect example_server Inr complete_member [] = (Inr (), tr')"
    using example_disconnect by blast
  from disconnect_locks_then_kills [OF run] run show ?thesis by (auto simp: Let_def)
qed



section \<open>A server that does as it is told\<close>

text \<open>\<open>serves\<close>: connections open, statements are executed, the grants of the account are shown as
  they were asked for, and the account can run a query.\<close>

definition serves :: "mysql_server \<Rightarrow> string \<Rightarrow> string \<Rightarrow> permission_snapshot \<Rightarrow> bool" where
  "serves srv database account snapshot \<longleftrightarrow>
     (\<forall>tr lg. my_connect srv tr lg = Inr ())
   \<and> (\<forall>tr lg sql params. \<exists>rows. my_execute srv tr lg sql params = Inr rows)
   \<and> (\<forall>tr lg. \<exists>usage. take 18 (upper_text (normal_spaces usage)) = ''GRANT USAGE ON *.*''
        \<and> my_execute srv tr lg (account_sql ''SHOW GRANTS FOR '' account []) []
            = Inr (map CText (usage # shown_grants CHR ''`'' database account snapshot)))
   \<and> (\<forall>tr lg. my_execute srv tr lg ''SELECT 1'' [] = Inr [CInt 1])"

text \<open>A member whose sandbox account is \<open>account\<close>, with a well-formed snapshot stored.\<close>

definition sandboxed ::
    "(string \<Rightarrow> py_error + string) \<Rightarrow> string \<Rightarrow> string \<Rightarrow> permission_snapshot \<Rightarrow> pool_member \<Rightarrow> bool" where
  "sandboxed dec database account snapshot m \<longleftrightarrow>
     identifier_ok database \<and> identifier_ok account \<and> snapshot_wf snapshot
   \<and> ps_scope snapshot = SCOPE_DEDICATED
   \<and> m_database_name m = Some database
   \<and> m_permission_snapshot_json m = Some (permission_snapshot_to_json snapshot)
   \<and> (case required dec m of Inl _ \<Rightarrow> False | Inr q \<Rightarrow> ma_sandbox_user q = account)"

lemma build_ok:
  assumes "identifier_ok database" "identifier_ok account" "snapshot_wf snapshot"
    and "ps_scope snapshot = SCOPE_DEDICATED"
  shows "\<exists>statements. build_dedicated_grant_sql database account snapshot = Inr statements"
proof (cases "ps_legacy_all_privileges snapshot")
  case True
  with assms show ?thesis by (simp add: build_dedicated_grant_sql_def checked_identifier_def Let_def)
next
  case False
  with assms(3) have "ps_privileges snapshot \<noteq> []" by (simp add: snapshot_wf_def)
  then have "database_privileges snapshot \<noteq> [] \<or> P_CREATE_USER \<in> set (ps_privileges snapshot)"
    by (cases "ps_privileges snapshot") (auto simp: database_privileges_def)
  with assms show ?thesis by (auto simp: build_dedicated_grant_sql_def checked_identifier_def Let_def)
qed

lemma execute_all_serves:
  "serves srv d a s \<Longrightarrow> \<exists>tr'. execute_all srv lg sqls tr = (Inr (), tr')"
proof (induction sqls arbitrary: tr)
  case (Cons sql sqls)
  from Cons.prems obtain rows where "my_execute srv tr lg sql [] = Inr rows"
    unfolding serves_def by blast
  with Cons show ?case by (simp add: andThen_def execute_def)
qed (simp add: result_def)

lemma sandboxedD:
  assumes "sandboxed dec d a s m"
  obtains q statements where "required dec m = Inr q" "ma_sandbox_user q = a"
    "stored_snapshot py_str m = Inr s" "m_database_name m = Some d"
    "build_dedicated_grant_sql d a s = Inr statements" "identifier_ok a"
  using assms build_ok [of d a s] snapshot_json_inverse [of s py_str] that
  by (auto simp: sandboxed_def stored_snapshot_def split: sum.splits)

lemma apply_permissions_ok:
  assumes "serves srv d a s" and "sandboxed dec d a s m"
  shows "\<exists>tr'. apply_permissions srv dec py_str m tr = (Inr (), tr')"
proof -
  from assms(2) obtain q statements where "required dec m = Inr q" "ma_sandbox_user q = a"
    "stored_snapshot py_str m = Inr s" "m_database_name m = Some d"
    "build_dedicated_grant_sql d a s = Inr statements"
    by (rule sandboxedD)
  with assms(1) execute_all_serves [OF assms(1)] show ?thesis
    by (simp add: apply_permissions_def andThen_def result_def connect_def serves_def)
qed

lemma verify_ok:
  assumes "serves srv d a s" and "sandboxed dec d a s m"
  shows "\<exists>tr'. verify srv dec py_str m tr = (Inr (), tr')"
proof -
  from assms(2) obtain q statements where q: "required dec m = Inr q" "ma_sandbox_user q = a"
    "stored_snapshot py_str m = Inr s" "m_database_name m = Some d" "identifier_ok a"
    and build: "build_dedicated_grant_sql d a s = Inr statements"
    by (rule sandboxedD)
  from assms(1) obtain usage where
    usage: "take 18 (upper_text (normal_spaces usage)) = ''GRANT USAGE ON *.*''"
      "my_execute srv (tr @ [Opened (ma_lifecycle q)]) (ma_lifecycle q)
        (account_sql ''SHOW GRANTS FOR '' a []) [] = Inr (map CText (usage # shown_grants CHR ''`'' d a s))"
    unfolding serves_def by blast
  have texts: "map cell_text (map CText rows) = rows" for rows by (induction rows) auto
  have grants: "verify_dedicated_grants d a s (map cell_text (map CText (usage # shown_grants CHR ''`'' d a s))) = Inr ()"
    unfolding texts using shown_grants_verify [OF build _ usage(1), of "CHR ''`''"] by simp
  have "my_connect srv tr lg = Inr ()" "my_execute srv tr lg ''SELECT 1'' [] = Inr [CInt 1]" for tr lg
    using assms(1) by (simp_all add: serves_def)
  with q usage(2) grants show ?thesis
    by (simp add: verify_def andThen_def result_def connect_def execute_def checked_identifier_def Let_def
        del: list.map)
qed

end
