(* ===== verification/Pool_Provisioner.thy ===== *)
theory Pool_Provisioner
  imports Resource_Service Dedicated_MySQL "HOL-Library.AList"
begin

text \<open>
  Preparing a dedicated pool member (\<open>server/core/dedicated_pool_provisioner.py\<close>): from the
  stored purchase intent over the purchase, the endpoint, the two accounts and the database to
  the verified member.

  The cloud API, the member's own MySQL server and the cipher are the record \<open>cloud\<close>: what they
  answer to each call. A call runs outside any transaction, so other sessions commit during it; the
  interference \<open>env\<close> is what they do. The provisioner then writes the attributes it
  changed on the objects it loaded before the call: \<open>write_member\<close>, \<open>write_instance\<close>
  and \<open>write_resource\<close> write an attribute only if its new value differs from the loaded one, and
  leave the others as the other sessions made them.
\<close>

section \<open>The cloud\<close>

record endpoint_address =
  ea_net_type :: string
  ea_connection_string :: string
  ea_port :: int

record cluster_purchase =
  cp_cluster_id :: "string option"
  cp_agentic_db_cluster_id :: "string option"
  cp_request_id :: "string option"

text \<open>\<open>cl_client\<close> is \<open>_client_or_raise\<close>: no credentials or an unknown region is an error.\<close>

record cloud =
  cl_client :: "string option \<Rightarrow> py_error + unit"
  cl_create_dedicated_cluster ::
    "(string \<times> string) list \<Rightarrow> string \<Rightarrow> string \<Rightarrow> py_error + cluster_purchase"
  cl_cluster_status :: "string \<Rightarrow> py_error + string option"
  cl_describe_endpoints :: "string \<Rightarrow> py_error + (string \<times> endpoint_address list) list"
  cl_create_account :: "string \<Rightarrow> string \<Rightarrow> string \<Rightarrow> string \<Rightarrow> py_error + unit"
  cl_describe_account :: "string \<Rightarrow> string \<Rightarrow> py_error + string option"
  cl_create_database :: "string \<Rightarrow> string \<Rightarrow> py_error + unit"
  cl_mysql :: mysql_server
  cl_delete_cluster :: "string \<Rightarrow> py_error + unit"
  cl_encrypt :: "string \<Rightarrow> string"
  cl_decrypt :: "string \<Rightarrow> py_error + string"

record member_draws =
  md_purchase_token :: string
  md_password :: string
  md_credential_id :: string

section \<open>Helpers\<close>

definition network_identifier :: "string option \<Rightarrow> string \<Rightarrow> py_error + string" where
  "network_identifier v field =
     (let normalized = strip_text (case v of None \<Rightarrow> [] | Some s \<Rightarrow> s)
      in if normalized = [] then Inl (DedicatedPoolProvisioningError (field @ '' cannot be blank''))
         else Inr normalized)"

text \<open>\<open>str(value)\<close> of a JSON value; only strings occur in a current purchase profile, the text of
  the other values is the parameter \<open>repr\<close>.\<close>

fun json_text :: "(json \<Rightarrow> string) \<Rightarrow> json \<Rightarrow> string" where
  "json_text repr (JStr s) = s"
| "json_text repr j = repr j"

definition dict_set :: "string \<Rightarrow> string \<Rightarrow> (string \<times> string) list \<Rightarrow> (string \<times> string) list" where
  "dict_set k v d = AList.update k v d"

definition purchase_parameters ::
    "(json \<Rightarrow> string) \<Rightarrow> pool \<Rightarrow> instance_row \<Rightarrow> pool_member \<Rightarrow> py_error + (string \<times> string) list" where
  "purchase_parameters repr p i m =
     (case p_purchase_config_json p of
        InvalidText \<Rightarrow>
          Inl (DedicatedPoolProvisioningError ''Dedicated pool purchase configuration is invalid'')
      | Text (JObj configured) \<Rightarrow>
          bindE (network_identifier (i_region i) ''region_id'') (\<lambda>region.
          bindE (network_identifier (Some (p_vpc_id p)) ''vpc_id'') (\<lambda>vpc.
          bindE (network_identifier (Some (p_vswitch_id p)) ''vswitch_id'') (\<lambda>vswitch.
            let params = map (\<lambda>(k, v). (k, json_text repr v)) configured;
                params = dict_set ''client_token''
                  (case m_purchase_token m of None \<Rightarrow> ''None'' | Some t \<Rightarrow> t)
                  (dict_set ''vswitch_id'' vswitch (dict_set ''vpc_id'' vpc
                    (dict_set ''region_id'' region params)));
                zone = strip_text (case p_zone_id p of None \<Rightarrow> [] | Some z \<Rightarrow> z);
                params = (if zone \<noteq> [] then dict_set ''zone_id'' zone params else params)
            in Inr (case p_security_ip_list p of
                      None \<Rightarrow> params
                    | Some ips \<Rightarrow> if ips = [] then params else dict_set ''security_ip_list'' ips params))))
      | Text _ \<Rightarrow>
          Inl (DedicatedPoolProvisioningError
            ''Dedicated pool purchase configuration must be an object''))"

definition openapi_duplicate_codes :: "string list" where
  "openapi_duplicate_codes = [''InvalidAccountName.Duplicate'', ''InvalidDBName.Duplicate'']"

fun is_duplicate :: "py_error \<Rightarrow> bool" where
  "is_duplicate (OpenAPIError code) = (code \<in> set openapi_duplicate_codes)"
| "is_duplicate _ = False"

text \<open>A call that creates something succeeds also when it is there already.\<close>

definition or_duplicate :: "py_error + unit \<Rightarrow> py_error + unit" where
  "or_duplicate x = (case x of Inl e \<Rightarrow> if is_duplicate e then Inr () else Inl e | Inr u \<Rightarrow> Inr u)"

definition account_available :: "string option \<Rightarrow> bool" where
  "account_available account =
     (case account of None \<Rightarrow> False
      | Some status \<Rightarrow> map lower_char (strip_text status) = ''available'')"

definition or_else :: "'a option \<Rightarrow> 'a option \<Rightarrow> 'a option" where
  "or_else a b = (case a of Some x \<Rightarrow> Some x | None \<Rightarrow> b)"

text \<open>
  \<open>resolve_primary_endpoint\<close> of \<open>polardb_provisioning_helpers.py\<close>: of the endpoints with the
  same type the last one counts (a dictionary keeps the last value).
\<close>

definition resolve_primary_endpoint ::
    "(string \<times> endpoint_address list) list \<Rightarrow> string \<Rightarrow> py_error + (string \<times> int)" where
  "resolve_primary_endpoint items preferred_net_type =
     (let by_type = map_of (rev items);
          chosen = or_else (by_type ''Primary'')
                     (or_else (by_type ''PrimaryOnProxy'') (by_type ''Cluster''))
      in case chosen of
           None \<Rightarrow> Inl (OtherError ''ProvisioningError'')
         | Some addresses \<Rightarrow>
             (case find (\<lambda>a. ea_net_type a = preferred_net_type) addresses of
                None \<Rightarrow> Inl (OtherError ''ProvisioningError'')
              | Some a \<Rightarrow> Inr (ea_connection_string a, ea_port a)))"

definition optional_string :: "string option \<Rightarrow> string option" where
  "optional_string v = (case v of None \<Rightarrow> None | Some s \<Rightarrow> if s = [] then None else Some s)"

section \<open>Writing changed attributes\<close>

definition dirty :: "'a \<Rightarrow> 'a \<Rightarrow> 'a \<Rightarrow> 'a" where
  "dirty loaded assigned current = (if assigned = loaded then current else assigned)"

definition write_member :: "pool_member \<Rightarrow> pool_member \<Rightarrow> pool_member \<Rightarrow> pool_member" where
  "write_member m m' cur = cur
     \<lparr>m_status := dirty (m_status m) (m_status m') (m_status cur),
      m_readiness_status := dirty (m_readiness_status m) (m_readiness_status m') (m_readiness_status cur),
      m_preparation_step := dirty (m_preparation_step m) (m_preparation_step m') (m_preparation_step cur),
      m_purchase_token := dirty (m_purchase_token m) (m_purchase_token m') (m_purchase_token cur),
      m_cloud_request_id := dirty (m_cloud_request_id m) (m_cloud_request_id m') (m_cloud_request_id cur),
      m_agentic_db_cluster_id :=
        dirty (m_agentic_db_cluster_id m) (m_agentic_db_cluster_id m') (m_agentic_db_cluster_id cur),
      m_last_ready_verified_at :=
        dirty (m_last_ready_verified_at m) (m_last_ready_verified_at m') (m_last_ready_verified_at cur),
      m_lifecycle_username_ciphertext := dirty (m_lifecycle_username_ciphertext m)
        (m_lifecycle_username_ciphertext m') (m_lifecycle_username_ciphertext cur),
      m_lifecycle_password_ciphertext := dirty (m_lifecycle_password_ciphertext m)
        (m_lifecycle_password_ciphertext m') (m_lifecycle_password_ciphertext cur),
      m_sandbox_username_ciphertext := dirty (m_sandbox_username_ciphertext m)
        (m_sandbox_username_ciphertext m') (m_sandbox_username_ciphertext cur),
      m_sandbox_password_ciphertext := dirty (m_sandbox_password_ciphertext m)
        (m_sandbox_password_ciphertext m') (m_sandbox_password_ciphertext cur),
      m_host := dirty (m_host m) (m_host m') (m_host cur),
      m_port := dirty (m_port m) (m_port m') (m_port cur),
      m_database_name := dirty (m_database_name m) (m_database_name m') (m_database_name cur),
      m_permission_revision_id := dirty (m_permission_revision_id m)
        (m_permission_revision_id m') (m_permission_revision_id cur),
      m_permission_snapshot_json := dirty (m_permission_snapshot_json m)
        (m_permission_snapshot_json m') (m_permission_snapshot_json cur),
      m_failure_reason := dirty (m_failure_reason m) (m_failure_reason m') (m_failure_reason cur),
      m_retry_count := dirty (m_retry_count m) (m_retry_count m') (m_retry_count cur),
      m_next_retry_at := dirty (m_next_retry_at m) (m_next_retry_at m') (m_next_retry_at cur)\<rparr>"

definition write_instance :: "instance_row \<Rightarrow> instance_row \<Rightarrow> instance_row \<Rightarrow> instance_row" where
  "write_instance i i' cur = cur
     \<lparr>i_cluster_id := dirty (i_cluster_id i) (i_cluster_id i') (i_cluster_id cur),
      i_allocation_mode := dirty (i_allocation_mode i) (i_allocation_mode i') (i_allocation_mode cur),
      i_region := dirty (i_region i) (i_region i') (i_region cur),
      i_host := dirty (i_host i) (i_host i') (i_host cur),
      i_port := dirty (i_port i) (i_port i') (i_port cur),
      i_status := dirty (i_status i) (i_status i') (i_status cur)\<rparr>"

definition write_resource :: "resource \<Rightarrow> resource \<Rightarrow> resource \<Rightarrow> resource" where
  "write_resource r r' cur = cur
     \<lparr>r_allocated_instance_id := dirty (r_allocated_instance_id r)
        (r_allocated_instance_id r') (r_allocated_instance_id cur),
      r_database_name := dirty (r_database_name r) (r_database_name r') (r_database_name cur),
      r_permission_revision_id := dirty (r_permission_revision_id r)
        (r_permission_revision_id r') (r_permission_revision_id cur),
      r_permission_template_id := dirty (r_permission_template_id r)
        (r_permission_template_id r') (r_permission_template_id cur),
      r_permission_snapshot_json := dirty (r_permission_snapshot_json r)
        (r_permission_snapshot_json r') (r_permission_snapshot_json cur),
      r_status := dirty (r_status r) (r_status r') (r_status cur),
      r_provisioning_step := dirty (r_provisioning_step r) (r_provisioning_step r') (r_provisioning_step cur),
      r_failure_reason := dirty (r_failure_reason r) (r_failure_reason r') (r_failure_reason cur),
      r_credentials := r_credentials cur @ drop (length (r_credentials r)) (r_credentials r')\<rparr>"

text \<open>The commit of a step, under the unique keys on cluster ids and purchase tokens.\<close>

definition save_step ::
    "pool_member \<Rightarrow> pool_member \<Rightarrow> instance_row \<Rightarrow> instance_row \<Rightarrow> metadb
     \<Rightarrow> (py_error + preparation_step) \<times> metadb" where
  "save_step m m' i i' db =
     (if (i_cluster_id i' \<noteq> i_cluster_id i \<and>
            (\<exists>x \<in> set (instances db). i_id x \<noteq> i_id i \<and> i_cluster_id x = i_cluster_id i'))
         \<or> (m_purchase_token m' \<noteq> m_purchase_token m \<and>
            (\<exists>x \<in> set (members db). m_id x \<noteq> m_id m \<and> m_purchase_token x = m_purchase_token m'))
      then (Inl IntegrityError, db)
      else (Inr (m_preparation_step m'),
            put_instance (i_id i) (write_instance i i') (put_member (m_id m) (write_member m m') db)))"

section \<open>One step\<close>

text \<open>The outcome of a step: an error, the step unchanged (nothing is written), or new values.\<close>

datatype step_outcome = Raise py_error | Wait | Save pool_member instance_row

fun raise_or :: "py_error + step_outcome \<Rightarrow> step_outcome" where
  "raise_or (Inl e) = Raise e"
| "raise_or (Inr x) = x"

text \<open>The steps before the verification, on the rows as they were loaded.\<close>

definition stored_text :: "string option \<Rightarrow> string" where
  "stored_text v = (case v of None \<Rightarrow> ''None'' | Some s \<Rightarrow> s)"

definition purchase_step ::
    "cloud \<Rightarrow> (json \<Rightarrow> string) \<Rightarrow> pool \<Rightarrow> instance_row \<Rightarrow> pool_member \<Rightarrow> step_outcome" where
  "purchase_step cl repr p i m =
     (if i_region i = None \<or> i_region i = Some [] then
        Raise (DedicatedPoolProvisioningError
          ''Stored purchase region is missing; reconcile the purchase before retrying'')
      else if i_region i \<noteq> Some (strip_text (p_region_id p)) then
        Raise (DedicatedPoolProvisioningError
          ''Pool placement changed after purchase intent was stored'')
      else raise_or
        (bindE (purchase_parameters repr p i m) (\<lambda>params.
         bindE (cl_client cl (i_region i)) (\<lambda>_.
         bindE (cl_create_dedicated_cluster cl params (''PAS Dedicated pool '' @ p_name p)
                  (''PAS prewarmed member '' @ m_id m)) (\<lambda>result.
           case cp_cluster_id result of
             None \<Rightarrow> Inl (DedicatedPoolProvisioningError
               ''Dedicated cluster purchase returned no cluster ID'')
           | Some cid \<Rightarrow>
               if cid = [] then Inl (DedicatedPoolProvisioningError
                 ''Dedicated cluster purchase returned no cluster ID'')
               else Inr (Save
                 (m\<lparr>m_agentic_db_cluster_id := optional_string (cp_agentic_db_cluster_id result),
                    m_cloud_request_id := optional_string (cp_request_id result),
                    m_preparation_step := PREP_PURCHASE_REQUESTED\<rparr>)
                 (i\<lparr>i_cluster_id := cid, i_allocation_mode := AM_DEDICATED_POOL,
                    i_status := IS_CREATING\<rparr>)))))))"

definition sandbox_step ::
    "cloud \<Rightarrow> member_draws \<Rightarrow> metadb \<Rightarrow> pool \<Rightarrow> instance_row \<Rightarrow> pool_member \<Rightarrow> step_outcome" where
  "sandbox_step cl d db p i m =
     raise_or
       (bindE (cl_decrypt cl (stored_text (m_lifecycle_username_ciphertext m))) (\<lambda>user.
        bindE (cl_client cl (i_region i)) (\<lambda>_.
        bindE (cl_describe_account cl (i_cluster_id i) user) (\<lambda>account.
          if \<not> account_available account then Inr Wait
          else case get_revision db (p_permission_template_revision_id p) of
            None \<Rightarrow> Inl (OtherError ''AttributeError'')
          | Some v \<Rightarrow>
              bindE (compile_permission_snapshot (pr_id v) (pr_template_id v)
                       (pr_privileges_json v) (pr_grant_option v) SCOPE_DEDICATED) (\<lambda>snapshot.
                Inr (Save
                  (m\<lparr>m_sandbox_username_ciphertext := Some (cl_encrypt cl (p_account_name_template p)),
                     m_sandbox_password_ciphertext := Some (cl_encrypt cl (md_password d)),
                     m_database_name := Some (p_database_name_template p),
                     m_permission_revision_id := Some (pr_id v),
                     m_permission_snapshot_json := Some (permission_snapshot_to_json snapshot),
                     m_preparation_step := PREP_SANDBOX_ACCOUNT_STORED\<rparr>) i))))))"

definition account_step ::
    "cloud \<Rightarrow> (json \<Rightarrow> string) \<Rightarrow> member_draws \<Rightarrow> bool \<Rightarrow> metadb \<Rightarrow> pool \<Rightarrow> instance_row \<Rightarrow> pool_member \<Rightarrow> step_outcome" where
  "account_step cl repr d allow_data_plane db p i m =
     (case m_preparation_step m of
        PREP_LIFECYCLE_ACCOUNT_STORED \<Rightarrow>
          raise_or (bindE (cl_decrypt cl (stored_text (m_lifecycle_username_ciphertext m))) (\<lambda>user.
            bindE (cl_decrypt cl (stored_text (m_lifecycle_password_ciphertext m))) (\<lambda>password.
            bindE (or_duplicate (bindE (cl_client cl (i_region i)) (\<lambda>_.
                     cl_create_account cl (i_cluster_id i) user password ''Super''))) (\<lambda>_.
              Inr (Save (m\<lparr>m_preparation_step := PREP_LIFECYCLE_ACCOUNT_CREATED\<rparr>) i)))))
      | PREP_LIFECYCLE_ACCOUNT_CREATED \<Rightarrow> sandbox_step cl d db p i m
      | PREP_SANDBOX_ACCOUNT_STORED \<Rightarrow>
          raise_or (bindE (cl_decrypt cl (stored_text (m_sandbox_username_ciphertext m))) (\<lambda>user.
            bindE (cl_decrypt cl (stored_text (m_sandbox_password_ciphertext m))) (\<lambda>password.
            bindE (or_duplicate (bindE (cl_client cl (i_region i)) (\<lambda>_.
                     cl_create_account cl (i_cluster_id i) user password ''Normal''))) (\<lambda>_.
              Inr (Save (m\<lparr>m_preparation_step := PREP_SANDBOX_ACCOUNT_CREATED\<rparr>) i)))))
      | PREP_SANDBOX_ACCOUNT_CREATED \<Rightarrow>
          raise_or (bindE (cl_decrypt cl (stored_text (m_sandbox_username_ciphertext m))) (\<lambda>user.
            bindE (cl_client cl (i_region i)) (\<lambda>_.
            bindE (cl_describe_account cl (i_cluster_id i) user) (\<lambda>account.
              if \<not> account_available account then Inr Wait
              else bindE (or_duplicate (cl_create_database cl (i_cluster_id i)
                            (stored_text (m_database_name m)))) (\<lambda>_.
                Inr (Save (m\<lparr>m_preparation_step := PREP_DATABASE_CREATED\<rparr>) i))))))
      | PREP_DATABASE_CREATED \<Rightarrow> Save (m\<lparr>m_preparation_step := PREP_OPENAPI_READY\<rparr>) i
      | PREP_OPENAPI_READY \<Rightarrow>
          if \<not> allow_data_plane then Wait
          else raise_or (bindE (fst (apply_permissions (cl_mysql cl) (cl_decrypt cl) repr m [])) (\<lambda>_.
            Inr (Save (m\<lparr>m_preparation_step := PREP_PRIVILEGES_GRANTED\<rparr>) i)))
      | PREP_PRIVILEGES_GRANTED \<Rightarrow>
          raise_or (bindE (fst (verify (cl_mysql cl) (cl_decrypt cl) repr m [])) (\<lambda>_.
            Inr (Save (m\<lparr>m_readiness_status := RS_FRESH, m_preparation_step := PREP_VERIFIED,
                    m_failure_reason := None, m_retry_count := 0, m_next_retry_at := None\<rparr>)
                  (i\<lparr>i_status := IS_ACTIVE\<rparr>))))
      | _ \<Rightarrow> Wait)"

definition prepare_step ::
    "cloud \<Rightarrow> (json \<Rightarrow> string) \<Rightarrow> member_draws \<Rightarrow> bool \<Rightarrow> metadb \<Rightarrow> pool \<Rightarrow> instance_row \<Rightarrow> pool_member
     \<Rightarrow> step_outcome" where
  "prepare_step cl repr d allow_data_plane db p i m =
     (case m_preparation_step m of
        PREP_PENDING \<Rightarrow>
          Save (m\<lparr>m_purchase_token := Some (md_purchase_token d),
                  m_preparation_step := PREP_PURCHASE_INTENT_STORED\<rparr>)
               (i\<lparr>i_region := Some (strip_text (p_region_id p))\<rparr>)
      | PREP_PURCHASE_INTENT_STORED \<Rightarrow> purchase_step cl repr p i m
      | PREP_PURCHASE_REQUESTED \<Rightarrow>
          raise_or (bindE (cl_client cl (i_region i)) (\<lambda>_.
            bindE (cl_cluster_status cl (i_cluster_id i)) (\<lambda>status.
              if status = Some ''Running''
              then Inr (Save (m\<lparr>m_preparation_step := PREP_CLUSTER_READY\<rparr>) i) else Inr Wait)))
      | PREP_CLUSTER_READY \<Rightarrow>
          raise_or (bindE (cl_client cl (i_region i)) (\<lambda>_.
            bindE (cl_describe_endpoints cl (i_cluster_id i)) (\<lambda>items.
            bindE (resolve_primary_endpoint items (p_endpoint_net_type p)) (\<lambda>(host, port).
              Inr (Save (m\<lparr>m_host := Some host, m_port := Some port,
                           m_preparation_step := PREP_ENDPOINT_RESOLVED\<rparr>)
                        (i\<lparr>i_host := Some host, i_port := Some port\<rparr>))))))
      | PREP_ENDPOINT_RESOLVED \<Rightarrow>
          Save (m\<lparr>m_lifecycle_username_ciphertext :=
                    Some (cl_encrypt cl (''pas_lifecycle_'' @ take 8 (m_id m))),
                  m_lifecycle_password_ciphertext := Some (cl_encrypt cl (md_password d)),
                  m_preparation_step := PREP_LIFECYCLE_ACCOUNT_STORED\<rparr>) i
      | _ \<Rightarrow> account_step cl repr d allow_data_plane db p i m)"

text \<open>
  \<open>_advance_once\<close>. The first step reads the pool under a lock, so as the other sessions left
  it; the later ones use the pool loaded with the member. The last step also hands the member
  over: to the resource it was bought for (as that resource was loaded before the verification),
  or to the pool.
\<close>

definition finish_verification ::
    "member_draws \<Rightarrow> time \<Rightarrow> metadb \<Rightarrow> pool_member \<Rightarrow> pool_member \<Rightarrow> instance_row \<Rightarrow> instance_row
     \<Rightarrow> metadb \<Rightarrow> (py_error + preparation_step) \<times> metadb" where
  "finish_verification d now loaded m m' i i' db =
     (let m1 = m'\<lparr>m_last_ready_verified_at := Some now\<rparr>
      in case m_allocated_resource_id m of
           None \<Rightarrow> save_step m (m1\<lparr>m_status := MS_AVAILABLE\<rparr>) i i' db
         | Some rid \<Rightarrow>
             (case get_resource loaded rid of
                None \<Rightarrow> (Inl (DedicatedPoolProvisioningError
                          ''Allocated Dedicated resource does not exist''), db)
              | Some r \<Rightarrow>
                  (case activate_dedicated_member loaded (md_credential_id d) m1 r of
                     Inl e \<Rightarrow> (Inl e, db)
                   | Inr (m2, r2) \<Rightarrow>
                       (case save_step m m2 i i' db of
                          (Inl e, db1) \<Rightarrow> (Inl e, db1)
                        | (Inr s, db1) \<Rightarrow> (Inr s, put_resource rid (write_resource r r2) db1)))))"

definition advance_once ::
    "cloud \<Rightarrow> (json \<Rightarrow> string) \<Rightarrow> member_draws \<Rightarrow> time \<Rightarrow> (metadb \<Rightarrow> metadb) \<Rightarrow> bool \<Rightarrow> string
     \<Rightarrow> metadb \<Rightarrow> (py_error + preparation_step) \<times> metadb" where
  "advance_once cl repr d now env allow_data_plane mid db =
     (case get_member db mid of
        None \<Rightarrow> (Inl (DedicatedPoolProvisioningError ''Dedicated pool member does not exist''), db)
      | Some m \<Rightarrow>
          (case (get_pool (if m_preparation_step m = PREP_PENDING then env db else db) (m_pool_id m),
                 get_instance db (m_instance_id m)) of
             (Some p, Some i) \<Rightarrow>
               (case prepare_step cl repr d allow_data_plane db p i m of
                  Raise e \<Rightarrow> (Inl e, env db)
                | Wait \<Rightarrow> (Inr (m_preparation_step m), env db)
                | Save m' i' \<Rightarrow>
                    if m_preparation_step m = PREP_PRIVILEGES_GRANTED
                    then finish_verification d now db m m' i i' (env db)
                    else save_step m m' i i' (env db))
           | _ \<Rightarrow> (Inl (OtherError ''AttributeError''), db)))"

text \<open>\<open>advance\<close>: an error is stored with the member, counted, and raised again.\<close>

definition alnum :: "char \<Rightarrow> bool" where
  "alnum c = (let n = (of_char c :: nat) in
     (48 \<le> n \<and> n \<le> 57) \<or> (65 \<le> n \<and> n \<le> 90) \<or> (97 \<le> n \<and> n \<le> 122))"

fun squeeze :: "bool \<Rightarrow> string \<Rightarrow> string" where
  "squeeze in_run [] = []"
| "squeeze in_run (c # cs) =
     (if alnum c then c # squeeze False cs
      else if in_run then squeeze True cs else CHR ''_'' # squeeze True cs)"

definition strip_underscores :: "string \<Rightarrow> string" where
  "strip_underscores s =
     rev (dropWhile (\<lambda>c. c = CHR ''_'') (rev (dropWhile (\<lambda>c. c = CHR ''_'') s)))"

definition failure_code :: "py_error \<Rightarrow> string" where
  "failure_code e =
     (let detail = (case e of OpenAPIError code \<Rightarrow> code | _ \<Rightarrow> type_name e);
          safe = map upper_char (strip_underscores (squeeze False detail))
      in ''DEDICATED_PREWARM_'' @ (if safe = [] then ''FAILED'' else safe))"

text \<open>For an API error the stored text is a JSON record with the message and the time:
  \<open>openapi_record\<close>; its request id is \<open>request_id\<close>.\<close>

definition advance ::
    "cloud \<Rightarrow> (json \<Rightarrow> string) \<Rightarrow> (string \<Rightarrow> string) \<Rightarrow> string option \<Rightarrow> member_draws \<Rightarrow> time
     \<Rightarrow> (nat \<Rightarrow> metadb \<Rightarrow> metadb) \<Rightarrow> bool \<Rightarrow> string \<Rightarrow> metadb \<Rightarrow> (py_error + preparation_step) \<times> metadb" where
  "advance cl repr openapi_record request_id d now env allow_data_plane mid db =
     (case advance_once cl repr d now (env 0) allow_data_plane mid db of
        (Inr s, db1) \<Rightarrow> (Inr s, db1)
      | (Inl e, db1) \<Rightarrow>
          (Inl e, put_member mid (\<lambda>m. (case e of OpenAPIError code \<Rightarrow>
                 m\<lparr>m_failure_reason := Some (openapi_record (failure_code e)),
                   m_cloud_request_id := request_id\<rparr>
               | _ \<Rightarrow> m\<lparr>m_failure_reason := Some (failure_code e)\<rparr>)
             \<lparr>m_retry_count := m_retry_count m + 1\<rparr>) (env 1 db1)))"


section \<open>One step at a time\<close>

fun next_preparation_step :: "preparation_step \<Rightarrow> preparation_step option" where
  "next_preparation_step PREP_PENDING = Some PREP_PURCHASE_INTENT_STORED"
| "next_preparation_step PREP_PURCHASE_INTENT_STORED = Some PREP_PURCHASE_REQUESTED"
| "next_preparation_step PREP_PURCHASE_REQUESTED = Some PREP_CLUSTER_READY"
| "next_preparation_step PREP_CLUSTER_READY = Some PREP_ENDPOINT_RESOLVED"
| "next_preparation_step PREP_ENDPOINT_RESOLVED = Some PREP_LIFECYCLE_ACCOUNT_STORED"
| "next_preparation_step PREP_LIFECYCLE_ACCOUNT_STORED = Some PREP_LIFECYCLE_ACCOUNT_CREATED"
| "next_preparation_step PREP_LIFECYCLE_ACCOUNT_CREATED = Some PREP_SANDBOX_ACCOUNT_STORED"
| "next_preparation_step PREP_SANDBOX_ACCOUNT_STORED = Some PREP_SANDBOX_ACCOUNT_CREATED"
| "next_preparation_step PREP_SANDBOX_ACCOUNT_CREATED = Some PREP_DATABASE_CREATED"
| "next_preparation_step PREP_DATABASE_CREATED = Some PREP_OPENAPI_READY"
| "next_preparation_step PREP_OPENAPI_READY = Some PREP_PRIVILEGES_GRANTED"
| "next_preparation_step PREP_PRIVILEGES_GRANTED = Some PREP_VERIFIED"
| "next_preparation_step PREP_VERIFIED = None"

interpretation preparation_chain: step_chain next_preparation_step prep_rank 12
proof
  show "next_preparation_step s = Some s' \<Longrightarrow> prep_rank s' = Suc (prep_rank s)" for s s'
    by (cases s) auto
  show "prep_rank s \<le> 12" for s
    by (cases s) auto
qed

lemma dirty_same [simp]: "dirty a b a = b" "dirty a a c = c"
  by (simp_all add: dirty_def)

lemma dirty_changed [simp]: "b \<noteq> a \<Longrightarrow> dirty a b c = b"
  by (simp add: dirty_def)

lemma raise_or_Save: "raise_or x = Save m i \<longleftrightarrow> x = Inr (Save m i)"
  by (cases x) auto

text \<open>What a step leaves alone: the identity of the rows always, the purchase token after the first
  step and the cluster after the purchase.\<close>

definition step_frame :: "pool_member \<Rightarrow> instance_row \<Rightarrow> pool_member \<Rightarrow> instance_row \<Rightarrow> bool" where
  "step_frame m i m' i' \<longleftrightarrow>
     m_id m' = m_id m \<and> m_pool_id m' = m_pool_id m \<and> m_instance_id m' = m_instance_id m
   \<and> m_allocated_resource_id m' = m_allocated_resource_id m
   \<and> m_worker_id m' = m_worker_id m \<and> m_worker_lease_until m' = m_worker_lease_until m
   \<and> m_created_at m' = m_created_at m
   \<and> i_id i' = i_id i \<and> i_engine i' = i_engine i \<and> i_topology i' = i_topology i
   \<and> (m_preparation_step m \<noteq> PREP_PENDING \<longrightarrow> m_purchase_token m' = m_purchase_token m)
   \<and> (m_preparation_step m \<noteq> PREP_PURCHASE_INTENT_STORED \<longrightarrow> i_cluster_id i' = i_cluster_id i)"

lemma purchase_step_Save:
  assumes "purchase_step cl repr p i m = Save m' i'"
  obtains params name descr result where "purchase_parameters repr p i m = Inr params"
    and "cl_create_dedicated_cluster cl params name descr = Inr result"
    and "cp_cluster_id result = Some (i_cluster_id i')"
    and "m_preparation_step m' = PREP_PURCHASE_REQUESTED"
    and "m_preparation_step m = PREP_PURCHASE_INTENT_STORED \<longrightarrow> step_frame m i m' i'"
proof -
  from assms obtain params name descr result where calls:
    "purchase_parameters repr p i m = Inr params"
    "cl_create_dedicated_cluster cl params name descr = Inr result"
    and out: "(case cp_cluster_id result of
        None \<Rightarrow> Inl (DedicatedPoolProvisioningError
          ''Dedicated cluster purchase returned no cluster ID'')
      | Some cid \<Rightarrow>
          if cid = [] then Inl (DedicatedPoolProvisioningError
            ''Dedicated cluster purchase returned no cluster ID'')
          else Inr (Save
            (m\<lparr>m_agentic_db_cluster_id := optional_string (cp_agentic_db_cluster_id result),
               m_cloud_request_id := optional_string (cp_request_id result),
               m_preparation_step := PREP_PURCHASE_REQUESTED\<rparr>)
            (i\<lparr>i_cluster_id := cid, i_allocation_mode := AM_DEDICATED_POOL,
               i_status := IS_CREATING\<rparr>))) = Inr (Save m' i')"
    by (auto simp: purchase_step_def raise_or_Save bindE_Inr split: if_splits)
  from out obtain cid where "cp_cluster_id result = Some cid"
    and "m' = m\<lparr>m_agentic_db_cluster_id := optional_string (cp_agentic_db_cluster_id result),
      m_cloud_request_id := optional_string (cp_request_id result),
      m_preparation_step := PREP_PURCHASE_REQUESTED\<rparr>"
    and "i' = i\<lparr>i_cluster_id := cid, i_allocation_mode := AM_DEDICATED_POOL,
      i_status := IS_CREATING\<rparr>"
    by (auto split: option.splits if_splits)
  with calls that show ?thesis by (simp add: step_frame_def)
qed

lemma sandbox_step_Save:
  assumes "sandbox_step cl d db p i m = Save m' i'"
  shows "m_preparation_step m' = PREP_SANDBOX_ACCOUNT_STORED \<and> step_frame m i m' i'"
  using assms
  by (auto simp: sandbox_step_def raise_or_Save bindE_Inr step_frame_def
      split: if_splits option.splits)

lemma account_step_Save:
  assumes "account_step cl repr d a db p i m = Save m' i'"
  shows "next_preparation_step (m_preparation_step m) = Some (m_preparation_step m')
    \<and> step_frame m i m' i'"
proof (cases "m_preparation_step m = PREP_LIFECYCLE_ACCOUNT_CREATED")
  case True
  with assms show ?thesis by (auto simp: account_step_def dest: sandbox_step_Save)
next
  case False
  with assms show ?thesis
    by (auto simp: account_step_def raise_or_Save bindE_Inr step_frame_def
        split: preparation_step.splits if_splits)
qed

lemma prepare_step_Save:
  assumes "prepare_step cl repr d a db p i m = Save m' i'"
  shows "next_preparation_step (m_preparation_step m) = Some (m_preparation_step m')"
    and "step_frame m i m' i'"
proof -
  have "next_preparation_step (m_preparation_step m) = Some (m_preparation_step m')
    \<and> step_frame m i m' i'"
  proof (cases "m_preparation_step m = PREP_PURCHASE_INTENT_STORED")
    case True
    with assms have "purchase_step cl repr p i m = Save m' i'" by (simp add: prepare_step_def)
    with True show ?thesis by (elim purchase_step_Save) simp
  next
    case False
    with assms show ?thesis
      by (auto simp: prepare_step_def raise_or_Save bindE_Inr step_frame_def
          split: preparation_step.splits if_splits prod.splits
          dest: account_step_Save [unfolded step_frame_def])
  qed
  then show "next_preparation_step (m_preparation_step m) = Some (m_preparation_step m')"
    and "step_frame m i m' i'"
    by blast+
qed

lemma write_member_keeps [simp]:
  "m_id (write_member m m' cur) = m_id cur"
  "m_pool_id (write_member m m' cur) = m_pool_id cur"
  "m_instance_id (write_member m m' cur) = m_instance_id cur"
  "m_allocated_resource_id (write_member m m' cur) = m_allocated_resource_id cur"
  "m_preparation_step (write_member m m' cur) =
     dirty (m_preparation_step m) (m_preparation_step m') (m_preparation_step cur)"
  "m_purchase_token (write_member m m' cur) =
     dirty (m_purchase_token m) (m_purchase_token m') (m_purchase_token cur)"
  "m_status (write_member m m' cur) = dirty (m_status m) (m_status m') (m_status cur)"
  by (simp_all add: write_member_def)

lemma write_instance_keeps [simp]:
  "i_id (write_instance i i' cur) = i_id cur"
  "i_cluster_id (write_instance i i' cur) =
     dirty (i_cluster_id i) (i_cluster_id i') (i_cluster_id cur)"
  by (simp_all add: write_instance_def)

lemma write_resource_keeps [simp]:
  "r_id (write_resource r r' cur) = r_id cur"
  "r_status (write_resource r r' cur) = dirty (r_status r) (r_status r') (r_status cur)"
  "r_delete_requested_at (write_resource r r' cur) = r_delete_requested_at cur"
  "r_delete_step (write_resource r r' cur) = r_delete_step cur"
  "r_capacity_released_at (write_resource r r' cur) = r_capacity_released_at cur"
  "r_credentials (write_resource r r' cur) =
     r_credentials cur @ drop (length (r_credentials r)) (r_credentials r')"
  by (simp_all add: write_resource_def)

text \<open>The rows after a successful commit.\<close>

lemma save_step_rows:
  assumes "save_step m m' i i' db = (Inr s, db')"
  shows "s = m_preparation_step m'"
    and "get_member db' k =
      (if k = m_id m then map_option (write_member m m') (get_member db k) else get_member db k)"
    and "get_instance db' j =
      (if j = i_id i then map_option (write_instance i i') (get_instance db j) else get_instance db j)"
    and "resources db' = resources db"
  using assms by (auto simp: save_step_def tget_tupd split: if_splits)

lemma save_step_error: "save_step m m' i i' db = (Inl e, db') \<Longrightarrow> db' = db"
  by (auto simp: save_step_def split: if_splits)

text \<open>
  A successful advance either waits, or commits the outcome of the step: \<open>m1\<close> is the member as
  the step leaves it, up to the status, and the time of the last step.
\<close>

lemma finish_verification_Inr:
  assumes "finish_verification d now loaded m m' i i' db = (Inr s, db')"
  obtains db1 m1 where "save_step m m1 i i' db = (Inr s, db1)"
    and "m_preparation_step m1 = m_preparation_step m'" and "m_id m1 = m_id m'"
    and "m_purchase_token m1 = m_purchase_token m'"
    and "members db' = members db1" and "instances db' = instances db1"
  using assms
proof (cases "m_allocated_resource_id m")
  case None
  with assms that show ?thesis
    by (fastforce simp: finish_verification_def Let_def)
next
  case (Some rid)
  with assms obtain r m2 r2 db1 where "activate_dedicated_member loaded (md_credential_id d)
        (m'\<lparr>m_last_ready_verified_at := Some now\<rparr>) r = Inr (m2, r2)"
    and "save_step m m2 i i' db = (Inr s, db1)"
    and "db' = put_resource rid (write_resource r r2) db1"
    by (auto simp: finish_verification_def Let_def split: option.splits sum.splits prod.splits)
  with that [of m2 db1] show ?thesis
    by (auto simp: activate_dedicated_member_def split: if_splits)
qed

lemma finish_verification_Inl:
  "finish_verification d now loaded m m' i i' db = (Inl e, db') \<Longrightarrow> db' = db"
  by (auto simp: finish_verification_def Let_def split: option.splits sum.splits prod.splits
      dest: save_step_error)

lemma advance_once_Inl:
  assumes "advance_once cl repr d now env a mid db = (Inl e, db')"
  shows "db' = db \<or> db' = env db"
  using assms
  by (auto simp: advance_once_def split: option.splits step_outcome.splits if_splits
      dest: save_step_error finish_verification_Inl)

lemma advance_once_Inr:
  assumes "advance_once cl repr d now env a mid db = (Inr s, db')"
    and "get_member db mid = Some m"
  obtains (waits) "s = m_preparation_step m" "db' = env db"
  | (saves) p i m' i' m1 db1 where "get_instance db (m_instance_id m) = Some i"
      "prepare_step cl repr d a db p i m = Save m' i'"
      "save_step m m1 i i' (env db) = (Inr s, db1)"
      "m_preparation_step m1 = m_preparation_step m'" "m_id m1 = m_id m'"
      "m_purchase_token m1 = m_purchase_token m'"
      "members db' = members db1" "instances db' = instances db1"
proof -
  from assms obtain p i where rows: "get_instance db (m_instance_id m) = Some i"
    and step: "(case prepare_step cl repr d a db p i m of
        Raise e \<Rightarrow> (Inl e, env db)
      | Wait \<Rightarrow> (Inr (m_preparation_step m), env db)
      | Save m' i' \<Rightarrow>
          if m_preparation_step m = PREP_PRIVILEGES_GRANTED
          then finish_verification d now db m m' i i' (env db)
          else save_step m m' i i' (env db)) = (Inr s, db')"
    by (auto simp: advance_once_def split: option.splits)
  show thesis
  proof (cases "prepare_step cl repr d a db p i m")
    case (Raise e)
    with step show ?thesis by simp
  next
    case Wait
    with step waits show ?thesis by simp
  next
    case (Save m' i')
    show ?thesis
    proof (cases "m_preparation_step m = PREP_PRIVILEGES_GRANTED")
      case True
      with step Save have "finish_verification d now db m m' i i' (env db) = (Inr s, db')"
        by simp
      then show ?thesis
        by (rule finish_verification_Inr) (rule saves [OF rows Save])
    next
      case False
      with step Save have "save_step m m' i i' (env db) = (Inr s, db')" by simp
      then show ?thesis
        using saves [OF rows Save] by blast
    qed
  qed
qed

text \<open>an advance moves the preparation of a member by exactly one step or not at all. An
  error writes nothing (beyond what other sessions committed meanwhile); a wait writes nothing and
  returns the step; and success stores the successor of the step it started from, returns it, and
  leaves every other member alone.\<close>

theorem advance_one_step:
  assumes "advance_once cl repr d now env a mid db = (res, db')"
    and "get_member db mid = Some m" and "get_member (env db) mid = Some cur"
  shows "(\<exists>e. res = Inl e \<and> (db' = db \<or> db' = env db))
    \<or> (res = Inr (m_preparation_step m) \<and> db' = env db)
    \<or> (\<exists>s m'. next_preparation_step (m_preparation_step m) = Some s \<and> res = Inr s
        \<and> get_member db' mid = Some m' \<and> m_preparation_step m' = s
        \<and> (\<forall>k. k \<noteq> mid \<longrightarrow> get_member db' k = get_member (env db) k))"
proof (cases res)
  case (Inl e)
  with assms(1) show ?thesis by (auto dest: advance_once_Inl)
next
  case (Inr s)
  from assms(1) have run: "advance_once cl repr d now env a mid db = (Inr s, db')"
    by (simp add: Inr)
  from run assms(2) show ?thesis
  proof (cases rule: advance_once_Inr)
    case waits
    then show ?thesis by (simp add: Inr)
  next
    case (saves p i m' i' m1 db1)
    have "m_id m = mid" using assms(2) by (rule tget_key)
    have next_step: "next_preparation_step (m_preparation_step m) = Some (m_preparation_step m')"
      using saves(2) by (rule prepare_step_Save)
    then have "m_preparation_step m' \<noteq> m_preparation_step m"
      using preparation_chain.next_irrefl by metis
    with saves(4,7) assms(3) \<open>m_id m = mid\<close> save_step_rows [OF saves(3)] next_step
    show ?thesis by (simp add: Inr)
  qed
qed


section \<open>One purchase per member\<close>

text \<open>
  The cloud treats \<open>ClientToken\<close> as an idempotency key: a purchase with a token it has seen
  answers with the cluster of that token, \<open>cluster_of\<close>.
\<close>

definition honours_token :: "(string \<Rightarrow> string) \<Rightarrow> cloud \<Rightarrow> bool" where
  "honours_token cluster_of cl \<longleftrightarrow>
     (\<forall>params name descr result t. map_of params ''client_token'' = Some t
        \<longrightarrow> cl_create_dedicated_cluster cl params name descr = Inr result
        \<longrightarrow> cp_cluster_id result = None \<or> cp_cluster_id result = Some (cluster_of t))"

text \<open>The stored intent with token \<open>t\<close>, and from the purchase on the cluster of that token.\<close>

definition purchase_pinned :: "(string \<Rightarrow> string) \<Rightarrow> string \<Rightarrow> string \<Rightarrow> metadb \<Rightarrow> bool" where
  "purchase_pinned cluster_of t mid db =
     (case get_member db mid of None \<Rightarrow> False
      | Some m \<Rightarrow>
          (case get_instance db (m_instance_id m) of None \<Rightarrow> False
           | Some i \<Rightarrow> m_purchase_token m = Some t \<and> m_preparation_step m \<noteq> PREP_PENDING
               \<and> (m_preparation_step m = PREP_PURCHASE_INTENT_STORED
                  \<or> i_cluster_id i = cluster_of t)))"

text \<open>
  What every session promises to the others: once the intent is stored under a token, the token,
  the step and the instance stay, and the cluster is only changed to the one of the token. A session
  that runs \<open>advance\<close> on the same member keeps this promise too, also when the two overlap.
\<close>

definition purchase_kept :: "(string \<Rightarrow> string) \<Rightarrow> string \<Rightarrow> string \<Rightarrow> metadb \<Rightarrow> metadb \<Rightarrow> bool" where
  "purchase_kept cluster_of t mid db db' \<longleftrightarrow> (purchase_pinned cluster_of t mid db \<longrightarrow>
     purchase_pinned cluster_of t mid db'
   \<and> (\<exists>m m' i i'. get_member db mid = Some m \<and> get_member db' mid = Some m'
        \<and> m_instance_id m' = m_instance_id m
        \<and> get_instance db (m_instance_id m) = Some i \<and> get_instance db' (m_instance_id m) = Some i'
        \<and> i_cluster_id i' \<in> {i_cluster_id i, cluster_of t}))"

definition keeps_purchase :: "(string \<Rightarrow> string) \<Rightarrow> string \<Rightarrow> string \<Rightarrow> (metadb \<Rightarrow> metadb) \<Rightarrow> bool" where
  "keeps_purchase cluster_of t mid env \<longleftrightarrow> (\<forall>db. purchase_kept cluster_of t mid db (env db))"

text \<open>A cloud that refuses every purchase request but those with the token \<open>t\<close>.\<close>

definition only_token :: "string \<Rightarrow> cloud \<Rightarrow> cloud" where
  "only_token t cl = cl\<lparr>cl_create_dedicated_cluster := (\<lambda>params name descr.
     if map_of params ''client_token'' = Some t then cl_create_dedicated_cluster cl params name descr
     else Inl (OpenAPIError ''InvalidClientToken''))\<rparr>"

record attempt =
  at_cloud :: cloud
  at_draws :: member_draws
  at_now :: time
  at_env :: "nat \<Rightarrow> metadb \<Rightarrow> metadb"
  at_allow_data_plane :: bool
  at_request_id :: "string option"

primrec advance_all ::
    "(json \<Rightarrow> string) \<Rightarrow> (string \<Rightarrow> string) \<Rightarrow> string \<Rightarrow> attempt list \<Rightarrow> metadb \<Rightarrow> metadb" where
  "advance_all repr openapi_record mid [] db = db"
| "advance_all repr openapi_record mid (x # xs) db =
     advance_all repr openapi_record mid xs
       (snd (advance (at_cloud x) repr openapi_record (at_request_id x) (at_draws x) (at_now x)
               (at_env x) (at_allow_data_plane x) mid db))"

lemma map_of_dict_set [simp]: "map_of (dict_set k v d) = (map_of d)(k \<mapsto> v)"
  by (simp add: dict_set_def update_conv')

text \<open>The request carries the stored token, whatever the pool's configuration says.\<close>

lemma purchase_parameters_token:
  assumes "purchase_parameters repr p i m = Inr params" and "m_purchase_token m = Some t"
  shows "map_of params ''client_token'' = Some t"
  using assms
  by (auto simp: purchase_parameters_def bindE_Inr Let_def
      split: jtext.splits json.splits if_splits option.splits)

lemma purchase_step_pinned:
  assumes "purchase_step cl repr p i m = Save m' i'" and "honours_token cluster_of cl"
    and "m_purchase_token m = Some t"
  shows "i_cluster_id i' = cluster_of t"
  using assms(1)
proof (rule purchase_step_Save)
  fix params name descr result
  assume "purchase_parameters repr p i m = Inr params"
    and call: "cl_create_dedicated_cluster cl params name descr = Inr result"
      "cp_cluster_id result = Some (i_cluster_id i')"
  from this(1) assms(3) have "map_of params ''client_token'' = Some t"
    by (rule purchase_parameters_token)
  with call assms(2) have "cp_cluster_id result = None \<or> cp_cluster_id result = Some (cluster_of t)"
    unfolding honours_token_def by blast
  with call(2) show ?thesis by simp
qed

lemma purchase_kept_refl [simp]: "purchase_kept cluster_of t mid db db"
  by (auto simp: purchase_kept_def purchase_pinned_def split: option.splits)

lemma purchase_keptD:
  assumes "purchase_kept cluster_of t mid db db'" and "purchase_pinned cluster_of t mid db"
    and "get_member db mid = Some m" and "get_instance db (m_instance_id m) = Some i"
  obtains m' i' where "get_member db' mid = Some m'" "m_instance_id m' = m_instance_id m"
    "get_instance db' (m_instance_id m) = Some i'" "i_cluster_id i' \<in> {i_cluster_id i, cluster_of t}"
    "m_purchase_token m' = Some t"
  using assms by (auto simp: purchase_kept_def) (auto simp: purchase_pinned_def)

lemma purchase_kept_trans:
  assumes "purchase_kept cluster_of t mid a b" and "purchase_kept cluster_of t mid b c"
  shows "purchase_kept cluster_of t mid a c"
  unfolding purchase_kept_def
proof (intro impI conjI)
  assume a: "purchase_pinned cluster_of t mid a"
  then have b: "purchase_pinned cluster_of t mid b" using assms(1) by (simp add: purchase_kept_def)
  then show "purchase_pinned cluster_of t mid c" using assms(2) by (simp add: purchase_kept_def)
  from a obtain m i where 0: "get_member a mid = Some m" "get_instance a (m_instance_id m) = Some i"
    by (auto simp: purchase_pinned_def split: option.splits)
  from assms(1) a 0 obtain m1 i1 where 1: "get_member b mid = Some m1" "m_instance_id m1 = m_instance_id m"
    "get_instance b (m_instance_id m) = Some i1" "i_cluster_id i1 \<in> {i_cluster_id i, cluster_of t}"
    by (rule purchase_keptD)
  from 1(2,3) have "get_instance b (m_instance_id m1) = Some i1" by simp
  with assms(2) b 1(1) obtain m2 i2 where "get_member c mid = Some m2" "m_instance_id m2 = m_instance_id m1"
    "get_instance c (m_instance_id m1) = Some i2" "i_cluster_id i2 \<in> {i_cluster_id i1, cluster_of t}"
    by (rule purchase_keptD)
  with 0 1 show "\<exists>m m' i i'. get_member a mid = Some m \<and> get_member c mid = Some m'
        \<and> m_instance_id m' = m_instance_id m
        \<and> get_instance a (m_instance_id m) = Some i \<and> get_instance c (m_instance_id m) = Some i'
        \<and> i_cluster_id i' \<in> {i_cluster_id i, cluster_of t}"
    by auto
qed

lemma advance_once_kept:
  assumes "honours_token cluster_of cl" and "keeps_purchase cluster_of t mid env"
    and "advance_once cl repr d now env a mid db = (res, db')"
  shows "purchase_kept cluster_of t mid db db'"
proof -
  have env: "purchase_kept cluster_of t mid db (env db)" using assms(2) by (simp add: keeps_purchase_def)
  have "purchase_kept cluster_of t mid db db'"
    if pin: "purchase_pinned cluster_of t mid db" and Inr: "res = Inr s" for s
  proof -
    from pin obtain m i where m: "get_member db mid = Some m"
      and i: "get_instance db (m_instance_id m) = Some i"
      and tok: "m_purchase_token m = Some t" and st: "m_preparation_step m \<noteq> PREP_PENDING"
      and cid: "m_preparation_step m = PREP_PURCHASE_INTENT_STORED \<or> i_cluster_id i = cluster_of t"
      by (auto simp: purchase_pinned_def split: option.splits)
    have ids: "m_id m = mid" "i_id i = m_instance_id m" using m i by auto
    from assms(3) have run: "advance_once cl repr d now env a mid db = (Inr s, db')" by (simp add: Inr)
    from run m show ?thesis
    proof (cases rule: advance_once_Inr)
      case waits
      with env show ?thesis by simp
    next
      case (saves p i0 m' i' m1 db1)
      from saves(1) i have [simp]: "i0 = i" by simp
      from saves(2) st have frame: "step_frame m i m' i'" "m_purchase_token m' = Some t"
        using tok by (auto dest: prepare_step_Save(2) simp: step_frame_def)
      have "next_preparation_step (m_preparation_step m) = Some (m_preparation_step m')"
        using saves(2) by (rule prepare_step_Save)
      then have new: "m_preparation_step m' \<noteq> m_preparation_step m" "m_preparation_step m' \<noteq> PREP_PENDING"
        by (cases "m_preparation_step m"; force)+
      have bought: "i_cluster_id i' = cluster_of t"
      proof (cases "m_preparation_step m = PREP_PURCHASE_INTENT_STORED")
        case True
        with saves(2) have "purchase_step cl repr p i m = Save m' i'" by (simp add: prepare_step_def)
        then show ?thesis using assms(1) tok by (rule purchase_step_pinned)
      next
        case False
        with frame(1) cid show ?thesis by (simp add: step_frame_def)
      qed
      from env pin m i obtain cur icur where cur: "get_member (env db) mid = Some cur"
          "m_instance_id cur = m_instance_id m" "m_purchase_token cur = Some t"
        and icur: "get_instance (env db) (m_instance_id m) = Some icur"
          "i_cluster_id icur \<in> {i_cluster_id i, cluster_of t}"
        by (rule purchase_keptD)
      have "i_cluster_id (write_instance i i' icur) = cluster_of t"
        using bought icur(2) by (auto simp: dirty_def)
      with save_step_rows [OF saves(3)] saves(4-8) cur icur ids tok frame(2) new m i
      show ?thesis by (simp add: purchase_kept_def purchase_pinned_def)
    qed
  qed
  then show ?thesis
    using env assms(3) advance_once_Inl [of cl repr d now env a mid db _ db']
    by (cases res; auto simp: purchase_kept_def)
qed

lemma advance_kept:
  assumes "honours_token cluster_of cl" and "\<And>k. keeps_purchase cluster_of t mid (env k)"
  shows "purchase_kept cluster_of t mid db (snd (advance cl repr openapi_record request_id d now env a mid db))"
proof -
  obtain res db1 where run: "advance_once cl repr d now (env 0) a mid db = (res, db1)"
    by fastforce
  with assms have kept: "purchase_kept cluster_of t mid db db1"
    by (blast intro: advance_once_kept)
  moreover have "purchase_kept cluster_of t mid db1 (env 1 db1)"
    using assms(2) by (simp add: keeps_purchase_def)
  ultimately have later: "purchase_kept cluster_of t mid db (env 1 db1)" by (rule purchase_kept_trans)
  show ?thesis
  proof (cases res)
    case (Inl e)
    have "purchase_kept cluster_of t mid (env 1 db1) (put_member mid f (env 1 db1))"
      if "\<And>m. m_instance_id (f m) = m_instance_id m \<and> m_purchase_token (f m) = m_purchase_token m
        \<and> m_preparation_step (f m) = m_preparation_step m" and "\<And>m. m_id (f m) = m_id m" for f
      using that by (auto simp: purchase_kept_def purchase_pinned_def tget_tupd split: option.splits)
    from purchase_kept_trans [OF later this] Inl run show ?thesis
      by (auto simp: advance_def split: py_error.splits)
  next
    case (Inr s)
    with run kept show ?thesis by (simp add: advance_def)
  qed
qed

text \<open>Only requests with the stored token are sent.\<close>

lemma only_token_simps [simp]:
  "cl_client (only_token t cl) = cl_client cl" "cl_cluster_status (only_token t cl) = cl_cluster_status cl"
  "cl_describe_endpoints (only_token t cl) = cl_describe_endpoints cl"
  "cl_create_account (only_token t cl) = cl_create_account cl"
  "cl_describe_account (only_token t cl) = cl_describe_account cl"
  "cl_create_database (only_token t cl) = cl_create_database cl" "cl_mysql (only_token t cl) = cl_mysql cl"
  "cl_encrypt (only_token t cl) = cl_encrypt cl" "cl_decrypt (only_token t cl) = cl_decrypt cl"
  by (simp_all add: only_token_def)

lemma purchase_step_only_token:
  assumes "m_purchase_token m = Some t"
  shows "purchase_step (only_token t cl) repr p i m = purchase_step cl repr p i m"
proof (cases "purchase_parameters repr p i m")
  case (Inr params)
  then have "map_of params ''client_token'' = Some t"
    using assms by (rule purchase_parameters_token)
  with Inr show ?thesis by (simp add: purchase_step_def only_token_def)
qed (simp add: purchase_step_def)

lemma prepare_step_only_token:
  assumes "m_purchase_token m = Some t"
  shows "prepare_step (only_token t cl) repr d a db p i m = prepare_step cl repr d a db p i m"
  unfolding prepare_step_def account_step_def sandbox_step_def only_token_simps
    purchase_step_only_token [OF assms] ..

lemma advance_only_token:
  assumes "purchase_pinned cluster_of t mid db"
  shows "advance (only_token t cl) repr openapi_record request_id d now env a mid db
    = advance cl repr openapi_record request_id d now env a mid db"
proof -
  obtain m where "get_member db mid = Some m" "m_purchase_token m = Some t"
    using assms by (auto simp: purchase_pinned_def split: option.splits)
  then have "advance_once (only_token t cl) repr d now (env 0) a mid db = advance_once cl repr d now (env 0) a mid db"
    by (simp only: advance_once_def option.case prepare_step_only_token [of m t])
  then show ?thesis by (simp add: advance_def)
qed

text \<open>C34: a member is bought at most once. From the stored purchase intent on, however many attempts
  are made and with whatever errors and interruptions, every purchase request carries the token of the
  intent: a cloud that refuses all other requests gives the same run. The token never changes and,
  since the cloud answers equal tokens with the same cluster, from the purchase on the instance
  holds the cluster of the token. Other sessions may do anything that does not undo this; the attempts
  themselves promise the same, so it holds for sessions that overlap on the same member.\<close>

theorem single_purchase:
  assumes "\<forall>x \<in> set tries. honours_token cluster_of (at_cloud x)
      \<and> (\<forall>k. keeps_purchase cluster_of t mid (at_env x k))"
    and "purchase_pinned cluster_of t mid db"
  shows "purchase_pinned cluster_of t mid (advance_all repr openapi_record mid tries db)
    \<and> purchase_kept cluster_of t mid db (advance_all repr openapi_record mid tries db)
    \<and> advance_all repr openapi_record mid (map (\<lambda>x. x\<lparr>at_cloud := only_token t (at_cloud x)\<rparr>) tries) db
      = advance_all repr openapi_record mid tries db"
  using assms
proof (induction tries arbitrary: db)
  case (Cons x xs)
  let ?db = "snd (advance (at_cloud x) repr openapi_record
      (at_request_id x) (at_draws x) (at_now x) (at_env x) (at_allow_data_plane x) mid db)"
  have kept: "purchase_kept cluster_of t mid db ?db"
    using Cons.prems by (intro advance_kept) auto
  then have pin: "purchase_pinned cluster_of t mid ?db" using Cons.prems(2) by (simp add: purchase_kept_def)
  have "purchase_kept cluster_of t mid db (advance_all repr openapi_record mid xs ?db)"
    using Cons.IH [OF _ pin] Cons.prems(1) by (intro purchase_kept_trans [OF kept]) auto
  then show ?case using Cons.IH [OF _ pin] Cons.prems by (simp add: advance_only_token)
qed simp

text \<open>The promise is kept by a concurrent attempt on the same member, so the attempts compose.\<close>

lemma attempt_keeps_purchase:
  assumes "honours_token cluster_of cl" and "\<And>k. keeps_purchase cluster_of t mid (env k)"
  shows "keeps_purchase cluster_of t mid (\<lambda>db. snd (advance cl repr openapi_record request_id d now env a mid db))"
  using assms by (simp add: keeps_purchase_def [of _ _ _ "\<lambda>db. snd (_ db)"] advance_kept)


section \<open>The preparation completes\<close>

text \<open>A cloud and a member's server that do what they are asked: the purchase answers with cluster
  \<open>cid\<close>, the cluster runs, the accounts become available, and the server shows the grants it was
  given. What is to be created may be there already. \<open>enc\<close> is the cipher.\<close>

definition cooperative ::
    "string \<Rightarrow> pool \<Rightarrow> permission_snapshot \<Rightarrow> (string \<Rightarrow> string) \<Rightarrow> cloud \<Rightarrow> bool" where
  "cooperative cid p snapshot enc cl \<longleftrightarrow> cid \<noteq> []
   \<and> (\<forall>region. cl_client cl region = Inr ())
   \<and> (\<forall>params name descr. \<exists>result. cl_create_dedicated_cluster cl params name descr = Inr result
        \<and> cp_cluster_id result = Some cid)
   \<and> (\<forall>c. cl_cluster_status cl c = Inr (Some ''Running''))
   \<and> (\<forall>c. \<exists>items host port. cl_describe_endpoints cl c = Inr items
        \<and> resolve_primary_endpoint items (p_endpoint_net_type p) = Inr (host, port))
   \<and> (\<forall>c user password kind. or_duplicate (cl_create_account cl c user password kind) = Inr ())
   \<and> (\<forall>c user. \<exists>status. cl_describe_account cl c user = Inr (Some status)
        \<and> account_available (Some status))
   \<and> (\<forall>c name. or_duplicate (cl_create_database cl c name) = Inr ())
   \<and> serves (cl_mysql cl) (p_database_name_template p) (p_account_name_template p) snapshot
   \<and> cl_encrypt cl = enc \<and> (\<forall>x. cl_decrypt cl (enc x) = Inr x)"

text \<open>What the steps before have stored.\<close>

definition equipped ::
    "permission_snapshot \<Rightarrow> (string \<Rightarrow> string) \<Rightarrow> pool \<Rightarrow> pool_member \<Rightarrow> instance_row \<Rightarrow> bool" where
  "equipped snapshot enc p m i \<longleftrightarrow>
     (1 \<le> prep_rank (m_preparation_step m) \<longrightarrow> i_region i = Some (strip_text (p_region_id p)))
   \<and> (4 \<le> prep_rank (m_preparation_step m) \<longrightarrow> m_host m \<noteq> None \<and> m_port m \<noteq> None)
   \<and> (5 \<le> prep_rank (m_preparation_step m) \<longrightarrow>
        m_lifecycle_username_ciphertext m \<in> Some ` range enc
        \<and> m_lifecycle_password_ciphertext m \<in> Some ` range enc)
   \<and> (7 \<le> prep_rank (m_preparation_step m) \<longrightarrow>
        m_sandbox_username_ciphertext m = Some (enc (p_account_name_template p))
        \<and> m_sandbox_password_ciphertext m \<in> Some ` range enc
        \<and> m_database_name m = Some (p_database_name_template p)
        \<and> m_permission_snapshot_json m = Some (permission_snapshot_to_json snapshot))"

text \<open>A pool from which members can be bought, and whose permission revision compiles to
  \<open>snapshot\<close>.\<close>

definition usable_pool :: "metadb \<Rightarrow> pool \<Rightarrow> permission_snapshot \<Rightarrow> bool" where
  "usable_pool db p snapshot \<longleftrightarrow>
     (case p_purchase_config_json p of Text (JObj _) \<Rightarrow> True | _ \<Rightarrow> False)
   \<and> strip_text (p_region_id p) \<noteq> [] \<and> strip_text (p_vpc_id p) \<noteq> [] \<and> strip_text (p_vswitch_id p) \<noteq> []
   \<and> identifier_ok (p_database_name_template p) \<and> identifier_ok (p_account_name_template p)
   \<and> snapshot_wf snapshot
   \<and> (case get_revision db (p_permission_template_revision_id p) of None \<Rightarrow> False
      | Some v \<Rightarrow> compile_permission_snapshot (pr_id v) (pr_template_id v)
                   (pr_privileges_json v) (pr_grant_option v) SCOPE_DEDICATED = Inr snapshot)"

lemma compile_scope: "compile_permission_snapshot a b c g sc = Inr s \<Longrightarrow> ps_scope s = sc"
  by (auto simp: compile_permission_snapshot_def split: sum.splits if_splits)

lemma equipped_sandboxed:
  assumes "cooperative cid p snapshot enc cl" and "usable_pool db p snapshot"
    and "equipped snapshot enc p m i" and "7 \<le> prep_rank (m_preparation_step m)"
  shows "sandboxed (cl_decrypt cl) (p_database_name_template p) (p_account_name_template p) snapshot m"
proof -
  from assms(3,4) obtain lu lp sp where stored:
    "m_host m \<noteq> None" "m_port m \<noteq> None"
    "m_lifecycle_username_ciphertext m = Some (enc lu)" "m_lifecycle_password_ciphertext m = Some (enc lp)"
    "m_sandbox_username_ciphertext m = Some (enc (p_account_name_template p))"
    "m_sandbox_password_ciphertext m = Some (enc sp)"
    "m_database_name m = Some (p_database_name_template p)"
    "m_permission_snapshot_json m = Some (permission_snapshot_to_json snapshot)"
    by (auto simp: equipped_def)
  have "\<forall>x. cl_decrypt cl (enc x) = Inr x" using assms(1) by (simp add: cooperative_def)
  moreover have "ps_scope snapshot = SCOPE_DEDICATED"
    using assms(2) by (auto simp: usable_pool_def split: option.splits dest: compile_scope)
  ultimately show ?thesis
    using assms(2) stored
    by (auto simp: sandboxed_def usable_pool_def required_def credentials_complete_def)
qed

lemma cooperative_purchase:
  assumes "cooperative cid p snapshot enc cl" and "usable_pool db p snapshot" and "equipped snapshot enc p m i"
    and "m_preparation_step m = PREP_PURCHASE_INTENT_STORED"
  shows "\<exists>m' i'. purchase_step cl repr p i m = Save m' i' \<and> i_cluster_id i' = cid
    \<and> i_region i' = i_region i"
proof -
  let ?region = "strip_text (p_region_id p)"
  from assms(3,4) have region: "i_region i = Some ?region" by (simp add: equipped_def)
  from assms(2) have stripped: "?region \<noteq> []" "strip_text ?region \<noteq> []"
    by (simp_all add: usable_pool_def strip_text_again)
  obtain params where params: "purchase_parameters repr p i m = Inr params"
    using assms(2) region stripped
    by (auto simp: usable_pool_def purchase_parameters_def network_identifier_def Let_def
        split: jtext.splits json.splits)
  obtain result where "cl_create_dedicated_cluster cl params (''PAS Dedicated pool '' @ p_name p)
      (''PAS prewarmed member '' @ m_id m) = Inr result" "cp_cluster_id result = Some cid"
    using assms(1) unfolding cooperative_def by blast
  with params region stripped assms(1) show ?thesis
    by (simp add: purchase_step_def cooperative_def)
qed

lemma or_duplicate_client:
  "cooperative cid p snapshot enc cl \<Longrightarrow>
   or_duplicate (bindE (cl_client cl region) (\<lambda>_. cl_create_account cl c u w k)) = Inr ()"
  by (simp add: cooperative_def)

lemma cooperative_account_step:
  assumes "cooperative cid p snapshot enc cl" and "usable_pool db p snapshot"
    and eq: "equipped snapshot enc p m i"
    and "5 \<le> prep_rank (m_preparation_step m)" "m_preparation_step m \<noteq> PREP_VERIFIED"
  shows "\<exists>m' i'. account_step cl repr d True db p i m = Save m' i' \<and> equipped snapshot enc p m' i'
    \<and> i_cluster_id i' = i_cluster_id i"
proof -
  note coop = assms(1)
  have client: "cl_client cl region = Inr ()" and dec: "cl_decrypt cl (enc x) = Inr x"
    and cipher: "cl_encrypt cl = enc" for region x
    using coop by (simp_all add: cooperative_def)
  from eq assms(4) obtain lu lp where life:
    "m_lifecycle_username_ciphertext m = Some (enc lu)" "m_lifecycle_password_ciphertext m = Some (enc lp)"
    by (auto simp: equipped_def)
  obtain s1 s2 where avail:
    "cl_describe_account cl (i_cluster_id i) lu = Inr (Some s1)" "account_available (Some s1)"
    "cl_describe_account cl (i_cluster_id i) (p_account_name_template p) = Inr (Some s2)"
    "account_available (Some s2)"
    using coop unfolding cooperative_def by metis
  obtain v where rev: "get_revision db (p_permission_template_revision_id p) = Some v"
    "compile_permission_snapshot (pr_id v) (pr_template_id v) (pr_privileges_json v)
       (pr_grant_option v) SCOPE_DEDICATED = Inr snapshot"
    using assms(2) by (auto simp: usable_pool_def split: option.splits)
  have calls: "or_duplicate (cl_create_account cl (i_cluster_id i) u w k) = Inr ()"
    "or_duplicate (cl_create_database cl (i_cluster_id i) n) = Inr ()" for u w k n
    using coop by (simp_all add: cooperative_def)
  have sql: "fst (apply_permissions (cl_mysql cl) (cl_decrypt cl) repr m []) = Inr ()"
    "fst (verify (cl_mysql cl) (cl_decrypt cl) repr m []) = Inr ()"
    if "7 \<le> prep_rank (m_preparation_step m)"
  proof -
    note box = equipped_sandboxed [OF coop assms(2) eq that]
    have "serves (cl_mysql cl) (p_database_name_template p) (p_account_name_template p) snapshot"
      using coop by (simp add: cooperative_def)
    from apply_permissions_ok [OF this box, of repr "[]"] verify_ok [OF this box, of repr "[]"]
    show "fst (apply_permissions (cl_mysql cl) (cl_decrypt cl) repr m []) = Inr ()"
      "fst (verify (cl_mysql cl) (cl_decrypt cl) repr m []) = Inr ()" by auto
  qed
  show ?thesis
    using eq assms(4,5) sql
    by (cases "m_preparation_step m")
      (auto simp: account_step_def sandbox_step_def client dec cipher life avail rev calls equipped_def
        stored_text_def)
qed

lemma cooperative_prepare_step:
  assumes "cooperative cid p snapshot enc cl" and "usable_pool db p snapshot" and "equipped snapshot enc p m i"
    and "m_preparation_step m \<noteq> PREP_VERIFIED"
  shows "\<exists>m' i'. prepare_step cl repr d True db p i m = Save m' i' \<and> equipped snapshot enc p m' i'
    \<and> (i_cluster_id i' = i_cluster_id i \<or> i_cluster_id i' = cid)"
proof (cases "5 \<le> prep_rank (m_preparation_step m)")
  case True
  then have "prepare_step cl repr d True db p i m = account_step cl repr d True db p i m"
    by (cases "m_preparation_step m") (simp_all add: prepare_step_def)
  with cooperative_account_step [OF assms(1-3) True assms(4), of repr d] show ?thesis by auto
next
  case False
  obtain items host port where "cl_describe_endpoints cl (i_cluster_id i) = Inr items"
    "resolve_primary_endpoint items (p_endpoint_net_type p) = Inr (host, port)"
    using assms(1) unfolding cooperative_def by blast
  moreover have "cl_client cl region = Inr ()" "cl_cluster_status cl c = Inr (Some ''Running'')"
    "cl_encrypt cl = enc" for region c using assms(1) by (simp_all add: cooperative_def)
  moreover have "m_preparation_step m = PREP_PURCHASE_INTENT_STORED \<Longrightarrow>
      \<exists>m' i'. purchase_step cl repr p i m = Save m' i' \<and> i_cluster_id i' = cid
        \<and> i_region i' = i_region i \<and> m_preparation_step m' = PREP_PURCHASE_REQUESTED"
    using cooperative_purchase [OF assms(1-3)] purchase_step_Save by metis
  ultimately show ?thesis
    using False assms(3)
    by (cases "m_preparation_step m") (auto simp: prepare_step_def equipped_def)
qed

text \<open>Without interference a commit stores the new rows.\<close>

lemma write_member_self: "step_frame m i m' i' \<Longrightarrow> write_member m m' m = m'"
  by (cases m; cases m') (simp add: write_member_def step_frame_def)

lemma write_instance_self: "step_frame m i m' i' \<Longrightarrow> write_instance i i' i = i'"
  by (cases i; cases i') (simp add: write_instance_def step_frame_def)

text \<open>Member \<open>mid\<close> of pool \<open>p\<close> can be prepared as cluster \<open>cid\<close>: no other instance is that
  cluster, the tokens drawn for it are new, and the resource it was bought for exists.\<close>

definition preparable ::
    "permission_snapshot \<Rightarrow> (string \<Rightarrow> string) \<Rightarrow> string \<Rightarrow> string list \<Rightarrow> pool \<Rightarrow> string \<Rightarrow> nat \<Rightarrow> metadb \<Rightarrow> bool" where
  "preparable snapshot enc cid tokens p mid n db \<longleftrightarrow>
     (case get_member db mid of None \<Rightarrow> False
      | Some m \<Rightarrow>
          (case get_instance db (m_instance_id m) of None \<Rightarrow> False
           | Some i \<Rightarrow> prep_rank (m_preparation_step m) = n \<and> equipped snapshot enc p m i
               \<and> get_pool db (m_pool_id m) = Some p
               \<and> (\<forall>x \<in> set (instances db). i_id x \<noteq> i_id i \<longrightarrow> i_cluster_id x \<noteq> cid)
               \<and> (n = 0 \<longrightarrow> (\<forall>x \<in> set (members db). \<forall>t \<in> set tokens. m_purchase_token x \<noteq> Some t))
               \<and> (case m_allocated_resource_id m of None \<Rightarrow> True
                  | Some rid \<Rightarrow> get_resource db rid \<noteq> None)))
   \<and> usable_pool db p snapshot"

definition prepared :: "string \<Rightarrow> metadb \<Rightarrow> bool" where
  "prepared mid db =
     (case get_member db mid of None \<Rightarrow> False
      | Some m \<Rightarrow> m_preparation_step m = PREP_VERIFIED \<and> m_readiness_status m = RS_FRESH
          \<and> m_last_ready_verified_at m \<noteq> None
          \<and> (case m_allocated_resource_id m of None \<Rightarrow> m_status m = MS_AVAILABLE
             | Some rid \<Rightarrow> m_status m = MS_ALLOCATED
                 \<and> (case get_resource db rid of None \<Rightarrow> False
                    | Some r \<Rightarrow> r_status r = ST_READY \<and> r_credentials r \<noteq> [])))"

lemma save_step_succeeds:
  assumes "\<forall>x \<in> set (instances db). i_id x \<noteq> i_id i \<longrightarrow> i_cluster_id x \<noteq> cid"
    and "i_cluster_id i' = i_cluster_id i \<or> i_cluster_id i' = cid"
    and "m_purchase_token m' = m_purchase_token m
      \<or> (\<forall>x \<in> set (members db). m_purchase_token x \<noteq> m_purchase_token m')"
  shows "save_step m m' i i' db = (Inr (m_preparation_step m'),
    put_instance (i_id i) (write_instance i i') (put_member (m_id m) (write_member m m') db))"
  using assms by (auto simp: save_step_def)

lemma prepare_step_token:
  assumes "prepare_step cl repr d a db p i m = Save m' i'"
  shows "m_purchase_token m' = m_purchase_token m
    \<or> m_preparation_step m = PREP_PENDING \<and> m_purchase_token m' = Some (md_purchase_token d)"
proof (cases "m_preparation_step m = PREP_PENDING")
  case True
  with assms show ?thesis by (auto simp: prepare_step_def)
next
  case False
  with prepare_step_Save(2) [OF assms] show ?thesis by (simp add: step_frame_def)
qed

lemma preparable_step:
  assumes "cooperative cid p snapshot enc cl" and "md_purchase_token d \<in> set tokens"
    and "preparable snapshot enc cid tokens p mid n db" and "n < 12"
  obtains m i m' i' where "get_member db mid = Some m" "get_instance db (m_instance_id m) = Some i"
    "get_pool db (m_pool_id m) = Some p" "prep_rank (m_preparation_step m) = n"
    "prepare_step cl repr d True db p i m = Save m' i'"
    "equipped snapshot enc p m' i'" "step_frame m i m' i'" "prep_rank (m_preparation_step m') = Suc n"
    "m_id m = mid" "i_id i = m_instance_id m"
    "\<And>m1. m_purchase_token m1 = m_purchase_token m' \<Longrightarrow>
       save_step m m1 i i' db = (Inr (m_preparation_step m1),
         put_instance (i_id i) (write_instance i i') (put_member (m_id m) (write_member m m1) db))"
proof -
  from assms(3) obtain m i where rows: "get_member db mid = Some m"
      "get_instance db (m_instance_id m) = Some i" "get_pool db (m_pool_id m) = Some p"
    and n: "prep_rank (m_preparation_step m) = n" and eq: "equipped snapshot enc p m i"
    and us: "usable_pool db p snapshot"
    and cids: "\<forall>x \<in> set (instances db). i_id x \<noteq> i_id i \<longrightarrow> i_cluster_id x \<noteq> cid"
    and toks: "n = 0 \<longrightarrow> (\<forall>x \<in> set (members db). \<forall>t \<in> set tokens. m_purchase_token x \<noteq> Some t)"
    by (auto simp: preparable_def split: option.splits)
  from n assms(4) have "m_preparation_step m \<noteq> PREP_VERIFIED" by auto
  from cooperative_prepare_step [OF assms(1) us eq this, of repr d]
  obtain m' i' where step: "prepare_step cl repr d True db p i m = Save m' i'"
      and eq': "equipped snapshot enc p m' i'" and cid: "i_cluster_id i' = i_cluster_id i \<or> i_cluster_id i' = cid"
    by blast
  have rank: "prep_rank (m_preparation_step m') = Suc n"
    using preparation_chain.rank_next [OF prepare_step_Save(1) [OF step]] n by simp
  have tok: "m_purchase_token m' = m_purchase_token m
      \<or> (\<forall>x \<in> set (members db). m_purchase_token x \<noteq> m_purchase_token m')"
    using prepare_step_token [OF step] toks assms(2) n by auto
  show thesis
  proof (rule that [OF rows n step eq' prepare_step_Save(2) [OF step] rank])
    show "m_id m = mid" "i_id i = m_instance_id m" using rows by auto
    show "save_step m m1 i i' db = (Inr (m_preparation_step m1),
         put_instance (i_id i) (write_instance i i') (put_member (m_id m) (write_member m m1) db))"
      if "m_purchase_token m1 = m_purchase_token m'" for m1
      using save_step_succeeds [OF cids cid] tok that by simp
  qed
qed

lemma advance_preparable:
  assumes "cooperative cid p snapshot enc cl" and "md_purchase_token d \<in> set tokens"
    and "preparable snapshot enc cid tokens p mid n db" and "n < 11"
  shows "preparable snapshot enc cid tokens p mid (Suc n)
    (snd (advance cl repr rec rid d now (\<lambda>_ x. x) True mid db))"
proof -
  from assms(4) have "n < 12" by simp
  from assms(1-3) this show ?thesis
  proof (rule preparable_step [where repr = repr])
    fix m i m' i'
    assume rows: "get_member db mid = Some m" "get_instance db (m_instance_id m) = Some i"
        "get_pool db (m_pool_id m) = Some p"
      and n: "prep_rank (m_preparation_step m) = n"
      and step: "prepare_step cl repr d True db p i m = Save m' i'"
      and eq: "equipped snapshot enc p m' i'" and frame: "step_frame m i m' i'"
      and rank: "prep_rank (m_preparation_step m') = Suc n"
      and ids: "m_id m = mid" "i_id i = m_instance_id m"
      and save: "\<And>m1. m_purchase_token m1 = m_purchase_token m' \<Longrightarrow>
        save_step m m1 i i' db = (Inr (m_preparation_step m1),
         put_instance (i_id i) (write_instance i i') (put_member (m_id m) (write_member m m1) db))"
    let ?db' = "put_instance (i_id i) (write_instance i i') (put_member (m_id m) (write_member m m') db)"
    have "m_preparation_step m \<noteq> PREP_PRIVILEGES_GRANTED" using n assms(4) by auto
    then have run: "snd (advance cl repr rec rid d now (\<lambda>_ x. x) True mid db) = ?db'"
      using rows step save [of m'] by (simp add: advance_def advance_once_def)
    have new: "get_member ?db' mid = Some m'" "get_instance ?db' (m_instance_id m) = Some i'"
      using rows ids by (simp_all add: tget_tupd write_member_self [OF frame] write_instance_self [OF frame])
    have "x \<in> set (instances db)" if "x \<in> set (instances ?db')" "i_id x \<noteq> i_id i'" for x
      using that set_tupd_subset [of i_id "i_id i" "write_instance i i'" "instances db"] frame
      by (auto simp: step_frame_def)
    with assms(3) rows frame new eq rank show ?thesis
      unfolding run
      by (auto simp: preparable_def step_frame_def usable_pool_def cong: option.case_cong)
  qed
qed

lemma advance_prepared:
  assumes "cooperative cid p snapshot enc cl" and "md_purchase_token d \<in> set tokens"
    and "preparable snapshot enc cid tokens p mid 11 db"
  shows "prepared mid (snd (advance cl repr rec rid d now (\<lambda>_ x. x) True mid db))"
  using assms
proof (rule preparable_step [where repr = repr])
  fix m i m' i'
  assume rows: "get_member db mid = Some m" "get_instance db (m_instance_id m) = Some i"
      "get_pool db (m_pool_id m) = Some p"
    and n: "prep_rank (m_preparation_step m) = 11"
    and step: "prepare_step cl repr d True db p i m = Save m' i'"
    and eq: "equipped snapshot enc p m' i'" and frame: "step_frame m i m' i'"
    and rank: "prep_rank (m_preparation_step m') = Suc 11"
    and ids: "m_id m = mid" "i_id i = m_instance_id m"
    and save: "\<And>m1. m_purchase_token m1 = m_purchase_token m' \<Longrightarrow>
      save_step m m1 i i' db = (Inr (m_preparation_step m1),
       put_instance (i_id i) (write_instance i i') (put_member (m_id m) (write_member m m1) db))"
  have granted: "m_preparation_step m = PREP_PRIVILEGES_GRANTED"
    using n by (cases "m_preparation_step m") auto
  with step have m': "m' = m\<lparr>m_readiness_status := RS_FRESH, m_preparation_step := PREP_VERIFIED,
      m_failure_reason := None, m_retry_count := 0, m_next_retry_at := None\<rparr>"
    by (auto simp: prepare_step_def account_step_def raise_or_Save bindE_Inr)
  have self: "write_member m (m1\<lparr>m_last_ready_verified_at := Some now, m_status := st\<rparr>) m
      = m1\<lparr>m_last_ready_verified_at := Some now, m_status := st\<rparr>" if "m1 = m'" for m1 st
    using frame that by (intro write_member_self [of _ i _ i']) (simp add: step_frame_def)
  have run: "snd (advance cl repr rec rid d now (\<lambda>_ x. x) True mid db)
      = snd (finish_verification d now db m m' i i' db)" if "fst (finish_verification d now db m m' i i' db) = Inr s" for s
    using rows step granted that
    by (cases "finish_verification d now db m m' i i' db") (simp add: advance_def advance_once_def)
  show ?thesis
  proof (cases "m_allocated_resource_id m")
    case None
    let ?m1 = "m'\<lparr>m_last_ready_verified_at := Some now, m_status := MS_AVAILABLE\<rparr>"
    have fin: "finish_verification d now db m m' i i' db = (Inr PREP_VERIFIED,
        put_instance (i_id i) (write_instance i i') (put_member (m_id m) (write_member m ?m1) db))"
      using save [of ?m1] None m' by (simp add: finish_verification_def)
    show ?thesis
      using run [of PREP_VERIFIED] fin rows ids None self [of m' MS_AVAILABLE] m'
      by (simp add: prepared_def tget_tupd)
  next
    case (Some rd)
    with assms(3) rows obtain r where r: "get_resource db rd = Some r"
      by (auto simp: preparable_def)
    then have rd: "r_id r = rd" by auto
    let ?m1 = "m'\<lparr>m_last_ready_verified_at := Some now, m_status := MS_ALLOCATED\<rparr>"
    obtain r2 where act: "activate_dedicated_member db (md_credential_id d)
        (m'\<lparr>m_last_ready_verified_at := Some now\<rparr>) r = Inr (?m1, r2)"
      and r2: "r_status r2 = ST_READY" "r_credentials r \<noteq> [] \<or> r_credentials r2 \<noteq> []"
      using eq rank rd Some m' by (auto simp: activate_dedicated_member_def equipped_def)
    have fin: "finish_verification d now db m m' i i' db = (Inr PREP_VERIFIED, put_resource rd (write_resource r r2)
        (put_instance (i_id i) (write_instance i i') (put_member (m_id m) (write_member m ?m1) db)))"
      using save [of ?m1] Some act r m' by (simp add: finish_verification_def)
    show ?thesis
      using run [of PREP_VERIFIED] fin rows ids Some self [of m' MS_ALLOCATED] m' r r2
      by (auto simp: prepared_def tget_tupd)
  qed
qed simp

text \<open>the preparation of a member completes. When the cloud and the member's server do what they
  are asked, one advance per remaining step takes a member from any step to \<open>VERIFIED\<close>: it is
  freshly verified and either in the pool as \<open>AVAILABLE\<close>, or handed to the resource it was bought
  for, which is \<open>READY\<close> and has its access credential.\<close>

theorem preparation_completes:
  assumes "\<forall>x \<in> set tries. cooperative cid p snapshot enc (at_cloud x)
      \<and> at_env x = (\<lambda>_ db. db) \<and> at_allow_data_plane x \<and> md_purchase_token (at_draws x) \<in> set tokens"
    and "preparable snapshot enc cid tokens p mid n db" and "n < 12" and "length tries = 12 - n"
  shows "prepared mid (advance_all repr openapi_record mid tries db)"
  using assms
proof (induction tries arbitrary: db n)
  case (Cons x xs)
  show ?case
  proof (cases "n = 11")
    case True
    with Cons.prems show ?thesis by (auto intro!: advance_prepared)
  next
    case False
    with Cons.prems have "preparable snapshot enc cid tokens p mid (Suc n) (snd (advance (at_cloud x) repr
        openapi_record (at_request_id x) (at_draws x) (at_now x) (at_env x) True mid db))"
      by (auto intro!: advance_preparable)
    with False Cons show ?thesis by auto
  qed
qed simp


section \<open>A deletion during the verification\<close>

lemma finish_verification_allocated:
  assumes "finish_verification d now loaded m m' i i' db = (Inr s, db')"
    and "m_allocated_resource_id m = Some rid" and "get_resource loaded rid = Some r"
  obtains r2 where "r_status r2 = ST_READY"
    and "\<exists>c. r_credentials r2 = (if r_credentials r \<noteq> [] then r_credentials r else [c]) \<and> c_status c = CRED_ACTIVE"
    and "resources db' = tupd r_id rid (write_resource r r2) (resources db)"
  using assms
proof -
  from assms obtain m2 r2 db1 where act: "activate_dedicated_member loaded (md_credential_id d)
        (m'\<lparr>m_last_ready_verified_at := Some now\<rparr>) r = Inr (m2, r2)"
    and save: "save_step m m2 i i' db = (Inr s, db1)"
    and db': "db' = put_resource rid (write_resource r r2) db1"
    by (auto simp: finish_verification_def Let_def split: sum.splits prod.splits)
  from act have r2: "r_status r2 = ST_READY"
    "\<exists>c. r_credentials r2 = (if r_credentials r \<noteq> [] then r_credentials r else [c]) \<and> c_status c = CRED_ACTIVE"
    by (auto simp: activate_dedicated_member_def split: if_splits intro: exI [of _ "\<lparr>c_id = [],
      c_instance_id = None, c_resource_id = None, c_name = [], c_purpose = RESOURCE_ACCESS,
      c_capability = CC_ADMIN, c_username_ciphertext = None, c_password_ciphertext = None,
      c_database_name = None, c_status = CRED_ACTIVE, c_version = 1\<rparr>"])
  have "resources db' = tupd r_id rid (write_resource r r2) (resources db)"
    using save_step_rows(4) [OF save] by (simp add: db')
  with r2 that show ?thesis by blast
qed

text \<open>the last preparation step does not see a deletion that commits while the member is being
  verified. The request was accepted, so its time is stored and the credentials were revoked; the
  step then writes the resource as it was loaded before: it ends \<open>READY\<close> with the deletion
  request still on record, and a resource that had no credential gets an active one.\<close>

theorem verification_overwrites_delete:
  assumes "get_member db mid = Some m" and "m_preparation_step m = PREP_PRIVILEGES_GRANTED"
    and "m_allocated_resource_id m = Some rid"
    and "get_resource db rid = Some r" and "r_status r = ST_CREATING"
    and "delete_db_instance_resource cfg t a rid None db = Inr (r', db1)"
    and "advance_once cl repr d now (\<lambda>_. db1) allow mid db = (Inr s, db')"
  shows "\<exists>r2. get_resource db' rid = Some r2 \<and> r_status r2 = ST_READY
    \<and> r_delete_requested_at r2 \<noteq> None
    \<and> (r_credentials r = [] \<longrightarrow> (\<exists>c \<in> set (r_credentials r2). c_status c = CRED_ACTIVE))"
proof -
  have "deletable_status (r_status r)" by (simp add: assms(5) deletable_status_def)
  with assms(6,4) have deleted: "get_resource db1 rid = Some r' \<and> r_delete_requested_at r' \<noteq> None"
  proof (rule delete_InrD)
    fix b r1 db2
    assume rec: "record_delete_request cfg t (backend_pool db b) b r = Inr r1"
      and ret: "retire_member t a r1 db = Inr db2"
      and r': "r' = mark_deleting t r1" and db1: "db1 = put_resource rid (\<lambda>_. r') db2"
    note keeps = record_delete_request_keeps [OF rec]
    have "r_id r = rid" using assms(4) by auto
    with keeps r' have id: "r_id r' = rid" by simp
    have "resources db2 = resources db" using retire_member_frame [OF ret] by simp
    with assms(4) id have "get_resource db1 rid = Some r'" by (simp add: db1 tget_tupd_at)
    with keeps show ?thesis by (simp add: r')
  qed
  from assms(1,2,7) obtain i m' i' where
    "finish_verification d now db m m' i i' db1 = (Inr s, db')"
    by (cases "fst (verify (cl_mysql cl) (cl_decrypt cl) repr m [])")
      (auto simp: advance_once_def prepare_step_def account_step_def split: option.splits)
  then obtain r2 where r2: "r_status r2 = ST_READY"
    "\<exists>c. r_credentials r2 = (if r_credentials r \<noteq> [] then r_credentials r else [c]) \<and> c_status c = CRED_ACTIVE"
    "resources db' = tupd r_id rid (write_resource r r2) (resources db1)"
    using assms(3,4) by (rule finish_verification_allocated)
  have "get_resource db' rid = Some (write_resource r r2 r')"
    using r2(3) deleted by (simp add: tget_tupd)
  with r2(1,2) deleted assms(5) show ?thesis by auto
qed


section \<open>Concrete runs\<close>

definition pool_snapshot :: permission_snapshot where
  "pool_snapshot = \<lparr>ps_template_id = Some ''t'', ps_revision_id = Some ''rev'',
     ps_privileges = [P_SELECT], ps_grant_option = False, ps_scope = SCOPE_DEDICATED,
     ps_legacy_all_privileges = False\<rparr>"

definition sandbox_server :: mysql_server where
  "sandbox_server = \<lparr>my_connect = (\<lambda>_ _. Inr ()),
     my_execute = (\<lambda>tr lg sql params.
       Inr (if sql = account_sql ''SHOW GRANTS FOR '' ''agentic'' []
            then map CText (''GRANT USAGE ON *.* TO `sandbox`@`%`''
                   # shown_grants CHR ''`'' ''agentic'' ''agentic'' pool_snapshot)
            else if sql = ''SELECT 1'' then [CInt 1] else []))\<rparr>"

lemma sandbox_server_serves: "serves sandbox_server ''agentic'' ''agentic'' pool_snapshot"
proof -
  have "account_sql ''SHOW GRANTS FOR '' ''agentic'' [] \<noteq> ''SELECT 1''"
    by (simp add: account_sql_def)
  with example_usage show ?thesis by (auto simp: serves_def sandbox_server_def)
qed

definition example_cloud :: cloud where
  "example_cloud = \<lparr>cl_client = (\<lambda>_. Inr ()),
     cl_create_dedicated_cluster = (\<lambda>_ _ _. Inr \<lparr>cp_cluster_id = Some ''pc1'',
       cp_agentic_db_cluster_id = None, cp_request_id = Some ''req''\<rparr>),
     cl_cluster_status = (\<lambda>_. Inr (Some ''Running'')),
     cl_describe_endpoints = (\<lambda>_. Inr [(''Primary'', [\<lparr>ea_net_type = ''Private'',
       ea_connection_string = ''h'', ea_port = 3306\<rparr>])]),
     cl_create_account = (\<lambda>_ _ _ _. Inl (OpenAPIError ''InvalidAccountName.Duplicate'')),
     cl_describe_account = (\<lambda>_ _. Inr (Some '' Available '')),
     cl_create_database = (\<lambda>_ _. Inr ()), cl_mysql = sandbox_server, cl_delete_cluster = (\<lambda>_. Inr ()),
     cl_encrypt = (\<lambda>s. s), cl_decrypt = Inr\<rparr>"

definition example_member_draws :: member_draws where
  "example_member_draws = \<lparr>md_purchase_token = ''tok'', md_password = ''pw'', md_credential_id = ''c1''\<rparr>"

definition example_attempt :: attempt where
  "example_attempt = \<lparr>at_cloud = example_cloud, at_draws = example_member_draws, at_now = 0,
     at_env = (\<lambda>_ db. db), at_allow_data_plane = True, at_request_id = None\<rparr>"

definition example_instance :: instance_row where
  "example_instance = \<lparr>i_id = ''i1'', i_cluster_id = ''pending'', i_engine = POLARDB_MYSQL,
     i_topology = SINGLE_TENANT, i_allocation_mode = AM_DEDICATED_POOL, i_region = Some ''cn'',
     i_host = None, i_port = None, i_status = IS_CREATING\<rparr>"

text \<open>A cold member at a given step, bought for resource \<open>r1\<close> or for the pool.\<close>

definition cold_member :: "preparation_step \<Rightarrow> string option \<Rightarrow> pool_member" where
  "cold_member s rid = example_member\<lparr>m_status := MS_ALLOCATED_PREPARING, m_readiness_status := RS_CHECKING,
     m_preparation_step := s, m_purchase_token := Some ''tok'', m_allocated_resource_id := rid,
     m_lifecycle_username_ciphertext := Some ''life'', m_lifecycle_password_ciphertext := Some ''lp'',
     m_sandbox_username_ciphertext := Some ''agentic'',
     m_permission_snapshot_json := Some (permission_snapshot_to_json pool_snapshot)\<rparr>"

definition cold_db :: "pool_member \<Rightarrow> metadb" where
  "cold_db m = example_dedicated_db\<lparr>members := [m], instances := [example_instance],
     revisions := [\<lparr>pr_id = ''rev'', pr_template_id = ''t'', pr_revision = 1,
       pr_privileges_json = Text (JArr [JStr ''SELECT'']), pr_grant_option = False\<rparr>],
     resources := [(example_build ''be'')\<lparr>r_mode := MODE_DEDICATED\<rparr>]\<rparr>"

lemmas cold_defs = cold_db_def cold_member_def example_dedicated_db_def example_defs
  example_instance_def example_member_def new_member_def example_build_def new_resource_def
  example_pool_def

lemma strip_example: "strip_text ''cn'' = ''cn''" "strip_text ''vpc'' = ''vpc''" "strip_text ''vsw'' = ''vsw''"
  by (simp_all add: strip_text_def space_char_def is_space_def)

lemma example_cooperative: "cooperative ''pc1'' example_pool pool_snapshot (\<lambda>s. s) example_cloud"
proof -
  have "account_available (Some '' Available '')"
    by (simp add: account_available_def strip_text_def space_char_def is_space_def lower_char_def Let_def
        char_of_def bit_iff_odd)
  moreover have "resolve_primary_endpoint [(''Primary'', [\<lparr>ea_net_type = ''Private'',
       ea_connection_string = ''h'', ea_port = 3306\<rparr>])] ''Private'' = Inr (''h'', 3306)"
    by (simp add: resolve_primary_endpoint_def or_else_def)
  ultimately show ?thesis
    using sandbox_server_serves
    by (simp add: cooperative_def example_cloud_def or_duplicate_def openapi_duplicate_codes_def
        example_pool_def)
qed

lemma example_snapshot:
  "compile_permission_snapshot ''rev'' ''t'' (Text (JArr [JStr ''SELECT''])) False SCOPE_DEDICATED
     = Inr pool_snapshot"
  by (simp add: compile_permission_snapshot_def parse_privileges_def privilege_of_value_def
      all_privileges_def pool_snapshot_def)

lemma pool_snapshot_wf: "snapshot_wf pool_snapshot"
  by (simp add: snapshot_wf_def pool_snapshot_def all_privileges_def)

lemma example_usable: "usable_pool (cold_db m) example_pool pool_snapshot"
proof -
  have "get_revision (cold_db m) ''rev'' = Some \<lparr>pr_id = ''rev'', pr_template_id = ''t'',
      pr_revision = 1, pr_privileges_json = Text (JArr [JStr ''SELECT'']), pr_grant_option = False\<rparr>"
    by (simp add: cold_defs)
  with example_snapshot pool_snapshot_wf example_identifiers show ?thesis
    by (auto simp: usable_pool_def strip_example example_pool_def)
qed

lemma cold_member_verifies:
  "\<exists>tr'. verify (cl_mysql example_cloud) (cl_decrypt example_cloud) repr (cold_member st rid) [] = (Inr (), tr')"
proof -
  have "sandboxed Inr ''agentic'' ''agentic'' pool_snapshot (cold_member st rid)"
    using example_identifiers pool_snapshot_wf
    by (simp add: sandboxed_def cold_defs required_def credentials_complete_def)
      (simp add: pool_snapshot_def)
  from verify_ok [OF sandbox_server_serves this] show ?thesis by (simp add: example_cloud_def)
qed

theorem advance_one_step_witness:
  "\<exists>db'. advance_once example_cloud (\<lambda>_. []) example_member_draws 0 (\<lambda>x. x) True ''m1''
      (cold_db (cold_member PREP_DATABASE_CREATED None)) = (Inr PREP_OPENAPI_READY, db')
    \<and> (\<exists>m'. get_member db' ''m1'' = Some m' \<and> m_preparation_step m' = PREP_OPENAPI_READY)"
proof -
  let ?db = "cold_db (cold_member PREP_DATABASE_CREATED None)"
  have g: "get_member ?db ''m1'' = Some (cold_member PREP_DATABASE_CREATED None)"
    by (simp add: cold_defs)
  obtain db' where run: "advance_once example_cloud (\<lambda>_. []) example_member_draws 0 (\<lambda>x. x) True
      ''m1'' ?db = (Inr PREP_OPENAPI_READY, db')"
    by (simp add: advance_once_def prepare_step_def account_step_def save_step_def cold_defs)
  from advance_one_step [OF run g g] run show ?thesis by (auto simp: cold_defs)
qed

text \<open>Two attempts, the second of which is overlapped by a third.\<close>

theorem single_purchase_witness:
  "purchase_pinned (\<lambda>_. ''pc1'') ''tok'' ''m1'' (advance_all (\<lambda>_. []) (\<lambda>c. c) ''m1''
     [example_attempt, example_attempt\<lparr>at_env := (\<lambda>_ db. snd (advance example_cloud (\<lambda>_. []) (\<lambda>c. c)
        None example_member_draws 0 (\<lambda>_ db. db) True ''m1'' db))\<rparr>]
     (cold_db (cold_member PREP_PURCHASE_INTENT_STORED None)))"
proof -
  have h: "honours_token (\<lambda>_. ''pc1'') example_cloud" by (simp add: honours_token_def example_cloud_def)
  have quiet: "keeps_purchase (\<lambda>_. ''pc1'') ''tok'' ''m1'' (\<lambda>db. db)" by (simp add: keeps_purchase_def)
  have "purchase_pinned (\<lambda>_. ''pc1'') ''tok'' ''m1'' (cold_db (cold_member PREP_PURCHASE_INTENT_STORED None))"
    by (simp add: purchase_pinned_def cold_defs)
  with h quiet attempt_keeps_purchase [OF h quiet] show ?thesis
    by (intro single_purchase [THEN conjunct1]) (simp_all add: example_attempt_def)
qed

theorem preparation_completes_witness:
  "prepared ''m1'' (advance_all (\<lambda>_. []) (\<lambda>c. c) ''m1'' (replicate 11 example_attempt)
     (cold_db (cold_member PREP_PURCHASE_INTENT_STORED (Some ''r1''))))"
proof (rule preparation_completes)
  show "\<forall>x \<in> set (replicate 11 example_attempt). cooperative ''pc1'' example_pool pool_snapshot (\<lambda>s. s) (at_cloud x)
      \<and> at_env x = (\<lambda>_ db. db) \<and> at_allow_data_plane x \<and> md_purchase_token (at_draws x) \<in> set [''tok'']"
    using example_cooperative
    by (simp add: example_attempt_def example_member_draws_def)
  show "preparable pool_snapshot (\<lambda>s. s) ''pc1'' [''tok''] example_pool ''m1'' 1
      (cold_db (cold_member PREP_PURCHASE_INTENT_STORED (Some ''r1'')))"
    using example_usable [of "cold_member PREP_PURCHASE_INTENT_STORED (Some ''r1'')"]
    by (simp add: preparable_def equipped_def strip_example cold_defs)
qed simp_all

theorem verification_overwrites_delete_witness:
  "\<exists>r' db1 db' r2.
     delete_db_instance_resource default_config 5 ''ag'' ''r1'' None
       (cold_db (cold_member PREP_PRIVILEGES_GRANTED (Some ''r1''))) = Inr (r', db1)
   \<and> advance_once example_cloud (\<lambda>_. []) example_member_draws 6 (\<lambda>_. db1) True ''m1''
       (cold_db (cold_member PREP_PRIVILEGES_GRANTED (Some ''r1''))) = (Inr PREP_VERIFIED, db')
   \<and> get_resource db' ''r1'' = Some r2 \<and> r_status r2 = ST_READY"
proof -
  let ?m = "cold_member PREP_PRIVILEGES_GRANTED (Some ''r1'')"
  let ?r = "(example_build ''be'')\<lparr>r_mode := MODE_DEDICATED\<rparr>"
  have rows: "get_member (cold_db ?m) ''m1'' = Some ?m" "m_preparation_step ?m = PREP_PRIVILEGES_GRANTED"
    "m_allocated_resource_id ?m = Some ''r1''" "get_resource (cold_db ?m) ''r1'' = Some ?r"
    "r_status ?r = ST_CREATING"
    by (simp_all add: cold_defs)
  obtain r' db1 where del: "delete_db_instance_resource default_config 5 ''ag'' ''r1'' None
      (cold_db ?m) = Inr (r', db1)"
    by (simp add: delete_db_instance_resource_def deletable_status_def record_delete_request_def
        default_config_def effective_delete_cooldown_hours_def retire_member_def run_hook_def
        backend_pool_def Let_def member_of_resource_def consume_agent_operation_budget_def
        consume_hourly_budget_def ensure_budget_row_def tensure_def bud_key_def put_member_def cold_defs)
  have refs: "get_pool (cold_db ?m) (m_pool_id ?m) = Some example_pool"
    "get_instance (cold_db ?m) (m_instance_id ?m) = Some example_instance"
    by (simp_all add: cold_defs)
  have step: "prepare_step example_cloud (\<lambda>_. []) example_member_draws True (cold_db ?m) example_pool
      example_instance ?m = Save (?m\<lparr>m_readiness_status := RS_FRESH, m_preparation_step := PREP_VERIFIED,
        m_failure_reason := None, m_retry_count := 0, m_next_retry_at := None\<rparr>)
        (example_instance\<lparr>i_status := IS_ACTIVE\<rparr>)"
    using cold_member_verifies [of "\<lambda>_. []" PREP_PRIVILEGES_GRANTED "Some ''r1''"] rows(2)
    by (auto simp: prepare_step_def account_step_def)
  obtain db' where run: "advance_once example_cloud (\<lambda>_. []) example_member_draws 6 (\<lambda>_. db1) True
      ''m1'' (cold_db ?m) = (Inr PREP_VERIFIED, db')"
    unfolding advance_once_def rows(1,2) refs option.case step
    by (simp add: refs step) (simp add: finish_verification_def activate_dedicated_member_def
        save_step_def cold_defs)
  from verification_overwrites_delete [OF rows del run] del run show ?thesis by blast
qed

end
