(* ===== verification/Pool_Worker.thy ===== *)
theory Pool_Worker
  imports Dispatcher Pool_Provisioner
begin

text \<open>
  The worker of the dedicated pools (\<open>server/core/dedicated_pool_worker.py\<close>): it takes dedicated
  resources through deletion and restoration, destroys retired members, synchronises permissions,
  checks the health of available members, prepares new ones and keeps each pool at its target.

  One call of \<open>run_once\<close> does one piece of work. A claim selects the first due row and writes the
  lease in one statement. The pieces of work call the cloud or a member's server outside a
  transaction (the synchronisation inside one) and record the outcome if the claim is still held;
  \<open>pw_env\<close> is what other sessions commit in between. An error that the code does not catch ends
  the run and leaves the claim to expire.
\<close>

section \<open>Claims\<close>

record pool_worker =
  pw_config :: tenant_provisioning_config
  pw_id :: string
  pw_cloud :: cloud
  pw_repr :: "json \<Rightarrow> string"
  pw_env :: "nat \<Rightarrow> metadb \<Rightarrow> metadb"

definition pool_lease :: "pool_worker \<Rightarrow> time \<Rightarrow> time" where
  "pool_lease pw now = now + seconds (cfg_worker_claim_ttl_seconds (pw_config pw))"

definition pool_backoff :: "pool_worker \<Rightarrow> int \<Rightarrow> int" where
  "pool_backoff pw retry_count =
     seconds (min (cfg_worker_initial_backoff_seconds (pw_config pw) * 2 ^ nat (max 0 (retry_count - 1)))
                  (cfg_worker_max_backoff_seconds (pw_config pw)))"

definition set_member_claim :: "string option \<Rightarrow> time option \<Rightarrow> pool_member \<Rightarrow> pool_member" where
  "set_member_claim w l m = m\<lparr>m_worker_id := w, m_worker_lease_until := l\<rparr>"

definition set_target_claim :: "string option \<Rightarrow> time option \<Rightarrow> sync_target \<Rightarrow> sync_target" where
  "set_target_claim w l t = t\<lparr>st_worker_id := w, st_worker_lease_until := l\<rparr>"

text \<open>The rows of a session's own claims.\<close>

definition owned_resource :: "pool_worker \<Rightarrow> string \<Rightarrow> metadb \<Rightarrow> resource option" where
  "owned_resource pw rid db =
     (case get_resource db rid of None \<Rightarrow> None
      | Some r \<Rightarrow> if r_worker_id r = Some (pw_id pw) then Some r else None)"

definition owned_member :: "pool_worker \<Rightarrow> string \<Rightarrow> metadb \<Rightarrow> pool_member option" where
  "owned_member pw mid db =
     (case get_member db mid of None \<Rightarrow> None
      | Some m \<Rightarrow> if m_worker_id m = Some (pw_id pw) then Some m else None)"

definition member_free :: "time \<Rightarrow> pool_member \<Rightarrow> bool" where
  "member_free now m \<longleftrightarrow> retry_due (m_next_retry_at m) now
     \<and> lease_available (m_worker_id m) (m_worker_lease_until m) now"

section \<open>Destroying retired members\<close>

definition deleting_due :: "time \<Rightarrow> pool_member \<Rightarrow> bool" where
  "deleting_due now m \<longleftrightarrow> m_status m = MS_DELETING \<and> m_allocated_resource_id m = None
     \<and> member_free now m"

definition claim_deleting_member :: "pool_worker \<Rightarrow> time \<Rightarrow> metadb \<Rightarrow> string option \<times> metadb" where
  "claim_deleting_member pw now db =
     (case first_by (\<lambda>m. (m_created_at m, m_id m)) (filter (deleting_due now) (members db)) of
        None \<Rightarrow> (None, db)
      | Some m \<Rightarrow> (Some (m_id m), put_member (m_id m)
                   (set_member_claim (Some (pw_id pw)) (Some (pool_lease pw now))) db))"

definition destroy_failed :: "pool_worker \<Rightarrow> time \<Rightarrow> pool_member \<Rightarrow> pool_member" where
  "destroy_failed pw now m = set_member_claim None None (m
     \<lparr>m_retry_count := m_retry_count m + 1,
      m_failure_reason := Some ''DEDICATED_MEMBER_DESTROY_FAILED'',
      m_next_retry_at := Some (now + pool_backoff pw (m_retry_count m + 1))\<rparr>)"

definition destroyed :: "pool_member \<Rightarrow> pool_member" where
  "destroyed m = set_member_claim None None (m
     \<lparr>m_status := MS_DELETED, m_failure_reason := None, m_next_retry_at := None\<rparr>)"

definition delete_cluster :: "cloud \<Rightarrow> instance_row \<Rightarrow> py_error + unit" where
  "delete_cluster cl i =
     bindE (cl_client cl (i_region i)) (\<lambda>_. cl_delete_cluster cl (i_cluster_id i))"

definition destroy_deleting_member ::
    "pool_worker \<Rightarrow> time \<Rightarrow> string \<Rightarrow> metadb \<Rightarrow> (py_error + unit) \<times> metadb" where
  "destroy_deleting_member pw now mid db =
     (case owned_member pw mid db of
        None \<Rightarrow> (Inr (), db)
      | Some m \<Rightarrow>
          (case get_instance db (m_instance_id m) of
             None \<Rightarrow> (Inl (OtherError ''AttributeError''), db)
           | Some i \<Rightarrow>
               let db1 = pw_env pw 0 db
               in (Inr (), case owned_member pw mid db1 of
                     None \<Rightarrow> db1
                   | Some _ \<Rightarrow> put_member mid
                       (case delete_cluster (pw_cloud pw) i of
                          Inl _ \<Rightarrow> destroy_failed pw now | Inr _ \<Rightarrow> destroyed) db1)))"

section \<open>Permission synchronisation\<close>

abbreviation get_target :: "metadb \<Rightarrow> string \<Rightarrow> sync_target option" where
  "get_target db i \<equiv> tget st_id i (sync_targets db)"

abbreviation get_job :: "metadb \<Rightarrow> string \<Rightarrow> sync_job option" where
  "get_job db i \<equiv> tget sj_id i (sync_jobs db)"

definition put_target :: "string \<Rightarrow> (sync_target \<Rightarrow> sync_target) \<Rightarrow> metadb \<Rightarrow> metadb" where
  "put_target i f db = db\<lparr>sync_targets := tupd st_id i f (sync_targets db)\<rparr>"

definition put_job :: "string \<Rightarrow> (sync_job \<Rightarrow> sync_job) \<Rightarrow> metadb \<Rightarrow> metadb" where
  "put_job i f db = db\<lparr>sync_jobs := tupd sj_id i f (sync_jobs db)\<rparr>"

definition target_due :: "time \<Rightarrow> metadb \<Rightarrow> sync_target \<Rightarrow> bool" where
  "target_due now db t \<longleftrightarrow>
     st_status t = TGT_PENDING \<and> retry_due (st_next_retry_at t) now
   \<and> lease_available (st_worker_id t) (st_worker_lease_until t) now
   \<and> (case get_job db (st_job_id t) of None \<Rightarrow> False
      | Some j \<Rightarrow> sj_mode j = SYNC_APPLY \<and> sj_status j \<in> {SYNC_PENDING, SYNC_RUNNING})"

definition claim_permission_sync_target :: "pool_worker \<Rightarrow> time \<Rightarrow> metadb \<Rightarrow> string option \<times> metadb" where
  "claim_permission_sync_target pw now db =
     (case first_by (\<lambda>t. (st_created_at t, st_id t)) (filter (target_due now db) (sync_targets db)) of
        None \<Rightarrow> (None, db)
      | Some t \<Rightarrow> (Some (st_id t),
          put_job (st_job_id t) (\<lambda>j. j\<lparr>sj_status := SYNC_RUNNING\<rparr>)
            (put_target (st_id t) (\<lambda>t. set_target_claim (Some (pw_id pw)) (Some (pool_lease pw now))
               (t\<lparr>st_status := TGT_RUNNING\<rparr>)) db)))"

definition refresh_permission_sync_job :: "string \<Rightarrow> metadb \<Rightarrow> metadb" where
  "refresh_permission_sync_job jid db =
     (let statuses = map st_status (filter (\<lambda>t. st_job_id t = jid) (sync_targets db));
          completed = int (rcount (\<lambda>s. s = TGT_SUCCEEDED) statuses);
          failed = int (rcount (\<lambda>s. s = TGT_FAILED) statuses)
      in put_job jid (\<lambda>j. let j1 = j\<lparr>sj_completed_count := completed, sj_failed_count := failed\<rparr> in
           if completed + failed = sj_total_count j
           then (if failed \<noteq> 0
                 then j1\<lparr>sj_status := SYNC_FAILED, sj_failure_reason := Some ''PERMISSION_SYNC_FAILED''\<rparr>
                 else j1\<lparr>sj_status := SYNC_SUCCEEDED, sj_failure_reason := None\<rparr>)
           else j1\<lparr>sj_status := SYNC_RUNNING\<rparr>) db)"

definition sync_failed :: "pool_worker \<Rightarrow> time \<Rightarrow> sync_target \<Rightarrow> sync_target" where
  "sync_failed pw now t = set_target_claim None None
     (let t1 = t\<lparr>st_retry_count := st_retry_count t + 1,
            st_failure_reason := Some ''PERMISSION_SYNC_FAILED''\<rparr>
      in if st_retry_count t1 > cfg_worker_max_retries (pw_config pw)
         then t1\<lparr>st_status := TGT_FAILED, st_next_retry_at := None\<rparr>
         else t1\<lparr>st_status := TGT_PENDING,
                 st_next_retry_at := Some (now + pool_backoff pw (st_retry_count t1))\<rparr>)"

definition sync_done :: "sync_target \<Rightarrow> sync_target" where
  "sync_done t = set_target_claim None None (t\<lparr>st_status := TGT_SUCCEEDED, st_failure_reason := None,
     st_next_retry_at := None\<rparr>)"

definition record_permission_sync_failure :: "pool_worker \<Rightarrow> time \<Rightarrow> string \<Rightarrow> metadb \<Rightarrow> metadb" where
  "record_permission_sync_failure pw now tid db =
     (case get_target db tid of
        None \<Rightarrow> db
      | Some t \<Rightarrow>
          if st_worker_id t \<noteq> Some (pw_id pw) then db
          else refresh_permission_sync_job (st_job_id t) (put_target tid (sync_failed pw now) db))"

text \<open>The work on a target: the revision of the job, compiled, and the member with it.\<close>

definition sync_work ::
    "pool_worker \<Rightarrow> metadb \<Rightarrow> sync_target \<Rightarrow> py_error + (permission_revision \<times> jtext \<times> pool_member)" where
  "sync_work pw db t =
     (case get_member db (st_member_id t) of
        None \<Rightarrow> Inl (RuntimeError ''Permission sync member is unavailable'')
      | Some m \<Rightarrow>
          (case Option.bind (get_job db (st_job_id t)) (\<lambda>j. get_revision db (sj_revision_id j)) of
             None \<Rightarrow> Inl (OtherError ''AttributeError'')
           | Some v \<Rightarrow>
               bindE (permission_snapshot_for_revision v) (\<lambda>snapshot.
                 let encoded = permission_snapshot_to_json snapshot;
                     m' = m\<lparr>m_permission_revision_id := Some (pr_id v),
                            m_permission_snapshot_json := Some encoded\<rparr>
                 in if \<not> st_change_required t then Inr (v, encoded, m)
                    else bindE (fst (synchronize_permissions (cl_mysql (pw_cloud pw))
                                  (cl_decrypt (pw_cloud pw)) (pw_repr pw) m' snapshot [])) (\<lambda>_.
                           Inr (v, encoded, m')))))"

text \<open>The commit after the synchronisation: what changed of the loaded member and resource.\<close>

definition write_synced ::
    "sync_target \<Rightarrow> metadb \<Rightarrow> permission_revision \<Rightarrow> jtext \<Rightarrow> metadb \<Rightarrow> metadb" where
  "write_synced t loaded v encoded db =
     (let db1 = (case get_member loaded (st_member_id t) of None \<Rightarrow> db
          | Some m \<Rightarrow> put_member (st_member_id t) (\<lambda>cur. cur
              \<lparr>m_permission_revision_id := dirty (m_permission_revision_id m) (Some (pr_id v))
                 (m_permission_revision_id cur),
               m_permission_snapshot_json := dirty (m_permission_snapshot_json m) (Some encoded)
                 (m_permission_snapshot_json cur)\<rparr>) db)
      in case Option.bind (st_resource_id t) (get_resource loaded) of None \<Rightarrow> db1
         | Some r \<Rightarrow> put_resource (r_id r) (\<lambda>cur. cur
              \<lparr>r_permission_template_id := dirty (r_permission_template_id r) (Some (pr_template_id v))
                 (r_permission_template_id cur),
               r_permission_revision_id := dirty (r_permission_revision_id r) (Some (pr_id v))
                 (r_permission_revision_id cur),
               r_permission_snapshot_json := dirty (r_permission_snapshot_json r) (Some encoded)
                 (r_permission_snapshot_json cur)\<rparr>) db1)"

definition process_permission_sync_target ::
    "pool_worker \<Rightarrow> time \<Rightarrow> string \<Rightarrow> metadb \<Rightarrow> metadb" where
  "process_permission_sync_target pw now tid db =
     (case get_target db tid of
        None \<Rightarrow> db
      | Some t \<Rightarrow>
          if st_worker_id t \<noteq> Some (pw_id pw) \<or> st_status t \<noteq> TGT_RUNNING then db
          else let db1 = pw_env pw 0 db
               in case sync_work pw db t of
                    Inl e \<Rightarrow> record_permission_sync_failure pw now tid db1
                  | Inr (v, encoded, m) \<Rightarrow>
                      refresh_permission_sync_job (st_job_id t)
                        (put_target tid sync_done
                          (if st_change_required t then write_synced t db v encoded db1 else db1)))"

section \<open>Deletion and restoration of dedicated resources\<close>

definition lifecycle_due :: "time \<Rightarrow> resource \<Rightarrow> bool" where
  "lifecycle_due now r \<longleftrightarrow>
     r_mode r = MODE_DEDICATED
   \<and> (r_status r \<in> {ST_DELETING, ST_RESTORING}
      \<or> r_status r = ST_COOLING_DOWN \<and> (case r_cooldown_until r of None \<Rightarrow> False | Some t \<Rightarrow> t \<le> now))
   \<and> retry_due (r_next_retry_at r) now
   \<and> lease_available (r_worker_id r) (r_worker_lease_until r) now"

definition claim_resource_by ::
    "(resource \<Rightarrow> bool) \<Rightarrow> pool_worker \<Rightarrow> time \<Rightarrow> metadb \<Rightarrow> string option \<times> metadb" where
  "claim_resource_by due pw now db =
     (case first_by (\<lambda>r. (r_created_at r, r_id r)) (filter due (resources db)) of
        None \<Rightarrow> (None, db)
      | Some r \<Rightarrow> (Some (r_id r), put_resource (r_id r)
                   (set_resource_claim (Some (pw_id pw)) (Some (pool_lease pw now))) db))"

definition claim_lifecycle_resource :: "pool_worker \<Rightarrow> time \<Rightarrow> metadb \<Rightarrow> string option \<times> metadb" where
  "claim_lifecycle_resource pw now db = claim_resource_by (lifecycle_due now) pw now db"

definition finish_dedicated_disconnect ::
    "pool_worker \<Rightarrow> time \<Rightarrow> string \<Rightarrow> metadb \<Rightarrow> py_error + metadb" where
  "finish_dedicated_disconnect pw now rid db =
     (case owned_resource pw rid db of
        None \<Rightarrow> Inr db
      | Some r \<Rightarrow>
          if r_status r \<noteq> ST_DELETING then Inr db
          else case (member_of_resource db rid, r_cooldown_hours r) of
            (Some m, Some duration) \<Rightarrow>
              Inr (put_member (m_id m) (\<lambda>m. m\<lparr>m_status := MS_COOLING_DOWN\<rparr>)
                (put_resource rid (\<lambda>r. clear_claim ((reset_retries r)
                   \<lparr>r_disconnected_at := Some now, r_cooldown_until := Some (now + hours duration),
                    r_status := ST_COOLING_DOWN, r_delete_step := DS_COOLING_DOWN\<rparr>)) db))
          | _ \<Rightarrow> Inl (RuntimeError ''Dedicated cooldown state is incomplete''))"

definition cleanup_step_of :: "resource \<Rightarrow> delete_lifecycle_step" where
  "cleanup_step_of r =
     (if r_reclaim_policy r = Some SANITIZE_AND_REUSE then DS_SANITIZE_DISPATCH else DS_PHYSICAL_DESTROY)"

definition begin_dedicated_cleanup ::
    "pool_worker \<Rightarrow> time \<Rightarrow> string \<Rightarrow> metadb \<Rightarrow> py_error + (delete_lifecycle_step option \<times> metadb)" where
  "begin_dedicated_cleanup pw now rid db =
     (case owned_resource pw rid db of
        None \<Rightarrow> Inr (None, db)
      | Some r \<Rightarrow>
          (case r_cooldown_until r of
             None \<Rightarrow> Inr (None, db)
           | Some deadline \<Rightarrow>
               if r_status r \<noteq> ST_COOLING_DOWN \<or> r_disconnected_at r = None then Inr (None, db)
               else if deadline > now then Inr (None, put_resource rid clear_claim db)
               else case member_of_resource db rid of
                 None \<Rightarrow> Inl (RuntimeError ''Dedicated member is unavailable'')
               | Some m \<Rightarrow>
                   let step = cleanup_step_of r
                   in Inr (Some step,
                        put_member (m_id m) (\<lambda>m. m\<lparr>m_status :=
                            (if step = DS_SANITIZE_DISPATCH then MS_SANITIZING else MS_DELETING)\<rparr>)
                          (put_resource rid (\<lambda>r. r\<lparr>r_status := ST_DELETING, r_delete_step := step\<rparr>) db))))"

definition wipe_credential :: "credential \<Rightarrow> credential" where
  "wipe_credential c = (if c_purpose c = RESOURCE_ACCESS
     then c\<lparr>c_status := CRED_REVOKED, c_username_ciphertext := None, c_password_ciphertext := None\<rparr>
     else c)"

definition reclaimed_row :: "time \<Rightarrow> resource \<Rightarrow> resource" where
  "reclaimed_row now r = clear_claim (r
     \<lparr>r_capacity_released_at := (case r_capacity_released_at r of None \<Rightarrow> Some now | Some t \<Rightarrow> Some t),
      r_credentials := map wipe_credential (r_credentials r),
      r_status := ST_DELETED, r_delete_step := DS_COMPLETE, r_cleanup_required := False,
      r_failure_reason := None\<rparr>)"

definition reclaimed_member :: "bool \<Rightarrow> pool_member \<Rightarrow> pool_member" where
  "reclaimed_member sanitized m =
     (let m1 = m\<lparr>m_allocated_resource_id := None\<rparr>
      in if sanitized
         then m1\<lparr>m_sandbox_username_ciphertext := None, m_sandbox_password_ciphertext := None,
                m_database_name := None, m_permission_revision_id := None,
                m_permission_snapshot_json := None, m_last_ready_verified_at := None,
                m_readiness_status := RS_STALE, m_preparation_step := PREP_LIFECYCLE_ACCOUNT_CREATED,
                m_status := MS_REPLENISHING\<rparr>
         else m1\<lparr>m_status := MS_DELETED\<rparr>)"

definition finish_dedicated_cleanup ::
    "pool_worker \<Rightarrow> time \<Rightarrow> string \<Rightarrow> bool \<Rightarrow> metadb \<Rightarrow> py_error + metadb" where
  "finish_dedicated_cleanup pw now rid sanitized db =
     (case owned_resource pw rid db of
        None \<Rightarrow> Inr db
      | Some r \<Rightarrow>
          if r_delete_step r \<noteq> (if sanitized then DS_SANITIZE_DISPATCH else DS_PHYSICAL_DESTROY)
          then Inr db
          else case member_of_resource db rid of
            None \<Rightarrow> Inl (RuntimeError ''Dedicated member is unavailable'')
          | Some m \<Rightarrow>
              bindE (if r_capacity_released_at r = None
                     then release_active_capacity_counters (r_owner_agent_id r) (r_backend_id r) db
                     else Inr db) (\<lambda>db1.
                Inr (put_member (m_id m) (reclaimed_member sanitized)
                      (put_resource rid (reclaimed_row now) db1))))"

definition dedicated_restored_row :: "resource \<Rightarrow> resource" where
  "dedicated_restored_row r = clear_claim (r
     \<lparr>r_credentials := map activate_access (r_credentials r), r_status := ST_READY,
      r_delete_step := DS_PENDING, r_delete_requested_at := None, r_disconnected_at := None,
      r_cooldown_until := None, r_restore_source_status := None, r_restore_failure_reason := None,
      r_failure_reason := None\<rparr>)"

definition finish_dedicated_restore :: "pool_worker \<Rightarrow> string \<Rightarrow> metadb \<Rightarrow> py_error + metadb" where
  "finish_dedicated_restore pw rid db =
     (case owned_resource pw rid db of
        None \<Rightarrow> Inr db
      | Some r \<Rightarrow>
          if r_status r \<noteq> ST_RESTORING then Inr db
          else case member_of_resource db rid of
            None \<Rightarrow> Inl (RuntimeError ''Dedicated member is unavailable'')
          | Some m \<Rightarrow>
              Inr (put_member (m_id m) (\<lambda>m. m\<lparr>m_status := MS_ALLOCATED\<rparr>)
                    (put_resource rid dedicated_restored_row db)))"

definition lifecycle_failed_row :: "pool_worker \<Rightarrow> time \<Rightarrow> py_error \<Rightarrow> resource \<Rightarrow> resource" where
  "lifecycle_failed_row pw now error r = clear_claim
     (if r_status r = ST_RESTORING
      then r\<lparr>r_status := (if r_restore_source_status r = Some ST_COOLING_DOWN
                          then ST_COOLING_DOWN else ST_DELETE_FAILED),
             r_restore_failure_reason :=
               Some (''Restore verification failed with '' @ type_name error)\<rparr>
      else let r1 = r\<lparr>r_retry_count := r_retry_count r + 1, r_failure_reason :=
                 Some (''Dedicated lifecycle step failed with '' @ type_name error)\<rparr>
           in if r_retry_count r1 > cfg_worker_max_retries (pw_config pw)
              then r1\<lparr>r_status := ST_DELETE_FAILED, r_next_retry_at := None\<rparr>
              else r1\<lparr>r_next_retry_at := Some (now + pool_backoff pw (r_retry_count r1))\<rparr>)"

definition record_lifecycle_failure ::
    "pool_worker \<Rightarrow> time \<Rightarrow> string \<Rightarrow> py_error \<Rightarrow> metadb \<Rightarrow> metadb" where
  "record_lifecycle_failure pw now rid error db =
     (case owned_resource pw rid db of
        None \<Rightarrow> db
      | Some r \<Rightarrow>
          let db1 = put_resource rid (lifecycle_failed_row pw now error) db
          in case member_of_resource db rid of
               None \<Rightarrow> db1
             | Some m \<Rightarrow>
                 if r_status r \<noteq> ST_RESTORING
                    \<and> r_retry_count r + 1 > cfg_worker_max_retries (pw_config pw)
                    \<and> r_delete_step r \<in> {DS_SANITIZE_DISPATCH, DS_PHYSICAL_DESTROY}
                 then put_member (m_id m) (\<lambda>m. m\<lparr>m_status := MS_QUARANTINED\<rparr>) db1 else db1)"

text \<open>The remote part of a step and the transaction that records it.\<close>

definition lifecycle_step ::
    "pool_worker \<Rightarrow> time \<Rightarrow> string \<Rightarrow> pool_member \<Rightarrow> instance_row \<Rightarrow> delete_lifecycle_step \<Rightarrow> metadb
     \<Rightarrow> py_error + metadb" where
  "lifecycle_step pw now rid m i step db =
     (let cl = pw_cloud pw in
      if step = DS_PHYSICAL_DESTROY
      then bindE (delete_cluster cl i) (\<lambda>_. finish_dedicated_cleanup pw now rid False db)
      else if step = DS_SANITIZE_DISPATCH
      then bindE (fst (drop_sandbox (cl_mysql cl) (cl_decrypt cl) m []))
             (\<lambda>_. finish_dedicated_cleanup pw now rid True db)
      else bindE (fst (disconnect (cl_mysql cl) (cl_decrypt cl) m []))
             (\<lambda>_. finish_dedicated_disconnect pw now rid db))"

text \<open>The outcome of the guarded part of a run that started on \<open>d\<close>: the last transaction, or the
  record of the error.\<close>

definition record_outcome ::
    "pool_worker \<Rightarrow> time \<Rightarrow> string \<Rightarrow> metadb \<Rightarrow> py_error + metadb \<Rightarrow> (py_error + unit) \<times> metadb" where
  "record_outcome pw now rid d x =
     (Inr (), case x of Inl e \<Rightarrow> record_lifecycle_failure pw now rid e (pw_env pw 2 d) | Inr d' \<Rightarrow> d')"

definition process_lifecycle_resource ::
    "pool_worker \<Rightarrow> time \<Rightarrow> string \<Rightarrow> metadb \<Rightarrow> (py_error + unit) \<times> metadb" where
  "process_lifecycle_resource pw now rid db =
     (case owned_resource pw rid db of
        None \<Rightarrow> (Inr (), db)
      | Some r \<Rightarrow>
          (case member_of_resource db rid of
             None \<Rightarrow> (Inr (), record_lifecycle_failure pw now rid
                       (RuntimeError ''Dedicated member is unavailable'') (pw_env pw 0 db))
           | Some m \<Rightarrow>
               (case get_instance db (m_instance_id m) of
                  None \<Rightarrow> (Inl (OtherError ''AttributeError''), db)
                | Some i \<Rightarrow>
                    let cl = pw_cloud pw; db1 = pw_env pw 0 db;
                        recorded = record_outcome pw now rid
                    in if r_status r = ST_RESTORING
                       then recorded db1 (bindE (fst (restore (cl_mysql cl) (cl_decrypt cl) (pw_repr pw) m []))
                              (\<lambda>_. finish_dedicated_restore pw rid db1))
                       else if r_status r = ST_COOLING_DOWN
                       then (case begin_dedicated_cleanup pw now rid db1 of
                               Inl e \<Rightarrow> recorded db1 (Inl e)
                             | Inr (None, db2) \<Rightarrow> (Inr (), db2)
                             | Inr (Some step, db2) \<Rightarrow>
                                 let db3 = pw_env pw 1 db2
                                 in recorded db3 (lifecycle_step pw now rid m i step db3))
                       else recorded db1 (lifecycle_step pw now rid m i (r_delete_step r) db1))))"

section \<open>Resources that wait for a member\<close>

definition pending_due :: "time \<Rightarrow> resource \<Rightarrow> bool" where
  "pending_due now r \<longleftrightarrow>
     r_mode r = MODE_DEDICATED \<and> r_status r = ST_CREATING \<and> r_allocated_instance_id r = None
   \<and> retry_due (r_next_retry_at r) now
   \<and> lease_available (r_worker_id r) (r_worker_lease_until r) now"

definition claim_pending_resource :: "pool_worker \<Rightarrow> time \<Rightarrow> metadb \<Rightarrow> string option \<times> metadb" where
  "claim_pending_resource pw now db = claim_resource_by (pending_due now) pw now db"

definition fulfill_pending_resource ::
    "pool_worker \<Rightarrow> string \<Rightarrow> time \<Rightarrow> string \<Rightarrow> metadb \<Rightarrow> (py_error + unit) \<times> metadb" where
  "fulfill_pending_resource pw credential_id now rid db =
     (case owned_resource pw rid db of
        None \<Rightarrow> (Inr (), db)
      | Some r \<Rightarrow>
          (case Option.bind (get_backend db (r_backend_id r)) b_dedicated_pool_id of
             None \<Rightarrow> (Inr (), put_resource rid (\<lambda>r. clear_claim (r
                 \<lparr>r_status := ST_FAILED, r_failure_reason := Some ''DEDICATED_BACKEND_UNAVAILABLE''\<rparr>)) db)
           | Some pid \<Rightarrow>
               (case claim_fresh_member pid rid now db of
                  Inl e \<Rightarrow> (Inl e, db)
                | Inr (None, db1) \<Rightarrow> (Inr (), put_resource rid (\<lambda>r. clear_claim (r
                    \<lparr>r_next_retry_at :=
                       Some (now + seconds (cfg_worker_poll_interval_seconds (pw_config pw)))\<rparr>)) db1)
                | Inr (Some m, db1) \<Rightarrow>
                    (case activate_dedicated_member db1 credential_id m r of
                       Inl e \<Rightarrow> (Inl e, db)
                     | Inr (m', r') \<Rightarrow>
                         (Inr (), put_resource rid (\<lambda>_. clear_claim r')
                            (put_member (m_id m) (\<lambda>_. m') db1))))))"

section \<open>Readiness\<close>

definition active_pools :: "metadb \<Rightarrow> pool list" where
  "active_pools db = filter (\<lambda>p. p_status p = POOL_ACTIVE) (pools db)"

definition evidence_expired :: "pool \<Rightarrow> time \<Rightarrow> pool_member \<Rightarrow> bool" where
  "evidence_expired p now m \<longleftrightarrow>
     m_pool_id m = p_id p \<and> m_status m = MS_AVAILABLE \<and> m_readiness_status m = RS_FRESH
   \<and> (case m_last_ready_verified_at m of None \<Rightarrow> True | Some t \<Rightarrow> t < ready_cutoff p now)"

definition expire_pool :: "time \<Rightarrow> pool \<Rightarrow> nat \<times> pool_member list \<Rightarrow> nat \<times> pool_member list" where
  "expire_pool now p x = (case x of (changed, ms) \<Rightarrow>
     (changed + rcount (evidence_expired p now) ms,
      map (\<lambda>m. if evidence_expired p now m then m\<lparr>m_readiness_status := RS_STALE\<rparr> else m) ms))"

definition mark_expired_evidence_stale :: "time \<Rightarrow> metadb \<Rightarrow> bool \<times> metadb" where
  "mark_expired_evidence_stale now db =
     (case fold (expire_pool now) (active_pools db) (0, members db) of
        (changed, ms) \<Rightarrow> if changed \<noteq> 0 then (True, db\<lparr>members := ms\<rparr>) else (False, db))"

definition check_due :: "pool \<Rightarrow> time \<Rightarrow> pool_member \<Rightarrow> bool" where
  "check_due p now m \<longleftrightarrow>
     m_pool_id m = p_id p \<and> m_status m = MS_AVAILABLE
   \<and> (m_readiness_status m \<in> {RS_STALE, RS_CHECKING}
      \<or> (case m_last_ready_verified_at m of None \<Rightarrow> False
         | Some t \<Rightarrow> t \<le> now - seconds (p_health_check_interval_seconds p)))
   \<and> member_free now m"

definition check_order :: "pool_member \<Rightarrow> nat \<times> string" where
  "check_order m = (case m_readiness_status m of RS_CHECKING \<Rightarrow> 0 | RS_STALE \<Rightarrow> 1 | RS_FRESH \<Rightarrow> 2, m_id m)"

fun claim_check_in :: "pool_worker \<Rightarrow> time \<Rightarrow> pool list \<Rightarrow> metadb \<Rightarrow> string option \<times> metadb" where
  "claim_check_in pw now [] db = (None, db)"
| "claim_check_in pw now (p # ps) db =
     (case first_by check_order (filter (check_due p now) (members db)) of
        None \<Rightarrow> claim_check_in pw now ps db
      | Some m \<Rightarrow> (Some (m_id m), put_member (m_id m) (\<lambda>m. set_member_claim (Some (pw_id pw))
            (Some (pool_lease pw now)) (m\<lparr>m_readiness_status := RS_CHECKING\<rparr>)) db))"

definition claim_health_check :: "pool_worker \<Rightarrow> time \<Rightarrow> metadb \<Rightarrow> string option \<times> metadb" where
  "claim_health_check pw now db = claim_check_in pw now (sort_key p_id (active_pools db)) db"

datatype health_outcome = HEALTHY | CONCLUSIVE_FAILURE | INCONCLUSIVE

definition checked_row :: "pool_worker \<Rightarrow> time \<Rightarrow> health_outcome \<Rightarrow> pool_member \<Rightarrow> pool_member" where
  "checked_row pw now outcome m = set_member_claim None None
     (case outcome of
        HEALTHY \<Rightarrow> m\<lparr>m_readiness_status := RS_FRESH, m_last_ready_verified_at := Some now,
            m_failure_reason := None, m_retry_count := 0, m_next_retry_at := None\<rparr>
      | CONCLUSIVE_FAILURE \<Rightarrow> m\<lparr>m_status := MS_QUARANTINED, m_readiness_status := RS_STALE,
            m_failure_reason := Some ''DEDICATED_READINESS_VERIFICATION_FAILED'',
            m_retry_count := m_retry_count m + 1, m_next_retry_at := None\<rparr>
      | INCONCLUSIVE \<Rightarrow> m\<lparr>m_readiness_status := RS_STALE,
            m_failure_reason := Some ''DEDICATED_READINESS_RECHECK_INCONCLUSIVE'',
            m_retry_count := m_retry_count m + 1,
            m_next_retry_at := Some (now + pool_backoff pw (m_retry_count m + 1))\<rparr>)"

definition finish_health_check ::
    "pool_worker \<Rightarrow> time \<Rightarrow> string \<Rightarrow> health_outcome \<Rightarrow> metadb \<Rightarrow> metadb" where
  "finish_health_check pw now mid outcome db =
     (case owned_member pw mid db of
        None \<Rightarrow> db | Some m \<Rightarrow> put_member mid (checked_row pw now outcome) db)"

definition outcome_of :: "py_error + unit \<Rightarrow> health_outcome" where
  "outcome_of x = (case x of Inr _ \<Rightarrow> HEALTHY
     | Inl e \<Rightarrow> if e = DedicatedGrantVerificationError then CONCLUSIVE_FAILURE else INCONCLUSIVE)"

definition check_member :: "pool_worker \<Rightarrow> time \<Rightarrow> string \<Rightarrow> metadb \<Rightarrow> metadb" where
  "check_member pw now mid db =
     (case get_member db mid of
        None \<Rightarrow> db
      | Some m \<Rightarrow> finish_health_check pw now mid
          (outcome_of (fst (verify (cl_mysql (pw_cloud pw)) (cl_decrypt (pw_cloud pw)) (pw_repr pw) m [])))
          (pw_env pw 0 db))"

section \<open>Replenishment\<close>

definition replenish_due :: "pool_worker \<Rightarrow> time \<Rightarrow> metadb \<Rightarrow> pool_member \<Rightarrow> bool" where
  "replenish_due pw now db m \<longleftrightarrow>
     (case get_pool db (m_pool_id m) of None \<Rightarrow> False | Some p \<Rightarrow> p_status p = POOL_ACTIVE)
   \<and> m_status m \<in> {MS_REPLENISHING, MS_ALLOCATED_PREPARING}
   \<and> m_preparation_step m \<noteq> PREP_VERIFIED
   \<and> \<not> (cfg_openapi_only (pw_config pw) \<and> m_preparation_step m = PREP_OPENAPI_READY)
   \<and> member_free now m"

definition claim_replenishing_member :: "pool_worker \<Rightarrow> time \<Rightarrow> metadb \<Rightarrow> string option \<times> metadb" where
  "claim_replenishing_member pw now db =
     (case first_by (\<lambda>m. (m_created_at m, m_id m)) (filter (replenish_due pw now db) (members db)) of
        None \<Rightarrow> (None, db)
      | Some m \<Rightarrow> (Some (m_id m), put_member (m_id m)
                   (set_member_claim (Some (pw_id pw)) (Some (pool_lease pw now))) db))"

definition advanced_row ::
    "pool_worker \<Rightarrow> time \<Rightarrow> preparation_step \<Rightarrow> py_error + preparation_step \<Rightarrow> pool_member \<Rightarrow> pool_member" where
  "advanced_row pw now previous res m = set_member_claim None None
     (m\<lparr>m_next_retry_at :=
          (case res of
             Inl _ \<Rightarrow> Some (now + pool_backoff pw (max 1 (m_retry_count m)))
           | Inr step \<Rightarrow> if step = previous
               then Some (now + seconds (cfg_worker_poll_interval_seconds (pw_config pw))) else None)\<rparr>)"

definition advance_replenishing_member ::
    "pool_worker \<Rightarrow> (string \<Rightarrow> string) \<Rightarrow> string option \<Rightarrow> member_draws \<Rightarrow> time \<Rightarrow> string \<Rightarrow> metadb \<Rightarrow> metadb" where
  "advance_replenishing_member pw openapi_record request_id d now mid db =
     (case owned_member pw mid db of
        None \<Rightarrow> db
      | Some m \<Rightarrow>
          (case advance (pw_cloud pw) (pw_repr pw) openapi_record request_id d now (pw_env pw)
                  (\<not> cfg_openapi_only (pw_config pw)) mid db of
             (res, db1) \<Rightarrow>
               let db2 = pw_env pw 2 db1
               in case owned_member pw mid db2 of
                    None \<Rightarrow> db2
                  | Some _ \<Rightarrow> put_member mid (advanced_row pw now (m_preparation_step m) res) db2))"

text \<open>The draws of a new member: the token in its cluster id, and the two row ids.\<close>

record replacement_draws =
  rd_token :: string
  rd_instance_id :: string
  rd_member_id :: string

definition add_replacement ::
    "replacement_draws \<Rightarrow> time \<Rightarrow> string \<Rightarrow> metadb \<Rightarrow> py_error + metadb" where
  "add_replacement d now pid db =
     bindE (insert_instance
        \<lparr>i_id = rd_instance_id d, i_cluster_id = ''pending-dedicated-'' @ rd_token d,
         i_engine = POLARDB_MYSQL, i_topology = SINGLE_TENANT,
         i_allocation_mode = AM_DEDICATED_POOL, i_region = None,
         i_host = None, i_port = None, i_status = IS_CREATING\<rparr> db)
       (insert_member (new_member (rd_member_id d) pid (rd_instance_id d)
          MS_REPLENISHING RS_STALE PREP_PENDING None now))"

fun reserve_in :: "replacement_draws \<Rightarrow> time \<Rightarrow> string list \<Rightarrow> metadb \<Rightarrow> (py_error + bool) \<times> metadb" where
  "reserve_in d now [] db = (Inr False, db)"
| "reserve_in d now (pid # pids) db =
     (case reserve_member_purchase pid now PREWARM db of
        Inl e \<Rightarrow> if e \<in> {PoolCapacityLimitReached, RateLimited} then reserve_in d now pids db
                 else (Inl e, db)
      | Inr (needed, db1) \<Rightarrow>
          if \<not> needed then reserve_in d now pids db
          else case add_replacement d now pid db1 of
                 Inl e \<Rightarrow> (Inl e, db)
               | Inr db2 \<Rightarrow> (Inr True, db2))"

definition reserve_replacement :: "replacement_draws \<Rightarrow> time \<Rightarrow> metadb \<Rightarrow> (py_error + bool) \<times> metadb" where
  "reserve_replacement d now db = reserve_in d now (sort (map p_id (active_pools db))) db"

section \<open>One run\<close>

text \<open>What a run draws: the row ids, tokens and passwords of the pieces of work, and how it
  prints a cloud error.\<close>

record run_draws =
  rn_credential_id :: string
  rn_openapi_record :: "string \<Rightarrow> string"
  rn_request_id :: "string option"
  rn_member :: member_draws
  rn_replacement :: replacement_draws

definition worked :: "(py_error + unit) \<times> metadb \<Rightarrow> (py_error + bool) \<times> metadb" where
  "worked x = (map_sum (\<lambda>e. e) (\<lambda>_. True) (fst x), snd x)"

text \<open>A claim, and the work on the claimed row after other sessions have committed; with nothing to
  claim the run goes on.\<close>

definition claim_then ::
    "pool_worker \<Rightarrow> nat \<Rightarrow> (metadb \<Rightarrow> string option \<times> metadb)
     \<Rightarrow> (string \<Rightarrow> metadb \<Rightarrow> (py_error + unit) \<times> metadb)
     \<Rightarrow> (metadb \<Rightarrow> (py_error + bool) \<times> metadb) \<Rightarrow> metadb \<Rightarrow> (py_error + bool) \<times> metadb" where
  "claim_then pw k claim work continue db =
     (case claim db of
        (Some i, db1) \<Rightarrow> worked (work i (pw_env pw k db1))
      | (None, db1) \<Rightarrow> continue (pw_env pw k db1))"

definition pool_run_once :: "pool_worker \<Rightarrow> run_draws \<Rightarrow> time \<Rightarrow> metadb \<Rightarrow> (py_error + bool) \<times> metadb" where
  "pool_run_once pw d now =
     claim_then pw 10 (claim_lifecycle_resource pw now) (process_lifecycle_resource pw now)
    (claim_then pw 11 (claim_deleting_member pw now) (destroy_deleting_member pw now)
    (claim_then pw 12 (claim_permission_sync_target pw now)
       (\<lambda>tid db. (Inr (), process_permission_sync_target pw now tid db))
    (\<lambda>db. case mark_expired_evidence_stale now db of
       (True, db1) \<Rightarrow> (Inr True, db1)
     | (False, db1) \<Rightarrow>
         claim_then pw 14 (claim_health_check pw now)
           (\<lambda>mid db. (Inr (), check_member pw now mid db))
        (claim_then pw 15 (claim_pending_resource pw now)
           (fulfill_pending_resource pw (rn_credential_id d) now)
        (claim_then pw 16 (claim_replenishing_member pw now)
           (\<lambda>mid db. (Inr (), advance_replenishing_member pw (rn_openapi_record d) (rn_request_id d)
              (rn_member d) now mid db))
        (reserve_replacement (rn_replacement d) now))) (pw_env pw 13 db1))))"

end
