(* ===== verification/Pool_Transactions.thy ===== *)
theory Pool_Transactions
  imports Pool_Worker
begin

text \<open>
  The runs of the pool worker as sequences of its transactions. \<open>pool_tx\<close> has one rule for every
  transaction that \<open>run_once\<close> can commit. What the worker learnt before it opened the transaction (the
  row it claimed, the rows it loaded, the answers of the cloud and of the members' servers) is
  arbitrary in the rules: only what the transaction itself checks is a condition. \<open>pool_moves\<close> are
  the sequences of these transactions and of what other sessions commit in between, and
  \<open>pool_run_once_moves\<close> shows that a run is such a sequence.
\<close>

inductive pool_tx :: "pool_worker \<Rightarrow> time \<Rightarrow> metadb \<Rightarrow> metadb \<Rightarrow> bool" for pw now where
  pt_none: "pool_tx pw now db db"
| pt_claim_lifecycle: "claim_lifecycle_resource pw now db = (x, db') \<Longrightarrow> pool_tx pw now db db'"
| pt_claim_deleting: "claim_deleting_member pw now db = (x, db') \<Longrightarrow> pool_tx pw now db db'"
| pt_claim_sync: "claim_permission_sync_target pw now db = (x, db') \<Longrightarrow> pool_tx pw now db db'"
| pt_claim_check: "claim_health_check pw now db = (x, db') \<Longrightarrow> pool_tx pw now db db'"
| pt_claim_pending: "claim_pending_resource pw now db = (x, db') \<Longrightarrow> pool_tx pw now db db'"
| pt_claim_replenishing: "claim_replenishing_member pw now db = (x, db') \<Longrightarrow> pool_tx pw now db db'"
| pt_expire: "mark_expired_evidence_stale now db = (c, db') \<Longrightarrow> pool_tx pw now db db'"
| pt_destroy: "owned_member pw mid db = Some m \<Longrightarrow> f \<in> {destroy_failed pw now, destroyed} \<Longrightarrow>
    pool_tx pw now db (put_member mid f db)"
| pt_sync_failure: "pool_tx pw now db (record_permission_sync_failure pw now tid db)"
| pt_in_sync: "pool_tx pw now db (refresh_permission_sync_job j (put_target tid sync_done db))"
| pt_synced: "pool_tx pw now db (refresh_permission_sync_job (st_job_id t) (put_target tid sync_done
    (write_synced t loaded v encoded db)))"
| pt_checked: "pool_tx pw now db (finish_health_check pw now mid outcome db)"
| pt_begin_cleanup: "begin_dedicated_cleanup pw now rid db = Inr (x, db') \<Longrightarrow> pool_tx pw now db db'"
| pt_cleanup: "finish_dedicated_cleanup pw now rid sanitized db = Inr db' \<Longrightarrow> pool_tx pw now db db'"
| pt_disconnect: "finish_dedicated_disconnect pw now rid db = Inr db' \<Longrightarrow> pool_tx pw now db db'"
| pt_restore: "finish_dedicated_restore pw rid db = Inr db' \<Longrightarrow> pool_tx pw now db db'"
| pt_lifecycle_failure: "pool_tx pw now db (record_lifecycle_failure pw now rid e db)"
| pt_fulfill: "fulfill_pending_resource pw c now rid db = (y, db') \<Longrightarrow> pool_tx pw now db db'"
| pt_save: "save_step m m' i i' db = (z, db') \<Longrightarrow> pool_tx pw now db db'"
| pt_verified: "finish_verification d now loaded m m' i i' db = (z, db') \<Longrightarrow> pool_tx pw now db db'"
| pt_step_failed: "pool_tx pw now db (put_member mid (\<lambda>m. (case e of OpenAPIError code \<Rightarrow>
      m\<lparr>m_failure_reason := Some (openapi_record (failure_code e)), m_cloud_request_id := request_id\<rparr>
    | _ \<Rightarrow> m\<lparr>m_failure_reason := Some (failure_code e)\<rparr>)\<lparr>m_retry_count := m_retry_count m + 1\<rparr>) db)"
| pt_advanced: "owned_member pw mid db = Some m \<Longrightarrow>
    pool_tx pw now db (put_member mid (advanced_row pw now previous res) db)"
| pt_replacement: "reserve_replacement rd now db = (b, db') \<Longrightarrow> pool_tx pw now db db'"

inductive pool_moves :: "pool_worker \<Rightarrow> time \<Rightarrow> metadb \<Rightarrow> metadb \<Rightarrow> bool" for pw now where
  stays: "pool_moves pw now db db"
| commits: "pool_moves pw now a b \<Longrightarrow> pool_tx pw now b c \<Longrightarrow> pool_moves pw now a c"
| others: "pool_moves pw now a b \<Longrightarrow> pool_moves pw now a (pw_env pw k b)"

lemma pool_moves_invariant:
  assumes "pool_moves pw now db db'" and "P db"
    and "\<And>d d'. pool_tx pw now d d' \<Longrightarrow> P d \<Longrightarrow> P d'" and "\<And>k d. P d \<Longrightarrow> P (pw_env pw k d)"
  shows "P db'"
  using assms(1,2) by induction (auto intro: assms(3,4))

section \<open>The pieces of work\<close>

lemmas moves = stays commits others

lemma destroy_moves:
  assumes "destroy_deleting_member pw now mid db = (x, db')" and "pool_moves pw now a db"
  shows "pool_moves pw now a db'"
  using assms
  by (auto simp: destroy_deleting_member_def Let_def split: option.splits sum.splits
      intro: moves commits [OF others pt_destroy])

lemma process_sync_moves:
  "pool_moves pw now a db \<Longrightarrow> pool_moves pw now a (process_permission_sync_target pw now tid db)"
  unfolding process_permission_sync_target_def Let_def
  by (auto split: option.split sum.split intro: others commits [OF others pt_sync_failure]
      commits [OF others pt_synced] commits [OF others pt_in_sync])

lemma check_member_moves:
  "pool_moves pw now a db \<Longrightarrow> pool_moves pw now a (check_member pw now mid db)"
  by (auto simp: check_member_def split: option.split intro: commits [OF others pt_checked])

lemma advance_moves:
  assumes "advance cl repr o_rec q d now (pw_env pw) al mid db = (x, db')" and "pool_moves pw now a db"
  shows "pool_moves pw now a db'"
proof -
  obtain y db1 where once: "advance_once cl repr d now (pw_env pw 0) al mid db = (y, db1)"
    by (cases "advance_once cl repr d now (pw_env pw 0) al mid db")
  then have "pool_moves pw now a db1"
    using assms(2)
    by (auto simp: advance_once_def split: option.splits step_outcome.splits if_splits
        intro: others commits [OF others pt_save] commits [OF others pt_verified])
  then show ?thesis
    using assms(1) once commits [OF others pt_step_failed]
    by (auto simp: advance_def split: sum.splits)
qed

lemma advance_replenishing_moves:
  assumes "pool_moves pw now a db"
  shows "pool_moves pw now a (advance_replenishing_member pw o_rec q d now mid db)"
proof (cases "owned_member pw mid db")
  case None
  with assms show ?thesis by (simp add: advance_replenishing_member_def)
next
  case (Some m)
  obtain res db1 where adv: "advance (pw_cloud pw) (pw_repr pw) o_rec q d now (pw_env pw)
      (\<not> cfg_openapi_only (pw_config pw)) mid db = (res, db1)" by force
  then have "pool_moves pw now a (pw_env pw 2 db1)"
    using assms by (blast intro: others advance_moves)
  with Some adv show ?thesis
    by (auto simp: advance_replenishing_member_def Let_def split: option.split
        intro: commits [OF _ pt_advanced])
qed

lemma lifecycle_step_moves:
  assumes "lifecycle_step pw now rid m i step db = Inr db'" and "pool_moves pw now a db"
  shows "pool_moves pw now a db'"
  using assms
  by (auto simp: lifecycle_step_def Let_def bindE_Inr split: if_splits
      intro: commits [OF _ pt_cleanup] commits [OF _ pt_disconnect])

lemma record_outcome_moves:
  assumes "record_outcome pw now rid d y = (x, db')" and "pool_moves pw now a d"
    and "\<And>d'. y = Inr d' \<Longrightarrow> pool_moves pw now a d'"
  shows "pool_moves pw now a db'"
  using assms by (auto simp: record_outcome_def split: sum.splits
      intro: commits [OF others pt_lifecycle_failure])

lemma process_lifecycle_moves:
  assumes "process_lifecycle_resource pw now rid db = (x, db')" and "pool_moves pw now a db"
  shows "pool_moves pw now a db'"
proof -
  have b: "pool_moves pw now a (pw_env pw 0 db)" using assms(2) by (rule others)
  have "pool_moves pw now a (pw_env pw 1 d)" if "begin_dedicated_cleanup pw now rid (pw_env pw 0 db) = Inr (y, d)" for y d
    using commits [OF b pt_begin_cleanup [OF that]] by (rule others)
  moreover have "pool_moves pw now a d" if "begin_dedicated_cleanup pw now rid (pw_env pw 0 db) = Inr (y, d)" for y d
    using b pt_begin_cleanup [OF that] by (rule commits)
  moreover have "pool_moves pw now a d" if "finish_dedicated_restore pw rid (pw_env pw 0 db) = Inr d" for d
    using b pt_restore [OF that] by (rule commits)
  ultimately show ?thesis
    using assms b
    by (auto simp: process_lifecycle_resource_def Let_def bindE_Inr
        split: option.splits if_splits sum.splits prod.splits
        intro: commits [OF _ pt_lifecycle_failure]
        elim!: record_outcome_moves dest: lifecycle_step_moves)
qed

section \<open>One run\<close>

lemma claim_then_moves:
  assumes "claim_then pw k claim work continue db = (x, db')" and "pool_moves pw now a db"
    and "\<And>d c d'. claim d = (c, d') \<Longrightarrow> pool_tx pw now d d'"
    and "\<And>i d y d'. work i d = (y, d') \<Longrightarrow> pool_moves pw now a d \<Longrightarrow> pool_moves pw now a d'"
    and "\<And>d y d'. continue d = (y, d') \<Longrightarrow> pool_moves pw now a d \<Longrightarrow> pool_moves pw now a d'"
  shows "pool_moves pw now a db'"
proof (cases "claim db")
  case (Pair c db1)
  then have b: "pool_moves pw now a (pw_env pw k db1)" using assms(2,3) by (blast intro: moves)
  show ?thesis
  proof (cases c)
    case None
    with assms(1,5) Pair b show ?thesis by (simp add: claim_then_def)
  next
    case (Some i)
    with assms(1) Pair have "snd (work i (pw_env pw k db1)) = db'" by (auto simp: claim_then_def worked_def)
    with assms(4) b show ?thesis by (metis prod.collapse)
  qed
qed

lemma pool_run_once_moves:
  assumes "pool_run_once pw d now db = (res, db')"
  shows "pool_moves pw now db db'"
proof -
  let ?rest = "claim_then pw 14 (claim_health_check pw now)
      (\<lambda>mid db. (Inr (), check_member pw now mid db))
      (claim_then pw 15 (claim_pending_resource pw now)
        (fulfill_pending_resource pw (rn_credential_id d) now)
      (claim_then pw 16 (claim_replenishing_member pw now)
        (\<lambda>mid db. (Inr (), advance_replenishing_member pw (rn_openapi_record d) (rn_request_id d)
           (rn_member d) now mid db))
      (reserve_replacement (rn_replacement d) now)))"
  have second_half: "pool_moves pw now db d2" if "?rest d1 = (y, d2)" and "pool_moves pw now db d1" for y d1 d2
    using that
    by (elim claim_then_moves)
      (auto intro: pool_tx.intros check_member_moves advance_replenishing_moves
        commits [OF _ pt_fulfill] commits [OF _ pt_replacement])
  have expire: "pool_moves pw now db d2"
    if "(case mark_expired_evidence_stale now d1 of (True, db1) \<Rightarrow> (Inr True, db1)
       | (False, db1) \<Rightarrow> ?rest (pw_env pw 13 db1)) = (y, d2)"
    and "pool_moves pw now db d1" for y d1 d2
  proof -
    obtain c d3 where e: "mark_expired_evidence_stale now d1 = (c, d3)" by force
    with that(2) have "pool_moves pw now db d3" by (blast intro: commits pt_expire)
    with e that(1) second_half [of "pw_env pw 13 d3" y d2] others show ?thesis by (cases c) auto
  qed
  from assms stays show ?thesis
    unfolding pool_run_once_def
    by (elim claim_then_moves)
      (blast intro: expire pool_tx.intros process_lifecycle_moves destroy_moves
        dest: process_sync_moves | force dest: process_sync_moves)+
qed

end
