(* ===== verification/Pool_Ledger.thy ===== *)
theory Pool_Ledger
  imports Ledger_Spec Pool_Transactions
begin

text \<open>
  The capacity books under the pool worker: every transaction of \<open>pool_tx\<close> satisfies the contract
  \<open>books_keeper\<close>, so a run keeps the books balanced and moves along the ledger, and a reclaimed
  dedicated resource gives its capacity back once.
\<close>

lemma same_books_put_target: "same_books db (put_target tid f db)"
  by (rule same_books_frame) (simp_all add: put_target_def same_limits_def)

lemma same_books_put_job: "same_books db (put_job jid f db)"
  by (rule same_books_frame) (simp_all add: put_job_def same_limits_def)

lemma write_resource_identity: "same_identity (write_resource r r' cur) cur"
  by (simp add: same_identity_def write_resource_def)

lemma reclaimed_row_simps [simp]:
  "r_id (reclaimed_row now r) = r_id r"
  "r_owner_agent_id (reclaimed_row now r) = r_owner_agent_id r"
  "r_backend_id (reclaimed_row now r) = r_backend_id r"
  "r_client_token (reclaimed_row now r) = r_client_token r"
  "r_capacity_released_at (reclaimed_row now r) \<noteq> None"
  "r_status (reclaimed_row now r) = ST_DELETED" "r_delete_step (reclaimed_row now r) = DS_COMPLETE"
  "r_worker_id (reclaimed_row now r) = None"
  "r_credentials (reclaimed_row now r) = map wipe_credential (r_credentials r)"
  by (simp_all add: reclaimed_row_def clear_claim_def split: option.splits)

lemma finish_dedicated_cleanup_InrE:
  assumes "finish_dedicated_cleanup pw now rid sanitized db = Inr db'"
  obtains (same) "db' = db"
  | (hit) r m db1 where "get_resource db rid = Some r" "r_worker_id r = Some (pw_id pw)"
      "r_delete_step r = (if sanitized then DS_SANITIZE_DISPATCH else DS_PHYSICAL_DESTROY)"
      "member_of_resource db rid = Some m"
      "(if r_capacity_released_at r = None then release_active_capacity_counters
          (r_owner_agent_id r) (r_backend_id r) db else Inr db) = Inr db1"
      "db' = put_member (m_id m) (reclaimed_member sanitized) (put_resource rid (reclaimed_row now) db1)"
proof (cases "owned_resource pw rid db")
  case None
  with assms show ?thesis by (simp add: finish_dedicated_cleanup_def same)
next
  case (Some r)
  note r = this
  show ?thesis
  proof (cases "r_delete_step r = (if sanitized then DS_SANITIZE_DISPATCH else DS_PHYSICAL_DESTROY)")
    case False
    with assms r show ?thesis by (simp add: finish_dedicated_cleanup_def same)
  next
    case True
    with assms r obtain m where m: "member_of_resource db rid = Some m"
      by (auto simp: finish_dedicated_cleanup_def split: option.splits)
    with assms r True hit [of r m] show ?thesis
      by (auto simp: finish_dedicated_cleanup_def owned_resource_def bindE_Inr
          split: option.splits if_split_asm)
  qed
qed

context books_keeper
begin

text \<open>Writes that keep the books, on the state after earlier steps.\<close>

lemmas books_then = keep [OF same_books_put_member] keep [OF same_books_put]
  keep [OF same_books_put_instance] keep [OF same_books_put_target] keep [OF same_books_put_job]

text \<open>The transactions.\<close>

lemma claim_resource_by_books: "claim_resource_by due pw now db = (x, db') \<Longrightarrow> B db \<Longrightarrow> B db'"
  by (auto simp: claim_resource_by_def set_resource_claim_def same_identity_def split: option.splits
      intro!: books_then)

lemma claims_books:
  "claim_deleting_member pw now db = (x, db') \<Longrightarrow> B db \<Longrightarrow> B db'"
  "claim_permission_sync_target pw now db = (x, db') \<Longrightarrow> B db \<Longrightarrow> B db'"
  "claim_replenishing_member pw now db = (x, db') \<Longrightarrow> B db \<Longrightarrow> B db'"
  by (auto simp: claim_deleting_member_def claim_permission_sync_target_def
      claim_replenishing_member_def split: option.splits intro!: books_then)

lemma claim_check_in_books: "claim_check_in pw now ps db = (x, db') \<Longrightarrow> B db \<Longrightarrow> B db'"
  by (induction pw now ps db rule: claim_check_in.induct)
    (auto split: option.splits intro!: books_then)

lemma mark_expired_books: "mark_expired_evidence_stale now db = (c, db') \<Longrightarrow> B db \<Longrightarrow> B db'"
  by (rule keep [OF same_books_frame])
    (auto simp: mark_expired_evidence_stale_def same_limits_def split: prod.splits if_splits)

lemma refresh_books: "B db \<Longrightarrow> B (refresh_permission_sync_job jid db)"
  by (auto simp: refresh_permission_sync_job_def Let_def intro: books_then)

lemma write_synced_books: "B db \<Longrightarrow> B (write_synced t loaded v encoded db)"
  by (auto simp: write_synced_def Let_def same_identity_def split: option.splits intro!: books_then)

lemma save_step_books: "save_step m m' i i' db = (x, db') \<Longrightarrow> B db \<Longrightarrow> B db'"
  by (auto simp: save_step_def split: if_splits intro!: books_then)

lemma finish_verification_books:
  "finish_verification d now loaded m m' i i' db = (z, db') \<Longrightarrow> B db \<Longrightarrow> B db'"
  by (auto simp: finish_verification_def Let_def split: option.splits sum.splits prod.splits
      dest: save_step_books intro!: books_then write_resource_identity)

lemma fulfill_books:
  assumes "fulfill_pending_resource pw c now rid db = (x, db')" and "B db"
  shows "B db'"
proof -
  consider (same) "db' = db"
    | (failed) s w where "db' = put_resource rid (\<lambda>r. clear_claim (r\<lparr>r_status := s, r_failure_reason := w\<rparr>)) db"
    | (later) t where "db' = put_resource rid (\<lambda>r. clear_claim (r\<lparr>r_next_retry_at := t\<rparr>)) db"
    | (hit) r pid m m' r' db1 where "get_resource db rid = Some r"
        "claim_fresh_member pid rid now db = Inr (Some m, db1)"
        "activate_dedicated_member db1 c m r = Inr (m', r')"
        "db' = put_resource rid (\<lambda>_. clear_claim r') (put_member (m_id m) (\<lambda>_. m') db1)"
    using assms(1)
    by (auto simp: fulfill_pending_resource_def owned_resource_def
        split: option.splits sum.splits prod.splits if_splits dest!: claim_fresh_member_None)
  then show ?thesis
  proof cases
    case same
    then show ?thesis using assms(2) by simp
  next
    case failed
    show ?thesis unfolding failed using assms(2)
      by (intro books_then) (simp_all add: same_identity_def clear_claim_def)
  next
    case later
    show ?thesis unfolding later using assms(2)
      by (intro books_then) (simp_all add: same_identity_def clear_claim_def)
  next
    case hit
    from claim_fresh_member_resources [OF hit(2)] obtain f where
      f: "\<And>r. same_identity (f r) r" and rows: "resources db1 = tupd r_id rid f (resources db)"
      and cap: "capacities db1 = capacities db" by blast
    have s: "same_books db db1"
      using f claim_fresh_member_limits [OF hit(2)]
      by (auto simp: same_books_def cap rows intro: list_all2_tupd)
    have "get_resource db1 rid = Some (f r)"
      using hit(1) f by (simp add: rows tget_tupd same_identity_def)
    moreover have "same_identity (clear_claim r') (f r)"
      using activate_keeps(1) [OF hit(3)] f [of r] by (simp add: same_identity_def clear_claim_def)
    moreover have "B (put_member (m_id m) (\<lambda>_. m') db1)"
      using keep [OF s assms(2)] by (rule books_then(1))
    ultimately show ?thesis
      unfolding hit(4) by (intro keep_put_read [of _ _ "f r"]) simp_all
  qed
qed

lemma reserve_in_books: "reserve_in d now pids db = (x, db') \<Longrightarrow> B db \<Longrightarrow> B db'"
proof (induction pids)
  case (Cons pid pids)
  consider (rest) "reserve_in d now pids db = (x, db')" | (err) "db' = db"
    | (added) db1 where "reserve_member_purchase pid now PREWARM db = Inr (True, db1)"
        "add_replacement d now pid db1 = Inr db'"
    using Cons.prems(1) by (auto split: sum.splits prod.splits if_splits)
  then show ?case
  proof cases
    case rest
    then show ?thesis using Cons.IH Cons.prems(2) by blast
  next
    case err
    then show ?thesis using Cons.prems by simp
  next
    case added
    from reserve_member_purchase_frame [OF added(1)] obtain b where "db1 = db\<lparr>budgets := b\<rparr>" by blast
    with added(2) have "same_books db db'"
      by (intro same_books_frame)
        (auto simp: add_replacement_def insert_instance_def insert_member_def bindE_Inr same_limits_def
          split: if_splits)
    then show ?thesis using Cons.prems(2) by (rule keep)
  qed
qed simp

text \<open>Reclaiming a resource.\<close>

lemma reclaim_row_books:
  assumes "B db" and r: "get_resource db rid = Some r"
    and db1: "(if r_capacity_released_at r = None
      then release_active_capacity_counters (r_owner_agent_id r) (r_backend_id r) db else Inr db) = Inr db1"
  shows "B (put_resource rid (reclaimed_row now) db1)"
proof (cases "r_capacity_released_at r")
  case None
  with db1 have rel: "release_active_capacity_counters (r_owner_agent_id r) (r_backend_id r) db = Inr db1"
    by simp
  moreover from rel have "same_limits db db1"
    by (auto simp: release_active_capacity_counters_def locked_capacity_rows_eq same_limits_def split: if_splits)
  ultimately show ?thesis
    using assms(1) r None ledger.release_count [OF rel] ledger.release_rows [OF rel]
    by (intro release_keeps [of db rid r]) simp_all
next
  case (Some t)
  with assms show ?thesis
    by (auto simp: same_identity_def reclaimed_row_def clear_claim_def intro!: keep_put_read)
qed

lemma finish_cleanup_books:
  assumes "finish_dedicated_cleanup pw now rid sanitized db = Inr db'" and "B db"
  shows "B db'"
  using assms(1)
proof (cases rule: finish_dedicated_cleanup_InrE)
  case (hit r m db1)
  show ?thesis
    unfolding hit(6) by (rule books_then(1)) (rule reclaim_row_books [OF assms(2) hit(1,5)])
qed (simp add: assms(2))

lemma finish_disconnect_books:
  "finish_dedicated_disconnect pw now rid db = Inr db' \<Longrightarrow> B db \<Longrightarrow> B db'"
  by (auto simp: finish_dedicated_disconnect_def same_identity_def clear_claim_def reset_retries_def
      split: option.splits if_splits intro!: books_then)

lemma begin_cleanup_books:
  "begin_dedicated_cleanup pw now rid db = Inr (x, db') \<Longrightarrow> B db \<Longrightarrow> B db'"
  by (auto simp: begin_dedicated_cleanup_def same_identity_def clear_claim_def Let_def
      split: option.splits if_splits intro!: books_then)

lemma finish_dedicated_restore_books:
  "finish_dedicated_restore pw rid db = Inr db' \<Longrightarrow> B db \<Longrightarrow> B db'"
  by (auto simp: finish_dedicated_restore_def same_identity_def dedicated_restored_row_def
      clear_claim_def split: option.splits if_splits intro!: books_then)

lemma lifecycle_failure_books: "B db \<Longrightarrow> B (record_lifecycle_failure pw now rid e db)"
  by (auto simp: record_lifecycle_failure_def same_identity_def lifecycle_failed_row_def Let_def
      clear_claim_def split: option.splits intro!: books_then)

lemma pool_tx_keeps:
  assumes "pool_tx pw now db db'" and "B db"
  shows "B db'"
  using assms
proof (cases rule: pool_tx.cases)
  case (pt_sync_failure tid)
  with assms(2) show ?thesis
    by (auto simp: record_permission_sync_failure_def split: option.splits
        intro!: books_then refresh_books)
next
  case (pt_checked mid outcome)
  with assms(2) show ?thesis
    by (auto simp: finish_health_check_def split: option.splits intro!: books_then)
qed (auto simp: claim_lifecycle_resource_def claim_health_check_def claim_pending_resource_def
    reserve_replacement_def dest: claim_resource_by_books claims_books claim_check_in_books
      mark_expired_books begin_cleanup_books finish_cleanup_books finish_disconnect_books
      finish_dedicated_restore_books fulfill_books save_step_books finish_verification_books
      reserve_in_books
    intro: books_then refresh_books write_synced_books lifecycle_failure_books)

lemma pool_run_once_keeps:
  assumes "pool_run_once pw d now db = (res, db')" and "B db" and "\<And>k d. B d \<Longrightarrow> B (pw_env pw k d)"
  shows "B db'"
  by (rule pool_moves_invariant [OF pool_run_once_moves [OF assms(1)]])
    (use assms(2,3) pool_tx_keeps in auto)

end

text \<open>a run of the pool worker keeps the capacity books balanced whatever the cloud and the
  members' servers answer, and whatever other sessions commit in between, if they keep them
  balanced: the counter of every agent and of every backend stays the number of its resources that
  hold capacity. Whether the run ends with an error or not.\<close>

theorem pool_run_once_accounted:
  assumes "pool_run_once pw d now db = (res, db')"
    and "accounted active_count db" and "uniq r_id (resources db)"
    and "\<forall>k db. accounted active_count db \<and> uniq r_id (resources db) \<longrightarrow>
      accounted active_count (pw_env pw k db) \<and> uniq r_id (resources (pw_env pw k db))"
  shows "accounted active_count db' \<and> uniq r_id (resources db')"
  using balance.pool_run_once_keeps [OF assms(1)] assms(2-4) by (simp add: books_def)

text \<open>A worker alone with an example cloud and a given server.\<close>

definition quiet_worker :: "mysql_server \<Rightarrow> pool_worker" where
  "quiet_worker srv = \<lparr>pw_config = default_config, pw_id = ''w1'', pw_cloud = example_cloud\<lparr>cl_mysql := srv\<rparr>,
     pw_repr = (\<lambda>_. []), pw_env = (\<lambda>_ d. d)\<rparr>"

lemma quiet_worker_simps [simp]:
  "pw_env (quiet_worker srv) = (\<lambda>_ d. d)" "pw_id (quiet_worker srv) = ''w1''"
  "pw_config (quiet_worker srv) = default_config"
  "cl_mysql (pw_cloud (quiet_worker srv)) = srv" "cl_decrypt (pw_cloud (quiet_worker srv)) = Inr"
  by (simp_all add: quiet_worker_def example_cloud_def)

definition example_run_draws :: run_draws where
  "example_run_draws = \<lparr>rn_credential_id = ''c1'', rn_openapi_record = (\<lambda>s. s), rn_request_id = None,
     rn_member = example_member_draws,
     rn_replacement = \<lparr>rd_token = ''tok'', rd_instance_id = ''i9'', rd_member_id = ''m9''\<rparr>\<rparr>"

theorem pool_run_once_accounted_witness:
  "accounted active_count (snd (pool_run_once (quiet_worker sandbox_server) example_run_draws 0
     (example_books_db (claimed_example\<lparr>r_mode := MODE_DEDICATED\<rparr>))))"
  using pool_run_once_accounted [of "quiet_worker sandbox_server" example_run_draws 0
      "example_books_db (claimed_example\<lparr>r_mode := MODE_DEDICATED\<rparr>)"
      "fst (pool_run_once (quiet_worker sandbox_server) example_run_draws 0
         (example_books_db (claimed_example\<lparr>r_mode := MODE_DEDICATED\<rparr>)))"]
    example_books [of "claimed_example\<lparr>r_mode := MODE_DEDICATED\<rparr>"]
  by (simp add: books_def claimed_example_def)

end
