(* ===== verification/Pool_Lifecycle.thy ===== *)
theory Pool_Lifecycle
  imports Pool_Ledger
begin

text \<open>
  Deletion of dedicated resources by the pool worker: the cooldown before anything irreversible,
  the reclaiming of the resource and of its member, the whole way from an accepted deletion to the
  reclaimed member, and the case in which a deletion cannot get that far.
\<close>

section \<open>Cooldown\<close>

text \<open>Other sessions leave the row alone.\<close>

definition row_kept :: "string \<Rightarrow> pool_worker \<Rightarrow> bool" where
  "row_kept rid pw \<longleftrightarrow> (\<forall>k d. get_resource (pw_env pw k d) rid = get_resource d rid)"

named_theorems row_simps \<open>the row after a transaction of the pool worker\<close>

lemma failed_row_keeps [simp]:
  "r_id (lifecycle_failed_row pw now e r) = r_id r"
  "r_delete_step (lifecycle_failed_row pw now e r) = r_delete_step r"
  "r_capacity_released_at (lifecycle_failed_row pw now e r) = r_capacity_released_at r"
  by (simp_all add: lifecycle_failed_row_def clear_claim_def Let_def)

lemma failure_row [row_simps]:
  "get_resource (record_lifecycle_failure pw now rid e db) rid =
     (case get_resource db rid of None \<Rightarrow> None
      | Some r \<Rightarrow> Some (if r_worker_id r = Some (pw_id pw) then lifecycle_failed_row pw now e r else r))"
  by (simp add: record_lifecycle_failure_def owned_resource_def Let_def tget_tupd split: option.split)

lemma failure_delete_step:
  "get_resource (record_lifecycle_failure pw now rid e db) rid = Some r' \<Longrightarrow>
   \<exists>r. get_resource db rid = Some r \<and> r_delete_step r' = r_delete_step r"
  by (auto simp: failure_row split: option.splits if_splits)

lemma finish_cleanup_step:
  assumes "finish_dedicated_cleanup pw now rid s db = Inr db'"
    and "get_resource db rid = Some r" and "\<not> irreversible_step (r_delete_step r)"
  shows "db' = db"
  using assms(1)
proof (cases rule: finish_dedicated_cleanup_InrE)
  case (hit r0 m db1)
  with assms(2,3) show ?thesis by (auto simp: irreversible_step_def split: if_splits)
qed

lemma lifecycle_step_reversible:
  assumes "lifecycle_step pw now rid m i step db = Inr db'"
    and "get_resource db rid = Some r" and "\<not> irreversible_step (r_delete_step r)"
    and "get_resource db' rid = Some r'"
  shows "\<not> irreversible_step (r_delete_step r')"
proof -
  consider "\<exists>s. finish_dedicated_cleanup pw now rid s db = Inr db'"
    | "finish_dedicated_disconnect pw now rid db = Inr db'"
    using assms(1) by (auto simp: lifecycle_step_def Let_def bindE_Inr split: if_splits)
  then show ?thesis
  proof cases
    case 1
    with finish_cleanup_step [OF _ assms(2,3)] assms(2-4) show ?thesis by fastforce
  next
    case 2
    with assms(2-4) show ?thesis
      by (auto simp: finish_dedicated_disconnect_def owned_resource_def tget_tupd clear_claim_def
          reset_retries_def irreversible_step_def split: option.splits if_splits)
  qed
qed

lemma finish_restore_reversible:
  assumes "finish_dedicated_restore pw rid db = Inr db'"
    and "get_resource db rid = Some r" and "\<not> irreversible_step (r_delete_step r)"
    and "get_resource db' rid = Some r'"
  shows "\<not> irreversible_step (r_delete_step r')"
  using assms
  by (auto simp: finish_dedicated_restore_def owned_resource_def tget_tupd dedicated_restored_row_def
      clear_claim_def irreversible_step_def split: option.splits if_splits)

text \<open>The end of a run: a step that fails leaves a failure record.\<close>

lemma recorded_reversible:
  assumes "record_outcome pw now rid d x = (res, db')"
    and "row_kept rid pw" and "get_resource d rid = Some r" and "\<not> irreversible_step (r_delete_step r)"
    and "\<And>d'. x = Inr d' \<Longrightarrow> get_resource d' rid = Some r' \<Longrightarrow> \<not> irreversible_step (r_delete_step r')"
    and "get_resource db' rid = Some r'"
  shows "\<not> irreversible_step (r_delete_step r')"
proof (cases x)
  case (Inl e)
  with assms(1,6) obtain r0 where "get_resource (pw_env pw 2 d) rid = Some r0"
    "r_delete_step r' = r_delete_step r0"
    by (auto simp: record_outcome_def dest: failure_delete_step)
  with assms(2-4) show ?thesis by (simp add: row_kept_def)
next
  case (Inr d')
  with assms(1,5,6) show ?thesis by (simp add: record_outcome_def)
qed

lemma begin_cleanup_cases:
  assumes "begin_dedicated_cleanup pw now rid db = Inr (x, db')" and "get_resource db rid = Some r"
  obtains (refused) r' where "x = None" "get_resource db' rid = Some r'" "r_delete_step r' = r_delete_step r"
  | (begun) until m where "x = Some (cleanup_step_of r)" "r_status r = ST_COOLING_DOWN"
      "r_disconnected_at r \<noteq> None" "r_cooldown_until r = Some until" "until \<le> now"
      "r_worker_id r = Some (pw_id pw)" "member_of_resource db rid = Some m"
      "db' = put_member (m_id m) (\<lambda>m. m\<lparr>m_status :=
           (if cleanup_step_of r = DS_SANITIZE_DISPATCH then MS_SANITIZING else MS_DELETING)\<rparr>)
         (put_resource rid (\<lambda>r0. r0\<lparr>r_status := ST_DELETING, r_delete_step := cleanup_step_of r\<rparr>) db)"
  using assms
  by (fastforce simp: begin_dedicated_cleanup_def owned_resource_def Let_def tget_tupd clear_claim_def
      split: option.splits if_splits)

text \<open>A run that gets to the guarded part, by the status of the resource.\<close>

lemma process_lifecycle_cases:
  assumes "process_lifecycle_resource pw now rid db = (res, db')" and "get_resource db rid = Some r"
  obtains (aborted) "db' = db"
  | (no_member) e where "db' = record_lifecycle_failure pw now rid e (pw_env pw 0 db)"
  | (restoring) m where "r_status r = ST_RESTORING"
      "record_outcome pw now rid (pw_env pw 0 db) (bindE (fst (restore (cl_mysql (pw_cloud pw))
         (cl_decrypt (pw_cloud pw)) (pw_repr pw) m [])) (\<lambda>_. finish_dedicated_restore pw rid (pw_env pw 0 db)))
       = (res, db')"
  | (cooling_error) e where "r_status r = ST_COOLING_DOWN"
      "record_outcome pw now rid (pw_env pw 0 db) (Inl e) = (res, db')"
  | (cooling) x d1 where "r_status r = ST_COOLING_DOWN"
      "begin_dedicated_cleanup pw now rid (pw_env pw 0 db) = Inr (x, d1)" "x = None \<longrightarrow> db' = d1"
  | (step) m i where
      "record_outcome pw now rid (pw_env pw 0 db)
         (lifecycle_step pw now rid m i (r_delete_step r) (pw_env pw 0 db)) = (res, db')"
proof -
  consider "db' = db \<or> (\<exists>e. db' = record_lifecycle_failure pw now rid e (pw_env pw 0 db))"
    | (run) m i where "owned_resource pw rid db = Some r" "member_of_resource db rid = Some m"
        "get_instance db (m_instance_id m) = Some i"
    using assms by (auto simp: process_lifecycle_resource_def owned_resource_def split: option.splits if_splits)
  then show thesis
  proof cases
    case 1
    then show ?thesis using aborted no_member by blast
  next
    case (run m i)
    consider "r_status r = ST_RESTORING" | "r_status r = ST_COOLING_DOWN"
      | "r_status r \<noteq> ST_RESTORING" "r_status r \<noteq> ST_COOLING_DOWN" by blast
    then show ?thesis
    proof cases
      case 1
      with assms(1) run restoring [of m] show ?thesis by (simp add: process_lifecycle_resource_def Let_def)
    next
      case 2
      with assms(1) run cooling cooling_error show ?thesis
        by (cases "begin_dedicated_cleanup pw now rid (pw_env pw 0 db)")
          (auto simp: process_lifecycle_resource_def Let_def split: prod.splits option.splits)
    next
      case 3
      with assms(1) run step [of m i] show ?thesis by (simp add: process_lifecycle_resource_def Let_def)
    qed
  qed
qed

text \<open>the data of a dedicated resource is destroyed only after its cooldown. A run of the worker
  on a resource, during which other sessions leave that row alone, takes it over the irreversible
  boundary only if the resource was cooling down, disconnected, and its cooldown was over at the
  time of the run.\<close>

theorem dedicated_cleanup_after_cooldown:
  assumes "process_lifecycle_resource pw now rid db = (res, db')" and "row_kept rid pw"
    and "get_resource db rid = Some r" and "get_resource db' rid = Some r'"
    and "\<not> irreversible_step (r_delete_step r)" and "irreversible_step (r_delete_step r')"
  shows "r_status r = ST_COOLING_DOWN \<and> r_disconnected_at r \<noteq> None
    \<and> (\<exists>until. r_cooldown_until r = Some until \<and> until \<le> now)"
proof (rule ccontr)
  assume no: "\<not> ?thesis"
  have kept: "get_resource (pw_env pw k d) rid = get_resource d rid" for k d
    using assms(2) by (simp add: row_kept_def)
  then have row: "get_resource (pw_env pw 0 db) rid = Some r" using assms(3) by simp
  note ends = recorded_reversible [OF _ assms(2) row assms(5) _ assms(4)]
  from assms(1,3) have "\<not> irreversible_step (r_delete_step r')"
  proof (cases rule: process_lifecycle_cases)
    case (restoring m)
    from restoring(2) show ?thesis
      by (rule ends) (auto simp: bindE_Inr dest: finish_restore_reversible [OF _ row assms(5)])
  next
    case (cooling_error e)
    from cooling_error(2) show ?thesis by (rule ends) simp
  next
    case (cooling x d1)
    from cooling(2) row show ?thesis
    proof (cases rule: begin_cleanup_cases)
      case (refused r1)
      with cooling(3) assms(4,5) show ?thesis by simp
    next
      case begun
      with no show ?thesis by simp
    qed
  next
    case (step m i)
    then show ?thesis by (rule ends) (rule lifecycle_step_reversible [OF _ row assms(5)])
  qed (use assms(3-5) kept in \<open>auto dest: failure_delete_step\<close>)
  with assms(6) show False by contradiction
qed

section \<open>Reclaiming\<close>

lemma put_member_of_resource:
  assumes "uniq m_id (members db)" and "member_of_resource db rid = Some m"
    and "\<And>x. m_id (f x) = m_id x"
  shows "get_member (put_member (m_id m) f db) (m_id m) = Some (f m)"
proof -
  have "m \<in> set (members db)" using member_of_resource_SomeD [OF assms(2)] by blast
  then have "get_member db (m_id m) = Some m" using assms(1) by (simp add: tget_uniq)
  then show ?thesis using assms(3) by (simp add: put_member_def tget_tupd)
qed

lemma reclaimed_row_released [simp]: "\<exists>t. r_capacity_released_at (reclaimed_row now r) = Some t"
  by (cases "r_capacity_released_at r") (simp_all add: reclaimed_row_def clear_claim_def)

lemma reclaimed_member_id [simp]: "m_id (reclaimed_member s m) = m_id m"
  by (simp add: reclaimed_member_def Let_def)

definition scrubbed :: "pool_member \<Rightarrow> bool" where
  "scrubbed m \<longleftrightarrow> m_status m = MS_REPLENISHING \<and> m_allocated_resource_id m = None
     \<and> m_sandbox_username_ciphertext m = None \<and> m_sandbox_password_ciphertext m = None
     \<and> m_database_name m = None \<and> m_permission_snapshot_json m = None
     \<and> m_preparation_step m = PREP_LIFECYCLE_ACCOUNT_CREATED
     \<and> (\<forall>cutoff. \<not> member_allocatable cutoff m)"

lemma reclaimed_member_cases:
  "scrubbed (reclaimed_member True m)"
  "m_status (reclaimed_member False m) = MS_DELETED"
  "m_allocated_resource_id (reclaimed_member s m) = None"
  by (simp_all add: scrubbed_def reclaimed_member_def Let_def member_allocatable_def)

lemma finish_cleanup_succeeds:
  assumes "owned_resource pw rid db = Some r"
    and "r_delete_step r = (if sanitized then DS_SANITIZE_DISPATCH else DS_PHYSICAL_DESTROY)"
    and "member_of_resource db rid = Some m" and "books db"
  obtains db1 where "finish_dedicated_cleanup pw now rid sanitized db =
       Inr (put_member (m_id m) (reclaimed_member sanitized) (put_resource rid (reclaimed_row now) db1))"
    and "(if r_capacity_released_at r = None
      then release_active_capacity_counters (r_owner_agent_id r) (r_backend_id r) db else Inr db) = Inr db1"
    and "members db1 = members db" and "resources db1 = resources db"
proof (cases "r_capacity_released_at r")
  case None
  have "r \<in> set (resources db)"
    using assms(1) by (auto simp: owned_resource_def split: option.splits if_splits dest: tget_SomeD)
  then obtain db1 where rel: "release_active_capacity_counters (r_owner_agent_id r) (r_backend_id r) db = Inr db1"
    using ledger.release_succeeds [OF _ _ None] assms(4) by (auto simp: books_def)
  moreover have "members db1 = members db"
    using rel by (auto simp: release_active_capacity_counters_def locked_capacity_rows_eq split: if_splits)
  ultimately show ?thesis
    using that [of db1] assms None ledger.release_rows [OF rel]
    by (simp add: finish_dedicated_cleanup_def)
next
  case (Some t)
  with that [of db] assms show ?thesis by (simp add: finish_dedicated_cleanup_def)
qed

text \<open>the transaction that reclaims a dedicated resource succeeds and does all of it. The
  resource is deleted, its access credentials are revoked and their secrets erased, the counters of
  its agent and of its backend go down by one if and only if it still held capacity, and the member
  is detached: destroyed, or scrubbed of the tenant's account, database and permissions, back in
  preparation and not allocatable at any time. Repeating the transaction changes nothing.\<close>

theorem dedicated_reclaim_complete:
  assumes "accounted active_count db" and "uniq r_id (resources db)" and "uniq m_id (members db)"
    and "owned_resource pw rid db = Some r" and "member_of_resource db rid = Some m"
    and "r_delete_step r = (if sanitized then DS_SANITIZE_DISPATCH else DS_PHYSICAL_DESTROY)"
  shows "\<exists>db' r' m'. finish_dedicated_cleanup pw now rid sanitized db = Inr db'
    \<and> get_resource db' rid = Some r' \<and> get_member db' (m_id m) = Some m'
    \<and> r_status r' = ST_DELETED \<and> r_capacity_released_at r' \<noteq> None
    \<and> (\<forall>c \<in> set (r_credentials r'). c_purpose c = RESOURCE_ACCESS \<longrightarrow>
         c_status c = CRED_REVOKED \<and> c_username_ciphertext c = None \<and> c_password_ciphertext c = None)
    \<and> active_count db' ''agent'' (r_owner_agent_id r) =
        active_count db ''agent'' (r_owner_agent_id r) - of_bool (r_capacity_released_at r = None)
    \<and> active_count db' ''backend'' (r_backend_id r) =
        active_count db ''backend'' (r_backend_id r) - of_bool (r_capacity_released_at r = None)
    \<and> m_allocated_resource_id m' = None
    \<and> (if sanitized then scrubbed m' else m_status m' = MS_DELETED)
    \<and> finish_dedicated_cleanup pw later rid sanitized db' = Inr db'"
proof -
  from assms(1,2) have "books db" by (simp add: books_def)
  then obtain db1 where fin: "finish_dedicated_cleanup pw now rid sanitized db =
       Inr (put_member (m_id m) (reclaimed_member sanitized) (put_resource rid (reclaimed_row now) db1))"
      (is "_ = Inr ?db'")
    and rel: "(if r_capacity_released_at r = None
      then release_active_capacity_counters (r_owner_agent_id r) (r_backend_id r) db else Inr db) = Inr db1"
    and rows: "members db1 = members db" "resources db1 = resources db"
    using finish_cleanup_succeeds [OF assms(4,6,5)] by blast
  have r: "get_resource db rid = Some r"
    using assms(4) by (auto simp: owned_resource_def split: option.splits if_splits)
  then have r': "get_resource ?db' rid = Some (reclaimed_row now r)"
    by (simp add: tget_tupd rows)
  have "member_of_resource (put_resource rid (reclaimed_row now) db1) rid = Some m"
    using assms(5) by (simp add: member_of_resource_def rows)
  then have m': "get_member ?db' (m_id m) = Some (reclaimed_member sanitized m)"
    using assms(3) by (intro put_member_of_resource) (simp_all add: rows)
  have counts: "active_count ?db' st sid = active_count db1 st sid" for st sid
    by (simp add: active_count_def)
  have "active_count db1 ''agent'' (r_owner_agent_id r) =
        active_count db ''agent'' (r_owner_agent_id r) - of_bool (r_capacity_released_at r = None)"
    "active_count db1 ''backend'' (r_backend_id r) =
        active_count db ''backend'' (r_backend_id r) - of_bool (r_capacity_released_at r = None)"
    using rel ledger.release_count by (auto split: if_splits)
  moreover have "owned_resource pw rid ?db' = None"
    unfolding owned_resource_def r' by simp
  then have "finish_dedicated_cleanup pw later rid sanitized ?db' = Inr ?db'"
    unfolding finish_dedicated_cleanup_def by simp
  ultimately show ?thesis
    using fin r' m' reclaimed_member_cases by (auto simp: counts wipe_credential_def)
qed

section \<open>From the request to the reclaimed member\<close>

lemma member_of_put_resource [simp]:
  "member_of_resource (put_resource k f db) rid = member_of_resource db rid"
  by (simp add: member_of_resource_def)

lemma member_of_resource_put:
  assumes "member_of_resource db rid = Some m"
    and "\<And>x. m_allocated_resource_id (f x) = m_allocated_resource_id x"
  shows "member_of_resource (put_member (m_id m) f db) rid = Some (f m)"
proof -
  have "find (\<lambda>m. m_allocated_resource_id m = Some rid) (tupd m_id (m_id m) f rows) = Some (f m)"
    if "find (\<lambda>m. m_allocated_resource_id m = Some rid) rows = Some m" for rows
    using that assms(2) by (induction rows) (auto split: if_splits)
  with assms(1) show ?thesis by (simp add: member_of_resource_def put_member_def)
qed

lemma remote_calls_status [simp]:
  "disconnect srv dec (m\<lparr>m_status := s\<rparr>) = disconnect srv dec m"
  "drop_sandbox srv dec (m\<lparr>m_status := s\<rparr>) = drop_sandbox srv dec m"
  by (simp_all add: disconnect_def drop_sandbox_def required_def credentials_complete_def)

definition disconnected_row :: "time \<Rightarrow> int \<Rightarrow> resource \<Rightarrow> resource" where
  "disconnected_row now h r = clear_claim ((reset_retries r)
     \<lparr>r_disconnected_at := Some now, r_cooldown_until := Some (now + hours h),
      r_status := ST_COOLING_DOWN, r_delete_step := DS_COOLING_DOWN\<rparr>)"

lemma disconnected_row_simps [simp]:
  "r_id (disconnected_row now h r) = r_id r" "r_status (disconnected_row now h r) = ST_COOLING_DOWN"
  "r_cooldown_until (disconnected_row now h r) = Some (now + hours h)"
  "r_disconnected_at (disconnected_row now h r) = Some now"
  "r_worker_id (disconnected_row now h r) = None"
  "r_reclaim_policy (disconnected_row now h r) = r_reclaim_policy r"
  by (simp_all add: disconnected_row_def clear_claim_def reset_retries_def)

text \<open>What a deletion needs from outside: the member's server locks the account and ends its
  sessions, and then the sandbox can be dropped or the cluster deleted.\<close>

definition lets_go :: "cloud \<Rightarrow> pool_member \<Rightarrow> instance_row \<Rightarrow> resource \<Rightarrow> bool" where
  "lets_go cl m i r \<longleftrightarrow> fst (disconnect (cl_mysql cl) (cl_decrypt cl) m []) = Inr ()
     \<and> (if r_reclaim_policy r = Some SANITIZE_AND_REUSE
        then fst (drop_sandbox (cl_mysql cl) (cl_decrypt cl) m []) = Inr ()
        else delete_cluster cl i = Inr ())"

lemma dedicated_disconnect_run:
  assumes "pw_env pw = (\<lambda>_ d. d)" and "owned_resource pw rid db = Some r"
    and "r_status r = ST_DELETING" and "\<not> irreversible_step (r_delete_step r)"
    and "r_cooldown_hours r = Some h" and "member_of_resource db rid = Some m"
    and "get_instance db (m_instance_id m) = Some i" and "lets_go (pw_cloud pw) m i r"
  shows "process_lifecycle_resource pw now rid db =
    (Inr (), put_member (m_id m) (\<lambda>m. m\<lparr>m_status := MS_COOLING_DOWN\<rparr>)
       (put_resource rid (disconnected_row now h) db))"
  using assms
  by (simp add: process_lifecycle_resource_def lifecycle_step_def lets_go_def record_outcome_def Let_def
      irreversible_step_def finish_dedicated_disconnect_def disconnected_row_def [abs_def])

lemma dedicated_cleanup_run:
  assumes "pw_env pw = (\<lambda>_ d. d)" and "owned_resource pw rid db = Some r" and "books db"
    and "r_status r = ST_COOLING_DOWN" and "r_disconnected_at r \<noteq> None"
    and "r_cooldown_until r = Some until" and "until \<le> now"
    and "member_of_resource db rid = Some m" and "uniq m_id (members db)"
    and "get_instance db (m_instance_id m) = Some i" and "lets_go (pw_cloud pw) m i r"
  shows "\<exists>db' r' m'. process_lifecycle_resource pw now rid db = (Inr (), db')
    \<and> get_resource db' rid = Some r' \<and> get_member db' (m_id m) = Some m'
    \<and> r_status r' = ST_DELETED \<and> r_delete_step r' = DS_COMPLETE \<and> r_capacity_released_at r' \<noteq> None
    \<and> m_allocated_resource_id m' = None
    \<and> (if r_reclaim_policy r = Some SANITIZE_AND_REUSE then scrubbed m' else m_status m' = MS_DELETED)"
proof -
  let ?s = "r_reclaim_policy r = Some SANITIZE_AND_REUSE"
  let ?status = "if ?s then MS_SANITIZING else MS_DELETING"
  let ?db2 = "put_member (m_id m) (\<lambda>m. m\<lparr>m_status := ?status\<rparr>)
     (put_resource rid (\<lambda>r0. r0\<lparr>r_status := ST_DELETING, r_delete_step := cleanup_step_of r\<rparr>) db)"
  let ?r = "r\<lparr>r_status := ST_DELETING, r_delete_step := cleanup_step_of r\<rparr>"
  let ?m = "m\<lparr>m_status := ?status\<rparr>"
  have step: "cleanup_step_of r = (if ?s then DS_SANITIZE_DISPATCH else DS_PHYSICAL_DESTROY)"
    by (simp add: cleanup_step_of_def)
  have begin_ok: "begin_dedicated_cleanup pw now rid db = Inr (Some (cleanup_step_of r), ?db2)"
    using assms(2,4-8) by (auto simp: begin_dedicated_cleanup_def Let_def step)
  have owned: "owned_resource pw rid ?db2 = Some ?r"
    using assms(2) by (auto simp: owned_resource_def tget_tupd split: option.splits if_splits)
  have mem: "member_of_resource ?db2 rid = Some ?m"
    using assms(8) by (intro member_of_resource_put) simp_all
  have "r_delete_step ?r = (if ?s then DS_SANITIZE_DISPATCH else DS_PHYSICAL_DESTROY)"
    by (simp add: step)
  from finish_cleanup_succeeds [OF owned this mem balance.begin_cleanup_books [OF begin_ok assms(3)]]
  obtain db3 where fin: "finish_dedicated_cleanup pw now rid ?s ?db2 =
       Inr (put_member (m_id m) (reclaimed_member ?s) (put_resource rid (reclaimed_row now) db3))"
      (is "_ = Inr ?db'")
    and rows: "members db3 = members ?db2" "resources db3 = resources ?db2" by auto
  have "lifecycle_step pw now rid m i (cleanup_step_of r) ?db2 = Inr ?db'"
    using assms(11) fin by (simp add: lifecycle_step_def lets_go_def step Let_def split: if_splits)
  then have "process_lifecycle_resource pw now rid db = (Inr (), ?db')"
    using assms(1,2,4,8,10) begin_ok
    by (simp add: process_lifecycle_resource_def record_outcome_def Let_def)
  moreover have "get_resource ?db' rid = Some (reclaimed_row now ?r)"
    using owned by (auto simp: owned_resource_def tget_tupd rows split: option.splits if_splits)
  moreover have "member_of_resource (put_resource rid (reclaimed_row now) db3) rid = Some ?m"
    using mem by (simp add: member_of_resource_def rows)
  then have "get_member ?db' (m_id ?m) = Some (reclaimed_member ?s ?m)"
    using assms(9)
    by (subst put_member_of_resource [symmetric, of "put_resource rid (reclaimed_row now) db3" rid ?m])
      (simp_all add: rows put_member_def uniq_tupd)
  ultimately show ?thesis
    using reclaimed_member_cases by auto
qed

text \<open>C31: a deletion of a dedicated resource completes. When the member's server and the cloud do
  what they are asked, the worker that holds the claim disconnects the account and starts the
  cooldown; and when a worker has claimed the resource again after the cooldown, its run ends with
  the resource deleted, its capacity released and the member detached and destroyed or scrubbed,
  as the reclaim policy says.\<close>

theorem dedicated_deletion_completes:
  assumes "pw_env pw = (\<lambda>_ d. d)" and "accounted active_count db" and "uniq r_id (resources db)"
    and "uniq m_id (members db)" and "owned_resource pw rid db = Some r"
    and "r_status r = ST_DELETING" and "\<not> irreversible_step (r_delete_step r)"
    and "r_cooldown_hours r = Some h" and "member_of_resource db rid = Some m"
    and "get_instance db (m_instance_id m) = Some i" and "lets_go (pw_cloud pw) m i r"
    and "now + hours h \<le> later"
  shows "\<exists>db1 r1 db2 r2 m2. process_lifecycle_resource pw now rid db = (Inr (), db1)
    \<and> get_resource db1 rid = Some r1 \<and> r_status r1 = ST_COOLING_DOWN
    \<and> r_cooldown_until r1 = Some (now + hours h)
    \<and> process_lifecycle_resource pw later rid
        (put_resource rid (set_resource_claim (Some (pw_id pw)) lease) db1) = (Inr (), db2)
    \<and> get_resource db2 rid = Some r2 \<and> get_member db2 (m_id m) = Some m2
    \<and> r_status r2 = ST_DELETED \<and> r_capacity_released_at r2 \<noteq> None
    \<and> m_allocated_resource_id m2 = None
    \<and> (if r_reclaim_policy r = Some SANITIZE_AND_REUSE then scrubbed m2 else m_status m2 = MS_DELETED)"
proof -
  have r: "get_resource db rid = Some r"
    using assms(5) by (auto simp: owned_resource_def split: option.splits if_splits)
  let ?db1 = "put_member (m_id m) (\<lambda>m. m\<lparr>m_status := MS_COOLING_DOWN\<rparr>)
       (put_resource rid (disconnected_row now h) db)"
  let ?r1 = "disconnected_row now h r"
  let ?db1' = "put_resource rid (set_resource_claim (Some (pw_id pw)) lease) ?db1"
  let ?r1' = "set_resource_claim (Some (pw_id pw)) lease ?r1"
  let ?m1 = "m\<lparr>m_status := MS_COOLING_DOWN\<rparr>"
  note first = dedicated_disconnect_run [OF assms(1,5-11), of now]
  have r1: "get_resource ?db1 rid = Some ?r1"
    using r by (simp add: tget_tupd)
  have owned: "owned_resource pw rid ?db1' = Some ?r1'"
    using r by (simp add: owned_resource_def tget_tupd set_resource_claim_def)
  have mem: "member_of_resource ?db1' rid = Some ?m1"
    using assms(9) by (simp add: member_of_resource_put)
  have "books ?db1'"
    using assms(2,3)
    by (intro balance.books_then) (simp_all add: books_def same_identity_def set_resource_claim_def
        disconnected_row_def clear_claim_def reset_retries_def)
  moreover have "lets_go (pw_cloud pw) ?m1 i ?r1'"
    using assms(11) by (simp add: lets_go_def set_resource_claim_def)
  moreover have "uniq m_id (members ?db1')"
    using assms(4) by (simp add: put_member_def uniq_tupd)
  ultimately obtain db2 r2 m2 where second: "process_lifecycle_resource pw later rid ?db1' = (Inr (), db2)"
    "get_resource db2 rid = Some r2" "get_member db2 (m_id m) = Some m2" "r_status r2 = ST_DELETED"
    "r_capacity_released_at r2 \<noteq> None" "m_allocated_resource_id m2 = None"
    "if r_reclaim_policy r = Some SANITIZE_AND_REUSE then scrubbed m2 else m_status m2 = MS_DELETED"
    using dedicated_cleanup_run [OF assms(1) owned, of "now + hours h" later ?m1 i] mem assms(10,12)
    by (auto simp: set_resource_claim_def)
  have "r_status ?r1 = ST_COOLING_DOWN" "r_cooldown_until ?r1 = Some (now + hours h)" by simp_all
  with first r1 second show ?thesis by blast
qed

section \<open>Deletions that cannot disconnect\<close>

text \<open>One turn of the worker on a resource: if it is due, the worker claims it and processes it.\<close>

definition lifecycle_turn :: "pool_worker \<Rightarrow> string \<Rightarrow> time \<Rightarrow> metadb \<Rightarrow> metadb" where
  "lifecycle_turn pw rid t db =
     (case get_resource db rid of None \<Rightarrow> db
      | Some r \<Rightarrow> if lifecycle_due t r
          then snd (process_lifecycle_resource pw t rid (put_resource rid
                 (set_resource_claim (Some (pw_id pw)) (Some (pool_lease pw t))) db))
          else db)"

text \<open>The state of a deletion whose member has not got its credentials.\<close>

definition unprepared :: "string \<Rightarrow> pool_member \<Rightarrow> instance_row \<Rightarrow> metadb \<Rightarrow> resource \<Rightarrow> bool" where
  "unprepared rid m i db r \<longleftrightarrow> get_resource db rid = Some r
     \<and> r_status r \<in> {ST_DELETING, ST_DELETE_FAILED} \<and> \<not> irreversible_step (r_delete_step r)
     \<and> member_of_resource db rid = Some m \<and> get_instance db (m_instance_id m) = Some i
     \<and> \<not> credentials_complete m"

lemma unprepared_turn:
  assumes "pw_env pw = (\<lambda>_ d. d)" and "unprepared rid m i db r" and "lifecycle_due t r"
  shows "\<exists>r'. unprepared rid m i (lifecycle_turn pw rid t db) r'
    \<and> members (lifecycle_turn pw rid t db) = members db
    \<and> capacities (lifecycle_turn pw rid t db) = capacities db
    \<and> r_capacity_released_at r' = r_capacity_released_at r \<and> r_retry_count r' = r_retry_count r + 1
    \<and> r_status r' = (if r_retry_count r + 1 > cfg_worker_max_retries (pw_config pw)
        then ST_DELETE_FAILED else ST_DELETING)"
proof -
  let ?f = "lifecycle_failed_row pw t incomplete_error"
  let ?c = "set_resource_claim (Some (pw_id pw)) (Some (pool_lease pw t))"
  let ?db = "put_resource rid ?c db"
  note u = assms(2) [unfolded unprepared_def]
  from u assms(3) have st: "r_status r = ST_DELETING" by (auto simp: lifecycle_due_def)
  have "process_lifecycle_resource pw t rid ?db = (Inr (), put_resource rid ?f ?db)"
    using u assms(1) st
    by (simp add: process_lifecycle_resource_def lifecycle_step_def record_outcome_def Let_def owned_resource_def
        tget_tupd set_resource_claim_def irreversible_step_def incomplete_errors record_lifecycle_failure_def
        member_of_resource_def)
  then have turn: "lifecycle_turn pw rid t db = put_resource rid ?f ?db"
    using u assms(3) by (simp add: lifecycle_turn_def)
  have "unprepared rid m i (put_resource rid ?f ?db) (?f (?c r))"
    using u st by (auto simp: unprepared_def tget_tupd set_resource_claim_def lifecycle_failed_row_def
        clear_claim_def Let_def member_of_resource_def)
  then show ?thesis
    unfolding turn using st
    by (intro exI [of _ "?f (?c r)"])
      (auto simp: set_resource_claim_def lifecycle_failed_row_def clear_claim_def Let_def put_resource_def)
qed

text \<open>C39: a dedicated resource that is deleted while its member is still being prepared is not
  reclaimed by the worker. Without the complete credentials of the member no server and no cloud makes a
  difference. However many turns the worker takes, at whatever times, when no other session interferes:
  members and capacity counters stay as they are, the resource still holds its capacity, every turn
  at which it is due counts one failure more, and once the retries are used up it is left in
  \<open>DELETE_FAILED\<close>. From then on no work is due: not on the resource (lifecycle, allocation), and at no time
  on the member, whose cluster is billed (destruction, preparation, health check). Only a new request
  of the user changes that.\<close>

theorem unprepared_deletion_sticks:
  assumes "pw_env pw = (\<lambda>_ d. d)" and "get_resource db rid = Some r"
    and "r_status r = ST_DELETING" and "\<not> irreversible_step (r_delete_step r)"
    and "member_of_resource db rid = Some m" and "get_instance db (m_instance_id m) = Some i"
    and "\<not> credentials_complete m" and "m_status m = MS_DELETING"
    and "r_retry_count r \<le> cfg_worker_max_retries (pw_config pw)"
    and "db' = fold (lifecycle_turn pw rid) turns db"
  shows "\<exists>r'. get_resource db' rid = Some r' \<and> members db' = members db \<and> capacities db' = capacities db
    \<and> r_capacity_released_at r' = r_capacity_released_at r
    \<and> (if r_retry_count r' > cfg_worker_max_retries (pw_config pw)
       then r_status r' = ST_DELETE_FAILED \<and> (\<forall>t. \<not> lifecycle_due t r' \<and> \<not> pending_due t r')
       else r_status r' = ST_DELETING
         \<and> (\<forall>t. lifecycle_due t r' \<longrightarrow> (\<exists>r''. get_resource (lifecycle_turn pw rid t db') rid = Some r''
              \<and> r_retry_count r'' = r_retry_count r' + 1)))
    \<and> (\<forall>t d p. \<not> deleting_due t m \<and> \<not> replenish_due pw t d m \<and> \<not> check_due p t m)"
proof -
  let ?max = "cfg_worker_max_retries (pw_config pw)"
  let ?P = "\<lambda>d r'. unprepared rid m i d r' \<and> members d = members db \<and> capacities d = capacities db
    \<and> r_capacity_released_at r' = r_capacity_released_at r
    \<and> r_status r' = (if r_retry_count r' > ?max then ST_DELETE_FAILED else ST_DELETING)"
  have turn: "\<exists>r''. ?P (lifecycle_turn pw rid t d) r''" if p: "?P d r'" for d r' t
  proof (cases "lifecycle_due t r'")
    case True
    from p have "unprepared rid m i d r'" by blast
    from unprepared_turn [OF assms(1) this True] p show ?thesis by (metis (full_types))
  next
    case False
    with p have "lifecycle_turn pw rid t d = d" by (simp add: lifecycle_turn_def unprepared_def)
    with p show ?thesis by metis
  qed
  have "\<exists>r'. ?P (fold (lifecycle_turn pw rid) turns d) r'" if "\<exists>r'. ?P d r'" for d
    using that
  proof (induction turns arbitrary: d)
    case (Cons t ts)
    from Cons.prems turn have "\<exists>r'. ?P (lifecycle_turn pw rid t d) r'" by blast
    from Cons.IH [OF this] show ?case by simp
  qed simp
  moreover have "?P db r" using assms(2-7,9) by (simp add: unprepared_def)
  ultimately obtain r' where r': "?P db' r'" unfolding assms(10) by blast
  have "\<exists>r''. get_resource (lifecycle_turn pw rid t db') rid = Some r'' \<and> r_retry_count r'' = r_retry_count r' + 1"
    if "lifecycle_due t r'" for t
    using unprepared_turn [OF assms(1) _ that, of rid m i db'] r' by (auto simp: unprepared_def)
  moreover have "m_allocated_resource_id m = Some rid"
    using member_of_resource_SomeD [OF assms(5)] by blast
  ultimately show ?thesis
    using r' assms(8)
    by (intro exI [of _ r'])
      (auto simp: unprepared_def lifecycle_due_def pending_due_def deleting_due_def replenish_due_def check_due_def)
qed

section \<open>Concrete runs\<close>

definition deleted_example :: "delete_lifecycle_step \<Rightarrow> reclaim_policy \<Rightarrow> resource" where
  "deleted_example s p = example_resource
     \<lparr>r_mode := MODE_DEDICATED, r_status := ST_DELETING, r_delete_step := s, r_cooldown_hours := Some 24,
      r_reclaim_policy := Some p, r_worker_id := Some ''w1'', r_worker_lease_until := Some (seconds 120)\<rparr>"

definition deleting_db :: "resource \<Rightarrow> pool_member \<Rightarrow> metadb" where
  "deleting_db r m = (example_books_db r)\<lparr>instances := [example_instance], members := [m]\<rparr>"

lemma deleting_db_rows [simp]:
  "r_id r = ''r1'' \<Longrightarrow> get_resource (deleting_db r m) ''r1'' = Some r"
  "m_allocated_resource_id m = Some ''r1'' \<Longrightarrow> member_of_resource (deleting_db r m) ''r1'' = Some m"
  "uniq m_id [m]" "members (deleting_db r m) = [m]"
  "get_instance (deleting_db r m) ''i1'' = Some example_instance"
  "active_count (deleting_db r m) ''agent'' ''ag'' = 1"
  by (simp_all add: deleting_db_def example_books_db_def member_of_resource_def uniq_def
      example_instance_def active_count_def cap_key_def)

lemma deleting_db_books:
  assumes "r_owner_agent_id r = ''ag''" "r_backend_id r = ''be''" "r_capacity_released_at r = None"
  shows "accounted active_count (deleting_db r m)" "uniq r_id (resources (deleting_db r m))"
  using example_books [OF assms]
  by (simp_all add: books_def deleting_db_def accounted_def active_count_def)

lemma deleted_example_simps [simp]:
  "r_id (deleted_example s p) = ''r1''" "r_status (deleted_example s p) = ST_DELETING"
  "r_delete_step (deleted_example s p) = s" "r_cooldown_hours (deleted_example s p) = Some 24"
  "r_reclaim_policy (deleted_example s p) = Some p" "r_worker_id (deleted_example s p) = Some ''w1''"
  "r_owner_agent_id (deleted_example s p) = ''ag''" "r_backend_id (deleted_example s p) = ''be''"
  "r_capacity_released_at (deleted_example s p) = None" "r_retry_count (deleted_example s p) = 0"
  by (simp_all add: deleted_example_def)

lemma example_members [simp]:
  "m_allocated_resource_id complete_member = Some ''r1''" "m_instance_id complete_member = ''i1''"
  "m_id complete_member = ''m1''"
  by (simp_all add: complete_member_def new_member_def)

definition bare_member :: pool_member where
  "bare_member = new_member ''m1'' ''po'' ''i1'' MS_DELETING RS_STALE PREP_CLUSTER_READY (Some ''r1'') 0"

lemma bare_member_simps [simp]:
  "m_allocated_resource_id bare_member = Some ''r1''" "m_instance_id bare_member = ''i1''"
  "\<not> credentials_complete bare_member"
  by (simp_all add: bare_member_def new_member_def credentials_complete_def)

theorem unprepared_deletion_sticks_witness:
  "\<exists>r'. get_resource (fold (lifecycle_turn (quiet_worker sandbox_server) ''r1'') [0, hours 1, hours 2]
     (deleting_db (deleted_example DS_PENDING SANITIZE_AND_REUSE) bare_member)) ''r1'' = Some r'
   \<and> r_capacity_released_at r' = None \<and> r_status r' \<in> {ST_DELETING, ST_DELETE_FAILED}"
proof -
  have "m_status bare_member = MS_DELETING" by (simp add: bare_member_def new_member_def)
  then show ?thesis
    using unprepared_deletion_sticks [where pw = "quiet_worker sandbox_server" and rid = "''r1''" and
        db = "deleting_db (deleted_example DS_PENDING SANITIZE_AND_REUSE) bare_member" and
        r = "deleted_example DS_PENDING SANITIZE_AND_REUSE" and m = bare_member and i = example_instance
        and turns = "[0, hours 1, hours 2]", OF _ _ _ _ _ _ _ _ _ refl]
    by (auto simp: irreversible_step_def default_config_def split: if_splits)
qed

theorem dedicated_reclaim_complete_witness:
  "\<exists>db'. finish_dedicated_cleanup (quiet_worker sandbox_server) 5 ''r1'' True
     (deleting_db (deleted_example DS_SANITIZE_DISPATCH SANITIZE_AND_REUSE) complete_member) = Inr db'
   \<and> active_count db' ''agent'' ''ag'' = 0"
  using dedicated_reclaim_complete [of
      "deleting_db (deleted_example DS_SANITIZE_DISPATCH SANITIZE_AND_REUSE) complete_member"
      "quiet_worker sandbox_server" "''r1''" "deleted_example DS_SANITIZE_DISPATCH SANITIZE_AND_REUSE"
      complete_member True 5 6]
    deleting_db_books [of "deleted_example DS_SANITIZE_DISPATCH SANITIZE_AND_REUSE"]
  by (auto simp: owned_resource_def)

lemma example_lets_go:
  "lets_go (pw_cloud (quiet_worker example_server)) complete_member example_instance
     (deleted_example s DESTROY)"
  using example_disconnect
  by (auto simp: lets_go_def delete_cluster_def quiet_worker_def example_cloud_def)

theorem dedicated_deletion_completes_witness:
  "\<exists>db1 db2 r2. process_lifecycle_resource (quiet_worker example_server) 0 ''r1''
      (deleting_db (deleted_example DS_PENDING DESTROY) complete_member) = (Inr (), db1)
    \<and> process_lifecycle_resource (quiet_worker example_server) (hours 25) ''r1''
        (put_resource ''r1'' (set_resource_claim (Some ''w1'') None) db1) = (Inr (), db2)
    \<and> get_resource db2 ''r1'' = Some r2 \<and> r_status r2 = ST_DELETED"
  using dedicated_deletion_completes [of "quiet_worker example_server"
      "deleting_db (deleted_example DS_PENDING DESTROY) complete_member" "''r1''"
      "deleted_example DS_PENDING DESTROY" 24 complete_member example_instance 0 "hours 25" None]
    deleting_db_books [of "deleted_example DS_PENDING DESTROY"] example_lets_go
  by (auto simp: owned_resource_def irreversible_step_def hours_def)

definition cooled_dedicated :: resource where
  "cooled_dedicated = (deleted_example DS_COOLING_DOWN DESTROY)\<lparr>r_status := ST_COOLING_DOWN,
     r_disconnected_at := Some 0, r_cooldown_until := Some (hours 24)\<rparr>"

theorem dedicated_cleanup_after_cooldown_witness:
  "\<exists>db' r'. process_lifecycle_resource (quiet_worker example_server) (hours 25) ''r1''
      (deleting_db cooled_dedicated complete_member) = (Inr (), db')
    \<and> get_resource db' ''r1'' = Some r' \<and> irreversible_step (r_delete_step r')
    \<and> r_status cooled_dedicated = ST_COOLING_DOWN"
proof -
  let ?pw = "quiet_worker example_server" and ?db = "deleting_db cooled_dedicated complete_member"
  have row: "get_resource ?db ''r1'' = Some cooled_dedicated"
    by (simp add: cooled_dedicated_def)
  have "lets_go (pw_cloud ?pw) complete_member example_instance cooled_dedicated"
    using example_lets_go by (simp add: lets_go_def cooled_dedicated_def)
  then obtain db' r' where run: "process_lifecycle_resource ?pw (hours 25) ''r1'' ?db = (Inr (), db')"
    and r': "get_resource db' ''r1'' = Some r'" "r_delete_step r' = DS_COMPLETE"
    using dedicated_cleanup_run [of ?pw "''r1''" ?db cooled_dedicated "hours 24" "hours 25" complete_member example_instance]
      deleting_db_books [of cooled_dedicated complete_member] row
    by (auto simp: owned_resource_def books_def cooled_dedicated_def hours_def)
  have "irreversible_step (r_delete_step r')" using r' by (simp add: irreversible_step_def)
  with dedicated_cleanup_after_cooldown [OF run _ row r'(1)] run r'(1) show ?thesis
    by (auto simp: row_kept_def irreversible_step_def cooled_dedicated_def)
qed

end
