(* ===== verification/Pool_Health.thy ===== *)
theory Pool_Health
  imports Pool_Ledger
begin

text \<open>
  The pools' members in stock: claims on members and synchronisation targets, the evidence that a
  member is ready, the books of permission synchronisation jobs, and the replacement of members.
\<close>

section \<open>Claims\<close>

interpretation member_claims: claimable m_id m_worker_id m_worker_lease_until set_member_claim
  by unfold_locales (simp_all add: set_member_claim_def)

interpretation target_claims: claimable st_id st_worker_id st_worker_lease_until set_target_claim
  by unfold_locales (simp_all add: set_target_claim_def)

text \<open>A claim of the worker on members: the selected member is one of the due ones, and the claim is
  written to it, with a mark in some claims.\<close>

lemma claim_check_in_SomeD:
  assumes "claim_check_in pw now ps db = (Some mid, db')"
  shows "\<exists>m p. m \<in> set (members db) \<and> m_id m = mid \<and> p \<in> set ps \<and> check_due p now m
    \<and> db' = put_member mid (\<lambda>m. set_member_claim (Some (pw_id pw)) (Some (pool_lease pw now))
        (m\<lparr>m_readiness_status := RS_CHECKING\<rparr>)) db"
  using assms by (induction ps) (fastforce split: option.splits dest: first_by_SomeD)+

lemma claimed_members:
  assumes "claim \<in> {claim_deleting_member, claim_replenishing_member, claim_health_check}"
    and "claim pw now db = (Some mid, db')"
  obtains m f where "m \<in> set (members db)" and "m_id m = mid" and "member_free now m"
    and "\<forall>x. m_id (f x) = m_id x"
    and "db' = put_member mid (\<lambda>m. set_member_claim (Some (pw_id pw)) (Some (pool_lease pw now)) (f m)) db"
proof -
  from assms consider "claim_deleting_member pw now db = (Some mid, db')"
    | "claim_replenishing_member pw now db = (Some mid, db')"
    | "claim_health_check pw now db = (Some mid, db')" by auto
  then show thesis
  proof cases
    case 1
    then show ?thesis
      by (auto simp: claim_deleting_member_def deleting_due_def split: option.splits
          dest!: first_by_SomeD intro!: that [where f = "\<lambda>m. m"])
  next
    case 2
    then show ?thesis
      by (auto simp: claim_replenishing_member_def replenish_due_def split: option.splits
          dest!: first_by_SomeD intro!: that [where f = "\<lambda>m. m"])
  next
    case 3
    then show ?thesis
      by (auto simp: claim_health_check_def check_due_def dest!: claim_check_in_SomeD
          intro!: that [where f = "\<lambda>m. m\<lparr>m_readiness_status := RS_CHECKING\<rparr>"])
  qed
qed

text \<open>a member that a pool worker has claimed, for its destruction, its preparation or a health
  check, was free, and no worker can claim it for any of the three before the lease runs out;
  the other members are as they were.\<close>

theorem member_claims_exclude:
  assumes "claim \<in> {claim_deleting_member, claim_replenishing_member, claim_health_check}"
    and "claim pw now db = (Some mid, db')" and "uniq m_id (members db)"
  shows "\<exists>m m'. get_member db mid = Some m \<and> member_free now m \<and> get_member db' mid = Some m'
    \<and> m_worker_id m' = Some (pw_id pw)
    \<and> (\<forall>t p other d. t < pool_lease pw now \<longrightarrow>
         \<not> deleting_due t m' \<and> \<not> replenish_due other t d m' \<and> \<not> check_due p t m')
    \<and> (\<forall>k. k \<noteq> mid \<longrightarrow> get_member db' k = get_member db k)"
proof -
  from assms(1,2) obtain m f where m: "m \<in> set (members db)" "m_id m = mid" "member_free now m"
    and f: "\<forall>x. m_id (f x) = m_id x"
    and db': "db' = put_member mid (\<lambda>m. set_member_claim (Some (pw_id pw)) (Some (pool_lease pw now)) (f m)) db"
    by (rule claimed_members)
  let ?m' = "set_member_claim (Some (pw_id pw)) (Some (pool_lease pw now)) (f m)"
  have "get_member db mid = Some m" using m(1,2) assms(3) tget_uniq by fastforce
  moreover from this have "get_member db' mid = Some ?m'"
    by (simp add: db' put_member_def tget_tupd f)
  moreover have "\<not> member_free t ?m'" if "t < pool_lease pw now" for t
    using that by (simp add: member_free_def)
  moreover have "get_member db' k = get_member db k" if "k \<noteq> mid" for k
    using that by (simp add: db' put_member_def tget_tupd f)
  ultimately show ?thesis
    using m(3) by (auto simp: deleting_due_def replenish_due_def check_due_def)
qed

section \<open>Evidence of readiness\<close>

text \<open>The reference for the loop over the pools: one pass over the members, each judged by the
  pools it belongs to.\<close>

definition expired_in :: "pool list \<Rightarrow> time \<Rightarrow> pool_member \<Rightarrow> bool" where
  "expired_in ps now m \<longleftrightarrow> (\<exists>p \<in> set ps. evidence_expired p now m)"

definition expire :: "pool list \<Rightarrow> time \<Rightarrow> pool_member \<Rightarrow> pool_member" where
  "expire ps now m = (if expired_in ps now m then m\<lparr>m_readiness_status := RS_STALE\<rparr> else m)"

lemma stale_not_expired [simp]: "\<not> evidence_expired p now (m\<lparr>m_readiness_status := RS_STALE\<rparr>)"
  by (simp add: evidence_expired_def)

lemma expire_Cons: "expire (p # ps) now m =
    expire ps now (if evidence_expired p now m then m\<lparr>m_readiness_status := RS_STALE\<rparr> else m)"
  by (auto simp: expire_def expired_in_def)

lemma rcount_expired_Cons:
  "rcount (expired_in (p # ps) now) ms = rcount (evidence_expired p now) ms
     + rcount (expired_in ps now)
         (map (\<lambda>m. if evidence_expired p now m then m\<lparr>m_readiness_status := RS_STALE\<rparr> else m) ms)"
  by (induction ms) (auto simp: expired_in_def)

lemma fold_expire_pool:
  "fold (expire_pool now) ps (n, ms) = (n + rcount (expired_in ps now) ms, map (expire ps now) ms)"
proof (induction ps arbitrary: n ms)
  case Nil
  show ?case by (simp add: expired_in_def expire_def rcount_zero)
next
  case (Cons p ps)
  have "expire_pool now p (n, ms) = (n + rcount (evidence_expired p now) ms,
      map (\<lambda>m. if evidence_expired p now m then m\<lparr>m_readiness_status := RS_STALE\<rparr> else m) ms)"
    by (simp add: expire_pool_def)
  then show ?case
    by (simp add: Cons.IH rcount_expired_Cons expire_Cons [abs_def] comp_def)
qed

lemma rcount_eq_0: "rcount P xs = 0 \<longleftrightarrow> (\<forall>x \<in> set xs. \<not> P x)"
  by (induction xs) auto

text \<open>the loop that expires evidence pool by pool is one pass over the members that marks
  exactly those whose evidence has expired by the window of their own pool, whatever the order
  of the pools, and it reports work if and only if it marked a member. Afterwards a fresh
  available member of an active pool is an allocatable one.\<close>

theorem expiry_loop_equivalent:
  "mark_expired_evidence_stale now db =
     (\<exists>m \<in> set (members db). expired_in (active_pools db) now m,
      db\<lparr>members := map (expire (active_pools db) now) (members db)\<rparr>)
   \<and> (\<forall>m \<in> set (members (snd (mark_expired_evidence_stale now db))). \<forall>p \<in> set (active_pools db).
        m_pool_id m = p_id p \<and> m_status m = MS_AVAILABLE \<and> m_readiness_status m = RS_FRESH \<longrightarrow>
        member_allocatable (ready_cutoff p now) m)"
proof -
  have loop: "mark_expired_evidence_stale now db =
     (\<exists>m \<in> set (members db). expired_in (active_pools db) now m,
      db\<lparr>members := map (expire (active_pools db) now) (members db)\<rparr>)"
  proof (cases "rcount (expired_in (active_pools db) now) (members db) = 0")
    case True
    then have "map (expire (active_pools db) now) (members db) = members db"
      by (simp add: rcount_eq_0 expire_def map_idI)
    with True show ?thesis
      by (simp add: mark_expired_evidence_stale_def fold_expire_pool rcount_eq_0)
  next
    case False
    then show ?thesis
      by (auto simp: mark_expired_evidence_stale_def fold_expire_pool rcount_eq_0)
  qed
  have "member_allocatable (ready_cutoff p now) m"
    if "m \<in> expire (active_pools db) now ` set (members db)" "p \<in> set (active_pools db)"
      "m_pool_id m = p_id p" "m_status m = MS_AVAILABLE" "m_readiness_status m = RS_FRESH" for m p
    using that
    by (auto simp: expire_def expired_in_def evidence_expired_def member_allocatable_def verified_since_def
        split: if_splits option.splits)
  then show ?thesis by (simp add: loop)
qed

text \<open>what a health check writes. While the worker keeps its claim, whatever other sessions
  change meanwhile: a verified member is fresh from now on; a member with the wrong grants is
  quarantined and waits for no retry; any other error leaves its status, makes it stale and
  schedules a retry. Without a successful verification the member is not allocatable afterwards,
  and the time of its last verification stands.\<close>

theorem health_check_evidence:
  assumes "get_member db mid = Some m" and "owned_member pw mid (pw_env pw 0 db) = Some cur"
  shows "\<exists>m'. get_member (check_member pw now mid db) mid = Some m' \<and> m_worker_id m' = None
    \<and> (case fst (verify (cl_mysql (pw_cloud pw)) (cl_decrypt (pw_cloud pw)) (pw_repr pw) m []) of
         Inr _ \<Rightarrow> m_readiness_status m' = RS_FRESH \<and> m_last_ready_verified_at m' = Some now
           \<and> m_status m' = m_status cur
       | Inl e \<Rightarrow> (\<forall>cutoff. \<not> member_allocatable cutoff m')
           \<and> m_last_ready_verified_at m' = m_last_ready_verified_at cur
           \<and> (if e = DedicatedGrantVerificationError
              then m_status m' = MS_QUARANTINED \<and> m_next_retry_at m' = None
              else m_status m' = m_status cur
                 \<and> m_next_retry_at m' = Some (now + pool_backoff pw (m_retry_count cur + 1))))"
proof -
  let ?o = "outcome_of (fst (verify (cl_mysql (pw_cloud pw)) (cl_decrypt (pw_cloud pw)) (pw_repr pw) m []))"
  have cur: "get_member (pw_env pw 0 db) mid = Some cur"
    using assms(2) by (auto simp: owned_member_def split: option.splits if_splits)
  have "m_id (checked_row pw now o' x) = m_id x" for o' x
    by (simp add: checked_row_def split: health_outcome.splits)
  with assms cur have "get_member (check_member pw now mid db) mid = Some (checked_row pw now ?o cur)"
    by (simp add: check_member_def finish_health_check_def put_member_def tget_tupd)
  then show ?thesis
    by (auto simp: checked_row_def outcome_of_def set_member_claim_def member_allocatable_def
        split: sum.splits)
qed

section \<open>Synchronisation jobs\<close>

abbreviation job_targets :: "metadb \<Rightarrow> string \<Rightarrow> sync_target list" where
  "job_targets db jid \<equiv> filter (\<lambda>t. st_job_id t = jid) (sync_targets db)"

text \<open>The status of a job, as its targets say.\<close>

definition job_verdict :: "sync_target list \<Rightarrow> sync_status" where
  "job_verdict ts =
     (if \<exists>t \<in> set ts. st_status t \<notin> {TGT_SUCCEEDED, TGT_FAILED} then SYNC_RUNNING
      else if \<exists>t \<in> set ts. st_status t = TGT_FAILED then SYNC_FAILED else SYNC_SUCCEEDED)"

lemma rcount_cover:
  assumes "\<And>x. \<not> (P x \<and> Q x)"
  shows "rcount P xs + rcount Q xs = length xs \<longleftrightarrow> (\<forall>x \<in> set xs. P x \<or> Q x)"
proof -
  have le: "rcount P xs + rcount Q xs \<le> length xs" for xs
    using assms by (induction xs) (auto simp: le_SucI)
  show ?thesis
  proof (induction xs)
    case (Cons x xs)
    with assms [of x] le [of xs] show ?case by auto
  qed simp
qed

lemma put_target_frame [simp]:
  "resources (put_target i f db) = resources db" "members (put_target i f db) = members db"
  "sync_jobs (put_target i f db) = sync_jobs db"
  "sync_targets (put_target i f db) = tupd st_id i f (sync_targets db)"
  by (simp_all add: put_target_def)

lemma put_job_frame [simp]:
  "resources (put_job i f db) = resources db" "members (put_job i f db) = members db"
  "sync_targets (put_job i f db) = sync_targets db"
  "sync_jobs (put_job i f db) = tupd sj_id i f (sync_jobs db)"
  by (simp_all add: put_job_def)

lemma refresh_frame [simp]:
  "resources (refresh_permission_sync_job jid db) = resources db"
  "members (refresh_permission_sync_job jid db) = members db"
  "sync_targets (refresh_permission_sync_job jid db) = sync_targets db"
  by (simp_all add: refresh_permission_sync_job_def Let_def)

lemma refresh_verdict:
  assumes "get_job db jid = Some j" and "sj_total_count j = int (length (job_targets db jid))"
  shows "\<exists>j'. get_job (refresh_permission_sync_job jid db) jid = Some j'
    \<and> sj_total_count j' = sj_total_count j
    \<and> sj_completed_count j' = int (rcount (\<lambda>t. st_status t = TGT_SUCCEEDED) (job_targets db jid))
    \<and> sj_failed_count j' = int (rcount (\<lambda>t. st_status t = TGT_FAILED) (job_targets db jid))
    \<and> sj_status j' = job_verdict (job_targets db jid)"
proof -
  let ?ts = "job_targets db jid"
  let ?c = "rcount (\<lambda>t. st_status t = TGT_SUCCEEDED) ?ts" and ?f = "rcount (\<lambda>t. st_status t = TGT_FAILED) ?ts"
  have m: "rcount (\<lambda>s. s = x) (map st_status ts) = rcount (\<lambda>t. st_status t = x) ts" for x ts
    by (induction ts) auto
  have all: "?c + ?f = length ?ts \<longleftrightarrow> (\<forall>t \<in> set ?ts. st_status t = TGT_SUCCEEDED \<or> st_status t = TGT_FAILED)"
    by (rule rcount_cover) auto
  have fail: "?f = 0 \<longleftrightarrow> (\<forall>t \<in> set ?ts. st_status t \<noteq> TGT_FAILED)"
    by (rule rcount_eq_0)
  have total: "(int ?c + int ?f = sj_total_count j) = (?c + ?f = length ?ts)"
    using assms(2) by linarith
  show ?thesis
    using assms(1)
    by (auto simp: refresh_permission_sync_job_def Let_def tget_tupd m total all fail job_verdict_def)
qed

lemma write_synced_frame [simp]:
  "sync_jobs (write_synced t loaded v e db) = sync_jobs db"
  "sync_targets (write_synced t loaded v e db) = sync_targets db"
  by (simp_all add: write_synced_def Let_def split: option.splits)

lemma settled_targets:
  assumes "\<And>x. st_id (f x) = st_id x \<and> st_job_id (f x) = st_job_id x"
  shows "length (filter (\<lambda>t. st_job_id t = jid) (tupd st_id tid f ts)) = length (filter (\<lambda>t. st_job_id t = jid) ts)"
  using assms by (induction ts) auto

lemma sync_rows_id [simp]:
  "st_id (sync_failed pw now t) = st_id t" "st_job_id (sync_failed pw now t) = st_job_id t"
  "st_id (sync_done t) = st_id t" "st_job_id (sync_done t) = st_job_id t"
  by (simp_all add: sync_failed_def sync_done_def set_target_claim_def Let_def)

text \<open>the books of a synchronisation job. A run on a claimed target settles it: succeeded when
  the member's server proved the new grants, otherwise back in the queue, or failed once the
  retries are used up, and then neither the member nor the resource has changed. The job's counts
  are those of its targets, and its status is their verdict: running while one is open, then
  failed if one failed and succeeded if none did.\<close>

theorem sync_job_verdict:
  assumes "pw_env pw = (\<lambda>_ d. d)" and "get_target db tid = Some t"
    and "st_worker_id t = Some (pw_id pw)" and "st_status t = TGT_RUNNING"
    and "get_job db (st_job_id t) = Some j"
    and "sj_total_count j = int (length (job_targets db (st_job_id t)))"
  shows "\<exists>db' t' j'. process_permission_sync_target pw now tid db = db'
    \<and> get_target db' tid = Some t' \<and> st_worker_id t' = None
    \<and> (case sync_work pw db t of
         Inr _ \<Rightarrow> st_status t' = TGT_SUCCEEDED
       | Inl _ \<Rightarrow> st_status t' =
             (if st_retry_count t + 1 > cfg_worker_max_retries (pw_config pw) then TGT_FAILED else TGT_PENDING)
           \<and> members db' = members db \<and> resources db' = resources db)
    \<and> get_job db' (st_job_id t) = Some j' \<and> sj_total_count j' = int (length (job_targets db' (st_job_id t)))
    \<and> sj_completed_count j' =
        int (rcount (\<lambda>t. st_status t = TGT_SUCCEEDED) (job_targets db' (st_job_id t)))
    \<and> sj_failed_count j' = int (rcount (\<lambda>t. st_status t = TGT_FAILED) (job_targets db' (st_job_id t)))
    \<and> sj_status j' = job_verdict (job_targets db' (st_job_id t))"
proof -
  let ?jid = "st_job_id t"
  define f where "f = (case sync_work pw db t of Inl _ \<Rightarrow> sync_failed pw now | Inr _ \<Rightarrow> sync_done)"
  define d1 where "d1 = (case sync_work pw db t of
      Inr (v, encoded, m) \<Rightarrow> if st_change_required t then write_synced t db v encoded db else db | Inl _ \<Rightarrow> db)"
  have run: "process_permission_sync_target pw now tid db = refresh_permission_sync_job ?jid (put_target tid f d1)"
    using assms(1-4)
    by (auto simp: process_permission_sync_target_def record_permission_sync_failure_def f_def d1_def
        split: sum.splits)
  have frame: "sync_jobs d1 = sync_jobs db" "sync_targets d1 = sync_targets db"
    by (auto simp: d1_def split: sum.splits prod.splits)
  have f: "st_id (f x) = st_id x \<and> st_job_id (f x) = st_job_id x" for x
    by (simp add: f_def split: sum.splits)
  have "sj_total_count j = int (length (job_targets (put_target tid f d1) ?jid))"
    using assms(6) by (simp add: frame settled_targets [of f] f)
  moreover have "get_job (put_target tid f d1) ?jid = Some j" using assms(5) by (simp add: frame)
  moreover have "get_target (put_target tid f d1) tid = Some (f t)"
    using assms(2) f by (simp add: tget_tupd frame)
  moreover have "st_worker_id (f t) = None"
    by (simp add: f_def sync_failed_def sync_done_def set_target_claim_def split: sum.splits)
  moreover have "case sync_work pw db t of Inr _ \<Rightarrow> st_status (f t) = TGT_SUCCEEDED
     | Inl _ \<Rightarrow> st_status (f t) =
         (if st_retry_count t + 1 > cfg_worker_max_retries (pw_config pw) then TGT_FAILED else TGT_PENDING)
         \<and> members d1 = members db \<and> resources d1 = resources db"
    by (auto simp: f_def d1_def sync_failed_def sync_done_def set_target_claim_def Let_def split: sum.splits)
  ultimately show ?thesis
    using refresh_verdict [of ?jid "put_target tid f d1" j]
    by (intro exI [of _ "process_permission_sync_target pw now tid db"] exI [of _ "f t"])
      (auto simp: run split: sum.splits)
qed

section \<open>Replacement\<close>

abbreviation billed :: "metadb \<Rightarrow> string \<Rightarrow> int" where
  "billed db pid \<equiv> int (rcount (\<lambda>m. m_status m \<noteq> MS_DELETED) (filter (\<lambda>m. m_pool_id m = pid) (members db)))"

abbreviation planned :: "metadb \<Rightarrow> string \<Rightarrow> int" where
  "planned db pid \<equiv> int (rcount member_planned (filter (\<lambda>m. m_pool_id m = pid) (members db)))"

lemma prewarm_guards:
  assumes "reserve_member_purchase pid now PREWARM db = Inr (True, db')"
  shows "\<exists>p. get_pool db pid = Some p \<and> planned db pid < p_target_size p \<and> billed db pid < p_max_total_members p"
  using assms
  by (auto simp: reserve_member_purchase_def take_snapshot_def Let_def split: option.splits sum.splits if_splits)

lemma reserve_in_cases:
  assumes "reserve_in d now pids db = (res, db')"
  shows "(res \<noteq> Inr True \<and> db' = db) \<or>
    (res = Inr True \<and> (\<exists>pid \<in> set pids. \<exists>p m. get_pool db pid = Some p
       \<and> planned db pid < p_target_size p \<and> billed db pid < p_max_total_members p
       \<and> members db' = members db @ [m] \<and> m_pool_id m = pid \<and> m_status m = MS_REPLENISHING
       \<and> m_allocated_resource_id m = None \<and> m_preparation_step m = PREP_PENDING))"
  using assms
proof (induction pids)
  case (Cons pid pids)
  show ?case
  proof (cases "\<exists>db1. reserve_member_purchase pid now PREWARM db = Inr (True, db1)")
    case True
    then obtain db1 where r: "reserve_member_purchase pid now PREWARM db = Inr (True, db1)" by blast
    have "members db1 = members db"
      by (subst reserve_member_purchase_frame [OF r]) simp
    with Cons.prems r prewarm_guards [OF r] show ?thesis
      by (auto simp: add_replacement_def insert_instance_def insert_member_def bindE_Inr new_member_def
          split: sum.splits if_splits)
  next
    case False
    then have "reserve_in d now (pid # pids) db = reserve_in d now pids db
        \<or> (\<exists>e. reserve_in d now (pid # pids) db = (Inl e, db))"
      by (cases "reserve_member_purchase pid now PREWARM db") auto
    with Cons show ?thesis by auto
  qed
qed auto

text \<open>the replenishment adds one member at a time, to an active pool that has fewer planned
  members than its target and fewer billed members than its limit; the new member belongs to
  no resource and starts at the beginning of its preparation. In every other case, errors
  included, nothing is written. So no pool grows beyond its limit.\<close>

theorem replacement_within_limits:
  assumes "reserve_replacement d now db = (res, db')"
  shows "(if res = Inr True
      then \<exists>p m. p \<in> set (active_pools db) \<and> members db' = members db @ [m] \<and> m_pool_id m = p_id p
        \<and> m_status m = MS_REPLENISHING \<and> m_allocated_resource_id m = None
        \<and> m_preparation_step m = PREP_PENDING
      else db' = db)
    \<and> (\<forall>pid p. get_pool db pid = Some p \<longrightarrow> billed db' pid \<le> max (billed db pid) (p_max_total_members p))"
proof (cases "res = Inr True")
  case True
  with reserve_in_cases [OF assms [unfolded reserve_replacement_def]] obtain p0 p m where
    p: "p0 \<in> set (active_pools db)" "get_pool db (p_id p0) = Some p"
      "billed db (p_id p0) < p_max_total_members p"
    and m: "members db' = members db @ [m]" "m_pool_id m = p_id p0" "m_status m = MS_REPLENISHING"
      "m_allocated_resource_id m = None" "m_preparation_step m = PREP_PENDING"
    by auto
  have "billed db' pid = billed db pid + of_bool (pid = p_id p0)" for pid
    using m(2,3) by (auto simp: m(1) rcount_append)
  then have "billed db' pid \<le> max (billed db pid) (p_max_total_members q)" if "get_pool db pid = Some q" for pid q
    using that p(2,3) by auto
  with True p(1) m show ?thesis by auto
next
  case False
  with reserve_in_cases [OF assms [unfolded reserve_replacement_def]] have "db' = db" by blast
  with False show ?thesis by simp
qed

lemma outdated_purchase:
  assumes "get_pool db pid = Some p" and "\<not> profile_current p"
  shows "\<exists>e. reserve_member_purchase pid now intent db = Inl e \<and> e \<notin> {PoolCapacityLimitReached, RateLimited}"
  using assms
  by (auto simp: reserve_member_purchase_def assert_legacy_purchase_safe_def Let_def
      split: sum.splits if_splits list.splits)

lemma reserve_in_outdated:
  assumes "reserve_in d now pids db = (res, db')" and "sorted_wrt (<) pids" and "pid \<in> set pids"
    and "get_pool db pid = Some p" and "\<not> profile_current p"
  shows "(\<exists>e. res = Inl e) \<or> (\<exists>m. members db' = members db @ [m] \<and> m_pool_id m < pid)"
  using assms(1-3)
proof (induction pids)
  case (Cons q pids)
  show ?case
  proof (cases "q = pid")
    case True
    with outdated_purchase [OF assms(4,5), of now PREWARM] Cons.prems(1) show ?thesis by auto
  next
    case False
    with Cons.prems have q: "q < pid" and rest: "pid \<in> set pids" "sorted_wrt (<) pids" by auto
    show ?thesis
    proof (cases "reserve_in d now pids db = (res, db')")
      case True
      with Cons.IH rest show ?thesis by blast
    next
      case False
      have "(\<exists>e. res = Inl e) \<or> (\<exists>db1. reserve_member_purchase q now PREWARM db = Inr (True, db1)
          \<and> add_replacement d now q db1 = Inr db')"
        using False Cons.prems(1) by (auto split: sum.splits prod.splits if_splits)
      moreover have "\<exists>m. members db' = members db @ [m] \<and> m_pool_id m < pid"
        if r: "reserve_member_purchase q now PREWARM db = Inr (True, db1)"
          and a: "add_replacement d now q db1 = Inr db'" for db1
      proof -
        have "members db1 = members db" by (subst reserve_member_purchase_frame [OF r]) simp
        with a q show ?thesis
          by (auto simp: add_replacement_def insert_instance_def insert_member_def bindE_Inr new_member_def
              split: if_splits)
      qed
      ultimately show ?thesis by blast
    qed
  qed
qed simp

text \<open>one active pool whose purchase profile is outdated starves the pools after it: the error is
  not among those the loop skips, so it ends the run. Whatever the other pools need, the run fails or
  adds a member to a pool that comes before the outdated one.\<close>

theorem outdated_profile_starves_later_pools:
  assumes "reserve_replacement d now db = (res, db')" and "uniq p_id (pools db)"
    and "p \<in> set (active_pools db)" and "\<not> profile_current p"
  shows "(\<exists>e. res = Inl e) \<or> (\<exists>m. members db' = members db @ [m] \<and> m_pool_id m < p_id p)"
proof -
  have "distinct (map p_id (active_pools db))"
    using assms(2) by (simp add: uniq_def active_pools_def distinct_map_filter)
  then have "sorted_wrt (<) (sort (map p_id (active_pools db)))"
    by (simp add: strict_sorted_iff)
  moreover have "get_pool db (p_id p) = Some p"
    using assms(2,3) by (intro tget_uniq) (auto simp: active_pools_def)
  ultimately show ?thesis
    using reserve_in_outdated [OF assms(1) [unfolded reserve_replacement_def], of "p_id p" p] assms(3,4) by auto
qed

section \<open>Concrete runs\<close>

definition stock_db :: "pool \<Rightarrow> pool_member list \<Rightarrow> metadb" where
  "stock_db p ms = empty_db\<lparr>pools := [p], members := ms\<rparr>"

theorem expiry_loop_equivalent_witness:
  "fst (mark_expired_evidence_stale (seconds 601) (stock_db example_pool [example_member]))
   \<and> map m_readiness_status (members (snd (mark_expired_evidence_stale (seconds 601)
        (stock_db example_pool [example_member])))) = [RS_STALE]"
  using expiry_loop_equivalent [of "seconds 601" "stock_db example_pool [example_member]"]
  by (simp add: stock_db_def active_pools_def expired_in_def expire_def evidence_expired_def ready_cutoff_def
      example_pool_def example_member_def new_member_def seconds_def)

definition retired_member :: pool_member where
  "retired_member = new_member ''m1'' ''po'' ''i1'' MS_DELETING RS_STALE PREP_VERIFIED None 0"

theorem member_claims_exclude_witness:
  "\<exists>db' m'. claim_deleting_member (quiet_worker sandbox_server) 0 (stock_db example_pool [retired_member])
       = (Some ''m1'', db')
     \<and> get_member db' ''m1'' = Some m' \<and> \<not> deleting_due 1 m'"
proof -
  let ?db = "stock_db example_pool [retired_member]"
  obtain db' where c: "claim_deleting_member (quiet_worker sandbox_server) 0 ?db = (Some ''m1'', db')"
    by (simp add: claim_deleting_member_def stock_db_def retired_member_def new_member_def deleting_due_def
        member_free_def)
  have "(1 :: int) < pool_lease (quiet_worker sandbox_server) 0"
    by (simp add: pool_lease_def default_config_def seconds_def)
  with member_claims_exclude [of claim_deleting_member, OF _ c] c show ?thesis
    by (auto simp: stock_db_def uniq_def)
qed

theorem health_check_evidence_witness:
  "\<exists>m'. get_member (check_member (quiet_worker sandbox_server) 7 ''m1''
       (stock_db example_pool [example_member\<lparr>m_worker_id := Some ''w1''\<rparr>])) ''m1'' = Some m'
     \<and> m_worker_id m' = None"
  using health_check_evidence [of "''m1''" "stock_db example_pool [example_member\<lparr>m_worker_id := Some ''w1''\<rparr>]"
      "example_member\<lparr>m_worker_id := Some ''w1''\<rparr>" "quiet_worker sandbox_server"
      "example_member\<lparr>m_worker_id := Some ''w1''\<rparr>" 7]
  by (auto simp: stock_db_def owned_member_def example_member_def new_member_def)

definition example_target :: sync_target where
  "example_target = \<lparr>st_id = ''t1'', st_job_id = ''j1'', st_member_id = ''m1'', st_resource_id = None,
     st_previous_revision_id = None, st_status = TGT_RUNNING, st_change_required = True, st_retry_count = 0,
     st_next_retry_at = None, st_failure_reason = None, st_worker_id = Some ''w1'',
     st_worker_lease_until = None, st_created_at = 0\<rparr>"

definition example_job :: sync_job where
  "example_job = \<lparr>sj_id = ''j1'', sj_revision_id = ''rev'', sj_target_scope = ''pool'', sj_target_id = ''po'',
     sj_mode = SYNC_APPLY, sj_status = SYNC_RUNNING, sj_confirmed_by = None, sj_total_count = 1,
     sj_completed_count = 0, sj_failed_count = 0, sj_failure_reason = None\<rparr>"

theorem sync_job_verdict_witness:
  "\<exists>db' t' j'. process_permission_sync_target (quiet_worker sandbox_server) 0 ''t1''
       ((stock_db example_pool [])\<lparr>sync_jobs := [example_job], sync_targets := [example_target]\<rparr>) = db'
     \<and> get_target db' ''t1'' = Some t' \<and> st_worker_id t' = None
     \<and> get_job db' ''j1'' = Some j' \<and> sj_status j' = job_verdict (job_targets db' ''j1'')"
  using sync_job_verdict [of "quiet_worker sandbox_server" "''t1''"
      "(stock_db example_pool [])\<lparr>sync_jobs := [example_job], sync_targets := [example_target]\<rparr>"
      example_target example_job 0]
  by (auto simp: example_target_def example_job_def)

lemma example_replacement:
  "\<exists>db'. reserve_replacement (rn_replacement example_run_draws) 0 (stock_db example_pool []) = (Inr True, db')"
proof -
  have db: "stock_db example_pool [] = empty_db\<lparr>pools := [example_pool]\<rparr>"
    by (simp add: stock_db_def empty_db_def)
  obtain db1 where r: "reserve_member_purchase ''po'' 0 PREWARM (empty_db\<lparr>pools := [example_pool]\<rparr>) = Inr (True, db1)"
    using example_purchase by blast
  moreover have "members db1 = []" "instances db1 = []"
    by (subst reserve_member_purchase_frame [OF r], simp add: empty_db_def)+
  moreover have "sort (map p_id (active_pools (stock_db example_pool []))) = [''po'']"
    by (simp add: active_pools_def stock_db_def example_pool_def)
  ultimately show ?thesis
    by (simp add: reserve_replacement_def db add_replacement_def insert_instance_def insert_member_def)
qed

theorem replacement_within_limits_witness:
  "\<exists>db' m. reserve_replacement (rn_replacement example_run_draws) 0 (stock_db example_pool []) = (Inr True, db')
     \<and> members db' = [m] \<and> m_status m = MS_REPLENISHING"
proof -
  obtain db' where r: "reserve_replacement (rn_replacement example_run_draws) 0 (stock_db example_pool [])
      = (Inr True, db')" using example_replacement by blast
  from replacement_within_limits [OF r] r show ?thesis by (auto simp: stock_db_def)
qed

theorem outdated_profile_starves_later_pools_witness:
  "\<exists>e. fst (reserve_replacement (rn_replacement example_run_draws) 0
     (stock_db (example_pool\<lparr>p_purchase_profile_revision := None\<rparr>) [])) = Inl e
   \<or> (\<exists>m. members (snd (reserve_replacement (rn_replacement example_run_draws) 0
     (stock_db (example_pool\<lparr>p_purchase_profile_revision := None\<rparr>) []))) = [m] \<and> m_pool_id m < ''po'')"
  using outdated_profile_starves_later_pools [of "rn_replacement example_run_draws" 0
      "stock_db (example_pool\<lparr>p_purchase_profile_revision := None\<rparr>) []" _ _
      "example_pool\<lparr>p_purchase_profile_revision := None\<rparr>", OF prod.collapse [symmetric]]
  by (simp add: stock_db_def active_pools_def profile_current_def example_pool_def uniq_def)

end
