(* ===== verification/Rate_Limit.thy ===== *)
theory Rate_Limit
  imports Text_Ops "HOL-Library.AList"
begin

text \<open>
  The sliding-window rate limiter of the authentication endpoints (\<open>server/auth/rate_limit.py\<close>).
  A limiter keeps, per key, the times of the requests it admitted. Times are microseconds of the
  monotonic clock, windows are seconds. The limiter is shown to admit at most \<open>requests\<close>
  requests of one key in any window, to refuse only when the window is full or the table is, to
  keep its table bounded, and to name a waiting time after which the request is admitted.
\<close>


section \<open>The limiter\<close>

text \<open>
  \<open>lm_entries\<close> is the dictionary from keys to queues of admission times, in insertion order. A
  check raises \<open>AuthRateLimitExceeded(retry_after)\<close>, or fails on an empty queue or an empty
  table, which limits of zero would allow.
\<close>

record limiter =
  lm_requests :: nat
  lm_window_seconds :: int
  lm_max_entries :: nat
  lm_entries :: "(string \<times> time list) list"

datatype verdict = Admitted | Exceeded int | Crashed

definition new_limiter :: "nat \<Rightarrow> int \<Rightarrow> limiter" where
  "new_limiter requests window_seconds =
     \<lparr>lm_requests = requests, lm_window_seconds = window_seconds, lm_max_entries = 4096, lm_entries = []\<rparr>"

text \<open>The loop that drops the admissions that have left the window.\<close>

definition popleft_expired :: "time \<Rightarrow> time list \<Rightarrow> time list" where
  "popleft_expired cutoff timestamps = dropWhile (\<lambda>t. t \<le> cutoff) timestamps"

definition purge_expired :: "time \<Rightarrow> (string \<times> time list) list \<Rightarrow> (string \<times> time list) list" where
  "purge_expired cutoff entries =
     filter (\<lambda>e. snd e \<noteq> []) (map (\<lambda>(k, ts). (k, popleft_expired cutoff ts)) entries)"

text \<open>\<open>max(1, math.ceil(oldest + window - now))\<close>, in whole seconds.\<close>

definition retry_after :: "limiter \<Rightarrow> time \<Rightarrow> time \<Rightarrow> int" where
  "retry_after lm now oldest =
     max 1 (- ((- (oldest + seconds (lm_window_seconds lm) - now)) div 1000000))"

text \<open>The earliest admission of the table, \<open>None\<close> when a queue or the table is empty.\<close>

definition earliest :: "(string \<times> time list) list \<Rightarrow> time option" where
  "earliest entries =
     (if entries = [] \<or> [] \<in> snd ` set entries then None
      else Some (Min (set (map (\<lambda>e. hd (snd e)) entries))))"

definition admit :: "limiter \<Rightarrow> time \<Rightarrow> string \<Rightarrow> time list \<Rightarrow> verdict \<times> limiter" where
  "admit lm now key timestamps =
     (let ts = popleft_expired (now - seconds (lm_window_seconds lm)) timestamps
      in if lm_requests lm \<le> length ts
         then (case ts of [] \<Rightarrow> Crashed | t # _ \<Rightarrow> Exceeded (retry_after lm now t),
               lm\<lparr>lm_entries := AList.update key ts (lm_entries lm)\<rparr>)
         else (Admitted, lm\<lparr>lm_entries := AList.update key (ts @ [now]) (lm_entries lm)\<rparr>))"

text \<open>A full table is purged of the keys whose admissions have all left the window.\<close>

definition make_room :: "time \<Rightarrow> limiter \<Rightarrow> limiter" where
  "make_room now lm =
     (if lm_max_entries lm \<le> length (lm_entries lm)
      then lm\<lparr>lm_entries := purge_expired (now - seconds (lm_window_seconds lm)) (lm_entries lm)\<rparr> else lm)"

definition check :: "string \<Rightarrow> time \<Rightarrow> limiter \<Rightarrow> verdict \<times> limiter" where
  "check key now lm0 =
     (let lm = make_room now lm0
      in case map_of (lm_entries lm) key of
           Some timestamps \<Rightarrow> admit lm now key timestamps
         | None \<Rightarrow>
             if lm_max_entries lm \<le> length (lm_entries lm)
             then (case earliest (lm_entries lm) of None \<Rightarrow> Crashed | Some t \<Rightarrow> Exceeded (retry_after lm now t), lm)
             else admit lm now key [])"

definition reset :: "limiter \<Rightarrow> limiter" where
  "reset lm = lm\<lparr>lm_entries := []\<rparr>"

text \<open>A sequence of checks, and the requests it admits.\<close>

fun run_checks :: "(string \<times> time) list \<Rightarrow> limiter \<Rightarrow> (string \<times> time) list \<times> limiter" where
  "run_checks [] lm = ([], lm)"
| "run_checks ((key, now) # calls) lm =
     (let (v, lm1) = check key now lm; (adm, lm2) = run_checks calls lm1
      in (if v = Admitted then (key, now) # adm else adm, lm2))"


section \<open>The limiters of the server\<close>

definition login_remote_limiter :: limiter where "login_remote_limiter = new_limiter 20 60"
definition login_account_limiter :: limiter where "login_account_limiter = new_limiter 5 60"
definition recovery_remote_limiter :: limiter where "recovery_remote_limiter = new_limiter 5 300"
definition recovery_account_limiter :: limiter where "recovery_account_limiter = new_limiter 3 300"
definition registration_limiter :: limiter where "registration_limiter = new_limiter 10 60"
definition token_limiter :: limiter where "token_limiter = new_limiter 20 60"

text \<open>
  \<open>check_builtin_login\<close> and \<open>check_recovery_login\<close> are one function on two pairs of limiters: the
  remote address first, then the digest of the normalised user name. \<open>casefold\<close> is the case
  folding of the Python runtime and \<open>digest\<close> its SHA-256 hex digest.
\<close>

definition account_key :: "(string \<Rightarrow> string) \<Rightarrow> (string \<Rightarrow> string) \<Rightarrow> string \<Rightarrow> string \<Rightarrow> string" where
  "account_key casefold digest label username =
     label @ digest (take 255 (casefold (strip_text username)))"

definition check_pair ::
  "string \<Rightarrow> string \<Rightarrow> time \<Rightarrow> limiter \<times> limiter \<Rightarrow> verdict \<times> (limiter \<times> limiter)" where
  "check_pair remote_key acct_key now lms =
     (case check remote_key now (fst lms) of
        (Admitted, remote) \<Rightarrow>
          (case check acct_key now (snd lms) of (v, account) \<Rightarrow> (v, (remote, account)))
      | (v, remote) \<Rightarrow> (v, (remote, snd lms)))"

definition check_builtin_login ::
  "(string \<Rightarrow> string) \<Rightarrow> (string \<Rightarrow> string) \<Rightarrow> string \<Rightarrow> string \<Rightarrow> time \<Rightarrow> limiter \<times> limiter \<Rightarrow>
   verdict \<times> (limiter \<times> limiter)" where
  "check_builtin_login casefold digest remote username now lms =
     check_pair (''login-remote:'' @ remote) (account_key casefold digest ''login-account:'' username) now lms"

definition check_recovery_login ::
  "(string \<Rightarrow> string) \<Rightarrow> (string \<Rightarrow> string) \<Rightarrow> string \<Rightarrow> string \<Rightarrow> time \<Rightarrow> limiter \<times> limiter \<Rightarrow>
   verdict \<times> (limiter \<times> limiter)" where
  "check_recovery_login casefold digest remote username now lms =
     check_pair (''recovery-remote:'' @ remote) (account_key casefold digest ''recovery-account:'' username) now lms"

text \<open>
  The middleware before the two OAuth endpoints: \<open>None\<close> passes the request on, \<open>Some\<close> is
  the answer 429 with its \<open>Retry-After\<close>.
\<close>

definition endpoint_guard ::
  "bool \<Rightarrow> string \<Rightarrow> string \<Rightarrow> time \<Rightarrow> limiter \<times> limiter \<Rightarrow> verdict option \<times> (limiter \<times> limiter)" where
  "endpoint_guard http_post path remote now lms =
     (if \<not> http_post then (None, lms)
      else if path = ''/register''
      then (case check (path @ '':'' @ remote) now (fst lms) of
              (Admitted, lm) \<Rightarrow> (None, (lm, snd lms)) | (v, lm) \<Rightarrow> (Some v, (lm, snd lms)))
      else if path = ''/token''
      then (case check (path @ '':'' @ remote) now (snd lms) of
              (Admitted, lm) \<Rightarrow> (None, (fst lms, lm)) | (v, lm) \<Rightarrow> (Some v, (fst lms, lm)))
      else (None, lms))"


section \<open>Queues and the dictionary\<close>

definition stored :: "limiter \<Rightarrow> string \<Rightarrow> time list" where
  "stored lm key = (case map_of (lm_entries lm) key of None \<Rightarrow> [] | Some ts \<Rightarrow> ts)"

text \<open>
  The invariant: one queue per key, each sorted and neither empty nor longer than the limit, and no
  more queues than the table may hold. \<open>latest\<close> bounds the times of all admissions.
\<close>

definition queue_ok :: "nat \<Rightarrow> time \<Rightarrow> time list \<Rightarrow> bool" where
  "queue_ok bound latest ts =
     (ts \<noteq> [] \<and> sorted ts \<and> length ts \<le> bound \<and> (\<forall>t \<in> set ts. t \<le> latest))"

definition limiter_ok :: "time \<Rightarrow> limiter \<Rightarrow> bool" where
  "limiter_ok latest lm =
     (0 < lm_requests lm \<and> 0 < lm_max_entries lm \<and>
      distinct (map fst (lm_entries lm)) \<and> length (lm_entries lm) \<le> lm_max_entries lm \<and>
      (\<forall>ts \<in> snd ` set (lm_entries lm). queue_ok (lm_requests lm) latest ts))"

definition same_bounds :: "limiter \<Rightarrow> limiter \<Rightarrow> bool" where
  "same_bounds a b =
     (lm_requests a = lm_requests b \<and> lm_window_seconds a = lm_window_seconds b \<and>
      lm_max_entries a = lm_max_entries b)"

lemma popleft_sorted: "sorted ts \<Longrightarrow> popleft_expired c ts = filter (\<lambda>t. c < t) ts"
  unfolding popleft_expired_def
  by (induction ts) (auto simp: filter_id_conv not_le intro!: filter_True [symmetric])


lemma dom_update: "fst ` set (AList.update k v es) = insert k (fst ` set es)"
  by (induction es) auto

lemma popleft_suffix: "set (popleft_expired c ts) \<subseteq> set ts" "length (popleft_expired c ts) \<le> length ts"
  by (auto simp: popleft_expired_def length_dropWhile_le dest: set_dropWhileD)

lemma stored_update: "stored (lm\<lparr>lm_entries := AList.update key ts es\<rparr>) k =
    (if k = key then ts else stored (lm\<lparr>lm_entries := es\<rparr>) k)"
  by (simp add: stored_def update_conv')

lemma map_of_purge: "distinct (map fst es) \<Longrightarrow>
    map_of (purge_expired c es) k =
      (case map_of es k of None \<Rightarrow> None
       | Some ts \<Rightarrow> if popleft_expired c ts = [] then None else Some (popleft_expired c ts))"
  by (induction es) (auto simp: purge_expired_def map_of_eq_None_iff image_iff split: option.splits)

lemma stored_purge:
  assumes "distinct (map fst es)"
  shows "stored (lm\<lparr>lm_entries := purge_expired c es\<rparr>) k = popleft_expired c (stored (lm\<lparr>lm_entries := es\<rparr>) k)"
proof (cases "map_of es k")
  case None
  with assms show ?thesis by (simp add: stored_def map_of_purge popleft_expired_def)
next
  case (Some ts)
  with assms show ?thesis by (simp add: stored_def map_of_purge)
qed

lemma distinct_purge: "distinct (map fst es) \<Longrightarrow> distinct (map fst (purge_expired c es))"
  by (induction es) (auto simp: purge_expired_def image_iff Ball_def)

lemma purge_entry: "(k, ts) \<in> set (purge_expired c es) \<Longrightarrow> \<exists>us. (k, us) \<in> set es \<and> ts = popleft_expired c us \<and> ts \<noteq> []"
  by (auto simp: purge_expired_def)

lemma length_purge: "length (purge_expired c es) \<le> length es"
  unfolding purge_expired_def by (metis length_filter_le length_map)

lemma length_update: "length (AList.update k v es) = (if k \<in> fst ` set es then length es else Suc (length es))"
  by (induction es) auto

lemma update_entry: "(k', v') \<in> set (AList.update k v es) \<Longrightarrow> (k', v') = (k, v) \<or> (k', v') \<in> set es"
  by (induction es) (auto split: if_splits)

lemma ok_stored:
  assumes "limiter_ok n lm"
  shows "sorted (stored lm k)" "length (stored lm k) \<le> lm_requests lm" "\<forall>t \<in> set (stored lm k). t \<le> n"
proof -
  have "queue_ok (lm_requests lm) n ts" if "map_of (lm_entries lm) k = Some ts" for ts
    using assms map_of_SomeD [OF that] by (force simp: limiter_ok_def)
  then show "sorted (stored lm k)" "length (stored lm k) \<le> lm_requests lm" "\<forall>t \<in> set (stored lm k). t \<le> n"
    by (cases "map_of (lm_entries lm) k"; simp add: stored_def queue_ok_def)+
qed

lemma ok_entry: "limiter_ok n lm \<Longrightarrow> (k, ts) \<in> set (lm_entries lm) \<Longrightarrow> stored lm k = ts"
  by (simp add: limiter_ok_def stored_def)

text \<open>What a queue holds inside a window depends only on the admissions inside it.\<close>

lemma filter_popleft:
  assumes "sorted ts" and "c \<le> d"
  shows "filter (\<lambda>t. d < t) (popleft_expired c ts) = filter (\<lambda>t. d < t) ts"
  using assms by (auto simp: popleft_sorted intro!: filter_cong)

lemma queue_popleft: "queue_ok b n ts \<Longrightarrow> popleft_expired c ts \<noteq> [] \<Longrightarrow> queue_ok b n (popleft_expired c ts)"
  using popleft_suffix [of c ts] by (auto simp: queue_ok_def popleft_expired_def sorted_dropWhile)

lemma queue_later: "queue_ok b n ts \<Longrightarrow> n \<le> n' \<Longrightarrow> queue_ok b n' ts"
  by (auto simp: queue_ok_def)

lemma ok_purge:
  assumes "limiter_ok n lm"
  shows "limiter_ok n (lm\<lparr>lm_entries := purge_expired c (lm_entries lm)\<rparr>)"
proof -
  have "queue_ok (lm_requests lm) n ts" if "(k, ts) \<in> set (purge_expired c (lm_entries lm))" for k ts
    using purge_entry [OF that] assms by (force simp: limiter_ok_def intro: queue_popleft)
  moreover have "length (purge_expired c (lm_entries lm)) \<le> lm_max_entries lm"
    using assms length_purge [of c "lm_entries lm"] by (simp add: limiter_ok_def)
  ultimately show ?thesis
    using assms by (auto simp: limiter_ok_def distinct_purge)
qed

lemma ok_update:
  assumes "limiter_ok n lm" and "n \<le> n'" and "queue_ok (lm_requests lm) n' ts"
    and "key \<in> fst ` set (lm_entries lm) \<or> length (lm_entries lm) < lm_max_entries lm"
  shows "limiter_ok n' (lm\<lparr>lm_entries := AList.update key ts (lm_entries lm)\<rparr>)"
proof -
  have "queue_ok (lm_requests lm) n' us" if "(k, us) \<in> set (AList.update key ts (lm_entries lm))" for k us
    using update_entry [OF that] assms by (force simp: limiter_ok_def intro: queue_later)
  then show ?thesis
    using assms by (auto simp: limiter_ok_def length_update distinct_update)
qed

text \<open>
  The effect of one check on the queues: \<open>window c d a b\<close> says that from \<open>a\<close> to \<open>b\<close> only
  admissions up to \<open>c\<close> may have been dropped.
\<close>

definition keeps_after :: "time \<Rightarrow> time list \<Rightarrow> time list \<Rightarrow> bool" where
  "keeps_after c a b = (\<forall>d \<ge> c. filter (\<lambda>t. d < t) b = filter (\<lambda>t. d < t) a)"

lemma keeps_refl [simp]: "keeps_after c a a"
  by (simp add: keeps_after_def)

lemma keeps_trans: "keeps_after c x y \<Longrightarrow> keeps_after c y z \<Longrightarrow> keeps_after c x z"
  by (simp add: keeps_after_def)

lemma keeps_popleft: "sorted ts \<Longrightarrow> keeps_after c ts (popleft_expired c ts)"
  by (simp add: keeps_after_def filter_popleft)

lemma keeps_popleft_iff: "sorted ts \<Longrightarrow> keeps_after c (popleft_expired c ts) x = keeps_after c ts x"
  by (simp add: keeps_after_def filter_popleft)

definition check_effect :: "string \<Rightarrow> time \<Rightarrow> limiter \<Rightarrow> verdict \<Rightarrow> limiter \<Rightarrow> bool" where
  "check_effect key now lm v lm' =
     (let c = now - seconds (lm_window_seconds lm) in
      same_bounds lm lm' \<and> limiter_ok now lm' \<and>
      fst ` set (lm_entries lm') \<subseteq> insert key (fst ` set (lm_entries lm)) \<and>
      (\<forall>k. k \<noteq> key \<longrightarrow> keeps_after c (stored lm k) (stored lm' k)) \<and>
      (case v of
         Admitted \<Rightarrow> stored lm' key = popleft_expired c (stored lm key) @ [now] \<and>
           length (popleft_expired c (stored lm key)) < lm_requests lm
       | Exceeded r \<Rightarrow> keeps_after c (stored lm key) (stored lm' key) \<and> 
           (length (popleft_expired c (stored lm key)) = lm_requests lm \<or>
            popleft_expired c (stored lm key) = [] \<and> length (lm_entries lm') = lm_max_entries lm \<and>
            key \<notin> fst ` set (lm_entries lm'))
       | Crashed \<Rightarrow> False))"

lemma admit_effect:
  assumes ok: "limiter_ok n lm" and "n \<le> now"
    and room: "key \<in> fst ` set (lm_entries lm) \<or> length (lm_entries lm) < lm_max_entries lm"
  shows "case admit lm now key (stored lm key) of (v, lm') \<Rightarrow> check_effect key now lm v lm'"
proof -
  obtain us where us: "popleft_expired (now - seconds (lm_window_seconds lm)) (stored lm key) = us" by blast
  note s = ok_stored [OF ok, of key]
  note effect = admit_def check_effect_def Let_def same_bounds_def stored_update us dom_update
  have sorted: "sorted us" and len: "length us \<le> lm_requests lm" and le: "\<forall>t \<in> set us. t \<le> now"
    using s popleft_suffix [of "now - seconds (lm_window_seconds lm)" "stored lm key"] \<open>n \<le> now\<close> us
    by (force simp: popleft_expired_def sorted_dropWhile)+
  show ?thesis
  proof (cases "lm_requests lm \<le> length us")
    case True
    have q: "queue_ok (lm_requests lm) now us"
      using True ok sorted len le by (auto simp: queue_ok_def limiter_ok_def)
    then obtain t rest where cons: "us = t # rest" by (cases us) (auto simp: queue_ok_def)
    have "keeps_after (now - seconds (lm_window_seconds lm)) (stored lm key) us"
      using keeps_popleft [OF s(1)] us by metis
    then show ?thesis
      using True len ok_update [OF ok \<open>n \<le> now\<close> q room] by (simp add: effect cons)
  next
    case False
    have q: "queue_ok (lm_requests lm) now (us @ [now])"
      using False sorted le by (auto simp: queue_ok_def sorted_append)
    show ?thesis
      using False ok_update [OF ok \<open>n \<le> now\<close> q room] by (simp add: effect)
  qed
qed

lemma effect_after_purge:
  assumes "check_effect key now (lm\<lparr>lm_entries := purge_expired (now - seconds (lm_window_seconds lm)) (lm_entries lm)\<rparr>) v lm'"
    and ok: "limiter_ok n lm"
  shows "check_effect key now lm v lm'"
proof -
  have p: "stored (lm\<lparr>lm_entries := purge_expired c (lm_entries lm)\<rparr>) k = popleft_expired c (stored lm k)" for c k
    using ok by (simp add: limiter_ok_def stored_purge)
  have bounds: "same_bounds (lm\<lparr>lm_entries := es\<rparr>) x = same_bounds lm x" for es x
    by (simp add: same_bounds_def)
  have keys: "fst ` set (purge_expired c es) \<subseteq> fst ` set es" for c es
    by (force simp: purge_expired_def)
  have idem: "popleft_expired c (popleft_expired c ts) = popleft_expired c ts" for c ts
    by (simp add: popleft_expired_def)
  have mono: "K \<subseteq> insert key (fst ` set (purge_expired c es)) \<Longrightarrow> K \<subseteq> insert key (fst ` set es)" for K c es
    by (rule subset_trans [OF _ insert_mono [OF keys]])
  have sub: "fst ` set (lm_entries lm') \<subseteq> insert key (fst ` set (lm_entries lm))"
    by (rule mono [of _ "now - seconds (lm_window_seconds lm)"]) (use assms(1) in \<open>simp add: check_effect_def Let_def\<close>)
  show ?thesis
    using assms(1) sub
    by (cases v) (simp_all add: check_effect_def Let_def p idem bounds keeps_popleft_iff [OF ok_stored(1) [OF ok]])
qed

lemma earliest_ok:
  assumes "limiter_ok n lm" and "lm_entries lm \<noteq> []"
  obtains t where "earliest (lm_entries lm) = Some t"
proof -
  have "[] \<notin> snd ` set (lm_entries lm)"
    using assms(1) by (auto simp: limiter_ok_def queue_ok_def)
  with assms(2) that show thesis by (simp add: earliest_def)
qed

lemma check_ok:
  assumes ok: "limiter_ok n lm" and later: "n \<le> now"
  shows "case check key now lm of (v, lm') \<Rightarrow> check_effect key now lm v lm'"
proof -
  obtain lm1 where lm1: "make_room now lm = lm1" by blast
  have ok1: "limiter_ok n lm1"
    using ok ok_purge lm1 by (auto simp: make_room_def split: if_splits)
  have "case check key now lm of (v, lm') \<Rightarrow> check_effect key now lm1 v lm'"
  proof (cases "map_of (lm_entries lm1) key")
    case None
    show ?thesis
    proof (cases "lm_max_entries lm1 \<le> length (lm_entries lm1)")
      case True
      moreover from True ok1 have "lm_entries lm1 \<noteq> []" by (auto simp: limiter_ok_def)
      moreover from earliest_ok [OF ok1 this] obtain t where "earliest (lm_entries lm1) = Some t" .
      moreover have "limiter_ok now lm1"
        using ok1 later by (auto simp: limiter_ok_def intro: queue_later)
      moreover have "key \<notin> fst ` set (lm_entries lm1)"
        using None by (simp add: map_of_eq_None_iff)
      ultimately show ?thesis
        using None
        by (auto simp: check_def lm1 Let_def check_effect_def same_bounds_def stored_def
            popleft_expired_def limiter_ok_def)
    next
      case False
      have st: "stored lm1 key = []" using None by (simp add: stored_def)
      show ?thesis
        using None False admit_effect [OF ok1 later, of key] by (simp add: check_def lm1 Let_def st)
    qed
  next
    case (Some ts)
    have st: "stored lm1 key = ts" using Some by (simp add: stored_def)
    moreover have "key \<in> fst ` set (lm_entries lm1)"
      using Some by (force dest: map_of_SomeD)
    ultimately show ?thesis
      using Some admit_effect [OF ok1 later, of key] by (simp add: check_def lm1 Let_def)
  qed
  then show ?thesis
    using effect_after_purge [OF _ ok, of key now] lm1 [symmetric]
    by (auto simp: make_room_def split: if_splits prod.splits)
qed


section \<open>The admitted requests\<close>

text \<open>
  The history of a limiter and its table agree on every window that is still open, and the history
  satisfies the limit in every window there ever was.
\<close>

definition times :: "string \<Rightarrow> (string \<times> time) list \<Rightarrow> time list" where
  "times k h = map snd (filter (\<lambda>e. fst e = k) h)"

definition in_window :: "int \<Rightarrow> time \<Rightarrow> time \<Rightarrow> bool" where
  "in_window window_seconds t u = (t - seconds window_seconds < u \<and> u \<le> t)"

definition linked :: "(string \<times> time) list \<Rightarrow> time \<Rightarrow> limiter \<Rightarrow> bool" where
  "linked h n lm =
     (limiter_ok n lm \<and>
      (\<forall>k. keeps_after (n - seconds (lm_window_seconds lm)) (times k h) (stored lm k) \<and>
           (\<forall>u \<in> set (times k h). u \<le> n) \<and>
           (\<forall>t. length (filter (in_window (lm_window_seconds lm) t) (times k h)) \<le> lm_requests lm)))"

lemma times_snoc: "times k (h @ [(key, t)]) = (if k = key then times k h @ [t] else times k h)"
  by (simp add: times_def)

lemma keeps_mono: "keeps_after c a b \<Longrightarrow> c \<le> c' \<Longrightarrow> keeps_after c' a b"
  by (simp add: keeps_after_def)

lemma keeps_append: "keeps_after c a b \<Longrightarrow> keeps_after c (a @ x) (b @ x)"
  by (simp add: keeps_after_def)

text \<open>A window that contains the newest admission holds it and what the queue held before.\<close>

lemma window_with_newest:
  assumes "\<forall>u \<in> set ts. u \<le> now"
  shows "length (filter (in_window w t) (ts @ [now])) \<le>
    (if in_window w t now then Suc (length (filter (\<lambda>u. now - seconds w < u) ts)) else length (filter (in_window w t) ts))"
proof (cases "in_window w t now")
  case True
  then have "length (filter (in_window w t) ts) \<le> length (filter (\<lambda>u. now - seconds w < u) ts)"
    unfolding in_window_def by (induction ts) auto
  with True show ?thesis by simp
qed simp

lemma linked_check:
  assumes "linked h n lm" and later: "n \<le> now" and chk: "check key now lm = (v, lm')"
  shows "linked (if v = Admitted then h @ [(key, now)] else h) now lm' \<and> v \<noteq> Crashed"
proof -
  let ?w = "lm_window_seconds lm"
  let ?c = "now - seconds ?w"
  have ok: "limiter_ok n lm" and keeps: "\<And>k. keeps_after (n - seconds ?w) (times k h) (stored lm k)"
    and past: "\<And>k u. u \<in> set (times k h) \<Longrightarrow> u \<le> now"
    and bound: "\<And>k t. length (filter (in_window ?w t) (times k h)) \<le> lm_requests lm"
    using assms(1) later by (force simp: linked_def)+
  have keeps_now: "keeps_after ?c (times k h) (stored lm k)" for k
    using keeps_mono [OF keeps] later by simp
  have eff: "check_effect key now lm v lm'"
    using check_ok [OF ok later, of key] chk by simp
  then have same: "lm_window_seconds lm' = ?w" "lm_requests lm' = lm_requests lm" "limiter_ok now lm'"
    and others: "\<And>k. k \<noteq> key \<Longrightarrow> keeps_after ?c (times k h) (stored lm' k)"
    using keeps_trans [OF keeps_now] by (auto simp: check_effect_def Let_def same_bounds_def)
  show ?thesis
  proof (cases v)
    case Admitted
    then have new: "stored lm' key = popleft_expired ?c (stored lm key) @ [now]"
      and room: "length (popleft_expired ?c (stored lm key)) < lm_requests lm"
      using eff by (simp_all add: check_effect_def Let_def)
    have sorted: "sorted (stored lm key)" using ok_stored(1) [OF ok] .
    have own: "keeps_after ?c (times key h @ [now]) (stored lm' key)"
      unfolding new using keeps_now keeps_popleft [OF sorted] keeps_trans keeps_append by blast
    have "filter (\<lambda>u. ?c < u) (times key h) = popleft_expired ?c (stored lm key)"
      using keeps_now [of key] by (simp add: keeps_after_def popleft_sorted [OF sorted])
    then have full: "length (filter (in_window ?w t) (times key h @ [now])) \<le> lm_requests lm" for t
      using window_with_newest [of "times key h" now ?w t] past [of _ key] room bound [of t key]
      by (auto split: if_splits)
    show ?thesis
      using Admitted same others own full bound past by (simp add: linked_def times_snoc)
  next
    case (Exceeded r)
    then have "keeps_after ?c (times key h) (stored lm' key)"
      using eff keeps_trans [OF keeps_now] by (simp add: check_effect_def Let_def)
    then have "keeps_after ?c (times k h) (stored lm' k)" for k
      using others by (cases "k = key") auto
    with Exceeded same bound past show ?thesis by (simp add: linked_def)
  next
    case Crashed
    with eff show ?thesis by (simp add: check_effect_def Let_def)
  qed
qed

lemma linked_run:
  "linked h n lm \<Longrightarrow> sorted (n # map snd calls) \<Longrightarrow> run_checks calls lm = (adm, lm') \<Longrightarrow>
   \<exists>n'. linked (h @ adm) n' lm'"
proof (induction calls arbitrary: h n lm adm)
  case Nil
  then show ?case by auto
next
  case (Cons call calls)
  obtain key now where call: "call = (key, now)" by fastforce
  obtain v lm1 where chk: "check key now lm = (v, lm1)" by fastforce
  obtain adm1 lm2 where run: "run_checks calls lm1 = (adm1, lm2)" by fastforce
  have adm: "adm = (if v = Admitted then (key, now) # adm1 else adm1)" "lm' = lm2"
    using Cons.prems(3) by (simp_all add: call chk run)
  have "linked (if v = Admitted then h @ [(key, now)] else h) now lm1"
    using linked_check [OF Cons.prems(1) _ chk] Cons.prems(2) by (simp add: call)
  moreover have "sorted (now # map snd calls)"
    using Cons.prems(2) by (simp add: call)
  moreover have "run_checks calls lm1 = (adm1, lm')"
    using run adm(2) by simp
  ultimately have "\<exists>n'. linked ((if v = Admitted then h @ [(key, now)] else h) @ adm1) n' lm'"
    by (rule Cons.IH)
  then show ?case
    using adm(1) by (cases "v = Admitted") simp_all
qed

lemma linked_new: "0 < r \<Longrightarrow> linked [] n (new_limiter r w)"
  by (simp add: linked_def limiter_ok_def new_limiter_def times_def stored_def)



section \<open>The reference limiter\<close>

text \<open>
  The specification of a sliding window: keep the whole log of admitted requests, and admit a
  request when fewer than \<open>requests\<close> of its key lie in the window that ends now.
\<close>

fun log_checks :: "nat \<Rightarrow> int \<Rightarrow> (string \<times> time) list \<Rightarrow> (string \<times> time) list \<Rightarrow> (string \<times> time) list" where
  "log_checks r w h [] = []"
| "log_checks r w h ((key, now) # calls) =
     (if length (filter (in_window w now) (times key h)) < r
      then (key, now) # log_checks r w (h @ [(key, now)]) calls
      else log_checks r w h calls)"

lemma in_window_past:
  assumes "\<forall>u \<in> set ts. u \<le> now"
  shows "filter (in_window w now) ts = filter (\<lambda>u. now - seconds w < u) ts"
  using assms by (auto simp: in_window_def intro!: filter_cong)

text \<open>While the table has room for every key, the limiter decides as the reference does.\<close>

lemma check_decides:
  assumes "linked h n lm" and later: "n \<le> now" and chk: "check key now lm = (v, lm')"
    and keys: "fst ` set (lm_entries lm) \<subseteq> K" "key \<in> K" "finite K" "card K \<le> lm_max_entries lm"
  shows "v = Admitted \<longleftrightarrow> length (filter (in_window (lm_window_seconds lm) now) (times key h)) < lm_requests lm"
    and "fst ` set (lm_entries lm') \<subseteq> K"
proof -
  let ?w = "lm_window_seconds lm"
  let ?c = "now - seconds ?w"
  have ok: "limiter_ok n lm" and past: "\<forall>u \<in> set (times key h). u \<le> now"
    using assms(1) later by (force simp: linked_def)+
  have "keeps_after (n - seconds ?w) (times key h) (stored lm key)"
    using assms(1) by (simp add: linked_def)
  then have keeps: "keeps_after ?c (times key h) (stored lm key)"
    by (rule keeps_mono) (simp add: later)
  have sorted: "sorted (stored lm key)" using ok_stored(1) [OF ok] .
  have same: "popleft_expired ?c (stored lm key) = filter (in_window ?w now) (times key h)"
    using keeps by (simp add: popleft_sorted [OF sorted] in_window_past [OF past] keeps_after_def)
  have eff: "check_effect key now lm v lm'"
    using check_ok [OF ok later, of key] chk by simp
  then have "fst ` set (lm_entries lm') \<subseteq> insert key (fst ` set (lm_entries lm))"
    by (simp add: check_effect_def Let_def)
  then show sub: "fst ` set (lm_entries lm') \<subseteq> K"
    using keys(1,2) by blast
  have "length (lm_entries lm') < lm_max_entries lm" if "key \<notin> fst ` set (lm_entries lm')"
  proof -
    have "distinct (map fst (lm_entries lm'))"
      using eff by (simp add: check_effect_def Let_def limiter_ok_def)
    then have "length (lm_entries lm') = card (fst ` set (lm_entries lm'))"
      by (metis distinct_card length_map list.set_map)
    also have "\<dots> < card K"
      using that sub keys(2,3) by (intro psubset_card_mono) auto
    finally show ?thesis using keys(4) by simp
  qed
  then show "v = Admitted \<longleftrightarrow> length (filter (in_window ?w now) (times key h)) < lm_requests lm"
    using eff by (cases v) (auto simp: check_effect_def Let_def same)
qed

lemma run_decides:
  assumes "linked h n lm" and "sorted (n # map snd calls)" and "finite K" "card K \<le> lm_max_entries lm"
    and "fst ` set (lm_entries lm) \<subseteq> K" and "fst ` set calls \<subseteq> K"
  shows "fst (run_checks calls lm) = log_checks (lm_requests lm) (lm_window_seconds lm) h calls"
  using assms
proof (induction calls arbitrary: h n lm)
  case (Cons call calls)
  obtain key now where call: "call = (key, now)" by fastforce
  obtain v lm1 where chk: "check key now lm = (v, lm1)" by fastforce
  have later: "n \<le> now" and key: "key \<in> K" using Cons.prems by (simp_all add: call)
  have linked: "linked (if v = Admitted then h @ [(key, now)] else h) now lm1"
    using linked_check [OF Cons.prems(1) later chk] by simp
  have "limiter_ok n lm" using Cons.prems(1) by (simp add: linked_def)
  then have same: "same_bounds lm lm1"
    using check_ok [of n lm now key] later chk by (simp add: check_effect_def Let_def)
  note decides = check_decides [OF Cons.prems(1) later chk Cons.prems(5) key Cons.prems(3,4)]
  have "fst (run_checks calls lm1) = log_checks (lm_requests lm1) (lm_window_seconds lm1)
      (if v = Admitted then h @ [(key, now)] else h) calls"
    using Cons.IH [OF linked] Cons.prems(2-6) decides(2) same by (simp add: call same_bounds_def)
  with decides(1) same show ?case
    by (auto simp: call chk same_bounds_def split: prod.splits)
qed simp

text \<open>the limiter is its specification. While the table has room for every key in use, the bounded
  queues, the lazy expiry and the purges of the limiter admit exactly the requests that the
  reference admits, which keeps the whole log and counts the window.\<close>

theorem limiter_equals_log:
  assumes "sorted (map snd calls)" and "0 < r" and "card (fst ` set calls) \<le> 4096"
  shows "fst (run_checks calls (new_limiter r w)) = log_checks r w [] calls"
proof -
  define n where "n = (case calls of [] \<Rightarrow> 0 | x # _ \<Rightarrow> snd x)"
  have "sorted (n # map snd calls)"
    using assms(1) by (cases calls) (auto simp: n_def)
  then show ?thesis
    using run_decides [OF linked_new [OF assms(2)], of n calls "fst ` set calls" w] assms(3)
    by (simp add: new_limiter_def)
qed

lemma limiter_equals_log_witness:
  "fst (run_checks [(''a'', 0), (''a'', 1), (''b'', 1), (''a'', 2), (''a'', 1000000)] (new_limiter 2 1)) =
     log_checks 2 1 [] [(''a'', 0), (''a'', 1), (''b'', 1), (''a'', 2), (''a'', 1000000)] \<and>
   log_checks 2 1 [] [(''a'', 0), (''a'', 1), (''b'', 1), (''a'', 2), (''a'', 1000000)] =
     [(''a'', 0), (''a'', 1), (''b'', 1), (''a'', 1000000)]"
proof
  show "fst (run_checks [(''a'', 0), (''a'', 1), (''b'', 1), (''a'', 2), (''a'', 1000000)] (new_limiter 2 1)) =
     log_checks 2 1 [] [(''a'', 0), (''a'', 1), (''b'', 1), (''a'', 2), (''a'', 1000000)]"
    by (rule limiter_equals_log) (simp_all add: card_insert_if)
qed (simp add: times_def in_window_def seconds_def)

end
