(* ===== verification/Auth_Models.thy ===== *)
theory Auth_Models
  imports Rate_Limit
begin

text \<open>
  The data of authentication (\<open>server/models/user.py\<close>, \<open>server/models/oauth.py\<close>,
  \<open>server/models/user_refresh_token.py\<close>), principals and their subjects
  (\<open>server/auth/principal.py\<close>), password hashes (\<open>server/auth/builtin.py\<close>) and the password
  policy. Rows are records with a short prefix and the column's name; \<open>auth_state\<close> holds the
  tables together with the two things the server process keeps in memory, the cache of denied
  token ids and the login limiters.
\<close>


section \<open>Errors\<close>

text \<open>
  What the authentication code raises. \<open>HTTPException\<close> carries the status the client sees.
\<close>

datatype auth_error =
    AuthValueError string
  | AuthLookupError string
  | AuthIntegrityError
  | AuthIndexError
  | HTTPException int
  | InvalidPrincipalSubject
  | PrincipalNotFound
  | PrincipalDisabled
  | PrincipalKindMismatch
  | BuiltinPasswordRequired
  | AdminPasswordAlreadyInitialized
  | PasswordModificationNotAllowed
  | OldPasswordIncorrect
  | OldPasswordNotAllowed
  | PasswordPolicyError
  | ActiveTokenExists
  | TokenRevealRateLimitExceeded
  | ExternalTokenInvalid
  | ExternalTokenUnavailable


section \<open>Rows\<close>

datatype auth_provider = AUTH_OIDC | AUTH_BUILTIN
datatype user_role = ROLE_ADMIN | ROLE_MEMBER
datatype user_status = USER_ACTIVE | USER_DISABLED
datatype password_state = RESET_REQUIRED | PASSWORD_ACTIVE

record user =
  u_id :: string
  u_external_id :: string
  u_auth_provider :: auth_provider
  u_password_hash :: "string option"
  u_password_state :: "password_state option"
  u_credential_epoch :: int
  u_role :: user_role
  u_status :: user_status

definition effective_password_state :: "user \<Rightarrow> password_state" where
  "effective_password_state user =
     (case u_password_state user of None \<Rightarrow> PASSWORD_ACTIVE | Some s \<Rightarrow> s)"

text \<open>The column \<open>scopes\<close> holds a JSON list of strings; its content is kept.\<close>

record pending_auth =
  pa_session_id :: string
  pa_client_id :: string
  pa_redirect_uri :: string
  pa_code_challenge :: string
  pa_code_challenge_method :: string
  pa_resource :: "string option"
  pa_scopes :: "string list"
  pa_expires_at :: time

record auth_code =
  ac_code_hash :: string
  ac_client_id :: string
  ac_user_id :: string
  ac_redirect_uri :: string
  ac_redirect_uri_provided_explicitly :: bool
  ac_code_challenge :: string
  ac_code_challenge_method :: string
  ac_resource :: "string option"
  ac_scopes :: "string list"
  ac_expires_at :: time
  ac_consumed_at :: "time option"

record oauth_refresh =
  or_token_hash :: string
  or_client_id :: string
  or_user_id :: string
  or_code_id :: "string option"
  or_token_family :: string
  or_scopes :: "string list"
  or_resource :: "string option"
  or_expires_at :: "time option"
  or_revoked_at :: "time option"

record user_refresh =
  ur_user_id :: string
  ur_token_hash :: string
  ur_token_family :: string
  ur_expires_at :: time
  ur_revoked_at :: "time option"

record external_session =
  xs_id :: string
  xs_token_family :: string
  xs_user_id :: string
  xs_provider_type :: string
  xs_provider_key :: string
  xs_provider_fingerprint :: string
  xs_external_subject :: string
  xs_subject_token_ciphertext :: string
  xs_external_expires_at :: "time option"
  xs_last_validated_at :: time
  xs_revoked_at :: "time option"

record denied_jti =
  dj_jti :: string
  dj_expires_at :: time

record auth_state =
  as_users :: "user list"
  as_pendings :: "pending_auth list"
  as_codes :: "auth_code list"
  as_refresh :: "oauth_refresh list"
  as_browser :: "user_refresh list"
  as_externals :: "external_session list"
  as_denied :: "denied_jti list"
  as_jti_cache :: "(string \<times> time) list"
  as_login_limiters :: "limiter \<times> limiter"

definition empty_state :: "auth_state" where
  "empty_state = \<lparr>as_users = [], as_pendings = [], as_codes = [], as_refresh = [], as_browser = [],
     as_externals = [], as_denied = [], as_jti_cache = [],
     as_login_limiters = (login_remote_limiter, login_account_limiter)\<rparr>"

text \<open>
  The settings authentication reads: lifetimes of \<open>config.auth.jwt\<close>, the mode, issuer and resources
  built from the public base URL, and the key ring of \<open>jwt_manager\<close> with its lifetime and epoch.
\<close>

record auth_config =
  cfg_access_token_expire_minutes :: int
  cfg_refresh_token_expire_days :: int
  cfg_external_access_token_ttl_seconds :: int
  cfg_oidc_mode :: bool
  cfg_issuer :: string
  cfg_resource :: string
  cfg_api_resource :: string
  cfg_ring_access_minutes :: int
  cfg_ring_session_epoch :: int
  cfg_ring_require_epoch :: bool
  cfg_ring_kids :: "string list"
  cfg_ring_active_kid :: string

definition days :: "int \<Rightarrow> int" where
  "days d = d * 86400000000"

lemma days_pos [simp]: "0 < days d \<longleftrightarrow> 0 < d" "0 \<le> days d \<longleftrightarrow> 0 \<le> d"
  by (auto simp: days_def)


section \<open>Principals\<close>

datatype principal_kind = PK_USER | PK_AGENT

record principal =
  pr_kind :: principal_kind
  pr_id :: string

fun kind_value :: "principal_kind \<Rightarrow> string" where
  "kind_value PK_USER = ''user''"
| "kind_value PK_AGENT = ''agent''"

definition kind_of_value :: "string \<Rightarrow> principal_kind option" where
  "kind_of_value s = (if s = ''user'' then Some PK_USER else if s = ''agent'' then Some PK_AGENT else None)"

definition user_subject :: "string \<Rightarrow> string" where
  "user_subject user_id = kind_value PK_USER @ '':'' @ user_id"

definition agent_subject :: "string \<Rightarrow> string" where
  "agent_subject agent_id = kind_value PK_AGENT @ '':'' @ agent_id"

text \<open>\<open>subject.partition(":")\<close>.\<close>

definition partition_colon :: "string \<Rightarrow> string \<times> string \<times> string" where
  "partition_colon s =
     (case dropWhile (\<lambda>c. c \<noteq> CHR '':'') s of
        [] \<Rightarrow> (s, [], [])
      | c # rest \<Rightarrow> (takeWhile (\<lambda>c. c \<noteq> CHR '':'') s, [c], rest))"

definition parse_subject :: "string \<Rightarrow> auth_error + principal" where
  "parse_subject subject =
     (case partition_colon subject of (prefix, separator, ident) \<Rightarrow>
        if separator \<noteq> '':'' \<or> ident = [] then Inl InvalidPrincipalSubject
        else (case kind_of_value prefix of
                None \<Rightarrow> Inl InvalidPrincipalSubject
              | Some kind \<Rightarrow> Inr \<lparr>pr_kind = kind, pr_id = ident\<rparr>))"

lemma parse_user_subject [simp]:
  "parse_subject (user_subject i) =
     (if i = [] then Inl InvalidPrincipalSubject else Inr \<lparr>pr_kind = PK_USER, pr_id = i\<rparr>)"
  by (simp add: parse_subject_def user_subject_def partition_colon_def kind_of_value_def)

lemma parse_agent_subject [simp]:
  "parse_subject (agent_subject i) =
     (if i = [] then Inl InvalidPrincipalSubject else Inr \<lparr>pr_kind = PK_AGENT, pr_id = i\<rparr>)"
  by (simp add: parse_subject_def agent_subject_def partition_colon_def kind_of_value_def)

lemma parse_subject_Inr:
  assumes "parse_subject s = Inr p"
  shows "s = kind_value (pr_kind p) @ '':'' @ pr_id p" "pr_id p \<noteq> []"
proof -
  obtain c rest where d: "dropWhile (\<lambda>c. c \<noteq> CHR '':'') s = c # rest"
    using assms by (auto simp: parse_subject_def partition_colon_def split: list.splits)
  have c: "c = CHR '':''"
    using assms d by (simp add: parse_subject_def partition_colon_def split: if_splits)
  have s: "s = takeWhile (\<lambda>c. c \<noteq> CHR '':'') s @ c # rest"
    using d by (metis takeWhile_dropWhile_id)
  show "s = kind_value (pr_kind p) @ '':'' @ pr_id p" "pr_id p \<noteq> []"
    using assms d s c
    by (auto simp: parse_subject_def partition_colon_def kind_of_value_def split: if_splits option.splits)
qed


section \<open>Passwords\<close>

text \<open>
  Bytes are naturals below 256 and \<open>pbkdf2\<close> is the key derivation of the Python runtime
  (PBKDF2-HMAC-SHA256 with 100000 rounds). \<open>bytes.fromhex\<close> skips white space between the pairs
  of digits and accepts digits of both cases.
\<close>

definition hex_char :: "nat \<Rightarrow> char" where
  "hex_char n = ''0123456789abcdef'' ! n"

definition hex_value :: "char \<Rightarrow> nat option" where
  "hex_value c =
     (let n = (of_char c :: nat)
      in if 48 \<le> n \<and> n \<le> 57 then Some (n - 48)
         else if 97 \<le> n \<and> n \<le> 102 then Some (n - 87)
         else if 65 \<le> n \<and> n \<le> 70 then Some (n - 55)
         else None)"

definition bytes_hex :: "nat list \<Rightarrow> string" where
  "bytes_hex bs = concat (map (\<lambda>b. [hex_char (b div 16), hex_char (b mod 16)]) bs)"

fun bytes_fromhex :: "string \<Rightarrow> nat list option" where
  "bytes_fromhex [] = Some []"
| "bytes_fromhex (c # cs) =
     (if c \<in> set (map char_of [9::nat, 10, 11, 12, 13, 32]) then bytes_fromhex cs
      else case cs of [] \<Rightarrow> None
           | d # ds \<Rightarrow>
               (case (hex_value c, hex_value d) of
                  (Some x, Some y) \<Rightarrow> map_option (Cons (16 * x + y)) (bytes_fromhex ds)
                | _ \<Rightarrow> None))"

definition hash_password :: "(string \<Rightarrow> nat list \<Rightarrow> nat list) \<Rightarrow> nat list \<Rightarrow> string \<Rightarrow> string" where
  "hash_password pbkdf2 salt password = bytes_hex salt @ '':'' @ bytes_hex (pbkdf2 password salt)"

definition verify_password :: "(string \<Rightarrow> nat list \<Rightarrow> nat list) \<Rightarrow> string \<Rightarrow> string \<Rightarrow> bool" where
  "verify_password pbkdf2 password password_hash =
     (case split_char CHR '':'' password_hash of
        [salt_hex, key_hex] \<Rightarrow>
          (case (bytes_fromhex salt_hex, bytes_fromhex key_hex) of
             (Some salt, Some stored_key) \<Rightarrow> pbkdf2 password salt = stored_key
           | _ \<Rightarrow> False)
      | _ \<Rightarrow> False)"

definition validate_password :: "string \<Rightarrow> bool" where
  "validate_password password = (8 \<le> length password)"

lemma hex_value_digit: "n < 16 \<Longrightarrow> hex_value (hex_char n) = Some n"
proof -
  have "\<forall>n \<in> {..<16}. hex_value (hex_char n) = Some n"
    by (simp add: lessThan_nat_numeral lessThan_Suc hex_char_def hex_value_def of_char_def)
  then show "n < 16 \<Longrightarrow> hex_value (hex_char n) = Some n" by simp
qed

lemma hex_char_plain: "n < 16 \<Longrightarrow> hex_char n \<noteq> CHR '':'' \<and> hex_char n \<notin> set (map char_of [9::nat, 10, 11, 12, 13, 32])"
proof -
  have "\<forall>n \<in> {..<16}. hex_char n \<noteq> CHR '':'' \<and> hex_char n \<notin> set (map char_of [9::nat, 10, 11, 12, 13, 32])"
    by (simp add: lessThan_nat_numeral lessThan_Suc hex_char_def char_of_def)
  then show "n < 16 \<Longrightarrow> hex_char n \<noteq> CHR '':'' \<and> hex_char n \<notin> set (map char_of [9::nat, 10, 11, 12, 13, 32])" by simp
qed

definition byte_list :: "nat list \<Rightarrow> bool" where
  "byte_list bs = (\<forall>b \<in> set bs. b < 256)"

lemma bytes_hex_roundtrip: "byte_list bs \<Longrightarrow> bytes_fromhex (bytes_hex bs) = Some bs"
proof (induction bs)
  case (Cons b bs)
  have "b div 16 < 16" "b mod 16 < 16" using Cons.prems by (auto simp: byte_list_def)
  then show ?case
    using Cons hex_char_plain [of "b div 16"] by (simp add: bytes_hex_def byte_list_def hex_value_digit)
qed (simp add: bytes_hex_def)

lemma bytes_hex_no_colon: "byte_list bs \<Longrightarrow> CHR '':'' \<notin> set (bytes_hex bs)"
proof (induction bs)
  case (Cons b bs)
  have "b div 16 < 16" "b mod 16 < 16" using Cons.prems by (auto simp: byte_list_def)
  then show ?case
    using Cons hex_char_plain [of "b div 16"] hex_char_plain [of "b mod 16"]
    by (simp add: bytes_hex_def byte_list_def eq_commute [of "CHR '':''"])
qed (simp add: bytes_hex_def)

lemma verify_hash_password:
  assumes "byte_list salt" and "byte_list (pbkdf2 password salt)"
  shows "verify_password pbkdf2 attempt (hash_password pbkdf2 salt password) \<longleftrightarrow>
    pbkdf2 attempt salt = pbkdf2 password salt"
  using assms
  by (simp add: verify_password_def hash_password_def split_char_append split_char_part bytes_hex_no_colon bytes_hex_roundtrip)

end
