(* ===== verification/OAuth_Tokens.thy ===== *)
theory OAuth_Tokens
  imports Auth_Models
begin

text \<open>
  The credentials a user can hold and the operations on them: browser sessions
  (\<open>server/auth/router.py\<close>), authorization codes (\<open>server/auth/auth_routes.py\<close>), OAuth refresh
  tokens with their rotation and reuse detection (\<open>server/auth/oauth_provider.py\<close>), personal
  tokens (\<open>server/core/personal_token_service.py\<close>), password mutation
  (\<open>server/auth/credential_mutation.py\<close>) and the sweeper (\<open>server/auth/cleanup.py\<close>).

  An operation is a function of the state it finds and returns what the client sees, an error or a
  value, with the state it commits: reuse detection commits its revocations and then raises.
  Random draws and the clock are arguments.
\<close>


section \<open>The libraries\<close>

text \<open>
  The claims of a token: those of \<open>_access_token_payload\<close>, and the session tokens of
  \<open>jwt_manager\<close>, which lack some of them. \<open>cl_credential_epoch\<close> is \<open>None\<close> when the claim
  is absent or not an integer.
\<close>

record claims =
  cl_iss :: "string option"
  cl_sub :: "string option"
  cl_aud :: "string option"
  cl_jti :: "string option"
  cl_iat :: "int option"
  cl_exp :: "int option"
  cl_type :: "string option"
  cl_client_id :: "string option"
  cl_scope :: "string option"
  cl_access_mode :: "string option"
  cl_agent_id :: "string option"
  cl_role :: "user_role option"
  cl_credential_epoch :: "int option"
  cl_session_epoch :: "int option"

record external_identity =
  ei_provider_type :: string
  ei_provider_key :: string
  ei_provider_fingerprint :: string
  ei_subject :: string
  ei_scopes :: "string list"
  ei_expires_at :: "time option"

datatype validation = Identity external_identity | Invalid | Unavailable

text \<open>
  Library functions: SHA-256 hex digest, case folding, PBKDF2, the encoding of claims as a signed
  token, the key id in the header of a token, its verified decoding (with the id of the public
  key, what is demanded of the audience, the issuer and the time), and the validation of an
  external token stored encrypted, which asks its provider.
\<close>

datatype audience = AudienceUnchecked | AudienceAbsent | AudienceIn "string list"

record auth_lib =
  lib_digest :: "string \<Rightarrow> string"
  lib_casefold :: "string \<Rightarrow> string"
  lib_pbkdf2 :: "string \<Rightarrow> nat list \<Rightarrow> nat list"
  lib_jwt_encode :: "claims \<Rightarrow> string"
  lib_jwt_kid :: "string \<Rightarrow> string option"
  lib_jwt_decode :: "string \<Rightarrow> audience \<Rightarrow> string option \<Rightarrow> time \<Rightarrow> string \<Rightarrow> claims option"
  lib_validate :: "string \<Rightarrow> validation"

text \<open>The draws of one issuance: the secret, the token family and the token id.\<close>

record token_draws =
  td_secret :: string
  td_family :: string
  td_jti :: string

definition personal_prefix :: string where "personal_prefix = ''pas_personal_''"
definition personal_client :: string where "personal_client = ''pas-internal-personal-access-v1''"

definition starts_with :: "string \<Rightarrow> string \<Rightarrow> bool" where
  "starts_with p s = (take (length p) s = p)"


section \<open>Revocation\<close>

text \<open>\<open>UPDATE ... SET revoked_at = now WHERE ... AND revoked_at IS NULL\<close> on the two tables of refresh
  tokens and on the external sessions.\<close>

definition revoke_refresh :: "(oauth_refresh \<Rightarrow> bool) \<Rightarrow> time \<Rightarrow> oauth_refresh list \<Rightarrow> oauth_refresh list" where
  "revoke_refresh P now rows =
     map (\<lambda>r. if P r \<and> or_revoked_at r = None then r\<lparr>or_revoked_at := Some now\<rparr> else r) rows"

definition revoke_browser :: "(user_refresh \<Rightarrow> bool) \<Rightarrow> time \<Rightarrow> user_refresh list \<Rightarrow> user_refresh list" where
  "revoke_browser P now rows =
     map (\<lambda>r. if P r \<and> ur_revoked_at r = None then r\<lparr>ur_revoked_at := Some now\<rparr> else r) rows"

definition revoke_externals :: "string \<Rightarrow> time \<Rightarrow> external_session list \<Rightarrow> external_session list" where
  "revoke_externals family now rows =
     map (\<lambda>r. if xs_token_family r = family \<and> xs_revoked_at r = None then r\<lparr>xs_revoked_at := Some now\<rparr> else r) rows"

definition revoke_token_family :: "string \<Rightarrow> time \<Rightarrow> auth_state \<Rightarrow> auth_state" where
  "revoke_token_family family now st =
     st\<lparr>as_refresh := revoke_refresh (\<lambda>r. or_token_family r = family) now (as_refresh st),
        as_externals := revoke_externals family now (as_externals st)\<rparr>"

text \<open>The answer to a replayed authorization code: every token minted from it, revoked or not.\<close>

definition revoke_code_tokens :: "string \<Rightarrow> time \<Rightarrow> auth_state \<Rightarrow> auth_state" where
  "revoke_code_tokens code_hash now st =
     st\<lparr>as_refresh := map (\<lambda>r. if or_code_id r = Some code_hash then r\<lparr>or_revoked_at := Some now\<rparr> else r)
        (as_refresh st)\<rparr>"


section \<open>Browser sessions\<close>

definition session_claims :: "auth_config \<Rightarrow> user \<Rightarrow> time \<Rightarrow> claims" where
  "session_claims cfg user now =
     \<lparr>cl_iss = None, cl_sub = Some (user_subject (u_id user)), cl_aud = None, cl_jti = None,
      cl_iat = Some (now div 1000000),
      cl_exp = Some (now div 1000000 + cfg_ring_access_minutes cfg * 60),
      cl_type = Some ''access'', cl_client_id = None, cl_scope = None, cl_access_mode = None,
      cl_agent_id = None, cl_role = Some (u_role user),
      cl_credential_epoch = Some (u_credential_epoch user),
      cl_session_epoch = Some (cfg_ring_session_epoch cfg)\<rparr>"

text \<open>
  \<open>create_refresh_record\<close>: the expiry counts from the whole second. The token hash is unique in
  the table.
\<close>

definition create_refresh_record ::
  "auth_lib \<Rightarrow> auth_config \<Rightarrow> token_draws \<Rightarrow> string \<Rightarrow> string option \<Rightarrow> time \<Rightarrow> auth_state \<Rightarrow>
   auth_error + auth_state" where
  "create_refresh_record lib cfg dr user_id family now st =
     (let row = \<lparr>ur_user_id = user_id, ur_token_hash = lib_digest lib (td_secret dr),
                 ur_token_family = (case family of Some f \<Rightarrow> f | None \<Rightarrow> td_family dr),
                 ur_expires_at = now div 1000000 * 1000000 + days (cfg_refresh_token_expire_days cfg),
                 ur_revoked_at = None\<rparr>
      in if ur_token_hash row \<in> ur_token_hash ` set (as_browser st) then Inl AuthIntegrityError
         else Inr (st\<lparr>as_browser := as_browser st @ [row]\<rparr>))"

definition authenticate_builtin :: "auth_lib \<Rightarrow> string \<Rightarrow> string \<Rightarrow> auth_state \<Rightarrow> user option" where
  "authenticate_builtin lib username password st =
     (case find (\<lambda>u. u_external_id u = username \<and> u_auth_provider u = AUTH_BUILTIN) (as_users st) of
        None \<Rightarrow> None
      | Some user \<Rightarrow>
          if effective_password_state user = RESET_REQUIRED then None
          else (case u_password_hash user of
                  None \<Rightarrow> None
                | Some h \<Rightarrow>
                    if h = [] then None
                    else if verify_password (lib_pbkdf2 lib) password h then Some user else None))"

text \<open>What a login hands out: the access token and the refresh token of the cookie.\<close>

type_synonym session_grant = "string \<times> string"

definition login_limited ::
  "auth_lib \<Rightarrow> string \<Rightarrow> string \<Rightarrow> time \<Rightarrow> auth_state \<Rightarrow> auth_error option \<times> auth_state" where
  "login_limited lib remote username clock st =
     (case check_builtin_login (lib_casefold lib) (lib_digest lib) remote username clock (as_login_limiters st) of
        (v, lms) \<Rightarrow>
          (case v of Admitted \<Rightarrow> None | Exceeded _ \<Rightarrow> Some (HTTPException 429) | Crashed \<Rightarrow> Some AuthIndexError,
           st\<lparr>as_login_limiters := lms\<rparr>))"

definition login ::
  "auth_lib \<Rightarrow> auth_config \<Rightarrow> token_draws \<Rightarrow> string \<Rightarrow> string \<Rightarrow> string \<Rightarrow> time \<Rightarrow> time \<Rightarrow> auth_state \<Rightarrow>
   (auth_error + session_grant) \<times> auth_state" where
  "login lib cfg dr remote username password clock now st =
     (if cfg_oidc_mode cfg then (Inl (HTTPException 409), st)
      else case login_limited lib remote username clock st of
             (Some e, st1) \<Rightarrow> (Inl e, st1)
           | (None, st1) \<Rightarrow>
               (case authenticate_builtin lib username password st1 of
                  None \<Rightarrow> (Inl (HTTPException 401), st1)
                | Some user \<Rightarrow>
                    if u_status user = USER_DISABLED then (Inl (HTTPException 403), st1)
                    else (case create_refresh_record lib cfg dr (u_id user) None now st1 of
                            Inl e \<Rightarrow> (Inl e, st1)
                          | Inr st2 \<Rightarrow>
                              (Inr (lib_jwt_encode lib (session_claims cfg user now), td_secret dr), st2))))"

text \<open>\<open>POST /auth/refresh\<close>: the owner is locked first, then the token. Reuse and expiry revoke the
  family.\<close>

definition refresh ::
  "auth_lib \<Rightarrow> auth_config \<Rightarrow> token_draws \<Rightarrow> string option \<Rightarrow> time \<Rightarrow> auth_state \<Rightarrow>
   (auth_error + session_grant) \<times> auth_state" where
  "refresh lib cfg dr cookie now st =
     (case cookie of
        None \<Rightarrow> (Inl (HTTPException 401), st)
      | Some token \<Rightarrow>
          if token = [] then (Inl (HTTPException 401), st)
          else
          (case tget ur_token_hash (lib_digest lib token) (as_browser st) of
             None \<Rightarrow> (Inl (HTTPException 401), st)
           | Some rec \<Rightarrow>
               (case tget u_id (ur_user_id rec) (as_users st) of
                  None \<Rightarrow> (Inl (HTTPException 401), st)
                | Some user \<Rightarrow>
                    if ur_revoked_at rec \<noteq> None \<or> ur_expires_at rec < now
                    then (Inl (HTTPException 401),
                          st\<lparr>as_browser := revoke_browser (\<lambda>r. ur_token_family r = ur_token_family rec) now
                               (as_browser st)\<rparr>)
                    else if u_status user = USER_DISABLED then (Inl (HTTPException 403), st)
                    else
                    let st1 = st\<lparr>as_browser := tupd ur_token_hash (ur_token_hash rec)
                                (\<lambda>r. r\<lparr>ur_revoked_at := Some now\<rparr>) (as_browser st)\<rparr>
                    in (case create_refresh_record lib cfg dr (u_id user) (Some (ur_token_family rec)) now st1 of
                          Inl e \<Rightarrow> (Inl e, st)
                        | Inr st2 \<Rightarrow>
                            (Inr (lib_jwt_encode lib (session_claims cfg user now), td_secret dr), st2)))))"

definition logout :: "auth_lib \<Rightarrow> string option \<Rightarrow> time \<Rightarrow> auth_state \<Rightarrow> auth_state" where
  "logout lib cookie now st =
     (case cookie of
        None \<Rightarrow> st
      | Some token \<Rightarrow>
          if token = [] then st
          else st\<lparr>as_browser := revoke_browser (\<lambda>r. ur_token_hash r = lib_digest lib token) now (as_browser st)\<rparr>)"



section \<open>Authorization codes\<close>

text \<open>
  Both login paths store the row built here. \<open>add_code\<close> is the insert: the hash is the
  primary key.
\<close>

definition new_code :: "auth_lib \<Rightarrow> pending_auth \<Rightarrow> string \<Rightarrow> string \<Rightarrow> time \<Rightarrow> auth_code" where
  "new_code lib pending user_id code now =
     \<lparr>ac_code_hash = lib_digest lib code, ac_client_id = pa_client_id pending, ac_user_id = user_id,
      ac_redirect_uri = pa_redirect_uri pending, ac_redirect_uri_provided_explicitly = True,
      ac_code_challenge = pa_code_challenge pending,
      ac_code_challenge_method = pa_code_challenge_method pending,
      ac_resource = pa_resource pending, ac_scopes = pa_scopes pending,
      ac_expires_at = now + seconds 300, ac_consumed_at = None\<rparr>"

definition add_code :: "auth_code \<Rightarrow> auth_state \<Rightarrow> auth_error + auth_state" where
  "add_code row st =
     (if ac_code_hash row \<in> ac_code_hash ` set (as_codes st) then Inl AuthIntegrityError
      else Inr (st\<lparr>as_codes := as_codes st @ [row]\<rparr>))"

text \<open>\<open>POST /mcp-auth/login/callback\<close>: the value is the code of the redirect.\<close>

definition handle_login_callback ::
  "auth_lib \<Rightarrow> string \<Rightarrow> string \<Rightarrow> string \<Rightarrow> string \<Rightarrow> string \<Rightarrow> time \<Rightarrow> time \<Rightarrow> auth_state \<Rightarrow>
   (auth_error + string) \<times> auth_state" where
  "handle_login_callback lib code remote session_id username password clock now st =
     (if session_id = [] \<or> username = [] \<or> password = [] then (Inl (HTTPException 400), st)
      else case login_limited lib remote username clock st of
             (Some e, st1) \<Rightarrow> (Inl e, st1)
           | (None, st1) \<Rightarrow>
               (case tget pa_session_id session_id (as_pendings st1) of
                  None \<Rightarrow> (Inl (HTTPException 404), st1)
                | Some pending \<Rightarrow>
                    if pa_expires_at pending < now then (Inl (HTTPException 410), st1)
                    else
                    (case authenticate_builtin lib username password st1 of
                       None \<Rightarrow> (Inl (HTTPException 401), st1)
                     | Some user \<Rightarrow>
                         (case add_code (new_code lib pending (u_id user) code now) st1 of
                            Inl e \<Rightarrow> (Inl e, st1)
                          | Inr st2 \<Rightarrow>
                              (Inr code,
                               st2\<lparr>as_pendings := filter (\<lambda>p. pa_session_id p \<noteq> session_id) (as_pendings st2)\<rparr>)))))"

text \<open>The grant the SDK gets back for a code.\<close>

record code_grant =
  cg_code :: string
  cg_scopes :: "string list"
  cg_expires_at :: time
  cg_client_id :: string
  cg_code_challenge :: string
  cg_redirect_uri :: string
  cg_resource :: "string option"
  cg_subject :: "string option"

definition load_authorization_code ::
  "auth_lib \<Rightarrow> string \<Rightarrow> time \<Rightarrow> auth_state \<Rightarrow> code_grant option \<times> auth_state" where
  "load_authorization_code lib code now st =
     (let code_hash = lib_digest lib code in
      case tget ac_code_hash code_hash (as_codes st) of
        None \<Rightarrow> (None, st)
      | Some row \<Rightarrow>
          if ac_consumed_at row \<noteq> None then (None, revoke_code_tokens code_hash now st)
          else (Some \<lparr>cg_code = code, cg_scopes = ac_scopes row, cg_expires_at = ac_expires_at row,
                      cg_client_id = ac_client_id row, cg_code_challenge = ac_code_challenge row,
                      cg_redirect_uri = ac_redirect_uri row, cg_resource = ac_resource row,
                      cg_subject = Some (user_subject (ac_user_id row))\<rparr>, st))"


section \<open>Access token payloads\<close>

definition access_token_payload ::
  "auth_config \<Rightarrow> string \<Rightarrow> string option \<Rightarrow> string \<Rightarrow> string list \<Rightarrow> int option \<Rightarrow> string option \<Rightarrow>
   string \<Rightarrow> time \<Rightarrow> claims" where
  "access_token_payload cfg subject resource client_id scopes expires_in agent_id jti now =
     (let expires = (case expires_in of Some e \<Rightarrow> e | None \<Rightarrow> cfg_access_token_expire_minutes cfg * 60)
      in \<lparr>cl_iss = Some (cfg_issuer cfg), cl_sub = Some subject,
          cl_aud = Some (case resource of Some r \<Rightarrow> if r = [] then cfg_resource cfg else r
                         | None \<Rightarrow> cfg_resource cfg),
          cl_jti = Some jti, cl_iat = Some (now div 1000000), cl_exp = Some (now div 1000000 + expires),
          cl_type = Some ''access'', cl_client_id = Some client_id,
          cl_scope = Some (join_text '' '' scopes),
          cl_access_mode = (if resource = Some (cfg_resource cfg @ ''/personal'') then Some ''personal'' else None),
          cl_agent_id = (case agent_id of Some a \<Rightarrow> if a = [] then None else Some a | None \<Rightarrow> None),
          cl_role = None, cl_credential_epoch = None, cl_session_epoch = None\<rparr>)"

definition builtin_credential_claim :: "user \<Rightarrow> claims \<Rightarrow> claims" where
  "builtin_credential_claim user c =
     (if u_auth_provider user = AUTH_BUILTIN
      then c\<lparr>cl_credential_epoch := Some (u_credential_epoch user)\<rparr> else c)"

record oauth_token =
  ot_access_token :: string
  ot_refresh_token :: "string option"
  ot_expires_in :: int
  ot_scope :: string


section \<open>Code exchange\<close>

text \<open>The row of a refresh token, and its insert under the primary key.\<close>

definition new_refresh ::
  "auth_lib \<Rightarrow> auth_config \<Rightarrow> string \<Rightarrow> string \<Rightarrow> string \<Rightarrow> string option \<Rightarrow> string \<Rightarrow> string list \<Rightarrow>
   string option \<Rightarrow> time \<Rightarrow> oauth_refresh" where
  "new_refresh lib cfg secret client_id user_id code_id family scopes resource now =
     \<lparr>or_token_hash = lib_digest lib secret, or_client_id = client_id, or_user_id = user_id,
      or_code_id = code_id, or_token_family = family, or_scopes = scopes, or_resource = resource,
      or_expires_at = Some (now + days (cfg_refresh_token_expire_days cfg)), or_revoked_at = None\<rparr>"

definition add_refresh :: "oauth_refresh \<Rightarrow> auth_state \<Rightarrow> auth_error + auth_state" where
  "add_refresh row st =
     (if or_token_hash row \<in> or_token_hash ` set (as_refresh st) then Inl AuthIntegrityError
      else Inr (st\<lparr>as_refresh := as_refresh st @ [row]\<rparr>))"

text \<open>A subject that names a user, as both exchanges demand it.\<close>

definition user_of_subject :: "string \<Rightarrow> string option \<Rightarrow> auth_error + string" where
  "user_of_subject what subject =
     (case subject of
        None \<Rightarrow> Inl (AuthValueError (what @ '' subject must be a User''))
      | Some s \<Rightarrow>
          (case parse_subject s of
             Inl e \<Rightarrow> Inl e
           | Inr p \<Rightarrow> if pr_kind p = PK_USER then Inr (pr_id p)
                      else Inl (AuthValueError (what @ '' subject must be a User''))))"

definition available_user :: "string \<Rightarrow> auth_state \<Rightarrow> user option" where
  "available_user user_id st =
     (case tget u_id user_id (as_users st) of
        None \<Rightarrow> None | Some user \<Rightarrow> if u_status user = USER_DISABLED then None else Some user)"

definition exchange_authorization_code ::
  "auth_lib \<Rightarrow> auth_config \<Rightarrow> token_draws \<Rightarrow> code_grant \<Rightarrow> time \<Rightarrow> auth_state \<Rightarrow>
   (auth_error + oauth_token) \<times> auth_state" where
  "exchange_authorization_code lib cfg dr grant now st =
     (case user_of_subject ''Authorization code'' (cg_subject grant) of
        Inl e \<Rightarrow> (Inl e, st)
      | Inr user_id \<Rightarrow>
     (case available_user user_id st of
        None \<Rightarrow> (Inl (AuthValueError ''Authorization code user is unavailable''), st)
      | Some user \<Rightarrow>
     (let code_hash = lib_digest lib (cg_code grant);
          unavailable = (Inl (AuthValueError ''Authorization code is unavailable''), st)
      in case tget ac_code_hash code_hash (as_codes st) of
        None \<Rightarrow> unavailable
      | Some row \<Rightarrow>
          if ac_user_id row \<noteq> u_id user \<or> ac_client_id row \<noteq> cg_client_id grant then unavailable
          else if ac_consumed_at row \<noteq> None
          then (Inl (AuthValueError ''Authorization code already consumed''), revoke_code_tokens code_hash now st)
          else
          let st1 = st\<lparr>as_codes := tupd ac_code_hash code_hash (\<lambda>c. c\<lparr>ac_consumed_at := Some now\<rparr>) (as_codes st)\<rparr>;
              payload = builtin_credential_claim user
                (access_token_payload cfg (the (cg_subject grant)) (cg_resource grant) (cg_client_id grant)
                   (cg_scopes grant) None None (td_jti dr) now);
              row = new_refresh lib cfg (td_secret dr) (cg_client_id grant) user_id (Some code_hash)
                (td_family dr) (cg_scopes grant) (cg_resource grant) now
          in case add_refresh row st1 of
               Inl e \<Rightarrow> (Inl e, st)
             | Inr st2 \<Rightarrow>
                 (Inr \<lparr>ot_access_token = lib_jwt_encode lib payload, ot_refresh_token = Some (td_secret dr),
                       ot_expires_in = cfg_access_token_expire_minutes cfg * 60,
                       ot_scope = join_text '' '' (cg_scopes grant)\<rparr>, st2))))"


section \<open>Refresh tokens\<close>

record refresh_grant =
  rg_token :: string
  rg_client_id :: string
  rg_scopes :: "string list"
  rg_expires_at :: "int option"
  rg_subject :: "string option"

definition expired :: "time option \<Rightarrow> time \<Rightarrow> bool" where
  "expired expires_at now = (case expires_at of None \<Rightarrow> False | Some t \<Rightarrow> t \<le> now)"

definition load_refresh_token ::
  "auth_lib \<Rightarrow> string \<Rightarrow> time \<Rightarrow> auth_state \<Rightarrow> refresh_grant option \<times> auth_state" where
  "load_refresh_token lib token now st =
     (if starts_with personal_prefix token then (None, st)
      else case tget or_token_hash (lib_digest lib token) (as_refresh st) of
        None \<Rightarrow> (None, st)
      | Some row \<Rightarrow>
          if or_revoked_at row \<noteq> None then (None, revoke_token_family (or_token_family row) now st)
          else if expired (or_expires_at row) now then (None, st)
          else (Some \<lparr>rg_token = token, rg_client_id = or_client_id row, rg_scopes = or_scopes row,
                      rg_expires_at = map_option (\<lambda>t. t div 1000000) (or_expires_at row),
                      rg_subject = Some (user_subject (or_user_id row))\<rparr>, st))"

text \<open>
  The exchange of a refresh token reads the table once to see whether an external identity stands
  behind the family (\<open>st0\<close>), asks the provider, and then rotates in a second transaction, which
  finds the state \<open>st\<close>.
\<close>

definition live_external :: "auth_lib \<Rightarrow> string \<Rightarrow> auth_state \<Rightarrow> external_session option" where
  "live_external lib token st =
     (case tget or_token_hash (lib_digest lib token) (as_refresh st) of
        None \<Rightarrow> None
      | Some row \<Rightarrow> find (\<lambda>x. xs_token_family x = or_token_family row \<and> xs_revoked_at x = None) (as_externals st))"

definition same_external_identity :: "external_identity \<Rightarrow> external_session \<Rightarrow> string \<Rightarrow> bool" where
  "same_external_identity ident x user_id =
     (ei_provider_type ident = xs_provider_type x \<and> ei_provider_key ident = xs_provider_key x \<and>
      ei_provider_fingerprint ident = xs_provider_fingerprint x \<and>
      ei_subject ident = xs_external_subject x \<and> user_id = xs_user_id x)"

definition external_access_token_ttl :: "auth_config \<Rightarrow> time option \<Rightarrow> time \<Rightarrow> auth_error + int" where
  "external_access_token_ttl cfg expires_at now =
     (case expires_at of
        None \<Rightarrow> Inr (cfg_external_access_token_ttl_seconds cfg)
      | Some t \<Rightarrow>
          let remaining = (t - now) div 1000000
          in if remaining \<le> 0 then Inl (AuthValueError ''External access token is expired'')
             else Inr (min (cfg_external_access_token_ttl_seconds cfg) remaining))"

text \<open>
  The check of the external identity: an error with a flag that tells whether the family is
  revoked, or the lifetime of the access token.
\<close>

definition check_external ::
  "auth_lib \<Rightarrow> auth_config \<Rightarrow> external_session option \<Rightarrow> string \<Rightarrow> string list \<Rightarrow> time \<Rightarrow>
   (auth_error \<times> bool) + (external_identity \<times> int) option" where
  "check_external lib cfg ext user_id effective_scopes now =
     (case ext of
        None \<Rightarrow> Inr None
      | Some x \<Rightarrow>
          (case lib_validate lib (xs_subject_token_ciphertext x) of
             Unavailable \<Rightarrow> Inl (ExternalTokenUnavailable, False)
           | Invalid \<Rightarrow> Inl (AuthValueError ''External access token is no longer valid'', True)
           | Identity ident \<Rightarrow>
               if \<not> same_external_identity ident x user_id
               then Inl (AuthValueError ''External access token is no longer valid'', True)
               else if ei_scopes ident \<noteq> [] \<and> \<not> set effective_scopes \<subseteq> set (ei_scopes ident)
               then Inl (AuthValueError ''Refresh token scope exceeds the external token grant'', True)
               else (case external_access_token_ttl cfg (ei_expires_at ident) now of
                       Inl e \<Rightarrow> Inl (e, False) | Inr ttl \<Rightarrow> Inr (Some (ident, ttl)))))"

text \<open>The second transaction.\<close>

definition rotate_refresh ::
  "auth_lib \<Rightarrow> auth_config \<Rightarrow> token_draws \<Rightarrow> refresh_grant \<Rightarrow> string \<Rightarrow> string list \<Rightarrow> external_session option \<Rightarrow>
   (external_identity \<times> int) option \<Rightarrow> time \<Rightarrow> auth_state \<Rightarrow> (auth_error + oauth_token) \<times> auth_state" where
  "rotate_refresh lib cfg dr grant user_id scopes ext checked now st =
     (case available_user user_id st of
        None \<Rightarrow> (Inl (AuthValueError ''Refresh token user is unavailable''), st)
      | Some user \<Rightarrow>
     (case tget or_token_hash (lib_digest lib (rg_token grant)) (as_refresh st) of
        None \<Rightarrow> (Inl (AuthValueError ''Refresh token not found''), st)
      | Some old \<Rightarrow>
          if or_user_id old \<noteq> u_id user then (Inl (AuthValueError ''Refresh token not found''), st)
          else if expired (or_expires_at old) now then (Inl (AuthValueError ''Refresh token expired''), st)
          else if or_revoked_at old \<noteq> None
          then (Inl (AuthValueError ''Refresh token already consumed''),
                revoke_token_family (or_token_family old) now st)
          else
          let st1 = st\<lparr>as_refresh := tupd or_token_hash (or_token_hash old)
                      (\<lambda>r. r\<lparr>or_revoked_at := Some now\<rparr>) (as_refresh st)\<rparr>;
              row = new_refresh lib cfg (td_secret dr) (rg_client_id grant) (u_id user) (or_code_id old)
                      (or_token_family old) scopes (or_resource old) now;
              payload = builtin_credential_claim user
                (access_token_payload cfg (the (rg_subject grant)) (or_resource old) (rg_client_id grant)
                   scopes (map_option snd checked) None (td_jti dr) now);
              token = \<lparr>ot_access_token = lib_jwt_encode lib payload, ot_refresh_token = Some (td_secret dr),
                       ot_expires_in = (case checked of Some (_, ttl) \<Rightarrow> ttl
                                        | None \<Rightarrow> cfg_access_token_expire_minutes cfg * 60),
                       ot_scope = join_text '' '' scopes\<rparr>
          in case add_refresh row st1 of
               Inl e \<Rightarrow> (Inl e, st)
             | Inr st2 \<Rightarrow>
                 (case ext of
                    None \<Rightarrow> (Inr token, st2)
                  | Some x \<Rightarrow>
                      (case tget xs_id (xs_id x) (as_externals st2) of
                         None \<Rightarrow> (Inl (AuthValueError ''External token session is unavailable''), st)
                       | Some cur \<Rightarrow>
                           if xs_revoked_at cur \<noteq> None \<or> xs_token_family cur \<noteq> or_token_family old
                           then (Inl (AuthValueError ''External token session is unavailable''), st)
                           else (Inr token,
                             st2\<lparr>as_externals := tupd xs_id (xs_id x) (\<lambda>y. y\<lparr>xs_last_validated_at := now,
                               xs_external_expires_at := (case checked of Some (ident, _) \<Rightarrow> ei_expires_at ident
                                 | None \<Rightarrow> xs_external_expires_at x)\<rparr>) (as_externals st2)\<rparr>)))))"

definition exchange_refresh_token ::
  "auth_lib \<Rightarrow> auth_config \<Rightarrow> token_draws \<Rightarrow> refresh_grant \<Rightarrow> string list \<Rightarrow> time \<Rightarrow> auth_state \<Rightarrow> auth_state \<Rightarrow>
   (auth_error + oauth_token) \<times> auth_state" where
  "exchange_refresh_token lib cfg dr grant scopes now st0 st =
     (if rg_client_id grant = personal_client \<or> starts_with personal_prefix (rg_token grant)
      then (Inl (AuthValueError ''Personal access credentials are not refresh tokens''), st)
      else case user_of_subject ''Refresh token'' (rg_subject grant) of
        Inl e \<Rightarrow> (Inl e, st)
      | Inr user_id \<Rightarrow>
          let effective_scopes = (if scopes \<noteq> [] then scopes else rg_scopes grant);
              ext = live_external lib (rg_token grant) st0
          in case check_external lib cfg ext user_id effective_scopes now of
               Inl (e, dead) \<Rightarrow>
                 (Inl e, if dead then revoke_token_family (xs_token_family (the ext)) now st else st)
             | Inr checked \<Rightarrow> rotate_refresh lib cfg dr grant user_id effective_scopes ext checked now st)"

text \<open>RFC 7009 for a refresh token: the whole family. An unknown token is ignored.\<close>

definition revoke_refresh_token :: "auth_lib \<Rightarrow> string \<Rightarrow> time \<Rightarrow> auth_state \<Rightarrow> auth_state" where
  "revoke_refresh_token lib token now st =
     (case tget or_token_hash (lib_digest lib token) (as_refresh st) of
        None \<Rightarrow> st | Some row \<Rightarrow> revoke_token_family (or_token_family row) now st)"


section \<open>Personal tokens\<close>

definition epoch_code :: "user \<Rightarrow> string" where
  "epoch_code user = ''personal:epoch:'' @ int_text (u_credential_epoch user)"

datatype token_status = TS_ACTIVE | TS_REVOKED | TS_EXPIRED

definition personal_status :: "oauth_refresh \<Rightarrow> user option \<Rightarrow> time \<Rightarrow> token_status" where
  "personal_status row user now =
     (if (case user of None \<Rightarrow> False | Some u \<Rightarrow> or_code_id row \<noteq> Some (epoch_code u)) then TS_REVOKED
      else if or_revoked_at row \<noteq> None then TS_REVOKED
      else (case or_expires_at row of None \<Rightarrow> TS_EXPIRED | Some t \<Rightarrow> if t \<le> now then TS_EXPIRED else TS_ACTIVE))"

definition active_personal :: "user \<Rightarrow> time \<Rightarrow> oauth_refresh \<Rightarrow> bool" where
  "active_personal user now r =
     (or_client_id r = personal_client \<and> or_user_id r = u_id user \<and> or_revoked_at r = None \<and>
      (case or_expires_at r of None \<Rightarrow> False | Some t \<Rightarrow> now < t) \<and> or_code_id r = Some (epoch_code user))"

definition personal_issue ::
  "auth_lib \<Rightarrow> auth_config \<Rightarrow> token_draws \<Rightarrow> string \<Rightarrow> string \<Rightarrow> int \<Rightarrow> time \<Rightarrow> auth_state \<Rightarrow>
   (auth_error + string) \<times> auth_state" where
  "personal_issue lib cfg dr user_id resource expires_in_days now st =
     (if \<not> (1 \<le> expires_in_days \<and> expires_in_days \<le> 365)
      then (Inl (AuthValueError ''Expiry must be between 1 and 365 days''), st)
      else case tget u_id user_id (as_users st) of
        None \<Rightarrow> (Inl (AuthLookupError ''Personal account is unavailable''), st)
      | Some user \<Rightarrow>
          if u_status user \<noteq> USER_ACTIVE then (Inl (AuthLookupError ''Personal account is unavailable''), st)
          else if \<exists>r \<in> set (as_refresh st). active_personal user now r then (Inl ActiveTokenExists, st)
          else
          let plaintext = personal_prefix @ td_secret dr;
              row = \<lparr>or_token_hash = lib_digest lib plaintext, or_client_id = personal_client,
                     or_user_id = user_id, or_code_id = Some (epoch_code user), or_token_family = td_family dr,
                     or_scopes = [], or_resource = Some resource,
                     or_expires_at = Some (now + days expires_in_days), or_revoked_at = None\<rparr>
          in case add_refresh row st of Inl e \<Rightarrow> (Inl e, st) | Inr st1 \<Rightarrow> (Inr plaintext, st1))"

definition personal_revoke ::
  "string \<Rightarrow> string \<Rightarrow> time \<Rightarrow> auth_state \<Rightarrow> (auth_error + oauth_refresh) \<times> auth_state" where
  "personal_revoke user_id token_id now st =
     (case find (\<lambda>r. or_client_id r = personal_client \<and> or_user_id r = user_id \<and> or_token_family r = token_id)
             (as_refresh st) of
        None \<Rightarrow> (Inl (AuthLookupError ''Personal token not found''), st)
      | Some row \<Rightarrow>
          let mark = (\<lambda>r. r\<lparr>or_revoked_at := (case or_revoked_at r of None \<Rightarrow> Some now | Some t \<Rightarrow> Some t)\<rparr>)
          in (Inr (mark row), st\<lparr>as_refresh := tupd or_token_hash (or_token_hash row) mark (as_refresh st)\<rparr>))"

definition personal_resolve :: "auth_lib \<Rightarrow> string \<Rightarrow> time \<Rightarrow> auth_state \<Rightarrow> (user \<times> oauth_refresh) option" where
  "personal_resolve lib plaintext now st =
     (if \<not> starts_with personal_prefix plaintext \<or> 128 < length plaintext then None
      else case find (\<lambda>r. or_token_hash r = lib_digest lib plaintext \<and> or_client_id r = personal_client)
                  (as_refresh st) of
        None \<Rightarrow> None
      | Some row \<Rightarrow>
          if personal_status row None now \<noteq> TS_ACTIVE then None
          else (case tget u_id (or_user_id row) (as_users st) of
                  None \<Rightarrow> None
                | Some user \<Rightarrow>
                    if u_status user \<noteq> USER_ACTIVE \<or> or_code_id row \<noteq> Some (epoch_code user) then None
                    else Some (user, row)))"


section \<open>Passwords, users and the sweeper\<close>

datatype mutation_mode = INITIALIZE | MODIFY | RESET

definition mutation_refused ::
  "auth_lib \<Rightarrow> user \<Rightarrow> mutation_mode \<Rightarrow> string \<Rightarrow> string option \<Rightarrow> auth_error option" where
  "mutation_refused lib user mode new_password old_password =
     (if u_auth_provider user \<noteq> AUTH_BUILTIN then Some BuiltinPasswordRequired
      else if \<not> validate_password new_password then Some PasswordPolicyError
      else case mode of
        INITIALIZE \<Rightarrow>
          if effective_password_state user \<noteq> RESET_REQUIRED then Some AdminPasswordAlreadyInitialized else None
      | MODIFY \<Rightarrow>
          if effective_password_state user \<noteq> PASSWORD_ACTIVE then Some PasswordModificationNotAllowed
          else (case (old_password, u_password_hash user) of
                  (Some old, Some h) \<Rightarrow>
                    if verify_password (lib_pbkdf2 lib) old h then None else Some OldPasswordIncorrect
                | _ \<Rightarrow> Some OldPasswordIncorrect)
      | RESET \<Rightarrow> if old_password \<noteq> None then Some OldPasswordNotAllowed else None)"

definition mutate_builtin_password ::
  "auth_lib \<Rightarrow> nat list \<Rightarrow> string \<Rightarrow> mutation_mode \<Rightarrow> string \<Rightarrow> string option \<Rightarrow> time \<Rightarrow> auth_state \<Rightarrow>
   (auth_error + password_state) \<times> auth_state" where
  "mutate_builtin_password lib salt user_id mode new_password old_password now st =
     (case tget u_id user_id (as_users st) of
        None \<Rightarrow> (Inl (HTTPException 404), st)
      | Some user \<Rightarrow>
          (case mutation_refused lib user mode new_password old_password of
             Some e \<Rightarrow> (Inl e, st)
           | None \<Rightarrow>
               (Inr PASSWORD_ACTIVE,
                st\<lparr>as_users := tupd u_id user_id (\<lambda>u. u\<lparr>
                     u_password_hash := Some (hash_password (lib_pbkdf2 lib) salt new_password),
                     u_password_state := Some PASSWORD_ACTIVE,
                     u_credential_epoch := u_credential_epoch u + 1\<rparr>) (as_users st),
                   as_browser := revoke_browser (\<lambda>r. ur_user_id r = user_id) now (as_browser st),
                   as_refresh := revoke_refresh (\<lambda>r. or_user_id r = user_id) now (as_refresh st),
                   as_codes := map (\<lambda>c. if ac_user_id c = user_id \<and> ac_consumed_at c = None
                     then c\<lparr>ac_consumed_at := Some now\<rparr> else c) (as_codes st)\<rparr>)))"

definition set_user_status :: "string \<Rightarrow> user_status \<Rightarrow> auth_state \<Rightarrow> (auth_error + user) \<times> auth_state" where
  "set_user_status user_id status st =
     (case tget u_id user_id (as_users st) of
        None \<Rightarrow> (Inl (AuthValueError ''User not found''), st)
      | Some user \<Rightarrow>
          (Inr (user\<lparr>u_status := status\<rparr>),
           st\<lparr>as_users := tupd u_id user_id (\<lambda>u. u\<lparr>u_status := status\<rparr>) (as_users st)\<rparr>))"

text \<open>The sweeper, with its retention of consumed codes and revoked tokens.\<close>

definition swept_code :: "time \<Rightarrow> auth_code \<Rightarrow> bool" where
  "swept_code now c =
     (case ac_consumed_at c of Some t \<Rightarrow> t < now - hours 24 | None \<Rightarrow> ac_expires_at c < now)"

definition swept_refresh :: "time \<Rightarrow> oauth_refresh \<Rightarrow> bool" where
  "swept_refresh now r =
     (case or_revoked_at r of
        Some t \<Rightarrow> t < now - days 7
      | None \<Rightarrow> (case or_expires_at r of None \<Rightarrow> False | Some e \<Rightarrow> e < now))"

definition sweep_expired_oauth_rows :: "time \<Rightarrow> auth_state \<Rightarrow> (string \<times> nat) list \<times> auth_state" where
  "sweep_expired_oauth_rows now st =
     ([(''oauth_pending_auths'', rcount (\<lambda>p. pa_expires_at p < now) (as_pendings st)),
       (''oauth_authorization_codes'', rcount (swept_code now) (as_codes st)),
       (''oauth_refresh_tokens'', rcount (swept_refresh now) (as_refresh st)),
       (''oauth_denied_jtis'', rcount (\<lambda>d. dj_expires_at d < now) (as_denied st))],
      st\<lparr>as_pendings := filter (\<lambda>p. \<not> pa_expires_at p < now) (as_pendings st),
         as_codes := filter (\<lambda>c. \<not> swept_code now c) (as_codes st),
         as_refresh := filter (\<lambda>r. \<not> swept_refresh now r) (as_refresh st),
         as_denied := filter (\<lambda>d. \<not> dj_expires_at d < now) (as_denied st)\<rparr>)"

end
