(* ===== verification/Access_Tokens.thy ===== *)
theory Access_Tokens
  imports OAuth_Tokens
begin

text \<open>
  The verification of access tokens: OAuth tokens with the deny list of revoked token ids and its
  cache (\<open>server/auth/oauth_provider.py\<close>), session tokens (\<open>server/auth/jwt_manager.py\<close>,
  \<open>server/auth/dependencies.py\<close>) and personal tokens.
\<close>


section \<open>The deny list\<close>

text \<open>
  The cache maps a token id to the expiry of the token. An entry whose time has passed is dropped
  on a read, and all of them when the cache is full.
\<close>

definition jti_cache_max :: nat where "jti_cache_max = 4096"

definition jti_is_denied_cached ::
  "string \<Rightarrow> time \<Rightarrow> (string \<times> time) list \<Rightarrow> bool option \<times> (string \<times> time) list" where
  "jti_is_denied_cached jti now cache =
     (case map_of cache jti of
        None \<Rightarrow> (None, cache)
      | Some expires \<Rightarrow>
          if expires < now then (None, AList.delete jti cache) else (Some True, cache))"

definition jti_cache_deny :: "string \<Rightarrow> time \<Rightarrow> time \<Rightarrow> (string \<times> time) list \<Rightarrow> (string \<times> time) list" where
  "jti_cache_deny jti expires_at now cache =
     AList.update jti expires_at
       (if jti_cache_max \<le> length cache then filter (\<lambda>e. \<not> snd e < now) cache else cache)"

text \<open>The insert of the revoked id: an id that is already there is left alone.\<close>

definition deny_jti :: "string \<Rightarrow> time \<Rightarrow> time \<Rightarrow> auth_state \<Rightarrow> auth_state" where
  "deny_jti jti expires_at now st =
     st\<lparr>as_jti_cache := jti_cache_deny jti expires_at now (as_jti_cache st),
        as_denied := tensure dj_jti \<lparr>dj_jti = jti, dj_expires_at = expires_at\<rparr> (as_denied st)\<rparr>"

definition revoke_access_token :: "auth_lib \<Rightarrow> auth_config \<Rightarrow> string \<Rightarrow> time \<Rightarrow> auth_state \<Rightarrow> auth_state" where
  "revoke_access_token lib cfg token now st =
     (case lib_jwt_decode lib (cfg_ring_active_kid cfg) AudienceUnchecked None now token of
        None \<Rightarrow> st
      | Some c \<Rightarrow>
          (case (cl_jti c, cl_exp c) of
             (Some jti, Some expiry) \<Rightarrow>
               if jti = [] \<or> expiry = 0 then st else deny_jti jti (seconds expiry) now st
           | _ \<Rightarrow> st))"


section \<open>OAuth access tokens\<close>

definition decode_access_token :: "auth_lib \<Rightarrow> auth_config \<Rightarrow> string \<Rightarrow> time \<Rightarrow> (claims \<times> string \<times> string) option" where
  "decode_access_token lib cfg token now =
     (case lib_jwt_decode lib (cfg_ring_active_kid cfg)
             (AudienceIn [cfg_resource cfg, cfg_resource cfg @ ''/personal'', cfg_api_resource cfg])
             (Some (cfg_issuer cfg)) now token of
        None \<Rightarrow> None
      | Some c \<Rightarrow>
          (case (cl_iss c, cl_aud c, cl_iat c, cl_exp c, cl_sub c, cl_jti c) of
             (Some _, Some _, Some _, Some _, Some subject, Some jti) \<Rightarrow>
               if cl_type c \<noteq> Some ''access'' \<or> subject = [] \<or> jti = [] then None
               else (case parse_subject subject of
                       Inl _ \<Rightarrow> None
                     | Inr p \<Rightarrow> if pr_kind p = PK_USER then Some (c, pr_id p, jti) else None)
           | _ \<Rightarrow> None))"

text \<open>
  The reading of the deny list through the cache: \<open>True\<close> refuses the token. An id found in the
  table only is put into the cache.
\<close>

definition jti_denied :: "string \<Rightarrow> time \<Rightarrow> auth_state \<Rightarrow> bool \<times> auth_state" where
  "jti_denied jti now st =
     (case jti_is_denied_cached jti now (as_jti_cache st) of
        (Some True, cache) \<Rightarrow> (True, st\<lparr>as_jti_cache := cache\<rparr>)
      | (_, cache) \<Rightarrow>
          (case tget dj_jti jti (as_denied st) of
             Some row \<Rightarrow> (True, st\<lparr>as_jti_cache := jti_cache_deny jti (dj_expires_at row) now cache\<rparr>)
           | None \<Rightarrow> (False, st\<lparr>as_jti_cache := cache\<rparr>)))"

definition epoch_refused :: "user \<Rightarrow> claims \<Rightarrow> bool" where
  "epoch_refused user c =
     (u_auth_provider user = AUTH_BUILTIN \<and> cl_credential_epoch c \<noteq> Some (u_credential_epoch user))"

record access_token =
  at_token :: string
  at_client_id :: string
  at_expires_at :: "int option"
  at_resource :: "string option"
  at_subject :: "string option"
  at_personal :: bool

definition load_jwt_access_token ::
  "auth_lib \<Rightarrow> auth_config \<Rightarrow> string \<Rightarrow> time \<Rightarrow> auth_state \<Rightarrow> access_token option \<times> auth_state" where
  "load_jwt_access_token lib cfg token now st =
     (case decode_access_token lib cfg token now of
        None \<Rightarrow> (None, st)
      | Some (c, user_id, jti) \<Rightarrow>
          (case jti_denied jti now st of
             (True, st1) \<Rightarrow> (None, st1)
           | (False, st1) \<Rightarrow>
               (case available_user user_id st1 of
                  None \<Rightarrow> (None, st1)
                | Some user \<Rightarrow>
                    if epoch_refused user c then (None, st1)
                    else (Some \<lparr>at_token = token,
                                at_client_id = (case cl_client_id c of None \<Rightarrow> [] | Some i \<Rightarrow> i),
                                at_expires_at = cl_exp c, at_resource = cl_aud c, at_subject = cl_sub c,
                                at_personal = (cl_access_mode c = Some ''personal'')\<rparr>, st1))))"

definition load_personal_access_token ::
  "auth_lib \<Rightarrow> auth_config \<Rightarrow> string \<Rightarrow> time \<Rightarrow> auth_state \<Rightarrow> access_token option" where
  "load_personal_access_token lib cfg token now st =
     (case personal_resolve lib token now st of
        None \<Rightarrow> None
      | Some (user, row) \<Rightarrow>
          if or_resource row \<noteq> Some (cfg_resource cfg @ ''/personal'') then None
          else Some \<lparr>at_token = token, at_client_id = personal_client,
                     at_expires_at = map_option (\<lambda>t. t div 1000000) (or_expires_at row),
                     at_resource = or_resource row, at_subject = Some (user_subject (u_id user)),
                     at_personal = True\<rparr>)"

text \<open>The two MCP endpoints accept either personal tokens or the others.\<close>

definition mode_accepts :: "bool option \<Rightarrow> access_token option \<Rightarrow> access_token option" where
  "mode_accepts personal_mode access =
     (case (access, personal_mode) of
        (Some a, Some m) \<Rightarrow> if at_personal a = m then Some a else None
      | _ \<Rightarrow> access)"


section \<open>Session tokens\<close>

definition verify_token :: "auth_lib \<Rightarrow> auth_config \<Rightarrow> string \<Rightarrow> time \<Rightarrow> claims option" where
  "verify_token lib cfg token now =
     (case lib_jwt_kid lib token of
        None \<Rightarrow> None
      | Some kid \<Rightarrow>
          if kid \<notin> set (cfg_ring_kids cfg) then None
          else (case lib_jwt_decode lib kid AudienceAbsent None now token of
                  None \<Rightarrow> None
                | Some c \<Rightarrow>
                    if cfg_ring_require_epoch cfg \<and> cl_session_epoch c \<noteq> Some (cfg_ring_session_epoch cfg)
                    then None else Some c))"

definition validate_access_token_user ::
  "auth_lib \<Rightarrow> auth_config \<Rightarrow> string \<Rightarrow> time \<Rightarrow> auth_state \<Rightarrow> auth_error + user" where
  "validate_access_token_user lib cfg token now st =
     (let unauthorized = Inl (HTTPException 401) in
      case verify_token lib cfg token now of
        None \<Rightarrow> unauthorized
      | Some c \<Rightarrow>
          if cl_type c \<noteq> Some ''access'' then unauthorized
          else (case cl_sub c of
                  None \<Rightarrow> unauthorized
                | Some subject \<Rightarrow>
                    (case parse_subject subject of
                       Inl _ \<Rightarrow> unauthorized
                     | Inr p \<Rightarrow>
                         if pr_kind p \<noteq> PK_USER then unauthorized
                         else (case tget u_id (pr_id p) (as_users st) of
                                 None \<Rightarrow> unauthorized
                               | Some user \<Rightarrow>
                                   if u_status user = USER_DISABLED then Inl (HTTPException 403)
                                   else if epoch_refused user c then unauthorized
                                   else Inr user))))"

definition get_current_user ::
  "auth_lib \<Rightarrow> auth_config \<Rightarrow> string option \<Rightarrow> string option \<Rightarrow> time \<Rightarrow> auth_state \<Rightarrow> auth_error + user" where
  "get_current_user lib cfg bearer cookie now st =
     (let given = (\<lambda>t. case t of None \<Rightarrow> False | Some s \<Rightarrow> s \<noteq> []);
          token = (if given bearer then bearer else cookie)
      in if given token then validate_access_token_user lib cfg (the token) now st else Inl (HTTPException 401))"

definition require_admin :: "user \<Rightarrow> auth_error + user" where
  "require_admin user = (if u_role user = ROLE_ADMIN then Inr user else Inl (HTTPException 403))"

end
