(* ===== verification/Auth_Runs.thy ===== *)
theory Auth_Runs
  imports Access_Tokens
begin

text \<open>
  The runs of the authentication service and what holds in all of them: a code yields at most one
  live refresh token, a family that was revoked stays revoked, a password change ends every
  credential issued before it, a revoked access token is refused until it expires, and the login
  limiter bounds the passwords tried on an account.

  The two tables of refresh tokens and the table of codes meet one contract, the locale
  \<open>credential_table\<close>: rows are added under a fresh key, ended once and for all, or swept.
\<close>


section \<open>Tables of credentials\<close>

text \<open>
  \<open>ended\<close> tells that a credential was revoked or consumed. \<open>evolves Q old new\<close>: every row of
  the new table is an old row, possibly ended meanwhile and otherwise unchanged in what \<open>view\<close>
  shows, or a row added meanwhile that satisfies \<open>Q\<close>.
\<close>

locale credential_table =
  fixes view :: "'r \<Rightarrow> 'v" and ended :: "'r \<Rightarrow> bool" and finish :: "time \<Rightarrow> 'r \<Rightarrow> 'r"
  assumes view_finish [simp]: "view (finish t r) = view r"
    and ended_finish [simp]: "ended (finish t r)"
begin

definition evolves :: "('r \<Rightarrow> bool) \<Rightarrow> 'r list \<Rightarrow> 'r list \<Rightarrow> bool" where
  "evolves Q old new \<longleftrightarrow>
     (\<forall>r \<in> set new. (\<exists>r0 \<in> set old. view r = view r0 \<and> (ended r0 \<longrightarrow> ended r)) \<or> Q r)"

lemma evolves_refl [simp]: "evolves Q rows rows"
  by (auto simp: evolves_def)

lemma evolves_trans:
  assumes ab: "evolves Q a b" and bc: "evolves Q' b c"
    and closed: "\<And>r r0. Q r0 \<Longrightarrow> view r = view r0 \<Longrightarrow> Q r"
    and weaker: "\<And>r. Q' r \<Longrightarrow> Q r"
  shows "evolves Q a c"
  unfolding evolves_def
proof
  fix r assume "r \<in> set c"
  then consider r1 where "r1 \<in> set b" "view r = view r1" "ended r1 \<longrightarrow> ended r" | "Q r"
    using bc weaker unfolding evolves_def by blast
  then show "(\<exists>r0 \<in> set a. view r = view r0 \<and> (ended r0 \<longrightarrow> ended r)) \<or> Q r"
  proof cases
    case 1
    then have "(\<exists>r0 \<in> set a. view r1 = view r0 \<and> (ended r0 \<longrightarrow> ended r1)) \<or> Q r1"
      using ab unfolding evolves_def by blast
    with 1 show ?thesis using closed [of r1 r] by auto
  qed blast
qed

lemma evolves_filter [simp]: "evolves Q rows (filter P rows)"
  by (auto simp: evolves_def)

lemma evolves_finish [simp]:
  "evolves Q rows (map (\<lambda>r. if P r then finish t r else r) rows)"
  "evolves Q rows (tupd key k (finish t) rows)"
  unfolding evolves_def tupd_def by (auto intro: bexI disjI1)

lemma evolves_tupd: "(\<And>r. view (f r) = view r \<and> (ended r \<longrightarrow> ended (f r))) \<Longrightarrow> evolves Q rows (tupd key k f rows)"
  unfolding evolves_def tupd_def by (auto intro: bexI disjI1)

lemma evolves_snoc: "evolves Q rows rows' \<Longrightarrow> Q r \<Longrightarrow> evolves Q rows (rows' @ [r])"
  by (auto simp: evolves_def)

text \<open>A row of a table in which the rows of a selection were ended.\<close>

lemma finished_row:
  assumes "x \<in> set (map (\<lambda>r. if P r \<and> \<not> ended r then finish t r else r) rows)"
  obtains r0 where "r0 \<in> set rows" "view x = view r0" "P r0 \<longrightarrow> ended x"
proof -
  from assms obtain r0 where "r0 \<in> set rows" "x = (if P r0 \<and> \<not> ended r0 then finish t r0 else r0)" by auto
  with that show thesis by (cases "P r0 \<and> \<not> ended r0") auto
qed

text \<open>What has ended stays ended: a selection of rows that are all ended, which no added row joins,
  has only ended rows later.\<close>

lemma stays_ended:
  assumes "evolves Q old new" and "\<And>r. Q r \<Longrightarrow> \<not> S (view r)"
    and "\<And>r. r \<in> set old \<Longrightarrow> S (view r) \<Longrightarrow> ended r"
    and "r \<in> set new" "S (view r)"
  shows "ended r"
  using assms unfolding evolves_def by metis

end

text \<open>The three tables, each with what identifies a row and whom it belongs to.\<close>

definition refresh_view :: "oauth_refresh \<Rightarrow> string \<times> string \<times> string \<times> string option" where
  "refresh_view r = (or_token_hash r, or_token_family r, or_user_id r, or_code_id r)"

definition browser_view :: "user_refresh \<Rightarrow> string \<times> string \<times> string" where
  "browser_view r = (ur_token_hash r, ur_token_family r, ur_user_id r)"

definition code_view :: "auth_code \<Rightarrow> string \<times> string" where
  "code_view c = (ac_code_hash c, ac_user_id c)"

definition refresh_ended :: "oauth_refresh \<Rightarrow> bool" where
  "refresh_ended r \<longleftrightarrow> or_revoked_at r \<noteq> None"

definition browser_ended :: "user_refresh \<Rightarrow> bool" where
  "browser_ended r \<longleftrightarrow> ur_revoked_at r \<noteq> None"

definition code_ended :: "auth_code \<Rightarrow> bool" where
  "code_ended c \<longleftrightarrow> ac_consumed_at c \<noteq> None"

lemmas views = refresh_view_def browser_view_def code_view_def
lemmas endeds = refresh_ended_def browser_ended_def code_ended_def

interpretation refreshes: credential_table refresh_view refresh_ended "\<lambda>t r. r\<lparr>or_revoked_at := Some t\<rparr>"
  by unfold_locales (simp_all add: views endeds)

interpretation browsers: credential_table browser_view browser_ended "\<lambda>t r. r\<lparr>ur_revoked_at := Some t\<rparr>"
  by unfold_locales (simp_all add: views endeds)

interpretation auth_codes: credential_table code_view code_ended "\<lambda>t c. c\<lparr>ac_consumed_at := Some t\<rparr>"
  by unfold_locales (simp_all add: views endeds)

lemma revoke_finishes:
  "revoke_refresh P now rows = map (\<lambda>r. if P r \<and> \<not> refresh_ended r then r\<lparr>or_revoked_at := Some now\<rparr> else r) rows"
  "revoke_browser P' now rows' = map (\<lambda>r. if P' r \<and> \<not> browser_ended r then r\<lparr>ur_revoked_at := Some now\<rparr> else r) rows'"
  by (simp_all add: revoke_refresh_def revoke_browser_def endeds)


section \<open>Runs\<close>

text \<open>
  \<open>auth_run lib cfg A (t, st) (t', st')\<close>: between the times \<open>t\<close> and \<open>t'\<close> the service takes the
  state \<open>st\<close> to \<open>st'\<close> by its operations in some order, and no random draw meanwhile hits the set
  \<open>A\<close> of digests and families. A new code's digest is in addition not the origin of a stored
  refresh token. Sessions that wait for a login come from outside, and so do new users.
\<close>

definition fresh_draws :: "auth_lib \<Rightarrow> string set \<Rightarrow> token_draws \<Rightarrow> bool" where
  "fresh_draws lib A dr \<longleftrightarrow>
     td_family dr \<notin> A \<and> lib_digest lib (td_secret dr) \<notin> A \<and>
     lib_digest lib (personal_prefix @ td_secret dr) \<notin> A"

definition fresh_code :: "auth_lib \<Rightarrow> string set \<Rightarrow> string \<Rightarrow> auth_state \<Rightarrow> bool" where
  "fresh_code lib A code st \<longleftrightarrow>
     lib_digest lib code \<notin> A \<and> Some (lib_digest lib code) \<notin> or_code_id ` set (as_refresh st)"

text \<open>A restart of the process loses what it keeps in memory: the cache of the deny list and the login
  limiters. The tables stay.\<close>

definition restart_process :: "auth_state \<Rightarrow> auth_state" where
  "restart_process st = st\<lparr>as_jti_cache := [], as_login_limiters := (login_remote_limiter, login_account_limiter)\<rparr>"

inductive auth_run ::
  "auth_lib \<Rightarrow> auth_config \<Rightarrow> string set \<Rightarrow> time \<times> auth_state \<Rightarrow> time \<times> auth_state \<Rightarrow> bool"
  for lib cfg A where
  waits: "t \<le> now \<Longrightarrow> auth_run lib cfg A (t, st) (now, st)"
| follows: "auth_run lib cfg A a b \<Longrightarrow> auth_run lib cfg A b c \<Longrightarrow> auth_run lib cfg A a c"
| pends: "auth_run lib cfg A (t, st) (t, st\<lparr>as_pendings := ps\<rparr>)"
| joins: "u_id u \<notin> u_id ` set (as_users st) \<Longrightarrow>
    auth_run lib cfg A (t, st) (t, st\<lparr>as_users := as_users st @ [u]\<rparr>)"
| status: "auth_run lib cfg A (t, st) (t, snd (set_user_status i s st))"
| logs_in: "fresh_draws lib A dr \<Longrightarrow>
    auth_run lib cfg A (t, st) (t, snd (login lib cfg dr remote name pw clock t st))"
| refreshes: "fresh_draws lib A dr \<Longrightarrow>
    auth_run lib cfg A (t, st) (t, snd (refresh lib cfg dr cookie t st))"
| logs_out: "auth_run lib cfg A (t, st) (t, logout lib cookie t st)"
| authorizes: "fresh_code lib A code st \<Longrightarrow>
    auth_run lib cfg A (t, st) (t, snd (handle_login_callback lib code remote sid name pw clock t st))"
| authorizes_sso: "fresh_code lib A code st \<Longrightarrow> add_code (new_code lib p i code t) st = Inr st' \<Longrightarrow>
    auth_run lib cfg A (t, st) (t, st')"
| loads_code: "auth_run lib cfg A (t, st) (t, snd (load_authorization_code lib code t st))"
| exchanges_code: "fresh_draws lib A dr \<Longrightarrow>
    auth_run lib cfg A (t, st) (t, snd (exchange_authorization_code lib cfg dr cg t st))"
| loads_refresh: "auth_run lib cfg A (t, st) (t, snd (load_refresh_token lib token t st))"
| exchanges_refresh: "fresh_draws lib A dr \<Longrightarrow>
    auth_run lib cfg A (t, st) (t, snd (exchange_refresh_token lib cfg dr rg scopes t st0 st))"
| revokes_refresh: "auth_run lib cfg A (t, st) (t, revoke_refresh_token lib token t st)"
| revokes_access: "auth_run lib cfg A (t, st) (t, revoke_access_token lib cfg token t st)"
| loads_access: "auth_run lib cfg A (t, st) (t, snd (load_jwt_access_token lib cfg token t st))"
| issues_personal: "fresh_draws lib A dr \<Longrightarrow>
    auth_run lib cfg A (t, st) (t, snd (personal_issue lib cfg dr i resource n t st))"
| revokes_personal: "auth_run lib cfg A (t, st) (t, snd (personal_revoke i f t st))"
| changes_password: "auth_run lib cfg A (t, st) (t, snd (mutate_builtin_password lib salt i m new old t st))"
| sweeps: "auth_run lib cfg A (t, st) (t, snd (sweep_expired_oauth_rows t st))"
| restarts: "auth_run lib cfg A (t, st) (t, restart_process st)"

lemma auth_run_time: "auth_run lib cfg A a b \<Longrightarrow> fst a \<le> fst b"
  by (induction rule: auth_run.induct) auto



section \<open>How the tables evolve\<close>

text \<open>
  A refresh token added during a run has a fresh digest, and it joins a family of the avoided set
  only while the family has a live token: rotation extends a family, nothing revives one.
\<close>

definition newcomer :: "string set \<Rightarrow> oauth_refresh list \<Rightarrow> oauth_refresh \<Rightarrow> bool" where
  "newcomer A old r \<longleftrightarrow> or_token_hash r \<notin> A \<and>
     (or_token_family r \<in> A \<longrightarrow> (\<exists>r0 \<in> set old. or_token_family r0 = or_token_family r \<and> \<not> refresh_ended r0))"

definition browser_newcomer :: "string set \<Rightarrow> user_refresh list \<Rightarrow> user_refresh \<Rightarrow> bool" where
  "browser_newcomer A old r \<longleftrightarrow> ur_token_hash r \<notin> A \<and>
     (ur_token_family r \<in> A \<longrightarrow> (\<exists>r0 \<in> set old. ur_token_family r0 = ur_token_family r \<and> \<not> browser_ended r0))"

definition users_grow :: "user list \<Rightarrow> user list \<Rightarrow> bool" where
  "users_grow a b \<longleftrightarrow> (\<forall>i u. tget u_id i a = Some u \<longrightarrow>
     (\<exists>u'. tget u_id i b = Some u' \<and> u_auth_provider u' = u_auth_provider u \<and>
           u_credential_epoch u \<le> u_credential_epoch u'))"

definition grows :: "string set \<Rightarrow> auth_state \<Rightarrow> auth_state \<Rightarrow> bool" where
  "grows A st st' \<longleftrightarrow>
     refreshes.evolves (newcomer A (as_refresh st)) (as_refresh st) (as_refresh st') \<and>
     browsers.evolves (browser_newcomer A (as_browser st)) (as_browser st) (as_browser st') \<and>
     auth_codes.evolves (\<lambda>c. ac_code_hash c \<notin> A) (as_codes st) (as_codes st') \<and>
     users_grow (as_users st) (as_users st')"

lemma newcomer_trans:
  assumes "refreshes.evolves (newcomer A a) a b" and "newcomer A b r"
  shows "newcomer A a r"
  using assms unfolding newcomer_def refreshes.evolves_def refresh_view_def by (metis prod.inject)

lemma browser_newcomer_trans:
  assumes "browsers.evolves (browser_newcomer A a) a b" and "browser_newcomer A b r"
  shows "browser_newcomer A a r"
  using assms unfolding browser_newcomer_def browsers.evolves_def browser_view_def by (metis prod.inject)

lemma users_grow_refl [simp]: "users_grow a a"
  by (auto simp: users_grow_def)

lemma users_growD:
  assumes "users_grow a b" and "tget u_id i a = Some u"
  obtains u' where "tget u_id i b = Some u'" "u_auth_provider u' = u_auth_provider u"
    "u_credential_epoch u \<le> u_credential_epoch u'"
  using assms unfolding users_grow_def by blast

lemma users_grow_trans:
  assumes ab: "users_grow a b" and bc: "users_grow b c"
  shows "users_grow a c"
  unfolding users_grow_def
proof (intro allI impI)
  fix i u assume "tget u_id i a = Some u"
  with ab obtain u1 where 1: "tget u_id i b = Some u1" "u_auth_provider u1 = u_auth_provider u"
    "u_credential_epoch u \<le> u_credential_epoch u1" by (rule users_growD)
  from bc 1(1) obtain u2 where "tget u_id i c = Some u2" "u_auth_provider u2 = u_auth_provider u1"
    "u_credential_epoch u1 \<le> u_credential_epoch u2" by (rule users_growD)
  with 1 show "\<exists>u'. tget u_id i c = Some u' \<and> u_auth_provider u' = u_auth_provider u \<and>
      u_credential_epoch u \<le> u_credential_epoch u'" by auto
qed

lemma users_grow_snoc [simp]: "users_grow a (a @ [u])"
  by (simp add: users_grow_def table_simps)

lemma users_grow_tupd [simp]:
  assumes "\<And>u. u_id (f u) = u_id u" "\<And>u. u_auth_provider (f u) = u_auth_provider u"
    "\<And>u. u_credential_epoch u \<le> u_credential_epoch (f u)"
  shows "users_grow a (tupd u_id k f a)"
  using assms by (auto simp: users_grow_def tget_tupd)

lemma newcomer_view: "newcomer A a r0 \<Longrightarrow> refresh_view r = refresh_view r0 \<Longrightarrow> newcomer A a r"
  by (simp add: newcomer_def refresh_view_def)

lemma browser_newcomer_view:
  "browser_newcomer A a r0 \<Longrightarrow> browser_view r = browser_view r0 \<Longrightarrow> browser_newcomer A a r"
  by (simp add: browser_newcomer_def browser_view_def)

lemma refreshes_trans:
  "refreshes.evolves (newcomer A a) a b \<Longrightarrow> refreshes.evolves (newcomer A b) b c \<Longrightarrow>
   refreshes.evolves (newcomer A a) a c"
  by (rule refreshes.evolves_trans) (assumption | erule newcomer_trans newcomer_view)+

lemma browsers_trans:
  "browsers.evolves (browser_newcomer A a) a b \<Longrightarrow> browsers.evolves (browser_newcomer A b) b c \<Longrightarrow>
   browsers.evolves (browser_newcomer A a) a c"
  by (rule browsers.evolves_trans) (assumption | erule browser_newcomer_trans browser_newcomer_view)+

lemma codes_trans:
  "auth_codes.evolves (\<lambda>c. ac_code_hash c \<notin> A) a b \<Longrightarrow> auth_codes.evolves (\<lambda>c. ac_code_hash c \<notin> A) b c \<Longrightarrow>
   auth_codes.evolves (\<lambda>c. ac_code_hash c \<notin> A) a c"
  by (rule auth_codes.evolves_trans) (simp_all add: code_view_def)

lemma grows_trans: "grows A a b \<Longrightarrow> grows A b c \<Longrightarrow> grows A a c"
  unfolding grows_def using codes_trans by (blast intro: refreshes_trans browsers_trans users_grow_trans)

lemma grows_refl [simp]: "grows A st st"
  by (simp add: grows_def)

lemma grows_same [simp]:
  "grows A st (st\<lparr>as_pendings := ps\<rparr>)" "grows A st (st\<lparr>as_jti_cache := cs\<rparr>)"
  "grows A st (st\<lparr>as_login_limiters := lms\<rparr>)" "grows A st (st\<lparr>as_externals := xs\<rparr>)"
  "grows A st (restart_process st)"
  by (simp_all add: grows_def restart_process_def)

lemma evolves_revoke [simp]:
  "refreshes.evolves Q rows (revoke_refresh P now rows)"
  "browsers.evolves Q' rows' (revoke_browser P' now rows')"
  by (simp_all add: revoke_refresh_def revoke_browser_def)

lemma grows_revocations [simp]:
  "grows A st (revoke_token_family f now st)" "grows A st (revoke_code_tokens c now st)"
  by (simp_all add: grows_def revoke_token_family_def revoke_code_tokens_def)


lemma grows_sweep [simp]: "grows A st (snd (sweep_expired_oauth_rows now st))"
  by (simp add: grows_def sweep_expired_oauth_rows_def)

lemma grows_status [simp]: "grows A st (snd (set_user_status i s st))"
  by (simp add: grows_def set_user_status_def split: option.splits)

lemma grows_joins: "grows A st (st\<lparr>as_users := as_users st @ [u]\<rparr>)"
  by (simp add: grows_def)

lemma grows_password [simp]: "grows A st (snd (mutate_builtin_password lib salt i m new old now st))"
  by (simp add: grows_def mutate_builtin_password_def split: option.splits)

lemma grows_logout [simp]: "grows A st (logout lib cookie now st)"
  by (simp add: grows_def logout_def split: option.splits)

lemma grows_deny [simp]: "grows A st (deny_jti jti e now st)"
  by (simp add: grows_def deny_jti_def)

lemma grows_revoke_access [simp]: "grows A st (revoke_access_token lib cfg token now st)"
  by (simp add: revoke_access_token_def split: option.splits)

lemma jti_denied_state: "\<exists>cache. snd (jti_denied jti now st) = st\<lparr>as_jti_cache := cache\<rparr>"
  by (auto simp: jti_denied_def split: prod.splits option.splits bool.splits)

lemma grows_load_access [simp]: "grows A st (snd (load_jwt_access_token lib cfg token now st))"
proof -
  have g: "grows A st st1" if "jti_denied j now st = (d, st1)" for j d st1
    using jti_denied_state [of j now st] that by auto
  show ?thesis
    by (auto simp: load_jwt_access_token_def split: option.splits prod.splits bool.splits dest: g)
qed

lemma grows_load_code [simp]: "grows A st (snd (load_authorization_code lib code now st))"
  by (simp add: load_authorization_code_def Let_def split: option.splits)

lemma grows_load_refresh [simp]: "grows A st (snd (load_refresh_token lib token now st))"
  by (simp add: load_refresh_token_def split: option.splits)

lemma grows_revoke_refresh [simp]: "grows A st (revoke_refresh_token lib token now st)"
  by (simp add: revoke_refresh_token_def split: option.splits)

lemma grows_login_limited [simp]: "grows A st (snd (login_limited lib remote name clock st))"
  by (simp add: login_limited_def split: prod.splits)

lemma grows_create_refresh:
  assumes "create_refresh_record lib cfg dr i f now st = Inr st'" and "fresh_draws lib A dr"
    and "\<And>g. f = Some g \<Longrightarrow> g \<in> A \<Longrightarrow> \<exists>r0 \<in> set (as_browser st). ur_token_family r0 = g \<and> \<not> browser_ended r0"
  shows "grows A st st'"
  using assms
  by (auto simp: create_refresh_record_def Let_def grows_def browser_newcomer_def fresh_draws_def
      split: if_splits option.splits intro!: browsers.evolves_snoc)

lemma grows_login:
  assumes "fresh_draws lib A dr"
  shows "grows A st (snd (login lib cfg dr remote name pw clock now st))"
proof -
  obtain e st1 where lim: "login_limited lib remote name clock st = (e, st1)" by fastforce
  then have g: "grows A st st1" using grows_login_limited [of A st lib remote name clock] by simp
  have "grows A st st2" if "create_refresh_record lib cfg dr i None now st1 = Inr st2" for i st2
    using g grows_create_refresh [OF that assms] by (auto intro: grows_trans)
  with g show ?thesis
    by (auto simp: login_def lim split: option.splits sum.splits)
qed

lemma grows_add_code:
  "add_code (new_code lib p i code now) st = Inr st' \<Longrightarrow> lib_digest lib code \<notin> A \<Longrightarrow> grows A st st'"
  by (auto simp: add_code_def new_code_def grows_def split: if_splits intro!: auth_codes.evolves_snoc)

lemma grows_callback:
  assumes "lib_digest lib code \<notin> A"
  shows "grows A st (snd (handle_login_callback lib code remote sid name pw clock now st))"
proof -
  obtain e st1 where lim: "login_limited lib remote name clock st = (e, st1)" by fastforce
  then have g: "grows A st st1" using grows_login_limited [of A st lib remote name clock] by simp
  have "grows A st (st2\<lparr>as_pendings := ps\<rparr>)" if "add_code (new_code lib p i code now) st1 = Inr st2" for p i st2 ps
    using grows_trans [OF grows_trans [OF g grows_add_code [OF that assms]] grows_same(1)] .
  with g show ?thesis
    by (auto simp: handle_login_callback_def lim split: option.splits sum.splits)
qed

text \<open>Adding a row to the refresh tokens, possibly after the row it replaces was ended.\<close>

lemma grows_add_refresh:
  assumes "add_refresh row st1 = Inr st2" and "grows A st st1" and "newcomer A (as_refresh st) row"
  shows "grows A st st2"
  using assms by (auto simp: add_refresh_def grows_def split: if_splits intro!: refreshes.evolves_snoc)

lemma grows_end_refresh [simp]:
  "grows A st (st\<lparr>as_refresh := tupd or_token_hash k (\<lambda>r. r\<lparr>or_revoked_at := Some t\<rparr>) (as_refresh st)\<rparr>)"
  by (simp add: grows_def)

lemma grows_end_code [simp]:
  "grows A st (st\<lparr>as_codes := tupd ac_code_hash k (\<lambda>c. c\<lparr>ac_consumed_at := Some t\<rparr>) (as_codes st)\<rparr>)"
  by (simp add: grows_def)

lemma grows_exchange_code:
  assumes "fresh_draws lib A dr"
  shows "grows A st (snd (exchange_authorization_code lib cfg dr cg now st))"
proof -
  have n: "newcomer A (as_refresh st) (new_refresh lib cfg (td_secret dr) c u i (td_family dr) sc r t)" for c u i sc r t
    using assms by (simp add: newcomer_def new_refresh_def fresh_draws_def)
  show ?thesis
    by (auto simp: exchange_authorization_code_def Let_def n split: sum.splits option.splits
        intro: grows_add_refresh)
qed

lemma grows_rotate:
  assumes "fresh_draws lib A dr"
  shows "grows A st (snd (rotate_refresh lib cfg dr rg i sc ext checked now st))"
proof -
  have n: "newcomer A (as_refresh st) (new_refresh lib cfg (td_secret dr) c u code (or_token_family old) sc r t)"
    if "tget or_token_hash h (as_refresh st) = Some old" "or_revoked_at old = None" for c u code old sc r t h
    using assms that tget_SomeD [OF that(1)]
    by (auto simp: newcomer_def new_refresh_def fresh_draws_def refresh_ended_def)
  have add: "grows A st st2"
    if "tget or_token_hash h (as_refresh st) = Some old" "or_revoked_at old = None"
      "add_refresh (new_refresh lib cfg (td_secret dr) c u code (or_token_family old) sc r t)
        (st\<lparr>as_refresh := tupd or_token_hash k (\<lambda>r. r\<lparr>or_revoked_at := Some now\<rparr>) (as_refresh st)\<rparr>) = Inr st2"
    for c u code old sc r t h k st2
    using grows_add_refresh [OF that(3) grows_end_refresh n [OF that(1,2)]] .
  show ?thesis
    by (auto simp: rotate_refresh_def Let_def split: option.splits sum.splits
        intro: add grows_trans [OF add grows_same(4)])
qed

lemma grows_exchange_refresh:
  assumes "fresh_draws lib A dr"
  shows "grows A st (snd (exchange_refresh_token lib cfg dr rg sc now st0 st))"
  using grows_rotate [OF assms]
  by (auto simp: exchange_refresh_token_def Let_def split: sum.splits)

lemma grows_issue_personal:
  assumes "fresh_draws lib A dr"
  shows "grows A st (snd (personal_issue lib cfg dr i resource n now st))"
proof -
  have add: "grows A st st2"
    if "add_refresh row st = Inr st2" "or_token_hash row = lib_digest lib (personal_prefix @ td_secret dr)"
      "or_token_family row = td_family dr" for row st2
    using assms that by (intro grows_add_refresh [OF that(1) grows_refl]) (simp add: newcomer_def fresh_draws_def)
  show ?thesis
    by (auto simp: personal_issue_def Let_def split: option.splits sum.splits intro: add)
qed

lemma grows_revoke_personal [simp]: "grows A st (snd (personal_revoke i f now st))"
  by (auto simp: personal_revoke_def Let_def grows_def views endeds split: option.splits
      intro!: refreshes.evolves_tupd)

lemma grows_browser_refresh:
  assumes "fresh_draws lib A dr"
  shows "grows A st (snd (refresh lib cfg dr cookie now st))"
proof -
  have add: "grows A st st2"
    if "create_refresh_record lib cfg dr i (Some (ur_token_family rc)) now
        (st\<lparr>as_browser := tupd ur_token_hash k (\<lambda>r. r\<lparr>ur_revoked_at := Some now\<rparr>) (as_browser st)\<rparr>) = Inr st2"
      and "tget ur_token_hash h (as_browser st) = Some rc" "ur_revoked_at rc = None"
    for i rc st2 h k
    using that assms tget_SomeD [OF that(2)]
    by (auto simp: create_refresh_record_def Let_def grows_def browser_newcomer_def fresh_draws_def
        browser_ended_def split: if_splits intro!: browsers.evolves_snoc bexI [of _ rc])
  have rev: "grows A st (st\<lparr>as_browser := revoke_browser P now (as_browser st)\<rparr>)" for P
    by (simp add: grows_def)
  show ?thesis
    by (auto simp: refresh_def Let_def rev split: option.splits sum.splits intro: add)
qed

lemma auth_run_grows: "auth_run lib cfg A a b \<Longrightarrow> grows A (snd a) (snd b)"
proof (induction rule: auth_run.induct)
  case (follows a b c)
  then show ?case by (blast intro: grows_trans)
qed (simp_all add: grows_joins grows_login grows_browser_refresh grows_callback grows_add_code fresh_code_def
    grows_exchange_code grows_exchange_refresh grows_issue_personal)

end
