(* ===== verification/Auth_Invariants.thy ===== *)
theory Auth_Invariants
  imports Auth_Runs
begin

text \<open>
  The invariant of the authentication tables: their keys, and what ties refresh tokens to the codes
  they come from. A code that has not been consumed has no refresh token yet, and the tokens minted
  from one code include at most one that is live. Personal tokens carry an epoch in the column
  \<open>code_id\<close> and are told apart by its prefix, which no hexadecimal digest has.
\<close>


section \<open>The invariant\<close>

definition code_like :: "string \<Rightarrow> bool" where
  "code_like c \<longleftrightarrow> \<not> starts_with ''personal:epoch:'' c"

definition live_from :: "string \<Rightarrow> oauth_refresh \<Rightarrow> bool" where
  "live_from c r \<longleftrightarrow> or_code_id r = Some c \<and> or_revoked_at r = None"

definition unminted :: "auth_code list \<Rightarrow> oauth_refresh list \<Rightarrow> bool" where
  "unminted codes rows \<longleftrightarrow>
     (\<forall>c \<in> set codes. ac_consumed_at c = None \<longrightarrow> code_like (ac_code_hash c) \<longrightarrow>
        Some (ac_code_hash c) \<notin> or_code_id ` set rows)"

definition auth_ok :: "auth_state \<Rightarrow> bool" where
  "auth_ok st \<longleftrightarrow>
     uniq u_id (as_users st) \<and> uniq or_token_hash (as_refresh st) \<and>
     uniq ur_token_hash (as_browser st) \<and> uniq ac_code_hash (as_codes st) \<and>
     (\<forall>c. code_like c \<longrightarrow> rcount (live_from c) (as_refresh st) \<le> 1) \<and>
     unminted (as_codes st) (as_refresh st)"

text \<open>
  An operation that adds nothing: rows are ended or removed. \<open>fewer\<close> says so of the refresh tokens,
  \<open>fewer_codes\<close> of the codes, and \<open>settles\<close> of the state.
\<close>

definition fewer :: "oauth_refresh list \<Rightarrow> oauth_refresh list \<Rightarrow> bool" where
  "fewer a b \<longleftrightarrow> (uniq or_token_hash a \<longrightarrow> uniq or_token_hash b) \<and>
     (\<forall>c. rcount (live_from c) b \<le> rcount (live_from c) a) \<and> or_code_id ` set b \<subseteq> or_code_id ` set a"

definition fewer_codes :: "auth_code list \<Rightarrow> auth_code list \<Rightarrow> bool" where
  "fewer_codes a b \<longleftrightarrow> (uniq ac_code_hash a \<longrightarrow> uniq ac_code_hash b) \<and>
     (\<forall>c \<in> set b. ac_consumed_at c = None \<longrightarrow> (\<exists>c0 \<in> set a. ac_consumed_at c0 = None \<and> ac_code_hash c0 = ac_code_hash c))"

definition settles :: "auth_state \<Rightarrow> auth_state \<Rightarrow> bool" where
  "settles st st' \<longleftrightarrow>
     (uniq u_id (as_users st) \<longrightarrow> uniq u_id (as_users st')) \<and>
     (uniq ur_token_hash (as_browser st) \<longrightarrow> uniq ur_token_hash (as_browser st')) \<and>
     fewer (as_refresh st) (as_refresh st') \<and> fewer_codes (as_codes st) (as_codes st')"

lemma settles_ok:
  assumes "settles st st'" and "auth_ok st"
  shows "auth_ok st'"
proof -
  have "rcount (live_from c) (as_refresh st') \<le> 1" if "code_like c" for c
    using assms that unfolding settles_def fewer_def auth_ok_def by (meson order_trans)
  moreover have "Some (ac_code_hash c) \<notin> or_code_id ` set (as_refresh st')"
    if c: "c \<in> set (as_codes st')" "ac_consumed_at c = None" "code_like (ac_code_hash c)" for c
  proof -
    obtain c0 where "c0 \<in> set (as_codes st)" "ac_consumed_at c0 = None" "ac_code_hash c0 = ac_code_hash c"
      using assms(1) c(1,2) unfolding settles_def fewer_codes_def by blast
    then have "Some (ac_code_hash c) \<notin> or_code_id ` set (as_refresh st)"
      using assms(2) c(3) unfolding auth_ok_def unminted_def by metis
    then show ?thesis
      using assms(1) unfolding settles_def fewer_def by blast
  qed
  ultimately show ?thesis
    using assms by (simp add: settles_def fewer_def fewer_codes_def auth_ok_def unminted_def)
qed

lemma fewer_refl [simp]: "fewer a a"
  by (simp add: fewer_def)

lemma fewer_codes_refl [simp]: "fewer_codes a a"
  by (auto simp: fewer_codes_def)

lemma uniq_filter: "uniq key rows \<Longrightarrow> uniq key (filter P rows)"
  by (simp add: uniq_def distinct_map_filter)

lemma rcount_map_le: "(\<And>r. P (f r) \<Longrightarrow> P r) \<Longrightarrow> rcount P (map f rows) \<le> rcount P rows"
  by (induction rows) (auto simp: le_SucI)

lemma rcount_filter_le: "rcount P (filter Q rows) \<le> rcount P rows"
  by (induction rows) (auto simp: le_SucI)

lemma uniq_map: "(\<And>r. key (f r) = key r) \<Longrightarrow> uniq key (map f rows) = uniq key rows"
  by (simp add: uniq_def comp_def)

lemma fewer_map:
  assumes "\<And>r. or_token_hash (f r) = or_token_hash r" "\<And>r. or_code_id (f r) = or_code_id r"
    "\<And>r. or_revoked_at (f r) = None \<Longrightarrow> or_revoked_at r = None"
  shows "fewer rows (map f rows)"
proof -
  have "or_code_id ` set (map f rows) = or_code_id ` set rows"
    using assms(2) by (simp add: image_image)
  then show ?thesis
    using assms by (auto simp: fewer_def live_from_def uniq_map intro!: rcount_map_le)
qed

lemma fewer_tupd:
  assumes "\<And>r. or_token_hash (f r) = or_token_hash r" "\<And>r. or_code_id (f r) = or_code_id r"
    "\<And>r. or_revoked_at (f r) = None \<Longrightarrow> or_revoked_at r = None"
  shows "fewer rows (tupd key k f rows)"
  unfolding tupd_def using assms by (intro fewer_map) (auto split: if_splits)

lemma fewer_filter [simp]: "fewer rows (filter P rows)"
  by (auto simp: fewer_def uniq_filter rcount_filter_le)

lemma fewer_codes_map:
  assumes "\<And>c. ac_code_hash (f c) = ac_code_hash c" "\<And>c. ac_consumed_at (f c) = None \<Longrightarrow> ac_consumed_at c = None"
  shows "fewer_codes codes (map f codes)"
  using assms by (auto simp: fewer_codes_def uniq_map)

lemma fewer_codes_filter [simp]: "fewer_codes codes (filter P codes)"
  by (auto simp: fewer_codes_def uniq_filter)

lemma settles_refl [simp]: "settles st st"
  by (simp add: settles_def)

lemma settles_same [simp]:
  "settles st (st\<lparr>as_pendings := ps\<rparr>)" "settles st (st\<lparr>as_jti_cache := cs\<rparr>)"
  "settles st (st\<lparr>as_login_limiters := lms\<rparr>)" "settles st (st\<lparr>as_externals := xs\<rparr>)"
  "settles st (restart_process st)"
  by (simp_all add: settles_def restart_process_def)

lemma settles_revocations [simp]:
  "settles st (revoke_token_family f now st)" "settles st (revoke_code_tokens c now st)"
  by (auto simp: settles_def revoke_token_family_def revoke_code_tokens_def revoke_refresh_def
      intro!: fewer_map split: if_splits)

lemma uniq_revoke_browser [simp]: "uniq ur_token_hash (revoke_browser P now rows) = uniq ur_token_hash rows"
  unfolding revoke_browser_def by (intro uniq_map) auto

lemma settles_sweep: "settles st (snd (sweep_expired_oauth_rows now st))"
  by (simp add: settles_def sweep_expired_oauth_rows_def)

lemma settles_status: "settles st (snd (set_user_status i s st))"
  by (simp add: settles_def set_user_status_def uniq_tupd split: option.splits)

lemma settles_password: "settles st (snd (mutate_builtin_password lib salt i m new old now st))"
  by (auto simp: settles_def mutate_builtin_password_def uniq_tupd revoke_refresh_def split: option.splits if_splits
      intro!: fewer_map fewer_codes_map)

lemma settles_logout: "settles st (logout lib cookie now st)"
  by (simp add: settles_def logout_def split: option.splits)

lemma settles_deny: "settles st (deny_jti jti e now st)"
  by (simp add: settles_def deny_jti_def)

lemma settles_revoke_access: "settles st (revoke_access_token lib cfg token now st)"
  by (simp add: revoke_access_token_def settles_deny split: option.splits)

lemma settles_load_access: "settles st (snd (load_jwt_access_token lib cfg token now st))"
proof -
  have g: "settles st st1" if "jti_denied j now st = (d, st1)" for j d st1
    using jti_denied_state [of j now st] that by auto
  show ?thesis
    by (auto simp: load_jwt_access_token_def split: option.splits prod.splits bool.splits dest: g)
qed

lemma settles_loads:
  "settles st (snd (load_authorization_code lib code now st))"
  "settles st (snd (load_refresh_token lib token now st))"
  "settles st (revoke_refresh_token lib token now st)"
  by (simp_all add: load_authorization_code_def load_refresh_token_def revoke_refresh_token_def Let_def
      split: option.splits)

lemma settles_revoke_personal: "settles st (snd (personal_revoke i f now st))"
  by (auto simp: personal_revoke_def Let_def settles_def split: option.splits intro!: fewer_tupd)

lemmas settles_ops = settles_sweep settles_status settles_password settles_logout settles_revoke_access
  settles_load_access settles_loads settles_revoke_personal



section \<open>Operations that add rows\<close>

lemma ok_create_refresh:
  "create_refresh_record lib cfg dr i f now st = Inr st' \<Longrightarrow> auth_ok st \<Longrightarrow> auth_ok st'"
  by (auto simp: create_refresh_record_def Let_def auth_ok_def uniq_snoc split: if_splits)

lemma ok_login_limited: "login_limited lib remote name clock st = (e, st') \<Longrightarrow> auth_ok st \<Longrightarrow> auth_ok st'"
  by (auto simp: login_limited_def auth_ok_def split: prod.splits)

lemma ok_login:
  assumes "auth_ok st"
  shows "auth_ok (snd (login lib cfg dr remote name pw clock now st))"
proof -
  obtain e st1 where lim: "login_limited lib remote name clock st = (e, st1)" by fastforce
  then show ?thesis
    using ok_login_limited [OF lim assms] assms
    by (auto simp: login_def split: option.splits sum.splits intro: ok_create_refresh)
qed

lemma ok_browser_refresh:
  assumes "auth_ok st"
  shows "auth_ok (snd (refresh lib cfg dr cookie now st))"
proof -
  have "auth_ok (st\<lparr>as_browser := tupd ur_token_hash k (\<lambda>r. r\<lparr>ur_revoked_at := Some now\<rparr>) (as_browser st)\<rparr>)"
    "auth_ok (st\<lparr>as_browser := revoke_browser P now (as_browser st)\<rparr>)" for k P
    using assms by (simp_all add: auth_ok_def uniq_tupd)
  with assms show ?thesis
    by (auto simp: refresh_def Let_def split: option.splits sum.splits intro: ok_create_refresh)
qed

lemma unminted_snoc:
  "Some (ac_code_hash c) \<notin> or_code_id ` set rows \<Longrightarrow> unminted (codes @ [c]) rows = unminted codes rows"
  by (simp add: unminted_def)

lemma ok_add_code:
  assumes "add_code (new_code lib p i code now) st = Inr st'" and "auth_ok st" and "fresh_code lib A code st"
  shows "auth_ok st'"
  using assms
  by (auto simp: add_code_def new_code_def auth_ok_def unminted_snoc fresh_code_def uniq_snoc split: if_splits)

lemma ok_callback:
  assumes "auth_ok st" and fresh: "fresh_code lib A code st"
  shows "auth_ok (snd (handle_login_callback lib code remote sid name pw clock now st))"
proof -
  obtain e st1 where lim: "login_limited lib remote name clock st = (e, st1)" by fastforce
  have ok1: "auth_ok st1" using ok_login_limited [OF lim assms(1)] .
  have fresh1: "fresh_code lib A code st1"
    using lim fresh by (auto simp: login_limited_def fresh_code_def split: prod.splits)
  have "auth_ok (st2\<lparr>as_pendings := ps\<rparr>)" if "add_code (new_code lib p i code now) st1 = Inr st2" for p i st2 ps
    using settles_ok [OF settles_same(1) ok_add_code [OF that ok1 fresh1]] .
  with ok1 lim assms show ?thesis
    by (auto simp: handle_login_callback_def split: option.splits sum.splits)
qed

text \<open>A row whose origin has no live token yet, or which replaces the live one.\<close>

lemma ok_add_refresh:
  assumes "add_refresh row st = Inr st'" and "auth_ok st"
    and "\<And>c. or_code_id row = Some c \<Longrightarrow> code_like c \<Longrightarrow> rcount (live_from c) (as_refresh st) = 0"
    and "\<And>c. c \<in> set (as_codes st) \<Longrightarrow> ac_consumed_at c = None \<Longrightarrow> code_like (ac_code_hash c) \<Longrightarrow>
      or_code_id row \<noteq> Some (ac_code_hash c)"
  shows "auth_ok st'"
proof -
  have st': "st' = st\<lparr>as_refresh := as_refresh st @ [row]\<rparr>" and new: "or_token_hash row \<notin> or_token_hash ` set (as_refresh st)"
    using assms(1) by (auto simp: add_refresh_def split: if_splits)
  have "rcount (live_from c) (as_refresh st @ [row]) \<le> 1" if "code_like c" for c
    using assms(2) assms(3) [of c] that by (auto simp: rcount_append live_from_def auth_ok_def)
  with assms(2,4) new show ?thesis
    unfolding auth_ok_def unminted_def st' by (simp add: uniq_snoc) metis
qed

lemma ok_exchange_code:
  assumes "auth_ok st"
  shows "auth_ok (snd (exchange_authorization_code lib cfg dr cg now st))"
proof -
  let ?h = "lib_digest lib (cg_code cg)"
  let ?st1 = "st\<lparr>as_codes := tupd ac_code_hash ?h (\<lambda>c. c\<lparr>ac_consumed_at := Some now\<rparr>) (as_codes st)\<rparr>"
  have add: "auth_ok st2"
    if row: "tget ac_code_hash ?h (as_codes st) = Some c" "ac_consumed_at c = None"
      and add: "add_refresh (new_refresh lib cfg s cl u (Some ?h) f sc r now) ?st1 = Inr st2" for c s cl u f sc r st2
  proof (rule ok_add_refresh [OF add])
    have "settles st ?st1"
      unfolding tupd_def by (auto simp: settles_def intro!: fewer_codes_map split: if_splits)
    then show "auth_ok ?st1" using assms by (rule settles_ok)
    have none: "Some ?h \<notin> or_code_id ` set (as_refresh st)" if "code_like ?h"
      using assms row tget_SomeD [OF row(1)] that by (auto simp: auth_ok_def unminted_def)
    show "rcount (live_from d) (as_refresh ?st1) = 0"
      if "or_code_id (new_refresh lib cfg s cl u (Some ?h) f sc r now) = Some d" "code_like d" for d
      using none that by (intro rcount_zero) (auto simp: new_refresh_def live_from_def image_iff)
    show "or_code_id (new_refresh lib cfg s cl u (Some ?h) f sc r now) \<noteq> Some (ac_code_hash d)"
      if "d \<in> set (as_codes ?st1)" "ac_consumed_at d = None" for d
      using that by (auto simp: new_refresh_def tupd_def split: if_splits)
  qed
  show ?thesis
    using assms
    by (auto simp: exchange_authorization_code_def Let_def split: sum.splits option.splits
        intro: add settles_ok [OF settles_revocations(2)])
qed

lemma ok_rotate:
  assumes "auth_ok st"
  shows "auth_ok (snd (rotate_refresh lib cfg dr rg i sc ext checked now st))"
proof -
  let ?st1 = "\<lambda>old. st\<lparr>as_refresh := tupd or_token_hash (or_token_hash old) (\<lambda>r. r\<lparr>or_revoked_at := Some now\<rparr>) (as_refresh st)\<rparr>"
  have add: "auth_ok st2"
    if row: "tget or_token_hash h (as_refresh st) = Some old" "or_revoked_at old = None"
      and add: "add_refresh (new_refresh lib cfg s cl u (or_code_id old) f sc r now) (?st1 old) = Inr st2"
    for old h s cl u f sc r st2
  proof (rule ok_add_refresh [OF add])
    have "settles st (?st1 old)" by (auto simp: settles_def intro!: fewer_tupd)
    then show "auth_ok (?st1 old)" using assms by (rule settles_ok)
    have old: "or_token_hash old = h" "old \<in> set (as_refresh st)" using tget_SomeD [OF row(1)] by auto
    show "rcount (live_from d) (as_refresh (?st1 old)) = 0"
      if d: "or_code_id (new_refresh lib cfg s cl u (or_code_id old) f sc r now) = Some d" "code_like d" for d
    proof -
      have "rcount (live_from d) (as_refresh st) \<le> 1" "uniq or_token_hash (as_refresh st)"
        using assms d(2) by (simp_all add: auth_ok_def)
      with rcount_tupd [of or_token_hash "as_refresh st" h old "live_from d" "\<lambda>r. r\<lparr>or_revoked_at := Some now\<rparr>"] row d old
      show ?thesis by (simp add: live_from_def new_refresh_def)
    qed
    show "or_code_id (new_refresh lib cfg s cl u (or_code_id old) f sc r now) \<noteq> Some (ac_code_hash c)"
      if "c \<in> set (as_codes (?st1 old))" "ac_consumed_at c = None" "code_like (ac_code_hash c)" for c
      using assms that old by (force simp: new_refresh_def auth_ok_def unminted_def)
  qed
  show ?thesis
    using assms
    by (auto simp: rotate_refresh_def Let_def split: option.splits sum.splits
        intro: add settles_ok [OF settles_revocations(1)] settles_ok [OF settles_same(4) add])
qed

lemma ok_exchange_refresh:
  "auth_ok st \<Longrightarrow> auth_ok (snd (exchange_refresh_token lib cfg dr rg sc now st0 st))"
  by (auto simp: exchange_refresh_token_def Let_def ok_rotate split: sum.splits
      intro: settles_ok [OF settles_revocations(1)])

lemma epoch_code_not_code_like: "\<not> code_like (epoch_code u)"
  by (simp add: code_like_def starts_with_def epoch_code_def)

lemma ok_issue_personal:
  assumes "auth_ok st"
  shows "auth_ok (snd (personal_issue lib cfg dr i resource n now st))"
proof -
  have add: "auth_ok st2" if "add_refresh row st = Inr st2" "or_code_id row = Some (epoch_code u)" for row u st2
    using epoch_code_not_code_like [of u] that(2) by (intro ok_add_refresh [OF that(1) assms]) auto
  show ?thesis
    using assms by (auto simp: personal_issue_def Let_def split: option.splits sum.splits intro: add)
qed

lemma auth_run_ok: "auth_run lib cfg A a b \<Longrightarrow> auth_ok (snd a) \<Longrightarrow> auth_ok (snd b)"
proof (induction rule: auth_run.induct)
  case (joins u st t)
  then show ?case by (simp add: auth_ok_def uniq_snoc)
next
  case (authorizes_sso code st p i t st')
  then show ?case by (simp add: ok_add_code)
qed (auto intro: settles_ok [OF settles_ops(1)] settles_ok [OF settles_ops(2)] settles_ok [OF settles_ops(3)]
    settles_ok [OF settles_ops(4)] settles_ok [OF settles_ops(5)] settles_ok [OF settles_ops(6)]
    settles_ok [OF settles_ops(7)] settles_ok [OF settles_ops(8)] settles_ok [OF settles_ops(9)]
    settles_ok [OF settles_ops(10)] settles_ok [OF settles_same(1)] settles_ok [OF settles_same(5)]
    ok_login ok_browser_refresh ok_callback ok_exchange_code ok_exchange_refresh ok_issue_personal)

lemma auth_ok_empty: "auth_ok empty_state"
  by (simp add: auth_ok_def unminted_def empty_state_def uniq_def)

end
