(* ===== verification/Auth_Properties.thy ===== *)
theory Auth_Properties
  imports Auth_Invariants
begin

text \<open>
  What authentication promises in every run, over the invariant and the evolution of its tables.
  Each theorem comes with a concrete run of the model on which it applies.
\<close>


section \<open>What is relied on\<close>

text \<open>The digest prints hexadecimal digits.\<close>

definition hex_digest :: "auth_lib \<Rightarrow> bool" where
  "hex_digest lib \<longleftrightarrow> (\<forall>x. set (lib_digest lib x) \<subseteq> set ''0123456789abcdef'')"

text \<open>
  The JWT library: a token that is accepted has not expired, and its claims do not depend on the
  options of the call.
\<close>

definition jwt_laws :: "auth_lib \<Rightarrow> bool" where
  "jwt_laws lib \<longleftrightarrow>
     (\<forall>kid aud iss now tok c. lib_jwt_decode lib kid aud iss now tok = Some c \<longrightarrow>
        (\<forall>e. cl_exp c = Some e \<longrightarrow> now < seconds e) \<and>
        (\<forall>kid' aud' iss' now' c'. lib_jwt_decode lib kid' aud' iss' now' tok = Some c' \<longrightarrow> c' = c))"

lemma hex_code_like: "hex_digest lib \<Longrightarrow> code_like (lib_digest lib x)"
proof -
  assume "hex_digest lib"
  then have sub: "set (lib_digest lib x) \<subseteq> set ''0123456789abcdef''"
    by (simp only: hex_digest_def)
  have "CHR ''p'' \<notin> set (lib_digest lib x)"
    using subsetD [OF sub, of "CHR ''p''"] by auto
  then show ?thesis
    by (cases "lib_digest lib x") (auto simp: code_like_def starts_with_def)
qed


section \<open>An example\<close>

text \<open>One user, one code, and a token whose claims name the user and her epoch.\<close>

definition example_claims :: claims where
  "example_claims = \<lparr>cl_iss = Some ''i'', cl_sub = Some (user_subject ''u''), cl_aud = Some ''r'', cl_jti = Some ''j'',
     cl_iat = Some 0, cl_exp = Some 100, cl_type = Some ''access'', cl_client_id = Some ''c'', cl_scope = Some ''mcp'',
     cl_access_mode = None, cl_agent_id = None, cl_role = None, cl_credential_epoch = Some 1, cl_session_epoch = None\<rparr>"

definition example_lib :: auth_lib where
  "example_lib = \<lparr>lib_digest = (\<lambda>s. bytes_hex (map of_char s)), lib_casefold = (\<lambda>s. s),
     lib_pbkdf2 = (\<lambda>p salt. salt @ map of_char p), lib_jwt_encode = (\<lambda>c. ''token''),
     lib_jwt_kid = (\<lambda>t. Some []),
     lib_jwt_decode = (\<lambda>kid aud iss now t. if t = ''token'' \<and> now < seconds 100 then Some example_claims else None),
     lib_validate = (\<lambda>c. Invalid)\<rparr>"

definition example_cfg :: auth_config where
  "example_cfg = \<lparr>cfg_access_token_expire_minutes = 1, cfg_refresh_token_expire_days = 30,
     cfg_external_access_token_ttl_seconds = 60, cfg_oidc_mode = False, cfg_issuer = ''i'', cfg_resource = ''r'',
     cfg_api_resource = ''a'', cfg_ring_access_minutes = 1, cfg_ring_session_epoch = 1,
     cfg_ring_require_epoch = False, cfg_ring_kids = [[]], cfg_ring_active_kid = []\<rparr>"

definition example_user :: user where
  "example_user = \<lparr>u_id = ''u'', u_external_id = ''ann'', u_auth_provider = AUTH_BUILTIN,
     u_password_hash = Some (hash_password (lib_pbkdf2 example_lib) [7] ''password''), u_password_state = None,
     u_credential_epoch = 1, u_role = ROLE_MEMBER, u_status = USER_ACTIVE\<rparr>"

definition example_pending :: pending_auth where
  "example_pending = \<lparr>pa_session_id = ''s'', pa_client_id = ''c'', pa_redirect_uri = ''h'', pa_code_challenge = ''x'',
     pa_code_challenge_method = ''S256'', pa_resource = Some ''r'', pa_scopes = [''mcp''], pa_expires_at = 9\<rparr>"

definition auth_draws :: "string \<Rightarrow> token_draws" where
  "auth_draws s = \<lparr>td_secret = s, td_family = ''F'', td_jti = ''j''\<rparr>"

definition example_code :: auth_code where
  "example_code = new_code example_lib example_pending ''u'' ''k'' 0"

definition example_start :: auth_state where
  "example_start = empty_state\<lparr>as_users := [example_user], as_codes := [example_code]\<rparr>"

definition example_grant :: code_grant where
  "example_grant = the (fst (load_authorization_code example_lib ''k'' 0 example_start))"

definition example_state :: auth_state where
  "example_state = snd (exchange_authorization_code example_lib example_cfg (auth_draws ''1'') example_grant 0 example_start)"

lemmas auth_example_defs = example_claims_def example_lib_def example_cfg_def example_user_def example_pending_def
  auth_draws_def example_code_def example_start_def example_grant_def empty_state_def

lemma hex_char_in: "n < 16 \<Longrightarrow> hex_char n \<in> set ''0123456789abcdef''"
  unfolding hex_char_def by (rule nth_mem) simp

lemma bytes_hex_digits: "byte_list bs \<Longrightarrow> set (bytes_hex bs) \<subseteq> set ''0123456789abcdef''"
proof (induction bs)
  case (Cons b bs)
  then have "b div 16 < 16" "b mod 16 < 16" "byte_list bs" by (auto simp: byte_list_def)
  then have "hex_char (b div 16) \<in> set ''0123456789abcdef''" "hex_char (b mod 16) \<in> set ''0123456789abcdef''"
    by (blast intro: hex_char_in)+
  moreover have "set (bytes_hex (b # bs)) = {hex_char (b div 16), hex_char (b mod 16)} \<union> set (bytes_hex bs)"
    by (simp add: bytes_hex_def)
  ultimately show ?case
    using Cons.IH [OF \<open>byte_list bs\<close>] by (metis Un_subset_iff empty_subsetI insert_subset)
qed (simp add: bytes_hex_def)

lemma example_hex: "hex_digest example_lib"
proof -
  have "byte_list (map of_char s)" for s :: string
    by (auto simp: byte_list_def)
  then have "set (bytes_hex (map of_char s)) \<subseteq> set ''0123456789abcdef''" for s :: string
    by (rule bytes_hex_digits)
  then show ?thesis unfolding hex_digest_def example_lib_def by simp
qed

lemma example_jwt: "jwt_laws example_lib"
  by (auto simp: jwt_laws_def example_lib_def example_claims_def split: if_splits)


section \<open>Codes and refresh tokens\<close>

text \<open>C9: in every reachable state at most one refresh token minted from an authorization code is
  live: however codes are exchanged and replayed and tokens rotated, reused and revoked, a code
  gives its holder one chain of tokens.\<close>

theorem one_live_token_per_code:
  assumes "auth_run lib cfg A (t0, empty_state) (t, st)" and "hex_digest lib"
  shows "rcount (live_from (lib_digest lib code)) (as_refresh st) \<le> 1"
  using auth_run_ok [OF assms(1)] auth_ok_empty hex_code_like [OF assms(2)] by (simp add: auth_ok_def)

lemma example_start_run: "auth_run example_lib example_cfg {} (0, empty_state) (0, example_start)"
proof -
  let ?st1 = "empty_state\<lparr>as_users := [example_user]\<rparr>"
  have "auth_run example_lib example_cfg {} (0, empty_state) (0, empty_state\<lparr>as_users := as_users empty_state @ [example_user]\<rparr>)"
    by (rule auth_run.joins) (simp add: empty_state_def)
  then have 1: "auth_run example_lib example_cfg {} (0, empty_state) (0, ?st1)"
    by (simp add: empty_state_def)
  have "add_code (new_code example_lib example_pending ''u'' ''k'' 0) ?st1 = Inr example_start"
    by (simp add: add_code_def example_start_def example_code_def empty_state_def)
  then have "auth_run example_lib example_cfg {} (0, ?st1) (0, example_start)"
    by (intro auth_run.authorizes_sso [of _ _ "''k''"]) (auto simp: fresh_code_def empty_state_def)
  with 1 show ?thesis by (rule auth_run.follows)
qed

lemma example_run: "auth_run example_lib example_cfg {} (0, empty_state) (0, example_state)"
proof -
  have "auth_run example_lib example_cfg {} (0, example_start) (0, example_state)"
    unfolding example_state_def by (rule auth_run.exchanges_code) (simp add: fresh_draws_def)
  with example_start_run show ?thesis by (rule auth_run.follows)
qed

lemma example_code_hash: "lib_digest example_lib [c] = bytes_hex [of_char c]"
  by (simp add: example_lib_def)

definition example_token :: oauth_refresh where
  "example_token = \<lparr>or_token_hash = ''31'', or_client_id = ''c'', or_user_id = ''u'', or_code_id = Some ''6b'',
     or_token_family = ''F'', or_scopes = [''mcp''], or_resource = Some ''r'',
     or_expires_at = Some (days 30), or_revoked_at = None\<rparr>"

lemma example_digests: "lib_digest example_lib ''k'' = ''6b''" "lib_digest example_lib ''1'' = ''31''"
  "lib_digest example_lib ''2'' = ''32''"
  by (simp_all add: example_lib_def bytes_hex_def hex_char_def)

lemma example_state_eq: "example_state = example_start\<lparr>as_codes := [example_code\<lparr>ac_consumed_at := Some 0\<rparr>],
    as_refresh := [example_token]\<rparr>"
proof -
  have grant: "example_grant = \<lparr>cg_code = ''k'', cg_scopes = [''mcp''], cg_expires_at = seconds 300, cg_client_id = ''c'',
      cg_code_challenge = ''x'', cg_redirect_uri = ''h'', cg_resource = Some ''r'', cg_subject = Some (user_subject ''u'')\<rparr>"
    by (simp add: example_grant_def load_authorization_code_def example_digests example_start_def example_code_def
        new_code_def example_pending_def empty_state_def)
  show ?thesis
    by (simp add: example_state_def exchange_authorization_code_def grant user_of_subject_def available_user_def
        example_start_def example_code_def new_code_def example_user_def empty_state_def example_digests Let_def
        example_pending_def add_refresh_def new_refresh_def auth_draws_def example_token_def example_cfg_def)
qed

lemma one_live_token_per_code_witness:
  "rcount (live_from (lib_digest example_lib ''k'')) (as_refresh example_state) \<le> 1 \<and>
   rcount (live_from (lib_digest example_lib ''k'')) (as_refresh example_state) = 1"
  using one_live_token_per_code [OF example_run example_hex, of "''k''"]
  by (simp add: example_state_eq example_digests example_token_def live_from_def)


text \<open>a code exchanged after it was loaded gives what was granted: whatever happened between the two
  transactions, a successful exchange adds one live refresh token of the client, the user, the
  scopes and the resource of the code as it was loaded, marks the code consumed, and no second
  exchange of the code succeeds.\<close>

theorem code_exchange_faithful:
  assumes "load_authorization_code lib code now st = (Some cg, st1)"
    and "exchange_authorization_code lib cfg dr cg now' st' = (Inr tok, st'')"
  shows "\<exists>row r. tget ac_code_hash (lib_digest lib code) (as_codes st) = Some row \<and>
      as_refresh st'' = as_refresh st' @ [r] \<and> or_revoked_at r = None \<and>
      or_client_id r = ac_client_id row \<and> or_user_id r = ac_user_id row \<and>
      or_scopes r = ac_scopes row \<and> or_resource r = ac_resource row \<and>
      or_code_id r = Some (lib_digest lib code) \<and> ot_refresh_token tok = Some (td_secret dr) \<and>
      (\<exists>e. fst (exchange_authorization_code lib cfg dr' cg now'' st'') = Inl e)"
proof -
  obtain row where row: "tget ac_code_hash (lib_digest lib code) (as_codes st) = Some row"
    and cg: "cg_code cg = code" "cg_scopes cg = ac_scopes row" "cg_client_id cg = ac_client_id row"
      "cg_resource cg = ac_resource row" "cg_subject cg = Some (user_subject (ac_user_id row))"
    using assms(1) by (auto simp: load_authorization_code_def Let_def split: option.splits if_splits)
  note e = assms(2) [unfolded exchange_authorization_code_def Let_def cg]
  obtain u where u: "user_of_subject ''Authorization code'' (Some (user_subject (ac_user_id row))) = Inr u"
    using e by (auto split: sum.splits)
  then have u_id: "u = ac_user_id row" by (auto simp: user_of_subject_def split: if_splits)
  obtain user where user: "available_user u st' = Some user" and user_id: "u_id user = u"
    using e u by (auto simp: available_user_def split: option.splits if_splits)
  obtain c where c: "tget ac_code_hash (lib_digest lib code) (as_codes st') = Some c"
    "ac_user_id c = u" "ac_client_id c = ac_client_id row" "ac_consumed_at c = None"
    using e u user user_id by (auto split: option.splits if_splits)
  let ?st1 = "st'\<lparr>as_codes := tupd ac_code_hash (lib_digest lib code) (\<lambda>c. c\<lparr>ac_consumed_at := Some now'\<rparr>) (as_codes st')\<rparr>"
  let ?r = "new_refresh lib cfg (td_secret dr) (ac_client_id row) u (Some (lib_digest lib code)) (td_family dr)
    (ac_scopes row) (ac_resource row) now'"
  have "add_refresh ?r ?st1 = Inr st''" and tok: "ot_refresh_token tok = Some (td_secret dr)"
    using e u user user_id c by (auto split: sum.splits)
  then have st'': "st'' = ?st1\<lparr>as_refresh := as_refresh st' @ [?r]\<rparr>"
    by (auto simp: add_refresh_def split: if_splits)
  have "tget ac_code_hash (lib_digest lib code) (as_codes st'') = Some (c\<lparr>ac_consumed_at := Some now'\<rparr>)"
    using c(1) by (simp add: st'' tget_tupd)
  then have "\<exists>e. fst (exchange_authorization_code lib cfg dr' cg now'' st'') = Inl e"
    by (auto simp: exchange_authorization_code_def Let_def cg split: sum.splits option.splits)
  then show ?thesis
    using row tok u_id by (simp add: st'' new_refresh_def)
qed

lemma code_exchange_faithful_witness:
  "\<exists>row r. tget ac_code_hash (lib_digest example_lib ''k'') (as_codes example_start) = Some row \<and>
     as_refresh example_state = as_refresh example_start @ [r] \<and> or_revoked_at r = None \<and>
     or_user_id r = ac_user_id row \<and>
     (\<exists>e. fst (exchange_authorization_code example_lib example_cfg (auth_draws ''2'') example_grant 1 example_state) = Inl e)"
proof -
  have load: "load_authorization_code example_lib ''k'' 0 example_start = (Some example_grant, example_start)"
    by (simp add: example_grant_def load_authorization_code_def example_digests example_start_def example_code_def
        new_code_def example_pending_def empty_state_def)
  have ex: "\<exists>tok. exchange_authorization_code example_lib example_cfg (auth_draws ''1'') example_grant 0 example_start
      = (Inr tok, example_state)"
  proof -
    have "\<exists>tok. fst (exchange_authorization_code example_lib example_cfg (auth_draws ''1'') example_grant 0 example_start)
        = Inr tok"
      by (simp add: example_grant_def load_authorization_code_def exchange_authorization_code_def user_of_subject_def
          available_user_def example_start_def example_code_def new_code_def example_user_def empty_state_def
          example_digests Let_def example_pending_def add_refresh_def new_refresh_def auth_draws_def)
    then show ?thesis
      unfolding example_state_def by (metis surjective_pairing)
  qed
  from ex obtain tok where tok: "exchange_authorization_code example_lib example_cfg (auth_draws ''1'') example_grant 0 example_start
      = (Inr tok, example_state)" by blast
  show ?thesis
    using code_exchange_faithful [OF load tok, of "auth_draws ''2''" 1] by (elim exE conjE, intro exI conjI)
qed


section \<open>Families\<close>

text \<open>\<open>dead F\<close>: every stored token of the family is revoked.\<close>

definition dead :: "string \<Rightarrow> auth_state \<Rightarrow> bool" where
  "dead F st \<longleftrightarrow> (\<forall>r \<in> set (as_refresh st). or_token_family r = F \<longrightarrow> or_revoked_at r \<noteq> None)"

lemma dead_revoked: "dead F (revoke_token_family F now st)"
  unfolding dead_def
proof (intro ballI impI)
  fix r assume "r \<in> set (as_refresh (revoke_token_family F now st))" and F: "or_token_family r = F"
  then have "r \<in> set (revoke_refresh (\<lambda>r. or_token_family r = F) now (as_refresh st))"
    by (simp add: revoke_token_family_def)
  then obtain r0 where "refresh_view r = refresh_view r0" "or_token_family r0 = F \<longrightarrow> refresh_ended r"
    unfolding revoke_finishes by (rule refreshes.finished_row)
  with F show "or_revoked_at r \<noteq> None" unfolding views endeds by simp
qed

lemma dead_run:
  assumes run: "auth_run lib cfg A a b" and F: "F \<in> A" and dead: "dead F (snd a)"
  shows "dead F (snd b)"
  unfolding dead_def
proof (intro ballI impI)
  fix r assume r: "r \<in> set (as_refresh (snd b))" "or_token_family r = F"
  have old: "refreshes.evolves (newcomer A (as_refresh (snd a))) (as_refresh (snd a)) (as_refresh (snd b))"
    using auth_run_grows [OF run] by (simp add: grows_def)
  have "refresh_ended r"
  proof (rule refreshes.stays_ended [OF old, where S = "\<lambda>v. fst (snd v) = F"])
    show "\<not> fst (snd (refresh_view x)) = F" if "newcomer A (as_refresh (snd a)) x" for x
      using that F dead by (auto simp: newcomer_def dead_def views endeds)
    show "refresh_ended x" if "x \<in> set (as_refresh (snd a))" "fst (snd (refresh_view x)) = F" for x
      using that dead by (auto simp: dead_def views endeds)
  qed (use r in \<open>simp_all add: views\<close>)
  then show "or_revoked_at r \<noteq> None" by (simp add: endeds)
qed

lemma rotate_revoked:
  assumes "tget or_token_hash (lib_digest lib (rg_token rg)) (as_refresh st) = Some row" and "or_revoked_at row \<noteq> None"
  shows "\<exists>e. fst (rotate_refresh lib cfg dr rg i sc ext checked now st) = Inl e"
  using assms by (auto simp: rotate_refresh_def split: option.splits)

lemma exchange_revoked:
  assumes "tget or_token_hash (lib_digest lib (rg_token rg)) (as_refresh st) = Some row" and "or_revoked_at row \<noteq> None"
  shows "\<exists>e. fst (exchange_refresh_token lib cfg dr rg sc now st0 st) = Inl e"
  using rotate_revoked [OF assms]
  by (auto simp: exchange_refresh_token_def Let_def split: sum.splits)

text \<open>C10: reuse of a refresh token ends its family for good. Presenting a token that was already
  rotated or revoked gives nothing, and in every later run, whatever is requested, no token of the
  family can be exchanged, as long as no new family draws the same identifier.\<close>

theorem reuse_ends_family:
  assumes "tget or_token_hash (lib_digest lib token) (as_refresh st) = Some row" and "or_revoked_at row \<noteq> None"
    and "load_refresh_token lib token now st = (g, st1)" and "\<not> starts_with personal_prefix token"
    and "auth_run lib cfg A (now, st1) (t, st')" and "or_token_family row \<in> A"
    and "tget or_token_hash (lib_digest lib (rg_token rg)) (as_refresh st') = Some row'"
    and "or_token_family row' = or_token_family row"
  shows "g = None \<and> (\<exists>e. fst (exchange_refresh_token lib cfg dr rg sc t st0 st') = Inl e)"
proof -
  have "g = None" and st1: "st1 = revoke_token_family (or_token_family row) now st"
    using assms(1-4) by (auto simp: load_refresh_token_def)
  have "dead (or_token_family row) st'"
    using dead_run [OF assms(5,6)] dead_revoked st1 by simp
  then have "or_revoked_at row' \<noteq> None"
    using tget_SomeD [OF assms(7)] assms(8) by (auto simp: dead_def)
  with exchange_revoked [OF assms(7)] \<open>g = None\<close> show ?thesis by blast
qed


definition example_rotated :: auth_state where
  "example_rotated = example_state\<lparr>as_refresh := [example_token\<lparr>or_revoked_at := Some 1\<rparr>,
     example_token\<lparr>or_token_hash := ''32'', or_expires_at := Some (1 + days 30)\<rparr>]\<rparr>"

definition example_refresh_grant :: "string \<Rightarrow> refresh_grant" where
  "example_refresh_grant s = \<lparr>rg_token = s, rg_client_id = ''c'', rg_scopes = [''mcp''], rg_expires_at = None,
     rg_subject = Some (user_subject ''u'')\<rparr>"

lemma example_rotation:
  "snd (exchange_refresh_token example_lib example_cfg (auth_draws ''2'') (example_refresh_grant ''1'') [] 1
     example_state example_state) = example_rotated"
  by (simp add: exchange_refresh_token_def example_refresh_grant_def personal_client_def personal_prefix_def
      starts_with_def user_of_subject_def live_external_def check_external_def rotate_refresh_def available_user_def
      example_state_eq example_rotated_def example_start_def empty_state_def example_user_def example_digests
      example_token_def auth_draws_def example_cfg_def add_refresh_def new_refresh_def expired_def days_def Let_def)

lemma reuse_ends_family_witness:
  "\<exists>e. fst (exchange_refresh_token example_lib example_cfg (auth_draws ''3'') (example_refresh_grant ''2'') [] 3
     example_rotated (snd (load_refresh_token example_lib ''1'' 2 example_rotated))) = Inl e"
proof -
  let ?st1 = "revoke_token_family ''F'' 2 example_rotated"
  have load: "load_refresh_token example_lib ''1'' 2 example_rotated = (None, ?st1)"
    by (simp add: load_refresh_token_def example_rotated_def example_state_eq example_token_def example_digests
        personal_prefix_def starts_with_def)
  have run: "auth_run example_lib example_cfg {''F''} (2, ?st1) (3, ?st1)"
    by (rule auth_run.waits) simp
  have row: "tget or_token_hash (lib_digest example_lib ''1'') (as_refresh example_rotated)
      = Some (example_token\<lparr>or_revoked_at := Some 1\<rparr>)"
    by (simp add: example_rotated_def example_token_def example_digests)
  have row': "tget or_token_hash (lib_digest example_lib (rg_token (example_refresh_grant ''2''))) (as_refresh ?st1)
      = Some (example_token\<lparr>or_token_hash := ''32'', or_expires_at := Some (1 + days 30), or_revoked_at := Some 2\<rparr>)"
    by (simp add: revoke_token_family_def revoke_refresh_def example_rotated_def example_token_def example_digests
        example_refresh_grant_def)
  show ?thesis
    using reuse_ends_family [OF row _ load _ run _ row', of "auth_draws ''3''" "[]" example_rotated] load
    by (simp add: example_token_def personal_prefix_def starts_with_def)
qed



section \<open>Password changes\<close>

text \<open>The digests in use.\<close>

definition issued :: "auth_state \<Rightarrow> string set" where
  "issued st = or_token_hash ` set (as_refresh st) \<union> ur_token_hash ` set (as_browser st) \<union> ac_code_hash ` set (as_codes st)"

lemma password_changed:
  assumes "mutate_builtin_password lib salt i m new old now st = (Inr s, st1)"
  obtains u where "tget u_id i (as_users st) = Some u" "u_auth_provider u = AUTH_BUILTIN"
    and "as_users st1 = tupd u_id i (\<lambda>u. u\<lparr>u_password_hash := Some (hash_password (lib_pbkdf2 lib) salt new),
      u_password_state := Some PASSWORD_ACTIVE, u_credential_epoch := u_credential_epoch u + 1\<rparr>) (as_users st)"
    and "as_browser st1 = revoke_browser (\<lambda>r. ur_user_id r = i) now (as_browser st)"
    and "as_refresh st1 = revoke_refresh (\<lambda>r. or_user_id r = i) now (as_refresh st)"
    and "as_codes st1 = map (\<lambda>c. if ac_user_id c = i \<and> ac_consumed_at c = None
      then c\<lparr>ac_consumed_at := Some now\<rparr> else c) (as_codes st)"
  using assms
  by (auto simp: mutate_builtin_password_def mutation_refused_def split: option.splits if_splits)

text \<open>A digest that names only credentials of the user names only ended ones ever after.\<close>

lemma ended_after_change:
  assumes change: "mutate_builtin_password lib salt i m new old now st = (Inr s, st1)"
    and run: "auth_run lib cfg A (now, st1) (t, st2)" and h: "h \<in> A"
  shows "(\<And>r. r \<in> set (as_refresh st) \<Longrightarrow> or_token_hash r = h \<Longrightarrow> or_user_id r = i) \<Longrightarrow>
      r2 \<in> set (as_refresh st2) \<Longrightarrow> or_token_hash r2 = h \<Longrightarrow> or_revoked_at r2 \<noteq> None"
    and "(\<And>r. r \<in> set (as_browser st) \<Longrightarrow> ur_token_hash r = h \<Longrightarrow> ur_user_id r = i) \<Longrightarrow>
      b2 \<in> set (as_browser st2) \<Longrightarrow> ur_token_hash b2 = h \<Longrightarrow> ur_revoked_at b2 \<noteq> None"
    and "(\<And>c. c \<in> set (as_codes st) \<Longrightarrow> ac_code_hash c = h \<Longrightarrow> ac_user_id c = i) \<Longrightarrow>
      c2 \<in> set (as_codes st2) \<Longrightarrow> ac_code_hash c2 = h \<Longrightarrow> ac_consumed_at c2 \<noteq> None"
proof -
  have g: "refreshes.evolves (newcomer A (as_refresh st1)) (as_refresh st1) (as_refresh st2)"
    "browsers.evolves (browser_newcomer A (as_browser st1)) (as_browser st1) (as_browser st2)"
    "auth_codes.evolves (\<lambda>c. ac_code_hash c \<notin> A) (as_codes st1) (as_codes st2)"
    using auth_run_grows [OF run] by (simp_all add: grows_def)
  show "or_revoked_at r2 \<noteq> None"
    if own: "\<And>r. r \<in> set (as_refresh st) \<Longrightarrow> or_token_hash r = h \<Longrightarrow> or_user_id r = i"
      and r2: "r2 \<in> set (as_refresh st2)" "or_token_hash r2 = h"
  proof -
    have "refresh_ended r2"
    proof (rule refreshes.stays_ended [OF g(1), where S = "\<lambda>v. fst v = h"])
      show "refresh_ended x" if "x \<in> set (as_refresh st1)" "fst (refresh_view x) = h" for x
      proof -
        have "x \<in> set (revoke_refresh (\<lambda>r. or_user_id r = i) now (as_refresh st))"
          using that(1) change by (elim password_changed) simp
        then obtain r0 where "r0 \<in> set (as_refresh st)" "refresh_view x = refresh_view r0" "or_user_id r0 = i \<longrightarrow> refresh_ended x"
          unfolding revoke_finishes by (rule refreshes.finished_row)
        with own that(2) show ?thesis unfolding views by simp
      qed
    qed (use r2 h in \<open>auto simp: views newcomer_def\<close>)
    then show ?thesis by (simp add: endeds)
  qed
  show "ur_revoked_at b2 \<noteq> None"
    if own: "\<And>r. r \<in> set (as_browser st) \<Longrightarrow> ur_token_hash r = h \<Longrightarrow> ur_user_id r = i"
      and b2: "b2 \<in> set (as_browser st2)" "ur_token_hash b2 = h"
  proof -
    have "browser_ended b2"
    proof (rule browsers.stays_ended [OF g(2), where S = "\<lambda>v. fst v = h"])
      show "browser_ended x" if "x \<in> set (as_browser st1)" "fst (browser_view x) = h" for x
      proof -
        have "x \<in> set (revoke_browser (\<lambda>r. ur_user_id r = i) now (as_browser st))"
          using that(1) change by (elim password_changed) simp
        then obtain r0 where "r0 \<in> set (as_browser st)" "browser_view x = browser_view r0" "ur_user_id r0 = i \<longrightarrow> browser_ended x"
          unfolding revoke_finishes by (rule browsers.finished_row)
        with own that(2) show ?thesis unfolding views by simp
      qed
    qed (use b2 h in \<open>auto simp: views browser_newcomer_def\<close>)
    then show ?thesis by (simp add: endeds)
  qed
  show "ac_consumed_at c2 \<noteq> None"
    if own: "\<And>c. c \<in> set (as_codes st) \<Longrightarrow> ac_code_hash c = h \<Longrightarrow> ac_user_id c = i"
      and c2: "c2 \<in> set (as_codes st2)" "ac_code_hash c2 = h"
  proof -
    have "code_ended c2"
    proof (rule auth_codes.stays_ended [OF g(3), where S = "\<lambda>v. fst v = h"])
      show "code_ended x" if "x \<in> set (as_codes st1)" "fst (code_view x) = h" for x
      proof -
        have "x \<in> set (map (\<lambda>c. if ac_user_id c = i \<and> \<not> code_ended c then c\<lparr>ac_consumed_at := Some now\<rparr> else c) (as_codes st))"
          using that(1) change by (elim password_changed) (simp add: code_ended_def)
        then obtain r0 where "r0 \<in> set (as_codes st)" "code_view x = code_view r0" "ac_user_id r0 = i \<longrightarrow> code_ended x"
          by (rule auth_codes.finished_row)
        with own that(2) show ?thesis unfolding views by simp
      qed
    qed (use c2 h in \<open>auto simp: views\<close>)
    then show ?thesis by (simp add: endeds)
  qed
qed

lemma epoch_after_change:
  assumes "mutate_builtin_password lib salt i m new old now st = (Inr s, st1)"
    and "auth_run lib cfg A (now, st1) (t, st2)" and "tget u_id i (as_users st) = Some u"
  obtains u2 where "tget u_id i (as_users st2) = Some u2" "u_auth_provider u2 = AUTH_BUILTIN"
    "u_credential_epoch u < u_credential_epoch u2"
proof -
  have grow: "users_grow (as_users st1) (as_users st2)"
    using auth_run_grows [OF assms(2)] by (simp add: grows_def)
  obtain u1 where "tget u_id i (as_users st1) = Some u1" "u_auth_provider u1 = AUTH_BUILTIN"
      "u_credential_epoch u1 = u_credential_epoch u + 1"
    using assms(1) by (elim password_changed) (use assms(3) in \<open>simp add: tget_tupd\<close>)
  with users_growD [OF grow] that show thesis by (metis zle_add1_eq_le order_less_le_trans less_add_one)
qed

lemma uniq_owner:
  assumes "uniq key rows" and "tget key h rows = Some r" and "x \<in> set rows" and "key x = h"
  shows "x = r"
  using tget_uniq [OF assms(1,3)] assms(2,4) by simp

lemma find_SomeD: "find P xs = Some x \<Longrightarrow> x \<in> set xs \<and> P x"
  by (induction xs) (auto split: if_splits)

lemma personal_resolve_row:
  "personal_resolve lib token now st = Some (u, r) \<Longrightarrow>
   r \<in> set (as_refresh st) \<and> or_token_hash r = lib_digest lib token \<and> or_revoked_at r = None"
  by (auto simp: personal_resolve_def personal_status_def split: if_splits option.splits dest!: find_SomeD)

lemma credentials_ended:
  assumes "auth_run lib cfg B (t0, empty_state) (now, st)"
    and "mutate_builtin_password lib salt i m new old now st = (Inr s, st1)"
    and "auth_run lib cfg A (now, st1) (t, st2)" and "issued st \<subseteq> A"
  shows "tget or_token_hash h (as_refresh st) = Some r \<Longrightarrow> or_user_id r = i \<Longrightarrow>
      r2 \<in> set (as_refresh st2) \<Longrightarrow> or_token_hash r2 = h \<Longrightarrow> or_revoked_at r2 \<noteq> None"
    and "tget ur_token_hash h (as_browser st) = Some b \<Longrightarrow> ur_user_id b = i \<Longrightarrow>
      tget ur_token_hash h (as_browser st2) = Some b2 \<Longrightarrow> ur_revoked_at b2 \<noteq> None"
    and "tget ac_code_hash h (as_codes st) = Some c \<Longrightarrow> ac_user_id c = i \<Longrightarrow>
      tget ac_code_hash h (as_codes st2) = Some c2 \<Longrightarrow> ac_consumed_at c2 \<noteq> None"
proof -
  have ok: "uniq or_token_hash (as_refresh st)" "uniq ur_token_hash (as_browser st)" "uniq ac_code_hash (as_codes st)"
    using auth_run_ok [OF assms(1)] auth_ok_empty by (simp_all add: auth_ok_def)
  note ended = ended_after_change [OF assms(2,3) subsetD [OF assms(4)]]
  show "or_revoked_at r2 \<noteq> None"
    if r: "tget or_token_hash h (as_refresh st) = Some r" "or_user_id r = i" and r2: "r2 \<in> set (as_refresh st2)" "or_token_hash r2 = h"
  proof (rule ended(1) [OF _ _ r2])
    show "h \<in> issued st" using tget_SomeD [OF r(1)] unfolding issued_def by blast
    show "or_user_id x = i" if "x \<in> set (as_refresh st)" "or_token_hash x = h" for x
      using uniq_owner [OF ok(1) r(1) that] r(2) by simp
  qed
  show "ur_revoked_at b2 \<noteq> None"
    if b: "tget ur_token_hash h (as_browser st) = Some b" "ur_user_id b = i" and b2: "tget ur_token_hash h (as_browser st2) = Some b2"
  proof (rule ended(2) [OF _ _ conjunct1 [OF tget_SomeD [OF b2]] conjunct2 [OF tget_SomeD [OF b2]]])
    show "h \<in> issued st" using tget_SomeD [OF b(1)] unfolding issued_def by blast
    show "ur_user_id x = i" if "x \<in> set (as_browser st)" "ur_token_hash x = h" for x
      using uniq_owner [OF ok(2) b(1) that] b(2) by simp
  qed
  show "ac_consumed_at c2 \<noteq> None"
    if c: "tget ac_code_hash h (as_codes st) = Some c" "ac_user_id c = i" and c2: "tget ac_code_hash h (as_codes st2) = Some c2"
  proof (rule ended(3) [OF _ _ conjunct1 [OF tget_SomeD [OF c2]] conjunct2 [OF tget_SomeD [OF c2]]])
    show "h \<in> issued st" using tget_SomeD [OF c(1)] unfolding issued_def by blast
    show "ac_user_id x = i" if "x \<in> set (as_codes st)" "ac_code_hash x = h" for x
      using uniq_owner [OF ok(3) c(1) that] c(2) by simp
  qed
qed

text \<open>a password change ends every credential the user was given before it. In every later run, as
  long as no new draw repeats a digest that was in use, none of her refresh tokens, personal tokens,
  browser sessions and authorization codes of before is accepted, whoever presents it.\<close>

theorem password_change_ends_credentials:
  assumes "auth_run lib cfg B (t0, empty_state) (now, st)"
    and "mutate_builtin_password lib salt i m new old now st = (Inr s, st1)"
    and "auth_run lib cfg A (now, st1) (t, st2)" and "issued st \<subseteq> A"
  shows "(\<forall>rg r. tget or_token_hash (lib_digest lib (rg_token rg)) (as_refresh st) = Some r \<longrightarrow> or_user_id r = i \<longrightarrow>
        (\<exists>e. fst (exchange_refresh_token lib cfg dr rg sc t st0 st2) = Inl e) \<and>
        personal_resolve lib (rg_token rg) t st2 = None) \<and>
     (\<forall>token r. tget ur_token_hash (lib_digest lib token) (as_browser st) = Some r \<longrightarrow> ur_user_id r = i \<longrightarrow>
        (\<exists>e. fst (refresh lib cfg dr (Some token) t st2) = Inl e)) \<and>
     (\<forall>cg c. tget ac_code_hash (lib_digest lib (cg_code cg)) (as_codes st) = Some c \<longrightarrow> ac_user_id c = i \<longrightarrow>
        (\<exists>e. fst (exchange_authorization_code lib cfg dr cg t st2) = Inl e))"
proof -
  note ended = credentials_ended [OF assms]
  have "\<exists>e. fst (exchange_refresh_token lib cfg dr rg sc t st0 st2) = Inl e"
    if "tget or_token_hash (lib_digest lib (rg_token rg)) (as_refresh st) = Some r" "or_user_id r = i" for rg r
  proof (cases "tget or_token_hash (lib_digest lib (rg_token rg)) (as_refresh st2)")
    case None
    then show ?thesis
      by (auto simp: exchange_refresh_token_def rotate_refresh_def Let_def split: sum.splits option.splits)
  next
    case (Some r2)
    with ended(1) [OF that] tget_SomeD [OF Some] show ?thesis by (intro exchange_revoked [OF Some]) auto
  qed
  moreover have "personal_resolve lib token t st2 = None"
    if "tget or_token_hash (lib_digest lib token) (as_refresh st) = Some r" "or_user_id r = i" for token r
  proof (rule ccontr)
    assume "personal_resolve lib token t st2 \<noteq> None"
    then obtain u2 r2 where "personal_resolve lib token t st2 = Some (u2, r2)" by auto
    with ended(1) [OF that] show False using personal_resolve_row by blast
  qed
  moreover have "\<exists>e. fst (refresh lib cfg dr (Some token) t st2) = Inl e"
    if "tget ur_token_hash (lib_digest lib token) (as_browser st) = Some r" "ur_user_id r = i" for token r
    using ended(2) [OF that] by (auto simp: refresh_def split: option.splits)
  moreover have "\<exists>e. fst (exchange_authorization_code lib cfg dr cg t st2) = Inl e"
    if "tget ac_code_hash (lib_digest lib (cg_code cg)) (as_codes st) = Some c" "ac_user_id c = i" for cg c
    using ended(3) [OF that] by (auto simp: exchange_authorization_code_def Let_def split: sum.splits option.splits)
  ultimately show ?thesis by blast
qed

text \<open>C11: a password change ends every access token of before it. A token that carries an epoch the user
  had at the change or earlier is refused afterwards in every run, by the MCP endpoint and by the REST
  API alike.\<close>

theorem password_change_ends_access:
  assumes "mutate_builtin_password lib salt i m new old now st = (Inr s, st1)"
    and "auth_run lib cfg A (now, st1) (t, st2)" and "tget u_id i (as_users st) = Some u"
    and "cl_credential_epoch c = Some e" and "e \<le> u_credential_epoch u"
  shows "(\<forall>jti. decode_access_token lib cfg token t = Some (c, i, jti) \<longrightarrow>
        fst (load_jwt_access_token lib cfg token t st2) = None) \<and>
     (verify_token lib cfg token t = Some c \<longrightarrow> cl_sub c = Some (user_subject i) \<longrightarrow>
        (\<exists>err. validate_access_token_user lib cfg token t st2 = Inl err))"
proof -
  obtain u2 where u2: "tget u_id i (as_users st2) = Some u2" "u_auth_provider u2 = AUTH_BUILTIN"
    "u_credential_epoch u < u_credential_epoch u2"
    using epoch_after_change [OF assms(1-3)] .
  then have refused: "epoch_refused u2 c"
    using assms(4,5) by (simp add: epoch_refused_def)
  have "fst (load_jwt_access_token lib cfg token t st2) = None"
    if "decode_access_token lib cfg token t = Some (c, i, jti)" for jti
  proof -
    obtain d cache where "jti_denied jti t st2 = (d, st2\<lparr>as_jti_cache := cache\<rparr>)"
      using jti_denied_state [of jti t st2] by (metis prod.collapse)
    with that u2 refused show ?thesis
      by (auto simp: load_jwt_access_token_def available_user_def split: bool.splits)
  qed
  then show ?thesis
    using u2 refused by (auto simp: validate_access_token_user_def Let_def)
qed

definition example_changed :: auth_state where
  "example_changed = snd (mutate_builtin_password example_lib [1] ''u'' RESET ''new password'' None 0 example_state)"

lemma example_change:
  "mutate_builtin_password example_lib [1] ''u'' RESET ''new password'' None 0 example_state = (Inr PASSWORD_ACTIVE, example_changed)"
  by (simp add: example_changed_def mutate_builtin_password_def mutation_refused_def validate_password_def
      example_state_eq example_start_def example_user_def)

lemma password_change_ends_credentials_witness:
  "\<exists>e. fst (exchange_refresh_token example_lib example_cfg (auth_draws ''2'') (example_refresh_grant ''1'') [] 1
     example_changed example_changed) = Inl e"
proof -
  have run: "auth_run example_lib example_cfg (issued example_state) (0, example_changed) (1, example_changed)"
    by (rule auth_run.waits) simp
  have row: "tget or_token_hash (lib_digest example_lib (rg_token (example_refresh_grant ''1''))) (as_refresh example_state)
      = Some example_token" "or_user_id example_token = ''u''"
    by (simp_all add: example_state_eq example_token_def example_refresh_grant_def example_digests)
  show ?thesis
    using password_change_ends_credentials [OF example_run example_change run subset_refl,
        of "auth_draws ''2''" "[]" example_changed] row by blast
qed

lemma password_change_ends_access_witness:
  "fst (load_jwt_access_token example_lib example_cfg ''token'' 1 example_state) \<noteq> None \<and>
   fst (load_jwt_access_token example_lib example_cfg ''token'' 1 example_changed) = None"
proof -
  have run: "auth_run example_lib example_cfg {} (0, example_changed) (1, example_changed)"
    by (rule auth_run.waits) simp
  have user: "tget u_id ''u'' (as_users example_state) = Some example_user"
    by (simp add: example_state_eq example_start_def example_user_def)
  have decode: "decode_access_token example_lib example_cfg ''token'' 1 = Some (example_claims, ''u'', ''j'')"
    by (simp add: decode_access_token_def example_lib_def example_claims_def seconds_def user_subject_def
        parse_subject_def partition_colon_def kind_of_value_def)
  have "fst (load_jwt_access_token example_lib example_cfg ''token'' 1 example_changed) = None"
    using password_change_ends_access [OF example_change run user, of example_claims 1 "''token''"] decode
    by (simp add: example_claims_def example_user_def)
  moreover have "fst (load_jwt_access_token example_lib example_cfg ''token'' 1 example_state) \<noteq> None"
    by (simp add: load_jwt_access_token_def decode jti_denied_def jti_is_denied_cached_def available_user_def user
        example_state_eq example_start_def empty_state_def epoch_refused_def example_user_def example_claims_def)
  ultimately show ?thesis by simp
qed


end
