(* ===== verification/Auth_Limits.thy ===== *)
theory Auth_Limits
  imports Auth_Properties
begin

text \<open>
  Two things that bound what an attacker gets: the deny list, which keeps a revoked access token
  out until it expires, and the login limiter, which bounds the passwords tried on one account
  over both login forms.
\<close>


section \<open>Revoked access tokens\<close>

text \<open>An id on the deny list stays there until the token it names has expired.\<close>

definition denies :: "string \<Rightarrow> time \<Rightarrow> time \<times> auth_state \<Rightarrow> bool" where
  "denies jti e s \<longleftrightarrow> e < fst s \<or> (\<exists>d. tget dj_jti jti (as_denied (snd s)) = Some d \<and> e \<le> dj_expires_at d)"

lemma denied_parts:
  "create_refresh_record lib cfg dr i f now st = Inr st' \<Longrightarrow> as_denied st' = as_denied st"
  "login_limited lib remote name clock st = (v, st') \<Longrightarrow> as_denied st' = as_denied st"
  "add_code c st = Inr st' \<Longrightarrow> as_denied st' = as_denied st"
  "add_refresh r st = Inr st' \<Longrightarrow> as_denied st' = as_denied st"
  "jti_denied jti now st = (b, st') \<Longrightarrow> as_denied st' = as_denied st"
  "as_denied (revoke_token_family F now st) = as_denied st"
  "as_denied (revoke_code_tokens h now st) = as_denied st"
  by (auto simp: create_refresh_record_def login_limited_def add_code_def add_refresh_def jti_denied_def Let_def
      revoke_token_family_def revoke_code_tokens_def split: if_splits prod.splits option.splits bool.splits)

lemma denied_rotate: "as_denied (snd (rotate_refresh lib cfg dr rg i sc ext checked now st)) = as_denied st"
  by (simp add: rotate_refresh_def add_refresh_def Let_def denied_parts(6) split: option.split)

lemma denied_same [simp]:
  "as_denied (snd (login lib cfg dr remote name pw clock now st)) = as_denied st"
  "as_denied (snd (refresh lib cfg dr cookie now st)) = as_denied st"
  "as_denied (logout lib cookie now st) = as_denied st"
  "as_denied (snd (handle_login_callback lib code remote sid name pw clock now st)) = as_denied st"
  "as_denied (snd (load_authorization_code lib code now st)) = as_denied st"
  "as_denied (snd (load_refresh_token lib token now st)) = as_denied st"
  "as_denied (revoke_refresh_token lib token now st) = as_denied st"
  "as_denied (snd (load_jwt_access_token lib cfg token now st)) = as_denied st"
  "as_denied (snd (personal_issue lib cfg dr i resource n now st)) = as_denied st"
  "as_denied (snd (personal_revoke i f now st)) = as_denied st"
  "as_denied (snd (mutate_builtin_password lib salt i m new old now st)) = as_denied st"
  "as_denied (snd (set_user_status i s st)) = as_denied st"
  "as_denied (snd (exchange_authorization_code lib cfg dr cg now st)) = as_denied st"
  "as_denied (snd (exchange_refresh_token lib cfg dr rg sc now st0 st)) = as_denied st"
proof -
  show "as_denied (snd (login lib cfg dr remote name pw clock now st)) = as_denied st"
    by (auto simp: login_def split: prod.splits option.splits sum.splits dest!: denied_parts(1-5))
  show "as_denied (snd (refresh lib cfg dr cookie now st)) = as_denied st"
    by (auto simp: refresh_def Let_def split: option.splits sum.splits dest!: denied_parts(1-5))
  show "as_denied (snd (handle_login_callback lib code remote sid name pw clock now st)) = as_denied st"
    by (auto simp: handle_login_callback_def split: prod.splits option.splits sum.splits dest!: denied_parts(1-5))
  show "as_denied (snd (load_jwt_access_token lib cfg token now st)) = as_denied st"
    by (auto simp: load_jwt_access_token_def split: prod.splits option.splits bool.splits dest!: denied_parts(1-5))
  show "as_denied (snd (personal_issue lib cfg dr i resource n now st)) = as_denied st"
    by (auto simp: personal_issue_def Let_def split: option.splits sum.splits dest!: denied_parts(1-5))
  show "as_denied (snd (exchange_authorization_code lib cfg dr cg now st)) = as_denied st"
    by (simp add: exchange_authorization_code_def add_refresh_def Let_def denied_parts(7) split: option.split sum.split)
  show "as_denied (snd (exchange_refresh_token lib cfg dr rg sc now st0 st)) = as_denied st"
    by (simp add: exchange_refresh_token_def Let_def denied_parts(6) denied_rotate split: sum.split prod.split)
qed (simp_all add: logout_def load_authorization_code_def load_refresh_token_def revoke_refresh_token_def personal_revoke_def
    mutate_builtin_password_def set_user_status_def Let_def denied_parts(6,7) split: option.splits)

lemma tget_filter:
  "tget key k rows = Some r \<Longrightarrow> P r \<Longrightarrow> \<exists>r'. tget key k (filter P rows) = Some r' \<and> r' = r"
  by (induction rows) (auto split: if_splits)

lemma denied_revoke_access:
  "tget dj_jti jti (as_denied st) = Some d \<Longrightarrow> tget dj_jti jti (as_denied (revoke_access_token lib cfg token now st)) = Some d"
  by (auto simp: revoke_access_token_def deny_jti_def tget_tensure split: option.splits)

lemma denies_run: "auth_run lib cfg A a b \<Longrightarrow> denies jti e a \<Longrightarrow> denies jti e b"
proof (induction rule: auth_run.induct)
  case (authorizes_sso code st p i t st')
  then show ?case using denied_parts(3) [OF authorizes_sso.hyps(2)] by (simp add: denies_def)
next
  case (revokes_access t st token)
  then show ?case using denied_revoke_access by (fastforce simp: denies_def)
next
  case (sweeps t st)
  have "denies jti e (t, snd (sweep_expired_oauth_rows t st))"
    if d: "tget dj_jti jti (as_denied st) = Some d" "e \<le> dj_expires_at d" for d
  proof (cases "dj_expires_at d < t")
    case False
    with tget_filter [OF d(1), of "\<lambda>d. \<not> dj_expires_at d < t"] d(2) show ?thesis
      by (auto simp: denies_def sweep_expired_oauth_rows_def)
  qed (use d in \<open>simp add: denies_def\<close>)
  with sweeps show ?case by (auto simp: denies_def)
qed (auto simp: denies_def restart_process_def)

text \<open>C32: a revoked access token is refused until it expires. After its revocation, whatever the service
  does (sweeps of the deny list, evictions from the cache, restarts that empty it, other
  revocations), no later request with the token is accepted. A row that the deny list has already
  for the token's id, as after an earlier revocation, must not expire before the token does; ids are
  drawn at random, so it carries the same expiry.\<close>

theorem revoked_access_refused:
  assumes "jwt_laws lib"
    and "lib_jwt_decode lib (cfg_ring_active_kid cfg) AudienceUnchecked None now token = Some c"
    and "cl_jti c = Some jti" and "jti \<noteq> []" and "cl_exp c = Some e" and "e \<noteq> 0"
    and "\<forall>d \<in> set (as_denied st). dj_jti d = jti \<longrightarrow> seconds e \<le> dj_expires_at d"
    and "auth_run lib cfg A (now, revoke_access_token lib cfg token now st) (t, st')"
  shows "fst (load_jwt_access_token lib cfg token t st') = None"
proof (cases "decode_access_token lib cfg token t")
  case None
  then show ?thesis by (simp add: load_jwt_access_token_def)
next
  case (Some x)
  obtain c' i jti' where x: "x = (c', i, jti')" by (cases x) auto
  have dec: "\<exists>aud iss. lib_jwt_decode lib (cfg_ring_active_kid cfg) aud iss t token = Some c'" "cl_jti c' = Some jti'"
    using Some unfolding x by (auto simp: decode_access_token_def split: option.splits if_splits sum.splits)
  have "c' = c" "t < seconds e"
    using assms(1,2,5) dec(1) unfolding jwt_laws_def by blast+
  with dec(2) assms(3) have jti: "jti' = jti" by simp
  have "seconds e \<le> dj_expires_at d" if "tget dj_jti jti (as_denied st) = Some d" for d
    using assms(7) tget_SomeD [OF that] by auto
  then have "denies jti (seconds e) (now, revoke_access_token lib cfg token now st)"
    using assms(2-6)
    by (auto simp: revoke_access_token_def denies_def deny_jti_def tget_tensure split: option.split)
  then have "denies jti (seconds e) (t, st')" using denies_run [OF assms(8)] by simp
  then obtain d where "tget dj_jti jti (as_denied st') = Some d"
    using \<open>t < seconds e\<close> by (auto simp: denies_def)
  then have "fst (jti_denied jti t st')"
    by (auto simp: jti_denied_def split: prod.splits option.splits bool.splits)
  then show ?thesis
    using Some unfolding x jti by (auto simp: load_jwt_access_token_def split: prod.splits bool.splits)
qed

text \<open>Revoked twice, with a restart before the token comes again.\<close>

lemma revoked_access_refused_witness:
  "let revoke = revoke_access_token example_lib example_cfg ''token'' in
   fst (load_jwt_access_token example_lib example_cfg ''token'' 1
     (restart_process (revoke 0 (revoke 0 example_state)))) = None"
proof -
  let ?st = "revoke_access_token example_lib example_cfg ''token'' 0 example_state"
  have run: "auth_run example_lib example_cfg {} (0, revoke_access_token example_lib example_cfg ''token'' 0 ?st)
      (1, restart_process (revoke_access_token example_lib example_cfg ''token'' 0 ?st))"
    by (rule auth_run.follows [OF auth_run.restarts auth_run.waits]) simp
  show ?thesis
    unfolding Let_def
    by (rule revoked_access_refused [OF example_jwt _ _ _ _ _ _ run, of example_claims "''j''" 100])
      (simp_all add: example_lib_def example_claims_def seconds_def example_state_eq example_start_def empty_state_def
        revoke_access_token_def deny_jti_def tensure_def)
qed


section \<open>Password guesses\<close>

text \<open>
  The two forms that take a password, as one sequence of attempts. \<open>early\<close> collects the answers that
  are given before the password is looked at: the wrong mode, missing fields and the limiter's 429.
\<close>

datatype login_attempt =
    Web_login string string string token_draws
  | Mcp_login string string string string string

fun attempt_name :: "login_attempt \<Rightarrow> string" where
  "attempt_name (Web_login remote name pw dr) = name"
| "attempt_name (Mcp_login remote sid name pw code) = name"

fun answer :: "auth_lib \<Rightarrow> auth_config \<Rightarrow> login_attempt \<Rightarrow> time \<Rightarrow> time \<Rightarrow> auth_state \<Rightarrow> auth_error option \<times> auth_state" where
  "answer lib cfg (Web_login remote name pw dr) clock now st =
     (case login lib cfg dr remote name pw clock now st of (r, st') \<Rightarrow> (case r of Inl e \<Rightarrow> Some e | Inr _ \<Rightarrow> None, st'))"
| "answer lib cfg (Mcp_login remote sid name pw code) clock now st =
     (case handle_login_callback lib code remote sid name pw clock now st of
        (r, st') \<Rightarrow> (case r of Inl e \<Rightarrow> Some e | Inr _ \<Rightarrow> None, st'))"

definition early :: "auth_error option \<Rightarrow> bool" where
  "early r \<longleftrightarrow> r \<in> {Some (HTTPException 429), Some (HTTPException 409), Some (HTTPException 400), Some AuthIndexError}"

fun examined :: "auth_lib \<Rightarrow> auth_config \<Rightarrow> (login_attempt \<times> time \<times> time) list \<Rightarrow> auth_state \<Rightarrow> (string \<times> time) list" where
  "examined lib cfg [] st = []"
| "examined lib cfg ((a, clock, now) # as) st =
     (case answer lib cfg a clock now st of (r, st') \<Rightarrow>
        (if early r then [] else [(attempt_name a, clock)]) @ examined lib cfg as st')"

definition name_key :: "auth_lib \<Rightarrow> string \<Rightarrow> string" where
  "name_key lib name = account_key (lib_casefold lib) (lib_digest lib) ''login-account:'' name"

definition account_limiter :: "auth_state \<Rightarrow> limiter" where
  "account_limiter st = snd (as_login_limiters st)"

text \<open>An attempt leaves the account limiter alone and is answered early, or it is a check of the
  limiter, and then an answer that is not early means that the limiter admitted it.\<close>

definition limited :: "auth_lib \<Rightarrow> string \<Rightarrow> time \<Rightarrow> limiter \<Rightarrow> auth_error option \<Rightarrow> limiter \<Rightarrow> bool" where
  "limited lib name clock lm r lm' \<longleftrightarrow>
     lm' = lm \<and> early r \<or> (\<exists>v. check (name_key lib name) clock lm = (v, lm') \<and> (v \<noteq> Admitted \<longrightarrow> early r))"

lemma login_limited_cases:
  assumes "login_limited lib remote name clock st = (e, st')"
  shows "limited lib name clock (account_limiter st) e (account_limiter st')"
    and "e \<noteq> None \<Longrightarrow> early e"
    and "e = None \<Longrightarrow> \<exists>v. check (name_key lib name) clock (account_limiter st) = (Admitted, account_limiter st')"
  using assms
  by (auto simp: login_limited_def check_builtin_login_def check_pair_def limited_def early_def name_key_def
      account_limiter_def split: prod.splits verdict.splits)

lemma account_limiter_parts:
  "create_refresh_record lib cfg dr i f now st = Inr st' \<Longrightarrow> account_limiter st' = account_limiter st"
  "add_code c st = Inr st' \<Longrightarrow> account_limiter st' = account_limiter st"
  by (auto simp: create_refresh_record_def add_code_def account_limiter_def Let_def split: if_splits)

lemma login_limits:
  assumes "login lib cfg dr remote name pw clock now st = (r, st')"
  shows "limited lib name clock (account_limiter st) (case r of Inl e \<Rightarrow> Some e | Inr _ \<Rightarrow> None) (account_limiter st')"
proof -
  obtain e st1 where lim: "login_limited lib remote name clock st = (e, st1)" by fastforce
  show ?thesis
  proof (cases "cfg_oidc_mode cfg \<or> e \<noteq> None")
    case True
    then show ?thesis
      using assms login_limited_cases [OF lim] lim by (auto simp: login_def limited_def early_def split: if_splits)
  next
    case False
    then have "account_limiter st' = account_limiter st1"
      using assms lim account_limiter_parts
      by (auto simp: login_def split: option.splits if_splits sum.splits)
    with False login_limited_cases(3) [OF lim] show ?thesis by (auto simp: limited_def)
  qed
qed

lemma callback_limits:
  assumes "handle_login_callback lib code remote sid name pw clock now st = (r, st')"
  shows "limited lib name clock (account_limiter st) (case r of Inl e \<Rightarrow> Some e | Inr _ \<Rightarrow> None) (account_limiter st')"
proof -
  obtain e st1 where lim: "login_limited lib remote name clock st = (e, st1)" by fastforce
  show ?thesis
  proof (cases "sid = [] \<or> name = [] \<or> pw = [] \<or> e \<noteq> None")
    case True
    then show ?thesis
      using assms login_limited_cases [OF lim] lim
      by (auto simp: handle_login_callback_def limited_def early_def split: if_splits)
  next
    case False
    have "account_limiter (st2\<lparr>as_pendings := ps\<rparr>) = account_limiter st2" for st2 ps
      by (simp add: account_limiter_def)
    then have "account_limiter st' = account_limiter st1"
      using False assms lim account_limiter_parts
      by (auto simp: handle_login_callback_def split: option.splits if_splits sum.splits)
    with False login_limited_cases(3) [OF lim] show ?thesis by (auto simp: limited_def)
  qed
qed

lemma answer_limits:
  "answer lib cfg a clock now st = (r, st') \<Longrightarrow>
   limited lib (attempt_name a) clock (account_limiter st) r (account_limiter st')"
  by (cases a) (auto split: prod.splits dest: login_limits callback_limits)

lemma linked_later: "linked h n lm \<Longrightarrow> n \<le> n' \<Longrightarrow> linked h n' lm"
  unfolding linked_def limiter_ok_def by (auto intro: queue_later keeps_mono order_trans)

definition guesses :: "string \<Rightarrow> (time \<Rightarrow> bool) \<Rightarrow> (string \<times> time) list \<Rightarrow> nat" where
  "guesses name P xs = length (filter (\<lambda>x. fst x = name \<and> P (snd x)) xs)"

lemma examined_linked:
  assumes "linked h n (account_limiter st)" and "sorted (n # map (\<lambda>x. fst (snd x)) as)"
  shows "\<exists>adm n' lm'. linked (h @ adm) n' lm' \<and> same_bounds (account_limiter st) lm' \<and>
    (\<forall>name P. guesses name P (examined lib cfg as st) \<le> length (filter P (times (name_key lib name) adm)))"
  using assms
proof (induction as arbitrary: h n st)
  case Nil
  then show ?case
    by (intro exI [of _ "[]"] exI [of _ n] exI [of _ "account_limiter st"]) (simp add: guesses_def same_bounds_def)
next
  case (Cons x as)
  obtain a clock now where x: "x = (a, clock, now)" by (cases x) auto
  obtain r st' where ans: "answer lib cfg a clock now st = (r, st')" by fastforce
  have later: "n \<le> clock" and rest: "sorted (clock # map (\<lambda>x. fst (snd x)) as)"
    using Cons.prems(2) by (auto simp: x)
  let ?k = "name_key lib (attempt_name a)"
  obtain adm1 where adm1: "linked (h @ adm1) clock (account_limiter st')" "same_bounds (account_limiter st) (account_limiter st')"
    "adm1 = [] \<and> early r \<or> adm1 = [(?k, clock)]"
  proof (cases "account_limiter st' = account_limiter st \<and> early r")
    case True
    with linked_later [OF Cons.prems(1) later] that [of "[]"] show thesis by (simp add: same_bounds_def)
  next
    case False
    then obtain v where chk: "check ?k clock (account_limiter st) = (v, account_limiter st')" and v: "v \<noteq> Admitted \<longrightarrow> early r"
      using answer_limits [OF ans] by (auto simp: limited_def)
    have "same_bounds (account_limiter st) (account_limiter st')"
      using check_ok [of n "account_limiter st" clock ?k] Cons.prems(1) later chk
      by (simp add: linked_def check_effect_def Let_def)
    with linked_check [OF Cons.prems(1) later chk] v that [of "if v = Admitted then [(?k, clock)] else []"] show thesis
      by (auto split: if_splits)
  qed
  obtain adm n' lm' where IH: "linked ((h @ adm1) @ adm) n' lm'" "same_bounds (account_limiter st') lm'"
    "\<And>name P. guesses name P (examined lib cfg as st') \<le> length (filter P (times (name_key lib name) adm))"
    using Cons.IH [OF adm1(1) rest] by blast
  have split: "times k (adm1 @ adm) = times k adm1 @ times k adm" for k
    by (simp add: times_def)
  have "guesses name P (examined lib cfg (x # as) st) \<le> length (filter P (times (name_key lib name) (adm1 @ adm)))" for name P
    using IH(3) [of name P] adm1(3) by (auto simp: x ans guesses_def split times_def)
  with IH(1,2) adm1(2) show ?case
    by (intro exI [of _ "adm1 @ adm"] exI [of _ n'] exI [of _ lm']) (simp add: same_bounds_def)
qed

text \<open>C33: at most five passwords are tried on an account in any minute. Over any sequence of attempts on
  the two login forms, from any addresses and interleaved at will, the attempts on one user name
  that get as far as the password check number at most five in every window of sixty seconds.\<close>

theorem login_guesses_bounded:
  assumes "sorted (map (\<lambda>x. fst (snd x)) attempts)" and "account_limiter st = login_account_limiter"
  shows "guesses name (in_window 60 t) (examined lib cfg attempts st) \<le> 5"
proof -
  define n where "n = (case attempts of [] \<Rightarrow> 0 | x # _ \<Rightarrow> fst (snd x))"
  have "sorted (n # map (\<lambda>x. fst (snd x)) attempts)"
    using assms(1) by (cases attempts) (auto simp: n_def)
  moreover have "linked [] n (account_limiter st)"
    unfolding assms(2) login_account_limiter_def by (rule linked_new) simp
  ultimately obtain adm n' lm' where "linked ([] @ adm) n' lm'" "same_bounds (account_limiter st) lm'"
    "guesses name (in_window 60 t) (examined lib cfg attempts st) \<le>
       length (filter (in_window 60 t) (times (name_key lib name) adm))"
    using examined_linked [of "[]" n st attempts lib cfg] by blast
  moreover from this have "length (filter (in_window 60 t) (times (name_key lib name) adm)) \<le> 5"
    by (auto simp: linked_def same_bounds_def assms(2) login_account_limiter_def new_limiter_def)
  ultimately show ?thesis by linarith
qed

lemma login_guesses_bounded_witness:
  "guesses ''ann'' (in_window 60 5) (examined example_lib example_cfg
     (map (\<lambda>k. (Web_login ''h'' ''ann'' ''guess'' (auth_draws ''2''), k, k)) [0,1,2,3,4,5]) example_state) \<le> 5"
  by (rule login_guesses_bounded)
    (simp_all add: account_limiter_def example_state_eq example_start_def empty_state_def)

end
