(* ===== verification/Directory.thy ===== *)
theory Directory
  imports Auth_Models
begin

text \<open>
  Enterprise directories and the subjects of a user: the rows that mirror an identity source
  (\<open>server/models/identity_source.py\<close>, \<open>server/models/oauth.py\<close>, \<open>server/models/binding.py\<close>), which
  snapshots may be used (\<open>server/enterprise_identity/service.py\<close>), the principals pushed from
  outside (\<open>server/enterprise_identity/principals.py\<close>) and the five searches over nested groups of
  \<open>server/core/knowledge_subjects.py\<close>.

  A Python set of strings is a set, a query result is computed from the table lists. The locale
  \<open>frontier_search\<close> states what one search by frontiers computes: the reachable groups. The
  searches are interpretations of it, so the variants that walk many users at once, many groups
  at once, or downwards are compared through reachability.
\<close>


section \<open>Rows\<close>

datatype identity_source_provider = FEISHU | SHAREPOINT | DINGTALK
datatype identity_source_status = PENDING_TENANT_VERIFICATION | PENDING_BINDING | SOURCE_ACTIVE | SOURCE_STALE | SOURCE_DISABLED
datatype entry_status = ENTRY_ACTIVE | ENTRY_DISABLED
datatype membership_type = MEMBER_USER | MEMBER_GROUP
datatype directory_principal_type = PRINCIPAL_GROUP | PRINCIPAL_DEPARTMENT | PRINCIPAL_ACL_GROUP

record identity_source =
  is_id :: string
  is_provider :: identity_source_provider
  is_tenant_id :: "string option"
  is_status :: identity_source_status
  is_permission_observed_at :: "time option"
  is_permission_error :: "string option"
  is_last_synced_at :: "time option"
  is_stale_after_seconds :: int

record directory_user =
  du_identity_source_id :: string
  du_external_user_id :: string
  du_status :: entry_status

record directory_group =
  dg_identity_source_id :: string
  dg_external_group_id :: string
  dg_principal_type :: directory_principal_type
  dg_status :: entry_status

record directory_membership =
  dm_identity_source_id :: string
  dm_external_group_id :: string
  dm_member_type :: membership_type
  dm_external_member_id :: string

record principal_entry =
  pe_identity_source_id :: string
  pe_external_user_id :: string
  pe_principal_type :: directory_principal_type
  pe_principal_id :: string
  pe_expires_at :: "time option"

record user_identity =
  ui_user_id :: string
  ui_identity_provider :: string
  ui_external_subject :: string

record user_department =
  ud_user_id :: string
  ud_department_id :: string

record directory =
  d_users :: "user list"
  d_departments :: "user_department list"
  d_sources :: "identity_source list"
  d_identities :: "user_identity list"
  d_directory_users :: "directory_user list"
  d_groups :: "directory_group list"
  d_memberships :: "directory_membership list"
  d_principals :: "principal_entry list"


section \<open>Sources and principals\<close>

fun provider_value :: "identity_source_provider \<Rightarrow> string" where
  "provider_value FEISHU = ''feishu''"
| "provider_value SHAREPOINT = ''sharepoint''"
| "provider_value DINGTALK = ''dingtalk''"

text \<open>An f-string writes a missing tenant as \<open>None\<close>.\<close>

definition identity_provider_key :: "identity_source \<Rightarrow> string" where
  "identity_provider_key s =
     provider_value (is_provider s) @ '':'' @ (case is_tenant_id s of None \<Rightarrow> ''None'' | Some t \<Rightarrow> t)"

definition identity_source_snapshot_is_usable :: "identity_source \<Rightarrow> time \<Rightarrow> bool" where
  "identity_source_snapshot_is_usable s now =
     (if is_provider s = DINGTALK
      then \<not> (\<exists>e \<in> set_option (is_permission_error s). e \<noteq> '''') \<and>
        (case is_last_synced_at s of
           None \<Rightarrow> False
         | Some marker \<Rightarrow> is_status s \<in> {SOURCE_ACTIVE, SOURCE_STALE} \<and>
             marker \<ge> now - seconds (min (is_stale_after_seconds s) 900))
      else if is_status s = SOURCE_ACTIVE then True
      else case is_last_synced_at s of
             None \<Rightarrow> False
           | Some t \<Rightarrow> is_status s = SOURCE_STALE \<and> t \<ge> now - seconds (is_stale_after_seconds s))"

text \<open>A column \<open>expires_at\<close> that is NULL or in the future.\<close>

definition unexpired :: "time option \<Rightarrow> time \<Rightarrow> bool" where
  "unexpired t now = (case t of None \<Rightarrow> True | Some e \<Rightarrow> e > now)"

definition resolve_external_user_principals ::
  "directory \<Rightarrow> string \<Rightarrow> string \<Rightarrow> time \<Rightarrow> (directory_principal_type \<times> string) set" where
  "resolve_external_user_principals d source_id external_user_id now =
     (if \<exists>s \<in> set_option (tget is_id source_id (d_sources d)). is_provider s = DINGTALK then {}
      else set (map (\<lambda>e. (pe_principal_type e, pe_principal_id e))
             (filter (\<lambda>e. pe_identity_source_id e = source_id \<and> pe_external_user_id e = external_user_id \<and>
                unexpired (pe_expires_at e) now) (d_principals d))))"

definition active_directory_user :: "directory \<Rightarrow> string \<Rightarrow> string \<Rightarrow> bool" where
  "active_directory_user d source_id external_user_id =
     (\<exists>u \<in> set (d_directory_users d). du_identity_source_id u = source_id \<and>
        du_external_user_id u = external_user_id \<and> du_status u = ENTRY_ACTIVE)"


section \<open>The search over nested groups\<close>

text \<open>
  The join of active groups with their memberships: pairs of a member and a group that has it.
  A query with \<open>IN (frontier)\<close> is the image of the frontier under these pairs.
\<close>

definition joined :: "directory \<Rightarrow> string \<Rightarrow> membership_type \<Rightarrow> (string \<times> string) list" where
  "joined d source_id member_type =
     concat (map (\<lambda>g. map (\<lambda>m. (dm_external_member_id m, dg_external_group_id g))
         (filter (\<lambda>m. dm_identity_source_id m = dg_identity_source_id g \<and>
                      dm_external_group_id m = dg_external_group_id g \<and> dm_member_type m = member_type)
            (d_memberships d)))
       (filter (\<lambda>g. dg_identity_source_id g = source_id \<and> dg_status g = ENTRY_ACTIVE) (d_groups d)))"

text \<open>
  \<open>while frontier:\<close> with the groups seen so far; the first round looks for memberships of users,
  the later ones for memberships of groups. The value is the set of groups seen at the end, which
  is what the loop has added to the result.
\<close>

function climb :: "directory \<Rightarrow> string \<Rightarrow> membership_type \<Rightarrow> string set \<Rightarrow> string set \<Rightarrow> string set" where
  "climb d source_id member_type frontier visited =
     (if frontier = {} then visited
      else let groups = set (joined d source_id member_type) `` frontier - visited
           in climb d source_id MEMBER_GROUP groups (visited \<union> groups))"
  by pat_completeness auto

text \<open>
  How far a search can still go: unvisited targets of the edges count twice, a frontier once.
\<close>

definition search_rank :: "'a set \<Rightarrow> 'a set \<Rightarrow> 'a set \<Rightarrow> nat" where
  "search_rank targets frontier visited =
     2 * card (targets - visited) + (if frontier = {} then 0 else 1)"

lemma search_rank_less:
  assumes "finite targets" "groups \<subseteq> targets" "frontier \<noteq> {}" "groups \<inter> visited = {}"
  shows "search_rank targets groups (visited \<union> groups) < search_rank targets frontier visited"
proof (cases "groups = {}")
  case False
  have "targets - (visited \<union> groups) \<subset> targets - visited" using assms False by blast
  then have "card (targets - (visited \<union> groups)) < card (targets - visited)"
    using assms by (intro psubset_card_mono) auto
  then show ?thesis using assms False by (simp add: search_rank_def)
qed (use assms in \<open>simp add: search_rank_def\<close>)

termination climb
proof (relation "measure (\<lambda>(d, s, t, f, v).
    search_rank (snd ` set (joined d s MEMBER_USER) \<union> snd ` set (joined d s MEMBER_GROUP)) f v)", goal_cases)
  case (2 d s t f v x)
  have "x \<subseteq> snd ` set (joined d s MEMBER_USER) \<union> snd ` set (joined d s MEMBER_GROUP)"
    using 2 by (cases t) force+
  then have "search_rank (snd ` set (joined d s MEMBER_USER) \<union> snd ` set (joined d s MEMBER_GROUP)) x (v \<union> x)
      < search_rank (snd ` set (joined d s MEMBER_USER) \<union> snd ` set (joined d s MEMBER_GROUP)) f v"
    using 2 by (intro search_rank_less) auto
  then show ?case by simp
qed simp

declare climb.simps [simp del]


section \<open>What a search computes\<close>

text \<open>
  The contract of a search by frontiers over finitely many edges: it does one round at a time
  and stops at an empty frontier.
\<close>

locale frontier_search =
  fixes E :: "('a \<times> 'a) set"
    and run :: "'a set \<Rightarrow> 'a set \<Rightarrow> 'a set"
  assumes finite_edges: "finite E"
    and run_empty: "run {} V = V"
    and run_round: "F \<noteq> {} \<Longrightarrow> run F V = run (E `` F - V) (V \<union> (E `` F - V))"
begin

lemma run_reaches:
  assumes "E `` (V - F) \<subseteq> V"
  shows "run F V = V \<union> E\<^sup>+ `` F"
  using assms
proof (induction "search_rank (Range E) F V" arbitrary: F V rule: less_induct)
  case less
  show ?case
  proof (cases "F = {}")
    case False
    define new where "new = E `` F - V"
    have fin: "finite (Range E)" by (rule finite_Range [OF finite_edges])
    have closed: "E `` V \<subseteq> V \<union> new" using less.prems unfolding new_def by blast
    have "search_rank (Range E) new (V \<union> new) < search_rank (Range E) F V"
      using False by (intro search_rank_less [OF fin]) (auto simp: new_def)
    moreover have "E `` (V \<union> new - new) \<subseteq> V \<union> new" using closed by blast
    ultimately have "run new (V \<union> new) = V \<union> new \<union> E\<^sup>+ `` new" by (rule less.hyps)
    moreover have "V \<union> new \<union> E\<^sup>+ `` new = V \<union> E\<^sup>+ `` F"
    proof
      have "E O E\<^sup>+ \<subseteq> E\<^sup>+" by (blast intro: trancl_into_trancl2)
      then show "V \<union> new \<union> E\<^sup>+ `` new \<subseteq> V \<union> E\<^sup>+ `` F"
        unfolding new_def by blast
      let ?S = "V \<union> new \<union> E\<^sup>+ `` new"
      have step: "E `` ?S \<subseteq> ?S" using closed by (blast intro: trancl_into_trancl)
      have "y \<in> ?S" if "(x, y) \<in> E\<^sup>+" "x \<in> F" for x y
        using that
      proof (induction rule: trancl_induct)
        case (base y)
        then show ?case unfolding new_def by blast
      next
        case (step y z)
        then show ?case using \<open>E `` ?S \<subseteq> ?S\<close> by blast
      qed
      then show "V \<union> E\<^sup>+ `` F \<subseteq> ?S" by blast
    qed
    ultimately show ?thesis using False by (simp add: run_round new_def)
  qed (simp add: run_empty)
qed

lemma run_from: "run S S = E\<^sup>* `` S"
  using run_reaches [of S S] by (auto simp: rtrancl_eq_or_trancl)

end


interpretation upward: frontier_search "set (joined d source_id MEMBER_GROUP)" "climb d source_id MEMBER_GROUP"
  for d source_id
  by unfold_locales (simp_all add: climb.simps [of _ _ MEMBER_GROUP] Let_def)

text \<open>The groups above an external user: those that have the user, and all above them.\<close>

lemma climb_user:
  "climb d sid MEMBER_USER F {} = (set (joined d sid MEMBER_GROUP))\<^sup>* `` (set (joined d sid MEMBER_USER) `` F)"
  by (simp add: climb.simps [of d sid MEMBER_USER] upward.run_from)

text \<open>The loops whose edges do not change from round to round.\<close>

function spread :: "('a \<times> 'a) list \<Rightarrow> 'a set \<Rightarrow> 'a set \<Rightarrow> 'a set" where
  "spread edges frontier seen =
     (if frontier = {} then seen
      else let found = set edges `` frontier - seen in spread edges found (seen \<union> found))"
  by pat_completeness auto

termination spread
proof (relation "measure (\<lambda>(edges, f, v). search_rank (snd ` set edges) f v)", goal_cases)
  case (2 edges f v x)
  then have "search_rank (snd ` set edges) x (v \<union> x) < search_rank (snd ` set edges) f v"
    by (intro search_rank_less) force+
  then show ?case by simp
qed simp

declare spread.simps [simp del]

interpretation spreading: frontier_search "set edges" "spread edges" for edges
  by unfold_locales (simp_all add: spread.simps [of edges] Let_def)


section \<open>The subjects of a user\<close>

text \<open>
  A subject key is a tuple of strings. The identities of a user are a dictionary from provider
  to external subject: a later row of the same provider replaces an earlier one.
\<close>

type_synonym subject_key = "string list"

definition identity_map :: "user_identity list \<Rightarrow> string \<Rightarrow> string option" where
  "identity_map rows = map_of (rev (map (\<lambda>i. (ui_identity_provider i, ui_external_subject i)) rows))"

definition department_subjects :: "directory \<Rightarrow> string \<Rightarrow> subject_key set" where
  "department_subjects d user_id =
     set (map (\<lambda>m. [''DEPARTMENT'', ud_department_id m]) (filter (\<lambda>m. ud_user_id m = user_id) (d_departments d)))"

text \<open>One round of the loop over the sources: what a source adds for a user.\<close>

definition source_subjects :: "directory \<Rightarrow> time \<Rightarrow> (string \<Rightarrow> string option) \<Rightarrow> identity_source \<Rightarrow> subject_key set" where
  "source_subjects d now identities s =
     (case identities (identity_provider_key s) of
        None \<Rightarrow> {}
      | Some external_id \<Rightarrow>
          if \<not> identity_source_snapshot_is_usable s now then {}
          else let principals = resolve_external_user_principals d (is_id s) external_id now
               in if \<not> active_directory_user d (is_id s) external_id \<and> principals = {} then {}
                  else insert [''IDENTITY_SOURCE'', is_id s]
                    ((\<lambda>(_, p). [''GROUP'', is_id s, p]) ` principals \<union>
                     (\<lambda>g. [''GROUP'', is_id s, g]) ` climb d (is_id s) MEMBER_USER {external_id} {}))"

definition user_knowledge_subjects :: "directory \<Rightarrow> time \<Rightarrow> string \<Rightarrow> subject_key set" where
  "user_knowledge_subjects d now user_id =
     (let result = insert [''USER'', user_id] (department_subjects d user_id);
          rows = filter (\<lambda>i. ui_user_id i = user_id) (d_identities d)
      in if rows = [] then result
         else result \<union> \<Union> (set (map (source_subjects d now (identity_map rows)) (d_sources d))))"


section \<open>The subjects of many users at once\<close>

text \<open>
  \<open>batch_user_knowledge_subjects\<close> walks the groups of all users of a source in step: every round
  asks once for the memberships of all frontiers and then moves each user by that answer.
\<close>

definition climb_round ::
  "directory \<Rightarrow> string \<Rightarrow> membership_type \<Rightarrow> (string \<times> string set \<times> string set) list \<Rightarrow> (string \<times> string set \<times> string set) list" where
  "climb_round d source_id member_type walkers =
     (let members = \<Union> (set (map (\<lambda>(_, f, _). f) walkers));
          parents = filter (\<lambda>e. fst e \<in> members) (joined d source_id member_type)
      in map (\<lambda>(uid, f, v). let groups = set parents `` f - v in (uid, groups, v \<union> groups)) walkers)"

function climb_all ::
  "directory \<Rightarrow> string \<Rightarrow> membership_type \<Rightarrow> (string \<times> string set \<times> string set) list \<Rightarrow> (string \<times> string set \<times> string set) list" where
  "climb_all d source_id member_type walkers =
     (if \<forall>w \<in> set walkers. fst (snd w) = {} then walkers
      else climb_all d source_id MEMBER_GROUP (climb_round d source_id member_type walkers))"
  by pat_completeness auto

lemma climb_round_alone:
  "climb_round d sid t walkers =
     map (\<lambda>(uid, f, v). (uid, set (joined d sid t) `` f - v, v \<union> (set (joined d sid t) `` f - v))) walkers"
proof -
  have "set (filter (\<lambda>e. fst e \<in> \<Union> (set (map (\<lambda>(_, f, _). f) walkers))) (joined d sid t)) `` f
      = set (joined d sid t) `` f" if "(uid, f, v) \<in> set walkers" for uid f v
    using that by fastforce
  then show ?thesis unfolding climb_round_def Let_def by (auto intro!: map_cong)
qed

lemma sum_list_less:
  assumes "\<And>x. x \<in> set xs \<Longrightarrow> f x \<le> (g x :: nat)" "\<exists>x \<in> set xs. f x < g x"
  shows "sum_list (map f xs) < sum_list (map g xs)"
  using assms
proof (induction xs)
  case (Cons x xs)
  show ?case
  proof (cases "\<exists>y \<in> set xs. f y < g y")
    case True
    then show ?thesis using Cons.IH Cons.prems(1) [of x] Cons.prems(1) by (simp add: add_le_less_mono)
  next
    case False
    then have "f x < g x" using Cons.prems(2) by auto
    moreover have "sum_list (map f xs) \<le> sum_list (map g xs)"
      using Cons.prems(1) by (intro sum_list_mono) simp
    ultimately show ?thesis by simp
  qed
qed simp

termination climb_all
proof (relation "measure (\<lambda>(d, s, t, ws). \<Sum>(_, f, v) \<leftarrow> ws.
    search_rank (snd ` set (joined d s MEMBER_USER) \<union> snd ` set (joined d s MEMBER_GROUP)) f v)", goal_cases)
  case (2 d s t ws)
  let ?T = "snd ` set (joined d s MEMBER_USER) \<union> snd ` set (joined d s MEMBER_GROUP)"
  let ?after = "\<lambda>(uid, f, v). search_rank ?T (set (joined d s t) `` f - v) (v \<union> (set (joined d s t) `` f - v))"
  have sub: "set (joined d s t) `` f - v \<subseteq> ?T" for f v by (cases t) force+
  have strict: "?after w < (\<lambda>(_, f, v). search_rank ?T f v) w" if "fst (snd w) \<noteq> {}" for w :: "string \<times> string set \<times> string set"
  proof -
    obtain uid f v where w: "w = (uid, f, v)" by (cases w)
    have "search_rank ?T (set (joined d s t) `` f - v) (v \<union> (set (joined d s t) `` f - v)) < search_rank ?T f v"
      using that by (intro search_rank_less [OF _ sub]) (auto simp: w)
    then show ?thesis by (simp add: w)
  qed
  have still: "?after w = (\<lambda>(_, f, v). search_rank ?T f v) w" if "fst (snd w) = {}" for w :: "string \<times> string set \<times> string set"
    using that by (cases w) simp
  have "sum_list (map ?after ws) < (\<Sum>(_, f, v) \<leftarrow> ws. search_rank ?T f v)"
  proof (rule sum_list_less)
    show "?after w \<le> (\<lambda>(_, f, v). search_rank ?T f v) w" for w :: "string \<times> string set \<times> string set"
      by (cases "fst (snd w) = {}", rule eq_refl, erule still, rule less_imp_le, erule strict)
    show "\<exists>w \<in> set ws. ?after w < (\<lambda>(_, f, v). search_rank ?T f v) w"
      using 2 strict by blast
  qed
  then show ?case by (simp add: climb_round_alone case_prod_unfold comp_def)
qed simp

declare climb_all.simps [simp del]

text \<open>Walking together is walking alone.\<close>

lemma climb_all_alone:
  "map (\<lambda>(uid, f, v). (uid, v)) (climb_all d sid t walkers) = map (\<lambda>(uid, f, v). (uid, climb d sid t f v)) walkers"
proof (induction d sid t walkers rule: climb_all.induct)
  case (1 d sid t walkers)
  show ?case
  proof (cases "\<forall>w \<in> set walkers. fst (snd w) = {}")
    case True
    then show ?thesis by (subst climb_all.simps) (auto simp: climb.simps)
  next
    case False
    have move: "climb d sid t f v = climb d sid MEMBER_GROUP (set (joined d sid t) `` f - v) (v \<union> set (joined d sid t) `` f)" for f v
      by (cases "f = {}") (simp_all add: climb.simps [of d sid t] climb.simps [of d sid MEMBER_GROUP "{}"] Let_def)
    show ?thesis
      using 1 [OF False] False
      by (subst climb_all.simps) (simp only: if_False climb_round_alone list.map_comp comp_def case_prod_unfold fst_conv snd_conv
          Un_Diff_cancel move [symmetric])
  qed
qed

definition batch_principals :: "directory \<Rightarrow> time \<Rightarrow> identity_source \<Rightarrow> string set \<Rightarrow> string \<Rightarrow> string set" where
  "batch_principals d now s external_ids external_id =
     set (map pe_principal_id (filter (\<lambda>e. pe_identity_source_id e = is_id s \<and> is_provider s \<noteq> DINGTALK \<and>
       pe_external_user_id e \<in> external_ids \<and> unexpired (pe_expires_at e) now \<and> pe_external_user_id e = external_id)
       (d_principals d)))"

definition add_subjects ::
  "(string \<times> subject_key set) list \<Rightarrow> (string \<Rightarrow> subject_key set option) \<Rightarrow> string \<Rightarrow> subject_key set option" where
  "add_subjects found result uid =
     (case map_of found uid of None \<Rightarrow> result uid | Some keys \<Rightarrow> map_option (\<lambda>old. old \<union> keys) (result uid))"

text \<open>The users of a source among the given identity rows, with their external subject.\<close>

definition source_users :: "user_identity list \<Rightarrow> string \<Rightarrow> (string \<times> string) list" where
  "source_users rows provider =
     concat (map (\<lambda>uid. case identity_map (filter (\<lambda>i. ui_user_id i = uid) rows) provider of
         None \<Rightarrow> [] | Some external_id \<Rightarrow> [(uid, external_id)]) (remdups (map ui_user_id rows)))"

definition batch_source ::
  "directory \<Rightarrow> time \<Rightarrow> user_identity list \<Rightarrow> identity_source \<Rightarrow> (string \<Rightarrow> subject_key set option) \<Rightarrow>
   (string \<Rightarrow> subject_key set option)" where
  "batch_source d now rows s result =
     (if \<not> identity_source_snapshot_is_usable s now then result
      else let users = source_users rows (identity_provider_key s) in
        if users = [] then result
        else let principals = batch_principals d now s (snd ` set users);
                 present = filter (\<lambda>(uid, x). active_directory_user d (is_id s) x \<or> principals x \<noteq> {}) users;
                 walkers = climb_all d (is_id s) MEMBER_USER (map (\<lambda>(uid, x). (uid, {x}, {})) present);
                 started = map (\<lambda>(uid, x). (uid, insert [''IDENTITY_SOURCE'', is_id s]
                   ((\<lambda>p. [''GROUP'', is_id s, p]) ` principals x))) present;
                 climbed = map (\<lambda>(uid, f, v). (uid, (\<lambda>g. [''GROUP'', is_id s, g]) ` v)) walkers
             in add_subjects climbed (add_subjects started result))"

definition batch_user_knowledge_subjects ::
  "directory \<Rightarrow> time \<Rightarrow> string list \<Rightarrow> string \<Rightarrow> subject_key set option" where
  "batch_user_knowledge_subjects d now user_ids =
     (let result = (\<lambda>uid. if uid \<in> set user_ids
            then Some (insert [''USER'', uid] (department_subjects d uid)) else None);
          rows = filter (\<lambda>i. ui_user_id i \<in> set user_ids) (d_identities d)
      in if rows = [] then result
         else fold (batch_source d now rows) (d_sources d) result)"


subsection \<open>Each user gets the same subjects\<close>

lemma map_of_source_users:
  "map_of (source_users rows provider) uid =
     (if uid \<in> ui_user_id ` set rows then identity_map (filter (\<lambda>i. ui_user_id i = uid) rows) provider else None)"
proof -
  have "map_of (concat (map (\<lambda>u. case g u of None \<Rightarrow> [] | Some x \<Rightarrow> [(u, x)]) us)) uid =
      (if uid \<in> set us then g uid else None)" if "distinct us" for us and g :: "string \<Rightarrow> string option"
    using that by (induction us) (auto split: option.splits)
  then show ?thesis unfolding source_users_def by simp
qed

lemma distinct_source_users: "distinct (map fst (source_users rows provider))"
proof -
  have "distinct (map fst (concat (map (\<lambda>u. case g u of None \<Rightarrow> [] | Some x \<Rightarrow> [(u, x)]) us)))"
    if "distinct us" for us :: "string list" and g :: "string \<Rightarrow> string option"
    using that by (induction us) (auto split: option.splits)
  then show ?thesis unfolding source_users_def by simp
qed

lemma identity_map_empty: "uid \<notin> ui_user_id ` set rows \<Longrightarrow> filter (\<lambda>i. ui_user_id i = uid) rows = []"
  by (auto simp: filter_empty_conv)

lemma source_users_map_of:
  "map_of (source_users rows provider) uid = identity_map (filter (\<lambda>i. ui_user_id i = uid) rows) provider"
  by (simp add: map_of_source_users identity_map_empty) (simp add: identity_map_def)

lemma map_of_filter_distinct:
  "distinct (map fst xs) \<Longrightarrow> map_of (filter (\<lambda>(k, x). P x) xs) k =
     (case map_of xs k of None \<Rightarrow> None | Some x \<Rightarrow> if P x then Some x else None)"
  by (induction xs) (auto simp: map_of_eq_None_iff split: option.splits)

lemma map_of_map_value: "map_of (map (\<lambda>(k, x). (k, h x)) xs) k = map_option h (map_of xs k)"
  by (induction xs) auto

lemma batch_principals_alone:
  assumes "uniq is_id (d_sources d)" "s \<in> set (d_sources d)" "x \<in> external_ids"
  shows "batch_principals d now s external_ids x = snd ` resolve_external_user_principals d (is_id s) x now"
  using assms tget_uniq [OF assms(1,2)]
  by (auto simp: batch_principals_def resolve_external_user_principals_def image_image)

lemma batch_source_alone:
  assumes "uniq is_id (d_sources d)" "s \<in> set (d_sources d)"
  shows "batch_source d now rows s result uid =
    map_option (\<lambda>old. old \<union> source_subjects d now (identity_map (filter (\<lambda>i. ui_user_id i = uid) rows)) s) (result uid)"
proof (cases "identity_source_snapshot_is_usable s now \<and> source_users rows (identity_provider_key s) \<noteq> []")
  case False
  then show ?thesis
    using source_users_map_of [of rows "identity_provider_key s" uid]
    by (auto simp: batch_source_def source_subjects_def map_option.id [unfolded id_def] split: option.splits)
next
  case True
  let ?users = "source_users rows (identity_provider_key s)"
  let ?p = "batch_principals d now s (snd ` set ?users)"
  let ?P = "\<lambda>x. active_directory_user d (is_id s) x \<or> ?p x \<noteq> {}"
  let ?present = "filter (\<lambda>(uid, x). ?P x) ?users"
  let ?walkers = "climb_all d (is_id s) MEMBER_USER (map (\<lambda>(uid, x). (uid, {x}, {})) ?present)"
  have "map (\<lambda>(uid, f, v). (uid, (\<lambda>g. [''GROUP'', is_id s, g]) ` v)) ?walkers
      = map (\<lambda>(uid, v). (uid, (\<lambda>g. [''GROUP'', is_id s, g]) ` v)) (map (\<lambda>(uid, f, v). (uid, v)) ?walkers)"
    by (simp add: case_prod_unfold comp_def)
  also have "\<dots> = map (\<lambda>(uid, x). (uid, (\<lambda>g. [''GROUP'', is_id s, g]) ` climb d (is_id s) MEMBER_USER {x} {})) ?present"
    by (subst climb_all_alone) (simp add: case_prod_unfold comp_def)
  finally have climbed: "map (\<lambda>(uid, f, v). (uid, (\<lambda>g. [''GROUP'', is_id s, g]) ` v)) ?walkers
      = map (\<lambda>(uid, x). (uid, (\<lambda>g. [''GROUP'', is_id s, g]) ` climb d (is_id s) MEMBER_USER {x} {})) ?present" .
  have found: "map_of ?present uid = (case map_of ?users uid of None \<Rightarrow> None | Some x \<Rightarrow> if ?P x then Some x else None)"
    by (rule map_of_filter_distinct [OF distinct_source_users])
  have own: "?p x = snd ` resolve_external_user_principals d (is_id s) x now" if "map_of ?users uid = Some x" for x
    using map_of_SomeD [OF that] by (intro batch_principals_alone [OF assms]) force
  have "batch_source d now rows s result uid =
      add_subjects (map (\<lambda>(uid, x). (uid, (\<lambda>g. [''GROUP'', is_id s, g]) ` climb d (is_id s) MEMBER_USER {x} {})) ?present)
        (add_subjects (map (\<lambda>(uid, x). (uid, insert [''IDENTITY_SOURCE'', is_id s]
           ((\<lambda>p. [''GROUP'', is_id s, p]) ` ?p x))) ?present) result) uid"
    using True by (simp add: batch_source_def Let_def climbed)
  also have "\<dots> = (case map_of ?present uid of None \<Rightarrow> result uid
      | Some x \<Rightarrow> map_option (\<lambda>old. old \<union> (insert [''IDENTITY_SOURCE'', is_id s] ((\<lambda>p. [''GROUP'', is_id s, p]) ` ?p x)
          \<union> (\<lambda>g. [''GROUP'', is_id s, g]) ` climb d (is_id s) MEMBER_USER {x} {})) (result uid))"
    by (simp add: add_subjects_def map_of_map_value option.map_comp comp_def Un_assoc split: option.splits)
  also have "\<dots> = map_option (\<lambda>old. old \<union> source_subjects d now (identity_map (filter (\<lambda>i. ui_user_id i = uid) rows)) s) (result uid)"
    using True own
    unfolding found
    by (cases "map_of ?users uid")
       (simp_all add: source_subjects_def source_users_map_of Let_def image_image case_prod_unfold
         map_option.id [unfolded id_def])
  finally show ?thesis .
qed

lemma fold_batch_source:
  assumes "uniq is_id (d_sources d)" "set ss \<subseteq> set (d_sources d)"
  shows "fold (batch_source d now rows) ss result uid =
    map_option (\<lambda>old. old \<union> \<Union> (set (map (source_subjects d now (identity_map (filter (\<lambda>i. ui_user_id i = uid) rows))) ss))) (result uid)"
  using assms(2)
proof (induction ss arbitrary: result)
  case (Cons s ss)
  then show ?case
    by (simp add: batch_source_alone [OF assms(1)] option.map_comp comp_def Un_assoc Un_left_commute)
qed (simp add: map_option.id [unfolded id_def])

end
