(* ===== verification/Knowledge_Subjects.thy ===== *)
theory Knowledge_Subjects
  imports Directory
begin

text \<open>
  The rest of \<open>server/core/knowledge_subjects.py\<close>: the subjects of a directory group, one group at
  a time and many at once, and the query for the members of a subject. The theorems say that the
  batch variants give what the single ones give, and that members and subjects are the same
  relation read in the two directions.
\<close>


section \<open>The subjects of groups\<close>

definition group_knowledge_subjects :: "directory \<Rightarrow> string \<Rightarrow> string \<Rightarrow> subject_key set" where
  "group_knowledge_subjects d source_id group_id =
     insert [''IDENTITY_SOURCE'', source_id]
       ((\<lambda>g. [''GROUP'', source_id, g]) ` climb d source_id MEMBER_GROUP {group_id} {group_id})"

text \<open>
  Many groups at once. The edges upwards are read for whole frontiers in batches of 250 keys and
  kept in the dictionary \<open>parents\<close>, here the list of its pairs.
\<close>

type_synonym group_ref = "string \<times> string"

function ancestor_batches :: "'a list \<Rightarrow> 'a list list" where
  "ancestor_batches ordered =
     (if ordered = [] then [] else take 250 ordered # ancestor_batches (drop 250 ordered))"
  by pat_completeness auto
termination ancestor_batches
  by (relation "measure length") auto

declare ancestor_batches.simps [simp del]

definition ancestor_rows :: "directory \<Rightarrow> group_ref list \<Rightarrow> (group_ref \<times> group_ref) list" where
  "ancestor_rows d keys =
     concat (map (\<lambda>m. map (\<lambda>g. ((dm_identity_source_id m, dm_external_member_id m), (dm_identity_source_id m, dm_external_group_id m)))
         (filter (\<lambda>g. dg_identity_source_id g = dm_identity_source_id m \<and>
                      dg_external_group_id g = dm_external_group_id m \<and> dg_status g = ENTRY_ACTIVE) (d_groups d)))
       (filter (\<lambda>m. (dm_identity_source_id m, dm_external_member_id m) \<in> set keys \<and> dm_member_type m = MEMBER_GROUP)
         (d_memberships d)))"

definition read_parents :: "directory \<Rightarrow> group_ref set \<Rightarrow> (group_ref \<times> group_ref) list" where
  "read_parents d frontier = concat (map (ancestor_rows d) (ancestor_batches (sorted_list_of_set frontier)))"

definition all_group_refs :: "directory \<Rightarrow> group_ref list" where
  "all_group_refs d = map (\<lambda>m. (dm_identity_source_id m, dm_external_member_id m)) (d_memberships d)"

lemma Union_batches: "(\<Union>b \<in> set (ancestor_batches xs). set b) = set xs"
proof (induction xs rule: ancestor_batches.induct)
  case (1 xs)
  show ?case
  proof (cases "xs = []")
    case False
    have "(\<Union>b \<in> set (ancestor_batches xs). set b) = set (take 250 xs) \<union> (\<Union>b \<in> set (ancestor_batches (drop 250 xs)). set b)"
      using False by (subst ancestor_batches.simps) simp
    then show ?thesis
      using 1 [OF False] set_append [of "take 250 xs" "drop 250 xs"] by simp
  qed (simp add: ancestor_batches.simps)
qed

lemma ancestor_rows_Union:
  "(\<Union>b \<in> B. set (ancestor_rows d b)) = {e \<in> set (ancestor_rows d (all_group_refs d)). fst e \<in> (\<Union>b \<in> B. set b)}"
  unfolding ancestor_rows_def all_group_refs_def by (auto 4 4)

text \<open>Batching does not matter: a frontier is read as a whole.\<close>

lemma read_parents_edges:
  assumes "finite frontier"
  shows "set (read_parents d frontier) = {e \<in> set (ancestor_rows d (all_group_refs d)). fst e \<in> frontier}"
proof -
  have "set (read_parents d frontier) = (\<Union>b \<in> set (ancestor_batches (sorted_list_of_set frontier)). set (ancestor_rows d b))"
    by (simp add: read_parents_def)
  also have "\<dots> = {e \<in> set (ancestor_rows d (all_group_refs d)).
      fst e \<in> (\<Union>b \<in> set (ancestor_batches (sorted_list_of_set frontier)). set b)}"
    by (rule ancestor_rows_Union)
  finally show ?thesis using assms by (simp add: Union_batches)
qed

lemma read_parents_subset: "set (read_parents d frontier) \<subseteq> set (ancestor_rows d (all_group_refs d))"
  using read_parents_edges [of frontier d]
  by (cases "finite frontier") (auto simp: read_parents_def ancestor_batches.simps)

function collect_parents ::
  "directory \<Rightarrow> group_ref set \<Rightarrow> group_ref set \<Rightarrow> (group_ref \<times> group_ref) list \<Rightarrow> (group_ref \<times> group_ref) list" where
  "collect_parents d frontier visited parents =
     (if frontier = {} then parents
      else let parents' = parents @ read_parents d frontier;
               visited' = visited \<union> frontier
           in collect_parents d (set parents' `` frontier - visited') visited' parents')"
  by pat_completeness auto

termination collect_parents
proof (relation "measure (\<lambda>(d, f, v, p). search_rank (snd ` set p \<union> snd ` set (ancestor_rows d (all_group_refs d))) f (v \<union> f))", goal_cases)
  case (2 d f v p p' v')
  let ?T = "snd ` set p \<union> snd ` set (ancestor_rows d (all_group_refs d))"
  have same: "snd ` set p' \<union> snd ` set (ancestor_rows d (all_group_refs d)) = ?T"
    using 2 read_parents_subset [of d f] by auto
  have "search_rank ?T (set p' `` f - v') (v' \<union> (set p' `` f - v')) < search_rank ?T f v'"
  proof (rule search_rank_less)
    have "set p' `` f \<subseteq> snd ` set p'" by force
    then show "set p' `` f - v' \<subseteq> ?T" using same by blast
  qed (use 2 in blast)+
  then show ?case by (simp only: in_measure prod.case same 2(3))
qed simp

declare collect_parents.simps [simp del]

definition batch_group_knowledge_subjects ::
  "directory \<Rightarrow> group_ref set \<Rightarrow> subject_key \<Rightarrow> subject_key set option" where
  "batch_group_knowledge_subjects d groups key =
     (let parents = collect_parents d groups {} []
      in case key of
           [kind, source_id, group_id] \<Rightarrow>
             if kind = ''GROUP'' \<and> (source_id, group_id) \<in> groups
             then Some (insert [''IDENTITY_SOURCE'', source_id]
               ((\<lambda>(s, a). [''GROUP'', s, a]) ` spread parents {(source_id, group_id)} {(source_id, group_id)}))
             else None
         | _ \<Rightarrow> None)"


subsection \<open>Reading the edges once is enough\<close>

text \<open>The collected edges are all edges that leave a set of groups closed under parents.\<close>

lemma collect_parents_closed:
  assumes "finite F" "set P = {e \<in> set (ancestor_rows d (all_group_refs d)). fst e \<in> V}"
    "set (ancestor_rows d (all_group_refs d)) `` V \<subseteq> V \<union> F"
  shows "\<exists>W. V \<union> F \<subseteq> W \<and> set (ancestor_rows d (all_group_refs d)) `` W \<subseteq> W \<and>
    set (collect_parents d F V P) = {e \<in> set (ancestor_rows d (all_group_refs d)). fst e \<in> W}"
  using assms
proof (induction d F V P rule: collect_parents.induct)
  case (1 d F V P)
  let ?E = "set (ancestor_rows d (all_group_refs d))"
  show ?case
  proof (cases "F = {}")
    case True
    then show ?thesis using "1.prems" by (intro exI [of _ V]) (simp add: collect_parents.simps)
  next
    case False
    let ?P = "P @ read_parents d F"
    have P: "set ?P = {e \<in> ?E. fst e \<in> V \<union> F}"
      using "1.prems" by (auto simp: read_parents_edges)
    have fin: "finite (set ?P `` F - (V \<union> F))" using finite_Image [OF finite_set] by blast
    have "set ?P `` F = ?E `` F" unfolding P by auto
    then have "?E `` (V \<union> F) \<subseteq> V \<union> F \<union> (set ?P `` F - (V \<union> F))"
      using "1.prems"(3) by blast
    then obtain W where "V \<union> F \<union> (set ?P `` F - (V \<union> F)) \<subseteq> W" "?E `` W \<subseteq> W"
      "set (collect_parents d (set ?P `` F - (V \<union> F)) (V \<union> F) ?P) = {e \<in> ?E. fst e \<in> W}"
      using "1.IH" [OF False refl refl fin P] by blast
    then show ?thesis using False
      by (intro exI [of _ W]) (simp add: collect_parents.simps [of d F] Let_def)
  qed
qed

lemma restrict_closed:
  assumes "E `` W \<subseteq> W" "x \<in> W"
  shows "{e \<in> E. fst e \<in> W}\<^sup>* `` {x} = E\<^sup>* `` {x}"
proof
  show "{e \<in> E. fst e \<in> W}\<^sup>* `` {x} \<subseteq> E\<^sup>* `` {x}"
    using rtrancl_mono [of "{e \<in> E. fst e \<in> W}" E] by blast
  have "y \<in> W \<and> (x, y) \<in> {e \<in> E. fst e \<in> W}\<^sup>*" if "(x, y) \<in> E\<^sup>*" for y
    using that
  proof (induction rule: rtrancl_induct)
    case (step y z)
    then have "z \<in> W" using assms(1) by blast
    moreover have "(y, z) \<in> {e \<in> E. fst e \<in> W}" using step by simp
    ultimately show ?case using step by (meson rtrancl.rtrancl_into_rtrancl)
  qed (simp add: assms)
  then show "E\<^sup>* `` {x} \<subseteq> {e \<in> E. fst e \<in> W}\<^sup>* `` {x}" by blast
qed

lemma ancestor_rows_joined:
  "((s, c), (s', p)) \<in> set (ancestor_rows d (all_group_refs d)) \<longleftrightarrow>
     s' = s \<and> (c, p) \<in> set (joined d s MEMBER_GROUP)"
  unfolding ancestor_rows_def all_group_refs_def joined_def by (auto 4 4)

lemma ancestor_rows_reach:
  "(set (ancestor_rows d (all_group_refs d)))\<^sup>* `` {(s, g)} = Pair s ` ((set (joined d s MEMBER_GROUP))\<^sup>* `` {g})"
proof
  have "fst y = s \<and> (g, snd y) \<in> (set (joined d s MEMBER_GROUP))\<^sup>*"
    if "((s, g), y) \<in> (set (ancestor_rows d (all_group_refs d)))\<^sup>*" for y
    using that
  proof (induction rule: rtrancl_induct)
    case (step y z)
    then have "fst z = s \<and> (snd y, snd z) \<in> set (joined d s MEMBER_GROUP)"
      using ancestor_rows_joined [of s "snd y" "fst z" "snd z" d] by (cases y; cases z) auto
    then show ?case using step by (meson rtrancl.rtrancl_into_rtrancl)
  qed simp
  then show "(set (ancestor_rows d (all_group_refs d)))\<^sup>* `` {(s, g)} \<subseteq> Pair s ` ((set (joined d s MEMBER_GROUP))\<^sup>* `` {g})"
    by (force simp: image_iff)
  have "((s, g), (s, y)) \<in> (set (ancestor_rows d (all_group_refs d)))\<^sup>*"
    if "(g, y) \<in> (set (joined d s MEMBER_GROUP))\<^sup>*" for y
    using that
  proof (induction rule: rtrancl_induct)
    case (step y z)
    then show ?case using ancestor_rows_joined [of s y s z d] by (meson rtrancl.rtrancl_into_rtrancl)
  qed simp
  then show "Pair s ` ((set (joined d s MEMBER_GROUP))\<^sup>* `` {g}) \<subseteq> (set (ancestor_rows d (all_group_refs d)))\<^sup>* `` {(s, g)}"
    by blast
qed

lemma collected_ancestors:
  assumes "finite groups" "(s, g) \<in> groups"
  shows "spread (collect_parents d groups {} []) {(s, g)} {(s, g)} = Pair s ` ((set (joined d s MEMBER_GROUP))\<^sup>* `` {g})"
proof -
  obtain W where W: "groups \<subseteq> W" "set (ancestor_rows d (all_group_refs d)) `` W \<subseteq> W"
    "set (collect_parents d groups {} []) = {e \<in> set (ancestor_rows d (all_group_refs d)). fst e \<in> W}"
    using collect_parents_closed [of groups "[]" d "{}"] assms by auto
  have "spread (collect_parents d groups {} []) {(s, g)} {(s, g)} = {e \<in> set (ancestor_rows d (all_group_refs d)). fst e \<in> W}\<^sup>* `` {(s, g)}"
    unfolding spreading.run_from W(3) ..
  then show ?thesis using restrict_closed [OF W(2), of "(s, g)"] W(1) assms(2) by (simp add: ancestor_rows_reach subset_iff)
qed


section \<open>The members of a subject\<close>

text \<open>
  The query is evaluated: the value lists the users it selects. The edges downwards join a
  membership of a group with the active group that is the member. A key too short for its kind
  is an \<open>IndexError\<close>, here \<open>None\<close>.
\<close>

definition child_edges :: "directory \<Rightarrow> string \<Rightarrow> (string \<times> string) list" where
  "child_edges d source_id =
     concat (map (\<lambda>m. map (\<lambda>g. (dm_external_group_id m, dm_external_member_id m))
         (filter (\<lambda>g. dg_identity_source_id g = dm_identity_source_id m \<and>
                      dg_external_group_id g = dm_external_member_id m \<and> dg_status g = ENTRY_ACTIVE) (d_groups d)))
       (filter (\<lambda>m. dm_identity_source_id m = source_id \<and> dm_member_type m = MEMBER_GROUP) (d_memberships d)))"

definition active_principal :: "directory \<Rightarrow> time \<Rightarrow> identity_source \<Rightarrow> string \<Rightarrow> string \<Rightarrow> bool" where
  "active_principal d now s external_subject principal_id =
     (is_provider s \<noteq> DINGTALK \<and>
      (\<exists>e \<in> set (d_principals d). pe_identity_source_id e = is_id s \<and> pe_external_user_id e = external_subject \<and>
         unexpired (pe_expires_at e) now \<and> pe_principal_id e = principal_id))"

definition has_active_principal :: "directory \<Rightarrow> time \<Rightarrow> identity_source \<Rightarrow> string \<Rightarrow> bool" where
  "has_active_principal d now s external_subject =
     (is_provider s \<noteq> DINGTALK \<and>
      (\<exists>e \<in> set (d_principals d). pe_identity_source_id e = is_id s \<and> pe_external_user_id e = external_subject \<and>
         unexpired (pe_expires_at e) now))"

definition source_identities :: "directory \<Rightarrow> time \<Rightarrow> identity_source \<Rightarrow> user_identity list" where
  "source_identities d now s =
     filter (\<lambda>i. ui_identity_provider i = identity_provider_key s \<and>
         (active_directory_user d (is_id s) (ui_external_subject i) \<or> has_active_principal d now s (ui_external_subject i)))
       (d_identities d)"

definition directory_member :: "directory \<Rightarrow> string \<Rightarrow> string \<Rightarrow> string \<Rightarrow> bool" where
  "directory_member d source_id group_id external_subject =
     (let groups = spread (child_edges d source_id) {group_id} {group_id}
      in (\<exists>m \<in> set (d_memberships d). dm_identity_source_id m = source_id \<and> dm_external_group_id m \<in> groups \<and>
            dm_member_type m = MEMBER_USER \<and> dm_external_member_id m = external_subject) \<and>
         (\<exists>g \<in> set (d_groups d). dg_identity_source_id g = source_id \<and> dg_external_group_id g = group_id \<and>
            dg_status g = ENTRY_ACTIVE))"

definition knowledge_subject_members :: "directory \<Rightarrow> time \<Rightarrow> subject_key \<Rightarrow> string list option" where
  "knowledge_subject_members d now key =
     (case key of
        kind # k1 # rest \<Rightarrow>
          if kind = ''USER'' then Some (map u_id (filter (\<lambda>u. u_id u = k1) (d_users d)))
          else if kind = ''DEPARTMENT''
            then Some (map ud_user_id (filter (\<lambda>m. ud_department_id m = k1) (d_departments d)))
          else (case tget is_id k1 (d_sources d) of
              None \<Rightarrow> Some []
            | Some s \<Rightarrow>
                if \<not> identity_source_snapshot_is_usable s now then Some []
                else if kind = ''IDENTITY_SOURCE'' then Some (map ui_user_id (source_identities d now s))
                else case rest of
                    [] \<Rightarrow> None
                  | group_id # _ \<Rightarrow> Some (map ui_user_id (filter (\<lambda>i.
                      directory_member d (is_id s) group_id (ui_external_subject i) \<or>
                      active_principal d now s (ui_external_subject i) group_id) (source_identities d now s))))
      | _ \<Rightarrow> None)"


subsection \<open>Upwards and downwards\<close>

text \<open>
  Both searches walk the memberships between active groups: upwards the parent has to be active,
  downwards the child, and both ends of the walk are active on either way.
\<close>

lemma walk_both_ways:
  fixes M :: "'a \<Rightarrow> 'a \<Rightarrow> bool"
  assumes up: "\<And>c p. (c, p) \<in> U \<longleftrightarrow> M c p \<and> p \<in> A" and down: "\<And>c p. (p, c) \<in> D \<longleftrightarrow> M c p \<and> c \<in> A"
  shows "g \<in> A \<and> (g, k) \<in> U\<^sup>* \<longleftrightarrow> k \<in> A \<and> (k, g) \<in> D\<^sup>*"
proof
  assume "g \<in> A \<and> (g, k) \<in> U\<^sup>*"
  then have "(g, k) \<in> U\<^sup>*" "g \<in> A" by blast+
  then show "k \<in> A \<and> (k, g) \<in> D\<^sup>*"
  proof (induction rule: rtrancl_induct)
    case (step y z)
    then show ?case using up [of y z] down [of z y] by (meson converse_rtrancl_into_rtrancl)
  qed simp
next
  assume "k \<in> A \<and> (k, g) \<in> D\<^sup>*"
  then have "(k, g) \<in> D\<^sup>*" "k \<in> A" by blast+
  then show "g \<in> A \<and> (g, k) \<in> U\<^sup>*"
  proof (induction rule: rtrancl_induct)
    case (step y z)
    then show ?case using up [of z y] down [of y z] by (meson converse_rtrancl_into_rtrancl)
  qed simp
qed

lemma joined_iff:
  "(x, g) \<in> set (joined d s t) \<longleftrightarrow>
     (\<exists>m \<in> set (d_memberships d). dm_identity_source_id m = s \<and> dm_external_group_id m = g \<and>
        dm_member_type m = t \<and> dm_external_member_id m = x) \<and>
     (\<exists>r \<in> set (d_groups d). dg_identity_source_id r = s \<and> dg_external_group_id r = g \<and> dg_status r = ENTRY_ACTIVE)"
  unfolding joined_def by (auto 4 4)

lemma child_edges_iff:
  "(g, c) \<in> set (child_edges d s) \<longleftrightarrow>
     (\<exists>m \<in> set (d_memberships d). dm_identity_source_id m = s \<and> dm_external_group_id m = g \<and>
        dm_member_type m = MEMBER_GROUP \<and> dm_external_member_id m = c) \<and>
     (\<exists>r \<in> set (d_groups d). dg_identity_source_id r = s \<and> dg_external_group_id r = c \<and> dg_status r = ENTRY_ACTIVE)"
  unfolding child_edges_def by (auto 4 4)

lemma directory_member_climb:
  "directory_member d s k x \<longleftrightarrow> k \<in> climb d s MEMBER_USER {x} {}"
proof -
  let ?A = "{g. \<exists>r \<in> set (d_groups d). dg_identity_source_id r = s \<and> dg_external_group_id r = g \<and> dg_status r = ENTRY_ACTIVE}"
  let ?M = "\<lambda>t c g. \<exists>m \<in> set (d_memberships d). dm_identity_source_id m = s \<and> dm_external_group_id m = g \<and>
        dm_member_type m = t \<and> dm_external_member_id m = c"
  have "k \<in> climb d s MEMBER_USER {x} {} \<longleftrightarrow>
      (\<exists>g. (x, g) \<in> set (joined d s MEMBER_USER) \<and> (g, k) \<in> (set (joined d s MEMBER_GROUP))\<^sup>*)"
    unfolding climb_user by blast
  also have "\<dots> \<longleftrightarrow> (\<exists>g. ?M MEMBER_USER x g \<and> g \<in> ?A \<and> (g, k) \<in> (set (joined d s MEMBER_GROUP))\<^sup>*)"
    by (simp add: joined_iff)
  also have "\<dots> \<longleftrightarrow> (\<exists>g. ?M MEMBER_USER x g \<and> k \<in> ?A \<and> (k, g) \<in> (set (child_edges d s))\<^sup>*)"
    using walk_both_ways [of "set (joined d s MEMBER_GROUP)" "?M MEMBER_GROUP" ?A "set (child_edges d s)"]
    by (simp add: joined_iff child_edges_iff)
  also have "\<dots> \<longleftrightarrow> directory_member d s k x"
    by (auto simp: directory_member_def spreading.run_from)
  finally show ?thesis by blast
qed


subsection \<open>Members and subjects are one relation\<close>

lemma user_subjects_by_source:
  "user_knowledge_subjects d now uid =
     insert [''USER'', uid] (department_subjects d uid) \<union>
     (\<Union>s \<in> set (d_sources d). source_subjects d now (identity_map (filter (\<lambda>i. ui_user_id i = uid) (d_identities d))) s)"
proof (cases "filter (\<lambda>i. ui_user_id i = uid) (d_identities d) = []")
  case True
  then show ?thesis unfolding user_knowledge_subjects_def by (simp add: True identity_map_def source_subjects_def)
qed (simp add: user_knowledge_subjects_def)

lemma identity_map_Some:
  assumes "uniq (\<lambda>i. (ui_user_id i, ui_identity_provider i)) (d_identities d)"
  shows "identity_map (filter (\<lambda>i. ui_user_id i = uid) (d_identities d)) p = Some x \<longleftrightarrow>
    (\<exists>i \<in> set (d_identities d). ui_user_id i = uid \<and> ui_identity_provider i = p \<and> ui_external_subject i = x)"
proof -
  let ?rows = "filter (\<lambda>i. ui_user_id i = uid) (d_identities d)"
  have "distinct (map ui_identity_provider ?rows)"
    using assms unfolding uniq_def by (simp add: distinct_map inj_on_def)
  then have "distinct (map fst (rev (map (\<lambda>i. (ui_identity_provider i, ui_external_subject i)) ?rows)))"
    by (simp add: rev_map [symmetric] comp_def)
  then show ?thesis unfolding identity_map_def by (subst map_of_eq_Some_iff) (force simp: image_iff)+
qed

lemma resolved_principals:
  assumes "uniq is_id (d_sources d)" "s \<in> set (d_sources d)"
  shows "p \<in> snd ` resolve_external_user_principals d (is_id s) x now \<longleftrightarrow> active_principal d now s x p"
    and "resolve_external_user_principals d (is_id s) x now \<noteq> {} \<longleftrightarrow> has_active_principal d now s x"
  using tget_uniq [OF assms]
  by (force simp: resolve_external_user_principals_def active_principal_def has_active_principal_def image_iff)+

definition subject_shape :: "subject_key \<Rightarrow> bool" where
  "subject_shape key =
     (case key of
        [kind, _] \<Rightarrow> kind \<in> {''USER'', ''DEPARTMENT'', ''IDENTITY_SOURCE''}
      | [kind, _, _] \<Rightarrow> kind = ''GROUP''
      | _ \<Rightarrow> False)"

lemma source_subject_key:
  assumes "key \<in> source_subjects d now ids s"
  shows "key = [''IDENTITY_SOURCE'', is_id s] \<or> (\<exists>g. key = [''GROUP'', is_id s, g])"
  using assms unfolding source_subjects_def by (auto simp: Let_def split: option.splits if_splits)

text \<open>What one source gives a user, read from the tables.\<close>

lemma source_subject_iff:
  fixes uid :: string
  assumes "uniq is_id (d_sources d)" "s \<in> set (d_sources d)"
    and one: "uniq (\<lambda>i. (ui_user_id i, ui_identity_provider i)) (d_identities d)"
  defines "ids \<equiv> identity_map (filter (\<lambda>i. ui_user_id i = uid) (d_identities d))"
  shows "[''IDENTITY_SOURCE'', is_id s] \<in> source_subjects d now ids s \<longleftrightarrow>
      identity_source_snapshot_is_usable s now \<and> uid \<in> ui_user_id ` set (source_identities d now s)"
    and "[''GROUP'', is_id s, g] \<in> source_subjects d now ids s \<longleftrightarrow>
      identity_source_snapshot_is_usable s now \<and>
      (\<exists>i \<in> set (source_identities d now s). ui_user_id i = uid \<and>
         (directory_member d (is_id s) g (ui_external_subject i) \<or> active_principal d now s (ui_external_subject i) g))"
proof -
  note principals = resolved_principals [OF assms(1,2)]
  have ids: "ids p = Some x \<longleftrightarrow>
      (\<exists>i \<in> set (d_identities d). ui_user_id i = uid \<and> ui_identity_provider i = p \<and> ui_external_subject i = x)" for p x
    unfolding ids_def by (rule identity_map_Some [OF one])
  have key: "key \<in> source_subjects d now ids s \<longleftrightarrow>
      (\<exists>x. ids (identity_provider_key s) = Some x \<and> identity_source_snapshot_is_usable s now \<and>
         (active_directory_user d (is_id s) x \<or> has_active_principal d now s x) \<and>
         (key = [''IDENTITY_SOURCE'', is_id s] \<or>
          (\<exists>g. key = [''GROUP'', is_id s, g] \<and> (active_principal d now s x g \<or> directory_member d (is_id s) g x))))" for key
  proof (cases "ids (identity_provider_key s)")
    case (Some x)
    have none: "resolve_external_user_principals d (is_id s) x now = {} \<longleftrightarrow> \<not> has_active_principal d now s x"
      using principals(2) by blast
    have "key \<in> source_subjects d now ids s \<longleftrightarrow>
        identity_source_snapshot_is_usable s now \<and>
        (active_directory_user d (is_id s) x \<or> has_active_principal d now s x) \<and>
        (key = [''IDENTITY_SOURCE'', is_id s] \<or>
         key \<in> (\<lambda>p. [''GROUP'', is_id s, p]) ` snd ` resolve_external_user_principals d (is_id s) x now \<or>
         key \<in> (\<lambda>g. [''GROUP'', is_id s, g]) ` climb d (is_id s) MEMBER_USER {x} {})"
      by (simp add: source_subjects_def Some Let_def none image_image case_prod_unfold)
    then show ?thesis
      unfolding image_iff [of key] Bex_def principals(1) directory_member_climb [symmetric] Some option.inject by blast
  qed (simp add: source_subjects_def)
  show "[''IDENTITY_SOURCE'', is_id s] \<in> source_subjects d now ids s \<longleftrightarrow>
      identity_source_snapshot_is_usable s now \<and> uid \<in> ui_user_id ` set (source_identities d now s)"
    unfolding key ids source_identities_def by auto
  show "[''GROUP'', is_id s, g] \<in> source_subjects d now ids s \<longleftrightarrow>
      identity_source_snapshot_is_usable s now \<and>
      (\<exists>i \<in> set (source_identities d now s). ui_user_id i = uid \<and>
         (directory_member d (is_id s) g (ui_external_subject i) \<or> active_principal d now s (ui_external_subject i) g))"
    unfolding key ids source_identities_def by auto
qed

lemma sourced_key:
  assumes "key = [''IDENTITY_SOURCE'', sid] \<or> key = [''GROUP'', sid, g]"
  shows "key \<in> user_knowledge_subjects d now uid \<longleftrightarrow>
    (\<exists>s \<in> set (d_sources d). is_id s = sid \<and>
       key \<in> source_subjects d now (identity_map (filter (\<lambda>i. ui_user_id i = uid) (d_identities d))) s)"
  using assms source_subject_key unfolding user_subjects_by_source department_subjects_def by fastforce


lemma fold_subjects:
  assumes "uniq is_id (d_sources d)"
  shows "batch_user_knowledge_subjects d now user_ids =
    (\<lambda>uid. if uid \<in> set user_ids then Some (user_knowledge_subjects d now uid) else None)"
proof
  fix uid
  let ?all = "filter (\<lambda>i. ui_user_id i \<in> set user_ids) (d_identities d)"
  have own: "filter (\<lambda>i. ui_user_id i = uid) ?all = filter (\<lambda>i. ui_user_id i = uid) (d_identities d)"
    if "uid \<in> set user_ids"
    using that by (auto intro: filter_cong)
  show "batch_user_knowledge_subjects d now user_ids uid =
    (if uid \<in> set user_ids then Some (user_knowledge_subjects d now uid) else None)"
  proof (cases "?all = []")
    case True
    then have "filter (\<lambda>i. ui_user_id i = uid) (d_identities d) = []" if "uid \<in> set user_ids"
      using own [OF that] by simp
    then show ?thesis using True by (simp add: batch_user_knowledge_subjects_def user_knowledge_subjects_def)
  next
    case False
    then show ?thesis
      using own by (simp add: batch_user_knowledge_subjects_def fold_batch_source [OF assms subset_refl] user_subjects_by_source)
  qed
qed


subsection \<open>An example directory\<close>

text \<open>One source with one user in a group that is nested in another.\<close>

definition example_source :: identity_source where
  "example_source = \<lparr>is_id = ''s'', is_provider = FEISHU, is_tenant_id = Some ''t'', is_status = SOURCE_ACTIVE,
     is_permission_observed_at = None, is_permission_error = None, is_last_synced_at = None, is_stale_after_seconds = 60\<rparr>"

definition directory_person :: "string \<Rightarrow> user" where
  "directory_person name = \<lparr>u_id = name, u_external_id = name, u_auth_provider = AUTH_OIDC, u_password_hash = None,
     u_password_state = None, u_credential_epoch = 0, u_role = ROLE_MEMBER, u_status = USER_ACTIVE\<rparr>"

definition example_directory :: directory where
  "example_directory = \<lparr>d_users = [directory_person ''ann''], d_departments = [\<lparr>ud_user_id = ''ann'', ud_department_id = ''dep''\<rparr>],
     d_sources = [example_source],
     d_identities = [\<lparr>ui_user_id = ''ann'', ui_identity_provider = ''feishu:t'', ui_external_subject = ''x''\<rparr>],
     d_directory_users = [\<lparr>du_identity_source_id = ''s'', du_external_user_id = ''x'', du_status = ENTRY_ACTIVE\<rparr>],
     d_groups = [\<lparr>dg_identity_source_id = ''s'', dg_external_group_id = ''g'', dg_principal_type = PRINCIPAL_GROUP, dg_status = ENTRY_ACTIVE\<rparr>,
                 \<lparr>dg_identity_source_id = ''s'', dg_external_group_id = ''top'', dg_principal_type = PRINCIPAL_GROUP, dg_status = ENTRY_ACTIVE\<rparr>],
     d_memberships = [\<lparr>dm_identity_source_id = ''s'', dm_external_group_id = ''g'', dm_member_type = MEMBER_USER, dm_external_member_id = ''x''\<rparr>,
                      \<lparr>dm_identity_source_id = ''s'', dm_external_group_id = ''top'', dm_member_type = MEMBER_GROUP, dm_external_member_id = ''g''\<rparr>],
     d_principals = []\<rparr>"

lemma example_unique:
  "uniq is_id (d_sources example_directory)"
  "uniq (\<lambda>i. (ui_user_id i, ui_identity_provider i)) (d_identities example_directory)"
  by (simp_all add: example_directory_def uniq_def)

lemma example_subjects:
  "[''GROUP'', ''s'', ''g''] \<in> user_knowledge_subjects example_directory 0 ''ann''"
  "[''GROUP'', ''s'', ''top''] \<in> user_knowledge_subjects example_directory 0 ''ann''"
proof -
  have "(''g'', ''top'') \<in> (set (joined example_directory ''s'' MEMBER_GROUP))\<^sup>*"
    "(''x'', ''g'') \<in> set (joined example_directory ''s'' MEMBER_USER)"
    by (auto simp: joined_iff example_directory_def)
  then have "''top'' \<in> climb example_directory ''s'' MEMBER_USER {''x''} {}" "''g'' \<in> climb example_directory ''s'' MEMBER_USER {''x''} {}"
    unfolding climb_user by blast+
  moreover have "identity_map (d_identities example_directory) ''feishu:t'' = Some ''x''"
    "identity_provider_key example_source = ''feishu:t''" "is_id example_source = ''s''"
    "identity_source_snapshot_is_usable example_source 0" "active_directory_user example_directory ''s'' ''x''"
    "filter (\<lambda>i. ui_user_id i = ''ann'') (d_identities example_directory) = d_identities example_directory"
    "d_sources example_directory = [example_source]"
    by (simp_all add: example_directory_def example_source_def identity_map_def identity_provider_key_def
        identity_source_snapshot_is_usable_def active_directory_user_def)
  ultimately show "[''GROUP'', ''s'', ''g''] \<in> user_knowledge_subjects example_directory 0 ''ann''"
    "[''GROUP'', ''s'', ''top''] \<in> user_knowledge_subjects example_directory 0 ''ann''"
    unfolding user_subjects_by_source by (simp_all add: source_subjects_def Let_def)
qed


section \<open>Properties\<close>

text \<open>Resolving the subjects of many users together, one query per source and depth, gives
  every user exactly the subjects that resolving the user alone gives, and nothing for others.\<close>

theorem batch_subjects_agree:
  assumes "uniq is_id (d_sources d)"
  shows "batch_user_knowledge_subjects d now user_ids =
    (\<lambda>uid. if uid \<in> set user_ids then Some (user_knowledge_subjects d now uid) else None)"
  by (rule fold_subjects [OF assms])

theorem batch_subjects_agree_witness:
  "batch_user_knowledge_subjects example_directory 0 [''ann'', ''bob''] ''ann'' =
     Some (user_knowledge_subjects example_directory 0 ''ann'')"
  using batch_subjects_agree [OF example_unique(1), of 0 "[''ann'', ''bob'']"] by simp

text \<open>Expanding many directory groups together, with the parents of every frontier read once in
  batches, gives each group the subjects that expanding it alone gives.\<close>

theorem batch_group_subjects_agree:
  assumes "finite groups" "(source_id, group_id) \<in> groups"
  shows "batch_group_knowledge_subjects d groups [''GROUP'', source_id, group_id] =
    Some (group_knowledge_subjects d source_id group_id)"
  using assms
  by (simp add: batch_group_knowledge_subjects_def group_knowledge_subjects_def collected_ancestors upward.run_from image_image)

theorem batch_group_subjects_agree_witness:
  "batch_group_knowledge_subjects example_directory {(''s'', ''g''), (''s'', ''top'')} [''GROUP'', ''s'', ''g''] =
     Some (group_knowledge_subjects example_directory ''s'' ''g'')"
  using batch_group_subjects_agree [of "{(''s'', ''g''), (''s'', ''top'')}" "''s''" "''g''" example_directory] by simp

text \<open>The query for the members of a subject selects a user exactly if the subject is among the
  subjects of that user: nested groups are followed downwards and upwards alike. Each user has at
  most one identity per provider.\<close>

theorem subject_members_inverse:
  assumes "uniq is_id (d_sources d)" "uniq (\<lambda>i. (ui_user_id i, ui_identity_provider i)) (d_identities d)"
    "uid \<in> u_id ` set (d_users d)" "subject_shape key"
  shows "\<exists>members. knowledge_subject_members d now key = Some members \<and>
    (uid \<in> set members \<longleftrightarrow> key \<in> user_knowledge_subjects d now uid)"
proof -
  consider (user) k where "key = [''USER'', k]" | (department) k where "key = [''DEPARTMENT'', k]"
    | (sourced) sid g where "key = [''IDENTITY_SOURCE'', sid] \<or> key = [''GROUP'', sid, g]"
    using assms(4) unfolding subject_shape_def by (auto split: list.splits)
  then show ?thesis
  proof cases
    case user
    then show ?thesis using assms(3) source_subject_key
      by (fastforce simp: knowledge_subject_members_def user_subjects_by_source department_subjects_def)
  next
    case department
    then show ?thesis using source_subject_key
      by (fastforce simp: knowledge_subject_members_def user_subjects_by_source department_subjects_def)
  next
    case sourced
    show ?thesis
    proof (cases "tget is_id sid (d_sources d)")
      case None
      then have "\<not> (\<exists>s \<in> set (d_sources d). is_id s = sid)" by (auto dest: tget_NoneD)
      then show ?thesis using None sourced sourced_key [OF sourced] by (auto simp: knowledge_subject_members_def)
    next
      case (Some s)
      then have s: "s \<in> set (d_sources d)" "is_id s = sid" using tget_SomeD by fastforce+
      have only: "t = s" if "t \<in> set (d_sources d)" "is_id t = sid" for t
        using tget_uniq [OF assms(1) that(1)] that(2) Some by simp
      have "key \<in> user_knowledge_subjects d now uid \<longleftrightarrow>
          key \<in> source_subjects d now (identity_map (filter (\<lambda>i. ui_user_id i = uid) (d_identities d))) s"
        unfolding sourced_key [OF sourced] using s only by blast
      then show ?thesis
        using sourced s Some source_subject_iff [OF assms(1) s(1) assms(2)]
        by (auto simp: knowledge_subject_members_def)
    qed
  qed
qed

theorem subject_members_inverse_witness:
  "\<exists>members. knowledge_subject_members example_directory 0 [''GROUP'', ''s'', ''top''] = Some members \<and> ''ann'' \<in> set members"
proof -
  have user: "''ann'' \<in> u_id ` set (d_users example_directory)" "subject_shape [''GROUP'', ''s'', ''top'']"
    by (simp_all add: example_directory_def directory_person_def subject_shape_def)
  show ?thesis using subject_members_inverse [OF example_unique user, of 0] example_subjects(2) by blast
qed

end
