(* ===== verification/Agent_Access.thy ===== *)
theory Agent_Access
  imports Knowledge_Subjects
begin

text \<open>
  Which users may use an agent (\<open>server/core/agent_access.py\<close>): by direct assignment, as a
  built-in user of an agent open to them, or through a department, an enterprise group or a group
  of an identity source. The rows are those of \<open>server/models/agent_polarrag_access.py\<close> and
  \<open>server/models/polarrag.py\<close>. The same question is answered per user, per agent, and for many
  users at once; the theorems relate the answers.
\<close>


section \<open>Rows\<close>

datatype knowledge_scope_mode = LEGACY_ALL | SCOPED

record access_agent =
  ag_id :: string
  ag_all_builtin_users :: bool
  ag_knowledge_scope_mode :: knowledge_scope_mode

datatype agent_group_kind = KIND_DEPARTMENT | KIND_ENTERPRISE | KIND_IDENTITY_SOURCE | KIND_IDENTITY_SOURCE_ALL

record agent_group_assignment =
  ga_id :: string
  ga_agent_id :: string
  ga_group_kind :: agent_group_kind
  ga_department_id :: "string option"
  ga_identity_domain :: "string option"
  ga_provider :: "string option"
  ga_identity_source_id :: "string option"
  ga_principal_id :: "string option"

record agent_user_assignment =
  ua_agent_id :: string
  ua_user_id :: string
  ua_is_direct :: bool

datatype enterprise_principal_type = ENTERPRISE_USER | ENTERPRISE_GROUP
datatype enterprise_principal_source = ADMIN_MANAGED | REMOTE_RESOLVER
datatype enterprise_principal_status = ENTERPRISE_ACTIVE | ENTERPRISE_DISABLED

record enterprise_principal =
  ep_pas_user_id :: string
  ep_identity_domain :: string
  ep_provider :: string
  ep_principal_type :: enterprise_principal_type
  ep_principal_id :: string
  ep_source :: enterprise_principal_source
  ep_status :: enterprise_principal_status
  ep_valid_until :: "time option"

record access_db =
  x_directory :: directory
  x_agents :: "access_agent list"
  x_user_assignments :: "agent_user_assignment list"
  x_group_assignments :: "agent_group_assignment list"
  x_enterprise_principals :: "enterprise_principal list"

text \<open>The check constraint \<open>ck_agent_group_assignment_shape\<close>.\<close>

definition assignment_shape :: "agent_group_assignment \<Rightarrow> bool" where
  "assignment_shape a =
     (case ga_group_kind a of
        KIND_DEPARTMENT \<Rightarrow> ga_department_id a \<noteq> None \<and> ga_identity_domain a = None \<and> ga_provider a = None \<and>
          ga_identity_source_id a = None \<and> ga_principal_id a = None
      | KIND_ENTERPRISE \<Rightarrow> ga_department_id a = None \<and> ga_identity_domain a \<noteq> None \<and> ga_provider a \<noteq> None \<and>
          ga_identity_source_id a = None \<and> ga_principal_id a \<noteq> None
      | KIND_IDENTITY_SOURCE \<Rightarrow> ga_department_id a = None \<and> ga_identity_domain a = None \<and> ga_provider a = None \<and>
          ga_identity_source_id a \<noteq> None \<and> ga_principal_id a \<noteq> None
      | KIND_IDENTITY_SOURCE_ALL \<Rightarrow> ga_department_id a = None \<and> ga_identity_domain a = None \<and> ga_provider a = None \<and>
          ga_identity_source_id a \<noteq> None \<and> ga_principal_id a = None)"


section \<open>Grants of a user\<close>

definition builtin_user_agent_ids :: "access_db \<Rightarrow> string \<Rightarrow> string set" where
  "builtin_user_agent_ids x user_id =
     set (map ag_id (filter (\<lambda>a. ag_all_builtin_users a \<and>
       (\<exists>u \<in> set (d_users (x_directory x)). u_id u = user_id \<and> u_auth_provider u = AUTH_BUILTIN \<and> u_status u = USER_ACTIVE))
       (x_agents x)))"

text \<open>The joins of group assignments with the departments and the enterprise groups of a user.\<close>

definition department_assignments :: "access_db \<Rightarrow> string \<Rightarrow> agent_group_assignment list" where
  "department_assignments x user_id =
     filter (\<lambda>a. ga_group_kind a = KIND_DEPARTMENT \<and>
         (\<exists>m \<in> set (d_departments (x_directory x)). ga_department_id a = Some (ud_department_id m) \<and> ud_user_id m = user_id))
       (x_group_assignments x)"

definition enterprise_member :: "time \<Rightarrow> string \<Rightarrow> agent_group_assignment \<Rightarrow> enterprise_principal \<Rightarrow> bool" where
  "enterprise_member now user_id a e =
     (ga_identity_domain a = Some (ep_identity_domain e) \<and> ga_provider a = Some (ep_provider e) \<and>
      ga_principal_id a = Some (ep_principal_id e) \<and> ep_pas_user_id e = user_id \<and>
      ep_principal_type e = ENTERPRISE_GROUP \<and> ep_status e = ENTERPRISE_ACTIVE \<and> unexpired (ep_valid_until e) now)"

definition enterprise_assignments :: "access_db \<Rightarrow> time \<Rightarrow> string \<Rightarrow> agent_group_assignment list" where
  "enterprise_assignments x now user_id =
     filter (\<lambda>a. ga_group_kind a = KIND_ENTERPRISE \<and>
         (\<exists>e \<in> set (x_enterprise_principals x). enterprise_member now user_id a e))
       (x_group_assignments x)"

definition department_agent_ids :: "access_db \<Rightarrow> string \<Rightarrow> string set" where
  "department_agent_ids x user_id = ga_agent_id ` set (department_assignments x user_id)"

definition enterprise_group_agent_ids :: "access_db \<Rightarrow> time \<Rightarrow> string \<Rightarrow> string set" where
  "enterprise_group_agent_ids x now user_id = ga_agent_id ` set (enterprise_assignments x now user_id)"


subsection \<open>Groups of identity sources\<close>

text \<open>
  A query for assignments returns pairs of the assignment and the agent. With an agent given it
  is narrowed to that agent.
\<close>

definition of_agent :: "string option \<Rightarrow> agent_group_assignment \<Rightarrow> bool" where
  "of_agent agent_id a = (case agent_id of None \<Rightarrow> True | Some i \<Rightarrow> ga_agent_id a = i)"

definition all_users_query :: "access_db \<Rightarrow> string option \<Rightarrow> string \<Rightarrow> (string \<times> string) set" where
  "all_users_query x agent_id source_id =
     set (map (\<lambda>a. (ga_id a, ga_agent_id a)) (filter (\<lambda>a. ga_group_kind a = KIND_IDENTITY_SOURCE_ALL \<and>
       ga_identity_source_id a = Some source_id \<and> of_agent agent_id a) (x_group_assignments x)))"

definition group_query :: "access_db \<Rightarrow> string option \<Rightarrow> string \<Rightarrow> string set \<Rightarrow> (string \<times> string) set" where
  "group_query x agent_id source_id group_ids =
     set (map (\<lambda>a. (ga_id a, ga_agent_id a)) (filter (\<lambda>a. ga_group_kind a = KIND_IDENTITY_SOURCE \<and>
       ga_identity_source_id a = Some source_id \<and> (\<exists>p \<in> group_ids. ga_principal_id a = Some p) \<and> of_agent agent_id a)
       (x_group_assignments x)))"

text \<open>The loop over nested groups, which asks for assignments in every round.\<close>

function search_assignments ::
  "access_db \<Rightarrow> string option \<Rightarrow> string \<Rightarrow> membership_type \<Rightarrow> string set \<Rightarrow> string set \<Rightarrow> (string \<times> string) set \<Rightarrow>
   (string \<times> string) set" where
  "search_assignments x agent_id source_id member_type frontier visited result =
     (if frontier = {} then result
      else let group_ids = set (joined (x_directory x) source_id member_type) `` frontier - visited
           in if group_ids = {} then result
              else search_assignments x agent_id source_id MEMBER_GROUP group_ids (visited \<union> group_ids)
                     (result \<union> group_query x agent_id source_id group_ids))"
  by pat_completeness auto

termination search_assignments
proof (relation "measure (\<lambda>(x, a, s, t, f, v, r).
    search_rank (snd ` set (joined (x_directory x) s MEMBER_USER) \<union> snd ` set (joined (x_directory x) s MEMBER_GROUP)) f v)", goal_cases)
  case (2 x a s t f v r g)
  let ?T = "snd ` set (joined (x_directory x) s MEMBER_USER) \<union> snd ` set (joined (x_directory x) s MEMBER_GROUP)"
  have "g \<subseteq> ?T" using 2 by (cases t) force+
  then have "search_rank ?T g (v \<union> g) < search_rank ?T f v" using 2 by (intro search_rank_less) auto
  then show ?case by simp
qed simp

declare search_assignments.simps [simp del]

text \<open>One round of the loop over the sources.\<close>

definition source_assignments ::
  "access_db \<Rightarrow> time \<Rightarrow> string \<Rightarrow> string option \<Rightarrow> identity_source \<Rightarrow> (string \<times> string) set" where
  "source_assignments x now user_id agent_id s =
     (let d = x_directory x;
          external_user_ids = set (map ui_external_subject (filter (\<lambda>i. ui_user_id i = user_id \<and>
            ui_identity_provider i = identity_provider_key s) (d_identities d)));
          matched_ids = {e \<in> external_user_ids. active_directory_user d (is_id s) e} \<union>
            {e \<in> external_user_ids. resolve_external_user_principals d (is_id s) e now \<noteq> {}};
          local_group_ids = (\<Union>e \<in> matched_ids. snd ` resolve_external_user_principals d (is_id s) e now)
      in if \<not> identity_source_snapshot_is_usable s now then {}
         else if external_user_ids = {} then {}
         else if matched_ids = {} then {}
         else search_assignments x agent_id (is_id s) MEMBER_USER matched_ids {}
                (all_users_query x agent_id (is_id s) \<union>
                 (if local_group_ids = {} then {} else group_query x agent_id (is_id s) local_group_ids)))"

definition identity_source_group_assignments ::
  "access_db \<Rightarrow> time \<Rightarrow> string \<Rightarrow> string option \<Rightarrow> (string \<times> string) set" where
  "identity_source_group_assignments x now user_id agent_id =
     \<Union> (set (map (source_assignments x now user_id agent_id)
       (filter (\<lambda>s. is_status s = SOURCE_ACTIVE \<or> is_status s = SOURCE_STALE \<and> is_last_synced_at s \<noteq> None)
         (d_sources (x_directory x)))))"

definition identity_source_group_agent_ids :: "access_db \<Rightarrow> time \<Rightarrow> string \<Rightarrow> string set" where
  "identity_source_group_agent_ids x now user_id = snd ` identity_source_group_assignments x now user_id None"


section \<open>The decisions\<close>

definition list_matching_agent_group_assignment_ids :: "access_db \<Rightarrow> time \<Rightarrow> string \<Rightarrow> string \<Rightarrow> string set" where
  "list_matching_agent_group_assignment_ids x now agent_id user_id =
     ga_id ` {a \<in> set (department_assignments x user_id). ga_agent_id a = agent_id} \<union>
     ga_id ` {a \<in> set (enterprise_assignments x now user_id). ga_agent_id a = agent_id} \<union>
     fst ` identity_source_group_assignments x now user_id (Some agent_id)"

definition direct_agent_ids :: "access_db \<Rightarrow> string \<Rightarrow> string set" where
  "direct_agent_ids x user_id =
     set (map ua_agent_id (filter (\<lambda>a. ua_user_id a = user_id \<and> ua_is_direct a) (x_user_assignments x)))"

definition list_accessible_agent_ids :: "access_db \<Rightarrow> time \<Rightarrow> string \<Rightarrow> string set" where
  "list_accessible_agent_ids x now user_id =
     direct_agent_ids x user_id \<union> department_agent_ids x user_id \<union> enterprise_group_agent_ids x now user_id \<union>
     identity_source_group_agent_ids x now user_id \<union> builtin_user_agent_ids x user_id"

definition has_group_agent_access :: "access_db \<Rightarrow> time \<Rightarrow> string \<Rightarrow> string \<Rightarrow> bool" where
  "has_group_agent_access x now agent_id user_id =
     (if agent_id \<in> builtin_user_agent_ids x user_id then True
      else if agent_id \<in> department_agent_ids x user_id then True
      else if agent_id \<in> enterprise_group_agent_ids x now user_id then True
      else agent_id \<in> identity_source_group_agent_ids x now user_id)"

definition has_agent_access :: "access_db \<Rightarrow> time \<Rightarrow> string \<Rightarrow> string \<Rightarrow> bool" where
  "has_agent_access x now agent_id user_id = (agent_id \<in> list_accessible_agent_ids x now user_id)"

text \<open>
  Many users at once: the assignments of the agent become subject keys, and a user has access with
  a subject among them. A column is tested for truth, so an empty string gives no key.
\<close>

definition truthy :: "string option \<Rightarrow> bool" where
  "truthy c = (c \<noteq> None \<and> c \<noteq> Some '''')"

definition assignment_key :: "agent_group_assignment \<Rightarrow> subject_key set" where
  "assignment_key a =
     (case ga_group_kind a of
        KIND_DEPARTMENT \<Rightarrow>
          (if truthy (ga_department_id a) then {[''DEPARTMENT'', the (ga_department_id a)]} else {})
      | KIND_IDENTITY_SOURCE_ALL \<Rightarrow>
          (if truthy (ga_identity_source_id a) then {[''IDENTITY_SOURCE'', the (ga_identity_source_id a)]} else {})
      | KIND_IDENTITY_SOURCE \<Rightarrow>
          (if truthy (ga_identity_source_id a) \<and> truthy (ga_principal_id a)
           then {[''GROUP'', the (ga_identity_source_id a), the (ga_principal_id a)]} else {})
      | KIND_ENTERPRISE \<Rightarrow> {})"

definition list_agent_accessible_user_ids :: "access_db \<Rightarrow> time \<Rightarrow> access_agent \<Rightarrow> string set \<Rightarrow> string set" where
  "list_agent_accessible_user_ids x now agent user_ids =
     (if user_ids = {} then {}
      else let
        direct = set (map ua_user_id (filter (\<lambda>a. ua_agent_id a = ag_id agent \<and> ua_user_id a \<in> user_ids \<and> ua_is_direct a)
          (x_user_assignments x)));
        builtin = (if ag_all_builtin_users agent
          then set (map u_id (filter (\<lambda>u. u_id u \<in> user_ids \<and> u_auth_provider u = AUTH_BUILTIN \<and> u_status u = USER_ACTIVE)
                 (d_users (x_directory x)))) else {});
        subject_keys = (\<Union>a \<in> {a \<in> set (x_group_assignments x). ga_agent_id a = ag_id agent}. assignment_key a);
        subjects = (if subject_keys = {} then {}
          else {uid \<in> user_ids. \<exists>keys \<in> set_option (batch_user_knowledge_subjects (x_directory x) now
                 (sorted_list_of_set user_ids) uid). keys \<inter> subject_keys \<noteq> {}});
        enterprise = {uid \<in> user_ids. \<exists>a \<in> set (x_group_assignments x). ga_agent_id a = ag_id agent \<and>
          ga_group_kind a = KIND_ENTERPRISE \<and> (\<exists>e \<in> set (x_enterprise_principals x). enterprise_member now uid a e)}
      in direct \<union> builtin \<union> subjects \<union> enterprise)"


section \<open>What a source grants\<close>

text \<open>
  An assignment to a source or to one of its groups holds for a user who has an identity present
  in the source; for a group the identity has to be in it, or a pushed principal names it.
\<close>

definition source_grants :: "directory \<Rightarrow> time \<Rightarrow> string \<Rightarrow> agent_group_assignment \<Rightarrow> identity_source \<Rightarrow> bool" where
  "source_grants d now user_id a s =
     (identity_source_snapshot_is_usable s now \<and> ga_identity_source_id a = Some (is_id s) \<and>
      (\<exists>i \<in> set (source_identities d now s). ui_user_id i = user_id \<and>
         (ga_group_kind a = KIND_IDENTITY_SOURCE_ALL \<or>
          ga_group_kind a = KIND_IDENTITY_SOURCE \<and> (\<exists>p. ga_principal_id a = Some p \<and>
            (directory_member d (is_id s) p (ui_external_subject i) \<or> active_principal d now s (ui_external_subject i) p)))))"

lemma climb_increases: "V \<subseteq> climb d s t F V"
proof (induction d s t F V rule: climb.induct)
  case (1 d s t F V)
  then show ?case by (subst climb.simps) (auto simp: Let_def)
qed

lemma all_users_query_set:
  "all_users_query x agent_id s = (\<lambda>a. (ga_id a, ga_agent_id a)) ` {a \<in> set (x_group_assignments x).
     ga_group_kind a = KIND_IDENTITY_SOURCE_ALL \<and> ga_identity_source_id a = Some s \<and> of_agent agent_id a}"
  unfolding all_users_query_def by auto

lemma group_query_set:
  "group_query x agent_id s P = (\<lambda>a. (ga_id a, ga_agent_id a)) ` {a \<in> set (x_group_assignments x).
     ga_group_kind a = KIND_IDENTITY_SOURCE \<and> ga_identity_source_id a = Some s \<and>
     (\<exists>p. p \<in> P \<and> ga_principal_id a = Some p) \<and> of_agent agent_id a}"
  unfolding group_query_def by auto

lemma group_query_Un: "group_query x a s (P \<union> Q) = group_query x a s P \<union> group_query x a s Q"
  unfolding group_query_def by auto

lemma group_query_empty [simp]: "group_query x a s {} = {}"
  unfolding group_query_def by simp

lemma search_assignments_climb:
  "search_assignments x a s t F V R = R \<union> group_query x a s (climb (x_directory x) s t F V - V)"
proof (induction x a s t F V R rule: search_assignments.induct)
  case (1 x a s t F V R)
  show ?case
  proof (cases "F = {}")
    case True
    then show ?thesis by (simp add: search_assignments.simps climb.simps)
  next
    case False
    define g where "g = set (joined (x_directory x) s t) `` F - V"
    have c: "climb (x_directory x) s t F V = climb (x_directory x) s MEMBER_GROUP g (V \<union> g)"
      using False by (subst climb.simps) (simp add: g_def)
    show ?thesis
    proof (cases "g = {}")
      case True
      then show ?thesis using False c
        by (subst search_assignments.simps) (simp add: g_def [symmetric] climb.simps [of _ _ MEMBER_GROUP])
    next
      case nonempty: False
      have "climb (x_directory x) s t F V - V = g \<union> (climb (x_directory x) s MEMBER_GROUP g (V \<union> g) - (V \<union> g))"
        using climb_increases [of "V \<union> g" "x_directory x" s MEMBER_GROUP g] c by (auto simp: g_def)
      then show ?thesis
        using 1 [OF False g_def nonempty] False nonempty
        by (subst search_assignments.simps) (simp add: g_def [symmetric] group_query_Un Un_assoc)
    qed
  qed
qed

lemma source_assignments_iff:
  assumes "uniq is_id (d_sources (x_directory x))" "s \<in> set (d_sources (x_directory x))"
  shows "source_assignments x now uid agent_id s =
    (\<lambda>a. (ga_id a, ga_agent_id a)) ` {a \<in> set (x_group_assignments x). of_agent agent_id a \<and> source_grants (x_directory x) now uid a s}"
proof (cases "identity_source_snapshot_is_usable s now")
  case True
  let ?d = "x_directory x"
  define ext where "ext = set (map ui_external_subject (filter (\<lambda>i. ui_user_id i = uid \<and>
            ui_identity_provider i = identity_provider_key s) (d_identities ?d)))"
  define matched where "matched = {e \<in> ext. active_directory_user ?d (is_id s) e} \<union>
            {e \<in> ext. resolve_external_user_principals ?d (is_id s) e now \<noteq> {}}"
  define local where "local = (\<Union>e \<in> matched. snd ` resolve_external_user_principals ?d (is_id s) e now)"
  have matched: "e \<in> matched \<longleftrightarrow> (\<exists>i \<in> set (source_identities ?d now s). ui_user_id i = uid \<and> ui_external_subject i = e)" for e
    unfolding matched_def ext_def resolved_principals(2) [OF assms] source_identities_def by auto
  have local: "p \<in> local \<longleftrightarrow> (\<exists>e \<in> matched. active_principal ?d now s e p)" for p
    unfolding local_def using resolved_principals(1) [OF assms] by blast
  have above: "p \<in> climb ?d (is_id s) MEMBER_USER matched {} \<longleftrightarrow> (\<exists>e \<in> matched. directory_member ?d (is_id s) p e)" for p
    unfolding directory_member_climb climb_user by blast
  have "source_assignments x now uid agent_id s =
      (if ext = {} then {} else if matched = {} then {}
       else search_assignments x agent_id (is_id s) MEMBER_USER matched {} (all_users_query x agent_id (is_id s) \<union>
         (if local = {} then {} else group_query x agent_id (is_id s) local)))"
    unfolding source_assignments_def Let_def ext_def [symmetric] matched_def [symmetric] local_def [symmetric]
    by (simp only: True not_True_eq_False if_False)
  also have "\<dots> = (if matched = {} then {} else all_users_query x agent_id (is_id s) \<union> group_query x agent_id (is_id s) local \<union>
         group_query x agent_id (is_id s) (climb ?d (is_id s) MEMBER_USER matched {}))"
    by (simp add: search_assignments_climb) (simp add: matched_def)
  also have "\<dots> = (\<lambda>a. (ga_id a, ga_agent_id a)) ` {a \<in> set (x_group_assignments x). of_agent agent_id a \<and>
      ga_identity_source_id a = Some (is_id s) \<and> (\<exists>e \<in> matched. ga_group_kind a = KIND_IDENTITY_SOURCE_ALL \<or>
        ga_group_kind a = KIND_IDENTITY_SOURCE \<and> (\<exists>p. ga_principal_id a = Some p \<and>
          (directory_member ?d (is_id s) p e \<or> active_principal ?d now s e p)))}"
  proof (cases "matched = {}")
    case False
    then show ?thesis
      unfolding all_users_query_set group_query_set local above image_Un [symmetric] by (simp, intro arg_cong2 [where f = image] refl) auto
  qed simp
  also have "\<dots> = (\<lambda>a. (ga_id a, ga_agent_id a)) ` {a \<in> set (x_group_assignments x). of_agent agent_id a \<and> source_grants ?d now uid a s}"
    unfolding source_grants_def Bex_def matched using True by blast
  finally show ?thesis .
qed (simp add: source_assignments_def source_grants_def)

lemma usable_status:
  "identity_source_snapshot_is_usable s now \<Longrightarrow>
   is_status s = SOURCE_ACTIVE \<or> is_status s = SOURCE_STALE \<and> is_last_synced_at s \<noteq> None"
  by (auto simp: identity_source_snapshot_is_usable_def split: if_splits option.splits)

lemma granting_status:
  "source_grants d now uid a s \<Longrightarrow>
   is_status s = SOURCE_ACTIVE \<or> is_status s = SOURCE_STALE \<and> is_last_synced_at s \<noteq> None"
  unfolding source_grants_def by (elim conjE) (erule usable_status)

lemma identity_source_assignments_iff:
  assumes "uniq is_id (d_sources (x_directory x))"
  shows "identity_source_group_assignments x now uid agent_id =
    (\<lambda>a. (ga_id a, ga_agent_id a)) ` {a \<in> set (x_group_assignments x). of_agent agent_id a \<and>
      (\<exists>s \<in> set (d_sources (x_directory x)). source_grants (x_directory x) now uid a s)}"
proof -
  define listed where "listed s \<longleftrightarrow> is_status s = SOURCE_ACTIVE \<or> is_status s = SOURCE_STALE \<and> is_last_synced_at s \<noteq> None" for s :: identity_source
  let ?open = "{s \<in> set (d_sources (x_directory x)). listed s}"
  let ?granted = "\<lambda>s. {a \<in> set (x_group_assignments x). of_agent agent_id a \<and> source_grants (x_directory x) now uid a s}"
  have "identity_source_group_assignments x now uid agent_id = (\<Union>s \<in> ?open. source_assignments x now uid agent_id s)"
    unfolding identity_source_group_assignments_def listed_def by simp
  also have "\<dots> = (\<Union>s \<in> ?open. (\<lambda>a. (ga_id a, ga_agent_id a)) ` ?granted s)"
    by (rule SUP_cong [OF refl]) (simp add: source_assignments_iff [OF assms])
  also have "\<dots> = (\<lambda>a. (ga_id a, ga_agent_id a)) ` (\<Union>s \<in> ?open. ?granted s)" by (rule image_UN [symmetric])
  also have "(\<Union>s \<in> ?open. ?granted s) = {a \<in> set (x_group_assignments x). of_agent agent_id a \<and>
      (\<exists>s \<in> set (d_sources (x_directory x)). source_grants (x_directory x) now uid a s)}"
  proof -
    have "listed s" if "source_grants (x_directory x) now uid a s" for a s
      unfolding listed_def by (rule granting_status [OF that])
    then show ?thesis by blast
  qed
  finally show ?thesis .
qed


section \<open>One answer from every side\<close>

text \<open>
  What the tables keep: ids are keys, the shape of the assignments is checked, ids are not empty.
  That a user has one identity per provider is not a constraint of the schema.
\<close>

definition one_identity_per_provider :: "directory \<Rightarrow> bool" where
  "one_identity_per_provider d = uniq (\<lambda>i. (ui_user_id i, ui_identity_provider i)) (d_identities d)"

definition access_keys :: "access_db \<Rightarrow> bool" where
  "access_keys x =
     (uniq is_id (d_sources (x_directory x)) \<and> uniq ag_id (x_agents x) \<and>
      (\<forall>a \<in> set (x_group_assignments x). assignment_shape a \<and> ga_department_id a \<noteq> Some '''' \<and>
         ga_identity_source_id a \<noteq> Some '''' \<and> ga_principal_id a \<noteq> Some ''''))"

lemma group_agent_ids:
  assumes "uniq is_id (d_sources (x_directory x))"
  shows "agent_id \<in> identity_source_group_agent_ids x now uid \<longleftrightarrow>
    (\<exists>a \<in> set (x_group_assignments x). ga_agent_id a = agent_id \<and>
       (\<exists>s \<in> set (d_sources (x_directory x)). source_grants (x_directory x) now uid a s))"
  unfolding identity_source_group_agent_ids_def identity_source_assignments_iff [OF assms] image_image
  by (auto simp: of_agent_def)

lemma department_agent_iff:
  "agent_id \<in> department_agent_ids x uid \<longleftrightarrow>
    (\<exists>a \<in> set (x_group_assignments x). ga_agent_id a = agent_id \<and> ga_group_kind a = KIND_DEPARTMENT \<and>
       (\<exists>m \<in> set (d_departments (x_directory x)). ga_department_id a = Some (ud_department_id m) \<and> ud_user_id m = uid))"
  unfolding department_agent_ids_def department_assignments_def by (simp add: image_iff) blast

lemma enterprise_agent_iff:
  "agent_id \<in> enterprise_group_agent_ids x now uid \<longleftrightarrow>
    (\<exists>a \<in> set (x_group_assignments x). ga_agent_id a = agent_id \<and> ga_group_kind a = KIND_ENTERPRISE \<and>
       (\<exists>e \<in> set (x_enterprise_principals x). enterprise_member now uid a e))"
  unfolding enterprise_group_agent_ids_def enterprise_assignments_def by (simp add: image_iff) blast

text \<open>The key of an assignment is a subject of the user exactly if the assignment grants access.\<close>

lemma assignment_key_subject:
  assumes "uniq is_id (d_sources d)" "one_identity_per_provider d" "assignment_shape a"
    "ga_department_id a \<noteq> Some ''''" "ga_identity_source_id a \<noteq> Some ''''" "ga_principal_id a \<noteq> Some ''''"
  shows "user_knowledge_subjects d now uid \<inter> assignment_key a \<noteq> {} \<longleftrightarrow>
    ga_group_kind a = KIND_DEPARTMENT \<and>
      (\<exists>m \<in> set (d_departments d). ga_department_id a = Some (ud_department_id m) \<and> ud_user_id m = uid) \<or>
    (\<exists>s \<in> set (d_sources d). source_grants d now uid a s)"
proof (cases "ga_group_kind a")
  case KIND_DEPARTMENT
  then obtain dep where dep: "ga_department_id a = Some dep" "ga_identity_source_id a = None" "dep \<noteq> ''''"
    using assms(3,4) by (auto simp: assignment_shape_def)
  have "[''DEPARTMENT'', dep] \<in> user_knowledge_subjects d now uid \<longleftrightarrow> [''DEPARTMENT'', dep] \<in> department_subjects d uid"
    using source_subject_key unfolding user_subjects_by_source by fastforce
  then show ?thesis
    using KIND_DEPARTMENT dep by (auto simp: assignment_key_def truthy_def department_subjects_def source_grants_def)
next
  case KIND_ENTERPRISE
  then show ?thesis using assms(3) by (auto simp: assignment_key_def assignment_shape_def source_grants_def)
next
  case KIND_IDENTITY_SOURCE
  then obtain sid p where ids: "ga_identity_source_id a = Some sid" "ga_principal_id a = Some p" "sid \<noteq> ''''" "p \<noteq> ''''"
    using assms(3,5,6) by (auto simp: assignment_shape_def)
  have "[''GROUP'', sid, p] \<in> user_knowledge_subjects d now uid \<longleftrightarrow> (\<exists>s \<in> set (d_sources d). source_grants d now uid a s)"
    unfolding sourced_key [OF disjI2 [OF refl]]
  proof (intro bex_cong refl)
    fix s assume "s \<in> set (d_sources d)"
    from source_subject_iff(2) [OF assms(1) this assms(2) [unfolded one_identity_per_provider_def], where uid = uid and g = p and now = now]
    show "is_id s = sid \<and> [''GROUP'', sid, p] \<in> source_subjects d now (identity_map (filter (\<lambda>i. ui_user_id i = uid) (d_identities d))) s
        \<longleftrightarrow> source_grants d now uid a s"
      using KIND_IDENTITY_SOURCE ids by (auto simp: source_grants_def)
  qed
  then show ?thesis using KIND_IDENTITY_SOURCE ids by (simp add: assignment_key_def truthy_def)
next
  case KIND_IDENTITY_SOURCE_ALL
  then obtain sid where ids: "ga_identity_source_id a = Some sid" "sid \<noteq> ''''"
    using assms(3,5) by (auto simp: assignment_shape_def)
  have "[''IDENTITY_SOURCE'', sid] \<in> user_knowledge_subjects d now uid \<longleftrightarrow> (\<exists>s \<in> set (d_sources d). source_grants d now uid a s)"
    unfolding sourced_key [OF disjI1 [OF refl]]
  proof (intro bex_cong refl)
    fix s assume "s \<in> set (d_sources d)"
    from source_subject_iff(1) [OF assms(1) this assms(2) [unfolded one_identity_per_provider_def], where uid = uid and now = now]
    show "is_id s = sid \<and> [''IDENTITY_SOURCE'', sid] \<in> source_subjects d now (identity_map (filter (\<lambda>i. ui_user_id i = uid) (d_identities d))) s
        \<longleftrightarrow> source_grants d now uid a s"
      using KIND_IDENTITY_SOURCE_ALL ids by (auto simp: source_grants_def)
  qed
  then show ?thesis using KIND_IDENTITY_SOURCE_ALL ids by (simp add: assignment_key_def truthy_def)
qed

text \<open>The batch question, which of these users may use the agent, has the answer of the single
  one, may this user use the agent, for every user who has at most one identity per provider.\<close>

theorem accessible_users_agree:
  assumes "access_keys x" "one_identity_per_provider (x_directory x)" "agent \<in> set (x_agents x)" "finite user_ids"
  shows "uid \<in> list_agent_accessible_user_ids x now agent user_ids \<longleftrightarrow>
    uid \<in> user_ids \<and> has_agent_access x now (ag_id agent) uid"
proof (cases "uid \<in> user_ids")
  case True
  let ?d = "x_directory x"
  let ?mine = "{a \<in> set (x_group_assignments x). ga_agent_id a = ag_id agent}"
  have keys: "uniq is_id (d_sources ?d)" "uniq ag_id (x_agents x)" using assms(1) by (simp_all add: access_keys_def)
  have only: "a = agent" if "a \<in> set (x_agents x)" "ag_id a = ag_id agent" for a
    using that assms(3) keys(2) unfolding uniq_def by (simp add: distinct_map inj_on_def)
  have builtin: "ag_id agent \<in> builtin_user_agent_ids x uid \<longleftrightarrow> ag_all_builtin_users agent \<and>
      (\<exists>u \<in> set (d_users ?d). u_id u = uid \<and> u_auth_provider u = AUTH_BUILTIN \<and> u_status u = USER_ACTIVE)"
  proof -
    have "ag_id agent \<in> ag_id ` {a \<in> set (x_agents x). ag_all_builtin_users a \<and> P} \<longleftrightarrow> ag_all_builtin_users agent \<and> P" for P
      using assms(3) only by (metis (no_types, lifting) image_iff mem_Collect_eq)
    then show ?thesis unfolding builtin_user_agent_ids_def by simp
  qed
  have subjects: "user_knowledge_subjects ?d now uid \<inter> (\<Union>a \<in> ?mine. assignment_key a) \<noteq> {} \<longleftrightarrow>
      ag_id agent \<in> department_agent_ids x uid \<or> ag_id agent \<in> identity_source_group_agent_ids x now uid"
  proof -
    have "user_knowledge_subjects ?d now uid \<inter> (\<Union>a \<in> ?mine. assignment_key a) \<noteq> {} \<longleftrightarrow>
        (\<exists>a \<in> ?mine. user_knowledge_subjects ?d now uid \<inter> assignment_key a \<noteq> {})" by blast
    also have "\<dots> \<longleftrightarrow> (\<exists>a \<in> ?mine. ga_group_kind a = KIND_DEPARTMENT \<and>
        (\<exists>m \<in> set (d_departments ?d). ga_department_id a = Some (ud_department_id m) \<and> ud_user_id m = uid) \<or>
        (\<exists>s \<in> set (d_sources ?d). source_grants ?d now uid a s))"
      using assms(1) unfolding access_keys_def
      by (intro bex_cong refl assignment_key_subject [OF keys(1) assms(2)]) auto
    finally show ?thesis
      unfolding group_agent_ids [OF keys(1)] department_agent_iff by blast
  qed
  have own: "batch_user_knowledge_subjects ?d now (sorted_list_of_set user_ids) uid = Some (user_knowledge_subjects ?d now uid)"
    using assms(4) True by (simp add: fold_subjects [OF keys(1)])
  have asked: "uid \<in> (if K = {} then {} else {uid \<in> user_ids. \<exists>keys \<in> set_option (batch_user_knowledge_subjects ?d now
      (sorted_list_of_set user_ids) uid). keys \<inter> K \<noteq> {}}) \<longleftrightarrow> user_knowledge_subjects ?d now uid \<inter> K \<noteq> {}" for K
    using own True by simp
  have nonempty: "user_ids \<noteq> {}" using True by blast
  show ?thesis
    unfolding list_agent_accessible_user_ids_def if_not_P [OF nonempty] Let_def Un_iff asked subjects
      has_agent_access_def list_accessible_agent_ids_def builtin enterprise_agent_iff
    using True by (auto simp: direct_agent_ids_def image_iff)
qed (auto simp: list_agent_accessible_user_ids_def Let_def)

subsection \<open>Where the answers differ\<close>

text \<open>An agent assigned to the inner group of a directory with one source.\<close>

definition group_agent :: access_agent where
  "group_agent = \<lparr>ag_id = ''a'', ag_all_builtin_users = False, ag_knowledge_scope_mode = SCOPED\<rparr>"

definition group_agent_db :: "directory \<Rightarrow> access_db" where
  "group_agent_db d = \<lparr>x_directory = d, x_agents = [group_agent], x_user_assignments = [],
     x_group_assignments = [\<lparr>ga_id = ''1'', ga_agent_id = ''a'', ga_group_kind = KIND_IDENTITY_SOURCE, ga_department_id = None,
       ga_identity_domain = None, ga_provider = None, ga_identity_source_id = Some ''s'', ga_principal_id = Some ''g''\<rparr>],
     x_enterprise_principals = []\<rparr>"

lemma group_agent_keys: "uniq is_id (d_sources d) \<Longrightarrow> access_keys (group_agent_db d)"
  by (simp add: access_keys_def group_agent_db_def assignment_shape_def uniq_def)

lemma group_agent_access:
  assumes "uniq is_id (d_sources d)"
  shows "has_agent_access (group_agent_db d) now ''a'' uid \<longleftrightarrow>
    (\<exists>s \<in> set (d_sources d). is_id s = ''s'' \<and> identity_source_snapshot_is_usable s now \<and>
      (\<exists>i \<in> set (source_identities d now s). ui_user_id i = uid \<and>
         (directory_member d ''s'' ''g'' (ui_external_subject i) \<or> active_principal d now s (ui_external_subject i) ''g'')))"
proof -
  let ?x = "group_agent_db d"
  have "''a'' \<notin> direct_agent_ids ?x uid" "''a'' \<notin> builtin_user_agent_ids ?x uid"
    "''a'' \<notin> department_agent_ids ?x uid" "''a'' \<notin> enterprise_group_agent_ids ?x now uid"
    by (simp_all add: direct_agent_ids_def builtin_user_agent_ids_def department_agent_iff enterprise_agent_iff
        group_agent_db_def group_agent_def)
  then have "has_agent_access ?x now ''a'' uid \<longleftrightarrow> ''a'' \<in> identity_source_group_agent_ids ?x now uid"
    unfolding has_agent_access_def list_accessible_agent_ids_def by blast
  also have "\<dots> \<longleftrightarrow> (\<exists>s \<in> set (d_sources d). source_grants d now uid (hd (x_group_assignments ?x)) s)"
    using group_agent_ids [of ?x "''a''" now uid] assms by (simp add: group_agent_db_def)
  also have "\<dots> \<longleftrightarrow> (\<exists>s \<in> set (d_sources d). is_id s = ''s'' \<and> identity_source_snapshot_is_usable s now \<and>
      (\<exists>i \<in> set (source_identities d now s). ui_user_id i = uid \<and>
         (directory_member d ''s'' ''g'' (ui_external_subject i) \<or> active_principal d now s (ui_external_subject i) ''g'')))"
  proof (intro bex_cong refl)
    fix s :: identity_source
    have "(Some ''s'' = Some (is_id s)) = (is_id s = ''s'')" by auto
    then show "source_grants d now uid (hd (x_group_assignments ?x)) s \<longleftrightarrow> is_id s = ''s'' \<and> identity_source_snapshot_is_usable s now \<and>
      (\<exists>i \<in> set (source_identities d now s). ui_user_id i = uid \<and>
         (directory_member d ''s'' ''g'' (ui_external_subject i) \<or> active_principal d now s (ui_external_subject i) ''g''))"
      by (cases "is_id s = ''s''") (simp_all add: source_grants_def group_agent_db_def)
  qed
  finally show ?thesis .
qed

theorem accessible_users_agree_witness:
  "''ann'' \<in> list_agent_accessible_user_ids (group_agent_db example_directory) 0 group_agent {''ann'', ''bob''} \<longleftrightarrow>
     has_agent_access (group_agent_db example_directory) 0 ''a'' ''ann''"
proof -
  have "one_identity_per_provider (x_directory (group_agent_db example_directory))"
    "group_agent \<in> set (x_agents (group_agent_db example_directory))" "ag_id group_agent = ''a''"
    using example_unique(2) by (simp_all add: one_identity_per_provider_def group_agent_db_def group_agent_def)
  then show ?thesis
    using accessible_users_agree [OF group_agent_keys [OF example_unique(1)], where agent = group_agent
        and user_ids = "{''ann'', ''bob''}" and uid = "''ann''" and now = 0]
    by simp
qed

text \<open>
  The schema lets a user have two identities of one provider, and an administrator can map a
  second one. The directory of the example with a second identity, which is in no group.
\<close>

definition second_identity_directory :: directory where
  "second_identity_directory = example_directory
     \<lparr>d_identities := d_identities example_directory @
        [\<lparr>ui_user_id = ''ann'', ui_identity_provider = ''feishu:t'', ui_external_subject = ''y''\<rparr>],
      d_directory_users := d_directory_users example_directory @
        [\<lparr>du_identity_source_id = ''s'', du_external_user_id = ''y'', du_status = ENTRY_ACTIVE\<rparr>]\<rparr>"

lemma second_identity_subjects:
  "uniq is_id (d_sources second_identity_directory)"
  "directory_member second_identity_directory ''s'' ''g'' ''x''"
  "[''GROUP'', ''s'', ''g''] \<notin> user_knowledge_subjects second_identity_directory 0 ''ann''"
proof -
  let ?d = second_identity_directory
  show "uniq is_id (d_sources ?d)" using example_unique(1) by (simp add: second_identity_directory_def)
  have source: "d_sources ?d = [example_source]" "is_id example_source = ''s''" "identity_provider_key example_source = ''feishu:t''"
    "identity_source_snapshot_is_usable example_source 0" "d_principals ?d = []"
    by (simp_all add: second_identity_directory_def example_directory_def example_source_def identity_provider_key_def
        identity_source_snapshot_is_usable_def)
  have edges: "(e, g) \<in> set (joined ?d ''s'' MEMBER_USER) \<longleftrightarrow> e = ''x'' \<and> g = ''g''" for e g
    by (auto simp: joined_iff second_identity_directory_def example_directory_def)
  show "directory_member ?d ''s'' ''g'' ''x''"
    unfolding directory_member_climb climb_user using edges by blast
  have "set (joined ?d ''s'' MEMBER_USER) `` {''y''} = {}" using edges [of "''y''"] by (simp add: Image_singleton)
  then have "climb ?d ''s'' MEMBER_USER {''y''} {} = {}" unfolding climb_user by (simp only: Image_empty2)
  moreover have "identity_map (filter (\<lambda>i. ui_user_id i = ''ann'') (d_identities ?d)) ''feishu:t'' = Some ''y''"
    by (simp add: second_identity_directory_def example_directory_def identity_map_def)
  moreover have "resolve_external_user_principals ?d ''s'' ''y'' 0 = {}"
    using source by (simp add: resolve_external_user_principals_def)
  ultimately show "[''GROUP'', ''s'', ''g''] \<notin> user_knowledge_subjects ?d 0 ''ann''"
    using source by (auto simp: user_subjects_by_source source_subjects_def Let_def department_subjects_def split: if_splits)
qed

text \<open>A user with two identities of one provider can use an agent by the single question and
  is missing in the answer to the batch question, which looks only at the last identity.\<close>

theorem second_identity_lost:
  "has_agent_access (group_agent_db second_identity_directory) 0 ''a'' ''ann'' \<and>
   ''ann'' \<notin> list_agent_accessible_user_ids (group_agent_db second_identity_directory) 0 group_agent {''ann''}"
proof
  let ?d = second_identity_directory
  let ?i = "\<lparr>ui_user_id = ''ann'', ui_identity_provider = ''feishu:t'', ui_external_subject = ''x''\<rparr>"
  have "?i \<in> set (source_identities ?d 0 example_source)"
    by (simp add: source_identities_def active_directory_user_def second_identity_directory_def example_directory_def
        example_source_def identity_provider_key_def)
  moreover have "d_sources ?d = [example_source]" "is_id example_source = ''s''" "identity_source_snapshot_is_usable example_source 0"
    by (simp_all add: second_identity_directory_def example_directory_def example_source_def identity_source_snapshot_is_usable_def)
  ultimately show "has_agent_access (group_agent_db ?d) 0 ''a'' ''ann''"
    unfolding group_agent_access [OF second_identity_subjects(1)] using second_identity_subjects(2)
    by (intro bexI [of _ example_source] conjI bexI [of _ ?i]) simp_all
  show "''ann'' \<notin> list_agent_accessible_user_ids (group_agent_db ?d) 0 group_agent {''ann''}"
    using fold_subjects [OF second_identity_subjects(1), of 0 "[''ann'']"] second_identity_subjects(3)
    by (simp add: list_agent_accessible_user_ids_def group_agent_db_def group_agent_def assignment_key_def truthy_def)
qed

end
