(* ===== verification/Knowledge_Access.thy ===== *)
theory Knowledge_Access
  imports Agent_Access
begin

text \<open>
  Access to knowledge resources: the identity a user has towards a knowledge space
  (\<open>server/polarrag/identity.py\<close>), the plan of an access, the listing of what is visible and its
  pages (\<open>server/polarrag/access.py\<close>), and the scope of an agent and user
  (\<open>server/core/agent_knowledge_scope.py\<close>).

  A resource is decided twice in the code: by a Python predicate when it is accessed and by SQL
  conditions when resources are listed. The first theorem says that the two agree.
\<close>


section \<open>Rows\<close>

datatype rag_instance_status = RAG_PENDING | RAG_ACTIVE | RAG_ERROR | RAG_CAPABILITY_MISSING | RAG_DISABLED
datatype binding_mode = BINDING_DOMAIN | BINDING_OWNER
datatype knowledge_sync_status = SYNC_ACTIVE | UPSTREAM_DISABLED | OWNER_UNRESOLVED | UNSUPPORTED_KB_TYPE
datatype scope_origin = ORIGIN_MANUAL | ORIGIN_EXTERNAL_SYNC

record rag_instance =
  ri_id :: string
  ri_status :: rag_instance_status

record rag_space =
  sp_knowledge_space_id :: string
  sp_polarrag_instance_id :: string
  sp_identity_domain :: string
  sp_enabled :: bool

record knowledge_resource =
  kr_id :: string
  kr_knowledge_space_id :: string
  kr_polarrag_instance_id :: string
  kr_space_id :: string
  kr_kb_type :: string
  kr_binding_mode :: "binding_mode option"
  kr_owner_pas_user_id :: "string option"
  kr_sync_status :: knowledge_sync_status
  kr_enabled :: bool

record space_binding =
  sb_identity_source_id :: string
  sb_knowledge_space_id :: string

text \<open>
  A JSON column read by \<open>resource_ids_from_json\<close>: text that is not JSON, a value that is not a list of
  strings, or a list of strings. The exclusions of a policy are the decoded list of tuples.
\<close>

datatype json_column = JsonError | JsonOther | JsonStrings "string list"

record agent_rag_binding =
  rb_agent_id :: string
  rb_polarrag_instance_id :: string
  rb_public :: "json_column option"
  rb_personal :: "json_column option"
  rb_public_excluded :: "json_column option"
  rb_personal_excluded :: "json_column option"

record knowledge_policy =
  kp_agent_id :: string
  kp_knowledge_resource_id :: string
  kp_select_all :: bool
  kp_excluded_subjects :: "subject_key list"

record knowledge_scope =
  ks_id :: string
  ks_agent_id :: string
  ks_origin :: scope_origin
  ks_identity_source_id :: "string option"
  ks_knowledge_resource_ids :: json_column

record scope_binding =
  kb_scope_id :: string
  kb_user_id :: "string option"
  kb_group_assignment_id :: "string option"

record knowledge_db =
  k_access :: access_db
  k_instances :: "rag_instance list"
  k_spaces :: "rag_space list"
  k_space_bindings :: "space_binding list"
  k_resources :: "knowledge_resource list"
  k_rag_bindings :: "agent_rag_binding list"
  k_policies :: "knowledge_policy list"
  k_scopes :: "knowledge_scope list"
  k_scope_bindings :: "scope_binding list"

abbreviation k_directory :: "knowledge_db \<Rightarrow> directory" where
  "k_directory k \<equiv> x_directory (k_access k)"


section \<open>The identity of a user in a space\<close>

definition external_enterprise_providers :: "string set" where
  "external_enterprise_providers = {''feishu'', ''sharepoint'', ''dingtalk''}"

definition acl_context_providers :: "string set" where
  "acl_context_providers = insert ''polarrag'' external_enterprise_providers"

definition principal_assignment_is_valid_for_user :: "enterprise_principal \<Rightarrow> user \<Rightarrow> bool" where
  "principal_assignment_is_valid_for_user e user =
     (if ep_provider e \<notin> acl_context_providers then False
      else if ep_provider e \<noteq> ''polarrag'' then True
      else ep_principal_type e = ENTERPRISE_USER \<and> ep_principal_id e = u_external_id user \<and> ep_source e = ADMIN_MANAGED)"

record source_context =
  sc_user :: user
  sc_space :: "rag_space option"
  sc_identity_domain :: string
  sc_source_identities :: "(identity_source \<times> string) set"
  sc_has_enterprise_identity :: bool

text \<open>The identities of the user in one source that the space is bound to.\<close>

definition present_identities :: "directory \<Rightarrow> time \<Rightarrow> string \<Rightarrow> identity_source \<Rightarrow> string set" where
  "present_identities d now user_id s =
     (let external_user_ids = set (map ui_external_subject (filter (\<lambda>i. ui_user_id i = user_id \<and>
            ui_identity_provider i = identity_provider_key s) (d_identities d)))
      in {e \<in> external_user_ids. active_directory_user d (is_id s) e \<or>
            is_provider s \<noteq> DINGTALK \<and> resolve_external_user_principals d (is_id s) e now \<noteq> {}})"

definition space_sources :: "knowledge_db \<Rightarrow> time \<Rightarrow> string \<Rightarrow> identity_source list" where
  "space_sources k now knowledge_space_id =
     filter (\<lambda>s. identity_source_snapshot_is_usable s now)
       (filter (\<lambda>s. (\<exists>b \<in> set (k_space_bindings k). sb_identity_source_id b = is_id s \<and>
                      sb_knowledge_space_id b = knowledge_space_id) \<and>
                    (is_status s = SOURCE_ACTIVE \<or> is_status s = SOURCE_STALE \<and> is_last_synced_at s \<noteq> None))
         (d_sources (k_directory k)))"

definition has_external_assignment :: "knowledge_db \<Rightarrow> time \<Rightarrow> string \<Rightarrow> bool" where
  "has_external_assignment k now user_id =
     (\<exists>e \<in> set (x_enterprise_principals (k_access k)). ep_pas_user_id e = user_id \<and>
        ep_provider e \<in> external_enterprise_providers \<and> ep_status e = ENTERPRISE_ACTIVE \<and> unexpired (ep_valid_until e) now)"

text \<open>\<open>None\<close> is \<open>IdentityContextUnavailable\<close>.\<close>

definition resolve_source_context :: "knowledge_db \<Rightarrow> time \<Rightarrow> string \<Rightarrow> string \<Rightarrow> source_context option" where
  "resolve_source_context k now user_id knowledge_space_id =
     (case tget u_id user_id (d_users (k_directory k)) of
        None \<Rightarrow> None
      | Some user \<Rightarrow>
          if u_external_id user = [] then None
          else case tget sp_knowledge_space_id knowledge_space_id (k_spaces k) of
              None \<Rightarrow> Some \<lparr>sc_user = user, sc_space = None, sc_identity_domain = knowledge_space_id,
                sc_source_identities = {}, sc_has_enterprise_identity = False\<rparr>
            | Some space \<Rightarrow>
                if \<not> sp_enabled space then None
                else let
                  source_keys = identity_provider_key ` {s \<in> set (d_sources (k_directory k)). is_tenant_id s \<noteq> None};
                  identity_providers = ui_identity_provider ` {i \<in> set (d_identities (k_directory k)). ui_user_id i = user_id}
                in Some \<lparr>sc_user = user, sc_space = Some space, sc_identity_domain = sp_identity_domain space,
                     sc_source_identities = (\<Union>s \<in> set (space_sources k now knowledge_space_id).
                       Pair s ` present_identities (k_directory k) now user_id s),
                     sc_has_enterprise_identity = (source_keys \<inter> identity_providers \<noteq> {} \<or> has_external_assignment k now user_id)\<rparr>)"

text \<open>The external id of the account that a source generates for an identity.\<close>

definition generated_external_id :: "identity_source \<times> string \<Rightarrow> string" where
  "generated_external_id si = identity_provider_key (fst si) @ '':'' @ snd si"

definition resolve_linked_pas_user_ids :: "knowledge_db \<Rightarrow> time \<Rightarrow> string \<Rightarrow> string \<Rightarrow> string set option" where
  "resolve_linked_pas_user_ids k now user_id knowledge_space_id =
     map_option (\<lambda>c. insert (u_id (sc_user c))
         (u_id ` {u \<in> set (d_users (k_directory k)). u_external_id u \<in> generated_external_id ` sc_source_identities c}))
       (resolve_source_context k now user_id knowledge_space_id)"

fun principal_type_value :: "directory_principal_type \<Rightarrow> string" where
  "principal_type_value PRINCIPAL_GROUP = ''group''"
| "principal_type_value PRINCIPAL_DEPARTMENT = ''department''"
| "principal_type_value PRINCIPAL_ACL_GROUP = ''acl_group''"

fun enterprise_type_value :: "enterprise_principal_type \<Rightarrow> string" where
  "enterprise_type_value ENTERPRISE_USER = ''user''"
| "enterprise_type_value ENTERPRISE_GROUP = ''group''"

text \<open>
  A principal is a triple of provider, type and id; the id of a DingTalk domain is the tenant of
  the source, which may be missing. The search over nested groups is \<open>climb\<close>; a group reached
  contributes its active rows.
\<close>

type_synonym acl_principal = "string \<times> string \<times> string option"

definition identity_principals :: "directory \<Rightarrow> time \<Rightarrow> identity_source \<times> string \<Rightarrow> acl_principal set" where
  "identity_principals d now si =
     (let s = fst si; external_user_id = snd si; provider = provider_value (is_provider s) in
      insert (provider, ''user'', Some external_user_id)
       ((if is_provider s = DINGTALK then {(provider, ''domain'', is_tenant_id s)} else {}) \<union>
        (if is_provider s = DINGTALK then {}
         else (\<lambda>(t, p). (provider, principal_type_value t, Some p)) ` resolve_external_user_principals d (is_id s) external_user_id now) \<union>
        (\<lambda>g. (provider, principal_type_value (dg_principal_type g), Some (dg_external_group_id g))) `
          {g \<in> set (d_groups d). dg_identity_source_id g = is_id s \<and> dg_status g = ENTRY_ACTIVE \<and>
             dg_external_group_id g \<in> climb d (is_id s) MEMBER_USER {external_user_id} {} \<and>
             (is_provider s \<noteq> DINGTALK \<or> dg_principal_type g = PRINCIPAL_DEPARTMENT)}))"

record acl_context =
  acl_identity_domain :: string
  acl_principals :: "acl_principal set"

text \<open>The response lists the principals in sorted order; the set is kept.\<close>

definition resolve_acl_context :: "knowledge_db \<Rightarrow> time \<Rightarrow> string \<Rightarrow> string \<Rightarrow> acl_context option" where
  "resolve_acl_context k now user_id knowledge_space_id =
     (case resolve_source_context k now user_id knowledge_space_id of
        None \<Rightarrow> None
      | Some c \<Rightarrow>
          let assignments = filter (\<lambda>e. ep_pas_user_id e = user_id \<and> ep_identity_domain e = sc_identity_domain c \<and>
                ep_status e = ENTERPRISE_ACTIVE \<and> unexpired (ep_valid_until e) now) (x_enterprise_principals (k_access k));
              principals = (\<Union>si \<in> sc_source_identities c. identity_principals (k_directory k) now si) \<union>
                (\<lambda>e. (ep_provider e, enterprise_type_value (ep_principal_type e), Some (ep_principal_id e))) `
                  {e \<in> set assignments. ep_provider e \<noteq> ''dingtalk''}
          in if \<exists>e \<in> set assignments. \<not> principal_assignment_is_valid_for_user e (sc_user c) then None
             else if principals = {} \<and> (sc_space c = None \<or> sc_has_enterprise_identity c) then None
             else Some \<lparr>acl_identity_domain = sc_identity_domain c,
               acl_principals = principals \<union> insert (''polarrag'', ''user'', Some (u_external_id (sc_user c)))
                 ((\<lambda>si. (''polarrag'', ''user'', Some (generated_external_id si))) ` sc_source_identities c)\<rparr>)"


section \<open>Scopes\<close>

text \<open>A dictionary is the list of its items; its keys are distinct.\<close>

record resource_scope =
  rs_bindings :: "(string \<times> string set option) list"
  rs_allowed_resource_ids :: "string set option"
  rs_personal_only :: bool
  rs_personal_bindings :: "(string \<times> string set option) list option"
  rs_excluded_resource_ids :: "string set"

definition empty_scope :: resource_scope where
  "empty_scope = \<lparr>rs_bindings = [], rs_allowed_resource_ids = None, rs_personal_only = False,
     rs_personal_bindings = None, rs_excluded_resource_ids = {}\<rparr>"

text \<open>\<open>dict.get\<close> without a default gives \<open>None\<close> for a missing key, the value that means all.\<close>

definition allows :: "resource_scope \<Rightarrow> knowledge_resource \<Rightarrow> bool" where
  "allows scope r =
     (if rs_personal_only scope
      then kr_kb_type r = ''PERSONAL'' \<and> kr_binding_mode r = Some BINDING_OWNER
      else if kr_id r \<in> rs_excluded_resource_ids scope then False
      else if \<exists>ids \<in> set_option (rs_allowed_resource_ids scope). kr_id r \<notin> ids then False
      else case map_of (rs_bindings scope) (kr_polarrag_instance_id r) of
          None \<Rightarrow> False
        | Some all \<Rightarrow>
            let selected = (if kr_kb_type r = ''PERSONAL''
                  then (case rs_personal_bindings scope of None \<Rightarrow> None
                        | Some pb \<Rightarrow> (case map_of pb (kr_polarrag_instance_id r) of None \<Rightarrow> None | Some ids \<Rightarrow> ids))
                  else all)
            in kr_kb_type r \<notin> {''PUBLIC'', ''PERSONAL''} \<or> (case selected of None \<Rightarrow> True | Some ids \<Rightarrow> kr_id r \<in> ids))"


section \<open>Planning an access\<close>

datatype knowledge_error = INVALID_ARGUMENT | NO_ACCESSIBLE_RESOURCE | MIXED_INSTANCE | MIXED_SPACE
  | IDENTITY_CONTEXT_UNAVAILABLE | TOO_MANY_RESOURCES | KnowledgeValueError

record access_plan =
  ap_resources :: "knowledge_resource list"
  ap_space :: rag_space
  ap_acl_context :: acl_context
  ap_partial_failures :: "string list"

text \<open>
  The space of a resource and the instance of a space are foreign keys: the rows exist. Whether a
  string is a UUID is asked of the library, the argument \<open>is_uuid\<close>.
\<close>

definition space_of :: "knowledge_db \<Rightarrow> knowledge_resource \<Rightarrow> rag_space option" where
  "space_of k r = tget sp_knowledge_space_id (kr_knowledge_space_id r) (k_spaces k)"

definition open_space :: "knowledge_db \<Rightarrow> rag_space \<Rightarrow> bool" where
  "open_space k space =
     (sp_enabled space \<and>
      (\<exists>i \<in> set_option (tget ri_id (sp_polarrag_instance_id space) (k_instances k)). ri_status i = RAG_ACTIVE))"

definition spaces_with_principals :: "knowledge_db \<Rightarrow> time \<Rightarrow> string \<Rightarrow> string set \<Rightarrow> string set" where
  "spaces_with_principals k now user_id ids = {s \<in> ids. resolve_acl_context k now user_id s \<noteq> None}"

text \<open>The condition \<open>visible\<close> of the loop, for a resource of the table.\<close>

definition visible :: "knowledge_db \<Rightarrow> time \<Rightarrow> string \<Rightarrow> resource_scope option \<Rightarrow> string set \<Rightarrow> knowledge_resource \<Rightarrow> bool" where
  "visible k now user_id scope available_spaces r =
     ((case scope of None \<Rightarrow> True | Some s \<Rightarrow> allows s r) \<and> kr_enabled r \<and> kr_sync_status r = SYNC_ACTIVE \<and>
      (\<exists>space \<in> set_option (space_of k r). open_space k space) \<and>
      kr_knowledge_space_id r \<in> available_spaces \<and>
      (kr_binding_mode r = Some BINDING_DOMAIN \<or>
       kr_binding_mode r = Some BINDING_OWNER \<and>
         (\<exists>linked \<in> set_option (resolve_linked_pas_user_ids k now user_id (kr_knowledge_space_id r)).
            \<exists>owner \<in> set_option (kr_owner_pas_user_id r). owner \<in> linked)))"

definition plan_knowledge_access ::
  "(string \<Rightarrow> bool) \<Rightarrow> knowledge_db \<Rightarrow> time \<Rightarrow> string \<Rightarrow> string list \<Rightarrow> resource_scope option \<Rightarrow> knowledge_error + access_plan" where
  "plan_knowledge_access is_uuid k now user_id ids scope =
     (if ids = [] \<or> \<not> distinct ids then Inl INVALID_ARGUMENT
      else if \<exists>i \<in> set ids. \<not> is_uuid i then Inl INVALID_ARGUMENT
      else let
        found = (\<lambda>i. tget kr_id i (k_resources k));
        available = spaces_with_principals k now user_id
          (kr_knowledge_space_id ` {r \<in> set (k_resources k). kr_id r \<in> set ids});
        ok = (\<lambda>i. case found i of None \<Rightarrow> False | Some r \<Rightarrow> visible k now user_id scope available r);
        accessible = map (\<lambda>i. the (found i)) (filter ok ids);
        failures = filter (\<lambda>i. \<not> ok i) ids
      in if accessible = [] then Inl NO_ACCESSIBLE_RESOURCE
         else if card (set (map kr_polarrag_instance_id accessible)) \<noteq> 1 then Inl MIXED_INSTANCE
         else if card (set (map kr_space_id accessible)) \<noteq> 1 then Inl MIXED_SPACE
         else let space = the (space_of k (hd accessible))
              in case resolve_acl_context k now user_id (sp_knowledge_space_id space) of
                   None \<Rightarrow> Inl IDENTITY_CONTEXT_UNAVAILABLE
                 | Some ctx \<Rightarrow> Inr \<lparr>ap_resources = accessible, ap_space = space, ap_acl_context = ctx,
                     ap_partial_failures = failures\<rparr>)"


section \<open>Listing what is visible\<close>

text \<open>
  The SQL conditions, as one predicate on resources; \<open>None\<close> stands for the early return without
  a query. A comparison with NULL is not true.
\<close>

definition candidate_spaces :: "knowledge_db \<Rightarrow> string option \<Rightarrow> string set" where
  "candidate_spaces k knowledge_space_id =
     sp_knowledge_space_id ` {s \<in> set (k_spaces k). open_space k s \<and>
       (case knowledge_space_id of None \<Rightarrow> True | Some i \<Rightarrow> sp_knowledge_space_id s = i)}"

definition visibility_filter :: "knowledge_db \<Rightarrow> time \<Rightarrow> string \<Rightarrow> string set \<Rightarrow> knowledge_resource \<Rightarrow> bool" where
  "visibility_filter k now user_id available_spaces r =
     (kr_binding_mode r = Some BINDING_DOMAIN \<or>
      (\<exists>s \<in> available_spaces. kr_knowledge_space_id r = s \<and>
         (\<exists>owners \<in> set_option (resolve_linked_pas_user_ids k now user_id s).
            \<exists>owner \<in> set_option (kr_owner_pas_user_id r). owner \<in> owners)))"

definition bindings_filter :: "(string \<times> string set option) list \<Rightarrow> knowledge_resource \<Rightarrow> bool" where
  "bindings_filter bindings r =
     (case map_of bindings (kr_polarrag_instance_id r) of
        None \<Rightarrow> False
      | Some None \<Rightarrow> True
      | Some (Some selected) \<Rightarrow> kr_kb_type r \<noteq> ''PUBLIC'' \<or> kr_id r \<in> selected)"

definition personal_filter :: "(string \<times> string set option) list \<Rightarrow> knowledge_resource \<Rightarrow> bool" where
  "personal_filter bindings r =
     (kr_kb_type r \<noteq> ''PERSONAL'' \<or>
      (case map_of bindings (kr_polarrag_instance_id r) of
         None \<Rightarrow> False
       | Some None \<Rightarrow> True
       | Some (Some selected) \<Rightarrow> kr_id r \<in> selected))"

definition scope_filter :: "resource_scope \<Rightarrow> (knowledge_resource \<Rightarrow> bool) option" where
  "scope_filter scope =
     (if rs_personal_only scope
      then Some (\<lambda>r. kr_kb_type r = ''PERSONAL'' \<and> kr_binding_mode r = Some BINDING_OWNER)
      else if rs_bindings scope = [] then None
      else if rs_allowed_resource_ids scope = Some {} then None
      else Some (\<lambda>r. kr_id r \<notin> rs_excluded_resource_ids scope \<and> bindings_filter (rs_bindings scope) r \<and>
        (case rs_personal_bindings scope of None \<Rightarrow> True | Some pb \<Rightarrow> personal_filter pb r) \<and>
        (case rs_allowed_resource_ids scope of None \<Rightarrow> True | Some ids \<Rightarrow> kr_id r \<in> ids)))"

definition visible_resource_filters ::
  "knowledge_db \<Rightarrow> time \<Rightarrow> string \<Rightarrow> resource_scope option \<Rightarrow> string option \<Rightarrow> string option \<Rightarrow> (knowledge_resource \<Rightarrow> bool) option" where
  "visible_resource_filters k now user_id scope knowledge_space_id resource_id =
     (let available = spaces_with_principals k now user_id (candidate_spaces k knowledge_space_id) in
      if available = {} then None
      else let base = (\<lambda>r. kr_enabled r \<and> kr_sync_status r = SYNC_ACTIVE \<and> kr_knowledge_space_id r \<in> available \<and>
             visibility_filter k now user_id available r \<and> (case resource_id of None \<Rightarrow> True | Some i \<Rightarrow> kr_id r = i))
      in case scope of
           None \<Rightarrow> Some base
         | Some s \<Rightarrow> map_option (\<lambda>f r. base r \<and> f r) (scope_filter s))"

text \<open>The rows that satisfy the conditions, \<open>ORDER BY id\<close>.\<close>

definition selected_resources :: "(knowledge_resource \<Rightarrow> bool) \<Rightarrow> knowledge_db \<Rightarrow> knowledge_resource list" where
  "selected_resources f k = sort_key kr_id (filter f (k_resources k))"

definition list_visible_knowledge_resources_page ::
  "knowledge_db \<Rightarrow> time \<Rightarrow> string \<Rightarrow> resource_scope option \<Rightarrow> int \<Rightarrow> int option \<Rightarrow>
   knowledge_error + (knowledge_resource list \<times> int)" where
  "list_visible_knowledge_resources_page k now user_id scope offset limit =
     (if offset < 0 \<or> (\<exists>n \<in> set_option limit. n < 1) then Inl KnowledgeValueError
      else case visible_resource_filters k now user_id scope None None of
          None \<Rightarrow> Inr ([], 0)
        | Some f \<Rightarrow>
            let rows = drop (nat offset) (selected_resources f k)
            in Inr ((case limit of None \<Rightarrow> rows | Some n \<Rightarrow> take (nat n) rows), int (length (filter f (k_resources k)))))"

definition list_visible_knowledge_resources ::
  "knowledge_db \<Rightarrow> time \<Rightarrow> string \<Rightarrow> resource_scope option \<Rightarrow> knowledge_error + knowledge_resource list" where
  "list_visible_knowledge_resources k now user_id scope =
     map_sum id fst (list_visible_knowledge_resources_page k now user_id scope 0 None)"

definition list_visible_knowledge_resources_cursor_page ::
  "knowledge_db \<Rightarrow> time \<Rightarrow> string \<Rightarrow> resource_scope option \<Rightarrow> string option \<Rightarrow> string option \<Rightarrow> string option \<Rightarrow> int \<Rightarrow>
   knowledge_error + (knowledge_resource list \<times> bool \<times> bool)" where
  "list_visible_knowledge_resources_cursor_page k now user_id scope knowledge_space_id resource_id cursor limit =
     (if limit < 1 then Inl KnowledgeValueError
      else case visible_resource_filters k now user_id scope knowledge_space_id resource_id of
          None \<Rightarrow> Inr ([], False, cursor = None)
        | Some f \<Rightarrow>
            if \<exists>c \<in> set_option cursor. \<not> (\<exists>r \<in> set (k_resources k). f r \<and> kr_id r = c) then Inr ([], False, False)
            else let after = filter (\<lambda>r. case cursor of None \<Rightarrow> True | Some c \<Rightarrow> kr_id r > c) (selected_resources f k);
                     rows = take (nat (limit + 1)) after
                 in Inr (take (nat limit) rows, int (length rows) > limit, True))"

text \<open>\<open>grouped\<close>: the ids of each instance and space, in the order they first appear.\<close>

definition resource_groups :: "knowledge_db \<Rightarrow> string list \<Rightarrow> string list list" where
  "resource_groups k ids =
     (let key = (\<lambda>i. map_option (\<lambda>r. (kr_polarrag_instance_id r, kr_knowledge_space_id r)) (tget kr_id i (k_resources k)));
          present = filter (\<lambda>i. key i \<noteq> None) ids
      in map (\<lambda>g. filter (\<lambda>i. key i = g) present) (remdups (map key present)))"

fun collect_plans ::
  "(string \<Rightarrow> bool) \<Rightarrow> knowledge_db \<Rightarrow> time \<Rightarrow> string \<Rightarrow> resource_scope option \<Rightarrow> string list list \<Rightarrow>
   knowledge_error + (access_plan list \<times> string list)" where
  "collect_plans is_uuid k now user_id scope [] = Inr ([], [])"
| "collect_plans is_uuid k now user_id scope (ids # rest) =
     (case plan_knowledge_access is_uuid k now user_id ids scope of
        Inl e \<Rightarrow>
          if e \<noteq> NO_ACCESSIBLE_RESOURCE then Inl e
          else bindE (collect_plans is_uuid k now user_id scope rest) (\<lambda>(plans, failures). Inr (plans, ids @ failures))
      | Inr plan \<Rightarrow>
          bindE (collect_plans is_uuid k now user_id scope rest)
            (\<lambda>(plans, failures). Inr (plan # plans, ap_partial_failures plan @ failures)))"

definition requested_ids ::
  "knowledge_db \<Rightarrow> time \<Rightarrow> string \<Rightarrow> string list option \<Rightarrow> resource_scope option \<Rightarrow> int \<Rightarrow> knowledge_error + string list" where
  "requested_ids k now user_id ids scope max_resources =
     (case ids of
        None \<Rightarrow> bindE (list_visible_knowledge_resources_page k now user_id scope 0 (Some (max_resources + 1)))
          (\<lambda>(resources, total). if total > max_resources then Inl TOO_MANY_RESOURCES else Inr (map kr_id resources))
      | Some is \<Rightarrow>
          if is = [] \<or> \<not> distinct is then Inl INVALID_ARGUMENT
          else if int (length is) > max_resources then Inl TOO_MANY_RESOURCES
          else Inr is)"

text \<open>The value: the plans, the failures and the number of requested ids.\<close>

definition plan_exhaustive_knowledge_access ::
  "(string \<Rightarrow> bool) \<Rightarrow> knowledge_db \<Rightarrow> time \<Rightarrow> string \<Rightarrow> string list option \<Rightarrow> resource_scope option \<Rightarrow> int \<Rightarrow>
   knowledge_error + (access_plan list \<times> string list \<times> nat)" where
  "plan_exhaustive_knowledge_access is_uuid k now user_id ids scope max_resources =
     bindE (requested_ids k now user_id ids scope max_resources) (\<lambda>requested.
       if requested = [] then Inl NO_ACCESSIBLE_RESOURCE
       else let unknown = filter (\<lambda>i. tget kr_id i (k_resources k) = None) requested
            in bindE (collect_plans is_uuid k now user_id scope (resource_groups k requested)) (\<lambda>(plans, failures).
                 if plans = [] then Inl NO_ACCESSIBLE_RESOURCE
                 else Inr (plans, unknown @ failures, length requested)))"


section \<open>The listing and the plan agree\<close>

text \<open>
  What the tables and the scopes keep: ids are keys, the space of a resource exists, an active
  resource has a binding mode, and a scope with personal selections has one for each instance.
\<close>

definition knowledge_keys :: "knowledge_db \<Rightarrow> bool" where
  "knowledge_keys k =
     (uniq kr_id (k_resources k) \<and> uniq sp_knowledge_space_id (k_spaces k) \<and>
      (\<forall>r \<in> set (k_resources k). space_of k r \<noteq> None \<and> (kr_sync_status r = SYNC_ACTIVE \<longrightarrow> kr_binding_mode r \<noteq> None)))"

definition personal_keys :: "resource_scope \<Rightarrow> bool" where
  "personal_keys scope =
     (\<forall>pb \<in> set_option (rs_personal_bindings scope). fst ` set (rs_bindings scope) \<subseteq> fst ` set pb)"

lemma scope_filter_allows:
  assumes "personal_keys scope"
  shows "(\<exists>f. scope_filter scope = Some f \<and> f r) \<longleftrightarrow> allows scope r"
proof (cases "rs_personal_only scope \<or> rs_bindings scope = [] \<or> rs_allowed_resource_ids scope = Some {}")
  case True
  then show ?thesis by (auto simp: scope_filter_def allows_def)
next
  case False
  show ?thesis
  proof (cases "map_of (rs_bindings scope) (kr_polarrag_instance_id r)")
    case None
    then show ?thesis using False by (simp add: scope_filter_def allows_def bindings_filter_def)
  next
    case (Some sel)
    then have "kr_polarrag_instance_id r \<in> fst ` set (rs_bindings scope)"
      using map_of_SomeD by force
    then have "map_of pb (kr_polarrag_instance_id r) \<noteq> None" if "rs_personal_bindings scope = Some pb" for pb
      using assms that by (auto simp: personal_keys_def map_of_eq_None_iff)
    then show ?thesis
      using False Some
      by (auto simp: scope_filter_def allows_def bindings_filter_def personal_filter_def split: option.splits)
  qed
qed

lemma space_open:
  assumes "knowledge_keys k" "r \<in> set (k_resources k)"
  shows "kr_knowledge_space_id r \<in> candidate_spaces k None \<longleftrightarrow> (\<exists>space \<in> set_option (space_of k r). open_space k space)"
proof -
  have uniq: "uniq sp_knowledge_space_id (k_spaces k)" using assms(1) by (simp add: knowledge_keys_def)
  have "kr_knowledge_space_id r \<in> candidate_spaces k None \<longleftrightarrow>
      (\<exists>s \<in> set (k_spaces k). sp_knowledge_space_id s = kr_knowledge_space_id r \<and> open_space k s)"
    by (simp add: candidate_spaces_def image_iff) metis
  also have "\<dots> \<longleftrightarrow> (\<exists>space. space_of k r = Some space \<and> open_space k space)"
    unfolding space_of_def using tget_uniq [OF uniq] tget_SomeD [of sp_knowledge_space_id _ "k_spaces k"] by metis
  finally show ?thesis by (simp add: Bex_def)
qed

lemma visible_by_filters:
  assumes "knowledge_keys k" "r \<in> set (k_resources k)" "\<forall>s \<in> set_option scope. personal_keys s"
  shows "(\<exists>f. visible_resource_filters k now uid scope None None = Some f \<and> f r) \<longleftrightarrow>
    visible k now uid scope (spaces_with_principals k now uid {kr_knowledge_space_id r}) r"
proof -
  let ?av = "spaces_with_principals k now uid (candidate_spaces k None)"
  let ?base = "kr_enabled r \<and> kr_sync_status r = SYNC_ACTIVE \<and> kr_knowledge_space_id r \<in> ?av \<and> visibility_filter k now uid ?av r"
  have mode: "kr_binding_mode r = Some BINDING_DOMAIN \<or> kr_binding_mode r = Some BINDING_OWNER" if "kr_sync_status r = SYNC_ACTIVE"
    using assms(1,2) that unfolding knowledge_keys_def by (metis binding_mode.exhaust option.exhaust)
  have "(\<exists>f. visible_resource_filters k now uid scope None None = Some f \<and> f r) \<longleftrightarrow>
      ?base \<and> (case scope of None \<Rightarrow> True | Some s \<Rightarrow> \<exists>f. scope_filter s = Some f \<and> f r)"
    unfolding visible_resource_filters_def by (auto simp: Let_def split: option.splits)
  also have "\<dots> \<longleftrightarrow> ?base \<and> (case scope of None \<Rightarrow> True | Some s \<Rightarrow> allows s r)"
    using assms(3) by (auto simp: scope_filter_allows split: option.splits)
  also have "\<dots> \<longleftrightarrow> visible k now uid scope (spaces_with_principals k now uid {kr_knowledge_space_id r}) r"
    using mode space_open [OF assms(1,2)]
    by (auto simp: visible_def visibility_filter_def spaces_with_principals_def)
  finally show ?thesis .
qed

lemma listed_iff:
  "\<exists>rows. list_visible_knowledge_resources k now uid scope = Inr rows \<and>
     (r \<in> set rows \<longleftrightarrow> r \<in> set (k_resources k) \<and> (\<exists>f. visible_resource_filters k now uid scope None None = Some f \<and> f r))"
  by (cases "visible_resource_filters k now uid scope None None")
     (auto simp: list_visible_knowledge_resources_def list_visible_knowledge_resources_page_def selected_resources_def)

lemma plan_of_one:
  assumes "knowledge_keys k" "r \<in> set (k_resources k)" "is_uuid (kr_id r)"
  shows "(\<exists>plan. plan_knowledge_access is_uuid k now uid [kr_id r] scope = Inr plan \<and> ap_resources plan = [r]) \<longleftrightarrow>
    visible k now uid scope (spaces_with_principals k now uid {kr_knowledge_space_id r}) r"
proof -
  have found: "tget kr_id (kr_id r) (k_resources k) = Some r"
    using assms(1,2) by (auto simp: knowledge_keys_def intro: tget_uniq)
  have only: "{q \<in> set (k_resources k). kr_id q = kr_id r} = {r}"
    using assms(1,2) by (auto simp: knowledge_keys_def uniq_def distinct_map inj_on_def)
  have space: "\<exists>space. space_of k r = Some space \<and> sp_knowledge_space_id space = kr_knowledge_space_id r"
    using assms(1,2) by (auto simp: knowledge_keys_def space_of_def)
  have ctx: "resolve_acl_context k now uid (kr_knowledge_space_id r) \<noteq> None"
    if "visible k now uid scope (spaces_with_principals k now uid {kr_knowledge_space_id r}) r"
    using that by (auto simp: visible_def spaces_with_principals_def)
  show ?thesis
    using assms(3) found only space ctx
    by (cases "visible k now uid scope (spaces_with_principals k now uid {kr_knowledge_space_id r}) r")
       (auto simp: plan_knowledge_access_def Let_def)
qed

text \<open>C17: A resource is listed for a user and scope exactly if an access to it alone is granted: the
  SQL conditions of the listing and the predicate of the access plan decide alike.\<close>

theorem listing_agrees_with_access:
  assumes "knowledge_keys k" "r \<in> set (k_resources k)" "is_uuid (kr_id r)" "\<forall>s \<in> set_option scope. personal_keys s"
  shows "\<exists>rows. list_visible_knowledge_resources k now user_id scope = Inr rows \<and>
    (r \<in> set rows \<longleftrightarrow>
      (\<exists>plan. plan_knowledge_access is_uuid k now user_id [kr_id r] scope = Inr plan \<and> ap_resources plan = [r]))"
  using listed_iff [of k now user_id scope r] assms(2)
  unfolding plan_of_one [of k r is_uuid, OF assms(1,2,3)] visible_by_filters [OF assms(1,2,4), symmetric] by blast



section \<open>Following the pages\<close>

text \<open>
  A client that asks for pages, each with the id of the last resource as the cursor, until a page
  says that there is no more. Running out of fuel is \<open>None\<close>.
\<close>

fun follow_pages ::
  "nat \<Rightarrow> knowledge_db \<Rightarrow> time \<Rightarrow> string \<Rightarrow> resource_scope option \<Rightarrow> string option \<Rightarrow> int \<Rightarrow> knowledge_resource list option" where
  "follow_pages 0 k now user_id scope cursor limit = None"
| "follow_pages (Suc n) k now user_id scope cursor limit =
     (case list_visible_knowledge_resources_cursor_page k now user_id scope None None cursor limit of
        Inl _ \<Rightarrow> None
      | Inr (rows, further, valid) \<Rightarrow>
          if further then map_option (\<lambda>rest. rows @ rest) (follow_pages n k now user_id scope (Some (kr_id (last rows))) limit)
          else Some rows)"

lemma selected_increasing:
  assumes "uniq kr_id (k_resources k)"
  shows "sorted_wrt (\<lambda>a b. kr_id a < kr_id b) (selected_resources f k)"
proof -
  have "sorted (map kr_id (selected_resources f k))" by (simp add: selected_resources_def)
  moreover have "distinct (map kr_id (filter f (k_resources k)))"
    using assms by (simp add: uniq_def distinct_map inj_on_def)
  then have "distinct (map kr_id (selected_resources f k))"
    unfolding selected_resources_def distinct_map by (simp add: distinct_sort)
  ultimately have "sorted_wrt (<) (map kr_id (selected_resources f k))" by (simp add: strict_sorted_iff)
  then show ?thesis by (simp only: sorted_wrt_map)
qed

lemma after_cursor:
  assumes "sorted_wrt (\<lambda>a b. kr_id a < kr_id b) xs" "0 < n" "n \<le> length xs"
  shows "filter (\<lambda>r. kr_id r > kr_id (xs ! (n - 1))) xs = drop n xs"
proof -
  have before: "\<not> kr_id r > kr_id (xs ! (n - 1))" if r: "r \<in> set (take n xs)" for r
  proof -
    obtain i where i: "i < n" "r = xs ! i" using r assms(3) by (auto simp: in_set_conv_nth)
    then have "i = n - 1 \<or> i < n - 1 \<and> n - 1 < length xs" using assms(3) by linarith
    then show ?thesis
    proof
      assume "i < n - 1 \<and> n - 1 < length xs"
      then have "kr_id r < kr_id (xs ! (n - 1))" using sorted_wrt_nth_less [OF assms(1), of i "n - 1"] i(2) by simp
      then show ?thesis by simp
    qed (simp add: i(2))
  qed
  have after: "kr_id r > kr_id (xs ! (n - 1))" if r: "r \<in> set (drop n xs)" for r
  proof -
    obtain i where "i < length (drop n xs)" "r = drop n xs ! i" using r by (auto simp: in_set_conv_nth)
    then have i: "n + i < length xs" "r = xs ! (n + i)" using assms(3) by simp_all
    then show ?thesis using sorted_wrt_nth_less [OF assms(1), of "n - 1" "n + i"] assms(2) by simp
  qed
  have "filter P xs = filter P (take n xs) @ filter P (drop n xs)" for P
    by (metis append_take_drop_id filter_append)
  then show ?thesis using before after by (simp add: filter_empty_conv filter_id_conv)
qed

lemma cursor_page:
  assumes "visible_resource_filters k now uid scope None None = Some f" "uniq kr_id (k_resources k)" "1 \<le> limit"
    "n \<le> length (selected_resources f k)"
    "cursor = (if n = 0 then None else Some (kr_id (selected_resources f k ! (n - 1))))"
  shows "list_visible_knowledge_resources_cursor_page k now uid scope None None cursor limit =
    Inr (take (nat limit) (drop n (selected_resources f k)), nat limit < length (selected_resources f k) - n, True)"
proof -
  let ?xs = "selected_resources f k"
  have "filter (\<lambda>r. case cursor of None \<Rightarrow> True | Some c \<Rightarrow> kr_id r > c) ?xs = drop n ?xs"
    using after_cursor [OF selected_increasing [OF assms(2)], of n f] assms(4,5) by (cases "n = 0") auto
  moreover have "\<exists>r \<in> set (k_resources k). f r \<and> kr_id r = c" if "cursor = Some c" for c
  proof -
    have "?xs ! (n - 1) \<in> set ?xs" "n \<noteq> 0" using that assms(4,5) by (auto split: if_splits)
    then show ?thesis using that assms(5) by (auto simp: selected_resources_def)
  qed
  moreover have "take (nat limit) (take (nat (limit + 1)) ys) = take (nat limit) ys"
    "int (length (take (nat (limit + 1)) ys)) > limit \<longleftrightarrow> nat limit < length ys" for ys :: "knowledge_resource list"
    using assms(3) by auto
  ultimately show ?thesis
    using assms(1,3) unfolding list_visible_knowledge_resources_cursor_page_def
    using assms(5) by (cases "n = 0") (simp_all add: Let_def)
qed

lemma follow_from:
  assumes "visible_resource_filters k now uid scope None None = Some f" "uniq kr_id (k_resources k)" "1 \<le> limit"
    "n \<le> length (selected_resources f k)"
    "cursor = (if n = 0 then None else Some (kr_id (selected_resources f k ! (n - 1))))"
    "length (selected_resources f k) - n < fuel"
  shows "follow_pages fuel k now uid scope cursor limit = Some (drop n (selected_resources f k))"
  using assms(4-6)
proof (induction fuel arbitrary: n cursor)
  case (Suc fuel)
  let ?xs = "selected_resources f k"
  note page = cursor_page [OF assms(1-3) Suc.prems(1,2)]
  show ?case
  proof (cases "nat limit < length ?xs - n")
    case True
    have step: "n + nat limit \<le> length ?xs" "0 < nat limit" using True assms(3) by simp_all
    have "last (take (nat limit) (drop n ?xs)) = ?xs ! (n + nat limit - 1)"
      using step by (simp add: last_conv_nth)
    moreover have "follow_pages fuel k now uid scope (Some (kr_id (?xs ! (n + nat limit - 1)))) limit = Some (drop (n + nat limit) ?xs)"
      using step Suc.prems(3) by (intro Suc.IH) auto
    moreover have "take (nat limit) (drop n ?xs) @ drop (n + nat limit) ?xs = drop n ?xs"
      by (metis add.commute append_take_drop_id drop_drop)
    ultimately show ?thesis using True page by simp
  qed (use page in simp)
qed simp

text \<open>A client that follows the cursors, whatever the page size, gets every visible resource
  exactly once and in the order of the ids, after at most one page more than there are resources.\<close>

theorem pages_cover_listing:
  assumes "uniq kr_id (k_resources k)" "1 \<le> limit"
    "list_visible_knowledge_resources k now user_id scope = Inr rows" "length rows < fuel"
  shows "follow_pages fuel k now user_id scope None limit = Some rows \<and> distinct rows \<and> sorted (map kr_id rows)"
proof (cases "visible_resource_filters k now user_id scope None None")
  case None
  then show ?thesis using assms
    by (cases fuel) (simp_all add: list_visible_knowledge_resources_def list_visible_knowledge_resources_page_def
        list_visible_knowledge_resources_cursor_page_def)
next
  case (Some f)
  then have rows: "rows = selected_resources f k"
    using assms(3) by (simp add: list_visible_knowledge_resources_def list_visible_knowledge_resources_page_def)
  have "distinct (map kr_id (filter f (k_resources k)))"
    using assms(1) by (simp add: uniq_def distinct_map inj_on_def)
  then have "distinct rows" unfolding rows selected_resources_def by (simp add: distinct_sort distinct_map)
  then show ?thesis
    using follow_from [OF Some assms(1,2), of 0 None fuel] assms(4) by (simp add: rows) (simp add: selected_resources_def)
qed



section \<open>The scope of an agent and a user\<close>

definition resource_ids_from_json :: "json_column \<Rightarrow> string set" where
  "resource_ids_from_json c = (case c of JsonStrings ids \<Rightarrow> set ids | _ \<Rightarrow> {})"

definition excluded_subjects :: "knowledge_policy \<Rightarrow> subject_key set" where
  "excluded_subjects p = set (kp_excluded_subjects p)"

definition knowledge_policies :: "knowledge_db \<Rightarrow> string \<Rightarrow> knowledge_policy list" where
  "knowledge_policies k agent_id = filter (\<lambda>p. kp_agent_id p = agent_id) (k_policies k)"

definition agent_rag_bindings :: "knowledge_db \<Rightarrow> string \<Rightarrow> agent_rag_binding list" where
  "agent_rag_bindings k agent_id = filter (\<lambda>b. rb_agent_id b = agent_id) (k_rag_bindings k)"

definition excluded_column :: "json_column option \<Rightarrow> string set" where
  "excluded_column c = (case c of None \<Rightarrow> {} | Some j \<Rightarrow> resource_ids_from_json j)"

definition resolve_agent_global_resource_scope :: "knowledge_db \<Rightarrow> string \<Rightarrow> resource_scope" where
  "resolve_agent_global_resource_scope k agent_id =
     (let rows = agent_rag_bindings k agent_id in
      \<lparr>rs_bindings = map (\<lambda>b. (rb_polarrag_instance_id b, map_option resource_ids_from_json (rb_public b))) rows,
       rs_allowed_resource_ids = None, rs_personal_only = False,
       rs_personal_bindings = Some (map (\<lambda>b. (rb_polarrag_instance_id b, map_option resource_ids_from_json (rb_personal b))) rows),
       rs_excluded_resource_ids = kr_id ` {r \<in> set (k_resources k). \<exists>b \<in> set rows.
         kr_polarrag_instance_id r = rb_polarrag_instance_id b \<and>
         (kr_kb_type r = ''PUBLIC'' \<and> kr_id r \<in> excluded_column (rb_public_excluded b) \<or>
          kr_kb_type r = ''PERSONAL'' \<and> kr_id r \<in> excluded_column (rb_personal_excluded b))}\<rparr>)"

text \<open>A scope synchronised from DingTalk counts only while the permissions were observed recently and
  the user is an active member of the directory.\<close>

definition stale_external_scope :: "knowledge_db \<Rightarrow> time \<Rightarrow> string \<Rightarrow> knowledge_scope \<Rightarrow> bool" where
  "stale_external_scope k now user_id sc =
     (ks_origin sc = ORIGIN_EXTERNAL_SYNC \<and>
      (\<exists>source_id \<in> set_option (ks_identity_source_id sc). source_id \<noteq> [] \<and>
        (\<exists>s \<in> set_option (tget is_id source_id (d_sources (k_directory k))). is_provider s = DINGTALK \<and>
          (\<not> (\<exists>i \<in> set (d_identities (k_directory k)). ui_user_id i = user_id \<and>
               ui_identity_provider i = identity_provider_key s \<and>
               active_directory_user (k_directory k) (is_id s) (ui_external_subject i)) \<or>
           \<not> identity_source_snapshot_is_usable s now \<or>
           (case is_permission_observed_at s of None \<Rightarrow> True | Some observed \<Rightarrow> observed < now - seconds 900)))))"

text \<open>The scopes of the agent that are bound to the user or to a matching group assignment.\<close>

definition bound_scopes :: "knowledge_db \<Rightarrow> time \<Rightarrow> string \<Rightarrow> string \<Rightarrow> bool \<Rightarrow> knowledge_scope list" where
  "bound_scopes k now agent_id user_id manual_only =
     (let group_ids = list_matching_agent_group_assignment_ids (k_access k) now agent_id user_id in
      filter (\<lambda>sc. ks_agent_id sc = agent_id \<and> (manual_only \<longrightarrow> ks_origin sc = ORIGIN_MANUAL) \<and>
          (\<exists>b \<in> set (k_scope_bindings k). kb_scope_id b = ks_id sc \<and>
             (kb_user_id b = Some user_id \<or> (\<exists>g \<in> group_ids. kb_group_assignment_id b = Some g))))
        (k_scopes k))"

definition resolve_agent_knowledge_resource_scope ::
  "knowledge_db \<Rightarrow> time \<Rightarrow> string \<Rightarrow> string \<Rightarrow> bool \<Rightarrow> resource_scope" where
  "resolve_agent_knowledge_resource_scope k now agent_id user_id manual_only =
     (let base = resolve_agent_global_resource_scope k agent_id in
      case tget ag_id agent_id (x_agents (k_access k)) of
        None \<Rightarrow> empty_scope
      | Some agent \<Rightarrow>
          let instance_resource_ids = kr_id ` {r \<in> set (k_resources k). kr_polarrag_instance_id r \<in> fst ` set (rs_bindings base)};
              policies = knowledge_policies k agent_id;
              legacy = (if ag_knowledge_scope_mode agent = LEGACY_ALL \<and> \<not> manual_only
                then instance_resource_ids - kp_knowledge_resource_id ` set policies else {});
              subjects = (if \<exists>p \<in> set policies. excluded_subjects p \<noteq> {}
                then user_knowledge_subjects (k_directory k) now user_id else {[''USER'', user_id]});
              denied = kp_knowledge_resource_id ` {p \<in> set policies. subjects \<inter> excluded_subjects p \<noteq> {}};
              selected = kp_knowledge_resource_id ` {p \<in> set policies. subjects \<inter> excluded_subjects p = {} \<and> kp_select_all p};
              scoped = (\<Union>sc \<in> {sc \<in> set (bound_scopes k now agent_id user_id manual_only). \<not> stale_external_scope k now user_id sc}.
                if ks_origin sc = ORIGIN_MANUAL then resource_ids_from_json (ks_knowledge_resource_ids sc) - denied
                else resource_ids_from_json (ks_knowledge_resource_ids sc))
          in \<lparr>rs_bindings = rs_bindings base,
              rs_allowed_resource_ids = Some ((legacy \<union> selected \<union> scoped) \<inter> instance_resource_ids),
              rs_personal_only = False, rs_personal_bindings = rs_personal_bindings base,
              rs_excluded_resource_ids = rs_excluded_resource_ids base\<rparr>)"


subsection \<open>What an agent may show a user\<close>

lemma agent_scope_personal_keys: "personal_keys (resolve_agent_knowledge_resource_scope k now agent_id user_id manual_only)"
  by (auto simp: resolve_agent_knowledge_resource_scope_def resolve_agent_global_resource_scope_def personal_keys_def
      empty_scope_def Let_def image_image split: option.splits)

lemma allowsD:
  assumes "allows scope r" "\<not> rs_personal_only scope"
  shows "kr_id r \<notin> rs_excluded_resource_ids scope"
    and "rs_allowed_resource_ids scope = Some ids \<Longrightarrow> kr_id r \<in> ids"
    and "map_of (rs_bindings scope) (kr_polarrag_instance_id r) \<noteq> None"
  using assms unfolding allows_def by (auto split: if_splits option.splits)

lemma agent_scope_restricts:
  assumes "tget ag_id agent_id (x_agents (k_access k)) = Some agent"
  shows "\<not> rs_personal_only (resolve_agent_knowledge_resource_scope k now agent_id user_id manual_only)"
    and "\<exists>ids. rs_allowed_resource_ids (resolve_agent_knowledge_resource_scope k now agent_id user_id manual_only) = Some ids"
  using assms by (simp_all add: resolve_agent_knowledge_resource_scope_def Let_def)

definition policy_keys :: "knowledge_db \<Rightarrow> bool" where
  "policy_keys k = uniq (\<lambda>p. (kp_agent_id p, kp_knowledge_resource_id p)) (k_policies k)"

text \<open>Where the resources of a scope come from when policies exclude subjects.\<close>

definition denied_resources :: "knowledge_db \<Rightarrow> time \<Rightarrow> string \<Rightarrow> string \<Rightarrow> string set" where
  "denied_resources k now agent_id user_id = kp_knowledge_resource_id ` {p \<in> set (knowledge_policies k agent_id).
     user_knowledge_subjects (k_directory k) now user_id \<inter> excluded_subjects p \<noteq> {}}"

lemma agent_scope_sources:
  assumes "tget ag_id agent_id (x_agents (k_access k)) = Some agent"
    "\<exists>p \<in> set (knowledge_policies k agent_id). excluded_subjects p \<noteq> {}"
    "rs_allowed_resource_ids (resolve_agent_knowledge_resource_scope k now agent_id user_id manual_only) = Some ids" "i \<in> ids"
  shows "i \<notin> kp_knowledge_resource_id ` set (knowledge_policies k agent_id) \<or>
    (\<exists>p \<in> set (knowledge_policies k agent_id). kp_knowledge_resource_id p = i \<and>
       user_knowledge_subjects (k_directory k) now user_id \<inter> excluded_subjects p = {}) \<or>
    (\<exists>sc \<in> set (bound_scopes k now agent_id user_id manual_only). \<not> stale_external_scope k now user_id sc \<and>
       i \<in> resource_ids_from_json (ks_knowledge_resource_ids sc) \<and>
       (ks_origin sc = ORIGIN_MANUAL \<longrightarrow> i \<notin> denied_resources k now agent_id user_id))"
proof -
  let ?bound = "kr_id ` {r \<in> set (k_resources k). kr_polarrag_instance_id r \<in> fst ` set (rs_bindings (resolve_agent_global_resource_scope k agent_id))}"
  let ?policed = "kp_knowledge_resource_id ` set (knowledge_policies k agent_id)"
  have "ids = ((if ag_knowledge_scope_mode agent = LEGACY_ALL \<and> \<not> manual_only then ?bound - ?policed else {}) \<union>
      kp_knowledge_resource_id ` {p \<in> set (knowledge_policies k agent_id).
        user_knowledge_subjects (k_directory k) now user_id \<inter> excluded_subjects p = {} \<and> kp_select_all p} \<union>
      (\<Union>sc \<in> {sc \<in> set (bound_scopes k now agent_id user_id manual_only). \<not> stale_external_scope k now user_id sc}.
        if ks_origin sc = ORIGIN_MANUAL then resource_ids_from_json (ks_knowledge_resource_ids sc) - denied_resources k now agent_id user_id
        else resource_ids_from_json (ks_knowledge_resource_ids sc))) \<inter> ?bound"
    using assms(3)
    unfolding resolve_agent_knowledge_resource_scope_def Let_def assms(1) option.case if_P [OF assms(2)] denied_resources_def
    by (simp only: resource_scope.select_convs option.inject)
  moreover have "x \<notin> ?policed" if "x \<in> (if ag_knowledge_scope_mode agent = LEGACY_ALL \<and> \<not> manual_only then ?bound - ?policed else {})" for x
    using that by (rule contrapos_pp) (simp split: if_splits)
  ultimately show ?thesis using assms(4) by (auto split: if_splits)
qed

lemma policy_unique:
  assumes "policy_keys k" "p \<in> set (knowledge_policies k agent_id)" "q \<in> set (knowledge_policies k agent_id)"
    "kp_knowledge_resource_id p = kp_knowledge_resource_id q"
  shows "p = q"
  using assms unfolding policy_keys_def knowledge_policies_def uniq_def distinct_map inj_on_def by auto

text \<open>C18: A resource whose policy excludes a subject of the user is reachable through the agent only by
  a scope that an external synchronisation owns and that is bound to the user and fresh; every
  resource the scope allows belongs to an instance bound to the agent and is not excluded there.\<close>

theorem policy_excludes_user:
  assumes "policy_keys k" "p \<in> set (knowledge_policies k agent_id)" "kr_id r = kp_knowledge_resource_id p"
    "excluded_subjects p \<inter> user_knowledge_subjects (k_directory k) now user_id \<noteq> {}"
    "allows (resolve_agent_knowledge_resource_scope k now agent_id user_id manual_only) r"
  shows "kr_polarrag_instance_id r \<in> rb_polarrag_instance_id ` set (agent_rag_bindings k agent_id) \<and>
    kr_id r \<notin> rs_excluded_resource_ids (resolve_agent_global_resource_scope k agent_id) \<and>
    (\<exists>sc \<in> set (bound_scopes k now agent_id user_id manual_only). ks_origin sc = ORIGIN_EXTERNAL_SYNC \<and>
       \<not> stale_external_scope k now user_id sc \<and> kr_id r \<in> resource_ids_from_json (ks_knowledge_resource_ids sc))"
proof -
  let ?scope = "resolve_agent_knowledge_resource_scope k now agent_id user_id manual_only"
  obtain agent where agent: "tget ag_id agent_id (x_agents (k_access k)) = Some agent"
    using assms(5) by (cases "tget ag_id agent_id (x_agents (k_access k))")
      (auto simp: resolve_agent_knowledge_resource_scope_def allows_def empty_scope_def)
  note allowed = allowsD [OF assms(5) agent_scope_restricts(1) [OF agent]]
  have ask: "\<exists>p \<in> set (knowledge_policies k agent_id). excluded_subjects p \<noteq> {}" using assms(2,4) by blast
  have denied: "kr_id r \<in> denied_resources k now agent_id user_id" using assms(2-4) unfolding denied_resources_def by blast
  have base: "rs_excluded_resource_ids ?scope = rs_excluded_resource_ids (resolve_agent_global_resource_scope k agent_id)"
    "fst ` set (rs_bindings ?scope) = rb_polarrag_instance_id ` set (agent_rag_bindings k agent_id)"
    using agent by (simp_all add: resolve_agent_knowledge_resource_scope_def resolve_agent_global_resource_scope_def Let_def image_image)
  obtain ids where ids: "rs_allowed_resource_ids ?scope = Some ids" using agent_scope_restricts(2) [OF agent] by blast
  have "kr_id r \<in> kp_knowledge_resource_id ` set (knowledge_policies k agent_id)" using assms(2,3) by blast
  moreover have "\<not> (\<exists>q \<in> set (knowledge_policies k agent_id). kp_knowledge_resource_id q = kr_id r \<and>
      user_knowledge_subjects (k_directory k) now user_id \<inter> excluded_subjects q = {})"
    using policy_unique [OF assms(1,2)] assms(3,4) by (metis inf_commute)
  ultimately obtain sc where sc: "sc \<in> set (bound_scopes k now agent_id user_id manual_only)"
    "\<not> stale_external_scope k now user_id sc" "kr_id r \<in> resource_ids_from_json (ks_knowledge_resource_ids sc)"
    "ks_origin sc \<noteq> ORIGIN_MANUAL"
    using agent_scope_sources [OF agent ask ids allowed(2) [OF ids]] denied by blast
  then have "ks_origin sc = ORIGIN_EXTERNAL_SYNC" by (cases "ks_origin sc") simp_all
  then show ?thesis using sc allowed(1,3) base by (auto simp: map_of_eq_None_iff)
qed



subsection \<open>Examples\<close>

text \<open>
  One space with one public resource, bound to the agent of the group example. A policy gives the
  resource to everybody but the inner group; an external synchronisation may give it to Ann.
\<close>

definition example_knowledge_resource :: knowledge_resource where
  "example_knowledge_resource = \<lparr>kr_id = ''r'', kr_knowledge_space_id = ''ks'', kr_polarrag_instance_id = ''i'', kr_space_id = ''up'',
     kr_kb_type = ''PUBLIC'', kr_binding_mode = Some BINDING_DOMAIN, kr_owner_pas_user_id = None,
     kr_sync_status = SYNC_ACTIVE, kr_enabled = True\<rparr>"

definition example_policy :: knowledge_policy where
  "example_policy = \<lparr>kp_agent_id = ''a'', kp_knowledge_resource_id = ''r'', kp_select_all = True,
     kp_excluded_subjects = [[''GROUP'', ''s'', ''g'']]\<rparr>"

definition example_sync :: knowledge_scope where
  "example_sync = \<lparr>ks_id = ''sc'', ks_agent_id = ''a'', ks_origin = ORIGIN_EXTERNAL_SYNC, ks_identity_source_id = None,
     ks_knowledge_resource_ids = JsonStrings [''r'']\<rparr>"

definition example_knowledge :: "directory \<Rightarrow> knowledge_scope list \<Rightarrow> knowledge_db" where
  "example_knowledge d scopes = \<lparr>k_access = group_agent_db d, k_instances = [\<lparr>ri_id = ''i'', ri_status = RAG_ACTIVE\<rparr>],
     k_spaces = [\<lparr>sp_knowledge_space_id = ''ks'', sp_polarrag_instance_id = ''i'', sp_identity_domain = ''dom'', sp_enabled = True\<rparr>],
     k_space_bindings = [\<lparr>sb_identity_source_id = ''s'', sb_knowledge_space_id = ''ks''\<rparr>],
     k_resources = [example_knowledge_resource],
     k_rag_bindings = [\<lparr>rb_agent_id = ''a'', rb_polarrag_instance_id = ''i'', rb_public = None, rb_personal = None,
       rb_public_excluded = None, rb_personal_excluded = None\<rparr>],
     k_policies = [example_policy], k_scopes = scopes,
     k_scope_bindings = [\<lparr>kb_scope_id = ''sc'', kb_user_id = Some ''ann'', kb_group_assignment_id = None\<rparr>]\<rparr>"

lemma example_knowledge_keys: "knowledge_keys (example_knowledge d scopes)"
  by (simp add: knowledge_keys_def example_knowledge_def example_knowledge_resource_def space_of_def uniq_def)

lemma example_policies: "knowledge_policies (example_knowledge d scopes) ''a'' = [example_policy]"
  "excluded_subjects example_policy = {[''GROUP'', ''s'', ''g'']}" "policy_keys (example_knowledge d scopes)"
  by (simp_all add: knowledge_policies_def example_knowledge_def example_policy_def excluded_subjects_def policy_keys_def uniq_def)

lemma example_scope:
  "allows (resolve_agent_knowledge_resource_scope (example_knowledge d scopes) now ''a'' ''ann'' False) example_knowledge_resource \<longleftrightarrow>
     [''GROUP'', ''s'', ''g''] \<notin> user_knowledge_subjects d now ''ann'' \<or>
     (\<exists>sc \<in> set (bound_scopes (example_knowledge d scopes) now ''a'' ''ann'' False).
        \<not> stale_external_scope (example_knowledge d scopes) now ''ann'' sc \<and>
        ''r'' \<in> (if ks_origin sc = ORIGIN_MANUAL
          then resource_ids_from_json (ks_knowledge_resource_ids sc) - denied_resources (example_knowledge d scopes) now ''a'' ''ann''
          else resource_ids_from_json (ks_knowledge_resource_ids sc)))"
proof -
  let ?k = "example_knowledge d scopes"
  have agent: "tget ag_id ''a'' (x_agents (k_access ?k)) = Some group_agent" "ag_knowledge_scope_mode group_agent = SCOPED"
    by (simp_all add: example_knowledge_def group_agent_db_def group_agent_def)
  have base: "resolve_agent_global_resource_scope ?k ''a'' = \<lparr>rs_bindings = [(''i'', None)], rs_allowed_resource_ids = None,
      rs_personal_only = False, rs_personal_bindings = Some [(''i'', None)], rs_excluded_resource_ids = {}\<rparr>"
    by (simp add: resolve_agent_global_resource_scope_def agent_rag_bindings_def example_knowledge_def excluded_column_def)
  let ?subjects = "user_knowledge_subjects (k_directory ?k) now ''ann''"
  let ?scoped = "\<Union>sc \<in> {sc \<in> set (bound_scopes ?k now ''a'' ''ann'' False). \<not> stale_external_scope ?k now ''ann'' sc}.
    if ks_origin sc = ORIGIN_MANUAL then resource_ids_from_json (ks_knowledge_resource_ids sc) - denied_resources ?k now ''a'' ''ann''
    else resource_ids_from_json (ks_knowledge_resource_ids sc)"
  let ?selected = "kp_knowledge_resource_id ` {p \<in> set [example_policy]. ?subjects \<inter> excluded_subjects p = {} \<and> kp_select_all p}"
  let ?bound = "kr_id ` {r \<in> set (k_resources ?k). kr_polarrag_instance_id r \<in> fst ` set [(''i'', None :: string set option)]}"
  have ask: "\<exists>p \<in> set [example_policy]. excluded_subjects p \<noteq> {}" by (simp add: example_policies(2))
  have mode: "\<not> (ag_knowledge_scope_mode group_agent = LEGACY_ALL \<and> \<not> False)" by (simp add: agent(2))
  have scope: "resolve_agent_knowledge_resource_scope ?k now ''a'' ''ann'' False = \<lparr>rs_bindings = [(''i'', None)],
      rs_allowed_resource_ids = Some (({} \<union> ?selected \<union> ?scoped) \<inter> ?bound), rs_personal_only = False,
      rs_personal_bindings = Some [(''i'', None)], rs_excluded_resource_ids = {}\<rparr>"
    unfolding resolve_agent_knowledge_resource_scope_def Let_def agent(1) option.case base example_policies(1) denied_resources_def
      if_P [OF ask] if_not_P [OF mode] resource_scope.select_convs ..
  have "allows (resolve_agent_knowledge_resource_scope ?k now ''a'' ''ann'' False) example_knowledge_resource \<longleftrightarrow>
      ''r'' \<in> ({} \<union> ?selected \<union> ?scoped) \<inter> ?bound"
    unfolding scope allows_def by (simp add: example_knowledge_resource_def)
  also have "\<dots> \<longleftrightarrow> ''r'' \<in> ?selected \<or> ''r'' \<in> ?scoped"
  proof -
    have "example_knowledge_resource \<in> set (k_resources ?k)" "kr_polarrag_instance_id example_knowledge_resource = ''i''" "kr_id example_knowledge_resource = ''r''"
      by (simp_all add: example_knowledge_def) (simp_all add: example_knowledge_resource_def)
    then have "''r'' \<in> ?bound" by (intro image_eqI [of _ _ example_knowledge_resource]) simp_all
    then show ?thesis by blast
  qed
  also have "''r'' \<in> ?selected \<longleftrightarrow> [''GROUP'', ''s'', ''g''] \<notin> user_knowledge_subjects d now ''ann''"
  proof -
    have "kp_knowledge_resource_id example_policy = ''r''" "kp_select_all example_policy" by (simp_all add: example_policy_def)
    moreover have "k_directory ?k = d" by (simp add: example_knowledge_def group_agent_db_def)
    ultimately have "''r'' \<in> ?selected \<longleftrightarrow> user_knowledge_subjects d now ''ann'' \<inter> excluded_subjects example_policy = {}" by auto
    then show ?thesis by (simp add: example_policies(2))
  qed
  also have "''r'' \<in> ?scoped \<longleftrightarrow> (\<exists>sc \<in> set (bound_scopes ?k now ''a'' ''ann'' False). \<not> stale_external_scope ?k now ''ann'' sc \<and>
      ''r'' \<in> (if ks_origin sc = ORIGIN_MANUAL
        then resource_ids_from_json (ks_knowledge_resource_ids sc) - denied_resources ?k now ''a'' ''ann''
        else resource_ids_from_json (ks_knowledge_resource_ids sc)))" by blast
  finally show ?thesis .
qed

theorem listing_agrees_with_access_witness:
  "\<exists>rows. list_visible_knowledge_resources (example_knowledge example_directory []) 0 ''ann'' None = Inr rows \<and>
    (example_knowledge_resource \<in> set rows \<longleftrightarrow>
      (\<exists>plan. plan_knowledge_access (\<lambda>i. length i = 1) (example_knowledge example_directory []) 0 ''ann'' [''r''] None = Inr plan \<and>
         ap_resources plan = [example_knowledge_resource]))"
  using listing_agrees_with_access [OF example_knowledge_keys, of example_knowledge_resource example_directory "[]" "\<lambda>i. length i = 1" None 0 "''ann''"]
  by (simp add: example_knowledge_def example_knowledge_resource_def)

theorem policy_excludes_user_witness:
  "\<exists>sc \<in> set (bound_scopes (example_knowledge example_directory [example_sync]) 0 ''a'' ''ann'' False).
     ks_origin sc = ORIGIN_EXTERNAL_SYNC \<and> ''r'' \<in> resource_ids_from_json (ks_knowledge_resource_ids sc)"
proof -
  let ?k = "example_knowledge example_directory [example_sync]"
  have "example_sync \<in> set (bound_scopes ?k 0 ''a'' ''ann'' False)" "\<not> stale_external_scope ?k 0 ''ann'' example_sync"
    by (simp_all add: bound_scopes_def stale_external_scope_def example_knowledge_def example_sync_def)
  then have "allows (resolve_agent_knowledge_resource_scope ?k 0 ''a'' ''ann'' False) example_knowledge_resource"
    unfolding example_scope by (auto simp: example_sync_def resource_ids_from_json_def)
  moreover have "excluded_subjects example_policy \<inter> user_knowledge_subjects (k_directory ?k) 0 ''ann'' \<noteq> {}"
    using example_subjects(1) by (simp add: example_policies(2) example_knowledge_def group_agent_db_def)
  ultimately show ?thesis
    using policy_excludes_user [OF example_policies(3), of example_policy _ _ "''a''" example_knowledge_resource 0 "''ann''" False]
    by (fastforce simp: example_policies(1) example_knowledge_resource_def example_policy_def)
qed

theorem pages_cover_listing_witness:
  "\<exists>rows. list_visible_knowledge_resources (example_knowledge example_directory []) 0 ''ann'' None = Inr rows \<and>
    follow_pages (Suc (length rows)) (example_knowledge example_directory []) 0 ''ann'' None None 1 = Some rows"
proof -
  obtain rows where "list_visible_knowledge_resources (example_knowledge example_directory []) 0 ''ann'' None = Inr rows"
    using listed_iff [of "example_knowledge example_directory []" 0 "''ann''" None example_knowledge_resource] by blast
  moreover from this have "follow_pages (Suc (length rows)) (example_knowledge example_directory []) 0 ''ann'' None None 1 = Some rows"
    using pages_cover_listing [of "example_knowledge example_directory []" 1 0 "''ann''" None rows "Suc (length rows)"]
    by (simp add: example_knowledge_def uniq_def)
  ultimately show ?thesis by blast
qed

text \<open>A user in an excluded group escapes the exclusion by a second identity of the same provider:
  the policy that hides the resource from the group gives it to the user.\<close>

theorem second_identity_escapes_exclusion:
  "directory_member second_identity_directory ''s'' ''g'' ''x'' \<and>
   \<not> allows (resolve_agent_knowledge_resource_scope (example_knowledge example_directory []) 0 ''a'' ''ann'' False) example_knowledge_resource \<and>
   allows (resolve_agent_knowledge_resource_scope (example_knowledge second_identity_directory []) 0 ''a'' ''ann'' False) example_knowledge_resource"
proof -
  have "bound_scopes (example_knowledge d []) 0 ''a'' ''ann'' False = []" for d
    by (simp add: bound_scopes_def example_knowledge_def)
  then show ?thesis unfolding example_scope using second_identity_subjects(2,3) example_subjects(1) by simp
qed

end
