(* ===== verification/Session_Scan.thy ===== *)
theory Session_Scan
  imports Text_Ops
begin

text \<open>
  The scanner that tells whether SQL touches the state of the session
  (\<open>core/sql_gateway.py\<close>: \<open>_sql_code_for_session_scan\<close>, \<open>_mentions_session_branch\<close>) and the
  classification of a statement by its first keyword (\<open>core/sql_classifier.py\<close>). Characters are
  code points below 256; the positions of the source are suffixes of the text here.

  The scanner is compared with a description of SQL text as a sequence of pieces (code, literals,
  comments, executable comments): what is kept of a text is what its pieces say. What it leaves is
  free of literals and comments, so a second scan changes nothing. The last section has texts in
  which MySQL sees an assignment of the branch and the scan does not.
\<close>

section \<open>Characters and searches\<close>

abbreviation single_quote :: char where "single_quote \<equiv> CHR 0x27"
abbreviation double_quote :: char where "double_quote \<equiv> CHR 0x22"
abbreviation backslash :: char where "backslash \<equiv> CHR 0x5C"
abbreviation backtick :: char where "backtick \<equiv> CHR 0x60"
abbreviation newline :: char where "newline \<equiv> CHR 0x0A"
abbreviation carriage_return :: char where "carriage_return \<equiv> CHR 0x0D"

text \<open>\<open>str.isdigit\<close> and \<open>str.isalpha\<close> for one character.\<close>

definition isdigit :: "char \<Rightarrow> bool" where
  "isdigit c = (let n = (of_char c :: nat) in (48 \<le> n \<and> n \<le> 57) \<or> n = 178 \<or> n = 179 \<or> n = 185)"

definition isalpha :: "char \<Rightarrow> bool" where
  "isalpha c = (let n = (of_char c :: nat) in (65 \<le> n \<and> n \<le> 90) \<or> (97 \<le> n \<and> n \<le> 122)
     \<or> n = 170 \<or> n = 181 \<or> n = 186 \<or> (192 \<le> n \<and> n \<noteq> 215 \<and> n \<noteq> 247))"

text \<open>Evaluation of the character classes on the bits of a character.\<close>

lemma space_char_code [code]:
  "space_char (Char b0 b1 b2 b3 b4 b5 b6 b7) =
    (\<not> b6 \<and> (if b7 then (if b5 then \<not> b0 \<and> \<not> b1 \<and> \<not> b2 \<and> \<not> b3 \<and> \<not> b4 else b0 \<and> \<not> b1 \<and> b2 \<and> \<not> b3 \<and> \<not> b4)
      else if b5 then \<not> b0 \<and> \<not> b1 \<and> \<not> b2 \<and> \<not> b3 \<and> \<not> b4
      else b3 \<and> (if b4 then b2 else (b0 \<or> b1 \<or> b2) \<and> \<not> (b1 \<and> b2))))"
  by (cases b0; cases b1; cases b2; cases b3; cases b4; cases b5; cases b6; cases b7)
     (simp_all add: space_char_def is_space_def)

lemma lower_char_code [code]:
  "lower_char (Char b0 b1 b2 b3 b4 b5 b6 b7) =
    (if \<not> b7 \<and> b6 \<and> \<not> b5 \<and> (b0 \<or> b1 \<or> b2 \<or> b3 \<or> b4) \<and> \<not> (b4 \<and> b3 \<and> (b2 \<or> b1 \<and> b0))
     then Char b0 b1 b2 b3 b4 True b6 b7 else Char b0 b1 b2 b3 b4 b5 b6 b7)"
  by (cases b0; cases b1; cases b2; cases b3; cases b4; cases b5; cases b6; cases b7)
     (simp_all add: lower_char_def char_of_def bit_0)

text \<open>\<open>s.find(p)\<close>, as the text before the first occurrence and the text after it.\<close>

fun cut_at :: "string \<Rightarrow> string \<Rightarrow> (string \<times> string) option" where
  "cut_at p [] = (if p = [] then Some ([], []) else None)"
| "cut_at p (c # cs) =
     (if take (length p) (c # cs) = p then Some ([], drop (length p) (c # cs))
      else map_option (\<lambda>(a, b). (c # a, b)) (cut_at p cs))"

definition line_end :: "char \<Rightarrow> bool" where
  "line_end c = (c = carriage_return \<or> c = newline)"

lemma cut_at_text: "cut_at p s = Some (a, b) \<Longrightarrow> s = a @ p @ b"
proof (induction s arbitrary: a)
  case (Cons c cs)
  show ?case
  proof (cases "take (length p) (c # cs) = p")
    case True
    with Cons.prems have "a = []" "b = drop (length p) (c # cs)" by auto
    then show ?thesis using True append_take_drop_id [of "length p" "c # cs"] by simp
  next
    case False
    with Cons show ?thesis by auto
  qed
qed (auto split: if_splits)

lemma cut_at_shorter: "cut_at p s = Some (a, b) \<Longrightarrow> length s = length a + length p + length b"
  by (drule cut_at_text) simp


section \<open>The scanner\<close>

text \<open>The rest of the text after the literal that the quote \<open>q\<close> has opened.\<close>

fun skip_literal :: "char \<Rightarrow> string \<Rightarrow> string" where
  "skip_literal q [] = []"
| "skip_literal q [c] = []"
| "skip_literal q (c # d # cs) =
     (if c = backslash then skip_literal q cs
      else if c = q then (if d = q then skip_literal q cs else d # cs)
      else skip_literal q (d # cs))"

lemma skip_literal_length: "length (skip_literal q s) \<le> length s"
  by (induction q s rule: skip_literal.induct) auto

text \<open>The content of an executable comment: after the digits of the version and white space.\<close>

definition executable_content :: "string \<Rightarrow> string" where
  "executable_content s = dropWhile space_char (dropWhile isdigit s)"

lemma executable_content_length: "length (executable_content s) \<le> length s"
  by (simp add: executable_content_def le_trans [OF length_dropWhile_le length_dropWhile_le])

lemma rest_after_line:
  "dropWhile P s = e # t \<Longrightarrow> length t < length s"
  using length_dropWhile_le [of P s] by simp

function sql_code_for_session_scan :: "string \<Rightarrow> string" where
  "sql_code_for_session_scan [] = []"
| "sql_code_for_session_scan (c # s) =
     (if c = single_quote \<or> c = double_quote then
        CHR '' '' # sql_code_for_session_scan (skip_literal c s)
      else if (c = CHR ''-'' \<and> s \<noteq> [] \<and> hd s = CHR ''-'') \<or> c = CHR ''#'' then
        (case dropWhile (\<lambda>d. \<not> line_end d) (if c = CHR ''#'' then s else tl s) of
           [] \<Rightarrow> []
         | e # t \<Rightarrow> e # sql_code_for_session_scan t)
      else if c = CHR ''/'' \<and> s \<noteq> [] \<and> hd s = CHR ''*'' then
        (case cut_at ''*/'' (tl s) of
           None \<Rightarrow> []
         | Some (body, t) \<Rightarrow>
             (if body \<noteq> [] \<and> hd body = CHR ''!'' then
                CHR '' '' # sql_code_for_session_scan (executable_content (tl body)) @ '' ''
              else '' '') @ sql_code_for_session_scan t)
      else c # sql_code_for_session_scan s)"
  by pat_completeness auto

termination
proof (relation "measure length", goal_cases)
  case (3 c s e t)
  have "length (tl s) \<le> length s" by simp
  with 3 rest_after_line [OF 3(3)] show ?case by (auto split: if_splits)
next
  case (4 c s x body t)
  then have "length (tl s) = length body + 2 + length t" by (auto dest!: cut_at_shorter)
  moreover have "length (executable_content (tl body)) \<le> length body"
    using executable_content_length [of "tl body"] by simp
  ultimately show ?case by (simp add: less_Suc_eq_le)
next
  case (5 c s x body t)
  then have "length (tl s) = length body + 2 + length t" by (auto dest!: cut_at_shorter)
  then show ?case by (simp add: less_Suc_eq_le)
qed (auto simp: le_imp_less_Suc skip_literal_length)

declare sql_code_for_session_scan.simps(2) [simp del]

definition branch_patterns :: "string list" where
  "branch_patterns = [''@@session.branch'', ''@@local.branch'', ''@@branch'', ''setsessionbranch='',
     ''setlocalbranch='', ''setbranch='']"

text \<open>\<open>"".join(sql.lower().split()).replace("`", "")\<close>\<close>

definition normalized_code :: "string \<Rightarrow> string" where
  "normalized_code s = filter (\<lambda>c. \<not> space_char c \<and> c \<noteq> backtick) (map lower_char s)"

definition mentions_session_branch :: "string \<Rightarrow> bool" where
  "mentions_session_branch sql =
     list_ex (\<lambda>p. contains_text p (normalized_code (sql_code_for_session_scan sql))) branch_patterns"


section \<open>The first keyword\<close>

definition known_types :: "string list" where
  "known_types = [''SELECT'', ''INSERT'', ''UPDATE'', ''DELETE'', ''CREATE'', ''ALTER'', ''DROP'', ''TRUNCATE'',
     ''SHOW'', ''DESCRIBE'', ''EXPLAIN'', ''USE'']"

lemma drop2_shorter: "take 2 t = [a, b] \<Longrightarrow> length t = 2 + length (drop 2 t)"
  by (cases t; cases "tl t") auto

function skip_leading_trivia :: "string \<Rightarrow> string" where
  "skip_leading_trivia s =
     (let t = dropWhile space_char s in
      if take 2 t = ''--'' then
        (case dropWhile (\<lambda>d. d \<noteq> newline) (drop 2 t) of [] \<Rightarrow> [] | e # u \<Rightarrow> skip_leading_trivia u)
      else if take 2 t = ''/*'' then
        (case cut_at ''*/'' (drop 2 t) of None \<Rightarrow> [] | Some (body, u) \<Rightarrow> skip_leading_trivia u)
      else t)"
  by pat_completeness auto

termination
proof (relation "measure length", goal_cases)
  case (2 s t e u)
  then have "length t \<le> length s" by (simp add: length_dropWhile_le)
  with 2 rest_after_line [OF 2(3)] drop2_shorter [OF 2(2)] show ?case by simp
next
  case (3 s t x body u)
  then have "length t \<le> length s" by (simp add: length_dropWhile_le)
  with 3 drop2_shorter [OF 3(3)] show ?case by (auto dest!: cut_at_shorter)
qed auto

declare skip_leading_trivia.simps [simp del]

definition classify_sql :: "string option \<Rightarrow> string" where
  "classify_sql sql = (case sql of None \<Rightarrow> ''OTHER''
     | Some s \<Rightarrow>
       if s = [] \<or> strip_text s = [] then ''OTHER''
       else let keyword = upper_text (takeWhile isalpha (skip_leading_trivia s)) in
         if keyword \<in> set known_types then keyword else ''OTHER'')"


section \<open>SQL text as pieces\<close>

text \<open>
  A description of SQL text that is independent of the scanner: code, quoted literals made of plain
  characters, escaped characters and doubled quotes, comments to the end of a line, inert comments,
  and executable comments \<open>/*!50000 ... */\<close> with pieces inside.
\<close>

datatype literal_unit = Plain_Char char | Escaped char | Doubled

datatype piece =
    Code string
  | Literal char "literal_unit list"
  | Dash_Comment string char
  | Hash_Comment string char
  | Inert_Comment string
  | Executable_Comment string string "piece list"

fun unit_text :: "char \<Rightarrow> literal_unit \<Rightarrow> string" where
  "unit_text q (Plain_Char c) = [c]"
| "unit_text q (Escaped c) = [backslash, c]"
| "unit_text q Doubled = [q, q]"

fun unit_fits :: "char \<Rightarrow> literal_unit \<Rightarrow> bool" where
  "unit_fits q (Plain_Char c) = (c \<noteq> q \<and> c \<noteq> backslash)"
| "unit_fits q _ = True"

text \<open>How a piece is written, and what of it is code.\<close>

primrec piece_text :: "piece \<Rightarrow> string" where
  "piece_text (Code s) = s"
| "piece_text (Literal q us) = q # concat (map (unit_text q) us) @ [q]"
| "piece_text (Dash_Comment b e) = ''--'' @ b @ [e]"
| "piece_text (Hash_Comment b e) = ''#'' @ b @ [e]"
| "piece_text (Inert_Comment b) = ''/*'' @ b @ ''*/''"
| "piece_text (Executable_Comment v sp ps) = ''/*!'' @ v @ sp @ concat (map piece_text ps) @ ''*/''"

primrec piece_code :: "piece \<Rightarrow> string" where
  "piece_code (Code s) = s"
| "piece_code (Literal q us) = '' ''"
| "piece_code (Dash_Comment b e) = [e]"
| "piece_code (Hash_Comment b e) = [e]"
| "piece_code (Inert_Comment b) = '' ''"
| "piece_code (Executable_Comment v sp ps) = '' '' @ concat (map piece_code ps) @ '' ''"

abbreviation pieces_text :: "piece list \<Rightarrow> string" where
  "pieces_text ps \<equiv> concat (map piece_text ps)"

abbreviation pieces_code :: "piece list \<Rightarrow> string" where
  "pieces_code ps \<equiv> concat (map piece_code ps)"

text \<open>No character of the code starts a literal or a comment, also together with the text that
  follows.\<close>

definition opens :: "char \<Rightarrow> string \<Rightarrow> bool" where
  "opens c s = (c = single_quote \<or> c = double_quote \<or> c = CHR ''#'' \<or> (c = CHR ''-'' \<and> s \<noteq> [] \<and> hd s = CHR ''-'')
     \<or> (c = CHR ''/'' \<and> s \<noteq> [] \<and> hd s = CHR ''*''))"

fun plain_before :: "string \<Rightarrow> string \<Rightarrow> bool" where
  "plain_before t [] = True"
| "plain_before t (c # s) = (\<not> opens c (s @ t) \<and> plain_before t s)"

text \<open>The pieces fit together when each ends where it says, given the text that follows it.\<close>

fun piece_fits :: "piece \<Rightarrow> string \<Rightarrow> bool" and pieces_fit :: "piece list \<Rightarrow> string \<Rightarrow> bool" where
  "piece_fits (Code s) t = plain_before t s"
| "piece_fits (Literal q us) t =
     ((q = single_quote \<or> q = double_quote) \<and> list_all (unit_fits q) us \<and> (t = [] \<or> hd t \<noteq> q))"
| "piece_fits (Dash_Comment b e) t = (list_all (\<lambda>c. \<not> line_end c) b \<and> line_end e)"
| "piece_fits (Hash_Comment b e) t = (list_all (\<lambda>c. \<not> line_end c) b \<and> line_end e)"
| "piece_fits (Inert_Comment b) t =
     (cut_at ''*/'' (b @ ''*/'') = Some (b, []) \<and> (b = [] \<or> hd b \<noteq> CHR ''!''))"
| "piece_fits (Executable_Comment v sp ps) t =
     (list_all isdigit v \<and> list_all space_char sp
      \<and> (let body = pieces_text ps in
           (body = [] \<or> \<not> space_char (hd body) \<and> (sp = [] \<longrightarrow> \<not> isdigit (hd body)))
           \<and> cut_at ''*/'' (''!'' @ v @ sp @ body @ ''*/'') = Some (''!'' @ v @ sp @ body, []))
      \<and> pieces_fit ps [])"
| "pieces_fit [] t = True"
| "pieces_fit (p # ps) t = (piece_fits p (pieces_text ps @ t) \<and> pieces_fit ps t)"

lemma cut_at_followed:
  assumes "p \<noteq> []" and "cut_at p (b @ p) = Some (b, [])"
  shows "cut_at p (b @ p @ t) = Some (b, t)"
  using assms
proof (induction b)
  case Nil
  then show ?case by (cases p) auto
next
  case (Cons c b)
  then have no: "take (length p) (c # b @ p) \<noteq> p" by (auto split: if_splits)
  have "take (length p) ((c # b @ p) @ t) = take (length p) (c # b @ p)"
    unfolding take_append by simp
  with no have no': "take (length p) (c # b @ p @ t) \<noteq> p" by simp
  from no Cons.prems(2) have "cut_at p (b @ p) = Some (b, [])"
    unfolding append_Cons cut_at.simps if_not_P [OF no] by auto
  with Cons.IH [OF Cons.prems(1)] show ?case
    unfolding append_Cons cut_at.simps if_not_P [OF no'] by simp
qed

lemma skip_literal_units:
  assumes "list_all (unit_fits q) us" and "t = [] \<or> hd t \<noteq> q" and "q \<noteq> backslash"
  shows "skip_literal q (concat (map (unit_text q) us) @ q # t) = t"
  using assms
proof (induction us)
  case Nil
  then show ?case by (cases t) auto
next
  case (Cons u us)
  show ?case
  proof (cases u)
    case (Plain_Char c)
    with Cons show ?thesis by (cases "concat (map (unit_text q) us) @ q # t") auto
  qed (use Cons in auto)
qed

lemma executable_content_body:
  assumes "list_all isdigit v" and "list_all space_char sp"
    and "body = [] \<or> \<not> space_char (hd body) \<and> (sp = [] \<longrightarrow> \<not> isdigit (hd body))"
  shows "executable_content (v @ sp @ body) = body"
proof -
  have gap: "space_char c \<Longrightarrow> \<not> isdigit c" for c
    by (auto simp: space_char_def is_space_def isdigit_def Let_def)
  have "dropWhile isdigit (v @ x) = dropWhile isdigit x" for x
    using assms(1) by (simp add: list_all_iff dropWhile_append2)
  moreover have "dropWhile isdigit (sp @ body) = sp @ body"
    using assms(2,3) gap by (cases sp; cases body) auto
  moreover have "dropWhile space_char (sp @ body) = body"
    using assms(2,3) by (cases body) (auto simp: list_all_iff dropWhile_append2 dropWhile_eq_Nil_conv)
  ultimately show ?thesis by (simp add: executable_content_def)
qed

lemma scan_plain:
  "plain_before t s \<Longrightarrow> sql_code_for_session_scan (s @ t) = s @ sql_code_for_session_scan t"
  by (induction s) (auto simp: sql_code_for_session_scan.simps(2) opens_def)

lemma scan_line:
  "list_all (\<lambda>c. \<not> line_end c) b \<Longrightarrow> line_end e \<Longrightarrow>
    dropWhile (\<lambda>d. \<not> line_end d) (b @ e # t) = e # t"
  by (simp add: list_all_iff dropWhile_append2)

lemma scan_piece:
  "piece_fits p t \<Longrightarrow> sql_code_for_session_scan (piece_text p @ t) = piece_code p @ sql_code_for_session_scan t"
  "pieces_fit ps t \<Longrightarrow> sql_code_for_session_scan (pieces_text ps @ t) = pieces_code ps @ sql_code_for_session_scan t"
proof (induction p t and ps t rule: piece_fits_pieces_fit.induct)
  case (1 s t)
  then show ?case by (simp add: scan_plain)
next
  case (2 q us t)
  then show ?case by (auto simp: sql_code_for_session_scan.simps(2) skip_literal_units)
next
  case (5 b t)
  then have "cut_at ''*/'' (b @ ''*/'' @ t) = Some (b, t)" by (intro cut_at_followed) auto
  with 5 show ?case by (simp add: sql_code_for_session_scan.simps(2))
next
  case (6 v sp ps t)
  let ?body = "pieces_text ps"
  have "cut_at ''*/'' ((''!'' @ v @ sp @ ?body) @ ''*/'' @ t) = Some (''!'' @ v @ sp @ ?body, t)"
    using 6 by (intro cut_at_followed) (auto simp: Let_def)
  moreover have "executable_content (v @ sp @ ?body) = ?body"
    using 6 by (intro executable_content_body) (auto simp: Let_def)
  ultimately show ?case using 6 by (simp add: sql_code_for_session_scan.simps(2))
qed (auto simp: sql_code_for_session_scan.simps(2) scan_line)

text \<open>C26: the scanner reads SQL the way its pieces say. For every text made of code, literals, comments
  and executable comments that fit together, the result is the code with a space for each literal
  and each inert comment, the line end for each line comment, and the code inside executable
  comments.\<close>

theorem scan_reads_pieces:
  assumes "pieces_fit ps []"
  shows "sql_code_for_session_scan (pieces_text ps) = pieces_code ps"
  using scan_piece(2) [OF assms] by simp


section \<open>What the scanner leaves\<close>

fun clean :: "string \<Rightarrow> bool" where
  "clean [] = True"
| "clean (c # s) = (\<not> opens c s \<and> clean s)"

lemma scan_clean_id: "clean s \<Longrightarrow> sql_code_for_session_scan s = s"
  by (induction s) (auto simp: sql_code_for_session_scan.simps(2) opens_def)

lemma scan_head:
  "sql_code_for_session_scan s = d # t \<Longrightarrow> d = hd s \<or> d = CHR '' '' \<or> line_end d"
  by (cases s) (auto simp: sql_code_for_session_scan.simps(2) dropWhile_eq_Cons_conv split: if_splits list.splits option.splits)

lemma opens_gap [simp]: "\<not> opens CHR '' '' s" "line_end e \<Longrightarrow> \<not> opens e s"
  by (auto simp: opens_def line_end_def)

lemma clean_join: "clean x \<Longrightarrow> clean y \<Longrightarrow> clean (x @ CHR '' '' # y)"
proof (induction x)
  case (Cons c x)
  then show ?case by (cases x) (auto simp: opens_def)
qed simp

lemma scan_clean: "clean (sql_code_for_session_scan s)"
proof (induction s rule: sql_code_for_session_scan.induct)
  case (2 c s)
  consider (literal) "c = single_quote \<or> c = double_quote"
    | (line) "(c = CHR ''-'' \<and> s \<noteq> [] \<and> hd s = CHR ''-'') \<or> c = CHR ''#''"
    | (block) "c = CHR ''/'' \<and> s \<noteq> [] \<and> hd s = CHR ''*''"
    | (code) "\<not> opens c s"
    by (auto simp: opens_def)
  then show ?case
  proof cases
    case literal
    then show ?thesis using 2(1) by (simp add: sql_code_for_session_scan.simps(2))
  next
    case line
    then have no: "\<not> (c = single_quote \<or> c = double_quote)" by auto
    let ?r = "dropWhile (\<lambda>d. \<not> line_end d) (if c = CHR ''#'' then s else tl s)"
    show ?thesis
    proof (cases ?r)
      case (Cons e t)
      then have "line_end e" by (simp add: dropWhile_eq_Cons_conv)
      with 2(2) [OF no line Cons] Cons line no show ?thesis
        by (simp add: sql_code_for_session_scan.simps(2))
    qed (use line no in \<open>auto simp: sql_code_for_session_scan.simps(2) simp del: dropWhile_eq_Nil_conv split: if_splits\<close>)
  next
    case block
    then have no: "\<not> (c = single_quote \<or> c = double_quote)"
      "\<not> ((c = CHR ''-'' \<and> s \<noteq> [] \<and> hd s = CHR ''-'') \<or> c = CHR ''#'')" by auto
    show ?thesis
    proof (cases "cut_at ''*/'' (tl s)")
      case (Some x)
      obtain body t where x: "(body, t) = x" by (cases x) auto
      have t: "clean (sql_code_for_session_scan t)" using 2(4) [OF no block Some x] .
      show ?thesis
      proof (cases "body \<noteq> [] \<and> hd body = CHR ''!''")
        case True
        with 2(3) [OF no block Some x True] t Some x [symmetric] block no show ?thesis
          by (simp add: sql_code_for_session_scan.simps(2) clean_join)
      qed (use t Some x [symmetric] block no in \<open>auto simp: sql_code_for_session_scan.simps(2)\<close>)
    qed (use block no in \<open>simp add: sql_code_for_session_scan.simps(2)\<close>)
  next
    case code
    then have eq: "sql_code_for_session_scan (c # s) = c # sql_code_for_session_scan s"
      by (auto simp: sql_code_for_session_scan.simps(2) opens_def)
    have "clean (sql_code_for_session_scan s)" using 2(5) code by (auto simp: opens_def)
    moreover have "\<not> opens c (sql_code_for_session_scan s)"
    proof (cases "sql_code_for_session_scan s")
      case (Cons d t)
      with scan_head [OF Cons] code show ?thesis by (cases s) (auto simp: opens_def line_end_def)
    qed (use code in \<open>auto simp: opens_def\<close>)
    ultimately show ?thesis by (simp add: eq)
  qed
qed simp

text \<open>what the scanner leaves of any text, well formed or not, contains no literal and no comment:
  none of its characters opens one. A second scan therefore changes nothing, and the text that is
  then given to the SQL parser leaves it no freedom to find literals elsewhere.\<close>

theorem scan_leaves_code:
  "clean (sql_code_for_session_scan s)
   \<and> sql_code_for_session_scan (sql_code_for_session_scan s) = sql_code_for_session_scan s"
  using scan_clean scan_clean_id by blast


text \<open>A statement is taken to touch the branch exactly when its code does, whatever its literals and
  comments say.\<close>

lemma mentions_pieces:
  assumes "pieces_fit ps []"
  shows "mentions_session_branch (pieces_text ps) =
    list_ex (\<lambda>p. contains_text p (normalized_code (pieces_code ps))) branch_patterns"
  using scan_piece(2) [OF assms] by (simp add: mentions_session_branch_def)

definition branch_example :: "piece list" where
  "branch_example = [Code ''SELECT '', Literal single_quote [Plain_Char CHR ''-'', Escaped single_quote, Doubled],
     Code ''; SET @@session.'', Inert_Comment '' why '', Hash_Comment ''note'' newline,
     Executable_Comment ''50000'' '' '' [Code ''`branch` = ''], Literal double_quote [Plain_Char CHR ''b'']]"

theorem scan_reads_pieces_witness:
  "pieces_fit branch_example [] \<and>
   sql_code_for_session_scan (pieces_text branch_example) =
     ''SELECT  ; SET @@session. '' @ [newline] @ '' `branch` =   '' \<and>
   mentions_session_branch (pieces_text branch_example)"
proof -
  have fit: "pieces_fit branch_example []" by code_simp
  have "pieces_code branch_example = ''SELECT  ; SET @@session. '' @ [newline] @ '' `branch` =   ''"
    by code_simp
  moreover have "mentions_session_branch (pieces_text branch_example)" by code_simp
  ultimately show ?thesis using scan_reads_pieces [OF fit] fit by simp
qed


section \<open>Comments before the first keyword\<close>

datatype trivia = Space char | Dash_Line string | Block string

fun trivia_text :: "trivia \<Rightarrow> string" where
  "trivia_text (Space c) = [c]"
| "trivia_text (Dash_Line b) = ''--'' @ b @ [newline]"
| "trivia_text (Block b) = ''/*'' @ b @ ''*/''"

fun trivia_fits :: "trivia \<Rightarrow> bool" where
  "trivia_fits (Space c) = space_char c"
| "trivia_fits (Dash_Line b) = list_all (\<lambda>c. c \<noteq> newline) b"
| "trivia_fits (Block b) = (cut_at ''*/'' (b @ ''*/'') = Some (b, []))"

lemma skip_one_trivia: "trivia_fits x \<Longrightarrow> skip_leading_trivia (trivia_text x @ s) = skip_leading_trivia s"
proof (cases x)
  case (Space c)
  assume "trivia_fits x"
  with Space show ?thesis
    by (subst (1 2) skip_leading_trivia.simps) simp
next
  case (Dash_Line b)
  assume "trivia_fits x"
  with Dash_Line have "dropWhile (\<lambda>d. d \<noteq> newline) (b @ newline # s) = newline # s"
    by (simp add: list_all_iff dropWhile_append2)
  moreover have "\<not> space_char CHR ''-''" by (simp add: space_char_def is_space_def)
  ultimately show ?thesis using Dash_Line
    by (subst skip_leading_trivia.simps) simp
next
  case (Block b)
  assume "trivia_fits x"
  with Block have "cut_at ''*/'' (b @ ''*/'' @ s) = Some (b, s)" by (intro cut_at_followed) auto
  moreover have "\<not> space_char CHR ''/''" by (simp add: space_char_def is_space_def)
  ultimately show ?thesis using Block
    by (subst skip_leading_trivia.simps) simp
qed

lemma skip_trivia: "list_all trivia_fits xs \<Longrightarrow> skip_leading_trivia (concat (map trivia_text xs) @ s) = skip_leading_trivia s"
  by (induction xs) (auto simp: skip_one_trivia)

lemma blank_keyword: "strip_text s = [] \<Longrightarrow> takeWhile isalpha (skip_leading_trivia s) = []"
  by (subst skip_leading_trivia.simps) (simp add: strip_text_empty dropWhile_eq_Nil_conv [THEN iffD2])

lemma classify_sql_keyword:
  "classify_sql (Some s) = (let keyword = upper_text (takeWhile isalpha (skip_leading_trivia s)) in
     if keyword \<in> set known_types then keyword else ''OTHER'')"
  using blank_keyword [of s] blank_keyword [of "[]"]
  by (auto simp: classify_sql_def Let_def known_types_def strip_text_empty)

text \<open>the class of a statement, as it is recorded in the audit log, does not depend on the white
  space and comments before it.\<close>

theorem classify_skips_trivia:
  assumes "list_all trivia_fits xs"
  shows "classify_sql (Some (concat (map trivia_text xs) @ s)) = classify_sql (Some s)"
  by (simp add: classify_sql_keyword skip_trivia [OF assms])

theorem classify_skips_trivia_witness:
  "list_all trivia_fits [Space CHR '' '', Block ''why'', Dash_Line ''note''] \<and>
   classify_sql (Some (concat (map trivia_text [Space CHR '' '', Block ''why'', Dash_Line ''note'']) @ ''drop table t'')) = ''DROP''"
proof -
  have fit: "list_all trivia_fits [Space CHR '' '', Block ''why'', Dash_Line ''note'']" by code_simp
  have "classify_sql (Some ''drop table t'') = ''DROP''" by code_simp
  with classify_skips_trivia [OF fit] fit show ?thesis by simp
qed


section \<open>Assignments the scan does not see\<close>

text \<open>
  The patterns name \<open>SET branch =\<close> with the variable right after \<open>SET\<close> and with \<open>=\<close>. MySQL also has
  \<open>:=\<close> and lists of assignments. The scanner takes a quote inside backticks for the start of a literal,
  and it takes \<open>--\<close> for a comment where MySQL, which asks for white space after it, subtracts a
  negative number.
\<close>

definition unseen_assignments :: "string list" where
  "unseen_assignments = [
     ''SET SESSION branch := 1'',
     ''SET autocommit = 1, branch = 1'',
     ''SET @`'' @ [single_quote] @ ''` = 1, @@session.branch = 1'',
     ''SET @a = 5--1, @@session.branch = 1'']"

text \<open>four statements that assign the branch of the session and are not recognised: the run of such a
  statement neither is refused when a branch is given nor discards the connection.\<close>

theorem branch_assignments_missed: "list_all (\<lambda>s. \<not> mentions_session_branch s) unseen_assignments"
  by code_simp

end
