(* ===== verification/SQL_Statements.thy ===== *)
theory SQL_Statements
  imports Session_Scan
begin

text \<open>
  Statements and their risk (\<open>core/sql_executor.py\<close>, \<open>core/ddl_hints.py\<close>, and
  \<open>_changes_database_context\<close> of \<open>core/sql_gateway.py\<close>). The SQL parser (the package sqlparse) is a
  parameter: a function from text to statements, each a list of leaf tokens with a statement type,
  and a function that splits text; either may raise, which is \<open>None\<close>. Token types are the paths of
  the package's type tree.
\<close>

section \<open>The parser\<close>

record sql_token =
  tk_ttype :: "string list"
  tk_value :: string
  tk_normalized :: string
  tk_is_whitespace :: bool

record sql_statement =
  st_flatten :: "sql_token list"
  st_type :: "string option"

record sqlparse =
  sp_parse :: "string \<Rightarrow> sql_statement list option"
  sp_split :: "string \<Rightarrow> string list option"

abbreviation tt_keyword :: "string list" where "tt_keyword \<equiv> [''Keyword'']"
abbreviation tt_ddl :: "string list" where "tt_ddl \<equiv> [''Keyword'', ''DDL'']"
abbreviation tt_dml :: "string list" where "tt_dml \<equiv> [''Keyword'', ''DML'']"
abbreviation tt_comment :: "string list" where "tt_comment \<equiv> [''Comment'']"
abbreviation tt_punctuation :: "string list" where "tt_punctuation \<equiv> [''Punctuation'']"
abbreviation tt_string :: "string list" where "tt_string \<equiv> [''Literal'', ''String'']"

text \<open>\<open>ttype in T\<close>: the type is \<open>T\<close> or one below it.\<close>

definition ttype_in :: "string list \<Rightarrow> string list \<Rightarrow> bool" where
  "ttype_in t u = (take (length u) t = u)"

definition is_comment :: "sql_token \<Rightarrow> bool" where
  "is_comment tok = ttype_in (tk_ttype tok) tt_comment"

definition is_semicolon :: "sql_token \<Rightarrow> bool" where
  "is_semicolon tok = (tk_ttype tok = tt_punctuation \<and> tk_value tok = '';'')"


section \<open>Text\<close>

definition lstrip_text :: "string \<Rightarrow> string" where
  "lstrip_text s = dropWhile space_char s"

text \<open>\<open>s.rstrip(";")\<close> and \<open>s.strip().strip(";").strip()\<close>.\<close>

definition rstrip_semicolons :: "string \<Rightarrow> string" where
  "rstrip_semicolons s = rev (dropWhile (\<lambda>c. c = CHR '';'') (rev s))"

definition bare_statement :: "string \<Rightarrow> string" where
  "bare_statement s =
     strip_text (rstrip_semicolons (dropWhile (\<lambda>c. c = CHR '';'') (strip_text s)))"

definition begins_with :: "string \<Rightarrow> string \<Rightarrow> bool" where
  "begins_with p s = (take (length p) s = p)"

definition ends_with :: "string \<Rightarrow> string \<Rightarrow> bool" where
  "ends_with p s = begins_with (rev p) (rev s)"


section \<open>Executable comments and statements\<close>

definition is_executable_comment :: "string \<Rightarrow> bool" where
  "is_executable_comment v = begins_with ''/*!'' (lstrip_text v)"

definition decimal_char :: "char \<Rightarrow> bool" where
  "decimal_char c = (let n = (of_char c :: nat) in 48 \<le> n \<and> n \<le> 57)"

text \<open>\<open>re.sub(r"^\s*\d{5,6}\s*", "", s, count=1)\<close>\<close>

definition without_version :: "string \<Rightarrow> string" where
  "without_version s =
     (let t = dropWhile space_char s; n = length (takeWhile decimal_char (take 6 t)) in
      if 5 \<le> n then dropWhile space_char (drop n t) else s)"

definition executable_comment_sql :: "string \<Rightarrow> string" where
  "executable_comment_sql v =
     (let body = lstrip_text v in
      if \<not> begins_with ''/*!'' body \<or> \<not> ends_with ''*/'' body then v
      else takeWhile space_char v @ '' '' @ without_version (take (length body - 5) (drop 3 body)) @ '' '')"

definition expand_executable_comments :: "sqlparse \<Rightarrow> string \<Rightarrow> string" where
  "expand_executable_comments P sql = (case sp_parse P sql of
     None \<Rightarrow> sql
   | Some stmts \<Rightarrow>
       concat (map (\<lambda>tok. if is_comment tok \<and> is_executable_comment (tk_value tok)
                          then executable_comment_sql (tk_value tok) else tk_value tok)
                   (concat (map st_flatten stmts))))"

definition has_executable_text :: "sqlparse \<Rightarrow> string \<Rightarrow> bool" where
  "has_executable_text P statement = (case sp_parse P statement of
     None \<Rightarrow> bare_statement statement \<noteq> []
   | Some stmts \<Rightarrow>
       list_ex (\<lambda>tok. \<not> (tk_is_whitespace tok \<or> is_semicolon tok
                         \<or> (is_comment tok \<and> \<not> is_executable_comment (tk_value tok))))
         (concat (map st_flatten stmts)))"

definition statement_texts :: "sqlparse \<Rightarrow> string \<Rightarrow> string list" where
  "statement_texts P sql0 =
     (let sql = expand_executable_comments P sql0 in
      case sp_split P sql of
        Some stmts \<Rightarrow> filter (has_executable_text P) stmts
      | None \<Rightarrow> (let stripped = bare_statement sql in if stripped = [] then [] else [stripped]))"

definition has_sql_statement :: "sqlparse \<Rightarrow> string \<Rightarrow> bool" where
  "has_sql_statement P sql = (statement_texts P sql \<noteq> [])"

definition has_multiple_statements :: "sqlparse \<Rightarrow> string \<Rightarrow> bool" where
  "has_multiple_statements P sql = (1 < length (statement_texts P sql))"

definition single_statement_text :: "sqlparse \<Rightarrow> string \<Rightarrow> string option" where
  "single_statement_text P sql = (case statement_texts P sql of [s] \<Rightarrow> Some s | _ \<Rightarrow> None)"

definition is_select :: "sqlparse \<Rightarrow> string \<Rightarrow> bool" where
  "is_select P sql = (case single_statement_text P sql of
     None \<Rightarrow> False
   | Some s \<Rightarrow> s \<noteq> [] \<and> (case sp_parse P s of
        None \<Rightarrow> False
      | Some [] \<Rightarrow> False
      | Some (st # _) \<Rightarrow> st_type st = Some ''SELECT''))"

definition first_executable_token :: "sqlparse \<Rightarrow> string \<Rightarrow> string option" where
  "first_executable_token P sql = (case sp_parse P sql of
     None \<Rightarrow> None
   | Some stmts \<Rightarrow>
       map_option (\<lambda>tok. upper_text (tk_normalized tok))
         (find (\<lambda>tok. \<not> (tk_is_whitespace tok \<or> is_semicolon tok \<or> is_comment tok))
            (concat (map st_flatten stmts))))"

definition is_readonly_sql :: "sqlparse \<Rightarrow> string \<Rightarrow> bool" where
  "is_readonly_sql P sql =
     (is_select P sql \<or>
      (case single_statement_text P sql of
         None \<Rightarrow> False
       | Some s \<Rightarrow> s \<noteq> [] \<and>
           first_executable_token P s \<in> Some ` {''SHOW'', ''DESCRIBE'', ''DESC'', ''EXPLAIN''}))"


section \<open>Pagination\<close>

definition has_limit_clause :: "sqlparse \<Rightarrow> string \<Rightarrow> bool" where
  "has_limit_clause P sql = (case sp_parse P sql of
     None \<Rightarrow> False
   | Some stmts \<Rightarrow>
       list_ex (\<lambda>tok. tk_ttype tok = tt_keyword \<and> tk_normalized tok = ''LIMIT'') (concat (map st_flatten stmts)))"

definition strip_trailing_non_executable_tokens :: "sqlparse \<Rightarrow> string \<Rightarrow> string" where
  "strip_trailing_non_executable_tokens P sql = (case sp_parse P sql of
     Some [st] \<Rightarrow>
       strip_text (concat (map tk_value (rev (dropWhile (\<lambda>tok. tk_is_whitespace tok
           \<or> (is_comment tok \<and> \<not> is_executable_comment (tk_value tok)) \<or> is_semicolon tok)
         (rev (st_flatten st))))))
   | _ \<Rightarrow> strip_text (rstrip_semicolons (strip_text sql)))"

definition apply_pagination :: "sqlparse \<Rightarrow> string \<Rightarrow> int \<Rightarrow> int \<Rightarrow> string" where
  "apply_pagination P sql0 max_rows offset =
     (if \<not> is_select P sql0 then sql0
      else let sql = (case single_statement_text P sql0 of
                        Some s \<Rightarrow> if s = [] then sql0 else s | None \<Rightarrow> sql0) in
        if has_limit_clause P sql then sql
        else strip_trailing_non_executable_tokens P sql @ '' LIMIT '' @ int_text max_rows
               @ '' OFFSET '' @ int_text offset)"


section \<open>Conditions that are always true\<close>

definition has_where_clause :: "sql_statement \<Rightarrow> bool" where
  "has_where_clause st = list_ex (\<lambda>tok. tk_ttype tok = tt_keyword \<and> tk_normalized tok = ''WHERE'') (st_flatten st)"

definition tautological_patterns :: "string list" where
  "tautological_patterns = [''1=1'', ''true'', ''1'']"

definition where_token_values :: "sql_token list \<Rightarrow> string list" where
  "where_token_values toks =
     map (\<lambda>tok. if ttype_in (tk_ttype tok) tt_string then ''?'' else map lower_char (tk_normalized tok))
       (filter (\<lambda>tok. \<not> tk_is_whitespace tok \<and> \<not> is_comment tok \<and> \<not> is_semicolon tok) toks)"

definition strip_edge_parentheses :: "string list \<Rightarrow> string list" where
  "strip_edge_parentheses vs =
     rev (dropWhile (\<lambda>v. v = '')'') (rev (dropWhile (\<lambda>v. v = ''('') vs)))"

text \<open>The scan of one round of \<open>_strip_balanced_parentheses\<close>: whether the loop over the characters ends
  without a break, and the depth it ends with. \<open>n\<close> characters are left.\<close>

fun paren_scan :: "int \<Rightarrow> string \<Rightarrow> bool \<times> int" where
  "paren_scan depth [] = (True, depth)"
| "paren_scan depth (c # cs) =
     (let depth' = (if c = CHR ''('' then depth + 1 else if c = CHR '')'' then depth - 1 else depth) in
      if c = CHR '')'' \<and> depth' = 0 \<and> cs \<noteq> [] then (False, depth')
      else if depth' < 0 then (False, depth')
      else paren_scan depth' cs)"

lemma strip_text_length: "length (strip_text s) \<le> length s"
  by (simp add: strip_text_def) (metis length_dropWhile_le length_rev le_trans)

function strip_balanced_parentheses :: "string \<Rightarrow> string" where
  "strip_balanced_parentheses v =
     (if begins_with ''('' v \<and> ends_with '')'' v \<and> paren_scan 0 v = (True, 0)
      then strip_balanced_parentheses (strip_text (take (length v - 2) (tl v)))
      else v)"
  by pat_completeness auto
termination
proof (relation "measure length", goal_cases)
  case (2 v)
  then have "v \<noteq> []" by (auto simp: begins_with_def)
  then have "length (take (length v - 2) (tl v)) < length v" by (cases v) auto
  then show ?case using strip_text_length [of "take (length v - 2) (tl v)"] by simp
qed simp

declare strip_balanced_parentheses.simps [simp del]

definition is_tautological_token_values :: "string list \<Rightarrow> bool" where
  "is_tautological_token_values vs0 =
     (let vs = strip_edge_parentheses vs0 in
      concat vs \<in> set tautological_patterns \<or>
      (length (filter (\<lambda>v. v = ''='' \<or> v = ''<=>'') vs) = 1 \<and>
       (let left = takeWhile (\<lambda>v. v \<noteq> ''='' \<and> v \<noteq> ''<=>'') vs;
            right = tl (dropWhile (\<lambda>v. v \<noteq> ''='' \<and> v \<noteq> ''<=>'') vs) in
        left \<noteq> [] \<and> right \<noteq> [] \<and> ''?'' \<notin> set left \<and> ''?'' \<notin> set right \<and> left = right)))"

definition has_or_tautology :: "string list \<Rightarrow> bool" where
  "has_or_tautology vs =
     list_ex (\<lambda>i. vs ! i = ''or'' \<and>
        (is_tautological_token_values (take i vs) \<or> is_tautological_token_values (drop (i + 1) vs)))
       [0..<length vs]"

fun has_tautological_where_tokens :: "sql_token list \<Rightarrow> bool" where
  "has_tautological_where_tokens [] = False"
| "has_tautological_where_tokens (tok # where_tokens) =
     (if tk_ttype tok = tt_keyword \<and> tk_normalized tok = ''WHERE'' then
        (let rest = strip_text (rstrip_semicolons (strip_text
                 (concat (map tk_value (filter (\<lambda>t. \<not> is_comment t) where_tokens)))));
             normalized = filter (\<lambda>c. \<not> space_char c) (map lower_char (strip_balanced_parentheses rest));
             values = where_token_values where_tokens in
         normalized \<in> set tautological_patterns \<or> is_tautological_token_values values \<or> has_or_tautology values)
      else has_tautological_where_tokens where_tokens)"

definition has_tautological_where :: "sql_statement \<Rightarrow> bool" where
  "has_tautological_where st = has_tautological_where_tokens (st_flatten st)"


section \<open>Risk\<close>

record rate_limit_config =
  rl_enabled :: bool
  rl_requests_per_minute :: int
  rl_burst :: int

record sql_security_config =
  ss_max_rows :: int
  ss_timeout_ms :: int
  ss_max_timeout_ms :: int
  ss_blocked_keywords :: "string list"
  ss_confirmable_statement_types :: "string list"
  ss_rate_limit :: rate_limit_config

datatype sql_risk_level = SAFE | DESTRUCTIVE | BLOCKED

definition keyword_text :: "sql_statement list \<Rightarrow> string" where
  "keyword_text stmts = join_text '' '' (map tk_normalized
     (filter (\<lambda>tok. tk_ttype tok = tt_keyword \<or> tk_ttype tok = tt_ddl \<or> tk_ttype tok = tt_dml)
        (concat (map st_flatten stmts))))"

definition effective_type :: "sql_statement \<Rightarrow> string option" where
  "effective_type st = (case st_type st of
     Some t \<Rightarrow> Some t
   | None \<Rightarrow> map_option tk_normalized (find (\<lambda>tok. tk_ttype tok = tt_ddl \<or> tk_ttype tok = tt_dml) (st_flatten st)))"

definition statement_destructive :: "sql_security_config \<Rightarrow> sql_statement \<Rightarrow> bool" where
  "statement_destructive cfg st = (case effective_type st of
     None \<Rightarrow> False
   | Some t \<Rightarrow> t \<noteq> [] \<and> upper_text t \<in> set (map upper_text (ss_confirmable_statement_types cfg))
       \<and> \<not> (upper_text t = ''DELETE'' \<and> has_where_clause st \<and> \<not> has_tautological_where st))"

definition classify_sql_risk :: "sqlparse \<Rightarrow> sql_security_config \<Rightarrow> string \<Rightarrow> sql_risk_level" where
  "classify_sql_risk P cfg sql0 =
     (let sql = join_text ''; '' (statement_texts P sql0) in
      if sql = [] then SAFE
      else case sp_parse P sql of
        None \<Rightarrow> SAFE
      | Some stmts \<Rightarrow>
          if list_ex (\<lambda>kw. contains_text (upper_text kw) (keyword_text stmts)) (ss_blocked_keywords cfg) then BLOCKED
          else if list_ex (statement_destructive cfg) stmts then DESTRUCTIVE
          else SAFE)"

definition check_sql_safety :: "sqlparse \<Rightarrow> sql_security_config \<Rightarrow> string \<Rightarrow> string + unit" where
  "check_sql_safety P cfg sql =
     (case classify_sql_risk P cfg sql of SAFE \<Rightarrow> Inr () | _ \<Rightarrow> Inl ''BLOCKED_SQL'')"

definition should_add_comment_hint :: "sqlparse \<Rightarrow> string \<Rightarrow> bool" where
  "should_add_comment_hint P sql0 =
     (case sp_parse P (expand_executable_comments P sql0) of
        None \<Rightarrow> False
      | Some [] \<Rightarrow> False
      | Some (st # _) \<Rightarrow>
          (let found = find (\<lambda>tok. tk_ttype tok = tt_ddl) (st_flatten st);
               stmt_type = (if st_type st = None \<or> st_type st = Some ''UNKNOWN''
                            then (case found of Some tok \<Rightarrow> Some (tk_normalized tok) | None \<Rightarrow> st_type st)
                            else st_type st);
               keywords = map (\<lambda>tok. upper_text (tk_normalized tok))
                 (filter (\<lambda>tok. tk_ttype tok = tt_keyword \<or> tk_ttype tok = tt_ddl \<or> tk_ttype tok = tt_dml)
                    (st_flatten st)) in
           case stmt_type of
             None \<Rightarrow> False
           | Some t \<Rightarrow>
               ((upper_text t = ''CREATE'' \<and> ''TABLE'' \<in> set keywords)
                \<or> (upper_text t = ''ALTER'' \<and> ''TABLE'' \<in> set keywords
                     \<and> (''ADD'' \<in> set keywords \<or> ''MODIFY'' \<in> set keywords)))
               \<and> ''COMMENT'' \<notin> set keywords))"

text \<open>\<open>_changes_database_context\<close>: some statement of the scanned text starts with \<open>USE\<close>.\<close>

definition changes_database_context :: "sqlparse \<Rightarrow> string \<Rightarrow> bool" where
  "changes_database_context P sql = (case sp_parse P (sql_code_for_session_scan sql) of
     None \<Rightarrow> False
   | Some stmts \<Rightarrow>
       list_ex (\<lambda>st. case find (\<lambda>tok. \<not> (tk_is_whitespace tok \<or> is_comment tok)) (st_flatten st) of
           None \<Rightarrow> False
         | Some tok \<Rightarrow> tk_ttype tok = tt_keyword \<and> tk_normalized tok = ''USE'') stmts)"


section \<open>Facts\<close>

lemma single_statement_some: "single_statement_text P sql = Some s \<longleftrightarrow> statement_texts P sql = [s]"
  by (auto simp: single_statement_text_def split: list.splits)

text \<open>What counts as read-only is exactly one statement, which the parser takes for a SELECT or which
  starts with one of four words.\<close>

lemma readonly_statement:
  assumes "is_readonly_sql P sql"
  obtains s where "statement_texts P sql = [s]"
    and "(\<exists>st sts. sp_parse P s = Some (st # sts) \<and> st_type st = Some ''SELECT'')
      \<or> first_executable_token P s \<in> Some ` {''SHOW'', ''DESCRIBE'', ''DESC'', ''EXPLAIN''}"
  using assms
  by (auto simp: is_readonly_sql_def is_select_def single_statement_some split: option.splits list.splits)

lemma expand_silent: "sp_parse P sql = None \<Longrightarrow> expand_executable_comments P sql = sql"
  by (simp add: expand_executable_comments_def)


subsection \<open>Conditions that are always true\<close>

abbreviation comparison :: "string \<Rightarrow> bool" where
  "comparison v \<equiv> v = ''='' \<or> v = ''<=>''"

text \<open>An expression as the values of its tokens: no comparison, no literal, no parenthesis at an end.\<close>

definition plain_operand :: "string list \<Rightarrow> bool" where
  "plain_operand e = (e \<noteq> [] \<and> hd e \<noteq> ''('' \<and> last e \<noteq> '')'' \<and> ''?'' \<notin> set e \<and> list_all (\<lambda>v. \<not> comparison v) e)"

definition self_comparison :: "nat \<Rightarrow> nat \<Rightarrow> string \<Rightarrow> string list \<Rightarrow> string list" where
  "self_comparison m n v e = replicate m ''('' @ e @ [v] @ e @ replicate n '')''"

lemma dropWhile_replicate_append: "P x \<Longrightarrow> dropWhile P (replicate n x @ ys) = dropWhile P ys"
  by (induction n) auto

lemma strip_edge_self:
  assumes "plain_operand e"
  shows "strip_edge_parentheses (self_comparison m n v e) = e @ [v] @ e"
proof -
  have e: "e \<noteq> []" "hd e \<noteq> ''(''" "last e \<noteq> '')''" using assms by (auto simp: plain_operand_def)
  have "dropWhile (\<lambda>v. v = ''('') (replicate m ''('' @ e @ [v] @ e @ replicate n '')'') = e @ [v] @ e @ replicate n '')''"
    using e by (cases e) (auto simp: dropWhile_replicate_append)
  moreover have "dropWhile (\<lambda>v. v = '')'') (replicate n '')'' @ rev (e @ [v] @ e)) = rev (e @ [v] @ e)"
    using e by (cases e rule: rev_cases) (auto simp: dropWhile_replicate_append)
  ultimately show ?thesis by (simp add: strip_edge_parentheses_def self_comparison_def)
qed

lemma self_comparison_tautological:
  assumes "plain_operand e" and "comparison v"
  shows "is_tautological_token_values (self_comparison m n v e)"
proof -
  have no: "filter comparison e = []" "takeWhile (\<lambda>v. v \<noteq> ''='' \<and> v \<noteq> ''<=>'') (e @ x) = e @ takeWhile (\<lambda>v. v \<noteq> ''='' \<and> v \<noteq> ''<=>'') x"
    "dropWhile (\<lambda>v. v \<noteq> ''='' \<and> v \<noteq> ''<=>'') (e @ x) = dropWhile (\<lambda>v. v \<noteq> ''='' \<and> v \<noteq> ''<=>'') x" for x
    using assms(1) by (auto simp: plain_operand_def list_all_iff filter_empty_conv takeWhile_append2 dropWhile_append2)
  have "e \<noteq> []" "''?'' \<notin> set e" using assms(1) by (auto simp: plain_operand_def)
  with assms(2) no show ?thesis
    by (auto simp: is_tautological_token_values_def strip_edge_self [OF assms(1)] Let_def)
qed

text \<open>A condition as its disjuncts.\<close>

fun or_join :: "string list list \<Rightarrow> string list" where
  "or_join [] = []"
| "or_join [d] = d"
| "or_join (d # e # ds) = d @ ''or'' # or_join (e # ds)"

lemma has_or_tautology_split:
  "has_or_tautology vs \<longleftrightarrow>
    (\<exists>l r. vs = l @ ''or'' # r \<and> (is_tautological_token_values l \<or> is_tautological_token_values r))"
proof
  assume "has_or_tautology vs"
  then obtain i where i: "i < length vs" "vs ! i = ''or''"
    "is_tautological_token_values (take i vs) \<or> is_tautological_token_values (drop (i + 1) vs)"
    by (auto simp: has_or_tautology_def list_ex_iff)
  then have "vs = take i vs @ ''or'' # drop (i + 1) vs" by (metis Suc_eq_plus1 id_take_nth_drop)
  with i(3) show "\<exists>l r. vs = l @ ''or'' # r \<and> (is_tautological_token_values l \<or> is_tautological_token_values r)"
    by blast
next
  assume "\<exists>l r. vs = l @ ''or'' # r \<and> (is_tautological_token_values l \<or> is_tautological_token_values r)"
  then obtain l r where "vs = l @ ''or'' # r" "is_tautological_token_values l \<or> is_tautological_token_values r"
    by blast
  then show "has_or_tautology vs"
    by (auto simp: has_or_tautology_def list_ex_iff nth_append intro!: bexI [of _ "length l"])
qed

lemma or_join_last: "ds \<noteq> [] \<Longrightarrow> \<exists>l. or_join (ds @ [d]) = l @ ''or'' # d"
proof (induction ds rule: or_join.induct)
  case (3 a b ds)
  then obtain l where "or_join ((b # ds) @ [d]) = l @ ''or'' # d" by auto
  then have "or_join ((a # b # ds) @ [d]) = (a @ ''or'' # l) @ ''or'' # d" by simp
  then show ?case by blast
qed auto

lemma edge_disjunct:
  assumes "2 \<le> length ds" and "is_tautological_token_values (hd ds) \<or> is_tautological_token_values (last ds)"
  shows "has_or_tautology (or_join ds)"
  using assms(2)
proof
  assume first: "is_tautological_token_values (hd ds)"
  from assms(1) obtain a b xs where "ds = a # b # xs" by (cases ds; cases "tl ds") auto
  with first show ?thesis by (auto simp: has_or_tautology_split)
next
  assume last: "is_tautological_token_values (last ds)"
  from assms(1) obtain xs d where ds: "ds = xs @ [d]" "xs \<noteq> []" by (cases ds rule: rev_cases) fastforce+
  with or_join_last [OF ds(2)] last show ?thesis by (fastforce simp: has_or_tautology_split)
qed

lemma tautological_where_tokens:
  assumes "list_all (\<lambda>t. \<not> (tk_ttype t = tt_keyword \<and> tk_normalized t = ''WHERE'')) pre"
    and "tk_ttype w = tt_keyword" and "tk_normalized w = ''WHERE''"
    and "is_tautological_token_values (where_token_values toks) \<or> has_or_tautology (where_token_values toks)"
  shows "has_tautological_where_tokens (pre @ w # toks)"
  using assms(1) by (induction pre) (use assms(2-) in \<open>auto simp: Let_def\<close>)

text \<open>a DELETE asks for confirmation when its condition is a disjunction whose first or last
  disjunct compares an expression with itself, with \<open>=\<close> or \<open><=>\<close>, in any number of parentheses; so
  does one whose whole condition is such a comparison.\<close>

theorem self_comparison_needs_confirmation:
  assumes "st_flatten st = pre @ w # toks"
    and "list_all (\<lambda>t. \<not> (tk_ttype t = tt_keyword \<and> tk_normalized t = ''WHERE'')) pre"
    and "tk_ttype w = tt_keyword" and "tk_normalized w = ''WHERE''"
    and "where_token_values toks = or_join ds" and "ds \<noteq> []"
    and "hd ds = self_comparison m n v e \<or> last ds = self_comparison m n v e"
    and "plain_operand e" and "comparison v"
    and "st_type st = Some t" and "upper_text t = ''DELETE''"
    and "''DELETE'' \<in> set (map upper_text (ss_confirmable_statement_types cfg))"
  shows "statement_destructive cfg st"
proof -
  have taut: "is_tautological_token_values (hd ds) \<or> is_tautological_token_values (last ds)"
    using self_comparison_tautological [OF assms(8,9)] assms(7) by metis
  have "is_tautological_token_values (or_join ds) \<or> has_or_tautology (or_join ds)"
  proof (cases "2 \<le> length ds")
    case True
    then show ?thesis using edge_disjunct taut by blast
  next
    case False
    then obtain d where "ds = [d]" using assms(6) by (cases ds; cases "tl ds") auto
    then show ?thesis using taut by simp
  qed
  then have "has_tautological_where st"
    using tautological_where_tokens [OF assms(2-4)] assms(1,5) by (simp add: has_tautological_where_def)
  moreover have "t \<noteq> []" using assms(11) by auto
  ultimately show ?thesis
    using assms(10-12) by (auto simp: statement_destructive_def effective_type_def)
qed

text \<open>Tokens as the parser gives them for \<open>DELETE FROM t WHERE ...\<close>.\<close>

definition name_token :: "string \<Rightarrow> sql_token" where
  "name_token v = \<lparr>tk_ttype = [''Name''], tk_value = v, tk_normalized = v, tk_is_whitespace = False\<rparr>"

definition operator_token :: "string \<Rightarrow> sql_token" where
  "operator_token v = \<lparr>tk_ttype = [''Operator'', ''Comparison''], tk_value = v, tk_normalized = v, tk_is_whitespace = False\<rparr>"

definition keyword_token :: "string \<Rightarrow> sql_token" where
  "keyword_token v = \<lparr>tk_ttype = tt_keyword, tk_value = v, tk_normalized = v, tk_is_whitespace = False\<rparr>"

definition blank_token :: sql_token where
  "blank_token = \<lparr>tk_ttype = [''Text'', ''Whitespace''], tk_value = '' '', tk_normalized = '' '', tk_is_whitespace = True\<rparr>"

definition delete_prefix :: "sql_token list" where
  "delete_prefix = [keyword_token ''DELETE'' \<lparr>tk_ttype := tt_dml\<rparr>, blank_token, keyword_token ''FROM'', blank_token,
     name_token ''t'', blank_token]"

definition equation_tokens :: "string \<Rightarrow> string \<Rightarrow> sql_token list" where
  "equation_tokens a b = [name_token a, blank_token, operator_token ''='', blank_token, name_token b]"

definition delete_statement :: "sql_token list \<Rightarrow> sql_statement" where
  "delete_statement cond = \<lparr>st_flatten = delete_prefix @ keyword_token ''WHERE'' # blank_token # cond, st_type = Some ''DELETE''\<rparr>"

definition or_tokens :: "sql_token list" where
  "or_tokens = [blank_token, keyword_token ''OR'', blank_token]"

definition default_sql_security :: sql_security_config where
  "default_sql_security = \<lparr>ss_max_rows = 1000, ss_timeout_ms = 10000, ss_max_timeout_ms = 30000,
     ss_blocked_keywords = [''DROP DATABASE''], ss_confirmable_statement_types = [''DROP'', ''TRUNCATE'', ''ALTER'', ''DELETE''],
     ss_rate_limit = \<lparr>rl_enabled = True, rl_requests_per_minute = 60, rl_burst = 10\<rparr>\<rparr>"

lemmas delete_example_defs = delete_statement_def delete_prefix_def equation_tokens_def or_tokens_def
  name_token_def operator_token_def keyword_token_def blank_token_def

theorem self_comparison_needs_confirmation_witness:
  "statement_destructive default_sql_security
     (delete_statement (equation_tokens ''a'' ''1'' @ or_tokens @ equation_tokens ''b'' ''b''))"
proof (rule self_comparison_needs_confirmation
    [of _ delete_prefix "keyword_token ''WHERE''" "blank_token # equation_tokens ''a'' ''1'' @ or_tokens @ equation_tokens ''b'' ''b''"
      "[[''a'', ''='', ''1''], self_comparison 0 0 ''='' [''b'']]" 0 0 "''=''" "[''b'']" "''DELETE''"])
qed (simp_all add: delete_example_defs where_token_values_def is_comment_def is_semicolon_def ttype_in_def
    self_comparison_def plain_operand_def default_sql_security_def lower_char_code upper_char_def)

text \<open>conditions that hold for every row and are not recognised: a self comparison between two other
  disjuncts, the conjunction of two self comparisons, a literal compared with itself. Such a DELETE
  runs without confirmation.\<close>

theorem always_true_conditions_missed:
  "\<not> statement_destructive default_sql_security
       (delete_statement (equation_tokens ''a'' ''1'' @ or_tokens @ equation_tokens ''b'' ''b'' @ or_tokens @ equation_tokens ''c'' ''2''))
   \<and> \<not> statement_destructive default_sql_security
       (delete_statement (equation_tokens ''1'' ''1'' @ [blank_token, keyword_token ''AND'', blank_token] @ equation_tokens ''1'' ''1''))
   \<and> \<not> statement_destructive default_sql_security
       (delete_statement [name_token ''x'' \<lparr>tk_ttype := tt_string\<rparr>, operator_token ''='', name_token ''x'' \<lparr>tk_ttype := tt_string\<rparr>])"
  by code_simp

end
