(* ===== verification/SQL_Gateway.thy ===== *)
theory SQL_Gateway
  imports SQL_Statements
begin

text \<open>
  The execution of SQL on a leased connection (\<open>core/sql_gateway.py\<close>, class \<open>SQLGateway\<close>): what is
  sent, what is returned, which error the caller sees, and whether the connection may be reused.

  The database server is a parameter: a function from a statement, its bound parameter and the state
  of the session to an answer and the next state. Rows are those of \<open>_json_safe_rows\<close>, which
  renders every cell and keeps the rows; the cursor that \<open>encode_cursor\<close> writes is the offset in it.
  Cancellation and the timeout of \<open>asyncio.wait_for\<close> arrive at an awaited statement and are
  answers here.

  Shown: a connection that is given back has no open transaction and no branch of an earlier caller,
  as long as the scan of the statement sees every assignment of the branch (it does not: the last
  section has a run in which a branch leaks); a transaction returns the results of all its statements,
  committed; the pages of a query without LIMIT cover its result, and those of a query with a LIMIT
  never end.
\<close>

section \<open>Servers and answers\<close>

text \<open>\<open>Execution\<close> is an \<open>SQLExecutionError\<close> with its code; \<open>DriverError\<close> is any other exception, with the
  number that is its first argument.\<close>

datatype exn = DriverError "int option" | TimedOut | Cancelled | Execution string

datatype 'r reply = Answered "string list" "'r list" | Raised exn

type_synonym ('s, 'r) server = "string \<Rightarrow> string option \<Rightarrow> 's \<Rightarrow> 'r reply \<times> 's"

datatype 'a outcome = Returned 'a | Failed string | WasCancelled

text \<open>How a call ends: what the caller gets, the session, and the \<open>discard\<close> of the release
  (\<open>None\<close>: the release is not reached).\<close>

record ('a, 's) gateway_end =
  ge_outcome :: "'a outcome"
  ge_session :: 's
  ge_released :: "bool option"

record 'r query_result =
  qr_columns :: "string list"
  qr_rows :: "'r list"
  qr_row_count :: int
  qr_truncated :: bool
  qr_next_cursor :: "int option"

definition sanitized_sql_error :: "int option \<Rightarrow> string" where
  "sanitized_sql_error code = (if code = Some 1046 then ''DATABASE_REQUIRED'' else ''SQL_ERROR'')"

definition exec_simple :: "('s, 'r) server \<Rightarrow> string \<Rightarrow> string option \<Rightarrow> 's \<Rightarrow> exn option \<times> 's" where
  "exec_simple srv sql params s =
     (case srv sql params s of (Answered _ _, s') \<Rightarrow> (None, s') | (Raised e, s') \<Rightarrow> (Some e, s'))"

text \<open>\<open>xs[:n]\<close>\<close>

definition py_take :: "int \<Rightarrow> 'a list \<Rightarrow> 'a list" where
  "py_take n xs = (if 0 \<le> n then take (nat n) xs else take (length xs - nat (- n)) xs)"

definition execute_query ::
    "('s, 'r) server \<Rightarrow> string \<Rightarrow> int \<Rightarrow> int \<Rightarrow> 's \<Rightarrow> (exn + 'r query_result) \<times> 's" where
  "execute_query srv sql max_rows offset s =
     (case srv sql None s of
        (Raised e, s') \<Rightarrow> (Inl e, s')
      | (Answered columns rows, s') \<Rightarrow>
          let truncated = (max_rows < int (length rows));
              rows_list = (if truncated then py_take max_rows rows else rows) in
          (Inr \<lparr>qr_columns = columns, qr_rows = rows_list, qr_row_count = int (length rows_list),
                qr_truncated = truncated, qr_next_cursor = (if truncated then Some (offset + max_rows) else None)\<rparr>, s'))"

text \<open>The exception that leaves the \<open>except\<close> clauses.\<close>

fun failure :: "exn \<Rightarrow> 'a outcome" where
  "failure TimedOut = Failed ''TIMEOUT''"
| "failure (Execution code) = Failed code"
| "failure Cancelled = WasCancelled"
| "failure (DriverError code) = Failed (sanitized_sql_error code)"

lemma failure_not_returned [simp]: "failure e \<noteq> Returned x" "Returned x \<noteq> failure e"
  by (cases e; simp)+

text \<open>\<open>_acquire\<close>: what the caller sees when no connection can be leased.\<close>

fun acquire_failure :: "exn \<Rightarrow> 'a outcome" where
  "acquire_failure Cancelled = WasCancelled"
| "acquire_failure (Execution code) = Failed code"
| "acquire_failure _ = Failed ''CONNECTION_ERROR''"


section \<open>One statement\<close>

record gateway_call =
  gc_sql :: string
  gc_max_rows :: int
  gc_offset :: int
  gc_branch :: "string option"

abbreviation read_write_sql :: string where "read_write_sql \<equiv> ''SET SESSION TRANSACTION READ WRITE''"
abbreviation set_branch_sql :: string where "set_branch_sql \<equiv> ''SET @@session.branch = %s''"
definition reset_branch_sql :: string where "reset_branch_sql = ''SET @@session.branch = '' @ [single_quote, single_quote]"

definition max_execution_sql :: "sql_security_config \<Rightarrow> string" where
  "max_execution_sql cfg = ''SET max_execution_time='' @ int_text (ss_timeout_ms cfg)"

definition touches_session :: "sqlparse \<Rightarrow> string \<Rightarrow> bool" where
  "touches_session P sql = (changes_database_context P sql \<or> mentions_session_branch sql)"

text \<open>The body of the \<open>try\<close>: its result, whether the branch was set, and the session.\<close>

definition execute_body :: "sqlparse \<Rightarrow> sql_security_config \<Rightarrow> ('s, 'r) server \<Rightarrow> gateway_call \<Rightarrow> 's
    \<Rightarrow> (exn + 'r query_result) \<times> bool \<times> 's" where
  "execute_body P cfg srv call s =
     (case exec_simple srv read_write_sql None s of
        (Some e, s1) \<Rightarrow> (Inl e, False, s1)
      | (None, s1) \<Rightarrow>
        (case (case gc_branch call of None \<Rightarrow> (None, s1) | Some b \<Rightarrow> exec_simple srv set_branch_sql (Some b) s1) of
           (Some e, s2) \<Rightarrow> (Inl e, False, s2)
         | (None, s2) \<Rightarrow>
           let branch_set = (gc_branch call \<noteq> None) in
           (case (if is_select P (gc_sql call) then exec_simple srv (max_execution_sql cfg) None s2 else (None, s2)) of
              (Some e, s3) \<Rightarrow> (Inl e, branch_set, s3)
            | (None, s3) \<Rightarrow>
              (case execute_query srv (apply_pagination P (gc_sql call) (gc_max_rows call + 1) (gc_offset call))
                      (gc_max_rows call) (gc_offset call) s3 of
                 (r, s4) \<Rightarrow> (r, branch_set, s4)))))"

definition gateway_execute :: "sqlparse \<Rightarrow> sql_security_config \<Rightarrow> ('s, 'r) server \<Rightarrow> gateway_call \<Rightarrow> 's
    \<Rightarrow> ('r query_result, 's) gateway_end" where
  "gateway_execute P cfg srv call s =
     (case execute_body P cfg srv call s of (r, branch_set, s1) \<Rightarrow>
        let outcome = (case r of Inl e \<Rightarrow> failure e | Inr x \<Rightarrow> Returned x);
            discard = (touches_session P (gc_sql call) \<or> isl r) in
        if branch_set \<and> \<not> discard then
          (case exec_simple srv reset_branch_sql None s1 of
             (None, s2) \<Rightarrow> \<lparr>ge_outcome = outcome, ge_session = s2, ge_released = Some False\<rparr>
           | (Some Cancelled, s2) \<Rightarrow> \<lparr>ge_outcome = WasCancelled, ge_session = s2, ge_released = None\<rparr>
           | (Some e, s2) \<Rightarrow> \<lparr>ge_outcome = outcome, ge_session = s2, ge_released = Some True\<rparr>)
        else \<lparr>ge_outcome = outcome, ge_session = s1, ge_released = Some discard\<rparr>)"

text \<open>\<open>execute_parameterized\<close>, for statements of the server itself: columns and rows.\<close>

definition execute_parameterized ::
    "('s, 'r) server \<Rightarrow> string \<Rightarrow> string \<Rightarrow> 's \<Rightarrow> (string list \<times> 'r list, 's) gateway_end" where
  "execute_parameterized srv sql params s =
     (case srv sql (Some params) s of
        (Answered columns rows, s') \<Rightarrow> \<lparr>ge_outcome = Returned (columns, rows), ge_session = s', ge_released = Some False\<rparr>
      | (Raised e, s') \<Rightarrow> \<lparr>ge_outcome = failure e, ge_session = s', ge_released = Some True\<rparr>)"


section \<open>A transaction\<close>

fun run_statements :: "('s, 'r) server \<Rightarrow> string list \<Rightarrow> 's \<Rightarrow> (exn + 'r query_result list) \<times> 's" where
  "run_statements srv [] s = (Inr [], s)"
| "run_statements srv (stmt # rest) s =
     (case execute_query srv stmt 1000 0 s of
        (Inl e, s1) \<Rightarrow> (Inl e, s1)
      | (Inr r, s1) \<Rightarrow>
        (case run_statements srv rest s1 of
           (Inl e, s2) \<Rightarrow> (Inl e, s2)
         | (Inr rs, s2) \<Rightarrow> (Inr (r # rs), s2)))"

definition run_transaction :: "('s, 'r) server \<Rightarrow> string list \<Rightarrow> 's \<Rightarrow> (exn + 'r query_result list) \<times> 's" where
  "run_transaction srv stmts s =
     (case exec_simple srv ''BEGIN'' None s of
        (Some e, s1) \<Rightarrow> (Inl e, s1)
      | (None, s1) \<Rightarrow>
        (case run_statements srv stmts s1 of
           (Inl e, s2) \<Rightarrow> (Inl e, s2)
         | (Inr rs, s2) \<Rightarrow>
           (case exec_simple srv ''COMMIT'' None s2 of
              (Some e, s3) \<Rightarrow> (Inl e, s3)
            | (None, s3) \<Rightarrow> (Inr rs, s3))))"

text \<open>The body of the \<open>try\<close>, then the handlers: each sends \<open>ROLLBACK\<close>; only after a rollback that
  succeeded, and not after a timeout or a cancellation, the connection may be kept. A cancellation
  during the rollback replaces the error.\<close>

definition transaction_body :: "('s, 'r) server \<Rightarrow> string list \<Rightarrow> 's \<Rightarrow> (exn + 'r query_result list) \<times> 's" where
  "transaction_body srv stmts s =
     (case exec_simple srv read_write_sql None s of
        (Some e, s1) \<Rightarrow> (Inl e, s1)
      | (None, s1) \<Rightarrow> run_transaction srv stmts s1)"

definition execute_transaction :: "sqlparse \<Rightarrow> ('s, 'r) server \<Rightarrow> string list \<Rightarrow> 's
    \<Rightarrow> ('r query_result list, 's) gateway_end" where
  "execute_transaction P srv stmts s =
     (let touched = list_ex (touches_session P) stmts in
      case transaction_body srv stmts s of
        (Inr rs, s1) \<Rightarrow> \<lparr>ge_outcome = Returned rs, ge_session = s1, ge_released = Some touched\<rparr>
      | (Inl e, s1) \<Rightarrow>
        (case exec_simple srv ''ROLLBACK'' None s1 of
           (Some Cancelled, s2) \<Rightarrow> \<lparr>ge_outcome = WasCancelled, ge_session = s2, ge_released = Some True\<rparr>
         | (rolled_back, s2) \<Rightarrow> \<lparr>ge_outcome = failure e, ge_session = s2,
             ge_released = Some (if e = TimedOut \<or> e = Cancelled \<or> rolled_back \<noteq> None then True else touched)\<rparr>))"



section \<open>Statements that are all answered\<close>

fun answered_all :: "('s, 'r) server \<Rightarrow> string list \<Rightarrow> 's \<Rightarrow> 's option" where
  "answered_all srv [] s = Some s"
| "answered_all srv (q # qs) s =
     (case srv q None s of (Answered _ _, s') \<Rightarrow> answered_all srv qs s' | (Raised _, s') \<Rightarrow> None)"

text \<open>The statements a release sends before the connection is stored (\<open>core/connection_cache.py\<close>).\<close>

definition reset_session :: "('s, 'r) server \<Rightarrow> 's \<Rightarrow> 's option" where
  "reset_session srv s = answered_all srv [''ROLLBACK'', read_write_sql, ''SET autocommit=1''] s"

lemma answered_all_append:
  "answered_all srv (xs @ ys) s = Option.bind (answered_all srv xs s) (answered_all srv ys)"
  by (induction xs arbitrary: s) (auto split: prod.splits reply.splits)

lemma exec_simple_None: "exec_simple srv q None s = (None, s') \<longleftrightarrow> answered_all srv [q] s = Some s'"
  by (auto simp: exec_simple_def split: prod.splits reply.splits)

lemma exec_simple_Some: "exec_simple srv q None s = (Some e, s') \<Longrightarrow> answered_all srv (q # qs) s = None"
  by (auto simp: exec_simple_def split: prod.splits reply.splits)

lemma execute_query_Inl: "execute_query srv q m k s = (Inl e, s') \<Longrightarrow> answered_all srv (q # qs) s = None"
  by (auto simp: execute_query_def Let_def split: prod.splits reply.splits)

lemma execute_query_Inr: "execute_query srv q m k s = (Inr r, s') \<Longrightarrow> answered_all srv [q] s = Some s'"
  by (auto simp: execute_query_def Let_def split: prod.splits reply.splits)

lemma run_statements_answered:
  "case run_statements srv stmts s of
     (Inl e, s') \<Rightarrow> answered_all srv stmts s = None
   | (Inr rs, s') \<Rightarrow> answered_all srv stmts s = Some s' \<and> length rs = length stmts"
proof (induction stmts arbitrary: s)
  case (Cons q qs)
  obtain r s1 where r: "execute_query srv q 1000 0 s = (r, s1)" by fastforce
  show ?case
  proof (cases r)
    case (Inl e)
    then show ?thesis using r execute_query_Inl [of srv q 1000 0 s e s1 qs] by simp
  next
    case (Inr x)
    then have "answered_all srv (q # qs) s = answered_all srv qs s1"
      using execute_query_Inr [of srv q 1000 0 s x s1] r answered_all_append [of srv "[q]" qs s] by simp
    then show ?thesis using Cons.IH [of s1] r Inr by (auto split: prod.splits sum.splits)
  qed
qed simp

lemma transaction_body_answered:
  "case transaction_body srv stmts s of
     (Inl e, s') \<Rightarrow> answered_all srv ([read_write_sql, ''BEGIN''] @ stmts @ [''COMMIT'']) s = None
   | (Inr rs, s') \<Rightarrow> answered_all srv ([read_write_sql, ''BEGIN''] @ stmts @ [''COMMIT'']) s = Some s' \<and> length rs = length stmts"
proof -
  note bits = exec_simple_def answered_all_append
  obtain a1 s1 where a1: "srv read_write_sql None s = (a1, s1)" by fastforce
  obtain a2 s2 where a2: "srv ''BEGIN'' None s1 = (a2, s2)" by fastforce
  obtain r s3 where r: "run_statements srv stmts s2 = (r, s3)" by fastforce
  obtain a4 s4 where a4: "srv ''COMMIT'' None s3 = (a4, s4)" by fastforce
  show ?thesis
    using run_statements_answered [of srv stmts s2] a1 a2 r a4
    by (cases a1; cases a2; cases r; cases a4) (simp_all add: transaction_body_def run_transaction_def bits)
qed

text \<open>C13: a transaction returns exactly when the server has answered all of it, in order and up to the
  \<open>COMMIT\<close>, with one result for each statement; the connection is always given back, and it is
  given back for reuse only with no transaction open and after statements that do not touch the
  session.\<close>

theorem transaction_all_or_closed:
  fixes open_txn :: "'s \<Rightarrow> bool" and srv :: "('s, 'r) server" and P :: sqlparse and stmts :: "string list" and s :: 's
  assumes "\<And>q s cols rows s'. q \<in> {''COMMIT'', ''ROLLBACK''} \<Longrightarrow> srv q None s = (Answered cols rows, s') \<Longrightarrow> \<not> open_txn s'"
  defines "final \<equiv> execute_transaction P srv stmts s"
    and "sent \<equiv> [read_write_sql, ''BEGIN''] @ stmts @ [''COMMIT'']"
  shows "(case ge_outcome final of
        Returned rs \<Rightarrow> answered_all srv sent s = Some (ge_session final) \<and> length rs = length stmts
      | _ \<Rightarrow> answered_all srv sent s = None)
    \<and> ge_released final \<noteq> None
    \<and> (ge_released final = Some False \<longrightarrow> \<not> open_txn (ge_session final) \<and> \<not> list_ex (touches_session P) stmts)"
proof -
  obtain r s1 where r: "transaction_body srv stmts s = (r, s1)" by fastforce
  obtain b s2 where b: "exec_simple srv ''ROLLBACK'' None s1 = (b, s2)" by fastforce
  have rolled: "b = None \<Longrightarrow> \<not> open_txn s2"
    using b by (auto simp: exec_simple_def dest: assms(1) [rotated] split: prod.splits reply.splits)
  show ?thesis
  proof (cases r)
    case (Inl e)
    then have "answered_all srv sent s = None" using transaction_body_answered [of srv stmts s] r by (simp add: sent_def)
    then show ?thesis
      unfolding final_def execute_transaction_def Let_def using r b Inl rolled
      by (cases b; cases "the b"; cases "failure e :: 'r query_result list outcome") auto
  next
    case (Inr rs)
    then have all: "answered_all srv sent s = Some s1" "length rs = length stmts"
      using transaction_body_answered [of srv stmts s] r by (simp_all add: sent_def)
    moreover have "sent = ([read_write_sql, ''BEGIN''] @ stmts) @ [''COMMIT'']" by (simp add: sent_def)
    ultimately have "Option.bind (answered_all srv ([read_write_sql, ''BEGIN''] @ stmts) s) (answered_all srv [''COMMIT'']) = Some s1"
      using answered_all_append [of srv "[read_write_sql, ''BEGIN''] @ stmts" "[''COMMIT'']" s] by (simp only:)
    then obtain m where "answered_all srv [''COMMIT''] m = Some s1" by (auto simp only: bind_eq_Some_conv)
    then have "\<not> open_txn s1" by (auto dest: assms(1) [rotated] split: prod.splits reply.splits)
    then show ?thesis using r Inr all by (simp add: final_def execute_transaction_def Let_def)
  qed
qed

text \<open>A server that counts transactions: the state is whether one is open.\<close>

definition txn_server :: "(bool, nat) server" where
  "txn_server q p s = (Answered [] [], q = ''BEGIN'')"

definition plain_parser :: sqlparse where
  "plain_parser = \<lparr>sp_parse = (\<lambda>s. Some [\<lparr>st_flatten = [\<lparr>tk_ttype = [''Name''], tk_value = s, tk_normalized = s, tk_is_whitespace = False\<rparr>],
     st_type = Some ''SELECT''\<rparr>]), sp_split = (\<lambda>s. Some [s])\<rparr>"

theorem transaction_all_or_closed_witness:
  "ge_released (execute_transaction plain_parser txn_server [''INSERT''] True) = Some False
    \<and> \<not> ge_session (execute_transaction plain_parser txn_server [''INSERT''] True)"
proof -
  have "ge_released (execute_transaction plain_parser txn_server [''INSERT''] True) = Some False"
    by code_simp
  with transaction_all_or_closed [where srv = txn_server and open_txn = "\<lambda>s. s" and P = plain_parser and stmts = "[''INSERT'']" and s = True]
  show ?thesis by (auto simp: txn_server_def)
qed



section \<open>The branch of a session\<close>

text \<open>
  Calls of one user on one instance and database, one after the other, through the cache: each gets
  the idle connection or a new one, and the connection is kept if the call gives it back for reuse
  and the statements of the release are answered. The result has the session each call starts with.
\<close>

fun gateway_run :: "sqlparse \<Rightarrow> sql_security_config \<Rightarrow> ('s, 'r) server \<Rightarrow> 's \<Rightarrow> gateway_call list \<Rightarrow> 's option
    \<Rightarrow> ('s \<times> 'r query_result outcome) list" where
  "gateway_run P cfg srv opened [] idle = []"
| "gateway_run P cfg srv opened (call # calls) idle =
     (let s = (case idle of Some x \<Rightarrow> x | None \<Rightarrow> opened);
          final = gateway_execute P cfg srv call s in
      (s, ge_outcome final)
        # gateway_run P cfg srv opened calls
            (if ge_released final = Some False then reset_session srv (ge_session final) else None))"

text \<open>What is asked of the server: it changes the branch only by statements that assign it, and the
  statement that clears the branch does.\<close>

definition branch_semantics :: "('s, 'r) server \<Rightarrow> ('s \<Rightarrow> string) \<Rightarrow> (string \<Rightarrow> bool) \<Rightarrow> sql_security_config \<Rightarrow> bool" where
  "branch_semantics srv branch_of assigns cfg =
     ((\<forall>q p s. \<not> assigns q \<longrightarrow> branch_of (snd (srv q p s)) = branch_of s)
      \<and> (\<forall>s cols rows s'. srv reset_branch_sql None s = (Answered cols rows, s') \<longrightarrow> branch_of s' = [])
      \<and> (\<forall>q \<in> {''ROLLBACK'', read_write_sql, ''SET autocommit=1'', max_execution_sql cfg}. \<not> assigns q))"

lemma answered_all_branch:
  assumes "branch_semantics srv branch_of assigns cfg" and "\<forall>q \<in> set qs. \<not> assigns q"
    and "answered_all srv qs s = Some s'"
  shows "branch_of s' = branch_of s"
  using assms(2,3)
proof (induction qs arbitrary: s)
  case (Cons q qs)
  obtain a s1 where a: "srv q None s = (a, s1)" by fastforce
  then have "branch_of s1 = branch_of s" using assms(1) Cons.prems(1) by (simp add: branch_semantics_def) (metis snd_conv)
  with Cons a show ?case by (auto split: reply.splits)
qed simp

lemma exec_simple_branch:
  assumes "branch_semantics srv branch_of assigns cfg" and "\<not> assigns q" and "exec_simple srv q p s = (x, s')"
  shows "branch_of s' = branch_of s"
proof -
  have "branch_of (snd (srv q p s)) = branch_of s" using assms(1,2) by (simp add: branch_semantics_def)
  then show ?thesis using assms(3) by (auto simp: exec_simple_def split: prod.splits reply.splits)
qed

lemma execute_query_branch:
  assumes "branch_semantics srv branch_of assigns cfg" and "\<not> assigns q" and "execute_query srv q m k s = (x, s')"
  shows "branch_of s' = branch_of s"
proof -
  have "branch_of (snd (srv q None s)) = branch_of s" using assms(1,2) by (simp add: branch_semantics_def)
  then show ?thesis using assms(3) by (auto simp: execute_query_def Let_def split: prod.splits reply.splits)
qed

text \<open>Without a branch argument the session keeps its branch, unless the statement itself assigns one.\<close>

lemma execute_body_branch:
  assumes sem: "branch_semantics srv branch_of assigns cfg" and none: "gc_branch call = None"
    and quiet: "\<not> assigns (apply_pagination P (gc_sql call) (gc_max_rows call + 1) (gc_offset call))"
    and body: "execute_body P cfg srv call s = (r, b, s')"
  shows "branch_of s' = branch_of s"
proof -
  have own: "\<not> assigns read_write_sql" "\<not> assigns (max_execution_sql cfg)" using sem by (simp_all add: branch_semantics_def)
  obtain x1 s1 where x1: "exec_simple srv read_write_sql None s = (x1, s1)" by fastforce
  obtain x2 s2 where x2: "(if is_select P (gc_sql call) then exec_simple srv (max_execution_sql cfg) None s1 else (None, s1)) = (x2, s2)"
    by fastforce
  obtain x3 s3 where x3: "execute_query srv (apply_pagination P (gc_sql call) (gc_max_rows call + 1) (gc_offset call))
      (gc_max_rows call) (gc_offset call) s2 = (x3, s3)" by fastforce
  have "branch_of s1 = branch_of s" "branch_of s2 = branch_of s1" "branch_of s3 = branch_of s2"
    using exec_simple_branch [OF sem own(1) x1] exec_simple_branch [OF sem own(2), of None s1 x2 s2] x2
      execute_query_branch [OF sem quiet x3] by (auto split: if_splits)
  moreover have "s' \<in> {s1, s2, s3}" using body x1 x2 x3 none by (auto simp: execute_body_def split: option.splits)
  ultimately show ?thesis by auto
qed

lemma execute_released_branch:
  assumes sem: "branch_semantics srv branch_of assigns cfg" and "branch_of s = []"
    and seen: "assigns (apply_pagination P (gc_sql call) (gc_max_rows call + 1) (gc_offset call)) \<Longrightarrow> mentions_session_branch (gc_sql call)"
    and rel: "ge_released (gateway_execute P cfg srv call s) = Some False"
  shows "branch_of (ge_session (gateway_execute P cfg srv call s)) = []"
proof -
  obtain r b s1 where body: "execute_body P cfg srv call s = (r, b, s1)" by (cases "execute_body P cfg srv call s") auto
  have keep: "\<not> touches_session P (gc_sql call)" "\<not> isl r"
    using rel body by (auto simp: gateway_execute_def Let_def split: if_splits prod.splits option.splits exn.splits)
  then have quiet: "\<not> assigns (apply_pagination P (gc_sql call) (gc_max_rows call + 1) (gc_offset call))"
    using seen by (auto simp: touches_session_def)
  show ?thesis
  proof (cases b)
    case True
    obtain x s2 where x: "exec_simple srv reset_branch_sql None s1 = (x, s2)" by fastforce
    have "x = None" "ge_session (gateway_execute P cfg srv call s) = s2"
      using rel body x keep True by (auto simp: gateway_execute_def Let_def split: option.splits exn.splits)
    moreover have "x = None \<Longrightarrow> branch_of s2 = []"
    proof -
      assume "x = None"
      then obtain c w where a: "srv reset_branch_sql None s1 = (Answered c w, s2)"
        using x by (auto simp: exec_simple_def split: prod.splits reply.splits)
      then show ?thesis using sem unfolding branch_semantics_def by blast
    qed
    ultimately show ?thesis by simp
  next
    case False
    then have "gc_branch call = None" using body keep
      by (auto simp: execute_body_def Let_def split: prod.splits option.splits if_splits)
    then have "branch_of s1 = []" using execute_body_branch [OF sem _ quiet body] assms(2) by simp
    moreover have "ge_session (gateway_execute P cfg srv call s) = s1" using body False by (simp add: gateway_execute_def Let_def)
    ultimately show ?thesis by simp
  qed
qed

text \<open>C12: a branch does not leak from one call to the next. On a server that changes the branch of a
  session only by statements that assign it, if the scan sees every assignment in the statements
  sent, then every call of a sequence of \<open>execute\<close> calls starts on the main branch, whatever branches, errors, timeouts and
  cancellations the calls before it had.\<close>

theorem branch_does_not_leak:
  assumes "branch_semantics srv branch_of assigns cfg" and "branch_of opened = []"
    and "\<And>call. call \<in> set calls \<Longrightarrow> assigns (apply_pagination P (gc_sql call) (gc_max_rows call + 1) (gc_offset call))
      \<Longrightarrow> mentions_session_branch (gc_sql call)"
    and "(s, out) \<in> set (gateway_run P cfg srv opened calls None)"
  shows "branch_of s = []"
proof -
  have "\<forall>x \<in> set (gateway_run P cfg srv opened calls idle). branch_of (fst x) = []"
    if "\<forall>x. idle = Some x \<longrightarrow> branch_of x = []" for idle
    using that assms(3)
  proof (induction calls arbitrary: idle)
    case (Cons call calls)
    let ?s = "case idle of Some x \<Rightarrow> x | None \<Rightarrow> opened"
    let ?f = "gateway_execute P cfg srv call ?s"
    have start: "branch_of ?s = []" using Cons.prems(1) assms(2) by (auto split: option.splits)
    have "branch_of y = []" if "ge_released ?f = Some False" "reset_session srv (ge_session ?f) = Some y" for y
    proof -
      have "branch_of (ge_session ?f) = []"
        using execute_released_branch [OF assms(1) start _ that(1)] Cons.prems(2) by simp
      moreover have "branch_of y = branch_of (ge_session ?f)"
        by (rule answered_all_branch [OF assms(1) _ that(2) [unfolded reset_session_def]])
          (use assms(1) in \<open>simp add: branch_semantics_def\<close>)
      ultimately show ?thesis by simp
    qed
    then show ?case using Cons.IH Cons.prems(2) start by (auto simp: Let_def)
  qed simp
  from this [of None] assms(4) show ?thesis by force
qed

text \<open>A server whose state is the branch; \<open>touch\<close> is a statement of the caller that assigns it.\<close>

definition branch_server :: "string \<Rightarrow> (string, nat) server" where
  "branch_server touch q p s = (Answered [] [],
     if q = set_branch_sql then (case p of Some b \<Rightarrow> b | None \<Rightarrow> s)
     else if q = reset_branch_sql then [] else if q = touch then ''1'' else s)"

definition plain_call :: "string \<Rightarrow> string option \<Rightarrow> gateway_call" where
  "plain_call sql branch = \<lparr>gc_sql = sql, gc_max_rows = 10, gc_offset = 0, gc_branch = branch\<rparr>"

definition set_parser :: sqlparse where
  "set_parser = \<lparr>sp_parse = (\<lambda>s. Some [\<lparr>st_flatten = [\<lparr>tk_ttype = tt_keyword, tk_value = s, tk_normalized = s, tk_is_whitespace = False\<rparr>],
     st_type = None\<rparr>]), sp_split = (\<lambda>s. Some [s])\<rparr>"


definition branch_statements :: "string list" where
  "branch_statements = [set_branch_sql, reset_branch_sql, ''SET BRANCH = 1'']"

lemma branch_server_semantics:
  "branch_semantics (branch_server ''SET BRANCH = 1'') (\<lambda>s. s) (\<lambda>q. q \<in> set branch_statements) default_sql_security"
proof -
  have own: "''ROLLBACK'' \<notin> set branch_statements" "read_write_sql \<notin> set branch_statements"
    "''SET autocommit=1'' \<notin> set branch_statements" "max_execution_sql default_sql_security \<notin> set branch_statements"
    by (simp_all add: branch_statements_def reset_branch_sql_def max_execution_sql_def)
  have "reset_branch_sql \<noteq> set_branch_sql" by code_simp
  then have "snd (branch_server ''SET BRANCH = 1'' reset_branch_sql None s) = []" for s by (simp add: branch_server_def)
  then have "branch_server ''SET BRANCH = 1'' reset_branch_sql None s = (a, s') \<Longrightarrow> s' = []" for s a s' by (metis snd_conv)
  moreover have "q \<notin> set branch_statements \<Longrightarrow> snd (branch_server ''SET BRANCH = 1'' q p s) = s" for q p s
    by (simp add: branch_server_def branch_statements_def)
  ultimately show ?thesis unfolding branch_semantics_def using own by blast
qed

theorem branch_does_not_leak_witness:
  "list_all (\<lambda>x. fst x = []) (gateway_run set_parser default_sql_security (branch_server ''SET BRANCH = 1'') []
      [plain_call ''A'' (Some ''b''), plain_call ''SET BRANCH = 1'' None, plain_call ''B'' None] None)"
proof -
  let ?calls = "[plain_call ''A'' (Some ''b''), plain_call ''SET BRANCH = 1'' None, plain_call ''B'' None]"
  have "mentions_session_branch ''SET BRANCH = 1''" by code_simp
  moreover have "\<not> is_select set_parser q" for q
    by (simp add: is_select_def set_parser_def split: option.splits)
  moreover have "''A'' \<notin> set branch_statements" "''B'' \<notin> set branch_statements" by code_simp+
  ultimately have seen: "mentions_session_branch (gc_sql call)" if "call \<in> set ?calls"
      "apply_pagination set_parser (gc_sql call) (gc_max_rows call + 1) (gc_offset call) \<in> set branch_statements" for call
    using that by (auto simp: plain_call_def apply_pagination_def)
  have "\<forall>x \<in> set (gateway_run set_parser default_sql_security (branch_server ''SET BRANCH = 1'') [] ?calls None).
      fst x = []"
    using branch_does_not_leak [OF branch_server_semantics refl seen] by (metis prod.collapse)
  then show ?thesis by (simp only: list_all_iff)
qed

text \<open>a branch leaks when the scan misses the assignment: the caller's \<open>SET SESSION branch := 1\<close>, which
  MySQL executes and the scan does not recognise, leaves the connection in the cache on branch 1,
  and the next call, which names no branch, runs there.\<close>

theorem unseen_branch_leaks:
  "map fst (gateway_run set_parser default_sql_security (branch_server ''SET SESSION branch := 1'') []
     [plain_call ''SET SESSION branch := 1'' None, plain_call ''DELETE FROM t WHERE id = 7'' None] None) = [[], ''1'']"
  by code_simp



section \<open>Pages of a result\<close>

text \<open>A client that asks again with the cursor of the last page until there is none.\<close>

fun follow_sql_pages :: "nat \<Rightarrow> sqlparse \<Rightarrow> sql_security_config \<Rightarrow> ('s, 'r) server \<Rightarrow> gateway_call \<Rightarrow> 's \<Rightarrow> 'r list option" where
  "follow_sql_pages 0 P cfg srv call s = None"
| "follow_sql_pages (Suc n) P cfg srv call s =
     (let final = gateway_execute P cfg srv call s in
      case ge_outcome final of
        Returned q \<Rightarrow>
          (case qr_next_cursor q of
             None \<Rightarrow> Some (qr_rows q)
           | Some k \<Rightarrow> map_option (\<lambda>rest. qr_rows q @ rest)
               (follow_sql_pages n P cfg srv (call\<lparr>gc_offset := k\<rparr>) (ge_session final)))
      | _ \<Rightarrow> None)"

text \<open>The session statements of the gateway are answered.\<close>

definition accepts_settings :: "sql_security_config \<Rightarrow> ('s, 'r) server \<Rightarrow> bool" where
  "accepts_settings cfg srv =
     (\<forall>s. (\<exists>c w s'. srv read_write_sql None s = (Answered c w, s')) \<and> (\<exists>c w s'. srv (max_execution_sql cfg) None s = (Answered c w, s')))"

lemma execute_page:
  assumes "accepts_settings cfg srv" and "gc_branch call = None" and "0 \<le> gc_max_rows call"
    and "\<And>s. \<exists>s'. srv (apply_pagination P (gc_sql call) (gc_max_rows call + 1) (gc_offset call)) None s = (Answered cols rows, s')"
  shows "ge_outcome (gateway_execute P cfg srv call s) = Returned \<lparr>qr_columns = cols, qr_rows = take (nat (gc_max_rows call)) rows,
      qr_row_count = int (length (take (nat (gc_max_rows call)) rows)), qr_truncated = (gc_max_rows call < int (length rows)),
      qr_next_cursor = (if gc_max_rows call < int (length rows) then Some (gc_offset call + gc_max_rows call) else None)\<rparr>"
proof -
  obtain c1 w1 s1 where 1: "srv read_write_sql None s = (Answered c1 w1, s1)" using assms(1) unfolding accepts_settings_def by blast
  obtain c2 w2 s2 where 2: "srv (max_execution_sql cfg) None s1 = (Answered c2 w2, s2)" using assms(1) unfolding accepts_settings_def by blast
  let ?q = "apply_pagination P (gc_sql call) (gc_max_rows call + 1) (gc_offset call)"
  obtain s3 where 3: "srv ?q None s2 = (Answered cols rows, s3)" using assms(4) by blast
  obtain s4 where 4: "srv ?q None s1 = (Answered cols rows, s4)" using assms(4) by blast
  show ?thesis using 1 2 3 4 assms(2,3)
    by (auto simp: gateway_execute_def execute_body_def exec_simple_def execute_query_def py_take_def Let_def)
qed

lemma paginated:
  assumes "is_select P sql" and "single_statement_text P sql = Some t"
  shows "apply_pagination P sql m k = (if has_limit_clause P t then t
    else strip_trailing_non_executable_tokens P t @ '' LIMIT '' @ int_text m @ '' OFFSET '' @ int_text k)"
proof -
  have "t \<noteq> []" using assms by (auto simp: is_select_def)
  then show ?thesis using assms by (simp add: apply_pagination_def)
qed

text \<open>C27: the pages of a query cover its result. For a SELECT without LIMIT, on a server that answers the
  query with \<open>LIMIT n OFFSET k\<close> with those rows of the result, a client that follows the cursors gets
  every row exactly once and in order, whatever the page size, and comes to an end.\<close>

theorem sql_pages_cover_result:
  assumes "accepts_settings cfg srv" and "gc_branch call = None" and "1 \<le> gc_max_rows call" and "gc_offset call = 0"
    and "is_select P (gc_sql call)" and "single_statement_text P (gc_sql call) = Some t" and "\<not> has_limit_clause P t"
    and "\<And>n k s. \<exists>s'. srv (strip_trailing_non_executable_tokens P t @ '' LIMIT '' @ int_text (int n) @ '' OFFSET '' @ int_text (int k)) None s
      = (Answered cols (take n (drop k rows)), s')"
    and "length rows < fuel"
  shows "follow_sql_pages fuel P cfg srv call s = Some rows"
proof -
  define m where "m = nat (gc_max_rows call)"
  have m: "gc_max_rows call = int m" "0 < m" using assms(3) by (auto simp: m_def)
  have page: "ge_outcome (gateway_execute P cfg srv (call\<lparr>gc_offset := int k\<rparr>) s) =
      Returned \<lparr>qr_columns = cols, qr_rows = take m (drop k rows), qr_row_count = int (length (take m (drop k rows))),
        qr_truncated = (m < length (drop k rows)), qr_next_cursor = (if m < length (drop k rows) then Some (int (k + m)) else None)\<rparr>"
    for k s
  proof -
    have q: "apply_pagination P (gc_sql call) (gc_max_rows call + 1) (int k) =
        strip_trailing_non_executable_tokens P t @ '' LIMIT '' @ int_text (int (m + 1)) @ '' OFFSET '' @ int_text (int k)"
      using paginated [OF assms(5,6)] assms(7) m(1) by (simp add: add.commute)
    let ?c = "call\<lparr>gc_offset := int k\<rparr>"
    have ans: "\<exists>s'. srv (apply_pagination P (gc_sql ?c) (gc_max_rows ?c + 1) (gc_offset ?c)) None s
        = (Answered cols (take (m + 1) (drop k rows)), s')" for s
      using assms(8) [of "m + 1" k s] q by simp
    have "(m < length (take (m + 1) (drop k rows))) = (m < length (drop k rows))" by auto
    moreover have "take m (take (m + 1) (drop k rows)) = take m (drop k rows)" by (simp add: min_def)
    ultimately show ?thesis
      using execute_page [OF assms(1) _ _ ans, of s] assms(2) m by simp
  qed
  have "follow_sql_pages fuel P cfg srv (call\<lparr>gc_offset := int k\<rparr>) s = Some (drop k rows)"
    if "length rows - k < fuel" "k \<le> length rows" for k fuel s
    using that
  proof (induction fuel arbitrary: k s)
    case (Suc fuel)
    show ?case
    proof (cases "m < length (drop k rows)")
      case True
      then have "follow_sql_pages fuel P cfg srv (call\<lparr>gc_offset := int (k + m)\<rparr>)
          (ge_session (gateway_execute P cfg srv (call\<lparr>gc_offset := int k\<rparr>) s)) = Some (drop (k + m) rows)"
        using Suc.prems m(2) by (intro Suc.IH) auto
      moreover have "take m (drop k rows) @ drop (k + m) rows = drop k rows"
        by (metis add.commute append_take_drop_id drop_drop)
      ultimately show ?thesis using page [of k s] True by simp
    qed (use page [of k s] in simp)
  qed simp
  moreover have "call\<lparr>gc_offset := 0\<rparr> = call" using assms(4) by (cases call) simp
  ultimately show ?thesis using assms(9) by (metis diff_zero drop0 le0 of_nat_0)
qed

text \<open>C40: the pages of a query with its own LIMIT never end. The statement is sent as it is, whatever the
  offset, so when its result has more rows than a page every cursor leads to the first page again.\<close>

theorem limited_query_never_ends:
  assumes "accepts_settings cfg srv" and "gc_branch call = None" and "0 \<le> gc_max_rows call"
    and "is_select P (gc_sql call)" and "single_statement_text P (gc_sql call) = Some t" and "has_limit_clause P t"
    and "\<And>s. \<exists>s'. srv t None s = (Answered cols rows, s')" and "gc_max_rows call < int (length rows)"
  shows "follow_sql_pages fuel P cfg srv call s = None
    \<and> (\<exists>q. ge_outcome (gateway_execute P cfg srv (call\<lparr>gc_offset := k\<rparr>) s) = Returned q \<and> qr_rows q = take (nat (gc_max_rows call)) rows)"
proof
  have q: "apply_pagination P (gc_sql call) m k = t" for m k using paginated [OF assms(4,5)] assms(6) by simp
  have page: "ge_outcome (gateway_execute P cfg srv (call\<lparr>gc_offset := k\<rparr>) s) = Returned \<lparr>qr_columns = cols,
      qr_rows = take (nat (gc_max_rows call)) rows, qr_row_count = int (length (take (nat (gc_max_rows call)) rows)),
      qr_truncated = True, qr_next_cursor = Some (k + gc_max_rows call)\<rparr>" for k s
    using execute_page [of cfg srv "call\<lparr>gc_offset := k\<rparr>" P cols rows s] assms(1-3,7,8) q by simp
  then show "\<exists>q. ge_outcome (gateway_execute P cfg srv (call\<lparr>gc_offset := k\<rparr>) s) = Returned q \<and> qr_rows q = take (nat (gc_max_rows call)) rows"
    by simp
  have "follow_sql_pages fuel P cfg srv (call\<lparr>gc_offset := k\<rparr>) s = None" for k s
  proof (induction fuel arbitrary: k s)
    case (Suc fuel)
    then show ?case using page by simp
  qed simp
  from this [of "gc_offset call" s] show "follow_sql_pages fuel P cfg srv call s = None" by simp
qed


text \<open>A server that reads the numbers of \<open>Q LIMIT n OFFSET k\<close>.\<close>

definition page_server :: "'r list \<Rightarrow> (unit, 'r) server" where
  "page_server rows q p s =
     (let t = drop 8 q; n = takeWhile (\<lambda>c. c \<noteq> CHR '' '') t; k = drop 8 (dropWhile (\<lambda>c. c \<noteq> CHR '' '') t) in
      (Answered [''x''] (take (digits_value n) (drop (digits_value k) rows)), s))"

lemma digits_no_space: "CHR '' '' \<notin> set (digits n)"
proof (induction n rule: digits.induct)
  case (1 n)
  have "char_of (48 + m) \<noteq> CHR '' ''" if "m < 10" for m :: nat
  proof
    assume "char_of (48 + m) = CHR '' ''"
    then have "(of_char (char_of (48 + m) :: char) :: nat) = 32" by simp
    with that show False by simp
  qed
  with 1 show ?case by (subst digits.simps) (auto simp: eq_commute [of "CHR '' ''"])
qed

lemma page_server_reads:
  "page_server rows (''Q'' @ '' LIMIT '' @ int_text (int n) @ '' OFFSET '' @ int_text (int k)) p s
    = (Answered [''x''] (take n (drop k rows)), s)"
proof -
  have "\<forall>c \<in> set (digits n). c \<noteq> CHR '' ''" using digits_no_space [of n] by metis
  then show ?thesis
    by (simp add: page_server_def int_text_def Let_def takeWhile_append2 dropWhile_append2 digits_value_digits)
qed

theorem sql_pages_cover_result_witness:
  "follow_sql_pages 9 plain_parser default_sql_security (page_server [1, 2, 3, 4, 5 :: nat])
     \<lparr>gc_sql = ''Q'', gc_max_rows = 2, gc_offset = 0, gc_branch = None\<rparr> () = Some [1, 2, 3, 4, 5]"
proof (rule sql_pages_cover_result [where t = "''Q''" and cols = "[''x'']"])
  have strip: "strip_trailing_non_executable_tokens plain_parser ''Q'' = ''Q''" by code_simp
  show "\<exists>s'. page_server [1, 2, 3, 4, 5] (strip_trailing_non_executable_tokens plain_parser ''Q'' @ '' LIMIT ''
      @ int_text (int n) @ '' OFFSET '' @ int_text (int k)) None s = (Answered [''x''] (take n (drop k [1, 2, 3, 4, 5])), s')" for n k s
    unfolding strip page_server_reads by blast
  show "is_select plain_parser (gc_sql \<lparr>gc_sql = ''Q'', gc_max_rows = 2, gc_offset = 0, gc_branch = None\<rparr>)" by code_simp
  show "single_statement_text plain_parser (gc_sql \<lparr>gc_sql = ''Q'', gc_max_rows = 2, gc_offset = 0, gc_branch = None\<rparr>) = Some ''Q''"
    by code_simp
  show "\<not> has_limit_clause plain_parser ''Q''" by code_simp
qed (simp_all add: accepts_settings_def page_server_def Let_def)

definition limit_parser :: sqlparse where
  "limit_parser = \<lparr>sp_parse = (\<lambda>s. Some [\<lparr>st_flatten = [\<lparr>tk_ttype = tt_keyword, tk_value = s, tk_normalized = ''LIMIT'', tk_is_whitespace = False\<rparr>],
     st_type = Some ''SELECT''\<rparr>]), sp_split = (\<lambda>s. Some [s])\<rparr>"

theorem limited_query_never_ends_witness:
  "follow_sql_pages 99 limit_parser default_sql_security (\<lambda>q p s. (Answered [''x''] [1, 2, 3 :: nat], s))
     \<lparr>gc_sql = ''Q'', gc_max_rows = 2, gc_offset = 0, gc_branch = None\<rparr> () = None"
proof (rule conjunct1 [OF limited_query_never_ends [where t = "''Q''" and cols = "[''x'']" and rows = "[1, 2, 3]"]])
  show "is_select limit_parser (gc_sql \<lparr>gc_sql = ''Q'', gc_max_rows = 2, gc_offset = 0, gc_branch = None\<rparr>)" by code_simp
  show "single_statement_text limit_parser (gc_sql \<lparr>gc_sql = ''Q'', gc_max_rows = 2, gc_offset = 0, gc_branch = None\<rparr>) = Some ''Q''"
    by code_simp
  show "has_limit_clause limit_parser ''Q''" by code_simp
qed (simp_all add: accepts_settings_def)

end
