(* ===== verification/Connection_Cache.thy ===== *)
theory Connection_Cache
  imports Prelude "HOL-Library.AList"
begin

text \<open>
  The cache of database connections (\<open>core/connection_cache.py\<close>) under concurrency. Tasks interleave
  where the code awaits and nowhere else, so an operation is a sequence of segments: each segment is a
  function on the state, a task is at one of the awaits, and a run is a sequence of segments of any
  tasks. What the awaited calls answer (ping, \<open>USE\<close>, connect, the statements of a release) is part of the
  segment. A lock is an object of its own: the dictionary \<open>_locks\<close> names the lock of a key, and a task
  keeps the object it has looked up.

  Shown: as long as the clean-up does not meddle with operations in progress and no task is cancelled,
  a connection is with one caller only, is open, was opened with the caller's own address, account and
  password, and has the caller's database selected. The last section has the runs in which the
  connection limit, the exclusive lease and the selected database are lost.
\<close>

section \<open>State\<close>

text \<open>The key of a connection: the caller and the instance.\<close>

datatype ckey = CKey string string

type_synonym conn = nat
type_synonym task = nat

record cached =
  cd_conn :: conn
  cd_created_at :: time
  cd_last_used :: time
  cd_host :: string
  cd_port :: int
  cd_user :: string
  cd_fingerprint :: string
  cd_database :: "string option"

record conn_request =
  rq_user_id :: string
  rq_instance_id :: string
  rq_host :: string
  rq_port :: int
  rq_user :: string
  rq_password :: string
  rq_database :: "string option"

definition rq_key :: "conn_request \<Rightarrow> ckey" where
  "rq_key q = CKey (rq_user_id q) (rq_instance_id q)"

text \<open>Where a task is. The lock object is the one the task waits for or holds.\<close>

datatype pc =
    Resting
  | Entering conn_request nat
  | Pinging conn_request nat cached
  | Switching conn_request nat cached
  | Admitting conn_request nat
  | Connecting conn_request nat
  | Using conn_request conn
  | Leaving conn_request conn bool nat
  | Resetting conn_request conn nat cached

text \<open>
  The configuration, the dictionaries, the locks and the tasks. Of the servers the state has what the
  connections were opened with and the database each has selected; \<open>w_closed\<close> are the connections
  that were closed.
\<close>

record world =
  w_max_total_pools :: int
  w_idle_timeout :: time
  w_health_check :: bool
  w_cache :: "(ckey \<times> cached) list"
  w_leased :: "((ckey \<times> conn) \<times> cached) list"
  w_locks :: "(ckey \<times> nat) list"
  w_holder :: "nat \<Rightarrow> task option"
  w_capacity :: "task option"
  w_task :: "task \<Rightarrow> pc"
  w_next_lock :: nat
  w_next_conn :: conn
  w_closed :: "conn list"
  w_opened :: "conn \<Rightarrow> (string \<times> int \<times> string \<times> string) option"
  w_selected :: "conn \<Rightarrow> string option"

definition cache_size :: "world \<Rightarrow> int" where
  "cache_size w = int (length (w_cache w)) + int (length (w_leased w))"

definition at_pc :: "task \<Rightarrow> pc \<Rightarrow> world \<Rightarrow> world" where
  "at_pc t p w = w\<lparr>w_task := (w_task w)(t := p)\<rparr>"

definition unlock :: "nat \<Rightarrow> world \<Rightarrow> world" where
  "unlock l w = w\<lparr>w_holder := (w_holder w)(l := None)\<rparr>"

definition close_conn :: "conn \<Rightarrow> world \<Rightarrow> world" where
  "close_conn c w = w\<lparr>w_closed := c # w_closed w\<rparr>"

definition pop_cached :: "ckey \<Rightarrow> world \<Rightarrow> world" where
  "pop_cached k w = w\<lparr>w_cache := AList.delete k (w_cache w)\<rparr>"

text \<open>\<open>_get_lock\<close>: the lock of the key and the state with it.\<close>

definition get_lock :: "ckey \<Rightarrow> world \<Rightarrow> nat \<times> world" where
  "get_lock k w = (case map_of (w_locks w) k of
     Some l \<Rightarrow> (l, w)
   | None \<Rightarrow> (w_next_lock w, w\<lparr>w_locks := AList.update k (w_next_lock w) (w_locks w), w_next_lock := w_next_lock w + 1\<rparr>))"


section \<open>Acquire\<close>

definition acquire_begin :: "task \<Rightarrow> conn_request \<Rightarrow> world \<Rightarrow> world" where
  "acquire_begin t q w = (case get_lock (rq_key q) w of (l, w1) \<Rightarrow> at_pc t (Entering q l) w1)"

definition identity_changed :: "(string \<Rightarrow> string) \<Rightarrow> conn_request \<Rightarrow> cached \<Rightarrow> bool" where
  "identity_changed fp q d = (cd_host d \<noteq> rq_host q \<or> cd_port d \<noteq> rq_port q \<or> cd_user d \<noteq> rq_user q
     \<or> cd_fingerprint d \<noteq> fp (rq_password q))"

text \<open>The cached connection goes to the caller.\<close>

definition lease :: "task \<Rightarrow> conn_request \<Rightarrow> nat \<Rightarrow> cached \<Rightarrow> time \<Rightarrow> world \<Rightarrow> world" where
  "lease t q l d now w =
     (let d1 = d\<lparr>cd_last_used := now\<rparr>; w1 = pop_cached (rq_key q) w in
      at_pc t (Using q (cd_conn d)) (unlock l
        (w1\<lparr>w_leased := AList.update (rq_key q, cd_conn d) d1 (w_leased w1)\<rparr>)))"

text \<open>The cached connection is of no use: close it and open another one.\<close>

definition replace_cached :: "task \<Rightarrow> conn_request \<Rightarrow> nat \<Rightarrow> cached \<Rightarrow> world \<Rightarrow> world" where
  "replace_cached t q l d w = at_pc t (Admitting q l) (pop_cached (rq_key q) (close_conn (cd_conn d) w))"

definition acquire_pinged :: "(string \<Rightarrow> string) \<Rightarrow> task \<Rightarrow> conn_request \<Rightarrow> nat \<Rightarrow> cached \<Rightarrow> bool \<Rightarrow> time \<Rightarrow> world \<Rightarrow> world" where
  "acquire_pinged fp t q l d alive now w =
     (if \<not> alive then replace_cached t q l d w
      else if identity_changed fp q d \<or> (rq_database q = None \<and> cd_database d \<noteq> None) then replace_cached t q l d w
      else if rq_database q \<noteq> None \<and> rq_database q \<noteq> Some [] \<and> rq_database q \<noteq> cd_database d
      then at_pc t (Switching q l d) w
      else lease t q l d now w)"

definition acquire_locked :: "(string \<Rightarrow> string) \<Rightarrow> task \<Rightarrow> conn_request \<Rightarrow> nat \<Rightarrow> time \<Rightarrow> world \<Rightarrow> world" where
  "acquire_locked fp t q l now w0 =
     (let w = w0\<lparr>w_holder := (w_holder w0)(l := Some t)\<rparr> in
      case map_of (w_cache w) (rq_key q) of
        None \<Rightarrow> at_pc t (Admitting q l) w
      | Some d \<Rightarrow> if w_health_check w then at_pc t (Pinging q l d) w
                  else acquire_pinged fp t q l d True now w)"

definition acquire_switched :: "task \<Rightarrow> conn_request \<Rightarrow> nat \<Rightarrow> cached \<Rightarrow> bool \<Rightarrow> time \<Rightarrow> world \<Rightarrow> world" where
  "acquire_switched t q l d ok now w =
     (if ok then lease t q l (d\<lparr>cd_database := rq_database q\<rparr>) now
                   (w\<lparr>w_selected := (w_selected w)(cd_conn d := rq_database q)\<rparr>)
      else at_pc t Resting (unlock l (pop_cached (rq_key q) (close_conn (cd_conn d) w))))"

text \<open>With the capacity lock: refuse, or connect.\<close>

definition acquire_admitted :: "task \<Rightarrow> conn_request \<Rightarrow> nat \<Rightarrow> world \<Rightarrow> world" where
  "acquire_admitted t q l w =
     (if w_max_total_pools w \<le> cache_size w then at_pc t Resting (unlock l w)
      else at_pc t (Connecting q l) (w\<lparr>w_capacity := Some t\<rparr>))"

definition acquire_connected :: "(string \<Rightarrow> string) \<Rightarrow> task \<Rightarrow> conn_request \<Rightarrow> nat \<Rightarrow> bool \<Rightarrow> time \<Rightarrow> world \<Rightarrow> world" where
  "acquire_connected fp t q l ok now w0 =
     (let w = w0\<lparr>w_capacity := None\<rparr>; c = w_next_conn w in
      if \<not> ok then at_pc t Resting (unlock l (pop_cached (rq_key q) w))
      else let d = \<lparr>cd_conn = c, cd_created_at = now, cd_last_used = now, cd_host = rq_host q, cd_port = rq_port q,
                    cd_user = rq_user q, cd_fingerprint = fp (rq_password q), cd_database = rq_database q\<rparr> in
        at_pc t (Using q c) (unlock l
          (w\<lparr>w_next_conn := c + 1, w_leased := AList.update (rq_key q, c) d (w_leased w),
             w_opened := (w_opened w)(c := Some (rq_host q, rq_port q, rq_user q, fp (rq_password q))),
             w_selected := (w_selected w)(c := rq_database q)\<rparr>)))"


section \<open>Release\<close>

definition release_begin :: "task \<Rightarrow> conn_request \<Rightarrow> conn \<Rightarrow> bool \<Rightarrow> world \<Rightarrow> world" where
  "release_begin t q c discard w = (case get_lock (rq_key q) w of (l, w1) \<Rightarrow> at_pc t (Leaving q c discard l) w1)"

text \<open>The idle connection of the key is dropped, and closed unless it is the one given back.\<close>

definition drop_idle :: "ckey \<Rightarrow> conn \<Rightarrow> world \<Rightarrow> world" where
  "drop_idle k c w = (case map_of (w_cache w) k of
     None \<Rightarrow> w
   | Some idle \<Rightarrow> if cd_conn idle \<noteq> c then close_conn (cd_conn idle) (pop_cached k w) else pop_cached k w)"

definition release_locked :: "task \<Rightarrow> conn_request \<Rightarrow> conn \<Rightarrow> bool \<Rightarrow> nat \<Rightarrow> world \<Rightarrow> world" where
  "release_locked t q c discard l w0 =
     (let w = w0\<lparr>w_holder := (w_holder w0)(l := Some t)\<rparr>;
          k = rq_key q;
          w1 = w\<lparr>w_leased := AList.delete (k, c) (w_leased w)\<rparr> in
      case map_of (w_leased w) (k, c) of
        None \<Rightarrow>
          (case map_of (w_cache w) k of
             Some idle \<Rightarrow> at_pc t Resting (unlock l (close_conn c (if cd_conn idle = c then pop_cached k w else w)))
           | None \<Rightarrow> at_pc t Resting (unlock l (close_conn c w)))
      | Some d \<Rightarrow>
          if discard then at_pc t Resting (unlock l (drop_idle k c (close_conn c w1)))
          else at_pc t (Resetting q c l d) w1)"

definition release_reset :: "task \<Rightarrow> conn_request \<Rightarrow> conn \<Rightarrow> nat \<Rightarrow> cached \<Rightarrow> bool \<Rightarrow> time \<Rightarrow> world \<Rightarrow> world" where
  "release_reset t q c l d ok now w =
     (let k = rq_key q in
      if ok then (let w1 = drop_idle k c w in
          at_pc t Resting (unlock l (w1\<lparr>w_cache := AList.update k (d\<lparr>cd_last_used := now\<rparr>) (w_cache w1)\<rparr>)))
      else at_pc t Resting (unlock l (drop_idle k c (close_conn c w))))"


section \<open>Clean-up\<close>

definition conn_expired :: "time \<Rightarrow> world \<Rightarrow> cached \<Rightarrow> bool" where
  "conn_expired now w d = (w_idle_timeout w < now - cd_last_used d)"

definition cleanup_once :: "time \<Rightarrow> world \<Rightarrow> world" where
  "cleanup_once now w =
     (let gone = filter (\<lambda>(k, d). conn_expired now w d) (w_cache w);
          cache1 = filter (\<lambda>(k, d). \<not> conn_expired now w d) (w_cache w);
          leased_keys = map (\<lambda>((k, c), d). k) (w_leased w) in
      w\<lparr>w_cache := cache1, w_closed := map (\<lambda>(k, d). cd_conn d) gone @ w_closed w,
         w_locks := filter (\<lambda>(k, l). \<not> (k \<notin> fst ` set cache1 \<and> k \<notin> set leased_keys \<and> w_holder w l = None)) (w_locks w)\<rparr>)"

definition close_all :: "world \<Rightarrow> world" where
  "close_all w = w\<lparr>w_cache := [], w_leased := [], w_locks := [],
     w_closed := map (\<lambda>(k, d). cd_conn d) (w_cache w) @ map (\<lambda>(k, d). cd_conn d) (w_leased w) @ w_closed w\<rparr>"


section \<open>Runs\<close>

text \<open>
  A segment of a task, with the answer of the awaited call and the clock. \<open>Cancel t x\<close> cancels a task at an
  await; a \<open>USE\<close> that was under way has been executed by the server or not (\<open>x\<close>). \<open>None\<close>: the segment is
  not possible here.
\<close>

datatype segment =
    Acquire task conn_request
  | Enter task time
  | Pinged task bool time
  | Switched task bool time
  | Admit task
  | Connected task bool time
  | Release task bool
  | Leave task
  | Reset task bool time
  | Cancel task bool
  | Cleanup time
  | CloseAll

fun perform :: "(string \<Rightarrow> string) \<Rightarrow> segment \<Rightarrow> world \<Rightarrow> world option" where
  "perform fp (Acquire t q) w = (case w_task w t of Resting \<Rightarrow> Some (acquire_begin t q w) | _ \<Rightarrow> None)"
| "perform fp (Enter t now) w = (case w_task w t of
     Entering q l \<Rightarrow> if w_holder w l = None then Some (acquire_locked fp t q l now w) else None | _ \<Rightarrow> None)"
| "perform fp (Pinged t ok now) w = (case w_task w t of
     Pinging q l d \<Rightarrow> Some (acquire_pinged fp t q l d ok now w) | _ \<Rightarrow> None)"
| "perform fp (Switched t ok now) w = (case w_task w t of
     Switching q l d \<Rightarrow> Some (acquire_switched t q l d ok now w) | _ \<Rightarrow> None)"
| "perform fp (Admit t) w = (case w_task w t of
     Admitting q l \<Rightarrow> if w_capacity w = None then Some (acquire_admitted t q l w) else None | _ \<Rightarrow> None)"
| "perform fp (Connected t ok now) w = (case w_task w t of
     Connecting q l \<Rightarrow> Some (acquire_connected fp t q l ok now w) | _ \<Rightarrow> None)"
| "perform fp (Release t discard) w = (case w_task w t of
     Using q c \<Rightarrow> Some (release_begin t q c discard w) | _ \<Rightarrow> None)"
| "perform fp (Leave t) w = (case w_task w t of
     Leaving q c discard l \<Rightarrow> if w_holder w l = None then Some (release_locked t q c discard l w) else None | _ \<Rightarrow> None)"
| "perform fp (Reset t ok now) w = (case w_task w t of
     Resetting q c l d \<Rightarrow> Some (release_reset t q c l d ok now w) | _ \<Rightarrow> None)"
| "perform fp (Cancel t x) w = (case w_task w t of
     Entering q l \<Rightarrow> Some (at_pc t Resting w)
   | Pinging q l d \<Rightarrow> Some (at_pc t Resting (unlock l w))
   | Switching q l d \<Rightarrow> Some (at_pc t Resting (unlock l
       (if x then w\<lparr>w_selected := (w_selected w)(cd_conn d := rq_database q)\<rparr> else w)))
   | Admitting q l \<Rightarrow> Some (at_pc t Resting (unlock l w))
   | Connecting q l \<Rightarrow> Some (at_pc t Resting (unlock l (w\<lparr>w_capacity := None\<rparr>)))
   | Leaving q c discard l \<Rightarrow> Some (at_pc t Resting w)
   | Resetting q c l d \<Rightarrow> Some (at_pc t Resting (unlock l w))
   | _ \<Rightarrow> None)"
| "perform fp (Cleanup now) w = Some (cleanup_once now w)"
| "perform fp CloseAll w = Some (close_all w)"

fun perform_all :: "(string \<Rightarrow> string) \<Rightarrow> segment list \<Rightarrow> world \<Rightarrow> world option" where
  "perform_all fp [] w = Some w"
| "perform_all fp (s # ss) w = (case perform fp s w of None \<Rightarrow> None | Some w1 \<Rightarrow> perform_all fp ss w1)"

definition fresh_world :: "int \<Rightarrow> time \<Rightarrow> bool \<Rightarrow> world" where
  "fresh_world max_pools idle_timeout health =
     \<lparr>w_max_total_pools = max_pools, w_idle_timeout = idle_timeout, w_health_check = health, w_cache = [], w_leased = [],
      w_locks = [], w_holder = (\<lambda>_. None), w_capacity = None, w_task = (\<lambda>_. Resting), w_next_lock = 0, w_next_conn = 0,
      w_closed = [], w_opened = (\<lambda>_. None), w_selected = (\<lambda>_. None)\<rparr>"



section \<open>The invariant\<close>

fun pc_lock :: "pc \<Rightarrow> (ckey \<times> nat) option" where
  "pc_lock (Entering q l) = Some (rq_key q, l)"
| "pc_lock (Pinging q l d) = Some (rq_key q, l)"
| "pc_lock (Switching q l d) = Some (rq_key q, l)"
| "pc_lock (Admitting q l) = Some (rq_key q, l)"
| "pc_lock (Connecting q l) = Some (rq_key q, l)"
| "pc_lock (Leaving q c discard l) = Some (rq_key q, l)"
| "pc_lock (Resetting q c l d) = Some (rq_key q, l)"
| "pc_lock _ = None"

fun pc_inside :: "pc \<Rightarrow> bool" where
  "pc_inside (Entering q l) = False"
| "pc_inside (Leaving q c discard l) = False"
| "pc_inside Resting = False"
| "pc_inside (Using q c) = False"
| "pc_inside _ = True"

fun pc_cached :: "pc \<Rightarrow> (conn_request \<times> cached) option" where
  "pc_cached (Pinging q l d) = Some (q, d)"
| "pc_cached (Switching q l d) = Some (q, d)"
| "pc_cached _ = None"

fun pc_switching :: "pc \<Rightarrow> (conn_request \<times> cached) option" where
  "pc_switching (Switching q l d) = Some (q, d)"
| "pc_switching _ = None"

fun pc_conn :: "pc \<Rightarrow> (conn_request \<times> conn) option" where
  "pc_conn (Using q c) = Some (q, c)"
| "pc_conn (Leaving q c discard l) = Some (q, c)"
| "pc_conn _ = None"

fun pc_reset :: "pc \<Rightarrow> (conn \<times> cached) option" where
  "pc_reset (Resetting q c l d) = Some (c, d)"
| "pc_reset _ = None"

text \<open>Where a connection is.\<close>

datatype place = Nowhere | Stored ckey | Lent task ckey | Away task

text \<open>What is recorded of a connection is true of it.\<close>

definition truthful :: "world \<Rightarrow> cached \<Rightarrow> bool" where
  "truthful w d \<longleftrightarrow> w_opened w (cd_conn d) = Some (cd_host d, cd_port d, cd_user d, cd_fingerprint d)
     \<and> w_selected w (cd_conn d) = cd_database d"

definition matches :: "(string \<Rightarrow> string) \<Rightarrow> conn_request \<Rightarrow> cached \<Rightarrow> bool" where
  "matches fp q d \<longleftrightarrow> \<not> identity_changed fp q d \<and> (rq_database q \<noteq> Some [] \<longrightarrow> cd_database d = rq_database q)"

definition cache_ok :: "(conn \<Rightarrow> place) \<Rightarrow> world \<Rightarrow> bool" where
  "cache_ok own w \<longleftrightarrow> (\<forall>k d. map_of (w_cache w) k = Some d \<longrightarrow> own (cd_conn d) = Stored k \<and> truthful w d)"

definition leased_ok :: "(conn \<Rightarrow> place) \<Rightarrow> world \<Rightarrow> bool" where
  "leased_ok own w \<longleftrightarrow> (\<forall>k c d. map_of (w_leased w) (k, c) = Some d \<longrightarrow>
     cd_conn d = c \<and> (\<exists>t. own c = Lent t k) \<and> truthful w d)"

definition users_ok :: "(string \<Rightarrow> string) \<Rightarrow> (conn \<Rightarrow> place) \<Rightarrow> world \<Rightarrow> bool" where
  "users_ok fp own w \<longleftrightarrow> (\<forall>t q c. pc_conn (w_task w t) = Some (q, c) \<longrightarrow>
     own c = Lent t (rq_key q) \<and> (\<exists>d. map_of (w_leased w) (rq_key q, c) = Some d \<and> matches fp q d))"

definition resets_ok :: "(conn \<Rightarrow> place) \<Rightarrow> world \<Rightarrow> bool" where
  "resets_ok own w \<longleftrightarrow> (\<forall>t c d. pc_reset (w_task w t) = Some (c, d) \<longrightarrow>
     own c = Away t \<and> cd_conn d = c \<and> truthful w d)"

definition readers_ok :: "(string \<Rightarrow> string) \<Rightarrow> world \<Rightarrow> bool" where
  "readers_ok fp w \<longleftrightarrow> (\<forall>t q d. pc_cached (w_task w t) = Some (q, d) \<longrightarrow> map_of (w_cache w) (rq_key q) = Some d)
     \<and> (\<forall>t q d. pc_switching (w_task w t) = Some (q, d) \<longrightarrow> \<not> identity_changed fp q d)"

definition lockers_ok :: "world \<Rightarrow> bool" where
  "lockers_ok w \<longleftrightarrow> (\<forall>t k l. pc_lock (w_task w t) = Some (k, l) \<longrightarrow> map_of (w_locks w) k = Some l
     \<and> (pc_inside (w_task w t) \<longrightarrow> w_holder w l = Some t))"

definition lock_table_ok :: "world \<Rightarrow> bool" where
  "lock_table_ok w \<longleftrightarrow> (\<forall>k k' l. map_of (w_locks w) k = Some l \<and> map_of (w_locks w) k' = Some l \<longrightarrow> k = k')
     \<and> (\<forall>k l. map_of (w_locks w) k = Some l \<longrightarrow> l < w_next_lock w)
     \<and> (\<forall>l \<ge> w_next_lock w. w_holder w l = None)"

definition locks_ok :: "world \<Rightarrow> bool" where
  "locks_ok w \<longleftrightarrow> lockers_ok w \<and> lock_table_ok w"

definition places_ok :: "(conn \<Rightarrow> place) \<Rightarrow> world \<Rightarrow> bool" where
  "places_ok own w \<longleftrightarrow> (\<forall>c. c \<ge> w_next_conn w \<or> c \<in> set (w_closed w) \<longrightarrow> own c = Nowhere) \<and> distinct (map fst (w_cache w))
     \<and> distinct (map fst (w_locks w)) \<and> (\<forall>c \<in> set (w_closed w). c < w_next_conn w)"

definition cache_inv :: "(string \<Rightarrow> string) \<Rightarrow> (conn \<Rightarrow> place) \<Rightarrow> world \<Rightarrow> bool" where
  "cache_inv fp own w \<longleftrightarrow> cache_ok own w \<and> leased_ok own w \<and> users_ok fp own w \<and> resets_ok own w \<and> readers_ok fp w
     \<and> locks_ok w \<and> places_ok own w"

lemmas inv_defs = cache_ok_def leased_ok_def users_ok_def resets_ok_def readers_ok_def locks_ok_def lockers_ok_def
  lock_table_ok_def places_ok_def truthful_def
lemmas world_simps = at_pc_def unlock_def close_conn_def pop_cached_def update_conv' delete_conv'

lemma truthful_updates [simp]:
  "truthful (w\<lparr>w_cache := a\<rparr>) = truthful w" "truthful (w\<lparr>w_leased := b\<rparr>) = truthful w"
  "truthful (w\<lparr>w_locks := c\<rparr>) = truthful w" "truthful (w\<lparr>w_holder := h\<rparr>) = truthful w"
  "truthful (w\<lparr>w_capacity := e\<rparr>) = truthful w" "truthful (w\<lparr>w_task := f\<rparr>) = truthful w"
  "truthful (w\<lparr>w_next_lock := n\<rparr>) = truthful w" "truthful (w\<lparr>w_next_conn := m\<rparr>) = truthful w"
  "truthful (w\<lparr>w_closed := z\<rparr>) = truthful w"
  by (simp_all add: truthful_def fun_eq_iff)

lemma fresh_inv: "cache_inv fp (\<lambda>_. Nowhere) (fresh_world m i h)"
  by (simp add: cache_inv_def inv_defs fresh_world_def)

text \<open>Only one task is inside the operations of a key.\<close>

lemma one_inside:
  assumes "locks_ok w" and "pc_lock (w_task w t) = Some (k, l)" "pc_inside (w_task w t)"
    and "pc_lock (w_task w t') = Some (k, l')" "pc_inside (w_task w t')"
  shows "t' = t"
  using assms unfolding locks_ok_def lockers_ok_def by (metis option.inject)

lemma reader_inside: "pc_cached p = Some (q, d) \<Longrightarrow> \<exists>l. pc_lock p = Some (rq_key q, l) \<and> pc_inside p"
  by (cases p) auto

subsection \<open>Elementary changes\<close>

text \<open>
  Every segment is composed of these changes; each keeps the invariant, with the place of a
  connection moved where it moves one.
\<close>

lemma move_cache:
  assumes "cache_ok own w" and "\<And>k. own c \<noteq> Stored k"
  shows "cache_ok (own(c := p)) w"
  unfolding cache_ok_def
proof (intro allI impI)
  fix k d assume "map_of (w_cache w) k = Some d"
  with assms show "(own(c := p)) (cd_conn d) = Stored k \<and> truthful w d" unfolding cache_ok_def by (metis fun_upd_apply)
qed

lemma move_leased:
  assumes "leased_ok own w" and "\<And>t k. own c \<noteq> Lent t k"
  shows "leased_ok (own(c := p)) w"
  unfolding leased_ok_def
proof (intro allI impI)
  fix k e d assume "map_of (w_leased w) (k, e) = Some d"
  with assms show "cd_conn d = e \<and> (\<exists>t. (own(c := p)) e = Lent t k) \<and> truthful w d"
    unfolding leased_ok_def by (metis fun_upd_apply)
qed

lemma move_users:
  assumes "users_ok fp own w" and "\<And>t k. own c \<noteq> Lent t k"
  shows "users_ok fp (own(c := p)) w"
  using assms unfolding users_ok_def by (metis fun_upd_apply)

lemma move_resets:
  assumes "resets_ok own w" and "\<And>t. own c \<noteq> Away t"
  shows "resets_ok (own(c := p)) w"
  using assms unfolding resets_ok_def by (metis fun_upd_apply)

lemma inv_move:
  assumes "cache_inv fp own w" and "own c = Nowhere" and "c < w_next_conn w" and "c \<notin> set (w_closed w)"
  shows "cache_inv fp (own(c := p)) w"
  using assms unfolding cache_inv_def
  by (simp add: move_cache move_leased move_users move_resets places_ok_def)

lemma inv_at_pc:
  assumes "cache_inv fp own w"
    and "\<And>q c. pc_conn p = Some (q, c) \<Longrightarrow>
      own c = Lent t (rq_key q) \<and> (\<exists>d. map_of (w_leased w) (rq_key q, c) = Some d \<and> matches fp q d)"
    and "\<And>c d. pc_reset p = Some (c, d) \<Longrightarrow> own c = Away t \<and> cd_conn d = c \<and> truthful w d"
    and "\<And>q d. pc_cached p = Some (q, d) \<Longrightarrow> map_of (w_cache w) (rq_key q) = Some d"
    and "\<And>q d. pc_switching p = Some (q, d) \<Longrightarrow> \<not> identity_changed fp q d"
    and "\<And>k l. pc_lock p = Some (k, l) \<Longrightarrow> map_of (w_locks w) k = Some l \<and> (pc_inside p \<longrightarrow> w_holder w l = Some t)"
  shows "cache_inv fp own (at_pc t p w)"
proof -
  let ?w = "at_pc t p w"
  have eq: "w_cache ?w = w_cache w" "w_leased ?w = w_leased w" "w_locks ?w = w_locks w" "w_holder ?w = w_holder w"
    "w_next_lock ?w = w_next_lock w" "w_next_conn ?w = w_next_conn w" "w_closed ?w = w_closed w"
    "w_opened ?w = w_opened w" "w_selected ?w = w_selected w"
    and task: "w_task ?w t' = (if t' = t then p else w_task w t')" for t'
    by (simp_all add: at_pc_def)
  have tr: "truthful ?w = truthful w" by (simp add: at_pc_def)
  note i = assms(1) [unfolded cache_inv_def]
  have "cache_ok own ?w" "leased_ok own ?w" "places_ok own ?w"
    using i by (simp_all add: cache_ok_def leased_ok_def places_ok_def eq tr)
  moreover have "users_ok fp own ?w" using i assms(2) by (simp add: users_ok_def eq task)
  moreover have "resets_ok own ?w" using i assms(3) by (simp add: resets_ok_def tr eq task)
  moreover have "readers_ok fp ?w" using i assms(4,5) by (simp add: readers_ok_def eq task)
  moreover have "lockers_ok ?w" using i assms(6) by (simp add: locks_ok_def lockers_ok_def eq task)
  then have "locks_ok ?w" using i by (simp add: locks_ok_def lock_table_ok_def eq)
  ultimately show ?thesis by (simp add: cache_inv_def)
qed

lemma inv_rest: "cache_inv fp own w \<Longrightarrow> cache_inv fp own (at_pc t Resting w)"
  by (rule inv_at_pc) auto

lemma inv_unlock:
  assumes "cache_inv fp own w" and "\<And>t k. pc_lock (w_task w t) = Some (k, l) \<Longrightarrow> \<not> pc_inside (w_task w t)"
  shows "cache_inv fp own (unlock l w)"
proof -
  note i = assms(1) [unfolded cache_inv_def]
  have "lockers_ok (unlock l w)"
    using i assms(2) unfolding locks_ok_def lockers_ok_def unlock_def by simp
  moreover have "lock_table_ok (unlock l w)" using i by (simp add: locks_ok_def lock_table_ok_def unlock_def)
  ultimately have "locks_ok (unlock l w)" by (simp add: locks_ok_def)
  with i show ?thesis
    by (simp add: cache_inv_def unlock_def cache_ok_def leased_ok_def users_ok_def resets_ok_def readers_ok_def places_ok_def)
qed

lemma select_convs_holder: "w_holder (w\<lparr>w_holder := h\<rparr>) = h" "w_task (w\<lparr>w_holder := h\<rparr>) = w_task w"
  "w_locks (w\<lparr>w_holder := h\<rparr>) = w_locks w"
  by simp_all

lemma inv_lock:
  assumes "cache_inv fp own w" and "w_holder w l = None" and "l < w_next_lock w"
  shows "cache_inv fp own (w\<lparr>w_holder := (w_holder w)(l := Some t)\<rparr>)"
proof -
  note i = assms(1) [unfolded cache_inv_def]
  have "lockers_ok (w\<lparr>w_holder := (w_holder w)(l := Some t)\<rparr>)"
    using i assms(2) unfolding locks_ok_def lockers_ok_def by (metis option.distinct(1) fun_upd_other select_convs_holder)
  moreover have "lock_table_ok (w\<lparr>w_holder := (w_holder w)(l := Some t)\<rparr>)"
    using i assms(3) unfolding locks_ok_def lock_table_ok_def by simp
  ultimately have "locks_ok (w\<lparr>w_holder := (w_holder w)(l := Some t)\<rparr>)" by (simp add: locks_ok_def)
  with i show ?thesis
    by (simp add: cache_inv_def cache_ok_def leased_ok_def users_ok_def resets_ok_def readers_ok_def places_ok_def)
qed

lemma inv_get_lock:
  assumes "cache_inv fp own w" and "get_lock k w = (l, w1)"
  shows "cache_inv fp own w1 \<and> map_of (w_locks w1) k = Some l \<and> w_task w1 = w_task w \<and> w_leased w1 = w_leased w"
proof (cases "map_of (w_locks w) k")
  case (Some l')
  then show ?thesis using assms by (simp add: get_lock_def)
next
  case None
  note i = assms(1) [unfolded cache_inv_def]
  have w1: "w1 = w\<lparr>w_locks := AList.update k (w_next_lock w) (w_locks w), w_next_lock := w_next_lock w + 1\<rparr>"
    and l: "l = w_next_lock w" using assms(2) None by (auto simp: get_lock_def)
  have old: "map_of (w_locks w) k' = Some m \<Longrightarrow> m < w_next_lock w" for k' m
    using i unfolding locks_ok_def lock_table_ok_def by blast
  have eq: "w_task w1 = w_task w" "w_holder w1 = w_holder w" "w_next_lock w1 = w_next_lock w + 1"
    and locks: "map_of (w_locks w1) k' = (if k' = k then Some (w_next_lock w) else map_of (w_locks w) k')" for k'
    by (simp_all add: w1 update_conv')
  have "lockers_ok w1"
    using i None unfolding locks_ok_def lockers_ok_def eq locks by (metis option.distinct(1))
  moreover have "\<forall>k1 k2 m. map_of (w_locks w1) k1 = Some m \<and> map_of (w_locks w1) k2 = Some m \<longrightarrow> k1 = k2"
    using i old unfolding locks_ok_def lock_table_ok_def locks by (metis less_irrefl option.inject)
  moreover have "\<forall>k' m. map_of (w_locks w1) k' = Some m \<longrightarrow> m < w_next_lock w1"
    using old by (auto simp: locks eq less_SucI)
  moreover have "\<forall>m \<ge> w_next_lock w1. w_holder w1 m = None"
    using i by (simp add: locks_ok_def lock_table_ok_def eq)
  ultimately have "locks_ok w1" by (simp add: locks_ok_def lock_table_ok_def)
  with i show ?thesis
    by (simp add: cache_inv_def w1 l cache_ok_def leased_ok_def users_ok_def resets_ok_def readers_ok_def places_ok_def
        distinct_update update_conv')
qed

lemma inv_pop:
  assumes "cache_inv fp own w" and "map_of (w_cache w) k = Some d"
    and "\<And>t q d. pc_cached (w_task w t) = Some (q, d) \<Longrightarrow> rq_key q \<noteq> k"
  shows "cache_inv fp (own(cd_conn d := Nowhere)) (pop_cached k w)"
proof -
  note i = assms(1) [unfolded cache_inv_def]
  let ?own = "own(cd_conn d := Nowhere)"
  have d: "own (cd_conn d) = Stored k" using i assms(2) by (simp add: cache_ok_def)
  have "cache_ok ?own (pop_cached k w)"
    using i d unfolding cache_ok_def by (simp add: pop_cached_def delete_conv') (metis place.inject(1))
  moreover have "leased_ok ?own (pop_cached k w)" "users_ok fp ?own (pop_cached k w)" "resets_ok ?own (pop_cached k w)"
    using i d move_leased [of own w "cd_conn d" Nowhere] move_users [of fp own w "cd_conn d" Nowhere]
      move_resets [of own w "cd_conn d" Nowhere]
    by (simp_all add: leased_ok_def users_ok_def resets_ok_def pop_cached_def)
  moreover have "readers_ok fp (pop_cached k w)"
    using i assms(3) by (auto simp: readers_ok_def pop_cached_def delete_conv')
  moreover have "locks_ok (pop_cached k w)" "places_ok ?own (pop_cached k w)"
    using i by (auto simp: locks_ok_def lockers_ok_def lock_table_ok_def places_ok_def pop_cached_def distinct_delete)
  ultimately show ?thesis by (simp add: cache_inv_def)
qed

lemma inv_close:
  assumes "cache_inv fp own w" and "own c = Nowhere" and "c < w_next_conn w"
  shows "cache_inv fp own (close_conn c w)"
  using assms
  by (simp add: cache_inv_def close_conn_def cache_ok_def leased_ok_def users_ok_def resets_ok_def readers_ok_def
      places_ok_def locks_ok_def lockers_ok_def lock_table_ok_def)

lemma inv_store:
  assumes "cache_inv fp own w" and "own (cd_conn d) = Stored k" and "truthful w d" and "map_of (w_cache w) k = None"
  shows "cache_inv fp own (w\<lparr>w_cache := AList.update k d (w_cache w)\<rparr>)"
  using assms
  by (auto simp: cache_inv_def update_conv' cache_ok_def leased_ok_def users_ok_def resets_ok_def readers_ok_def
      places_ok_def locks_ok_def lockers_ok_def lock_table_ok_def distinct_update)

lemma inv_lend:
  assumes "cache_inv fp own w" and "own c = Lent t k" and "truthful w d" and "cd_conn d = c"
    and "\<And>t q. pc_conn (w_task w t) \<noteq> Some (q, c)"
  shows "cache_inv fp own (w\<lparr>w_leased := AList.update (k, c) d (w_leased w)\<rparr>)"
proof -
  note i = assms(1) [unfolded cache_inv_def]
  let ?w = "w\<lparr>w_leased := AList.update (k, c) d (w_leased w)\<rparr>"
  have "leased_ok own ?w"
    using i assms(2-4) unfolding leased_ok_def by (simp add: update_conv')
  moreover have "users_ok fp own ?w"
    using i assms(5) unfolding users_ok_def by (auto simp: update_conv')
  moreover have "cache_ok own ?w" "resets_ok own ?w" "readers_ok fp ?w" "locks_ok ?w" "places_ok own ?w"
    using i by (simp_all add: cache_ok_def resets_ok_def readers_ok_def locks_ok_def lockers_ok_def lock_table_ok_def places_ok_def)
  ultimately show ?thesis by (simp add: cache_inv_def)
qed

lemma inv_unlend:
  assumes "cache_inv fp own w" and "map_of (w_leased w) (k, c) = Some d"
    and "\<And>t q. pc_conn (w_task w t) \<noteq> Some (q, c)"
  shows "cache_inv fp (own(c := Nowhere)) (w\<lparr>w_leased := AList.delete (k, c) (w_leased w)\<rparr>)"
proof -
  note i = assms(1) [unfolded cache_inv_def]
  let ?own = "own(c := Nowhere)" and ?w = "w\<lparr>w_leased := AList.delete (k, c) (w_leased w)\<rparr>"
  have l: "leased_ok own w" using i by simp
  obtain t where t: "own c = Lent t k" using l assms(2) unfolding leased_ok_def by blast
  have "map_of (w_leased w) (k', c) = None" if "k' \<noteq> k" for k'
    using l t that unfolding leased_ok_def by (metis not_None_eq place.inject(2))
  then have "leased_ok ?own ?w"
    using l unfolding leased_ok_def by (simp add: delete_conv') (metis fun_upd_apply option.distinct(1))
  moreover have "cache_ok ?own ?w" "resets_ok ?own ?w"
    using i t move_cache [of own w c Nowhere] move_resets [of own w c Nowhere]
    by (simp_all add: cache_ok_def resets_ok_def)
  moreover have "users_ok fp ?own ?w"
    using i assms(3) unfolding users_ok_def by (auto simp: delete_conv')
  moreover have "readers_ok fp ?w" "locks_ok ?w" "places_ok ?own ?w"
    using i by (auto simp: readers_ok_def locks_ok_def lockers_ok_def lock_table_ok_def places_ok_def)
  ultimately show ?thesis by (simp add: cache_inv_def)
qed

text \<open>The server side of a connection that is nowhere.\<close>

lemma inv_server:
  assumes "cache_inv fp own w" and "own c = Nowhere" and "w_next_conn w \<le> n"
  shows "cache_inv fp own (w\<lparr>w_next_conn := n, w_opened := (w_opened w)(c := x), w_selected := (w_selected w)(c := y)\<rparr>)"
proof -
  note i = assms(1) [unfolded cache_inv_def]
  let ?w = "w\<lparr>w_next_conn := n, w_opened := (w_opened w)(c := x), w_selected := (w_selected w)(c := y)\<rparr>"
  have keep: "truthful ?w d = truthful w d" if "own (cd_conn d) \<noteq> Nowhere" for d
  proof -
    have "cd_conn d \<noteq> c" using that assms(2) by auto
    then show ?thesis by (simp add: truthful_def)
  qed
  have "cache_ok own ?w" using i unfolding cache_ok_def by (simp add: keep)
  moreover have "leased_ok own ?w" using i unfolding leased_ok_def
    by (simp, metis keep place.distinct(3))
  moreover have "resets_ok own ?w" using i unfolding resets_ok_def
    by (simp, metis keep place.distinct(5))
  moreover have "users_ok fp own ?w" "readers_ok fp ?w" "locks_ok ?w"
    using i by (simp_all add: users_ok_def readers_ok_def locks_ok_def lockers_ok_def lock_table_ok_def)
  moreover have "places_ok own ?w" using i assms(3) by (auto simp: places_ok_def)
  ultimately show ?thesis by (simp add: cache_inv_def)
qed

lemma inv_back:
  assumes "cache_inv fp own w" and "own c = Away t" and "\<And>d. pc_reset (w_task w t) \<noteq> Some (c, d)"
  shows "cache_inv fp (own(c := Nowhere)) w"
proof -
  note i = assms(1) [unfolded cache_inv_def]
  have "resets_ok (own(c := Nowhere)) w"
    using i assms(2,3) unfolding resets_ok_def by (metis fun_upd_apply place.inject(3))
  moreover have "places_ok (own(c := Nowhere)) w" using i by (auto simp: places_ok_def)
  ultimately show ?thesis
    using i assms(2) by (simp add: cache_inv_def move_cache move_leased move_users)
qed


subsection \<open>Segments\<close>

text \<open>The task that holds the lock of a key and has no connection of its own.\<close>

definition charge :: "task \<Rightarrow> ckey \<Rightarrow> nat \<Rightarrow> world \<Rightarrow> bool" where
  "charge t k l w \<longleftrightarrow> map_of (w_locks w) k = Some l \<and> w_holder w l = Some t
     \<and> pc_conn (w_task w t) = None \<and> pc_reset (w_task w t) = None"

definition kept :: "(string \<Rightarrow> string) \<Rightarrow> world \<Rightarrow> bool" where
  "kept fp w \<longleftrightarrow> (\<exists>own. cache_inv fp own w)"

lemma keptI: "cache_inv fp own w \<Longrightarrow> kept fp w"
  by (auto simp: kept_def)

lemma alone:
  assumes "cache_inv fp own w" and "charge t k l w" and "t' \<noteq> t"
  shows "\<not> (\<exists>k'. pc_lock (w_task w t') = Some (k', l) \<and> pc_inside (w_task w t'))"
    and "pc_cached (w_task w t') = Some (q, d) \<Longrightarrow> rq_key q \<noteq> k"
proof -
  have lk: "\<And>t k l. pc_lock (w_task w t) = Some (k, l) \<Longrightarrow> map_of (w_locks w) k = Some l \<and> (pc_inside (w_task w t) \<longrightarrow> w_holder w l = Some t)"
    using assms(1) unfolding cache_inv_def locks_ok_def lockers_ok_def by blast
  show no: "\<not> (\<exists>k'. pc_lock (w_task w t') = Some (k', l) \<and> pc_inside (w_task w t'))"
    using lk [of t'] assms(2,3) by (auto simp: charge_def)
  assume "pc_cached (w_task w t') = Some (q, d)"
  then obtain l' where l': "pc_lock (w_task w t') = Some (rq_key q, l')" "pc_inside (w_task w t')"
    using reader_inside by blast
  show "rq_key q \<noteq> k"
  proof
    assume "rq_key q = k"
    then have "l' = l" using lk [OF l'(1)] assms(2) by (simp add: charge_def)
    then show False using no l' by blast
  qed
qed

lemma nobody_uses: "cache_inv fp own w \<Longrightarrow> own c = Nowhere \<Longrightarrow> pc_conn (w_task w t) \<noteq> Some (q, c)"
  unfolding cache_inv_def users_ok_def by (metis place.distinct(3))

lemma inv_finish:
  assumes "cache_inv fp own w" and "charge t k l w" and "pc_lock p = None" and "pc_cached p = None" "pc_switching p = None" "pc_reset p = None"
    and "\<And>q c. pc_conn p = Some (q, c) \<Longrightarrow>
      own c = Lent t (rq_key q) \<and> (\<exists>d. map_of (w_leased w) (rq_key q, c) = Some d \<and> matches fp q d)"
  shows "cache_inv fp own (at_pc t p (unlock l w))"
proof -
  have "cache_inv fp own (at_pc t p w)"
    by (rule inv_at_pc [OF assms(1)]) (use assms(3-) in auto)
  moreover have "\<not> pc_inside (w_task (at_pc t p w) t')" if "pc_lock (w_task (at_pc t p w) t') = Some (k', l)" for t' k'
    using alone(1) [OF assms(1,2)] that assms(3) by (auto simp: at_pc_def split: if_splits)
  ultimately have "cache_inv fp own (unlock l (at_pc t p w))" by (rule inv_unlock)
  moreover have "unlock l (at_pc t p w) = at_pc t p (unlock l w)" by (simp add: unlock_def at_pc_def)
  ultimately show ?thesis by simp
qed

lemma inv_rest_finish:
  "cache_inv fp own w \<Longrightarrow> charge t k l w \<Longrightarrow> cache_inv fp own (at_pc t Resting (unlock l w))"
  by (rule inv_finish) auto

text \<open>The task in charge, no longer at a connection, drops the cached connection of its key.\<close>

lemma inv_drop:
  assumes "cache_inv fp own w" and "charge t k l w" and "map_of (w_cache w) k = Some d" and "pc_cached (w_task w t) = None"
  shows "cache_inv fp (own(cd_conn d := Nowhere)) (pop_cached k w)"
    and "cd_conn d < w_next_conn w" and "cd_conn d \<notin> set (w_closed w)" and "own (cd_conn d) = Stored k"
proof -
  show o: "own (cd_conn d) = Stored k" using assms(1,3) by (simp add: cache_inv_def cache_ok_def)
  show "cd_conn d < w_next_conn w" "cd_conn d \<notin> set (w_closed w)"
    using assms(1) o unfolding cache_inv_def places_ok_def by (metis leI place.distinct(1))+
  show "cache_inv fp (own(cd_conn d := Nowhere)) (pop_cached k w)"
  proof (rule inv_pop [OF assms(1,3)])
    fix t' q' d' assume "pc_cached (w_task w t') = Some (q', d')"
    then show "rq_key q' \<noteq> k" using alone(2) [OF assms(1,2)] assms(4) by (cases "t' = t") auto
  qed
qed

lemma charge_changes [simp]:
  "charge t k l (pop_cached k' w) = charge t k l w" "charge t k l (close_conn c w) = charge t k l w"
  "charge t k l (w\<lparr>w_leased := x\<rparr>) = charge t k l w" "charge t k l (w\<lparr>w_cache := y\<rparr>) = charge t k l w"
  "charge t k l (w\<lparr>w_next_conn := n, w_opened := f, w_selected := g\<rparr>) = charge t k l w"
  "charge t k l (w\<lparr>w_selected := g\<rparr>) = charge t k l w" "charge t k l (w\<lparr>w_opened := f\<rparr>) = charge t k l w"
  "charge t k l (w\<lparr>w_next_conn := n\<rparr>) = charge t k l w" "charge t k l (w\<lparr>w_capacity := z\<rparr>) = charge t k l w"
  by (simp_all add: charge_def pop_cached_def close_conn_def)

lemma charge_rest: "charge t k l w \<Longrightarrow> pc_conn p = None \<Longrightarrow> pc_reset p = None \<Longrightarrow> charge t k l (at_pc t p w)"
  by (simp add: charge_def at_pc_def)

lemma inv_capacity: "cache_inv fp own (w\<lparr>w_capacity := x\<rparr>) = cache_inv fp own w"
  by (simp add: cache_inv_def inv_defs)

lemma inv_drop_close:
  assumes "cache_inv fp own w" and "charge t k l w" and "map_of (w_cache w) k = Some d" and "pc_cached (w_task w t) = None"
  shows "cache_inv fp (own(cd_conn d := Nowhere)) (close_conn (cd_conn d) (pop_cached k w))"
proof -
  note i = inv_drop [OF assms]
  show ?thesis by (rule inv_close [OF i(1)]) (use i(2) in \<open>simp_all add: pop_cached_def\<close>)
qed

lemma lease_kept:
  assumes "cache_inv fp own w" and "charge t (rq_key q) l w" and "map_of (w_cache w) (rq_key q) = Some d0"
    and "cd_conn d = cd_conn d0" and "truthful (w\<lparr>w_selected := (w_selected w)(cd_conn d := s)\<rparr>) d" and "matches fp q d"
  shows "kept fp (lease t q l d now (w\<lparr>w_selected := (w_selected w)(cd_conn d := s)\<rparr>))"
proof -
  let ?c = "cd_conn d" and ?k = "rq_key q" and ?d = "d\<lparr>cd_last_used := now\<rparr>"
  let ?w0 = "at_pc t Resting w"
  let ?w1 = "pop_cached ?k ?w0"
  let ?w2 = "?w1\<lparr>w_next_conn := w_next_conn ?w1, w_opened := (w_opened ?w1)(?c := w_opened w ?c), w_selected := (w_selected ?w1)(?c := s)\<rparr>"
  let ?w3 = "?w2\<lparr>w_leased := AList.update (?k, ?c) ?d (w_leased ?w2)\<rparr>"
  have c0: "charge t ?k l ?w0" using assms(2) by (simp add: charge_rest)
  have m0: "map_of (w_cache ?w0) ?k = Some d0" "pc_cached (w_task ?w0 t) = None" using assms(3) by (simp_all add: at_pc_def)
  note dr = inv_drop [OF inv_rest [OF assms(1)] c0 m0, folded assms(4)]
  have i2: "cache_inv fp (own(?c := Nowhere)) ?w2"
    by (rule inv_server [OF dr(1)]) simp_all
  have i2': "cache_inv fp (own(?c := Lent t ?k)) ?w2"
    using inv_move [OF i2, of ?c "Lent t ?k"] dr(2,3) by (simp add: pop_cached_def at_pc_def)
  have nobody: "pc_conn (w_task ?w2 t') \<noteq> Some (q', ?c)" for t' q'
    by (rule nobody_uses [OF i2]) simp
  have tr: "truthful ?w2 ?d" using assms(5) by (simp add: truthful_def pop_cached_def at_pc_def)
  have i3: "cache_inv fp (own(?c := Lent t ?k)) ?w3"
    by (rule inv_lend [OF i2' _ tr _ nobody]) simp_all
  have mt: "matches fp q ?d" using assms(6) by (simp add: matches_def identity_changed_def)
  have "cache_inv fp (own(?c := Lent t ?k)) (at_pc t (Using q ?c) (unlock l ?w3))"
    by (rule inv_finish [OF i3, of t ?k]) (use c0 mt in \<open>auto simp: update_conv'\<close>)
  moreover have "at_pc t (Using q ?c) (unlock l ?w3) = lease t q l d now (w\<lparr>w_selected := (w_selected w)(?c := s)\<rparr>)"
    by (simp add: lease_def Let_def at_pc_def unlock_def pop_cached_def)
  ultimately show ?thesis by (metis keptI)
qed

lemma replace_kept:
  assumes "cache_inv fp own w" and "charge t (rq_key q) l w" and "map_of (w_cache w) (rq_key q) = Some d"
  shows "kept fp (replace_cached t q l d w)"
proof -
  have "cache_inv fp own (at_pc t (Admitting q l) w)"
    by (rule inv_at_pc [OF assms(1)]) (use assms(2) in \<open>auto simp: charge_def\<close>)
  moreover have "charge t (rq_key q) l (at_pc t (Admitting q l) w)" using assms(2) by (simp add: charge_rest)
  ultimately have "cache_inv fp (own(cd_conn d := Nowhere)) (close_conn (cd_conn d) (pop_cached (rq_key q) (at_pc t (Admitting q l) w)))"
    by (rule inv_drop_close) (use assms(3) in \<open>simp_all add: at_pc_def\<close>)
  moreover have "close_conn (cd_conn d) (pop_cached (rq_key q) (at_pc t (Admitting q l) w)) = replace_cached t q l d w"
    by (simp add: replace_cached_def at_pc_def pop_cached_def close_conn_def)
  ultimately show ?thesis by (metis keptI)
qed

lemma pinged_kept:
  assumes "cache_inv fp own w" and "charge t (rq_key q) l w" and "map_of (w_cache w) (rq_key q) = Some d"
  shows "kept fp (acquire_pinged fp t q l d alive now w)"
proof -
  have tr: "truthful w d" using assms(1,3) by (simp add: cache_inv_def cache_ok_def)
  have same: "w\<lparr>w_selected := (w_selected w)(cd_conn d := w_selected w (cd_conn d))\<rparr> = w" by simp
  show ?thesis
  proof (cases "\<not> alive \<or> identity_changed fp q d \<or> (rq_database q = None \<and> cd_database d \<noteq> None)")
    case True
    then have "acquire_pinged fp t q l d alive now w = replace_cached t q l d w" by (auto simp: acquire_pinged_def)
    then show ?thesis using replace_kept [OF assms] by simp
  next
    case good: False
    show ?thesis
    proof (cases "rq_database q \<noteq> None \<and> rq_database q \<noteq> Some [] \<and> rq_database q \<noteq> cd_database d")
      case True
      have "cache_inv fp own (at_pc t (Switching q l d) w)"
        by (rule inv_at_pc [OF assms(1)]) (use assms(2,3) good in \<open>auto simp: charge_def\<close>)
      moreover have "acquire_pinged fp t q l d alive now w = at_pc t (Switching q l d) w"
        using True good by (auto simp: acquire_pinged_def)
      ultimately show ?thesis by (metis keptI)
    next
      case False
      then have "acquire_pinged fp t q l d alive now w = lease t q l d now w" "matches fp q d"
        using good by (auto simp: acquire_pinged_def matches_def)
      then show ?thesis
        using lease_kept [OF assms refl, of "w_selected w (cd_conn d)" now] tr by (simp add: same)
    qed
  qed
qed


lemma lock_facts:
  assumes "cache_inv fp own w" and "pc_lock (w_task w t) = Some (k, l)"
  shows "map_of (w_locks w) k = Some l" "l < w_next_lock w" "pc_inside (w_task w t) \<Longrightarrow> w_holder w l = Some t"
  using assms unfolding cache_inv_def locks_ok_def lockers_ok_def lock_table_ok_def by blast+

lemma charge_inside:
  assumes "cache_inv fp own w" and "pc_lock (w_task w t) = Some (k, l)" and "pc_inside (w_task w t)"
    and "pc_conn (w_task w t) = None" and "pc_reset (w_task w t) = None"
  shows "charge t k l w"
  using lock_facts [OF assms(1,2)] assms(3-) by (simp add: charge_def)

lemma acquire_begin_kept:
  assumes "kept fp w"
  shows "kept fp (acquire_begin t q w)"
proof -
  obtain own where i: "cache_inv fp own w" using assms by (auto simp: kept_def)
  obtain l w1 where g: "get_lock (rq_key q) w = (l, w1)" by force
  note j = inv_get_lock [OF i g]
  have "cache_inv fp own (at_pc t (Entering q l) w1)"
    by (rule inv_at_pc [OF j [THEN conjunct1]]) (use j in auto)
  then show ?thesis by (auto simp: acquire_begin_def g intro: keptI)
qed

lemma acquire_locked_kept:
  assumes "kept fp w" and "w_task w t = Entering q l" and "w_holder w l = None"
  shows "kept fp (acquire_locked fp t q l now w)"
proof -
  obtain own where i: "cache_inv fp own w" using assms by (auto simp: kept_def)
  have lf: "map_of (w_locks w) (rq_key q) = Some l" "l < w_next_lock w" using lock_facts [OF i, of t "rq_key q" l] assms(2) by simp_all
  let ?w = "w\<lparr>w_holder := (w_holder w)(l := Some t)\<rparr>"
  have j: "cache_inv fp own ?w" by (rule inv_lock [OF i assms(3) lf(2)])
  have c: "charge t (rq_key q) l ?w" using lf assms(2) by (simp add: charge_def)
  show ?thesis
  proof (cases "map_of (w_cache w) (rq_key q)")
    case None
    have "cache_inv fp own (at_pc t (Admitting q l) ?w)"
      by (rule inv_at_pc [OF j]) (use lf in auto)
    with None show ?thesis by (auto simp: acquire_locked_def Let_def intro: keptI)
  next
    case (Some d)
    show ?thesis
    proof (cases "w_health_check w")
      case True
      have "cache_inv fp own (at_pc t (Pinging q l d) ?w)"
        by (rule inv_at_pc [OF j]) (use lf Some in auto)
      with Some True show ?thesis by (auto simp: acquire_locked_def Let_def intro: keptI)
    next
      case False
      with Some pinged_kept [OF j c, of d True now] show ?thesis by (simp add: acquire_locked_def Let_def)
    qed
  qed
qed

lemma acquire_switched_kept:
  assumes "kept fp w" and "w_task w t = Switching q l d"
  shows "kept fp (acquire_switched t q l d ok now w)"
proof -
  obtain own where i: "cache_inv fp own w" using assms by (auto simp: kept_def)
  have r: "map_of (w_cache w) (rq_key q) = Some d" "\<not> identity_changed fp q d"
    using i assms(2) unfolding cache_inv_def readers_ok_def by (metis pc_cached.simps(2), metis pc_switching.simps(1))
  have tr: "truthful w d" using i r(1) by (simp add: cache_inv_def cache_ok_def)
  have c: "charge t (rq_key q) l w" by (rule charge_inside [OF i]) (use assms(2) in auto)
  show ?thesis
  proof (cases ok)
    case True
    then show ?thesis
      using lease_kept [OF i c r(1), of "d\<lparr>cd_database := rq_database q\<rparr>" "rq_database q" now] tr r(2)
      by (simp add: acquire_switched_def truthful_def matches_def identity_changed_def)
  next
    case False
    have j: "cache_inv fp own (at_pc t Resting w)" by (rule inv_rest [OF i])
    have c1: "charge t (rq_key q) l (at_pc t Resting w)" using c by (simp add: charge_rest)
    have "cache_inv fp (own(cd_conn d := Nowhere)) (close_conn (cd_conn d) (pop_cached (rq_key q) (at_pc t Resting w)))"
      by (rule inv_drop_close [OF j c1]) (use r(1) in \<open>simp_all add: at_pc_def\<close>)
    from inv_rest_finish [OF this, of t "rq_key q" l] c1
    have "cache_inv fp (own(cd_conn d := Nowhere))
        (at_pc t Resting (unlock l (close_conn (cd_conn d) (pop_cached (rq_key q) (at_pc t Resting w)))))" by simp
    moreover have "at_pc t Resting (unlock l (close_conn (cd_conn d) (pop_cached (rq_key q) (at_pc t Resting w))))
        = acquire_switched t q l d ok now w"
      using False by (simp add: acquire_switched_def at_pc_def unlock_def close_conn_def pop_cached_def)
    ultimately show ?thesis by (metis keptI)
  qed
qed

lemma acquire_admitted_kept:
  assumes "kept fp w" and "w_task w t = Admitting q l"
  shows "kept fp (acquire_admitted t q l w)"
proof -
  obtain own where i: "cache_inv fp own w" using assms by (auto simp: kept_def)
  have c: "charge t (rq_key q) l w" by (rule charge_inside [OF i]) (use assms(2) in auto)
  have "cache_inv fp own (at_pc t Resting (unlock l w))" by (rule inv_rest_finish [OF i c])
  moreover have "cache_inv fp own (at_pc t (Connecting q l) (w\<lparr>w_capacity := Some t\<rparr>))"
    by (rule inv_at_pc) (use i c in \<open>auto simp: inv_capacity charge_def\<close>)
  ultimately show ?thesis by (auto simp: acquire_admitted_def intro: keptI)
qed

lemma inv_pop_any:
  assumes "cache_inv fp own w" and "charge t k l w" and "pc_cached (w_task w t) = None"
  shows "kept fp (at_pc t Resting (unlock l (pop_cached k w)))"
proof (cases "map_of (w_cache w) k")
  case None
  then have "pop_cached k w = w" by (simp add: pop_cached_def map_of_eq_None_iff)
  then show ?thesis using inv_rest_finish [OF assms(1,2)] by (auto intro: keptI)
next
  case (Some d)
  from inv_drop(1) [OF assms(1,2) Some assms(3)] show ?thesis
    using inv_rest_finish [of fp _ "pop_cached k w" t k l] assms(2) by (auto intro: keptI)
qed

lemma acquire_connected_kept:
  assumes "kept fp w0" and "w_task w0 t = Connecting q l"
  shows "kept fp (acquire_connected fp t q l ok now w0)"
proof -
  let ?w = "w0\<lparr>w_capacity := None\<rparr>" and ?k = "rq_key q"
  obtain own where i: "cache_inv fp own ?w" using assms by (auto simp: kept_def inv_capacity)
  have c: "charge t ?k l ?w" by (rule charge_inside [OF i]) (use assms(2) in auto)
  show ?thesis
  proof (cases ok)
    case False
    then show ?thesis using inv_pop_any [OF i c] assms(2) by (simp add: acquire_connected_def)
  next
    case True
    let ?c = "w_next_conn ?w" and ?id = "Some (rq_host q, rq_port q, rq_user q, fp (rq_password q))"
    let ?d = "\<lparr>cd_conn = ?c, cd_created_at = now, cd_last_used = now, cd_host = rq_host q, cd_port = rq_port q,
                    cd_user = rq_user q, cd_fingerprint = fp (rq_password q), cd_database = rq_database q\<rparr>"
    let ?w2 = "?w\<lparr>w_next_conn := ?c + 1, w_opened := (w_opened ?w)(?c := ?id), w_selected := (w_selected ?w)(?c := rq_database q)\<rparr>"
    let ?w3 = "?w2\<lparr>w_leased := AList.update (?k, ?c) ?d (w_leased ?w2)\<rparr>"
    have new: "own ?c = Nowhere" "?c \<notin> set (w_closed ?w)"
      using i unfolding cache_inv_def places_ok_def by (blast, metis less_irrefl)
    have i2: "cache_inv fp own ?w2" by (rule inv_server [OF i new(1)]) simp
    have i2': "cache_inv fp (own(?c := Lent t ?k)) ?w2"
      by (rule inv_move [OF i2 new(1)]) (use new(2) in simp_all)
    have tr: "truthful ?w2 ?d" by (simp add: truthful_def)
    have i3: "cache_inv fp (own(?c := Lent t ?k)) ?w3"
      by (rule inv_lend [OF i2' _ tr _ nobody_uses [OF i2 new(1)]]) simp_all
    have "cache_inv fp (own(?c := Lent t ?k)) (at_pc t (Using q ?c) (unlock l ?w3))"
      by (rule inv_finish [OF i3, of t ?k]) (use c in \<open>auto simp: update_conv' matches_def identity_changed_def charge_def\<close>)
    moreover have "at_pc t (Using q ?c) (unlock l ?w3) = acquire_connected fp t q l ok now w0"
      using True by (simp add: acquire_connected_def Let_def at_pc_def unlock_def)
    ultimately show ?thesis by (metis keptI)
  qed
qed


lemma release_begin_kept:
  assumes "kept fp w" and "w_task w t = Using q c"
  shows "kept fp (release_begin t q c discard w)"
proof -
  obtain own where i: "cache_inv fp own w" using assms by (auto simp: kept_def)
  obtain l w1 where g: "get_lock (rq_key q) w = (l, w1)" by force
  note j = inv_get_lock [OF i g]
  have "own c = Lent t (rq_key q) \<and> (\<exists>d. map_of (w_leased w) (rq_key q, c) = Some d \<and> matches fp q d)"
    using i assms(2) unfolding cache_inv_def users_ok_def by (metis pc_conn.simps(1))
  then have "cache_inv fp own (at_pc t (Leaving q c discard l) w1)"
    by (intro inv_at_pc [OF j [THEN conjunct1]]) (use j in auto)
  then show ?thesis by (auto simp: release_begin_def g intro: keptI)
qed

text \<open>Dropping the idle connection of the key in charge: a connection that is not in the cache stays
  where it is.\<close>

lemma drop_idle_inv:
  assumes "cache_inv fp own w" and "charge t k l w" and "pc_cached (w_task w t) = None" and "\<And>k. own c \<noteq> Stored k"
  shows "\<exists>own1. cache_inv fp own1 (drop_idle k c w) \<and> own1 c = own c \<and> charge t k l (drop_idle k c w)
    \<and> map_of (w_cache (drop_idle k c w)) k = None \<and> w_task (drop_idle k c w) = w_task w
    \<and> w_opened (drop_idle k c w) = w_opened w \<and> w_selected (drop_idle k c w) = w_selected w"
proof (cases "map_of (w_cache w) k")
  case None
  then show ?thesis using assms by (auto simp: drop_idle_def)
next
  case (Some idle)
  have ne: "cd_conn idle \<noteq> c" using inv_drop(4) [OF assms(1,2) Some assms(3)] assms(4) by auto
  then have eq: "drop_idle k c w = close_conn (cd_conn idle) (pop_cached k w)" using Some by (simp add: drop_idle_def)
  have "cache_inv fp (own(cd_conn idle := Nowhere)) (drop_idle k c w)"
    unfolding eq by (rule inv_drop_close [OF assms(1,2) Some assms(3)])
  then show ?thesis using ne assms(2) unfolding eq
    by (intro exI [of _ "own(cd_conn idle := Nowhere)"]) (simp add: close_conn_def pop_cached_def delete_conv' charge_def)
qed

lemma release_locked_kept:
  assumes "kept fp w0" and "w_task w0 t = Leaving q c discard l" and "w_holder w0 l = None"
  shows "kept fp (release_locked t q c discard l w0)"
proof -
  obtain own where i0: "cache_inv fp own w0" using assms by (auto simp: kept_def)
  let ?k = "rq_key q"
  have lf: "map_of (w_locks w0) ?k = Some l" "l < w_next_lock w0"
    using lock_facts [OF i0, of t ?k l] assms(2) by simp_all
  let ?w = "w0\<lparr>w_holder := (w_holder w0)(l := Some t)\<rparr>"
  have i: "cache_inv fp own ?w" by (rule inv_lock [OF i0 assms(3) lf(2)])
  obtain d where d: "map_of (w_leased ?w) (?k, c) = Some d" and o: "own c = Lent t ?k"
    using i0 assms(2) unfolding cache_inv_def users_ok_def by (fastforce dest: spec [of _ t])
  have dc: "cd_conn d = c" "truthful ?w d" using i d unfolding cache_inv_def leased_ok_def by blast+
  have cn: "c < w_next_conn ?w" "c \<notin> set (w_closed ?w)"
    using i o unfolding cache_inv_def places_ok_def by (metis leI place.distinct(3))+
  let ?r = "at_pc t Resting ?w"
  have j: "cache_inv fp own ?r" by (rule inv_rest [OF i])
  have nobody: "pc_conn (w_task ?r t') \<noteq> Some (q', c)" for t' q'
  proof
    assume u: "pc_conn (w_task ?r t') = Some (q', c)"
    then have "own c = Lent t' (rq_key q')" using j unfolding cache_inv_def users_ok_def by blast
    then have "t' = t" using o by simp
    then show False using u by (simp add: at_pc_def)
  qed
  let ?u = "?r\<lparr>w_leased := AList.delete (?k, c) (w_leased ?r)\<rparr>"
  have k: "cache_inv fp (own(c := Nowhere)) ?u"
    by (rule inv_unlend [OF j _ nobody]) (use d in \<open>simp add: at_pc_def\<close>)
  have ch: "charge t ?k l ?u" using lf by (simp add: charge_def at_pc_def)
  show ?thesis
  proof (cases discard)
    case True
    have m: "cache_inv fp (own(c := Nowhere)) (close_conn c ?u)"
      by (rule inv_close [OF k]) (use cn in \<open>simp_all add: at_pc_def\<close>)
    have chc: "charge t ?k l (close_conn c ?u)" using ch by (simp only: charge_changes)
    have tk: "pc_cached (w_task (close_conn c ?u) t) = None" by (simp add: close_conn_def at_pc_def)
    obtain own1 where f: "cache_inv fp own1 (drop_idle ?k c (close_conn c ?u))" "charge t ?k l (drop_idle ?k c (close_conn c ?u))"
      using drop_idle_inv [OF m chc tk, of c] by auto
    have "at_pc t Resting (unlock l (drop_idle ?k c (close_conn c ?u))) = release_locked t q c discard l w0"
      using True d
      by (auto simp: release_locked_def Let_def drop_idle_def close_conn_def pop_cached_def at_pc_def unlock_def split: option.splits)
    then show ?thesis using inv_rest_finish [OF f] by (metis keptI)
  next
    case False
    have m: "cache_inv fp (own(c := Away t)) ?u"
      using inv_move [OF k, of c "Away t"] cn by (simp add: at_pc_def)
    have "cache_inv fp (own(c := Away t)) (at_pc t (Resetting q c l d) ?u)"
      by (rule inv_at_pc [OF m]) (use lf dc in \<open>auto simp: at_pc_def\<close>)
    moreover have "at_pc t (Resetting q c l d) ?u = release_locked t q c discard l w0"
      using False d by (simp add: release_locked_def Let_def at_pc_def)
    ultimately show ?thesis by (metis keptI)
  qed
qed

lemma release_reset_kept:
  assumes "kept fp w" and "w_task w t = Resetting q c l d"
  shows "kept fp (release_reset t q c l d ok now w)"
proof -
  obtain own where i: "cache_inv fp own w" using assms by (auto simp: kept_def)
  let ?k = "rq_key q"
  have o: "own c = Away t" "cd_conn d = c" "truthful w d"
    using i assms(2) unfolding cache_inv_def resets_ok_def by (metis pc_reset.simps(1))+
  have hold: "map_of (w_locks w) ?k = Some l" "w_holder w l = Some t"
    using lock_facts [OF i, of t ?k l] assms(2) by simp_all
  let ?r = "at_pc t Resting w"
  have j: "cache_inv fp own ?r" by (rule inv_rest [OF i])
  have ch: "charge t ?k l ?r" using hold by (simp add: charge_def at_pc_def)
  have task: "w_task ?r t = Resting" by (simp add: at_pc_def)
  show ?thesis
  proof (cases ok)
    case True
    let ?u = "drop_idle ?k c ?r"
    obtain own1 where u: "cache_inv fp own1 ?u" "own1 c = Away t" "charge t ?k l ?u" "map_of (w_cache ?u) ?k = None"
      "w_task ?u = w_task ?r" "w_opened ?u = w_opened ?r" "w_selected ?u = w_selected ?r"
      using drop_idle_inv [OF j ch, of c] o(1) task by auto
    have cn: "c < w_next_conn ?u" "c \<notin> set (w_closed ?u)"
      using u(1,2) unfolding cache_inv_def places_ok_def by (metis leI place.distinct(5))+
    have b: "cache_inv fp (own1(c := Nowhere)) ?u" by (rule inv_back [OF u(1,2)]) (simp add: u(5) task)
    have b1: "cache_inv fp (own1(c := Stored ?k)) ?u"
      using inv_move [OF b, of c "Stored ?k"] cn by simp
    let ?d = "d\<lparr>cd_last_used := now\<rparr>"
    have "cache_inv fp (own1(c := Stored ?k)) (?u\<lparr>w_cache := AList.update ?k ?d (w_cache ?u)\<rparr>)"
      by (rule inv_store [OF b1]) (use o u(4,6,7) in \<open>simp_all add: truthful_def at_pc_def\<close>)
    from inv_rest_finish [OF this, of t ?k l] u(3)
    have "kept fp (at_pc t Resting (unlock l (?u\<lparr>w_cache := AList.update ?k ?d (w_cache ?u)\<rparr>)))"
      by (auto intro: keptI)
    moreover have "at_pc t Resting (unlock l (?u\<lparr>w_cache := AList.update ?k ?d (w_cache ?u)\<rparr>)) = release_reset t q c l d ok now w"
      using True by (auto simp: release_reset_def Let_def drop_idle_def close_conn_def pop_cached_def at_pc_def unlock_def split: option.splits)
    ultimately show ?thesis by simp
  next
    case False
    have cn: "c < w_next_conn ?r" using j o(1) unfolding cache_inv_def places_ok_def by (metis leI place.distinct(5))
    have b: "cache_inv fp (own(c := Nowhere)) ?r" by (rule inv_back [OF j o(1)]) (simp add: task)
    have m: "cache_inv fp (own(c := Nowhere)) (close_conn c ?r)" by (rule inv_close [OF b]) (use cn in simp_all)
    have chc: "charge t ?k l (close_conn c ?r)" using ch by (simp only: charge_changes)
    have tk: "pc_cached (w_task (close_conn c ?r) t) = None" by (simp add: close_conn_def at_pc_def)
    obtain own1 where f: "cache_inv fp own1 (drop_idle ?k c (close_conn c ?r))" "charge t ?k l (drop_idle ?k c (close_conn c ?r))"
      using drop_idle_inv [OF m chc tk, of c] by auto
    have "at_pc t Resting (unlock l (drop_idle ?k c (close_conn c ?r))) = release_reset t q c l d ok now w"
      using False by (auto simp: release_reset_def Let_def drop_idle_def close_conn_def pop_cached_def at_pc_def unlock_def split: option.splits)
    then show ?thesis using inv_rest_finish [OF f] by (metis keptI)
  qed
qed


text \<open>The clean-up, when no task is in the middle of an operation.\<close>

definition quiet :: "world \<Rightarrow> bool" where
  "quiet w \<longleftrightarrow> (\<forall>t. pc_lock (w_task w t) = None)"

lemma quiet_pcs: "quiet w \<Longrightarrow> pc_cached (w_task w t) = None \<and> pc_switching (w_task w t) = None \<and> pc_reset (w_task w t) = None"
  by (cases "w_task w t") (auto simp: quiet_def dest: spec [of _ t])

lemma cleanup_kept:
  assumes "kept fp w" and "quiet w"
  shows "kept fp (cleanup_once now w)"
proof -
  obtain own where i: "cache_inv fp own w" using assms by (auto simp: kept_def)
  note j = i [unfolded cache_inv_def]
  let ?w = "cleanup_once now w"
  define gone where "gone = (\<lambda>c. \<exists>k d. map_of (w_cache w) k = Some d \<and> conn_expired now w d \<and> cd_conn d = c)"
  define own1 where "own1 = (\<lambda>c. if gone c then Nowhere else own c)"
  have dist: "distinct (map fst (w_cache w))" "distinct (map fst (w_locks w))" using j by (simp_all add: places_ok_def)
  have stored: "own c = Stored k" if "map_of (w_cache w) k = Some d" "cd_conn d = c" for k d c
    using j that by (auto simp: cache_ok_def)
  have st: "\<exists>k. own c = Stored k" if "gone c" for c using that stored by (auto simp: gone_def)
  have cache: "map_of (w_cache ?w) k = (case map_of (w_cache w) k of Some d \<Rightarrow> if conn_expired now w d then None else Some d | None \<Rightarrow> None)" for k
    using map_of_filter [OF dist(1), of "\<lambda>(k, d). \<not> conn_expired now w d" k]
    by (auto simp: cleanup_once_def Let_def split: option.splits)
  have eq: "w_task ?w = w_task w" "w_leased ?w = w_leased w" "w_next_conn ?w = w_next_conn w" "w_next_lock ?w = w_next_lock w"
    "w_holder ?w = w_holder w" and tr: "truthful ?w = truthful w"
    by (simp_all add: cleanup_once_def Let_def)
  have fresh: "\<not> gone (cd_conn d)" if "map_of (w_cache w) k = Some d" "\<not> conn_expired now w d" for k d
  proof
    assume "gone (cd_conn d)"
    then obtain k' d' where d': "map_of (w_cache w) k' = Some d'" "conn_expired now w d'" "cd_conn d' = cd_conn d"
      by (auto simp: gone_def)
    then have "k' = k" using stored [OF d'(1,3)] stored [OF that(1) refl] by simp
    then show False using d' that by simp
  qed
  have "cache_ok own1 ?w"
    using j fresh unfolding cache_ok_def cache tr own1_def by (auto split: option.splits if_splits)
  moreover have "leased_ok own1 ?w"
    using j st unfolding leased_ok_def eq tr own1_def by (metis place.distinct(7))
  moreover have "users_ok fp own1 ?w"
    using j st unfolding users_ok_def eq own1_def by (metis place.distinct(7))
  moreover have "resets_ok own1 ?w" "readers_ok fp ?w" "lockers_ok ?w"
    using quiet_pcs [OF assms(2)] assms(2) by (simp_all add: resets_ok_def readers_ok_def lockers_ok_def eq quiet_def)
  moreover have "lock_table_ok ?w"
  proof -
    have sub: "map_of (w_locks ?w) k = Some l \<Longrightarrow> map_of (w_locks w) k = Some l" for k l
      by (auto simp: cleanup_once_def Let_def map_of_filter [OF dist(2)] split: option.splits if_splits)
    then show ?thesis using j unfolding locks_ok_def lock_table_ok_def eq by (meson sub)
  qed
  moreover have "places_ok own1 ?w"
  proof -
    have old: "\<And>c. c \<ge> w_next_conn w \<or> c \<in> set (w_closed w) \<Longrightarrow> own c = Nowhere" "\<forall>c \<in> set (w_closed w). c < w_next_conn w"
      using j unfolding places_ok_def by blast+
    have gn: "gone c \<Longrightarrow> c < w_next_conn w" for c using st old(1) by (metis leI place.distinct(1))
    have cl: "c \<in> set (w_closed ?w) \<Longrightarrow> gone c \<or> c \<in> set (w_closed w)" for c
      using dist(1) by (auto simp: cleanup_once_def Let_def gone_def)
    have "distinct (map fst (w_cache ?w))" "distinct (map fst (w_locks ?w))"
      using dist by (simp_all add: cleanup_once_def Let_def distinct_filter_keys)
    then show ?thesis using old gn cl unfolding places_ok_def eq own1_def by auto
  qed
  ultimately show ?thesis unfolding kept_def cache_inv_def locks_ok_def by blast
qed

lemma cancel_kept:
  assumes "kept fp w" and "perform fp (Cancel t x) w = Some w1" and "\<And>q l d. w_task w t = Switching q l d \<Longrightarrow> \<not> x"
  shows "kept fp w1"
proof -
  obtain own where i: "cache_inv fp own w" using assms by (auto simp: kept_def)
  have inside: "kept fp (at_pc t Resting (unlock l w))"
    if "pc_lock (w_task w t) = Some (k, l)" "pc_inside (w_task w t)" "pc_conn (w_task w t) = None" "pc_reset (w_task w t) = None" for k l
    using inv_rest_finish [OF i charge_inside [OF i that]] by (rule keptI)
  have simple: "kept fp (at_pc t Resting w)" using inv_rest [OF i] by (rule keptI)
  show ?thesis
  proof (cases "w_task w t")
    case (Connecting q l)
    have "charge t (rq_key q) l w" by (rule charge_inside [OF i]) (use Connecting in auto)
    then have "kept fp (at_pc t Resting (unlock l (w\<lparr>w_capacity := None\<rparr>)))"
      using inv_rest_finish [of fp own "w\<lparr>w_capacity := None\<rparr>" t "rq_key q" l] i by (auto simp: inv_capacity intro: keptI)
    with Connecting assms(2) show ?thesis by auto
  next
    case (Resetting q c l d)
    have "charge t (rq_key q) l (at_pc t Resting w)"
      using lock_facts [OF i, of t "rq_key q" l] Resetting by (simp add: charge_def at_pc_def)
    then have "kept fp (at_pc t Resting (unlock l (at_pc t Resting w)))"
      by (rule keptI [OF inv_rest_finish [OF inv_rest [OF i]]])
    moreover have "at_pc t Resting (unlock l (at_pc t Resting w)) = at_pc t Resting (unlock l w)"
      by (simp add: at_pc_def unlock_def)
    ultimately show ?thesis using Resetting assms(2) by simp
  qed (use assms(2,3) inside simple in auto)
qed


section \<open>What orderly runs keep\<close>

fun calm :: "segment \<Rightarrow> world \<Rightarrow> bool" where
  "calm (Cleanup now) w = quiet w"
| "calm CloseAll w = False"
| "calm (Cancel t x) w = (case w_task w t of Switching q l d \<Rightarrow> \<not> x | _ \<Rightarrow> True)"
| "calm _ w = True"

fun orderly :: "(string \<Rightarrow> string) \<Rightarrow> segment list \<Rightarrow> world \<Rightarrow> bool" where
  "orderly fp [] w = True"
| "orderly fp (s # ss) w = (calm s w \<and> (case perform fp s w of None \<Rightarrow> True | Some w1 \<Rightarrow> orderly fp ss w1))"

lemma perform_kept:
  assumes "kept fp w" and "perform fp s w = Some w1" and "calm s w"
  shows "kept fp w1"
proof (cases s)
  case (Acquire t q)
  then show ?thesis using assms acquire_begin_kept by (auto split: pc.splits)
next
  case (Enter t now)
  then show ?thesis using assms acquire_locked_kept by (auto split: pc.splits if_splits)
next
  case (Pinged t ok now)
  then obtain q l d where p: "w_task w t = Pinging q l d" "w1 = acquire_pinged fp t q l d ok now w"
    using assms(2) by (auto split: pc.splits)
  obtain own where i: "cache_inv fp own w" using assms by (auto simp: kept_def)
  have "charge t (rq_key q) l w" by (rule charge_inside [OF i]) (use p in auto)
  moreover have "map_of (w_cache w) (rq_key q) = Some d"
    using i p(1) unfolding cache_inv_def readers_ok_def by (metis pc_cached.simps(1))
  ultimately show ?thesis using pinged_kept [OF i] p(2) by simp
next
  case (Switched t ok now)
  then show ?thesis using assms acquire_switched_kept by (auto split: pc.splits)
next
  case (Admit t)
  then show ?thesis using assms acquire_admitted_kept by (auto split: pc.splits if_splits)
next
  case (Connected t ok now)
  then show ?thesis using assms acquire_connected_kept by (auto split: pc.splits)
next
  case (Release t discard)
  then show ?thesis using assms release_begin_kept by (auto split: pc.splits)
next
  case (Leave t)
  then show ?thesis using assms release_locked_kept by (auto split: pc.splits if_splits)
next
  case (Reset t ok now)
  then show ?thesis using assms release_reset_kept by (auto split: pc.splits)
next
  case (Cancel t x)
  with assms(3) have "\<And>q l d. w_task w t = Switching q l d \<Longrightarrow> \<not> x" by simp
  then show ?thesis using cancel_kept assms(1,2) Cancel by metis
next
  case (Cleanup now)
  then show ?thesis using assms cleanup_kept by auto
next
  case CloseAll
  then show ?thesis using assms(3) by simp
qed

lemma run_kept: "kept fp w \<Longrightarrow> perform_all fp ss w = Some w1 \<Longrightarrow> orderly fp ss w \<Longrightarrow> kept fp w1"
proof (induction ss arbitrary: w)
  case (Cons s ss)
  then obtain w2 where "perform fp s w = Some w2" "perform_all fp ss w2 = Some w1"
    by (auto split: option.splits)
  with Cons perform_kept [of fp w s w2] show ?case by auto
qed simp

text \<open>C6: a leased connection is private and is the one that was asked for. After every run in which the
  clean-up does not interrupt an operation, no executed \<open>USE\<close> is cancelled and the cache is not shut
  down, whatever the interleaving of callers and the failures of servers: no connection is with two
  callers, and the connection a caller has is open, was opened with the host, port, account and
  password (known by its fingerprint) of the caller's request, and has the database of the request
  selected, unless that is the empty name.\<close>

theorem leased_connection_is_private:
  assumes "perform_all fp ss (fresh_world m i h) = Some w" and "orderly fp ss (fresh_world m i h)"
    and "w_task w t = Using q c"
  shows "(w_task w t' = Using q' c \<longrightarrow> t' = t) \<and> c \<notin> set (w_closed w)
    \<and> w_opened w c = Some (rq_host q, rq_port q, rq_user q, fp (rq_password q))
    \<and> (rq_database q \<noteq> Some [] \<longrightarrow> w_selected w c = rq_database q)"
proof -
  obtain own where inv: "cache_inv fp own w"
    using run_kept [OF keptI [OF fresh_inv] assms(1,2)] by (auto simp: kept_def)
  have use: "pc_conn (w_task w t) = Some (q, c) \<Longrightarrow> own c = Lent t (rq_key q) \<and> (\<exists>d. map_of (w_leased w) (rq_key q, c) = Some d \<and> matches fp q d)" for t q
    using inv unfolding cache_inv_def users_ok_def by blast
  obtain d where o: "own c = Lent t (rq_key q)" and d: "map_of (w_leased w) (rq_key q, c) = Some d" "matches fp q d"
    using use [of t q] assms(3) by auto
  have "cd_conn d = c" "truthful w d" using inv d(1) unfolding cache_inv_def leased_ok_def by blast+
  moreover have "c \<notin> set (w_closed w)"
    using inv o unfolding cache_inv_def places_ok_def by (metis place.distinct(3))
  moreover have "t' = t" if "w_task w t' = Using q' c" using use [of t' q'] o that by simp
  ultimately show ?thesis using d(2) by (auto simp: truthful_def matches_def identity_changed_def)
qed


section \<open>Concrete runs\<close>

definition cache_request :: "string \<Rightarrow> string option \<Rightarrow> conn_request" where
  "cache_request u db = \<lparr>rq_user_id = u, rq_instance_id = ''i'', rq_host = ''h'', rq_port = 3306, rq_user = ''u'',
     rq_password = ''p'', rq_database = db\<rparr>"

text \<open>A connection is opened, given back, and taken again by the next caller, who asks for another database.\<close>

definition reuse_run :: "segment list" where
  "reuse_run = [Acquire 0 (cache_request ''a'' (Some ''x'')), Enter 0 0, Admit 0, Connected 0 True 0, Release 0 False, Leave 0,
     Reset 0 True 1, Acquire 1 (cache_request ''a'' (Some ''y'')), Enter 1 2, Pinged 1 True 2, Switched 1 True 2]"

lemmas cache_run_simps = fresh_world_def cache_request_def rq_key_def cache_size_def at_pc_def unlock_def close_conn_def
  pop_cached_def get_lock_def acquire_begin_def identity_changed_def lease_def replace_cached_def acquire_pinged_def
  acquire_locked_def acquire_switched_def acquire_admitted_def acquire_connected_def release_begin_def drop_idle_def
  release_locked_def release_reset_def conn_expired_def cleanup_once_def Let_def

lemma reuse_run_result:
  "\<exists>w. perform_all (\<lambda>s. s) reuse_run (fresh_world 1 1800 True) = Some w \<and> w_task w 1 = Using (cache_request ''a'' (Some ''y'')) 0"
  by (simp add: reuse_run_def cache_run_simps)

theorem leased_connection_is_private_witness:
  "\<exists>w. perform_all (\<lambda>s. s) reuse_run (fresh_world 1 1800 True) = Some w \<and> 0 \<notin> set (w_closed w)
    \<and> w_opened w 0 = Some (''h'', 3306, ''u'', ''p'') \<and> w_selected w 0 = Some ''y''"
proof -
  obtain w where w: "perform_all (\<lambda>s. s) reuse_run (fresh_world 1 1800 True) = Some w"
    "w_task w 1 = Using (cache_request ''a'' (Some ''y'')) 0" using reuse_run_result by blast
  have "orderly (\<lambda>s. s) reuse_run (fresh_world 1 1800 True)" by (simp add: reuse_run_def cache_run_simps)
  from leased_connection_is_private [OF w(1) this w(2)] w show ?thesis by (simp add: cache_request_def)
qed

text \<open>the limit on connections is not kept. With a limit of one, a second connection is opened while
  the first is being reset, because a connection that is being given back is not counted; then
  both are in the cache. No clean-up and no cancellation is involved.\<close>

theorem connection_limit_exceeded:
  "\<exists>ss w. perform_all (\<lambda>s. s) ss (fresh_world 1 1800 True) = Some w \<and> orderly (\<lambda>s. s) ss (fresh_world 1 1800 True)
    \<and> w_max_total_pools w < cache_size w"
  by (rule exI [of _ "[Acquire 0 (cache_request ''a'' None), Enter 0 0, Admit 0, Connected 0 True 0, Release 0 False, Leave 0,
      Acquire 1 (cache_request ''b'' None), Enter 1 0, Admit 1, Connected 1 True 0, Reset 0 True 0]"])
    (simp add: cache_run_simps)


text \<open>The clean-up closes an idle connection while its new holder waits for the answer to the ping.\<close>

definition closed_run :: "segment list" where
  "closed_run = [Acquire 0 (cache_request ''a'' None), Enter 0 0, Admit 0, Connected 0 True 0, Release 0 False, Leave 0,
     Reset 0 True 0, Acquire 1 (cache_request ''a'' None), Enter 1 1801, Cleanup 1801, Pinged 1 True 1801]"

text \<open>A task is cancelled while the server executes its \<open>USE\<close>.\<close>

definition cancelled_run :: "segment list" where
  "cancelled_run = [Acquire 0 (cache_request ''a'' (Some ''x'')), Enter 0 0, Admit 0, Connected 0 True 0, Release 0 False, Leave 0,
     Reset 0 True 0, Acquire 1 (cache_request ''a'' (Some ''y'')), Enter 1 1, Pinged 1 True 1, Cancel 1 True,
     Acquire 2 (cache_request ''a'' (Some ''x'')), Enter 2 2, Pinged 2 True 2]"

text \<open>The clean-up removes the lock of a key between its release and the next holder's turn; later callers
  get another lock.\<close>

definition shared_run :: "segment list" where
  "shared_run = (let q = cache_request ''a'' None in
     [Acquire 0 q, Enter 0 0, Admit 0, Acquire 1 q, Acquire 2 q, Acquire 3 q, Connected 0 False 0, Cleanup 0,
      Enter 1 0, Admit 1, Acquire 4 q, Enter 4 0, Connected 1 True 0, Enter 2 0, Admit 4, Connected 4 True 0,
      Release 4 False, Admit 2, Leave 4, Reset 4 True 0, Connected 2 True 0, Enter 3 0, Acquire 5 q, Enter 5 0,
      Pinged 3 True 0, Pinged 5 True 0])"

text \<open>what the side conditions of the exclusive lease are for. Each of these runs is one the code can
  take, and breaks one part of what a caller relies on: the clean-up, which takes no key lock, closes a
  connection that is then leased; a cancelled \<open>USE\<close> that the server has executed leaves a connection with
  another database than the recorded one; and a lock that the clean-up removes while callers wait for
  it lets two callers lease the same connection.\<close>

theorem lease_side_conditions_needed:
  "(\<exists>w. perform_all (\<lambda>s. s) closed_run (fresh_world 9 1800 True) = Some w
      \<and> w_task w 1 = Using (cache_request ''a'' None) 0 \<and> 0 \<in> set (w_closed w))
   \<and> (\<exists>w. perform_all (\<lambda>s. s) cancelled_run (fresh_world 9 1800 True) = Some w
      \<and> w_task w 2 = Using (cache_request ''a'' (Some ''x'')) 0 \<and> w_selected w 0 = Some ''y'')
   \<and> (\<exists>w c. perform_all (\<lambda>s. s) shared_run (fresh_world 9 1800 True) = Some w
      \<and> w_task w 3 = Using (cache_request ''a'' None) c \<and> w_task w 5 = Using (cache_request ''a'' None) c)"
proof (intro conjI)
  show "\<exists>w. perform_all (\<lambda>s. s) closed_run (fresh_world 9 1800 True) = Some w
      \<and> w_task w 1 = Using (cache_request ''a'' None) 0 \<and> 0 \<in> set (w_closed w)"
    by (simp add: closed_run_def cache_run_simps)
  show "\<exists>w. perform_all (\<lambda>s. s) cancelled_run (fresh_world 9 1800 True) = Some w
      \<and> w_task w 2 = Using (cache_request ''a'' (Some ''x'')) 0 \<and> w_selected w 0 = Some ''y''"
    by (simp add: cancelled_run_def cache_run_simps)
  show "\<exists>w c. perform_all (\<lambda>s. s) shared_run (fresh_world 9 1800 True) = Some w
      \<and> w_task w 3 = Using (cache_request ''a'' None) c \<and> w_task w 5 = Using (cache_request ''a'' None) c"
    by (simp add: shared_run_def cache_run_simps)
qed

end
