(* ===== verification/Instance_Access.thy ===== *)
theory Instance_Access
  imports Models Directory
begin

text \<open>
  Who may use which database instance: the capabilities and permissions of users and agents
  (\<open>core/access_control.py\<close>, \<open>core/credential_policy.py\<close>), the accounts and bindings of users
  (\<open>core/binding_manager.py\<close>), the SQL access of agents (\<open>mcp/tools/agent_sql_access.py\<close>,
  \<open>core/db_instance_contract.py\<close>) and the choice of a target (\<open>mcp/tools/__init__.py\<close>). Rows are those of
  \<open>models/binding.py\<close>.
\<close>

section \<open>Rows\<close>

datatype permission = PERM_READONLY | PERM_READWRITE
datatype binding_origin = BY_SYSTEM | BY_ADMIN
datatype binding_capability =
  DB_INSTANCE_LIST | DB_INSTANCE_DESCRIBE | DB_INSTANCE_CREDENTIALS_READ | SQL_READ | SQL_WRITE
datatype tenant_step = TN_PENDING | TN_RESOURCE_CONFIG | TN_TENANT | TN_USER | TN_DATABASE | TN_GRANT

record user_binding =
  ub_id :: string
  ub_user_id :: string
  ub_instance_id :: string
  ub_credential_id :: "string option"
  ub_permission :: permission
  ub_enabled :: bool
  ub_origin :: binding_origin
  ub_tenant_name :: "string option"
  ub_provisioning_step :: "tenant_step option"
  ub_capabilities :: "binding_capability list"

record department_binding =
  dp_department_id :: string
  dp_instance_id :: string
  dp_tenant_name :: "string option"
  dp_default_permission :: permission

record agent_binding =
  ab_agent_id :: string
  ab_instance_id :: string
  ab_credential_id :: string
  ab_permission :: permission
  ab_enabled :: bool
  ab_capabilities :: "binding_capability list"

text \<open>The part of the database these questions read. \<open>ia_owner\<close> and \<open>ia_default\<close> are the columns
  \<open>instances.owner_user_id\<close> and \<open>users.default_instance_id\<close>.\<close>

record access_store =
  ia_meta :: metadb
  ia_users :: "user list"
  ia_departments :: "user_department list"
  ia_user_bindings :: "user_binding list"
  ia_department_bindings :: "department_binding list"
  ia_agent_bindings :: "agent_binding list"
  ia_owner :: "string \<Rightarrow> string option"
  ia_default :: "string \<Rightarrow> string option"

definition instance_row_of :: "access_store \<Rightarrow> string \<Rightarrow> instance_row option" where
  "instance_row_of st i = tget i_id i (instances (ia_meta st))"

definition credential_row_of :: "access_store \<Rightarrow> string option \<Rightarrow> credential option" where
  "credential_row_of st c = Option.bind c (\<lambda>k. tget c_id k (credentials (ia_meta st)))"

definition user_binding_of :: "access_store \<Rightarrow> string \<Rightarrow> string \<Rightarrow> user_binding option" where
  "user_binding_of st u i = find (\<lambda>b. ub_instance_id b = i \<and> ub_user_id b = u) (ia_user_bindings st)"

definition agent_binding_of :: "access_store \<Rightarrow> string \<Rightarrow> string \<Rightarrow> agent_binding option" where
  "agent_binding_of st a i = find (\<lambda>b. ab_agent_id b = a \<and> ab_instance_id b = i) (ia_agent_bindings st)"


section \<open>Credentials\<close>

definition filled :: "string option \<Rightarrow> bool" where
  "filled x = (case x of None \<Rightarrow> False | Some s \<Rightarrow> s \<noteq> [])"

definition is_valid_direct_access_credential :: "bool \<Rightarrow> credential option \<Rightarrow> string \<Rightarrow> bool" where
  "is_valid_direct_access_credential require_database_name credential instance_id =
     (case credential of None \<Rightarrow> False
      | Some c \<Rightarrow> c_instance_id c = Some instance_id \<and> c_resource_id c = None \<and> c_purpose c = DIRECT_ACCESS
          \<and> c_status c = CRED_ACTIVE \<and> c_capability c \<in> {CC_READONLY, CC_READWRITE}
          \<and> filled (c_username_ciphertext c) \<and> filled (c_password_ciphertext c)
          \<and> (\<not> require_database_name \<or> filled (c_database_name c)))"

text \<open>The predicate over rows, in SQL's three-valued logic: a comparison with NULL is unknown, and a row
  is selected when the conjunction is true.\<close>

type_synonym tribool = "bool option"

definition sql_eq :: "'a option \<Rightarrow> 'a \<Rightarrow> tribool" where
  "sql_eq col v = map_option (\<lambda>x. x = v) col"

definition sql_ne :: "'a option \<Rightarrow> 'a \<Rightarrow> tribool" where
  "sql_ne col v = map_option (\<lambda>x. x \<noteq> v) col"

fun sql_and :: "tribool list \<Rightarrow> tribool" where
  "sql_and [] = Some True"
| "sql_and (x # xs) = (if x = Some False \<or> sql_and xs = Some False then Some False
     else if x = None \<or> sql_and xs = None then None else Some True)"

definition direct_access_credential_sql_predicate :: "bool \<Rightarrow> string \<Rightarrow> credential \<Rightarrow> tribool" where
  "direct_access_credential_sql_predicate require_database_name instance_id c =
     sql_and ([sql_eq (c_instance_id c) instance_id, Some (c_resource_id c = None),
        sql_eq (Some (c_purpose c)) DIRECT_ACCESS, sql_eq (Some (c_status c)) CRED_ACTIVE,
        Some (c_capability c \<in> {CC_READONLY, CC_READWRITE}),
        Some (c_username_ciphertext c \<noteq> None), sql_ne (c_username_ciphertext c) [],
        Some (c_password_ciphertext c \<noteq> None), sql_ne (c_password_ciphertext c) []]
       @ (if require_database_name then [Some (c_database_name c \<noteq> None), sql_ne (c_database_name c) []] else []))"


section \<open>Capabilities and permissions\<close>

fun capability_dependencies :: "binding_capability \<Rightarrow> binding_capability list" where
  "capability_dependencies DB_INSTANCE_CREDENTIALS_READ = [DB_INSTANCE_DESCRIBE, DB_INSTANCE_LIST]"
| "capability_dependencies DB_INSTANCE_DESCRIBE = [DB_INSTANCE_LIST]"
| "capability_dependencies SQL_WRITE = [SQL_READ]"
| "capability_dependencies _ = []"

definition all_capabilities :: "binding_capability list" where
  "all_capabilities = [DB_INSTANCE_LIST, DB_INSTANCE_DESCRIBE, DB_INSTANCE_CREDENTIALS_READ, SQL_READ, SQL_WRITE]"

lemma all_capabilities_complete [simp]: "c \<in> set all_capabilities"
  by (cases c) (simp_all add: all_capabilities_def)

lemma dependencies_distinct: "distinct (capability_dependencies c)"
  by (cases c) auto

lemma fresh_capabilities_shrink:
  assumes "fresh = filter (\<lambda>d. d \<notin> set expanded) (capability_dependencies c)"
  shows "length (filter (\<lambda>d. d \<notin> set (expanded @ fresh)) all_capabilities) + length fresh
    = length (filter (\<lambda>d. d \<notin> set expanded) all_capabilities)"
proof -
  have "distinct all_capabilities" by (simp add: all_capabilities_def)
  then have len: "length (filter P all_capabilities) = card {d. P d}" for P
    by (metis (no_types, lifting) Collect_cong all_capabilities_complete distinct_card distinct_filter filter_set set_filter)
  have fin: "finite (X :: binding_capability set)" for X
    by (rule finite_subset [of _ "set all_capabilities"]) auto
  have "distinct fresh" using dependencies_distinct [of c] assms by simp
  then have "length fresh = card (set fresh)" by (simp only: distinct_card)
  moreover have "{d. d \<notin> set expanded} = {d. d \<notin> set (expanded @ fresh)} \<union> set fresh"
    using assms by auto
  moreover have "{d. d \<notin> set (expanded @ fresh)} \<inter> set fresh = {}" by auto
  ultimately show ?thesis by (simp only: len card_Un_disjoint [OF fin fin])
qed

text \<open>The loop over \<open>pending\<close>, whose last element is taken.\<close>

function expand_capabilities :: "binding_capability list \<Rightarrow> binding_capability list \<Rightarrow> binding_capability list" where
  "expand_capabilities expanded pending =
     (if pending = [] then expanded
      else let fresh = filter (\<lambda>d. d \<notin> set expanded) (capability_dependencies (last pending)) in
        expand_capabilities (expanded @ fresh) (butlast pending @ fresh))"
  by pat_completeness auto

termination
proof (relation "measure (\<lambda>(e, p). 2 * length (filter (\<lambda>d. d \<notin> set e) all_capabilities) + length p)", goal_cases)
  case (2 expanded pending fresh)
  then show ?case using fresh_capabilities_shrink [OF 2(2)] by (cases pending rule: rev_cases) auto
qed simp

declare expand_capabilities.simps [simp del]

definition validate_capability_set :: "binding_capability list \<Rightarrow> binding_capability set" where
  "validate_capability_set capabilities =
     (let provided = remdups capabilities in set (expand_capabilities provided provided))"

definition sql_capabilities_for_permission :: "permission \<Rightarrow> binding_capability list" where
  "sql_capabilities_for_permission p = (if p = PERM_READWRITE then [SQL_READ, SQL_WRITE] else [SQL_READ])"

definition effective_permission ::
    "permission \<Rightarrow> binding_capability set \<Rightarrow> credential option \<Rightarrow> bool \<Rightarrow> permission option" where
  "effective_permission requested capabilities credential credential_required =
     (if SQL_READ \<notin> capabilities then None
      else if credential_required \<and> credential = None then None
      else let permission = (if requested = PERM_READWRITE \<and> SQL_WRITE \<in> capabilities
                             then PERM_READWRITE else PERM_READONLY) in
        case credential of
          None \<Rightarrow> Some permission
        | Some c \<Rightarrow> if c_capability c = CC_READONLY then Some PERM_READONLY
                    else if c_capability c \<noteq> CC_READWRITE then None else Some permission)"


section \<open>Access of users\<close>

datatype access_binding = NoBinding | UserBinding user_binding | AgentBinding agent_binding

record effective_access =
  ea_instance :: instance_row
  ea_binding :: access_binding
  ea_capabilities :: "binding_capability set"
  ea_permission :: "permission option"
  ea_access_type :: string

definition inherited_bindings :: "access_store \<Rightarrow> string \<Rightarrow> string \<Rightarrow> department_binding list" where
  "inherited_bindings st user_id instance_id =
     filter (\<lambda>b. dp_instance_id b = instance_id
        \<and> list_ex (\<lambda>m. ud_user_id m = user_id \<and> ud_department_id m = dp_department_id b) (ia_departments st))
       (ia_department_bindings st)"

definition department_access :: "access_store \<Rightarrow> string \<Rightarrow> string \<Rightarrow> department_binding list \<times> permission option" where
  "department_access st user_id instance_id =
     (let inherited = inherited_bindings st user_id instance_id in
      if inherited = [] then ([], None)
      else (inherited, Some (if list_ex (\<lambda>b. dp_default_permission b = PERM_READONLY) inherited
                             then PERM_READONLY else PERM_READWRITE)))"

definition resolve_user_instance_access :: "access_store \<Rightarrow> string \<Rightarrow> string \<Rightarrow> effective_access option" where
  "resolve_user_instance_access st user_id instance_id =
     (case tget u_id user_id (ia_users st) of
        None \<Rightarrow> None
      | Some user \<Rightarrow>
        if u_status user \<noteq> USER_ACTIVE then None
        else let (inherited, inherited_permission) = department_access st user_id instance_id in
        case user_binding_of st user_id instance_id of
          None \<Rightarrow>
            (case (inherited, inherited_permission) of
               (b # _, Some p) \<Rightarrow>
                 (case instance_row_of st (dp_instance_id b) of
                    None \<Rightarrow> None
                  | Some inst \<Rightarrow> Some \<lparr>ea_instance = inst, ea_binding = NoBinding,
                        ea_capabilities = validate_capability_set (sql_capabilities_for_permission p),
                        ea_permission = Some p, ea_access_type = ''department''\<rparr>)
             | _ \<Rightarrow> None)
        | Some personal \<Rightarrow>
            if \<not> ub_enabled personal then None
            else case instance_row_of st (ub_instance_id personal) of
              None \<Rightarrow> None
            | Some inst \<Rightarrow>
              let owned = (ub_origin personal = BY_SYSTEM \<and> ia_owner st (i_id inst) = Some user_id);
                  lent = (ub_origin personal = BY_SYSTEM \<and> \<not> owned) in
              if lent \<and> inherited_permission = None then None
              else let requested = (if lent \<and> (ub_permission personal = PERM_READONLY
                                                \<or> inherited_permission = Some PERM_READONLY)
                                    then PERM_READONLY else ub_permission personal);
                       stored = (if ub_origin personal = BY_SYSTEM then sql_capabilities_for_permission requested
                                 else ub_capabilities personal);
                       capabilities = validate_capability_set stored;
                       required = (ub_origin personal = BY_ADMIN \<or> ub_credential_id personal \<noteq> None);
                       linked = credential_row_of st (ub_credential_id personal);
                       credential = (if required \<and> \<not> is_valid_direct_access_credential False linked instance_id
                                     then None else linked)
                   in Some \<lparr>ea_instance = inst, ea_binding = UserBinding personal, ea_capabilities = capabilities,
                        ea_permission = effective_permission requested capabilities credential required,
                        ea_access_type = (if lent then ''department'' else ''personal'')\<rparr>)"

definition accessible_candidates :: "access_store \<Rightarrow> string \<Rightarrow> string list" where
  "accessible_candidates st user_id =
     (let personal = map ub_instance_id (filter (\<lambda>b. ub_user_id b = user_id) (ia_user_bindings st));
          dept_ids = map ud_department_id (filter (\<lambda>m. ud_user_id m = user_id) (ia_departments st));
          dept = map dp_instance_id (filter (\<lambda>b. dp_department_id b \<in> set dept_ids) (ia_department_bindings st))
      in rev (remdups (rev (personal @ dept))))"

definition get_accessible_instances :: "access_store \<Rightarrow> string \<Rightarrow> effective_access list" where
  "get_accessible_instances st user_id =
     filter (\<lambda>a. ea_permission a \<noteq> None)
       (List.map_filter (\<lambda>i. resolve_user_instance_access st user_id i) (accessible_candidates st user_id))"


section \<open>Access of agents\<close>

text \<open>The agent of a binding exists (foreign key).\<close>

definition resolve_agent_instance_access :: "access_store \<Rightarrow> string \<Rightarrow> string \<Rightarrow> effective_access option" where
  "resolve_agent_instance_access st agent_id instance_id =
     (case agent_binding_of st agent_id instance_id of
        None \<Rightarrow> None
      | Some b \<Rightarrow>
        if \<not> ab_enabled b then None
        else case instance_row_of st (ab_instance_id b) of
          None \<Rightarrow> None
        | Some inst \<Rightarrow>
          if map_option a_status (tget a_id (ab_agent_id b) (agents (ia_meta st))) \<noteq> Some AG_ACTIVE then None
          else let capabilities = validate_capability_set (ab_capabilities b);
                   linked = credential_row_of st (Some (ab_credential_id b));
                   credential = (if is_valid_direct_access_credential False linked instance_id then linked else None)
               in Some \<lparr>ea_instance = inst, ea_binding = AgentBinding b, ea_capabilities = capabilities,
                    ea_permission = effective_permission (ab_permission b) capabilities credential True,
                    ea_access_type = ''agent''\<rparr>)"

definition usable_resource_access_credential :: "resource \<Rightarrow> credential option" where
  "usable_resource_access_credential r =
     (case filter (\<lambda>c. c_purpose c = RESOURCE_ACCESS) (r_credentials r) of
        [c] \<Rightarrow>
          if c_resource_id c \<noteq> Some (r_id r) \<or> c_instance_id c \<noteq> None \<or> c_status c \<noteq> CRED_ACTIVE
             \<or> c_capability c \<noteq> CC_READWRITE \<or> c_version c \<noteq> 1
             \<or> \<not> filled (c_username_ciphertext c) \<or> \<not> filled (c_password_ciphertext c)
             \<or> \<not> filled (r_database_name r) \<or> c_database_name c \<noteq> r_database_name r
          then None else Some c
      | _ \<Rightarrow> None)"

text \<open>\<open>decrypt\<close> may raise. The details are database, user and password.\<close>

definition resource_connection_details ::
    "(string \<Rightarrow> string option) \<Rightarrow> resource \<Rightarrow> (string \<times> string \<times> string) option" where
  "resource_connection_details decrypt r =
     (case usable_resource_access_credential r of
        None \<Rightarrow> None
      | Some c \<Rightarrow>
        (case (c_database_name c, c_username_ciphertext c, c_password_ciphertext c) of
           (Some d, Some u, Some p) \<Rightarrow>
             (case (decrypt u, decrypt p) of
                (Some user, Some password) \<Rightarrow> Some (d, user, password)
              | _ \<Rightarrow> None)
         | _ \<Rightarrow> None))"

definition resource_capabilities :: "(string \<Rightarrow> string option) \<Rightarrow> resource \<Rightarrow> string list" where
  "resource_capabilities decrypt r =
     (let revealable = (r_status r = ST_READY \<and> resource_connection_details decrypt r \<noteq> None) in
      [''list'', ''describe'']
      @ (if revealable then [''credentials_read''] else [])
      @ (if r_status r \<in> {ST_CREATING, ST_READY, ST_FAILED, ST_DELETING, ST_DELETE_FAILED} then [''delete''] else [])
      @ (if revealable then [''run_sql_read'', ''run_sql_write''] else []))"

record agent_sql_access =
  sa_public_instance_id :: string
  sa_source :: string
  sa_instance :: instance_row
  sa_credential :: credential
  sa_permission :: permission
  sa_database :: "string option"

definition resource_status_error :: "db_instance_status \<Rightarrow> string option" where
  "resource_status_error s = (case s of
     ST_CREATING \<Rightarrow> Some ''INSTANCE_STARTING''
   | ST_FAILED \<Rightarrow> Some ''INSTANCE_FAILED''
   | ST_DELETING \<Rightarrow> Some ''INSTANCE_DELETING''
   | ST_DELETE_FAILED \<Rightarrow> Some ''INSTANCE_DELETE_FAILED''
   | ST_DELETED \<Rightarrow> Some ''INSTANCE_NOT_ACCESSIBLE''
   | _ \<Rightarrow> None)"

definition resolve_provisioned_access ::
    "access_store \<Rightarrow> string \<Rightarrow> string \<Rightarrow> string option \<Rightarrow> string + agent_sql_access" where
  "resolve_provisioned_access st agent_id instance_id database =
     (let row = Option.bind (find (\<lambda>r. r_id r = instance_id \<and> r_owner_agent_id r = agent_id) (resources (ia_meta st)))
        (\<lambda>r. Option.bind (tget b_id (r_backend_id r) (backends (ia_meta st)))
          (\<lambda>b. Option.bind (b_instance_id b)
            (\<lambda>i. map_option (\<lambda>inst. (r, inst)) (instance_row_of st i))))
      in case row of
           None \<Rightarrow> Inl ''INSTANCE_NOT_ACCESSIBLE''
         | Some (r, inst) \<Rightarrow>
             (case resource_status_error (r_status r) of
                Some e \<Rightarrow> Inl e
              | None \<Rightarrow>
                (case (usable_resource_access_credential r, r_database_name r) of
                   (Some c, Some d) \<Rightarrow>
                     if database \<noteq> None \<and> database \<noteq> Some d then Inl ''INVALID_ARGUMENT''
                     else Inr \<lparr>sa_public_instance_id = r_id r, sa_source = ''provisioned'', sa_instance = inst,
                            sa_credential = c, sa_permission = PERM_READWRITE, sa_database = Some d\<rparr>
                 | _ \<Rightarrow> Inl ''INSTANCE_NOT_ACCESSIBLE'')))"

definition resolve_agent_sql_access ::
    "access_store \<Rightarrow> string \<Rightarrow> string option \<Rightarrow> string option \<Rightarrow> string + agent_sql_access" where
  "resolve_agent_sql_access st agent_id instance_id database =
     (case instance_id of
        None \<Rightarrow> Inl ''INVALID_ARGUMENT''
      | Some i \<Rightarrow>
        if i = [] then Inl ''INVALID_ARGUMENT''
        else if take 4 i = ''dbi-'' then resolve_provisioned_access st agent_id i database
        else case resolve_agent_instance_access st agent_id i of
          None \<Rightarrow> Inl ''INSTANCE_NOT_ACCESSIBLE''
        | Some a \<Rightarrow>
            (case (ea_permission a, ea_binding a) of
               (Some p, AgentBinding b) \<Rightarrow>
                 if SQL_READ \<notin> ea_capabilities a then Inl ''INSTANCE_NOT_ACCESSIBLE''
                 else (case credential_row_of st (Some (ab_credential_id b)) of
                     None \<Rightarrow> Inl ''INSTANCE_NOT_ACCESSIBLE''
                   | Some c \<Rightarrow>
                     if \<not> is_valid_direct_access_credential False (Some c) (i_id (ea_instance a))
                     then Inl ''INSTANCE_NOT_ACCESSIBLE''
                     else Inr \<lparr>sa_public_instance_id = i_id (ea_instance a), sa_source = ''bound'',
                            sa_instance = ea_instance a, sa_credential = c, sa_permission = p,
                            sa_database = (if database \<noteq> None then database else c_database_name c)\<rparr>)
             | _ \<Rightarrow> Inl ''INSTANCE_NOT_ACCESSIBLE''))"



section \<open>Accounts and bindings of users\<close>

record user_sql_credential =
  uc_binding :: user_binding
  uc_credential :: credential
  uc_permission :: permission

definition intersect_permission :: "permission \<Rightarrow> credential_capability \<Rightarrow> permission" where
  "intersect_permission p c = (if p = PERM_READONLY \<or> c = CC_READONLY then PERM_READONLY else PERM_READWRITE)"

text \<open>The check of \<open>binding_manager\<close> differs from the one above: it accepts empty ciphertexts.\<close>

definition is_direct_access_credential :: "credential option \<Rightarrow> string \<Rightarrow> bool" where
  "is_direct_access_credential credential instance_id =
     (case credential of None \<Rightarrow> False
      | Some c \<Rightarrow> c_instance_id c = Some instance_id \<and> c_resource_id c = None \<and> c_purpose c = DIRECT_ACCESS
          \<and> c_status c = CRED_ACTIVE \<and> c_username_ciphertext c \<noteq> None \<and> c_password_ciphertext c \<noteq> None
          \<and> c_capability c \<in> {CC_READONLY, CC_READWRITE})"

definition get_user_credential :: "access_store \<Rightarrow> string \<Rightarrow> string \<Rightarrow> user_sql_credential option" where
  "get_user_credential st instance_id user_id =
     (case resolve_user_instance_access st user_id instance_id of
        None \<Rightarrow> None
      | Some a \<Rightarrow>
        (case (ea_binding a, ea_permission a) of
           (UserBinding b, Some p) \<Rightarrow>
             if ub_credential_id b = None then None
             else (case credential_row_of st (ub_credential_id b) of
                 None \<Rightarrow> None
               | Some c \<Rightarrow>
                 if \<not> is_direct_access_credential (Some c) instance_id then None
                 else Some \<lparr>uc_binding = b, uc_credential = c, uc_permission = intersect_permission p (c_capability c)\<rparr>)
         | _ \<Rightarrow> None))"

definition generate_account_name :: "string \<Rightarrow> string" where
  "generate_account_name user_id = ''pas_'' @ take 12 (filter (\<lambda>c. c \<noteq> CHR ''-'') user_id)"

text \<open>What an account needs from outside: new keys and a password, the cipher, and the cloud API, which
  may refuse to create the account.\<close>

record account_lib =
  al_credential_id :: string
  al_binding_id :: string
  al_password :: string
  al_encrypt :: "string \<Rightarrow> string"
  al_create_account :: "string \<Rightarrow> string \<Rightarrow> string \<Rightarrow> bool"

definition create_instance_credential ::
    "account_lib \<Rightarrow> instance_row \<Rightarrow> string \<Rightarrow> permission \<Rightarrow> access_store \<Rightarrow> string + (credential \<times> access_store)" where
  "create_instance_credential lib inst user_id permission st =
     (let account_name = generate_account_name user_id in
      case find (\<lambda>c. c_instance_id c = Some (i_id inst) \<and> c_name c = account_name) (credentials (ia_meta st)) of
        Some existing \<Rightarrow> Inr (existing, st)
      | None \<Rightarrow>
        if \<not> al_create_account lib (i_cluster_id inst) account_name (al_password lib) then Inl ''OpenAPI''
        else let c = \<lparr>c_id = al_credential_id lib, c_instance_id = Some (i_id inst), c_resource_id = None,
                c_name = account_name, c_purpose = DIRECT_ACCESS,
                c_capability = (if permission = PERM_READONLY then CC_READONLY else CC_READWRITE),
                c_username_ciphertext = Some (al_encrypt lib account_name),
                c_password_ciphertext = Some (al_encrypt lib (al_password lib)),
                c_database_name = Some ''agentic'', c_status = CRED_ACTIVE, c_version = 1\<rparr>
             in Inr (c, st\<lparr>ia_meta := (ia_meta st)\<lparr>credentials := credentials (ia_meta st) @ [c]\<rparr>\<rparr>))"

definition system_user_binding :: "account_lib \<Rightarrow> string \<Rightarrow> string \<Rightarrow> string \<Rightarrow> permission \<Rightarrow> binding_origin \<Rightarrow> user_binding" where
  "system_user_binding lib user_id instance_id credential_id permission origin =
     \<lparr>ub_id = al_binding_id lib, ub_user_id = user_id, ub_instance_id = instance_id,
      ub_credential_id = Some credential_id, ub_permission = permission, ub_enabled = True, ub_origin = origin,
      ub_tenant_name = None, ub_provisioning_step = None,
      ub_capabilities = sql_capabilities_for_permission permission\<rparr>"

definition create_db_account ::
    "account_lib \<Rightarrow> instance_row \<Rightarrow> string \<Rightarrow> access_store \<Rightarrow> string + (credential \<times> access_store)" where
  "create_db_account lib inst user_id st =
     (case resolve_user_instance_access st user_id (i_id inst) of
        None \<Rightarrow> Inl ''PermissionError''
      | Some access \<Rightarrow>
        (case ea_permission access of
           None \<Rightarrow> Inl ''PermissionError''
         | Some p \<Rightarrow>
           (case get_user_credential st (i_id inst) user_id of
              Some resolved \<Rightarrow> Inr (uc_credential resolved, st)
            | None \<Rightarrow>
              (case ea_binding access of
                 UserBinding b \<Rightarrow>
                   if ub_credential_id b \<noteq> None then Inl ''PermissionError''
                   else bindE (create_instance_credential lib inst user_id p st) (\<lambda>(c, st1).
                     Inr (c, st1\<lparr>ia_user_bindings := tupd ub_id (ub_id b)
                               (\<lambda>x. x\<lparr>ub_credential_id := Some (c_id c)\<rparr>) (ia_user_bindings st1)\<rparr>))
               | _ \<Rightarrow>
                   bindE (create_instance_credential lib inst user_id p st) (\<lambda>(c, st1).
                     Inr (c, st1\<lparr>ia_user_bindings := ia_user_bindings st1
                               @ [system_user_binding lib user_id (i_id inst) (c_id c) p BY_SYSTEM]\<rparr>))))))"

definition bind_user_to_instance ::
    "account_lib \<Rightarrow> string \<Rightarrow> string \<Rightarrow> permission \<Rightarrow> access_store \<Rightarrow> string + (user_binding \<times> access_store)" where
  "bind_user_to_instance lib user_id instance_id permission st =
     (if user_binding_of st user_id instance_id \<noteq> None then Inl ''User already bound to this instance''
      else case instance_row_of st instance_id of
        None \<Rightarrow> Inl ''Instance not found''
      | Some inst \<Rightarrow>
        if tget u_id user_id (ia_users st) = None then Inl ''User not found''
        else bindE (create_instance_credential lib inst user_id permission st) (\<lambda>(c, st1).
          let b = system_user_binding lib user_id instance_id (c_id c) permission BY_ADMIN in
          Inr (b, st1\<lparr>ia_user_bindings := ia_user_bindings st1 @ [b]\<rparr>)))"

definition unbind_user_from_instance :: "string \<Rightarrow> string \<Rightarrow> access_store \<Rightarrow> string + access_store" where
  "unbind_user_from_instance user_id instance_id st =
     (case user_binding_of st user_id instance_id of
        None \<Rightarrow> Inl ''Binding not found''
      | Some b \<Rightarrow> Inr (st\<lparr>ia_user_bindings := filter (\<lambda>x. ub_id x \<noteq> ub_id b) (ia_user_bindings st)\<rparr>))"

definition department_binding_of :: "access_store \<Rightarrow> string \<Rightarrow> string \<Rightarrow> department_binding option" where
  "department_binding_of st d i = find (\<lambda>b. dp_department_id b = d \<and> dp_instance_id b = i) (ia_department_bindings st)"

definition bind_department_to_instance ::
    "string \<Rightarrow> string \<Rightarrow> string option \<Rightarrow> permission \<Rightarrow> access_store \<Rightarrow> string + (department_binding \<times> access_store)" where
  "bind_department_to_instance department_id instance_id tenant_name permission st =
     (if department_binding_of st department_id instance_id \<noteq> None then Inl ''Department already bound to this instance''
      else let b = \<lparr>dp_department_id = department_id, dp_instance_id = instance_id, dp_tenant_name = tenant_name,
                    dp_default_permission = permission\<rparr>
           in Inr (b, st\<lparr>ia_department_bindings := ia_department_bindings st @ [b]\<rparr>))"

definition unbind_department_from_instance :: "string \<Rightarrow> string \<Rightarrow> access_store \<Rightarrow> string + access_store" where
  "unbind_department_from_instance department_id instance_id st =
     (if department_binding_of st department_id instance_id = None then Inl ''Binding not found''
      else Inr (st\<lparr>ia_department_bindings := filter (\<lambda>b. \<not> (dp_department_id b = department_id \<and> dp_instance_id b = instance_id))
             (ia_department_bindings st)\<rparr>))"


section \<open>The target of a statement\<close>

definition instance_category :: "access_store \<Rightarrow> instance_row \<Rightarrow> string" where
  "instance_category st inst =
     (if i_topology inst = MULTITENANT then ''multitenant''
      else if i_allocation_mode inst = AM_AUTO_PROVISIONED \<or> ia_owner st (i_id inst) \<noteq> None then ''personal''
      else ''shared'')"

text \<open>The target and the state: a default that is no longer accessible is cleared.\<close>

definition resolve_target_instance ::
    "access_store \<Rightarrow> string \<Rightarrow> string option \<Rightarrow> (string + instance_row) \<times> access_store" where
  "resolve_target_instance st user_id instance_id =
     (if filled instance_id then
        (case instance_row_of st (the instance_id) of
           None \<Rightarrow> (Inl ''INSTANCE_NOT_FOUND'', st)
         | Some target \<Rightarrow>
           (case resolve_user_instance_access st user_id (the instance_id) of
              None \<Rightarrow> (Inl ''INSTANCE_NOT_ACCESSIBLE'', st)
            | Some a \<Rightarrow>
              if ea_permission a = None \<or> SQL_READ \<notin> ea_capabilities a
              then (Inl ''INSTANCE_NOT_ACCESSIBLE'', st) else (Inr target, st)))
      else let accessible = map ea_instance (get_accessible_instances st user_id);
               default = (if filled (ia_default st user_id) then ia_default st user_id else None);
               preferred = find (\<lambda>i. Some (i_id i) = default) accessible;
               st' = (if default \<noteq> None \<and> preferred = None
                      then st\<lparr>ia_default := (ia_default st)(user_id := None)\<rparr> else st) in
        case accessible of
          [] \<Rightarrow> (Inl ''NO_INSTANCE_ASSIGNED'', st)
        | [i] \<Rightarrow> (Inr i, st)
        | _ \<Rightarrow>
          (case preferred of
             Some i \<Rightarrow> (Inr i, st)
           | None \<Rightarrow>
             (case find (\<lambda>i. instance_category st i = ''personal'') accessible of
                Some i \<Rightarrow> (Inr i, st')
              | None \<Rightarrow>
                (case find (\<lambda>i. i_topology i = MULTITENANT) accessible of
                   Some i \<Rightarrow> (Inr i, st')
                 | None \<Rightarrow> (Inl ''MULTIPLE_INSTANCES'', st')))))"



section \<open>What access means\<close>

definition closed_capabilities :: "binding_capability set \<Rightarrow> bool" where
  "closed_capabilities S = (\<forall>c \<in> S. set (capability_dependencies c) \<subseteq> S)"

lemma expand_capabilities_spec:
  assumes "set pending \<subseteq> set expanded"
    and "\<forall>c \<in> set expanded - set pending. set (capability_dependencies c) \<subseteq> set expanded"
  shows "set expanded \<subseteq> set (expand_capabilities expanded pending)
    \<and> closed_capabilities (set (expand_capabilities expanded pending))
    \<and> (\<forall>T. set expanded \<subseteq> T \<and> closed_capabilities T \<longrightarrow> set (expand_capabilities expanded pending) \<subseteq> T)"
  using assms
proof (induction expanded pending rule: expand_capabilities.induct)
  case (1 expanded pending)
  show ?case
  proof (cases "pending = []")
    case True
    then show ?thesis using 1(3) by (simp add: expand_capabilities.simps closed_capabilities_def)
  next
    case False
    define fresh where "fresh = filter (\<lambda>d. d \<notin> set expanded) (capability_dependencies (last pending))"
    have pend: "set pending = insert (last pending) (set (butlast pending))"
      using False by (metis append_butlast_last_id list.simps(15) rotate1.simps(2) set_rotate1)
    have eq: "expand_capabilities expanded pending = expand_capabilities (expanded @ fresh) (butlast pending @ fresh)"
      using False by (subst expand_capabilities.simps) (simp add: fresh_def Let_def)
    have sub: "set (butlast pending @ fresh) \<subseteq> set (expanded @ fresh)" using 1(2) pend by auto
    have dep: "\<forall>c \<in> set (expanded @ fresh) - set (butlast pending @ fresh).
        set (capability_dependencies c) \<subseteq> set (expanded @ fresh)"
      using 1(3) pend by (auto simp: fresh_def)
    note IH = 1(1) [OF False fresh_def sub dep]
    have "set (expanded @ fresh) \<subseteq> T" if "set expanded \<subseteq> T" "closed_capabilities T" for T
      using that 1(2) pend by (auto simp: fresh_def closed_capabilities_def)
    with IH show ?thesis unfolding eq by auto
  qed
qed

lemma closure_extends: "set cs \<subseteq> validate_capability_set cs"
  and closure_closed: "closed_capabilities (validate_capability_set cs)"
  and closure_least: "set cs \<subseteq> T \<Longrightarrow> closed_capabilities T \<Longrightarrow> validate_capability_set cs \<subseteq> T"
  using expand_capabilities_spec [of "remdups cs" "remdups cs"]
  by (simp_all add: validate_capability_set_def Let_def)

lemma closure_same: "closed_capabilities (set cs) \<Longrightarrow> validate_capability_set cs = set cs"
  by (simp add: closure_extends closure_least subset_antisym)

lemma sql_capabilities_closed [simp]:
  "validate_capability_set (sql_capabilities_for_permission p) = set (sql_capabilities_for_permission p)"
  by (rule closure_same) (simp add: closed_capabilities_def sql_capabilities_for_permission_def)

text \<open>the capabilities of a binding are the stored ones with everything they depend on, and nothing
  else: the least set that contains them and is closed under the dependencies.\<close>

theorem capability_set_is_closure:
  "set cs \<subseteq> validate_capability_set cs \<and> closed_capabilities (validate_capability_set cs)
   \<and> (\<forall>T. set cs \<subseteq> T \<and> closed_capabilities T \<longrightarrow> validate_capability_set cs \<subseteq> T)"
  using closure_extends closure_closed closure_least by blast

theorem capability_set_is_closure_witness:
  "validate_capability_set [SQL_WRITE] \<subseteq> {SQL_READ, SQL_WRITE}"
proof -
  have "set [SQL_WRITE] \<subseteq> {SQL_READ, SQL_WRITE} \<and> closed_capabilities {SQL_READ, SQL_WRITE}"
    by (simp add: closed_capabilities_def)
  then show ?thesis
    using capability_set_is_closure [of "[SQL_WRITE]"] by blast
qed

lemma sql_and_true: "sql_and xs = Some True \<longleftrightarrow> (\<forall>x \<in> set xs. x = Some True)"
proof (induction xs)
  case (Cons x xs)
  have "sql_and (x # xs) = Some True \<longleftrightarrow> x = Some True \<and> sql_and xs = Some True"
    by (cases x; cases "sql_and xs") auto
  then show ?case using Cons by simp
qed simp

text \<open>the predicate that selects usable credentials in the database is true for exactly the rows the
  check in the program accepts, NULLs and empty texts included.\<close>

theorem credential_predicate_agrees:
  "direct_access_credential_sql_predicate d i c = Some True \<longleftrightarrow> is_valid_direct_access_credential d (Some c) i"
  by (cases "c_username_ciphertext c"; cases "c_password_ciphertext c"; cases "c_database_name c"; cases "c_instance_id c")
    (auto simp: direct_access_credential_sql_predicate_def sql_and_true is_valid_direct_access_credential_def
      sql_eq_def sql_ne_def filled_def)


subsection \<open>Users\<close>

lemma effective_permission_write:
  "effective_permission requested caps cred required = Some PERM_READWRITE \<Longrightarrow>
     requested = PERM_READWRITE \<and> SQL_WRITE \<in> caps \<and> SQL_READ \<in> caps
     \<and> (required \<longrightarrow> cred \<noteq> None) \<and> (\<forall>c. cred = Some c \<longrightarrow> c_capability c = CC_READWRITE)"
  by (auto simp: effective_permission_def Let_def split: if_splits option.splits)

definition writable_for :: "access_store \<Rightarrow> string \<Rightarrow> string \<Rightarrow> bool" where
  "writable_for st user_id instance_id \<longleftrightarrow>
     inherited_bindings st user_id instance_id \<noteq> []
     \<and> (\<forall>b \<in> set (inherited_bindings st user_id instance_id). dp_default_permission b = PERM_READWRITE)"

text \<open>What must hold of a personal binding that gives write access.\<close>

definition grants_write :: "access_store \<Rightarrow> string \<Rightarrow> string \<Rightarrow> user_binding \<Rightarrow> bool" where
  "grants_write st user_id instance_id b \<longleftrightarrow>
     ub_enabled b \<and> ub_permission b = PERM_READWRITE
     \<and> (ub_origin b = BY_ADMIN \<longrightarrow> SQL_WRITE \<in> set (ub_capabilities b))
     \<and> (ub_origin b = BY_SYSTEM \<longrightarrow> ia_owner st instance_id = Some user_id \<or> writable_for st user_id instance_id)
     \<and> (ub_origin b = BY_ADMIN \<or> ub_credential_id b \<noteq> None \<longrightarrow>
          (\<exists>c. credential_row_of st (ub_credential_id b) = Some c \<and> c_capability c = CC_READWRITE
             \<and> is_valid_direct_access_credential False (Some c) instance_id))"

lemma department_write:
  "snd (department_access st u i) = Some PERM_READWRITE \<longleftrightarrow> writable_for st u i"
  by (auto simp: department_access_def writable_for_def Let_def list_ex_iff)
    (metis permission.distinct(1) permission.exhaust)+

lemma instance_row_id: "instance_row_of st i = Some inst \<Longrightarrow> i_id inst = i"
  by (auto simp: instance_row_of_def)

lemma user_binding_ids: "user_binding_of st u i = Some b \<Longrightarrow> ub_user_id b = u \<and> ub_instance_id b = i \<and> b \<in> set (ia_user_bindings st)"
  by (auto simp: user_binding_of_def find_Some_iff in_set_conv_nth)

lemma write_in_closure: "SQL_WRITE \<in> validate_capability_set cs \<Longrightarrow> SQL_WRITE \<in> set cs"
proof -
  assume "SQL_WRITE \<in> validate_capability_set cs"
  moreover have "closed_capabilities (set cs \<union> (UNIV - {SQL_WRITE}))"
  proof -
    have "SQL_WRITE \<notin> set (capability_dependencies c)" for c by (cases c) auto
    then show ?thesis by (auto simp: closed_capabilities_def)
  qed
  ultimately show ?thesis
    using closure_least [of cs "set cs \<union> (UNIV - {SQL_WRITE})"] by auto
qed

lemma resolve_user_cases:
  assumes "resolve_user_instance_access st u i = Some a"
  obtains (inherited) user p inst where "tget u_id u (ia_users st) = Some user" "u_status user = USER_ACTIVE"
      "user_binding_of st u i = None" "snd (department_access st u i) = Some p" "instance_row_of st i = Some inst"
      "a = \<lparr>ea_instance = inst, ea_binding = NoBinding, ea_capabilities = set (sql_capabilities_for_permission p),
          ea_permission = Some p, ea_access_type = ''department''\<rparr>"
    | (personal) user b inst lent requested required linked cred where
      "tget u_id u (ia_users st) = Some user" "u_status user = USER_ACTIVE"
      "user_binding_of st u i = Some b" "ub_enabled b" "instance_row_of st i = Some inst"
      "lent = (ub_origin b = BY_SYSTEM \<and> ia_owner st i \<noteq> Some u)"
      "lent \<longrightarrow> snd (department_access st u i) \<noteq> None"
      "requested = (if lent \<and> (ub_permission b = PERM_READONLY \<or> snd (department_access st u i) = Some PERM_READONLY)
                    then PERM_READONLY else ub_permission b)"
      "required = (ub_origin b = BY_ADMIN \<or> ub_credential_id b \<noteq> None)"
      "linked = credential_row_of st (ub_credential_id b)"
      "cred = (if required \<and> \<not> is_valid_direct_access_credential False linked i then None else linked)"
      "ea_instance a = inst" "ea_binding a = UserBinding b"
      "ea_capabilities a = validate_capability_set
         (if ub_origin b = BY_SYSTEM then sql_capabilities_for_permission requested else ub_capabilities b)"
      "ea_permission a = effective_permission requested (ea_capabilities a) cred required"
proof -
  obtain user where user: "tget u_id u (ia_users st) = Some user" "u_status user = USER_ACTIVE"
    using assms by (auto simp: resolve_user_instance_access_def split: option.splits if_splits)
  obtain inh p where dep: "department_access st u i = (inh, p)" by force
  show thesis
  proof (cases "user_binding_of st u i")
    case None
    with assms user dep obtain b bs q inst where q: "inh = b # bs" "p = Some q" "instance_row_of st (dp_instance_id b) = Some inst"
      "a = \<lparr>ea_instance = inst, ea_binding = NoBinding, ea_capabilities = set (sql_capabilities_for_permission q),
          ea_permission = Some q, ea_access_type = ''department''\<rparr>"
      by (auto simp: resolve_user_instance_access_def split: list.splits option.splits)
    have "b \<in> set (inherited_bindings st u i)"
      using dep q(1) by (auto simp: department_access_def Let_def split: if_splits)
    then have "dp_instance_id b = i" by (simp add: inherited_bindings_def)
    with q inherited [OF user None] dep show ?thesis by simp
  next
    case (Some b)
    then have i: "ub_instance_id b = i" using user_binding_ids by blast
    from assms user dep Some have en: "ub_enabled b"
      by (auto simp: resolve_user_instance_access_def split: option.splits if_splits)
    from assms user dep Some en obtain inst where inst: "instance_row_of st i = Some inst"
      by (auto simp: resolve_user_instance_access_def i split: option.splits)
    have ii: "i_id inst = i" using instance_row_id [OF inst] .
    note eq = assms [unfolded resolve_user_instance_access_def, simplified user dep Some en inst option.case i ii
        prod.case simp_thms if_False if_True Let_def not_not]
    show ?thesis
    proof (rule personal [OF user Some en inst refl _ refl refl refl refl])
      show "ub_origin b = BY_SYSTEM \<and> ia_owner st i \<noteq> Some u \<longrightarrow> snd (department_access st u i) \<noteq> None"
        using eq dep by (auto split: if_splits)
      show "ea_instance a = inst" "ea_binding a = UserBinding b"
        "ea_capabilities a = validate_capability_set
         (if ub_origin b = BY_SYSTEM then sql_capabilities_for_permission
            (if (ub_origin b = BY_SYSTEM \<and> ia_owner st i \<noteq> Some u) \<and> (ub_permission b = PERM_READONLY \<or> snd (department_access st u i) = Some PERM_READONLY)
                    then PERM_READONLY else ub_permission b) else ub_capabilities b)"
        "ea_permission a = effective_permission (if (ub_origin b = BY_SYSTEM \<and> ia_owner st i \<noteq> Some u) \<and> (ub_permission b = PERM_READONLY \<or> snd (department_access st u i) = Some PERM_READONLY)
                    then PERM_READONLY else ub_permission b) (ea_capabilities a)
          (if (ub_origin b = BY_ADMIN \<or> ub_credential_id b \<noteq> None) \<and> \<not> is_valid_direct_access_credential False (credential_row_of st (ub_credential_id b)) i
           then None else credential_row_of st (ub_credential_id b)) (ub_origin b = BY_ADMIN \<or> ub_credential_id b \<noteq> None)"
        using eq dep by (auto split: if_splits)
    qed
  qed
qed


lemma resolve_user_instance: "resolve_user_instance_access st u i = Some a \<Longrightarrow> instance_row_of st i = Some (ea_instance a)"
  by (erule resolve_user_cases) auto

text \<open>a user has write access to an instance only if the account is active and either no personal
  binding exists and every department binding that gives access is read-write, or the personal
  binding grants it: enabled, read-write, with the write capability if an administrator made it, backed by
  the departments or by ownership if the system made it, and with a valid read-write credential where
  one is required.\<close>

theorem write_access_is_granted:
  assumes "resolve_user_instance_access st u i = Some a" and "ea_permission a = Some PERM_READWRITE"
  shows "(\<exists>user. tget u_id u (ia_users st) = Some user \<and> u_status user = USER_ACTIVE)
    \<and> (case user_binding_of st u i of None \<Rightarrow> writable_for st u i | Some b \<Rightarrow> grants_write st u i b)"
  using assms(1)
proof (cases rule: resolve_user_cases)
  case (inherited user p inst)
  then show ?thesis using assms(2) department_write [of st u i] by auto
next
  case (personal user b inst lent requested required linked cred)
  have eff: "effective_permission requested (ea_capabilities a) cred required = Some PERM_READWRITE"
    using personal(15) assms(2) by simp
  note w = effective_permission_write [OF eff]
  from w personal(8) have rw: "ub_permission b = PERM_READWRITE"
    and lower: "lent \<longrightarrow> snd (department_access st u i) \<noteq> Some PERM_READONLY" by (auto split: if_splits)
  have "writable_for st u i" if lent
    using that personal(7) lower department_write [of st u i] by (cases "snd (department_access st u i)") (auto, metis permission.exhaust)
  moreover have "SQL_WRITE \<in> set (ub_capabilities b)" if "ub_origin b = BY_ADMIN"
    using w personal(14) that by (auto intro: write_in_closure)
  moreover have "\<exists>c. credential_row_of st (ub_credential_id b) = Some c \<and> c_capability c = CC_READWRITE
      \<and> is_valid_direct_access_credential False (Some c) i" if required
    using w personal(10,11) that by (cases linked) (auto split: if_splits)
  ultimately have "grants_write st u i b"
    using personal(4,6,9) rw by (auto simp: grants_write_def)
  with personal(1-3) show ?thesis by simp
qed

lemma accessible_candidate:
  assumes "resolve_user_instance_access st u i = Some a"
  shows "i \<in> set (accessible_candidates st u)"
  using assms
proof (cases rule: resolve_user_cases)
  case (inherited user p inst)
  then have "inherited_bindings st u i \<noteq> []" by (auto simp: department_access_def Let_def)
  then obtain b where "b \<in> set (inherited_bindings st u i)" by (cases "inherited_bindings st u i") auto
  then obtain m where "b \<in> set (ia_department_bindings st)" "dp_instance_id b = i"
    "m \<in> set (ia_departments st)" "ud_user_id m = u" "ud_department_id m = dp_department_id b"
    by (auto simp: inherited_bindings_def list_ex_iff)
  then show ?thesis by (auto simp: accessible_candidates_def Let_def intro!: image_eqI [of _ _ b] image_eqI [of _ _ m])
next
  case (personal user b inst lent requested required linked cred)
  then have "b \<in> set (ia_user_bindings st)" "ub_user_id b = u" "ub_instance_id b = i"
    using user_binding_ids by blast+
  then show ?thesis by (auto simp: accessible_candidates_def Let_def intro!: image_eqI [of _ _ b])
qed

lemma set_map_filter: "y \<in> set (List.map_filter f xs) \<longleftrightarrow> (\<exists>x \<in> set xs. f x = Some y)"
  by (force simp: List.map_filter_def)

text \<open>C19: the list of accessible instances is complete and sound: an access is in it exactly when the
  question for that single instance is answered with a permission.\<close>

theorem accessible_instances_agree:
  "a \<in> set (get_accessible_instances st u) \<longleftrightarrow>
    (\<exists>i. resolve_user_instance_access st u i = Some a \<and> ea_permission a \<noteq> None)"
  using accessible_candidate [of st u _ a] by (auto simp: get_accessible_instances_def set_map_filter)

lemma accessible_has_access:
  assumes "inst \<in> ea_instance ` set (get_accessible_instances st u)"
  shows "\<exists>a. resolve_user_instance_access st u (i_id inst) = Some a \<and> ea_instance a = inst \<and> ea_permission a \<noteq> None"
proof -
  obtain a i where a: "ea_instance a = inst" "resolve_user_instance_access st u i = Some a" "ea_permission a \<noteq> None"
  proof -
    have "\<exists>i. resolve_user_instance_access st u i = Some a \<and> ea_permission a \<noteq> None" if "a \<in> set (get_accessible_instances st u)" for a
      using that by (auto simp: get_accessible_instances_def set_map_filter)
    then show thesis using assms that by blast
  qed
  then have "i_id inst = i" using resolve_user_instance instance_row_id by blast
  with a show ?thesis by blast
qed

text \<open>whatever target a statement of a user is sent to, asked for or chosen, the user has a
  permission on it; and only the default of this user may change.\<close>

theorem target_is_accessible:
  assumes "resolve_target_instance st u want = (Inr inst, st')"
  shows "(\<exists>a. resolve_user_instance_access st u (i_id inst) = Some a \<and> ea_permission a \<noteq> None)
    \<and> (st' = st \<or> st' = st\<lparr>ia_default := (ia_default st)(u := None)\<rparr>)"
proof (cases "filled want")
  case True
  then obtain w where w: "want = Some w" by (auto simp: filled_def split: option.splits)
  then show ?thesis using assms True instance_row_id [of st w inst]
    by (auto simp: resolve_target_instance_def split: option.splits if_splits)
next
  case False
  let ?acc = "map ea_instance (get_accessible_instances st u)"
  have fnd: "find P ?acc = Some x \<Longrightarrow> x \<in> ea_instance ` set (get_accessible_instances st u)" for P x
    by (auto simp: find_Some_iff simp del: find.simps)
  have "inst \<in> ea_instance ` set (get_accessible_instances st u)
      \<and> (st' = st \<or> st' = st\<lparr>ia_default := (ia_default st)(u := None)\<rparr>)"
  proof (cases "?acc")
    case Nil
    then show ?thesis using assms False by (simp add: resolve_target_instance_def Let_def)
  next
    case (Cons x xs)
    show ?thesis
    proof (cases xs)
      case Nil
      with Cons have "set ?acc = {x}" by simp
      then show ?thesis using assms False Cons Nil by (auto simp: resolve_target_instance_def Let_def)
    next
      case (Cons y ys)
      with \<open>?acc = x # xs\<close> show ?thesis
        using assms False fnd unfolding resolve_target_instance_def Let_def
        by (auto simp del: find.simps list.map set_map split: option.splits if_splits)
    qed
  qed
  then show ?thesis using accessible_has_access [of inst st u] by blast
qed



subsection \<open>Accounts\<close>

lemma get_user_credential_cases:
  assumes "get_user_credential st i u = Some uc"
  obtains a p where "resolve_user_instance_access st u i = Some a" "ea_binding a = UserBinding (uc_binding uc)"
    "ea_permission a = Some p" "user_binding_of st u i = Some (uc_binding uc)"
proof -
  from assms obtain a b p where *: "resolve_user_instance_access st u i = Some a" "ea_binding a = UserBinding b"
    "ea_permission a = Some p" "uc_binding uc = b"
    by (auto simp: get_user_credential_def split: option.splits access_binding.splits if_splits)
  from *(1) have "user_binding_of st u i = Some b"
    by (cases rule: resolve_user_cases) (use *(2) in auto)
  with * that show ?thesis by blast
qed

text \<open>once a user is unbound from an instance, no credential of it is handed out to the user any more,
  whatever the departments still allow.\<close>

theorem unbound_user_gets_no_credential:
  assumes "unbind_user_from_instance u i st = Inr st'"
    and "\<forall>x \<in> set (ia_user_bindings st). \<forall>y \<in> set (ia_user_bindings st).
      ub_user_id x = ub_user_id y \<and> ub_instance_id x = ub_instance_id y \<longrightarrow> x = y"
  shows "get_user_credential st' i u = None"
proof (rule ccontr)
  assume "get_user_credential st' i u \<noteq> None"
  then obtain uc where uc: "get_user_credential st' i u = Some uc" by blast
  then obtain b' where b': "user_binding_of st' u i = Some b'" by (rule get_user_credential_cases)
  from assms(1) obtain b where b: "user_binding_of st u i = Some b"
    and st': "st' = st\<lparr>ia_user_bindings := filter (\<lambda>x. ub_id x \<noteq> ub_id b) (ia_user_bindings st)\<rparr>"
    by (auto simp: unbind_user_from_instance_def split: option.splits)
  have "b' \<in> set (ia_user_bindings st)" "ub_id b' \<noteq> ub_id b"
    using user_binding_ids [OF b'] by (auto simp: st')
  moreover have "b' = b"
    using assms(2) user_binding_ids [OF b] user_binding_ids [OF b'] calculation(1) by metis
  ultimately show False by simp
qed

lemma find_append: "find P (xs @ ys) = (case find P xs of None \<Rightarrow> find P ys | Some x \<Rightarrow> Some x)"
  by (induction xs) auto

lemma resolve_with_system_binding:
  assumes "resolve_user_instance_access st u i = Some a" and "ea_binding a = NoBinding" and "ea_permission a = Some p"
    and st1: "st1 = st\<lparr>ia_meta := (ia_meta st)\<lparr>credentials := credentials (ia_meta st) @ [c]\<rparr>,
      ia_user_bindings := ia_user_bindings st @ [b]\<rparr>"
    and b: "ub_user_id b = u" "ub_instance_id b = i" "ub_credential_id b = Some (c_id c)" "ub_permission b = p"
      "ub_enabled b" "ub_origin b = BY_SYSTEM"
    and c: "is_valid_direct_access_credential False (Some c) i"
      "c_capability c = (if p = PERM_READONLY then CC_READONLY else CC_READWRITE)"
    and fresh: "tget c_id (c_id c) (credentials (ia_meta st)) = None"
  shows "\<exists>a1. resolve_user_instance_access st1 u i = Some a1 \<and> ea_binding a1 = UserBinding b \<and> ea_permission a1 = Some p"
  using assms(1)
proof (cases rule: resolve_user_cases)
  case (inherited user q inst)
  then have q: "q = p" using assms(3) by simp
  have bnd: "user_binding_of st1 u i = Some b"
    using inherited(3) by (simp add: user_binding_of_def st1 b find_append)
  have dep: "department_access st1 u i = department_access st u i"
    by (simp add: department_access_def inherited_bindings_def st1)
  have cred: "credential_row_of st1 (Some (c_id c)) = Some c"
    using fresh by (simp add: credential_row_of_def st1 tget_append)
  have row: "instance_row_of st1 i = Some inst" using inherited(5) by (simp add: instance_row_of_def st1)
  obtain x where x: "department_access st u i = (x, Some p)" using inherited(4) q by (metis prod.collapse)
  have perm: "(if p = PERM_READONLY then PERM_READONLY else p) = p" by simp
  have eff: "effective_permission p (set (sql_capabilities_for_permission p)) (Some c) True = Some p"
    using c(2) by (cases p) (auto simp: effective_permission_def sql_capabilities_for_permission_def)
  show ?thesis
    unfolding resolve_user_instance_access_def dep x
    using inherited(1,2) bnd row cred c(1) eff
    by (cases "ia_owner st1 (i_id inst) = Some u"; cases p) (simp_all add: st1 b Let_def)
qed (use assms(2) in auto)

text \<open>a member of a department who had no account gets one that works. When the account is created
  for the inherited access, the user's credential is then found, it is the new one, and it carries
  the permission of the departments.\<close>

theorem created_account_is_usable:
  assumes "create_db_account lib inst u st = Inr (c, st')"
    and "resolve_user_instance_access st u (i_id inst) = Some a" and "ea_binding a = NoBinding"
    and "ea_permission a = Some p"
    and "\<forall>c \<in> set (credentials (ia_meta st)). c_name c \<noteq> generate_account_name u \<and> c_id c \<noteq> al_credential_id lib"
    and "\<forall>x. al_encrypt lib x \<noteq> []"
  shows "\<exists>uc. get_user_credential st' (i_id inst) u = Some uc \<and> uc_credential uc = c \<and> uc_permission uc = p"
proof -
  have none: "get_user_credential st (i_id inst) u = None" using assms(2,3) by (simp add: get_user_credential_def)
  have nofind: "find (\<lambda>c. c_instance_id c = Some (i_id inst) \<and> c_name c = generate_account_name u) (credentials (ia_meta st)) = None"
    using assms(5) by (auto simp: find_None_iff)
  let ?b = "system_user_binding lib u (i_id inst) (c_id c) p BY_SYSTEM"
  from assms(1) none nofind have c: "is_valid_direct_access_credential False (Some c) (i_id inst)"
      "is_direct_access_credential (Some c) (i_id inst)"
      "c_capability c = (if p = PERM_READONLY then CC_READONLY else CC_READWRITE)" "c_id c = al_credential_id lib"
    and st': "st' = st\<lparr>ia_meta := (ia_meta st)\<lparr>credentials := credentials (ia_meta st) @ [c]\<rparr>,
      ia_user_bindings := ia_user_bindings st @ [?b]\<rparr>"
    using assms(2-4,6)
    by (auto simp: create_db_account_def create_instance_credential_def Let_def bindE_def filled_def
        is_valid_direct_access_credential_def is_direct_access_credential_def split: if_splits)
  have fresh: "tget c_id (c_id c) (credentials (ia_meta st)) = None"
    using assms(5) c(4) by (auto simp: tget_None_iff)
  obtain a1 where a1: "resolve_user_instance_access st' u (i_id inst) = Some a1" "ea_binding a1 = UserBinding ?b"
    "ea_permission a1 = Some p"
    using resolve_with_system_binding [OF assms(2-4) st' _ _ _ _ _ _ c(1,3) fresh] by (auto simp: system_user_binding_def)
  have "credential_row_of st' (Some (c_id c)) = Some c"
    using fresh by (simp add: credential_row_of_def st' tget_append)
  moreover have "ub_credential_id ?b = Some (c_id c)" by (simp add: system_user_binding_def)
  moreover have "intersect_permission p (c_capability c) = p" by (cases p) (auto simp: intersect_permission_def c(3))
  ultimately show ?thesis using a1 c(2) by (simp add: get_user_credential_def)
qed


subsection \<open>Agents\<close>

lemma agent_access_cases:
  assumes "resolve_agent_instance_access st ag i = Some a"
  obtains b agent inst where "agent_binding_of st ag i = Some b" "ab_enabled b"
    "tget a_id ag (agents (ia_meta st)) = Some agent" "a_status agent = AG_ACTIVE"
    "instance_row_of st i = Some inst" "ea_instance a = inst" "ea_binding a = AgentBinding b"
    "ea_capabilities a = validate_capability_set (ab_capabilities b)"
    "ea_permission a = effective_permission (ab_permission b) (validate_capability_set (ab_capabilities b))
       (let linked = credential_row_of st (Some (ab_credential_id b)) in
        if is_valid_direct_access_credential False linked i then linked else None) True"
proof -
  from assms obtain b where b: "agent_binding_of st ag i = Some b" "ab_enabled b"
    by (auto simp: resolve_agent_instance_access_def split: option.splits if_splits)
  then have ids: "ab_agent_id b = ag" "ab_instance_id b = i"
    by (auto simp: agent_binding_of_def find_Some_iff)
  from assms b ids obtain inst where inst: "instance_row_of st i = Some inst"
    by (auto simp: resolve_agent_instance_access_def split: option.splits)
  from assms b ids inst obtain agent where "tget a_id ag (agents (ia_meta st)) = Some agent" "a_status agent = AG_ACTIVE"
    by (auto simp: resolve_agent_instance_access_def split: if_splits)
  with assms b ids inst that show ?thesis
    by (auto simp: resolve_agent_instance_access_def Let_def)
qed

text \<open>C15: an agent reaches only what is its own or was bound to it. A successful answer is either a live
  resource the agent owns, with that resource's own active account and database and no other, or an
  instance with an enabled binding of the active agent, whose valid credential and permission limit
  what the agent may do.\<close>

theorem agent_reaches_only_its_own:
  assumes "resolve_agent_sql_access st ag want db = Inr acc"
  shows "(\<exists>r \<in> set (resources (ia_meta st)). want = Some (r_id r) \<and> r_owner_agent_id r = ag
            \<and> r_status r \<notin> {ST_CREATING, ST_FAILED, ST_DELETING, ST_DELETE_FAILED, ST_DELETED}
            \<and> usable_resource_access_credential r = Some (sa_credential acc) \<and> sa_database acc = r_database_name r
            \<and> (db = None \<or> db = r_database_name r))
    \<or> (\<exists>b \<in> set (ia_agent_bindings st). want = Some (ab_instance_id b) \<and> ab_agent_id b = ag \<and> ab_enabled b
            \<and> (\<exists>agent. tget a_id ag (agents (ia_meta st)) = Some agent \<and> a_status agent = AG_ACTIVE)
            \<and> credential_row_of st (Some (ab_credential_id b)) = Some (sa_credential acc)
            \<and> is_valid_direct_access_credential False (Some (sa_credential acc)) (ab_instance_id b)
            \<and> (sa_permission acc = PERM_READWRITE \<longrightarrow> ab_permission b = PERM_READWRITE
                  \<and> SQL_WRITE \<in> set (ab_capabilities b) \<and> c_capability (sa_credential acc) = CC_READWRITE))"
proof -
  obtain i where i: "want = Some i" "i \<noteq> []"
    using assms by (auto simp: resolve_agent_sql_access_def split: option.splits if_splits)
  show ?thesis
  proof (cases "take 4 i = ''dbi-''")
    case True
    have prov: "resolve_provisioned_access st ag i db = Inr acc"
      using assms i True by (simp add: resolve_agent_sql_access_def)
    then obtain r inst where r: "find (\<lambda>r. r_id r = i \<and> r_owner_agent_id r = ag) (resources (ia_meta st)) = Some r"
      by (auto simp: resolve_provisioned_access_def Let_def bind_eq_Some_conv split: option.splits)
    then have "r \<in> set (resources (ia_meta st))" "r_id r = i" "r_owner_agent_id r = ag"
      by (auto simp: find_Some_iff in_set_conv_nth)
    moreover have "resource_status_error (r_status r) = None"
      "usable_resource_access_credential r = Some (sa_credential acc)" "sa_database acc = r_database_name r"
      "db = None \<or> db = r_database_name r"
      using prov r by (auto simp: resolve_provisioned_access_def Let_def bind_eq_Some_conv split: option.splits if_splits)
    moreover from this(1) have "r_status r \<notin> {ST_CREATING, ST_FAILED, ST_DELETING, ST_DELETE_FAILED, ST_DELETED}"
      by (auto simp: resource_status_error_def)
    ultimately show ?thesis using i by blast
  next
    case False
    from assms i False obtain a where a: "resolve_agent_instance_access st ag i = Some a"
      by (auto simp: resolve_agent_sql_access_def split: option.splits)
    then show ?thesis
    proof (cases rule: agent_access_cases)
      case (1 b agent inst)
      have ii: "i_id inst = i" using instance_row_id [OF 1(5)] .
      from assms i False a 1 ii have c: "credential_row_of st (Some (ab_credential_id b)) = Some (sa_credential acc)"
        "is_valid_direct_access_credential False (Some (sa_credential acc)) i" "ea_permission a = Some (sa_permission acc)"
        by (auto simp: resolve_agent_sql_access_def split: option.splits if_splits)
      have ids: "ab_agent_id b = ag" "ab_instance_id b = i" "b \<in> set (ia_agent_bindings st)"
        using 1(1) by (auto simp: agent_binding_of_def find_Some_iff in_set_conv_nth)
      have "ab_permission b = PERM_READWRITE \<and> SQL_WRITE \<in> set (ab_capabilities b) \<and> c_capability (sa_credential acc) = CC_READWRITE"
        if "sa_permission acc = PERM_READWRITE"
        using effective_permission_write 1(9) c that write_in_closure by (fastforce simp: Let_def)
      with 1 c ids i show ?thesis by blast
    qed
  qed
qed

text \<open>a READY resource of a dedicated pool says it can run SQL and cannot. The listing advertises
  \<open>run_sql_read\<close> and \<open>run_sql_write\<close> for it, but the SQL tool looks for the instance of its backend,
  which a dedicated pool's backend does not have, and refuses every statement.\<close>

theorem dedicated_resource_cannot_run_sql:
  assumes "find (\<lambda>r. r_id r = i \<and> r_owner_agent_id r = ag) (resources (ia_meta st)) = Some r" and "take 4 i = ''dbi-''"
    and "r_status r = ST_READY" and "resource_connection_details decrypt r \<noteq> None"
    and "tget b_id (r_backend_id r) (backends (ia_meta st)) = Some b" and "b_type b = BT_DEDICATED_POOL"
    and "\<forall>b \<in> set (backends (ia_meta st)). b_type b = BT_DEDICATED_POOL \<longrightarrow> b_instance_id b = None"
  shows "''run_sql_read'' \<in> set (resource_capabilities decrypt r) \<and> ''run_sql_write'' \<in> set (resource_capabilities decrypt r)
    \<and> resolve_agent_sql_access st ag (Some i) db = Inl ''INSTANCE_NOT_ACCESSIBLE''"
proof -
  have "b_instance_id b = None" using assms(5-7) tget_SomeD by metis
  then show ?thesis
    using assms by (auto simp: resource_capabilities_def Let_def resolve_agent_sql_access_def resolve_provisioned_access_def)
qed



section \<open>A concrete store\<close>

definition access_instance :: instance_row where
  "access_instance = \<lparr>i_id = ''inst'', i_cluster_id = ''pc'', i_engine = POLARDB_MYSQL, i_topology = SINGLE_TENANT,
     i_allocation_mode = AM_REGISTERED, i_region = None, i_host = Some ''h'', i_port = Some 3306, i_status = IS_ACTIVE\<rparr>"

definition access_credential :: credential where
  "access_credential = \<lparr>c_id = ''cred'', c_instance_id = Some ''inst'', c_resource_id = None, c_name = ''n'',
     c_purpose = DIRECT_ACCESS, c_capability = CC_READWRITE, c_username_ciphertext = Some ''x'',
     c_password_ciphertext = Some ''y'', c_database_name = Some ''d'', c_status = CRED_ACTIVE, c_version = 1\<rparr>"

definition pool_backend :: backend where
  "pool_backend = \<lparr>b_id = ''pool'', b_type = BT_DEDICATED_POOL, b_instance_id = None, b_dedicated_pool_id = Some ''p'',
     b_admin_credential_id = None, b_status = BS_ACTIVE, b_priority = 0, b_max_active_resources = 1,
     b_delete_cooldown_duration_hours = None, b_permission_template_revision_id = None, b_health = None\<rparr>"

definition pool_resource :: resource where
  "pool_resource = (new_resource ''dbi-1'' ''ag'' ''pool'' ''t'' ''f'' 1 None POLARDB_MYSQL MODE_DEDICATED 0)
     \<lparr>r_status := ST_READY, r_database_name := Some ''d'', r_credentials := [access_credential
        \<lparr>c_instance_id := None, c_resource_id := Some ''dbi-1'', c_purpose := RESOURCE_ACCESS\<rparr>]\<rparr>"

definition access_user :: user where
  "access_user = \<lparr>u_id = ''u'', u_external_id = ''e'', u_auth_provider = AUTH_OIDC, u_password_hash = None,
     u_password_state = None, u_credential_epoch = 0, u_role = ROLE_MEMBER, u_status = USER_ACTIVE\<rparr>"

definition access_example :: access_store where
  "access_example = \<lparr>ia_meta = empty_db\<lparr>agents := [\<lparr>a_id = ''ag'', a_status = AG_ACTIVE, a_max_active_resources = None\<rparr>],
       instances := [access_instance], credentials := [access_credential], backends := [pool_backend], resources := [pool_resource]\<rparr>,
     ia_users = [access_user], ia_departments = [\<lparr>ud_user_id = ''u'', ud_department_id = ''dep''\<rparr>], ia_user_bindings = [],
     ia_department_bindings = [\<lparr>dp_department_id = ''dep'', dp_instance_id = ''inst'', dp_tenant_name = None, dp_default_permission = PERM_READWRITE\<rparr>],
     ia_agent_bindings = [\<lparr>ab_agent_id = ''ag'', ab_instance_id = ''inst'', ab_credential_id = ''cred'', ab_permission = PERM_READWRITE,
       ab_enabled = True, ab_capabilities = [SQL_WRITE]\<rparr>],
     ia_owner = (\<lambda>_. None), ia_default = (\<lambda>_. None)\<rparr>"

definition example_account_lib :: account_lib where
  "example_account_lib = \<lparr>al_credential_id = ''c2'', al_binding_id = ''b'', al_password = ''pw'', al_encrypt = (\<lambda>s. CHR ''e'' # s),
     al_create_account = (\<lambda>_ _ _. True)\<rparr>"

lemmas access_example_defs = access_example_def access_instance_def access_credential_def pool_backend_def
  pool_resource_def access_user_def example_account_lib_def empty_db_def new_resource_def

lemma example_user_access:
  "resolve_user_instance_access access_example ''u'' ''inst'' =
    Some \<lparr>ea_instance = access_instance, ea_binding = NoBinding, ea_capabilities = {SQL_READ, SQL_WRITE},
      ea_permission = Some PERM_READWRITE, ea_access_type = ''department''\<rparr>"
  by (simp add: resolve_user_instance_access_def user_binding_of_def department_access_def inherited_bindings_def
      instance_row_of_def access_example_defs sql_capabilities_for_permission_def)
    (simp add: sql_capabilities_closed [of PERM_READWRITE, unfolded sql_capabilities_for_permission_def, simplified])

lemma example_instance_row: "instance_row_of access_example ''inst'' = Some access_instance"
  by (simp add: instance_row_of_def access_example_def access_instance_def)

theorem write_access_is_granted_witness: "writable_for access_example ''u'' ''inst''"
  using write_access_is_granted [OF example_user_access] by (simp add: user_binding_of_def access_example_def)

theorem target_is_accessible_witness:
  "\<exists>a. resolve_user_instance_access access_example ''u'' ''inst'' = Some a \<and> ea_permission a \<noteq> None"
proof -
  have "resolve_target_instance access_example ''u'' (Some ''inst'') = (Inr access_instance, access_example)"
    by (simp add: resolve_target_instance_def filled_def example_user_access example_instance_row)
  from target_is_accessible [OF this] show ?thesis by (simp add: access_instance_def)
qed

definition bound_example :: access_store where
  "bound_example = access_example\<lparr>ia_user_bindings :=
     [system_user_binding example_account_lib ''u'' ''inst'' ''cred'' PERM_READWRITE BY_ADMIN]\<rparr>"

theorem unbound_user_gets_no_credential_witness:
  "get_user_credential access_example ''inst'' ''u'' = None"
proof -
  have "unbind_user_from_instance ''u'' ''inst'' bound_example = Inr access_example"
    by (simp add: unbind_user_from_instance_def user_binding_of_def bound_example_def system_user_binding_def access_example_def)
  then show ?thesis
    by (rule unbound_user_gets_no_credential) (simp add: bound_example_def)
qed

theorem created_account_is_usable_witness:
  "\<exists>c st' uc. create_db_account example_account_lib access_instance ''u'' access_example = Inr (c, st')
    \<and> get_user_credential st' ''inst'' ''u'' = Some uc \<and> uc_credential uc = c \<and> uc_permission uc = PERM_READWRITE"
proof -
  have i: "i_id access_instance = ''inst''" by (simp add: access_instance_def)
  have none: "get_user_credential access_example ''inst'' ''u'' = None"
    by (simp add: get_user_credential_def example_user_access)
  have cr: "credentials (ia_meta access_example) = [access_credential]" by (simp add: access_example_def)
  obtain c st' where c: "create_db_account example_account_lib access_instance ''u'' access_example = Inr (c, st')"
    by (simp add: create_db_account_def i example_user_access none create_instance_credential_def Let_def cr)
      (simp add: access_credential_def generate_account_name_def example_account_lib_def Let_def)
  show ?thesis
    using created_account_is_usable [OF c, unfolded i, OF example_user_access] c
    by (simp add: cr) (simp add: access_credential_def generate_account_name_def example_account_lib_def)
qed

lemma write_closure: "validate_capability_set [SQL_WRITE] = {SQL_READ, SQL_WRITE}"
  by code_simp

theorem agent_reaches_only_its_own_witness:
  "\<exists>acc. resolve_agent_sql_access access_example ''ag'' (Some ''inst'') None = Inr acc \<and> sa_permission acc = PERM_READWRITE
    \<and> c_capability (sa_credential acc) = CC_READWRITE"
proof -
  have "resolve_agent_sql_access access_example ''ag'' (Some ''inst'') None = Inr \<lparr>sa_public_instance_id = ''inst'', sa_source = ''bound'',
      sa_instance = access_instance, sa_credential = access_credential, sa_permission = PERM_READWRITE, sa_database = Some ''d''\<rparr>"
    by (simp add: resolve_agent_sql_access_def resolve_agent_instance_access_def agent_binding_of_def instance_row_of_def
        credential_row_of_def write_closure effective_permission_def is_valid_direct_access_credential_def filled_def access_example_defs)
  with agent_reaches_only_its_own [OF this] show ?thesis
    by (auto simp: access_example_defs)
qed

theorem dedicated_resource_cannot_run_sql_witness:
  "''run_sql_read'' \<in> set (resource_capabilities Some pool_resource)
   \<and> resolve_agent_sql_access access_example ''ag'' (Some ''dbi-1'') None = Inl ''INSTANCE_NOT_ACCESSIBLE''"
  using dedicated_resource_cannot_run_sql [of "''dbi-1''" "''ag''" access_example pool_resource Some pool_backend None]
  by (simp add: resource_connection_details_def usable_resource_access_credential_def filled_def access_example_defs)

end
