(* ===== verification/Tenant_Provisioner.thy ===== *)
theory Tenant_Provisioner
  imports Instance_Access Text_Ops "HOL-Library.Sublist"
begin

text \<open>
  The tenant of a user on a shared multitenant instance (\<open>core/tenant_provisioner.py\<close>) and its
  removal (\<open>delete_tenant\<close> of \<open>api/instances.py\<close>). A binding remembers the next step, and every step that was
  executed is committed before the next, so a run that failed is resumed where it stopped. The
  server is a parameter with a state of its own; what other sessions commit between two transactions
  is the function \<open>env\<close>.

  Shown: with a server that executes what it is asked to, the statements of all steps are sent once
  and in order and the user's credential is then found; whatever other sessions do, a run sends a
  step at most once and none behind the recorded one; tenant names of the users of an instance are
  kept distinct. The last section has the ways in which a tenant that was removed cannot come back.
\<close>

section \<open>Names and statements\<close>

text \<open>New keys, the password, the cipher and the server. An answer of the server is the text of an
  error or none.\<close>

record 'v tenant_lib =
  tl_credential_id :: string
  tl_binding_id :: string
  tl_password :: string
  tl_encrypt :: "string \<Rightarrow> string"
  tl_decrypt :: "string \<Rightarrow> string"
  tl_connect :: "instance_row \<Rightarrow> string \<Rightarrow> string \<Rightarrow> bool"
  tl_execute :: "string \<Rightarrow> 'v \<Rightarrow> string option \<times> 'v"

abbreviation step_order :: "tenant_step list" where
  "step_order \<equiv> [TN_PENDING, TN_RESOURCE_CONFIG, TN_TENANT, TN_USER, TN_DATABASE, TN_GRANT]"

fun step_index :: "tenant_step \<Rightarrow> nat" where
  "step_index TN_PENDING = 0"
| "step_index TN_RESOURCE_CONFIG = 1"
| "step_index TN_TENANT = 2"
| "step_index TN_USER = 3"
| "step_index TN_DATABASE = 4"
| "step_index TN_GRANT = 5"

definition next_step :: "tenant_step \<Rightarrow> tenant_step option" where
  "next_step s = (if step_index s + 1 < length step_order then Some (step_order ! (step_index s + 1)) else None)"

definition tenant_holders :: "access_store \<Rightarrow> string \<Rightarrow> string \<Rightarrow> string \<Rightarrow> user_binding list" where
  "tenant_holders st instance_id user_id name =
     filter (\<lambda>b. ub_instance_id b = instance_id \<and> ub_tenant_name b = Some name \<and> ub_user_id b \<noteq> user_id) (ia_user_bindings st)"

text \<open>The first candidate nobody else holds; a query with two rows raises.\<close>

fun first_free_name :: "access_store \<Rightarrow> string \<Rightarrow> string \<Rightarrow> string list \<Rightarrow> string + string" where
  "first_free_name st instance_id user_id [] = Inl ''RuntimeError''"
| "first_free_name st instance_id user_id (name # names) =
     (case tenant_holders st instance_id user_id name of
        [] \<Rightarrow> Inr name
      | [_] \<Rightarrow> first_free_name st instance_id user_id names
      | _ \<Rightarrow> Inl ''MultipleResultsFound'')"

definition tenant_candidates :: "string \<Rightarrow> string list" where
  "tenant_candidates user_id =
     (let short_id = filter (\<lambda>c. c \<noteq> CHR ''-'') user_id in
      (CHR ''t'' # take 8 short_id) # map (\<lambda>suffix. CHR ''t'' # take 7 short_id @ int_text suffix) [2, 3, 4, 5, 6, 7, 8, 9])"

definition generate_tenant_name :: "access_store \<Rightarrow> string \<Rightarrow> string \<Rightarrow> string + string" where
  "generate_tenant_name st instance_id user_id = first_free_name st instance_id user_id (tenant_candidates user_id)"

definition agentic_name :: "string \<Rightarrow> string" where
  "agentic_name tenant_name = ''agentic@'' @ tenant_name"

definition quoted :: "string \<Rightarrow> string" where
  "quoted s = [CHR 0x27] @ s @ [CHR 0x27]"

definition back_quoted :: "string \<Rightarrow> string" where
  "back_quoted s = [CHR 0x60] @ s @ [CHR 0x60]"

fun build_step_sql :: "tenant_step \<Rightarrow> string \<Rightarrow> string \<Rightarrow> string" where
  "build_step_sql TN_PENDING tenant_name password = ''CREATE resource_config rc_'' @ tenant_name @ '' min_cpu 0 max_cpu 2''"
| "build_step_sql TN_RESOURCE_CONFIG tenant_name password = ''CREATE tenant '' @ tenant_name @ '' resource_config rc_'' @ tenant_name"
| "build_step_sql TN_TENANT tenant_name password =
     ''CREATE USER '' @ quoted (agentic_name tenant_name) @ ''@'' @ quoted ''%'' @ '' IDENTIFIED WITH mysql_native_password BY '' @ quoted password"
| "build_step_sql TN_USER tenant_name password = ''CREATE DATABASE IF NOT EXISTS '' @ back_quoted (agentic_name tenant_name)"
| "build_step_sql TN_DATABASE tenant_name password =
     ''GRANT ALL PRIVILEGES ON '' @ back_quoted (''%@'' @ tenant_name) @ ''.* TO '' @ quoted (agentic_name tenant_name)
       @ ''@'' @ quoted ''%'' @ '' WITH GRANT OPTION''"
| "build_step_sql TN_GRANT tenant_name password = []"

definition get_admin_credential :: "access_store \<Rightarrow> string \<Rightarrow> string + credential" where
  "get_admin_credential st instance_id =
     (case filter (\<lambda>c. c_instance_id c = Some instance_id \<and> c_purpose c = PROVISIONING_ADMIN
                       \<and> c_capability c = CC_ADMIN \<and> c_status c = CRED_ACTIVE) (credentials (ia_meta st)) of
        [] \<Rightarrow> Inl ''RuntimeError''
      | [c] \<Rightarrow> Inr c
      | _ \<Rightarrow> Inl ''MultipleResultsFound'')"

definition connect_as_super :: "'v tenant_lib \<Rightarrow> instance_row \<Rightarrow> credential \<Rightarrow> string + unit" where
  "connect_as_super lib inst admin =
     (case (c_username_ciphertext admin, c_password_ciphertext admin) of
        (Some u, Some p) \<Rightarrow> if tl_connect lib inst (tl_decrypt lib u) (tl_decrypt lib p) then Inr () else Inl ''connect''
      | _ \<Rightarrow> Inl ''RuntimeError'')"


section \<open>The steps\<close>

text \<open>Errors that say that the object is already there are skipped.\<close>

definition already_there :: "string \<Rightarrow> bool" where
  "already_there err = (let e = map lower_char err in
     contains_text ''duplicate'' e \<or> contains_text ''already exists'' e \<or> contains_text ''1396'' err)"

definition execute_step :: "'v tenant_lib \<Rightarrow> tenant_step \<Rightarrow> string \<Rightarrow> string \<Rightarrow> 'v \<Rightarrow> string option \<times> 'v" where
  "execute_step lib step tenant_name password v =
     (if step = TN_GRANT then (None, v)
      else case tl_execute lib (build_step_sql step tenant_name password) v of
        (None, v') \<Rightarrow> (None, v')
      | (Some err, v') \<Rightarrow> (if already_there err then None else Some err, v'))"

definition set_step :: "string \<Rightarrow> tenant_step option \<Rightarrow> access_store \<Rightarrow> access_store" where
  "set_step bid s st = st\<lparr>ia_user_bindings := tupd ub_id bid (\<lambda>b. b\<lparr>ub_provisioning_step := s\<rparr>) (ia_user_bindings st)\<rparr>"

text \<open>The loop over the steps; \<open>k\<close> counts the transactions.\<close>

fun tenant_steps :: "'v tenant_lib \<Rightarrow> (nat \<Rightarrow> access_store \<Rightarrow> access_store) \<Rightarrow> nat \<Rightarrow> tenant_step list \<Rightarrow> string \<Rightarrow> string \<Rightarrow> string
    \<Rightarrow> access_store \<times> 'v \<Rightarrow> (string + unit) \<times> access_store \<times> 'v" where
  "tenant_steps lib env k [] bid tenant_name password (st, v) = (Inr (), st, v)"
| "tenant_steps lib env k (step # steps) bid tenant_name password (st0, v) =
     (let st = env k st0 in
      case tget ub_id bid (ia_user_bindings st) of
        None \<Rightarrow> (Inl ''NoResultFound'', st, v)
      | Some b \<Rightarrow>
        (case ub_provisioning_step b of
           None \<Rightarrow> (Inr (), st, v)
         | Some current \<Rightarrow>
           if step_index step < step_index current then tenant_steps lib env (k + 1) steps bid tenant_name password (st, v)
           else (case execute_step lib step tenant_name password v of
               (Some err, v') \<Rightarrow> (Inl err, st, v')
             | (None, v') \<Rightarrow> tenant_steps lib env (k + 1) steps bid tenant_name password (set_step bid (next_step step) st, v'))))"


section \<open>ensure\_tenant\<close>

definition tenant_credential :: "'v tenant_lib \<Rightarrow> string \<Rightarrow> string \<Rightarrow> string \<Rightarrow> permission \<Rightarrow> credential" where
  "tenant_credential lib instance_id user_id tenant_name permission =
     \<lparr>c_id = tl_credential_id lib, c_instance_id = Some instance_id, c_resource_id = None, c_name = ''direct-'' @ user_id,
      c_purpose = DIRECT_ACCESS, c_capability = (if permission = PERM_READONLY then CC_READONLY else CC_READWRITE),
      c_username_ciphertext = Some (tl_encrypt lib (agentic_name tenant_name)),
      c_password_ciphertext = Some (tl_encrypt lib (tl_password lib)),
      c_database_name = Some (agentic_name tenant_name), c_status = CRED_ACTIVE, c_version = 1\<rparr>"

definition tenant_binding :: "'v tenant_lib \<Rightarrow> string \<Rightarrow> string \<Rightarrow> string \<Rightarrow> permission \<Rightarrow> binding_origin \<Rightarrow> user_binding" where
  "tenant_binding lib instance_id user_id tenant_name permission origin =
     \<lparr>ub_id = tl_binding_id lib, ub_user_id = user_id, ub_instance_id = instance_id,
      ub_credential_id = Some (tl_credential_id lib), ub_permission = permission, ub_enabled = True, ub_origin = origin,
      ub_tenant_name = Some tenant_name, ub_provisioning_step = Some TN_PENDING,
      ub_capabilities = sql_capabilities_for_permission permission\<rparr>"

text \<open>The insertion of the credential and the binding. The unique constraints are checked against what
  other sessions have committed. An error of the first insertion leaves the function; one of the
  second is rolled back, with the credential, and the binding of the other session is read. The
  flag says that the binding is finished.\<close>

definition insert_tenant :: "'v tenant_lib \<Rightarrow> (nat \<Rightarrow> access_store \<Rightarrow> access_store) \<Rightarrow> string \<Rightarrow> string \<Rightarrow> permission \<Rightarrow> binding_origin
    \<Rightarrow> access_store \<Rightarrow> (string + (bool \<times> user_binding)) \<times> access_store" where
  "insert_tenant lib env instance_id user_id permission origin st =
     (case generate_tenant_name st instance_id user_id of
        Inl e \<Rightarrow> (Inl e, st)
      | Inr name \<Rightarrow>
        let c = tenant_credential lib instance_id user_id name permission;
            b = tenant_binding lib instance_id user_id name permission origin;
            st1 = env 0 st in
        if list_ex (\<lambda>x. c_instance_id x = Some instance_id \<and> c_name x = c_name c) (credentials (ia_meta st1))
        then (Inl ''IntegrityError'', st1)
        else let st2 = env 1 st1 in
          (case user_binding_of st2 user_id instance_id of
             Some other \<Rightarrow> (Inr (ub_provisioning_step other = None, other), st2)
           | None \<Rightarrow> (Inr (False, b), st2\<lparr>ia_meta := (ia_meta st2)\<lparr>credentials := credentials (ia_meta st2) @ [c]\<rparr>,
                              ia_user_bindings := ia_user_bindings st2 @ [b]\<rparr>)))"

definition drive_tenant :: "'v tenant_lib \<Rightarrow> (nat \<Rightarrow> access_store \<Rightarrow> access_store) \<Rightarrow> instance_row \<Rightarrow> user_binding
    \<Rightarrow> access_store \<times> 'v \<Rightarrow> (string + unit) \<times> access_store \<times> 'v" where
  "drive_tenant lib env inst b = (\<lambda>(st, v).
     case (ub_provisioning_step b, ub_tenant_name b, ub_credential_id b) of
       (Some start, Some tenant_name, Some cid) \<Rightarrow>
         (case credential_row_of st (Some cid) of
            None \<Rightarrow> (Inl ''RuntimeError'', st, v)
          | Some cred \<Rightarrow>
            if \<not> is_direct_access_credential (Some cred) (i_id inst) then (Inl ''RuntimeError'', st, v)
            else case (get_admin_credential st (i_id inst), c_password_ciphertext cred) of
              (Inl e, _) \<Rightarrow> (Inl e, st, v)
            | (Inr _, None) \<Rightarrow> (Inl ''RuntimeError'', st, v)
            | (Inr admin, Some ciphertext) \<Rightarrow>
              (case connect_as_super lib inst admin of
                 Inl e \<Rightarrow> (Inl e, st, v)
               | Inr _ \<Rightarrow> tenant_steps lib env 2 (drop (step_index start) step_order) (ub_id b) tenant_name
                   (tl_decrypt lib ciphertext) (st, v)))
     | _ \<Rightarrow> (Inl ''RuntimeError'', st, v))"

definition ensure_tenant :: "'v tenant_lib \<Rightarrow> (nat \<Rightarrow> access_store \<Rightarrow> access_store) \<Rightarrow> instance_row \<Rightarrow> string \<Rightarrow> permission
    \<Rightarrow> binding_origin \<Rightarrow> access_store \<times> 'v \<Rightarrow> (string + unit) \<times> access_store \<times> 'v" where
  "ensure_tenant lib env inst user_id permission origin = (\<lambda>(st, v).
     case user_binding_of st user_id (i_id inst) of
       Some b \<Rightarrow>
         if ub_provisioning_step b = None \<and> ub_credential_id b \<noteq> None then (Inr (), st, v)
         else drive_tenant lib env inst b (st, v)
     | None \<Rightarrow>
         (case insert_tenant lib env (i_id inst) user_id permission origin st of
            (Inl e, st1) \<Rightarrow> (Inl e, st1, v)
          | (Inr (True, b), st1) \<Rightarrow> (Inr (), st1, v)
          | (Inr (False, b), st1) \<Rightarrow> drive_tenant lib env inst b (st1, v)))"

text \<open>\<open>delete_tenant\<close> of the administration API.\<close>

definition delete_tenant :: "string \<Rightarrow> string \<Rightarrow> access_store \<Rightarrow> string + access_store" where
  "delete_tenant instance_id user_id st =
     (case user_binding_of st user_id instance_id of
        None \<Rightarrow> Inl ''Tenant not found''
      | Some b \<Rightarrow> Inr (st\<lparr>ia_user_bindings := filter (\<lambda>x. ub_id x \<noteq> ub_id b) (ia_user_bindings st),
          ia_meta := (case ub_credential_id b of
             None \<Rightarrow> ia_meta st
           | Some c \<Rightarrow> (ia_meta st)\<lparr>credentials := filter (\<lambda>x. c_id x \<noteq> c) (credentials (ia_meta st))\<rparr>)\<rparr>))"



section \<open>What a run does\<close>

definition undisturbed :: "(nat \<Rightarrow> access_store \<Rightarrow> access_store) \<Rightarrow> bool" where
  "undisturbed env = (\<forall>k st. env k st = st)"

lemma undisturbedD [simp]: "undisturbed env \<Longrightarrow> env k st = st"
  by (simp add: undisturbed_def)

text \<open>A server that executes what it is asked to, or says that it was done before.\<close>

definition obeys :: "'v tenant_lib \<Rightarrow> bool" where
  "obeys lib = (\<forall>q v. case fst (tl_execute lib q v) of None \<Rightarrow> True | Some err \<Rightarrow> already_there err)"

lemma execute_step_obeys:
  assumes "obeys lib"
  shows "execute_step lib s name pw v = (None, if s = TN_GRANT then v else snd (tl_execute lib (build_step_sql s name pw) v))"
proof -
  have "case fst (tl_execute lib (build_step_sql s name pw) v) of None \<Rightarrow> True | Some err \<Rightarrow> already_there err"
    using assms unfolding obeys_def by blast
  then show ?thesis by (auto simp: execute_step_def split: prod.splits option.splits)
qed

lemma tget_set_step [simp]:
  "tget ub_id bid (ia_user_bindings (set_step bid s st)) = map_option (\<lambda>b. b\<lparr>ub_provisioning_step := s\<rparr>) (tget ub_id bid (ia_user_bindings st))"
  by (simp add: set_step_def tget_tupd)

lemma set_step_twice [simp]: "set_step bid a (set_step bid b st) = set_step bid a st"
  by (simp add: set_step_def tupd_def)

text \<open>Alone, on a server that executes everything, the remaining steps are all done.\<close>

lemma tenant_steps_done:
  assumes "obeys lib" and "undisturbed env" and "tget ub_id bid (ia_user_bindings st) = Some b" and "ub_provisioning_step b = Some cur"
  shows "tenant_steps lib env k (drop (step_index cur) step_order) bid name pw (st, v) =
    (Inr (), set_step bid None st,
     fold (\<lambda>s v. snd (tl_execute lib (build_step_sql s name pw) v)) (drop (step_index cur) (butlast step_order)) v)"
  using assms(3,4)
  by (cases cur) (simp_all add: assms(2) execute_step_obeys [OF assms(1)] next_step_def Let_def)


lemma admin_credential_snoc:
  "c_purpose c = DIRECT_ACCESS \<Longrightarrow> get_admin_credential (st\<lparr>ia_meta := (ia_meta st)\<lparr>credentials := credentials (ia_meta st) @ [c]\<rparr>,
     ia_user_bindings := bs\<rparr>) i = get_admin_credential st i"
  by (simp add: get_admin_credential_def)

lemma drive_new_tenant:
  assumes lib: "obeys lib" "undisturbed env" "\<And>x. tl_decrypt lib (tl_encrypt lib x) = x"
    and b: "b = tenant_binding lib (i_id inst) u name p origin" and c: "c = tenant_credential lib (i_id inst) u name p"
    and row: "credential_row_of st (Some (c_id c)) = Some c" "is_direct_access_credential (Some c) (i_id inst)"
    and admin: "get_admin_credential st (i_id inst) = Inr admin" "connect_as_super lib inst admin = Inr ()"
    and got: "tget ub_id (ub_id b) (ia_user_bindings st) = Some b"
  shows "drive_tenant lib env inst b (st, v) = (Inr (), set_step (ub_id b) None st,
    fold (\<lambda>s v. snd (tl_execute lib (build_step_sql s name (tl_password lib)) v)) (butlast step_order) v)"
proof -
  have f: "ub_provisioning_step b = Some TN_PENDING" "ub_tenant_name b = Some name" "ub_credential_id b = Some (c_id c)"
    "c_password_ciphertext c = Some (tl_encrypt lib (tl_password lib))"
    by (simp_all add: b tenant_binding_def c tenant_credential_def)
  have "drive_tenant lib env inst b (st, v) = tenant_steps lib env 2 (drop (step_index TN_PENDING) step_order) (ub_id b) name (tl_password lib) (st, v)"
    using row admin lib(3) f by (simp add: drive_tenant_def del: tenant_steps.simps)
  also have "\<dots> = (Inr (), set_step (ub_id b) None st,
      fold (\<lambda>s v. snd (tl_execute lib (build_step_sql s name (tl_password lib)) v)) (butlast step_order) v)"
    by (subst tenant_steps_done [OF lib(1,2) got]) (simp_all add: b tenant_binding_def)
  finally show ?thesis .
qed

lemma ensured_tenant:
  fixes st :: access_store
  assumes access: "resolve_user_instance_access st u (i_id inst) = Some a" "ea_binding a = NoBinding" "ea_permission a = Some p"
    and lib: "obeys lib" "undisturbed env" "\<And>x. tl_decrypt lib (tl_encrypt lib x) = x" "\<And>x. tl_encrypt lib x \<noteq> []"
    and fresh: "tl_credential_id lib \<notin> c_id ` set (credentials (ia_meta st))" "tl_binding_id lib \<notin> ub_id ` set (ia_user_bindings st)"
      "\<And>c. c \<in> set (credentials (ia_meta st)) \<Longrightarrow> c_name c \<noteq> ''direct-'' @ u"
    and name: "generate_tenant_name st (i_id inst) u = Inr name"
    and admin: "get_admin_credential st (i_id inst) = Inr admin" "connect_as_super lib inst admin = Inr ()"
  shows "\<exists>st' uc. ensure_tenant lib env inst u p BY_SYSTEM (st, v) =
      (Inr (), st', fold (\<lambda>s v. snd (tl_execute lib (build_step_sql s name (tl_password lib)) v)) (butlast step_order) v)
    \<and> get_user_credential st' (i_id inst) u = Some uc \<and> uc_permission uc = p
    \<and> ub_provisioning_step (uc_binding uc) = None \<and> ub_tenant_name (uc_binding uc) = Some name
    \<and> map_option (tl_decrypt lib) (c_username_ciphertext (uc_credential uc)) = Some (agentic_name name)
    \<and> map_option (tl_decrypt lib) (c_password_ciphertext (uc_credential uc)) = Some (tl_password lib)
    \<and> st' = st\<lparr>ia_meta := (ia_meta st)\<lparr>credentials := credentials (ia_meta st) @ [tenant_credential lib (i_id inst) u name p]\<rparr>,
        ia_user_bindings := ia_user_bindings st @ [(tenant_binding lib (i_id inst) u name p BY_SYSTEM)\<lparr>ub_provisioning_step := None\<rparr>]\<rparr>"
proof -
  define c where "c = tenant_credential lib (i_id inst) u name p"
  define b where "b = tenant_binding lib (i_id inst) u name p BY_SYSTEM"
  define st1 where "st1 = st\<lparr>ia_meta := (ia_meta st)\<lparr>credentials := credentials (ia_meta st) @ [c]\<rparr>, ia_user_bindings := ia_user_bindings st @ [b]\<rparr>"
  define b1 where "b1 = b\<lparr>ub_provisioning_step := None\<rparr>"
  have ids: "c_id c = tl_credential_id lib" "ub_id b = tl_binding_id lib" "c_purpose c = DIRECT_ACCESS"
    "c_name c = ''direct-'' @ u" "ub_credential_id b = Some (c_id c)"
    by (simp_all add: c_def tenant_credential_def b_def tenant_binding_def)
  have none: "user_binding_of st u (i_id inst) = None" using access(1,2) by (cases rule: resolve_user_cases) auto
  have "\<not> list_ex (\<lambda>x. c_instance_id x = Some (i_id inst) \<and> c_name x = c_name c) (credentials (ia_meta st))"
    using fresh(3) ids(4) by (auto simp: list_ex_iff)
  then have ins: "insert_tenant lib env (i_id inst) u p BY_SYSTEM st = (Inr (False, b), st1)"
    using name none lib(2) by (simp add: insert_tenant_def c_def b_def st1_def Let_def)
  have fr: "tget c_id (c_id c) (credentials (ia_meta st)) = None" using fresh(1) ids(1) by (simp add: tget_None_iff)
  then have row: "credential_row_of st1 (Some (c_id c)) = Some c" by (simp add: credential_row_of_def st1_def tget_append)
  have direct: "is_direct_access_credential (Some c) (i_id inst)" "is_valid_direct_access_credential False (Some c) (i_id inst)"
    using lib(4) by (simp_all add: c_def tenant_credential_def is_direct_access_credential_def is_valid_direct_access_credential_def filled_def)
  have adm: "get_admin_credential st1 (i_id inst) = Inr admin" using admin(1) admin_credential_snoc [OF ids(3)] by (simp add: st1_def)
  have bget: "tget ub_id (ub_id b) (ia_user_bindings st1) = Some b" using fresh(2) unfolding ids(2) [symmetric] by (simp add: st1_def tget_snoc_fresh)
  have st2: "set_step (ub_id b) None st1 = st\<lparr>ia_meta := (ia_meta st)\<lparr>credentials := credentials (ia_meta st) @ [c]\<rparr>,
      ia_user_bindings := ia_user_bindings st @ [b1]\<rparr>"
    using fresh(2) unfolding ids(2) [symmetric] by (simp add: set_step_def st1_def b1_def tupd_snoc_fresh)
  have "drive_tenant lib env inst b (st1, v) = (Inr (), set_step (ub_id b) None st1,
      fold (\<lambda>s v. snd (tl_execute lib (build_step_sql s name (tl_password lib)) v)) (butlast step_order) v)"
    by (rule drive_new_tenant [OF lib(1-3) b_def c_def row direct(1) adm admin(2) bget])
  then have run: "ensure_tenant lib env inst u p BY_SYSTEM (st, v) = (Inr (), set_step (ub_id b) None st1,
      fold (\<lambda>s v. snd (tl_execute lib (build_step_sql s name (tl_password lib)) v)) (butlast step_order) v)"
    using none ins by (simp add: ensure_tenant_def)
  have "c_capability c = (if p = PERM_READONLY then CC_READONLY else CC_READWRITE)" by (simp add: c_def tenant_credential_def)
  then obtain a1 where a1: "resolve_user_instance_access (set_step (ub_id b) None st1) u (i_id inst) = Some a1"
    "ea_binding a1 = UserBinding b1" "ea_permission a1 = Some p"
    using resolve_with_system_binding [OF access st2 _ _ _ _ _ _ direct(2) _ fr] ids
    by (auto simp: b1_def b_def tenant_binding_def c_def tenant_credential_def)
  have "credential_row_of (set_step (ub_id b) None st1) (Some (c_id c)) = Some c" using row by (simp add: set_step_def credential_row_of_def)
  then have "get_user_credential (set_step (ub_id b) None st1) (i_id inst) u =
      Some \<lparr>uc_binding = b1, uc_credential = c, uc_permission = intersect_permission p (c_capability c)\<rparr>"
    using a1 direct(1) ids(5) by (simp add: get_user_credential_def b1_def)
  moreover have "intersect_permission p (c_capability c) = p" by (cases p) (simp_all add: intersect_permission_def c_def tenant_credential_def)
  ultimately show ?thesis using run lib(3) st2 by (simp add: b1_def b_def tenant_binding_def c_def tenant_credential_def)
qed

text \<open>C23: a member of a department gets a tenant that works. The conditions: the user has inherited access
  and no binding; the server executes what it is asked to (or says that it was done before) and is reached with the
  administrator's account; no other session interferes; no credential \<open>direct-<user>\<close> is left from an earlier
  binding, the tenant name and the drawn ids are free; the cipher inverts. Then every statement is
  sent once and in order, the binding is finished, and the user's credential is found, with the
  permission of the departments and the name and password of the account that was created.\<close>

theorem tenant_becomes_usable:
  fixes st :: access_store
  assumes access: "resolve_user_instance_access st u (i_id inst) = Some a" "ea_binding a = NoBinding" "ea_permission a = Some p"
    and lib: "obeys lib" "undisturbed env" "\<And>x. tl_decrypt lib (tl_encrypt lib x) = x" "\<And>x. tl_encrypt lib x \<noteq> []"
    and fresh: "tl_credential_id lib \<notin> c_id ` set (credentials (ia_meta st))" "tl_binding_id lib \<notin> ub_id ` set (ia_user_bindings st)"
      "\<And>c. c \<in> set (credentials (ia_meta st)) \<Longrightarrow> c_name c \<noteq> ''direct-'' @ u"
    and name: "generate_tenant_name st (i_id inst) u = Inr name"
    and admin: "get_admin_credential st (i_id inst) = Inr admin" "connect_as_super lib inst admin = Inr ()"
  shows "\<exists>st' uc. ensure_tenant lib env inst u p BY_SYSTEM (st, v) =
      (Inr (), st', fold (\<lambda>s v. snd (tl_execute lib (build_step_sql s name (tl_password lib)) v)) (butlast step_order) v)
    \<and> get_user_credential st' (i_id inst) u = Some uc \<and> uc_permission uc = p
    \<and> ub_provisioning_step (uc_binding uc) = None \<and> ub_tenant_name (uc_binding uc) = Some name
    \<and> map_option (tl_decrypt lib) (c_username_ciphertext (uc_credential uc)) = Some (agentic_name name)
    \<and> map_option (tl_decrypt lib) (c_password_ciphertext (uc_credential uc)) = Some (tl_password lib)"
  using ensured_tenant [OF access lib fresh name admin] by blast

text \<open>The server's record of what was sent.\<close>

definition recording :: "string list tenant_lib \<Rightarrow> bool" where
  "recording lib = (\<forall>q v. snd (tl_execute lib q v) = v @ [q])"

lemma execute_step_sends:
  assumes "recording lib" and "execute_step lib s name pw v = (r, v')"
  shows "v' = v @ (if s = TN_GRANT then [] else [build_step_sql s name pw])"
proof -
  have "snd (tl_execute lib (build_step_sql s name pw) v) = v @ [build_step_sql s name pw]"
    using assms(1) by (simp add: recording_def)
  then show ?thesis using assms(2) by (auto simp: execute_step_def split: if_splits prod.splits option.splits)
qed

lemma subseq_elems: "subseq xs ys \<Longrightarrow> set xs \<subseteq> set ys"
  by (induction rule: list_emb.induct) auto

lemma tenant_steps_send:
  assumes "recording lib" and "tenant_steps lib env k steps bid name pw (st, v) = (r, st', v')"
  shows "\<exists>ss. subseq ss (filter (\<lambda>s. s \<noteq> TN_GRANT) steps) \<and> v' = v @ map (\<lambda>s. build_step_sql s name pw) ss"
  using assms(2)
proof (induction steps arbitrary: k st v)
  case (Cons step steps)
  show ?case
  proof (cases "v' = v")
    case True
    then show ?thesis by (intro exI [of _ "[]"]) simp
  next
    case False
    then obtain b current where b: "tget ub_id bid (ia_user_bindings (env k st)) = Some b" "ub_provisioning_step b = Some current"
      using Cons.prems by (auto simp: Let_def split: option.splits)
    obtain x w where x: "execute_step lib step name pw v = (x, w)" by fastforce
    have w: "w = v @ (if step = TN_GRANT then [] else [build_step_sql step name pw])" by (rule execute_step_sends [OF assms(1) x])
    consider (skip) "step_index step < step_index current"
      | (fails) e where "\<not> step_index step < step_index current" "x = Some e"
      | (goes) "\<not> step_index step < step_index current" "x = None" by (cases x) auto
    then show ?thesis
    proof cases
      case skip
      then obtain ss where "subseq ss (filter (\<lambda>s. s \<noteq> TN_GRANT) steps)" "v' = v @ map (\<lambda>s. build_step_sql s name pw) ss"
        using Cons.IH [of "k + 1" "env k st" v] Cons.prems b by (auto simp: Let_def)
      then show ?thesis by (intro exI [of _ ss]) (auto intro: subseq_Cons')
    next
      case fails
      then have "v' = w" using Cons.prems b x by (auto simp: Let_def)
      then show ?thesis using w
        by (intro exI [of _ "if step = TN_GRANT then [] else [step]"]) (auto simp: subseq_singleton_left)
    next
      case goes
      then obtain ss where "subseq ss (filter (\<lambda>s. s \<noteq> TN_GRANT) steps)" "v' = w @ map (\<lambda>s. build_step_sql s name pw) ss"
        using Cons.IH [of "k + 1" "set_step bid (next_step step) (env k st)" w] Cons.prems b x by (auto simp: Let_def)
      then show ?thesis using w
        by (intro exI [of _ "if step = TN_GRANT then ss else step # ss"]) auto
    qed
  qed
qed simp

text \<open>a run sends every statement at most once and in order. Whatever other sessions commit in
  between and whatever the server answers, what one call of \<open>ensure_tenant\<close> sends are statements of
  one tenant with one password, in the order of the steps, without repetition; when it resumes a
  binding, none of a step before the recorded one.\<close>

theorem tenant_statements_in_order:
  assumes "recording lib" and "ensure_tenant lib env inst u p origin (st, []) = (r, st', sent)"
  shows "\<exists>name pw ss. subseq ss (butlast step_order) \<and> sent = map (\<lambda>s. build_step_sql s name pw) ss
    \<and> (\<forall>b start. user_binding_of st u (i_id inst) = Some b \<longrightarrow> ub_provisioning_step b = Some start \<longrightarrow>
         (\<forall>s \<in> set ss. step_index start \<le> step_index s))"
proof -
  have drive: "\<exists>name pw ss. subseq ss (butlast step_order) \<and> sent = map (\<lambda>s. build_step_sql s name pw) ss
      \<and> (\<forall>start. ub_provisioning_step b = Some start \<longrightarrow> (\<forall>s \<in> set ss. step_index start \<le> step_index s))"
    if d: "drive_tenant lib env inst b (st1, []) = (r, st', sent)" for b st1
  proof (cases "sent = []")
    case False
    then obtain start name pw where s: "ub_provisioning_step b = Some start"
      "tenant_steps lib env 2 (drop (step_index start) step_order) (ub_id b) name pw (st1, []) = (r, st', sent)"
      using d by (auto simp: drive_tenant_def simp del: tenant_steps.simps split: option.splits sum.splits if_splits unit.splits)
    obtain ss where ss: "subseq ss (filter (\<lambda>s. s \<noteq> TN_GRANT) (drop (step_index start) step_order))"
      "sent = map (\<lambda>s. build_step_sql s name pw) ss" using tenant_steps_send [OF assms(1) s(2)] by auto
    have "filter (\<lambda>s. s \<noteq> TN_GRANT) (drop (step_index start) step_order) = drop (step_index start) (butlast step_order)"
      by (cases start) simp_all
    moreover have "\<forall>s \<in> set (drop (step_index start) (butlast step_order)). step_index start \<le> step_index s" by (cases start) simp_all
    moreover have "set ss \<subseteq> set (filter (\<lambda>s. s \<noteq> TN_GRANT) (drop (step_index start) step_order))" using ss(1) by (rule subseq_elems)
    moreover have "subseq (drop (step_index start) (butlast step_order)) (butlast step_order)"
      using suffix_drop by (rule suffix_imp_subseq)
    ultimately have "subseq ss (butlast step_order)" "\<forall>s \<in> set ss. step_index start \<le> step_index s"
      using ss(1) by (auto intro: subseq_order.order_trans)
    then show ?thesis using s(1) ss(2) by auto
  qed (intro exI [of _ "[]"], simp)
  show ?thesis
  proof (cases "user_binding_of st u (i_id inst)")
    case None
    then show ?thesis using assms(2) drive
      by (auto simp: ensure_tenant_def split: prod.splits sum.splits bool.splits) blast+
  next
    case (Some b)
    then show ?thesis using assms(2) drive [of b st]
      by (cases "ub_provisioning_step b = None \<and> ub_credential_id b \<noteq> None") (auto simp: ensure_tenant_def)
  qed
qed



section \<open>Names stay distinct\<close>

definition tenant_names_distinct :: "access_store \<Rightarrow> bool" where
  "tenant_names_distinct st =
     (\<forall>b \<in> set (ia_user_bindings st). \<forall>b' \<in> set (ia_user_bindings st). ub_instance_id b = ub_instance_id b' \<longrightarrow>
        ub_tenant_name b \<noteq> None \<longrightarrow> ub_tenant_name b = ub_tenant_name b' \<longrightarrow> ub_user_id b = ub_user_id b')"

lemma first_free_name_free: "first_free_name st i u names = Inr name \<Longrightarrow> tenant_holders st i u name = []"
  by (induction names) (auto split: list.splits)

lemma distinct_names_cong:
  assumes "\<And>b. b \<in> set (ia_user_bindings st') \<Longrightarrow> \<exists>b' \<in> set (ia_user_bindings st). ub_instance_id b' = ub_instance_id b
      \<and> ub_tenant_name b' = ub_tenant_name b \<and> ub_user_id b' = ub_user_id b"
    and "tenant_names_distinct st"
  shows "tenant_names_distinct st'"
  using assms unfolding tenant_names_distinct_def by metis

lemma distinct_names_step: "tenant_names_distinct st \<Longrightarrow> tenant_names_distinct (set_step bid s st)"
  by (rule distinct_names_cong [of _ st]) (auto simp: set_step_def tupd_def)

lemma tenant_steps_names:
  "undisturbed env \<Longrightarrow> tenant_steps lib env k steps bid name pw (st, v) = (r, st', v') \<Longrightarrow> tenant_names_distinct st \<Longrightarrow> tenant_names_distinct st'"
proof (induction steps arbitrary: k st v)
  case (Cons step steps)
  from Cons.prems(2) show ?case
    using Cons.IH [OF Cons.prems(1)] Cons.prems(1,3) distinct_names_step
    by (auto simp: Let_def split: option.splits if_splits prod.splits)
qed auto

text \<open>the users of an instance have different tenants. Starting with distinct names, \<open>ensure_tenant\<close>
  keeps them distinct, however it ends; a name held by another user is never taken.\<close>

theorem tenant_names_kept_distinct:
  assumes "undisturbed env" and "tenant_names_distinct st" and "ensure_tenant lib env inst u p origin (st, v) = (r, st', v')"
  shows "tenant_names_distinct st'"
proof -
  have drive: "tenant_names_distinct st'" if "drive_tenant lib env inst b (st1, v) = (r, st', v')" "tenant_names_distinct st1" for b st1
    using that tenant_steps_names [OF assms(1)]
    by (auto simp: drive_tenant_def simp del: tenant_steps.simps split: option.splits sum.splits if_splits)
  have inserted: "tenant_names_distinct st1" if ins: "insert_tenant lib env (i_id inst) u p origin st = (x, st1)" for x st1
  proof (cases "st1 = st")
    case False
    then obtain name where name: "generate_tenant_name st (i_id inst) u = Inr name"
        "ia_user_bindings st1 = ia_user_bindings st @ [tenant_binding lib (i_id inst) u name p origin]"
      using ins assms(1) by (auto simp: insert_tenant_def Let_def split: sum.splits option.splits if_splits)
    have "tenant_holders st (i_id inst) u name = []" using name(1) first_free_name_free by (simp add: generate_tenant_name_def)
    then have own: "ub_user_id b = u" if "b \<in> set (ia_user_bindings st)" "ub_instance_id b = i_id inst" "ub_tenant_name b = Some name" for b
      using that by (auto simp: tenant_holders_def filter_empty_conv)
    show ?thesis unfolding tenant_names_distinct_def name(2)
    proof (intro ballI impI, goal_cases)
      case (1 b b')
      have "ub_user_id b = ub_user_id b'" if "b \<in> set (ia_user_bindings st)" "b' \<in> set (ia_user_bindings st)"
        using assms(2) that 1(3-5) unfolding tenant_names_distinct_def by blast
      then show ?case using own [of b] own [of b'] 1 by (auto simp: tenant_binding_def)
    qed
  qed (use assms(2) in simp)
  show ?thesis
    using assms(2,3) drive inserted
    by (auto simp: ensure_tenant_def split: option.splits if_splits prod.splits sum.splits bool.splits)
qed


section \<open>Tenants that cannot come back\<close>

lemma tenant_steps_keep:
  assumes "undisturbed env" and "tenant_steps lib env k steps bid name pw (st, v) = (r, st', v')"
  shows "credentials (ia_meta st') = credentials (ia_meta st)
    \<and> map (\<lambda>b. (ub_id b, ub_user_id b, ub_instance_id b)) (ia_user_bindings st')
      = map (\<lambda>b. (ub_id b, ub_user_id b, ub_instance_id b)) (ia_user_bindings st)"
  using assms(2)
proof (induction steps arbitrary: k st v)
  case (Cons step steps)
  then show ?case using assms(1)
    by (force simp: Let_def set_step_def map_key_tupd split: option.splits if_splits prod.splits)
qed simp

text \<open>a user who was unbound from an instance never gets a tenant there again. \<open>unbind_user_from_instance\<close>
  deletes the binding and leaves the credential, whose name is fixed by the user; the next
  \<open>ensure_tenant\<close> inserts a credential of the same name, and the unique constraint refuses it, before
  the code that handles such an error.\<close>

theorem unbound_user_gets_no_tenant:
  assumes "undisturbed env" and "user_binding_of st u (i_id inst) = None"
    and "ensure_tenant lib env inst u p origin (st, v) = (Inr (), st1, v1)"
    and "unbind_user_from_instance u (i_id inst) st1 = Inr st2" and "undisturbed env'"
  shows "\<exists>e. ensure_tenant lib' env' inst u p' origin' (st2, v2) = (Inl e, st2, v2)"
proof -
  obtain name where ins: "insert_tenant lib env (i_id inst) u p origin st = (Inr (False, tenant_binding lib (i_id inst) u name p origin),
      st\<lparr>ia_meta := (ia_meta st)\<lparr>credentials := credentials (ia_meta st) @ [tenant_credential lib (i_id inst) u name p]\<rparr>,
         ia_user_bindings := ia_user_bindings st @ [tenant_binding lib (i_id inst) u name p origin]\<rparr>)"
    using assms(1-3) by (auto simp: ensure_tenant_def insert_tenant_def Let_def split: sum.splits if_splits)
  let ?b = "tenant_binding lib (i_id inst) u name p origin"
  have "credentials (ia_meta st1) = credentials (ia_meta st) @ [tenant_credential lib (i_id inst) u name p]
      \<and> map (\<lambda>b. (ub_id b, ub_user_id b, ub_instance_id b)) (ia_user_bindings st1) =
        map (\<lambda>b. (ub_id b, ub_user_id b, ub_instance_id b)) (ia_user_bindings st @ [?b])"
    using assms(2,3) ins
    by (auto simp: ensure_tenant_def drive_tenant_def simp del: tenant_steps.simps split: option.splits sum.splits if_splits
        dest!: tenant_steps_keep [OF assms(1)])
  note after = this
  have "user_binding_of st2 u (i_id inst) = None \<and> credentials (ia_meta st2) = credentials (ia_meta st1)"
  proof -
    obtain b where b: "user_binding_of st1 u (i_id inst) = Some b"
        "st2 = st1\<lparr>ia_user_bindings := filter (\<lambda>x. ub_id x \<noteq> ub_id b) (ia_user_bindings st1)\<rparr>"
      using assms(4) by (auto simp: unbind_user_from_instance_def split: option.splits)
    have others: "x \<in> set (ia_user_bindings st1) \<Longrightarrow> ub_user_id x = u \<Longrightarrow> ub_instance_id x = i_id inst \<Longrightarrow> ub_id x = ub_id ?b" for x
    proof -
      assume x: "x \<in> set (ia_user_bindings st1)" "ub_user_id x = u" "ub_instance_id x = i_id inst"
      then have "(ub_id x, u, i_id inst) \<in> set (map (\<lambda>b. (ub_id b, ub_user_id b, ub_instance_id b)) (ia_user_bindings st @ [?b]))"
        using after by (metis (no_types, lifting) image_eqI list.set_map)
      then show "ub_id x = ub_id ?b" using assms(2) by (auto simp: user_binding_of_def find_None_iff)
    qed
    then have "ub_id b = ub_id ?b" using b(1) by (auto simp: user_binding_of_def find_Some_iff)
    with others b(2) show ?thesis by (auto simp: user_binding_of_def find_None_iff)
  qed
  moreover have "list_ex (\<lambda>x. c_instance_id x = Some (i_id inst) \<and> c_name x = ''direct-'' @ u) (credentials (ia_meta st1))"
    using after by (simp add: tenant_credential_def)
  ultimately show ?thesis using assms(5)
    by (auto simp: ensure_tenant_def insert_tenant_def Let_def tenant_credential_def split: sum.splits)
qed



section \<open>Concrete runs\<close>

definition tenant_admin :: credential where
  "tenant_admin = \<lparr>c_id = ''adm'', c_instance_id = Some ''inst'', c_resource_id = None, c_name = ''admin'', c_purpose = PROVISIONING_ADMIN,
     c_capability = CC_ADMIN, c_username_ciphertext = Some ''eroot'', c_password_ciphertext = Some ''epw'', c_database_name = None,
     c_status = CRED_ACTIVE, c_version = 1\<rparr>"

definition tenant_example :: access_store where
  "tenant_example = access_example\<lparr>ia_meta := (ia_meta access_example)\<lparr>credentials := [access_credential, tenant_admin]\<rparr>\<rparr>"

definition example_tenant_lib :: "(string \<Rightarrow> 'v \<Rightarrow> string option \<times> 'v) \<Rightarrow> string \<Rightarrow> string \<Rightarrow> 'v tenant_lib" where
  "example_tenant_lib exec key password = \<lparr>tl_credential_id = CHR ''c'' # key, tl_binding_id = CHR ''b'' # key, tl_password = password,
     tl_encrypt = (\<lambda>s. CHR ''e'' # s), tl_decrypt = tl, tl_connect = (\<lambda>_ _ _. True), tl_execute = exec\<rparr>"

definition record_exec :: "string \<Rightarrow> string list \<Rightarrow> string option \<times> string list" where
  "record_exec q v = (None, v @ [q])"

lemmas tenant_example_defs = tenant_example_def tenant_admin_def example_tenant_lib_def access_example_defs

lemma example_tenant_name: "generate_tenant_name tenant_example ''inst'' ''u'' = Inr ''tu''"
  by (simp add: generate_tenant_name_def tenant_candidates_def tenant_holders_def tenant_example_def access_example_def Let_def)

lemma example_tenant_access:
  "resolve_user_instance_access tenant_example ''u'' ''inst'' =
    Some \<lparr>ea_instance = access_instance, ea_binding = NoBinding, ea_capabilities = {SQL_READ, SQL_WRITE},
      ea_permission = Some PERM_READWRITE, ea_access_type = ''department''\<rparr>"
  by (simp add: resolve_user_instance_access_def user_binding_of_def department_access_def inherited_bindings_def
      instance_row_of_def tenant_example_defs sql_capabilities_for_permission_def)
    (simp add: sql_capabilities_closed [of PERM_READWRITE, unfolded sql_capabilities_for_permission_def, simplified])

lemma example_tenant_state:
  "\<exists>a. resolve_user_instance_access tenant_example ''u'' (i_id access_instance) = Some a \<and> ea_binding a = NoBinding
      \<and> ea_permission a = Some PERM_READWRITE"
  "c \<in> set (credentials (ia_meta tenant_example)) \<Longrightarrow> c_name c \<noteq> ''direct-'' @ ''u''"
  "generate_tenant_name tenant_example (i_id access_instance) ''u'' = Inr ''tu''"
  "get_admin_credential tenant_example (i_id access_instance) = Inr tenant_admin"
proof -
  have i: "i_id access_instance = ''inst''" by (simp add: access_instance_def)
  show "\<exists>a. resolve_user_instance_access tenant_example ''u'' (i_id access_instance) = Some a \<and> ea_binding a = NoBinding
      \<and> ea_permission a = Some PERM_READWRITE" by (simp add: i example_tenant_access)
  show "generate_tenant_name tenant_example (i_id access_instance) ''u'' = Inr ''tu''" by (simp add: i example_tenant_name)
qed (auto simp: get_admin_credential_def tenant_example_defs)

lemma example_tenant_lib_facts:
  "tl_decrypt (example_tenant_lib exec key pw) (tl_encrypt (example_tenant_lib exec key pw) x) = x"
  "tl_encrypt (example_tenant_lib exec key pw) x \<noteq> []"
  "tl_credential_id (example_tenant_lib exec [k] pw) \<notin> c_id ` set (credentials (ia_meta tenant_example))"
  "tl_binding_id (example_tenant_lib exec key pw) \<notin> ub_id ` set (ia_user_bindings tenant_example)"
  "connect_as_super (example_tenant_lib exec key pw) access_instance tenant_admin = Inr ()"
  by (simp_all add: connect_as_super_def tenant_example_defs)

lemma example_tenant_lib_sel:
  "tl_execute (example_tenant_lib exec key pw) = exec" "tl_password (example_tenant_lib exec key pw) = pw"
  "tl_decrypt (example_tenant_lib exec key pw) = tl" "i_id access_instance = ''inst''"
  by (simp_all add: example_tenant_lib_def access_instance_def)

lemma undisturbed_id: "undisturbed (\<lambda>_ s. s)"
  by (simp add: undisturbed_def)

lemmas example_tenant_premises = undisturbed_id example_tenant_lib_facts(1-4) example_tenant_state(2-4) example_tenant_lib_facts(5)

lemma record_exec_fold:
  "fold (\<lambda>s v. snd (record_exec (build_step_sql s name pw) v)) ss v = v @ map (\<lambda>s. build_step_sql s name pw) ss"
  by (induction ss arbitrary: v) (simp_all add: record_exec_def)

lemma record_exec_obeys: "obeys (example_tenant_lib record_exec key pw)"
  by (simp add: obeys_def example_tenant_lib_def record_exec_def)

theorem tenant_becomes_usable_witness:
  "\<exists>st' uc. ensure_tenant (example_tenant_lib record_exec ''9'' ''pw'') (\<lambda>_ s. s) access_instance ''u'' PERM_READWRITE BY_SYSTEM (tenant_example, [])
      = (Inr (), st', map (\<lambda>s. build_step_sql s ''tu'' ''pw'') (butlast step_order))
    \<and> get_user_credential st' ''inst'' ''u'' = Some uc \<and> uc_permission uc = PERM_READWRITE"
proof -
  obtain a where a: "resolve_user_instance_access tenant_example ''u'' (i_id access_instance) = Some a" "ea_binding a = NoBinding"
    "ea_permission a = Some PERM_READWRITE" using example_tenant_state(1) by blast
  show ?thesis
    using tenant_becomes_usable [OF a record_exec_obeys example_tenant_premises, of "CHR ''9''" "''pw''" "[]"]
    unfolding example_tenant_lib_sel record_exec_fold append_Nil by blast
qed

theorem tenant_statements_in_order_witness:
  "\<exists>ss. subseq ss (butlast step_order) \<and> ss \<noteq> [] \<and>
    snd (snd (ensure_tenant (example_tenant_lib record_exec ''9'' ''pw'') (\<lambda>_ s. s) access_instance ''u'' PERM_READWRITE BY_SYSTEM (tenant_example, [])))
      = map (\<lambda>s. build_step_sql s ''tu'' ''pw'') ss"
proof -
  let ?run = "ensure_tenant (example_tenant_lib record_exec ''9'' ''pw'') (\<lambda>_ s. s) access_instance ''u'' PERM_READWRITE BY_SYSTEM (tenant_example, [])"
  have rec: "recording (example_tenant_lib record_exec ''9'' ''pw'')"
    by (simp add: recording_def example_tenant_lib_def record_exec_def)
  obtain a where a: "resolve_user_instance_access tenant_example ''u'' (i_id access_instance) = Some a" "ea_binding a = NoBinding"
    "ea_permission a = Some PERM_READWRITE" using example_tenant_state(1) by blast
  have sent: "snd (snd ?run) = map (\<lambda>s. build_step_sql s ''tu'' ''pw'') (butlast step_order)"
    using ensured_tenant [OF a record_exec_obeys example_tenant_premises, of "CHR ''9''" "''pw''" "[]"]
    unfolding example_tenant_lib_sel record_exec_fold append_Nil by fastforce
  obtain name pw ss where ss: "subseq ss (butlast step_order)" "snd (snd ?run) = map (\<lambda>s. build_step_sql s name pw) ss"
    using tenant_statements_in_order [OF rec, of "\<lambda>_ s. s" access_instance "''u''" PERM_READWRITE BY_SYSTEM tenant_example "fst ?run" "fst (snd ?run)" "snd (snd ?run)"]
    by auto
  have "length ss = 5" using arg_cong [OF ss(2), of length] unfolding sent by simp
  then have "ss = butlast step_order" using subseq_same_length [OF ss(1)] by simp
  moreover have "ss \<noteq> []" using \<open>length ss = 5\<close> by auto
  ultimately show ?thesis using sent ss(1) by (intro exI [of _ ss]) (simp only: simp_thms)
qed

theorem tenant_names_kept_distinct_witness:
  "tenant_names_distinct (fst (snd (ensure_tenant (example_tenant_lib record_exec ''9'' ''pw'') (\<lambda>_ s. s) access_instance ''u'' PERM_READWRITE
     BY_SYSTEM (tenant_example, []))))"
proof -
  have "tenant_names_distinct tenant_example" by (simp add: tenant_names_distinct_def tenant_example_def access_example_def)
  with tenant_names_kept_distinct [of "\<lambda>_ s. s" tenant_example] show ?thesis
    by (metis prod.collapse undisturbed_def)
qed

text \<open>A server with one account: \<open>CREATE USER\<close> is refused with error 1396 when it exists. The state is the
  statement that created it.\<close>

definition account_exec :: "string \<Rightarrow> string option \<Rightarrow> string option \<times> string option" where
  "account_exec q v = (if take 11 q = ''CREATE USER'' then (case v of None \<Rightarrow> (None, Some q) | Some _ \<Rightarrow> (Some ''1396'', v)) else (None, v))"

lemma account_exec_obeys: "obeys (example_tenant_lib account_exec key pw)"
  by (auto simp: obeys_def example_tenant_lib_def account_exec_def already_there_def Let_def split: option.splits)

definition first_tenant :: "string \<Rightarrow> (string + unit) \<times> access_store \<times> string option" where
  "first_tenant pw = ensure_tenant (example_tenant_lib account_exec ''8'' pw) (\<lambda>_ s. s) access_instance ''u'' PERM_READWRITE BY_SYSTEM (tenant_example, None)"

definition second_tenant :: "string \<Rightarrow> string \<Rightarrow> (string + unit) \<times> access_store \<times> string option" where
  "second_tenant pw pw' = (case delete_tenant ''inst'' ''u'' (fst (snd (first_tenant pw))) of
     Inl e \<Rightarrow> (Inl e, snd (first_tenant pw))
   | Inr st \<Rightarrow> ensure_tenant (example_tenant_lib account_exec ''9'' pw') (\<lambda>_ s. s) access_instance ''u'' PERM_READWRITE BY_SYSTEM
       (st, snd (snd (first_tenant pw))))"


text \<open>a tenant that was deleted and is created again cannot be used. \<open>delete_tenant\<close> removes the rows and
  leaves the account on the server; when the tenant is provisioned again \<open>CREATE USER\<close> is refused as
  already done and skipped, the provisioning ends well and the credential is handed out, but its
  password is the new one while the account still has the old one.\<close>

theorem recreated_tenant_locked_out:
  "fst (second_tenant pw pw') = Inr ()
   \<and> snd (snd (second_tenant pw pw')) = Some (build_step_sql TN_TENANT ''tu'' pw)
   \<and> (\<exists>uc. get_user_credential (fst (snd (second_tenant pw pw'))) ''inst'' ''u'' = Some uc
        \<and> map_option tl (c_password_ciphertext (uc_credential uc)) = Some pw')"
proof -
  let ?L1 = "example_tenant_lib account_exec ''8'' pw"
  obtain a where a: "resolve_user_instance_access tenant_example ''u'' (i_id access_instance) = Some a" "ea_binding a = NoBinding"
    "ea_permission a = Some PERM_READWRITE" using example_tenant_state(1) by blast
  have again: "fold (\<lambda>s v. snd (account_exec (build_step_sql s ''tu'' pw') v)) (butlast step_order) (Some q) = Some q" for q
    by (simp add: account_exec_def)
  obtain st1 where st1: "first_tenant pw = (Inr (), st1, fold (\<lambda>s v. snd (account_exec (build_step_sql s ''tu'' pw) v)) (butlast step_order) None)"
      "st1 = tenant_example\<lparr>ia_meta := (ia_meta tenant_example)\<lparr>credentials := credentials (ia_meta tenant_example)
          @ [tenant_credential ?L1 ''inst'' ''u'' ''tu'' PERM_READWRITE]\<rparr>,
        ia_user_bindings := ia_user_bindings tenant_example
          @ [(tenant_binding ?L1 ''inst'' ''u'' ''tu'' PERM_READWRITE BY_SYSTEM)\<lparr>ub_provisioning_step := None\<rparr>]\<rparr>"
    using ensured_tenant [OF a account_exec_obeys example_tenant_premises, of "CHR ''8''" pw None]
    unfolding example_tenant_lib_sel first_tenant_def by blast
  have v1: "fold (\<lambda>s v. snd (account_exec (build_step_sql s ''tu'' pw) v)) (butlast step_order) None = Some (build_step_sql TN_TENANT ''tu'' pw)"
    by (simp add: account_exec_def)
  have del: "delete_tenant ''inst'' ''u'' st1 = Inr tenant_example"
    unfolding st1(2) by (simp add: delete_tenant_def user_binding_of_def tenant_binding_def tenant_credential_def tenant_example_defs)
  show ?thesis
    using ensured_tenant [OF a account_exec_obeys example_tenant_premises, of "CHR ''9''" pw' "Some (build_step_sql TN_TENANT ''tu'' pw)"]
    unfolding example_tenant_lib_sel again second_tenant_def st1(1) v1 by (auto simp: del)
qed


theorem unbound_user_gets_no_tenant_witness:
  "\<exists>st2 e. unbind_user_from_instance ''u'' ''inst'' (fst (snd (first_tenant ''pw''))) = Inr st2
    \<and> ensure_tenant (example_tenant_lib account_exec ''9'' ''pw'') (\<lambda>_ s. s) access_instance ''u'' PERM_READWRITE BY_SYSTEM (st2, None)
      = (Inl e, st2, None)"
proof -
  obtain a where a: "resolve_user_instance_access tenant_example ''u'' (i_id access_instance) = Some a" "ea_binding a = NoBinding"
    "ea_permission a = Some PERM_READWRITE" using example_tenant_state(1) by blast
  obtain st1 v1 where st1: "first_tenant ''pw'' = (Inr (), st1, v1)"
      "ia_user_bindings st1 = [(tenant_binding (example_tenant_lib account_exec ''8'' ''pw'') ''inst'' ''u'' ''tu'' PERM_READWRITE BY_SYSTEM)
         \<lparr>ub_provisioning_step := None\<rparr>]"
    using ensured_tenant [OF a account_exec_obeys example_tenant_premises, of "CHR ''8''" "''pw''" None]
    unfolding example_tenant_lib_sel first_tenant_def by (auto simp: tenant_example_def access_example_def)
  have none: "user_binding_of tenant_example ''u'' (i_id access_instance) = None"
    by (simp add: user_binding_of_def tenant_example_def access_example_def)
  obtain st2 where st2: "unbind_user_from_instance ''u'' (i_id access_instance) st1 = Inr st2"
    by (simp add: unbind_user_from_instance_def user_binding_of_def st1(2) tenant_binding_def access_instance_def)
  from unbound_user_gets_no_tenant [OF undisturbed_id none st1(1) [unfolded first_tenant_def] st2 undisturbed_id]
  show ?thesis using st1(1) st2 by (auto simp: example_tenant_lib_sel(4))
qed

end
