(* ===== verification/Token_Buckets.thy ===== *)
theory Token_Buckets
  imports SQL_Statements "HOL-Library.AList"
begin

text \<open>
  The token buckets that limit SQL requests (\<open>_check_rate_limit\<close> of \<open>core/sql_executor.py\<close>) and tool calls
  (\<open>core/tool_rate_limit.py\<close>). Both forget buckets that have been idle. The locale \<open>bucket_meter\<close> says
  what the two have in common, and in it the requests admitted in a window are bounded. The locale
  \<open>bucket_store\<close> extends it for a limiter that forgets only full buckets; in it, forgetting is shown
  not to be observable (the answers are those of a limiter that keeps every bucket for ever). Clock readings and token counts are rational numbers of seconds and tokens; rounding of
  floating point is not modelled.
\<close>

section \<open>The limiters\<close>

subsection \<open>SQL requests\<close>

type_synonym sql_limiters = "(string \<times> rat \<times> rat) list"

definition rate_limiter_ttl :: rat where
  "rate_limiter_ttl = 600"

definition refilled :: "rat \<Rightarrow> rat \<Rightarrow> rat \<Rightarrow> rat \<times> rat \<Rightarrow> rat" where
  "refilled cap rate now b = min cap (fst b + (now - snd b) * rate)"

definition check_rate_limit :: "rate_limit_config \<Rightarrow> string \<Rightarrow> rat \<Rightarrow> sql_limiters \<Rightarrow> bool \<times> sql_limiters" where
  "check_rate_limit cfg user_id now limiters0 =
     (if \<not> rl_enabled cfg then (True, limiters0)
      else let burst = of_int (rl_burst cfg);
               limiters1 = filter (\<lambda>(k, b). \<not> rate_limiter_ttl < now - snd b) limiters0;
               limiters2 = (if map_of limiters1 user_id = None then limiters1 @ [(user_id, burst, now)] else limiters1);
               limiter = the (map_of limiters2 user_id);
               tokens = refilled burst (of_int (rl_requests_per_minute cfg) / 60) now limiter in
           if tokens < 1 then (False, AList.update user_id (tokens, now) limiters2)
           else (True, AList.update user_id (tokens - 1, now) limiters2))"

subsection \<open>Tool calls\<close>

record bucket =
  bk_tokens :: rat
  bk_last_refill :: rat
  bk_last_seen :: rat

record bucket_limiter =
  bl_requests_per_second :: int
  bl_max_entries :: int
  bl_idle_ttl_seconds :: rat
  bl_buckets :: "(string list \<times> bucket) list"

definition new_bucket_limiter :: "int \<Rightarrow> int \<Rightarrow> rat \<Rightarrow> string + bucket_limiter" where
  "new_bucket_limiter requests_per_second max_entries idle_ttl_seconds =
     (if requests_per_second \<le> 0 then Inl ''requests_per_second must be positive''
      else if max_entries \<le> 0 then Inl ''max_entries must be positive''
      else Inr \<lparr>bl_requests_per_second = requests_per_second, bl_max_entries = max_entries,
                bl_idle_ttl_seconds = idle_ttl_seconds, bl_buckets = []\<rparr>)"

definition entry_count :: "bucket_limiter \<Rightarrow> int" where
  "entry_count lm = int (length (bl_buckets lm))"

definition bucket_cleanup :: "rat \<Rightarrow> bucket_limiter \<Rightarrow> (string list \<times> bucket) list" where
  "bucket_cleanup now lm =
     filter (\<lambda>(k, b). \<not> bl_idle_ttl_seconds lm < now - bk_last_seen b) (bl_buckets lm)"

definition bucket_room :: "bucket_limiter \<Rightarrow> (string list \<times> bucket) list \<Rightarrow> (string list \<times> bucket) list" where
  "bucket_room lm bs =
     (if bl_max_entries lm \<le> int (length bs) \<and> bs \<noteq> []
      then AList.delete (fst (arg_min_list (\<lambda>e. bk_last_seen (snd e)) bs)) bs else bs)"

text \<open>The table with a bucket for the key, and the tokens of that bucket now.\<close>

definition bucket_entries :: "string list \<Rightarrow> rat \<Rightarrow> bucket_limiter \<Rightarrow> (string list \<times> bucket) list" where
  "bucket_entries key now lm =
     (let bs = bucket_cleanup now lm in
      if map_of bs key = None
      then bucket_room lm bs @ [(key, \<lparr>bk_tokens = of_int (bl_requests_per_second lm), bk_last_refill = now, bk_last_seen = now\<rparr>)]
      else bs)"

definition bucket_tokens :: "string list \<Rightarrow> rat \<Rightarrow> bucket_limiter \<Rightarrow> rat" where
  "bucket_tokens key now lm =
     (let rate = rat_of_int (bl_requests_per_second lm);
          b = the (map_of (bucket_entries key now lm) key);
          elapsed = max 0 (now - bk_last_refill b)
      in min rate (bk_tokens b + elapsed * rate))"

definition bucket_put :: "string list \<Rightarrow> rat \<Rightarrow> rat \<Rightarrow> bucket_limiter \<Rightarrow> bucket_limiter" where
  "bucket_put key now n lm =
     lm\<lparr>bl_buckets := AList.update key \<lparr>bk_tokens = n, bk_last_refill = now, bk_last_seen = now\<rparr> (bucket_entries key now lm)\<rparr>"

text \<open>\<open>check\<close>: admitted, or refused with the seconds to wait (at least \<open>math.ulp(1.0)\<close>).\<close>

definition bucket_check :: "string list \<Rightarrow> rat \<Rightarrow> bucket_limiter \<Rightarrow> (rat + unit) \<times> bucket_limiter" where
  "bucket_check key now lm =
     (let tokens = bucket_tokens key now lm in
      if tokens < 1
      then (Inl (max ((1 - tokens) / of_int (bl_requests_per_second lm)) (1 / 2 ^ 52)), bucket_put key now tokens lm)
      else (Inr (), bucket_put key now (tokens - 1) lm))"

definition bucket_reset :: "bucket_limiter \<Rightarrow> bucket_limiter" where
  "bucket_reset lm = lm\<lparr>bl_buckets := []\<rparr>"

text \<open>The two limiters of the process and the keys they use.\<close>

record tool_limiters =
  tl_list :: "bucket_limiter option"
  tl_describe :: "bucket_limiter option"

definition limiter_of :: "int \<Rightarrow> bucket_limiter option \<Rightarrow> string + bucket_limiter" where
  "limiter_of rate lm = (case lm of Some l \<Rightarrow> Inr l | None \<Rightarrow> new_bucket_limiter rate 4096 300)"

definition check_list_rate_limit ::
    "string \<times> string \<Rightarrow> rat \<Rightarrow> tool_limiters \<Rightarrow> (string + (rat + unit)) \<times> tool_limiters" where
  "check_list_rate_limit pr now g =
     (case limiter_of 5 (tl_list g) of
        Inl e \<Rightarrow> (Inl e, g)
      | Inr l \<Rightarrow> (case bucket_check [fst pr, snd pr] now l of
          (r, l') \<Rightarrow> (Inr r, g\<lparr>tl_list := Some l'\<rparr>)))"

definition check_describe_rate_limit ::
    "int \<Rightarrow> string \<times> string \<Rightarrow> string \<Rightarrow> rat \<Rightarrow> tool_limiters \<Rightarrow> (string + (rat + unit)) \<times> tool_limiters" where
  "check_describe_rate_limit rate pr db_instance_id now g =
     (case limiter_of rate (tl_describe g) of
        Inl e \<Rightarrow> (Inl e, g)
      | Inr l \<Rightarrow> (case bucket_check [fst pr, snd pr, db_instance_id] now l of
          (r, l') \<Rightarrow> (Inr r, g\<lparr>tl_describe := Some l'\<rparr>)))"

definition reset_tool_rate_limiters :: "tool_limiters \<Rightarrow> tool_limiters" where
  "reset_tool_rate_limiters g = g\<lparr>tl_list := None, tl_describe := None\<rparr>"


section \<open>What the limiters promise\<close>

text \<open>The tokens a key has at a time: a key without a bucket has all of them.\<close>

definition bucket_level :: "rat \<Rightarrow> rat \<Rightarrow> (rat \<times> rat) option \<Rightarrow> rat \<Rightarrow> rat" where
  "bucket_level cap rate b now = (case b of None \<Rightarrow> cap | Some x \<Rightarrow> refilled cap rate now x)"

text \<open>The reference: one bucket per key, kept for ever.\<close>

definition reference_check :: "rat \<Rightarrow> rat \<Rightarrow> 'k \<Rightarrow> rat \<Rightarrow> ('k \<Rightarrow> rat \<times> rat) \<Rightarrow> bool \<times> ('k \<Rightarrow> rat \<times> rat)" where
  "reference_check cap rate k now f =
     (let tokens = refilled cap rate now (f k) in
      if tokens < 1 then (False, f(k := (tokens, now))) else (True, f(k := (tokens - 1, now))))"

text \<open>A run of requests, each a key and a time, and its answers.\<close>

fun bucket_run :: "('k \<Rightarrow> rat \<Rightarrow> 's \<Rightarrow> bool \<times> 's) \<Rightarrow> ('k \<times> rat) list \<Rightarrow> 's \<Rightarrow> bool list" where
  "bucket_run chk [] s = []"
| "bucket_run chk ((k, now) # rs) s = (case chk k now s of (a, s') \<Rightarrow> a # bucket_run chk rs s')"

definition admitted :: "'k \<Rightarrow> ('k \<times> rat) list \<Rightarrow> bool list \<Rightarrow> nat" where
  "admitted k rs as = length (filter (\<lambda>(r, a). fst r = k \<and> a) (zip rs as))"

definition in_order :: "rat \<Rightarrow> ('k \<times> rat) list \<Rightarrow> bool" where
  "in_order t rs = (sorted (map snd rs) \<and> (\<forall>r \<in> set rs. t \<le> snd r))"

text \<open>
  What bounds the admissions: a stored bucket has no more tokens than flowed into it, and when a
  bucket is forgotten enough time has passed to fill it at the rate \<open>flow\<close>.
\<close>

locale bucket_meter =
  fixes cap flow :: rat
    and keys :: "'k set"
    and ok :: "rat \<Rightarrow> 's \<Rightarrow> bool"
    and view :: "'s \<Rightarrow> 'k \<Rightarrow> (rat \<times> rat) option"
    and chk :: "'k \<Rightarrow> rat \<Rightarrow> 's \<Rightarrow> bool \<times> 's"
  assumes bounds: "ok t s \<Longrightarrow> 0 \<le> flow \<and> 0 \<le> cap"
    and stored: "ok t s \<Longrightarrow> view s k = Some (x, l) \<Longrightarrow> 0 \<le> x \<and> x \<le> cap \<and> l \<le> t"
    and keeps: "ok t s \<Longrightarrow> t \<le> now \<Longrightarrow> k \<in> keys \<Longrightarrow> chk k now s = (a, s') \<Longrightarrow> ok now s'"
    and spends: "ok t s \<Longrightarrow> t \<le> now \<Longrightarrow> k \<in> keys \<Longrightarrow> chk k now s = (a, s') \<Longrightarrow>
      \<exists>x. view s' k = Some (x, now) \<and> x + of_bool a \<le> bucket_level cap flow (view s k) now"
    and other: "ok t s \<Longrightarrow> t \<le> now \<Longrightarrow> k \<in> keys \<Longrightarrow> chk k now s = (a, s') \<Longrightarrow> k' \<in> keys \<Longrightarrow> k' \<noteq> k \<Longrightarrow>
      view s' k' = view s k' \<or> (view s' k' = None \<and> bucket_level cap flow (view s k') now = cap)"
begin

text \<open>Later levels from earlier ones.\<close>

lemma level_later:
  assumes "ok t s" and "t \<le> a" and "a \<le> b"
  shows "bucket_level cap flow (view s k) b = min cap (bucket_level cap flow (view s k) a + (b - a) * flow)"
proof (cases "view s k")
  case None
  have "0 \<le> (b - a) * flow" using bounds [OF assms(1)] assms(3) by simp
  with None show ?thesis by (simp add: bucket_level_def)
next
  case (Some x)
  have "0 \<le> (b - a) * flow" using bounds [OF assms(1)] assms(3) by simp
  moreover have "(b - snd x) * flow = (a - snd x) * flow + (b - a) * flow" by (simp add: algebra_simps)
  ultimately show ?thesis using Some by (simp add: bucket_level_def refilled_def min_def)
qed

lemma level_bounds:
  assumes "ok t s" and "t \<le> now"
  shows "0 \<le> bucket_level cap flow (view s k) now" and "bucket_level cap flow (view s k) now \<le> cap"
proof -
  have "0 \<le> x + (now - l) * flow" if "view s k = Some (x, l)" for x l
    using stored [OF assms(1) that] bounds [OF assms(1)] assms(2) by simp
  then show "0 \<le> bucket_level cap flow (view s k) now" "bucket_level cap flow (view s k) now \<le> cap"
    using bounds [OF assms(1)] by (auto simp: bucket_level_def refilled_def split: option.splits)
qed

lemma level_full_later:
  assumes "ok t s" and "t \<le> a" and "a \<le> b" and "bucket_level cap flow (view s k) a = cap"
  shows "bucket_level cap flow (view s k) b = cap"
proof -
  have "0 \<le> (b - a) * flow" using bounds [OF assms(1)] assms(3) by simp
  then show ?thesis using level_later [OF assms(1-3), of k] assms(4) by simp
qed

text \<open>No more than the tokens at the start and what flows in until the end are admitted.\<close>

lemma admitted_bound:
  assumes "ok t s" and "in_order t rs" and "fst ` set rs \<subseteq> keys" and "\<forall>r \<in> set rs. snd r \<le> T" and "t \<le> T" and "k \<in> keys"
  shows "of_nat (admitted k rs (bucket_run chk rs s)) \<le> bucket_level cap flow (view s k) t + (T - t) * flow"
  using assms
proof (induction rs arbitrary: t s)
  case Nil
  then show ?case using level_bounds [OF Nil.prems(1), of t k] bounds [OF Nil.prems(1)]
    by (simp add: admitted_def)
next
  case (Cons r rs)
  obtain k1 now where r: "r = (k1, now)" by (cases r)
  obtain a s' where c: "chk k1 now s = (a, s')" by (cases "chk k1 now s")
  from Cons.prems r have now: "t \<le> now" "now \<le> T" and k1: "k1 \<in> keys"
    and rest: "in_order now rs" "fst ` set rs \<subseteq> keys" "\<forall>r \<in> set rs. snd r \<le> T"
    by (auto simp: in_order_def)
  let ?n = "of_nat (admitted k rs (bucket_run chk rs s')) :: rat"
  have IH: "?n \<le> bucket_level cap flow (view s' k) now + (T - now) * flow"
    using Cons.IH [OF keeps [OF Cons.prems(1) now(1) k1 c] rest now(2) Cons.prems(6)] .
  have here: "bucket_level cap flow (view s' k) now + of_bool (k = k1 \<and> a) \<le> bucket_level cap flow (view s k) now"
  proof (cases "k = k1")
    case True
    with spends [OF Cons.prems(1) now(1) k1 c] show ?thesis
      by (auto simp: bucket_level_def [of cap flow "Some _"] refilled_def min_def)
  next
    case False
    with other [OF Cons.prems(1) now(1) k1 c Cons.prems(6)] show ?thesis
      by (auto simp: bucket_level_def [of cap flow None])
  qed
  have grow: "bucket_level cap flow (view s k) now \<le> bucket_level cap flow (view s k) t + (now - t) * flow"
    using level_later [OF Cons.prems(1) order_refl now(1), of k] by simp
  have "(T - t) * flow = (now - t) * flow + (T - now) * flow" by (simp add: algebra_simps)
  moreover have "of_nat (admitted k (r # rs) (bucket_run chk (r # rs) s)) = of_bool (k = k1 \<and> a) + ?n"
    using r c by (auto simp: admitted_def)
  ultimately show ?case using IH here grow by linarith
qed

lemma window_bound:
  assumes "ok t s" and "in_order t rs" and "fst ` set rs \<subseteq> keys" and "\<forall>r \<in> set rs. snd r \<le> T" and "t \<le> T" and "k \<in> keys"
  shows "of_nat (admitted k rs (bucket_run chk rs s)) \<le> cap + (T - t) * flow"
  using admitted_bound [OF assms] level_bounds(2) [OF assms(1) order_refl, of k] by linarith

end

text \<open>The stores that forget a bucket only when it is full again: they answer by the tokens of the key.\<close>

locale bucket_store = bucket_meter cap rate keys ok view chk
  for cap rate :: rat and keys :: "'k set" and ok :: "rat \<Rightarrow> 's \<Rightarrow> bool"
    and view :: "'s \<Rightarrow> 'k \<Rightarrow> (rat \<times> rat) option" and chk :: "'k \<Rightarrow> rat \<Rightarrow> 's \<Rightarrow> bool \<times> 's" +
  assumes answers: "ok t s \<Longrightarrow> t \<le> now \<Longrightarrow> k \<in> keys \<Longrightarrow> chk k now s = (a, s') \<Longrightarrow>
      a = (1 \<le> bucket_level cap rate (view s k) now)"
    and own: "ok t s \<Longrightarrow> t \<le> now \<Longrightarrow> k \<in> keys \<Longrightarrow> chk k now s = (a, s') \<Longrightarrow>
      view s' k = Some (bucket_level cap rate (view s k) now - of_bool a, now)"
begin

text \<open>The level after a request.\<close>

lemma level_after:
  assumes "ok t s" and "t \<le> now" and "k \<in> keys" and "chk k now s = (a, s')" and "k' \<in> keys" and "now \<le> b"
  shows "bucket_level cap rate (view s' k') b =
    (if k' = k then refilled cap rate b (bucket_level cap rate (view s k) now - of_bool a, now)
     else bucket_level cap rate (view s k') b)"
proof (cases "k' = k")
  case True
  then show ?thesis using own [OF assms(1-4)] by (simp add: bucket_level_def)
next
  case False
  from other [OF assms(1-5) False] show ?thesis
  proof
    assume gone: "view s' k' = None \<and> bucket_level cap rate (view s k') now = cap"
    then have "bucket_level cap rate (view s k') b = cap"
      by (intro level_full_later [OF assms(1,2,6)]) simp
    with gone False show ?thesis by (simp add: bucket_level_def)
  qed (use False in simp)
qed

definition agrees :: "rat \<Rightarrow> 's \<Rightarrow> ('k \<Rightarrow> rat \<times> rat) \<Rightarrow> bool" where
  "agrees t s f = (\<forall>k \<in> keys. \<forall>b \<ge> t. bucket_level cap rate (view s k) b = refilled cap rate b (f k))"

lemma step_agrees:
  assumes "ok t s" and "t \<le> now" and "k \<in> keys" and "agrees t s f"
    and "chk k now s = (a, s')" and "reference_check cap rate k now f = (a2, f')"
  shows "a2 = a \<and> agrees now s' f'"
proof -
  have level: "bucket_level cap rate (view s k) now = refilled cap rate now (f k)"
    using assms by (simp add: agrees_def)
  have a: "a = (1 \<le> bucket_level cap rate (view s k) now)" by (rule answers [OF assms(1-3,5)])
  then have a2: "a2 = a" and f': "f' = f(k := (bucket_level cap rate (view s k) now - of_bool a, now))"
    using assms(6) level by (auto simp: reference_check_def Let_def split: if_splits)
  have "bucket_level cap rate (view s' k') b = refilled cap rate b (f' k')" if "k' \<in> keys" "now \<le> b" for k' b
    using level_after [OF assms(1-3,5) that] assms(2,4) that f' by (auto simp: agrees_def)
  then show ?thesis using a2 by (simp add: agrees_def)
qed

lemma runs_agree:
  assumes "ok t s" and "agrees t s f" and "in_order t rs" and "fst ` set rs \<subseteq> keys"
  shows "bucket_run chk rs s = bucket_run (reference_check cap rate) rs f"
  using assms
proof (induction rs arbitrary: t s f)
  case (Cons r rs)
  obtain k now where r: "r = (k, now)" by (cases r)
  obtain a s' where c: "chk k now s = (a, s')" by (cases "chk k now s")
  obtain a2 f' where d: "reference_check cap rate k now f = (a2, f')" by (cases "reference_check cap rate k now f")
  from Cons.prems r have now: "t \<le> now" and k: "k \<in> keys" and rest: "in_order now rs" "fst ` set rs \<subseteq> keys"
    by (auto simp: in_order_def)
  note st = step_agrees [OF Cons.prems(1) now k Cons.prems(2) c d]
  have "bucket_run chk rs s' = bucket_run (reference_check cap rate) rs f'"
    using Cons.IH [OF keeps [OF Cons.prems(1) now k c] _ rest] st by simp
  with st c d r show ?case by simp
qed simp

end


section \<open>The SQL limiter\<close>

definition sql_limiter_ok :: "rate_limit_config \<Rightarrow> rat \<Rightarrow> sql_limiters \<Rightarrow> bool" where
  "sql_limiter_ok cfg t L =
     (rl_enabled cfg \<and> 0 \<le> rl_burst cfg \<and> 0 \<le> rl_requests_per_minute cfg \<and> distinct (map fst L)
      \<and> (\<forall>k x l. map_of L k = Some (x, l) \<longrightarrow> 0 \<le> x \<and> x \<le> of_int (rl_burst cfg) \<and> l \<le> t))"

text \<open>Tokens come in by the minute, and by the burst when the user is forgotten after ten minutes.\<close>

definition sql_flow :: "rate_limit_config \<Rightarrow> rat" where
  "sql_flow cfg = max (of_int (rl_requests_per_minute cfg) / 60) (of_int (rl_burst cfg) / 600)"

lemma refilled_mono: "rate \<le> flow \<Longrightarrow> snd b \<le> now \<Longrightarrow> refilled cap rate now b \<le> refilled cap flow now b"
  by (cases b) (auto simp: refilled_def min_def mult_left_mono intro: order_trans add_left_mono)

text \<open>One check, in terms of the tokens before it.\<close>

lemma check_rate_limit_view:
  fixes cfg L k
  defines "cap \<equiv> rat_of_int (rl_burst cfg)" and "rate \<equiv> rat_of_int (rl_requests_per_minute cfg) / 60"
  assumes ok: "sql_limiter_ok cfg t L" and now: "t \<le> now" and c: "check_rate_limit cfg k now L = (a, L')"
  defines "kept \<equiv> (\<lambda>k'. case map_of L k' of Some b \<Rightarrow> if rate_limiter_ttl < now - snd b then None else Some b | None \<Rightarrow> None)"
  shows "a = (1 \<le> bucket_level cap rate (kept k) now)"
    and "map_of L' = kept(k \<mapsto> (bucket_level cap rate (kept k) now - of_bool a, now))"
    and "distinct (map fst L')"
proof -
  let ?L1 = "filter (\<lambda>(k, b). \<not> rate_limiter_ttl < now - snd b) L"
  have d: "distinct (map fst ?L1)" using ok by (simp add: sql_limiter_ok_def distinct_filter_keys)
  have L1: "map_of ?L1 = kept"
    using ok by (auto simp: sql_limiter_ok_def map_of_filter kept_def fun_eq_iff split: option.splits)
  define L2 where "L2 = (if map_of ?L1 k = None then ?L1 @ [(k, cap, now)] else ?L1)"
  have level: "refilled cap rate now (the (map_of L2 k)) = bucket_level cap rate (kept k) now"
    using L1 unfolding L2_def
    by (auto simp: bucket_level_def refilled_def map_add_def split: option.splits)
  have dL2: "distinct (map fst L2)" using d by (auto simp: L2_def map_of_eq_None_iff)
  have upd: "(map_of L2)(k \<mapsto> v) = kept(k \<mapsto> v)" for v
    using L1 by (auto simp: L2_def fun_eq_iff map_add_def split: option.splits)
  have res: "(a, L') = (if refilled cap rate now (the (map_of L2 k)) < 1
      then (False, AList.update k (refilled cap rate now (the (map_of L2 k)), now) L2)
      else (True, AList.update k (refilled cap rate now (the (map_of L2 k)) - 1, now) L2))"
    using c ok unfolding check_rate_limit_def sql_limiter_ok_def Let_def L2_def cap_def rate_def by simp
  from res show "a = (1 \<le> bucket_level cap rate (kept k) now)" by (auto simp: level split: if_splits)
  from res show "map_of L' = kept(k \<mapsto> (bucket_level cap rate (kept k) now - of_bool a, now))"
    by (auto simp: level update_conv' upd split: if_splits)
  from res show "distinct (map fst L')" by (auto simp: dL2 distinct_update split: if_splits)
qed

text \<open>What is left after forgetting is no more than what has flowed in.\<close>

lemma kept_level:
  fixes cfg L k
  defines "cap \<equiv> rat_of_int (rl_burst cfg)" and "rate \<equiv> rat_of_int (rl_requests_per_minute cfg) / 60"
  assumes ok: "sql_limiter_ok cfg t L" and now: "t \<le> now"
  defines "kept \<equiv> (case map_of L k of Some b \<Rightarrow> if rate_limiter_ttl < now - snd b then None else Some b | None \<Rightarrow> None)"
  shows "0 \<le> bucket_level cap rate kept now" and "bucket_level cap rate kept now \<le> cap"
    and "bucket_level cap rate kept now \<le> bucket_level cap (sql_flow cfg) (map_of L k) now"
    and "kept = map_of L k \<or> kept = None \<and> bucket_level cap (sql_flow cfg) (map_of L k) now = cap"
proof -
  have r: "0 \<le> rate" "0 \<le> cap" "rate \<le> sql_flow cfg" "cap \<le> 600 * sql_flow cfg"
    using ok by (auto simp: sql_limiter_ok_def rate_def cap_def sql_flow_def max_def)
  have b: "0 \<le> x \<and> x \<le> cap \<and> l \<le> now" if "map_of L k = Some (x, l)" for x l
    using ok now that unfolding sql_limiter_ok_def cap_def by (metis order_trans)
  have old: "bucket_level cap (sql_flow cfg) (map_of L k) now = cap"
    if m: "map_of L k = Some (x, l)" and "rate_limiter_ttl < now - l" for x l
  proof -
    have "600 * sql_flow cfg \<le> (now - l) * sql_flow cfg"
      using that(2) r by (intro mult_right_mono) (auto simp: rate_limiter_ttl_def)
    then show ?thesis using m r(4) b [OF m] by (simp add: bucket_level_def refilled_def)
  qed
  have "0 \<le> x + (now - l) * rate" if "map_of L k = Some (x, l)" for x l using b [OF that] r(1) by simp
  then show "0 \<le> bucket_level cap rate kept now" "bucket_level cap rate kept now \<le> cap"
    using r(2) by (auto simp: kept_def bucket_level_def refilled_def split: option.splits)
  show "bucket_level cap rate kept now \<le> bucket_level cap (sql_flow cfg) (map_of L k) now"
    using old b refilled_mono [OF r(3)]
    by (auto simp: kept_def bucket_level_def split: option.splits if_splits)
  show "kept = map_of L k \<or> kept = None \<and> bucket_level cap (sql_flow cfg) (map_of L k) now = cap"
    using old by (auto simp: kept_def split: option.splits)
qed

interpretation sql_requests: bucket_meter "rat_of_int (rl_burst cfg)" "sql_flow cfg"
  UNIV "sql_limiter_ok cfg" map_of "check_rate_limit cfg" for cfg
proof (unfold_locales, goal_cases)
  case (1 t s)
  then show ?case by (auto simp: sql_limiter_ok_def sql_flow_def max_def)
next
  case (2 t s k x l)
  then show ?case by (auto simp: sql_limiter_ok_def)
next
  case (3 t s now k a s')
  note v = check_rate_limit_view [OF 3(1,2,4)] and l = kept_level [OF 3(1,2), of k]
  show ?case
    using 3(1,2) v(1,3) l(1,2) unfolding sql_limiter_ok_def
    by (auto simp: v(2) split: if_splits option.splits) (force dest!: spec)+
next
  case (4 t s now k a s')
  show ?case using check_rate_limit_view(2) [OF 4(1,2,4)] kept_level(3) [OF 4(1,2), of k] by simp
next
  case (5 t s now k a s' k')
  show ?case using check_rate_limit_view(2) [OF 5(1,2,4)] kept_level(4) [OF 5(1,2), of k'] 5(6) by simp
qed


section \<open>The limiter of tool calls\<close>

definition bucket_admits :: "string list \<Rightarrow> rat \<Rightarrow> bucket_limiter \<Rightarrow> bool \<times> bucket_limiter" where
  "bucket_admits k now lm = (case bucket_check k now lm of (r, lm') \<Rightarrow> (r = Inr (), lm'))"

definition bucket_view :: "bucket_limiter \<Rightarrow> string list \<Rightarrow> (rat \<times> rat) option" where
  "bucket_view lm k = map_option (\<lambda>b. (bk_tokens b, bk_last_refill b)) (map_of (bl_buckets lm) k)"

text \<open>The keys \<open>K\<close> all have room in the table, and a bucket that is forgotten has had the time to fill up.\<close>

definition bucket_limiter_ok :: "string list set \<Rightarrow> int \<Rightarrow> rat \<Rightarrow> bucket_limiter \<Rightarrow> bool" where
  "bucket_limiter_ok K rate t lm =
     (bl_requests_per_second lm = rate \<and> 0 < rate \<and> 1 \<le> bl_idle_ttl_seconds lm \<and> finite K
      \<and> int (card K) \<le> bl_max_entries lm \<and> fst ` set (bl_buckets lm) \<subseteq> K \<and> distinct (map fst (bl_buckets lm))
      \<and> (\<forall>k b. map_of (bl_buckets lm) k = Some b \<longrightarrow>
            0 \<le> bk_tokens b \<and> bk_tokens b \<le> of_int rate \<and> bk_last_seen b = bk_last_refill b \<and> bk_last_refill b \<le> t))"

lemma bucket_room_enough:
  assumes "finite K" and "int (card K) \<le> bl_max_entries lm" and "fst ` set bs \<subseteq> K" and "distinct (map fst bs)"
    and "k \<in> K" and "map_of bs k = None"
  shows "bucket_room lm bs = bs"
proof -
  have "fst ` set bs \<subset> K" using assms(3,5,6) by (auto simp: map_of_eq_None_iff)
  then have "card (fst ` set bs) < card K" using assms(1) by (rule psubset_card_mono [rotated])
  moreover have "card (fst ` set bs) = length bs" using distinct_card [OF assms(4)] by simp
  ultimately show ?thesis using assms(2) by (simp add: bucket_room_def)
qed

lemma bucket_check_view:
  assumes ok: "bucket_limiter_ok K rate t lm" and now: "t \<le> now" and k: "k \<in> K"
    and c: "bucket_admits k now lm = (a, lm')"
  defines "cap \<equiv> rat_of_int rate"
  defines "kept \<equiv> (\<lambda>k'. case map_of (bl_buckets lm) k' of
      Some b \<Rightarrow> if bl_idle_ttl_seconds lm < now - bk_last_seen b then None else Some b | None \<Rightarrow> None)"
  defines "tokens \<equiv> bucket_level cap cap (bucket_view lm k) now - of_bool a"
  shows "a = (1 \<le> bucket_level cap cap (bucket_view lm k) now)"
    and "map_of (bl_buckets lm') = kept(k \<mapsto> \<lparr>bk_tokens = tokens, bk_last_refill = now, bk_last_seen = now\<rparr>)"
    and "distinct (map fst (bl_buckets lm')) \<and> fst ` set (bl_buckets lm') \<subseteq> K"
    and "bl_requests_per_second lm' = bl_requests_per_second lm \<and> bl_max_entries lm' = bl_max_entries lm
      \<and> bl_idle_ttl_seconds lm' = bl_idle_ttl_seconds lm"
    and "kept k' = map_of (bl_buckets lm) k' \<or> kept k' = None \<and> bucket_level cap cap (bucket_view lm k') now = cap"
proof -
  note o = ok [unfolded bucket_limiter_ok_def]
  let ?b0 = "bucket_cleanup now lm"
  have d: "distinct (map fst ?b0)" using o by (simp add: bucket_cleanup_def distinct_filter_keys)
  have K0: "fst ` set ?b0 \<subseteq> K" using o by (auto simp: bucket_cleanup_def)
  have b0: "map_of ?b0 = kept"
    using o by (auto simp: bucket_cleanup_def map_of_filter kept_def fun_eq_iff split: option.splits)
  have full: "bucket_level cap cap (bucket_view lm k') now = cap"
    if "map_of (bl_buckets lm) k' = Some b" "bl_idle_ttl_seconds lm < now - bk_last_seen b" for k' b
  proof -
    have r: "0 \<le> bk_tokens b" "bk_last_seen b = bk_last_refill b" using o that(1) by auto
    have "1 * cap \<le> (now - bk_last_refill b) * cap"
      using o that(2) r by (intro mult_right_mono) (auto simp: cap_def)
    then show ?thesis using that(1) r by (simp add: bucket_level_def refilled_def bucket_view_def)
  qed
  show gone: "kept k' = map_of (bl_buckets lm) k' \<or> kept k' = None \<and> bucket_level cap cap (bucket_view lm k') now = cap" for k'
    using full by (auto simp: kept_def split: option.splits)
  define bs where "bs = bucket_entries k now lm"
  have bs_def': "bs = (if map_of ?b0 k = None then ?b0 @ [(k, \<lparr>bk_tokens = cap, bk_last_refill = now, bk_last_seen = now\<rparr>)] else ?b0)"
    using bucket_room_enough [OF _ _ K0 d k] o by (simp add: bs_def bucket_entries_def Let_def cap_def)
  have dbs: "distinct (map fst bs)" "fst ` set bs \<subseteq> K" using d K0 k by (auto simp: bs_def' map_of_eq_None_iff)
  have upd: "(map_of bs)(k \<mapsto> v) = kept(k \<mapsto> v)" for v
    using b0 by (auto simp: bs_def' fun_eq_iff map_add_def split: option.splits)
  define n where "n = bucket_tokens k now lm"
  have n_eq: "n = min cap (bk_tokens (the (map_of bs k)) + max 0 (now - bk_last_refill (the (map_of bs k))) * cap)"
    using o by (simp add: n_def bucket_tokens_def Let_def bs_def cap_def)
  have level: "n = bucket_level cap cap (bucket_view lm k) now"
  proof (cases "kept k")
    case None
    then have "n = cap" using b0 by (simp add: n_eq bs_def' map_add_def)
    with gone [of k] None show ?thesis by (auto simp: bucket_view_def bucket_level_def)
  next
    case (Some b)
    then have "map_of (bl_buckets lm) k = Some b" using gone [of k] by auto
    moreover from this have "bk_last_refill b \<le> now" using o now by (meson order_trans)
    ultimately show ?thesis using Some b0
      by (simp add: n_eq bs_def' bucket_view_def bucket_level_def refilled_def)
  qed
  have res: "(a, lm') = (if n < 1 then (False, bucket_put k now n lm) else (True, bucket_put k now (n - 1) lm))"
    using c by (auto simp: bucket_admits_def bucket_check_def Let_def n_def split: if_splits)
  have put: "map_of (bl_buckets (bucket_put k now x lm)) = kept(k \<mapsto> \<lparr>bk_tokens = x, bk_last_refill = now, bk_last_seen = now\<rparr>)"
    "distinct (map fst (bl_buckets (bucket_put k now x lm)))" "fst ` set (bl_buckets (bucket_put k now x lm)) \<subseteq> K" for x
    using dbs k by (simp_all add: bucket_put_def update_conv' upd distinct_update dom_update flip: bs_def)
  show "a = (1 \<le> bucket_level cap cap (bucket_view lm k) now)" using res by (auto simp flip: level split: if_splits)
  show "map_of (bl_buckets lm') = kept(k \<mapsto> \<lparr>bk_tokens = tokens, bk_last_refill = now, bk_last_seen = now\<rparr>)"
    using res by (auto simp: tokens_def put simp flip: level split: if_splits)
  show "distinct (map fst (bl_buckets lm')) \<and> fst ` set (bl_buckets lm') \<subseteq> K"
    using res put(2,3) by (simp split: if_splits)
  show "bl_requests_per_second lm' = bl_requests_per_second lm \<and> bl_max_entries lm' = bl_max_entries lm
      \<and> bl_idle_ttl_seconds lm' = bl_idle_ttl_seconds lm"
    using res by (simp add: bucket_put_def split: if_splits)
qed

interpretation tool_calls: bucket_store "rat_of_int rate" "rat_of_int rate" K "bucket_limiter_ok K rate"
  bucket_view bucket_admits for rate K
proof (unfold_locales, goal_cases)
  case (1 t s)
  then show ?case by (auto simp: bucket_limiter_ok_def)
next
  case (2 t s k x l)
  then show ?case by (auto simp: bucket_limiter_ok_def bucket_view_def)
next
  case (3 t s now k a s')
  note o = 3(1) [unfolded bucket_limiter_ok_def]
  note v = bucket_check_view [OF 3]
  let ?level = "bucket_level (rat_of_int rate) (rat_of_int rate) (bucket_view s k) now"
  have b: "0 \<le> bk_tokens b \<and> bk_last_refill b \<le> now" if "map_of (bl_buckets s) k = Some b" for k b
    using o that 3(2) by (meson order_trans)
  then have lev: "0 \<le> ?level" "?level \<le> rat_of_int rate"
    using o by (auto simp: bucket_view_def bucket_level_def refilled_def split: option.splits)
  have "0 \<le> bk_tokens b \<and> bk_tokens b \<le> of_int rate \<and> bk_last_seen b = bk_last_refill b \<and> bk_last_refill b \<le> now"
    if "map_of (bl_buckets s') k' = Some b" for k' b
  proof (cases "k' = k")
    case True
    then show ?thesis using that lev v(1) by (auto simp: v(2))
  next
    case False
    then have "map_of (bl_buckets s) k' = Some b"
      using that by (auto simp: v(2) split: if_splits option.splits)
    then show ?thesis using o b by blast
  qed
  then show ?case using o v(3,4) by (simp add: bucket_limiter_ok_def)
next
  case (4 t s now k a s')
  show ?case using bucket_check_view(2) [OF 4] by (simp add: bucket_view_def)
next
  case (5 t s now k a s' k')
  have "bucket_view s' k' = map_option (\<lambda>b. (bk_tokens b, bk_last_refill b))
      (case map_of (bl_buckets s) k' of Some b \<Rightarrow> if bl_idle_ttl_seconds s < now - bk_last_seen b then None else Some b | None \<Rightarrow> None)"
    using 5(6) by (simp add: bucket_view_def bucket_check_view(2) [OF 5(1-4)])
  with bucket_check_view(5) [OF 5(1-4), of k'] show ?case by (auto simp: bucket_view_def)
next
  case (6 t s now k a s')
  then show ?case by (rule bucket_check_view(1))
next
  case (7 t s now k a s')
  show ?case using bucket_check_view(2) [OF 7] by (simp add: bucket_view_def)
qed


section \<open>Theorems\<close>

lemma bucket_room_None: "map_of x k = None \<Longrightarrow> map_of (bucket_room lm x) k = None"
  by (auto simp: bucket_room_def AList.delete_conv')

lemma bucket_room_keys: "distinct (map fst x) \<Longrightarrow> distinct (map fst (bucket_room lm x))"
  by (simp add: bucket_room_def AList.distinct_delete)

lemma bucket_entries_distinct:
  assumes "distinct (map fst (bl_buckets lm))"
  shows "distinct (map fst (bucket_entries k now lm))"
proof -
  have d: "distinct (map fst (bucket_cleanup now lm))"
    using assms by (simp add: bucket_cleanup_def distinct_filter_keys)
  have "k \<notin> fst ` set (bucket_room lm (bucket_cleanup now lm))" if "map_of (bucket_cleanup now lm) k = None"
    using bucket_room_None [OF that] by (simp add: map_of_eq_None_iff)
  with d bucket_room_keys [OF d] show ?thesis by (auto simp: bucket_entries_def Let_def)
qed

text \<open>The table never grows beyond its limit.\<close>

lemma entry_count_bound:
  assumes "0 < bl_max_entries lm" and "entry_count lm \<le> bl_max_entries lm"
  shows "entry_count (snd (bucket_check k now lm)) \<le> bl_max_entries lm"
proof -
  let ?c = "bucket_cleanup now lm"
  have "int (length ?c) \<le> entry_count lm" by (simp add: bucket_cleanup_def entry_count_def)
  then have c: "int (length ?c) \<le> bl_max_entries lm" using assms(2) by linarith
  have room: "int (length (bucket_room lm ?c)) < bl_max_entries lm"
  proof (cases "bl_max_entries lm \<le> int (length ?c)")
    case True
    then have ne: "?c \<noteq> []" using assms(1) by auto
    have "arg_min_list (\<lambda>e. bk_last_seen (snd e)) ?c \<in> set ?c" using arg_min_list_in [OF ne] .
    then have "length (AList.delete (fst (arg_min_list (\<lambda>e. bk_last_seen (snd e)) ?c)) ?c) < length ?c"
      unfolding AList.delete_eq by (intro length_filter_less) auto
    with True ne c show ?thesis by (simp add: bucket_room_def)
  qed (simp add: bucket_room_def)
  have up: "length (AList.update k v xs) = (if k \<in> fst ` set xs then length xs else Suc (length xs))" for v xs
    by (induction xs) auto
  have "k \<in> fst ` set (bucket_entries k now lm)"
    by (auto simp: bucket_entries_def Let_def map_of_eq_None_iff)
  then have "entry_count (bucket_put k now x lm) = int (length (bucket_entries k now lm))" for x
    by (simp add: entry_count_def bucket_put_def up)
  moreover have "int (length (bucket_entries k now lm)) \<le> bl_max_entries lm"
    using c room by (simp add: bucket_entries_def Let_def)
  ultimately show ?thesis by (simp add: bucket_check_def Let_def)
qed

text \<open>C24: forgetting is not observable. As long as the table has room for the keys in use and the idle
  time is at least a second, the limiter of tool calls gives every request of a run the answer of a
  limiter that keeps one bucket per key for ever.\<close>

theorem forgetting_buckets_is_invisible:
  assumes "new_bucket_limiter rate entries ttl = Inr lm" and "1 \<le> ttl" and "finite K" and "int (card K) \<le> entries"
    and "fst ` set rs \<subseteq> K" and "in_order t rs"
  shows "bucket_run bucket_admits rs lm =
    bucket_run (reference_check (of_int rate) (of_int rate)) rs (\<lambda>k. (of_int rate, t))"
proof (rule tool_calls.runs_agree [OF _ _ assms(6,5)])
  have lm: "lm = \<lparr>bl_requests_per_second = rate, bl_max_entries = entries, bl_idle_ttl_seconds = ttl, bl_buckets = []\<rparr>"
    and "0 < rate" using assms(1) by (auto simp: new_bucket_limiter_def split: if_splits)
  then show "bucket_limiter_ok K rate t lm" using assms by (simp add: bucket_limiter_ok_def)
  have "0 \<le> (b - t) * rat_of_int rate" if "t \<le> b" for b using \<open>0 < rate\<close> that by simp
  then show "tool_calls.agrees rate K t lm (\<lambda>k. (rat_of_int rate, t))"
    unfolding tool_calls.agrees_def by (simp add: lm bucket_view_def bucket_level_def refilled_def)
qed

theorem forgetting_buckets_is_invisible_witness:
  "bucket_run bucket_admits [([''u'', ''a''], 0), ([''u'', ''a''], 0), ([''u'', ''a''], 400)]
     \<lparr>bl_requests_per_second = 1, bl_max_entries = 1, bl_idle_ttl_seconds = 300, bl_buckets = []\<rparr> = [True, False, True]"
proof -
  have "bucket_run bucket_admits [([''u'', ''a''], 0), ([''u'', ''a''], 0), ([''u'', ''a''], 400)]
      \<lparr>bl_requests_per_second = 1, bl_max_entries = 1, bl_idle_ttl_seconds = 300, bl_buckets = []\<rparr> =
    bucket_run (reference_check (of_int 1) (of_int 1)) [([''u'', ''a''], 0), ([''u'', ''a''], 0), ([''u'', ''a''], 400)]
      (\<lambda>k. (of_int 1, 0))"
    by (rule forgetting_buckets_is_invisible [where entries = 1 and ttl = 300 and K = "{[''u'', ''a'']}"])
      (auto simp: new_bucket_limiter_def in_order_def)
  then show ?thesis by (simp add: reference_check_def refilled_def)
qed

text \<open>C25: how many SQL requests of one user an enabled limiter admits. With a clock that does not go
  back, a window of \<open>T - t\<close> seconds admits at most the burst and what flows in: the requests per minute
  of the window, or a tenth of the burst per minute if that is more, because a user who has been idle for ten
  minutes is forgotten and starts with the full burst. So the configured rate is kept by the
  configurations whose burst refills in ten minutes.\<close>

theorem sql_requests_bounded:
  assumes "sql_limiter_ok cfg t L" and "in_order t rs" and "\<forall>r \<in> set rs. snd r \<le> T" and "t \<le> T"
  shows "of_nat (admitted u rs (bucket_run (check_rate_limit cfg) rs L))
      \<le> of_int (rl_burst cfg)
        + (T - t) * max (of_int (rl_requests_per_minute cfg) / 60) (of_int (rl_burst cfg) / 600)
    \<and> (rl_burst cfg \<le> 10 * rl_requests_per_minute cfg \<longrightarrow>
      of_nat (admitted u rs (bucket_run (check_rate_limit cfg) rs L))
      \<le> of_int (rl_burst cfg) + (T - t) * (of_int (rl_requests_per_minute cfg) / 60))"
proof -
  have "of_nat (admitted u rs (bucket_run (check_rate_limit cfg) rs L)) \<le> of_int (rl_burst cfg) + (T - t) * sql_flow cfg"
    by (rule sql_requests.window_bound) (use assms in auto)
  moreover have "sql_flow cfg = of_int (rl_requests_per_minute cfg) / 60"
    if "rl_burst cfg \<le> 10 * rl_requests_per_minute cfg"
  proof -
    from that have "rat_of_int (rl_burst cfg) \<le> rat_of_int (10 * rl_requests_per_minute cfg)" by (simp only: of_int_le_iff)
    then show ?thesis by (simp add: sql_flow_def)
  qed
  ultimately show ?thesis unfolding sql_flow_def [symmetric] by metis
qed

theorem sql_requests_bounded_witness:
  "of_nat (admitted ''u'' [(''u'', 0), (''u'', 1), (''v'', 1), (''u'', 2)]
      (bucket_run (check_rate_limit (ss_rate_limit default_sql_security)) [(''u'', 0), (''u'', 1), (''v'', 1), (''u'', 2)] []))
    \<le> (10 :: rat) + (2 - 0) * (60 / 60)"
  using sql_requests_bounded [of "ss_rate_limit default_sql_security" 0 "[]" "[(''u'', 0), (''u'', 1), (''v'', 1), (''u'', 2)]" 2 "''u''"]
  by (simp add: sql_limiter_ok_def default_sql_security_def in_order_def)

text \<open>A burst that needs longer than ten minutes comes back early: with one request per minute and a
  burst of 11, a user gets 22 requests through in 601 seconds, one more than with a bucket that is
  kept.\<close>

theorem long_burst_comes_back_early:
  "let cfg = \<lparr>rl_enabled = True, rl_requests_per_minute = 1, rl_burst = 11\<rparr>;
       rs = replicate 11 (''u'', 0) @ replicate 11 (''u'', 601)
   in admitted ''u'' rs (bucket_run (check_rate_limit cfg) rs []) = 22
    \<and> admitted ''u'' rs (bucket_run (reference_check 11 (1 / 60)) rs (\<lambda>_. (11, 0))) = 21"
  by code_simp

text \<open>a refused tool call is told how long to wait, and the call is admitted when it comes after that
  time. The waiting time is positive.\<close>

theorem retry_after_is_enough:
  assumes "bucket_check key now lm = (Inl wait, lm')" and "0 < bl_requests_per_second lm"
    and "distinct (map fst (bl_buckets lm))"
  shows "0 < wait \<and> fst (bucket_check key (now + wait) lm') = Inr ()"
proof -
  let ?put = "\<lambda>n. \<lparr>bk_tokens = n, bk_last_refill = now, bk_last_seen = now\<rparr>"
  define rate where "rate = rat_of_int (bl_requests_per_second lm)"
  have rate: "1 \<le> rate" "0 < rate" using assms(2) by (auto simp: rate_def)
  define n where "n = bucket_tokens key now lm"
  have n: "n < 1" and w: "wait = max ((1 - n) / rate) (1 / 2 ^ 52)" and lm': "lm' = bucket_put key now n lm"
    using assms(1) by (auto simp: bucket_check_def Let_def n_def rate_def split: if_splits)
  have pos: "0 < wait" by (simp add: w less_max_iff_disj)
  have "(1 - n) / rate * rate \<le> wait * rate" using rate by (intro mult_right_mono) (auto simp: w)
  then have enough: "1 \<le> n + wait * rate" using rate by simp
  have "distinct (map fst (bl_buckets lm'))"
    using bucket_entries_distinct [OF assms(3)] by (simp add: lm' bucket_put_def distinct_update)
  then have kept: "map_of (bucket_cleanup (now + wait) lm') key \<in> {None, Some (?put n)}"
    by (simp add: bucket_cleanup_def map_of_filter) (simp add: lm' bucket_put_def update_conv')
  have r': "rat_of_int (bl_requests_per_second lm') = rate" by (simp add: lm' bucket_put_def rate_def)
  have "the (map_of (bucket_entries key (now + wait) lm') key) \<in>
      {?put n, \<lparr>bk_tokens = rate, bk_last_refill = now + wait, bk_last_seen = now + wait\<rparr>}"
    using kept bucket_room_None [of "bucket_cleanup (now + wait) lm'" key lm']
    by (auto simp: bucket_entries_def Let_def r' map_add_def split: option.splits)
  then have "1 \<le> bucket_tokens key (now + wait) lm'"
    using pos enough rate by (auto simp: bucket_tokens_def Let_def r')
  with pos show ?thesis by (simp add: bucket_check_def Let_def)
qed

theorem retry_after_is_enough_witness:
  "0 < (1 / 2 :: rat) \<and> fst (bucket_check [''u''] (1 + 1 / 2)
     \<lparr>bl_requests_per_second = 1, bl_max_entries = 1, bl_idle_ttl_seconds = 300,
      bl_buckets = [([''u''], \<lparr>bk_tokens = 1 / 2, bk_last_refill = 1, bk_last_seen = 1\<rparr>)]\<rparr>) = Inr ()"
  by (rule retry_after_is_enough
      [of _ _ "\<lparr>bl_requests_per_second = 1, bl_max_entries = 1, bl_idle_ttl_seconds = 300,
      bl_buckets = [([''u''], \<lparr>bk_tokens = 0, bk_last_refill = 1 / 2, bk_last_seen = 1 / 2\<rparr>)]\<rparr>"])
    (simp_all add: bucket_check_def bucket_tokens_def bucket_entries_def bucket_put_def bucket_cleanup_def Let_def)

end
