(* ===== verification/Run_SQL.thy ===== *)
theory Run_SQL
  imports SQL_Gateway Connection_Cache Tenant_Provisioner Token_Buckets Resource_Service
begin

text \<open>
  The tools \<open>run_sql\<close> and \<open>run_sql_transaction\<close> (\<open>mcp/tools/handlers.py\<close>): the checks of a request in the
  order of the code, up to what is handed to the gateway, and the answer made of what the gateway
  returns. Users, agents and users in the workspace of an agent ask; the target and its credential
  come from \<open>Instance_Access\<close> and, on multitenant instances, from \<open>Tenant_Provisioner\<close>. Audit rows
  and elapsed times are left out.

  Shown: whatever reaches the gateway has passed the policy, and its account is one the caller may
  use; a caller with read-only permission never sends anything but a read-only statement; callers do
  not share connections; a deleted resource takes no more statements.
\<close>

section \<open>Actors\<close>

datatype sql_actor = ActUser string | ActAgent string | ActWorkspace string string

fun is_agent_actor :: "sql_actor \<Rightarrow> bool" where
  "is_agent_actor (ActUser u) = False"
| "is_agent_actor _ = True"

fun resource_agent :: "sql_actor \<Rightarrow> string" where
  "resource_agent (ActWorkspace u a) = a"
| "resource_agent (ActAgent a) = a"
| "resource_agent (ActUser u) = u"

fun actor_user :: "sql_actor \<Rightarrow> string" where
  "actor_user (ActUser u) = u"
| "actor_user (ActAgent a) = a"
| "actor_user (ActWorkspace u a) = u"

fun actor_cache_key :: "sql_actor \<Rightarrow> string" where
  "actor_cache_key (ActWorkspace u a) = ''workspace-user:'' @ u @ '':agent:'' @ a"
| "actor_cache_key (ActAgent a) = ''agent:'' @ a"
| "actor_cache_key (ActUser u) = u"


section \<open>Arguments\<close>

text \<open>What base64 and JSON make of a cursor: unreadable, an object without offset, or its offset.\<close>

datatype cursor = Unreadable | NoOffset | IntOffset int | OtherOffset

fun decode_cursor :: "cursor \<Rightarrow> int" where
  "decode_cursor (IntOffset n) = (if n < 0 then 0 else n)"
| "decode_cursor _ = 0"

definition validate_identifier_minimal :: "string \<Rightarrow> bool" where
  "validate_identifier_minimal v =
     (v \<noteq> [] \<and> length v \<le> 256 \<and> \<not> list_ex space_char v
      \<and> \<not> list_ex (\<lambda>c. c \<in> {CHR 0x60, CHR '';'', CHR 0x27, CHR '','', CHR 0x22}) v
      \<and> \<not> (contains_text '','' v \<or> contains_text ''#'' v \<or> contains_text ''/*'' v \<or> contains_text ''*/'' v \<or> contains_text ''--'' v))"

record run_sql_args =
  ra_sql :: string
  ra_instance_id :: "string option"
  ra_database :: "string option"
  ra_branch :: "string option"
  ra_max_rows :: int
  ra_cursor :: "cursor option"
  ra_confirm :: bool

text \<open>What the handler needs from outside, and what it changes.\<close>

record 'v sql_runtime =
  sr_parser :: sqlparse
  sr_config :: sql_security_config
  sr_now :: rat
  sr_accounts :: account_lib
  sr_tenants :: "'v tenant_lib"
  sr_env :: "nat \<Rightarrow> access_store \<Rightarrow> access_store"
  sr_decrypt :: "string \<Rightarrow> string"

record 'v sql_state =
  ss_store :: access_store
  ss_limiters :: sql_limiters
  ss_remote :: 'v

text \<open>The arguments of the gateway, with what the answer shows of the target.\<close>

record sql_request =
  sq_host :: string
  sq_port :: int
  sq_user :: string
  sq_password :: string
  sq_database :: "string option"
  sq_user_id :: string
  sq_instance_id :: string
  sq_read_only :: bool
  sq_max_rows :: int
  sq_offset :: int
  sq_branch :: "string option"
  sq_target :: instance_row
  sq_permission :: permission
  sq_expose_cluster_id :: bool

datatype decision = Refuse string | AskConfirmation | Send sql_request


section \<open>Targets and credentials\<close>

text \<open>\<open>_resolve_user_sql_credential\<close>.\<close>

definition resolve_user_sql_credential ::
    "'v sql_runtime \<Rightarrow> string \<Rightarrow> instance_row \<Rightarrow> access_store \<times> 'v \<Rightarrow> (string + user_sql_credential) \<times> access_store \<times> 'v" where
  "resolve_user_sql_credential rt user_id target = (\<lambda>(st, v).
     case resolve_user_instance_access st user_id (i_id target) of
       None \<Rightarrow> (Inl ''INSTANCE_NOT_ACCESSIBLE'', st, v)
     | Some access \<Rightarrow>
       (case ea_permission access of
          None \<Rightarrow> (Inl ''CONNECTION_ERROR'', st, v)
        | Some permission \<Rightarrow>
          let found = get_user_credential st (i_id target) user_id;
              provision = (case found of
                  None \<Rightarrow> i_topology target = MULTITENANT
                | Some uc \<Rightarrow> i_topology target = MULTITENANT \<and> ub_provisioning_step (uc_binding uc) \<noteq> None) in
          if provision then
            (case ensure_tenant (sr_tenants rt) (sr_env rt) target user_id permission BY_SYSTEM (st, v) of
               (Inl e, st1, v1) \<Rightarrow> (Inl ''TENANT_PROVISION_FAILED'', st1, v1)
             | (Inr _, st1, v1) \<Rightarrow>
               (case get_user_credential st1 (i_id target) user_id of
                  None \<Rightarrow> (Inl ''CONNECTION_ERROR'', st1, v1)
                | Some uc \<Rightarrow> (Inr uc, st1, v1)))
          else (case found of
              Some uc \<Rightarrow> (Inr uc, st, v)
            | None \<Rightarrow>
              (case create_db_account (sr_accounts rt) target user_id st of
                 Inl e \<Rightarrow> (Inl ''CONNECTION_ERROR'', st, v)
               | Inr (c, st1) \<Rightarrow>
                 (case get_user_credential st1 (i_id target) user_id of
                    None \<Rightarrow> (Inl ''CONNECTION_ERROR'', st1, v)
                  | Some uc \<Rightarrow> (Inr uc, st1, v))))))"

record sql_target =
  sg_instance :: instance_row
  sg_credential :: credential
  sg_permission :: permission
  sg_database :: "string option"
  sg_public_id :: string
  sg_expose :: bool

definition resolve_sql_target ::
    "'v sql_runtime \<Rightarrow> sql_actor \<Rightarrow> string option \<Rightarrow> string option \<Rightarrow> access_store \<times> 'v \<Rightarrow> (string + sql_target) \<times> access_store \<times> 'v" where
  "resolve_sql_target rt actor instance_id database = (\<lambda>(st, v).
     if is_agent_actor actor then
       (case resolve_agent_sql_access st (resource_agent actor) instance_id database of
          Inl e \<Rightarrow> (Inl e, st, v)
        | Inr acc \<Rightarrow> (Inr \<lparr>sg_instance = sa_instance acc, sg_credential = sa_credential acc, sg_permission = sa_permission acc,
              sg_database = sa_database acc, sg_public_id = sa_public_instance_id acc, sg_expose = (sa_source acc = ''bound'')\<rparr>, st, v))
     else
       (case resolve_target_instance st (actor_user actor) instance_id of
          (Inl e, st1) \<Rightarrow> (Inl e, st1, v)
        | (Inr target, st1) \<Rightarrow>
          if i_status target = IS_CREATING then (Inl ''INSTANCE_STARTING'', st1, v)
          else (case resolve_user_sql_credential rt (actor_user actor) target (st1, v) of
              (Inl e, st2, v2) \<Rightarrow> (Inl e, st2, v2)
            | (Inr uc, st2, v2) \<Rightarrow>
              let tenant = ub_tenant_name (uc_binding uc) in
              (Inr \<lparr>sg_instance = target, sg_credential = uc_credential uc, sg_permission = uc_permission uc,
                 sg_database = (if database = None \<and> i_topology target = MULTITENANT \<and> filled tenant
                                then Some (agentic_name (the tenant)) else database),
                 sg_public_id = i_id target, sg_expose = True\<rparr>, st2, v2))))"

text \<open>The last checks and the arguments of the gateway.\<close>

definition request_for :: "'v sql_runtime \<Rightarrow> sql_actor \<Rightarrow> int \<Rightarrow> int \<Rightarrow> string option \<Rightarrow> string list \<Rightarrow> sql_target \<Rightarrow> decision" where
  "request_for rt actor max_rows offset branch stmts t =
     (if i_status (sg_instance t) = IS_CREATING then Refuse ''INSTANCE_STARTING''
      else case (c_username_ciphertext (sg_credential t), c_password_ciphertext (sg_credential t)) of
        (Some username, Some password) \<Rightarrow>
          if sg_permission t = PERM_READONLY \<and> \<not> list_all (is_readonly_sql (sr_parser rt)) stmts then Refuse ''READ_ONLY_ACCESS''
          else Send \<lparr>sq_host = (case i_host (sg_instance t) of Some h \<Rightarrow> h | None \<Rightarrow> []),
                 sq_port = (case i_port (sg_instance t) of Some n \<Rightarrow> if n = 0 then 3306 else n | None \<Rightarrow> 3306),
                 sq_user = sr_decrypt rt username, sq_password = sr_decrypt rt password, sq_database = sg_database t,
                 sq_user_id = actor_cache_key actor, sq_instance_id = sg_public_id t, sq_read_only = (sg_permission t = PERM_READONLY),
                 sq_max_rows = min max_rows (ss_max_rows (sr_config rt)), sq_offset = offset, sq_branch = branch,
                 sq_target = sg_instance t, sq_permission = sg_permission t, sq_expose_cluster_id = sg_expose t\<rparr>
      | _ \<Rightarrow> Refuse ''CONNECTION_ERROR'')"


section \<open>run\_sql\<close>

definition user_disabled :: "access_store \<Rightarrow> sql_actor \<Rightarrow> bool" where
  "user_disabled st actor =
     (\<not> is_agent_actor actor \<and> map_option u_status (tget u_id (actor_user actor) (ia_users st)) = Some USER_DISABLED)"

text \<open>The checks of the arguments alone.\<close>

definition run_sql_arguments :: "'v sql_runtime \<Rightarrow> sql_actor \<Rightarrow> run_sql_args \<Rightarrow> access_store \<Rightarrow> string option" where
  "run_sql_arguments rt actor q st =
     (if user_disabled st actor then Some ''USER_DISABLED''
      else if ra_max_rows q < 1 then Some ''INVALID_ARGUMENT''
      else if \<not> has_sql_statement (sr_parser rt) (ra_sql q) then Some ''INVALID_ARGUMENT''
      else if has_multiple_statements (sr_parser rt) (ra_sql q) then Some ''INVALID_ARGUMENT''
      else if is_agent_actor actor \<and> ra_branch q \<noteq> None then Some ''INVALID_ARGUMENT''
      else case ra_branch q of
        None \<Rightarrow> None
      | Some branch \<Rightarrow>
          if \<not> validate_identifier_minimal branch then Some ''INVALID_IDENTIFIER''
          else if mentions_session_branch (ra_sql q) then Some ''BLOCKED_SQL'' else None)"

definition decide_run_sql :: "'v sql_runtime \<Rightarrow> sql_actor \<Rightarrow> run_sql_args \<Rightarrow> 'v sql_state \<Rightarrow> decision \<times> 'v sql_state" where
  "decide_run_sql rt actor q s =
     (case run_sql_arguments rt actor q (ss_store s) of
        Some e \<Rightarrow> (Refuse e, s)
      | None \<Rightarrow>
        (case check_rate_limit (ss_rate_limit (sr_config rt)) (actor_cache_key actor) (sr_now rt) (ss_limiters s) of
           (False, limiters) \<Rightarrow> (Refuse ''RATE_LIMITED'', s\<lparr>ss_limiters := limiters\<rparr>)
         | (True, limiters) \<Rightarrow>
           let s1 = s\<lparr>ss_limiters := limiters\<rparr>; risk = classify_sql_risk (sr_parser rt) (sr_config rt) (ra_sql q) in
           if risk = BLOCKED then (Refuse ''BLOCKED_SQL'', s1)
           else if risk = DESTRUCTIVE \<and> \<not> ra_confirm q then (AskConfirmation, s1)
           else case resolve_sql_target rt actor (ra_instance_id q) (ra_database q) (ss_store s1, ss_remote s1) of
             (r, st, v) \<Rightarrow>
               let s2 = s1\<lparr>ss_store := st, ss_remote := v\<rparr>;
                   offset = (case ra_cursor q of None \<Rightarrow> 0 | Some c \<Rightarrow> decode_cursor c) in
               (case r of Inl e \<Rightarrow> Refuse e
                | Inr t \<Rightarrow> request_for rt actor (ra_max_rows q) offset (ra_branch q) [ra_sql q] t, s2)))"

text \<open>The answer.\<close>

record 'a tool_result =
  tr_result :: 'a
  tr_instance_id :: "string option"
  tr_cluster_id :: "string option"
  tr_permission :: permission
  tr_branch :: "string option"
  tr_hint :: bool

datatype 'a response = ErrorResponse string | ConfirmationText | ResultResponse "'a tool_result" | CancelledResponse

definition tool_answer :: "access_store \<Rightarrow> sql_actor \<Rightarrow> sql_request \<Rightarrow> bool \<Rightarrow> 'a outcome \<Rightarrow> 'a response" where
  "tool_answer st actor q hint outcome = (case outcome of
     Failed code \<Rightarrow> ErrorResponse code
   | WasCancelled \<Rightarrow> CancelledResponse
   | Returned x \<Rightarrow>
       let is_mt_user = (\<not> is_agent_actor actor \<and> i_topology (sq_target q) = MULTITENANT
             \<and> map_option u_role (tget u_id (actor_user actor) (ia_users st)) \<noteq> Some ROLE_ADMIN) in
       ResultResponse \<lparr>tr_result = x, tr_instance_id = (if is_mt_user then None else Some (sq_instance_id q)),
         tr_cluster_id = (if is_mt_user \<or> \<not> sq_expose_cluster_id q then None else Some (i_cluster_id (sq_target q))),
         tr_permission = sq_permission q, tr_branch = sq_branch q, tr_hint = hint\<rparr>)"

definition gateway_call_of :: "string \<Rightarrow> sql_request \<Rightarrow> gateway_call" where
  "gateway_call_of sql q = \<lparr>gc_sql = sql, gc_max_rows = sq_max_rows q, gc_offset = sq_offset q, gc_branch = sq_branch q\<rparr>"

text \<open>\<open>leased\<close> is the session the cache hands out for a request, or the exception of \<open>acquire\<close>.\<close>

definition handle_run_sql :: "'v sql_runtime \<Rightarrow> ('c, 'r) server \<Rightarrow> (sql_request \<Rightarrow> exn + 'c) \<Rightarrow> sql_actor \<Rightarrow> run_sql_args \<Rightarrow> 'v sql_state
    \<Rightarrow> 'r query_result response \<times> 'v sql_state" where
  "handle_run_sql rt srv leased actor q s =
     (case decide_run_sql rt actor q s of
        (Refuse e, s1) \<Rightarrow> (ErrorResponse e, s1)
      | (AskConfirmation, s1) \<Rightarrow> (ConfirmationText, s1)
      | (Send rq, s1) \<Rightarrow>
          (tool_answer (ss_store s1) actor rq (should_add_comment_hint (sr_parser rt) (ra_sql q))
             (case leased rq of
                Inl e \<Rightarrow> acquire_failure e
              | Inr c \<Rightarrow> ge_outcome (gateway_execute (sr_parser rt) (sr_config rt) srv (gateway_call_of (ra_sql q) rq) c)), s1))"


section \<open>run\_sql\_transaction\<close>

record transaction_args =
  ta_sql_statements :: "string list"
  ta_instance_id :: "string option"
  ta_database :: "string option"
  ta_confirm :: bool

definition decide_transaction :: "'v sql_runtime \<Rightarrow> sql_actor \<Rightarrow> transaction_args \<Rightarrow> 'v sql_state \<Rightarrow> decision \<times> 'v sql_state" where
  "decide_transaction rt actor q s =
     (if user_disabled (ss_store s) actor then (Refuse ''USER_DISABLED'', s)
      else if ta_sql_statements q = [] then (Refuse ''INVALID_ARGUMENT'', s)
      else if \<not> list_all (has_sql_statement (sr_parser rt)) (ta_sql_statements q) then (Refuse ''INVALID_ARGUMENT'', s)
      else if list_ex (has_multiple_statements (sr_parser rt)) (ta_sql_statements q) then (Refuse ''INVALID_ARGUMENT'', s)
      else
        (case check_rate_limit (ss_rate_limit (sr_config rt)) (actor_cache_key actor) (sr_now rt) (ss_limiters s) of
           (False, limiters) \<Rightarrow> (Refuse ''RATE_LIMITED'', s\<lparr>ss_limiters := limiters\<rparr>)
         | (True, limiters) \<Rightarrow>
           let s1 = s\<lparr>ss_limiters := limiters\<rparr>;
               risks = map (classify_sql_risk (sr_parser rt) (sr_config rt)) (ta_sql_statements q) in
           if BLOCKED \<in> set risks then (Refuse ''BLOCKED_SQL'', s1)
           else if DESTRUCTIVE \<in> set risks \<and> \<not> ta_confirm q then (AskConfirmation, s1)
           else case resolve_sql_target rt actor (ta_instance_id q) (ta_database q) (ss_store s1, ss_remote s1) of
             (r, st, v) \<Rightarrow>
               (case r of Inl e \<Rightarrow> Refuse e
                | Inr t \<Rightarrow> request_for rt actor 1000 0 None (ta_sql_statements q) t, s1\<lparr>ss_store := st, ss_remote := v\<rparr>)))"

definition handle_run_sql_transaction :: "'v sql_runtime \<Rightarrow> ('c, 'r) server \<Rightarrow> (sql_request \<Rightarrow> exn + 'c) \<Rightarrow> sql_actor \<Rightarrow> transaction_args
    \<Rightarrow> 'v sql_state \<Rightarrow> 'r query_result list response \<times> 'v sql_state" where
  "handle_run_sql_transaction rt srv leased actor q s =
     (case decide_transaction rt actor q s of
        (Refuse e, s1) \<Rightarrow> (ErrorResponse e, s1)
      | (AskConfirmation, s1) \<Rightarrow> (ConfirmationText, s1)
      | (Send rq, s1) \<Rightarrow>
          (tool_answer (ss_store s1) actor rq False
             (case leased rq of
                Inl e \<Rightarrow> acquire_failure e
              | Inr c \<Rightarrow> ge_outcome (execute_transaction (sr_parser rt) srv (ta_sql_statements q) c)), s1))"



section \<open>What is sent\<close>

definition passes_policy :: "'v sql_runtime \<Rightarrow> bool \<Rightarrow> string list \<Rightarrow> bool" where
  "passes_policy rt confirmed stmts =
     (\<forall>x \<in> set stmts. has_sql_statement (sr_parser rt) x \<and> \<not> has_multiple_statements (sr_parser rt) x
        \<and> classify_sql_risk (sr_parser rt) (sr_config rt) x \<noteq> BLOCKED
        \<and> (classify_sql_risk (sr_parser rt) (sr_config rt) x = DESTRUCTIVE \<longrightarrow> confirmed))"

text \<open>The account of a request is one the actor may use, with that permission.\<close>

definition entitled :: "'v sql_runtime \<Rightarrow> access_store \<Rightarrow> sql_actor \<Rightarrow> sql_request \<Rightarrow> bool" where
  "entitled rt st actor rq =
     (\<exists>c. Some (sq_user rq) = map_option (sr_decrypt rt) (c_username_ciphertext c)
        \<and> Some (sq_password rq) = map_option (sr_decrypt rt) (c_password_ciphertext c)
        \<and> (if is_agent_actor actor
           then \<exists>want db acc. resolve_agent_sql_access st (resource_agent actor) want db = Inr acc \<and> sa_credential acc = c
             \<and> sa_permission acc = sq_permission rq \<and> sa_public_instance_id acc = sq_instance_id rq \<and> sa_database acc = sq_database rq
           else \<exists>uc. get_user_credential st (sq_instance_id rq) (actor_user actor) = Some uc \<and> uc_credential uc = c
             \<and> uc_permission uc = sq_permission rq))"

lemma decode_cursor_nonneg: "0 \<le> decode_cursor c"
  by (cases c) auto

lemma resolve_user_credential_found:
  "resolve_user_sql_credential rt u target (st, v) = (Inr uc, st', v') \<Longrightarrow> get_user_credential st' (i_id target) u = Some uc"
  by (auto simp: resolve_user_sql_credential_def Let_def split: option.splits sum.splits if_splits prod.splits)

definition target_of :: "access_store \<Rightarrow> sql_actor \<Rightarrow> sql_target \<Rightarrow> bool" where
  "target_of st actor t =
     (if is_agent_actor actor
      then \<exists>want db acc. resolve_agent_sql_access st (resource_agent actor) want db = Inr acc \<and> sa_credential acc = sg_credential t
        \<and> sa_permission acc = sg_permission t \<and> sa_public_instance_id acc = sg_public_id t \<and> sa_database acc = sg_database t
      else \<exists>uc. get_user_credential st (sg_public_id t) (actor_user actor) = Some uc \<and> uc_credential uc = sg_credential t
        \<and> uc_permission uc = sg_permission t)"

lemma resolve_sql_target_found:
  assumes "resolve_sql_target rt actor i db (st, v) = (Inr t, st', v')"
  shows "target_of st' actor t"
proof (cases "is_agent_actor actor")
  case True
  then obtain acc where "resolve_agent_sql_access st' (resource_agent actor) i db = Inr acc" "sa_credential acc = sg_credential t"
      "sa_permission acc = sg_permission t" "sa_public_instance_id acc = sg_public_id t" "sa_database acc = sg_database t"
    using assms by (auto simp: resolve_sql_target_def split: sum.splits)
  then show ?thesis using True by (auto simp: target_of_def)
next
  case False
  then obtain target st1 uc where "resolve_user_sql_credential rt (actor_user actor) target (st1, v) = (Inr uc, st', v')"
      "sg_public_id t = i_id target" "uc_credential uc = sg_credential t" "uc_permission uc = sg_permission t"
    using assms by (auto simp: resolve_sql_target_def Let_def split: sum.splits prod.splits if_splits)
  then show ?thesis using False by (auto simp: target_of_def dest: resolve_user_credential_found)
qed

lemma request_for_Send:
  assumes "request_for rt actor m k b stmts t = Send rq" and "target_of st actor t"
  shows "entitled rt st actor rq \<and> sq_user_id rq = actor_cache_key actor \<and> sq_offset rq = k \<and> sq_branch rq = b
    \<and> sq_max_rows rq = min m (ss_max_rows (sr_config rt)) \<and> sq_instance_id rq = sg_public_id t
    \<and> (sq_permission rq = PERM_READONLY \<longrightarrow> list_all (is_readonly_sql (sr_parser rt)) stmts)"
proof -
  obtain u p where c: "c_username_ciphertext (sg_credential t) = Some u" "c_password_ciphertext (sg_credential t) = Some p"
    using assms(1) by (auto simp: request_for_def split: if_splits option.splits)
  have rq: "sq_user rq = sr_decrypt rt u" "sq_password rq = sr_decrypt rt p" "sq_permission rq = sg_permission t"
      "sq_instance_id rq = sg_public_id t" "sq_database rq = sg_database t" "sq_user_id rq = actor_cache_key actor" "sq_offset rq = k"
      "sq_branch rq = b" "sq_max_rows rq = min m (ss_max_rows (sr_config rt))"
      "sg_permission t = PERM_READONLY \<longrightarrow> list_all (is_readonly_sql (sr_parser rt)) stmts"
    using assms(1) c by (auto simp: request_for_def split: if_splits)
  have "entitled rt st actor rq"
    unfolding entitled_def using assms(2) c rq by (intro exI [of _ "sg_credential t"]) (auto simp: target_of_def)
  then show ?thesis using rq by simp
qed

text \<open>C5: whatever \<open>run_sql\<close> hands to the gateway has passed every check. It is one statement, not
  blocked, and confirmed if it is destructive; the rate limit admitted the caller; the account is
  one the caller may use, under the caller's own key; a caller with read-only permission sends only
  a read-only statement; the page is bounded by the configuration; agents name no branch, and a
  branch is an identifier that the statement does not override.\<close>

theorem sent_statement_is_authorized:
  assumes "decide_run_sql rt actor q s = (Send rq, s')"
  shows "passes_policy rt (ra_confirm q) [ra_sql q]
    \<and> fst (check_rate_limit (ss_rate_limit (sr_config rt)) (actor_cache_key actor) (sr_now rt) (ss_limiters s))
    \<and> entitled rt (ss_store s') actor rq \<and> sq_user_id rq = actor_cache_key actor
    \<and> (sq_permission rq = PERM_READONLY \<longrightarrow> is_readonly_sql (sr_parser rt) (ra_sql q))
    \<and> sq_max_rows rq \<le> ss_max_rows (sr_config rt) \<and> 0 \<le> sq_offset rq \<and> \<not> user_disabled (ss_store s) actor
    \<and> (sq_branch rq \<noteq> None \<longrightarrow> \<not> is_agent_actor actor \<and> validate_identifier_minimal (the (sq_branch rq)) \<and> \<not> mentions_session_branch (ra_sql q))"
proof -
  have args: "run_sql_arguments rt actor q (ss_store s) = None"
    using assms by (auto simp: decide_run_sql_def split: option.splits)
  obtain limiters where lim: "check_rate_limit (ss_rate_limit (sr_config rt)) (actor_cache_key actor) (sr_now rt) (ss_limiters s) = (True, limiters)"
    using assms args by (auto simp: decide_run_sql_def split: prod.splits bool.splits)
  let ?risk = "classify_sql_risk (sr_parser rt) (sr_config rt) (ra_sql q)"
  let ?k = "case ra_cursor q of None \<Rightarrow> 0 | Some c \<Rightarrow> decode_cursor c"
  have risk: "?risk \<noteq> BLOCKED" "?risk = DESTRUCTIVE \<longrightarrow> ra_confirm q"
    using assms args lim by (auto simp: decide_run_sql_def Let_def split: if_splits)
  obtain t st v where t: "resolve_sql_target rt actor (ra_instance_id q) (ra_database q) (ss_store s, ss_remote s) = (Inr t, st, v)"
      "request_for rt actor (ra_max_rows q) ?k (ra_branch q) [ra_sql q] t = Send rq" "ss_store s' = st"
    using assms args lim risk by (auto simp: decide_run_sql_def Let_def split: prod.splits sum.splits)
  have "0 \<le> ?k" by (auto simp: decode_cursor_nonneg split: option.splits)
  moreover note request_for_Send [OF t(2) resolve_sql_target_found [OF t(1)]]
  moreover have "has_sql_statement (sr_parser rt) (ra_sql q)" "\<not> has_multiple_statements (sr_parser rt) (ra_sql q)"
      "\<not> user_disabled (ss_store s) actor"
      "ra_branch q \<noteq> None \<longrightarrow> \<not> is_agent_actor actor \<and> validate_identifier_minimal (the (ra_branch q)) \<and> \<not> mentions_session_branch (ra_sql q)"
    using args by (auto simp: run_sql_arguments_def split: if_splits option.splits)
  ultimately show ?thesis using lim risk t(3) by (simp add: passes_policy_def)
qed

text \<open>the same for \<open>run_sql_transaction\<close>, for each of its statements.\<close>

theorem sent_transaction_is_authorized:
  assumes "decide_transaction rt actor q s = (Send rq, s')"
  shows "ta_sql_statements q \<noteq> [] \<and> passes_policy rt (ta_confirm q) (ta_sql_statements q)
    \<and> fst (check_rate_limit (ss_rate_limit (sr_config rt)) (actor_cache_key actor) (sr_now rt) (ss_limiters s))
    \<and> entitled rt (ss_store s') actor rq \<and> sq_user_id rq = actor_cache_key actor \<and> \<not> user_disabled (ss_store s) actor
    \<and> (sq_permission rq = PERM_READONLY \<longrightarrow> list_all (is_readonly_sql (sr_parser rt)) (ta_sql_statements q))"
proof -
  let ?stmts = "ta_sql_statements q" and ?risks = "map (classify_sql_risk (sr_parser rt) (sr_config rt)) (ta_sql_statements q)"
  have args: "\<not> user_disabled (ss_store s) actor" "?stmts \<noteq> []" "list_all (has_sql_statement (sr_parser rt)) ?stmts"
      "\<not> list_ex (has_multiple_statements (sr_parser rt)) ?stmts"
    using assms by (auto simp: decide_transaction_def split: if_splits)
  obtain limiters where lim: "check_rate_limit (ss_rate_limit (sr_config rt)) (actor_cache_key actor) (sr_now rt) (ss_limiters s) = (True, limiters)"
    using assms args by (auto simp: decide_transaction_def split: prod.splits bool.splits)
  have risk: "BLOCKED \<notin> set ?risks" "DESTRUCTIVE \<in> set ?risks \<longrightarrow> ta_confirm q"
    using assms args lim by (auto simp: decide_transaction_def Let_def split: if_splits)
  obtain t st v where t: "resolve_sql_target rt actor (ta_instance_id q) (ta_database q) (ss_store s, ss_remote s) = (Inr t, st, v)"
      "request_for rt actor 1000 0 None ?stmts t = Send rq" "ss_store s' = st"
    using assms args lim risk by (auto simp: decide_transaction_def Let_def split: prod.splits sum.splits)
  have "passes_policy rt (ta_confirm q) ?stmts"
    using args risk by (force simp: passes_policy_def list_all_iff list_ex_iff)
  then show ?thesis using request_for_Send [OF t(2) resolve_sql_target_found [OF t(1)]] args lim t(3) by simp
qed



section \<open>Connections of different callers\<close>

text \<open>The request to the cache.\<close>

definition cache_request_of :: "sql_request \<Rightarrow> conn_request" where
  "cache_request_of rq = \<lparr>rq_user_id = sq_user_id rq, rq_instance_id = sq_instance_id rq, rq_host = sq_host rq, rq_port = sq_port rq,
     rq_user = sq_user rq, rq_password = sq_password rq, rq_database = sq_database rq\<rparr>"

text \<open>Identifiers have no colon (they are UUIDs).\<close>

fun plain_actor :: "sql_actor \<Rightarrow> bool" where
  "plain_actor (ActUser u) = (CHR '':'' \<notin> set u)"
| "plain_actor (ActAgent a) = (CHR '':'' \<notin> set a)"
| "plain_actor (ActWorkspace u a) = (CHR '':'' \<notin> set u \<and> CHR '':'' \<notin> set a)"

lemma colon_split:
  assumes "u @ CHR '':'' # x = u' @ CHR '':'' # x'" and "CHR '':'' \<notin> set u" and "CHR '':'' \<notin> set u'"
  shows "u = u' \<and> x = x'"
proof -
  have "takeWhile (\<lambda>c. c \<noteq> CHR '':'') (w @ CHR '':'' # y) = w" if "CHR '':'' \<notin> set w" for w y
    using that by (subst takeWhile_append2) (auto simp: takeWhile_tail)
  then show ?thesis using assms by (metis append_same_eq same_append_eq list.inject)
qed

lemma actor_cache_key_inj:
  assumes "plain_actor x" and "plain_actor y" and "actor_cache_key x = actor_cache_key y"
  shows "x = y"
proof (cases x; cases y)
  fix u a u' a'
  assume "x = ActWorkspace u a" "y = ActWorkspace u' a'"
  then show "x = y" using assms colon_split [of u "''agent:'' @ a" u' "''agent:'' @ a'"] by auto
qed (use assms in auto)

text \<open>C16: callers do not share connections. Two requests that the tools hand to the gateway use the
  same entry of the connection cache only if they come from the same user, agent or user in the same
  agent's workspace, and go to the same instance or resource.\<close>

theorem callers_do_not_share_connections:
  assumes "decide_run_sql rt x q s = (Send rq, s')" and "decide_run_sql rt' y q' t = (Send rq', t')"
    and "plain_actor x" and "plain_actor y" and "rq_key (cache_request_of rq) = rq_key (cache_request_of rq')"
  shows "x = y \<and> sq_instance_id rq = sq_instance_id rq'"
proof -
  have "sq_user_id rq = actor_cache_key x"
    using assms(1) by (auto simp: decide_run_sql_def request_for_def Let_def
        split: option.splits prod.splits bool.splits if_splits sum.splits)
  moreover have "sq_user_id rq' = actor_cache_key y"
    using assms(2) by (auto simp: decide_run_sql_def request_for_def Let_def
        split: option.splits prod.splits bool.splits if_splits sum.splits)
  ultimately show ?thesis using assms(3-5) actor_cache_key_inj by (auto simp: rq_key_def cache_request_of_def)
qed


section \<open>Deleted resources\<close>

lemma deleted_resource_not_accessible:
  assumes "delete_db_instance_resource cfg now a i hook db = Inr (r', db')" and "get_resource db i = Some r"
    and "deletable_status (r_status r)" and "ia_meta st = db'"
  shows "\<exists>e. resolve_provisioned_access st ag i want = Inl e"
proof -
  obtain r1 db1 where d: "r' = mark_deleting now r1" "db' = put_resource i (\<lambda>_. r') db1" using delete_InrD [OF assms(1-3)] by metis
  have "x = r'" if "x \<in> set (resources db')" "r_id x = i" for x
    using d(2) that by (auto simp: tupd_def split: if_splits)
  moreover have "resource_status_error (r_status r') \<noteq> None" by (simp add: d(1) resource_status_error_def)
  ultimately show ?thesis
    unfolding resolve_provisioned_access_def Let_def assms(4)
    by (auto split: option.splits simp: find_Some_iff bind_eq_Some_conv) (metis nth_mem option.distinct(1))+
qed

text \<open>C14: a resource takes no statements once its deletion was accepted. On the database that the
  delete request leaves, neither tool hands anything to the gateway for that resource, whichever agent
  or workspace user asks and whatever the arguments are.\<close>

theorem deleted_resource_takes_no_sql:
  assumes "delete_db_instance_resource cfg now a i hook db = Inr (r', db')" and "get_resource db i = Some r"
    and "deletable_status (r_status r)" and "take 4 i = ''dbi-''" and "ia_meta (ss_store s) = db'" and "is_agent_actor actor"
  shows "(ra_instance_id q = Some i \<longrightarrow> (\<forall>rq s'. decide_run_sql rt actor q s \<noteq> (Send rq, s')))
    \<and> (ta_instance_id x = Some i \<longrightarrow> (\<forall>rq s'. decide_transaction rt actor x s \<noteq> (Send rq, s')))"
proof -
  have "\<exists>e. resolve_sql_target rt actor (Some i) want (ss_store s, v) = (Inl e, ss_store s, v)" for want v
  proof -
    obtain e where "resolve_provisioned_access (ss_store s) (resource_agent actor) i want = Inl e"
      using deleted_resource_not_accessible [OF assms(1-3,5)] by blast
    moreover have "i \<noteq> []" using assms(4) by auto
    ultimately show ?thesis using assms(4,6) by (simp add: resolve_sql_target_def resolve_agent_sql_access_def)
  qed
  then have refused: "resolve_sql_target rt actor (Some i) want (ss_store s, v) \<noteq> (Inr t, y)" for want v t y
    by (metis Inl_Inr_False prod.inject)
  show ?thesis
  proof (intro conjI impI allI notI, goal_cases)
    case (1 rq s')
    then show ?case using refused
      by (auto simp: decide_run_sql_def Let_def split: option.splits prod.splits bool.splits if_splits sum.splits)
  next
    case (2 rq s')
    then show ?case using refused
      by (auto simp: decide_transaction_def Let_def split: prod.splits bool.splits if_splits sum.splits)
  qed
qed


section \<open>Concrete requests\<close>

definition example_sql_runtime :: "string list sql_runtime" where
  "example_sql_runtime = \<lparr>sr_parser = plain_parser, sr_config = default_sql_security, sr_now = 0, sr_accounts = example_account_lib,
     sr_tenants = example_tenant_lib record_exec ''9'' ''pw'', sr_env = (\<lambda>_ s. s), sr_decrypt = (\<lambda>s. s)\<rparr>"

definition example_sql_state :: "access_store \<Rightarrow> string list sql_state" where
  "example_sql_state st = \<lparr>ss_store = st, ss_limiters = [], ss_remote = []\<rparr>"

definition example_sql_args :: "string \<Rightarrow> run_sql_args" where
  "example_sql_args i = \<lparr>ra_sql = ''Q'', ra_instance_id = Some i, ra_database = None, ra_branch = None, ra_max_rows = 5, ra_cursor = None,
     ra_confirm = False\<rparr>"

definition example_transaction_args :: "string \<Rightarrow> transaction_args" where
  "example_transaction_args i = \<lparr>ta_sql_statements = [''Q'', ''Q''], ta_instance_id = Some i, ta_database = None, ta_confirm = False\<rparr>"

lemma plain_statement:
  "has_sql_statement plain_parser ''Q''" "\<not> has_multiple_statements plain_parser ''Q''"
  "classify_sql_risk plain_parser default_sql_security ''Q'' = SAFE" "is_readonly_sql plain_parser ''Q''"
  by code_simp+

lemma first_request_admitted:
  "\<exists>l. check_rate_limit (ss_rate_limit default_sql_security) key 0 [] = (True, l)"
  by (simp add: check_rate_limit_def default_sql_security_def refilled_def Let_def)

lemma example_agent_access:
  "resolve_agent_sql_access access_example ''ag'' (Some ''inst'') None = Inr \<lparr>sa_public_instance_id = ''inst'', sa_source = ''bound'',
     sa_instance = access_instance, sa_credential = access_credential, sa_permission = PERM_READWRITE, sa_database = Some ''d''\<rparr>"
  by (simp add: resolve_agent_sql_access_def resolve_agent_instance_access_def agent_binding_of_def instance_row_of_def
      credential_row_of_def write_closure effective_permission_def is_valid_direct_access_credential_def filled_def access_example_defs)

lemma example_sent:
  assumes "actor \<in> {ActAgent ''ag'', ActWorkspace ''u'' ''ag''}"
  shows "\<exists>rq s'. decide_run_sql example_sql_runtime actor (example_sql_args ''inst'') (example_sql_state access_example) = (Send rq, s')"
    and "\<exists>rq s'. decide_transaction example_sql_runtime actor (example_transaction_args ''inst'') (example_sql_state access_example) = (Send rq, s')"
proof -
  obtain l where l: "check_rate_limit (ss_rate_limit default_sql_security) (actor_cache_key actor) 0 [] = (True, l)"
    using first_request_admitted by blast
  have a: "is_agent_actor actor" "resource_agent actor = ''ag''" using assms by auto
  note bits = run_sql_arguments_def user_disabled_def example_sql_runtime_def example_sql_args_def example_transaction_args_def
    example_sql_state_def plain_statement resolve_sql_target_def example_agent_access request_for_def access_instance_def access_credential_def
  show "\<exists>rq s'. decide_run_sql example_sql_runtime actor (example_sql_args ''inst'') (example_sql_state access_example) = (Send rq, s')"
    using l a by (simp add: decide_run_sql_def bits)
  show "\<exists>rq s'. decide_transaction example_sql_runtime actor (example_transaction_args ''inst'') (example_sql_state access_example) = (Send rq, s')"
    using l a by (simp add: decide_transaction_def bits)
qed

theorem sent_statement_is_authorized_witness:
  "\<exists>rq s'. decide_run_sql example_sql_runtime (ActAgent ''ag'') (example_sql_args ''inst'') (example_sql_state access_example) = (Send rq, s')
    \<and> entitled example_sql_runtime (ss_store s') (ActAgent ''ag'') rq \<and> sq_max_rows rq \<le> 1000"
proof -
  obtain rq s' where d: "decide_run_sql example_sql_runtime (ActAgent ''ag'') (example_sql_args ''inst'') (example_sql_state access_example) = (Send rq, s')"
    using example_sent(1) [of "ActAgent ''ag''"] by blast
  have "ss_max_rows (sr_config example_sql_runtime) = 1000" by (simp add: example_sql_runtime_def default_sql_security_def)
  then show ?thesis using sent_statement_is_authorized [OF d] d by auto
qed

theorem sent_transaction_is_authorized_witness:
  "\<exists>rq s'. decide_transaction example_sql_runtime (ActAgent ''ag'') (example_transaction_args ''inst'') (example_sql_state access_example) = (Send rq, s')
    \<and> entitled example_sql_runtime (ss_store s') (ActAgent ''ag'') rq"
proof -
  obtain rq s' where d: "decide_transaction example_sql_runtime (ActAgent ''ag'') (example_transaction_args ''inst'') (example_sql_state access_example)
      = (Send rq, s')" using example_sent(2) [of "ActAgent ''ag''"] by blast
  then show ?thesis using sent_transaction_is_authorized [OF d] by blast
qed

theorem callers_do_not_share_connections_witness:
  "\<exists>rq s' rq' t'. decide_run_sql example_sql_runtime (ActAgent ''ag'') (example_sql_args ''inst'') (example_sql_state access_example) = (Send rq, s')
    \<and> decide_run_sql example_sql_runtime (ActWorkspace ''u'' ''ag'') (example_sql_args ''inst'') (example_sql_state access_example) = (Send rq', t')
    \<and> rq_key (cache_request_of rq) \<noteq> rq_key (cache_request_of rq')"
proof -
  obtain rq s' rq' t' where d:
    "decide_run_sql example_sql_runtime (ActAgent ''ag'') (example_sql_args ''inst'') (example_sql_state access_example) = (Send rq, s')"
    "decide_run_sql example_sql_runtime (ActWorkspace ''u'' ''ag'') (example_sql_args ''inst'') (example_sql_state access_example) = (Send rq', t')"
    using example_sent(1) [of "ActAgent ''ag''"] example_sent(1) [of "ActWorkspace ''u'' ''ag''"] by blast
  have "rq_key (cache_request_of rq) \<noteq> rq_key (cache_request_of rq')"
    using callers_do_not_share_connections [OF d] by auto
  then show ?thesis using d by blast
qed

theorem deleted_resource_takes_no_sql_witness:
  "\<exists>r' db'. delete_db_instance_resource default_config 5 ''ag'' ''dbi-1'' None
      (example_db\<lparr>resources := [(example_build ''be'')\<lparr>r_id := ''dbi-1''\<rparr>]\<rparr>) = Inr (r', db')
    \<and> (\<forall>rq s'. decide_run_sql example_sql_runtime (ActAgent ''ag'') (example_sql_args ''dbi-1'')
         (example_sql_state (access_example\<lparr>ia_meta := db'\<rparr>)) \<noteq> (Send rq, s'))"
proof -
  let ?db = "example_db\<lparr>resources := [(example_build ''be'')\<lparr>r_id := ''dbi-1''\<rparr>]\<rparr>"
  obtain r' db' where d: "delete_db_instance_resource default_config 5 ''ag'' ''dbi-1'' None ?db = Inr (r', db')"
    by (simp add: delete_db_instance_resource_def example_build_def new_resource_def
        deletable_status_def example_defs record_delete_request_def default_config_def
        effective_delete_cooldown_hours_def retire_member_def run_hook_def backend_pool_def Let_def)
  have g: "get_resource ?db ''dbi-1'' = Some ((example_build ''be'')\<lparr>r_id := ''dbi-1''\<rparr>)" by simp
  have s: "deletable_status (r_status ((example_build ''be'')\<lparr>r_id := ''dbi-1''\<rparr>))"
    by (simp add: example_build_def new_resource_def deletable_status_def)
  show ?thesis
    using deleted_resource_takes_no_sql [OF d g s, of "example_sql_state (access_example\<lparr>ia_meta := db'\<rparr>)" "ActAgent ''ag''"
        "example_sql_args ''dbi-1''"] d by (auto simp: example_sql_state_def example_sql_args_def)
qed

end
