(* ===== verification/Super_Pool.thy ===== *)
theory Super_Pool
  imports Adapter
begin

text \<open>
  The pools of administrator connections (\<open>server/core/super_connection_pool.py\<close>): one pool per
  provisioning backend, fenced by the backend's configuration revision and by the version of its
  administrator credential.

  Every public operation holds the manager's lock over its awaits, so a call is one step. What the
  driver does (opening a pool, closing one) and decryption are the parameter \<open>pool_env\<close> of a call,
  which may answer differently in every call. Besides the fields of the class the state counts the
  pools opened so far and keeps the ones that were opened and whose closing has not returned.
\<close>

section \<open>The manager\<close>

text \<open>The columns of \<open>ProvisioningBackend\<close> that only the administrator connection reads.\<close>

record provisioning_backend = backend +
  b_resource_min_cpu :: int
  b_resource_max_cpu :: int
  b_ddl_concurrency :: int
  b_config_revision :: int

definition validate_provisioning_credential ::
    "provisioning_backend \<Rightarrow> instance_row \<Rightarrow> credential \<Rightarrow> py_error + unit" where
  "validate_provisioning_credential b i c =
     (if b_instance_id b \<noteq> Some (i_id i) \<or> b_admin_credential_id b \<noteq> Some (c_id c)
         \<or> c_instance_id c \<noteq> Some (i_id i) \<or> c_resource_id c \<noteq> None
         \<or> c_purpose c \<noteq> PROVISIONING_ADMIN \<or> c_capability c \<noteq> CC_ADMIN
         \<or> c_status c \<noteq> CRED_ACTIVE \<or> c_version c < 1 \<or> b_config_revision b < 1
         \<or> empty_text (c_username_ciphertext c) \<or> empty_text (c_password_ciphertext c)
      then Inl (OtherError ''InvalidProvisioningCredential'')
      else if empty_text (i_host i) \<or> i_port i = None \<or> i_port i = Some 0
      then Inl (OtherError ''InvalidProvisioningCredential'')
      else Inr ())"

record pool_key =
  pk_backend :: string
  pk_revision :: int
  pk_credential :: string
  pk_version :: int
  pk_host :: string
  pk_port :: int
  pk_concurrency :: int

record super_pool =
  su_number :: nat
  su_host :: string
  su_port :: int
  su_user :: string
  su_password :: string
  su_maxsize :: int

type_synonym pool_structure = "string \<times> string \<times> int \<times> int"

record super_pools =
  sp_pools :: "(pool_key \<times> super_pool) list"
  sp_versions :: "string \<times> string \<rightharpoonup> int"
  sp_revisions :: "string \<rightharpoonup> int"
  sp_structures :: "string \<rightharpoonup> pool_structure"
  sp_opened :: nat
  sp_unclosed :: "super_pool list"

definition no_super_pools :: super_pools where
  "no_super_pools = \<lparr>sp_pools = [], sp_versions = Map.empty, sp_revisions = Map.empty,
     sp_structures = Map.empty, sp_opened = 0, sp_unclosed = []\<rparr>"

definition pool_count :: "super_pools \<Rightarrow> nat" where
  "pool_count s = length (sp_pools s)"

record pool_env =
  pe_decrypt :: "string \<Rightarrow> py_error + string"
  pe_create :: "super_pool \<Rightarrow> py_error + unit"
  pe_close :: "super_pool \<Rightarrow> py_error + unit"

definition key_of :: "provisioning_backend \<Rightarrow> instance_row \<Rightarrow> credential \<Rightarrow> pool_key" where
  "key_of b i c = \<lparr>pk_backend = b_id b, pk_revision = b_config_revision b, pk_credential = c_id c,
     pk_version = c_version c, pk_host = the (i_host i), pk_port = the (i_port i),
     pk_concurrency = b_ddl_concurrency b\<rparr>"

definition structure_of :: "pool_key \<Rightarrow> pool_structure" where
  "structure_of k = (pk_credential k, pk_host k, pk_port k, pk_concurrency k)"

text \<open>\<open>_close_pool\<close>: a pool whose closing raises is not known to be closed.\<close>

definition close_pool :: "pool_env \<Rightarrow> super_pool \<Rightarrow> super_pools \<Rightarrow> (py_error + unit) \<times> super_pools" where
  "close_pool env p s =
     (case pe_close env p of
        Inl e \<Rightarrow> (Inl e, s)
      | Inr _ \<Rightarrow> (Inr (), s\<lparr>sp_unclosed := removeAll p (sp_unclosed s)\<rparr>))"

text \<open>The loop that pops a pool and closes it.\<close>

fun pop_and_close :: "pool_env \<Rightarrow> pool_key list \<Rightarrow> super_pools \<Rightarrow> (py_error + unit) \<times> super_pools" where
  "pop_and_close env [] s = (Inr (), s)"
| "pop_and_close env (k # ks) s =
     (case map_of (sp_pools s) k of
        None \<Rightarrow> (Inl KeyError, s)
      | Some p \<Rightarrow>
          (case close_pool env p (s\<lparr>sp_pools := filter (\<lambda>e. fst e \<noteq> k) (sp_pools s)\<rparr>) of
             (Inl e, s1) \<Rightarrow> (Inl e, s1)
           | (Inr _, s1) \<Rightarrow> pop_and_close env ks s1))"

definition open_pool ::
    "pool_env \<Rightarrow> pool_key \<Rightarrow> credential \<Rightarrow> super_pools \<Rightarrow> (py_error + super_pool) \<times> super_pools" where
  "open_pool env k c s =
     (case bindE (pe_decrypt env (the (c_username_ciphertext c))) (\<lambda>user.
           bindE (pe_decrypt env (the (c_password_ciphertext c))) (\<lambda>password.
           let p = \<lparr>su_number = sp_opened s, su_host = pk_host k, su_port = pk_port k,
                    su_user = user, su_password = password, su_maxsize = pk_concurrency k\<rparr>
           in bindE (pe_create env p) (\<lambda>_. Inr p))) of
        Inl e \<Rightarrow> (Inl e, s)
      | Inr p \<Rightarrow> (Inr p, s\<lparr>sp_pools := sp_pools s @ [(k, p)],
            sp_versions := (sp_versions s)((pk_backend k, pk_credential k) \<mapsto> pk_version k),
            sp_opened := Suc (sp_opened s), sp_unclosed := p # sp_unclosed s\<rparr>))"

definition stale_backend :: py_error where
  "stale_backend = OtherError ''StaleProvisioningBackend''"

definition stale_credential :: py_error where
  "stale_credential = OtherError ''StaleProvisioningCredential''"

text \<open>The three checks of \<open>get\<close> under the lock.\<close>

definition fence :: "pool_key \<Rightarrow> super_pools \<Rightarrow> py_error + unit" where
  "fence k s =
     (let current = sp_revisions s (pk_backend k); known = sp_structures s (pk_backend k);
          version = sp_versions s (pk_backend k, pk_credential k)
      in if current \<noteq> None \<and> pk_revision k < the current then Inl stale_backend
         else if current = Some (pk_revision k) \<and> known \<noteq> None \<and> structure_of k \<noteq> the known
         then Inl stale_backend
         else if version \<noteq> None \<and> pk_version k < the version then Inl stale_credential
         else Inr ())"

definition advance_watermark :: "pool_key \<Rightarrow> super_pools \<Rightarrow> super_pools" where
  "advance_watermark k s =
     (if sp_revisions s (pk_backend k) = None \<or> the (sp_revisions s (pk_backend k)) < pk_revision k
      then s\<lparr>sp_revisions := (sp_revisions s)(pk_backend k \<mapsto> pk_revision k),
             sp_structures := (sp_structures s)(pk_backend k \<mapsto> structure_of k)\<rparr>
      else s)"

definition stale_keys :: "pool_key \<Rightarrow> super_pools \<Rightarrow> pool_key list" where
  "stale_keys k s =
     filter (\<lambda>k'. pk_backend k' = pk_backend k \<and> k' \<noteq> k) (map fst (sp_pools s))"

definition pool_get ::
    "pool_env \<Rightarrow> provisioning_backend \<Rightarrow> instance_row \<Rightarrow> credential \<Rightarrow> super_pools
     \<Rightarrow> (py_error + super_pool) \<times> super_pools" where
  "pool_get env b i c s =
     (case validate_provisioning_credential b i c of
        Inl e \<Rightarrow> (Inl e, s)
      | Inr _ \<Rightarrow>
          let k = key_of b i c in
          case fence k s of
            Inl e \<Rightarrow> (Inl e, s)
          | Inr _ \<Rightarrow>
              (case map_of (sp_pools s) k of
                 Some p \<Rightarrow> (Inr p, s)
               | None \<Rightarrow>
                   let s1 = advance_watermark k s in
                   (case pop_and_close env (stale_keys k s1) s1 of
                      (Inl e, s2) \<Rightarrow> (Inl e, s2)
                    | (Inr _, s2) \<Rightarrow> open_pool env k c s2)))"

definition close_backend :: "pool_env \<Rightarrow> string \<Rightarrow> super_pools \<Rightarrow> (py_error + unit) \<times> super_pools" where
  "close_backend env backend_id s =
     pop_and_close env (filter (\<lambda>k. pk_backend k = backend_id) (map fst (sp_pools s))) s"

text \<open>\<open>close_all\<close> clears the dictionary first and then closes what was in it.\<close>

fun close_each :: "pool_env \<Rightarrow> super_pool list \<Rightarrow> super_pools \<Rightarrow> (py_error + unit) \<times> super_pools" where
  "close_each env [] s = (Inr (), s)"
| "close_each env (p # ps) s =
     (case close_pool env p s of
        (Inl e, s1) \<Rightarrow> (Inl e, s1)
      | (Inr _, s1) \<Rightarrow> close_each env ps s1)"

definition close_all_pools :: "pool_env \<Rightarrow> super_pools \<Rightarrow> (py_error + unit) \<times> super_pools" where
  "close_all_pools env s = close_each env (map snd (sp_pools s)) (s\<lparr>sp_pools := []\<rparr>)"

section \<open>Histories\<close>

text \<open>What other tasks of the process may call, in any order and with any environment.\<close>

inductive pools_step :: "super_pools \<Rightarrow> super_pools \<Rightarrow> bool" where
  step_get: "pools_step s (snd (pool_get env b i c s))"
| step_close_backend: "pools_step s (snd (close_backend env backend_id s))"
| step_close_all: "pools_step s (snd (close_all_pools env s))"

abbreviation pools_later :: "super_pools \<Rightarrow> super_pools \<Rightarrow> bool" where
  "pools_later \<equiv> pools_step\<^sup>*\<^sup>*"

section \<open>The invariant\<close>

definition pool_fits :: "super_pools \<Rightarrow> pool_key \<Rightarrow> super_pool \<Rightarrow> bool" where
  "pool_fits s k p \<longleftrightarrow>
     sp_revisions s (pk_backend k) = Some (pk_revision k)
   \<and> sp_structures s (pk_backend k) = Some (structure_of k)
   \<and> sp_versions s (pk_backend k, pk_credential k) = Some (pk_version k)
   \<and> su_host p = pk_host k \<and> su_port p = pk_port k \<and> su_maxsize p = pk_concurrency k
   \<and> p \<in> set (sp_unclosed s) \<and> su_number p < sp_opened s"

definition pools_inv :: "super_pools \<Rightarrow> bool" where
  "pools_inv s \<longleftrightarrow>
     (\<forall>e \<in> set (sp_pools s). pool_fits s (fst e) (snd e))
   \<and> distinct (map (\<lambda>e. pk_backend (fst e)) (sp_pools s))
   \<and> distinct (map (\<lambda>e. su_number (snd e)) (sp_pools s))
   \<and> dom (sp_structures s) = dom (sp_revisions s)"

lemma distinct_map_filter: "distinct (map f xs) \<Longrightarrow> distinct (map f (filter P xs))"
  by (induction xs) auto

lemma number_unique:
  assumes "distinct (map (\<lambda>e. su_number (snd e)) xs)" "(k, p) \<in> set xs" "(k', p) \<in> set xs"
  shows "k = k'"
  using assms by (induction xs) force+

lemma pools_inv_no [simp]: "pools_inv no_super_pools"
  by (simp add: pools_inv_def no_super_pools_def)

lemma close_pool_same:
  "close_pool env p s = (r, s1) \<Longrightarrow>
     sp_pools s1 = sp_pools s \<and> sp_versions s1 = sp_versions s \<and> sp_revisions s1 = sp_revisions s
     \<and> sp_structures s1 = sp_structures s \<and> sp_opened s1 = sp_opened s
     \<and> set (sp_unclosed s) - {p} \<subseteq> set (sp_unclosed s1) \<and> set (sp_unclosed s1) \<subseteq> set (sp_unclosed s)"
  by (auto simp: close_pool_def split: sum.splits)

lemma popped_inv:
  assumes "pools_inv s" and "map_of (sp_pools s) k = Some p"
    and "close_pool env p (s\<lparr>sp_pools := filter (\<lambda>e. fst e \<noteq> k) (sp_pools s)\<rparr>) = (r, s1)"
  shows "pools_inv s1"
proof -
  have same: "sp_pools s1 = filter (\<lambda>e. fst e \<noteq> k) (sp_pools s)" "sp_versions s1 = sp_versions s"
    "sp_revisions s1 = sp_revisions s" "sp_structures s1 = sp_structures s" "sp_opened s1 = sp_opened s"
    "set (sp_unclosed s) - {p} \<subseteq> set (sp_unclosed s1)"
    using close_pool_same [OF assms(3)] by auto
  have "pool_fits s1 k' p'" if e: "(k', p') \<in> set (sp_pools s)" "k' \<noteq> k" for k' p'
  proof -
    have "p' \<noteq> p"
      using assms(1) number_unique [of "sp_pools s" k' p' k] map_of_SomeD [OF assms(2)] e
      by (auto simp: pools_inv_def)
    then show ?thesis using assms(1) e same by (auto simp: pools_inv_def pool_fits_def)
  qed
  then show ?thesis using assms(1) same by (auto simp: pools_inv_def distinct_map_filter)
qed

lemma pop_and_close_inv: "pools_inv s \<Longrightarrow> pools_inv (snd (pop_and_close env ks s))"
  by (induction env ks s rule: pop_and_close.induct)
    (auto split: option.splits prod.splits sum.splits dest: popped_inv)

lemma pop_and_close_marks:
  "sp_revisions (snd (pop_and_close env ks s)) = sp_revisions s
   \<and> sp_structures (snd (pop_and_close env ks s)) = sp_structures s
   \<and> sp_versions (snd (pop_and_close env ks s)) = sp_versions s"
  by (induction env ks s rule: pop_and_close.induct)
    (auto split: option.splits prod.splits sum.splits dest: close_pool_same)

lemma close_each_marks:
  "sp_revisions (snd (close_each env ps s)) = sp_revisions s
   \<and> sp_structures (snd (close_each env ps s)) = sp_structures s
   \<and> sp_pools (snd (close_each env ps s)) = sp_pools s"
  by (induction env ps s rule: close_each.induct)
    (auto split: prod.splits sum.splits dest: close_pool_same)

lemma close_all_inv: "pools_inv s \<Longrightarrow> pools_inv (snd (close_all_pools env s))"
  by (simp add: close_all_pools_def close_each_marks pools_inv_def)

text \<open>Closing does not look at the watermarks, so advancing them may as well come after it.\<close>

lemma close_pool_advance:
  "close_pool env p (advance_watermark k s) =
     (fst (close_pool env p s), advance_watermark k (snd (close_pool env p s)))"
  by (auto simp: close_pool_def advance_watermark_def split: sum.splits)

lemma advance_pools [simp]: "sp_pools (advance_watermark k s) = sp_pools s"
  "sp_opened (advance_watermark k s) = sp_opened s" "sp_unclosed (advance_watermark k s) = sp_unclosed s"
  "sp_versions (advance_watermark k s) = sp_versions s"
  by (simp_all add: advance_watermark_def)

lemma advance_update:
  "(advance_watermark k s)\<lparr>sp_pools := ps\<rparr> = advance_watermark k (s\<lparr>sp_pools := ps\<rparr>)"
  by (simp add: advance_watermark_def)

lemma pop_and_close_advance:
  "pop_and_close env ks (advance_watermark k s) =
     (fst (pop_and_close env ks s), advance_watermark k (snd (pop_and_close env ks s)))"
  by (induction env ks s rule: pop_and_close.induct)
    (auto simp: advance_update close_pool_advance split: option.splits prod.splits sum.splits)

lemma stale_keys_advance [simp]: "stale_keys k (advance_watermark k' s) = stale_keys k s"
  by (simp add: stale_keys_def)

lemma distinct_unique_filter:
  assumes "distinct (map f xs)" "\<And>x. x \<in> set xs \<Longrightarrow> P x \<Longrightarrow> f x = v"
  shows "filter P xs = [] \<or> (\<exists>x. filter P xs = [x])"
  using assms
proof (induction xs)
  case (Cons x xs)
  show ?case
  proof (cases "P x")
    case True
    then have "filter P xs = []" using Cons.prems by (fastforce simp: filter_empty_conv image_iff)
    with True show ?thesis by simp
  qed (use Cons in auto)
qed simp

text \<open>The stale pools of a backend are one at most, and it is gone even when closing it raises.\<close>

lemma stale_popped:
  assumes "pools_inv s" and "map_of (sp_pools s) k = None"
    and "e \<in> set (sp_pools (snd (pop_and_close env (stale_keys k s) s)))"
  shows "pk_backend (fst e) \<noteq> pk_backend k"
proof -
  have "distinct (map pk_backend (map fst (sp_pools s)))"
    using assms(1) by (simp add: pools_inv_def comp_def)
  from distinct_unique_filter [OF this, of "\<lambda>k'. pk_backend k' = pk_backend k \<and> k' \<noteq> k"]
  consider "stale_keys k s = []" | k1 where "stale_keys k s = [k1]"
    by (auto simp: stale_keys_def)
  then show ?thesis
  proof cases
    case 1
    then show ?thesis using assms(2,3) by (force simp: stale_keys_def filter_empty_conv map_of_eq_None_iff)
  next
    case (2 k1)
    have stale: "set (stale_keys k s) =
        {k' \<in> fst ` set (sp_pools s). pk_backend k' = pk_backend k \<and> k' \<noteq> k}"
      by (auto simp: stale_keys_def)
    with 2 obtain p where p: "map_of (sp_pools s) k1 = Some p"
      by (metis (no_types, lifting) list.set_intros(1) map_of_eq_None_iff mem_Collect_eq option.exhaust)
    then have "fst e \<noteq> k1" "e \<in> set (sp_pools s)"
      using assms(3) 2 by (auto split: prod.splits sum.splits dest: close_pool_same)
    moreover from this(2) assms(2) have "fst e \<noteq> k" by (auto simp: map_of_eq_None_iff)
    ultimately show ?thesis using stale 2 by fastforce
  qed
qed


lemma fence_passed:
  "fence k s = Inr u \<longleftrightarrow>
     (\<forall>r. sp_revisions s (pk_backend k) = Some r \<longrightarrow> r \<le> pk_revision k)
   \<and> (\<forall>st. sp_revisions s (pk_backend k) = Some (pk_revision k) \<longrightarrow>
          sp_structures s (pk_backend k) = Some st \<longrightarrow> st = structure_of k)
   \<and> (\<forall>v. sp_versions s (pk_backend k, pk_credential k) = Some v \<longrightarrow> v \<le> pk_version k)"
  by (cases u) (auto simp: fence_def Let_def not_less)

lemma advanced_marks:
  assumes "pools_inv s" and "fence k s = Inr u"
  shows "sp_revisions (advance_watermark k s) (pk_backend k) = Some (pk_revision k)"
    and "sp_structures (advance_watermark k s) (pk_backend k) = Some (structure_of k)"
proof -
  have "\<exists>st. sp_structures s (pk_backend k) = Some st" if "sp_revisions s (pk_backend k) = Some r" for r
    using assms(1) that unfolding pools_inv_def by (metis domD domI)
  with assms(2) show "sp_revisions (advance_watermark k s) (pk_backend k) = Some (pk_revision k)"
    and "sp_structures (advance_watermark k s) (pk_backend k) = Some (structure_of k)"
    by (fastforce simp: fence_passed advance_watermark_def)+
qed

lemma advance_inv:
  assumes "pools_inv s" and "\<And>e. e \<in> set (sp_pools s) \<Longrightarrow> pk_backend (fst e) \<noteq> pk_backend k"
  shows "pools_inv (advance_watermark k s)"
  using assms by (auto simp: pools_inv_def pool_fits_def advance_watermark_def)

lemma open_pool_inv:
  assumes "pools_inv s" and "\<And>e. e \<in> set (sp_pools s) \<Longrightarrow> pk_backend (fst e) \<noteq> pk_backend k"
    and "sp_revisions s (pk_backend k) = Some (pk_revision k)"
    and "sp_structures s (pk_backend k) = Some (structure_of k)"
  shows "pools_inv (snd (open_pool env k c s))"
  using assms
  by (auto simp: open_pool_def pools_inv_def pool_fits_def bindE_Inr Let_def less_Suc_eq
      split: sum.splits) blast

text \<open>What \<open>get\<close> did when it went past its checks without finding a pool.\<close>

lemma pool_get_opens:
  assumes "validate_provisioning_credential b i c = Inr u" and "fence (key_of b i c) s = Inr v"
    and "map_of (sp_pools s) (key_of b i c) = None"
  shows "pool_get env b i c s =
     (case pop_and_close env (stale_keys (key_of b i c) s) s of
        (Inl e, s2) \<Rightarrow> (Inl e, advance_watermark (key_of b i c) s2)
      | (Inr _, s2) \<Rightarrow> open_pool env (key_of b i c) c (advance_watermark (key_of b i c) s2))"
  using assms
  by (auto simp: pool_get_def Let_def pop_and_close_advance split: prod.splits sum.splits)

lemma fence_pop: "fence k (snd (pop_and_close env ks s)) = fence k s"
  by (simp add: fence_def pop_and_close_marks)

lemma pool_get_cases:
  obtains (refused) e where "validate_provisioning_credential b i c = Inl e \<or>
      fence (key_of b i c) s = Inl e" "pool_get env b i c s = (Inl e, s)"
  | (found) p where "validate_provisioning_credential b i c = Inr ()" "fence (key_of b i c) s = Inr ()"
      "map_of (sp_pools s) (key_of b i c) = Some p" "pool_get env b i c s = (Inr p, s)"
  | (opens) "validate_provisioning_credential b i c = Inr ()" "fence (key_of b i c) s = Inr ()"
      "map_of (sp_pools s) (key_of b i c) = None"
proof (cases "validate_provisioning_credential b i c")
  case (Inl e)
  then show ?thesis by (intro refused [of e]) (auto simp: pool_get_def)
next
  case valid: (Inr u)
  show ?thesis
  proof (cases "fence (key_of b i c) s")
    case (Inl e)
    with valid show ?thesis by (intro refused [of e]) (auto simp: pool_get_def Let_def)
  next
    case (Inr v)
    with valid show ?thesis
      by (cases "map_of (sp_pools s) (key_of b i c)") (auto simp: pool_get_def Let_def intro: found opens)
  qed
qed

lemma pool_get_inv: "pools_inv s \<Longrightarrow> pools_inv (snd (pool_get env b i c s))"
proof (cases rule: pool_get_cases [of b i c s env])
  case opens
  assume inv: "pools_inv s"
  let ?k = "key_of b i c" and ?s2 = "snd (pop_and_close env (stale_keys (key_of b i c) s) s)"
  have "pools_inv ?s2" and gone: "\<And>e. e \<in> set (sp_pools ?s2) \<Longrightarrow> pk_backend (fst e) \<noteq> pk_backend ?k"
    using pop_and_close_inv [OF inv] stale_popped [OF inv opens(3)] by auto
  moreover from this have "pools_inv (advance_watermark ?k ?s2)" by (intro advance_inv)
  ultimately show ?thesis
    using opens inv advanced_marks [of ?s2 ?k "()"] open_pool_inv [of "advance_watermark ?k ?s2" ?k]
    by (auto simp: pool_get_opens fence_pop split: prod.splits sum.splits)
qed auto

lemma pools_step_inv: "pools_step s s' \<Longrightarrow> pools_inv s \<Longrightarrow> pools_inv s'"
  by (auto elim!: pools_step.cases intro: pool_get_inv close_all_inv
      simp: close_backend_def pop_and_close_inv)

lemma pools_later_inv: "pools_later s s' \<Longrightarrow> pools_inv s \<Longrightarrow> pools_inv s'"
  by (induction rule: rtranclp_induct) (auto dest: pools_step_inv)

section \<open>The fences\<close>

text \<open>The revision watermark of a backend only rises.\<close>

lemma open_pool_revisions [simp]: "sp_revisions (snd (open_pool env k c s)) = sp_revisions s"
  by (simp add: open_pool_def split: sum.splits)

lemma pool_get_revisions:
  "sp_revisions (snd (pool_get env b i c s)) =
     (if validate_provisioning_credential b i c = Inr () \<and> fence (key_of b i c) s = Inr ()
         \<and> map_of (sp_pools s) (key_of b i c) = None
      then sp_revisions (advance_watermark (key_of b i c) s) else sp_revisions s)"
proof (cases rule: pool_get_cases [of b i c s env])
  case opens
  have "sp_revisions (advance_watermark k (snd (pop_and_close env ks s))) =
      sp_revisions (advance_watermark k s)" for k ks
    by (simp add: advance_watermark_def pop_and_close_marks)
  with opens show ?thesis
    by (auto simp: pool_get_opens split: prod.splits sum.splits) (metis snd_conv)+
qed auto

lemma pools_step_revision:
  assumes "pools_step s s'" and "sp_revisions s x = Some r"
  shows "\<exists>r'. sp_revisions s' x = Some r' \<and> r \<le> r'"
  using assms
  by (auto elim!: pools_step.cases simp: close_backend_def close_all_pools_def close_each_marks
      pop_and_close_marks pool_get_revisions advance_watermark_def)

lemma pools_later_revision:
  assumes "pools_later s s'" and "sp_revisions s x = Some r"
  shows "\<exists>r'. sp_revisions s' x = Some r' \<and> r \<le> r'"
  using assms by (induction rule: rtranclp_induct) (auto, meson order_trans pools_step_revision)


text \<open>\<open>get\<close> went past its checks: it returned a pool, or raised an error of its own making.\<close>

definition pool_accepted :: "provisioning_backend \<Rightarrow> instance_row \<Rightarrow> credential \<Rightarrow> super_pools \<Rightarrow> bool" where
  "pool_accepted b i c s \<longleftrightarrow>
     validate_provisioning_credential b i c = Inr () \<and> fence (key_of b i c) s = Inr ()"

lemma accepted_revision:
  assumes "pools_inv s" and "pool_accepted b i c s"
  shows "sp_revisions (snd (pool_get env b i c s)) (b_id b) = Some (b_config_revision b)"
proof (cases "map_of (sp_pools s) (key_of b i c)")
  case None
  with assms advanced_marks(1) [OF assms(1), of "key_of b i c"] show ?thesis
    by (simp add: pool_get_revisions pool_accepted_def key_of_def)
next
  case (Some p)
  with assms show ?thesis
    by (auto simp: pool_get_revisions pools_inv_def pool_fits_def key_of_def dest!: map_of_SomeD)
qed

text \<open>C22: an old backend configuration stays fenced. Once a request with some configuration revision
  passed the checks (whether a pool was opened then or the driver failed), every later request of
  that backend with an older revision is refused and changes nothing, whatever was called in
  between: other requests, failed or not, \<open>close_backend\<close> and \<open>close_all\<close>.\<close>

theorem old_revision_stays_fenced:
  assumes "pools_later no_super_pools s" and "pool_accepted b i c s"
    and "pools_later (snd (pool_get env b i c s)) s'"
    and "b_id b' = b_id b" and "b_config_revision b' < b_config_revision b"
    and "validate_provisioning_credential b' i' c' = Inr ()"
  shows "pool_get env' b' i' c' s' = (Inl stale_backend, s')"
proof -
  from accepted_revision [OF pools_later_inv [OF assms(1)] assms(2)] pools_later_revision [OF assms(3)]
  obtain r where "sp_revisions s' (b_id b) = Some r" "b_config_revision b \<le> r" by force
  then have "fence (key_of b' i' c') s' = Inl stale_backend"
    using assms(4,5) by (simp add: fence_def key_of_def)
  then show ?thesis using assms(6) by (simp add: pool_get_def)
qed

text \<open>A pool that was returned once is returned again.\<close>

lemma map_of_distinct_on:
  assumes "distinct (map (\<lambda>e. f (fst e)) xs)" and "(k, p) \<in> set xs"
  shows "map_of xs k = Some p"
  using assms by (induction xs) force+

lemma pool_get_held:
  assumes "pool_get env b i c s = (Inr p, s')"
  shows "validate_provisioning_credential b i c = Inr ()" and "(key_of b i c, p) \<in> set (sp_pools s')"
  using assms
  by (cases rule: pool_get_cases [of b i c s env];
      auto simp: pool_get_opens open_pool_def Let_def bindE_Inr split: prod.splits sum.splits
        dest: map_of_SomeD)+

lemma pool_get_again:
  assumes "pools_inv s" and "pool_get env b i c s = (Inr p, s')"
  shows "pool_get env' b i c s' = (Inr p, s')"
proof -
  let ?k = "key_of b i c"
  have inv: "pools_inv s'" using pool_get_inv [OF assms(1), of env b i c] assms(2) by simp
  note held = pool_get_held [OF assms(2)]
  have "pool_fits s' ?k p" using inv held(2) by (force simp: pools_inv_def)
  then have "fence ?k s' = Inr ()" by (simp add: pool_fits_def fence_passed)
  moreover have "map_of (sp_pools s') ?k = Some p"
    using inv held(2) by (intro map_of_distinct_on [of pk_backend]) (auto simp: pools_inv_def)
  ultimately show ?thesis using held(1) by (simp add: pool_get_def Let_def)
qed

definition example_pb :: "int \<Rightarrow> provisioning_backend" where
  "example_pb revision = backend.extend example_backend
     \<lparr>b_resource_min_cpu = 0, b_resource_max_cpu = 2, b_ddl_concurrency = 4,
      b_config_revision = revision\<rparr>"

definition example_admin :: "int \<Rightarrow> credential" where
  "example_admin version = (hd (credentials example_db))\<lparr>c_version := version\<rparr>"

definition working_env :: pool_env where
  "working_env = \<lparr>pe_decrypt = Inr, pe_create = (\<lambda>_. Inr ()), pe_close = (\<lambda>_. Inr ())\<rparr>"

definition refusing_env :: pool_env where
  "refusing_env = working_env\<lparr>pe_create := (\<lambda>_. Inl (OtherError ''OperationalError''))\<rparr>"

abbreviation example_get :: "pool_env \<Rightarrow> int \<Rightarrow> int \<Rightarrow> super_pools \<Rightarrow> (py_error + super_pool) \<times> super_pools" where
  "example_get env revision version \<equiv>
     pool_get env (example_pb revision) (hd (instances example_db)) (example_admin version)"

lemmas example_pool_defs = example_pb_def example_admin_def working_env_def refusing_env_def
  pool_get_def validate_provisioning_credential_def key_of_def fence_def structure_of_def
  advance_watermark_def stale_keys_def open_pool_def close_pool_def no_super_pools_def empty_text_def
  backend.defs stale_backend_def stale_credential_def

lemma example_valid:
  "1 \<le> r \<Longrightarrow> 1 \<le> v \<Longrightarrow>
   validate_provisioning_credential (example_pb r) (hd (instances example_db)) (example_admin v) = Inr ()"
  by (simp add: example_pool_defs example_defs)

theorem old_revision_stays_fenced_witness:
  "example_get working_env 1 1 (snd (example_get refusing_env 2 1 (snd (example_get working_env 1 1 no_super_pools)))) =
     (Inl stale_backend, snd (example_get refusing_env 2 1 (snd (example_get working_env 1 1 no_super_pools))))"
proof (rule old_revision_stays_fenced [where s = "snd (example_get working_env 1 1 no_super_pools)"
      and env = refusing_env and b = "example_pb 2" and i = "hd (instances example_db)" and c = "example_admin 1"])
  show "pools_later no_super_pools (snd (example_get working_env 1 1 no_super_pools))"
    by (intro r_into_rtranclp step_get)
  show "pool_accepted (example_pb 2) (hd (instances example_db)) (example_admin 1)
      (snd (example_get working_env 1 1 no_super_pools))"
    unfolding pool_accepted_def by (simp add: example_pool_defs example_defs)
  show "b_id (example_pb 1) = b_id (example_pb 2)" "b_config_revision (example_pb 1) < b_config_revision (example_pb 2)"
    by (simp_all add: example_pb_def backend.defs)
qed (simp_all add: example_valid)

text \<open>one pool per backend. In every history that starts with no pool, the pool that \<open>get\<close> returns
  is the only one the manager holds for that backend, it has not been closed, it was opened for
  the host, port and size of the request, and the watermarks are those of the request.\<close>

theorem one_pool_per_backend:
  assumes "pools_later no_super_pools s" and "pool_get env b i c s = (Inr p, s')"
  shows "filter (\<lambda>e. pk_backend (fst e) = b_id b) (sp_pools s') = [(key_of b i c, p)]
    \<and> Some (su_host p) = i_host i \<and> Some (su_port p) = i_port i \<and> su_maxsize p = b_ddl_concurrency b
    \<and> p \<in> set (sp_unclosed s')
    \<and> sp_revisions s' (b_id b) = Some (b_config_revision b)
    \<and> sp_versions s' (b_id b, c_id c) = Some (c_version c)"
proof -
  let ?k = "key_of b i c"
  have inv: "pools_inv s'"
    using pool_get_inv [OF pools_later_inv [OF assms(1)], of env b i c] assms(2) by simp
  note valid = pool_get_held(1) [OF assms(2)] and held = pool_get_held(2) [OF assms(2)]
  have "(?k, p) \<in> set (filter (\<lambda>e. pk_backend (fst e) = b_id b) (sp_pools s'))"
    using held by (simp add: key_of_def)
  moreover have "distinct (map (\<lambda>e. pk_backend (fst e)) (sp_pools s'))" using inv by (simp add: pools_inv_def)
  ultimately have "filter (\<lambda>e. pk_backend (fst e) = b_id b) (sp_pools s') = [(?k, p)]"
    using distinct_unique_filter [of "\<lambda>e. pk_backend (fst e)" "sp_pools s'"
        "\<lambda>e. pk_backend (fst e) = b_id b" "b_id b"]
    by (metis (no_types, lifting) empty_iff empty_set set_ConsD)
  moreover have "pool_fits s' ?k p" using inv held by (force simp: pools_inv_def)
  ultimately show ?thesis
    using valid by (auto simp: pool_fits_def key_of_def validate_provisioning_credential_def
      empty_text_def split: if_splits)
qed


definition example_super_pool :: super_pool where
  "example_super_pool = snd (hd (sp_pools (snd (example_get working_env 1 1 no_super_pools))))"

theorem one_pool_per_backend_witness:
  "sp_revisions (snd (example_get working_env 1 1 no_super_pools)) ''be'' = Some 1
   \<and> example_super_pool \<in> set (sp_unclosed (snd (example_get working_env 1 1 no_super_pools)))"
proof -
  have "example_get working_env 1 1 no_super_pools =
      (Inr example_super_pool, snd (example_get working_env 1 1 no_super_pools))"
    unfolding example_super_pool_def by (simp add: example_pool_defs example_defs)
  from one_pool_per_backend [OF rtranclp.rtrancl_refl this] show ?thesis
    by (simp add: example_pb_def backend.defs example_backend_def)
qed

text \<open>the version of the credential is not fenced like the revision. A request with version 2 of the
  credential closes the pool of version 1; when the driver then fails to open the new pool, a late
  request that still carries version 1 is served and opens a pool again with the old credential.\<close>

theorem failed_rotation_leaves_old_version:
  "(case snd (example_get refusing_env 1 2 (snd (example_get working_env 1 1 no_super_pools))) of s \<Rightarrow>
      sp_pools s = [] \<and> isl (fst (example_get refusing_env 1 2 (snd (example_get working_env 1 1 no_super_pools))))
      \<and> (\<exists>p. fst (example_get working_env 1 1 s) = Inr p)
      \<and> fst (example_get working_env 1 1 (snd (example_get working_env 1 2 s))) = Inl stale_credential)"
  by (simp add: example_pool_defs example_defs)

end
