(* ===== verification/Multitenant_DDL.thy ===== *)
theory Multitenant_DDL
  imports Super_Pool Dedicated_MySQL
begin

text \<open>
  The administrative statements on a shared cluster (\<open>server/core/multitenant_ddl.py\<close>): names that
  may appear in a statement, the statements, and the operations that create, verify, lock and drop
  the resource configuration, tenant, account and database of a resource.

  An operation acts on the pools of administrator connections and on the server. The server with
  its driver is a parameter: what taking a connection and a ping answer, and what a statement
  answers, each with the state afterwards. A driver error has MySQL's error number; all others
  have none, as \<open>mysql_error_code\<close> reads \<open>args[0]\<close>.
\<close>

section \<open>Names and statements\<close>

datatype ddl_error = Raised py_error | MySQLError int

fun mysql_error_code :: "ddl_error \<Rightarrow> int option" where
  "mysql_error_code (MySQLError n) = Some n"
| "mysql_error_code (Raised e) = None"

abbreviation invalid_identifier :: ddl_error where
  "invalid_identifier \<equiv> Raised (OtherError ''InvalidDatabaseIdentifier'')"

abbreviation verification_error :: ddl_error where
  "verification_error \<equiv> Raised (OtherError ''DDLVerificationError'')"

abbreviation ownership_conflict :: ddl_error where
  "ownership_conflict \<equiv> Raised (OtherError ''ObjectOwnershipConflict'')"

definition word_ok :: "nat \<Rightarrow> string \<Rightarrow> bool" where
  "word_ok n v \<longleftrightarrow> 1 \<le> length v \<and> length v \<le> n \<and> list_all identifier_char v"

definition at_ok :: "nat \<Rightarrow> string \<Rightarrow> bool" where
  "at_ok n v \<longleftrightarrow> word_ok n (takeWhile (\<lambda>c. c \<noteq> CHR ''@'') v)
     \<and> dropWhile (\<lambda>c. c \<noteq> CHR ''@'') v \<noteq> []
     \<and> word_ok 10 (tl (dropWhile (\<lambda>c. c \<noteq> CHR ''@'') v))"

definition tenant_re :: "string \<Rightarrow> bool" where
  "tenant_re = word_ok 10"

definition resource_config_re :: "string \<Rightarrow> bool" where
  "resource_config_re = word_ok 64"

definition account_re :: "string \<Rightarrow> bool" where
  "account_re = at_ok 20"

definition database_re :: "string \<Rightarrow> bool" where
  "database_re = at_ok 50"

definition validate_name :: "string option \<Rightarrow> (string \<Rightarrow> bool) \<Rightarrow> ddl_error + string" where
  "validate_name name pattern =
     (case name of
        None \<Rightarrow> Inl invalid_identifier
      | Some v \<Rightarrow> if pattern v then Inr v else Inl invalid_identifier)"

abbreviation validated :: "string \<Rightarrow> (string \<Rightarrow> bool) \<Rightarrow> ddl_error + string" where
  "validated v \<equiv> validate_name (Some v)"

definition build_create_resource_config_sql :: "string \<Rightarrow> int \<Rightarrow> int \<Rightarrow> ddl_error + string" where
  "build_create_resource_config_sql name min_cpu max_cpu =
     bindE (validated name resource_config_re) (\<lambda>name.
       if min_cpu < 0 \<or> max_cpu < 1 \<or> min_cpu > max_cpu
       then Inl (Raised (ValueError ''Invalid resource config CPU range''))
       else Inr (''CREATE resource_config '' @ name @ '' min_cpu '' @ int_text min_cpu
              @ '' max_cpu '' @ int_text max_cpu))"

definition build_create_tenant_sql :: "string \<Rightarrow> string \<Rightarrow> ddl_error + string" where
  "build_create_tenant_sql tenant config =
     bindE (validated tenant tenant_re) (\<lambda>tenant.
     bindE (validated config resource_config_re) (\<lambda>config.
       Inr (''CREATE tenant '' @ tenant @ '' resource_config '' @ config)))"

text \<open>This one is sent with a parameter, so the driver reads \<open>%%\<close> as a percent sign.\<close>

definition build_create_user_sql :: "string \<Rightarrow> ddl_error + string" where
  "build_create_user_sql account =
     bindE (validated account account_re) (\<lambda>account.
       Inr (''CREATE USER '' @ [CHR 0x27] @ account @ [CHR 0x27] @ ''@'' @ [CHR 0x27] @ ''%%'' @ [CHR 0x27]
         @ '' IDENTIFIED WITH mysql_native_password BY %s''))"

definition build_create_database_sql :: "string \<Rightarrow> ddl_error + string" where
  "build_create_database_sql database =
     bindE (validated database database_re) (\<lambda>database.
       Inr (''CREATE DATABASE `'' @ database @ ''`''))"

definition tenant_scope :: "string \<Rightarrow> string" where
  "tenant_scope tenant = ''`%@'' @ tenant @ ''`.*''"

definition build_grant_sql ::
    "string \<Rightarrow> string \<Rightarrow> permission_snapshot option \<Rightarrow> ddl_error + string" where
  "build_grant_sql tenant account snapshot =
     bindE (validated tenant tenant_re) (\<lambda>tenant.
     bindE (validated account account_re) (\<lambda>account.
       if tl (dropWhile (\<lambda>c. c \<noteq> CHR ''@'') account) \<noteq> tenant then Inl invalid_identifier
       else
         let resolved = (case snapshot of Some s \<Rightarrow> s
               | None \<Rightarrow> legacy_permission_snapshot SCOPE_MULTITENANT);
             privileges = (if ps_legacy_all_privileges resolved then ''ALL PRIVILEGES''
               else join_text '', '' (map privilege_value (ps_privileges resolved)))
         in if ps_scope resolved \<noteq> SCOPE_MULTITENANT
            then Inl (Raised (ValueError ''Multitenant grant requires tenant permission scope''))
            else if privileges = []
            then Inl (Raised (ValueError ''Multitenant grant requires at least one privilege''))
            else Inr (grant_statement privileges (tenant_scope tenant) account
                   (ps_grant_option resolved))))"

definition build_show_grants_sql :: "string \<Rightarrow> ddl_error + string" where
  "build_show_grants_sql account =
     bindE (validated account account_re) (\<lambda>account.
       Inr (account_sql ''SHOW GRANTS FOR '' account []))"

definition build_lock_user_sql :: "string \<Rightarrow> ddl_error + string" where
  "build_lock_user_sql account =
     bindE (validated account account_re) (\<lambda>account.
       Inr (account_sql ''ALTER USER '' account '' ACCOUNT LOCK''))"

definition build_unlock_user_sql :: "string \<Rightarrow> ddl_error + string" where
  "build_unlock_user_sql account =
     bindE (validated account account_re) (\<lambda>account.
       Inr (account_sql ''ALTER USER '' account '' ACCOUNT UNLOCK''))"

definition build_kill_connection_sql :: "cell \<Rightarrow> ddl_error + string" where
  "build_kill_connection_sql connection_id =
     (case connection_id of
        CText _ \<Rightarrow> Inl (Raised (ValueError ''Invalid connection ID''))
      | CInt n \<Rightarrow> if n \<le> 0 then Inl (Raised (ValueError ''Invalid connection ID''))
                 else Inr (''KILL CONNECTION '' @ int_text n))"

definition build_drop_database_sql :: "string \<Rightarrow> ddl_error + string" where
  "build_drop_database_sql database =
     bindE (validated database database_re) (\<lambda>database.
       Inr (''DROP DATABASE `'' @ database @ ''`''))"

definition build_drop_tenant_sql :: "string \<Rightarrow> ddl_error + string" where
  "build_drop_tenant_sql tenant =
     bindE (validated tenant tenant_re) (\<lambda>tenant. Inr (''DROP tenant '' @ tenant))"

definition build_drop_resource_config_sql :: "string \<Rightarrow> ddl_error + string" where
  "build_drop_resource_config_sql config =
     bindE (validated config resource_config_re) (\<lambda>name.
       Inr (''DROP resource_config '' @ name))"

section \<open>Connections\<close>

record 's tenant_server =
  ts_connection :: "super_pool \<Rightarrow> 's \<Rightarrow> (ddl_error + unit) \<times> 's"
  ts_run :: "super_pool \<Rightarrow> string \<Rightarrow> cell list option \<Rightarrow> 's \<Rightarrow> (ddl_error + cell list list) \<times> 's"

record 's ddl_world =
  dw_pools :: super_pools
  dw_server :: 's

record 's ddl_adapter =
  da_env :: pool_env
  da_server :: "'s tenant_server"
  da_backend :: provisioning_backend
  da_instance :: instance_row
  da_credential :: credential
  da_account :: string

type_synonym ('s, 'a) ddl_action = "'s ddl_world \<Rightarrow> (ddl_error + 'a) \<times> 's ddl_world"

definition bindW :: "('s, 'a) ddl_action \<Rightarrow> ('a \<Rightarrow> ('s, 'b) ddl_action) \<Rightarrow> ('s, 'b) ddl_action" where
  "bindW x f w = (case x w of (Inl e, w1) \<Rightarrow> (Inl e, w1) | (Inr a, w1) \<Rightarrow> f a w1)"

definition pureW :: "ddl_error + 'a \<Rightarrow> ('s, 'a) ddl_action" where
  "pureW x w = (x, w)"

text \<open>\<open>try: ... except Exception as error: ...\<close>\<close>

definition catchW :: "('s, 'a) ddl_action \<Rightarrow> (ddl_error \<Rightarrow> ('s, 'a) ddl_action) \<Rightarrow> ('s, 'a) ddl_action" where
  "catchW x h w = (case x w of (Inl e, w1) \<Rightarrow> h e w1 | (Inr a, w1) \<Rightarrow> (Inr a, w1))"

definition new_ddl_adapter ::
    "pool_env \<Rightarrow> 's tenant_server \<Rightarrow> provisioning_backend \<Rightarrow> instance_row \<Rightarrow> credential \<Rightarrow> string
     \<Rightarrow> ddl_error + 's ddl_adapter" where
  "new_ddl_adapter env srv b i c account =
     bindE (validated account account_re) (\<lambda>account.
       Inr \<lparr>da_env = env, da_server = srv, da_backend = b, da_instance = i, da_credential = c,
            da_account = account\<rparr>)"

text \<open>\<open>SuperConnectionPoolManager.acquire\<close>: the pool of the backend, a connection of it, a ping.\<close>

definition acquire_admin :: "'s ddl_adapter \<Rightarrow> ('s, super_pool) ddl_action" where
  "acquire_admin a w =
     (case pool_get (da_env a) (da_backend a) (da_instance a) (da_credential a) (dw_pools w) of
        (Inl e, ps) \<Rightarrow> (Inl (Raised e), w\<lparr>dw_pools := ps\<rparr>)
      | (Inr p, ps) \<Rightarrow>
          (case ts_connection (da_server a) p (dw_server w) of
             (Inl e, s) \<Rightarrow> (Inl e, \<lparr>dw_pools = ps, dw_server = s\<rparr>)
           | (Inr _, s) \<Rightarrow> (Inr p, \<lparr>dw_pools = ps, dw_server = s\<rparr>)))"

definition ddl_fetchall :: "'s ddl_adapter \<Rightarrow> string \<Rightarrow> cell list option \<Rightarrow> ('s, cell list list) ddl_action" where
  "ddl_fetchall a sql params = bindW (acquire_admin a) (\<lambda>p w.
     case ts_run (da_server a) p sql params (dw_server w) of (r, s) \<Rightarrow> (r, w\<lparr>dw_server := s\<rparr>))"

definition ddl_execute :: "'s ddl_adapter \<Rightarrow> string \<Rightarrow> cell list option \<Rightarrow> ('s, unit) ddl_action" where
  "ddl_execute a sql params = bindW (ddl_fetchall a sql params) (\<lambda>_. pureW (Inr ()))"

definition ddl_fetchone :: "'s ddl_adapter \<Rightarrow> string \<Rightarrow> cell list option \<Rightarrow> ('s, cell list option) ddl_action" where
  "ddl_fetchone a sql params = bindW (ddl_fetchall a sql params) (\<lambda>rows.
     pureW (Inr (case rows of [] \<Rightarrow> None | row # _ \<Rightarrow> Some row)))"

definition create_and_verify ::
    "('s, unit) ddl_action \<Rightarrow> ('s, bool) ddl_action \<Rightarrow> int set \<Rightarrow> ('s, unit) ddl_action" where
  "create_and_verify run check allowed_duplicate_codes =
     bindW (catchW (bindW run (\<lambda>_. pureW (Inr False)))
        (\<lambda>error. case mysql_error_code error of
            Some n \<Rightarrow> if n \<in> allowed_duplicate_codes then pureW (Inr True) else pureW (Inl error)
          | None \<Rightarrow> pureW (Inl error))) (\<lambda>duplicate.
     bindW check (\<lambda>ok.
       pureW (if ok then Inr () else if duplicate then Inl ownership_conflict
              else Inl verification_error)))"

section \<open>Verification\<close>

definition config_query :: string where
  "config_query = ''SELECT resource_config_name, resource_config_min_cpu, ''
     @ ''resource_config_max_cpu FROM mysql.tenant_resource_config '' @ ''WHERE resource_config_name = %s''"

definition tenant_query :: string where
  "tenant_query = ''SELECT tenant_name, resource_config_name FROM mysql.tenants '' @ ''WHERE tenant_name = %s''"

definition user_query :: string where
  "user_query = ''SELECT User, Host FROM mysql.user WHERE User = %s AND Host = ''
     @ [CHR 0x27] @ ''%%'' @ [CHR 0x27]"

definition database_query :: string where
  "database_query = ''SELECT SCHEMA_NAME FROM information_schema.SCHEMATA '' @ ''WHERE SCHEMA_NAME = %s''"

definition verify_resource_config :: "'s ddl_adapter \<Rightarrow> resource \<Rightarrow> ('s, bool) ddl_action" where
  "verify_resource_config a r =
     bindW (pureW (validate_name (r_resource_config_name r) resource_config_re)) (\<lambda>name.
     bindW (ddl_fetchone a config_query (Some [CText name])) (\<lambda>row.
       pureW (Inr (row = Some [CText name, CInt (b_resource_min_cpu (da_backend a)),
                               CInt (b_resource_max_cpu (da_backend a))]))))"

definition verify_tenant :: "'s ddl_adapter \<Rightarrow> resource \<Rightarrow> ('s, bool) ddl_action" where
  "verify_tenant a r =
     bindW (pureW (validate_name (r_tenant_name r) tenant_re)) (\<lambda>tenant.
     bindW (pureW (validate_name (r_resource_config_name r) resource_config_re)) (\<lambda>config.
     bindW (ddl_fetchone a tenant_query (Some [CText tenant])) (\<lambda>row.
       pureW (Inr (row = Some [CText tenant, CText config])))))"

definition verify_user :: "'s ddl_adapter \<Rightarrow> resource \<Rightarrow> ('s, bool) ddl_action" where
  "verify_user a r =
     bindW (ddl_fetchone a user_query (Some [CText (da_account a)])) (\<lambda>row.
       pureW (Inr (row = Some [CText (da_account a), CText ''%'']))) "

definition verify_database :: "'s ddl_adapter \<Rightarrow> resource \<Rightarrow> ('s, bool) ddl_action" where
  "verify_database a r =
     bindW (pureW (validate_name (r_database_name r) database_re)) (\<lambda>database.
     bindW (ddl_fetchone a database_query (Some [CText database])) (\<lambda>row.
       pureW (Inr (row = Some [CText database]))))"

text \<open>\<open>s.split(sep, 1)\<close>: \<open>None\<close> if the separator does not occur.\<close>

fun split_first :: "string \<Rightarrow> string \<Rightarrow> (string \<times> string) option" where
  "split_first sep [] = (if sep = [] then Some ([], []) else None)"
| "split_first sep (c # cs) =
     (if take (length sep) (c # cs) = sep then Some ([], drop (length sep) (c # cs))
      else map_option (\<lambda>(x, y). (c # x, y)) (split_first sep cs))"

definition resource_snapshot :: "(json \<Rightarrow> string) \<Rightarrow> resource \<Rightarrow> ddl_error + permission_snapshot" where
  "resource_snapshot py_str r =
     (case r_permission_snapshot_json r of
        None \<Rightarrow> Inr (legacy_permission_snapshot SCOPE_MULTITENANT)
      | Some t \<Rightarrow> (case permission_snapshot_from_json py_str t of Inl e \<Rightarrow> Inl (Raised e) | Inr s \<Rightarrow> Inr s))"

definition expected_privileges :: "permission_snapshot \<Rightarrow> string list" where
  "expected_privileges s =
     (if ps_legacy_all_privileges s then [''ALL PRIVILEGES''] else map privilege_value (ps_privileges s))"

definition quoted_user :: "char \<Rightarrow> string \<Rightarrow> string" where
  "quoted_user q account = ''TO '' @ [q] @ account @ [q, CHR ''@'', q, CHR ''%'', q]"

text \<open>One row of \<open>SHOW GRANTS\<close>: does it grant what the snapshot says, and nothing else, on the tenant?\<close>

definition grant_matches :: "string \<Rightarrow> string \<Rightarrow> permission_snapshot \<Rightarrow> string \<Rightarrow> bool" where
  "grant_matches tenant account snapshot grant =
     (contains_text (''ON '' @ tenant_scope tenant) grant
    \<and> (contains_text (quoted_user CHR ''`'' account) grant
       \<or> contains_text (quoted_user CHR 0x27 account) grant)
    \<and> (case split_first ''GRANT '' grant of
         None \<Rightarrow> False
       | Some (_, rest) \<Rightarrow>
           let privilege_text = (case split_first '' ON '' rest of Some (x, _) \<Rightarrow> x | None \<Rightarrow> rest);
               actual = map (\<lambda>p. upper_text (strip_text p))
                 (filter (\<lambda>p. strip_text p \<noteq> []) (split_char CHR '','' privilege_text))
           in set actual = set (expected_privileges snapshot)
            \<and> contains_text '' WITH GRANT OPTION'' (upper_text grant) = ps_grant_option snapshot))"

fun grant_shown :: "string \<Rightarrow> string \<Rightarrow> permission_snapshot \<Rightarrow> cell list list \<Rightarrow> bool" where
  "grant_shown tenant account snapshot [] = False"
| "grant_shown tenant account snapshot ([] # rows) = grant_shown tenant account snapshot rows"
| "grant_shown tenant account snapshot ((c # _) # rows) =
     (grant_matches tenant account snapshot (case c of CText s \<Rightarrow> s | CInt n \<Rightarrow> int_text n)
      \<or> grant_shown tenant account snapshot rows)"

definition verify_grants :: "(json \<Rightarrow> string) \<Rightarrow> 's ddl_adapter \<Rightarrow> resource \<Rightarrow> ('s, bool) ddl_action" where
  "verify_grants py_str a r =
     bindW (pureW (validate_name (r_tenant_name r) tenant_re)) (\<lambda>tenant.
     bindW (pureW (build_show_grants_sql (da_account a))) (\<lambda>sql.
     bindW (ddl_fetchall a sql None) (\<lambda>rows.
     bindW (pureW (resource_snapshot py_str r)) (\<lambda>snapshot.
       pureW (Inr (grant_shown tenant (da_account a) snapshot rows))))))"

section \<open>Operations\<close>

definition create_resource_config :: "'s ddl_adapter \<Rightarrow> resource \<Rightarrow> ('s, unit) ddl_action" where
  "create_resource_config a r =
     bindW (pureW (validate_name (r_resource_config_name r) resource_config_re)) (\<lambda>name.
       create_and_verify
         (bindW (pureW (build_create_resource_config_sql name (b_resource_min_cpu (da_backend a))
             (b_resource_max_cpu (da_backend a)))) (\<lambda>sql. ddl_execute a sql None))
         (verify_resource_config a r) {1062})"

definition create_tenant :: "'s ddl_adapter \<Rightarrow> resource \<Rightarrow> ('s, unit) ddl_action" where
  "create_tenant a r =
     bindW (pureW (validate_name (r_tenant_name r) tenant_re)) (\<lambda>tenant.
     bindW (pureW (validate_name (r_resource_config_name r) resource_config_re)) (\<lambda>config.
     bindW (pureW (build_create_tenant_sql tenant config)) (\<lambda>sql.
       create_and_verify (ddl_execute a sql None) (verify_tenant a r) {1062})))"

definition create_user :: "'s ddl_adapter \<Rightarrow> resource \<Rightarrow> string \<Rightarrow> ('s, unit) ddl_action" where
  "create_user a r password =
     bindW (pureW (build_create_user_sql (da_account a))) (\<lambda>sql.
       create_and_verify (ddl_execute a sql (Some [CText password])) (verify_user a r) {1396})"

definition create_database :: "'s ddl_adapter \<Rightarrow> resource \<Rightarrow> ('s, unit) ddl_action" where
  "create_database a r =
     bindW (pureW (validate_name (r_database_name r) database_re)) (\<lambda>database.
     bindW (pureW (build_create_database_sql database)) (\<lambda>sql.
       create_and_verify (ddl_execute a sql None) (verify_database a r) {1007}))"

definition grant_privileges :: "(json \<Rightarrow> string) \<Rightarrow> 's ddl_adapter \<Rightarrow> resource \<Rightarrow> ('s, unit) ddl_action" where
  "grant_privileges py_str a r =
     bindW (pureW (resource_snapshot py_str r)) (\<lambda>snapshot.
     bindW (pureW (validate_name (r_tenant_name r) tenant_re)) (\<lambda>tenant.
     bindW (pureW (build_grant_sql tenant (da_account a) (Some snapshot))) (\<lambda>sql.
     bindW (ddl_execute a sql None) (\<lambda>_.
     bindW (verify_grants py_str a r) (\<lambda>ok.
       pureW (if ok then Inr () else Inl verification_error))))))"

definition lock_account :: "'s ddl_adapter \<Rightarrow> resource \<Rightarrow> ('s, unit) ddl_action" where
  "lock_account a r =
     catchW (bindW (pureW (build_lock_user_sql (da_account a))) (\<lambda>sql. ddl_execute a sql None))
       (\<lambda>error. pureW (if mysql_error_code error \<noteq> Some 1396 then Inl error else Inr ()))"

definition unlock_account :: "'s ddl_adapter \<Rightarrow> resource \<Rightarrow> ('s, unit) ddl_action" where
  "unlock_account a r =
     bindW (pureW (build_unlock_user_sql (da_account a))) (\<lambda>sql. ddl_execute a sql None)"

fun kill_each :: "'s ddl_adapter \<Rightarrow> cell list list \<Rightarrow> ('s, unit) ddl_action" where
  "kill_each a [] = pureW (Inr ())"
| "kill_each a ([] # rows) = pureW (Inl verification_error)"
| "kill_each a ((c # _) # rows) =
     bindW (catchW (bindW (pureW (build_kill_connection_sql c)) (\<lambda>sql. ddl_execute a sql None))
       (\<lambda>error. pureW (if mysql_error_code error \<noteq> Some 1094 then Inl error else Inr ())))
     (\<lambda>_. kill_each a rows)"

definition terminate_sessions :: "'s ddl_adapter \<Rightarrow> resource \<Rightarrow> ('s, unit) ddl_action" where
  "terminate_sessions a r =
     bindW (ddl_fetchall a processlist_query (Some [CText (da_account a)])) (kill_each a)"

definition verify_disconnected :: "'s ddl_adapter \<Rightarrow> resource \<Rightarrow> ('s, bool) ddl_action" where
  "verify_disconnected a r =
     bindW (ddl_fetchall a processlist_query (Some [CText (da_account a)])) (\<lambda>remaining.
       pureW (Inr (remaining = [])))"

definition prepare_cleanup :: "'s ddl_adapter \<Rightarrow> resource \<Rightarrow> ('s, unit) ddl_action" where
  "prepare_cleanup a r =
     bindW (lock_account a r) (\<lambda>_.
     bindW (terminate_sessions a r) (\<lambda>_.
     bindW (verify_disconnected a r) (\<lambda>ok.
       pureW (if ok then Inr () else Inl (Raised (OtherError ''ActiveTenantSessionsError''))))))"

definition drop_and_verify_absent ::
    "'s ddl_adapter \<Rightarrow> string \<Rightarrow> ('s, bool) ddl_action \<Rightarrow> int set \<Rightarrow> ('s, unit) ddl_action" where
  "drop_and_verify_absent a sql verify_exists allowed_missing_codes =
     bindW (catchW (bindW (ddl_execute a sql None) (\<lambda>_. pureW (Inr True)))
       (\<lambda>error.
          if (case mysql_error_code error of Some n \<Rightarrow> n \<in> allowed_missing_codes | None \<Rightarrow> False)
          then pureW (Inr True)
          else bindW verify_exists (\<lambda>exists. pureW (if exists then Inl error else Inr False))))
     (\<lambda>check. if check
        then bindW verify_exists (\<lambda>exists. pureW (if exists then Inl verification_error else Inr ()))
        else pureW (Inr ()))"

definition drop_database :: "'s ddl_adapter \<Rightarrow> resource \<Rightarrow> ('s, unit) ddl_action" where
  "drop_database a r =
     bindW (pureW (validate_name (r_database_name r) database_re)) (\<lambda>database.
     bindW (pureW (build_drop_database_sql database)) (\<lambda>sql.
       drop_and_verify_absent a sql (verify_database a r) {1008}))"

definition drop_tenant :: "'s ddl_adapter \<Rightarrow> resource \<Rightarrow> ('s, unit) ddl_action" where
  "drop_tenant a r =
     bindW (pureW (validate_name (r_tenant_name r) tenant_re)) (\<lambda>tenant.
     bindW (pureW (build_drop_tenant_sql tenant)) (\<lambda>sql.
       drop_and_verify_absent a sql (verify_tenant a r) {1091}))"

definition drop_resource_config :: "'s ddl_adapter \<Rightarrow> resource \<Rightarrow> ('s, unit) ddl_action" where
  "drop_resource_config a r =
     bindW (pureW (validate_name (r_resource_config_name r) resource_config_re)) (\<lambda>name.
     bindW (pureW (build_drop_resource_config_sql name)) (\<lambda>sql.
       drop_and_verify_absent a sql (verify_resource_config a r) {1091}))"

definition verify_residue_absent :: "'s ddl_adapter \<Rightarrow> resource \<Rightarrow> ('s, bool) ddl_action" where
  "verify_residue_absent a r =
     bindW (verify_database a r) (\<lambda>database_exists.
     bindW (verify_tenant a r) (\<lambda>tenant_exists.
     bindW (verify_resource_config a r) (\<lambda>resource_exists.
     bindW (verify_user a r) (\<lambda>user_exists.
       pureW (Inr (\<not> (database_exists \<or> tenant_exists \<or> resource_exists \<or> user_exists)))))))"

section \<open>The tables of the server\<close>

text \<open>
  What the queries of this module read: the resource configurations with their CPU range, the
  tenants with their configuration, the accounts at \<open>%\<close>, the databases, the sessions of an account
  and the rows of \<open>SHOW GRANTS\<close>.
\<close>

record tenant_tables =
  tt_configs :: "string \<rightharpoonup> int \<times> int"
  tt_tenants :: "string \<rightharpoonup> string"
  tt_users :: "string set"
  tt_databases :: "string set"
  tt_sessions :: "string \<Rightarrow> int list"
  tt_grants :: "string \<Rightarrow> string list"

fun config_rows :: "string \<Rightarrow> (int \<times> int) option \<Rightarrow> cell list list" where
  "config_rows name None = []"
| "config_rows name (Some (a, b)) = [[CText name, CInt a, CInt b]]"

fun tenant_rows :: "string \<Rightarrow> string option \<Rightarrow> cell list list" where
  "tenant_rows name None = []"
| "tenant_rows name (Some config) = [[CText name, CText config]]"

text \<open>A query of this module, with its parameters, and the rows it has on given tables.\<close>

inductive asks :: "string \<Rightarrow> cell list option \<Rightarrow> tenant_tables \<Rightarrow> cell list list \<Rightarrow> bool" where
  asks_config: "asks config_query (Some [CText name]) t (config_rows name (tt_configs t name))"
| asks_tenant: "asks tenant_query (Some [CText name]) t (tenant_rows name (tt_tenants t name))"
| asks_user: "asks user_query (Some [CText name]) t
    (if name \<in> tt_users t then [[CText name, CText ''%'']] else [])"
| asks_database: "asks database_query (Some [CText name]) t
    (if name \<in> tt_databases t then [[CText name]] else [])"
| asks_sessions: "asks processlist_query (Some [CText name]) t (map (\<lambda>n. [CInt n]) (tt_sessions t name))"
| asks_grants: "asks (account_sql ''SHOW GRANTS FOR '' name []) None t (map (\<lambda>g. [CText g]) (tt_grants t name))"

text \<open>
  The server reports its tables: taking a connection does not change them, and a query that is
  answered is answered from them and does not change them. It may fail at any time, and nothing
  is assumed of the other statements.
\<close>

definition reports_tables :: "'s tenant_server \<Rightarrow> ('s \<Rightarrow> tenant_tables) \<Rightarrow> bool" where
  "reports_tables srv view \<longleftrightarrow>
     (\<forall>p s. view (snd (ts_connection srv p s)) = view s)
   \<and> (\<forall>p q params s rows answer s'. asks q params (view s) rows \<longrightarrow>
        ts_run srv p q params s = (Inr answer, s') \<longrightarrow> answer = rows \<and> view s' = view s)"

abbreviation tables :: "('s \<Rightarrow> tenant_tables) \<Rightarrow> 's ddl_world \<Rightarrow> tenant_tables" where
  "tables view w \<equiv> view (dw_server w)"

lemma bindW_Inr: "bindW x f w = (Inr b, w') \<longleftrightarrow> (\<exists>a w1. x w = (Inr a, w1) \<and> f a w1 = (Inr b, w'))"
  by (auto simp: bindW_def split: prod.splits sum.splits)

lemma pureW_Inr: "pureW x w = (Inr a, w') \<longleftrightarrow> x = Inr a \<and> w' = w"
  by (auto simp: pureW_def)

lemma catchW_Inr:
  "catchW x h w = (Inr a, w') \<longleftrightarrow>
     x w = (Inr a, w') \<or> (\<exists>e w1. x w = (Inl e, w1) \<and> h e w1 = (Inr a, w'))"
  by (auto simp: catchW_def split: prod.splits sum.splits)

lemma validate_name_Inr: "validate_name n ok = Inr v \<longleftrightarrow> n = Some v \<and> ok v"
  by (auto simp: validate_name_def split: option.splits)

lemmas action_simps = bindW_Inr pureW_Inr catchW_Inr validate_name_Inr bindE_Inr

lemma acquire_admin_tables:
  assumes "reports_tables (da_server a) view" and "acquire_admin a w = (r, w')"
  shows "tables view w' = tables view w"
  using assms by (auto simp: acquire_admin_def reports_tables_def split: prod.splits sum.splits)
    (metis snd_conv)+

lemma fetchall_answer:
  assumes "reports_tables (da_server a) view" and "ddl_fetchall a q params w = (Inr rows, w')"
    and "asks q params (tables view w) shown"
  shows "rows = shown \<and> tables view w' = tables view w"
proof -
  from assms(2) obtain p w1 s where p: "acquire_admin a w = (Inr p, w1)"
    and run: "ts_run (da_server a) p q params (dw_server w1) = (Inr rows, s)" "w' = w1\<lparr>dw_server := s\<rparr>"
    by (auto simp: ddl_fetchall_def bindW_Inr split: prod.splits) (metis surj_pair)
  from acquire_admin_tables [OF assms(1) p] have same: "tables view w1 = tables view w" .
  from assms(1,3) run(1) have "rows = shown \<and> view s = tables view w1"
    unfolding reports_tables_def same [symmetric] by blast
  with run(2) same show ?thesis by simp
qed

lemma fetchone_answer:
  assumes "reports_tables (da_server a) view" and "ddl_fetchone a q params w = (Inr row, w')"
    and "asks q params (tables view w) shown"
  shows "row = (case shown of [] \<Rightarrow> None | x # _ \<Rightarrow> Some x) \<and> tables view w' = tables view w"
  using assms(2) fetchall_answer [OF assms(1) _ assms(3)]
  by (auto simp: ddl_fetchone_def action_simps)

section \<open>What a verification that returns has seen\<close>

lemma verify_resource_config_seen:
  assumes "reports_tables (da_server a) view" and "verify_resource_config a r w = (Inr ok, w')"
  shows "\<exists>name. r_resource_config_name r = Some name \<and> tables view w' = tables view w
    \<and> (ok \<longleftrightarrow> tt_configs (tables view w') name =
          Some (b_resource_min_cpu (da_backend a), b_resource_max_cpu (da_backend a)))"
proof -
  from assms(2) obtain name row where name: "r_resource_config_name r = Some name"
    and row: "ddl_fetchone a config_query (Some [CText name]) w = (Inr row, w')"
    and ok: "ok = (row = Some [CText name, CInt (b_resource_min_cpu (da_backend a)),
                               CInt (b_resource_max_cpu (da_backend a))])"
    by (auto simp: verify_resource_config_def action_simps)
  from fetchone_answer [OF assms(1) row asks_config] name ok show ?thesis
    by (cases "tt_configs (tables view w) name") auto
qed

lemma verify_tenant_seen:
  assumes "reports_tables (da_server a) view" and "verify_tenant a r w = (Inr ok, w')"
  shows "\<exists>name config. r_tenant_name r = Some name \<and> r_resource_config_name r = Some config
    \<and> tables view w' = tables view w \<and> (ok \<longleftrightarrow> tt_tenants (tables view w') name = Some config)"
proof -
  from assms(2) obtain name config row where names: "r_tenant_name r = Some name"
      "r_resource_config_name r = Some config"
    and row: "ddl_fetchone a tenant_query (Some [CText name]) w = (Inr row, w')"
    and ok: "ok = (row = Some [CText name, CText config])"
    by (auto simp: verify_tenant_def action_simps)
  from fetchone_answer [OF assms(1) row asks_tenant] names ok show ?thesis
    by (cases "tt_tenants (tables view w) name") auto
qed

lemma verify_user_seen:
  assumes "reports_tables (da_server a) view" and "verify_user a r w = (Inr ok, w')"
  shows "tables view w' = tables view w \<and> (ok \<longleftrightarrow> da_account a \<in> tt_users (tables view w'))"
proof -
  from assms(2) obtain row where
      row: "ddl_fetchone a user_query (Some [CText (da_account a)]) w = (Inr row, w')"
    and ok: "ok = (row = Some [CText (da_account a), CText ''%''])"
    by (auto simp: verify_user_def action_simps)
  from fetchone_answer [OF assms(1) row asks_user] ok show ?thesis by (auto split: if_splits)
qed

lemma verify_database_seen:
  assumes "reports_tables (da_server a) view" and "verify_database a r w = (Inr ok, w')"
  shows "\<exists>name. r_database_name r = Some name \<and> tables view w' = tables view w
    \<and> (ok \<longleftrightarrow> name \<in> tt_databases (tables view w'))"
proof -
  from assms(2) obtain name row where name: "r_database_name r = Some name"
    and row: "ddl_fetchone a database_query (Some [CText name]) w = (Inr row, w')"
    and ok: "ok = (row = Some [CText name])"
    by (auto simp: verify_database_def action_simps)
  from fetchone_answer [OF assms(1) row asks_database] name ok show ?thesis by (auto split: if_splits)
qed

lemma verify_disconnected_seen:
  assumes "reports_tables (da_server a) view" and "verify_disconnected a r w = (Inr ok, w')"
  shows "ok \<longleftrightarrow> tt_sessions (tables view w') (da_account a) = []"
proof -
  from assms(2) obtain rows where
      rows: "ddl_fetchall a processlist_query (Some [CText (da_account a)]) w = (Inr rows, w')"
    and ok: "ok = (rows = [])"
    by (auto simp: verify_disconnected_def action_simps)
  from fetchall_answer [OF assms(1) rows asks_sessions] ok show ?thesis by auto
qed

lemma create_and_verify_checked:
  assumes "create_and_verify run check tolerated w = (Inr u, w')"
  shows "\<exists>w1. check w1 = (Inr True, w')"
  using assms by (auto simp: create_and_verify_def action_simps split: if_splits option.splits)

lemma drop_and_verify_checked:
  assumes "drop_and_verify_absent a sql check tolerated w = (Inr u, w')"
  shows "\<exists>w1. check w1 = (Inr False, w')"
  using assms by (auto simp: drop_and_verify_absent_def action_simps split: if_splits option.splits)


lemma create_verified:
  "create_resource_config a r w = (Inr u, w') \<Longrightarrow> \<exists>w1. verify_resource_config a r w1 = (Inr True, w')"
  "create_tenant a r w = (Inr u, w') \<Longrightarrow> \<exists>w1. verify_tenant a r w1 = (Inr True, w')"
  "create_user a r password w = (Inr u, w') \<Longrightarrow> \<exists>w1. verify_user a r w1 = (Inr True, w')"
  "create_database a r w = (Inr u, w') \<Longrightarrow> \<exists>w1. verify_database a r w1 = (Inr True, w')"
  by (auto simp: create_resource_config_def create_tenant_def create_user_def create_database_def
      action_simps dest!: create_and_verify_checked)

lemma drop_verified:
  "prepare_cleanup a r w = (Inr u, w') \<Longrightarrow> \<exists>w1. verify_disconnected a r w1 = (Inr True, w')"
  "drop_database a r w = (Inr u, w') \<Longrightarrow> \<exists>w1. verify_database a r w1 = (Inr False, w')"
  "drop_tenant a r w = (Inr u, w') \<Longrightarrow> \<exists>w1. verify_tenant a r w1 = (Inr False, w')"
  "drop_resource_config a r w = (Inr u, w') \<Longrightarrow> \<exists>w1. verify_resource_config a r w1 = (Inr False, w')"
  by (auto simp: prepare_cleanup_def drop_database_def drop_tenant_def drop_resource_config_def
      action_simps split: if_splits dest!: drop_and_verify_checked)

lemma created:
  assumes "reports_tables (da_server a) view"
  shows "create_resource_config a r w = (Inr (), w') \<Longrightarrow>
      \<exists>name. r_resource_config_name r = Some name \<and> tt_configs (tables view w') name =
        Some (b_resource_min_cpu (da_backend a), b_resource_max_cpu (da_backend a))"
    and "create_tenant a r w = (Inr (), w') \<Longrightarrow>
      \<exists>name config. r_tenant_name r = Some name \<and> r_resource_config_name r = Some config
        \<and> tt_tenants (tables view w') name = Some config"
    and "create_user a r password w = (Inr (), w') \<Longrightarrow> da_account a \<in> tt_users (tables view w')"
    and "create_database a r w = (Inr (), w') \<Longrightarrow>
      \<exists>name. r_database_name r = Some name \<and> name \<in> tt_databases (tables view w')"
proof -
  show "\<exists>name. r_resource_config_name r = Some name \<and> tt_configs (tables view w') name =
        Some (b_resource_min_cpu (da_backend a), b_resource_max_cpu (da_backend a))"
    if "create_resource_config a r w = (Inr (), w')"
    using create_verified(1) [OF that] verify_resource_config_seen [OF assms] by blast
  show "\<exists>name config. r_tenant_name r = Some name \<and> r_resource_config_name r = Some config
        \<and> tt_tenants (tables view w') name = Some config" if "create_tenant a r w = (Inr (), w')"
    using create_verified(2) [OF that] verify_tenant_seen [OF assms] by blast
  show "da_account a \<in> tt_users (tables view w')" if "create_user a r password w = (Inr (), w')"
    using create_verified(3) [OF that] verify_user_seen [OF assms] by blast
  show "\<exists>name. r_database_name r = Some name \<and> name \<in> tt_databases (tables view w')"
    if "create_database a r w = (Inr (), w')"
    using create_verified(4) [OF that] verify_database_seen [OF assms] by blast
qed

lemma dropped:
  assumes "reports_tables (da_server a) view"
  shows "prepare_cleanup a r w = (Inr (), w') \<Longrightarrow> tt_sessions (tables view w') (da_account a) = []"
    and "drop_database a r w = (Inr (), w') \<Longrightarrow>
      \<exists>name. r_database_name r = Some name \<and> name \<notin> tt_databases (tables view w')"
    and "drop_tenant a r w = (Inr (), w') \<Longrightarrow>
      \<exists>name config. r_tenant_name r = Some name \<and> r_resource_config_name r = Some config
        \<and> tt_tenants (tables view w') name \<noteq> Some config"
    and "drop_resource_config a r w = (Inr (), w') \<Longrightarrow>
      \<exists>name. r_resource_config_name r = Some name \<and> tt_configs (tables view w') name \<noteq>
        Some (b_resource_min_cpu (da_backend a), b_resource_max_cpu (da_backend a))"
proof -
  show "tt_sessions (tables view w') (da_account a) = []" if "prepare_cleanup a r w = (Inr (), w')"
    using drop_verified(1) [OF that] verify_disconnected_seen [OF assms] by blast
  show "\<exists>name. r_database_name r = Some name \<and> name \<notin> tt_databases (tables view w')"
    if "drop_database a r w = (Inr (), w')"
    using drop_verified(2) [OF that] verify_database_seen [OF assms] by blast
  show "\<exists>name config. r_tenant_name r = Some name \<and> r_resource_config_name r = Some config
        \<and> tt_tenants (tables view w') name \<noteq> Some config" if "drop_tenant a r w = (Inr (), w')"
    using drop_verified(3) [OF that] verify_tenant_seen [OF assms] by blast
  show "\<exists>name. r_resource_config_name r = Some name \<and> tt_configs (tables view w') name \<noteq>
        Some (b_resource_min_cpu (da_backend a), b_resource_max_cpu (da_backend a))"
    if "drop_resource_config a r w = (Inr (), w')"
    using drop_verified(4) [OF that] verify_resource_config_seen [OF assms] by blast
qed

text \<open>The objects that belong to a resource, on given tables.\<close>

definition objects_present :: "'s ddl_adapter \<Rightarrow> resource \<Rightarrow> tenant_tables \<Rightarrow> bool" where
  "objects_present a r t \<longleftrightarrow>
     (\<exists>n. r_resource_config_name r = Some n \<and> tt_configs t n =
        Some (b_resource_min_cpu (da_backend a), b_resource_max_cpu (da_backend a)))
   \<and> (\<exists>n c. r_tenant_name r = Some n \<and> r_resource_config_name r = Some c \<and> tt_tenants t n = Some c)
   \<and> da_account a \<in> tt_users t
   \<and> (\<exists>n. r_database_name r = Some n \<and> n \<in> tt_databases t)"

text \<open>
  No object is there as the resource has it: what the verification of the clean-up establishes. A
  configuration with another CPU range than the backend has now counts as absent, and so does a tenant
  with another configuration. If what is stored under the names is the resource's own, all is gone.
\<close>

definition objects_absent :: "'s ddl_adapter \<Rightarrow> resource \<Rightarrow> tenant_tables \<Rightarrow> bool" where
  "objects_absent a r t \<longleftrightarrow>
     (\<forall>n. r_resource_config_name r = Some n \<longrightarrow> tt_configs t n \<noteq>
        Some (b_resource_min_cpu (da_backend a), b_resource_max_cpu (da_backend a)))
   \<and> (\<forall>n c. r_tenant_name r = Some n \<longrightarrow> r_resource_config_name r = Some c \<longrightarrow> tt_tenants t n \<noteq> Some c)
   \<and> da_account a \<notin> tt_users t
   \<and> (\<forall>n. r_database_name r = Some n \<longrightarrow> n \<notin> tt_databases t)"

definition objects_owned :: "'s ddl_adapter \<Rightarrow> resource \<Rightarrow> tenant_tables \<Rightarrow> bool" where
  "objects_owned a r t \<longleftrightarrow>
     (\<forall>n. r_resource_config_name r = Some n \<longrightarrow> tt_configs t n \<in>
        {None, Some (b_resource_min_cpu (da_backend a), b_resource_max_cpu (da_backend a))})
   \<and> (\<forall>n. r_tenant_name r = Some n \<longrightarrow> tt_tenants t n \<in> {None, r_resource_config_name r})"

definition objects_gone :: "'s ddl_adapter \<Rightarrow> resource \<Rightarrow> tenant_tables \<Rightarrow> bool" where
  "objects_gone a r t \<longleftrightarrow>
     (\<forall>n. r_resource_config_name r = Some n \<longrightarrow> tt_configs t n = None)
   \<and> (\<forall>n. r_tenant_name r = Some n \<longrightarrow> tt_tenants t n = None)
   \<and> da_account a \<notin> tt_users t
   \<and> (\<forall>n. r_database_name r = Some n \<longrightarrow> n \<notin> tt_databases t)"

lemma absent_owned_gone: "objects_absent a r t \<Longrightarrow> objects_owned a r t \<Longrightarrow> objects_gone a r t"
  by (cases "r_resource_config_name r") (auto simp: objects_absent_def objects_owned_def objects_gone_def)

lemma residue_seen:
  assumes "reports_tables (da_server a) view" and "verify_residue_absent a r w = (Inr True, w')"
  shows "tables view w' = tables view w \<and> objects_absent a r (tables view w')"
proof -
  from assms(2) obtain w1 w2 w3 where
    "verify_database a r w = (Inr False, w1)" "verify_tenant a r w1 = (Inr False, w2)"
    "verify_resource_config a r w2 = (Inr False, w3)" "verify_user a r w3 = (Inr False, w')"
    by (auto simp: verify_residue_absent_def action_simps)
  from verify_database_seen [OF assms(1) this(1)] verify_tenant_seen [OF assms(1) this(2)]
    verify_resource_config_seen [OF assms(1) this(3)] verify_user_seen [OF assms(1) this(4)]
  show ?thesis by (auto simp: objects_absent_def)
qed


section \<open>Grants read back\<close>

lemma contains_infix: "contains_text p (x @ p @ y)"
proof (induction x)
  case Nil
  show ?case by (cases p; cases y) auto
qed simp

definition before_on :: "string \<Rightarrow> bool" where
  "before_on v \<longleftrightarrow> (\<forall>s x y. split_first '' ON '' s = Some (x, y) \<longrightarrow>
     split_first '' ON '' (v @ s) = Some (v @ x, y)
   \<and> split_first '' ON '' (CHR '' '' # v @ s) = Some (CHR '' '' # v @ x, y))"

lemma before_on_words: "before_on (privilege_value p)" "before_on ''ALL PRIVILEGES''"
  unfolding before_on_def by (cases p) simp_all

lemma joined_before_on:
  assumes "xs \<noteq> []" and "\<forall>x \<in> set xs. before_on x" and "split_first '' ON '' s = Some (x, y)"
  shows "split_first '' ON '' (join_text '', '' xs @ s) = Some (join_text '', '' xs @ x, y)
    \<and> split_first '' ON '' (CHR '' '' # join_text '', '' xs @ s) = Some (CHR '' '' # join_text '', '' xs @ x, y)"
  using assms
proof (induction "'', ''" xs rule: join_text.induct)
  case (2 v)
  then show ?case by (simp add: before_on_def del: split_first.simps)
next
  case (3 v v' vs)
  let ?rest = "join_text '', '' (v' # vs)"
  have "split_first '' ON '' (CHR '' '' # ?rest @ s) = Some (CHR '' '' # ?rest @ x, y)" using 3 by simp
  then have "split_first '' ON '' ('', '' @ ?rest @ s) = Some ('', '' @ ?rest @ x, y)" by simp
  with 3(3) show ?case by (simp add: before_on_def del: split_first.simps)
qed simp

text \<open>The row of an account of a tenant, as the server shows it in one of its two quoting styles.\<close>

definition tenant_row :: "char \<Rightarrow> string list \<Rightarrow> string \<Rightarrow> string \<Rightarrow> bool \<Rightarrow> string" where
  "tenant_row q privileges tenant account grant_option =
     grant_row q privileges (tenant_scope tenant) (account @ [q, CHR ''@'', q, CHR ''%'', q]) grant_option"

lemma word_ok_spaceless: "word_ok n v \<Longrightarrow> spaceless v"
  by (auto simp: word_ok_def spaceless_def identifier_char_def space_char_def is_space_def list_all_iff Let_def)

lemma at_ok_spaceless: "at_ok n v \<Longrightarrow> spaceless v"
proof -
  assume ok: "at_ok n v"
  let ?u = "takeWhile (\<lambda>c. c \<noteq> CHR ''@'') v" and ?d = "dropWhile (\<lambda>c. c \<noteq> CHR ''@'') v"
  have "?d \<noteq> []" using ok by (simp add: at_ok_def)
  then have "?d = CHR ''@'' # tl ?d" using hd_dropWhile [of "\<lambda>c. c \<noteq> CHR ''@''" v] by (cases ?d) auto
  then have "v = ?u @ CHR ''@'' # tl ?d" by (metis takeWhile_dropWhile_id)
  moreover have "spaceless ?u" "spaceless (tl ?d)" using ok by (auto simp: at_ok_def intro: word_ok_spaceless)
  moreover have "\<not> space_char CHR ''@''" by (simp add: space_char_def is_space_def)
  ultimately show ?thesis unfolding spaceless_def by (metis Un_iff set_ConsD set_append)
qed

lemma tenant_scope_spaceless: "spaceless tenant \<Longrightarrow> spaceless (tenant_scope tenant)"
  by (auto simp: spaceless_def tenant_scope_def space_char_def is_space_def)

definition grantable :: "string list \<Rightarrow> bool" where
  "grantable ps \<longleftrightarrow> ps \<noteq> [] \<and> set ps \<subseteq> insert ''ALL PRIVILEGES'' (range privilege_value)"

lemma grantable_words:
  assumes "grantable ps"
  shows "ps \<noteq> []" "\<forall>x \<in> set ps. grant_word x" "\<forall>x \<in> set ps. before_on x"
  using assms grant_word_privilege grant_word_all before_on_words by (auto simp: grantable_def)

lemma joined_read:
  assumes "ps \<noteq> []" and "\<forall>x \<in> set ps. grant_word x"
  shows "map (\<lambda>p. upper_text (strip_text p))
      (filter (\<lambda>p. strip_text p \<noteq> []) (split_char CHR '','' (join_text '', '' ps))) = ps"
proof -
  let ?parts = "split_char CHR '','' (join_text '', '' ps)"
  have "map strip_text ?parts = map strip_text ps"
    using assms grant_wordD(1) by (intro split_join) auto
  also have "\<dots> = ps" using assms(2) grant_wordD(3) by (simp add: map_idI)
  finally have parts: "map strip_text ?parts = ps" .
  have "map (\<lambda>p. upper_text (strip_text p)) (filter (\<lambda>p. strip_text p \<noteq> []) ?parts) =
      map upper_text (filter (\<lambda>p. p \<noteq> []) (map strip_text ?parts))"
    by (simp add: filter_map comp_def)
  also have "\<dots> = map upper_text ps"
    unfolding parts using assms(2) grant_wordD(7) by (intro arg_cong [of _ _ "map upper_text"] filter_True) fastforce
  also have "\<dots> = ps" using assms(2) grant_wordD(2) by (simp add: map_idI)
  finally show ?thesis .
qed

lemma tenant_row_read:
  assumes "grantable ps" and "spaceless tenant" and "spaceless account" and "q \<in> {CHR 0x27, CHR ''`''}"
  shows "grant_matches tenant account snapshot (tenant_row q ps tenant account g) \<longleftrightarrow>
    set ps = set (expected_privileges snapshot) \<and> g = ps_grant_option snapshot"
proof -
  let ?row = "tenant_row q ps tenant account g"
  let ?target = "account @ [q, CHR ''@'', q, CHR ''%'', q]"
  let ?option = "if g then '' WITH GRANT OPTION'' else []"
  note words = grantable_words [OF assms(1)]
  have row: "?row = ''GRANT '' @ join_text '', '' ps @ '' ON '' @ tenant_scope tenant @ '' TO '' @ row_end q ?target g"
    by (simp add: tenant_row_def grant_row_def)
  have "?row = (''GRANT '' @ join_text '', '' ps @ '' '') @ (''ON '' @ tenant_scope tenant) @ '' TO '' @ row_end q ?target g"
    unfolding row by simp
  then have on: "contains_text (''ON '' @ tenant_scope tenant) ?row" by (metis contains_infix)
  have "?row = (''GRANT '' @ join_text '', '' ps @ '' ON '' @ tenant_scope tenant @ '' '') @ quoted_user q account @ ?option"
    unfolding row by (simp add: row_end_def quoted_user_def)
  then have user: "contains_text (quoted_user q account) ?row" by (metis contains_infix)
  have option: "contains_text with_option (upper_text ?row) = g"
  proof -
    have "spaceless (q # ?target)" using assms(3,4)
      by (auto simp: spaceless_def space_char_def is_space_def)
    then show ?thesis
      unfolding tenant_row_def using tenant_scope_spaceless [OF assms(2)] words(1,2) assms(4)
        row_option [of ps "CHR ''`''" "tl (tenant_scope tenant)"] by (auto simp: tenant_scope_def)
  qed
  have read: "split_first ''GRANT '' ?row = Some ([], join_text '', '' ps @ '' ON '' @ tenant_scope tenant @ '' TO '' @ row_end q ?target g)"
    unfolding row by simp
  have upto: "split_first '' ON '' (join_text '', '' ps @ '' ON '' @ s) = Some (join_text '', '' ps, s)" for s
    using joined_before_on [OF words(1,3), of "'' ON '' @ s" "[]" s] by simp
  have users: "contains_text (quoted_user CHR ''`'' account) ?row \<or> contains_text (quoted_user CHR 0x27 account) ?row"
    using user assms(4) by blast
  show ?thesis
    unfolding grant_matches_def read using on users
    by (simp only: option.case prod.case upto Let_def joined_read [OF words(1,2)] option simp_thms)
qed


lemma privileges_text:
  "(if ps_legacy_all_privileges s then ''ALL PRIVILEGES''
    else join_text '', '' (map privilege_value (ps_privileges s))) = join_text '', '' (expected_privileges s)"
  by (simp add: expected_privileges_def)

lemma build_grant_sql_Inr:
  assumes "build_grant_sql tenant account (Some snapshot) = Inr sql"
  shows "sql = tenant_row CHR 0x27 (expected_privileges snapshot) tenant account (ps_grant_option snapshot)"
    and "grantable (expected_privileges snapshot)" and "tenant_re tenant" and "account_re account"
proof -
  from assms have "join_text '', '' (expected_privileges snapshot) \<noteq> []"
    and sql: "sql = grant_statement (join_text '', '' (expected_privileges snapshot)) (tenant_scope tenant)
      account (ps_grant_option snapshot)" and names: "tenant_re tenant" "account_re account"
    by (auto simp: build_grant_sql_def action_simps privileges_text [symmetric] Let_def split: if_splits)
  then show "sql = tenant_row CHR 0x27 (expected_privileges snapshot) tenant account (ps_grant_option snapshot)"
    "tenant_re tenant" "account_re account"
    by (simp_all add: grant_statement_row tenant_row_def)
  from \<open>join_text '', '' (expected_privileges snapshot) \<noteq> []\<close>
  show "grantable (expected_privileges snapshot)"
    by (cases "expected_privileges snapshot") (auto simp: grantable_def expected_privileges_def split: if_splits)
qed

lemma grant_shown_iff:
  "grant_shown tenant account snapshot (map (\<lambda>g. [CText g]) gs) \<longleftrightarrow>
     (\<exists>g \<in> set gs. grant_matches tenant account snapshot g)"
  by (induction gs) auto

text \<open>the verification of grants is exact. The statement built for a snapshot is the row the server
  shows in one of its quoting styles; a row that grants some privileges on the tenant to the
  account passes the verification exactly if these are the privileges of the snapshot, with the
  grant option if and only if the snapshot has it.\<close>

theorem tenant_grants_verify_exactly:
  assumes "build_grant_sql tenant account (Some snapshot) = Inr sql"
    and "q \<in> {CHR 0x27, CHR ''`''}" and "grantable ps"
  shows "sql = tenant_row CHR 0x27 (expected_privileges snapshot) tenant account (ps_grant_option snapshot)
    \<and> (grant_shown tenant account snapshot [[CText (tenant_row q ps tenant account g)]] \<longleftrightarrow>
        set ps = set (expected_privileges snapshot) \<and> g = ps_grant_option snapshot)"
proof -
  have "spaceless tenant" "spaceless account"
    using build_grant_sql_Inr(3,4) [OF assms(1)] word_ok_spaceless at_ok_spaceless
    by (auto simp: tenant_re_def account_re_def)
  from tenant_row_read [OF assms(3) this assms(2)] build_grant_sql_Inr(1) [OF assms(1)]
  show ?thesis by simp
qed

section \<open>A server that executes the statements\<close>

text \<open>
  The row that a grant of the resource's snapshot leads to, and what a MySQL server does with the
  statements of one resource: a created object appears, a second creation is refused with the
  number of a duplicate, a grant on a tenant on which the account has no other privileges shows
  as one row, and the queries are answered.
\<close>

definition granted_row :: "char \<Rightarrow> 's ddl_adapter \<Rightarrow> resource \<Rightarrow> permission_snapshot \<Rightarrow> string" where
  "granted_row q a r s =
     tenant_row q (expected_privileges s) (the (r_tenant_name r)) (da_account a) (ps_grant_option s)"

definition only_granted :: "char \<Rightarrow> 's ddl_adapter \<Rightarrow> resource \<Rightarrow> permission_snapshot \<Rightarrow> tenant_tables \<Rightarrow> bool" where
  "only_granted q a r s t \<longleftrightarrow> list_all (\<lambda>g. contains_text (''ON '' @ tenant_scope (the (r_tenant_name r))) g
     \<longrightarrow> g = granted_row q a r s) (tt_grants t (da_account a))"

inductive ddl_effect ::
    "char \<Rightarrow> 's ddl_adapter \<Rightarrow> resource \<Rightarrow> permission_snapshot \<Rightarrow> string \<Rightarrow> cell list option \<Rightarrow> tenant_tables
     \<Rightarrow> ddl_error + cell list list \<Rightarrow> tenant_tables \<Rightarrow> bool"
  for q :: char and a :: "'s ddl_adapter" and r :: resource and snapshot :: permission_snapshot where
  answered: "asks sql params t rows \<Longrightarrow> params \<noteq> None \<or> sql = account_sql ''SHOW GRANTS FOR '' (da_account a) [] \<Longrightarrow>
    ddl_effect q a r snapshot sql params t (Inr rows) t"
| config_created: "r_resource_config_name r = Some n \<Longrightarrow> tt_configs t n = None \<Longrightarrow>
    build_create_resource_config_sql n (b_resource_min_cpu (da_backend a)) (b_resource_max_cpu (da_backend a)) = Inr sql \<Longrightarrow>
    ddl_effect q a r snapshot sql None t (Inr []) (t\<lparr>tt_configs := (tt_configs t)
      (n \<mapsto> (b_resource_min_cpu (da_backend a), b_resource_max_cpu (da_backend a)))\<rparr>)"
| config_exists: "r_resource_config_name r = Some n \<Longrightarrow> tt_configs t n \<noteq> None \<Longrightarrow>
    build_create_resource_config_sql n (b_resource_min_cpu (da_backend a)) (b_resource_max_cpu (da_backend a)) = Inr sql \<Longrightarrow>
    ddl_effect q a r snapshot sql None t (Inl (MySQLError 1062)) t"
| tenant_created: "r_tenant_name r = Some n \<Longrightarrow> r_resource_config_name r = Some c \<Longrightarrow> tt_tenants t n = None \<Longrightarrow>
    build_create_tenant_sql n c = Inr sql \<Longrightarrow>
    ddl_effect q a r snapshot sql None t (Inr []) (t\<lparr>tt_tenants := (tt_tenants t)(n \<mapsto> c)\<rparr>)"
| tenant_exists: "r_tenant_name r = Some n \<Longrightarrow> r_resource_config_name r = Some c \<Longrightarrow> tt_tenants t n \<noteq> None \<Longrightarrow>
    build_create_tenant_sql n c = Inr sql \<Longrightarrow> ddl_effect q a r snapshot sql None t (Inl (MySQLError 1062)) t"
| user_created: "da_account a \<notin> tt_users t \<Longrightarrow> build_create_user_sql (da_account a) = Inr sql \<Longrightarrow>
    ddl_effect q a r snapshot sql (Some [CText password]) t (Inr []) (t\<lparr>tt_users := insert (da_account a) (tt_users t)\<rparr>)"
| user_exists: "da_account a \<in> tt_users t \<Longrightarrow> build_create_user_sql (da_account a) = Inr sql \<Longrightarrow>
    ddl_effect q a r snapshot sql (Some [CText password]) t (Inl (MySQLError 1396)) t"
| database_created: "r_database_name r = Some n \<Longrightarrow> n \<notin> tt_databases t \<Longrightarrow> build_create_database_sql n = Inr sql \<Longrightarrow>
    ddl_effect q a r snapshot sql None t (Inr []) (t\<lparr>tt_databases := insert n (tt_databases t)\<rparr>)"
| database_exists: "r_database_name r = Some n \<Longrightarrow> n \<in> tt_databases t \<Longrightarrow> build_create_database_sql n = Inr sql \<Longrightarrow>
    ddl_effect q a r snapshot sql None t (Inl (MySQLError 1007)) t"
| privileges_granted: "r_tenant_name r = Some n \<Longrightarrow> only_granted q a r snapshot t \<Longrightarrow>
    build_grant_sql n (da_account a) (Some snapshot) = Inr sql \<Longrightarrow>
    ddl_effect q a r snapshot sql None t (Inr [])
      (t\<lparr>tt_grants := (tt_grants t)(da_account a := List.insert (granted_row q a r snapshot) (tt_grants t (da_account a)))\<rparr>)"

definition executes_ddl ::
    "char \<Rightarrow> 's ddl_adapter \<Rightarrow> resource \<Rightarrow> permission_snapshot \<Rightarrow> ('s \<Rightarrow> tenant_tables) \<Rightarrow> bool" where
  "executes_ddl q a r snapshot view \<longleftrightarrow>
     (\<forall>p s. \<exists>s'. ts_connection (da_server a) p s = (Inr (), s') \<and> view s' = view s)
   \<and> (\<forall>p sql params s res t'. ddl_effect q a r snapshot sql params (view s) res t' \<longrightarrow>
        (\<exists>s'. ts_run (da_server a) p sql params s = (res, s') \<and> view s' = t'))"


text \<open>The administrator's connection can be had.\<close>

definition admin_ready :: "'s ddl_adapter \<Rightarrow> 's ddl_world \<Rightarrow> bool" where
  "admin_ready a w \<longleftrightarrow> pools_inv (dw_pools w) \<and>
     (\<exists>p ps. pool_get (da_env a) (da_backend a) (da_instance a) (da_credential a) (dw_pools w) = (Inr p, ps))"

lemma admin_ready_after:
  assumes "pools_inv ps0"
    and "pool_get (da_env a) (da_backend a) (da_instance a) (da_credential a) ps0 = (Inr p, ps)"
  shows "admin_ready a \<lparr>dw_pools = ps, dw_server = s\<rparr>"
  using pool_get_again [OF assms] pool_get_inv [OF assms(1), of "da_env a" "da_backend a"
      "da_instance a" "da_credential a"] assms(2)
  by (auto simp: admin_ready_def)

lemma statement_executed:
  assumes "executes_ddl q a r snapshot view" and "admin_ready a w"
    and "ddl_effect q a r snapshot sql params (tables view w) res t"
  shows "\<exists>w'. ddl_fetchall a sql params w = (res, w') \<and> tables view w' = t \<and> admin_ready a w'"
proof -
  from assms(2) obtain p ps where inv: "pools_inv (dw_pools w)"
    and p: "pool_get (da_env a) (da_backend a) (da_instance a) (da_credential a) (dw_pools w) = (Inr p, ps)"
    by (auto simp: admin_ready_def)
  from assms(1) obtain s where s: "ts_connection (da_server a) p (dw_server w) = (Inr (), s)" "view s = tables view w"
    unfolding executes_ddl_def by blast
  with assms(1,3) obtain s' where s': "ts_run (da_server a) p sql params s = (res, s')" "view s' = t"
    unfolding executes_ddl_def by metis
  have "ddl_fetchall a sql params w = (res, \<lparr>dw_pools = ps, dw_server = s'\<rparr>)"
    using p s s' by (simp add: ddl_fetchall_def bindW_def acquire_admin_def)
  with s' admin_ready_after [OF inv p] show ?thesis by auto
qed

lemma execute_executed:
  assumes "executes_ddl q a r snapshot view" and "admin_ready a w"
    and "ddl_effect q a r snapshot sql params (tables view w) res t"
  shows "\<exists>w'. ddl_execute a sql params w = ((case res of Inl e \<Rightarrow> Inl e | Inr _ \<Rightarrow> Inr ()), w')
    \<and> tables view w' = t \<and> admin_ready a w'"
  using statement_executed [OF assms]
  by (auto simp: ddl_execute_def bindW_def pureW_def split: sum.splits)

lemma fetchone_executed:
  assumes "executes_ddl q a r snapshot view" and "admin_ready a w"
    and "asks sql (Some params) (tables view w) rows"
  shows "\<exists>w'. ddl_fetchone a sql (Some params) w = (Inr (case rows of [] \<Rightarrow> None | x # _ \<Rightarrow> Some x), w')
    \<and> tables view w' = tables view w \<and> admin_ready a w'"
  using statement_executed [OF assms(1,2) answered [OF assms(3)]]
  by (auto simp: ddl_fetchone_def bindW_def pureW_def)

text \<open>A creation goes through when its statement is accepted or refused as a duplicate, and the object
  is there afterwards.\<close>

lemma create_and_verify_ok:
  assumes "run w = (Inr (), w1) \<or> (\<exists>n. run w = (Inl (MySQLError n), w1) \<and> n \<in> tolerated)"
    and "check w1 = (Inr True, w')"
  shows "create_and_verify run check tolerated w = (Inr (), w')"
  using assms by (auto simp: create_and_verify_def bindW_def catchW_def pureW_def)

text \<open>A resource whose statements can be built.\<close>

definition ddl_ready :: "(json \<Rightarrow> string) \<Rightarrow> 's ddl_adapter \<Rightarrow> resource \<Rightarrow> permission_snapshot \<Rightarrow> bool" where
  "ddl_ready py_str a r snapshot \<longleftrightarrow>
     (case (r_resource_config_name r, r_tenant_name r, r_database_name r) of
        (Some config, Some tenant, Some database) \<Rightarrow>
          resource_config_re config \<and> tenant_re tenant \<and> database_re database
        \<and> \<not> isl (build_create_resource_config_sql config (b_resource_min_cpu (da_backend a)) (b_resource_max_cpu (da_backend a)))
        \<and> \<not> isl (build_grant_sql tenant (da_account a) (Some snapshot))
      | _ \<Rightarrow> False)
   \<and> resource_snapshot py_str r = Inr snapshot"

text \<open>Each object of the resource is absent or as the resource wants it.\<close>

definition resumable :: "char \<Rightarrow> 's ddl_adapter \<Rightarrow> resource \<Rightarrow> permission_snapshot \<Rightarrow> tenant_tables \<Rightarrow> bool" where
  "resumable q a r snapshot t \<longleftrightarrow>
     tt_configs t (the (r_resource_config_name r)) \<in>
       {None, Some (b_resource_min_cpu (da_backend a), b_resource_max_cpu (da_backend a))}
   \<and> tt_tenants t (the (r_tenant_name r)) \<in> {None, r_resource_config_name r}
   \<and> only_granted q a r snapshot t"

lemma ddl_readyD:
  assumes "ddl_ready py_str a r snapshot"
  obtains config tenant database csql gsql where
    "r_resource_config_name r = Some config" "r_tenant_name r = Some tenant" "r_database_name r = Some database"
    "resource_config_re config" "tenant_re tenant" "database_re database" "account_re (da_account a)"
    "build_create_resource_config_sql config (b_resource_min_cpu (da_backend a)) (b_resource_max_cpu (da_backend a)) = Inr csql"
    "build_grant_sql tenant (da_account a) (Some snapshot) = Inr gsql" "resource_snapshot py_str r = Inr snapshot"
proof -
  from assms obtain config tenant database where names: "r_resource_config_name r = Some config"
      "r_tenant_name r = Some tenant" "r_database_name r = Some database"
      "resource_config_re config" "tenant_re tenant" "database_re database"
    and built: "\<not> isl (build_create_resource_config_sql config (b_resource_min_cpu (da_backend a)) (b_resource_max_cpu (da_backend a)))"
      "\<not> isl (build_grant_sql tenant (da_account a) (Some snapshot))"
    and snapshot: "resource_snapshot py_str r = Inr snapshot"
    by (auto simp: ddl_ready_def split: option.splits)
  have built': "\<not> isl x \<Longrightarrow> x = Inr (projr x)" for x :: "ddl_error + string" by (cases x) simp_all
  from that [OF names _ built' [OF built(1)] built' [OF built(2)] snapshot]
    build_grant_sql_Inr(4) [OF built' [OF built(2)]]
  show ?thesis by blast
qed


text \<open>The five steps, each from tables on which its object is absent or as wanted.\<close>

definition with_config :: "'s ddl_adapter \<Rightarrow> resource \<Rightarrow> tenant_tables \<Rightarrow> tenant_tables" where
  "with_config a r t = t\<lparr>tt_configs := (tt_configs t)(the (r_resource_config_name r) \<mapsto>
     (b_resource_min_cpu (da_backend a), b_resource_max_cpu (da_backend a)))\<rparr>"

definition with_tenant :: "resource \<Rightarrow> tenant_tables \<Rightarrow> tenant_tables" where
  "with_tenant r t = t\<lparr>tt_tenants := (tt_tenants t)(the (r_tenant_name r) := r_resource_config_name r)\<rparr>"

definition with_user :: "'s ddl_adapter \<Rightarrow> tenant_tables \<Rightarrow> tenant_tables" where
  "with_user a t = t\<lparr>tt_users := insert (da_account a) (tt_users t)\<rparr>"

definition with_database :: "resource \<Rightarrow> tenant_tables \<Rightarrow> tenant_tables" where
  "with_database r t = t\<lparr>tt_databases := insert (the (r_database_name r)) (tt_databases t)\<rparr>"

definition with_grants :: "char \<Rightarrow> 's ddl_adapter \<Rightarrow> resource \<Rightarrow> permission_snapshot \<Rightarrow> tenant_tables \<Rightarrow> tenant_tables" where
  "with_grants q a r s t = t\<lparr>tt_grants := (tt_grants t)(da_account a :=
     List.insert (granted_row q a r s) (tt_grants t (da_account a)))\<rparr>"

lemma bindW_pure [simp]: "bindW (pureW (Inr x)) f = f x"
  by (rule ext) (simp add: bindW_def pureW_def)

lemma create_step:
  assumes "executes_ddl q a r snapshot view" and "admin_ready a w"
    and "\<exists>res. ddl_effect q a r snapshot sql params (tables view w) res t \<and> (res = Inr [] \<or> res = Inl (MySQLError n))"
    and "asks query (Some ps) t (row # rest)"
    and "\<And>w1 w2. ddl_fetchone a query (Some ps) w1 = (Inr (Some row), w2) \<Longrightarrow> check w1 = (Inr True, w2)"
  shows "\<exists>w'. create_and_verify (ddl_execute a sql params) check {n} w = (Inr (), w') \<and> admin_ready a w'
    \<and> tables view w' = t"
proof -
  from assms(3) obtain w1 where w1: "ddl_execute a sql params w = (Inr (), w1)
      \<or> ddl_execute a sql params w = (Inl (MySQLError n), w1)" "tables view w1 = t" "admin_ready a w1"
    using execute_executed [OF assms(1,2)] by fastforce
  obtain w2 where w2: "ddl_fetchone a query (Some ps) w1 = (Inr (Some row), w2)"
    "tables view w2 = t" "admin_ready a w2"
    using fetchone_executed [OF assms(1) w1(3)] assms(4) w1(2) by fastforce
  have "create_and_verify (ddl_execute a sql params) check {n} w = (Inr (), w2)"
    using w1(1) assms(5) [OF w2(1)] by (intro create_and_verify_ok) auto
  with w2 show ?thesis by blast
qed

lemma create_resource_config_runs:
  assumes "executes_ddl q a r snapshot view" "ddl_ready py_str a r snapshot" "admin_ready a w"
    and "resumable q a r snapshot (tables view w)"
  shows "\<exists>w'. create_resource_config a r w = (Inr (), w') \<and> admin_ready a w'
    \<and> tables view w' = with_config a r (tables view w)"
proof -
  let ?min = "b_resource_min_cpu (da_backend a)" and ?max = "b_resource_max_cpu (da_backend a)"
  obtain config csql where config: "r_resource_config_name r = Some config" "resource_config_re config"
    and csql: "build_create_resource_config_sql config ?min ?max = Inr csql"
    using ddl_readyD [OF assms(2)] by metis
  have "\<exists>res. ddl_effect q a r snapshot csql None (tables view w) res (with_config a r (tables view w))
      \<and> (res = Inr [] \<or> res = Inl (MySQLError 1062))"
  proof (cases "tt_configs (tables view w) config")
    case None
    from config_created [OF config(1) None csql] show ?thesis using config(1)
      by (auto simp: with_config_def)
  next
    case (Some x)
    then have "with_config a r (tables view w) = tables view w"
      using assms(4) config(1) by (auto simp: resumable_def with_config_def map_upd_triv)
    with config_exists [OF config(1) _ csql, of "tables view w"] Some show ?thesis by auto
  qed
  from create_step [OF assms(1,3) this, of config_query "[CText config]" "[CText config, CInt ?min, CInt ?max]" "[]"
      "verify_resource_config a r"] asks_config [of config "with_config a r (tables view w)"] config csql
  show ?thesis
    by (simp add: create_resource_config_def verify_resource_config_def with_config_def validate_name_def
        bindW_def [of "ddl_fetchone _ _ _"] pureW_def [of "Inr _ :: _ + bool"])
qed

lemma create_tenant_runs:
  assumes "executes_ddl q a r snapshot view" "ddl_ready py_str a r snapshot" "admin_ready a w"
    and "resumable q a r snapshot (tables view w)"
  shows "\<exists>w'. create_tenant a r w = (Inr (), w') \<and> admin_ready a w'
    \<and> tables view w' = with_tenant r (tables view w)"
proof -
  obtain config tenant where names: "r_resource_config_name r = Some config" "resource_config_re config"
      "r_tenant_name r = Some tenant" "tenant_re tenant"
    using ddl_readyD [OF assms(2)] by metis
  then obtain sql where sql: "build_create_tenant_sql tenant config = Inr sql"
    by (simp add: build_create_tenant_sql_def validate_name_def)
  have "\<exists>res. ddl_effect q a r snapshot sql None (tables view w) res (with_tenant r (tables view w))
      \<and> (res = Inr [] \<or> res = Inl (MySQLError 1062))"
  proof (cases "tt_tenants (tables view w) tenant")
    case None
    from tenant_created [OF names(3,1) None sql] show ?thesis using names by (auto simp: with_tenant_def)
  next
    case (Some x)
    then have "with_tenant r (tables view w) = tables view w"
      using assms(4) names by (auto simp: resumable_def with_tenant_def map_upd_triv)
    with tenant_exists [OF names(3,1) _ sql, of "tables view w"] Some show ?thesis by auto
  qed
  from create_step [OF assms(1,3) this, of tenant_query "[CText tenant]" "[CText tenant, CText config]" "[]"
      "verify_tenant a r"] asks_tenant [of tenant "with_tenant r (tables view w)"] names sql
  show ?thesis
    by (simp add: create_tenant_def verify_tenant_def with_tenant_def validate_name_def
        bindW_def [of "ddl_fetchone _ _ _"] pureW_def [of "Inr _ :: _ + bool"])
qed

lemma create_user_runs:
  assumes "executes_ddl q a r snapshot view" "ddl_ready py_str a r snapshot" "admin_ready a w"
  shows "\<exists>w'. create_user a r password w = (Inr (), w') \<and> admin_ready a w'
    \<and> tables view w' = with_user a (tables view w)"
proof -
  have "account_re (da_account a)" using ddl_readyD [OF assms(2)] by metis
  then obtain sql where sql: "build_create_user_sql (da_account a) = Inr sql"
    by (simp add: build_create_user_sql_def validate_name_def)
  have "\<exists>res. ddl_effect q a r snapshot sql (Some [CText password]) (tables view w) res (with_user a (tables view w))
      \<and> (res = Inr [] \<or> res = Inl (MySQLError 1396))"
    using user_created [OF _ sql, of "tables view w"] user_exists [OF _ sql, of "tables view w"]
    by (cases "da_account a \<in> tt_users (tables view w)") (fastforce simp: with_user_def insert_absorb)+
  from create_step [OF assms(1,3) this, of user_query "[CText (da_account a)]" "[CText (da_account a), CText ''%'']" "[]"
      "verify_user a r"] asks_user [of "da_account a" "with_user a (tables view w)"] sql
  show ?thesis
    by (simp add: create_user_def verify_user_def with_user_def
        bindW_def [of "ddl_fetchone _ _ _"] pureW_def [of "Inr _ :: _ + bool"])
qed

lemma create_database_runs:
  assumes "executes_ddl q a r snapshot view" "ddl_ready py_str a r snapshot" "admin_ready a w"
  shows "\<exists>w'. create_database a r w = (Inr (), w') \<and> admin_ready a w'
    \<and> tables view w' = with_database r (tables view w)"
proof -
  obtain database where name: "r_database_name r = Some database" "database_re database"
    using ddl_readyD [OF assms(2)] by metis
  then obtain sql where sql: "build_create_database_sql database = Inr sql"
    by (simp add: build_create_database_sql_def validate_name_def)
  have "\<exists>res. ddl_effect q a r snapshot sql None (tables view w) res (with_database r (tables view w))
      \<and> (res = Inr [] \<or> res = Inl (MySQLError 1007))"
    using database_created [OF name(1) _ sql, of "tables view w"] database_exists [OF name(1) _ sql, of "tables view w"] name
    by (cases "database \<in> tt_databases (tables view w)") (auto simp: with_database_def insert_absorb)
  from create_step [OF assms(1,3) this, of database_query "[CText database]" "[CText database]" "[]"
      "verify_database a r"] asks_database [of database "with_database r (tables view w)"] name sql
  show ?thesis
    by (simp add: create_database_def verify_database_def with_database_def validate_name_def
        bindW_def [of "ddl_fetchone _ _ _"] pureW_def [of "Inr _ :: _ + bool"])
qed

lemma grant_privileges_runs:
  assumes "executes_ddl q a r snapshot view" "ddl_ready py_str a r snapshot" "admin_ready a w"
    and "resumable q a r snapshot (tables view w)" and "q \<in> {CHR 0x27, CHR ''`''}"
  shows "\<exists>w'. grant_privileges py_str a r w = (Inr (), w') \<and> admin_ready a w'
    \<and> tables view w' = with_grants q a r snapshot (tables view w)"
proof -
  obtain tenant gsql where tenant: "r_tenant_name r = Some tenant" "tenant_re tenant"
    and account: "account_re (da_account a)" and gsql: "build_grant_sql tenant (da_account a) (Some snapshot) = Inr gsql"
    and snapshot: "resource_snapshot py_str r = Inr snapshot"
    using ddl_readyD [OF assms(2)] by metis
  let ?t = "with_grants q a r snapshot (tables view w)"
  have "ddl_effect q a r snapshot gsql None (tables view w) (Inr []) ?t"
    using privileges_granted [OF tenant(1) _ gsql] assms(4) by (simp add: with_grants_def resumable_def)
  from execute_executed [OF assms(1,3) this] obtain w1 where w1: "ddl_execute a gsql None w = (Inr (), w1)"
    "tables view w1 = ?t" "admin_ready a w1" by auto
  let ?rows = "map (\<lambda>g. [CText g]) (tt_grants ?t (da_account a))"
  have "ddl_effect q a r snapshot (account_sql ''SHOW GRANTS FOR '' (da_account a) []) None (tables view w1) (Inr ?rows) ?t"
    unfolding w1(2) by (rule answered [OF asks_grants]) simp
  from statement_executed [OF assms(1) w1(3) this] obtain w2 where
    w2: "ddl_fetchall a (account_sql ''SHOW GRANTS FOR '' (da_account a) []) None w1 = (Inr ?rows, w2)"
      "tables view w2 = ?t" "admin_ready a w2" by blast
  have "grant_matches tenant (da_account a) snapshot (granted_row q a r snapshot)"
    unfolding granted_row_def using tenant account assms(5) build_grant_sql_Inr(2) [OF gsql]
    by (simp add: tenant_row_read word_ok_spaceless at_ok_spaceless tenant_re_def account_re_def)
  then have "grant_shown tenant (da_account a) snapshot ?rows"
    unfolding grant_shown_iff by (auto simp: with_grants_def)
  then have "verify_grants py_str a r w1 = (Inr True, w2)"
    using tenant account snapshot w2(1)
    by (simp add: verify_grants_def build_show_grants_sql_def validate_name_def bindW_def pureW_def)
  then have "grant_privileges py_str a r w = (Inr (), w2)"
    using tenant snapshot gsql w1(1) by (simp add: grant_privileges_def validate_name_def bindW_def pureW_def)
  with w2 show ?thesis by blast
qed


text \<open>The five forward operations in the order of the adapter's steps.\<close>

definition provision_objects ::
    "(json \<Rightarrow> string) \<Rightarrow> 's ddl_adapter \<Rightarrow> resource \<Rightarrow> string \<Rightarrow> ('s, unit) ddl_action" where
  "provision_objects py_str a r password =
     bindW (create_resource_config a r) (\<lambda>_.
     bindW (create_tenant a r) (\<lambda>_.
     bindW (create_user a r password) (\<lambda>_.
     bindW (create_database a r) (\<lambda>_.
       grant_privileges py_str a r))))"

definition provisioned :: "char \<Rightarrow> 's ddl_adapter \<Rightarrow> resource \<Rightarrow> permission_snapshot \<Rightarrow> tenant_tables \<Rightarrow> tenant_tables" where
  "provisioned q a r s t =
     with_grants q a r s (with_database r (with_user a (with_tenant r (with_config a r t))))"

lemmas with_defs = with_config_def with_tenant_def with_user_def with_database_def with_grants_def

lemma resumable_with:
  assumes "resumable q a r s t"
  shows "resumable q a r s (with_config a r t)" "resumable q a r s (with_tenant r t)"
    "resumable q a r s (with_user a t)" "resumable q a r s (with_database r t)"
    "resumable q a r s (with_grants q a r s t)"
  using assms by (auto simp: resumable_def with_defs only_granted_def list_all_iff split: if_splits)

lemma provision_objects_runs:
  assumes "executes_ddl q a r snapshot view" "ddl_ready py_str a r snapshot" "admin_ready a w"
    and "resumable q a r snapshot (tables view w)" and "q \<in> {CHR 0x27, CHR ''`''}"
  shows "\<exists>w'. provision_objects py_str a r password w = (Inr (), w') \<and> admin_ready a w'
    \<and> tables view w' = provisioned q a r snapshot (tables view w)"
proof -
  obtain w1 where w1: "create_resource_config a r w = (Inr (), w1)" "admin_ready a w1"
    "tables view w1 = with_config a r (tables view w)"
    using create_resource_config_runs [OF assms(1-4)] by blast
  then have r1: "resumable q a r snapshot (tables view w1)" using resumable_with [OF assms(4)] by simp
  obtain w2 where w2: "create_tenant a r w1 = (Inr (), w2)" "admin_ready a w2"
    "tables view w2 = with_tenant r (tables view w1)"
    using create_tenant_runs [OF assms(1,2) w1(2) r1] by blast
  then have r2: "resumable q a r snapshot (tables view w2)" using resumable_with [OF r1] by simp
  obtain w3 where w3: "create_user a r password w2 = (Inr (), w3)" "admin_ready a w3"
    "tables view w3 = with_user a (tables view w2)"
    using create_user_runs [OF assms(1,2) w2(2)] by blast
  then have r3: "resumable q a r snapshot (tables view w3)" using resumable_with [OF r2] by simp
  obtain w4 where w4: "create_database a r w3 = (Inr (), w4)" "admin_ready a w4"
    "tables view w4 = with_database r (tables view w3)"
    using create_database_runs [OF assms(1,2) w3(2)] by blast
  then have r4: "resumable q a r snapshot (tables view w4)" using resumable_with [OF r3] by simp
  obtain w5 where "grant_privileges py_str a r w4 = (Inr (), w5)" "admin_ready a w5"
    "tables view w5 = with_grants q a r snapshot (tables view w4)"
    using grant_privileges_runs [OF assms(1,2) w4(2) r4 assms(5)] by blast
  with w1 w2 w3 w4 show ?thesis
    by (auto simp: provision_objects_def bindW_def provisioned_def)
qed

lemma provisioned_again:
  "ddl_ready py_str a r s \<Longrightarrow> provisioned q a r s (provisioned q a r s t) = provisioned q a r s t"
  by (simp add: provisioned_def with_defs insert_absorb fun_upd_def fun_eq_iff)

lemma objects_present_with:
  assumes "r_resource_config_name r = Some c" "r_tenant_name r = Some n" "r_database_name r = Some d"
  shows "objects_present a r (provisioned q a r s t)"
  using assms by (simp add: objects_present_def provisioned_def with_defs)

text \<open>C21: a step may be repeated. On a server that executes the statements, from any tables on which the
  objects of the resource are absent or as it wants them (what an attempt that was interrupted
  anywhere leaves behind), the five creation steps go through and leave exactly the objects of the
  resource added; going through all of them again also succeeds and changes no table.\<close>

theorem provisioning_resumes:
  assumes "executes_ddl q a r snapshot view" "ddl_ready py_str a r snapshot" "admin_ready a w"
    and "resumable q a r snapshot (tables view w)" and "q \<in> {CHR 0x27, CHR ''`''}"
  shows "\<exists>w' w''. provision_objects py_str a r password w = (Inr (), w')
    \<and> tables view w' = provisioned q a r snapshot (tables view w)
    \<and> objects_present a r (tables view w')
    \<and> provision_objects py_str a r password' w' = (Inr (), w'')
    \<and> tables view w'' = tables view w'"
proof -
  obtain w' where w': "provision_objects py_str a r password w = (Inr (), w')" "admin_ready a w'"
    "tables view w' = provisioned q a r snapshot (tables view w)"
    using provision_objects_runs [OF assms] by blast
  have "resumable q a r snapshot (tables view w')"
    unfolding w'(3) provisioned_def using assms(4) by (intro resumable_with)
  from provision_objects_runs [OF assms(1,2) w'(2) this assms(5)] obtain w'' where
    "provision_objects py_str a r password' w' = (Inr (), w'')"
    "tables view w'' = provisioned q a r snapshot (tables view w')" by blast
  moreover have "objects_present a r (tables view w')"
    unfolding w'(3) using ddl_readyD [OF assms(2)]
    by (metis (no_types, lifting) objects_present_with)
  ultimately show ?thesis using w' provisioned_again [OF assms(2)] by auto
qed


section \<open>An example\<close>

text \<open>A server whose state is its tables, for the statements of one resource.\<close>

definition shared_adapter :: "int \<Rightarrow> 's tenant_server \<Rightarrow> 's ddl_adapter" where
  "shared_adapter max_cpu srv = \<lparr>da_env = working_env, da_server = srv,
     da_backend = (example_pb 1)\<lparr>b_resource_max_cpu := max_cpu\<rparr>,
     da_instance = hd (instances example_db), da_credential = example_admin 1,
     da_account = ''agentic@tabcdefghi''\<rparr>"

definition default_snapshot :: permission_snapshot where
  "default_snapshot = default_permission_snapshot SCOPE_MULTITENANT"

definition table_query :: "string \<Rightarrow> string \<Rightarrow> tenant_tables \<Rightarrow> cell list list option" where
  "table_query sql name t =
     (if sql = config_query then Some (config_rows name (tt_configs t name))
      else if sql = tenant_query then Some (tenant_rows name (tt_tenants t name))
      else if sql = user_query then Some (if name \<in> tt_users t then [[CText name, CText ''%'']] else [])
      else if sql = database_query then Some (if name \<in> tt_databases t then [[CText name]] else [])
      else if sql = processlist_query then Some (map (\<lambda>n. [CInt n]) (tt_sessions t name))
      else None)"

definition refused :: "int \<Rightarrow> tenant_tables \<Rightarrow> (ddl_error + cell list list) \<times> tenant_tables" where
  "refused n t = (Inl (MySQLError n), t)"

definition table_statement :: "string \<Rightarrow> tenant_tables \<Rightarrow> (ddl_error + cell list list) \<times> tenant_tables" where
  "table_statement sql t =
     (let account = ''agentic@tabcdefghi'';
          row = tenant_row CHR ''`'' (expected_privileges default_snapshot) ''tabcdefghi'' account False
      in if sql = ''CREATE resource_config rc_tabcdefghi min_cpu 0 max_cpu 2''
         then if tt_configs t ''rc_tabcdefghi'' \<noteq> None then refused 1062 t
              else (Inr [], t\<lparr>tt_configs := (tt_configs t)(''rc_tabcdefghi'' \<mapsto> (0, 2))\<rparr>)
         else if sql = ''CREATE tenant tabcdefghi resource_config rc_tabcdefghi''
         then if tt_tenants t ''tabcdefghi'' \<noteq> None then refused 1062 t
              else (Inr [], t\<lparr>tt_tenants := (tt_tenants t)(''tabcdefghi'' \<mapsto> ''rc_tabcdefghi'')\<rparr>)
         else if sql = ''CREATE DATABASE `agentic@tabcdefghi`''
         then if account \<in> tt_databases t then refused 1007 t
              else (Inr [], t\<lparr>tt_databases := insert account (tt_databases t)\<rparr>)
         else if sql = account_sql ''SHOW GRANTS FOR '' account []
         then (Inr (map (\<lambda>g. [CText g]) (tt_grants t account)), t)
         else if sql = projr (build_grant_sql ''tabcdefghi'' account (Some default_snapshot))
         then if list_all (\<lambda>g. contains_text (''ON '' @ tenant_scope ''tabcdefghi'') g \<longrightarrow> g = row) (tt_grants t account)
              then (Inr [], t\<lparr>tt_grants := (tt_grants t)(account := List.insert row (tt_grants t account))\<rparr>)
              else refused 1064 t
         else refused 1064 t)"

definition table_server :: "tenant_tables tenant_server" where
  "table_server = \<lparr>ts_connection = (\<lambda>p t. (Inr (), t)),
     ts_run = (\<lambda>p sql params t. case params of
        None \<Rightarrow> table_statement sql t
      | Some [CText name] \<Rightarrow>
          (case table_query sql name t of
             Some rows \<Rightarrow> (Inr rows, t)
           | None \<Rightarrow>
               if sql \<noteq> projr (build_create_user_sql ''agentic@tabcdefghi'') then refused 1064 t
               else if ''agentic@tabcdefghi'' \<in> tt_users t then refused 1396 t
               else (Inr [], t\<lparr>tt_users := insert ''agentic@tabcdefghi'' (tt_users t)\<rparr>))
      | _ \<Rightarrow> refused 1064 t)\<rparr>"

definition empty_tables :: tenant_tables where
  "empty_tables = \<lparr>tt_configs = Map.empty, tt_tenants = Map.empty, tt_users = {}, tt_databases = {},
     tt_sessions = (\<lambda>_. []), tt_grants = (\<lambda>_. [''GRANT USAGE ON *.* TO `agentic@tabcdefghi`@`%`''])\<rparr>"

lemma example_names:
  "r_tenant_name example_resource = Some ''tabcdefghi''"
  "r_resource_config_name example_resource = Some ''rc_tabcdefghi''"
  "r_database_name example_resource = Some ''agentic@tabcdefghi''"
  by (simp_all add: example_resource_def build_resource_def new_resource_def new_database_identity_def
      example_draws_def Let_def)

lemma example_res:
  "tenant_re ''tabcdefghi''" "resource_config_re ''rc_tabcdefghi''" "account_re ''agentic@tabcdefghi''"
  "database_re ''agentic@tabcdefghi''"
  by (simp_all add: tenant_re_def resource_config_re_def account_re_def database_re_def at_ok_def word_ok_def
      identifier_char_def)

lemma example_statements:
  "build_create_resource_config_sql ''rc_tabcdefghi'' 0 2 = Inr ''CREATE resource_config rc_tabcdefghi min_cpu 0 max_cpu 2''"
  "build_create_tenant_sql ''tabcdefghi'' ''rc_tabcdefghi'' = Inr ''CREATE tenant tabcdefghi resource_config rc_tabcdefghi''"
  "build_create_database_sql ''agentic@tabcdefghi'' = Inr ''CREATE DATABASE `agentic@tabcdefghi`''"
  "\<not> isl (build_create_user_sql ''agentic@tabcdefghi'')"
  "\<not> isl (build_grant_sql ''tabcdefghi'' ''agentic@tabcdefghi'' (Some default_snapshot))"
  by (code_simp+)


lemma example_adapter [simp]:
  "da_account (shared_adapter m srv) = ''agentic@tabcdefghi''" "da_server (shared_adapter m srv) = srv"
  "b_resource_max_cpu (da_backend (shared_adapter m srv)) = m"
  "b_resource_min_cpu (da_backend (shared_adapter m srv)) = 0"
  by (simp_all add: shared_adapter_def example_pb_def backend.defs)

lemma example_granted:
  "granted_row q (shared_adapter m srv) example_resource default_snapshot =
     tenant_row q (expected_privileges default_snapshot) ''tabcdefghi'' ''agentic@tabcdefghi'' False"
  by (simp add: granted_row_def example_names default_snapshot_def default_permission_snapshot_def)

lemma table_query_asks: "asks sql (Some [CText name]) t rows \<Longrightarrow> table_query sql name t = Some rows"
  by (erule asks.cases)
    (auto simp: table_query_def config_query_def tenant_query_def user_query_def database_query_def
      processlist_query_def)

lemma asks_forms:
  "asks sql params t rows \<Longrightarrow> (\<exists>name. params = Some [CText name]) \<or>
     (\<exists>name. params = None \<and> sql = account_sql ''SHOW GRANTS FOR '' name [] \<and> rows = map (\<lambda>g. [CText g]) (tt_grants t name))"
  by (erule asks.cases) auto

lemma not_a_query: "table_query (projr (build_create_user_sql ''agentic@tabcdefghi'')) name t = None"
proof -
  have "list_all (\<lambda>q. projr (build_create_user_sql ''agentic@tabcdefghi'') \<noteq> q)
      [config_query, tenant_query, user_query, database_query, processlist_query]" by code_simp
  then show ?thesis by (simp add: table_query_def)
qed

lemma not_a_grant:
  "list_all (\<lambda>q. projr (build_grant_sql ''tabcdefghi'' ''agentic@tabcdefghi'' (Some default_snapshot)) \<noteq> q)
     [''CREATE resource_config rc_tabcdefghi min_cpu 0 max_cpu 2'', ''CREATE tenant tabcdefghi resource_config rc_tabcdefghi'',
      ''CREATE DATABASE `agentic@tabcdefghi`'', account_sql ''SHOW GRANTS FOR '' ''agentic@tabcdefghi'' []]"
  by code_simp

lemma account_sql_eq: "account_sql x n y = account_sql x n' y \<longleftrightarrow> n = n'"
  by (simp add: account_sql_def)

lemma table_statements:
  "table_statement ''CREATE resource_config rc_tabcdefghi min_cpu 0 max_cpu 2'' t =
     (if tt_configs t ''rc_tabcdefghi'' \<noteq> None then refused 1062 t
      else (Inr [], t\<lparr>tt_configs := (tt_configs t)(''rc_tabcdefghi'' \<mapsto> (0, 2))\<rparr>))"
  "table_statement ''CREATE tenant tabcdefghi resource_config rc_tabcdefghi'' t =
     (if tt_tenants t ''tabcdefghi'' \<noteq> None then refused 1062 t
      else (Inr [], t\<lparr>tt_tenants := (tt_tenants t)(''tabcdefghi'' \<mapsto> ''rc_tabcdefghi'')\<rparr>))"
  "table_statement ''CREATE DATABASE `agentic@tabcdefghi`'' t =
     (if ''agentic@tabcdefghi'' \<in> tt_databases t then refused 1007 t
      else (Inr [], t\<lparr>tt_databases := insert ''agentic@tabcdefghi'' (tt_databases t)\<rparr>))"
  "table_statement (account_sql ''SHOW GRANTS FOR '' ''agentic@tabcdefghi'' []) t =
     (Inr (map (\<lambda>g. [CText g]) (tt_grants t ''agentic@tabcdefghi'')), t)"
  by (simp_all add: table_statement_def Let_def account_sql_def)

lemma table_grant:
  assumes "only_granted CHR ''`'' (shared_adapter 2 table_server) example_resource default_snapshot t"
    and "build_grant_sql ''tabcdefghi'' ''agentic@tabcdefghi'' (Some default_snapshot) = Inr sql"
  shows "table_statement sql t = (Inr [], t\<lparr>tt_grants := (tt_grants t)(''agentic@tabcdefghi'' :=
     List.insert (granted_row CHR ''`'' (shared_adapter 2 table_server) example_resource default_snapshot)
       (tt_grants t ''agentic@tabcdefghi''))\<rparr>)"
proof -
  have "list_all (\<lambda>q. sql \<noteq> q) [''CREATE resource_config rc_tabcdefghi min_cpu 0 max_cpu 2'',
      ''CREATE tenant tabcdefghi resource_config rc_tabcdefghi'', ''CREATE DATABASE `agentic@tabcdefghi`'',
      account_sql ''SHOW GRANTS FOR '' ''agentic@tabcdefghi'' []]"
    using not_a_grant unfolding assms(2) by (simp only: sum.sel)
  moreover have "list_all (\<lambda>g. contains_text (''ON '' @ tenant_scope ''tabcdefghi'') g \<longrightarrow>
      g = granted_row CHR ''`'' (shared_adapter 2 table_server) example_resource default_snapshot)
      (tt_grants t ''agentic@tabcdefghi'')"
    using assms(1) by (simp only: only_granted_def example_names example_adapter option.sel)
  ultimately show ?thesis
    unfolding table_statement_def Let_def assms(2) example_granted
    by (simp only: list.pred_inject sum.sel if_True if_False simp_thms)
qed

lemma table_server_run:
  "ts_run table_server p sql None t = table_statement sql t"
  "table_query sql name t = Some rows \<Longrightarrow> ts_run table_server p sql (Some [CText name]) t = (Inr rows, t)"
  "build_create_user_sql ''agentic@tabcdefghi'' = Inr sql \<Longrightarrow> ts_run table_server p sql (Some [CText name]) t =
     (if ''agentic@tabcdefghi'' \<in> tt_users t then refused 1396 t
      else (Inr [], t\<lparr>tt_users := insert ''agentic@tabcdefghi'' (tt_users t)\<rparr>))"
  using not_a_query by (simp_all add: table_server_def)

lemma table_server_executes:
  "executes_ddl CHR ''`'' (shared_adapter 2 table_server) example_resource default_snapshot id"
proof -
  let ?a = "shared_adapter 2 table_server"
  have "ts_run table_server p sql params s = (res, t')"
    if "ddl_effect CHR ''`'' ?a example_resource default_snapshot sql params s res t'" for p sql params s res t'
    using that
  proof cases
    case (answered rows)
    from asks_forms [OF answered(3)] show ?thesis
    proof
      assume "\<exists>name. params = Some [CText name]"
      then show ?thesis using answered table_query_asks table_server_run(2) by auto
    next
      assume "\<exists>name. params = None \<and> sql = account_sql ''SHOW GRANTS FOR '' name []
        \<and> rows = map (\<lambda>g. [CText g]) (tt_grants s name)"
      then show ?thesis using answered
        by (auto simp: table_server_run(1) table_statements account_sql_eq)
    qed
  next
    case (privileges_granted n)
    then show ?thesis using table_grant by (simp add: example_names table_server_run(1))
  qed (auto simp: example_names example_statements table_server_run table_statements refused_def)
  then show ?thesis by (auto simp: executes_ddl_def table_server_def)
qed


lemma example_admin_ready: "admin_ready (shared_adapter 2 srv) \<lparr>dw_pools = no_super_pools, dw_server = s\<rparr>"
  unfolding admin_ready_def
  by (simp add: shared_adapter_def) (simp add: example_pool_defs example_defs)

lemma example_ddl_ready: "ddl_ready py_str (shared_adapter 2 srv) example_resource default_snapshot"
proof -
  have "r_permission_snapshot_json example_resource = Some (permission_snapshot_to_json default_snapshot)"
    by (simp add: example_resource_def build_resource_def new_resource_def default_snapshot_def Let_def)
  moreover have "permission_snapshot_from_json py_str (permission_snapshot_to_json default_snapshot) = Inr default_snapshot"
    by (rule snapshot_json_inverse) (simp add: snapshot_wf_def default_snapshot_def
        default_permission_snapshot_def default_database_privileges_def all_privileges_def)
  ultimately show ?thesis
    using example_statements example_res
    by (simp add: ddl_ready_def example_names resource_snapshot_def)
qed


abbreviation unopened_world :: "'s \<Rightarrow> 's ddl_world" where
  "unopened_world s \<equiv> \<lparr>dw_pools = no_super_pools, dw_server = s\<rparr>"

lemma example_resumable:
  "resumable CHR ''`'' (shared_adapter 2 table_server) example_resource default_snapshot
     (with_config (shared_adapter 2 table_server) example_resource empty_tables)"
proof -
  have "\<not> contains_text (''ON '' @ tenant_scope ''tabcdefghi'') ''GRANT USAGE ON *.* TO `agentic@tabcdefghi`@`%`''"
    by code_simp
  then show ?thesis
    by (simp add: resumable_def with_config_def example_names empty_tables_def only_granted_def del: contains_text.simps)
qed

theorem provisioning_resumes_witness:
  "(\<exists>w'. provision_objects (\<lambda>_. []) (shared_adapter 2 table_server) example_resource ''Aa1x''
       (unopened_world (with_config (shared_adapter 2 table_server) example_resource empty_tables)) = (Inr (), w')
     \<and> objects_present (shared_adapter 2 table_server) example_resource (dw_server w'))"
  using provisioning_resumes [OF table_server_executes example_ddl_ready, where password = "''Aa1x''" and
      w = "unopened_world (with_config (shared_adapter 2 table_server) example_resource empty_tables)" and py_str = "\<lambda>_. []"]
    example_admin_ready [of table_server] example_resumable
  by simp blast

text \<open>what a creation or a clean-up reports has been read back. On a server that reports its tables,
  whatever the other statements do and whatever fails: a creation that returns has left the object
  with the attributes of the resource in the tables; a preparation of the clean-up that returns
  has left no session of the account; a dropped database is gone; and a clean-up is verified only
  when none of the four objects is there as the resource has it.\<close>

theorem ddl_is_read_back:
  assumes "reports_tables (da_server a) view"
  shows "(create_resource_config a r w = (Inr (), w') \<longrightarrow> tt_configs (tables view w') (the (r_resource_config_name r)) =
        Some (b_resource_min_cpu (da_backend a), b_resource_max_cpu (da_backend a)))
    \<and> (create_tenant a r w = (Inr (), w') \<longrightarrow> tt_tenants (tables view w') (the (r_tenant_name r)) = r_resource_config_name r)
    \<and> (create_user a r password w = (Inr (), w') \<longrightarrow> da_account a \<in> tt_users (tables view w'))
    \<and> (create_database a r w = (Inr (), w') \<longrightarrow> the (r_database_name r) \<in> tt_databases (tables view w'))
    \<and> (prepare_cleanup a r w = (Inr (), w') \<longrightarrow> tt_sessions (tables view w') (da_account a) = [])
    \<and> (drop_database a r w = (Inr (), w') \<longrightarrow> the (r_database_name r) \<notin> tt_databases (tables view w'))
    \<and> (verify_residue_absent a r w = (Inr True, w') \<longrightarrow> objects_absent a r (tables view w'))"
  by (intro conjI impI; (drule created [OF assms] dropped(1,2) [OF assms] residue_seen [OF assms]); auto)

text \<open>A server that refuses every statement but the queries, as for an object that is in use.\<close>

definition refusing_server :: "tenant_tables tenant_server" where
  "refusing_server = table_server\<lparr>ts_run := (\<lambda>p sql params t. case params of
     None \<Rightarrow> refused 1105 t
   | Some _ \<Rightarrow> ts_run table_server p sql params t)\<rparr>"

definition leftover_tables :: tenant_tables where
  "leftover_tables = with_config (shared_adapter 2 refusing_server) example_resource empty_tables"

lemma refusing_server_reports: "reports_tables refusing_server id"
proof -
  have "answer = rows \<and> s' = s"
    if "asks q params s rows" "ts_run refusing_server p q params s = (Inr answer, s')" for p q params s rows answer s'
    using that asks_forms [OF that(1)] table_query_asks
    by (auto simp: refusing_server_def refused_def table_server_run(2) dest: table_query_asks)
  then show ?thesis by (auto simp: reports_tables_def refusing_server_def table_server_def)
qed


lemma example_pool_get:
  "pool_get working_env ((example_pb 1)\<lparr>b_resource_max_cpu := m\<rparr>) (hd (instances example_db)) (example_admin 1) no_super_pools =
     (Inr example_super_pool, snd (example_get working_env 1 1 no_super_pools))"
  "pool_get working_env ((example_pb 1)\<lparr>b_resource_max_cpu := m\<rparr>) (hd (instances example_db)) (example_admin 1)
     (snd (example_get working_env 1 1 no_super_pools)) =
     (Inr example_super_pool, snd (example_get working_env 1 1 no_super_pools))"
  by (simp_all add: example_super_pool_def) (simp_all add: example_pool_defs example_defs)

definition opened_world :: "'s \<Rightarrow> 's ddl_world" where
  "opened_world s = \<lparr>dw_pools = snd (example_get working_env 1 1 no_super_pools), dw_server = s\<rparr>"

lemma refusing_answers:
  "ddl_fetchall (shared_adapter m refusing_server) sql (Some [CText name]) (opened_world t) =
     (fst (ts_run table_server example_super_pool sql (Some [CText name]) t),
      opened_world (snd (ts_run table_server example_super_pool sql (Some [CText name]) t)))"
  "ddl_fetchall (shared_adapter m refusing_server) sql None (opened_world t) =
     (Inl (MySQLError 1105), opened_world t)"
  by (simp_all add: ddl_fetchall_def bindW_def acquire_admin_def opened_world_def shared_adapter_def
      example_pool_get refusing_server_def refused_def split_beta) (simp_all add: table_server_def)

lemma refusing_reads:
  assumes "asks sql (Some [CText name]) t rows"
  shows "ddl_fetchall (shared_adapter m refusing_server) sql (Some [CText name]) (opened_world t) = (Inr rows, opened_world t)"
  using table_server_run(2) [OF table_query_asks [OF assms]] by (simp add: refusing_answers)

lemma leftover_config: "tt_configs leftover_tables ''rc_tabcdefghi'' = Some (0, 2)"
  by (simp add: leftover_tables_def with_config_def example_names)

lemma leftover_verified:
  "verify_resource_config (shared_adapter m refusing_server) example_resource (opened_world leftover_tables) =
     (Inr (m = 2), opened_world leftover_tables)"
  using refusing_reads [OF asks_config [of "''rc_tabcdefghi''" leftover_tables], of m] leftover_config example_res(2)
  by (auto simp: verify_resource_config_def ddl_fetchone_def example_names validate_name_def bindW_def pureW_def)

lemma nothing_else_left:
  "verify_database (shared_adapter m refusing_server) example_resource (opened_world leftover_tables) = (Inr False, opened_world leftover_tables)"
  "verify_tenant (shared_adapter m refusing_server) example_resource (opened_world leftover_tables) = (Inr False, opened_world leftover_tables)"
  "verify_user (shared_adapter m refusing_server) example_resource (opened_world leftover_tables) = (Inr False, opened_world leftover_tables)"
  using refusing_reads [OF asks_database [of "''agentic@tabcdefghi''" leftover_tables], of m]
    refusing_reads [OF asks_tenant [of "''tabcdefghi''" leftover_tables], of m]
    refusing_reads [OF asks_user [of "''agentic@tabcdefghi''" leftover_tables], of m] example_res
  by (simp_all add: verify_database_def verify_tenant_def verify_user_def ddl_fetchone_def example_names
      validate_name_def bindW_def pureW_def leftover_tables_def with_config_def empty_tables_def)

lemma leftover_residue:
  "verify_residue_absent (shared_adapter 4 refusing_server) example_resource (opened_world leftover_tables) =
     (Inr True, opened_world leftover_tables)"
  using nothing_else_left [of 4] leftover_verified [of 4]
  by (simp add: verify_residue_absent_def bindW_def pureW_def)

text \<open>a changed CPU range hides what is left. The resource configuration was created with the range 0 to
  2 and the server refuses to drop it. With the range unchanged the error is raised. After the
  administrator has set the backend's maximum to another value, the same refusal is taken for
  absence: the drop returns, the clean-up is verified, and the configuration is still there.\<close>

theorem changed_range_hides_config:
  "fst (drop_resource_config (shared_adapter 2 refusing_server) example_resource (opened_world leftover_tables)) =
     Inl (MySQLError 1105)
   \<and> drop_resource_config (shared_adapter 4 refusing_server) example_resource (opened_world leftover_tables) =
       (Inr (), opened_world leftover_tables)
   \<and> verify_residue_absent (shared_adapter 4 refusing_server) example_resource (opened_world leftover_tables) =
       (Inr True, opened_world leftover_tables)
   \<and> tt_configs (dw_server (opened_world leftover_tables)) ''rc_tabcdefghi'' = Some (0, 2)"
proof -
  have drop: "drop_resource_config (shared_adapter m refusing_server) example_resource (opened_world leftover_tables) =
      (if m = 2 then Inl (MySQLError 1105) else Inr (), opened_world leftover_tables)" for m
    using example_res(2) leftover_verified [of m]
    by (simp add: drop_resource_config_def example_names validate_name_def build_drop_resource_config_sql_def
        drop_and_verify_absent_def ddl_execute_def bindW_def catchW_def pureW_def refusing_answers)
  then show ?thesis using leftover_residue leftover_config by (simp add: opened_world_def)
qed

theorem ddl_is_read_back_witness:
  "objects_absent (shared_adapter 4 refusing_server) example_resource
     (dw_server (opened_world leftover_tables))"
  using ddl_is_read_back [of "shared_adapter 4 refusing_server" id, where r = example_resource and
      w = "opened_world leftover_tables" and w' = "opened_world leftover_tables"]
    refusing_server_reports leftover_residue by simp

section \<open>The operations behind the adapter\<close>

text \<open>
  What \<open>PolarDBMySQLMultitenantAdapter\<close> calls for each of its operations; the two logins are not
  part of this module and stay a parameter. \<open>class_of\<close> names the driver's exception for a number.
\<close>

definition ddl_call ::
    "(json \<Rightarrow> string) \<Rightarrow> ('s, bool) ddl_action \<Rightarrow> 's ddl_adapter \<Rightarrow> string \<Rightarrow> ddl_op \<Rightarrow> resource \<Rightarrow> ('s, bool) ddl_action" where
  "ddl_call py_str login a password op r =
     (let done = (\<lambda>x. bindW x (\<lambda>_. pureW (Inr True))) in
      case op of
        DDL_CREATE_RESOURCE_CONFIG \<Rightarrow> done (create_resource_config a r)
      | DDL_CREATE_TENANT \<Rightarrow> done (create_tenant a r)
      | DDL_CREATE_USER \<Rightarrow> done (create_user a r password)
      | DDL_CREATE_DATABASE \<Rightarrow> done (create_database a r)
      | DDL_GRANT_PRIVILEGES \<Rightarrow> done (grant_privileges py_str a r)
      | DDL_PREPARE_CLEANUP \<Rightarrow> done (prepare_cleanup a r)
      | DDL_DROP_DATABASE \<Rightarrow> done (drop_database a r)
      | DDL_DROP_TENANT \<Rightarrow> done (drop_tenant a r)
      | DDL_DROP_RESOURCE_CONFIG \<Rightarrow> done (drop_resource_config a r)
      | DDL_VERIFY_RESIDUE_ABSENT \<Rightarrow> verify_residue_absent a r
      | DDL_LOCK_ACCOUNT \<Rightarrow> done (lock_account a r)
      | DDL_TERMINATE_SESSIONS \<Rightarrow> done (terminate_sessions a r)
      | DDL_VERIFY_DISCONNECTED \<Rightarrow> verify_disconnected a r
      | DDL_UNLOCK_ACCOUNT \<Rightarrow> done (unlock_account a r)
      | _ \<Rightarrow> login)"

fun as_py_error :: "(int \<Rightarrow> string) \<Rightarrow> ddl_error \<Rightarrow> py_error" where
  "as_py_error class_of (Raised e) = e"
| "as_py_error class_of (MySQLError n) = OtherError (class_of n)"

text \<open>The answers the adapter gets when the world is \<open>w\<close>.\<close>

definition ddl_answers ::
    "(json \<Rightarrow> string) \<Rightarrow> (int \<Rightarrow> string) \<Rightarrow> ('s, bool) ddl_action \<Rightarrow> 's ddl_adapter \<Rightarrow> string \<Rightarrow> 's ddl_world \<Rightarrow> ddl" where
  "ddl_answers py_str class_of login a password w op r =
     map_sum (as_py_error class_of) id (fst (ddl_call py_str login a password op r w))"

text \<open>The object of a provisioning step, with the attributes of the resource; for the grant, a row of
  \<open>SHOW GRANTS\<close> that grants what the resource's snapshot says. The steps that create nothing have none.\<close>

fun step_object ::
    "(json \<Rightarrow> string) \<Rightarrow> lease_provisioning_step \<Rightarrow> 's ddl_adapter \<Rightarrow> resource \<Rightarrow> tenant_tables \<Rightarrow> bool" where
  "step_object py_str PS_RESOURCE_CONFIG_CREATED a r t = (\<exists>n. r_resource_config_name r = Some n \<and> tt_configs t n =
     Some (b_resource_min_cpu (da_backend a), b_resource_max_cpu (da_backend a)))"
| "step_object py_str PS_TENANT_CREATED a r t = (\<exists>n c. r_tenant_name r = Some n \<and> r_resource_config_name r = Some c
     \<and> tt_tenants t n = Some c)"
| "step_object py_str PS_USER_CREATED a r t = (da_account a \<in> tt_users t)"
| "step_object py_str PS_DATABASE_CREATED a r t = (\<exists>n. r_database_name r = Some n \<and> n \<in> tt_databases t)"
| "step_object py_str PS_GRANTED a r t = (\<exists>n snapshot. r_tenant_name r = Some n
     \<and> resource_snapshot py_str r = Inr snapshot
     \<and> (\<exists>g \<in> set (tt_grants t (da_account a)). grant_matches n (da_account a) snapshot g))"
| "step_object py_str _ a r t = False"

lemma verify_grants_seen:
  assumes "reports_tables (da_server a) view" and "verify_grants py_str a r w = (Inr True, w')"
  shows "step_object py_str PS_GRANTED a r (tables view w')"
proof -
  from assms(2) obtain tenant rows snapshot where "r_tenant_name r = Some tenant"
    and rows: "ddl_fetchall a (account_sql ''SHOW GRANTS FOR '' (da_account a) []) None w = (Inr rows, w')"
    and "resource_snapshot py_str r = Inr snapshot" "grant_shown tenant (da_account a) snapshot rows"
    by (auto simp: verify_grants_def build_show_grants_sql_def action_simps split: if_splits)
  with fetchall_answer [OF assms(1) rows asks_grants] show ?thesis by (auto simp: grant_shown_iff)
qed

lemma granted:
  assumes "reports_tables (da_server a) view" and "grant_privileges py_str a r w = (Inr (), w')"
  shows "step_object py_str PS_GRANTED a r (tables view w')"
proof -
  from assms(2) obtain w1 where "verify_grants py_str a r w1 = (Inr True, w')"
    by (auto simp: grant_privileges_def action_simps split: if_splits)
  with assms(1) show ?thesis by (rule verify_grants_seen)
qed

lemma ddl_answers_Inr:
  "ddl_answers py_str class_of login a password w op r = Inr ok \<longleftrightarrow>
     fst (ddl_call py_str login a password op r w) = Inr ok"
  by (cases "fst (ddl_call py_str login a password op r w)") (simp_all add: ddl_answers_def)

lemma step_object_created:
  assumes "reports_tables (da_server a) view" and "next_provisioning_step s = Some s'" and "s' \<noteq> PS_VERIFIED"
    and "ddl_call py_str login a password (forward_op s) r w = (Inr ok, w')"
  shows "step_object py_str s' a r (tables view w')"
  using assms(2-4) granted [OF assms(1), of py_str r w w']
  by (cases s) (auto simp: ddl_call_def Let_def action_simps dest!: created [OF assms(1)])

text \<open>C20: the markers of a resource agree with the server. When the multitenant adapter, running on
  these operations, moves the provisioning marker of a resource up to the grant, the server's tables
  hold the object of that step with the resource's attributes: the configuration with the backend's
  CPU range, the tenant with this configuration, the account, the database, and a grant that is
  exactly the one of the resource's snapshot. When it sets the last marker of the clean-up, the database and the
  account are gone, and neither the tenant nor the configuration is there as the resource has them;
  they are gone altogether if what was stored under their names was the resource's own, in
  particular if the backend's CPU range is still the one the configuration was made with.\<close>

theorem markers_match_server:
  assumes "reports_tables (da_server a) view"
    and "ddl = ddl_answers py_str class_of login a password w"
  shows "(mt_create ddl decrypt db r = Inr r' \<and> r_provisioning_step r < PS_GRANTED \<longrightarrow>
      step_object py_str (r_provisioning_step r') a r
        (tables view (snd (ddl_call py_str login a password (forward_op (r_provisioning_step r)) r w))))
    \<and> (mt_delete ddl db r = Inr r' \<and> r_cleanup_step r = CS_RESOURCE_CONFIG_DROPPED \<longrightarrow>
      objects_absent a r (tables view w)
      \<and> (objects_owned a r (tables view w) \<longrightarrow> objects_gone a r (tables view w)))"
proof (intro conjI impI)
  assume "mt_create ddl decrypt db r = Inr r' \<and> r_provisioning_step r < PS_GRANTED"
  then have "mt_create ddl decrypt db r = Inr r'" and below: "r_provisioning_step r < PS_GRANTED" by auto
  from mt_create_evidence [OF this] obtain ok where
    "next_provisioning_step (r_provisioning_step r) = Some (r_provisioning_step r')"
    "ddl (forward_op (r_provisioning_step r)) r = Inr ok" by blast
  moreover from this(1) below have "r_provisioning_step r' \<noteq> PS_VERIFIED"
    by (cases "r_provisioning_step r") auto
  ultimately show "step_object py_str (r_provisioning_step r') a r
      (tables view (snd (ddl_call py_str login a password (forward_op (r_provisioning_step r)) r w)))"
    using step_object_created [OF assms(1)] unfolding assms(2) ddl_answers_Inr by (metis prod.collapse)
next
  assume "mt_delete ddl db r = Inr r' \<and> r_cleanup_step r = CS_RESOURCE_CONFIG_DROPPED"
  then have "ddl DDL_VERIFY_RESIDUE_ABSENT r = Inr True"
    by (auto simp: mt_delete_def bindE_Inr ddl_check_Inr)
  then obtain w' where "verify_residue_absent a r w = (Inr True, w')"
    by (auto simp: assms(2) ddl_answers_Inr ddl_call_def) (metis prod.collapse)
  from residue_seen [OF assms(1) this] show absent: "objects_absent a r (tables view w)" by metis
  show "objects_gone a r (tables view w)" if "objects_owned a r (tables view w)"
    using absent that by (rule absent_owned_gone)
qed


lemma table_server_reports: "reports_tables table_server id"
proof -
  have "answer = rows \<and> s' = s"
    if "asks q params s rows" "ts_run table_server p q params s = (Inr answer, s')" for p q params s rows answer s'
  proof -
    from asks_forms [OF that(1)] show ?thesis
    proof
      assume "\<exists>name. params = Some [CText name]"
      then show ?thesis using that table_server_run(2) table_query_asks by fastforce
    next
      assume "\<exists>name. params = None \<and> q = account_sql ''SHOW GRANTS FOR '' name []
        \<and> rows = map (\<lambda>g. [CText g]) (tt_grants s name)"
      then obtain name where q: "params = None" "q = account_sql ''SHOW GRANTS FOR '' name []"
        "rows = map (\<lambda>g. [CText g]) (tt_grants s name)" by blast
      have "q \<noteq> projr (build_grant_sql ''tabcdefghi'' ''agentic@tabcdefghi'' (Some default_snapshot))"
      proof -
        have "hd (projr (build_grant_sql ''tabcdefghi'' ''agentic@tabcdefghi'' (Some default_snapshot))) = CHR ''G''"
          by code_simp
        moreover have "hd q = CHR ''S''" unfolding q(2) account_sql_def by simp
        ultimately show ?thesis by auto
      qed
      then show ?thesis
        using q that(2) by (auto simp: table_server_run(1) table_statement_def Let_def refused_def account_sql_eq
            split: if_splits) (simp_all add: account_sql_def)
    qed
  qed
  then show ?thesis by (auto simp: reports_tables_def table_server_def)
qed

theorem markers_match_server_witness:
  "step_object (\<lambda>_. []) PS_RESOURCE_CONFIG_CREATED (shared_adapter 2 table_server) example_resource
     (dw_server (snd (ddl_call (\<lambda>_. []) (pureW (Inr True)) (shared_adapter 2 table_server) ''Aa1x''
       DDL_CREATE_RESOURCE_CONFIG example_resource
       (unopened_world (with_config (shared_adapter 2 table_server) example_resource empty_tables)))))"
proof -
  let ?a = "shared_adapter 2 table_server"
  let ?w = "unopened_world (with_config ?a example_resource empty_tables)"
  let ?ddl = "ddl_answers (\<lambda>_. []) (\<lambda>_. []) (pureW (Inr True)) ?a ''Aa1x'' ?w"
  have step: "r_provisioning_step example_resource = PS_PENDING"
    by (simp add: example_resource_def build_resource_def new_resource_def Let_def)
  obtain w' where "create_resource_config ?a example_resource ?w = (Inr (), w')"
    using create_resource_config_runs [OF table_server_executes example_ddl_ready [of "\<lambda>_. []"] example_admin_ready,
        of "with_config ?a example_resource empty_tables"] example_resumable by auto
  then have "ddl_do ?ddl DDL_CREATE_RESOURCE_CONFIG example_resource = Inr ()"
    by (simp add: ddl_do_Inr ddl_answers_Inr ddl_call_def bindW_def pureW_def) blast
  moreover have "\<exists>ctx. forward_ddl Inr example_db example_resource = Inr ctx"
    using example_forward_ddl [where rs = "resources example_db" and cs = "capacities example_db" and
        s = "r_provisioning_step example_resource" and w = "r_worker_id example_resource" and
        l = "r_worker_lease_until example_resource"] by simp
  ultimately have "mt_create ?ddl Inr example_db example_resource =
      Inr (example_resource\<lparr>r_provisioning_step := PS_RESOURCE_CONFIG_CREATED\<rparr>)"
    by (auto simp: mt_create_def step)
  then show ?thesis
    using markers_match_server [OF _ refl, of ?a id] table_server_reports step by fastforce
qed


theorem tenant_grants_verify_exactly_witness:
  "\<not> grant_shown ''tabcdefghi'' ''agentic@tabcdefghi'' default_snapshot
     [[CText (tenant_row CHR ''`'' [''ALL PRIVILEGES''] ''tabcdefghi'' ''agentic@tabcdefghi'' False)]]"
proof -
  have "build_grant_sql ''tabcdefghi'' ''agentic@tabcdefghi'' (Some default_snapshot) =
      Inr (projr (build_grant_sql ''tabcdefghi'' ''agentic@tabcdefghi'' (Some default_snapshot)))"
    using example_statements(5)
    by (cases "build_grant_sql ''tabcdefghi'' ''agentic@tabcdefghi'' (Some default_snapshot)") auto
  from tenant_grants_verify_exactly [OF this, of "CHR ''`''" "[''ALL PRIVILEGES'']" False]
  have "grant_shown ''tabcdefghi'' ''agentic@tabcdefghi'' default_snapshot
     [[CText (tenant_row CHR ''`'' [''ALL PRIVILEGES''] ''tabcdefghi'' ''agentic@tabcdefghi'' False)]] \<longrightarrow>
     {''ALL PRIVILEGES''} = set (expected_privileges default_snapshot)" by (simp add: grantable_def)
  moreover have "{''ALL PRIVILEGES''} \<noteq> set (expected_privileges default_snapshot)" by code_simp
  ultimately show ?thesis by blast
qed

end
