(* ===== verification/Spec2Isabelle.thy ===== *)
theory Spec2Isabelle
  imports Fingerprint Pool_Lifecycle Pool_Health Auth_Limits Knowledge_Access Run_SQL Multitenant_DDL
begin

text \<open>
  A verification of the PolarDB tool agentic server (\<open>src/server\<close>): a Python service that hands
  MySQL databases to agents, gives them back and destroys them, and that authenticates the users
  and agents who ask for them. Definitions are translated from the source; the headings of the
  theories name the files.

  \<^bold>\<open>The program's parts and how they interact.\<close> Everything lives in one metadata database.
  \<^item> The resource service (\<open>core/db_instance_service.py\<close>) accepts requests to create, delete and
    restore a DB-instance resource. A creation chooses a backend, takes capacity under row locks,
    and inserts a row in status CREATING; a deletion marks the row and fixes a cooldown.
  \<^item> The dispatcher (\<open>core/db_instance_worker.py\<close>, \<open>core/db_instance_dispatcher.py\<close>) claims due
    rows of multitenant backends with a lease and walks them through their lifecycle, calling an
    adapter (\<open>core/provisioning_adapter.py\<close>) for each remote step, which sends statements
    (\<open>core/multitenant_ddl.py\<close>) on administrator connections (\<open>core/super_connection_pool.py\<close>).
  \<^item> The dedicated pools (\<open>core/dedicated_pool_*.py\<close>, \<open>core/dedicated_mysql.py\<close>) keep whole
    clusters ready: the provisioner buys and prepares members, the worker allocates, checks,
    synchronises permissions, disconnects, reclaims and destroys them.
  \<^item> Authentication (\<open>auth/\<close>, \<open>core/personal_token_service.py\<close>) issues and verifies the tokens under
    which all of this is asked for.
  \<^item> Agent and knowledge access (\<open>core/agent_access.py\<close>, \<open>core/knowledge_subjects.py\<close>,
    \<open>core/agent_knowledge_scope.py\<close>, \<open>polarrag/access.py\<close>, \<open>polarrag/identity.py\<close>) decide who may use an
    agent and what the agent may show them, from departments and mirrored directories.
  \<^item> Instance access (\<open>core/access_control.py\<close>, \<open>core/binding_manager.py\<close>,
    \<open>mcp/tools/agent_sql_access.py\<close>, \<open>core/tenant_provisioner.py\<close>) decides who may use which database
    instance with which account, and makes accounts and tenants.
  \<^item> The SQL tools (\<open>mcp/tools/handlers.py\<close>) check a statement (\<open>core/sql_executor.py\<close>,
    \<open>core/sql_classifier.py\<close>), the rate limit and the access of the caller, and execute it through the
    gateway (\<open>core/sql_gateway.py\<close>) on a connection of the cache (\<open>core/connection_cache.py\<close>).

  \<^bold>\<open>State and operations.\<close> A table is a list of row records (\<open>Prelude\<close>: lookup, update, key
  constraint, counts); \<open>Models.metadb\<close> is the provisioning part of the database and
  \<open>Auth_Models.auth_state\<close> the authentication part together with the process memory it uses. A
  transaction is a function on the state; one that raises returns \<open>Inl\<close> and leaves the state as it
  was, and where the code commits before it raises the function returns the error with the new
  state. Between two transactions of one operation other sessions commit: such an operation takes
  a function \<open>env\<close> (or the state the next transaction finds) as an argument, arbitrary in the
  theorems unless they say otherwise. Clocks and random draws are arguments. Time is an integer
  number of microseconds, Python's unbounded integers are \<open>int\<close>.

  \<^bold>\<open>Theories, in the order of the code.\<close>
  \<^item> \<open>Prelude\<close>, \<open>Text_Ops\<close>, \<open>Models\<close>: tables, leases and chains of steps with the contracts
    \<open>claimable\<close> and \<open>step_chain\<close>; text functions of Python; enumerations, rows, errors and the
    provisioning section of the configuration with its bounds.
  \<^item> \<open>Capacity\<close>, \<open>Placement\<close>, \<open>Permission_Templates\<close>, \<open>Fingerprint\<close>: capacity counters and hourly
    budgets; candidate backends, their order and the reservation over them; privileges, snapshots
    and synchronisation jobs; the request fingerprint and its canonical JSON.
  \<^item> \<open>Resource_Service\<close>, \<open>Adapter\<close>, \<open>Dispatcher\<close>: the service, the adapters and the lifecycle.
    Creation is idempotent and returns the caller's own resource under any interference;
    a worker that lost its claim writes nothing; the irreversible steps come after the cooldown;
    with a cooperating server creation and deletion complete.
  \<^item> \<open>Super_Pool\<close>, \<open>Multitenant_DDL\<close>: the pools of administrator connections to the shared clusters,
    one per backend and fenced by revision; the statements on these clusters and the operations
    that create, verify and drop the objects of a resource. The markers of a resource agree with
    the tables of the server, an interrupted provisioning can be resumed, and a grant verifies
    exactly if it is the one of the snapshot; a changed CPU range hides a leftover configuration.
  \<^item> \<open>Pool_Repository\<close>, \<open>Dedicated_MySQL\<close>, \<open>Pool_Provisioner\<close>, \<open>Pool_Worker\<close>: members and
    purchases, the SQL sent to a member and the verification of its grants, the preparation of a
    member, and every claim and every piece of work of the pool worker. \<open>Pool_Transactions\<close> takes its
    runs apart into transactions; \<open>Pool_Lifecycle\<close> and \<open>Pool_Health\<close> hold what is proved of it.
  \<^item> \<open>Ledger_Spec\<close>: the abstract specification of capacity, a multiset of held entries with the
    steps take and give back. The locale \<open>books_keeper\<close> states what a transaction keeps; it is
    interpreted on balanced books and on paths of the ledger, and every transaction of the service, the
    dispatcher and (in \<open>Pool_Ledger\<close>) the pool worker is proved against it once.
  \<^item> \<open>Rate_Limit\<close>: the sliding-window limiter, equivalent to a reference that keeps the whole log.
  \<^item> \<open>Auth_Models\<close>, \<open>OAuth_Tokens\<close>, \<open>Access_Tokens\<close>: rows, principals and passwords; browser sessions,
    authorization codes, refresh tokens, personal tokens and password mutation; the verification of
    access tokens with the deny list. \<open>Auth_Runs\<close> is the relation of all runs of these operations, with
    the locale \<open>credential_table\<close> (interpreted on refresh tokens, browser sessions and codes) for what
    no run undoes; \<open>Auth_Invariants\<close> has the invariant of the runs; \<open>Auth_Properties\<close> and \<open>Auth_Limits\<close>
    have the theorems: one live token per code, reuse ends the family, a password change ends every
    credential, a revoked access token stays refused, password guesses are bounded.
  \<^item> \<open>Directory\<close>, \<open>Knowledge_Subjects\<close>, \<open>Agent_Access\<close>, \<open>Knowledge_Access\<close>: the mirror of an enterprise
    directory, the searches over nested groups (locale \<open>frontier_search\<close>, interpreted on each of
    them), the subjects of users and groups, who may use an agent, and which knowledge resources a
    user sees through it. Each question the code answers in several ways (one user or many, one
    group or many, upwards or downwards, by a predicate or by a query) has the same answer; the
    exception, users with two identities of one provider, is shown by examples.
  \<^item> \<open>Session_Scan\<close>, \<open>SQL_Statements\<close>: the scan of a statement for session state, the first keyword,
    statements, pagination and risk. The scan is shown to keep what a description of SQL text as
    pieces says; statements that escape the scan and the risk check are shown by examples.
  \<^item> \<open>Token_Buckets\<close>: the rate limits of SQL requests and of tools. The locale \<open>bucket_meter\<close>, interpreted
    on both, bounds the admissions; \<open>bucket_store\<close>, which extends it, is met by the limiter of the tools
    and gives that forgetting idle buckets cannot be noticed. The SQL limiter forgets too early
    for long bursts. A refused caller is told when to come back.
  \<^item> \<open>Connection_Cache\<close>: acquire, release and clean-up as segments between awaits, in any interleaving
    of tasks. The invariant of the orderly runs gives that a leased connection is private, open and the
    one asked for; runs outside them lose this, and the limit on connections is not kept.
  \<^item> \<open>SQL_Gateway\<close>: execution of a statement and of a transaction with every error path. Transactions
    are returned committed, connections are reused only in a clean state, pages cover the result.
  \<^item> \<open>Instance_Access\<close>, \<open>Tenant_Provisioner\<close>: capabilities, permissions, credentials and bindings of users
    and agents, accounts, and the tenants of users on shared instances, step by step.
  \<^item> \<open>Run_SQL\<close>: the two SQL tools composed of all of these and of the resource service: what reaches the
    gateway is authorized, callers do not share connections, deleted resources take no statements.
  \<^item> This theory: the runs of the provisioning system as a whole (\<open>system_run\<close>), sequences of
    transactions (\<open>system_tx\<close>) of any sessions in any interleaving. They refine the ledger and stay within the
    quotas in every state between two transactions, and the operations consist of such transactions.

  \<^bold>\<open>Bounds and fuel.\<close> The loop of the dispatcher (\<open>while True\<close> in \<open>dispatch_claimed\<close>) takes fuel and
  returns \<open>None\<close> when it runs out. Every iteration that goes on moves a step marker forward, the
  chains have at most seven steps, and \<open>dispatch_claimed_terminates\<close> shows that eight iterations
  are enough. The bounded retries of creation keep the bounds of the code. The searches over nested
  groups terminate because visited groups are not revisited. The client of the paged listing
  (\<open>follow_pages\<close>) takes fuel, and one page more than there are resources is enough; so does the
  client of the pages of a query (\<open>follow_sql_pages\<close>), with one page more than there are rows.
  No other definition has fuel.

  \<^bold>\<open>Parameters.\<close> The remote MySQL servers and the cloud API are functions from requests to answers;
  SHA-256, PBKDF2, the ciphers, the JWT library, the SQL parser (sqlparse), the case folding of Unicode
  and external identity providers are functions. Where a theorem needs something of them (a server that executes what it
  is asked to, a digest that prints hexadecimal digits, a decoder that refuses expired tokens) it
  is a named hypothesis, and the witness instantiates the parameter.

  \<^bold>\<open>Not modelled.\<close> HTTP and MCP routing, request parsing and process start-up (glue over the
  services); migrations and schema repair (DDL); the Aliyun clients and the PolarRAG and directory
  clients (remote calls, which appear as parameters where modelled code uses them); metrics,
  logging and audit rows; administrative CRUD over pools, backends and bindings, the
  versioned configuration service, directory synchronisation and external-token exchange:
  these keep to tables the modelled parts only read, and a run of the system does not contain them.
  Isolation is modelled at the level of transactions: row locks make most of the modelled
  ones atomic; the pool worker reads its rows without a lock and relies on its claim, and what another
  session commits between such a read and the commit of the same transaction is outside the model, like
  other isolation anomalies of the database.
  Floating-point seconds of the clocks are integers here, and rational numbers in the token buckets. Cells of
  query results are not rendered, and a cursor is the offset in it. The case conversion of SQL text is
  that of ASCII, and passwords in the connection cache are known by their fingerprint, as in the
  code. The runs of the gateway over several calls have calls of \<open>execute\<close>; transactions and
  parameterized statements are treated one call at a time.
\<close>

section \<open>The whole system\<close>

text \<open>
  The transactions that the system commits on its database: reservations of the service, requests
  to delete and to restore, claims, renewals and all transactions of the dispatchers, and all
  transactions of the pool workers, each of any session, at any time, with anything the session
  read or was answered before. \<open>cfg\<close> is the configuration the limits come from. A run is any sequence of
  such transactions, so every interleaving of requests, workers and heartbeats is a run, and so is
  every prefix of one: the states of a run are those between two transactions. The rows of agents
  and backends, which hold the limits, are not changed in a run.
\<close>

inductive system_tx :: "tenant_provisioning_config \<Rightarrow> metadb \<Rightarrow> metadb \<Rightarrow> bool" for cfg where
  reserves: "reserve_for_mode rt fresh now q engine name fp cands db = Inr (r, db') \<Longrightarrow>
    rt_config rt = cfg \<Longrightarrow> system_tx cfg db db'"
| deletes: "delete_db_instance_resource c now a i hook db = Inr (r, db') \<Longrightarrow> system_tx cfg db db'"
| restores: "restore_db_instance_resource i db = Inr (r, db') \<Longrightarrow> system_tx cfg db db'"
| claims: "claim_one c w now db = (x, db') \<Longrightarrow> system_tx cfg db db'"
| renews: "renew_claim c w now rid db = (y, db') \<Longrightarrow> system_tx cfg db db'"
| dispatches: "dispatcher_tx c w now rid db db' \<Longrightarrow> system_tx cfg db db'"
| tends_pools: "pool_tx pw now db db' \<Longrightarrow> system_tx cfg db db'"

definition system_run :: "tenant_provisioning_config \<Rightarrow> metadb \<Rightarrow> metadb \<Rightarrow> bool" where
  "system_run cfg = (system_tx cfg)\<^sup>*\<^sup>*"

lemma system_run_refl: "system_run cfg db db"
  by (simp add: system_run_def)

lemma system_run_tx: "system_run cfg a b \<Longrightarrow> system_tx cfg b c \<Longrightarrow> system_run cfg a c"
  by (simp add: system_run_def)

lemma system_run_trans: "system_run cfg a b \<Longrightarrow> system_run cfg b c \<Longrightarrow> system_run cfg a c"
  by (simp add: system_run_def)

context books_keeper
begin

lemma system_tx_keeps: "system_tx cfg db db' \<Longrightarrow> B db \<Longrightarrow> B db'"
  by (induction rule: system_tx.induct)
    (erule (2) reserve_keeps
      | erule (1) delete_keeps restore_keeps claim_keeps dispatcher_tx_keeps pool_tx_keeps)+

lemma system_run_keeps: "system_run cfg db db' \<Longrightarrow> B db \<Longrightarrow> B db'"
  unfolding system_run_def by (induction rule: rtranclp_induct) (auto intro: system_tx_keeps)

end

text \<open>C3: every run of the system refines the abstract capacity ledger. Starting with balanced books,
  whatever transactions of requests and workers follow and however they interleave, the books are
  balanced in every state between two transactions, and the entries held there are reached from
  those at the start by steps of the ledger: an entry is taken only below the limits of its agent
  and its backend, and given back one at a time. The limits are those of the start: nobody edits
  agents, backends or the configuration during the run.\<close>

theorem system_refines_ledger:
  assumes "system_run cfg db db'" and "accounted active_count db" and "uniq r_id (resources db)"
  shows "accounted active_count db' \<and> uniq r_id (resources db')
    \<and> (ledger_step (agent_cap cfg (agents db)) (backend_cap (backends db)))\<^sup>*\<^sup>* (held db) (held db')"
  using path.system_run_keeps [OF assms(1), of "agents db" "backends db" "held db"] assms(2,3)
  by (simp add: ledger_reaches_def books_def)

text \<open>C4: no agent and no backend gets beyond its limit. From balanced books, however the transactions
  of requests and workers interleave, an agent that starts within its limit holds no more resources
  than that in any state between two transactions, and likewise a backend. The limits themselves
  are not edited during the run.\<close>

theorem system_within_quota:
  assumes "system_run cfg db db'" and "accounted active_count db" and "uniq r_id (resources db)"
    and "get_agent db a = Some ag" and "get_backend db b = Some bk"
    and "active_count db ''agent'' a \<le> agent_limit cfg ag"
    and "active_count db ''backend'' b \<le> b_max_active_resources bk"
  shows "int (rcount (holds_agent a) (resources db')) \<le> agent_limit cfg ag
    \<and> int (rcount (holds_backend b) (resources db')) \<le> b_max_active_resources bk"
proof -
  have b: "books db" using assms(2,3) by (simp add: books_def)
  then have "(ledger_step (agent_cap cfg (agents db)) (backend_cap (backends db)))\<^sup>*\<^sup>* (held db) (held db')"
    using path.system_run_keeps [OF assms(1), of "agents db" "backends db" "held db"]
    by (simp add: ledger_reaches_def)
  from ledger_path_caps(1) [OF this, of a] ledger_path_caps(2) [OF this, of b] show ?thesis
    using assms(4-7) counters_count [OF b]
    by (simp add: held_counts agent_cap_def backend_cap_def)
qed

lemma create_is_run:
  assumes "\<And>k d. system_run cfg d (env k d)" and "rt_config rt = cfg"
  shows "system_run cfg db (snd (create_db_instance_resource rt env fresh now in_tx q db))"
proof (rule create_invariant [where P = "system_run cfg db"])
  show "system_run cfg db (env k d)" if "system_run cfg db d" for k d
    using that assms(1) by (rule system_run_trans)
  show "system_run cfg db d'"
    if "system_run cfg db d" "reserve_for_mode rt fresh now q engine name fp cands d = Inr (r, d')"
    for fresh engine name fp cands d r d'
    using that(1) reserves [OF that(2) assms(2)] by (rule system_run_tx)
qed (rule system_run_refl)




text \<open>with balanced books the admission by counters is the admission by counting: a reservation
  goes through exactly when the entries of the agent and of the backend in the ledger are below
  the limits.\<close>

theorem admission_by_counting:
  assumes "accounted active_count db" and "uniq r_id (resources db)"
  shows "(\<exists>db'. reserve_active_capacity_counters a b la lb db = Inr db') \<longleftrightarrow>
    int (size {#x \<in># held db. fst x = a#}) < la \<and> int (size {#x \<in># held db. snd x = b#}) < lb"
proof (cases "reserve_active_capacity_counters a b la lb db")
  case (Inl e)
  with ledger.reserve_full [OF Inl] counters_count [of db] assms show ?thesis
    by (auto simp: books_def)
next
  case (Inr db')
  with ledger.reserve_limits [OF Inr] counters_count [of db] assms show ?thesis
    by (auto simp: books_def)
qed

section \<open>A concrete run\<close>

abbreviation created_db :: metadb where
  "created_db \<equiv> snd (create_db_instance_resource example_runtime (\<lambda>_ d. d) (\<lambda>_ _ _. example_draws)
     0 False example_request example_db)"

lemma example_system_run: "system_run default_config example_db created_db"
  by (rule create_is_run) (simp_all add: system_run_refl example_runtime_def)

lemma example_db_books:
  "accounted active_count example_db" "uniq r_id (resources example_db)"
  by (simp_all add: accounted_def active_count_def uniq_def example_defs)

theorem system_refines_ledger_witness:
  "(ledger_step (agent_cap default_config (agents example_db)) (backend_cap (backends example_db)))\<^sup>*\<^sup>*
     (held example_db) (held created_db)"
  using system_refines_ledger [OF example_system_run] example_db_books by simp

theorem system_within_quota_witness:
  "int (rcount (holds_agent ''ag'') (resources created_db))
     \<le> agent_limit default_config \<lparr>a_id = ''ag'', a_status = AG_ACTIVE, a_max_active_resources = None\<rparr>"
  using system_within_quota [OF example_system_run example_db_books(1,2), of "''ag''"
      "\<lparr>a_id = ''ag'', a_status = AG_ACTIVE, a_max_active_resources = None\<rparr>" "''be''" example_backend]
  by (simp add: active_count_def example_defs agent_limit_def default_config_def
      effective_max_active_resources_per_agent_def)


theorem admission_by_counting_witness:
  "\<exists>db'. reserve_active_capacity_counters ''ag'' ''be'' 1 1 example_db = Inr db'"
  using admission_by_counting [OF example_db_books(1,2), of "''ag''" "''be''" 1 1]
  by (simp add: held_def example_defs)

end
